(* ===== verification/Prelude.thy ===== *)
theory Prelude
  imports Complex_Main "HOL-Library.Sublist"
begin

text \<open>
  Shared vocabulary of the development: results of fallible Go functions as sums, Go's fixed-width
  integers as integers with the two's complement wrap-around written out, the parts of the
  standard library's string functions that the sources call (\<open>strings.Split\<close>, slicing,
  \<open>strings.TrimSpace\<close>, \<open>strings.ContainsAny\<close>, \<open>strings.HasSuffix\<close>), and the generic lemmas on
  lists that several components need.

  Go strings and byte slices are \<open>char list\<close>s, one \<open>char\<close> per byte, so \<open>length\<close> is Go's
  \<open>len\<close> and comparison is bytewise.
\<close>

named_theorems go_range \<open>values of Go integer expressions that stay in range\<close>
named_theorems frame \<open>what an operation leaves unchanged\<close>
named_theorems inv_pres \<open>operations preserve the component invariant\<close>


section \<open>Results of fallible functions\<close>

text \<open>A Go function returning \<open>(T, error)\<close> is a sum: \<open>Inl\<close> the error, \<open>Inr\<close> the value.\<close>

type_synonym ('e, 'a) result = "'e + 'a"

definition res_bind :: "'e + 'a \<Rightarrow> ('a \<Rightarrow> 'e + 'b) \<Rightarrow> 'e + 'b" where
  "res_bind m f = (case m of Inl e \<Rightarrow> Inl e | Inr x \<Rightarrow> f x)"

lemma res_bind_simps [simp]:
  "res_bind (Inl e) f = Inl e"
  "res_bind (Inr x) f = f x"
  by (simp_all add: res_bind_def)

lemma res_bind_eq_Inr [simp]: "res_bind m f = Inr y \<longleftrightarrow> (\<exists>x. m = Inr x \<and> f x = Inr y)"
  by (cases m) simp_all

lemma res_bind_eq_Inl:
  "res_bind m f = Inl e \<longleftrightarrow> m = Inl e \<or> (\<exists>x. m = Inr x \<and> f x = Inl e)"
  by (cases m) simp_all

text \<open>
  \<open>if cond { return err }\<close> and \<open>v, err := f(); if err != nil { return err }\<close> as steps of a chain of
  \<open>res_bind\<close>.
\<close>

definition reject_if :: "bool \<Rightarrow> 'e \<Rightarrow> 'e + unit" where
  "reject_if b e = (if b then Inl e else Inr ())"

definition ok_or :: "'a option \<Rightarrow> 'e \<Rightarrow> 'e + 'a" where
  "ok_or x e = (case x of None \<Rightarrow> Inl e | Some v \<Rightarrow> Inr v)"

lemma reject_if_simps [simp]:
  "reject_if True e = Inl e" "reject_if False e = Inr ()"
  "reject_if b e = Inr u \<longleftrightarrow> \<not> b" "reject_if b e = Inl e' \<longleftrightarrow> b \<and> e' = e"
  by (auto simp: reject_if_def)

lemma ok_or_simps [simp]:
  "ok_or None e = Inl e" "ok_or (Some v) e = Inr v"
  "ok_or x e = Inr y \<longleftrightarrow> x = Some y" "ok_or x e = Inl e' \<longleftrightarrow> x = None \<and> e' = e"
  by (auto simp: ok_or_def split: option.splits)

definition is_ok :: "'e + 'a \<Rightarrow> bool" where
  "is_ok m = (case m of Inl _ \<Rightarrow> False | Inr _ \<Rightarrow> True)"

lemma is_ok_simps [simp]: "is_ok (Inl e) = False" "is_ok (Inr x) = True"
  by (simp_all add: is_ok_def)

lemma is_ok_iff: "is_ok m \<longleftrightarrow> (\<exists>x. m = Inr x)"
  by (cases m) simp_all


section \<open>Fixed-width integers\<close>

definition maxInt64 :: int where "maxInt64 = 9223372036854775807"
definition minInt64 :: int where "minInt64 = - 9223372036854775808"
definition maxInt32 :: int where "maxInt32 = 2147483647"
definition minInt32 :: int where "minInt32 = - 2147483648"

text \<open>The value a Go expression of type \<open>int64\<close> (\<open>int32\<close>) has when its mathematical value is \<open>x\<close>.\<close>

definition i64 :: "int \<Rightarrow> int" where
  "i64 x = (x + 9223372036854775808) mod 18446744073709551616 - 9223372036854775808"

definition i32 :: "int \<Rightarrow> int" where
  "i32 x = (x + 2147483648) mod 4294967296 - 2147483648"

definition in_i64 :: "int \<Rightarrow> bool" where
  "in_i64 x \<longleftrightarrow> minInt64 \<le> x \<and> x \<le> maxInt64"

definition in_i32 :: "int \<Rightarrow> bool" where
  "in_i32 x \<longleftrightarrow> minInt32 \<le> x \<and> x \<le> maxInt32"

lemmas int_bounds_defs = maxInt64_def minInt64_def maxInt32_def minInt32_def in_i64_def in_i32_def

lemma i64_range [go_range]: "in_i64 (i64 x)"
proof -
  have "0 \<le> (x + 9223372036854775808) mod 18446744073709551616"
    and "(x + 9223372036854775808) mod 18446744073709551616 < 18446744073709551616"
    by simp_all
  then show ?thesis by (simp add: i64_def int_bounds_defs)
qed

lemma i64_id [go_range]: "in_i64 x \<Longrightarrow> i64 x = x"
  by (simp add: i64_def int_bounds_defs)

lemma i32_range [go_range]: "in_i32 (i32 x)"
proof -
  have "0 \<le> (x + 2147483648) mod 4294967296" and "(x + 2147483648) mod 4294967296 < 4294967296"
    by simp_all
  then show ?thesis by (simp add: i32_def int_bounds_defs)
qed

lemma i32_id [go_range]: "in_i32 x \<Longrightarrow> i32 x = x"
  by (simp add: i32_def int_bounds_defs)

lemma in_i32_i64: "in_i32 x \<Longrightarrow> in_i64 x"
  by (simp add: int_bounds_defs)

text \<open>
  \<open>time.Time.Sub\<close> saturates instead of wrapping: the difference of two instants is clipped to
  the range of \<open>time.Duration\<close>.
\<close>

definition sat64 :: "int \<Rightarrow> int" where
  "sat64 x = (if x < minInt64 then minInt64 else if maxInt64 < x then maxInt64 else x)"

lemma sat64_id: "in_i64 x \<Longrightarrow> sat64 x = x"
  by (simp add: sat64_def in_i64_def)


section \<open>Strings\<close>

text \<open>\<open>strings.Split(s, sep)\<close> for a one-byte separator.\<close>

fun go_split :: "char \<Rightarrow> string \<Rightarrow> string list" where
  "go_split c [] = [[]]"
| "go_split c (x # xs) =
     (if x = c then [] # go_split c xs
      else (case go_split c xs of [] \<Rightarrow> [[x]] | y # ys \<Rightarrow> (x # y) # ys))"

lemma go_split_not_Nil [simp]: "go_split c s \<noteq> []"
  by (induction s) (auto split: list.splits)

lemma go_split_no_sep: "c \<notin> set s \<Longrightarrow> go_split c s = [s]"
  by (induction s) auto

lemma go_split_append_sep: "c \<notin> set s \<Longrightarrow> go_split c (s @ c # t) = s # go_split c t"
  by (induction s) (auto split: list.splits)

lemma go_split_parts: "p \<in> set (go_split c s) \<Longrightarrow> c \<notin> set p"
proof (induction s arbitrary: p)
  case (Cons x xs)
  obtain y ys where split: "go_split c xs = y # ys"
    by (cases "go_split c xs") simp_all
  from Cons.prems consider "x = c" "p = []" | "p \<in> set (go_split c xs)" | "x \<noteq> c" "p = x # y"
    by (auto simp: split split: if_splits)
  then show ?case
  proof cases
    case 3
    then show ?thesis using Cons.IH [of y] by (simp add: split)
  qed (auto dest: Cons.IH)
qed simp

text \<open>Joining the parts with the separator gives the string back.\<close>

fun join_sep :: "char \<Rightarrow> string list \<Rightarrow> string" where
  "join_sep c [] = []"
| "join_sep c [p] = p"
| "join_sep c (p # ps) = p @ c # join_sep c ps"

lemma join_go_split: "join_sep c (go_split c s) = s"
proof (induction s)
  case (Cons x xs)
  obtain y ys where split: "go_split c xs = y # ys"
    by (cases "go_split c xs") simp_all
  show ?case using Cons.IH by (cases ys) (auto simp: split)
qed simp

text \<open>Go's \<open>s[lo:hi]\<close> for \<open>lo \<le> hi \<le> len(s)\<close>; every use below is guarded by a length check.\<close>

definition substr :: "nat \<Rightarrow> nat \<Rightarrow> 'a list \<Rightarrow> 'a list" where
  "substr lo hi s = take (hi - lo) (drop lo s)"

lemma substr_append_left: "hi \<le> length s \<Longrightarrow> substr lo hi (s @ t) = substr lo hi s"
  by (simp add: substr_def)

lemma substr_join: "lo \<le> mid \<Longrightarrow> mid \<le> hi \<Longrightarrow> substr lo mid s @ substr mid hi s = substr lo hi s"
  using take_add [of "mid - lo" "hi - mid" "drop lo s"] by (simp add: substr_def)

lemma substr_all: "length s \<le> hi \<Longrightarrow> substr 0 hi s = s"
  by (simp add: substr_def)

lemma substr_Nil [simp]: "substr lo hi [] = []"
  by (simp add: substr_def)

definition containsAny :: "string \<Rightarrow> string \<Rightarrow> bool" where
  "containsAny s cs = list_ex (\<lambda>c. c \<in> set cs) s"

definition hasSuffix :: "string \<Rightarrow> string \<Rightarrow> bool" where
  "hasSuffix s t = suffix t s"

definition hasPrefix :: "string \<Rightarrow> string \<Rightarrow> bool" where
  "hasPrefix s t = prefix t s"

text \<open>\<open>strings.Contains\<close>.\<close>

fun containsStr :: "string \<Rightarrow> string \<Rightarrow> bool" where
  "containsStr [] t = (t = [])"
| "containsStr (x # xs) t = (prefix t (x # xs) \<or> containsStr xs t)"

lemma containsStr_iff: "containsStr s t \<longleftrightarrow> sublist t s"
  by (induction s) (auto simp: sublist_Cons_right)

text \<open>
  \<open>strings.TrimSpace\<close> removes leading and trailing white space runes as \<open>unicode.IsSpace\<close> has
  them; a rune is given by its UTF-8 encoding.
\<close>

definition space_encodings :: "string list" where
  "space_encodings =
     [[CHR 0x09], [CHR 0x0A], [CHR 0x0B], [CHR 0x0C], [CHR 0x0D], [CHR 0x20],
      [CHR 0xC2, CHR 0x85], [CHR 0xC2, CHR 0xA0], [CHR 0xE1, CHR 0x9A, CHR 0x80],
      [CHR 0xE2, CHR 0x80, CHR 0x80], [CHR 0xE2, CHR 0x80, CHR 0x81], [CHR 0xE2, CHR 0x80, CHR 0x82],
      [CHR 0xE2, CHR 0x80, CHR 0x83], [CHR 0xE2, CHR 0x80, CHR 0x84], [CHR 0xE2, CHR 0x80, CHR 0x85],
      [CHR 0xE2, CHR 0x80, CHR 0x86], [CHR 0xE2, CHR 0x80, CHR 0x87], [CHR 0xE2, CHR 0x80, CHR 0x88],
      [CHR 0xE2, CHR 0x80, CHR 0x89], [CHR 0xE2, CHR 0x80, CHR 0x8A], [CHR 0xE2, CHR 0x80, CHR 0xA8],
      [CHR 0xE2, CHR 0x80, CHR 0xA9], [CHR 0xE2, CHR 0x80, CHR 0xAF], [CHR 0xE2, CHR 0x81, CHR 0x9F],
      [CHR 0xE3, CHR 0x80, CHR 0x80]]"

text \<open>Strip one of the given non-empty prefixes as often as one matches.\<close>

fun strip_prefixes :: "string list \<Rightarrow> nat \<Rightarrow> string \<Rightarrow> string" where
  "strip_prefixes es 0 s = s"
| "strip_prefixes es (Suc n) s =
     (case find (\<lambda>e. prefix e s) es of
        None \<Rightarrow> s
      | Some e \<Rightarrow> strip_prefixes es n (drop (length e) s))"

definition trimSpace :: "string \<Rightarrow> string" where
  "trimSpace s =
     (let left = strip_prefixes space_encodings (length s) s
      in rev (strip_prefixes (map rev space_encodings) (length left) (rev left)))"

lemma strip_prefixes_length: "length (strip_prefixes es n s) \<le> length s"
proof (induction es n s rule: strip_prefixes.induct)
  case (2 es n s)
  show ?case
  proof (cases "find (\<lambda>e. prefix e s) es")
    case (Some e)
    then show ?thesis using 2 [OF Some] by simp
  qed simp
qed simp

lemma trimSpace_length: "length (trimSpace s) \<le> length s"
  unfolding trimSpace_def Let_def
  using strip_prefixes_length [of space_encodings "length s" s]
    strip_prefixes_length order_trans by (metis length_rev)

text \<open>Nothing is trimmed from a string that starts and ends with bytes no white space rune has there.\<close>

lemma trimSpace_id:
  assumes "s \<noteq> []" and "hd s \<notin> set (map hd space_encodings)" and "last s \<notin> set (map last space_encodings)"
  shows "trimSpace s = s"
proof -
  have none: "find (\<lambda>e. prefix e t) es = None" if "t \<noteq> []" "hd t \<notin> set (map hd es)" "[] \<notin> set es" for t :: string and es
  proof -
    have "\<not> prefix e t" if "e \<in> set es" for e
    proof
      assume "prefix e t"
      moreover have "e \<noteq> []" using that \<open>[] \<notin> set es\<close> by metis
      ultimately have "hd e = hd t" by (auto simp: prefix_def)
      then show False using that \<open>hd t \<notin> set (map hd es)\<close> by (metis imageI list.set_map)
    qed
    then show ?thesis by (simp add: find_None_iff)
  qed
  have stop: "strip_prefixes es n t = t" if "t \<noteq> []" "hd t \<notin> set (map hd es)" "[] \<notin> set es" for t :: string and es n
    using none [OF that] by (cases n) simp_all
  have "[] \<notin> set space_encodings" by (simp add: space_encodings_def)
  then have left: "strip_prefixes space_encodings (length s) s = s" using assms by (intro stop) simp_all
  have "hd (rev s) \<notin> set (map hd (map rev space_encodings))" using assms by (simp add: hd_rev)
  then have "strip_prefixes (map rev space_encodings) (length s) (rev s) = rev s"
    using assms \<open>[] \<notin> set space_encodings\<close> by (intro stop) auto
  then show ?thesis by (simp add: trimSpace_def left)
qed


section \<open>Digits\<close>

definition is_digit :: "char \<Rightarrow> bool" where
  "is_digit c \<longleftrightarrow> of_char CHR ''0'' \<le> (of_char c :: nat) \<and> (of_char c :: nat) \<le> of_char CHR ''9''"

definition digit_val :: "char \<Rightarrow> int" where
  "digit_val c = int (of_char c) - 48"

definition digit_char :: "nat \<Rightarrow> char" where
  "digit_char d = char_of (48 + d)"

text \<open>The value of a decimal numeral, as \<open>strconv\<close> accumulates it.\<close>

definition digits_val :: "string \<Rightarrow> int" where
  "digits_val s = foldl (\<lambda>acc c. 10 * acc + digit_val c) 0 s"

text \<open>Decimal digits of a number, padded with zeros on the left to the given width.\<close>

fun pad_digits :: "nat \<Rightarrow> nat \<Rightarrow> string" where
  "pad_digits 0 n = []"
| "pad_digits (Suc w) n = pad_digits w (n div 10) @ [digit_char (n mod 10)]"

lemma of_char_digit_char: "d < 10 \<Longrightarrow> of_char (digit_char d) = 48 + d"
  by (simp add: digit_char_def)

lemma is_digit_digit_char [simp]: "d < 10 \<Longrightarrow> is_digit (digit_char d)"
  by (simp add: is_digit_def of_char_digit_char)

lemma digit_val_digit_char [simp]: "d < 10 \<Longrightarrow> digit_val (digit_char d) = int d"
  by (simp add: digit_val_def of_char_digit_char)

lemma length_pad_digits [simp]: "length (pad_digits w n) = w"
  by (induction w arbitrary: n) simp_all

lemma pad_digits_are_digits [simp]: "list_all is_digit (pad_digits w n)"
  by (induction w arbitrary: n) simp_all

lemma digits_val_append: "digits_val (s @ [c]) = 10 * digits_val s + digit_val c"
  by (simp add: digits_val_def)

lemma digits_val_pad_digits: "n < 10 ^ w \<Longrightarrow> digits_val (pad_digits w n) = int n"
proof (induction w arbitrary: n)
  case 0
  then show ?case by (simp add: digits_val_def)
next
  case (Suc w)
  then have "n div 10 < 10 ^ w" by (simp add: less_mult_imp_div_less mult.commute)
  then have "digits_val (pad_digits w (n div 10)) = int (n div 10)" by (rule Suc.IH)
  moreover have "int n = 10 * int (n div 10) + int (n mod 10)" by presburger
  ultimately show ?case by (simp add: digits_val_append)
qed

text \<open>Decimal digits of a number without padding (\<open>strconv.Itoa\<close>, \<open>%d\<close>).\<close>

fun dec_digits :: "nat \<Rightarrow> string" where
  "dec_digits n = (if n < 10 then [digit_char n] else dec_digits (n div 10) @ [digit_char (n mod 10)])"

declare dec_digits.simps [simp del]

lemma dec_digits_props: "digits_val (dec_digits n) = int n \<and> list_all is_digit (dec_digits n) \<and> dec_digits n \<noteq> []"
proof (induction n rule: dec_digits.induct)
  case (1 n)
  show ?case
  proof (cases "n < 10")
    case True
    then show ?thesis by (subst (1 2 3) dec_digits.simps) (simp add: digits_val_def)
  next
    case False
    moreover have "int n = 10 * int (n div 10) + int (n mod 10)" by presburger
    ultimately show ?thesis
      using 1 by (subst (1 2 3) dec_digits.simps) (simp add: digits_val_append)
  qed
qed

lemmas digits_val_dec_digits [simp] = dec_digits_props [THEN conjunct1]
lemmas dec_digits_are_digits [simp] = dec_digits_props [THEN conjunct2, THEN conjunct1]
lemmas dec_digits_not_Nil [simp] = dec_digits_props [THEN conjunct2, THEN conjunct2]

definition show_int :: "int \<Rightarrow> string" where
  "show_int n = (if n < 0 then CHR ''-'' # dec_digits (nat (- n)) else dec_digits (nat n))"

text \<open>\<open>digits_val\<close> is positional: appending zeros multiplies by a power of ten.\<close>

lemma digits_val_zeros: "digits_val (s @ replicate k CHR ''0'') = digits_val s * 10 ^ k"
proof (induction k)
  case (Suc k)
  have "digits_val (s @ replicate (Suc k) CHR ''0'') = digits_val ((s @ replicate k CHR ''0'') @ [CHR ''0''])"
    by (simp only: replicate_append_same append_assoc replicate_Suc)
  also have "\<dots> = 10 * digits_val (s @ replicate k CHR ''0'') + digit_val CHR ''0''"
    by (rule digits_val_append)
  finally show ?case using Suc by (simp add: digit_val_def)
qed simp

text \<open>What remains after dropping trailing occurrences of a character.\<close>

definition strip_trailing :: "char \<Rightarrow> string \<Rightarrow> string" where
  "strip_trailing c s = rev (dropWhile (\<lambda>x. x = c) (rev s))"

lemma strip_trailing_decomp: "s = strip_trailing c s @ replicate (length s - length (strip_trailing c s)) c"
proof -
  let ?d = "dropWhile (\<lambda>x. x = c) (rev s)" and ?t = "takeWhile (\<lambda>x. x = c) (rev s)"
  have t: "replicate (length ?t) c = ?t"
    by (rule replicate_length_same) (blast dest: set_takeWhileD)
  have "rev s = ?t @ ?d" by simp
  then have "s = rev ?d @ rev ?t" by (metis rev_append rev_rev_ident)
  moreover have "rev ?t = replicate (length ?t) c" using t by (metis rev_replicate)
  moreover have "length s = length ?t + length ?d" by (metis length_append length_rev takeWhile_dropWhile_id)
  ultimately show ?thesis by (simp add: strip_trailing_def)
qed

lemma length_strip_trailing: "length (strip_trailing c s) \<le> length s"
  using length_dropWhile_le [of "\<lambda>x. x = c" "rev s"] by (simp add: strip_trailing_def)

lemma set_strip_trailing: "set (strip_trailing c s) \<subseteq> set s"
  using set_dropWhileD by (fastforce simp: strip_trailing_def)

end
