(* ===== verification/GoTime.thy ===== *)
theory GoTime
  imports Prelude "HOL-Library.Monad_Syntax"
begin

text \<open>
  Go's \<open>time\<close> package as far as the sources use it. A \<open>time.Time\<close> is its instant: the number of
  nanoseconds since January 1 of year 1, 00:00:00 UTC, which is Go's zero time, so \<open>IsZero\<close> is
  \<open>t = 0\<close> and \<open>UTC()\<close> is the identity. A \<open>time.Duration\<close> is its number of nanoseconds.
  The theory defines the proleptic Gregorian calendar in both directions, \<open>time.Parse\<close> with the
  layout \<open>time.RFC3339Nano\<close> (with Go's liberties: a one-digit hour, a comma before the fraction,
  any number of fraction digits, zone offsets up to 24:60) and the two output layouts the sources
  format with, and proves that parsing inverts formatting.
\<close>

type_synonym time = int
type_synonym duration = int

section \<open>Calendar\<close>

definition nsPerSecond :: int where "nsPerSecond = 1000000000"
definition nsPerDay :: int where "nsPerDay = 86400000000000"

definition is_leap :: "int \<Rightarrow> bool" where
  "is_leap y \<longleftrightarrow> y mod 4 = 0 \<and> (y mod 100 \<noteq> 0 \<or> y mod 400 = 0)"

text \<open>Days between January 1 of year 1 and January 1 of year \<open>y\<close>.\<close>

definition days_before_year :: "int \<Rightarrow> int" where
  "days_before_year y = 365 * (y - 1) + (y - 1) div 4 - (y - 1) div 100 + (y - 1) div 400"

definition month_lens :: "int \<Rightarrow> int list" where
  "month_lens y = [31, if is_leap y then 29 else 28, 31, 30, 31, 30, 31, 31, 30, 31, 30, 31]"

definition days_of_civil :: "int \<Rightarrow> nat \<Rightarrow> int \<Rightarrow> int" where
  "days_of_civil y m d = days_before_year y + sum_list (take (m - 1) (month_lens y)) + (d - 1)"

text \<open>The year of a day number and the day within that year, by 400, 100, 4 and 1 year cycles.\<close>

definition year_yday :: "int \<Rightarrow> int \<times> int" where
  "year_yday d =
     (let n400 = d div 146097; d1 = d mod 146097;
          n100 = min 3 (d1 div 36524); d2 = d1 - 36524 * n100;
          n4 = d2 div 1461; d3 = d2 mod 1461;
          n1 = min 3 (d3 div 365)
      in (400 * n400 + 100 * n100 + 4 * n4 + n1 + 1, d3 - 365 * n1))"

fun find_month :: "int list \<Rightarrow> int \<Rightarrow> nat \<times> int" where
  "find_month [] n = (1, n + 1)"
| "find_month (l # ls) n =
     (if n < l then (1, n + 1) else (case find_month ls (n - l) of (m, d) \<Rightarrow> (Suc m, d)))"

definition civil_of_days :: "int \<Rightarrow> int \<times> nat \<times> int" where
  "civil_of_days d = (case year_yday d of (y, n) \<Rightarrow> (y, find_month (month_lens y) n))"

definition time_Year :: "time \<Rightarrow> int" where
  "time_Year t = fst (year_yday (t div nsPerDay))"

definition time_Date :: "int \<Rightarrow> nat \<Rightarrow> int \<Rightarrow> int \<Rightarrow> int \<Rightarrow> int \<Rightarrow> int \<Rightarrow> time" where
  "time_Date y m d hh mi ss ns =
     (days_of_civil y m d * 86400 + hh * 3600 + mi * 60 + ss) * nsPerSecond + ns"

text \<open>
  The four quotients of the cycle decomposition determine the day number: the key to
  \<open>days_before_year\<close> being the inverse of \<open>year_yday\<close>.
\<close>

lemma days_before_year_cycles:
  assumes "0 \<le> b" "b \<le> 3" "0 \<le> c" "c \<le> 24" "0 \<le> e" "e \<le> 3"
  shows "days_before_year (400 * a + 100 * b + 4 * c + e + 1) = 146097 * a + 36524 * b + 1461 * c + 365 * e"
proof -
  have "(400 * a + 100 * b + 4 * c + e) div 4 = 100 * a + 25 * b + c"
    and "(400 * a + 100 * b + 4 * c + e) div 100 = 4 * a + b"
    and "(400 * a + 100 * b + 4 * c + e) div 400 = a"
    using assms by linarith+
  then show ?thesis by (simp add: days_before_year_def)
qed

lemma mod_zero_bounded: "0 < (x::int) \<Longrightarrow> x \<le> k \<Longrightarrow> x mod k = 0 \<longleftrightarrow> x = k"
  by (cases "x = k") simp_all

lemma div_pred:
  assumes "0 < (k::int)"
  shows "y div k = (y - 1) div k + (if y mod k = 0 then 1 else 0)"
proof -
  have y: "y = k * (y div k) + y mod k" by simp
  have r: "0 \<le> y mod k" "y mod k < k" using assms by simp_all
  show ?thesis
  proof (cases "y mod k = 0")
    case True
    have "y - 1 = k * (y div k - 1) + (k - 1)" using y True by (simp add: algebra_simps)
    then have "(y - 1) div k = y div k - 1" by (rule int_div_pos_eq) (use assms in simp_all)
    then show ?thesis using True by simp
  next
    case False
    have "y - 1 = k * (y div k) + (y mod k - 1)" using y by simp
    then have "(y - 1) div k = y div k" by (rule int_div_pos_eq) (use r False in simp_all)
    then show ?thesis using False by simp
  qed
qed

lemma leap_cycles:
  assumes "0 \<le> b" "b \<le> 3" "0 \<le> c" "c \<le> 24" "0 \<le> e" "e \<le> 3"
  shows "is_leap (400 * a + 100 * b + 4 * c + e + 1) \<longleftrightarrow> e = 3 \<and> (c \<noteq> 24 \<or> b = 3)"
proof -
  have "400 * a + 100 * b + 4 * c + e + 1 = (e + 1) + 4 * (100 * a + 25 * b + c)" by simp
  then have 4: "(400 * a + 100 * b + 4 * c + e + 1) mod 4 = (e + 1) mod 4"
    by (simp only: mod_mult_self2)
  have "400 * a + 100 * b + 4 * c + e + 1 = (4 * c + e + 1) + 100 * (4 * a + b)" by simp
  then have 100: "(400 * a + 100 * b + 4 * c + e + 1) mod 100 = (4 * c + e + 1) mod 100"
    by (simp only: mod_mult_self2)
  have "400 * a + 100 * b + 4 * c + e + 1 = (100 * b + 4 * c + e + 1) + 400 * a" by simp
  then have 400: "(400 * a + 100 * b + 4 * c + e + 1) mod 400 = (100 * b + 4 * c + e + 1) mod 400"
    by (simp only: mod_mult_self2)
  have e4: "(e + 1) mod 4 = 0 \<longleftrightarrow> e = 3" using assms mod_zero_bounded [of "e + 1" 4] by simp
  have c100: "(4 * c + e + 1) mod 100 = 0 \<longleftrightarrow> 4 * c + e = 99"
    using assms mod_zero_bounded [of "4 * c + e + 1" 100] by simp
  have b400: "(100 * b + 4 * c + e + 1) mod 400 = 0 \<longleftrightarrow> 100 * b + 4 * c + e = 399"
    using assms mod_zero_bounded [of "100 * b + 4 * c + e + 1" 400] by linarith
  show ?thesis unfolding is_leap_def 4 100 400 e4 c100 b400 using assms by auto
qed

lemma year_yday_correct:
  assumes "year_yday d = (y, n)"
  shows "d = days_before_year y + n" and "0 \<le> n" and "n < (if is_leap y then 366 else 365)"
proof -
  define a d1 b d2 c d3 e where defs: "a = d div 146097" "d1 = d mod 146097"
    "b = min 3 (d1 div 36524)" "d2 = d1 - 36524 * b" "c = d2 div 1461" "d3 = d2 mod 1461"
    "e = min 3 (d3 div 365)"
  have y: "y = 400 * a + 100 * b + 4 * c + e + 1" and n: "n = d3 - 365 * e"
    using assms by (simp_all only: year_yday_def Let_def prod.inject defs)
  have d1: "0 \<le> d1" "d1 < 146097" by (simp_all add: defs)
  have b: "0 \<le> b" "b \<le> 3" using d1 by (auto simp: defs(3) pos_imp_zdiv_nonneg_iff)
  have d2: "0 \<le> d2" "d2 < (if b = 3 then 36525 else 36524)"
    using d1 unfolding defs(3,4) by (auto simp: min_def split: if_splits) (presburger+)?
  have c: "0 \<le> c" "c \<le> 24" using d2 by (auto simp: defs(5) pos_imp_zdiv_nonneg_iff split: if_splits)
  have d3: "0 \<le> d3" "d3 < 1461" by (simp_all add: defs)
  have d23: "d2 = 1461 * c + d3" by (simp add: defs)
  have d3': "c = 24 \<and> b \<noteq> 3 \<longrightarrow> d3 < 1460" using d2 d23 by auto
  have e: "0 \<le> e" "e \<le> 3" using d3 by (auto simp: defs(7) pos_imp_zdiv_nonneg_iff)
  have n3: "0 \<le> n" "n < (if e = 3 then 366 else 365)"
    using d3 unfolding n defs(7) by (auto simp: min_def split: if_splits) (presburger+)?
  have n3': "e = 3 \<and> c = 24 \<and> b \<noteq> 3 \<longrightarrow> n < 365" using d3' n by auto
  have da: "d = 146097 * a + d1" by (simp add: defs)
  have "days_before_year y = 146097 * a + 36524 * b + 1461 * c + 365 * e"
    unfolding y using b c e by (rule days_before_year_cycles)
  then show "d = days_before_year y + n" using da d23 n defs(4) by simp
  show "0 \<le> n" by (rule n3)
  have "is_leap y \<longleftrightarrow> e = 3 \<and> (c \<noteq> 24 \<or> b = 3)"
    unfolding y using b c e by (rule leap_cycles)
  then show "n < (if is_leap y then 366 else 365)" using n3 n3' by auto
qed

text \<open>Leap days counted by the three quotients, with the divisibility tests abstracted.\<close>

lemma leap_count:
  fixes y A B C :: int
  assumes "P400 \<Longrightarrow> P100" and "P100 \<Longrightarrow> P4"
  shows "365 * y + (A + (if P4 then 1 else 0)) - (B + (if P100 then 1 else 0)) + (C + (if P400 then 1 else 0))
    = 365 * (y - 1) + A - B + C + (if P4 \<and> (\<not> P100 \<or> P400) then 366 else 365)"
  using assms by (cases P4; cases P100; cases P400) simp_all

lemma days_before_year_Suc:
  "days_before_year (y + 1) = days_before_year y + (if is_leap y then 366 else 365)"
proof -
  have 4: "y div 4 = (y - 1) div 4 + (if y mod 4 = 0 then 1 else 0)" by (rule div_pred) simp
  have 100: "y div 100 = (y - 1) div 100 + (if y mod 100 = 0 then 1 else 0)" by (rule div_pred) simp
  have 400: "y div 400 = (y - 1) div 400 + (if y mod 400 = 0 then 1 else 0)" by (rule div_pred) simp
  have dvd: "y mod 400 = 0 \<Longrightarrow> y mod 100 = 0" "y mod 100 = 0 \<Longrightarrow> y mod 4 = 0"
    by (auto intro: dvd_trans [of _ 100] dvd_trans [of _ 400] simp flip: dvd_eq_mod_eq_0)
  have "days_before_year (y + 1) = 365 * y + y div 4 - y div 100 + y div 400"
    by (simp add: days_before_year_def)
  then show ?thesis
    unfolding days_before_year_def [of y] is_leap_def 4 100 400
    by (simp only: leap_count [OF dvd])
qed

lemma days_before_year_mono: "y \<le> z \<Longrightarrow> days_before_year y + 365 * (z - y) \<le> days_before_year z"
proof -
  have "days_before_year y + 365 * int k \<le> days_before_year (y + int k)" for k
  proof (induction k)
    case (Suc k)
    have "days_before_year (y + int (Suc k)) = days_before_year (y + int k + 1)"
      by (simp add: algebra_simps)
    also have "\<dots> \<ge> days_before_year (y + int k) + 365" by (simp add: days_before_year_Suc)
    finally show ?case using Suc by simp
  qed simp
  from this [of "nat (z - y)"] show "y \<le> z \<Longrightarrow> ?thesis" by simp
qed

text \<open>A day number lies in the year whose day range contains it.\<close>

lemma year_of_days_ge: "y0 \<le> fst (year_yday d) \<longleftrightarrow> days_before_year y0 \<le> d"
proof -
  obtain y n where yn: "year_yday d = (y, n)" by fastforce
  note c = year_yday_correct [OF yn]
  show ?thesis
  proof (cases "y0 \<le> y")
    case True
    then show ?thesis using days_before_year_mono [OF True] c yn by auto
  next
    case False
    then have "days_before_year (y + 1) + 365 * (y0 - (y + 1)) \<le> days_before_year y0"
      by (intro days_before_year_mono) simp
    then have "d < days_before_year y0" using c False by (auto simp: days_before_year_Suc split: if_splits)
    then show ?thesis using False yn by simp
  qed
qed

lemma year_yday_unique:
  assumes "0 \<le> n" and "n < (if is_leap y then 366 else 365)"
  shows "year_yday (days_before_year y + n) = (y, n)"
proof -
  let ?d = "days_before_year y + n"
  obtain y' n' where yn: "year_yday ?d = (y', n')" by fastforce
  have "y \<le> y'" using year_of_days_ge [of y ?d] assms yn by simp
  moreover have "\<not> y + 1 \<le> y'"
    using year_of_days_ge [of "y + 1" ?d] assms yn by (simp add: days_before_year_Suc)
  ultimately have "y' = y" by simp
  with year_yday_correct(1) [OF yn] yn show ?thesis by simp
qed

text \<open>The first instant after year 9999.\<close>

definition endOfYear9999 :: time where "endOfYear9999 = 3652059 * nsPerDay"

lemma time_Year_ge_1 [simp]: "1 \<le> time_Year t \<longleftrightarrow> 0 \<le> t"
  using year_of_days_ge [of 1 "t div nsPerDay"]
  by (simp add: time_Year_def days_before_year_def nsPerDay_def pos_imp_zdiv_nonneg_iff)

lemma time_Year_le_9999 [simp]: "time_Year t \<le> 9999 \<longleftrightarrow> t < endOfYear9999"
proof -
  have "10000 \<le> time_Year t \<longleftrightarrow> 3652059 \<le> t div nsPerDay"
    using year_of_days_ge [of 10000 "t div nsPerDay"] by (simp add: time_Year_def days_before_year_def)
  also have "\<dots> \<longleftrightarrow> endOfYear9999 \<le> t"
    unfolding endOfYear9999_def nsPerDay_def by linarith
  finally show ?thesis by linarith
qed


section \<open>Dates\<close>

lemma find_month_correct:
  assumes "find_month ls n = (m, d)" and "0 \<le> n" and "n < sum_list ls" and "\<forall>l \<in> set ls. 0 < l"
  shows "1 \<le> m \<and> m \<le> length ls \<and> 1 \<le> d \<and> d \<le> ls ! (m - 1) \<and> sum_list (take (m - 1) ls) + (d - 1) = n"
  using assms
proof (induction ls n arbitrary: m d rule: find_month.induct)
  case (2 l ls n)
  show ?case
  proof (cases "n < l")
    case True
    then show ?thesis using 2 by auto
  next
    case False
    obtain m' d' where md: "find_month ls (n - l) = (m', d')" by fastforce
    with False 2 have "m = Suc m'" "d = d'" by auto
    moreover have "1 \<le> m' \<and> m' \<le> length ls \<and> 1 \<le> d' \<and> d' \<le> ls ! (m' - 1) \<and>
        sum_list (take (m' - 1) ls) + (d' - 1) = n - l"
      using 2 False md by (intro "2.IH") auto
    ultimately show ?thesis by (cases m') (auto simp: nth_Cons')
  qed
qed simp

lemma sum_month_lens: "sum_list (month_lens y) = (if is_leap y then 366 else 365)"
  by (simp add: month_lens_def)

lemma length_month_lens [simp]: "length (month_lens y) = 12"
  by (simp add: month_lens_def)

lemma month_lens_pos: "\<forall>l \<in> set (month_lens y). 0 < l"
  by (simp add: month_lens_def)

lemma month_lens_le_31: "i < 12 \<Longrightarrow> month_lens y ! i \<le> 31"
proof -
  assume "i < 12"
  have "\<forall>l \<in> set (month_lens y). l \<le> 31" by (simp add: month_lens_def)
  then show ?thesis using \<open>i < 12\<close> by simp
qed

lemma civil_of_days_correct:
  assumes "civil_of_days d = (y, m, dd)"
  shows "d = days_of_civil y m dd" and "1 \<le> m" and "m \<le> 12" and "1 \<le> dd"
    and "dd \<le> month_lens y ! (m - 1)" and "y = fst (year_yday d)"
proof -
  obtain n where yn: "year_yday d = (y, n)" and md: "find_month (month_lens y) n = (m, dd)"
    using assms by (auto simp: civil_of_days_def split: prod.splits)
  note yc = year_yday_correct [OF yn]
  have mc: "1 \<le> m \<and> m \<le> length (month_lens y) \<and> 1 \<le> dd \<and> dd \<le> month_lens y ! (m - 1) \<and>
      sum_list (take (m - 1) (month_lens y)) + (dd - 1) = n"
    using md yc month_lens_pos by (intro find_month_correct) (auto simp: sum_month_lens)
  show "d = days_of_civil y m dd" using yc(1) mc by (simp add: days_of_civil_def)
  show "1 \<le> m" "m \<le> 12" "1 \<le> dd" "dd \<le> month_lens y ! (m - 1)" using mc by auto
  show "y = fst (year_yday d)" using yn by simp
qed


section \<open>Formatting\<close>

definition clock_of :: "time \<Rightarrow> nat \<times> nat \<times> nat \<times> nat" where
  "clock_of t =
     (let r = t mod nsPerDay; s = r div nsPerSecond
      in (nat (s div 3600), nat (s div 60 mod 60), nat (s mod 60), nat (r mod nsPerSecond)))"

text \<open>A year prints with at least four digits.\<close>

definition year_digits :: "int \<Rightarrow> string" where
  "year_digits y =
     (if y < 0 then CHR ''-'' # pad_digits 4 (nat (- y))
      else if y < 10000 then pad_digits 4 (nat y) else dec_digits (nat y))"

definition format_datetime :: "time \<Rightarrow> string" where
  "format_datetime t =
     (case (civil_of_days (t div nsPerDay), clock_of t) of
        ((y, m, d), (hh, mi, ss, ns)) \<Rightarrow>
          year_digits y @ ''-'' @ pad_digits 2 m @ ''-'' @ pad_digits 2 (nat d) @ ''T'' @
          pad_digits 2 hh @ '':'' @ pad_digits 2 mi @ '':'' @ pad_digits 2 ss)"

definition nanos_of :: "time \<Rightarrow> nat" where
  "nanos_of t = nat (t mod nsPerSecond)"

lemma time_Year_out_of_range [simp]:
  "time_Year t < 1 \<longleftrightarrow> t < 0" "9999 < time_Year t \<longleftrightarrow> endOfYear9999 \<le> t"
  using time_Year_ge_1 [of t] time_Year_le_9999 [of t] by linarith+

text \<open>The layout \<open>2006-01-02T15:04:05.000000Z07:00\<close> on a UTC time.\<close>

definition format_micro :: "time \<Rightarrow> string" where
  "format_micro t = format_datetime t @ ''.'' @ pad_digits 6 (nanos_of t div 1000) @ ''Z''"

text \<open>The layout \<open>time.RFC3339Nano\<close> on a UTC time: trailing zeros of the fraction are dropped.\<close>

definition nano_fraction :: "nat \<Rightarrow> string" where
  "nano_fraction ns = (if ns = 0 then [] else CHR ''.'' # strip_trailing CHR ''0'' (pad_digits 9 ns))"

definition format_nano :: "time \<Rightarrow> string" where
  "format_nano t = format_datetime t @ nano_fraction (nanos_of t) @ ''Z''"


section \<open>Parsing\<close>

text \<open>A fixed number of decimal digits.\<close>

definition parse_digits :: "nat \<Rightarrow> string \<Rightarrow> (int \<times> string) option" where
  "parse_digits n s =
     (if n \<le> length s \<and> list_all is_digit (take n s) then Some (digits_val (take n s), drop n s) else None)"

text \<open>Go's \<open>getnum\<close> without the fixed-width flag: one or two digits.\<close>

definition parse_hour :: "string \<Rightarrow> (int \<times> string) option" where
  "parse_hour s =
     (if 2 \<le> length s \<and> is_digit (s ! 0) \<and> is_digit (s ! 1) then parse_digits 2 s else parse_digits 1 s)"

definition expect :: "char \<Rightarrow> string \<Rightarrow> string option" where
  "expect c s = (case s of [] \<Rightarrow> None | x # xs \<Rightarrow> if x = c then Some xs else None)"

text \<open>An optional fraction: a period or comma and at least one digit; digits beyond nine are ignored.\<close>

definition parse_fraction :: "string \<Rightarrow> int \<times> string" where
  "parse_fraction s =
     (if 2 \<le> length s \<and> (s ! 0 = CHR ''.'' \<or> s ! 0 = CHR '','') \<and> is_digit (s ! 1)
      then (let ds = takeWhile is_digit (tl s); used = take 9 ds
            in (digits_val used * 10 ^ (9 - length used), drop (length ds) (tl s)))
      else (0, s))"

text \<open>The zone \<open>Z07:00\<close>: \<open>Z\<close> or a signed offset; the offset in seconds.\<close>

definition parse_zone :: "string \<Rightarrow> (int \<times> string) option" where
  "parse_zone s =
     (if s \<noteq> [] \<and> s ! 0 = CHR ''Z'' then Some (0, tl s)
      else if length s < 6 \<or> s ! 3 \<noteq> CHR '':'' \<or> \<not> list_all is_digit (substr 1 3 s) \<or>
        \<not> list_all is_digit (substr 4 6 s) then None
      else (let hr = digits_val (substr 1 3 s); mm = digits_val (substr 4 6 s); off = (hr * 60 + mm) * 60
            in if 24 < hr \<or> 60 < mm then None
               else if s ! 0 = CHR ''+'' then Some (off, drop 6 s)
               else if s ! 0 = CHR ''-'' then Some (- off, drop 6 s)
               else None))"

definition time_Parse_RFC3339Nano :: "string \<Rightarrow> time option" where
  "time_Parse_RFC3339Nano v = do {
     (y, v) \<leftarrow> parse_digits 4 v;
     v \<leftarrow> expect CHR ''-'' v;
     (mo, v) \<leftarrow> parse_digits 2 v;
     v \<leftarrow> expect CHR ''-'' v;
     (d, v) \<leftarrow> parse_digits 2 v;
     v \<leftarrow> expect CHR ''T'' v;
     (hh, v) \<leftarrow> parse_hour v;
     v \<leftarrow> expect CHR '':'' v;
     (mi, v) \<leftarrow> parse_digits 2 v;
     v \<leftarrow> expect CHR '':'' v;
     (ss, v) \<leftarrow> parse_digits 2 v;
     let (ns, v) = parse_fraction v;
     (off, v) \<leftarrow> parse_zone v;
     if v \<noteq> [] \<or> mo < 1 \<or> 12 < mo \<or> d < 1 \<or> month_lens y ! nat (mo - 1) < d \<or>
        23 < hh \<or> 59 < mi \<or> 59 < ss
     then None
     else Some (time_Date y (nat mo) d hh mi ss ns - off * nsPerSecond)
   }"


section \<open>Parsing inverts formatting\<close>

lemma parse_digits_pad [simp]: "n < 10 ^ w \<Longrightarrow> parse_digits w (pad_digits w n @ rest) = Some (int n, rest)"
  by (simp add: parse_digits_def digits_val_pad_digits)

lemma expect_Cons [simp]: "expect c (x # xs) = (if x = c then Some xs else None)"
  by (simp add: expect_def)

lemma nth_pad_digits: "i < w \<Longrightarrow> is_digit (pad_digits w n ! i)"
  using pad_digits_are_digits [of w n] by (simp add: list_all_length)

lemma parse_hour_pad [simp]: "n < 100 \<Longrightarrow> parse_hour (pad_digits 2 n @ rest) = Some (int n, rest)"
  using nth_pad_digits [of 0 2 n] nth_pad_digits [of 1 2 n] by (simp add: parse_hour_def nth_append)

lemma clock_of_correct:
  assumes "clock_of t = (hh, mi, ss, ns)"
  shows "hh < 24" and "mi < 60" and "ss < 60" and "ns < 1000000000" and "ns = nanos_of t"
    and "t mod nsPerDay = (int hh * 3600 + int mi * 60 + int ss) * nsPerSecond + int ns"
proof -
  define r s where rs: "r = t mod nsPerDay" "s = r div nsPerSecond"
  have r: "0 \<le> r" "r < 86400000000000" by (simp_all add: rs nsPerDay_def)
  then have s: "0 \<le> s" "s < 86400" by (auto simp: rs(2) nsPerSecond_def pos_imp_zdiv_nonneg_iff)
  have q: "hh = nat (s div 3600)" "mi = nat (s div 60 mod 60)" "ss = nat (s mod 60)" "ns = nat (r mod nsPerSecond)"
    using assms by (simp_all only: clock_of_def Let_def prod.inject rs)
  show "hh < 24" "mi < 60" "ss < 60" "ns < 1000000000" using s by (auto simp: q nsPerSecond_def)
  have "nsPerSecond dvd nsPerDay" by (simp add: nsPerSecond_def nsPerDay_def)
  then show "ns = nanos_of t" by (simp add: q(4) nanos_of_def rs mod_mod_cancel)
  have "s div 60 = s div 3600 * 60 + s div 60 mod 60" using s by (simp add: zdiv_zmult2_eq [of 60 s 60, simplified])
  moreover have "s = s div 60 * 60 + s mod 60" by simp
  ultimately have "s = s div 3600 * 3600 + s div 60 mod 60 * 60 + s mod 60" by linarith
  then have "s = int hh * 3600 + int mi * 60 + int ss" using s by (simp add: q pos_imp_zdiv_nonneg_iff)
  moreover have "r = s * nsPerSecond + int ns" using r by (simp add: rs(2) q(4) nsPerSecond_def)
  ultimately show "t mod nsPerDay = (int hh * 3600 + int mi * 60 + int ss) * nsPerSecond + int ns"
    by (simp add: rs)
qed

text \<open>
  A formatted date and time followed by a fraction and \<open>Z\<close> parses to the instant with its
  nanoseconds replaced by the value of the fraction.
\<close>

lemma time_Parse_format_datetime:
  assumes t: "0 \<le> t" "t < endOfYear9999" and f: "parse_fraction rest = (f, ''Z'')"
  shows "time_Parse_RFC3339Nano (format_datetime t @ rest) = Some (t - int (nanos_of t) + f)"
proof -
  obtain y m d where c: "civil_of_days (t div nsPerDay) = (y, m, d)" by (metis prod_cases3)
  obtain hh mi ss ns where k: "clock_of t = (hh, mi, ss, ns)" by (metis prod_cases4)
  note cc = civil_of_days_correct [OF c] and kc = clock_of_correct [OF k]
  have "1 \<le> y" "y \<le> 9999" using t time_Year_ge_1 [of t] time_Year_le_9999 [of t] cc(6)
    by (simp_all add: time_Year_def)
  then have y: "int (nat y) = y" "nat y < 10 ^ 4" "\<not> y < 0" "y < 10000" by simp_all
  have "month_lens y ! (m - 1) \<le> 31" by (rule month_lens_le_31) (use cc(3) in simp)
  then have d: "int (nat d) = d" "nat d < 100" using cc(4,5) by simp_all
  have zone: "parse_zone ''Z'' = Some (0, [])" by (simp add: parse_zone_def)
  have "time_Date y m d (int hh) (int mi) (int ss) f = t - int (nanos_of t) + f"
    using kc(5,6) cc(1) mult_div_mod_eq [of nsPerDay t]
    by (simp add: time_Date_def nsPerSecond_def nsPerDay_def)
  moreover have "format_datetime t @ rest = pad_digits 4 (nat y) @ CHR ''-'' # pad_digits 2 m @ CHR ''-'' #
      pad_digits 2 (nat d) @ CHR ''T'' # pad_digits 2 hh @ CHR '':'' # pad_digits 2 mi @ CHR '':'' #
      pad_digits 2 ss @ rest"
    using y by (simp add: format_datetime_def c k year_digits_def)
  ultimately show ?thesis
    using y d kc(1-3) cc(2-5) f zone by (simp add: time_Parse_RFC3339Nano_def nat_diff_distrib)
qed

lemma takeWhile_digits: "list_all is_digit ds \<Longrightarrow> takeWhile is_digit (ds @ ''Z'') = ds"
  by (induction ds) (simp_all add: is_digit_def)

lemma parse_fraction_digits:
  assumes "list_all is_digit ds" and "ds \<noteq> []" and "length ds \<le> 9"
  shows "parse_fraction (CHR ''.'' # ds @ ''Z'') = (digits_val ds * 10 ^ (9 - length ds), ''Z'')"
  using assms takeWhile_digits [of ds] by (cases ds) (simp_all add: parse_fraction_def)

theorem time_Parse_format_micro:
  assumes "0 \<le> t" and "t < endOfYear9999"
  shows "time_Parse_RFC3339Nano (format_micro t) = Some (t div 1000 * 1000)"
proof -
  define n where "n = nanos_of t"
  have n: "int n = t mod nsPerSecond" by (simp add: n_def nanos_of_def nsPerSecond_def)
  then have "n div 1000 < 10 ^ 6" by (simp add: n_def nanos_of_def nsPerSecond_def nat_less_iff)
  then have "parse_fraction (CHR ''.'' # pad_digits 6 (n div 1000) @ ''Z'') = (int (n div 1000) * 1000, ''Z'')"
    by (subst parse_fraction_digits) (auto simp: digits_val_pad_digits simp flip: length_0_conv)
  then have "time_Parse_RFC3339Nano (format_micro t) = Some (t - int n + int (n div 1000) * 1000)"
    unfolding format_micro_def n_def using time_Parse_format_datetime [OF assms] by simp
  moreover have "t - int n + int (n div 1000) * 1000 = t div 1000 * 1000"
    unfolding n zdiv_int nsPerSecond_def
    using mod_mod_cancel [of 1000 1000000000 t] by (simp add: minus_mod_eq_div_mult [symmetric])
  ultimately show ?thesis by simp
qed

lemma nano_fraction_parses:
  assumes "n < 1000000000"
  shows "parse_fraction (nano_fraction n @ ''Z'') = (int n, ''Z'')"
proof (cases "n = 0")
  case True
  then show ?thesis by (simp add: nano_fraction_def parse_fraction_def)
next
  case False
  let ?p = "pad_digits 9 n" let ?ds = "strip_trailing CHR ''0'' ?p"
  have p: "digits_val ?p = int n" using assms by (simp add: digits_val_pad_digits)
  have decomp: "?p = ?ds @ replicate (9 - length ?ds) CHR ''0''"
    using strip_trailing_decomp [of ?p "CHR ''0''"] by simp
  have val: "digits_val ?ds * 10 ^ (9 - length ?ds) = int n"
    using p digits_val_zeros [of ?ds "9 - length ?ds"] decomp by metis
  have "?ds \<noteq> []" using val False by (auto simp: digits_val_def)
  moreover have "list_all is_digit ?ds"
    using pad_digits_are_digits [of 9 n] set_strip_trailing by (fastforce simp: list_all_iff)
  moreover have "length ?ds \<le> 9" using length_strip_trailing [of _ ?p] by simp
  ultimately show ?thesis using parse_fraction_digits val False by (simp add: nano_fraction_def)
qed

theorem time_Parse_format_nano:
  assumes "0 \<le> t" and "t < endOfYear9999"
  shows "time_Parse_RFC3339Nano (format_nano t) = Some t"
proof -
  have "nanos_of t < 1000000000" by (simp add: nanos_of_def nsPerSecond_def nat_less_iff)
  then have "parse_fraction (nano_fraction (nanos_of t) @ ''Z'') = (int (nanos_of t), ''Z'')"
    by (rule nano_fraction_parses)
  then show ?thesis
    unfolding format_nano_def using time_Parse_format_datetime [OF assms] by simp
qed

end
