(* ===== verification/GoNumber.thy ===== *)
theory GoNumber
  imports GoJson
begin

text \<open>
  Number conversion: \<open>strconv.ParseInt(s, 10, bits)\<close>, the conversion of a JSON number literal to
  \<open>float64\<close>, and \<open>float64(n)\<close> of an integer. Doubles are rationals: \<open>round64\<close> gives the nearest
  double, ties to even, or \<open>None\<close> on overflow, where the standard library reports an error.
\<close>

section \<open>Integers\<close>

definition strconv_ParseInt :: "nat \<Rightarrow> string \<Rightarrow> int option" where
  "strconv_ParseInt bits s =
     (let neg = (s \<noteq> [] \<and> hd s = CHR ''-'');
          ds = (if s \<noteq> [] \<and> (hd s = CHR ''-'' \<or> hd s = CHR ''+'') then tl s else s)
      in if ds = [] \<or> \<not> list_all is_digit ds then None
         else (let v = (if neg then - digits_val ds else digits_val ds)
               in if - (2 ^ (bits - 1)) \<le> v \<and> v < 2 ^ (bits - 1) then Some v else None))"

lemma ParseInt_range: "strconv_ParseInt bits s = Some v \<Longrightarrow> - (2 ^ (bits - 1)) \<le> v \<and> v < 2 ^ (bits - 1)"
  by (auto simp: strconv_ParseInt_def Let_def split: if_splits)

lemma ParseInt64_range [go_range]: "strconv_ParseInt 64 s = Some v \<Longrightarrow> in_i64 v"
  using ParseInt_range [of 64 s v] by (simp add: int_bounds_defs)

lemma ParseInt32_range [go_range]: "strconv_ParseInt 32 s = Some v \<Longrightarrow> in_i32 v"
  using ParseInt_range [of 32 s v] by (simp add: int_bounds_defs)

lemma hd_dec_digits: "is_digit (hd (dec_digits n))"
  using dec_digits_are_digits [of n] dec_digits_not_Nil [of n] by (metis list.pred_inject(2) list.exhaust_sel)

text \<open>Parsing inverts printing for the integers in range.\<close>

lemma ParseInt_show_int:
  assumes "- (2 ^ (bits - 1)) \<le> n" and "n < 2 ^ (bits - 1)"
  shows "strconv_ParseInt bits (show_int n) = Some n"
proof (cases "n < 0")
  case True
  then show ?thesis using assms by (simp add: strconv_ParseInt_def show_int_def Let_def)
next
  case False
  have "hd (dec_digits (nat n)) \<noteq> CHR ''-'' \<and> hd (dec_digits (nat n)) \<noteq> CHR ''+''"
    using hd_dec_digits [of "nat n"] by (auto simp: is_digit_def)
  then show ?thesis using False assms by (simp add: strconv_ParseInt_def show_int_def Let_def)
qed


section \<open>Double precision\<close>

fun bitlen :: "nat \<Rightarrow> nat" where
  "bitlen n = (if n = 0 then 0 else Suc (bitlen (n div 2)))"

declare bitlen.simps [simp del]

definition pow2 :: "int \<Rightarrow> rat" where
  "pow2 k = (if 0 \<le> k then 2 ^ nat k else 1 / 2 ^ nat (- k))"

text \<open>The exponent \<open>k\<close> with \<open>2^k \<le> a < 2^(k+1)\<close> of a positive rational.\<close>

definition ilog2 :: "rat \<Rightarrow> int" where
  "ilog2 a =
     (case quotient_of a of (n, d) \<Rightarrow>
        let k = int (bitlen (nat n)) - int (bitlen (nat d))
        in if pow2 k \<le> a then k else k - 1)"

definition round_half_even :: "rat \<Rightarrow> int" where
  "round_half_even x =
     (let f = \<lfloor>x\<rfloor>; r = x - of_int f
      in if r < 1 / 2 then f else if 1 / 2 < r then f + 1 else if even f then f else f + 1)"

definition round64 :: "rat \<Rightarrow> rat option" where
  "round64 r =
     (if r = 0 then Some 0
      else (let a = \<bar>r\<bar>; e = max (ilog2 a - 52) (- 1074);
                v = of_int (round_half_even (a / pow2 e)) * pow2 e
            in if pow2 1024 \<le> v then None else Some (if r < 0 then - v else v)))"

text \<open>The exact decimal value of a JSON number literal.\<close>

definition number_value :: "string \<Rightarrow> rat" where
  "number_value s =
     (let neg = (s \<noteq> [] \<and> hd s = CHR ''-''); u = (if neg then tl s else s);
          ip = takeWhile is_digit u; r1 = dropWhile is_digit u;
          frac = (r1 \<noteq> [] \<and> hd r1 = CHR ''.'');
          fp = (if frac then takeWhile is_digit (tl r1) else []);
          r2 = (if frac then dropWhile is_digit (tl r1) else r1);
          ex = (if r2 = [] then 0
                else (let t = tl r2
                      in if t \<noteq> [] \<and> hd t = CHR ''-'' then - digits_val (tl t)
                         else if t \<noteq> [] \<and> hd t = CHR ''+'' then digits_val (tl t)
                         else digits_val t)) - int (length fp);
          m = of_int (digits_val (ip @ fp)) :: rat;
          v = (if 0 \<le> ex then m * 10 ^ nat ex else m / 10 ^ nat (- ex))
      in if neg then - v else v)"

text \<open>\<open>json.Unmarshal\<close> of a raw value into a \<open>float64\<close>: a number literal in range.\<close>

definition json_float64 :: "string \<Rightarrow> rat option" where
  "json_float64 raw =
     (if raw \<noteq> [] \<and> (hd raw = CHR ''-'' \<or> is_digit (hd raw)) then round64 (number_value raw) else None)"

text \<open>The conversion \<open>float64(n)\<close> of an \<open>int64\<close>, which is always in the range of a double.\<close>

definition float64_of_int :: "int \<Rightarrow> rat" where
  "float64_of_int n = (case round64 (of_int n) of Some x \<Rightarrow> x | None \<Rightarrow> 0)"

lemma pow2_pos [simp]: "0 < pow2 k"
  by (simp add: pow2_def)

lemma pow2_nonneg_int: "0 \<le> k \<Longrightarrow> pow2 k = of_int (2 ^ nat k)"
  by (simp add: pow2_def)

lemma round_half_even_of_int [simp]: "round_half_even (of_int z) = z"
  by (simp add: round_half_even_def)

lemma bitlen_lower: "0 < n \<Longrightarrow> 2 ^ (bitlen n - 1) \<le> n"
proof (induction n rule: bitlen.induct)
  case (1 n)
  show ?case
  proof (cases "n div 2 = 0")
    case True
    then show ?thesis using 1 by (subst bitlen.simps) (simp add: bitlen.simps [of 0])
  next
    case False
    then have b: "0 < bitlen (n div 2)" by (subst bitlen.simps) simp
    have "2 ^ (bitlen (n div 2) - 1) \<le> n div 2" using 1 False by simp
    then have "2 * 2 ^ (bitlen (n div 2) - 1) \<le> n" by linarith
    then show ?thesis using 1 b by (subst bitlen.simps) (simp flip: power_Suc)
  qed
qed

lemma bitlen_pos: "0 < n \<Longrightarrow> 0 < bitlen n"
  by (subst bitlen.simps) simp

lemma bitlen_lower_int: "0 < n \<Longrightarrow> 2 ^ (bitlen (nat n) - 1) \<le> n"
  using bitlen_lower [of "nat n"] by (simp add: nat_le_iff le_nat_iff)

lemma ilog2_of_int:
  assumes "0 < n"
  shows "ilog2 (of_int n) = int (bitlen (nat n)) - 1"
proof -
  have q: "quotient_of (of_int n) = (n, 1)" by (simp add: quotient_of_int)
  have b1: "bitlen (Suc 0) = 1" by (simp add: bitlen.simps)
  have b: "0 < bitlen (nat n)" using assms by (simp add: bitlen_pos)
  then have "pow2 (int (bitlen (nat n)) - 1) = of_int (2 ^ (bitlen (nat n) - 1))"
    by (simp add: pow2_def nat_diff_distrib)
  also have "\<dots> \<le> of_int n" using bitlen_lower_int [OF assms] by (simp only: of_int_le_iff)
  finally show ?thesis by (simp add: ilog2_def q Let_def b1)
qed

text \<open>
  Every integer of magnitude at most \<open>2^53\<close> is a double. This is the fact behind the bound that
  the telemetry validator puts on the sample interval.
\<close>

lemma round64_of_int:
  assumes "\<bar>n\<bar> \<le> 2 ^ 53"
  shows "round64 (of_int n) = Some (of_int n)"
proof (cases "n = 0")
  case True
  then show ?thesis by (simp add: round64_def)
next
  case False
  define a e where ae: "a = (of_int \<bar>n\<bar> :: rat)" "e = max (ilog2 a - 52) (- 1074)"
  have l: "ilog2 a = int (bitlen (nat \<bar>n\<bar>)) - 1" using ilog2_of_int [of "\<bar>n\<bar>"] False by (simp add: ae)
  have p: "2 ^ (bitlen (nat \<bar>n\<bar>) - 1) \<le> \<bar>n\<bar>" using bitlen_lower_int [of "\<bar>n\<bar>"] False by simp
  then have "(2::int) ^ (bitlen (nat \<bar>n\<bar>) - 1) \<le> 2 ^ 53" using assms by linarith
  then have "bitlen (nat \<bar>n\<bar>) - 1 \<le> 53" by (rule power_le_imp_le_exp [rotated]) simp
  then have e1: "e \<le> 1" using l by (simp add: ae(2))
  have "\<exists>z. a / pow2 e = of_int z"
  proof (cases "e \<le> 0")
    case True
    then have "a / pow2 e = of_int (\<bar>n\<bar> * 2 ^ nat (- e))"
      by (cases "e = 0") (simp_all add: ae(1) pow2_def)
    then show ?thesis by blast
  next
    case False
    then have "e = 1" using e1 by simp
    then have "bitlen (nat \<bar>n\<bar>) - 1 = 53" using l by (auto simp: ae(2))
    then have "\<bar>n\<bar> = 2 ^ 53" using assms p by simp
    then have "a / pow2 e = of_int (2 ^ 52)" using \<open>e = 1\<close> by (simp add: ae(1) pow2_def)
    then show ?thesis by blast
  qed
  then obtain z where z: "a / pow2 e = of_int z" by blast
  then have v: "of_int (round_half_even (a / pow2 e)) * pow2 e = a"
    using pow2_pos [of e] by (simp add: field_simps)
  have "a \<le> of_int (2 ^ 53)" unfolding ae(1) using assms by (simp only: of_int_le_iff)
  also have "\<dots> < pow2 1024" by (simp add: pow2_def)
  finally have "round64 (of_int n) = Some (if n < 0 then - a else a)"
    using False v unfolding round64_def Let_def ae by (simp only: of_int_abs [symmetric]) simp
  then show ?thesis by (simp add: ae(1))
qed

lemma float64_of_int_exact: "\<bar>n\<bar> \<le> 2 ^ 53 \<Longrightarrow> float64_of_int n = of_int n"
  by (simp add: float64_of_int_def round64_of_int)

end
