(* ===== verification/Uuid.thy ===== *)
theory Uuid
  imports GoJson "HOL-Library.Word"
begin

text \<open>
  The package \<open>github.com/google/uuid\<close> is not part of the repository. A UUID is its sixteen bytes,
  here one 128-bit word, and the package's functions are a parameter \<open>uuid_pkg\<close> of every
  definition that calls them. Two documented facts are named hypotheses where a property needs
  them: \<open>uuid_text_ok\<close> (the text form consists of 36 hexadecimal digits and dashes, and parsing
  it gives the UUID back) and \<open>uuid_validate_ok\<close> (\<open>Validate\<close> accepts the text form of every UUID). Nothing is
  assumed about other strings, where the two functions differ: of 38 bytes \<open>Parse\<close> examines only the
  middle 36 while \<open>Validate\<close> requires the braces.
  The last section instantiates the parameter with the canonical text form; it serves the
  witnesses and shows that the hypotheses can hold.
\<close>

type_synonym uuid = "128 word"

abbreviation uuid_Nil :: uuid where "uuid_Nil \<equiv> 0"

record uuid_pkg =
  uuid_Parse :: "string \<Rightarrow> uuid option"
  uuid_Validate :: "string \<Rightarrow> bool"
  uuid_String :: "uuid \<Rightarrow> string"
  uuid_Version :: "uuid \<Rightarrow> nat"
  uuid_RFC4122 :: "uuid \<Rightarrow> bool"

text \<open>The check the sources repeat for message identifiers: not nil, RFC 4122, version 4 or 7.\<close>

definition valid_message_id :: "uuid_pkg \<Rightarrow> uuid \<Rightarrow> bool" where
  "valid_message_id U u \<longleftrightarrow> u \<noteq> uuid_Nil \<and> uuid_RFC4122 U u \<and> (uuid_Version U u = 4 \<or> uuid_Version U u = 7)"

definition valid_boot_id :: "uuid_pkg \<Rightarrow> uuid \<Rightarrow> bool" where
  "valid_boot_id U u \<longleftrightarrow> u \<noteq> uuid_Nil \<and> uuid_RFC4122 U u"

definition uuid_char :: "char \<Rightarrow> bool" where
  "uuid_char c \<longleftrightarrow> c \<in> set ''0123456789abcdef-''"

definition uuid_text_ok :: "uuid_pkg \<Rightarrow> bool" where
  "uuid_text_ok U \<longleftrightarrow>
     (\<forall>u. uuid_Parse U (uuid_String U u) = Some u \<and> list_all uuid_char (uuid_String U u) \<and> length (uuid_String U u) = 36)"

definition uuid_validate_ok :: "uuid_pkg \<Rightarrow> bool" where
  "uuid_validate_ok U \<longleftrightarrow> (\<forall>u. uuid_Validate U (uuid_String U u))"

lemma uuid_text_roundtrip: "uuid_text_ok U \<Longrightarrow> uuid_Parse U (uuid_String U u) = Some u"
  by (simp add: uuid_text_ok_def)

lemma uuid_String_inj: "uuid_text_ok U \<Longrightarrow> uuid_String U u = uuid_String U v \<longleftrightarrow> u = v"
  by (metis uuid_text_roundtrip option.inject)

lemma uuid_char_plain: "uuid_char c \<Longrightarrow> plain_char c"
  by (auto simp: uuid_char_def plain_char_def)

lemma uuid_String_plain: "uuid_text_ok U \<Longrightarrow> list_all plain_char (uuid_String U u)"
  by (auto simp: uuid_text_ok_def list_all_iff intro: uuid_char_plain)

lemma uuid_String_no_slash: "uuid_text_ok U \<Longrightarrow> CHR ''/'' \<notin> set (uuid_String U u)"
  by (auto simp: uuid_text_ok_def list_all_iff uuid_char_def)


section \<open>An instance\<close>

fun pad_hex :: "nat \<Rightarrow> nat \<Rightarrow> string" where
  "pad_hex 0 n = []"
| "pad_hex (Suc w) n = pad_hex w (n div 16) @ [''0123456789abcdef'' ! (n mod 16)]"

fun hexs_val :: "nat \<Rightarrow> string \<Rightarrow> nat option" where
  "hexs_val acc [] = Some acc"
| "hexs_val acc (c # cs) = (case hex_val c of None \<Rightarrow> None | Some d \<Rightarrow> hexs_val (16 * acc + d) cs)"

definition canonical_String :: "uuid \<Rightarrow> string" where
  "canonical_String u =
     (let h = pad_hex 32 (unat u)
      in substr 0 8 h @ ''-'' @ substr 8 12 h @ ''-'' @ substr 12 16 h @ ''-'' @ substr 16 20 h @ ''-'' @ substr 20 32 h)"

definition canonical_Parse :: "string \<Rightarrow> uuid option" where
  "canonical_Parse s =
     (if length s = 36 \<and> s ! 8 = CHR ''-'' \<and> s ! 13 = CHR ''-'' \<and> s ! 18 = CHR ''-'' \<and> s ! 23 = CHR ''-''
      then map_option of_nat
        (hexs_val 0 (substr 0 8 s @ substr 9 13 s @ substr 14 18 s @ substr 19 23 s @ substr 24 36 s))
      else None)"

definition canonical_uuid :: uuid_pkg where
  "canonical_uuid =
     \<lparr>uuid_Parse = canonical_Parse,
      uuid_Validate = (\<lambda>s. canonical_Parse s \<noteq> None),
      uuid_String = canonical_String,
      uuid_Version = (\<lambda>u. unat u div 2 ^ 76 mod 16),
      uuid_RFC4122 = (\<lambda>u. unat u div 2 ^ 62 mod 4 = 2)\<rparr>"

lemma length_pad_hex [simp]: "length (pad_hex w n) = w"
  by (induction w arbitrary: n) simp_all

lemma less_16_cases: "d < 16 \<Longrightarrow> d \<in> set [0..<16]"
  by simp

lemma hex_val_digit: "d < 16 \<Longrightarrow> hex_val (''0123456789abcdef'' ! d) = Some d"
proof -
  have "list_all (\<lambda>d. hex_val (''0123456789abcdef'' ! d) = Some d) [0..<16]"
    by (simp add: upt_rec hex_val_def)
  then show "d < 16 \<Longrightarrow> ?thesis" by (simp add: list_all_iff)
qed

lemma uuid_char_digit: "d < 16 \<Longrightarrow> uuid_char (''0123456789abcdef'' ! d)"
proof -
  have "list_all (\<lambda>d. uuid_char (''0123456789abcdef'' ! d)) [0..<16]"
    by (simp add: upt_rec uuid_char_def)
  then show "d < 16 \<Longrightarrow> ?thesis" by (simp add: list_all_iff)
qed

lemma hexs_val_append:
  "hexs_val acc (s @ t) = (case hexs_val acc s of None \<Rightarrow> None | Some a \<Rightarrow> hexs_val a t)"
  by (induction acc s rule: hexs_val.induct) (auto split: option.splits)

lemma hexs_val_pad_hex: "n < 16 ^ w \<Longrightarrow> hexs_val 0 (pad_hex w n) = Some n"
proof (induction w arbitrary: n)
  case (Suc w)
  then have "n div 16 < 16 ^ w" by (simp add: less_mult_imp_div_less mult.commute)
  then have "hexs_val 0 (pad_hex w (n div 16)) = Some (n div 16)" by (rule Suc.IH)
  then show ?case by (simp add: hexs_val_append hex_val_digit)
qed simp

lemma pad_hex_uuid_chars: "list_all uuid_char (pad_hex w n)"
  by (induction w arbitrary: n) (simp_all add: uuid_char_digit)

lemma list_all_substr: "list_all P s \<Longrightarrow> list_all P (substr lo hi s)"
  by (auto simp: substr_def list_all_iff dest: in_set_takeD in_set_dropD)

lemma canonical_Parse_String: "canonical_Parse (canonical_String u) = Some u"
proof -
  define h where "h = pad_hex 32 (unat u)"
  have l: "length h = 32" by (simp add: h_def)
  define a b c d e where parts: "a = substr 0 8 h" "b = substr 8 12 h" "c = substr 12 16 h" "d = substr 16 20 h" "e = substr 20 32 h"
  have lens: "length a = 8" "length b = 4" "length c = 4" "length d = 4" "length e = 12"
    by (simp_all add: parts substr_def l)
  have s: "canonical_String u = a @ ''-'' @ b @ ''-'' @ c @ ''-'' @ d @ ''-'' @ e"
    by (simp add: canonical_String_def Let_def parts flip: h_def)
  have h': "h = a @ b @ c @ d @ e"
    unfolding parts by (simp add: substr_join substr_all l)
  have "unat u < 2 ^ 128" using unsigned_less [of u, where ?'a = nat] by simp
  then have "unat u < 16 ^ 32" by simp
  then have "hexs_val 0 h = Some (unat u)" unfolding h_def by (rule hexs_val_pad_hex)
  then show ?thesis
    unfolding canonical_Parse_def s h' by (simp add: lens substr_def nth_append)
qed

lemma canonical_validate_ok: "uuid_validate_ok canonical_uuid"
  by (simp add: uuid_validate_ok_def canonical_uuid_def canonical_Parse_String)

lemma canonical_text_ok: "uuid_text_ok canonical_uuid"
proof -
  have "list_all uuid_char (canonical_String u)" for u
    by (simp add: canonical_String_def Let_def list_all_substr pad_hex_uuid_chars) (simp add: uuid_char_def)
  moreover have "length (canonical_String u) = 36" for u
    by (simp add: canonical_String_def Let_def substr_def)
  ultimately show ?thesis by (simp add: uuid_text_ok_def canonical_uuid_def canonical_Parse_String)
qed

end
