(* ===== verification/TelemetryModel.thy ===== *)
theory TelemetryModel
  imports GoTime GoNumber Uuid
begin

text \<open>
  The input types of the telemetry pipeline: reason-coded errors and their classification
  (\<open>telemetry/errors.go\<close>), the identifier allow-list (\<open>gateway/identifier.go\<close>) and the twin URNs
  built from it (\<open>digitaltwin/mapper/identity.go\<close>), telemetry topics (\<open>telemetry/topic.go\<close>), and
  the batch, sample and limit types (\<open>telemetry/model.go\<close>).
\<close>

section \<open>Errors\<close>

text \<open>\<open>ReasonCode\<close> is a Go string type; \<open>ReasonOther\<close> is any value outside the declared constants.\<close>

datatype ReasonCode =
    ReasonInvalidTopic
  | ReasonUnsupportedProtocol
  | ReasonPayloadTooLarge
  | ReasonInvalidPayload
  | ReasonInvalidTimestamp
  | ReasonTimestampInFuture
  | ReasonInvalidSequenceRange
  | ReasonUnknownGateway
  | ReasonUnknownSensor
  | ReasonResourceGraphIncomplete
  | ReasonLegacyProvenanceUnknown
  | ReasonMessageConflict
  | ReasonSequenceOverlap
  | ReasonQueueFull
  | ReasonDependencyUnavailable
  | ReasonCommitUnconfirmed
  | ReasonAckPublishUnconfirmed
  | ReasonOther string

fun reason_text :: "ReasonCode \<Rightarrow> string" where
  "reason_text ReasonInvalidTopic = ''invalid_topic''"
| "reason_text ReasonUnsupportedProtocol = ''unsupported_protocol''"
| "reason_text ReasonPayloadTooLarge = ''payload_too_large''"
| "reason_text ReasonInvalidPayload = ''invalid_payload''"
| "reason_text ReasonInvalidTimestamp = ''invalid_timestamp''"
| "reason_text ReasonTimestampInFuture = ''timestamp_in_future''"
| "reason_text ReasonInvalidSequenceRange = ''invalid_sequence_range''"
| "reason_text ReasonUnknownGateway = ''unknown_gateway''"
| "reason_text ReasonUnknownSensor = ''unknown_sensor''"
| "reason_text ReasonResourceGraphIncomplete = ''resource_graph_incomplete''"
| "reason_text ReasonLegacyProvenanceUnknown = ''legacy_provenance_unknown''"
| "reason_text ReasonMessageConflict = ''message_conflict''"
| "reason_text ReasonSequenceOverlap = ''sequence_overlap''"
| "reason_text ReasonQueueFull = ''queue_full''"
| "reason_text ReasonDependencyUnavailable = ''dependency_unavailable''"
| "reason_text ReasonCommitUnconfirmed = ''commit_unconfirmed''"
| "reason_text ReasonAckPublishUnconfirmed = ''ack_publish_unconfirmed''"
| "reason_text (ReasonOther s) = s"

fun knownReasonCode :: "ReasonCode \<Rightarrow> bool" where
  "knownReasonCode (ReasonOther s) = False"
| "knownReasonCode _ = True"

text \<open>
  A Go error value: a \<open>*ReasonError\<close> (its code and field), a nil \<open>*ReasonError\<close>, an error without
  telemetry classification, or one made by \<open>fmt.Errorf\<close> with its \<open>%w\<close> operands in order.
\<close>

datatype go_error =
    ReasonError ReasonCode string
  | NilReasonError
  | OpaqueError string
  | WrappedError string "go_error list"

definition ReasonError_Error :: "(ReasonCode \<times> string) option \<Rightarrow> string" where
  "ReasonError_Error e =
     (case e of
        None \<Rightarrow> ''telemetry error''
      | Some (code, field) \<Rightarrow>
          if \<not> knownReasonCode code then ''telemetry error''
          else ''telemetry error: '' @ reason_text code)"

text \<open>\<open>errors.As\<close> with a \<open>*ReasonError\<close> target: the first match in a depth-first walk.\<close>

fun errors_As_reason :: "go_error \<Rightarrow> (ReasonCode \<times> string) option option"
  and errors_As_reasons :: "go_error list \<Rightarrow> (ReasonCode \<times> string) option option" where
  "errors_As_reason (ReasonError c f) = Some (Some (c, f))"
| "errors_As_reason NilReasonError = Some None"
| "errors_As_reason (OpaqueError s) = None"
| "errors_As_reason (WrappedError s es) = errors_As_reasons es"
| "errors_As_reasons [] = None"
| "errors_As_reasons (e # es) =
     (case errors_As_reason e of Some r \<Rightarrow> Some r | None \<Rightarrow> errors_As_reasons es)"

datatype FailureClass =
    FailureNone
  | FailurePermanentInputConflict
  | FailureRetryWithBackoff
  | FailureCheckClock
  | FailureNeedsIntervention
  | FailureCommitUnconfirmed
  | FailureAckPublishUnconfirmed
  | FailureUnknown

fun classify_reason :: "ReasonCode \<Rightarrow> FailureClass" where
  "classify_reason ReasonInvalidTopic = FailurePermanentInputConflict"
| "classify_reason ReasonUnsupportedProtocol = FailurePermanentInputConflict"
| "classify_reason ReasonPayloadTooLarge = FailurePermanentInputConflict"
| "classify_reason ReasonInvalidPayload = FailurePermanentInputConflict"
| "classify_reason ReasonInvalidTimestamp = FailurePermanentInputConflict"
| "classify_reason ReasonInvalidSequenceRange = FailurePermanentInputConflict"
| "classify_reason ReasonMessageConflict = FailurePermanentInputConflict"
| "classify_reason ReasonSequenceOverlap = FailurePermanentInputConflict"
| "classify_reason ReasonQueueFull = FailureRetryWithBackoff"
| "classify_reason ReasonDependencyUnavailable = FailureRetryWithBackoff"
| "classify_reason ReasonTimestampInFuture = FailureCheckClock"
| "classify_reason ReasonUnknownGateway = FailureNeedsIntervention"
| "classify_reason ReasonUnknownSensor = FailureNeedsIntervention"
| "classify_reason ReasonResourceGraphIncomplete = FailureNeedsIntervention"
| "classify_reason ReasonLegacyProvenanceUnknown = FailureNeedsIntervention"
| "classify_reason ReasonCommitUnconfirmed = FailureCommitUnconfirmed"
| "classify_reason ReasonAckPublishUnconfirmed = FailureAckPublishUnconfirmed"
| "classify_reason (ReasonOther s) = FailureUnknown"

definition ClassifyFailure :: "go_error option \<Rightarrow> FailureClass" where
  "ClassifyFailure err =
     (case err of
        None \<Rightarrow> FailureNone
      | Some e \<Rightarrow>
          (case errors_As_reason e of
             None \<Rightarrow> FailureUnknown
           | Some None \<Rightarrow> FailureUnknown
           | Some (Some (code, field)) \<Rightarrow> classify_reason code))"

definition invalidPayloadError :: "string \<Rightarrow> go_error" where
  "invalidPayloadError field = ReasonError ReasonInvalidPayload field"

definition dependencyError :: "string \<Rightarrow> go_error \<Rightarrow> go_error" where
  "dependencyError operation err = WrappedError operation [ReasonError ReasonDependencyUnavailable [], err]"

definition commitUnconfirmedError :: "go_error \<Rightarrow> go_error" where
  "commitUnconfirmedError err =
     WrappedError ''commit telemetry transaction'' [ReasonError ReasonCommitUnconfirmed [], err]"

definition reason_of :: "go_error \<Rightarrow> ReasonCode option" where
  "reason_of e = (case errors_As_reason e of Some (Some (c, f)) \<Rightarrow> Some c | _ \<Rightarrow> None)"

lemma reason_of_simps [simp]:
  "reason_of (ReasonError c f) = Some c"
  "reason_of (invalidPayloadError f) = Some ReasonInvalidPayload"
  "reason_of (dependencyError op e) = Some ReasonDependencyUnavailable"
  "reason_of (commitUnconfirmedError e) = Some ReasonCommitUnconfirmed"
  by (simp_all add: reason_of_def invalidPayloadError_def dependencyError_def commitUnconfirmedError_def)

text \<open>A failure is classified by the first reason in its wrap chain, whatever wraps it; an error
  is left unclassified exactly when no known reason code is found, and never as \<open>FailureNone\<close>.\<close>

theorem ClassifyFailure_correct:
  "ClassifyFailure (Some (WrappedError op (e # es))) =
     (if errors_As_reason e = None then ClassifyFailure (Some (WrappedError op es)) else ClassifyFailure (Some e)) \<and>
   ClassifyFailure (Some e) \<noteq> FailureNone \<and>
   (ClassifyFailure (Some e) = FailureUnknown \<longleftrightarrow> \<not> (\<exists>c. reason_of e = Some c \<and> knownReasonCode c))"
proof (intro conjI)
  show "ClassifyFailure (Some (WrappedError op (e # es))) =
     (if errors_As_reason e = None then ClassifyFailure (Some (WrappedError op es)) else ClassifyFailure (Some e))"
    by (auto simp: ClassifyFailure_def split: option.splits)
  have c: "classify_reason c \<noteq> FailureNone \<and> (classify_reason c = FailureUnknown \<longleftrightarrow> \<not> knownReasonCode c)" for c
    by (cases c) simp_all
  show "ClassifyFailure (Some e) \<noteq> FailureNone"
    by (auto simp: ClassifyFailure_def c split: option.splits)
  show "ClassifyFailure (Some e) = FailureUnknown \<longleftrightarrow> \<not> (\<exists>c. reason_of e = Some c \<and> knownReasonCode c)"
    by (auto simp: ClassifyFailure_def reason_of_def c split: option.splits)
qed


section \<open>Identifiers\<close>

definition is_alnum :: "char \<Rightarrow> bool" where
  "is_alnum c \<longleftrightarrow>
     (let n = of_char c :: nat
      in 65 \<le> n \<and> n \<le> 90 \<or> 97 \<le> n \<and> n \<le> 122 \<or> 48 \<le> n \<and> n \<le> 57)"

definition id_char :: "char \<Rightarrow> bool" where
  "id_char c \<longleftrightarrow> is_alnum c \<or> c = CHR ''_'' \<or> c = CHR ''-''"

text \<open>The pattern \<open>^[A-Za-z0-9][A-Za-z0-9_-]{0,63}$\<close>.\<close>

fun gatewayIDPattern :: "string \<Rightarrow> bool" where
  "gatewayIDPattern [] = False"
| "gatewayIDPattern (c # cs) = (is_alnum c \<and> list_all id_char cs \<and> length cs \<le> 63)"

definition ValidateSensorID :: "string \<Rightarrow> bool" where
  "ValidateSensorID s \<longleftrightarrow> gatewayIDPattern s"

definition ValidateGatewayID :: "string \<Rightarrow> bool" where
  "ValidateGatewayID s \<longleftrightarrow> s \<noteq> ''backend_service'' \<and> gatewayIDPattern s"

definition GatewayEntityID :: "string \<Rightarrow> string" where
  "GatewayEntityID g = ''urn:ngsi-ld:Gateway:'' @ g"

definition SensorEntityID :: "string \<Rightarrow> string \<Rightarrow> string" where
  "SensorEntityID g s = ''urn:ngsi-ld:Sensor:'' @ g @ '':'' @ s"

lemma gatewayIDPattern_chars: "gatewayIDPattern s \<Longrightarrow> s \<noteq> [] \<and> list_all id_char s \<and> length s \<le> 64"
  by (cases s) (auto simp: id_char_def)

lemma id_char_no_slash: "list_all id_char s \<Longrightarrow> CHR ''/'' \<notin> set s"
  by (auto simp: list_all_iff id_char_def is_alnum_def)

lemma id_char_no_colon: "list_all id_char s \<Longrightarrow> CHR '':'' \<notin> set s"
  by (auto simp: list_all_iff id_char_def is_alnum_def)

lemma id_char_plain: "list_all id_char s \<Longrightarrow> list_all plain_char s"
  by (auto simp: list_all_iff id_char_def is_alnum_def plain_char_def Let_def dest!: bspec)

lemma valid_id_no_slash:
  "ValidateGatewayID g \<Longrightarrow> CHR ''/'' \<notin> set g" "ValidateSensorID s \<Longrightarrow> CHR ''/'' \<notin> set s"
  using gatewayIDPattern_chars id_char_no_slash unfolding ValidateGatewayID_def ValidateSensorID_def by blast+


section \<open>Topics\<close>

record ParsedTopic =
  pt_SourceTopic :: string
  pt_GatewayID :: string
  pt_SensorID :: string

definition invalidTopicError :: go_error where
  "invalidTopicError = ReasonError ReasonInvalidTopic ''topic''"

definition ParseTopic :: "string \<Rightarrow> go_error + ParsedTopic" where
  "ParseTopic topic =
     (let segments = go_split CHR ''/'' topic in
      if length segments \<noteq> 4 \<or> segments ! 0 \<noteq> ''gateways'' \<or> segments ! 2 \<noteq> ''telemetry''
      then Inl invalidTopicError
      else
        (let gatewayID = segments ! 1; sensorID = segments ! 3 in
         if \<not> ValidateGatewayID gatewayID \<or> \<not> ValidateSensorID sensorID then Inl invalidTopicError
         else Inr \<lparr>pt_SourceTopic = topic, pt_GatewayID = gatewayID, pt_SensorID = sensorID\<rparr>))"

text \<open>The topic a Gateway publishes a batch of one Sensor on (\<open>gatewaysim/batch.go\<close>).\<close>

definition telemetry_topic :: "string \<Rightarrow> string \<Rightarrow> string" where
  "telemetry_topic g s = ''gateways/'' @ g @ ''/telemetry/'' @ s"

lemma go_split_telemetry_topic:
  assumes "CHR ''/'' \<notin> set g" and "CHR ''/'' \<notin> set s"
  shows "go_split CHR ''/'' (telemetry_topic g s) = [''gateways'', g, ''telemetry'', s]"
  using assms by (simp add: telemetry_topic_def go_split_append_sep go_split_no_sep)

lemma four_segments:
  assumes "length xs = 4"
  shows "xs = [xs ! 0, xs ! 1, xs ! 2, xs ! 3]"
  using assms by (intro nth_equalityI) (auto simp: less_Suc_eq numeral_eq_Suc)

lemma ParseTopic_ok_iff:
  "ParseTopic topic = Inr p \<longleftrightarrow>
     (\<exists>g s. ValidateGatewayID g \<and> ValidateSensorID s \<and> topic = telemetry_topic g s \<and>
       p = \<lparr>pt_SourceTopic = topic, pt_GatewayID = g, pt_SensorID = s\<rparr>)"
proof
  assume ok: "ParseTopic topic = Inr p"
  define seg where "seg = go_split CHR ''/'' topic"
  have s: "length seg = 4" "seg ! 0 = ''gateways''" "seg ! 2 = ''telemetry''"
    "ValidateGatewayID (seg ! 1)" "ValidateSensorID (seg ! 3)"
    "p = \<lparr>pt_SourceTopic = topic, pt_GatewayID = seg ! 1, pt_SensorID = seg ! 3\<rparr>"
    using ok by (auto simp: ParseTopic_def Let_def seg_def split: if_splits)
  have "topic = join_sep CHR ''/'' [''gateways'', seg ! 1, ''telemetry'', seg ! 3]"
    using four_segments [OF s(1)] s(2,3) join_go_split [of "CHR ''/''" topic] unfolding seg_def by metis
  then have "topic = telemetry_topic (seg ! 1) (seg ! 3)" by (simp add: telemetry_topic_def)
  then show "\<exists>g s. ValidateGatewayID g \<and> ValidateSensorID s \<and> topic = telemetry_topic g s \<and>
       p = \<lparr>pt_SourceTopic = topic, pt_GatewayID = g, pt_SensorID = s\<rparr>"
    using s by blast
next
  assume "\<exists>g s. ValidateGatewayID g \<and> ValidateSensorID s \<and> topic = telemetry_topic g s \<and>
       p = \<lparr>pt_SourceTopic = topic, pt_GatewayID = g, pt_SensorID = s\<rparr>"
  then show "ParseTopic topic = Inr p"
    by (auto simp: ParseTopic_def Let_def go_split_telemetry_topic valid_id_no_slash)
qed


section \<open>Batches, samples and limits\<close>

text \<open>Sample values are doubles, represented by the rational they denote.\<close>

record BatchDTO =
  bd_ProtocolVersion :: int
  bd_MessageID :: uuid
  bd_MessageType :: string
  bd_GatewayID :: string
  bd_SensorID :: string
  bd_BootID :: uuid
  bd_FirstSequence :: int
  bd_SampleCount :: int
  bd_MeasuredAt :: string
  bd_SampleIntervalUS :: int
  bd_Samples :: "rat list"

record SampleCandidate =
  sc_GatewayID :: string
  sc_SensorID :: string
  sc_BootID :: uuid
  sc_MessageID :: uuid
  sc_SampleIndex :: int
  sc_SequenceNum :: int
  sc_MeasuredAt :: time
  sc_Value :: rat

record Limits =
  lm_MaxPayloadBytes :: int
  lm_MaxSamples :: int
  lm_MaxBatchDuration :: duration
  lm_MaxFutureSkew :: duration

definition Limits_Validate :: "Limits \<Rightarrow> go_error option" where
  "Limits_Validate l =
     (if lm_MaxPayloadBytes l \<le> 0 then Some (ReasonError ReasonInvalidPayload ''max_payload_bytes'')
      else if lm_MaxSamples l \<le> 0 \<or> maxInt32 < lm_MaxSamples l
        then Some (ReasonError ReasonInvalidPayload ''max_samples'')
      else if lm_MaxBatchDuration l \<le> 0 then Some (ReasonError ReasonInvalidPayload ''max_batch_duration'')
      else if lm_MaxFutureSkew l < 0 then Some (ReasonError ReasonInvalidPayload ''max_future_skew'')
      else None)"

end
