(* ===== verification/TelemetryDecode.thy ===== *)
theory TelemetryDecode
  imports TelemetryModel
begin

text \<open>
  Strict decoding of one \<open>telemetry_batch\<close> payload (\<open>telemetry/decode.go\<close>): the JSON object with
  exactly the eleven known fields, the field conversions in the order the code runs them, and the
  match of the payload's identifiers with those of the topic. Payloads are bytes, and the JSON
  layer is the scanner of \<open>GoJson\<close>.
\<close>

definition batchFieldNames :: "string list" where
  "batchFieldNames =
     [''protocol_version'', ''message_id'', ''message_type'', ''gateway_id'', ''sensor_id'', ''boot_id'',
      ''first_sequence'', ''sample_count'', ''measured_at'', ''sample_interval_us'', ''samples'']"

definition isNull :: "string \<Rightarrow> bool" where
  "isNull raw \<longleftrightarrow> trimSpace raw = ''null''"

lemma isNull_quote [simp]: "\<not> isNull (quote s)"
proof -
  have "trimSpace (quote s) = quote s"
    by (rule trimSpace_id) (auto simp: quote_def space_encodings_def)
  then show ?thesis by (simp add: isNull_def quote_def)
qed

definition decodeBatchObject :: "string \<Rightarrow> (string \<times> string) list option" where
  "decodeBatchObject payload = decode_strict_object batchFieldNames payload"

definition decodeInt64 :: "string \<Rightarrow> int option" where
  "decodeInt64 raw = (if isNull raw then None else strconv_ParseInt 64 raw)"

definition decodeInt32 :: "string \<Rightarrow> int option" where
  "decodeInt32 raw = (if isNull raw then None else strconv_ParseInt 32 raw)"

definition decodeString :: "string \<Rightarrow> string option" where
  "decodeString raw = (if isNull raw then None else json_string raw)"

definition decodeUUID :: "uuid_pkg \<Rightarrow> string \<Rightarrow> uuid option" where
  "decodeUUID U raw =
     (case decodeString raw of
        None \<Rightarrow> None
      | Some v \<Rightarrow> if \<not> uuid_Validate U v then None else uuid_Parse U v)"

definition decodeSample :: "string \<Rightarrow> rat option" where
  "decodeSample item = (if isNull item then None else json_float64 item)"

definition decodeSamples :: "string \<Rightarrow> int \<Rightarrow> rat list option" where
  "decodeSamples raw maximum =
     (if isNull raw then None
      else
        (case skip_space raw of
           [] \<Rightarrow> None
         | c # cs \<Rightarrow>
             if c \<noteq> CHR ''['' then None
             else
               (case array_items decodeSample (nat maximum) [] True cs of
                  None \<Rightarrow> None
                | Some (samples, rest) \<Rightarrow> if skip_space rest \<noteq> [] then None else Some samples)))"

definition decodeBatch :: "uuid_pkg \<Rightarrow> string \<Rightarrow> ParsedTopic \<Rightarrow> Limits \<Rightarrow> go_error + BatchDTO" where
  "decodeBatch U payload topic limits =
     res_bind (reject_if (lm_MaxPayloadBytes limits < int (length payload))
                 (ReasonError ReasonPayloadTooLarge ''payload'')) (\<lambda>_.
     res_bind (reject_if (lm_MaxPayloadBytes limits \<le> 0 \<or> lm_MaxSamples limits \<le> 0)
                 (invalidPayloadError ''limits'')) (\<lambda>_.
     res_bind (ok_or (decodeBatchObject payload) (invalidPayloadError ''object'')) (\<lambda>flds.
     res_bind (ok_or (decodeInt64 (raw_field flds ''protocol_version''))
                 (invalidPayloadError ''protocol_version'')) (\<lambda>protocolVersion.
     res_bind (reject_if (protocolVersion \<noteq> 1)
                 (ReasonError ReasonUnsupportedProtocol ''protocol_version'')) (\<lambda>_.
     res_bind (ok_or (decodeUUID U (raw_field flds ''message_id''))
                 (invalidPayloadError ''message_id'')) (\<lambda>messageID.
     res_bind (reject_if (messageID = uuid_Nil \<or>
                   (uuid_Version U messageID \<noteq> 4 \<and> uuid_Version U messageID \<noteq> 7) \<or> \<not> uuid_RFC4122 U messageID)
                 (invalidPayloadError ''message_id'')) (\<lambda>_.
     res_bind (ok_or (decodeString (raw_field flds ''message_type''))
                 (invalidPayloadError ''message_type'')) (\<lambda>messageType.
     res_bind (reject_if (messageType \<noteq> ''telemetry_batch'')
                 (ReasonError ReasonUnsupportedProtocol ''message_type'')) (\<lambda>_.
     res_bind (ok_or (decodeString (raw_field flds ''gateway_id''))
                 (invalidPayloadError ''gateway_id'')) (\<lambda>gatewayID.
     res_bind (reject_if (\<not> ValidateGatewayID gatewayID) (invalidPayloadError ''gateway_id'')) (\<lambda>_.
     res_bind (ok_or (decodeString (raw_field flds ''sensor_id''))
                 (invalidPayloadError ''sensor_id'')) (\<lambda>sensorID.
     res_bind (reject_if (\<not> ValidateSensorID sensorID) (invalidPayloadError ''sensor_id'')) (\<lambda>_.
     res_bind (ok_or (decodeUUID U (raw_field flds ''boot_id''))
                 (invalidPayloadError ''boot_id'')) (\<lambda>bootID.
     res_bind (reject_if (bootID = uuid_Nil \<or> \<not> uuid_RFC4122 U bootID) (invalidPayloadError ''boot_id'')) (\<lambda>_.
     res_bind (ok_or (decodeInt64 (raw_field flds ''first_sequence''))
                 (invalidPayloadError ''first_sequence'')) (\<lambda>firstSequence.
     res_bind (ok_or (decodeInt32 (raw_field flds ''sample_count''))
                 (invalidPayloadError ''sample_count'')) (\<lambda>sampleCount.
     res_bind (ok_or (decodeString (raw_field flds ''measured_at''))
                 (invalidPayloadError ''measured_at'')) (\<lambda>measuredAt.
     res_bind (ok_or (decodeInt64 (raw_field flds ''sample_interval_us''))
                 (invalidPayloadError ''sample_interval_us'')) (\<lambda>sampleIntervalUS.
     res_bind (reject_if (sampleCount \<le> 0 \<or> lm_MaxSamples limits < sampleCount)
                 (invalidPayloadError ''sample_count'')) (\<lambda>_.
     res_bind (ok_or (decodeSamples (raw_field flds ''samples'') (lm_MaxSamples limits))
                 (invalidPayloadError ''samples'')) (\<lambda>samples.
     res_bind (reject_if (int (length samples) \<noteq> sampleCount) (invalidPayloadError ''sample_count'')) (\<lambda>_.
     res_bind (reject_if (gatewayID \<noteq> pt_GatewayID topic \<or> sensorID \<noteq> pt_SensorID topic)
                 (ReasonError ReasonInvalidTopic ''topic'')) (\<lambda>_.
     Inr \<lparr>bd_ProtocolVersion = protocolVersion, bd_MessageID = messageID, bd_MessageType = messageType,
          bd_GatewayID = gatewayID, bd_SensorID = sensorID, bd_BootID = bootID,
          bd_FirstSequence = firstSequence, bd_SampleCount = sampleCount, bd_MeasuredAt = measuredAt,
          bd_SampleIntervalUS = sampleIntervalUS, bd_Samples = samples\<rparr>)))))))))))))))))))))))"

text \<open>What a decoded batch satisfies before any range check.\<close>

definition decoded_ok :: "uuid_pkg \<Rightarrow> ParsedTopic \<Rightarrow> Limits \<Rightarrow> BatchDTO \<Rightarrow> bool" where
  "decoded_ok U topic limits b \<longleftrightarrow>
     bd_ProtocolVersion b = 1 \<and> bd_MessageType b = ''telemetry_batch'' \<and>
     valid_message_id U (bd_MessageID b) \<and> valid_boot_id U (bd_BootID b) \<and>
     bd_GatewayID b = pt_GatewayID topic \<and> bd_SensorID b = pt_SensorID topic \<and>
     ValidateGatewayID (bd_GatewayID b) \<and> ValidateSensorID (bd_SensorID b) \<and>
     in_i64 (bd_FirstSequence b) \<and> in_i64 (bd_SampleIntervalUS b) \<and>
     0 < bd_SampleCount b \<and> bd_SampleCount b \<le> maxInt32 \<and> bd_SampleCount b \<le> lm_MaxSamples limits \<and>
     int (length (bd_Samples b)) = bd_SampleCount b"

lemma decodeInt64_range [go_range]: "decodeInt64 raw = Some v \<Longrightarrow> in_i64 v"
  by (auto simp: decodeInt64_def go_range split: if_splits)

lemma decodeInt32_range [go_range]: "decodeInt32 raw = Some v \<Longrightarrow> in_i32 v"
  by (auto simp: decodeInt32_def go_range split: if_splits)

lemma decodeBatch_fields:
  assumes "decodeBatch U payload topic limits = Inr b"
  shows "decoded_ok U topic limits b \<and> int (length payload) \<le> lm_MaxPayloadBytes limits"
  using assms unfolding decodeBatch_def
  by (clarsimp simp: decoded_ok_def valid_message_id_def valid_boot_id_def in_i32_def
      dest!: decodeInt64_range decodeInt32_range)

text \<open>Every failure of the decoder is a permanent input error: a retry with the same bytes cannot help.\<close>

definition permanent :: "go_error \<Rightarrow> bool" where
  "permanent e \<longleftrightarrow> ClassifyFailure (Some e) = FailurePermanentInputConflict"

lemma permanent_simps [simp]:
  "permanent (invalidPayloadError f)" "permanent (ReasonError c f) = (classify_reason c = FailurePermanentInputConflict)"
  by (simp_all add: permanent_def ClassifyFailure_def invalidPayloadError_def)

definition fails_permanently :: "go_error + 'a \<Rightarrow> bool" where
  "fails_permanently r \<longleftrightarrow> (\<forall>e. r = Inl e \<longrightarrow> permanent e)"

lemma fails_permanently_rules [intro]:
  "fails_permanently (Inr y)"
  "permanent e \<Longrightarrow> fails_permanently (reject_if b e)"
  "permanent e \<Longrightarrow> fails_permanently (ok_or x e)"
  "fails_permanently m \<Longrightarrow> (\<And>x. fails_permanently (f x)) \<Longrightarrow> fails_permanently (res_bind m f)"
  by (auto simp: fails_permanently_def res_bind_eq_Inl)

lemma decodeBatch_error_permanent: "fails_permanently (decodeBatch U payload topic limits)"
  unfolding decodeBatch_def by (intro fails_permanently_rules) simp_all

end
