(* ===== verification/Sha256.thy ===== *)
theory Sha256
  imports Prelude "HOL-Library.Word"
begin

text \<open>
  \<open>crypto/sha256\<close>: \<open>sha256.Sum256\<close> and its lower-case hexadecimal rendering by \<open>encoding/hex\<close>,
  on 32-bit words. The ledger compares payloads by this digest.
\<close>

unbundle bit_operations_syntax

type_synonym u32 = "32 word"

definition rotr :: "nat \<Rightarrow> u32 \<Rightarrow> u32" where
  "rotr n x = word_rotr n x"

definition round_constants :: "u32 list" where
  "round_constants =
     [0x428A2F98, 0x71374491, 0xB5C0FBCF, 0xE9B5DBA5,
      0x3956C25B, 0x59F111F1, 0x923F82A4, 0xAB1C5ED5,
      0xD807AA98, 0x12835B01, 0x243185BE, 0x550C7DC3,
      0x72BE5D74, 0x80DEB1FE, 0x9BDC06A7, 0xC19BF174,
      0xE49B69C1, 0xEFBE4786, 0x0FC19DC6, 0x240CA1CC,
      0x2DE92C6F, 0x4A7484AA, 0x5CB0A9DC, 0x76F988DA,
      0x983E5152, 0xA831C66D, 0xB00327C8, 0xBF597FC7,
      0xC6E00BF3, 0xD5A79147, 0x06CA6351, 0x14292967,
      0x27B70A85, 0x2E1B2138, 0x4D2C6DFC, 0x53380D13,
      0x650A7354, 0x766A0ABB, 0x81C2C92E, 0x92722C85,
      0xA2BFE8A1, 0xA81A664B, 0xC24B8B70, 0xC76C51A3,
      0xD192E819, 0xD6990624, 0xF40E3585, 0x106AA070,
      0x19A4C116, 0x1E376C08, 0x2748774C, 0x34B0BCB5,
      0x391C0CB3, 0x4ED8AA4A, 0x5B9CCA4F, 0x682E6FF3,
      0x748F82EE, 0x78A5636F, 0x84C87814, 0x8CC70208,
      0x90BEFFFA, 0xA4506CEB, 0xBEF9A3F7, 0xC67178F2]"

definition initial_hash :: "u32 list" where
  "initial_hash =
     [0x6A09E667, 0xBB67AE85, 0x3C6EF372, 0xA54FF53A,
      0x510E527F, 0x9B05688C, 0x1F83D9AB, 0x5BE0CD19]"

text \<open>The message schedule, extended from 16 to 64 words, newest word first.\<close>

definition schedule_word :: "u32 list \<Rightarrow> u32" where
  "schedule_word w =
     (let x = w ! 14; y = w ! 1;
          s0 = rotr 7 x XOR rotr 18 x XOR drop_bit 3 x;
          s1 = rotr 17 y XOR rotr 19 y XOR drop_bit 10 y
      in w ! 15 + s0 + w ! 6 + s1)"

fun extend_schedule :: "nat \<Rightarrow> u32 list \<Rightarrow> u32 list" where
  "extend_schedule 0 w = w"
| "extend_schedule (Suc n) w = extend_schedule n (schedule_word w # w)"

fun compress_round :: "u32 list \<Rightarrow> u32 \<times> u32 \<Rightarrow> u32 list" where
  "compress_round [a, b, c, d, e, f, g, h] (k, w) =
     (let s1 = rotr 6 e XOR rotr 11 e XOR rotr 25 e;
          ch = (e AND f) XOR (NOT e AND g);
          t1 = h + s1 + ch + k + w;
          s0 = rotr 2 a XOR rotr 13 a XOR rotr 22 a;
          maj = (a AND b) XOR (a AND c) XOR (b AND c);
          t2 = s0 + maj
      in [t1 + t2, a, b, c, d + t1, e, f, g])"
| "compress_round st kw = st"

definition compress :: "u32 list \<Rightarrow> u32 list \<Rightarrow> u32 list" where
  "compress st block =
     map2 (+) st (foldl compress_round st (zip round_constants (rev (extend_schedule 48 (rev block)))))"

definition be_word :: "string \<Rightarrow> u32" where
  "be_word bs = foldl (\<lambda>acc b. acc * 256 + of_nat (of_char b)) 0 bs"

definition be_bytes :: "nat \<Rightarrow> nat \<Rightarrow> string" where
  "be_bytes n x = map (\<lambda>i. char_of (x div 256 ^ i mod 256)) (rev [0..<n])"

text \<open>Padding: a one bit, zeros, and the length in bits as a 64-bit big-endian number.\<close>

definition sha_pad :: "string \<Rightarrow> string" where
  "sha_pad s = s @ CHR 0x80 # replicate ((119 - length s mod 64) mod 64) CHR 0x00 @ be_bytes 8 (8 * length s)"

fun chunks :: "nat \<Rightarrow> nat \<Rightarrow> 'a list \<Rightarrow> 'a list list" where
  "chunks 0 n s = []"
| "chunks (Suc k) n s = take n s # chunks k n (drop n s)"

definition blocks :: "string \<Rightarrow> u32 list list" where
  "blocks s = (let p = sha_pad s
     in map (\<lambda>b. map be_word (chunks 16 4 b)) (chunks (length p div 64) 64 p))"

definition sha256_sum :: "string \<Rightarrow> u32 list" where
  "sha256_sum s = foldl compress initial_hash (blocks s)"

definition hex_digit :: "nat \<Rightarrow> char" where
  "hex_digit n = char_of (if n < 10 then 48 + n else 87 + n)"

definition hex_word :: "u32 \<Rightarrow> string" where
  "hex_word w = map (\<lambda>i. hex_digit (unat w div 16 ^ i mod 16)) (rev [0..<8])"

definition sha256_hex :: "string \<Rightarrow> string" where
  "sha256_hex s = concat (map hex_word (sha256_sum s))"

lemma length_compress_round [simp]: "length (compress_round st kw) = length st"
  by (induction st kw rule: compress_round.induct) (simp_all add: Let_def)

lemma length_foldl_compress_round [simp]: "length (foldl compress_round st kws) = length st"
  by (induction kws arbitrary: st) simp_all

lemma length_compress [simp]: "length (compress st b) = length st"
  by (simp add: compress_def)

lemma length_sha256_sum [simp]: "length (sha256_sum s) = 8"
proof -
  have "length (foldl compress st bs) = length st" for st bs
    by (induction bs arbitrary: st) simp_all
  then show ?thesis by (simp add: sha256_sum_def initial_hash_def)
qed

lemma length_hex_word [simp]: "length (hex_word w) = 8"
  by (simp add: hex_word_def)

text \<open>The digest prints as 64 hexadecimal characters, so it is never empty.\<close>

lemma length_sha256_hex: "length (sha256_hex s) = 64"
proof -
  have "length (concat (map hex_word ws)) = 8 * length ws" for ws
    by (induction ws) simp_all
  then show ?thesis by (simp add: sha256_hex_def)
qed

lemma sha256_hex_nonempty [simp]: "sha256_hex s \<noteq> []"
  using length_sha256_hex [of s] by (metis length_0_conv zero_neq_numeral)

end
