(* ===== verification/TelemetryValidation.thy ===== *)
theory TelemetryValidation
  imports TelemetryDecode Sha256
begin

text \<open>
  Range validation and message construction: \<open>telemetry/validation.go\<close> (sequence and time
  arithmetic before any sample is expanded, the strict timestamp syntax) and
  \<open>telemetry/message.go\<close> (the validator, the immutable message and its accessors). Arithmetic on
  \<open>int64\<close> and \<open>time.Duration\<close> is written with \<open>i64\<close>; the theorems show that no accepted batch
  makes it wrap.
\<close>

section \<open>Timestamps\<close>

definition allDigits :: "string \<Rightarrow> bool" where
  "allDigits s \<longleftrightarrow> s \<noteq> [] \<and> list_all is_digit s"

definition validCalendarYear :: "time \<Rightarrow> bool" where
  "validCalendarYear t \<longleftrightarrow> 1 \<le> time_Year t \<and> time_Year t \<le> 9999"

definition addTimestampSafe :: "time \<Rightarrow> duration \<Rightarrow> time \<times> bool" where
  "addTimestampSafe value delta = (let result = value + delta in (result, validCalendarYear result))"

definition zone_start :: "string \<Rightarrow> nat" where
  "zone_start v =
     (case find (\<lambda>i. v ! i = CHR ''Z'' \<or> v ! i = CHR ''+'' \<or> v ! i = CHR ''-'') [19..<length v] of
        Some i \<Rightarrow> i
      | None \<Rightarrow> length v - 1)"

definition parseMeasuredAt :: "string \<Rightarrow> time option" where
  "parseMeasuredAt v =
     (if length v < 20 \<or> \<not> allDigits (substr 0 4 v) \<or> v ! 4 \<noteq> CHR ''-'' \<or> \<not> allDigits (substr 5 7 v)
         \<or> v ! 7 \<noteq> CHR ''-'' \<or> \<not> allDigits (substr 8 10 v) \<or> v ! 10 \<noteq> CHR ''T'' \<or> \<not> allDigits (substr 11 13 v)
         \<or> v ! 13 \<noteq> CHR '':'' \<or> \<not> allDigits (substr 14 16 v) \<or> v ! 16 \<noteq> CHR '':'' \<or> \<not> allDigits (substr 17 19 v)
      then None
      else if digits_val (substr 0 4 v) = 0 then None
      else
        (let zoneStart = zone_start v; zone = drop zoneStart v in
         if zoneStart \<noteq> 19 \<and>
            (v ! 19 \<noteq> CHR ''.'' \<or>
             (let fractionDigits = substr 20 zoneStart v
              in length fractionDigits = 0 \<or> 6 < length fractionDigits \<or> \<not> allDigits fractionDigits))
         then None
         else if zone \<noteq> ''Z'' \<and>
            (length zone \<noteq> 6 \<or> (zone ! 0 \<noteq> CHR ''+'' \<and> zone ! 0 \<noteq> CHR ''-'') \<or> zone ! 3 \<noteq> CHR '':''
             \<or> \<not> allDigits (substr 1 3 zone) \<or> \<not> allDigits (substr 4 6 zone)
             \<or> 23 < digits_val (substr 1 3 zone) \<or> 59 < digits_val (substr 4 6 zone))
         then None
         else if 23 < digits_val (substr 11 13 v) \<or> 59 < digits_val (substr 14 16 v) \<or> 59 < digits_val (substr 17 19 v)
         then None
         else
           (case time_Parse_RFC3339Nano v of
              None \<Rightarrow> None
            | Some parsed \<Rightarrow> if \<not> validCalendarYear parsed then None else Some parsed)))"

lemma validCalendarYear_iff: "validCalendarYear t \<longleftrightarrow> 0 \<le> t \<and> t < endOfYear9999"
  by (simp add: validCalendarYear_def)

lemma parseMeasuredAt_year: "parseMeasuredAt v = Some t \<Longrightarrow> 0 \<le> t \<and> t < endOfYear9999"
  by (auto simp: parseMeasuredAt_def Let_def validCalendarYear_iff split: if_splits option.splits)

section \<open>Range checks\<close>

record validatedRange =
  vr_FirstMeasuredAt :: time
  vr_LastMeasuredAt :: time
  vr_LastSequence :: int
  vr_Interval :: duration

definition maxExactFloat64Integer :: int where
  "maxExactFloat64Integer = 2 ^ 53"

definition microsecond :: duration where "microsecond = 1000"

definition validateRange :: "BatchDTO \<Rightarrow> Limits \<Rightarrow> time \<Rightarrow> go_error + validatedRange" where
  "validateRange batch limits receivedAt =
     res_bind (reject_if (bd_SampleCount batch \<le> 0) (ReasonError ReasonInvalidSequenceRange ''sample_count'')) (\<lambda>_.
     res_bind (reject_if (bd_FirstSequence batch < 0) (ReasonError ReasonInvalidSequenceRange ''first_sequence'')) (\<lambda>_.
     let steps = i64 (bd_SampleCount batch - 1) in
     res_bind (reject_if (i64 (maxInt64 - bd_FirstSequence batch) < steps)
                 (ReasonError ReasonInvalidSequenceRange ''last_sequence'')) (\<lambda>_.
     let lastSequence = i64 (bd_FirstSequence batch + steps) in
     res_bind (reject_if (bd_SampleIntervalUS batch \<le> 0 \<or> maxExactFloat64Integer < bd_SampleIntervalUS batch \<or>
                   maxInt64 div microsecond < bd_SampleIntervalUS batch)
                 (ReasonError ReasonInvalidSequenceRange ''sample_interval_us'')) (\<lambda>_.
     let interval = i64 (bd_SampleIntervalUS batch * microsecond) in
     res_bind (reject_if (0 < steps \<and> maxInt64 div steps < interval)
                 (ReasonError ReasonInvalidSequenceRange ''span'')) (\<lambda>_.
     let span = i64 (steps * interval) in
     res_bind (reject_if (lm_MaxBatchDuration limits \<le> 0 \<or> lm_MaxBatchDuration limits < span)
                 (ReasonError ReasonInvalidSequenceRange ''span'')) (\<lambda>_.
     res_bind (ok_or (parseMeasuredAt (bd_MeasuredAt batch))
                 (ReasonError ReasonInvalidTimestamp ''measured_at'')) (\<lambda>first.
     case addTimestampSafe first span of (lastT, ok) \<Rightarrow>
     res_bind (reject_if (\<not> ok) (ReasonError ReasonInvalidTimestamp ''last_measured_at'')) (\<lambda>_.
     res_bind (reject_if (lm_MaxFutureSkew limits < 0) (ReasonError ReasonInvalidTimestamp ''max_future_skew'')) (\<lambda>_.
     let threshold = receivedAt + lm_MaxFutureSkew limits in
     res_bind (reject_if (time_Year threshold < 1) (ReasonError ReasonTimestampInFuture ''last_measured_at'')) (\<lambda>_.
     res_bind (reject_if (time_Year threshold \<le> 9999 \<and> threshold < lastT)
                 (ReasonError ReasonTimestampInFuture ''last_measured_at'')) (\<lambda>_.
     Inr \<lparr>vr_FirstMeasuredAt = first, vr_LastMeasuredAt = lastT, vr_LastSequence = lastSequence,
          vr_Interval = interval\<rparr>)))))))))))"

text \<open>
  The same checks over unbounded integers: what the code means by a batch that fits.
\<close>

definition range_spec :: "BatchDTO \<Rightarrow> Limits \<Rightarrow> time \<Rightarrow> time \<Rightarrow> bool" where
  "range_spec b l receivedAt first \<longleftrightarrow>
     0 < bd_SampleCount b \<and> 0 \<le> bd_FirstSequence b \<and>
     bd_FirstSequence b + (bd_SampleCount b - 1) \<le> maxInt64 \<and>
     0 < bd_SampleIntervalUS b \<and> bd_SampleIntervalUS b \<le> maxExactFloat64Integer \<and>
     (bd_SampleCount b - 1) * (bd_SampleIntervalUS b * 1000) \<le> maxInt64 \<and>
     (bd_SampleCount b - 1) * (bd_SampleIntervalUS b * 1000) \<le> lm_MaxBatchDuration l \<and>
     0 < lm_MaxBatchDuration l \<and> 0 \<le> lm_MaxFutureSkew l \<and>
     parseMeasuredAt (bd_MeasuredAt b) = Some first \<and>
     first + (bd_SampleCount b - 1) * (bd_SampleIntervalUS b * 1000) < endOfYear9999 \<and>
     first + (bd_SampleCount b - 1) * (bd_SampleIntervalUS b * 1000) \<le> receivedAt + lm_MaxFutureSkew l"

lemma interval_no_wrap:
  assumes "0 < us" and "us \<le> maxExactFloat64Integer"
  shows "us \<le> maxInt64 div microsecond" and "i64 (us * microsecond) = us * 1000"
proof -
  show "us \<le> maxInt64 div microsecond"
    using assms by (simp add: maxExactFloat64Integer_def maxInt64_def microsecond_def)
  have "in_i64 (us * 1000)" using assms by (simp add: maxExactFloat64Integer_def int_bounds_defs)
  then show "i64 (us * microsecond) = us * 1000" by (simp add: microsecond_def i64_id)
qed

lemma span_check:
  assumes "0 < (steps::int)" and "0 < interval"
  shows "maxInt64 div steps < interval \<longleftrightarrow> maxInt64 < steps * interval"
proof -
  have "interval \<le> maxInt64 div steps \<longleftrightarrow> interval * steps \<le> maxInt64"
  proof
    assume "interval \<le> maxInt64 div steps"
    then have "interval * steps \<le> maxInt64 div steps * steps" using assms by simp
    also have "\<dots> \<le> maxInt64" using assms div_mult_mod_eq [of maxInt64 steps] pos_mod_sign [of steps maxInt64] by linarith
    finally show "interval * steps \<le> maxInt64" .
  next
    assume "interval * steps \<le> maxInt64"
    then have "interval * steps div steps \<le> maxInt64 div steps" using assms by (intro zdiv_mono1) simp_all
    then show "interval \<le> maxInt64 div steps" using assms by simp
  qed
  then show ?thesis by (simp add: mult.commute not_le [symmetric])
qed

text \<open>
  With the field ranges the decoder guarantees, the machine-integer checks accept exactly the
  batches that fit over the integers, and return their exact bounds: no check is defeated by
  wrap-around.
\<close>

lemma validateRange_iff:
  assumes first: "in_i64 (bd_FirstSequence b)" and count: "bd_SampleCount b \<le> maxInt32"
  shows "validateRange b l receivedAt = Inr r \<longleftrightarrow>
    (\<exists>t. range_spec b l receivedAt t \<and>
       r = \<lparr>vr_FirstMeasuredAt = t,
            vr_LastMeasuredAt = t + (bd_SampleCount b - 1) * (bd_SampleIntervalUS b * 1000),
            vr_LastSequence = bd_FirstSequence b + (bd_SampleCount b - 1),
            vr_Interval = bd_SampleIntervalUS b * 1000\<rparr>)"
proof (cases "0 < bd_SampleCount b \<and> 0 \<le> bd_FirstSequence b")
  case False
  then show ?thesis by (auto simp: validateRange_def range_spec_def)
next
  case True
  define steps where "steps = bd_SampleCount b - 1"
  have steps: "0 \<le> steps" "steps \<le> maxInt32" "i64 steps = steps"
    using True count by (auto simp: steps_def i64_id int_bounds_defs)
  have room: "i64 (maxInt64 - bd_FirstSequence b) = maxInt64 - bd_FirstSequence b"
    using True first by (intro i64_id) (auto simp: int_bounds_defs)
  show ?thesis
  proof (cases "bd_FirstSequence b + steps \<le> maxInt64 \<and> 0 < bd_SampleIntervalUS b \<and> bd_SampleIntervalUS b \<le> maxExactFloat64Integer")
    case False
    then show ?thesis
      using True room steps(3) by (auto simp: validateRange_def range_spec_def Let_def simp flip: steps_def)
  next
    case fits: True
    define iv where "iv = bd_SampleIntervalUS b * 1000"
    have lastseq: "i64 (bd_FirstSequence b + steps) = bd_FirstSequence b + steps"
      using True fits steps by (intro i64_id) (auto simp: int_bounds_defs)
    note nw = interval_no_wrap [of "bd_SampleIntervalUS b"]
    have iv: "i64 (bd_SampleIntervalUS b * microsecond) = iv" "0 < iv" using fits nw by (simp_all add: iv_def)
    show ?thesis
    proof (cases "steps * iv \<le> maxInt64")
      case False
      then have "0 < steps" using steps iv by (cases "steps = 0") (auto simp: maxInt64_def)
      then show ?thesis
        using True fits room steps(3) lastseq nw iv False span_check [of steps iv]
        by (auto simp: validateRange_def range_spec_def Let_def simp flip: steps_def iv_def)
    next
      case small: True
      have span: "i64 (steps * iv) = steps * iv"
        using small steps iv by (intro i64_id) (auto simp: in_i64_def minInt64_def intro: order_trans [of _ 0])
      have ge0: "0 \<le> steps * iv" using steps iv by simp
      have nospan: "\<not> (0 < steps \<and> maxInt64 div steps < iv)" using small iv span_check [of steps iv] by auto
      have "validateRange b l receivedAt = Inr r \<longleftrightarrow>
          0 < lm_MaxBatchDuration l \<and> steps * iv \<le> lm_MaxBatchDuration l \<and>
          (\<exists>t. parseMeasuredAt (bd_MeasuredAt b) = Some t \<and> validCalendarYear (t + steps * iv) \<and>
             0 \<le> lm_MaxFutureSkew l \<and> 1 \<le> time_Year (receivedAt + lm_MaxFutureSkew l) \<and>
             \<not> (time_Year (receivedAt + lm_MaxFutureSkew l) \<le> 9999 \<and> receivedAt + lm_MaxFutureSkew l < t + steps * iv) \<and>
             r = \<lparr>vr_FirstMeasuredAt = t, vr_LastMeasuredAt = t + steps * iv,
                  vr_LastSequence = bd_FirstSequence b + steps, vr_Interval = iv\<rparr>)"
        using True fits room steps(3) lastseq nw iv span nospan
        unfolding validateRange_def steps_def [symmetric]
        by (simp add: Let_def addTimestampSafe_def not_less not_le iv_def) blast
      also have "\<dots> \<longleftrightarrow> (\<exists>t. range_spec b l receivedAt t \<and> r = \<lparr>vr_FirstMeasuredAt = t, vr_LastMeasuredAt = t + steps * iv,
            vr_LastSequence = bd_FirstSequence b + steps, vr_Interval = iv\<rparr>)"
        using True fits ge0 small parseMeasuredAt_year [of "bd_MeasuredAt b"]
        by (fastforce simp: range_spec_def validCalendarYear_iff simp flip: steps_def iv_def)
      finally show ?thesis by (simp add: steps_def iv_def)
    qed
  qed
qed

section \<open>Messages\<close>

record Message =
  msg_topic :: ParsedTopic
  msg_batch :: BatchDTO
  msg_rawPayload :: string
  msg_payloadHash :: string
  msg_receivedAt :: time
  msg_samples :: "SampleCandidate list"

text \<open>A \<open>*Validator\<close> is its limits, or \<open>None\<close> for the nil pointer.\<close>

definition NewValidator :: "Limits \<Rightarrow> go_error + Limits option" where
  "NewValidator limits = (case Limits_Validate limits of Some e \<Rightarrow> Inl e | None \<Rightarrow> Inr (Some limits))"

text \<open>One iteration of the loop that expands the samples; \<open>i\<close> is the loop index.\<close>

definition expandSample :: "BatchDTO \<Rightarrow> validatedRange \<Rightarrow> nat \<Rightarrow> rat \<Rightarrow> SampleCandidate" where
  "expandSample batch checkedRange i v =
     (let index = i32 (int i) in
      \<lparr>sc_GatewayID = bd_GatewayID batch, sc_SensorID = bd_SensorID batch, sc_BootID = bd_BootID batch,
       sc_MessageID = bd_MessageID batch, sc_SampleIndex = index,
       sc_SequenceNum = i64 (bd_FirstSequence batch + index),
       sc_MeasuredAt = vr_FirstMeasuredAt checkedRange + i64 (index * vr_Interval checkedRange),
       sc_Value = v\<rparr>)"

definition expandSamples :: "BatchDTO \<Rightarrow> validatedRange \<Rightarrow> SampleCandidate list" where
  "expandSamples batch r = map (\<lambda>(i, v). expandSample batch r i v) (enumerate 0 (bd_Samples batch))"

definition Validate :: "uuid_pkg \<Rightarrow> Limits option \<Rightarrow> string \<Rightarrow> string \<Rightarrow> time \<Rightarrow> go_error + Message" where
  "Validate U v topic payload receivedAt =
     (case v of
        None \<Rightarrow> Inl (invalidPayloadError ''limits'')
      | Some limits \<Rightarrow>
          (case Limits_Validate limits of
             Some e \<Rightarrow> Inl e
           | None \<Rightarrow>
               res_bind (reject_if (lm_MaxPayloadBytes limits < int (length payload))
                           (ReasonError ReasonPayloadTooLarge ''payload'')) (\<lambda>_.
               res_bind (ParseTopic topic) (\<lambda>parsedTopic.
               res_bind (decodeBatch U payload parsedTopic limits) (\<lambda>batch.
               res_bind (validateRange batch limits receivedAt) (\<lambda>checkedRange.
               Inr \<lparr>msg_topic = parsedTopic, msg_batch = batch, msg_rawPayload = payload,
                    msg_payloadHash = sha256_hex payload, msg_receivedAt = receivedAt,
                    msg_samples = expandSamples batch checkedRange\<rparr>))))))"

text \<open>The accessors on a possibly nil \<open>*Message\<close>.\<close>

definition FirstSample :: "Message option \<Rightarrow> SampleCandidate option" where
  "FirstSample m =
     (case m of
        None \<Rightarrow> None
      | Some msg \<Rightarrow> if length (msg_samples msg) = 0 then None else Some (msg_samples msg ! 0))"

definition LastSample :: "Message option \<Rightarrow> SampleCandidate option" where
  "LastSample m =
     (case m of
        None \<Rightarrow> None
      | Some msg \<Rightarrow>
          if length (msg_samples msg) = 0 then None
          else Some (msg_samples msg ! (length (msg_samples msg) - 1)))"

definition PayloadHash :: "Message option \<Rightarrow> string" where
  "PayloadHash m = (case m of None \<Rightarrow> [] | Some msg \<Rightarrow> msg_payloadHash msg)"

definition RawPayload :: "Message option \<Rightarrow> string" where
  "RawPayload m = (case m of None \<Rightarrow> [] | Some msg \<Rightarrow> msg_rawPayload msg)"

definition Samples :: "Message option \<Rightarrow> SampleCandidate list" where
  "Samples m = (case m of None \<Rightarrow> [] | Some msg \<Rightarrow> msg_samples msg)"

subsection \<open>What a validated message satisfies\<close>

text \<open>
  The exact content of the samples over the integers: sample \<open>i\<close> has index \<open>i\<close>, sequence number
  \<open>first + i\<close> and time \<open>start + i * interval\<close>.
\<close>

definition exact_sample :: "BatchDTO \<Rightarrow> time \<Rightarrow> nat \<Rightarrow> SampleCandidate" where
  "exact_sample b start i =
     \<lparr>sc_GatewayID = bd_GatewayID b, sc_SensorID = bd_SensorID b, sc_BootID = bd_BootID b,
      sc_MessageID = bd_MessageID b, sc_SampleIndex = int i, sc_SequenceNum = bd_FirstSequence b + int i,
      sc_MeasuredAt = start + int i * (bd_SampleIntervalUS b * 1000), sc_Value = bd_Samples b ! i\<rparr>"

definition message_wf :: "uuid_pkg \<Rightarrow> Limits \<Rightarrow> Message \<Rightarrow> bool" where
  "message_wf U l m \<longleftrightarrow>
     (\<exists>start. range_spec (msg_batch m) l (msg_receivedAt m) start \<and>
        msg_samples m = map (exact_sample (msg_batch m) start) [0..<length (bd_Samples (msg_batch m))]) \<and>
     decoded_ok U (msg_topic m) l (msg_batch m) \<and>
     ParseTopic (pt_SourceTopic (msg_topic m)) = Inr (msg_topic m) \<and>
     int (length (msg_rawPayload m)) \<le> lm_MaxPayloadBytes l \<and>
     msg_payloadHash m = sha256_hex (msg_rawPayload m)"

lemma expandSample_exact:
  assumes dec: "decoded_ok U topic l b" and rng: "range_spec b l receivedAt start"
    and i: "i < length (bd_Samples b)"
    and r: "vr_FirstMeasuredAt r = start" "vr_Interval r = bd_SampleIntervalUS b * 1000"
  shows "expandSample b r i (bd_Samples b ! i) = exact_sample b start i"
proof -
  define iv where "iv = bd_SampleIntervalUS b * 1000"
  have iv: "0 < iv" using rng by (simp add: range_spec_def iv_def)
  have le: "int i \<le> bd_SampleCount b - 1" using dec i by (simp add: decoded_ok_def)
  then have idx: "i32 (int i) = int i" using dec by (intro i32_id) (simp add: decoded_ok_def int_bounds_defs)
  have seq: "i64 (bd_FirstSequence b + int i) = bd_FirstSequence b + int i"
    using rng le by (intro i64_id) (auto simp: range_spec_def int_bounds_defs)
  have "int i * iv \<le> (bd_SampleCount b - 1) * iv" using le iv by (simp add: mult_right_mono)
  also have "\<dots> \<le> maxInt64" using rng by (simp add: range_spec_def iv_def)
  finally have "i64 (int i * iv) = int i * iv"
    using iv by (intro i64_id) (auto simp: in_i64_def minInt64_def intro: order_trans [of _ 0])
  then show ?thesis by (simp add: expandSample_def exact_sample_def Let_def idx seq r iv_def)
qed

lemma expandSamples_exact:
  assumes "decoded_ok U topic l b" and "range_spec b l receivedAt start"
    and "vr_FirstMeasuredAt r = start" "vr_Interval r = bd_SampleIntervalUS b * 1000"
  shows "expandSamples b r = map (exact_sample b start) [0..<length (bd_Samples b)]"
  using expandSample_exact [OF assms(1,2) _ assms(3,4)]
  by (intro nth_equalityI) (simp_all add: expandSamples_def nth_enumerate_eq)

lemma ParseTopic_SourceTopic: "ParseTopic topic = Inr p \<Longrightarrow> pt_SourceTopic p = topic"
  by (auto simp: ParseTopic_def Let_def split: if_splits)

lemma Validate_ok_iff:
  "Validate U v topic payload receivedAt = Inr m \<longleftrightarrow>
     (\<exists>l p b r. v = Some l \<and> Limits_Validate l = None \<and> int (length payload) \<le> lm_MaxPayloadBytes l \<and>
        ParseTopic topic = Inr p \<and> decodeBatch U payload p l = Inr b \<and> validateRange b l receivedAt = Inr r \<and>
        m = \<lparr>msg_topic = p, msg_batch = b, msg_rawPayload = payload, msg_payloadHash = sha256_hex payload,
             msg_receivedAt = receivedAt, msg_samples = expandSamples b r\<rparr>)"
  by (auto simp: Validate_def not_less split: option.splits)

lemma Validate_wf:
  assumes ok: "Validate U v topic payload receivedAt = Inr m"
  obtains l where "v = Some l" "message_wf U l m" "msg_rawPayload m = payload"
    "pt_SourceTopic (msg_topic m) = topic" "msg_receivedAt m = receivedAt"
proof -
  obtain l p b r where v: "v = Some l" and size: "int (length payload) \<le> lm_MaxPayloadBytes l"
    and p: "ParseTopic topic = Inr p" and b: "decodeBatch U payload p l = Inr b"
    and r: "validateRange b l receivedAt = Inr r"
    and m: "m = \<lparr>msg_topic = p, msg_batch = b, msg_rawPayload = payload, msg_payloadHash = sha256_hex payload,
             msg_receivedAt = receivedAt, msg_samples = expandSamples b r\<rparr>"
    using ok unfolding Validate_ok_iff by blast
  have d: "decoded_ok U p l b" using decodeBatch_fields [OF b] by simp
  obtain start where rs: "range_spec b l receivedAt start" "vr_FirstMeasuredAt r = start"
      "vr_Interval r = bd_SampleIntervalUS b * 1000"
    using r validateRange_iff [of b l receivedAt r] d by (auto simp: decoded_ok_def)
  have "message_wf U l m"
    using d rs p size ParseTopic_SourceTopic [OF p]
    by (auto simp: m message_wf_def expandSamples_exact [OF d rs(1) rs(2,3)])
  then show ?thesis using that v m ParseTopic_SourceTopic [OF p] by simp
qed

end
