(* ===== verification/MeasuredAt.thy ===== *)
theory MeasuredAt
  imports TelemetryValidation
begin

text \<open>
  Facts about the strict timestamp syntax of \<open>telemetry/validation.go\<close>: an accepted timestamp is a
  whole number of microseconds, so PostgreSQL's \<open>TIMESTAMPTZ\<close> stores it and every sample time
  derived from it without loss; and what a Gateway prints with microsecond precision is accepted
  and read back as the same instant.
\<close>

section \<open>Accepted timestamps are whole microseconds\<close>

lemma parse_digits_rest: "parse_digits n s = Some (x, r) \<Longrightarrow> r = drop n s"
  by (auto simp: parse_digits_def split: if_splits)

lemma expect_rest: "expect c s = Some r \<Longrightarrow> r = drop 1 s"
  by (auto simp: expect_def split: list.splits if_splits)

lemma parse_hour_two_digits:
  assumes "allDigits (substr 0 2 s)" and "2 \<le> length s" and "parse_hour s = Some (x, r)"
  shows "r = drop 2 s"
proof -
  have "is_digit (s ! 0)" "is_digit (s ! 1)"
    using assms by (auto simp: allDigits_def substr_def list_all_length)
  then show ?thesis using assms(2,3) by (auto simp: parse_hour_def dest: parse_digits_rest)
qed

lemma time_Parse_shape:
  assumes ok: "time_Parse_RFC3339Nano v = Some t" and hour: "allDigits (substr 11 13 v)" and len: "20 \<le> length v"
  obtains y mo d hh mi ss off where
    "t = time_Date y mo d hh mi ss (fst (parse_fraction (drop 19 v))) - off * nsPerSecond"
proof -
  have h2: "allDigits (substr 0 2 (drop 11 v))" "2 \<le> length (drop 11 v)"
    using hour len by (simp_all add: substr_def)
  note rest = parse_digits_rest expect_rest parse_hour_two_digits [OF h2]
  obtain y v1 v2 mo v3 v4 d v5 v6 hh v7 v8 mi v9 v10 ss v11 where
    p: "parse_digits 4 v = Some (y, v1)" "expect CHR ''-'' v1 = Some v2" "parse_digits 2 v2 = Some (mo, v3)"
       "expect CHR ''-'' v3 = Some v4" "parse_digits 2 v4 = Some (d, v5)" "expect CHR ''T'' v5 = Some v6"
       "parse_hour v6 = Some (hh, v7)" "expect CHR '':'' v7 = Some v8" "parse_digits 2 v8 = Some (mi, v9)"
       "expect CHR '':'' v9 = Some v10" "parse_digits 2 v10 = Some (ss, v11)"
    and t: "\<exists>off. t = time_Date y (nat mo) d hh mi ss (fst (parse_fraction v11)) - off * nsPerSecond"
    using ok unfolding time_Parse_RFC3339Nano_def Let_def
    by (clarsimp simp: Option.bind_eq_Some_conv case_prod_beta split: if_splits)
  have "v1 = drop 4 v" "v2 = drop 1 v1" "v3 = drop 2 v2" "v4 = drop 1 v3" "v5 = drop 2 v4" "v6 = drop 1 v5"
    using rest(1,2) p(1-6) by blast+
  then have v6: "v6 = drop 11 v" by simp
  have "v7 = drop 2 v6" using rest(3) p(7) v6 by simp
  moreover have "v8 = drop 1 v7" "v9 = drop 2 v8" "v10 = drop 1 v9" "v11 = drop 2 v10"
    using rest(1,2) p(8-11) by blast+
  ultimately have "v11 = drop 19 v" by (simp add: v6)
  then show ?thesis using t that by blast
qed

lemma takeWhile_stops: "k < length xs \<Longrightarrow> \<not> P (xs ! k) \<Longrightarrow> length (takeWhile P xs) \<le> k"
  by (metis not_less nth_mem set_takeWhileD takeWhile_nth)

lemma parse_fraction_micro:
  assumes "length v \<ge> 20" and "k < length v" and "19 \<le> k" and "k \<le> 26" and zone: "v ! k \<in> {CHR ''Z'', CHR ''+'', CHR ''-''}"
  shows "1000 dvd fst (parse_fraction (drop 19 v))"
proof (cases "k = 19")
  case False
  have "\<not> is_digit (v ! k)" using zone by (auto simp: is_digit_def)
  define ds where "ds = takeWhile is_digit (drop 20 v)"
  have "length ds \<le> k - 20"
    unfolding ds_def using assms False \<open>\<not> is_digit (v ! k)\<close> by (intro takeWhile_stops) auto
  then have "length (take 9 ds) \<le> 6" using assms False by simp
  then have "(1000::int) dvd 10 ^ (9 - length (take 9 ds))"
    using le_imp_power_dvd [of 3 "9 - length (take 9 ds)" "10::int"] by simp
  then show ?thesis
    by (simp add: parse_fraction_def Let_def ds_def eval_nat_numeral drop_Suc tl_drop)
next
  case True
  then show ?thesis using assms by (auto simp: parse_fraction_def)
qed

lemma zone_start_bounds: "20 \<le> length v \<Longrightarrow> 19 \<le> zone_start v \<and> zone_start v < length v"
  by (auto simp: zone_start_def find_Some_iff split: option.splits)

lemma time_Date_micro: "1000 dvd ns \<Longrightarrow> 1000 dvd time_Date y m d hh mi ss ns - off * nsPerSecond"
  by (simp add: time_Date_def nsPerSecond_def dvd_diff dvd_add)

lemma parseMeasuredAt_whole_micro:
  assumes "parseMeasuredAt v = Some t"
  shows "1000 dvd t"
proof -
  let ?k = "zone_start v"
  have len: "20 \<le> length v" and hour: "allDigits (substr 11 13 v)" and parse: "time_Parse_RFC3339Nano v = Some t"
    and frac: "?k = 19 \<or> length (substr 20 ?k v) \<le> 6"
    and zone: "drop ?k v = ''Z'' \<or> drop ?k v ! 0 = CHR ''+'' \<or> drop ?k v ! 0 = CHR ''-''"
    using assms by (auto simp: parseMeasuredAt_def Let_def split: if_splits option.splits)
  note k = zone_start_bounds [OF len]
  have "drop ?k v ! 0 = v ! ?k" using k by simp
  then have z: "v ! ?k \<in> {CHR ''Z'', CHR ''+'', CHR ''-''}" using zone by auto
  have "?k \<le> 26" using frac k by (auto simp: substr_def)
  then have "1000 dvd fst (parse_fraction (drop 19 v))"
    using parse_fraction_micro [OF len _ _ _ z] k by simp
  then show ?thesis using time_Parse_shape [OF parse hour len] time_Date_micro by metis
qed

lemma exact_sample_whole_micro:
  assumes "range_spec b l receivedAt start"
  shows "1000 dvd sc_MeasuredAt (exact_sample b start i)"
  using parseMeasuredAt_whole_micro [of "bd_MeasuredAt b" start] assms
  by (simp add: range_spec_def exact_sample_def dvd_add)

section \<open>Printed timestamps are accepted\<close>

lemma digits_2: "list_all is_digit xs \<Longrightarrow> length xs = 2 \<Longrightarrow> \<exists>a b. xs = [a, b] \<and> is_digit a \<and> is_digit b"
  by (auto simp: length_Suc_conv numeral_2_eq_2)

lemma digits_4:
  assumes "list_all is_digit xs" and "length xs = 4"
  shows "\<exists>a b c d. xs = [a, b, c, d] \<and> is_digit a \<and> is_digit b \<and> is_digit c \<and> is_digit d"
  using assms by (auto simp: length_Suc_conv eval_nat_numeral)

lemma digits_6:
  assumes "list_all is_digit xs" and "length xs = 6"
  shows "\<exists>a b c d e f. xs = [a, b, c, d, e, f] \<and> is_digit a \<and> is_digit b \<and> is_digit c \<and> is_digit d \<and> is_digit e \<and> is_digit f"
  using assms by (auto simp: length_Suc_conv eval_nat_numeral)

lemma is_digit_not_zone: "is_digit c \<Longrightarrow> c \<noteq> CHR ''Z'' \<and> c \<noteq> CHR ''+'' \<and> c \<noteq> CHR ''-''"
  by (auto simp: is_digit_def)

lemma parseMeasuredAt_shape:
  assumes Y: "list_all is_digit Y" "length Y = 4" and M: "list_all is_digit M" "length M = 2"
    and D: "list_all is_digit D" "length D = 2" and H: "list_all is_digit H" "length H = 2"
    and I: "list_all is_digit I" "length I = 2" and S: "list_all is_digit S" "length S = 2"
    and F: "list_all is_digit F" "length F = 6"
    and vals: "digits_val Y \<noteq> 0" "digits_val H \<le> 23" "digits_val I \<le> 59" "digits_val S \<le> 59"
    and v: "v = Y @ CHR ''-'' # M @ CHR ''-'' # D @ CHR ''T'' # H @ CHR '':'' # I @ CHR '':'' # S @ CHR ''.'' # F @ ''Z''"
  shows "parseMeasuredAt v = (case time_Parse_RFC3339Nano v of None \<Rightarrow> None | Some p \<Rightarrow> if validCalendarYear p then Some p else None)"
proof -
  note nz = is_digit_not_zone
  obtain f1 f2 f3 f4 f5 f6 where f: "F = [f1, f2, f3, f4, f5, f6]" "list_all is_digit [f1, f2, f3, f4, f5, f6]"
    using digits_6 [OF F] by auto
  have z: "zone_start v = 26"
    using Y(2) M(2) D(2) H(2) I(2) S(2) f nz [of f1] nz [of f2] nz [of f3] nz [of f4] nz [of f5] nz [of f6]
    by (simp add: zone_start_def v nth_append upt_rec_numeral)
  have parts: "substr 0 4 v = Y" "v ! 4 = CHR ''-''" "substr 5 7 v = M" "v ! 7 = CHR ''-''" "substr 8 10 v = D"
      "v ! 10 = CHR ''T''" "substr 11 13 v = H" "v ! 13 = CHR '':''" "substr 14 16 v = I" "v ! 16 = CHR '':''"
      "substr 17 19 v = S" "v ! 19 = CHR ''.''" "substr 20 26 v = F" "drop 26 v = ''Z''" "length v = 27"
    using Y(2) M(2) D(2) H(2) I(2) S(2) F(2) by (simp_all add: v substr_def nth_append)
  have digits: "allDigits Y" "allDigits M" "allDigits D" "allDigits H" "allDigits I" "allDigits S" "allDigits F"
    using Y M D H I S F by (auto simp: allDigits_def)
  show ?thesis
    using digits vals F(2) f(1) by (simp add: parseMeasuredAt_def Let_def parts z not_less split: option.splits)
qed

lemma parseMeasuredAt_format_micro:
  assumes t: "0 \<le> t" "t < endOfYear9999"
  shows "parseMeasuredAt (format_micro t) = Some (t div 1000 * 1000)"
proof -
  obtain y m d where c: "civil_of_days (t div nsPerDay) = (y, m, d)" by (metis prod_cases3)
  obtain hh mi ss ns where k: "clock_of t = (hh, mi, ss, ns)" by (metis prod_cases4)
  note kc = clock_of_correct [OF k]
  have y: "1 \<le> y" "y < 10000"
    using t time_Year_ge_1 [of t] time_Year_le_9999 [of t] civil_of_days_correct(6) [OF c]
    by (simp_all add: time_Year_def)
  have v: "format_micro t = pad_digits 4 (nat y) @ CHR ''-'' # pad_digits 2 m @ CHR ''-'' # pad_digits 2 (nat d) @
      CHR ''T'' # pad_digits 2 hh @ CHR '':'' # pad_digits 2 mi @ CHR '':'' # pad_digits 2 ss @ CHR ''.'' #
      pad_digits 6 (nanos_of t div 1000) @ ''Z''"
    using y by (simp add: format_micro_def format_datetime_def c k year_digits_def)
  have "digits_val (pad_digits 4 (nat y)) \<noteq> 0" "digits_val (pad_digits 2 hh) \<le> 23"
      "digits_val (pad_digits 2 mi) \<le> 59" "digits_val (pad_digits 2 ss) \<le> 59"
    using y kc(1-3) by (simp_all add: digits_val_pad_digits nat_less_iff)
  from parseMeasuredAt_shape [OF _ _ _ _ _ _ _ _ _ _ _ _ _ _ this v]
  have "parseMeasuredAt (format_micro t) =
      (if validCalendarYear (t div 1000 * 1000) then Some (t div 1000 * 1000) else None)"
    by (simp add: time_Parse_format_micro [OF t])
  moreover have "0 \<le> t div 1000 * 1000" "t div 1000 * 1000 \<le> t"
    using t div_mult_mod_eq [of t 1000] pos_mod_sign [of 1000 t] by (simp, linarith)
  ultimately show ?thesis using t by (simp add: validCalendarYear_iff)
qed

end
