(* ===== verification/CommitAck.thy ===== *)
theory CommitAck
  imports MeasuredAt
begin

text \<open>
  The application-level commit acknowledgement: how the server builds it (\<open>telemetry/ack.go\<close>, and
  \<open>json.Marshal\<close> of it in \<open>mqttingress/ingress.go\<close>) and how the Gateway parses it
  (\<open>gatewaysim/ack.go\<close>). The two sides are separate code; the theorem at the end is that they
  agree.
\<close>

section \<open>Server side\<close>

datatype CommitOutcome = CommitOutcomeUnconfirmed | CommitOutcomeCommitted | CommitOutcomeDuplicateCommitted

record CommitACK =
  ack_ProtocolVersion :: int
  ack_MessageType :: string
  ack_MessageID :: uuid
  ack_Status :: string
  ack_CommittedAt :: time

definition ack_topic :: "uuid_pkg \<Rightarrow> string \<Rightarrow> uuid \<Rightarrow> string" where
  "ack_topic U g i = ''gateways/'' @ g @ ''/acks/'' @ uuid_String U i"

definition NewCommitACK :: "uuid_pkg \<Rightarrow> string \<Rightarrow> uuid \<Rightarrow> CommitOutcome \<Rightarrow> time \<Rightarrow> go_error + string \<times> CommitACK" where
  "NewCommitACK U gatewayID messageID outcome confirmedAt =
     (if \<not> ValidateGatewayID gatewayID then Inl (invalidPayloadError ''gateway_id'')
      else if messageID = uuid_Nil \<or> \<not> uuid_RFC4122 U messageID \<or>
        (uuid_Version U messageID \<noteq> 4 \<and> uuid_Version U messageID \<noteq> 7) then Inl (invalidPayloadError ''message_id'')
      else if outcome \<noteq> CommitOutcomeCommitted \<and> outcome \<noteq> CommitOutcomeDuplicateCommitted
        then Inl (invalidPayloadError ''outcome'')
      else if confirmedAt = 0 then Inl (invalidPayloadError ''committed_at'')
      else if time_Year confirmedAt < 1 \<or> 9999 < time_Year confirmedAt then Inl (invalidPayloadError ''committed_at'')
      else Inr (ack_topic U gatewayID messageID,
        \<lparr>ack_ProtocolVersion = 1, ack_MessageType = ''telemetry_ack'', ack_MessageID = messageID,
         ack_Status = ''committed'', ack_CommittedAt = confirmedAt\<rparr>))"

text \<open>\<open>json.Marshal\<close> of the five-field struct; the year check of \<open>time.Time.MarshalJSON\<close> cannot fail here.\<close>

definition marshalACK :: "uuid_pkg \<Rightarrow> CommitACK \<Rightarrow> string" where
  "marshalACK U a = json_object
     [(''protocol_version'', show_int (ack_ProtocolVersion a)),
      (''message_type'', quote (ack_MessageType a)),
      (''message_id'', quote (uuid_String U (ack_MessageID a))),
      (''status'', quote (ack_Status a)),
      (''committed_at'', quote (format_nano (ack_CommittedAt a)))]"

section \<open>Gateway side\<close>

datatype ack_error = ErrACKOversize | ErrACKMalformed | ErrACKTopic

definition maxACKBytes :: nat where "maxACKBytes = 1024"

definition ackFieldNames :: "string list" where
  "ackFieldNames = [''protocol_version'', ''message_type'', ''message_id'', ''status'', ''committed_at'']"

definition parseOwnACKTopic :: "uuid_pkg \<Rightarrow> string \<Rightarrow> string \<Rightarrow> ack_error + uuid" where
  "parseOwnACKTopic U topic gatewayID =
     (let segments = go_split CHR ''/'' topic in
      if length segments \<noteq> 4 \<or> segments ! 0 \<noteq> ''gateways'' \<or> segments ! 2 \<noteq> ''acks'' \<or> segments ! 1 \<noteq> gatewayID
      then Inl ErrACKTopic
      else
        (case uuid_Parse U (segments ! 3) of
           None \<Rightarrow> Inl ErrACKTopic
         | Some i \<Rightarrow> if i = uuid_Nil \<or> uuid_String U i \<noteq> segments ! 3 then Inl ErrACKTopic else Inr i))"

definition isACKNull :: "string \<Rightarrow> bool" where
  "isACKNull raw \<longleftrightarrow> trimSpace raw = ''null''"

definition decodeACKObject :: "string \<Rightarrow> (string \<times> string) list option" where
  "decodeACKObject payload = decode_strict_object ackFieldNames payload"

definition decodeACKInt64 :: "string \<Rightarrow> int option" where
  "decodeACKInt64 raw = (if isACKNull raw then None else strconv_ParseInt 64 raw)"

definition decodeACKString :: "string \<Rightarrow> string option" where
  "decodeACKString raw = (if isACKNull raw then None else json_string raw)"

definition ParseCommitACK :: "uuid_pkg \<Rightarrow> string \<Rightarrow> string \<Rightarrow> string \<Rightarrow> ack_error + CommitACK" where
  "ParseCommitACK U topic payload gatewayID =
     res_bind (reject_if (maxACKBytes < length payload) ErrACKOversize) (\<lambda>_.
     res_bind (parseOwnACKTopic U topic gatewayID) (\<lambda>topicID.
     res_bind (ok_or (decodeACKObject payload) ErrACKMalformed) (\<lambda>flds.
     res_bind (ok_or (decodeACKInt64 (raw_field flds ''protocol_version'')) ErrACKMalformed) (\<lambda>protocolVersion.
     res_bind (reject_if (protocolVersion \<noteq> 1) ErrACKMalformed) (\<lambda>_.
     res_bind (ok_or (decodeACKString (raw_field flds ''message_type'')) ErrACKMalformed) (\<lambda>messageType.
     res_bind (reject_if (messageType \<noteq> ''telemetry_ack'') ErrACKMalformed) (\<lambda>_.
     res_bind (ok_or (decodeACKString (raw_field flds ''status'')) ErrACKMalformed) (\<lambda>status.
     res_bind (reject_if (status \<noteq> ''committed'') ErrACKMalformed) (\<lambda>_.
     res_bind (ok_or (decodeACKString (raw_field flds ''message_id'')) ErrACKMalformed) (\<lambda>messageIDRaw.
     res_bind (ok_or (uuid_Parse U messageIDRaw) ErrACKMalformed) (\<lambda>messageID.
     res_bind (reject_if (messageID = uuid_Nil \<or> \<not> uuid_RFC4122 U messageID \<or>
                 (uuid_Version U messageID \<noteq> 4 \<and> uuid_Version U messageID \<noteq> 7)) ErrACKMalformed) (\<lambda>_.
     res_bind (reject_if (messageID \<noteq> topicID) ErrACKMalformed) (\<lambda>_.
     res_bind (ok_or (decodeACKString (raw_field flds ''committed_at'')) ErrACKMalformed) (\<lambda>committedAtRaw.
     res_bind (ok_or (time_Parse_RFC3339Nano committedAtRaw) ErrACKMalformed) (\<lambda>committedAt.
     res_bind (reject_if (\<not> hasSuffix committedAtRaw ''Z'' \<or> committedAt = 0) ErrACKMalformed) (\<lambda>_.
     Inr \<lparr>ack_ProtocolVersion = 1, ack_MessageType = ''telemetry_ack'', ack_MessageID = messageID,
          ack_Status = ''committed'', ack_CommittedAt = committedAt\<rparr>))))))))))))))))"

section \<open>Agreement\<close>

lemma isACKNull_quote [simp]: "\<not> isACKNull (quote s)"
  using isNull_quote by (simp add: isACKNull_def isNull_def)

lemma decodeACKString_quote [simp]: "list_all plain_char s \<Longrightarrow> decodeACKString (quote s) = Some s"
  by (simp add: decodeACKString_def json_string_quote)

lemma is_digit_plain: "is_digit c \<Longrightarrow> plain_char c"
  by (auto simp: is_digit_def plain_char_def)

lemma digits_plain: "list_all is_digit s \<Longrightarrow> list_all plain_char s"
  by (auto simp: list_all_iff intro: is_digit_plain)

lemma pad_digits_plain [simp]: "list_all plain_char (pad_digits w n)"
  by (rule digits_plain) simp

lemma plain_letters [simp]:
  "plain_char CHR ''-''" "plain_char CHR '':''" "plain_char CHR ''T''" "plain_char CHR ''.''" "plain_char CHR ''Z''"
  by (simp_all add: plain_char_def)

lemma format_nano_text:
  assumes "0 \<le> t" and "t < endOfYear9999"
  shows "list_all plain_char (format_nano t)" and "length (format_nano t) \<le> 30"
proof -
  obtain y m d where c: "civil_of_days (t div nsPerDay) = (y, m, d)" by (metis prod_cases3)
  obtain hh mi ss ns where k: "clock_of t = (hh, mi, ss, ns)" by (metis prod_cases4)
  have y: "1 \<le> y" "y < 10000"
    using assms time_Year_ge_1 [of t] time_Year_le_9999 [of t] civil_of_days_correct(6) [OF c]
    by (simp_all add: time_Year_def)
  have frac: "list_all plain_char (nano_fraction n)" "length (nano_fraction n) \<le> 10" for n
    using pad_digits_plain [of 9 n] set_strip_trailing [of "CHR ''0''" "pad_digits 9 n"]
      length_strip_trailing [of "CHR ''0''" "pad_digits 9 n"]
    by (auto simp: nano_fraction_def list_all_iff)
  have dt: "format_datetime t = pad_digits 4 (nat y) @ ''-'' @ pad_digits 2 m @ ''-'' @ pad_digits 2 (nat d) @ ''T'' @
      pad_digits 2 hh @ '':'' @ pad_digits 2 mi @ '':'' @ pad_digits 2 ss"
    using y by (simp add: format_datetime_def c k year_digits_def)
  show "list_all plain_char (format_nano t)" by (simp add: format_nano_def dt frac)
  show "length (format_nano t) \<le> 30" using frac(2) [of "nanos_of t"] by (simp add: format_nano_def dt)
qed

lemma go_split_ack_topic:
  assumes "uuid_text_ok U" and "ValidateGatewayID g"
  shows "go_split CHR ''/'' (ack_topic U g i) = [''gateways'', g, ''acks'', uuid_String U i]"
  using assms valid_id_no_slash(1) uuid_String_no_slash
  by (simp add: ack_topic_def go_split_append_sep go_split_no_sep)

lemma parseOwnACKTopic_own:
  assumes "uuid_text_ok U" and "ValidateGatewayID g" and "i \<noteq> uuid_Nil"
  shows "parseOwnACKTopic U (ack_topic U g i) g = Inr i"
  using assms by (simp add: parseOwnACKTopic_def go_split_ack_topic uuid_text_roundtrip)

lemma parseOwnACKTopic_eq:
  assumes "parseOwnACKTopic U topic g = Inr i"
  shows "topic = ack_topic U g i" and "i \<noteq> uuid_Nil"
proof -
  define seg where "seg = go_split CHR ''/'' topic"
  have s: "length seg = 4" "seg ! 0 = ''gateways''" "seg ! 2 = ''acks''" "seg ! 1 = g" "uuid_String U i = seg ! 3"
    and "i \<noteq> uuid_Nil"
    using assms by (auto simp: parseOwnACKTopic_def Let_def seg_def split: if_splits option.splits)
  have "topic = join_sep CHR ''/'' [''gateways'', g, ''acks'', seg ! 3]"
    using four_segments [OF s(1)] s(2-4) join_go_split [of "CHR ''/''" topic] unfolding seg_def by metis
  then show "topic = ack_topic U g i" by (simp add: ack_topic_def s(5))
  show "i \<noteq> uuid_Nil" by fact
qed

lemma self_delimiting_1: "self_delimiting ''1''"
  by (simp add: self_delimiting_def scan_value_def skip_space_def json_space_def step_begin_value_def
      is_digit19_def is_digit_def step_num0_def)

lemma decodeACKInt64_1: "decodeACKInt64 ''1'' = Some 1"
  by (simp add: decodeACKInt64_def isACKNull_def trimSpace_id space_encodings_def strconv_ParseInt_def
      is_digit_def digits_val_def digit_val_def)

lemma marshalACK_decodes:
  assumes "uuid_text_ok U" and "0 \<le> t" and "t < endOfYear9999"
    and a: "a = \<lparr>ack_ProtocolVersion = 1, ack_MessageType = ''telemetry_ack'', ack_MessageID = i,
         ack_Status = ''committed'', ack_CommittedAt = t\<rparr>"
  shows "decodeACKObject (marshalACK U a) = Some
     [(''protocol_version'', ''1''), (''message_type'', quote ''telemetry_ack''),
      (''message_id'', quote (uuid_String U i)), (''status'', quote ''committed''),
      (''committed_at'', quote (format_nano t))]"
    and "length (marshalACK U a) \<le> maxACKBytes"
proof -
  have one: "show_int 1 = ''1''" by code_simp
  show "decodeACKObject (marshalACK U a) = Some
     [(''protocol_version'', ''1''), (''message_type'', quote ''telemetry_ack''),
      (''message_id'', quote (uuid_String U i)), (''status'', quote ''committed''),
      (''committed_at'', quote (format_nano t))]"
    unfolding decodeACKObject_def marshalACK_def a
    by (simp add: one, rule decode_json_object)
       (auto simp: ackFieldNames_def plain_char_def self_delimiting_1
         intro!: self_delimiting_quote uuid_String_plain [OF assms(1)] format_nano_text(1) assms(2,3))
  show "length (marshalACK U a) \<le> maxACKBytes"
    using format_nano_text(2) [OF assms(2,3)] assms(1)
    by (simp add: marshalACK_def a json_object_def one quote_def maxACKBytes_def uuid_text_ok_def)
qed

lemma NewCommitACK_ok:
  assumes "NewCommitACK U g i out t = Inr (topic, a)"
  shows "topic = ack_topic U g i" "ValidateGatewayID g" "valid_message_id U i" "out \<noteq> CommitOutcomeUnconfirmed"
    and "0 < t" "t < endOfYear9999"
    and "a = \<lparr>ack_ProtocolVersion = 1, ack_MessageType = ''telemetry_ack'', ack_MessageID = i,
         ack_Status = ''committed'', ack_CommittedAt = t\<rparr>"
  using assms
  by (auto simp: NewCommitACK_def valid_message_id_def split: if_splits)

lemma ack_agreement:
  assumes U: "uuid_text_ok U" and new: "NewCommitACK U g i out t = Inr (topic, a)"
  shows "ParseCommitACK U topic (marshalACK U a) g = Inr a"
proof -
  note n = NewCommitACK_ok [OF new]
  have t: "0 \<le> t" "t < endOfYear9999" using n(5,6) by simp_all
  note m = marshalACK_decodes [OF U t n(7)]
  have "hasSuffix (format_nano t) ''Z''" by (simp add: hasSuffix_def format_nano_def suffix_def)
  moreover have "list_all plain_char ''telemetry_ack''" "list_all plain_char ''committed''"
    by (simp_all add: plain_char_def)
  ultimately show ?thesis
    using n(3,5) m parseOwnACKTopic_own [OF U n(2), of i] uuid_text_roundtrip [OF U]
      uuid_String_plain [OF U] format_nano_text(1) [OF t] time_Parse_format_nano [OF t]
    by (simp add: ParseCommitACK_def n(1,7) raw_field_def decodeACKInt64_1 valid_message_id_def not_less)
qed

lemma ParseCommitACK_ok:
  assumes "ParseCommitACK U topic payload g = Inr a"
  shows "topic = ack_topic U g (ack_MessageID a)" and "valid_message_id U (ack_MessageID a)"
    and "ack_Status a = ''committed''" and "length payload \<le> maxACKBytes"
  using assms unfolding ParseCommitACK_def
  by (auto simp: valid_message_id_def dest!: parseOwnACKTopic_eq(1))

text \<open>An acknowledgement names one message of one Gateway: no other Gateway and no other message accepts it.\<close>

lemma ParseCommitACK_own:
  assumes U: "uuid_text_ok U" and new: "NewCommitACK U g i out t = Inr (topic, a)"
    and parse: "ParseCommitACK U topic payload g' = Inr a'" and g': "ValidateGatewayID g'"
  shows "g' = g" and "ack_MessageID a' = i"
proof -
  have "go_split CHR ''/'' (ack_topic U g i) = go_split CHR ''/'' (ack_topic U g' (ack_MessageID a'))"
    using ParseCommitACK_ok(1) [OF parse] NewCommitACK_ok(1) [OF new] by simp
  then show "g' = g" and "ack_MessageID a' = i"
    using go_split_ack_topic [OF U] g' NewCommitACK_ok(2) [OF new] uuid_String_inj [OF U] by auto
qed

end
