(* ===== verification/TelemetryStore.thy ===== *)
theory TelemetryStore
  imports CommitAck
begin

text \<open>
  The telemetry repository: one transaction per message over the deduplication ledger, the raw
  samples, the Sensor Twin's reported state and its temporal history
  (\<open>telemetry/postgres_repository.go\<close>, \<open>postgres_resources.go\<close>, \<open>postgres_ledger.go\<close>,
  \<open>postgres_reported_state.go\<close>, \<open>postgres_temporal.go\<close>).

  The tables the SQL statements touch are lists and maps of rows with the columns the statements
  use; a nullable column is an option. Each statement is the function on the tables its SQL text
  denotes, with the constraints of \<open>migrations/\<close> that can make it fail. The database itself is a
  service: every call may fail, and which calls fail, whether a failed \<open>COMMIT\<close> was applied and
  the transaction's \<open>now()\<close> are the parameter \<open>db_env\<close>. A transaction is one step: concurrent
  transactions on one Sensor are serialised by the row lock \<open>resolveTelemetryResource\<close> takes.
\<close>

section \<open>Tables\<close>

text \<open>
  A \<open>jsonb\<close> value: an object or something else. A number is its literal as \<open>jsonb\<close> prints it; a
  number written from a \<open>float64\<close> is kept as the double, whose integral values print without a
  fraction.
\<close>

datatype jval = JString string | JNumber string | JDouble rat | JNull | JOther
datatype jsonb = JObject "string \<rightharpoonup> jval" | JNotObject

record twin_entity =
  te_id :: uuid
  te_entity_id :: string
  te_entity_type :: string
  te_gateway_id :: "string option"

record twin_relationship =
  rel_source_entity_id :: uuid
  rel_relationship_type :: string
  rel_target_entity_id :: uuid

record twin_state =
  ts_reported_state :: jsonb
  ts_reported_version :: int
  ts_last_reported_at :: "time option"
  ts_desired_state :: jsonb
  ts_desired_version :: int
  ts_updated_at :: time

record processed_message =
  pm_gateway_id :: string
  pm_message_id :: uuid
  pm_payload_hash :: string
  pm_source_topic :: "string option"
  pm_sensor_id :: "string option"
  pm_boot_id :: "uuid option"
  pm_first_sequence :: "int option"
  pm_last_sequence :: "int option"
  pm_sample_count :: "int option"

record telemetry_row =
  tr_measured_at :: time
  tr_gateway_id :: string
  tr_sensor_id :: string
  tr_sequence_num :: int
  tr_value :: rat
  tr_boot_id :: "uuid option"
  tr_message_id :: "uuid option"
  tr_sample_index :: "int option"

record temporal_row =
  tv_observed_at :: time
  tv_entity_id :: uuid
  tv_property_name :: string
  tv_value_number :: "rat option"
  tv_value_text :: "string option"
  tv_value_boolean :: "bool option"
  tv_metadata :: jsonb
  tv_message_id :: "uuid option"

record db =
  db_gateways :: "string list"
  db_sensors :: "string \<times> string \<rightharpoonup> string option"
  db_entities :: "twin_entity list"
  db_relationships :: "twin_relationship list"
  db_states :: "uuid \<rightharpoonup> twin_state"
  db_processed :: "processed_message list"
  db_telemetry :: "telemetry_row list"
  db_temporal :: "temporal_row list"

datatype db_call =
    DbBegin | DbCheckGateway | DbLockSensor | DbVerifyGraph | DbInsertLedger | DbCheckOverlap | DbReadLedger
  | DbCopySamples | DbLockState | DbAdvanceState | DbAppendTemporal | DbCommit

record db_env =
  ctx_present :: bool
  fault :: "db_call \<Rightarrow> go_error option"
  commit_applied :: bool
  tx_now :: time

text \<open>A call that fails ends the operation with the wrapped error.\<close>

definition db_call :: "db_env \<Rightarrow> db_call \<Rightarrow> string \<Rightarrow> go_error + unit" where
  "db_call env c operation =
     (case fault env c of None \<Rightarrow> Inr () | Some e \<Rightarrow> Inl (dependencyError operation e))"

text \<open>\<open>TIMESTAMPTZ\<close> keeps microseconds.\<close>

definition pg_timestamptz :: "time \<Rightarrow> time" where
  "pg_timestamptz t = t div 1000 * 1000"

lemma pg_timestamptz_id: "1000 dvd t \<Longrightarrow> pg_timestamptz t = t"
  by (simp add: pg_timestamptz_def)

section \<open>Resolving the Sensor\<close>

record resolvedTelemetryResource =
  rr_GatewayID :: string
  rr_SensorID :: string
  rr_EntityID :: uuid
  rr_Unit :: "string option"

text \<open>The rows of the Twin graph query: both entity ids, and whether the Sensor has a state row.\<close>

definition graph_rows :: "db \<Rightarrow> string \<Rightarrow> string \<Rightarrow> (uuid \<times> uuid \<times> bool) list" where
  "graph_rows d g s =
     [(te_id ge, te_id se, db_states d (te_id se) \<noteq> None).
        ge \<leftarrow> db_entities d, se \<leftarrow> db_entities d,
        te_entity_id se = SensorEntityID g s \<and> te_entity_type se = ''Sensor'' \<and> te_gateway_id se = Some g \<and>
        te_entity_id ge = GatewayEntityID g \<and> te_entity_type ge = ''Gateway'' \<and> te_gateway_id ge = Some g \<and>
        db_states d (te_id ge) \<noteq> None \<and>
        list_ex (\<lambda>r. rel_source_entity_id r = te_id ge \<and> rel_target_entity_id r = te_id se \<and>
          rel_relationship_type r = ''hasSensor'') (db_relationships d)]"

definition resolveTelemetryResource :: "db_env \<Rightarrow> db \<Rightarrow> Message option \<Rightarrow> go_error + resolvedTelemetryResource" where
  "resolveTelemetryResource env d message =
     res_bind (ok_or message (ReasonError ReasonInvalidPayload ''message'')) (\<lambda>m.
     let g = pt_GatewayID (msg_topic m); s = pt_SensorID (msg_topic m) in
     res_bind (reject_if (g = [] \<or> s = []) (ReasonError ReasonInvalidPayload ''message'')) (\<lambda>_.
     res_bind (db_call env DbCheckGateway ''check telemetry Gateway'') (\<lambda>_.
     res_bind (reject_if (g \<notin> set (db_gateways d)) (ReasonError ReasonUnknownGateway ''gateway_id'')) (\<lambda>_.
     res_bind (db_call env DbLockSensor ''lock telemetry Sensor'') (\<lambda>_.
     res_bind (ok_or (db_sensors d (g, s)) (ReasonError ReasonUnknownSensor ''sensor_id'')) (\<lambda>unit.
     res_bind (db_call env DbVerifyGraph ''verify telemetry Twin graph'') (\<lambda>_.
     case graph_rows d g s of
       [] \<Rightarrow> Inl (ReasonError ReasonResourceGraphIncomplete ''twin_graph'')
     | (gatewayEntityID, sensorEntityID, sensorStatePresent) # _ \<Rightarrow>
         if gatewayEntityID = uuid_Nil \<or> sensorEntityID = uuid_Nil \<or> \<not> sensorStatePresent
         then Inl (ReasonError ReasonResourceGraphIncomplete ''twin_graph'')
         else Inr \<lparr>rr_GatewayID = g, rr_SensorID = s, rr_EntityID = sensorEntityID, rr_Unit = unit\<rparr>)))))))"

section \<open>The ledger\<close>

datatype ledgerDisposition = ledgerDispositionUnconfirmed | ledgerDispositionNew | ledgerDispositionDuplicate

record ledgerMessage =
  lg_topic :: ParsedTopic
  lg_payloadHash :: string
  lg_sensorID :: string
  lg_bootID :: uuid
  lg_messageID :: uuid
  lg_firstSample :: SampleCandidate
  lg_lastSample :: SampleCandidate
  lg_sampleCount :: int

definition ledgerMetadata :: "Message option \<Rightarrow> go_error + ledgerMessage" where
  "ledgerMetadata message =
     (case message of
        None \<Rightarrow> Inl (ReasonError ReasonInvalidPayload ''message'')
      | Some m \<Rightarrow>
          (let topic = msg_topic m; count = int (length (msg_samples m)) in
           case (FirstSample message, LastSample message) of
             (Some firstS, Some lastS) \<Rightarrow>
               if pt_GatewayID topic = [] \<or> pt_SensorID topic = [] \<or> pt_SourceTopic topic = [] \<or>
                  msg_payloadHash m = [] \<or> count = 0 \<or> maxInt32 < count
               then Inl (ReasonError ReasonInvalidPayload ''message'')
               else if sc_GatewayID firstS \<noteq> pt_GatewayID topic \<or> sc_GatewayID lastS \<noteq> pt_GatewayID topic \<or>
                  sc_SensorID firstS \<noteq> pt_SensorID topic \<or> sc_SensorID lastS \<noteq> pt_SensorID topic \<or>
                  sc_MessageID firstS = uuid_Nil \<or> sc_MessageID firstS \<noteq> sc_MessageID lastS \<or>
                  sc_BootID firstS = uuid_Nil \<or> sc_BootID firstS \<noteq> sc_BootID lastS \<or>
                  sc_SampleIndex firstS \<noteq> 0 \<or> sc_SampleIndex lastS \<noteq> i32 (count - 1) \<or>
                  sc_SequenceNum firstS < 0 \<or> sc_SequenceNum lastS < sc_SequenceNum firstS \<or>
                  i64 (sc_SequenceNum lastS - sc_SequenceNum firstS) \<noteq> count - 1
               then Inl (ReasonError ReasonInvalidPayload ''message_samples'')
               else Inr \<lparr>lg_topic = topic, lg_payloadHash = msg_payloadHash m, lg_sensorID = pt_SensorID topic,
                         lg_bootID = sc_BootID firstS, lg_messageID = sc_MessageID firstS,
                         lg_firstSample = firstS, lg_lastSample = lastS, lg_sampleCount = i32 count\<rparr>
           | _ \<Rightarrow> Inl (ReasonError ReasonInvalidPayload ''message'')))"

text \<open>The row the \<open>INSERT\<close> writes, its key, and the check constraint \<open>processed_new_provenance\<close>.\<close>

definition ledger_row :: "ledgerMessage \<Rightarrow> processed_message" where
  "ledger_row e =
     \<lparr>pm_gateway_id = pt_GatewayID (lg_topic e), pm_message_id = lg_messageID e, pm_payload_hash = lg_payloadHash e,
      pm_source_topic = Some (pt_SourceTopic (lg_topic e)), pm_sensor_id = Some (lg_sensorID e),
      pm_boot_id = Some (lg_bootID e), pm_first_sequence = Some (sc_SequenceNum (lg_firstSample e)),
      pm_last_sequence = Some (sc_SequenceNum (lg_lastSample e)), pm_sample_count = Some (lg_sampleCount e)\<rparr>"

definition pm_key :: "processed_message \<Rightarrow> string \<times> uuid" where
  "pm_key r = (pm_gateway_id r, pm_message_id r)"

definition provenance_check :: "processed_message \<Rightarrow> bool" where
  "provenance_check r =
     (case (pm_source_topic r, pm_sensor_id r, pm_boot_id r, pm_first_sequence r, pm_last_sequence r, pm_sample_count r) of
        (Some _, Some _, Some _, Some f, Some l, Some n) \<Rightarrow> 0 \<le> f \<and> 0 < n \<and> f \<le> l \<and> l - f = n - 1
      | _ \<Rightarrow> False)"

text \<open>The rows the overlap query looks for; a comparison with a null column is not true.\<close>

definition overlapping :: "string \<Rightarrow> string \<Rightarrow> uuid \<Rightarrow> int \<Rightarrow> int \<Rightarrow> uuid \<Rightarrow> processed_message \<Rightarrow> bool" where
  "overlapping g s b firstSeq lastSeq i r \<longleftrightarrow>
     pm_gateway_id r = g \<and> pm_sensor_id r = Some s \<and> pm_boot_id r = Some b \<and>
     (case pm_first_sequence r of None \<Rightarrow> False | Some f \<Rightarrow> f \<le> lastSeq) \<and>
     (case pm_last_sequence r of None \<Rightarrow> False | Some l \<Rightarrow> firstSeq \<le> l) \<and>
     pm_message_id r \<noteq> i"

text \<open>Comparing the stored row with the message, as the code does after a key conflict.\<close>

definition classifyStored :: "ledgerMessage \<Rightarrow> processed_message \<Rightarrow> go_error + ledgerDisposition" where
  "classifyStored e r =
     (case (pm_source_topic r, pm_sensor_id r, pm_boot_id r, pm_first_sequence r, pm_last_sequence r, pm_sample_count r) of
        (Some sourceTopic, Some sensorID, Some bootID, Some firstSequence, Some lastSequence, Some sampleCount) \<Rightarrow>
          if sampleCount \<le> 0 \<or> firstSequence < 0 \<or> lastSequence < firstSequence \<or>
             i64 (lastSequence - firstSequence) \<noteq> sampleCount - 1
          then Inl (ReasonError ReasonLegacyProvenanceUnknown ''ledger_provenance'')
          else if pm_payload_hash r \<noteq> lg_payloadHash e \<or> sourceTopic \<noteq> pt_SourceTopic (lg_topic e)
          then Inl (ReasonError ReasonMessageConflict ''message_id'')
          else if sensorID \<noteq> lg_sensorID e \<or> bootID \<noteq> lg_bootID e \<or>
             firstSequence \<noteq> sc_SequenceNum (lg_firstSample e) \<or>
             lastSequence \<noteq> sc_SequenceNum (lg_lastSample e) \<or> sampleCount \<noteq> lg_sampleCount e
          then Inl (ReasonError ReasonMessageConflict ''message_provenance'')
          else Inr ledgerDispositionDuplicate
      | _ \<Rightarrow> Inl (ReasonError ReasonLegacyProvenanceUnknown ''ledger_provenance''))"

definition insertTelemetryLedger :: "db_env \<Rightarrow> Message option \<Rightarrow> db \<Rightarrow> go_error + ledgerDisposition \<times> db" where
  "insertTelemetryLedger env message d =
     res_bind (ledgerMetadata message) (\<lambda>e.
     res_bind (db_call env DbInsertLedger ''insert telemetry message ledger'') (\<lambda>_.
     let row = ledger_row e in
     if \<not> provenance_check row \<or> pm_gateway_id row \<notin> set (db_gateways d)
     then Inl (dependencyError ''insert telemetry message ledger'' (OpaqueError ''constraint violation''))
     else if pm_key row \<notin> set (map pm_key (db_processed d))
     then
       (let d' = d\<lparr>db_processed := db_processed d @ [row]\<rparr> in
        res_bind (db_call env DbCheckOverlap ''check telemetry sequence overlap'') (\<lambda>_.
        res_bind (reject_if (list_ex (overlapping (pt_GatewayID (lg_topic e)) (lg_sensorID e) (lg_bootID e)
                      (sc_SequenceNum (lg_firstSample e)) (sc_SequenceNum (lg_lastSample e)) (lg_messageID e))
                    (db_processed d')) (ReasonError ReasonSequenceOverlap ''sequence_range'')) (\<lambda>_.
        Inr (ledgerDispositionNew, d'))))
     else
       res_bind (db_call env DbReadLedger ''read conflicting telemetry message ledger'') (\<lambda>_.
       res_bind (ok_or (find (\<lambda>r. pm_key r = pm_key row) (db_processed d))
                   (dependencyError ''read conflicting telemetry message ledger'' (OpaqueError ''no rows''))) (\<lambda>r.
       res_bind (classifyStored e r) (\<lambda>disposition. Inr (disposition, d))))))"

section \<open>Raw samples\<close>

text \<open>\<open>telemetryCopySource\<close> yields one row per sample, in order.\<close>

definition telemetryCopyRow :: "SampleCandidate \<Rightarrow> telemetry_row" where
  "telemetryCopyRow s =
     \<lparr>tr_measured_at = pg_timestamptz (sc_MeasuredAt s), tr_gateway_id = sc_GatewayID s, tr_sensor_id = sc_SensorID s,
      tr_sequence_num = sc_SequenceNum s, tr_value = sc_Value s, tr_boot_id = Some (sc_BootID s),
      tr_message_id = Some (sc_MessageID s), tr_sample_index = Some (sc_SampleIndex s)\<rparr>"

function telemetryCopySource :: "SampleCandidate list \<Rightarrow> nat \<Rightarrow> telemetry_row list" where
  "telemetryCopySource samples nxt =
     (if nxt < length samples then telemetryCopyRow (samples ! nxt) # telemetryCopySource samples (Suc nxt) else [])"
  by pat_completeness auto
termination by (relation "measure (\<lambda>(samples, nxt). length samples - nxt)") auto

declare telemetryCopySource.simps [simp del]

text \<open>
  The unique index \<open>telemetry_message_sample\<close>, the check \<open>telemetry_new_provenance\<close> and the
  foreign key to \<open>sensors\<close>.
\<close>

definition tr_key :: "telemetry_row \<Rightarrow> time \<times> string \<times> uuid option \<times> int option" where
  "tr_key r = (tr_measured_at r, tr_gateway_id r, tr_message_id r, tr_sample_index r)"

definition copy_accepted :: "db \<Rightarrow> telemetry_row list \<Rightarrow> bool" where
  "copy_accepted d rows \<longleftrightarrow>
     distinct (map tr_key rows) \<and>
     list_all (\<lambda>r. tr_key r \<notin> set (map tr_key (filter (\<lambda>q. tr_message_id q \<noteq> None) (db_telemetry d))) \<and>
       (case tr_sample_index r of None \<Rightarrow> False | Some i \<Rightarrow> 0 \<le> i) \<and> 0 \<le> tr_sequence_num r \<and>
       db_sensors d (tr_gateway_id r, tr_sensor_id r) \<noteq> None) rows"

definition copyTelemetry :: "db_env \<Rightarrow> SampleCandidate list \<Rightarrow> db \<Rightarrow> go_error + int \<times> db" where
  "copyTelemetry env samples d =
     res_bind (db_call env DbCopySamples ''copy telemetry samples'') (\<lambda>_.
     let rows = telemetryCopySource samples 0 in
     if copy_accepted d rows then Inr (int (length rows), d\<lparr>db_telemetry := db_telemetry d @ rows\<rparr>)
     else Inl (dependencyError ''copy telemetry samples'' (OpaqueError ''constraint violation'')))"

section \<open>Reported state\<close>

record reportedStateCandidate =
  rc_value :: rat
  rc_observedAt :: time
  rc_bootID :: uuid
  rc_sequenceNum :: int
  rc_sampleIntervalUS :: int
  rc_unit :: "string option"

definition newReportedStateCandidate ::
  "resolvedTelemetryResource \<Rightarrow> Message option \<Rightarrow> go_error + reportedStateCandidate" where
  "newReportedStateCandidate resource message =
     res_bind (ok_or message (ReasonError ReasonInvalidPayload ''message'')) (\<lambda>m.
     res_bind (ok_or (LastSample message) (ReasonError ReasonInvalidPayload ''message_samples'')) (\<lambda>lastS.
     let interval = bd_SampleIntervalUS (msg_batch m) in
     res_bind (reject_if (interval \<le> 0) (ReasonError ReasonInvalidPayload ''sample_interval_us'')) (\<lambda>_.
     Inr \<lparr>rc_value = sc_Value lastS, rc_observedAt = sc_MeasuredAt lastS, rc_bootID = sc_BootID lastS,
          rc_sequenceNum = sc_SequenceNum lastS, rc_sampleIntervalUS = interval, rc_unit = rr_Unit resource\<rparr>)))"

definition candidate_merge :: "uuid_pkg \<Rightarrow> reportedStateCandidate \<Rightarrow> string \<rightharpoonup> jval" where
  "candidate_merge U c =
     (let m = [''value'' \<mapsto> JDouble (rc_value c), ''observed_at'' \<mapsto> JString (format_nano (rc_observedAt c)),
               ''boot_id'' \<mapsto> JString (uuid_String U (rc_bootID c)),
               ''sequence_num'' \<mapsto> JNumber (show_int (rc_sequenceNum c)),
               ''sample_interval_us'' \<mapsto> JNumber (show_int (rc_sampleIntervalUS c))]
      in case rc_unit c of None \<Rightarrow> m | Some u \<Rightarrow> m(''unit'' \<mapsto> JString u))"

text \<open>\<open>json.Number.Int64\<close> on a stored number.\<close>

definition jnumber_Int64 :: "jval \<Rightarrow> int option" where
  "jnumber_Int64 v =
     (case v of
        JNumber t \<Rightarrow> strconv_ParseInt 64 t
      | JDouble q \<Rightarrow> if of_int \<lfloor>q\<rfloor> = q \<and> in_i64 \<lfloor>q\<rfloor> then Some \<lfloor>q\<rfloor> else None
      | _ \<Rightarrow> None)"

definition storedSensorProvenance :: "jsonb \<Rightarrow> (string \<times> int) option" where
  "storedSensorProvenance stored =
     (case stored of
        JNotObject \<Rightarrow> None
      | JObject obj \<Rightarrow>
          (case obj ''boot_id'' of
             Some (JString boot) \<Rightarrow>
               if boot = [] then None
               else
                 (case obj ''sequence_num'' of
                    None \<Rightarrow> None
                  | Some v \<Rightarrow>
                      (case jnumber_Int64 v of
                         None \<Rightarrow> None
                       | Some sequence \<Rightarrow> if sequence < 0 then None else Some (boot, sequence)))
           | _ \<Rightarrow> None))"

definition sensorStateAdvances :: "uuid_pkg \<Rightarrow> jsonb \<Rightarrow> time option \<Rightarrow> reportedStateCandidate \<Rightarrow> bool" where
  "sensorStateAdvances U stored lastReportedAt candidate =
     (case lastReportedAt of
        None \<Rightarrow> True
      | Some t \<Rightarrow>
          if t < rc_observedAt candidate then True
          else if rc_observedAt candidate \<noteq> t then False
          else
            (case storedSensorProvenance stored of
               None \<Rightarrow> False
             | Some (storedBoot, storedSequence) \<Rightarrow>
                 (case uuid_Parse U storedBoot of
                    None \<Rightarrow> False
                  | Some storedBootID \<Rightarrow>
                      storedBootID = rc_bootID candidate \<and> storedSequence < rc_sequenceNum candidate)))"

text \<open>\<open>jsonb || jsonb\<close> with an object on the right: the right keys win; anything else becomes an array.\<close>

definition jsonb_concat :: "jsonb \<Rightarrow> (string \<rightharpoonup> jval) \<Rightarrow> jsonb" where
  "jsonb_concat j m = (case j of JObject obj \<Rightarrow> JObject (obj ++ m) | JNotObject \<Rightarrow> JNotObject)"

definition advanced_state :: "uuid_pkg \<Rightarrow> db_env \<Rightarrow> reportedStateCandidate \<Rightarrow> twin_state \<Rightarrow> twin_state" where
  "advanced_state U env c st = st\<lparr>
     ts_reported_state := jsonb_concat (ts_reported_state st) (candidate_merge U c),
     ts_reported_version := ts_reported_version st + 1,
     ts_last_reported_at := Some (pg_timestamptz (rc_observedAt c)),
     ts_updated_at := tx_now env\<rparr>"

definition applySensorReportedState ::
  "uuid_pkg \<Rightarrow> db_env \<Rightarrow> resolvedTelemetryResource \<Rightarrow> Message option \<Rightarrow> db \<Rightarrow> go_error + bool \<times> db" where
  "applySensorReportedState U env resource message d =
     res_bind (reject_if (rr_EntityID resource = uuid_Nil) (ReasonError ReasonInvalidPayload ''entity_id'')) (\<lambda>_.
     res_bind (newReportedStateCandidate resource message) (\<lambda>candidate.
     res_bind (db_call env DbLockState ''lock telemetry Sensor state'') (\<lambda>_.
     res_bind (ok_or (db_states d (rr_EntityID resource))
                 (ReasonError ReasonResourceGraphIncomplete ''twin_state'')) (\<lambda>st.
     res_bind (reject_if (ts_reported_version st < 0)
                 (ReasonError ReasonResourceGraphIncomplete ''reported_version'')) (\<lambda>_.
     if \<not> sensorStateAdvances U (ts_reported_state st) (ts_last_reported_at st) candidate then Inr (False, d)
     else
       res_bind (db_call env DbAdvanceState ''advance telemetry Sensor reported state'') (\<lambda>_.
       if ts_reported_version st = maxInt64
       then Inl (dependencyError ''advance telemetry Sensor reported state'' (OpaqueError ''bigint out of range''))
       else Inr (True, d\<lparr>db_states := (db_states d)(rr_EntityID resource \<mapsto> advanced_state U env candidate st)\<rparr>)))))))"

section \<open>Temporal history\<close>

definition appendSensorSampleIntervalTemporal ::
  "uuid_pkg \<Rightarrow> db_env \<Rightarrow> resolvedTelemetryResource \<Rightarrow> Message option \<Rightarrow> db \<Rightarrow> go_error + db" where
  "appendSensorSampleIntervalTemporal U env resource message d =
     res_bind (reject_if (rr_EntityID resource = uuid_Nil) (ReasonError ReasonInvalidPayload ''entity_id'')) (\<lambda>_.
     res_bind (ok_or message (ReasonError ReasonInvalidPayload ''message'')) (\<lambda>m.
     res_bind (ok_or (LastSample message) (ReasonError ReasonInvalidPayload ''message_samples'')) (\<lambda>lastS.
     let interval = bd_SampleIntervalUS (msg_batch m) in
     res_bind (reject_if (interval \<le> 0 \<or> maxExactFloat64Integer < interval)
                 (ReasonError ReasonInvalidPayload ''sample_interval_us'')) (\<lambda>_.
     res_bind (db_call env DbAppendTemporal ''append telemetry Sensor temporal value'') (\<lambda>_.
     Inr (d\<lparr>db_temporal := db_temporal d @
       [\<lparr>tv_observed_at = pg_timestamptz (sc_MeasuredAt lastS), tv_entity_id = rr_EntityID resource,
         tv_property_name = ''sample_interval_us'', tv_value_number = Some (float64_of_int interval),
         tv_value_text = None, tv_value_boolean = None,
         tv_metadata = JObject [''unit'' \<mapsto> JString ''us'', ''boot_id'' \<mapsto> JString (uuid_String U (sc_BootID lastS)),
           ''source'' \<mapsto> JString ''telemetry_batch''],
         tv_message_id = Some (sc_MessageID lastS)\<rparr>]\<rparr>))))))"

section \<open>The transaction\<close>

record MessageIdentity =
  mi_GatewayID :: string
  mi_SensorID :: string
  mi_BootID :: uuid
  mi_MessageID :: uuid

record PersistResult =
  pr_Identity :: MessageIdentity
  pr_Outcome :: CommitOutcome
  pr_SamplesSaved :: int

text \<open>
  \<open>tx.Commit\<close>: without a fault the transaction's tables become the database; with one, the caller
  cannot know, and \<open>commit_applied\<close> says which.
\<close>

definition commitTelemetry :: "db_env \<Rightarrow> db \<Rightarrow> db \<Rightarrow> PersistResult \<Rightarrow> (go_error + PersistResult) \<times> db" where
  "commitTelemetry env d d' r =
     (case fault env DbCommit of
        None \<Rightarrow> (Inr r, d')
      | Some e \<Rightarrow> (Inl (commitUnconfirmedError e), if commit_applied env then d' else d))"

text \<open>The statements between \<open>BEGIN\<close> and \<open>COMMIT\<close>; an error rolls the transaction back.\<close>

definition transaction :: "uuid_pkg \<Rightarrow> db_env \<Rightarrow> Message option \<Rightarrow> ledgerMessage \<Rightarrow> db \<Rightarrow> go_error + PersistResult \<times> db" where
  "transaction U env message metadata d =
     res_bind (resolveTelemetryResource env d message) (\<lambda>resource.
     res_bind (insertTelemetryLedger env message d) (\<lambda>(disposition, d1).
     let identity = \<lparr>mi_GatewayID = rr_GatewayID resource, mi_SensorID = rr_SensorID resource,
                     mi_BootID = lg_bootID metadata, mi_MessageID = lg_messageID metadata\<rparr> in
     if disposition = ledgerDispositionDuplicate
     then Inr (\<lparr>pr_Identity = identity, pr_Outcome = CommitOutcomeDuplicateCommitted, pr_SamplesSaved = 0\<rparr>, d1)
     else if disposition \<noteq> ledgerDispositionNew
     then Inl (ReasonError ReasonDependencyUnavailable ''ledger_outcome'')
     else
       res_bind (copyTelemetry env (Samples message) d1) (\<lambda>(copyCount, d2).
       res_bind (reject_if (copyCount \<noteq> lg_sampleCount metadata)
                   (WrappedError ''telemetry sample copy count mismatch'' [ReasonError ReasonDependencyUnavailable []])) (\<lambda>_.
       res_bind (applySensorReportedState U env resource message d2) (\<lambda>(_, d3).
       res_bind (appendSensorSampleIntervalTemporal U env resource message d3) (\<lambda>d4.
       Inr (\<lparr>pr_Identity = identity, pr_Outcome = CommitOutcomeCommitted, pr_SamplesSaved = copyCount\<rparr>, d4)))))))"

definition Persist :: "uuid_pkg \<Rightarrow> db_env \<Rightarrow> Message option \<Rightarrow> db \<Rightarrow> (go_error + PersistResult) \<times> db" where
  "Persist U env message d =
     (case ledgerMetadata message of
        Inl e \<Rightarrow> (Inl e, d)
      | Inr metadata \<Rightarrow>
          if \<not> ctx_present env then (Inl (ReasonError ReasonInvalidPayload ''context''), d)
          else
            (case fault env DbBegin of
               Some e \<Rightarrow> (Inl (dependencyError ''begin telemetry transaction'' e), d)
             | None \<Rightarrow>
                 (case transaction U env message metadata d of
                    Inl e \<Rightarrow> (Inl e, d)
                  | Inr (r, d') \<Rightarrow> commitTelemetry env d d' r)))"

end
