(* ===== verification/StoreProofs.thy ===== *)
theory StoreProofs
  imports TelemetryStore
begin

text \<open>
  Properties of the repository transaction: what a committed message writes, that nothing is
  written otherwise, and the invariant of the ledger and the raw samples that every call keeps
  whatever the database does.
\<close>

section \<open>Building blocks\<close>

lemma telemetryCopySource_from:
  "telemetryCopySource samples nxt = map telemetryCopyRow (drop nxt samples)"
proof (induction samples nxt rule: telemetryCopySource.induct)
  case (1 samples nxt)
  then show ?case
    by (subst telemetryCopySource.simps) (simp add: Cons_nth_drop_Suc [symmetric])
qed

lemma telemetryCopySource_eq [simp]: "telemetryCopySource samples 0 = map telemetryCopyRow samples"
  by (simp add: telemetryCopySource_from)

text \<open>The metadata of a validated message, over its batch.\<close>

definition metadata_of :: "Message \<Rightarrow> time \<Rightarrow> ledgerMessage" where
  "metadata_of m start =
     (let b = msg_batch m; n = length (bd_Samples b) in
      \<lparr>lg_topic = msg_topic m, lg_payloadHash = msg_payloadHash m, lg_sensorID = bd_SensorID b,
       lg_bootID = bd_BootID b, lg_messageID = bd_MessageID b, lg_firstSample = exact_sample b start 0,
       lg_lastSample = exact_sample b start (n - 1), lg_sampleCount = int n\<rparr>)"

lemma message_wf_parts:
  assumes "message_wf U l m"
  obtains start where "range_spec (msg_batch m) l (msg_receivedAt m) start"
    "msg_samples m = map (exact_sample (msg_batch m) start) [0..<length (bd_Samples (msg_batch m))]"
    "decoded_ok U (msg_topic m) l (msg_batch m)" "0 < length (bd_Samples (msg_batch m))"
    "int (length (bd_Samples (msg_batch m))) \<le> maxInt32"
    "msg_payloadHash m \<noteq> []" "pt_SourceTopic (msg_topic m) \<noteq> []"
proof -
  obtain start where s: "range_spec (msg_batch m) l (msg_receivedAt m) start"
      "msg_samples m = map (exact_sample (msg_batch m) start) [0..<length (bd_Samples (msg_batch m))]"
    using assms by (auto simp: message_wf_def)
  have d: "decoded_ok U (msg_topic m) l (msg_batch m)" using assms by (simp add: message_wf_def)
  have "pt_SourceTopic (msg_topic m) \<noteq> []"
    using assms by (auto simp: message_wf_def ParseTopic_ok_iff telemetry_topic_def)
  moreover have "msg_payloadHash m \<noteq> []" using assms by (simp add: message_wf_def)
  moreover have "0 < length (bd_Samples (msg_batch m))" "int (length (bd_Samples (msg_batch m))) \<le> maxInt32"
    using d by (auto simp: decoded_ok_def simp flip: of_nat_0_less_iff)
  ultimately show ?thesis using that s d by blast
qed

lemma ledgerMetadata_wf:
  assumes "range_spec b l r start" and "decoded_ok U (msg_topic m) l b" and "b = msg_batch m"
    and "msg_samples m = map (exact_sample b start) [0..<length (bd_Samples b)]"
    and "0 < length (bd_Samples b)" and "int (length (bd_Samples b)) \<le> maxInt32"
    and "msg_payloadHash m \<noteq> []" and "pt_SourceTopic (msg_topic m) \<noteq> []"
  shows "ledgerMetadata (Some m) = Inr (metadata_of m start)"
proof -
  let ?n = "length (bd_Samples b)"
  have i: "i32 (int ?n) = int ?n" "i32 (int ?n - 1) = int ?n - 1"
    using assms(5,6) by (auto intro!: i32_id simp: int_bounds_defs)
  have n: "int (?n - 1) = int ?n - 1" using assms(5) by linarith
  have j: "i64 (int (?n - 1)) = int ?n - 1"
    unfolding n using assms(5,6) by (intro i64_id) (auto simp: int_bounds_defs)
  have f: "FirstSample (Some m) = Some (exact_sample b start 0)"
      "LastSample (Some m) = Some (exact_sample b start (?n - 1))"
    using assms(4,5) by (simp_all add: FirstSample_def LastSample_def)
  have ids: "pt_GatewayID (msg_topic m) = bd_GatewayID b" "pt_SensorID (msg_topic m) = bd_SensorID b"
      "bd_GatewayID b \<noteq> []" "bd_SensorID b \<noteq> []" "bd_MessageID b \<noteq> uuid_Nil" "bd_BootID b \<noteq> uuid_Nil"
      "0 \<le> bd_FirstSequence b"
    using assms(1,2) by (auto simp: decoded_ok_def valid_message_id_def valid_boot_id_def ValidateGatewayID_def
        ValidateSensorID_def range_spec_def)
  show ?thesis
    unfolding ledgerMetadata_def f
    using assms(4-8) ids i j n by (simp add: Let_def exact_sample_def metadata_of_def flip: assms(3))
qed

lemma message_wf_metadata:
  assumes "message_wf U l m"
  obtains start where "ledgerMetadata (Some m) = Inr (metadata_of m start)"
    "range_spec (msg_batch m) l (msg_receivedAt m) start"
    "msg_samples m = map (exact_sample (msg_batch m) start) [0..<length (bd_Samples (msg_batch m))]"
    "decoded_ok U (msg_topic m) l (msg_batch m)" "0 < length (bd_Samples (msg_batch m))"
    "int (length (bd_Samples (msg_batch m))) \<le> maxInt32"
  using message_wf_parts [OF assms] ledgerMetadata_wf by metis

lemma db_call_ok [simp]: "db_call env c op = Inr u \<longleftrightarrow> fault env c = None"
  by (simp add: db_call_def split: option.splits)

lemma db_call_error: "db_call env c op = Inl e \<longleftrightarrow> (\<exists>e'. fault env c = Some e' \<and> e = dependencyError op e')"
  by (auto simp: db_call_def split: option.splits)

section \<open>The ledger step\<close>

lemma classifyStored_disp: "classifyStored e r = Inr disp \<Longrightarrow> disp = ledgerDispositionDuplicate"
  by (auto simp: classifyStored_def split: option.splits if_splits)

lemma insert_new:
  assumes "insertTelemetryLedger env (Some m) d = Inr (ledgerDispositionNew, d')" and "ledgerMetadata (Some m) = Inr e"
  shows "d' = d\<lparr>db_processed := db_processed d @ [ledger_row e]\<rparr>"
    and "pm_key (ledger_row e) \<notin> set (map pm_key (db_processed d))"
    and "provenance_check (ledger_row e)" and "pm_gateway_id (ledger_row e) \<in> set (db_gateways d)"
    and "\<not> list_ex (overlapping (pt_GatewayID (lg_topic e)) (lg_sensorID e) (lg_bootID e)
           (sc_SequenceNum (lg_firstSample e)) (sc_SequenceNum (lg_lastSample e)) (lg_messageID e)) (db_processed d)"
  using assms
  by (auto simp: insertTelemetryLedger_def Let_def dest: classifyStored_disp split: if_splits)

lemma classifyStored_duplicate:
  assumes "classifyStored e r = Inr disp" and "pm_key r = pm_key (ledger_row e)"
  shows "disp = ledgerDispositionDuplicate \<and> r = ledger_row e"
proof -
  note disp = classifyStored_disp [OF assms(1)]
  show ?thesis
    using assms by (cases r) (auto simp: disp classifyStored_def ledger_row_def pm_key_def split: option.splits if_splits)
qed

lemma insert_duplicate:
  assumes "insertTelemetryLedger env (Some m) d = Inr (disp, d')" and "disp \<noteq> ledgerDispositionNew"
    and "ledgerMetadata (Some m) = Inr e"
  shows "disp = ledgerDispositionDuplicate" "d' = d" "ledger_row e \<in> set (db_processed d)"
proof -
  obtain r where r: "find (\<lambda>r. pm_key r = pm_key (ledger_row e)) (db_processed d) = Some r"
    and c: "classifyStored e r = Inr disp" and d: "d' = d"
    using assms by (auto simp: insertTelemetryLedger_def Let_def split: if_splits)
  have "pm_key r = pm_key (ledger_row e)" "r \<in> set (db_processed d)"
    using r by (auto simp: find_Some_iff)
  then show "disp = ledgerDispositionDuplicate" "ledger_row e \<in> set (db_processed d)"
    using classifyStored_duplicate [OF c] by auto
  show "d' = d" by (rule d)
qed

lemma find_unique_key:
  assumes "distinct (map f xs)" and "x \<in> set xs"
  shows "find (\<lambda>r. f r = f x) xs = Some x"
  using assms by (induction xs) (auto simp: image_iff)

lemma classifyStored_self:
  assumes "provenance_check (ledger_row e)" and "in_i64 (sc_SequenceNum (lg_lastSample e))"
  shows "classifyStored e (ledger_row e) = Inr ledgerDispositionDuplicate"
proof -
  let ?f = "sc_SequenceNum (lg_firstSample e)" let ?l = "sc_SequenceNum (lg_lastSample e)"
  have "in_i64 (?l - ?f)" using assms by (auto simp: provenance_check_def ledger_row_def int_bounds_defs)
  then have "i64 (?l - ?f) = ?l - ?f" by (rule i64_id)
  then show ?thesis using assms(1) by (simp add: classifyStored_def ledger_row_def provenance_check_def)
qed

section \<open>What a transaction writes\<close>

text \<open>The tables after a new message committed, as one function of the tables before.\<close>

definition temporal_of :: "uuid_pkg \<Rightarrow> resolvedTelemetryResource \<Rightarrow> int \<Rightarrow> SampleCandidate \<Rightarrow> temporal_row" where
  "temporal_of U resource interval lastS =
     \<lparr>tv_observed_at = pg_timestamptz (sc_MeasuredAt lastS), tv_entity_id = rr_EntityID resource,
      tv_property_name = ''sample_interval_us'', tv_value_number = Some (float64_of_int interval),
      tv_value_text = None, tv_value_boolean = None,
      tv_metadata = JObject [''unit'' \<mapsto> JString ''us'', ''boot_id'' \<mapsto> JString (uuid_String U (sc_BootID lastS)),
        ''source'' \<mapsto> JString ''telemetry_batch''],
      tv_message_id = Some (sc_MessageID lastS)\<rparr>"

definition candidate_of :: "resolvedTelemetryResource \<Rightarrow> Message \<Rightarrow> SampleCandidate \<Rightarrow> reportedStateCandidate" where
  "candidate_of resource m lastS =
     \<lparr>rc_value = sc_Value lastS, rc_observedAt = sc_MeasuredAt lastS, rc_bootID = sc_BootID lastS,
      rc_sequenceNum = sc_SequenceNum lastS, rc_sampleIntervalUS = bd_SampleIntervalUS (msg_batch m),
      rc_unit = rr_Unit resource\<rparr>"

definition next_states ::
  "uuid_pkg \<Rightarrow> db_env \<Rightarrow> uuid \<Rightarrow> reportedStateCandidate \<Rightarrow> (uuid \<rightharpoonup> twin_state) \<Rightarrow> (uuid \<rightharpoonup> twin_state)" where
  "next_states U env x c states =
     (case states x of
        None \<Rightarrow> states
      | Some st \<Rightarrow>
          if sensorStateAdvances U (ts_reported_state st) (ts_last_reported_at st) c
          then states(x \<mapsto> advanced_state U env c st) else states)"

definition committed_db ::
  "uuid_pkg \<Rightarrow> db_env \<Rightarrow> resolvedTelemetryResource \<Rightarrow> ledgerMessage \<Rightarrow> Message \<Rightarrow> db \<Rightarrow> db" where
  "committed_db U env resource e m d =
     d\<lparr>db_processed := db_processed d @ [ledger_row e],
       db_telemetry := db_telemetry d @ map telemetryCopyRow (msg_samples m),
       db_states := next_states U env (rr_EntityID resource) (candidate_of resource m (lg_lastSample e)) (db_states d),
       db_temporal := db_temporal d @ [temporal_of U resource (bd_SampleIntervalUS (msg_batch m)) (lg_lastSample e)]\<rparr>"

lemma ledgerMetadata_last: "ledgerMetadata message = Inr e \<Longrightarrow> LastSample message = Some (lg_lastSample e)"
  by (auto simp: ledgerMetadata_def Let_def split: option.splits if_splits)

lemma apply_state_effect:
  assumes "applySensorReportedState U env resource (Some m) d = Inr (adv, d')" and "LastSample (Some m) = Some lastS"
  shows "d' = d\<lparr>db_states := next_states U env (rr_EntityID resource) (candidate_of resource m lastS) (db_states d)\<rparr>"
    and "db_states d (rr_EntityID resource) \<noteq> None"
  using assms
  by (auto simp: applySensorReportedState_def newReportedStateCandidate_def next_states_def
      candidate_of_def Let_def split: if_splits)

lemma transaction_committed:
  assumes t: "transaction U env (Some m) e d = Inr (r, d')" and e: "ledgerMetadata (Some m) = Inr e"
    and new: "pr_Outcome r \<noteq> CommitOutcomeDuplicateCommitted"
  obtains resource where "resolveTelemetryResource env d (Some m) = Inr resource"
    "d' = committed_db U env resource e m d"
    "insertTelemetryLedger env (Some m) d = Inr (ledgerDispositionNew, d\<lparr>db_processed := db_processed d @ [ledger_row e]\<rparr>)"
    "r = \<lparr>pr_Identity = \<lparr>mi_GatewayID = rr_GatewayID resource, mi_SensorID = rr_SensorID resource,
            mi_BootID = lg_bootID e, mi_MessageID = lg_messageID e\<rparr>,
          pr_Outcome = CommitOutcomeCommitted, pr_SamplesSaved = lg_sampleCount e\<rparr>"
    "db_states d (rr_EntityID resource) \<noteq> None"
    "0 < bd_SampleIntervalUS (msg_batch m) \<and> bd_SampleIntervalUS (msg_batch m) \<le> maxExactFloat64Integer"
proof -
  obtain resource disp d1 where res: "resolveTelemetryResource env d (Some m) = Inr resource"
    and ins: "insertTelemetryLedger env (Some m) d = Inr (disp, d1)"
    using t by (auto simp: transaction_def)
  have disp: "disp = ledgerDispositionNew"
    using t new insert_duplicate [OF ins _ e] by (auto simp: transaction_def res ins Let_def split: if_splits)
  note d1 = insert_new(1) [OF ins [unfolded disp] e]
  obtain n d2 adv d3 where cp: "copyTelemetry env (msg_samples m) d1 = Inr (n, d2)" "n = lg_sampleCount e"
    and st: "applySensorReportedState U env resource (Some m) d2 = Inr (adv, d3)"
    and tm: "appendSensorSampleIntervalTemporal U env resource (Some m) d3 = Inr d'"
    and r: "r = \<lparr>pr_Identity = \<lparr>mi_GatewayID = rr_GatewayID resource, mi_SensorID = rr_SensorID resource,
            mi_BootID = lg_bootID e, mi_MessageID = lg_messageID e\<rparr>,
          pr_Outcome = CommitOutcomeCommitted, pr_SamplesSaved = lg_sampleCount e\<rparr>"
    using t by (auto simp: transaction_def res ins disp Let_def Samples_def split: if_splits)
  have d2: "d2 = d1\<lparr>db_telemetry := db_telemetry d1 @ map telemetryCopyRow (msg_samples m)\<rparr>"
    using cp(1) by (auto simp: copyTelemetry_def Let_def split: if_splits)
  note lastS = ledgerMetadata_last [OF e]
  note d3 = apply_state_effect [OF st lastS]
  have d4: "d' = d3\<lparr>db_temporal := db_temporal d3 @ [temporal_of U resource (bd_SampleIntervalUS (msg_batch m)) (lg_lastSample e)]\<rparr>"
    and iv: "0 < bd_SampleIntervalUS (msg_batch m) \<and> bd_SampleIntervalUS (msg_batch m) \<le> maxExactFloat64Integer"
    using tm by (auto simp: appendSensorSampleIntervalTemporal_def lastS temporal_of_def Let_def)
  have "d' = committed_db U env resource e m d"
    unfolding d4 d3(1) d2 d1 committed_db_def by (simp add: Let_def)
  moreover have "db_states d (rr_EntityID resource) \<noteq> None" using d3(2) by (simp add: d2 d1)
  ultimately show ?thesis using that res ins [unfolded disp d1] r iv by blast
qed

lemma transaction_duplicate:
  assumes t: "transaction U env (Some m) e d = Inr (r, d')" and e: "ledgerMetadata (Some m) = Inr e"
    and dup: "pr_Outcome r = CommitOutcomeDuplicateCommitted"
  shows "d' = d" and "ledger_row e \<in> set (db_processed d)" and "pr_SamplesSaved r = 0"
    and "mi_MessageID (pr_Identity r) = lg_messageID e"
proof -
  obtain resource disp d1 where res: "resolveTelemetryResource env d (Some m) = Inr resource"
    and ins: "insertTelemetryLedger env (Some m) d = Inr (disp, d1)"
    using t by (auto simp: transaction_def)
  have "disp \<noteq> ledgerDispositionNew"
  proof
    assume "disp = ledgerDispositionNew"
    then show False using t dup by (auto simp: transaction_def res ins Let_def split: if_splits)
  qed
  note x = insert_duplicate [OF ins this e]
  show "d' = d" "ledger_row e \<in> set (db_processed d)" "pr_SamplesSaved r = 0" "mi_MessageID (pr_Identity r) = lg_messageID e"
    using t x by (auto simp: transaction_def res ins Let_def)
qed

text \<open>The three ways a call can end.\<close>

lemma Persist_cases:
  assumes "Persist U env (Some m) d = (res, d')"
  obtains (failed) err where "res = Inl err" "d' = d"
  | (returned) e r where "ledgerMetadata (Some m) = Inr e" "transaction U env (Some m) e d = Inr (r, d')" "res = Inr r"
  | (unconfirmed) e r d1 err where "ledgerMetadata (Some m) = Inr e" "transaction U env (Some m) e d = Inr (r, d1)"
      "res = Inl (commitUnconfirmedError err)" "d' = (if commit_applied env then d1 else d)"
  using assms
  by (auto simp: Persist_def commitTelemetry_def split: sum.splits if_splits option.splits)

end
