(* ===== verification/StoreInvariant.thy ===== *)
theory StoreInvariant
  imports StoreProofs
begin

text \<open>
  The invariant of the telemetry tables. Rows written before the provenance columns existed have
  null columns there and are left alone; for every other ledger row the raw table holds exactly
  the samples of its sequence range, in order, and no two ledger rows of one Sensor boot share a
  sequence number.
\<close>

section \<open>Definition\<close>

text \<open>The raw rows of one message, and the slot a sample occupies in its Sensor's boot.\<close>

definition message_rows :: "db \<Rightarrow> string \<times> uuid \<Rightarrow> telemetry_row list" where
  "message_rows d k = filter (\<lambda>t. tr_gateway_id t = fst k \<and> tr_message_id t = Some (snd k)) (db_telemetry d)"

definition provenance_rows :: "db \<Rightarrow> telemetry_row list" where
  "provenance_rows d = filter (\<lambda>t. tr_message_id t \<noteq> None) (db_telemetry d)"

definition sample_slot :: "telemetry_row \<Rightarrow> string \<times> string \<times> uuid option \<times> int" where
  "sample_slot t = (tr_gateway_id t, tr_sensor_id t, tr_boot_id t, tr_sequence_num t)"

definition same_stream :: "processed_message \<Rightarrow> processed_message \<Rightarrow> bool" where
  "same_stream r1 r2 \<longleftrightarrow> pm_gateway_id r1 = pm_gateway_id r2 \<and> pm_sensor_id r1 = pm_sensor_id r2 \<and>
     pm_boot_id r1 = pm_boot_id r2 \<and> pm_sensor_id r1 \<noteq> None \<and> pm_boot_id r1 \<noteq> None"

lemma same_stream_sym: "same_stream r1 r2 \<Longrightarrow> same_stream r2 r1"
  unfolding same_stream_def by metis

definition sequence_range :: "processed_message \<Rightarrow> int set" where
  "sequence_range r = (case (pm_first_sequence r, pm_last_sequence r) of (Some f, Some l) \<Rightarrow> {f..l} | _ \<Rightarrow> {})"

definition ranges_disjoint :: "processed_message list \<Rightarrow> bool" where
  "ranges_disjoint rows \<longleftrightarrow> (\<forall>r1 \<in> set rows. \<forall>r2 \<in> set rows.
     same_stream r1 r2 \<and> pm_message_id r1 \<noteq> pm_message_id r2 \<longrightarrow> sequence_range r1 \<inter> sequence_range r2 = {})"

definition row_of_ledger :: "processed_message \<Rightarrow> telemetry_row \<Rightarrow> bool" where
  "row_of_ledger r t \<longleftrightarrow> tr_gateway_id t = pm_gateway_id r \<and> tr_message_id t = Some (pm_message_id r) \<and>
     pm_sensor_id r = Some (tr_sensor_id t) \<and> pm_boot_id r = tr_boot_id t \<and> tr_boot_id t \<noteq> None \<and>
     tr_sequence_num t \<in> sequence_range r"

definition samples_complete :: "db \<Rightarrow> bool" where
  "samples_complete d \<longleftrightarrow> (\<forall>r \<in> set (db_processed d). \<forall>f l.
     pm_first_sequence r = Some f \<longrightarrow> pm_last_sequence r = Some l \<longrightarrow>
     map tr_sequence_num (message_rows d (pm_key r)) = [f..l])"

definition store_inv :: "db \<Rightarrow> bool" where
  "store_inv d \<longleftrightarrow>
     distinct (map pm_key (db_processed d)) \<and>
     ranges_disjoint (db_processed d) \<and>
     (\<forall>t \<in> set (provenance_rows d). \<exists>r \<in> set (db_processed d). row_of_ledger r t) \<and>
     samples_complete d \<and>
     distinct (map sample_slot (provenance_rows d))"

section \<open>A committed message\<close>

lemma upto_map: "map (\<lambda>i. f + int i) [0..<n] = [f..f + int n - 1]"
  by (induction n) (simp_all add: upto_rec2 [of f "f + int n" for n] add.commute add_diff_eq)

text \<open>The rows of one validated message.\<close>

definition new_rows :: "BatchDTO \<Rightarrow> time \<Rightarrow> telemetry_row list" where
  "new_rows b start = map telemetryCopyRow (map (exact_sample b start) [0..<length (bd_Samples b)])"

lemma new_rows_fields:
  assumes "t \<in> set (new_rows b start)"
  shows "tr_gateway_id t = bd_GatewayID b" "tr_sensor_id t = bd_SensorID b" "tr_boot_id t = Some (bd_BootID b)"
    "tr_message_id t = Some (bd_MessageID b)"
    "tr_sequence_num t \<in> {bd_FirstSequence b..bd_FirstSequence b + int (length (bd_Samples b)) - 1}"
  using assms by (auto simp: new_rows_def telemetryCopyRow_def exact_sample_def)

lemma new_rows_sequence:
  "map tr_sequence_num (new_rows b start) = [bd_FirstSequence b..bd_FirstSequence b + int (length (bd_Samples b)) - 1]"
  by (simp add: new_rows_def telemetryCopyRow_def exact_sample_def comp_def upto_map)

lemma new_rows_distinct: "distinct (map sample_slot (new_rows b start))"
proof -
  have "distinct (map tr_sequence_num (new_rows b start))" unfolding new_rows_sequence by simp
  moreover have "map tr_sequence_num (new_rows b start) = map (\<lambda>(_, _, _, q). q) (map sample_slot (new_rows b start))"
    by (simp add: comp_def sample_slot_def)
  ultimately show ?thesis by (metis distinct_map)
qed

lemma ledger_row_metadata:
  assumes "decoded_ok U (msg_topic m) l (msg_batch m)" and "0 < length (bd_Samples (msg_batch m))"
  shows "ledger_row (metadata_of m start) =
    \<lparr>pm_gateway_id = bd_GatewayID (msg_batch m), pm_message_id = bd_MessageID (msg_batch m),
     pm_payload_hash = msg_payloadHash m, pm_source_topic = Some (pt_SourceTopic (msg_topic m)),
     pm_sensor_id = Some (bd_SensorID (msg_batch m)), pm_boot_id = Some (bd_BootID (msg_batch m)),
     pm_first_sequence = Some (bd_FirstSequence (msg_batch m)),
     pm_last_sequence = Some (bd_FirstSequence (msg_batch m) + int (length (bd_Samples (msg_batch m))) - 1),
     pm_sample_count = Some (int (length (bd_Samples (msg_batch m))))\<rparr>"
proof -
  have "int (length (bd_Samples (msg_batch m)) - 1) = int (length (bd_Samples (msg_batch m))) - 1"
    using assms(2) by linarith
  then show ?thesis
    using assms(1) by (simp add: ledger_row_def metadata_of_def Let_def exact_sample_def decoded_ok_def)
qed

text \<open>What the freshness check and the overlap check of the ledger step establish for the new row.\<close>

definition admissible :: "db \<Rightarrow> processed_message \<Rightarrow> bool" where
  "admissible d row \<longleftrightarrow> pm_key row \<notin> set (map pm_key (db_processed d)) \<and>
     (\<forall>q \<in> set (db_processed d). same_stream q row \<longrightarrow> sequence_range q \<inter> sequence_range row = {})"

lemma admissible_new:
  assumes fresh: "pm_key row \<notin> set (map pm_key (db_processed d))"
    and row: "pm_sensor_id row = Some s" "pm_boot_id row = Some bt" "pm_first_sequence row = Some f" "pm_last_sequence row = Some l"
    and nooverlap: "\<not> list_ex (overlapping (pm_gateway_id row) s bt f l (pm_message_id row)) (db_processed d)"
  shows "admissible d row"
proof -
  have "sequence_range q \<inter> sequence_range row = {}" if q: "q \<in> set (db_processed d)" "same_stream q row" for q
  proof -
    have "pm_message_id q \<noteq> pm_message_id row"
      using q fresh by (auto simp: pm_key_def same_stream_def image_iff)
    then show ?thesis
      using nooverlap q row
      by (auto simp: list_ex_iff overlapping_def same_stream_def sequence_range_def split: option.splits)
  qed
  then show ?thesis using fresh by (simp add: admissible_def)
qed

lemma no_rows_of_fresh_key:
  assumes "store_inv d" and "admissible d row"
  shows "message_rows d (pm_key row) = []"
proof -
  have False if "t \<in> set (message_rows d (pm_key row))" for t
  proof -
    have t: "tr_gateway_id t = pm_gateway_id row" "tr_message_id t = Some (pm_message_id row)" "t \<in> set (provenance_rows d)"
      using that by (auto simp: message_rows_def provenance_rows_def pm_key_def)
    then obtain q where "q \<in> set (db_processed d)" "row_of_ledger q t" using assms(1) by (auto simp: store_inv_def)
    then show False using assms(2) t by (auto simp: admissible_def pm_key_def row_of_ledger_def image_iff)
  qed
  then show ?thesis by (metis list.set_intros(1) neq_Nil_conv)
qed

lemma slots_apart:
  assumes "store_inv d" and "admissible d row" and "t \<in> set (provenance_rows d)" and "row_of_ledger row t'"
  shows "sample_slot t \<noteq> sample_slot t'"
proof
  assume eq: "sample_slot t = sample_slot t'"
  obtain q where q: "q \<in> set (db_processed d)" "row_of_ledger q t" using assms(1,3) by (auto simp: store_inv_def)
  have "same_stream q row" using q(2) eq assms(4) by (auto simp: row_of_ledger_def sample_slot_def same_stream_def)
  moreover have "tr_sequence_num t \<in> sequence_range q" "tr_sequence_num t \<in> sequence_range row"
    using q(2) eq assms(4) by (auto simp: row_of_ledger_def sample_slot_def)
  ultimately show False using assms(2) q(1) by (auto simp: admissible_def)
qed

lemma samples_complete_append:
  assumes inv: "store_inv d" and adm: "admissible d row" and rows: "\<forall>t \<in> set rows. row_of_ledger row t"
    and seq: "\<And>f l. pm_first_sequence row = Some f \<Longrightarrow> pm_last_sequence row = Some l \<Longrightarrow> map tr_sequence_num rows = [f..l]"
    and d': "db_processed d' = db_processed d @ [row]" "db_telemetry d' = db_telemetry d @ rows"
  shows "samples_complete d'"
  unfolding samples_complete_def
proof (intro ballI allI impI)
  fix q f la assume q: "q \<in> set (db_processed d')" "pm_first_sequence q = Some f" "pm_last_sequence q = Some la"
  let ?mine = "\<lambda>k t. tr_gateway_id t = fst k \<and> tr_message_id t = Some (snd k)"
  have split: "message_rows d' (pm_key q) = message_rows d (pm_key q) @ filter (?mine (pm_key q)) rows"
    by (simp add: message_rows_def d')
  show "map tr_sequence_num (message_rows d' (pm_key q)) = [f..la]"
  proof (cases "q \<in> set (db_processed d)")
    case True
    have "pm_key q \<in> set (map pm_key (db_processed d))" using True by simp
    then have "pm_key q \<noteq> pm_key row" using adm unfolding admissible_def by metis
    then have "filter (?mine (pm_key q)) rows = []"
      using rows by (auto simp: filter_empty_conv row_of_ledger_def pm_key_def)
    then show ?thesis using split True q inv by (simp add: store_inv_def samples_complete_def)
  next
    case False
    then have qr: "q = row" using q(1) by (simp add: d')
    have "filter (?mine (pm_key row)) rows = rows"
      using rows by (simp add: pm_key_def row_of_ledger_def)
    then show ?thesis using split q no_rows_of_fresh_key [OF inv adm] seq by (simp add: qr)
  qed
qed

lemma store_inv_append:
  assumes inv: "store_inv d" and adm: "admissible d row" and rows: "\<forall>t \<in> set rows. row_of_ledger row t"
    and seq: "\<And>f l. pm_first_sequence row = Some f \<Longrightarrow> pm_last_sequence row = Some l \<Longrightarrow> map tr_sequence_num rows = [f..l]"
    and dist: "distinct (map sample_slot rows)"
    and d': "db_processed d' = db_processed d @ [row]" "db_telemetry d' = db_telemetry d @ rows"
  shows "store_inv d'"
proof -
  have prov: "provenance_rows d' = provenance_rows d @ rows"
    using rows by (simp add: provenance_rows_def d' row_of_ledger_def)
  have "distinct (map pm_key (db_processed d'))" using inv adm by (simp add: store_inv_def d' admissible_def)
  moreover have "ranges_disjoint (db_processed d')"
    using inv adm same_stream_sym by (fastforce simp: store_inv_def ranges_disjoint_def d' admissible_def)
  moreover have "\<forall>t \<in> set (provenance_rows d'). \<exists>q \<in> set (db_processed d'). row_of_ledger q t"
    using inv rows by (auto simp: prov d' store_inv_def)
  moreover have "distinct (map sample_slot (provenance_rows d'))"
  proof -
    have "sample_slot t \<noteq> sample_slot t'" if "t \<in> set (provenance_rows d)" "t' \<in> set rows" for t t'
      using slots_apart [OF inv adm that(1)] rows that(2) by simp
    then have "set (map sample_slot (provenance_rows d)) \<inter> set (map sample_slot rows) = {}" by fastforce
    then show ?thesis using inv dist by (simp add: prov store_inv_def)
  qed
  ultimately show ?thesis using samples_complete_append [OF inv adm rows seq d'] by (simp add: store_inv_def)
qed

section \<open>Every call keeps the invariant\<close>

lemma store_inv_cong:
  "db_processed d' = db_processed d \<Longrightarrow> db_telemetry d' = db_telemetry d \<Longrightarrow> store_inv d' \<longleftrightarrow> store_inv d"
  by (simp add: store_inv_def samples_complete_def provenance_rows_def message_rows_def)

lemma transaction_store_inv:
  assumes wf: "message_wf U l m" and inv: "store_inv d" and e: "ledgerMetadata (Some m) = Inr e"
    and t: "transaction U env (Some m) e d = Inr (r, d')"
  shows "store_inv d'"
proof (cases "pr_Outcome r = CommitOutcomeDuplicateCommitted")
  case True
  then show ?thesis using transaction_duplicate(1) [OF t e] inv by simp
next
  case False
  obtain start where w: "ledgerMetadata (Some m) = Inr (metadata_of m start)"
      "msg_samples m = map (exact_sample (msg_batch m) start) [0..<length (bd_Samples (msg_batch m))]"
      "decoded_ok U (msg_topic m) l (msg_batch m)" "0 < length (bd_Samples (msg_batch m))"
    using message_wf_metadata [OF wf] by metis
  have em: "e = metadata_of m start" using w(1) e by simp
  obtain resource where d': "d' = committed_db U env resource e m d"
      and ins: "insertTelemetryLedger env (Some m) d = Inr (ledgerDispositionNew, d\<lparr>db_processed := db_processed d @ [ledger_row e]\<rparr>)"
    using transaction_committed [OF t e False] by metis
  note row = ledger_row_metadata [OF w(3,4), of start]
  note n = insert_new [OF ins e]
  have adm: "admissible d (ledger_row e)"
    by (rule admissible_new [OF n(2)]) (use n(5) w(3) in \<open>auto simp: ledger_row_def em metadata_of_def Let_def decoded_ok_def\<close>)
  have new: "map telemetryCopyRow (msg_samples m) = new_rows (msg_batch m) start" by (simp add: new_rows_def w(2))
  show ?thesis
  proof (rule store_inv_append [OF inv adm])
    show "\<forall>t \<in> set (new_rows (msg_batch m) start). row_of_ledger (ledger_row e) t"
      using new_rows_fields [of _ "msg_batch m" start] by (simp add: em row row_of_ledger_def sequence_range_def)
    show "map tr_sequence_num (new_rows (msg_batch m) start) = [f..la]"
      if "pm_first_sequence (ledger_row e) = Some f" "pm_last_sequence (ledger_row e) = Some la" for f la
      using that new_rows_sequence [of "msg_batch m" start] by (simp add: em row)
    show "db_telemetry d' = db_telemetry d @ new_rows (msg_batch m) start" by (simp add: d' committed_db_def new)
  qed (simp_all add: new_rows_distinct d' committed_db_def)
qed

lemma Persist_store_inv [inv_pres]:
  assumes wf: "message_wf U l m" and inv: "store_inv d"
  shows "store_inv (snd (Persist U env (Some m) d))"
proof -
  obtain res d' where P: "Persist U env (Some m) d = (res, d')" by fastforce
  from P show ?thesis
  proof (cases rule: Persist_cases)
    case failed
    then show ?thesis using P inv by simp
  next
    case (returned e r)
    then show ?thesis using P transaction_store_inv [OF wf inv] by simp
  next
    case (unconfirmed e r d1 err)
    then show ?thesis using P inv transaction_store_inv [OF wf inv] by simp
  qed
qed

end
