(* ===== verification/StoreTheorems.thy ===== *)
theory StoreTheorems
  imports StoreInvariant
begin

text \<open>
  The contract of the repository, from the invariant: a committed message is there completely and
  once, a resend is recognised, a failed call changes nothing unless its commit is unconfirmed,
  and a Sensor's reported state only moves forward.
\<close>

section \<open>Storage is exact\<close>

text \<open>The row written for a sample keeps its time and its place in the sequence.\<close>

lemma telemetryCopyRow_exact:
  assumes "range_spec b l receivedAt start"
  shows "tr_measured_at (telemetryCopyRow (exact_sample b start i)) = start + int i * (bd_SampleIntervalUS b * 1000)"
  using exact_sample_whole_micro [OF assms, of i] by (simp add: telemetryCopyRow_def exact_sample_def pg_timestamptz_id)

lemma committed_rows:
  assumes "message_wf U l m"
  obtains start where "parseMeasuredAt (bd_MeasuredAt (msg_batch m)) = Some start"
    and "map telemetryCopyRow (msg_samples m) = map (\<lambda>i. \<lparr>
      tr_measured_at = start + int i * (bd_SampleIntervalUS (msg_batch m) * 1000),
      tr_gateway_id = bd_GatewayID (msg_batch m), tr_sensor_id = bd_SensorID (msg_batch m),
      tr_sequence_num = bd_FirstSequence (msg_batch m) + int i, tr_value = bd_Samples (msg_batch m) ! i,
      tr_boot_id = Some (bd_BootID (msg_batch m)), tr_message_id = Some (bd_MessageID (msg_batch m)),
      tr_sample_index = Some (int i)\<rparr>) [0..<length (bd_Samples (msg_batch m))]"
proof -
  obtain start where s: "range_spec (msg_batch m) l (msg_receivedAt m) start"
      "msg_samples m = map (exact_sample (msg_batch m) start) [0..<length (bd_Samples (msg_batch m))]"
    using message_wf_parts [OF assms] by metis
  show ?thesis
  proof (rule that)
    show "parseMeasuredAt (bd_MeasuredAt (msg_batch m)) = Some start" using s(1) by (simp add: range_spec_def)
  qed (use telemetryCopyRow_exact [OF s(1)] in \<open>simp add: s(2) comp_def telemetryCopyRow_def exact_sample_def\<close>)
qed

section \<open>A commit happens when nothing stands in its way\<close>

lemma copy_accepted_new:
  assumes inv: "store_inv d" and adm: "admissible d row" and rows: "\<forall>t \<in> set rows. row_of_ledger row t"
    and idx: "map tr_sample_index rows = map (\<lambda>i. Some (int i)) [0..<n]"
    and ok: "\<forall>t \<in> set rows. 0 \<le> tr_sequence_num t \<and> db_sensors d (tr_gateway_id t, tr_sensor_id t) \<noteq> None"
  shows "copy_accepted d rows"
proof -
  have "distinct (map tr_sample_index rows)" unfolding idx by (simp add: distinct_map inj_on_def)
  moreover have "map tr_sample_index rows = map (\<lambda>(_, _, _, q). q) (map tr_key rows)" by (simp add: tr_key_def comp_def)
  ultimately have dist: "distinct (map tr_key rows)" by (metis distinct_map)
  have "tr_key t \<noteq> tr_key q" if t: "t \<in> set rows" and q: "q \<in> set (db_telemetry d)" for t q
  proof
    assume "tr_key t = tr_key q"
    then have "q \<in> set (message_rows d (pm_key row))"
      using t q rows by (auto simp: tr_key_def message_rows_def pm_key_def row_of_ledger_def)
    then show False using no_rows_of_fresh_key [OF inv adm] by simp
  qed
  moreover have "\<exists>i. tr_sample_index t = Some i \<and> 0 \<le> i" if "t \<in> set rows" for t
  proof -
    have "tr_sample_index t \<in> set (map tr_sample_index rows)" using that by simp
    then show ?thesis unfolding idx by auto
  qed
  ultimately show ?thesis
    using dist ok by (fastforce simp: copy_accepted_def list_all_iff)
qed

lemma new_rows_index: "map tr_sample_index (new_rows b start) = map (\<lambda>i. Some (int i)) [0..<length (bd_Samples b)]"
  by (simp add: new_rows_def comp_def telemetryCopyRow_def exact_sample_def)

lemma resolve_ok:
  assumes "resolveTelemetryResource env d (Some m) = Inr res"
  shows "pt_GatewayID (msg_topic m) \<in> set (db_gateways d)" "rr_EntityID res \<noteq> uuid_Nil"
    "db_sensors d (pt_GatewayID (msg_topic m), pt_SensorID (msg_topic m)) \<noteq> None"
    "db_states d (rr_EntityID res) \<noteq> None"
    "rr_GatewayID res = pt_GatewayID (msg_topic m)" "rr_SensorID res = pt_SensorID (msg_topic m)"
proof -
  let ?g = "pt_GatewayID (msg_topic m)" let ?s = "pt_SensorID (msg_topic m)"
  obtain ge se rows where rows: "graph_rows d ?g ?s = (ge, se, True) # rows"
    and r: "?g \<in> set (db_gateways d)" "db_sensors d (?g, ?s) \<noteq> None" "se \<noteq> uuid_Nil"
      "rr_EntityID res = se" "rr_GatewayID res = ?g" "rr_SensorID res = ?s"
    using assms
    by (cases "graph_rows d ?g ?s") (auto simp: resolveTelemetryResource_def Let_def split: if_splits)
  have "(ge, se, True) \<in> set (graph_rows d ?g ?s)" using rows by simp
  then have "db_states d se \<noteq> None" by (auto simp: graph_rows_def)
  then show "?g \<in> set (db_gateways d)" "rr_EntityID res \<noteq> uuid_Nil" "db_sensors d (?g, ?s) \<noteq> None"
    "db_states d (rr_EntityID res) \<noteq> None" "rr_GatewayID res = ?g" "rr_SensorID res = ?s"
    using r by simp_all
qed

definition healthy :: "db_env \<Rightarrow> bool" where
  "healthy env \<longleftrightarrow> ctx_present env \<and> fault env = (\<lambda>_. None)"

lemma healthyD [simp]: "healthy env \<Longrightarrow> ctx_present env" "healthy env \<Longrightarrow> fault env c = None"
  "healthy env \<Longrightarrow> db_call env c op = Inr ()"
  by (simp_all add: healthy_def db_call_def)

lemma insert_new_ok:
  assumes "healthy env" and e: "ledgerMetadata (Some m) = Inr e" and "provenance_check (ledger_row e)"
    and "pm_gateway_id (ledger_row e) \<in> set (db_gateways d)"
    and "pm_key (ledger_row e) \<notin> set (map pm_key (db_processed d))"
    and "\<not> list_ex (overlapping (pt_GatewayID (lg_topic e)) (lg_sensorID e) (lg_bootID e)
           (sc_SequenceNum (lg_firstSample e)) (sc_SequenceNum (lg_lastSample e)) (lg_messageID e)) (db_processed d)"
  shows "insertTelemetryLedger env (Some m) d = Inr (ledgerDispositionNew, d\<lparr>db_processed := db_processed d @ [ledger_row e]\<rparr>)"
proof -
  have "\<not> overlapping (pt_GatewayID (lg_topic e)) (lg_sensorID e) (lg_bootID e)
     (sc_SequenceNum (lg_firstSample e)) (sc_SequenceNum (lg_lastSample e)) (lg_messageID e) (ledger_row e)"
    by (simp add: overlapping_def ledger_row_def)
  then show ?thesis using assms by (simp add: insertTelemetryLedger_def)
qed

lemma provenance_check_wf:
  assumes "message_wf U l m" and "ledgerMetadata (Some m) = Inr e"
  shows "provenance_check (ledger_row e)" "in_i64 (sc_SequenceNum (lg_lastSample e))"
proof -
  obtain start where w: "ledgerMetadata (Some m) = Inr (metadata_of m start)"
      "range_spec (msg_batch m) l (msg_receivedAt m) start"
      "decoded_ok U (msg_topic m) l (msg_batch m)" "0 < length (bd_Samples (msg_batch m))"
    using message_wf_metadata [OF assms(1)] by metis
  have e: "e = metadata_of m start" using w(1) assms(2) by simp
  have n: "int (length (bd_Samples (msg_batch m)) - 1) = int (length (bd_Samples (msg_batch m))) - 1" using w(4) by linarith
  show "provenance_check (ledger_row e)"
    using w(2,4) by (auto simp: e provenance_check_def ledger_row_metadata [OF w(3,4)] range_spec_def)
  show "in_i64 (sc_SequenceNum (lg_lastSample e))"
    using w(2,3,4) n by (auto simp: e metadata_of_def Let_def exact_sample_def range_spec_def decoded_ok_def int_bounds_defs)
qed

text \<open>Whether a message finds its place in the ledger: its key is new and its range is free.\<close>

definition ledger_free :: "db \<Rightarrow> ledgerMessage \<Rightarrow> bool" where
  "ledger_free d e \<longleftrightarrow> pm_key (ledger_row e) \<notin> set (map pm_key (db_processed d)) \<and>
     \<not> list_ex (overlapping (pt_GatewayID (lg_topic e)) (lg_sensorID e) (lg_bootID e)
         (sc_SequenceNum (lg_firstSample e)) (sc_SequenceNum (lg_lastSample e)) (lg_messageID e)) (db_processed d)"

definition version_free :: "db \<Rightarrow> uuid \<Rightarrow> bool" where
  "version_free d x = (case db_states d x of None \<Rightarrow> False
     | Some st \<Rightarrow> 0 \<le> ts_reported_version st \<and> ts_reported_version st < maxInt64)"

lemma applySensorReportedState_ok:
  assumes "healthy env" and "version_free d (rr_EntityID res)" and "rr_EntityID res \<noteq> uuid_Nil"
    and "LastSample (Some m) = Some lastS" and "0 < bd_SampleIntervalUS (msg_batch m)"
  shows "\<exists>adv. applySensorReportedState U env res (Some m) d =
     Inr (adv, d\<lparr>db_states := next_states U env (rr_EntityID res) (candidate_of res m lastS) (db_states d)\<rparr>)"
proof -
  obtain st where st: "db_states d (rr_EntityID res) = Some st" "\<not> ts_reported_version st < 0" "ts_reported_version st \<noteq> maxInt64"
    using assms(2) by (auto simp: version_free_def split: option.splits)
  have c: "newReportedStateCandidate res (Some m) = Inr (candidate_of res m lastS)"
    using assms(4,5) by (simp add: newReportedStateCandidate_def candidate_of_def)
  show ?thesis
    using assms(1,3) st by (simp add: applySensorReportedState_def c next_states_def) blast
qed

lemma Persist_commits:
  assumes wf: "message_wf U l m" and inv: "store_inv d" and env: "healthy env"
    and res: "resolveTelemetryResource env d (Some m) = Inr resource"
    and e: "ledgerMetadata (Some m) = Inr e" and free: "ledger_free d e"
    and ver: "version_free d (rr_EntityID resource)"
  shows "Persist U env (Some m) d =
    (Inr \<lparr>pr_Identity = \<lparr>mi_GatewayID = rr_GatewayID resource, mi_SensorID = rr_SensorID resource,
            mi_BootID = lg_bootID e, mi_MessageID = lg_messageID e\<rparr>,
          pr_Outcome = CommitOutcomeCommitted, pr_SamplesSaved = lg_sampleCount e\<rparr>,
     committed_db U env resource e m d)"
proof -
  obtain start where w: "ledgerMetadata (Some m) = Inr (metadata_of m start)"
      "range_spec (msg_batch m) l (msg_receivedAt m) start"
      "msg_samples m = map (exact_sample (msg_batch m) start) [0..<length (bd_Samples (msg_batch m))]"
      "decoded_ok U (msg_topic m) l (msg_batch m)" "0 < length (bd_Samples (msg_batch m))"
    using message_wf_metadata [OF wf] by metis
  have em: "e = metadata_of m start" using w(1) e by simp
  note row = ledger_row_metadata [OF w(4,5), of start, folded em]
  note rok = resolve_ok [OF res]
  have ids: "pt_GatewayID (msg_topic m) = bd_GatewayID (msg_batch m)" "pt_SensorID (msg_topic m) = bd_SensorID (msg_batch m)"
    using w(4) by (simp_all add: decoded_ok_def)
  let ?d1 = "d\<lparr>db_processed := db_processed d @ [ledger_row e]\<rparr>"
  have ins: "insertTelemetryLedger env (Some m) d = Inr (ledgerDispositionNew, ?d1)"
    using insert_new_ok [OF env e provenance_check_wf(1) [OF wf e]] free rok(1) ids by (simp add: ledger_free_def row)
  have adm: "admissible d (ledger_row e)"
    by (rule admissible_new) (use free ids in \<open>auto simp: ledger_free_def ledger_row_def em metadata_of_def Let_def\<close>)
  note fields = new_rows_fields [of _ "msg_batch m" start]
  have "copy_accepted d (new_rows (msg_batch m) start)"
  proof (rule copy_accepted_new [OF inv adm _ new_rows_index])
    show "\<forall>t \<in> set (new_rows (msg_batch m) start). row_of_ledger (ledger_row e) t"
      using fields by (simp add: row row_of_ledger_def sequence_range_def)
    have "0 \<le> bd_FirstSequence (msg_batch m)" using w(2) by (simp add: range_spec_def)
    then show "\<forall>t \<in> set (new_rows (msg_batch m) start). 0 \<le> tr_sequence_num t \<and> db_sensors d (tr_gateway_id t, tr_sensor_id t) \<noteq> None"
      using fields rok(3) ids by fastforce
  qed
  then have cp: "copyTelemetry env (msg_samples m) ?d1 =
      Inr (lg_sampleCount e, ?d1\<lparr>db_telemetry := db_telemetry d @ map telemetryCopyRow (msg_samples m)\<rparr>)"
    using env by (simp add: copyTelemetry_def new_rows_def copy_accepted_def w(3) em metadata_of_def Let_def)
  let ?d2 = "?d1\<lparr>db_telemetry := db_telemetry d @ map telemetryCopyRow (msg_samples m)\<rparr>"
  note lastS = ledgerMetadata_last [OF e]
  have iv: "0 < bd_SampleIntervalUS (msg_batch m)" "bd_SampleIntervalUS (msg_batch m) \<le> maxExactFloat64Integer"
    using w(2) by (simp_all add: range_spec_def)
  obtain adv where st: "applySensorReportedState U env resource (Some m) ?d2 =
      Inr (adv, ?d2\<lparr>db_states := next_states U env (rr_EntityID resource) (candidate_of resource m (lg_lastSample e)) (db_states d)\<rparr>)"
    using applySensorReportedState_ok [OF env _ rok(2) lastS iv(1), of ?d2 U] ver by (auto simp: version_free_def)
  show ?thesis
    using env rok(2) iv lastS
    by (simp add: Persist_def commitTelemetry_def transaction_def e res ins cp st Let_def Samples_def
        appendSensorSampleIntervalTemporal_def temporal_of_def committed_db_def)
qed

section \<open>Resends\<close>

lemma Persist_duplicate:
  assumes wf: "message_wf U l m" and inv: "store_inv d" and env: "healthy env"
    and res: "resolveTelemetryResource env d (Some m) = Inr resource"
    and e: "ledgerMetadata (Some m) = Inr e" and present: "ledger_row e \<in> set (db_processed d)"
  shows "Persist U env (Some m) d =
    (Inr \<lparr>pr_Identity = \<lparr>mi_GatewayID = rr_GatewayID resource, mi_SensorID = rr_SensorID resource,
            mi_BootID = lg_bootID e, mi_MessageID = lg_messageID e\<rparr>,
          pr_Outcome = CommitOutcomeDuplicateCommitted, pr_SamplesSaved = 0\<rparr>, d)"
proof -
  note prov = provenance_check_wf [OF wf e]
  have "decoded_ok U (msg_topic m) l (msg_batch m)" using wf by (simp add: message_wf_def)
  have key: "pm_key (ledger_row e) \<in> set (map pm_key (db_processed d))" using present by simp
  have "lg_topic e = msg_topic m" using e by (auto simp: ledgerMetadata_def Let_def split: option.splits if_splits)
  then have gw: "pm_gateway_id (ledger_row e) \<in> set (db_gateways d)" using resolve_ok(1) [OF res] by (simp add: ledger_row_def)
  have "find (\<lambda>r. pm_key r = pm_key (ledger_row e)) (db_processed d) = Some (ledger_row e)"
    using inv present by (intro find_unique_key) (simp_all add: store_inv_def)
  then have "insertTelemetryLedger env (Some m) d = Inr (ledgerDispositionDuplicate, d)"
    using env key gw prov classifyStored_self [OF prov] by (simp add: insertTelemetryLedger_def e Let_def)
  then show ?thesis
    using env by (simp add: Persist_def commitTelemetry_def transaction_def e res Let_def)
qed

text \<open>
  After any call the ledger is the old one or holds the message's row; it holds it whenever the
  call succeeded.
\<close>

lemma Persist_ledger:
  assumes P: "Persist U env (Some m) d = (res, d')" and e: "ledgerMetadata (Some m) = Inr e"
  shows "set (db_processed d) \<subseteq> set (db_processed d')"
    and "set (db_processed d') \<subseteq> insert (ledger_row e) (set (db_processed d))"
    and "res = Inr r \<Longrightarrow> ledger_row e \<in> set (db_processed d')"
proof -
  have tx: "(d1 = d \<and> ledger_row e \<in> set (db_processed d)) \<or> db_processed d1 = db_processed d @ [ledger_row e]"
    if tr: "transaction U env (Some m) e d = Inr (r1, d1)" for r1 d1
  proof (cases "pr_Outcome r1 = CommitOutcomeDuplicateCommitted")
    case True
    then show ?thesis using transaction_duplicate(1,2) [OF tr e] by simp
  next
    case False
    obtain resource where "d1 = committed_db U env resource e m d" using transaction_committed [OF tr e False] by metis
    then show ?thesis by (simp add: committed_db_def)
  qed
  have sets: "set (db_processed d1) = insert (ledger_row e) (set (db_processed d))"
    if "transaction U env (Some m) e d = Inr (r1, d1)" for r1 d1
    using tx [OF that] by (auto simp: insert_absorb)
  show "set (db_processed d) \<subseteq> set (db_processed d')"
    using P by (cases rule: Persist_cases) (use e sets in \<open>auto split: if_splits\<close>)
  show "set (db_processed d') \<subseteq> insert (ledger_row e) (set (db_processed d))"
    using P by (cases rule: Persist_cases) (use e sets in \<open>auto split: if_splits\<close>)
  show "res = Inr r \<Longrightarrow> ledger_row e \<in> set (db_processed d')"
    using P by (cases rule: Persist_cases) (use e sets in \<open>auto split: if_splits\<close>)
qed

section \<open>Reported state\<close>

lemma sensorStateAdvances_time:
  assumes "sensorStateAdvances U stored lastReported c" and "lastReported = Some t"
  shows "t \<le> rc_observedAt c"
  using assms by (auto simp: sensorStateAdvances_def split: if_splits)

text \<open>What an advance writes is what the next comparison reads.\<close>

lemma storedSensorProvenance_advanced:
  assumes U: "uuid_text_ok U" and obj: "ts_reported_state st = JObject obj"
    and seq: "0 \<le> rc_sequenceNum c" "in_i64 (rc_sequenceNum c)"
  shows "storedSensorProvenance (ts_reported_state (advanced_state U env c st)) =
    Some (uuid_String U (rc_bootID c), rc_sequenceNum c)"
proof -
  have "length (uuid_String U (rc_bootID c)) = 36" using U by (simp add: uuid_text_ok_def)
  then have "uuid_String U (rc_bootID c) \<noteq> []" by auto
  moreover have "strconv_ParseInt 64 (show_int (rc_sequenceNum c)) = Some (rc_sequenceNum c)"
    using seq by (intro ParseInt_show_int) (simp_all add: int_bounds_defs)
  ultimately show ?thesis
    using seq(1) by (simp add: storedSensorProvenance_def advanced_state_def obj jsonb_concat_def candidate_merge_def
        jnumber_Int64_def Let_def map_add_def split: option.splits)
qed

lemma no_second_advance:
  assumes U: "uuid_text_ok U" and obj: "ts_reported_state st = JObject obj"
    and seq: "0 \<le> rc_sequenceNum c" "in_i64 (rc_sequenceNum c)"
    and old: "rc_observedAt c' < pg_timestamptz (rc_observedAt c) \<or>
      rc_observedAt c' = pg_timestamptz (rc_observedAt c) \<and>
      (rc_bootID c' \<noteq> rc_bootID c \<or> rc_sequenceNum c' \<le> rc_sequenceNum c)"
  shows "\<not> sensorStateAdvances U (ts_reported_state (advanced_state U env c st))
    (ts_last_reported_at (advanced_state U env c st)) c'"
proof -
  have "ts_last_reported_at (advanced_state U env c st) = Some (pg_timestamptz (rc_observedAt c))"
    by (simp add: advanced_state_def)
  then show ?thesis
    using old storedSensorProvenance_advanced [OF U obj seq] uuid_text_roundtrip [OF U]
    by (auto simp: sensorStateAdvances_def)
qed

text \<open>How one state row may change: not at all, or one version up with a later time and the same desired state.\<close>

definition state_step :: "twin_state \<Rightarrow> twin_state \<Rightarrow> bool" where
  "state_step st st' \<longleftrightarrow> st' = st \<or>
     (ts_reported_version st' = ts_reported_version st + 1 \<and>
      ts_desired_state st' = ts_desired_state st \<and> ts_desired_version st' = ts_desired_version st \<and>
      (\<exists>t'. ts_last_reported_at st' = Some t' \<and> (\<forall>t. ts_last_reported_at st = Some t \<longrightarrow> t \<le> t')))"

lemma next_states_step:
  assumes "1000 dvd rc_observedAt c"
  shows "dom (next_states U env x c states) = dom states"
    and "states y = Some st \<Longrightarrow> \<exists>st'. next_states U env x c states y = Some st' \<and> state_step st st'"
proof -
  have adv: "state_step st (advanced_state U env c st)"
    if "sensorStateAdvances U (ts_reported_state st) (ts_last_reported_at st) c" for st
    using that sensorStateAdvances_time [OF that] pg_timestamptz_id [OF assms]
    by (auto simp: state_step_def advanced_state_def)
  show "dom (next_states U env x c states) = dom states"
    by (auto simp: next_states_def split: option.splits if_splits)
  have "state_step st st" for st by (simp add: state_step_def)
  then show "states y = Some st \<Longrightarrow> \<exists>st'. next_states U env x c states y = Some st' \<and> state_step st st'"
    using adv by (auto simp: next_states_def split: option.splits)
qed

lemma transaction_states:
  assumes wf: "message_wf U l m" and e: "ledgerMetadata (Some m) = Inr e"
    and t: "transaction U env (Some m) e d = Inr (r, d')" and st: "db_states d x = Some st"
  shows "\<exists>st'. db_states d' x = Some st' \<and> state_step st st'"
proof (cases "pr_Outcome r = CommitOutcomeDuplicateCommitted")
  case True
  then show ?thesis using transaction_duplicate(1) [OF t e True] st by (simp add: state_step_def)
next
  case False
  obtain resource where d': "d' = committed_db U env resource e m d"
    using transaction_committed [OF t e False] by metis
  obtain start where w: "ledgerMetadata (Some m) = Inr (metadata_of m start)"
      "range_spec (msg_batch m) l (msg_receivedAt m) start"
    using message_wf_metadata [OF wf] by metis
  have "1000 dvd rc_observedAt (candidate_of resource m (lg_lastSample e))"
    using exact_sample_whole_micro [OF w(2)] w(1) e by (simp add: candidate_of_def metadata_of_def Let_def)
  then show ?thesis using next_states_step(2) st by (simp add: d' committed_db_def)
qed

end
