(* ===== verification/Fixtures.thy ===== *)
theory Fixtures
  imports StoreTheorems
begin

text \<open>
  One concrete deployment used by the witnesses of the other theories: a Gateway \<open>gw1\<close> with a
  Sensor \<open>s1\<close> and its Twin graph, one validated two-sample message, the server's default limits,
  and a database without faults.
\<close>

definition fx_mid :: uuid where "fx_mid = 0x40008000000000000002"
definition fx_boot :: uuid where "fx_boot = 0x40008000000000000001"

definition fx_limits :: Limits where
  "fx_limits = \<lparr>lm_MaxPayloadBytes = 65536, lm_MaxSamples = 1000, lm_MaxBatchDuration = 60000000000,
     lm_MaxFutureSkew = 120000000000\<rparr>"

definition fx_start :: time where "fx_start = 63902822400000000000"

definition fx_batch :: BatchDTO where
  "fx_batch = \<lparr>bd_ProtocolVersion = 1, bd_MessageID = fx_mid, bd_MessageType = ''telemetry_batch'',
     bd_GatewayID = ''gw1'', bd_SensorID = ''s1'', bd_BootID = fx_boot, bd_FirstSequence = 7, bd_SampleCount = 2,
     bd_MeasuredAt = ''2026-01-01T00:00:00.000000Z'', bd_SampleIntervalUS = 10000, bd_Samples = [20, 21]\<rparr>"

definition fx_topic :: ParsedTopic where
  "fx_topic = \<lparr>pt_SourceTopic = ''gateways/gw1/telemetry/s1'', pt_GatewayID = ''gw1'', pt_SensorID = ''s1''\<rparr>"

definition fx_fields :: "(string \<times> string) list" where
  "fx_fields =
     [(''protocol_version'', ''1''), (''message_id'', quote ''00000000-0000-4000-8000-000000000002''),
      (''message_type'', quote ''telemetry_batch''), (''gateway_id'', quote ''gw1''), (''sensor_id'', quote ''s1''),
      (''boot_id'', quote ''00000000-0000-4000-8000-000000000001''), (''first_sequence'', ''7''),
      (''sample_count'', ''2''), (''measured_at'', quote ''2026-01-01T00:00:00.000000Z''),
      (''sample_interval_us'', ''10000''), (''samples'', ''[20,21]'')]"

definition fx_payload :: string where "fx_payload = json_object fx_fields"

definition fx_message :: Message where
  "fx_message = \<lparr>msg_topic = fx_topic, msg_batch = fx_batch, msg_rawPayload = fx_payload,
     msg_payloadHash = sha256_hex fx_payload, msg_receivedAt = fx_start,
     msg_samples = map (exact_sample fx_batch fx_start) [0..<length (bd_Samples fx_batch)]\<rparr>"

lemma fx_measured_at: "parseMeasuredAt ''2026-01-01T00:00:00.000000Z'' = Some fx_start"
  unfolding fx_start_def by code_simp

lemma fx_ids:
  "valid_message_id canonical_uuid fx_mid" "valid_boot_id canonical_uuid fx_boot"
  "fx_mid \<noteq> uuid_Nil" "fx_boot \<noteq> uuid_Nil" "fx_mid \<noteq> fx_boot"
  by (simp_all add: valid_message_id_def valid_boot_id_def canonical_uuid_def fx_mid_def fx_boot_def)

lemma fx_topic_ok: "ParseTopic ''gateways/gw1/telemetry/s1'' = Inr fx_topic"
  by (simp add: ParseTopic_def fx_topic_def ValidateGatewayID_def ValidateSensorID_def is_alnum_def id_char_def Let_def)

lemma fx_names: "ValidateGatewayID ''gw1''" "ValidateSensorID ''s1''"
  by (simp_all add: ValidateGatewayID_def ValidateSensorID_def is_alnum_def id_char_def)

lemma fx_range: "range_spec fx_batch fx_limits fx_start fx_start"
  using fx_measured_at
  by (simp add: range_spec_def fx_batch_def fx_limits_def maxInt64_def maxExactFloat64Integer_def fx_start_def
      endOfYear9999_def nsPerDay_def)

lemma fx_decoded: "decoded_ok canonical_uuid fx_topic fx_limits fx_batch"
  using fx_ids fx_names by (simp add: decoded_ok_def fx_batch_def fx_topic_def fx_limits_def int_bounds_defs)

lemma fx_payload_size: "int (length fx_payload) \<le> 65536"
  by code_simp

lemma fx_message_wf: "message_wf canonical_uuid fx_limits fx_message"
proof -
  have "pt_SourceTopic fx_topic = ''gateways/gw1/telemetry/s1''" by (simp add: fx_topic_def)
  then show ?thesis
    using fx_range fx_decoded fx_topic_ok fx_payload_size unfolding message_wf_def
    by (auto simp: fx_message_def) (simp add: fx_limits_def)
qed

section \<open>The payload is accepted\<close>

lemma pad_hex_numeral:
  "pad_hex (numeral k) n = pad_hex (pred_numeral k) (n div 16) @ [''0123456789abcdef'' ! (n mod 16)]"
  unfolding numeral_eq_Suc [of k] by simp

lemma fx_id_text:
  "canonical_String fx_mid = ''00000000-0000-4000-8000-000000000002''"
  "canonical_String fx_boot = ''00000000-0000-4000-8000-000000000001''"
  by (simp_all add: canonical_String_def fx_mid_def fx_boot_def pad_hex_numeral substr_def Let_def)

lemma fx_object: "decodeBatchObject fx_payload = Some fx_fields"
  by code_simp

lemma fx_ints: "decodeInt64 ''1'' = Some 1" "decodeInt64 ''7'' = Some 7" "decodeInt32 ''2'' = Some 2"
  "decodeInt64 ''10000'' = Some 10000"
  by code_simp+

lemma fx_floats: "decodeSample ''20'' = Some 20" "decodeSample ''21'' = Some 21"
proof -
  have n: "number_value ''20'' = of_int 20" "number_value ''21'' = of_int 21" by code_simp+
  have "\<not> isNull ''20''" "\<not> isNull ''21''" by code_simp+
  then show "decodeSample ''20'' = Some 20" "decodeSample ''21'' = Some 21"
    unfolding decodeSample_def json_float64_def n using round64_of_int [of 20] round64_of_int [of 21]
    by (simp_all add: is_digit_def)
qed

lemma fx_samples: "decodeSamples ''[20,21]'' 1000 = Some [20, 21]"
proof -
  have "scan_value ''20,21]'' = Some (''20'', '',21]'')" "scan_value ''21]'' = Some (''21'', '']'')"
    "skip_space ''[20,21]'' = ''[20,21]''" "skip_space ''20,21]'' = ''20,21]''" "skip_space '',21]'' = '',21]''"
    "skip_space '']'' = '']''" "\<not> isNull ''[20,21]''"
    by code_simp+
  then show ?thesis
    using fx_floats by (simp add: decodeSamples_def array_items.simps [of _ _ "[]"] array_items.simps [of _ _ "[_]"]
        array_items.simps [of _ _ "[_, _]"]) (simp add: skip_space_def)
qed

lemma fx_strings:
  "decodeString (quote ''gw1'') = Some ''gw1''" "decodeString (quote ''s1'') = Some ''s1''"
  "decodeString (quote ''telemetry_batch'') = Some ''telemetry_batch''"
  "decodeString (quote ''2026-01-01T00:00:00.000000Z'') = Some ''2026-01-01T00:00:00.000000Z''"
  "decodeString (quote ''00000000-0000-4000-8000-000000000002'') = Some ''00000000-0000-4000-8000-000000000002''"
  "decodeString (quote ''00000000-0000-4000-8000-000000000001'') = Some ''00000000-0000-4000-8000-000000000001''"
  by code_simp+

lemma fx_uuids:
  "decodeUUID canonical_uuid (quote ''00000000-0000-4000-8000-000000000002'') = Some fx_mid"
  "decodeUUID canonical_uuid (quote ''00000000-0000-4000-8000-000000000001'') = Some fx_boot"
  using canonical_Parse_String [of fx_mid] canonical_Parse_String [of fx_boot]
  by (simp_all add: decodeUUID_def fx_strings canonical_uuid_def fx_id_text)

lemma fx_decodeBatch: "decodeBatch canonical_uuid fx_payload fx_topic fx_limits = Inr fx_batch"
  using fx_ids fx_names fx_payload_size
  by (simp add: decodeBatch_def fx_object raw_field_def fx_ints fx_samples fx_strings fx_uuids fx_fields_def fx_limits_def
      fx_batch_def fx_topic_def valid_message_id_def valid_boot_id_def)

lemma fx_validateRange: "validateRange fx_batch fx_limits fx_start =
  Inr \<lparr>vr_FirstMeasuredAt = fx_start, vr_LastMeasuredAt = fx_start + 10000000, vr_LastSequence = 8, vr_Interval = 10000000\<rparr>"
  using fx_range
  by (subst validateRange_iff) (simp_all add: fx_batch_def fx_limits_def int_bounds_defs)

lemma fx_Validate: "Validate canonical_uuid (Some fx_limits) ''gateways/gw1/telemetry/s1'' fx_payload fx_start = Inr fx_message"
proof -
  have "expandSamples fx_batch \<lparr>vr_FirstMeasuredAt = fx_start, vr_LastMeasuredAt = fx_start + 10000000,
      vr_LastSequence = 8, vr_Interval = 10000000\<rparr> = map (exact_sample fx_batch fx_start) [0..<length (bd_Samples fx_batch)]"
    by (rule expandSamples_exact [OF fx_decoded fx_range]) (simp_all add: fx_limits_def fx_batch_def int_bounds_defs)
  moreover have "Limits_Validate fx_limits = None" by (simp add: Limits_Validate_def fx_limits_def maxInt32_def)
  ultimately show ?thesis
    using fx_payload_size fx_topic_ok fx_decodeBatch fx_validateRange
    by (simp add: Validate_def fx_message_def) (simp add: fx_limits_def)
qed

section \<open>Database\<close>

definition fx_state :: twin_state where
  "fx_state = \<lparr>ts_reported_state = JObject Map.empty, ts_reported_version = 0, ts_last_reported_at = None,
     ts_desired_state = JObject Map.empty, ts_desired_version = 0, ts_updated_at = 0\<rparr>"

definition fx_db :: db where
  "fx_db = \<lparr>db_gateways = [''gw1''], db_sensors = [(''gw1'', ''s1'') \<mapsto> Some ''C''],
     db_entities =
       [\<lparr>te_id = 1, te_entity_id = ''urn:ngsi-ld:Gateway:gw1'', te_entity_type = ''Gateway'', te_gateway_id = Some ''gw1''\<rparr>,
        \<lparr>te_id = 2, te_entity_id = ''urn:ngsi-ld:Sensor:gw1:s1'', te_entity_type = ''Sensor'', te_gateway_id = Some ''gw1''\<rparr>],
     db_relationships = [\<lparr>rel_source_entity_id = 1, rel_relationship_type = ''hasSensor'', rel_target_entity_id = 2\<rparr>],
     db_states = [1 \<mapsto> fx_state, 2 \<mapsto> fx_state], db_processed = [], db_telemetry = [], db_temporal = []\<rparr>"

definition fx_env :: db_env where
  "fx_env = \<lparr>ctx_present = True, fault = (\<lambda>_. None), commit_applied = True, tx_now = fx_start\<rparr>"

definition fx_resource :: resolvedTelemetryResource where
  "fx_resource = \<lparr>rr_GatewayID = ''gw1'', rr_SensorID = ''s1'', rr_EntityID = 2, rr_Unit = Some ''C''\<rparr>"

lemma fx_healthy: "healthy fx_env"
  by (simp add: healthy_def fx_env_def)

lemma fx_store_inv: "store_inv fx_db"
  by (simp add: store_inv_def fx_db_def ranges_disjoint_def provenance_rows_def samples_complete_def)

lemma fx_resolve_gen:
  assumes "healthy env" and "db_gateways d = db_gateways fx_db" "db_sensors d = db_sensors fx_db"
    "db_entities d = db_entities fx_db" "db_relationships d = db_relationships fx_db" "dom (db_states d) = dom (db_states fx_db)"
  shows "resolveTelemetryResource env d (Some fx_message) = Inr fx_resource"
proof -
  have "db_states d 1 \<noteq> None" "db_states d 2 \<noteq> None" using assms(6) by (auto simp: fx_db_def dom_def split: if_splits)
  then have "graph_rows d ''gw1'' ''s1'' = [(1, 2, True)]"
    using assms by (auto simp: graph_rows_def fx_db_def GatewayEntityID_def SensorEntityID_def)
  then show ?thesis
    using assms by (simp add: resolveTelemetryResource_def fx_message_def fx_topic_def fx_db_def fx_resource_def Let_def)
qed

lemma fx_resolve: "resolveTelemetryResource fx_env fx_db (Some fx_message) = Inr fx_resource"
  by (rule fx_resolve_gen) (simp_all add: fx_healthy)

lemma fx_metadata: "ledgerMetadata (Some fx_message) = Inr (metadata_of fx_message fx_start)"
proof (rule ledgerMetadata_wf [OF fx_range])
  show "decoded_ok canonical_uuid (msg_topic fx_message) fx_limits fx_batch" using fx_decoded by (simp add: fx_message_def)
qed (simp_all add: fx_message_def, simp_all add: fx_batch_def maxInt32_def fx_topic_def)

lemma fx_free: "ledger_free fx_db (metadata_of fx_message fx_start)"
  by (simp add: ledger_free_def fx_db_def)

lemma fx_version: "version_free fx_db (rr_EntityID fx_resource)"
  by (simp add: version_free_def fx_db_def fx_resource_def fx_state_def maxInt64_def)

lemmas fx_commit = Persist_commits [OF fx_message_wf fx_store_inv fx_healthy fx_resolve fx_metadata fx_free fx_version]

end
