(* ===== verification/ValidationProperties.thy ===== *)
theory ValidationProperties
  imports MeasuredAt CommitAck Fixtures
begin

text \<open>
  The properties of the two parsers that face the network: the validator of a telemetry batch
  (topic, JSON, range and timestamp checks) and the Gateway's parser of a commit acknowledgement.
\<close>

section \<open>Rejections\<close>

text \<open>
  The receipt time is looked at last. \<open>clock_gated\<close> describes a result as a function of the receipt
  time: either one permanent error whatever the time, or a verdict that only depends on whether the
  last sample lies in the future.
\<close>

definition in_future :: "Limits \<Rightarrow> time \<Rightarrow> time \<Rightarrow> bool" where
  "in_future l receivedAt lastT \<longleftrightarrow>
     (let threshold = receivedAt + lm_MaxFutureSkew l
      in time_Year threshold < 1 \<or> (time_Year threshold \<le> 9999 \<and> threshold < lastT))"

definition clock_gated :: "Limits \<Rightarrow> (time \<Rightarrow> go_error + 'a) \<Rightarrow> bool" where
  "clock_gated l F \<longleftrightarrow>
     (\<exists>e. permanent e \<and> (\<forall>r. F r = Inl e)) \<or>
     (\<exists>lastT y. validCalendarYear lastT \<and> 0 \<le> lm_MaxFutureSkew l \<and>
        (\<forall>r. (F r = Inl (ReasonError ReasonTimestampInFuture ''last_measured_at'') \<and> in_future l r lastT) \<or>
             (F r = Inr (y r) \<and> \<not> in_future l r lastT)))"

lemma clock_gated_rules [intro]:
  "permanent e \<Longrightarrow> clock_gated l (\<lambda>_. Inl e)"
  "permanent e \<Longrightarrow> (\<not> c \<Longrightarrow> clock_gated l F) \<Longrightarrow> clock_gated l (\<lambda>r. res_bind (reject_if c e) (\<lambda>_. F r))"
  "permanent e \<Longrightarrow> (\<And>x. o' = Some x \<Longrightarrow> clock_gated l (G x)) \<Longrightarrow> clock_gated l (\<lambda>r. res_bind (ok_or o' e) (\<lambda>x. G x r))"
proof -
  show *: "clock_gated l (\<lambda>_. Inl e)" if "permanent e" for e and l using that by (auto simp: clock_gated_def)
  show "clock_gated l (\<lambda>r. res_bind (reject_if c e) (\<lambda>_. F r))" if "permanent e" "\<not> c \<Longrightarrow> clock_gated l F"
    using that * by (cases c) (simp_all add: reject_if_def)
  show "clock_gated l (\<lambda>r. res_bind (ok_or o' e) (\<lambda>x. G x r))" if "permanent e" "\<And>x. o' = Some x \<Longrightarrow> clock_gated l (G x)"
    using that * by (cases o') (simp_all add: ok_or_def)
qed

lemma clock_gated_final:
  assumes "validCalendarYear lastT" and "0 \<le> lm_MaxFutureSkew l"
  shows "clock_gated l (\<lambda>r. res_bind (reject_if (time_Year (r + lm_MaxFutureSkew l) < 1) (ReasonError ReasonTimestampInFuture ''last_measured_at''))
    (\<lambda>_. res_bind (reject_if (time_Year (r + lm_MaxFutureSkew l) \<le> 9999 \<and> r + lm_MaxFutureSkew l < lastT)
      (ReasonError ReasonTimestampInFuture ''last_measured_at'')) (\<lambda>_. Inr y)))"
  unfolding clock_gated_def using assms
  by (intro disjI2 exI [of _ lastT] exI [of _ "\<lambda>_. y"]) (auto simp: in_future_def Let_def reject_if_def)

lemma clock_gated_map:
  assumes "clock_gated l F"
  shows "clock_gated l (\<lambda>r. res_bind (F r) (\<lambda>x. Inr (g r x)))"
  using assms unfolding clock_gated_def
proof (elim disjE exE conjE)
  fix lastT y
  assume a: "validCalendarYear lastT" "0 \<le> lm_MaxFutureSkew l"
    "\<forall>r. F r = Inl (ReasonError ReasonTimestampInFuture ''last_measured_at'') \<and> in_future l r lastT \<or> F r = Inr (y r) \<and> \<not> in_future l r lastT"
  have "res_bind (F r) (\<lambda>x. Inr (g r x)) = Inl (ReasonError ReasonTimestampInFuture ''last_measured_at'') \<and> in_future l r lastT \<or>
      res_bind (F r) (\<lambda>x. Inr (g r x)) = Inr (g r (y r)) \<and> \<not> in_future l r lastT" for r
    using a(3) [rule_format, of r] by auto
  then show "(\<exists>e. permanent e \<and> (\<forall>r. res_bind (F r) (\<lambda>x. Inr (g r x)) = Inl e)) \<or>
     (\<exists>lastT y. validCalendarYear lastT \<and> 0 \<le> lm_MaxFutureSkew l \<and>
        (\<forall>r. (res_bind (F r) (\<lambda>x. Inr (g r x)) = Inl (ReasonError ReasonTimestampInFuture ''last_measured_at'') \<and> in_future l r lastT) \<or>
             (res_bind (F r) (\<lambda>x. Inr (g r x)) = Inr (y r) \<and> \<not> in_future l r lastT)))"
    using a(1,2) by (intro disjI2 exI [of _ lastT] exI [of _ "\<lambda>r. g r (y r)"]) blast
qed auto

lemma clock_gated_bind_permanent:
  assumes "fails_permanently m" and "\<And>x. m = Inr x \<Longrightarrow> clock_gated l (F x)"
  shows "clock_gated l (\<lambda>r. res_bind m (\<lambda>x. F x r))"
  using assms clock_gated_rules(1) by (cases m) (auto simp: fails_permanently_def)

lemma validateRange_gated: "clock_gated l (validateRange b l)"
  unfolding validateRange_def Let_def addTimestampSafe_def prod.case
  by (intro clock_gated_rules clock_gated_final) simp_all

lemma ParseTopic_error_permanent: "fails_permanently (ParseTopic topic)"
  by (auto simp: fails_permanently_def ParseTopic_def Let_def invalidTopicError_def split: if_splits)

lemma Limits_error_permanent: "Limits_Validate l = Some e \<Longrightarrow> permanent e"
  by (auto simp: Limits_Validate_def split: if_splits)

lemma Validate_gated: "clock_gated l (Validate U (Some l) topic payload)"
proof (cases "Limits_Validate l")
  case None
  show ?thesis
    unfolding Validate_def option.case None
    by (intro clock_gated_rules clock_gated_bind_permanent ParseTopic_error_permanent decodeBatch_error_permanent
        clock_gated_map validateRange_gated) simp_all
next
  case (Some e)
  have "Validate U (Some l) topic payload = (\<lambda>r. Inl e)" by (rule ext) (simp add: Validate_def Some)
  then show ?thesis using Limits_error_permanent [OF Some] by (simp add: clock_gated_rules(1))
qed

section \<open>Properties\<close>

text \<open>C12. What an accepted batch is. When the validator returns a message, the topic names the Gateway
  and Sensor of the batch, the message and boot identifiers are canonical, non-nil UUIDs of a
  supported version, the size and count limits hold, the samples are exactly the decoded values at
  indices 0, 1, ..., with consecutive sequence numbers and equally spaced times computed without
  wrap-around, the last one not beyond the allowed future skew, and the stored hash is the SHA-256
  of the bytes received.\<close>

theorem Validate_sound:
  assumes "Validate U (Some l) topic payload receivedAt = Inr m"
  defines "b \<equiv> msg_batch m"
  shows "\<exists>start. parseMeasuredAt (bd_MeasuredAt b) = Some start \<and>
      topic = telemetry_topic (bd_GatewayID b) (bd_SensorID b) \<and>
      ValidateGatewayID (bd_GatewayID b) \<and> ValidateSensorID (bd_SensorID b) \<and>
      valid_message_id U (bd_MessageID b) \<and> valid_boot_id U (bd_BootID b) \<and>
      int (length payload) \<le> lm_MaxPayloadBytes l \<and>
      0 < length (bd_Samples b) \<and> int (length (bd_Samples b)) = bd_SampleCount b \<and> bd_SampleCount b \<le> lm_MaxSamples l \<and>
      msg_samples m = map (exact_sample b start) [0..<length (bd_Samples b)] \<and>
      sc_SequenceNum (last (msg_samples m)) \<le> maxInt64 \<and>
      sc_MeasuredAt (last (msg_samples m)) \<le> receivedAt + lm_MaxFutureSkew l \<and>
      sc_MeasuredAt (last (msg_samples m)) - start \<le> lm_MaxBatchDuration l \<and>
      msg_rawPayload m = payload \<and> msg_payloadHash m = sha256_hex payload"
proof -
  obtain "message_wf U l m" "msg_rawPayload m = payload" "pt_SourceTopic (msg_topic m) = topic" "msg_receivedAt m = receivedAt"
    using Validate_wf [OF assms(1)] by blast
  note wf = this
  obtain start where rs: "range_spec b l receivedAt start"
      and s: "msg_samples m = map (exact_sample b start) [0..<length (bd_Samples b)]"
    using wf by (auto simp: message_wf_def b_def)
  have d: "decoded_ok U (msg_topic m) l b" using wf by (simp add: message_wf_def b_def)
  have n: "0 < length (bd_Samples b)" "int (length (bd_Samples b)) = bd_SampleCount b"
    using d unfolding decoded_ok_def by linarith+
  have top: "ParseTopic topic = Inr (msg_topic m)" using wf by (auto simp: message_wf_def)
  have topic: "topic = telemetry_topic (bd_GatewayID b) (bd_SensorID b)"
    using top d unfolding ParseTopic_ok_iff decoded_ok_def by auto
  have lst: "last (msg_samples m) = exact_sample b start (length (bd_Samples b) - 1)"
    using n by (simp add: s last_map)
  have "int (length (bd_Samples b) - 1) = bd_SampleCount b - 1" using n by linarith
  then have l: "sc_SequenceNum (last (msg_samples m)) = bd_FirstSequence b + (bd_SampleCount b - 1)"
      "sc_MeasuredAt (last (msg_samples m)) = start + (bd_SampleCount b - 1) * (bd_SampleIntervalUS b * 1000)"
    by (simp_all add: lst exact_sample_def)
  have "int (length payload) \<le> lm_MaxPayloadBytes l" "msg_payloadHash m = sha256_hex payload"
    using wf by (auto simp: message_wf_def)
  then show ?thesis using rs d n topic s wf(2) unfolding l
    by (intro exI [of _ start]) (auto simp: range_spec_def decoded_ok_def)
qed

theorem Validate_sound_witness:
  "msg_samples fx_message = map (exact_sample fx_batch fx_start) [0..<2] \<and> fx_payload \<noteq> []"
proof -
  have b: "msg_batch fx_message = fx_batch" "length (bd_Samples fx_batch) = 2"
      "parseMeasuredAt (bd_MeasuredAt fx_batch) = Some fx_start"
    using fx_measured_at by (simp_all add: fx_message_def fx_batch_def)
  then show ?thesis
    using Validate_sound [OF fx_Validate] by (auto simp: fx_payload_def json_object_def)
qed

text \<open>C13. The machine-integer checks mean what they say. On the field ranges the decoder delivers,
  the overflow-guarded 64-bit range checks accept a batch exactly when its last sequence number,
  its span and its last timestamp fit over the unbounded integers, and they return those exact
  bounds: no guard is defeated by wrap-around and no fitting batch is refused.\<close>

theorem validateRange_exact:
  assumes "in_i64 (bd_FirstSequence b)" and "bd_SampleCount b \<le> maxInt32"
  shows "validateRange b l receivedAt = Inr r \<longleftrightarrow>
    (\<exists>t. range_spec b l receivedAt t \<and>
       r = \<lparr>vr_FirstMeasuredAt = t,
            vr_LastMeasuredAt = t + (bd_SampleCount b - 1) * (bd_SampleIntervalUS b * 1000),
            vr_LastSequence = bd_FirstSequence b + (bd_SampleCount b - 1),
            vr_Interval = bd_SampleIntervalUS b * 1000\<rparr>)"
  by (rule validateRange_iff [OF assms])

theorem validateRange_exact_witness:
  "validateRange fx_batch fx_limits fx_start =
     Inr \<lparr>vr_FirstMeasuredAt = fx_start, vr_LastMeasuredAt = fx_start + 10000000, vr_LastSequence = 8, vr_Interval = 10000000\<rparr>"
proof -
  have "in_i64 (bd_FirstSequence fx_batch)" "bd_SampleCount fx_batch \<le> maxInt32"
    by (simp_all add: fx_batch_def int_bounds_defs)
  from validateRange_exact [OF this, of fx_limits fx_start] show ?thesis using fx_range by (auto simp: fx_batch_def)
qed

text \<open>C14. The verdict on a batch is final unless a clock is wrong. An error of the validator is
  classified either as a permanent input conflict, and then the same bytes are refused with the
  same error at every receipt time; or as a clock problem, and then the same bytes are accepted
  from some receipt time on.\<close>

theorem Validate_rejection_final:
  assumes "Validate U (Some l) topic payload receivedAt = Inl e"
  shows "(ClassifyFailure (Some e) = FailurePermanentInputConflict \<and> (\<forall>r. Validate U (Some l) topic payload r = Inl e)) \<or>
    (ClassifyFailure (Some e) = FailureCheckClock \<and> (\<exists>r0. \<forall>r \<ge> r0. \<exists>m. Validate U (Some l) topic payload r = Inr m))"
  using Validate_gated [of l U topic payload] unfolding clock_gated_def
proof (elim disjE exE conjE)
  fix e'
  assume "permanent e'" "\<forall>r. Validate U (Some l) topic payload r = Inl e'"
  then show ?thesis using assms by (auto simp: permanent_def)
next
  fix lastT y
  assume y: "validCalendarYear lastT" "0 \<le> lm_MaxFutureSkew l"
    "\<forall>r. Validate U (Some l) topic payload r = Inl (ReasonError ReasonTimestampInFuture ''last_measured_at'') \<and> in_future l r lastT \<or>
       Validate U (Some l) topic payload r = Inr (y r) \<and> \<not> in_future l r lastT"
  have "\<not> in_future l r lastT" if "lastT \<le> r" for r
    using y(1,2) that time_Year_ge_1 [of "r + lm_MaxFutureSkew l"]
    by (simp add: in_future_def Let_def validCalendarYear_iff not_less)
  then have "\<exists>r0. \<forall>r \<ge> r0. \<exists>m. Validate U (Some l) topic payload r = Inr m" using y(3) by blast
  moreover have "ClassifyFailure (Some e) = FailureCheckClock" 
    using y(3) [rule_format, of receivedAt] assms by (auto simp: ClassifyFailure_def)
  ultimately show ?thesis by blast
qed

theorem Validate_rejection_final_witness:
  "\<forall>r. Validate canonical_uuid (Some fx_limits) ''gateways/gw1'' ''{}'' r = Inl invalidTopicError"
proof -
  have "ParseTopic ''gateways/gw1'' = Inl invalidTopicError" by (simp add: ParseTopic_def Let_def)
  then have "Validate canonical_uuid (Some fx_limits) ''gateways/gw1'' ''{}'' fx_start = Inl invalidTopicError"
    by (simp add: Validate_def fx_limits_def Limits_Validate_def maxInt32_def)
  from Validate_rejection_final [OF this] show ?thesis by (simp add: ClassifyFailure_def invalidTopicError_def)
qed

text \<open>C16. Topics and identifiers. A topic is accepted exactly when it is
  \<open>gateways/<gateway>/telemetry/<sensor>\<close> with both identifiers on the allow-list, and the
  identifiers read are the ones written, so different Sensors never share a topic.\<close>

theorem ParseTopic_exact:
  "ParseTopic topic = Inr p \<longleftrightarrow>
     (\<exists>g s. ValidateGatewayID g \<and> ValidateSensorID s \<and> topic = telemetry_topic g s \<and>
       p = \<lparr>pt_SourceTopic = topic, pt_GatewayID = g, pt_SensorID = s\<rparr>)"
  by (rule ParseTopic_ok_iff)

text \<open>Timestamps keep their value. An accepted \<open>measured_at\<close> is a whole number of microseconds
  within the years 1 to 9999, and printing it with microsecond precision gives a text that is
  accepted again and denotes the same instant.\<close>

theorem parseMeasuredAt_roundtrip:
  assumes "parseMeasuredAt v = Some t"
  shows "1000 dvd t \<and> 0 \<le> t \<and> t < endOfYear9999 \<and> parseMeasuredAt (format_micro t) = Some t"
  using parseMeasuredAt_whole_micro [OF assms] parseMeasuredAt_year [OF assms] parseMeasuredAt_format_micro [of t] by auto

theorem parseMeasuredAt_roundtrip_witness: "parseMeasuredAt (format_micro fx_start) = Some fx_start"
  using parseMeasuredAt_roundtrip [OF fx_measured_at] by simp

text \<open>C15. Server and Gateway agree on acknowledgements. Whatever the server builds, the Gateway it is
  addressed to parses back to the same value; and any acknowledgement accepted on that topic, by
  whichever Gateway and with whatever payload, is for that Gateway and that message.\<close>

theorem ack_roundtrip_exclusive:
  assumes U: "uuid_text_ok U" and new: "NewCommitACK U g i out t = Inr (topic, a)"
  shows "ParseCommitACK U topic (marshalACK U a) g = Inr a \<and>
    (ValidateGatewayID g' \<and> ParseCommitACK U topic payload g' = Inr a' \<longrightarrow> g' = g \<and> ack_MessageID a' = i)"
  using ack_agreement [OF U new] ParseCommitACK_own [OF U new] by blast

theorem ack_roundtrip_exclusive_witness:
  "ParseCommitACK canonical_uuid (ack_topic canonical_uuid ''gw1'' fx_mid)
     (marshalACK canonical_uuid \<lparr>ack_ProtocolVersion = 1, ack_MessageType = ''telemetry_ack'', ack_MessageID = fx_mid,
       ack_Status = ''committed'', ack_CommittedAt = fx_start\<rparr>) ''gw1'' =
   Inr \<lparr>ack_ProtocolVersion = 1, ack_MessageType = ''telemetry_ack'', ack_MessageID = fx_mid,
       ack_Status = ''committed'', ack_CommittedAt = fx_start\<rparr>"
proof -
  have "NewCommitACK canonical_uuid ''gw1'' fx_mid CommitOutcomeCommitted fx_start =
    Inr (ack_topic canonical_uuid ''gw1'' fx_mid, \<lparr>ack_ProtocolVersion = 1, ack_MessageType = ''telemetry_ack'',
      ack_MessageID = fx_mid, ack_Status = ''committed'', ack_CommittedAt = fx_start\<rparr>)"
    using fx_ids(1) fx_names(1)
    by (auto simp: NewCommitACK_def valid_message_id_def fx_start_def endOfYear9999_def nsPerDay_def)
  from ack_roundtrip_exclusive [OF canonical_text_ok this] show ?thesis by blast
qed

end
