(* ===== verification/RepositoryContract.thy ===== *)
theory RepositoryContract
  imports Fixtures
begin

text \<open>
  The contract of \<open>telemetry.Repository\<close> (\<open>telemetry/repository.go\<close>) as its callers rely on it: a
  locale over any implementation, the facts a caller derives from it about whole sequences of
  calls, and its interpretation by the PostgreSQL repository. The properties at the end are the
  repository's, over the model's definitions.
\<close>

section \<open>The interface\<close>

locale message_store =
  fixes persist :: "'env \<Rightarrow> 'msg \<Rightarrow> 'db \<Rightarrow> ('err + 'res) \<times> 'db"
    and committed :: "'db \<Rightarrow> 'msg \<Rightarrow> bool"
    and inv :: "'db \<Rightarrow> bool"
    and valid :: "'msg \<Rightarrow> bool"
    and unconfirmed :: "'err \<Rightarrow> bool"
  assumes persist_inv: "valid m \<Longrightarrow> inv d \<Longrightarrow> inv (snd (persist env m d))"
    and persist_ok: "valid m \<Longrightarrow> persist env m d = (Inr r, d') \<Longrightarrow> committed d' m"
    and persist_stable: "valid m' \<Longrightarrow> committed d m \<Longrightarrow> committed (snd (persist env m' d)) m"
    and persist_only: "valid m' \<Longrightarrow> committed (snd (persist env m' d)) m \<Longrightarrow> committed d m \<or> committed (snd (persist env m' d)) m'"
    and persist_failed: "persist env m d = (Inl e, d') \<Longrightarrow> \<not> unconfirmed e \<Longrightarrow> d' = d"
begin

text \<open>Any sequence of calls, each with its own behaviour of the database.\<close>

fun run :: "('env \<times> 'msg) list \<Rightarrow> 'db \<Rightarrow> 'db" where
  "run [] d = d"
| "run ((env, m) # calls) d = run calls (snd (persist env m d))"

lemma run_append: "run (xs @ ys) d = run ys (run xs d)"
  by (induction xs d rule: run.induct) simp_all

lemma run_inv: "inv d \<Longrightarrow> \<forall>c \<in> set calls. valid (snd c) \<Longrightarrow> inv (run calls d)"
  by (induction calls d rule: run.induct) (simp_all add: persist_inv)

lemma run_stable: "committed d m \<Longrightarrow> \<forall>c \<in> set calls. valid (snd c) \<Longrightarrow> committed (run calls d) m"
  by (induction calls d rule: run.induct) (simp_all add: persist_stable)

text \<open>A confirmed message stays committed whatever calls follow.\<close>

lemma confirmed_forever:
  assumes "valid m" and "persist env m d = (Inr r, d')" and "\<forall>c \<in> set calls. valid (snd c)"
  shows "committed (run calls d') m"
  using run_stable [OF persist_ok [OF assms(1,2)] assms(3)] .

end

section \<open>The PostgreSQL repository implements it\<close>

definition ledger_has :: "db \<Rightarrow> Message \<Rightarrow> bool" where
  "ledger_has d m \<longleftrightarrow> (case ledgerMetadata (Some m) of Inl _ \<Rightarrow> False | Inr e \<Rightarrow> ledger_row e \<in> set (db_processed d))"

definition validated :: "uuid_pkg \<Rightarrow> Message \<Rightarrow> bool" where
  "validated U m \<longleftrightarrow> (\<exists>l. message_wf U l m)"

definition commit_unconfirmed :: "go_error \<Rightarrow> bool" where
  "commit_unconfirmed e \<longleftrightarrow> reason_of e = Some ReasonCommitUnconfirmed"

lemma validated_metadata: "validated U m \<Longrightarrow> \<exists>e. ledgerMetadata (Some m) = Inr e"
  using message_wf_metadata unfolding validated_def by metis

lemma Persist_failed_unchanged:
  assumes "Persist U env (Some m) d = (Inl e, d')" and "\<not> commit_unconfirmed e"
  shows "d' = d"
  using assms(1) by (cases rule: Persist_cases) (use assms(2) in \<open>simp_all add: commit_unconfirmed_def\<close>)

text \<open>What a finished transaction did: nothing for a duplicate, everything for a new message.\<close>

lemma Persist_outcome:
  assumes "transaction U env (Some m) e d = Inr (r, d')" and "ledgerMetadata (Some m) = Inr e"
  shows "if pr_Outcome r = CommitOutcomeDuplicateCommitted then d' = d \<and> ledger_row e \<in> set (db_processed d)
    else pr_Outcome r = CommitOutcomeCommitted \<and> (\<exists>resource. d' = committed_db U env resource e m d)"
  using transaction_duplicate(1,2) [OF assms] transaction_committed [OF assms] by (metis (full_types) PersistResult.select_convs(2))

interpretation pg: message_store "\<lambda>env m. Persist U env (Some m)" ledger_has store_inv "validated U" commit_unconfirmed
  for U :: uuid_pkg
proof (unfold_locales, goal_cases)
  case (1 m d env)
  then show ?case using Persist_store_inv by (auto simp: validated_def)
next
  case (2 m env d r d')
  then show ?case using validated_metadata [OF 2(1)] Persist_ledger(3) by (fastforce simp: ledger_has_def)
next
  case (3 m' d m env)
  obtain res d' where P: "Persist U env (Some m') d = (res, d')" by fastforce
  obtain e' where "ledgerMetadata (Some m') = Inr e'" using validated_metadata [OF 3(1)] by blast
  then show ?case using 3(2) Persist_ledger(1) [OF P] P by (auto simp: ledger_has_def split: sum.splits)
next
  case (4 m' env d m)
  obtain res d' where P: "Persist U env (Some m') d = (res, d')" by fastforce
  obtain e' where e': "ledgerMetadata (Some m') = Inr e'" using validated_metadata [OF 4(1)] by blast
  show ?case
    using 4(2) Persist_ledger(2) [OF P e'] P e' by (auto simp: ledger_has_def split: sum.splits)
next
  case (5 env m d e d')
  then show ?case by (rule Persist_failed_unchanged)
qed

section \<open>Properties\<close>

text \<open>C2. Exactly-once persistence. Start from tables that satisfy the invariant and run any sequence
  of \<open>Persist\<close> calls of validated messages, resends included, where in each call the database may
  fail at any statement and may apply or drop a commit it reports as failed. Afterwards no message
  key and no sequence number of a Sensor boot is stored twice, and every ledger row has exactly the
  raw samples of its sequence range, in order.\<close>

theorem exactly_once:
  assumes "store_inv d" and "\<forall>c \<in> set calls. validated U (snd c)"
  defines "d' \<equiv> fold (\<lambda>(env, m) d. snd (Persist U env (Some m) d)) calls d"
  shows "distinct (map pm_key (db_processed d')) \<and>
    distinct (map sample_slot (provenance_rows d')) \<and>
    (\<forall>r \<in> set (db_processed d'). \<forall>f l. pm_first_sequence r = Some f \<longrightarrow> pm_last_sequence r = Some l \<longrightarrow>
       map tr_sequence_num (message_rows d' (pm_key r)) = [f..l])"
proof -
  have "fold (\<lambda>(env, m) d. snd (Persist U env (Some m) d)) calls d = pg.run U calls d" for d
    by (induction calls arbitrary: d) auto
  then have "store_inv d'" unfolding d'_def using pg.run_inv [OF assms(1,2)] by simp
  then show ?thesis by (simp add: store_inv_def samples_complete_def)
qed

theorem exactly_once_witness:
  "let d' = fold (\<lambda>(env, m) d. snd (Persist canonical_uuid env (Some m) d)) [(fx_env, fx_message), (fx_env, fx_message)] fx_db
   in distinct (map pm_key (db_processed d')) \<and> distinct (map sample_slot (provenance_rows d'))"
proof -
  have "validated canonical_uuid fx_message" using fx_message_wf by (auto simp: validated_def)
  then show ?thesis
    using exactly_once [OF fx_store_inv, of "[(fx_env, fx_message), (fx_env, fx_message)]" canonical_uuid]
    by (simp add: Let_def)
qed

text \<open>C4. Atomicity. However a call ends, the tables afterwards are either exactly those before it or
  exactly those of the complete transaction: ledger row, raw samples, reported state and temporal row
  together. An error that does not say that the commit is unconfirmed leaves every table as it was. A
  success means that the message's ledger row is stored: the answer \<open>committed\<close> has written the complete
  transaction, and the answer \<open>duplicate\<close> nothing.\<close>

theorem Persist_atomic:
  assumes "Persist U env (Some m) d = (res, d')"
  shows "(d' = d \<or> (\<exists>resource meta. ledgerMetadata (Some m) = Inr meta \<and> d' = committed_db U env resource meta m d)) \<and>
    (\<forall>e. res = Inl e \<and> \<not> commit_unconfirmed e \<longrightarrow> d' = d) \<and>
    (\<forall>r. res = Inr r \<longrightarrow> ledger_has d' m \<and>
       (if pr_Outcome r = CommitOutcomeDuplicateCommitted then d' = d
        else pr_Outcome r = CommitOutcomeCommitted \<and>
          (\<exists>resource meta. ledgerMetadata (Some m) = Inr meta \<and> d' = committed_db U env resource meta m d)))"
  using assms
proof (cases rule: Persist_cases)
  case (failed err)
  then show ?thesis by simp
next
  case (returned meta r)
  note out = Persist_outcome [OF returned(2,1)]
  have "ledger_has d' m" using out returned(1) by (auto simp: ledger_has_def committed_db_def split: if_splits)
  then show ?thesis using out returned(1,3) by (auto split: if_splits)
next
  case (unconfirmed meta r d1 err)
  then show ?thesis using Persist_outcome [OF unconfirmed(2,1)] by (auto simp: commit_unconfirmed_def split: if_splits)
qed

theorem Persist_atomic_witness:
  "\<exists>e. Persist canonical_uuid (fx_env\<lparr>fault := (\<lambda>c. if c = DbBegin then Some (OpaqueError ''down'') else None)\<rparr>)
      (Some fx_message) fx_db = (Inl e, fx_db) \<and> \<not> commit_unconfirmed e"
proof -
  let ?env = "fx_env\<lparr>fault := (\<lambda>c. if c = DbBegin then Some (OpaqueError ''down'') else None)\<rparr>"
  let ?e = "dependencyError ''begin telemetry transaction'' (OpaqueError ''down'')"
  have "Persist canonical_uuid ?env (Some fx_message) fx_db = (Inl ?e, fx_db)"
    using fx_metadata by (simp add: Persist_def fx_env_def)
  moreover have "\<not> commit_unconfirmed ?e" by (simp add: commit_unconfirmed_def)
  ultimately show ?thesis using Persist_atomic [of canonical_uuid ?env fx_message fx_db "Inl ?e" fx_db] by blast
qed

lemma Persist_identity:
  assumes "Persist U env (Some m) d = (Inr r, d')" and e: "ledgerMetadata (Some m) = Inr e"
  shows "pr_Identity r = \<lparr>mi_GatewayID = pt_GatewayID (msg_topic m), mi_SensorID = pt_SensorID (msg_topic m),
     mi_BootID = lg_bootID e, mi_MessageID = lg_messageID e\<rparr>"
  using assms(1)
proof (cases rule: Persist_cases)
  case (returned e' r')
  then show ?thesis
    using e resolve_ok(5,6) by (auto simp: transaction_def Let_def split: if_splits)
qed simp_all

text \<open>C5. Durability and recognition of resends. Once \<open>Persist\<close> has returned success for a message,
  then after any later calls (any messages, any faults) a call with the same message that reaches
  the database answers \<open>duplicate committed\<close> with the same identity and writes nothing.\<close>

theorem resend_recognised:
  assumes m: "validated U m" and inv: "store_inv d" and ok: "Persist U env (Some m) d = (Inr r, d1)"
    and calls: "\<forall>c \<in> set calls. validated U (snd c)"
    and d2: "d2 = fold (\<lambda>(env, m) d. snd (Persist U env (Some m) d)) calls d1"
    and env: "healthy env'" and res: "resolveTelemetryResource env' d2 (Some m) = Inr resource"
  shows "\<exists>r'. Persist U env' (Some m) d2 = (Inr r', d2) \<and> pr_Outcome r' = CommitOutcomeDuplicateCommitted \<and>
    pr_Identity r' = pr_Identity r"
proof -
  have run: "fold (\<lambda>(env, m) d. snd (Persist U env (Some m) d)) calls d = pg.run U calls d" for d
    by (induction calls arbitrary: d) auto
  obtain l where wf: "message_wf U l m" using m by (auto simp: validated_def)
  obtain e where e: "ledgerMetadata (Some m) = Inr e" using validated_metadata [OF m] by blast
  have "store_inv d1" using pg.persist_inv [OF m inv, of env] ok by simp
  then have "store_inv d2" unfolding d2 run using pg.run_inv calls by blast
  moreover have "ledger_has d2 m" unfolding d2 run using pg.confirmed_forever [OF m ok calls] .
  ultimately have P: "Persist U env' (Some m) d2 = (Inr \<lparr>pr_Identity = \<lparr>mi_GatewayID = rr_GatewayID resource,
      mi_SensorID = rr_SensorID resource, mi_BootID = lg_bootID e, mi_MessageID = lg_messageID e\<rparr>,
      pr_Outcome = CommitOutcomeDuplicateCommitted, pr_SamplesSaved = 0\<rparr>, d2)"
    using Persist_duplicate [OF wf _ env res e] e by (simp add: ledger_has_def)
  show ?thesis using Persist_identity [OF P e] Persist_identity [OF ok e] P by simp
qed

lemma fx_resolve_after:
  "resolveTelemetryResource fx_env (committed_db canonical_uuid fx_env fx_resource (metadata_of fx_message fx_start) fx_message fx_db)
     (Some fx_message) = Inr fx_resource"
  by (rule fx_resolve_gen [OF fx_healthy])
     (auto simp: committed_db_def next_states_def fx_resource_def fx_db_def)

theorem resend_recognised_witness:
  "\<exists>r r' d1. Persist canonical_uuid fx_env (Some fx_message) fx_db = (Inr r, d1) \<and>
     pr_Outcome r = CommitOutcomeCommitted \<and> Persist canonical_uuid fx_env (Some fx_message) d1 = (Inr r', d1) \<and>
     pr_Outcome r' = CommitOutcomeDuplicateCommitted \<and> pr_Identity r' = pr_Identity r"
proof -
  have v: "validated canonical_uuid fx_message" using fx_message_wf by (auto simp: validated_def)
  show ?thesis
    using resend_recognised [OF v fx_store_inv fx_commit _ refl fx_healthy, of "[]"] fx_resolve_after
    by (auto simp: fx_commit)
qed

text \<open>A retry resolves an unconfirmed commit. Take a validated message whose key is not in the ledger and
  whose sequence range overlaps no stored one, and any first call for it, whatever its outcome. A second
  call on the tables the first one left, with a database that answers every statement, a Sensor whose
  Twin graph resolves and a state version that can still be increased, returns success, and the message
  is then in the ledger: the retry commits it if the first attempt was not applied, and otherwise
  answers \<open>duplicate\<close> and writes nothing.\<close>

theorem retry_resolves:
  assumes m: "validated U m" and inv: "store_inv d" and P: "Persist U env (Some m) d = (res, d1)"
    and e: "ledgerMetadata (Some m) = Inr e" and free: "ledger_free d e"
    and env: "healthy env'" and rs: "resolveTelemetryResource env' d1 (Some m) = Inr resource"
    and ver: "version_free d1 (rr_EntityID resource)"
  shows "\<exists>r d2. Persist U env' (Some m) d1 = (Inr r, d2) \<and> store_inv d2 \<and> ledger_has d2 m \<and>
    (if ledger_has d1 m then d2 = d1 \<and> pr_Outcome r = CommitOutcomeDuplicateCommitted
     else pr_Outcome r = CommitOutcomeCommitted)"
proof -
  obtain l where wf: "message_wf U l m" using m by (auto simp: validated_def)
  have inv1: "store_inv d1" using pg.persist_inv [OF m inv, of env] P by simp
  have free1: "ledger_free d1 e" if "\<not> ledger_has d1 m"
  proof -
    have "set (db_processed d1) = set (db_processed d)"
      using Persist_ledger(1,2) [OF P e] that e by (auto simp: ledger_has_def)
    then show ?thesis using free by (simp add: ledger_free_def list_ex_iff)
  qed
  have "\<exists>r d2. Persist U env' (Some m) d1 = (Inr r, d2) \<and>
    (if ledger_has d1 m then d2 = d1 \<and> pr_Outcome r = CommitOutcomeDuplicateCommitted
     else pr_Outcome r = CommitOutcomeCommitted)"
  proof (cases "ledger_has d1 m")
    case True
    then show ?thesis using Persist_duplicate [OF wf inv1 env rs e] e by (simp add: ledger_has_def)
  next
    case False
    then show ?thesis using Persist_commits [OF wf inv1 env rs e free1 ver] by simp
  qed
  then show ?thesis using pg.persist_ok [OF m] pg.persist_inv [OF m inv1, of env'] by (metis snd_conv)
qed

theorem retry_resolves_witness:
  "\<exists>r d2. Persist canonical_uuid fx_env (Some fx_message) fx_db = (Inr r, d2) \<and> ledger_has d2 fx_message"
proof -
  let ?env = "fx_env\<lparr>fault := (\<lambda>c. if c = DbBegin then Some (OpaqueError ''down'') else None)\<rparr>"
  have v: "validated canonical_uuid fx_message" using fx_message_wf by (auto simp: validated_def)
  have "Persist canonical_uuid ?env (Some fx_message) fx_db =
      (Inl (dependencyError ''begin telemetry transaction'' (OpaqueError ''down'')), fx_db)"
    using fx_metadata by (simp add: Persist_def fx_env_def)
  from retry_resolves [OF v fx_store_inv this fx_metadata fx_free fx_healthy fx_resolve fx_version]
  show ?thesis by blast
qed

end
