(* ===== verification/RepositoryRefinement.thy ===== *)
theory RepositoryRefinement
  imports RepositoryContract
begin

text \<open>
  The ledger's abstract specification, a map from message keys to provenance, and the proof that
  \<open>Persist\<close> implements it on every branch; then what a commit writes and how a Sensor's reported
  state may change.
\<close>

section \<open>Abstract specification\<close>

type_synonym ledger = "string \<times> uuid \<rightharpoonup> processed_message"

datatype verdict = Fresh | AlreadyThere | Rejected ReasonCode

definition ranges_meet :: "processed_message \<Rightarrow> processed_message \<Rightarrow> bool" where
  "ranges_meet r1 r2 \<longleftrightarrow>
     (case (pm_first_sequence r1, pm_last_sequence r1, pm_first_sequence r2, pm_last_sequence r2) of
        (Some f1, Some l1, Some f2, Some l2) \<Rightarrow> f1 \<le> l2 \<and> f2 \<le> l1
      | _ \<Rightarrow> False)"

definition range_taken :: "ledger \<Rightarrow> processed_message \<Rightarrow> bool" where
  "range_taken L row \<longleftrightarrow> (\<exists>r \<in> ran L. same_stream r row \<and> ranges_meet r row)"

definition submit :: "ledger \<Rightarrow> processed_message \<Rightarrow> verdict" where
  "submit L row =
     (case L (pm_key row) of
        Some r \<Rightarrow>
          if r = row then AlreadyThere
          else if provenance_check r then Rejected ReasonMessageConflict
          else Rejected ReasonLegacyProvenanceUnknown
      | None \<Rightarrow> if range_taken L row then Rejected ReasonSequenceOverlap else Fresh)"

definition abs_ledger :: "db \<Rightarrow> ledger" where
  "abs_ledger d = map_of (map (\<lambda>r. (pm_key r, r)) (db_processed d))"

text \<open>\<open>first_sequence\<close> and \<open>last_sequence\<close> are \<open>BIGINT\<close> columns.\<close>

definition bigint_columns :: "db \<Rightarrow> bool" where
  "bigint_columns d \<longleftrightarrow> (\<forall>r \<in> set (db_processed d). \<forall>v. pm_last_sequence r = Some v \<longrightarrow> in_i64 v)"

lemma abs_ledger_Some:
  assumes "distinct (map pm_key (db_processed d))"
  shows "abs_ledger d k = Some r \<longleftrightarrow> r \<in> set (db_processed d) \<and> pm_key r = k"
proof -
  have "distinct (map fst (map (\<lambda>r. (pm_key r, r)) (db_processed d)))" using assms by (simp add: comp_def)
  then show ?thesis by (auto simp: abs_ledger_def map_of_eq_Some_iff)
qed

lemma abs_ledger_None: "abs_ledger d k = None \<longleftrightarrow> k \<notin> set (map pm_key (db_processed d))"
  by (auto simp: abs_ledger_def map_of_eq_None_iff image_iff)

lemma ran_abs_ledger: "distinct (map pm_key (db_processed d)) \<Longrightarrow> ran (abs_ledger d) = set (db_processed d)"
  using abs_ledger_Some by (fastforce simp: ran_def)

lemma abs_ledger_append:
  assumes "pm_key row \<notin> set (map pm_key (db_processed d))" and "db_processed d' = db_processed d @ [row]"
  shows "abs_ledger d' = (abs_ledger d)(pm_key row \<mapsto> row)"
proof -
  have "abs_ledger d (pm_key row) = None" using assms(1) by (simp only: abs_ledger_None not_False_eq_True)
  then have "dom [pm_key row \<mapsto> row] \<inter> dom (abs_ledger d) = {}" by auto
  then have "[pm_key row \<mapsto> row] ++ abs_ledger d = abs_ledger d ++ [pm_key row \<mapsto> row]" by (rule map_add_comm)
  moreover have "abs_ledger d' = [pm_key row \<mapsto> row] ++ abs_ledger d" by (simp add: abs_ledger_def assms(2))
  ultimately show ?thesis by simp
qed

lemma range_taken_iff:
  assumes dist: "distinct (map pm_key (db_processed d))" and fresh: "pm_key row \<notin> set (map pm_key (db_processed d))"
    and row: "pm_sensor_id row = Some s" "pm_boot_id row = Some b" "pm_first_sequence row = Some f" "pm_last_sequence row = Some l"
  shows "range_taken (abs_ledger d) row \<longleftrightarrow>
    list_ex (overlapping (pm_gateway_id row) s b f l (pm_message_id row)) (db_processed d)"
proof -
  have "pm_message_id r \<noteq> pm_message_id row" if "r \<in> set (db_processed d)" "pm_gateway_id r = pm_gateway_id row" for r
    using that fresh by (auto simp: pm_key_def image_iff)
  then have "overlapping (pm_gateway_id row) s b f l (pm_message_id row) r \<longleftrightarrow> same_stream r row \<and> ranges_meet r row"
    if "r \<in> set (db_processed d)" for r
    using row that by (auto simp: overlapping_def same_stream_def ranges_meet_def split: option.splits)
  then show ?thesis by (auto simp: range_taken_def ran_abs_ledger [OF dist] list_ex_iff)
qed

text \<open>How the code compares a stored row with the message, against the specification.\<close>

lemma classifyStored_spec:
  assumes key: "pm_key r = pm_key (ledger_row e)" and col: "\<And>v. pm_last_sequence r = Some v \<Longrightarrow> in_i64 v"
    and prov: "provenance_check (ledger_row e)"
  shows "case classifyStored e r of
      Inr disp \<Rightarrow> disp = ledgerDispositionDuplicate \<and> r = ledger_row e
    | Inl err \<Rightarrow> r \<noteq> ledger_row e \<and>
        reason_of err = Some (if provenance_check r then ReasonMessageConflict else ReasonLegacyProvenanceUnknown)"
proof (cases "classifyStored e r")
  case (Inr disp)
  then show ?thesis using classifyStored_duplicate [OF Inr key] by simp
next
  case (Inl err)
  have "r \<noteq> ledger_row e"
  proof
    assume r: "r = ledger_row e"
    have "in_i64 (sc_SequenceNum (lg_lastSample e))" using col by (simp add: r ledger_row_def)
    then show False using classifyStored_self [OF prov] Inl r by simp
  qed
  moreover have "reason_of err = Some (if provenance_check r then ReasonMessageConflict else ReasonLegacyProvenanceUnknown)"
  proof -
    have w: "i64 (l - f) = l - f" if "pm_last_sequence r = Some l" "0 \<le> f" "f \<le> l" for f l
      using col [OF that(1)] that by (intro i64_id) (auto simp: int_bounds_defs)
    show ?thesis
      using Inl by (auto simp: classifyStored_def provenance_check_def w split: option.splits if_splits) (metis w)
  qed
  ultimately show ?thesis using Inl by simp
qed

section \<open>Refinement\<close>

text \<open>C6. Refinement of the abstract ledger. For a validated message whose Sensor is provisioned, with a
  database that does not fail, \<open>Persist\<close> does exactly what the specification \<open>submit\<close> says: a fresh
  message commits and is added to the ledger map, a resend is confirmed, and a reused identifier, an
  occupied sequence range or a row of unknown provenance is rejected with its reason, leaving all
  tables as they were.\<close>

theorem Persist_refines_submit:
  assumes m: "validated U m" and inv: "store_inv d" and cols: "bigint_columns d" and env: "healthy env"
    and rs: "resolveTelemetryResource env d (Some m) = Inr resource" and ver: "version_free d (rr_EntityID resource)"
    and e: "ledgerMetadata (Some m) = Inr e" and P: "Persist U env (Some m) d = (res, d')"
  shows "case submit (abs_ledger d) (ledger_row e) of
      Fresh \<Rightarrow> (\<exists>r. res = Inr r \<and> pr_Outcome r = CommitOutcomeCommitted) \<and>
        abs_ledger d' = (abs_ledger d)(pm_key (ledger_row e) \<mapsto> ledger_row e)
    | AlreadyThere \<Rightarrow> (\<exists>r. res = Inr r \<and> pr_Outcome r = CommitOutcomeDuplicateCommitted) \<and> d' = d
    | Rejected c \<Rightarrow> (\<exists>err. res = Inl err \<and> reason_of err = Some c) \<and> d' = d"
proof -
  obtain l where wf: "message_wf U l m" using m by (auto simp: validated_def)
  have dist: "distinct (map pm_key (db_processed d))" using inv by (simp add: store_inv_def)
  note prov = provenance_check_wf [OF wf e]
  have topic: "lg_topic e = msg_topic m" using e by (auto simp: ledgerMetadata_def Let_def split: option.splits if_splits)
  have gw: "pm_gateway_id (ledger_row e) \<in> set (db_gateways d)" using resolve_ok(1) [OF rs] by (simp add: ledger_row_def topic)
  note open_insert = insertTelemetryLedger_def e Let_def
  show ?thesis
  proof (cases "abs_ledger d (pm_key (ledger_row e))")
    case None
    then have fresh: "pm_key (ledger_row e) \<notin> set (map pm_key (db_processed d))" using abs_ledger_None [of d "pm_key (ledger_row e)"] by blast
    have taken: "range_taken (abs_ledger d) (ledger_row e) \<longleftrightarrow> \<not> ledger_free d e"
      using range_taken_iff [OF dist fresh] fresh by (simp add: ledger_free_def) (simp add: ledger_row_def)
    show ?thesis
    proof (cases "ledger_free d e")
      case True
      then show ?thesis
        using None taken Persist_commits [OF wf inv env rs e True ver] P abs_ledger_append [OF fresh, of d']
        by (simp add: submit_def committed_db_def)
    next
      case False
      then have "insertTelemetryLedger env (Some m) d = Inl (ReasonError ReasonSequenceOverlap ''sequence_range'')"
        using env fresh gw prov by (simp add: open_insert ledger_free_def)
      then show ?thesis
        using None taken False P env e rs by (auto simp: submit_def Persist_def transaction_def)
    qed
  next
    case (Some r)
    then have r: "r \<in> set (db_processed d)" "pm_key r = pm_key (ledger_row e)" using abs_ledger_Some [OF dist] by auto
    have found: "find (\<lambda>q. pm_key q = pm_key (ledger_row e)) (db_processed d) = Some r"
      using find_unique_key [OF dist r(1)] r(2) by simp
    have "pm_key (ledger_row e) \<in> set (map pm_key (db_processed d))" using r by (metis image_eqI set_map)
    then have ins: "insertTelemetryLedger env (Some m) d = res_bind (classifyStored e r) (\<lambda>disposition. Inr (disposition, d))"
      using env gw prov found by (simp add: open_insert)
    have spec: "case classifyStored e r of Inr disp \<Rightarrow> disp = ledgerDispositionDuplicate \<and> r = ledger_row e
        | Inl err \<Rightarrow> r \<noteq> ledger_row e \<and>
            reason_of err = Some (if provenance_check r then ReasonMessageConflict else ReasonLegacyProvenanceUnknown)"
      using classifyStored_spec [OF r(2) _ prov(1)] cols r(1) by (auto simp: bigint_columns_def)
    show ?thesis
      using P env e rs ins spec Some
      by (cases "classifyStored e r") (auto simp: submit_def Persist_def transaction_def commitTelemetry_def Let_def)
  qed
qed

theorem Persist_refines_submit_witness:
  "submit (abs_ledger fx_db) (ledger_row (metadata_of fx_message fx_start)) = Fresh \<and>
   (\<exists>r d'. Persist canonical_uuid fx_env (Some fx_message) fx_db = (Inr r, d') \<and>
     abs_ledger d' = [(''gw1'', fx_mid) \<mapsto> ledger_row (metadata_of fx_message fx_start)])"
proof -
  have v: "validated canonical_uuid fx_message" using fx_message_wf by (auto simp: validated_def)
  have s: "submit (abs_ledger fx_db) (ledger_row (metadata_of fx_message fx_start)) = Fresh"
    by (simp add: submit_def abs_ledger_def fx_db_def range_taken_def)
  have "bigint_columns fx_db" by (simp add: bigint_columns_def fx_db_def)
  from Persist_refines_submit [OF v fx_store_inv this fx_healthy fx_resolve fx_version fx_metadata fx_commit] s
  have a: "abs_ledger (committed_db canonical_uuid fx_env fx_resource (metadata_of fx_message fx_start) fx_message fx_db) =
      (abs_ledger fx_db)(pm_key (ledger_row (metadata_of fx_message fx_start)) \<mapsto> ledger_row (metadata_of fx_message fx_start))"
    by simp
  have "pm_key (ledger_row (metadata_of fx_message fx_start)) = (''gw1'', fx_mid)"
    by (simp add: pm_key_def ledger_row_def metadata_of_def fx_message_def fx_topic_def fx_batch_def Let_def)
  moreover have "abs_ledger fx_db = Map.empty" by (simp add: abs_ledger_def fx_db_def)
  ultimately show ?thesis using s fx_commit a by auto
qed

section \<open>What a commit writes\<close>

text \<open>C7. Nothing is lost in storage. A call that returns \<open>committed\<close> for a validated message has appended
  exactly one ledger row with the identity, topic, payload hash, sequence range and sample count of the
  message; one raw row per sample whose time is exactly \<open>start + i * interval\<close> although the column keeps
  only microseconds, whose sequence number is \<open>first + i\<close> and whose value is the i-th value of the batch;
  and one temporal row at the time of the last sample whose double precision value is exactly the sample
  interval.\<close>

theorem commit_writes_exactly:
  assumes m: "validated U m" and P: "Persist U env (Some m) d = (Inr r, d')"
    and new: "pr_Outcome r = CommitOutcomeCommitted"
  shows "\<exists>start. parseMeasuredAt (bd_MeasuredAt (msg_batch m)) = Some start \<and>
    db_processed d' = db_processed d @ [\<lparr>
      pm_gateway_id = bd_GatewayID (msg_batch m), pm_message_id = bd_MessageID (msg_batch m), pm_payload_hash = sha256_hex (msg_rawPayload m),
      pm_source_topic = Some (telemetry_topic (bd_GatewayID (msg_batch m)) (bd_SensorID (msg_batch m))),
      pm_sensor_id = Some (bd_SensorID (msg_batch m)), pm_boot_id = Some (bd_BootID (msg_batch m)),
      pm_first_sequence = Some (bd_FirstSequence (msg_batch m)),
      pm_last_sequence = Some (bd_FirstSequence (msg_batch m) + int (length (bd_Samples (msg_batch m))) - 1),
      pm_sample_count = Some (int (length (bd_Samples (msg_batch m))))\<rparr>] \<and>
    db_telemetry d' = db_telemetry d @ map (\<lambda>i. \<lparr>
      tr_measured_at = start + int i * (bd_SampleIntervalUS (msg_batch m) * 1000),
      tr_gateway_id = bd_GatewayID (msg_batch m), tr_sensor_id = bd_SensorID (msg_batch m),
      tr_sequence_num = bd_FirstSequence (msg_batch m) + int i, tr_value = bd_Samples (msg_batch m) ! i,
      tr_boot_id = Some (bd_BootID (msg_batch m)), tr_message_id = Some (bd_MessageID (msg_batch m)),
      tr_sample_index = Some (int i)\<rparr>) [0..<length (bd_Samples (msg_batch m))] \<and>
    (\<exists>tv. db_temporal d' = db_temporal d @ [tv] \<and> tv_property_name tv = ''sample_interval_us'' \<and>
       tv_value_number tv = Some (of_int (bd_SampleIntervalUS (msg_batch m))) \<and>
       tv_observed_at tv = start + int (length (bd_Samples (msg_batch m)) - 1) * (bd_SampleIntervalUS (msg_batch m) * 1000) \<and>
       tv_message_id tv = Some (bd_MessageID (msg_batch m)))"
proof -
  obtain l where wf: "message_wf U l m" using m by (auto simp: validated_def)
  obtain start where c: "parseMeasuredAt (bd_MeasuredAt (msg_batch m)) = Some start"
      "map telemetryCopyRow (msg_samples m) = map (\<lambda>i. \<lparr>
      tr_measured_at = start + int i * (bd_SampleIntervalUS (msg_batch m) * 1000),
      tr_gateway_id = bd_GatewayID (msg_batch m), tr_sensor_id = bd_SensorID (msg_batch m),
      tr_sequence_num = bd_FirstSequence (msg_batch m) + int i, tr_value = bd_Samples (msg_batch m) ! i,
      tr_boot_id = Some (bd_BootID (msg_batch m)), tr_message_id = Some (bd_MessageID (msg_batch m)),
      tr_sample_index = Some (int i)\<rparr>) [0..<length (bd_Samples (msg_batch m))]"
    using committed_rows [OF wf] by blast
  obtain e where e: "ledgerMetadata (Some m) = Inr e" and t: "transaction U env (Some m) e d = Inr (r, d')"
    using P by (cases rule: Persist_cases) auto
  obtain resource where d': "d' = committed_db U env resource e m d"
      and iv: "0 < bd_SampleIntervalUS (msg_batch m)" "bd_SampleIntervalUS (msg_batch m) \<le> maxExactFloat64Integer"
    using transaction_committed [OF t e] new by (metis CommitOutcome.distinct(5))
  obtain start' where w: "e = metadata_of m start'" "range_spec (msg_batch m) l (msg_receivedAt m) start'"
      "decoded_ok U (msg_topic m) l (msg_batch m)" "0 < length (bd_Samples (msg_batch m))"
    using message_wf_metadata [OF wf] e by (metis sum.inject(2))
  have s: "start' = start" using w(2) c(1) by (simp add: range_spec_def)
  have micro: "1000 dvd sc_MeasuredAt (lg_lastSample e)" using exact_sample_whole_micro [OF w(2)] by (simp add: w(1) metadata_of_def Let_def)
  have topic: "pt_SourceTopic (msg_topic m) = telemetry_topic (bd_GatewayID (msg_batch m)) (bd_SensorID (msg_batch m))"
      "pt_GatewayID (msg_topic m) = bd_GatewayID (msg_batch m)" "pt_SensorID (msg_topic m) = bd_SensorID (msg_batch m)"
      "msg_payloadHash m = sha256_hex (msg_rawPayload m)"
    using wf w(3) by (auto simp: message_wf_def decoded_ok_def ParseTopic_ok_iff)
  have "ledger_row e = \<lparr>
      pm_gateway_id = bd_GatewayID (msg_batch m), pm_message_id = bd_MessageID (msg_batch m), pm_payload_hash = sha256_hex (msg_rawPayload m),
      pm_source_topic = Some (telemetry_topic (bd_GatewayID (msg_batch m)) (bd_SensorID (msg_batch m))),
      pm_sensor_id = Some (bd_SensorID (msg_batch m)), pm_boot_id = Some (bd_BootID (msg_batch m)),
      pm_first_sequence = Some (bd_FirstSequence (msg_batch m)),
      pm_last_sequence = Some (bd_FirstSequence (msg_batch m) + int (length (bd_Samples (msg_batch m))) - 1),
      pm_sample_count = Some (int (length (bd_Samples (msg_batch m))))\<rparr>"
    using w(4) topic by (simp add: ledger_row_def w(1) metadata_of_def Let_def exact_sample_def of_nat_diff Suc_le_eq)
  moreover have "sc_MessageID (lg_lastSample e) = bd_MessageID (msg_batch m)"
      "sc_MeasuredAt (lg_lastSample e) = start + int (length (bd_Samples (msg_batch m)) - 1) * (bd_SampleIntervalUS (msg_batch m) * 1000)"
    by (simp_all add: w(1) s metadata_of_def Let_def exact_sample_def)
  moreover have "float64_of_int (bd_SampleIntervalUS (msg_batch m)) = of_int (bd_SampleIntervalUS (msg_batch m))"
    using iv by (intro float64_of_int_exact) (simp add: maxExactFloat64Integer_def)
  ultimately show ?thesis using c pg_timestamptz_id [OF micro] by (simp add: d' committed_db_def temporal_of_def)
qed

theorem commit_writes_exactly_witness:
  "\<exists>d' r. Persist canonical_uuid fx_env (Some fx_message) fx_db = (Inr r, d') \<and>
     (\<exists>start. parseMeasuredAt (bd_MeasuredAt fx_batch) = Some start \<and>
        map tr_measured_at (db_telemetry d') = [start, start + 10000000])"
proof -
  have v: "validated canonical_uuid fx_message" using fx_message_wf by (auto simp: validated_def)
  have b: "msg_batch fx_message = fx_batch" by (simp add: fx_message_def)
  obtain start where "parseMeasuredAt (bd_MeasuredAt fx_batch) = Some start"
    "db_telemetry (committed_db canonical_uuid fx_env fx_resource (metadata_of fx_message fx_start) fx_message fx_db) =
       db_telemetry fx_db @ map (\<lambda>i. \<lparr>
      tr_measured_at = start + int i * (bd_SampleIntervalUS fx_batch * 1000),
      tr_gateway_id = bd_GatewayID fx_batch, tr_sensor_id = bd_SensorID fx_batch,
      tr_sequence_num = bd_FirstSequence fx_batch + int i, tr_value = bd_Samples fx_batch ! i,
      tr_boot_id = Some (bd_BootID fx_batch), tr_message_id = Some (bd_MessageID fx_batch),
      tr_sample_index = Some (int i)\<rparr>) [0..<length (bd_Samples fx_batch)]"
    using commit_writes_exactly [OF v fx_commit, unfolded b] by auto
  then have "map tr_measured_at (db_telemetry (committed_db canonical_uuid fx_env fx_resource (metadata_of fx_message fx_start) fx_message fx_db)) =
      [start, start + 10000000]" by (simp add: fx_db_def fx_batch_def)
  then show ?thesis using \<open>parseMeasuredAt (bd_MeasuredAt fx_batch) = Some start\<close> by (simp add: fx_commit)
qed

section \<open>Reported state\<close>

definition state_le :: "twin_state \<Rightarrow> twin_state \<Rightarrow> bool" where
  "state_le st st' \<longleftrightarrow> ts_reported_version st \<le> ts_reported_version st' \<and>
     ts_desired_state st' = ts_desired_state st \<and> ts_desired_version st' = ts_desired_version st \<and>
     (\<forall>t. ts_last_reported_at st = Some t \<longrightarrow> (\<exists>t'. ts_last_reported_at st' = Some t' \<and> t \<le> t'))"

lemma state_le_refl: "state_le st st"
  by (simp add: state_le_def)

lemma state_le_trans: "state_le a b \<Longrightarrow> state_le b c \<Longrightarrow> state_le a c"
  by (fastforce simp: state_le_def)

lemma state_step_le: "state_step st st' \<Longrightarrow> state_le st st'"
  by (auto simp: state_step_def state_le_def)

lemma Persist_states:
  assumes "validated U m" and "db_states d x = Some st"
  shows "\<exists>st'. db_states (snd (Persist U env (Some m) d)) x = Some st' \<and> state_le st st'"
proof -
  obtain l where wf: "message_wf U l m" using assms(1) by (auto simp: validated_def)
  obtain res d' where P: "Persist U env (Some m) d = (res, d')" by fastforce
  from P have "\<exists>st'. db_states d' x = Some st' \<and> state_le st st'"
  proof (cases rule: Persist_cases)
    case failed
    then show ?thesis using assms(2) state_le_refl by blast
  next
    case (returned e r)
    then show ?thesis using transaction_states [OF wf returned(1,2) assms(2)] state_step_le by blast
  next
    case (unconfirmed e r d1 err)
    then show ?thesis
      using transaction_states [OF wf unconfirmed(1,2) assms(2)] state_step_le state_le_refl assms(2) by auto
  qed
  then show ?thesis by (simp add: P)
qed

text \<open>C8. The reported state of a Twin only moves forward. Over any sequence of calls, faults included,
  every state row stays, its version never decreases, its last report time never goes back, and its
  desired state is never touched.\<close>

theorem reported_state_monotone:
  assumes "\<forall>c \<in> set calls. validated U (snd c)" and "db_states d x = Some st"
  shows "\<exists>st'. db_states (fold (\<lambda>(env, m) d. snd (Persist U env (Some m) d)) calls d) x = Some st' \<and> state_le st st'"
  using assms
proof (induction calls arbitrary: d st)
  case Nil
  then show ?case using state_le_refl by simp
next
  case (Cons c calls)
  obtain env m where c: "c = (env, m)" by fastforce
  have "validated U m" using Cons.prems(1) by (simp add: c)
  then obtain st1 where "db_states (snd (Persist U env (Some m) d)) x = Some st1" "state_le st st1"
    using Persist_states Cons.prems(2) by blast
  then show ?case using Cons.IH [of "snd (Persist U env (Some m) d)" st1] Cons.prems(1) state_le_trans by (fastforce simp: c)
qed

theorem reported_state_monotone_witness:
  "\<exists>st'. db_states (fold (\<lambda>(env, m) d. snd (Persist canonical_uuid env (Some m) d)) [(fx_env, fx_message), (fx_env, fx_message)] fx_db) 2 =
     Some st' \<and> state_le fx_state st'"
proof -
  have v: "validated canonical_uuid fx_message" using fx_message_wf by (auto simp: validated_def)
  have "db_states fx_db 2 = Some fx_state" by (simp add: fx_db_def)
  then show ?thesis
    using reported_state_monotone [of "[(fx_env, fx_message), (fx_env, fx_message)]" canonical_uuid fx_db 2 fx_state] v by simp
qed

text \<open>
  A sample that is not newer than another: an earlier time, or the same time and another boot or no
  larger sequence number. A state row records a sample when it was last written for this one or for a
  newer one of the same order.
\<close>

definition not_newer :: "SampleCandidate \<Rightarrow> SampleCandidate \<Rightarrow> bool" where
  "not_newer s' s \<longleftrightarrow> sc_MeasuredAt s' < sc_MeasuredAt s \<or>
     sc_MeasuredAt s' = sc_MeasuredAt s \<and> (sc_BootID s' \<noteq> sc_BootID s \<or> sc_SequenceNum s' \<le> sc_SequenceNum s)"

definition candidate_ok :: "reportedStateCandidate \<Rightarrow> bool" where
  "candidate_ok c \<longleftrightarrow> 0 \<le> rc_sequenceNum c \<and> in_i64 (rc_sequenceNum c) \<and> 1000 dvd rc_observedAt c"

definition records :: "uuid_pkg \<Rightarrow> twin_state \<Rightarrow> SampleCandidate \<Rightarrow> bool" where
  "records U st s \<longleftrightarrow> (\<exists>env c st0 obj. st = advanced_state U env c st0 \<and> ts_reported_state st0 = JObject obj \<and> candidate_ok c \<and>
     (sc_MeasuredAt s < rc_observedAt c \<or>
      sc_MeasuredAt s = rc_observedAt c \<and> sc_BootID s = rc_bootID c \<and> sc_SequenceNum s \<le> rc_sequenceNum c))"

lemma advance_newer:
  assumes "uuid_text_ok U" "ts_reported_state st0 = JObject obj" "candidate_ok c"
    and "sensorStateAdvances U (ts_reported_state (advanced_state U env c st0)) (ts_last_reported_at (advanced_state U env c st0)) c'"
  shows "rc_observedAt c < rc_observedAt c' \<or>
    rc_observedAt c = rc_observedAt c' \<and> rc_bootID c = rc_bootID c' \<and> rc_sequenceNum c < rc_sequenceNum c'"
proof (rule ccontr)
  assume "\<not> ?thesis"
  then have "rc_observedAt c' < rc_observedAt c \<or> rc_observedAt c' = rc_observedAt c \<and>
      (rc_bootID c' \<noteq> rc_bootID c \<or> rc_sequenceNum c' \<le> rc_sequenceNum c)" by (metis linorder_less_linear not_le)
  then show False using no_second_advance [OF assms(1,2), of c c' env] assms(3,4) by (simp add: candidate_ok_def pg_timestamptz_id)
qed

lemma records_no_advance:
  assumes "uuid_text_ok U" "records U st s" "not_newer s' s"
  shows "\<not> sensorStateAdvances U (ts_reported_state st) (ts_last_reported_at st) (candidate_of resource m s')"
  using assms(2,3) advance_newer [OF assms(1)] by (fastforce simp: records_def not_newer_def candidate_of_def)

lemma records_advance:
  assumes "uuid_text_ok U" "records U st s" "candidate_ok c" "sensorStateAdvances U (ts_reported_state st) (ts_last_reported_at st) c"
  shows "records U (advanced_state U env c st) s"
proof -
  obtain env0 c0 st0 obj where r: "st = advanced_state U env0 c0 st0" "ts_reported_state st0 = JObject obj" "candidate_ok c0"
      "sc_MeasuredAt s < rc_observedAt c0 \<or> sc_MeasuredAt s = rc_observedAt c0 \<and> sc_BootID s = rc_bootID c0 \<and> sc_SequenceNum s \<le> rc_sequenceNum c0"
    using assms(2) by (auto simp: records_def)
  have "ts_reported_state st = JObject (obj ++ candidate_merge U c0)" by (simp add: r(1,2) advanced_state_def jsonb_concat_def)
  moreover have "sc_MeasuredAt s < rc_observedAt c \<or> sc_MeasuredAt s = rc_observedAt c \<and> sc_BootID s = rc_bootID c \<and> sc_SequenceNum s \<le> rc_sequenceNum c"
    using advance_newer [OF assms(1) r(2,3) assms(4) [unfolded r(1)]] r(4) by auto
  ultimately show ?thesis using assms(3) by (auto simp: records_def)
qed

lemma validated_candidate:
  assumes "validated U m" "LastSample (Some m) = Some s"
  shows "candidate_ok (candidate_of resource m s)"
proof -
  obtain l where wf: "message_wf U l m" using assms(1) by (auto simp: validated_def)
  obtain start where w: "ledgerMetadata (Some m) = Inr (metadata_of m start)" "range_spec (msg_batch m) l (msg_receivedAt m) start"
      "decoded_ok U (msg_topic m) l (msg_batch m)" "0 < length (bd_Samples (msg_batch m))"
    using message_wf_metadata [OF wf] by metis
  have s: "s = exact_sample (msg_batch m) start (length (bd_Samples (msg_batch m)) - 1)"
    using ledgerMetadata_last [OF w(1)] assms(2) by (simp add: metadata_of_def Let_def)
  have "int (length (bd_Samples (msg_batch m)) - 1) = bd_SampleCount (msg_batch m) - 1" using w(3,4) by (simp add: decoded_ok_def of_nat_diff Suc_le_eq)
  then have "0 \<le> sc_SequenceNum s" "sc_SequenceNum s \<le> maxInt64" using w(2) by (simp_all add: s exact_sample_def range_spec_def)
  then show ?thesis using exact_sample_whole_micro [OF w(2)] by (simp add: candidate_ok_def candidate_of_def s int_bounds_defs)
qed

text \<open>What a call does to the state rows: nothing, or one guarded merge into the Sensor's row.\<close>

lemma Persist_next_states:
  assumes "Persist U env (Some m) d = (res, d')"
  shows "db_states d' = db_states d \<or> (\<exists>resource s. resolveTelemetryResource env d (Some m) = Inr resource \<and> LastSample (Some m) = Some s \<and>
    db_states d' = next_states U env (rr_EntityID resource) (candidate_of resource m s) (db_states d))"
proof -
  have tx: "db_states d1 = db_states d \<or> (\<exists>resource s. resolveTelemetryResource env d (Some m) = Inr resource \<and> LastSample (Some m) = Some s \<and>
      db_states d1 = next_states U env (rr_EntityID resource) (candidate_of resource m s) (db_states d))"
    if t: "transaction U env (Some m) e d = Inr (r, d1)" "ledgerMetadata (Some m) = Inr e" for e r d1
  proof (cases "pr_Outcome r = CommitOutcomeDuplicateCommitted")
    case True
    then show ?thesis using transaction_duplicate(1) [OF t] by simp
  next
    case False
    obtain resource where "resolveTelemetryResource env d (Some m) = Inr resource" "d1 = committed_db U env resource e m d"
      using transaction_committed [OF t False] by metis
    then show ?thesis using ledgerMetadata_last [OF t(2)] by (auto simp: committed_db_def)
  qed
  from assms show ?thesis
    by (cases rule: Persist_cases) (use tx in auto)
qed

lemma Persist_records:
  assumes "uuid_text_ok U" "validated U m" "db_states d x = Some st" "records U st s"
  shows "\<exists>st'. db_states (snd (Persist U env (Some m) d)) x = Some st' \<and> records U st' s"
proof -
  obtain res d' where P: "Persist U env (Some m) d = (res, d')" by fastforce
  from Persist_next_states [OF P] show ?thesis
  proof (elim disjE exE conjE)
    fix resource s0
    assume h: "LastSample (Some m) = Some s0" "db_states d' = next_states U env (rr_EntityID resource) (candidate_of resource m s0) (db_states d)"
    show ?thesis using assms(3,4) records_advance [OF assms(1,4) validated_candidate [OF assms(2) h(1)], of resource env]
      by (auto simp: P h(2) next_states_def split: option.splits)
  qed (use assms(3,4) in \<open>simp add: P\<close>)
qed

lemma fold_records:
  assumes "uuid_text_ok U" "\<forall>c \<in> set calls. validated U (snd c)" "db_states d x = Some st" "records U st s"
  shows "\<exists>st'. db_states (fold (\<lambda>(env, m) d. snd (Persist U env (Some m) d)) calls d) x = Some st' \<and> records U st' s"
  using assms(2-4)
proof (induction calls arbitrary: d st)
  case (Cons c calls)
  obtain env m where c: "c = (env, m)" by fastforce
  obtain st1 where "db_states (snd (Persist U env (Some m) d)) x = Some st1" "records U st1 s"
    using Persist_records [OF assms(1)] Cons.prems by (metis c list.set_intros(1) snd_conv)
  then show ?case using Cons.IH [of "snd (Persist U env (Some m) d)" st1] Cons.prems(1) by (simp add: c)
qed auto

text \<open>C9. A replayed or older observation never overwrites a newer one. Suppose a call for a message changed
  the reported state of a Sensor's Twin, a JSON object. After any further calls, with any faults, a call
  for a message of the same Sensor whose last sample is earlier than the last sample of the first
  message, or has the same time and another boot or no larger sequence number, changes no reported
  state at all. A resend of the first message is one such call.\<close>

theorem reported_state_no_replay:
  assumes U: "uuid_text_ok U" and m: "validated U m" "validated U m'" and obj: "db_states d x = Some st" "ts_reported_state st = JObject obj"
    and P: "Persist U env (Some m) d = (res, d1)" and changed: "db_states d1 x \<noteq> db_states d x"
    and calls: "\<forall>c \<in> set calls. validated U (snd c)"
    and d2: "d2 = fold (\<lambda>(env, m) d. snd (Persist U env (Some m) d)) calls d1"
    and same: "resolveTelemetryResource env' d2 (Some m') = Inr resource" "rr_EntityID resource = x"
    and old: "LastSample (Some m) = Some s" "LastSample (Some m') = Some s'" "not_newer s' s"
  shows "db_states (snd (Persist U env' (Some m') d2)) = db_states d2"
proof -
  obtain resource0 where "db_states d1 = next_states U env (rr_EntityID resource0) (candidate_of resource0 m s) (db_states d)"
    using Persist_next_states [OF P] changed old(1) by auto
  then have "db_states d1 x = Some (advanced_state U env (candidate_of resource0 m s) st)"
    using changed obj(1) by (auto simp: next_states_def split: option.splits if_splits)
  moreover have "records U (advanced_state U env (candidate_of resource0 m s) st) s"
    using obj(2) validated_candidate [OF m(1) old(1)] by (force simp: records_def candidate_of_def)
  ultimately obtain st2 where st2: "db_states d2 x = Some st2" "records U st2 s"
    unfolding d2 using fold_records [OF U calls] by blast
  obtain res' d3 where P': "Persist U env' (Some m') d2 = (res', d3)" by fastforce
  show ?thesis
    using Persist_next_states [OF P'] same old(2) st2(1) records_no_advance [OF U st2(2) old(3)] by (auto simp: P' next_states_def)
qed

theorem reported_state_no_replay_witness:
  "let d1 = snd (Persist canonical_uuid fx_env (Some fx_message) fx_db)
   in db_states d1 2 \<noteq> db_states fx_db 2 \<and> db_states (snd (Persist canonical_uuid fx_env (Some fx_message) d1)) = db_states d1"
proof -
  let ?d1 = "committed_db canonical_uuid fx_env fx_resource (metadata_of fx_message fx_start) fx_message fx_db"
  have v: "validated canonical_uuid fx_message" using fx_message_wf by (auto simp: validated_def)
  have st: "db_states fx_db 2 = Some fx_state" "ts_reported_state fx_state = JObject Map.empty" by (simp_all add: fx_db_def fx_state_def)
  have "db_states ?d1 2 = Some (advanced_state canonical_uuid fx_env (candidate_of fx_resource fx_message (exact_sample fx_batch fx_start 1)) fx_state)"
    by (simp add: committed_db_def next_states_def fx_resource_def fx_db_def fx_state_def sensorStateAdvances_def metadata_of_def fx_message_def fx_batch_def Let_def)
  then have c: "db_states ?d1 2 \<noteq> db_states fx_db 2" using st(1) by (auto simp: advanced_state_def fx_state_def)
  obtain s where s: "LastSample (Some fx_message) = Some s" using ledgerMetadata_last [OF fx_metadata] by blast
  have "rr_EntityID fx_resource = 2" by (simp add: fx_resource_def)
  then have "db_states (snd (Persist canonical_uuid fx_env (Some fx_message) ?d1)) = db_states ?d1"
    using reported_state_no_replay [OF canonical_text_ok v v st fx_commit c, of "[]" ?d1 fx_env fx_resource s s] fx_resolve_after s by (simp add: not_newer_def)
  then show ?thesis using c by (simp add: fx_commit Let_def)
qed

end
