(* ===== verification/Ingress.thy ===== *)
theory Ingress
  imports RepositoryRefinement
begin

text \<open>
  The MQTT ingress core (\<open>mqttingress/ingress.go\<close>, \<open>counters.go\<close>): bounded admission, one bounded
  queue, a fixed worker pool and the acknowledgement after a confirmed commit. The validator, the
  repository and the publisher are Go interfaces; they are parameters of \<open>process\<close>, with what the
  outside world decides in one call (how the database behaves, the clock, whether the publish is
  confirmed) in \<open>process_env\<close>. Goroutines interleave at every access to shared state: a worker carries
  the place it has reached in \<open>process\<close> and each of its steps does at most one counter update, one
  queue operation, one \<open>Persist\<close> (a database transaction) or one \<open>Publish\<close>; an admission enqueues,
  counts and records the high-water mark in three steps, under the read lock that keeps
  \<open>StopAdmission\<close> out. Counters are \<open>atomic.Int64\<close>, here 64-bit words, so the conservation laws hold
  including wrap-around.
\<close>

section \<open>State\<close>

datatype AdmissionDecision =
    AdmissionAccepted | AdmissionRejectedNotRunning | AdmissionRejectedStopping | AdmissionRejectedRetained
  | AdmissionRejectedOversized | AdmissionRejectedInvalidTopic | AdmissionRejectedQueueFull

type_synonym counter = "64 word"

record counters =
  cn_accepted :: counter
  cn_rejectedNotRunning :: counter
  cn_rejectedStopping :: counter
  cn_rejectedRetained :: counter
  cn_rejectedOversized :: counter
  cn_rejectedInvalidTpc :: counter
  cn_queueFull :: counter
  cn_queueHighWater :: int
  cn_processed :: counter
  cn_validationRejected :: counter
  cn_persistFailures :: counter
  cn_commitUnconfirmed :: counter
  cn_identityMismatch :: counter
  cn_ackBuildFailures :: counter
  cn_committed :: counter
  cn_duplicateCommitted :: counter
  cn_samplesNew :: counter
  cn_ackPublished :: counter
  cn_ackPublishFailures :: counter
  cn_processingNanos :: counter
  cn_processingCount :: counter

record item =
  it_topic :: string
  it_payload :: string
  it_receivedAt :: time

record Delivery =
  dl_Topic :: string
  dl_Payload :: string
  dl_QoS :: nat
  dl_Retained :: bool

text \<open>
  Where a worker stands in \<open>process\<close>: it has received the item; it has counted it as processed; the
  message is validated; \<open>Persist\<close> has returned; a new commit is counted but not its samples; the
  commit is counted; \<open>Publish\<close> has returned; the outcome is counted and the deferred function runs;
  the latency is added.
\<close>

datatype phase =
    PTaken | PStarted | PValidated Message | PPersisted Message "go_error + PersistResult"
  | PCommitted Message PersistResult time | PConfirmed Message PersistResult time
  | PPublished "go_error option" | PCounted | PTimed

text \<open>
  A worker goroutine: in its loop, processing an item (and whether it came from \<open>drainQueue\<close>), in
  \<open>drainQueue\<close>, or returned.
\<close>

datatype worker = WLoop | WBusy bool item phase | WDrain | WDone

text \<open>
  \<open>ig_sent\<close> and \<open>ig_marking\<close> count the calls of \<open>Admit\<close> that hold the read lock after the channel
  send: not yet counted as accepted, and counted but with the high-water mark still to record.
\<close>

record ingress =
  ig_workerCount :: nat
  ig_maxPayloadBytes :: int
  ig_queueCapacity :: nat
  ig_queue :: "item list"
  ig_sent :: nat
  ig_marking :: nat
  ig_stopping :: bool
  ig_started :: bool
  ig_draining :: bool
  ig_cancelled :: bool
  ig_workers :: "worker list"
  ig_counters :: counters

record Options =
  op_QueueCapacity :: int
  op_WorkerCount :: int
  op_MaxPayloadBytes :: int
  op_PersistTimeout :: duration
  op_PublishTimeout :: duration

definition zero_counters :: counters where
  "zero_counters = \<lparr>cn_accepted = 0, cn_rejectedNotRunning = 0, cn_rejectedStopping = 0, cn_rejectedRetained = 0,
     cn_rejectedOversized = 0, cn_rejectedInvalidTpc = 0, cn_queueFull = 0, cn_queueHighWater = 0, cn_processed = 0,
     cn_validationRejected = 0, cn_persistFailures = 0, cn_commitUnconfirmed = 0, cn_identityMismatch = 0,
     cn_ackBuildFailures = 0, cn_committed = 0, cn_duplicateCommitted = 0, cn_samplesNew = 0, cn_ackPublished = 0,
     cn_ackPublishFailures = 0, cn_processingNanos = 0, cn_processingCount = 0\<rparr>"

text \<open>\<open>New\<close>; whether the three interface arguments are nil is passed as flags.\<close>

definition New :: "Options \<Rightarrow> bool \<Rightarrow> bool \<Rightarrow> bool \<Rightarrow> string + ingress" where
  "New opts nilValidator nilRepository nilPublisher =
     (if op_QueueCapacity opts < 1 then Inl ''mqttingress: queue capacity must be positive''
      else if op_WorkerCount opts < 1 then Inl ''mqttingress: worker count must be positive''
      else if op_MaxPayloadBytes opts < 1 then Inl ''mqttingress: max payload bytes must be positive''
      else if op_PersistTimeout opts \<le> 0 then Inl ''mqttingress: persist timeout must be positive''
      else if op_PublishTimeout opts \<le> 0 then Inl ''mqttingress: publish timeout must be positive''
      else if nilValidator then Inl ''mqttingress: validator is required''
      else if nilRepository then Inl ''mqttingress: repository is required''
      else if nilPublisher then Inl ''mqttingress: publisher is required''
      else Inr \<lparr>ig_workerCount = nat (op_WorkerCount opts), ig_maxPayloadBytes = op_MaxPayloadBytes opts,
                ig_queueCapacity = nat (op_QueueCapacity opts), ig_queue = [], ig_sent = 0, ig_marking = 0, ig_stopping = False,
                ig_started = False, ig_draining = False, ig_cancelled = False, ig_workers = [],
                ig_counters = zero_counters\<rparr>)"

section \<open>Admission\<close>

definition Start :: "ingress \<Rightarrow> (string + unit) \<times> ingress" where
  "Start i =
     (if ig_started i then (Inl ''mqttingress: already started'', i)
      else if ig_draining i then (Inl ''mqttingress: ingress is shutting down'', i)
      else (Inr (), i\<lparr>ig_started := True, ig_workers := replicate (ig_workerCount i) WLoop\<rparr>))"

definition recordQueueHighWater :: "nat \<Rightarrow> nat \<Rightarrow> counters \<Rightarrow> counters" where
  "recordQueueHighWater capacity observed c =
     (if observed = 0 then c
      else (let obs = int (if capacity < observed then capacity else observed)
            in if obs \<le> cn_queueHighWater c then c else c\<lparr>cn_queueHighWater := obs\<rparr>))"

text \<open>\<open>Admit\<close> up to the channel send; a rejection is counted with the decision.\<close>

definition Admit_send :: "string \<Rightarrow> string \<Rightarrow> time \<Rightarrow> bool \<Rightarrow> ingress \<Rightarrow> AdmissionDecision \<times> ingress" where
  "Admit_send topic payload receivedAt retained i =
     (let c = ig_counters i in
      if \<not> ig_started i
      then (AdmissionRejectedNotRunning, i\<lparr>ig_counters := c\<lparr>cn_rejectedNotRunning := cn_rejectedNotRunning c + 1\<rparr>\<rparr>)
      else if ig_stopping i
      then (AdmissionRejectedStopping, i\<lparr>ig_counters := c\<lparr>cn_rejectedStopping := cn_rejectedStopping c + 1\<rparr>\<rparr>)
      else if retained
      then (AdmissionRejectedRetained, i\<lparr>ig_counters := c\<lparr>cn_rejectedRetained := cn_rejectedRetained c + 1\<rparr>\<rparr>)
      else if ig_maxPayloadBytes i < int (length payload)
      then (AdmissionRejectedOversized, i\<lparr>ig_counters := c\<lparr>cn_rejectedOversized := cn_rejectedOversized c + 1\<rparr>\<rparr>)
      else if \<not> is_ok (ParseTopic topic)
      then (AdmissionRejectedInvalidTopic, i\<lparr>ig_counters := c\<lparr>cn_rejectedInvalidTpc := cn_rejectedInvalidTpc c + 1\<rparr>\<rparr>)
      else if length (ig_queue i) < ig_queueCapacity i
      then (AdmissionAccepted,
            i\<lparr>ig_queue := ig_queue i @ [\<lparr>it_topic = topic, it_payload = payload, it_receivedAt = receivedAt\<rparr>],
              ig_sent := ig_sent i + 1\<rparr>)
      else (AdmissionRejectedQueueFull, i\<lparr>ig_counters := c\<lparr>cn_queueFull := cn_queueFull c + 1\<rparr>\<rparr>))"

text \<open>The rest of an accepting call: the counter, then the high-water mark with the depth it observed.\<close>

definition Admit_count :: "ingress \<Rightarrow> ingress" where
  "Admit_count i = (let c = ig_counters i in
     i\<lparr>ig_sent := ig_sent i - 1, ig_marking := ig_marking i + 1, ig_counters := c\<lparr>cn_accepted := cn_accepted c + 1\<rparr>\<rparr>)"

definition Admit_mark :: "nat \<Rightarrow> ingress \<Rightarrow> ingress" where
  "Admit_mark observed i =
     i\<lparr>ig_marking := ig_marking i - 1, ig_counters := recordQueueHighWater (ig_queueCapacity i) observed (ig_counters i)\<rparr>"

text \<open>The whole call without interference.\<close>

definition Admit :: "string \<Rightarrow> string \<Rightarrow> time \<Rightarrow> bool \<Rightarrow> ingress \<Rightarrow> AdmissionDecision \<times> ingress" where
  "Admit topic payload receivedAt retained i =
     (case Admit_send topic payload receivedAt retained i of
        (AdmissionAccepted, j) \<Rightarrow> (AdmissionAccepted, Admit_mark (length (ig_queue j)) (Admit_count j))
      | rejected \<Rightarrow> rejected)"

text \<open>\<open>admitMu\<close>: the write lock is free of readers.\<close>

definition admit_unlocked :: "ingress \<Rightarrow> bool" where
  "admit_unlocked i \<longleftrightarrow> ig_sent i = 0 \<and> ig_marking i = 0"

definition StopAdmission :: "ingress \<Rightarrow> ingress" where
  "StopAdmission i = (if ig_stopping i then i else i\<lparr>ig_stopping := True\<rparr>)"

definition Accepting :: "ingress \<Rightarrow> bool" where
  "Accepting i = (if \<not> ig_started i then False else \<not> ig_stopping i)"

text \<open>
  \<open>Drain\<close>: it forbids a later \<open>Start\<close>, stops admission when the pool was started, and waits; its two
  ways out are that every worker has returned, or that the deadline cancels the processing context
  first.
\<close>

definition Drain_begin :: "ingress \<Rightarrow> ingress" where
  "Drain_begin i = i\<lparr>ig_draining := True\<rparr>"

definition Drain_stop :: "ingress \<Rightarrow> ingress" where
  "Drain_stop i = (if ig_started i then StopAdmission i else i)"

definition workers_done :: "ingress \<Rightarrow> bool" where
  "workers_done i \<longleftrightarrow> list_all (\<lambda>w. w = WDone) (ig_workers i)"

definition cancelRun :: "ingress \<Rightarrow> ingress" where
  "cancelRun i = i\<lparr>ig_cancelled := True\<rparr>"

section \<open>Processing\<close>

record process_env =
  pe_db :: db_env
  pe_confirmedAt :: time
  pe_publish :: "go_error option"
  pe_elapsed :: counter

definition identityMatches :: "Message \<Rightarrow> MessageIdentity \<Rightarrow> bool" where
  "identityMatches message identity \<longleftrightarrow>
     mi_GatewayID identity = pt_GatewayID (msg_topic message) \<and>
     mi_SensorID identity = pt_SensorID (msg_topic message) \<and>
     mi_MessageID identity = bd_MessageID (msg_batch message)"

text \<open>
  One step of \<open>process\<close>, from the place the worker has reached: the counters, the database, what is
  handed to the publisher, and the next place (none when \<open>process\<close> returns). \<open>json.Marshal\<close> of the
  acknowledgement cannot fail: the only failing conversion is a year outside 0 to 9999, which
  \<open>NewCommitACK\<close> has refused.
\<close>

definition process ::
  "uuid_pkg \<Rightarrow> (string \<Rightarrow> string \<Rightarrow> time \<Rightarrow> go_error + Message) \<Rightarrow>
   (db_env \<Rightarrow> Message \<Rightarrow> 'd \<Rightarrow> (go_error + PersistResult) \<times> 'd) \<Rightarrow>
   process_env \<Rightarrow> item \<Rightarrow> phase \<Rightarrow> counters \<Rightarrow> 'd \<Rightarrow> counters \<times> 'd \<times> Delivery option \<times> phase option" where
  "process U validate persist pe it ph c d =
     (case ph of
        PTaken \<Rightarrow> (c\<lparr>cn_processed := cn_processed c + 1\<rparr>, d, None, Some PStarted)
      | PStarted \<Rightarrow>
          (case validate (it_topic it) (it_payload it) (it_receivedAt it) of
             Inl e \<Rightarrow> (c\<lparr>cn_validationRejected := cn_validationRejected c + 1\<rparr>, d, None, Some PCounted)
           | Inr message \<Rightarrow> (c, d, None, Some (PValidated message)))
      | PValidated message \<Rightarrow>
          (case persist (pe_db pe) message d of (res, d') \<Rightarrow> (c, d', None, Some (PPersisted message res)))
      | PPersisted message res \<Rightarrow>
          (case res of
             Inl e \<Rightarrow> (c\<lparr>cn_persistFailures := cn_persistFailures c + 1\<rparr>, d, None, Some PCounted)
           | Inr result \<Rightarrow>
               if pr_Outcome result \<noteq> CommitOutcomeCommitted \<and> pr_Outcome result \<noteq> CommitOutcomeDuplicateCommitted
               then (c\<lparr>cn_commitUnconfirmed := cn_commitUnconfirmed c + 1\<rparr>, d, None, Some PCounted)
               else if \<not> identityMatches message (pr_Identity result)
               then (c\<lparr>cn_identityMismatch := cn_identityMismatch c + 1\<rparr>, d, None, Some PCounted)
               else if pr_Outcome result = CommitOutcomeCommitted
               then (c\<lparr>cn_committed := cn_committed c + 1\<rparr>, d, None, Some (PCommitted message result (pe_confirmedAt pe)))
               else (c\<lparr>cn_duplicateCommitted := cn_duplicateCommitted c + 1\<rparr>, d, None,
                     Some (PConfirmed message result (pe_confirmedAt pe))))
      | PCommitted message result confirmedAt \<Rightarrow>
          (c\<lparr>cn_samplesNew := cn_samplesNew c + of_int (pr_SamplesSaved result)\<rparr>, d, None,
           Some (PConfirmed message result confirmedAt))
      | PConfirmed message result confirmedAt \<Rightarrow>
          (case NewCommitACK U (pt_GatewayID (msg_topic message)) (bd_MessageID (msg_batch message))
                  (pr_Outcome result) confirmedAt of
             Inl e \<Rightarrow> (c\<lparr>cn_ackBuildFailures := cn_ackBuildFailures c + 1\<rparr>, d, None, Some PCounted)
           | Inr (ackTopic, ack) \<Rightarrow>
               (c, d, Some \<lparr>dl_Topic = ackTopic, dl_Payload = marshalACK U ack, dl_QoS = 1, dl_Retained = False\<rparr>,
                Some (PPublished (pe_publish pe))))
      | PPublished publishErr \<Rightarrow>
          (case publishErr of
             Some e \<Rightarrow> (c\<lparr>cn_ackPublishFailures := cn_ackPublishFailures c + 1\<rparr>, d, None, Some PCounted)
           | None \<Rightarrow> (c\<lparr>cn_ackPublished := cn_ackPublished c + 1\<rparr>, d, None, Some PCounted))
      | PCounted \<Rightarrow> (c\<lparr>cn_processingNanos := cn_processingNanos c + pe_elapsed pe\<rparr>, d, None, Some PTimed)
      | PTimed \<Rightarrow> (c\<lparr>cn_processingCount := cn_processingCount c + 1\<rparr>, d, None, None))"

section \<open>The operator's view\<close>

record ingress_snapshot =
  sn_Accepted :: counter
  sn_RejectedNotRunning :: counter
  sn_RejectedStopping :: counter
  sn_RejectedRetained :: counter
  sn_RejectedOversized :: counter
  sn_RejectedInvalidTopic :: counter
  sn_QueueFull :: counter
  sn_Processed :: counter
  sn_ValidationRejected :: counter
  sn_PersistFailures :: counter
  sn_CommitUnconfirmed :: counter
  sn_IdentityMismatch :: counter
  sn_ACKBuildFailures :: counter
  sn_Committed :: counter
  sn_DuplicateCommitted :: counter
  sn_SamplesNew :: counter
  sn_ACKPublished :: counter
  sn_ACKPublishFailures :: counter
  sn_ProcessingLatencyTotal :: counter
  sn_ProcessingCount :: counter
  sn_QueueDepth :: nat
  sn_QueueCapacity :: nat
  sn_QueueHighWater :: int

definition Snapshot :: "ingress \<Rightarrow> ingress_snapshot" where
  "Snapshot i =
     (let c = ig_counters i in
      \<lparr>sn_Accepted = cn_accepted c,
       sn_RejectedNotRunning = cn_rejectedNotRunning c,
       sn_RejectedStopping = cn_rejectedStopping c,
       sn_RejectedRetained = cn_rejectedRetained c,
       sn_RejectedOversized = cn_rejectedOversized c,
       sn_RejectedInvalidTopic = cn_rejectedInvalidTpc c,
       sn_QueueFull = cn_queueFull c,
       sn_Processed = cn_processed c,
       sn_ValidationRejected = cn_validationRejected c,
       sn_PersistFailures = cn_persistFailures c,
       sn_CommitUnconfirmed = cn_commitUnconfirmed c,
       sn_IdentityMismatch = cn_identityMismatch c,
       sn_ACKBuildFailures = cn_ackBuildFailures c,
       sn_Committed = cn_committed c,
       sn_DuplicateCommitted = cn_duplicateCommitted c,
       sn_SamplesNew = cn_samplesNew c,
       sn_ACKPublished = cn_ackPublished c,
       sn_ACKPublishFailures = cn_ackPublishFailures c,
       sn_ProcessingLatencyTotal = cn_processingNanos c,
       sn_ProcessingCount = cn_processingCount c,
       sn_QueueDepth = length (ig_queue i), sn_QueueCapacity = ig_queueCapacity i,
       sn_QueueHighWater = cn_queueHighWater c\<rparr>)"

section \<open>Interleaving\<close>

record 'd server =
  sv_ingress :: ingress
  sv_db :: 'd
  sv_out :: "Delivery list"

text \<open>The ways one worker can move.\<close>

definition take_item :: "nat \<Rightarrow> bool \<Rightarrow> ingress \<Rightarrow> ingress" where
  "take_item w draining i =
     (case ig_queue i of
        [] \<Rightarrow> i
      | it # q \<Rightarrow> i\<lparr>ig_queue := q, ig_workers := (ig_workers i)[w := WBusy draining it PTaken]\<rparr>)"

definition after_phase :: "bool \<Rightarrow> item \<Rightarrow> phase option \<Rightarrow> worker" where
  "after_phase draining it ph = (case ph of Some p \<Rightarrow> WBusy draining it p | None \<Rightarrow> if draining then WDrain else WLoop)"

definition item_step ::
  "uuid_pkg \<Rightarrow> (string \<Rightarrow> string \<Rightarrow> time \<Rightarrow> go_error + Message) \<Rightarrow>
   (db_env \<Rightarrow> Message \<Rightarrow> 'd \<Rightarrow> (go_error + PersistResult) \<times> 'd) \<Rightarrow>
   process_env \<Rightarrow> nat \<Rightarrow> bool \<Rightarrow> item \<Rightarrow> phase \<Rightarrow> 'd server \<Rightarrow> 'd server" where
  "item_step U validate persist pe w draining it ph s =
     (case process U validate persist pe it ph (ig_counters (sv_ingress s)) (sv_db s) of
        (c, d, out, ph') \<Rightarrow>
          s\<lparr>sv_ingress := (sv_ingress s)\<lparr>ig_counters := c,
              ig_workers := (ig_workers (sv_ingress s))[w := after_phase draining it ph']\<rparr>,
            sv_db := d,
            sv_out := sv_out s @ (case out of None \<Rightarrow> [] | Some x \<Rightarrow> [x])\<rparr>)"

inductive worker_step ::
  "uuid_pkg \<Rightarrow> (string \<Rightarrow> string \<Rightarrow> time \<Rightarrow> go_error + Message) \<Rightarrow>
   (db_env \<Rightarrow> Message \<Rightarrow> 'd \<Rightarrow> (go_error + PersistResult) \<times> 'd) \<Rightarrow> 'd server \<Rightarrow> 'd server \<Rightarrow> bool"
  for U validate persist where
  loop_takes: "w < length (ig_workers i) \<Longrightarrow> ig_workers i ! w = WLoop \<Longrightarrow> ig_queue i \<noteq> [] \<Longrightarrow> i = sv_ingress s \<Longrightarrow>
     worker_step U validate persist s (s\<lparr>sv_ingress := take_item w False i\<rparr>)"
| loop_stops: "w < length (ig_workers i) \<Longrightarrow> ig_workers i ! w = WLoop \<Longrightarrow> ig_stopping i \<Longrightarrow> i = sv_ingress s \<Longrightarrow>
     worker_step U validate persist s (s\<lparr>sv_ingress := i\<lparr>ig_workers := (ig_workers i)[w := WDrain]\<rparr>\<rparr>)"
| processes: "w < length (ig_workers i) \<Longrightarrow> ig_workers i ! w = WBusy draining it ph \<Longrightarrow> i = sv_ingress s \<Longrightarrow>
     worker_step U validate persist s (item_step U validate persist pe w draining it ph s)"
| drain_takes: "w < length (ig_workers i) \<Longrightarrow> ig_workers i ! w = WDrain \<Longrightarrow> ig_queue i \<noteq> [] \<Longrightarrow> i = sv_ingress s \<Longrightarrow>
     worker_step U validate persist s (s\<lparr>sv_ingress := take_item w True i\<rparr>)"
| drain_ends: "w < length (ig_workers i) \<Longrightarrow> ig_workers i ! w = WDrain \<Longrightarrow> ig_queue i = [] \<Longrightarrow> i = sv_ingress s \<Longrightarrow>
     worker_step U validate persist s (s\<lparr>sv_ingress := i\<lparr>ig_workers := (ig_workers i)[w := WDone]\<rparr>\<rparr>)"

text \<open>
  The server's steps. The depth an admission observes may be stale when it is recorded, so any depth
  within the capacity is allowed.
\<close>

inductive server_step ::
  "uuid_pkg \<Rightarrow> (string \<Rightarrow> string \<Rightarrow> time \<Rightarrow> go_error + Message) \<Rightarrow>
   (db_env \<Rightarrow> Message \<Rightarrow> 'd \<Rightarrow> (go_error + PersistResult) \<times> 'd) \<Rightarrow> 'd server \<Rightarrow> 'd server \<Rightarrow> bool"
  for U validate persist where
  starts: "server_step U validate persist s (s\<lparr>sv_ingress := snd (Start (sv_ingress s))\<rparr>)"
| admits: "server_step U validate persist s (s\<lparr>sv_ingress := snd (Admit_send topic payload receivedAt retained (sv_ingress s))\<rparr>)"
| counts: "0 < ig_sent (sv_ingress s) \<Longrightarrow> server_step U validate persist s (s\<lparr>sv_ingress := Admit_count (sv_ingress s)\<rparr>)"
| marks: "0 < ig_marking (sv_ingress s) \<Longrightarrow> observed \<le> ig_queueCapacity (sv_ingress s) \<Longrightarrow>
     server_step U validate persist s (s\<lparr>sv_ingress := Admit_mark observed (sv_ingress s)\<rparr>)"
| stops: "admit_unlocked (sv_ingress s) \<Longrightarrow> server_step U validate persist s (s\<lparr>sv_ingress := StopAdmission (sv_ingress s)\<rparr>)"
| drains: "server_step U validate persist s (s\<lparr>sv_ingress := Drain_begin (sv_ingress s)\<rparr>)"
| drain_stops: "ig_draining (sv_ingress s) \<Longrightarrow> admit_unlocked (sv_ingress s) \<Longrightarrow>
     server_step U validate persist s (s\<lparr>sv_ingress := Drain_stop (sv_ingress s)\<rparr>)"
| cancels: "ig_draining (sv_ingress s) \<Longrightarrow> server_step U validate persist s (s\<lparr>sv_ingress := cancelRun (sv_ingress s)\<rparr>)"
| works: "worker_step U validate persist s s' \<Longrightarrow> server_step U validate persist s s'"

end
