(* ===== verification/Transitions.thy ===== *)
theory Transitions
  imports Prelude
begin

text \<open>
  Reachability for the step relations of the development: the locale fixes initial states and a
  step relation and provides the invariant rule, runs of counted length and the termination of a
  relation whose steps decrease a measure. Every state machine of the model interprets it.
\<close>

locale transition_system =
  fixes init :: "'s \<Rightarrow> bool"
    and step :: "'s \<Rightarrow> 's \<Rightarrow> bool"
begin

inductive reach :: "'s \<Rightarrow> bool" where
  reach_init: "init s \<Longrightarrow> reach s"
| reach_step: "reach s \<Longrightarrow> step s s' \<Longrightarrow> reach s'"

lemma invariant:
  assumes "reach s" and "\<And>s. init s \<Longrightarrow> P s" and "\<And>s s'. P s \<Longrightarrow> step s s' \<Longrightarrow> P s'"
  shows "P s"
  using assms(1) by (induction rule: reach.induct) (use assms(2,3) in blast)+

text \<open>An invariant that may use another one already established.\<close>

lemma invariant_with:
  assumes "reach s" and "\<And>s. reach s \<Longrightarrow> Q s" and "\<And>s. init s \<Longrightarrow> P s"
    and "\<And>s s'. Q s \<Longrightarrow> P s \<Longrightarrow> step s s' \<Longrightarrow> P s'"
  shows "P s"
  using assms(1) by (induction rule: reach.induct) (use assms(2-4) in blast)+

lemma reach_steps:
  assumes "step\<^sup>*\<^sup>* s s'" and "reach s"
  shows "reach s'"
  using assms by (induction rule: rtranclp_induct) (auto intro: reach_step)

end

text \<open>A relation all of whose steps decrease a measure: every run is finite and can be continued to a stuck state.\<close>

locale decreasing =
  fixes step :: "'s \<Rightarrow> 's \<Rightarrow> bool"
    and measure_of :: "'s \<Rightarrow> nat"
  assumes decreases: "step s s' \<Longrightarrow> measure_of s' < measure_of s"
begin

lemma run_bounded: "(step ^^ n) s s' \<Longrightarrow> n + measure_of s' \<le> measure_of s"
proof (induction n arbitrary: s')
  case (Suc n)
  then obtain u where "(step ^^ n) s u" "step u s'" by auto
  then show ?case using Suc.IH [of u] decreases [of u s'] by simp
qed simp

lemma terminates: "\<exists>s'. step\<^sup>*\<^sup>* s s' \<and> (\<forall>u. \<not> step s' u)"
proof (induction "measure_of s" arbitrary: s rule: less_induct)
  case less
  show ?case
  proof (cases "\<exists>u. step s u")
    case True
    then obtain u where "step s u" by blast
    then show ?thesis using less [of u] decreases converse_rtranclp_into_rtranclp by metis
  qed blast
qed

end

end
