(* ===== verification/IngressProofs.thy ===== *)
theory IngressProofs
  imports Ingress Transitions
begin

text \<open>
  Invariants of the ingress core under every interleaving of admission, workers and shutdown: the
  bounds of the queue and the worker pool, and the conservation of items over the counters, with
  what is in flight between two counters accounted for. The link between acknowledgements and
  committed messages is proved in a locale over the validator and repository contracts in the next
  theory.
\<close>

section \<open>What is in flight\<close>

text \<open>A received item that is not counted as processed yet; one without an outcome yet; a counted commit
  whose acknowledgement has no outcome yet; and anything between the first and the last counter.\<close>

definition taken :: "worker \<Rightarrow> bool" where
  "taken w = (case w of WBusy _ _ PTaken \<Rightarrow> True | _ \<Rightarrow> False)"

definition undecided :: "worker \<Rightarrow> bool" where
  "undecided w = (case w of WBusy _ _ PStarted \<Rightarrow> True | WBusy _ _ (PValidated _) \<Rightarrow> True | WBusy _ _ (PPersisted _ _) \<Rightarrow> True | _ \<Rightarrow> False)"

definition unacknowledged :: "worker \<Rightarrow> bool" where
  "unacknowledged w = (case w of WBusy _ _ (PCommitted _ _ _) \<Rightarrow> True | WBusy _ _ (PConfirmed _ _ _) \<Rightarrow> True
     | WBusy _ _ (PPublished _) \<Rightarrow> True | _ \<Rightarrow> False)"

definition running :: "worker \<Rightarrow> bool" where
  "running w = (case w of WBusy _ _ ph \<Rightarrow> ph \<noteq> PTaken | _ \<Rightarrow> False)"

definition number_of :: "('a \<Rightarrow> bool) \<Rightarrow> 'a list \<Rightarrow> nat" where
  "number_of P xs = length (filter P xs)"

definition stop_seen :: "worker \<Rightarrow> bool" where
  "stop_seen w = (case w of WLoop \<Rightarrow> False | WBusy d _ _ \<Rightarrow> d | WDrain \<Rightarrow> True | WDone \<Rightarrow> True)"

definition outcomes :: "counters \<Rightarrow> counter" where
  "outcomes c = cn_validationRejected c + cn_persistFailures c + cn_commitUnconfirmed c + cn_identityMismatch c +
     cn_committed c + cn_duplicateCommitted c"

definition ack_outcomes :: "counters \<Rightarrow> counter" where
  "ack_outcomes c = cn_ackBuildFailures c + cn_ackPublished c + cn_ackPublishFailures c"

definition counters_inv :: "nat \<Rightarrow> nat \<Rightarrow> worker list \<Rightarrow> counters \<Rightarrow> bool" where
  "counters_inv sent waiting ws c \<longleftrightarrow>
     cn_accepted c + of_nat sent = of_nat waiting + of_nat (number_of taken ws) + cn_processed c \<and>
     cn_processed c = of_nat (number_of undecided ws) + outcomes c \<and>
     cn_committed c + cn_duplicateCommitted c = of_nat (number_of unacknowledged ws) + ack_outcomes c \<and>
     cn_processed c = of_nat (number_of running ws) + cn_processingCount c"

definition ingress_inv :: "ingress \<Rightarrow> bool" where
  "ingress_inv i \<longleftrightarrow>
     length (ig_queue i) \<le> ig_queueCapacity i \<and>
     0 \<le> cn_queueHighWater (ig_counters i) \<and> cn_queueHighWater (ig_counters i) \<le> int (ig_queueCapacity i) \<and>
     length (ig_workers i) = (if ig_started i then ig_workerCount i else 0) \<and>
     (\<not> ig_started i \<longrightarrow> ig_queue i = [] \<and> ig_sent i = 0) \<and>
     (ig_stopping i \<longrightarrow> admit_unlocked i) \<and>
     (\<not> ig_stopping i \<longrightarrow> (\<forall>w \<in> set (ig_workers i). \<not> stop_seen w)) \<and>
     (WDone \<in> set (ig_workers i) \<longrightarrow> ig_queue i = []) \<and>
     (\<forall>it \<in> set (ig_queue i). is_ok (ParseTopic (it_topic it)) \<and> int (length (it_payload it)) \<le> ig_maxPayloadBytes i) \<and>
     counters_inv (ig_sent i) (length (ig_queue i)) (ig_workers i) (ig_counters i)"

text \<open>The four differences that are zero in every state.\<close>

definition gaps :: "nat \<Rightarrow> nat \<Rightarrow> worker list \<Rightarrow> counters \<Rightarrow> counter \<times> counter \<times> counter \<times> counter" where
  "gaps sent waiting ws c =
     (cn_accepted c + of_nat sent - of_nat waiting - of_nat (number_of taken ws) - cn_processed c,
      cn_processed c - of_nat (number_of undecided ws) - outcomes c,
      cn_committed c + cn_duplicateCommitted c - of_nat (number_of unacknowledged ws) - ack_outcomes c,
      cn_processed c - of_nat (number_of running ws) - cn_processingCount c)"

lemma counters_inv_gaps: "counters_inv sent waiting ws c \<longleftrightarrow> gaps sent waiting ws c = (0, 0, 0, 0)"
  by (simp add: counters_inv_def gaps_def diff_eq_eq ac_simps)

lemma counters_inv_move: "counters_inv n q ws c \<Longrightarrow> gaps n' q' ws' c' = gaps n q ws c \<Longrightarrow> counters_inv n' q' ws' c'"
  by (simp add: counters_inv_gaps)

lemma stop_seen_simps [simp]:
  "\<not> stop_seen WLoop" "stop_seen (WBusy b it ph) = b" "stop_seen WDrain" "stop_seen WDone"
  by (simp_all add: stop_seen_def)

lemmas in_flight_defs = taken_def undecided_def unacknowledged_def running_def

lemma number_of_Nil [simp]: "number_of P [] = 0"
  by (simp add: number_of_def)

lemma number_of_replicate: "number_of P (replicate n x) = (if P x then n else 0)"
  by (simp add: number_of_def)

lemma number_of_update:
  assumes "w < length ws"
  shows "number_of P (ws[w := x]) + of_bool (P (ws ! w)) = number_of P ws + of_bool (P x)"
  using assms
proof (induction ws arbitrary: w)
  case (Cons a ws)
  then show ?case by (cases w) (auto simp: number_of_def)
qed simp

text \<open>The same for the counters' arithmetic.\<close>

lemma number_of_update_word:
  assumes "w < length ws"
  shows "(of_nat (number_of P (ws[w := x])) :: counter) = of_nat (number_of P ws) + of_bool (P x) - of_bool (P (ws ! w))"
proof -
  have "(of_nat (number_of P (ws[w := x]) + of_bool (P (ws ! w))) :: counter) = of_nat (number_of P ws + of_bool (P x))"
    using number_of_update [OF assms, of P x] by simp
  then show ?thesis by (simp add: algebra_simps)
qed

text \<open>Nothing is between the counters when no worker holds an item.\<close>

lemma idle_number_of:
  assumes "\<forall>w \<in> set ws. \<not> taken w \<and> \<not> running w"
  shows "number_of taken ws = 0 \<and> number_of undecided ws = 0 \<and> number_of unacknowledged ws = 0 \<and> number_of running ws = 0"
proof -
  have "undecided w \<or> unacknowledged w \<Longrightarrow> running w" for w
    by (cases w) (auto simp: in_flight_defs split: phase.splits)
  then show ?thesis using assms by (auto simp: number_of_def filter_empty_conv)
qed

section \<open>Admission and shutdown\<close>

lemma New_inv: "New opts a b c = Inr i \<Longrightarrow> ingress_inv i"
  by (auto simp: New_def ingress_inv_def zero_counters_def counters_inv_def outcomes_def ack_outcomes_def admit_unlocked_def
      split: if_splits)

lemma idle_workers: "number_of P (replicate n WLoop) = 0" if "\<not> P WLoop"
  using that by (simp add: number_of_replicate)

lemma Start_inv: "ingress_inv i \<Longrightarrow> ingress_inv (snd (Start i))"
  by (auto simp: Start_def ingress_inv_def counters_inv_def stop_seen_def admit_unlocked_def idle_workers in_flight_defs)

lemma recordQueueHighWater_props:
  "counters_inv n q ws (recordQueueHighWater k obs c) = counters_inv n q ws c"
  "0 \<le> cn_queueHighWater c \<Longrightarrow> 0 \<le> cn_queueHighWater (recordQueueHighWater k obs c)"
  "cn_queueHighWater c \<le> int k \<Longrightarrow> cn_queueHighWater (recordQueueHighWater k obs c) \<le> int k"
  "cn_queueHighWater c \<le> cn_queueHighWater (recordQueueHighWater k obs c)"
  "cn_accepted (recordQueueHighWater k obs c) = cn_accepted c"
  by (auto simp: recordQueueHighWater_def Let_def counters_inv_def outcomes_def ack_outcomes_def)

lemma ingress_inv_counters:
  assumes "ingress_inv i" and "cn_queueHighWater c = cn_queueHighWater (ig_counters i)"
    and "\<And>n q ws. counters_inv n q ws (ig_counters i) \<Longrightarrow> counters_inv n q ws c"
  shows "ingress_inv (i\<lparr>ig_counters := c\<rparr>)"
  using assms by (simp add: ingress_inv_def admit_unlocked_def)

lemma counters_inv_rejections:
  "counters_inv n q ws (c\<lparr>cn_rejectedNotRunning := x\<rparr>) = counters_inv n q ws c"
  "counters_inv n q ws (c\<lparr>cn_rejectedStopping := x\<rparr>) = counters_inv n q ws c"
  "counters_inv n q ws (c\<lparr>cn_rejectedRetained := x\<rparr>) = counters_inv n q ws c"
  "counters_inv n q ws (c\<lparr>cn_rejectedOversized := x\<rparr>) = counters_inv n q ws c"
  "counters_inv n q ws (c\<lparr>cn_rejectedInvalidTpc := x\<rparr>) = counters_inv n q ws c"
  "counters_inv n q ws (c\<lparr>cn_queueFull := x\<rparr>) = counters_inv n q ws c"
  by (simp_all add: counters_inv_def outcomes_def ack_outcomes_def)

lemma enqueue_inv:
  assumes inv: "ingress_inv i" and room: "length (ig_queue i) < ig_queueCapacity i" and open_: "ig_started i" "\<not> ig_stopping i"
    and item: "is_ok (ParseTopic (it_topic it))" "int (length (it_payload it)) \<le> ig_maxPayloadBytes i"
  shows "ingress_inv (i\<lparr>ig_queue := ig_queue i @ [it], ig_sent := ig_sent i + 1\<rparr>)"
proof -
  have "WDone \<notin> set (ig_workers i)" using inv open_ by (auto simp: ingress_inv_def stop_seen_def)
  moreover have "counters_inv (ig_sent i + 1) (length (ig_queue i) + 1) (ig_workers i) (ig_counters i)"
    by (rule counters_inv_move [of "ig_sent i" "length (ig_queue i)" "ig_workers i" "ig_counters i"])
       (use inv in \<open>simp add: ingress_inv_def\<close>, simp add: gaps_def)
  ultimately show ?thesis using inv room open_ item by (simp add: ingress_inv_def)
qed

lemma Admit_send_inv:
  assumes inv: "ingress_inv i"
  shows "ingress_inv (snd (Admit_send topic payload receivedAt retained i))"
proof -
  have rej: "ingress_inv (i\<lparr>ig_counters := (ig_counters i)\<lparr>cn_rejectedNotRunning := x\<rparr>\<rparr>)"
    "ingress_inv (i\<lparr>ig_counters := (ig_counters i)\<lparr>cn_rejectedStopping := x\<rparr>\<rparr>)"
    "ingress_inv (i\<lparr>ig_counters := (ig_counters i)\<lparr>cn_rejectedRetained := x\<rparr>\<rparr>)"
    "ingress_inv (i\<lparr>ig_counters := (ig_counters i)\<lparr>cn_rejectedOversized := x\<rparr>\<rparr>)"
    "ingress_inv (i\<lparr>ig_counters := (ig_counters i)\<lparr>cn_rejectedInvalidTpc := x\<rparr>\<rparr>)"
    "ingress_inv (i\<lparr>ig_counters := (ig_counters i)\<lparr>cn_queueFull := x\<rparr>\<rparr>)" for x
    by (rule ingress_inv_counters [OF inv]; simp add: counters_inv_rejections)+
  show ?thesis using enqueue_inv [OF inv] by (simp add: Admit_send_def Let_def rej)
qed

lemma Admit_count_inv:
  assumes "ingress_inv i" and "0 < ig_sent i"
  shows "ingress_inv (Admit_count i)"
proof -
  obtain n where n: "ig_sent i = Suc n" using assms(2) by (cases "ig_sent i") auto
  have "counters_inv n q ws (c\<lparr>cn_accepted := cn_accepted c + 1\<rparr>)" if "counters_inv (Suc n) q ws c" for q ws c
    by (rule counters_inv_move [OF that]) (simp add: gaps_def outcomes_def ack_outcomes_def)
  then show ?thesis using assms n by (auto simp: ingress_inv_def Admit_count_def Let_def admit_unlocked_def)
qed

lemma Admit_mark_inv: "ingress_inv i \<Longrightarrow> ingress_inv (Admit_mark observed i)"
  by (simp add: ingress_inv_def Admit_mark_def admit_unlocked_def recordQueueHighWater_props)

lemma StopAdmission_inv: "ingress_inv i \<Longrightarrow> admit_unlocked i \<Longrightarrow> ingress_inv (StopAdmission i)"
  by (auto simp: StopAdmission_def ingress_inv_def admit_unlocked_def)

lemma Drain_inv:
  "ingress_inv i \<Longrightarrow> ingress_inv (Drain_begin i)"
  "ingress_inv i \<Longrightarrow> admit_unlocked i \<Longrightarrow> ingress_inv (Drain_stop i)"
  by (simp add: Drain_begin_def ingress_inv_def admit_unlocked_def) (simp add: Drain_stop_def StopAdmission_inv)

lemma cancelRun_inv: "ingress_inv i \<Longrightarrow> ingress_inv (cancelRun i)"
  by (auto simp: cancelRun_def ingress_inv_def admit_unlocked_def)

lemmas ingress_ops_inv [inv_pres] =
  Start_inv Admit_send_inv Admit_count_inv Admit_mark_inv StopAdmission_inv Drain_inv cancelRun_inv

section \<open>Processing one item\<close>

text \<open>Every step of \<open>process\<close> moves one unit between what is in flight and the counters.\<close>

lemma outcomes_step:
  "outcomes (c\<lparr>cn_processed := x\<rparr>) = outcomes c" "outcomes (c\<lparr>cn_samplesNew := x\<rparr>) = outcomes c"
  "outcomes (c\<lparr>cn_validationRejected := cn_validationRejected c + 1\<rparr>) = outcomes c + 1"
  "outcomes (c\<lparr>cn_persistFailures := cn_persistFailures c + 1\<rparr>) = outcomes c + 1"
  "outcomes (c\<lparr>cn_commitUnconfirmed := cn_commitUnconfirmed c + 1\<rparr>) = outcomes c + 1"
  "outcomes (c\<lparr>cn_identityMismatch := cn_identityMismatch c + 1\<rparr>) = outcomes c + 1"
  "outcomes (c\<lparr>cn_committed := cn_committed c + 1\<rparr>) = outcomes c + 1"
  "outcomes (c\<lparr>cn_duplicateCommitted := cn_duplicateCommitted c + 1\<rparr>) = outcomes c + 1"
  "outcomes (c\<lparr>cn_ackBuildFailures := x\<rparr>) = outcomes c" "outcomes (c\<lparr>cn_ackPublished := x\<rparr>) = outcomes c"
  "outcomes (c\<lparr>cn_ackPublishFailures := x\<rparr>) = outcomes c"
  "outcomes (c\<lparr>cn_processingNanos := x\<rparr>) = outcomes c" "outcomes (c\<lparr>cn_processingCount := x\<rparr>) = outcomes c"
  by (simp_all add: outcomes_def ac_simps)

lemma ack_outcomes_step:
  "ack_outcomes (c\<lparr>cn_processed := x\<rparr>) = ack_outcomes c" "ack_outcomes (c\<lparr>cn_samplesNew := x\<rparr>) = ack_outcomes c"
  "ack_outcomes (c\<lparr>cn_validationRejected := x\<rparr>) = ack_outcomes c" "ack_outcomes (c\<lparr>cn_persistFailures := x\<rparr>) = ack_outcomes c"
  "ack_outcomes (c\<lparr>cn_commitUnconfirmed := x\<rparr>) = ack_outcomes c" "ack_outcomes (c\<lparr>cn_identityMismatch := x\<rparr>) = ack_outcomes c"
  "ack_outcomes (c\<lparr>cn_committed := x\<rparr>) = ack_outcomes c" "ack_outcomes (c\<lparr>cn_duplicateCommitted := x\<rparr>) = ack_outcomes c"
  "ack_outcomes (c\<lparr>cn_ackBuildFailures := cn_ackBuildFailures c + 1\<rparr>) = ack_outcomes c + 1"
  "ack_outcomes (c\<lparr>cn_ackPublished := cn_ackPublished c + 1\<rparr>) = ack_outcomes c + 1"
  "ack_outcomes (c\<lparr>cn_ackPublishFailures := cn_ackPublishFailures c + 1\<rparr>) = ack_outcomes c + 1"
  "ack_outcomes (c\<lparr>cn_processingNanos := x\<rparr>) = ack_outcomes c" "ack_outcomes (c\<lparr>cn_processingCount := x\<rparr>) = ack_outcomes c"
  by (simp_all add: ack_outcomes_def ac_simps)

lemma process_counters:
  assumes p: "process U validate persist pe it ph c d = (c', d', out, ph')"
    and w: "w < length ws" "ws ! w = WBusy draining it ph"
  shows "gaps n q (ws[w := after_phase draining it ph']) c' = gaps n q ws c"
    and "cn_accepted c' = cn_accepted c" "cn_queueHighWater c' = cn_queueHighWater c"
proof -
  note in_flight = after_phase_def in_flight_defs outcomes_step ack_outcomes_step gaps_def number_of_update_word [OF w(1)] w(2)
  have "gaps n q (ws[w := after_phase draining it ph']) c' = gaps n q ws c \<and> cn_accepted c' = cn_accepted c \<and>
      cn_queueHighWater c' = cn_queueHighWater c"
  proof (cases ph)
    case PStarted
    show ?thesis using p by (cases "validate (it_topic it) (it_payload it) (it_receivedAt it)") (use PStarted in \<open>auto simp: process_def\<close>, simp_all add: in_flight PStarted)
  next
    case (PValidated m)
    then show ?thesis using p by (cases "persist (pe_db pe) m d") (use PValidated in \<open>auto simp: process_def\<close>, simp_all add: in_flight PValidated)
  next
    case (PPersisted m res)
    then show ?thesis using p by (cases res) (use PPersisted in \<open>auto simp: process_def split: if_splits\<close>, simp_all add: in_flight PPersisted)
  next
    case (PConfirmed m r t)
    then show ?thesis
      using p by (cases "NewCommitACK U (pt_GatewayID (msg_topic m)) (bd_MessageID (msg_batch m)) (pr_Outcome r) t")
        (use PConfirmed in \<open>auto simp: process_def\<close>, simp_all add: in_flight PConfirmed)
  next
    case (PPublished e)
    then show ?thesis using p by (cases e) (use PPublished in \<open>auto simp: process_def\<close>, simp_all add: in_flight PPublished)
  qed (use p in \<open>auto simp: process_def\<close>, simp_all add: in_flight)
  then show "gaps n q (ws[w := after_phase draining it ph']) c' = gaps n q ws c"
    "cn_accepted c' = cn_accepted c" "cn_queueHighWater c' = cn_queueHighWater c" by simp_all
qed

text \<open>What one step may do to the database and to the outgoing acknowledgements.\<close>

lemma process_effect:
  assumes "process U validate persist pe it ph c d = (c', d', out, ph')"
  obtains (validated) m where "ph = PStarted" "validate (it_topic it) (it_payload it) (it_receivedAt it) = Inr m"
      "ph' = Some (PValidated m)" "d' = d" "out = None"
  | (persisted) m res where "ph = PValidated m" "persist (pe_db pe) m d = (res, d')" "ph' = Some (PPersisted m res)" "out = None"
  | (confirmed) m r where "ph = PPersisted m (Inr r) \<or> (\<exists>t. ph = PCommitted m r t)"
      "\<exists>t. ph' = Some (PCommitted m r t) \<or> ph' = Some (PConfirmed m r t)" "d' = d" "out = None"
  | (published) m r t topic ack where "ph = PConfirmed m r t"
      "NewCommitACK U (pt_GatewayID (msg_topic m)) (bd_MessageID (msg_batch m)) (pr_Outcome r) t = Inr (topic, ack)"
      "out = Some \<lparr>dl_Topic = topic, dl_Payload = marshalACK U ack, dl_QoS = 1, dl_Retained = False\<rparr>"
      "ph' = Some (PPublished (pe_publish pe))" "d' = d"
  | (silent) "d' = d" "out = None" "ph' \<in> {None, Some PStarted, Some PCounted, Some PTimed}"
  using assms
  by (auto simp: process_def split: phase.splits sum.splits prod.splits option.splits if_splits)

section \<open>Worker steps\<close>

lemma take_item_inv:
  assumes inv: "ingress_inv i" and w: "w < length (ig_workers i)" "ig_workers i ! w = WLoop \<or> ig_workers i ! w = WDrain" "ig_queue i \<noteq> []"
    and ok: "stop_seen (ig_workers i ! w) = draining"
  shows "ingress_inv (take_item w draining i)"
proof -
  obtain it q where q: "ig_queue i = it # q" using w(3) by (cases "ig_queue i") auto
  have "counters_inv (ig_sent i) (length q) ((ig_workers i)[w := WBusy draining it PTaken]) (ig_counters i)"
    by (rule counters_inv_move [of "ig_sent i" "length (ig_queue i)" "ig_workers i" "ig_counters i"])
       (use inv in \<open>simp add: ingress_inv_def\<close>, use w(2) in \<open>elim disjE; simp add: gaps_def number_of_update_word [OF w(1)] q in_flight_defs\<close>)
  moreover have "ig_workers i ! w \<in> set (ig_workers i)" using w(1) by simp
  moreover have "WDone \<notin> set (ig_workers i)" using inv w(3) by (auto simp: ingress_inv_def)
  ultimately show ?thesis
    using inv w(1,3) ok by (auto simp: take_item_def q ingress_inv_def admit_unlocked_def dest!: set_update_subset_insert [THEN subsetD])
qed

lemma worker_change_inv:
  assumes inv: "ingress_inv i" and w: "w < length (ig_workers i)" "ig_workers i ! w = WLoop \<or> ig_workers i ! w = WDrain"
    and x: "x = WDrain \<or> x = WDone" and "ig_stopping i" and "x = WDone \<Longrightarrow> ig_queue i = []"
  shows "ingress_inv (i\<lparr>ig_workers := (ig_workers i)[w := x]\<rparr>)"
proof -
  have "counters_inv (ig_sent i) (length (ig_queue i)) ((ig_workers i)[w := x]) (ig_counters i)"
    by (rule counters_inv_move [of "ig_sent i" "length (ig_queue i)" "ig_workers i" "ig_counters i"])
       (use inv in \<open>simp add: ingress_inv_def\<close>, use w(2) x in \<open>elim disjE; simp add: gaps_def number_of_update_word [OF w(1)] in_flight_defs\<close>)
  then show ?thesis
    using assms by (auto simp: ingress_inv_def admit_unlocked_def dest!: set_update_subset_insert [THEN subsetD])
qed

lemma item_step_inv:
  assumes inv: "ingress_inv (sv_ingress s)" and w: "w < length (ig_workers (sv_ingress s))"
    "ig_workers (sv_ingress s) ! w = WBusy draining it ph"
  shows "ingress_inv (sv_ingress (item_step U validate persist pe w draining it ph s))"
proof -
  let ?i = "sv_ingress s"
  obtain c d out ph' where p: "process U validate persist pe it ph (ig_counters ?i) (sv_db s) = (c, d, out, ph')"
    by (metis prod_cases4)
  let ?x = "after_phase draining it ph'"
  note k = process_counters [OF p w]
  have "counters_inv (ig_sent ?i) (length (ig_queue ?i)) (ig_workers ?i) (ig_counters ?i)" using inv by (simp add: ingress_inv_def)
  then have "counters_inv (ig_sent ?i) (length (ig_queue ?i)) ((ig_workers ?i)[w := ?x]) c"
    by (rule counters_inv_move) (rule k(1))
  moreover have "WBusy draining it ph \<in> set (ig_workers ?i)" using w by (metis nth_mem)
  then have "\<not> ig_stopping ?i \<Longrightarrow> \<not> draining" using inv by (auto simp: ingress_inv_def stop_seen_def)
  then have "\<not> ig_stopping ?i \<Longrightarrow> \<not> stop_seen ?x" "?x \<noteq> WDone" by (auto simp: after_phase_def stop_seen_def split: option.splits)
  ultimately show ?thesis
    using inv w k(3)
    by (auto simp: item_step_def p ingress_inv_def admit_unlocked_def dest!: set_update_subset_insert [THEN subsetD])
qed

lemma worker_step_inv: "worker_step U validate persist s s' \<Longrightarrow> ingress_inv (sv_ingress s) \<Longrightarrow> ingress_inv (sv_ingress s')"
proof (induction rule: worker_step.induct)
  case (loop_takes w i s)
  then show ?case using take_item_inv [of i w False] by (simp add: stop_seen_def)
next
  case (loop_stops w i s)
  then show ?case using worker_change_inv [of i w WDrain] by simp
next
  case (processes w i draining it ph s pe)
  then show ?case using item_step_inv by blast
next
  case (drain_takes w i s)
  then show ?case using take_item_inv [of i w True] by (simp add: stop_seen_def)
next
  case (drain_ends w i s)
  have "WDrain \<in> set (ig_workers i)" using drain_ends by (metis nth_mem)
  then have "ig_stopping i" using drain_ends by (auto simp: ingress_inv_def stop_seen_def)
  then show ?case using drain_ends worker_change_inv [of i w WDone] by simp
qed

lemma server_step_inv: "server_step U validate persist s s' \<Longrightarrow> ingress_inv (sv_ingress s) \<Longrightarrow> ingress_inv (sv_ingress s')"
  by (induction rule: server_step.induct) (auto intro: ingress_ops_inv worker_step_inv)

end
