(* ===== verification/IngressTheorems.thy ===== *)
theory IngressTheorems
  imports IngressProofs
begin

text \<open>
  The contract between the ingress pipeline, its validator and its repository as a locale, its
  interpretation by the telemetry validator and the PostgreSQL repository, and the properties of
  the running server.
\<close>

section \<open>The pipeline contract\<close>

text \<open>A delivery is the acknowledgement of a message.\<close>

definition ack_for :: "uuid_pkg \<Rightarrow> Delivery \<Rightarrow> Message \<Rightarrow> bool" where
  "ack_for U del m \<longleftrightarrow> (\<exists>outcome t topic ack.
     NewCommitACK U (pt_GatewayID (msg_topic m)) (bd_MessageID (msg_batch m)) outcome t = Inr (topic, ack) \<and>
     del = \<lparr>dl_Topic = topic, dl_Payload = marshalACK U ack, dl_QoS = 1, dl_Retained = False\<rparr>)"

text \<open>The items in the queue or with a worker.\<close>

definition items_of :: "ingress \<Rightarrow> item set" where
  "items_of i = set (ig_queue i) \<union> {it. \<exists>b ph. WBusy b it ph \<in> set (ig_workers i)}"

lemma items_of_worker: "items_of (i\<lparr>ig_workers := (ig_workers i)[w := x]\<rparr>) \<subseteq> items_of i \<union> {it. \<exists>b ph. x = WBusy b it ph}"
  by (auto simp: items_of_def dest!: set_update_subset_insert [THEN subsetD])

lemma items_of_take: "items_of (take_item w b i) \<subseteq> items_of i"
  by (cases "ig_queue i") (auto simp: items_of_def take_item_def dest!: set_update_subset_insert [THEN subsetD])

lemma items_of_counters [simp]: "items_of (i\<lparr>ig_counters := c, ig_workers := ws\<rparr>) = items_of (i\<lparr>ig_workers := ws\<rparr>)"
  by (simp add: items_of_def)

locale ack_pipeline = message_store persist committed inv valid unconfirmed
  for persist :: "db_env \<Rightarrow> Message \<Rightarrow> 'd \<Rightarrow> (go_error + PersistResult) \<times> 'd"
    and committed :: "'d \<Rightarrow> Message \<Rightarrow> bool" and inv :: "'d \<Rightarrow> bool" and valid :: "Message \<Rightarrow> bool"
    and unconfirmed :: "go_error \<Rightarrow> bool" +
  fixes U :: uuid_pkg and validate :: "string \<Rightarrow> string \<Rightarrow> time \<Rightarrow> go_error + Message"
  assumes validate_valid: "validate topic payload receivedAt = Inr m \<Longrightarrow> valid m"
begin

text \<open>A worker's message is the one its item decodes to, and once \<open>Persist\<close> has succeeded it is committed.\<close>

definition message_of :: "item \<Rightarrow> Message \<Rightarrow> bool" where
  "message_of it m \<longleftrightarrow> validate (it_topic it) (it_payload it) (it_receivedAt it) = Inr m"

definition phase_ok :: "'d \<Rightarrow> item \<Rightarrow> phase \<Rightarrow> bool" where
  "phase_ok d it ph \<longleftrightarrow> (case ph of
     PValidated m \<Rightarrow> message_of it m
   | PPersisted m res \<Rightarrow> message_of it m \<and> (\<forall>r. res = Inr r \<longrightarrow> committed d m)
   | PCommitted m r t \<Rightarrow> message_of it m \<and> committed d m
   | PConfirmed m r t \<Rightarrow> message_of it m \<and> committed d m
   | _ \<Rightarrow> True)"

text \<open>An acknowledgement stands for a committed message that some admitted item decodes to.\<close>

definition ack_backed :: "(item \<Rightarrow> bool) \<Rightarrow> 'd \<Rightarrow> Delivery \<Rightarrow> bool" where
  "ack_backed src d del \<longleftrightarrow> (\<exists>it m. src it \<and> message_of it m \<and> committed d m \<and> ack_for U del m)"

definition server_ok :: "(item \<Rightarrow> bool) \<Rightarrow> 'd server \<Rightarrow> bool" where
  "server_ok src s \<longleftrightarrow> inv (sv_db s) \<and> (\<forall>it \<in> items_of (sv_ingress s). src it) \<and>
     (\<forall>b it ph. WBusy b it ph \<in> set (ig_workers (sv_ingress s)) \<longrightarrow> phase_ok (sv_db s) it ph) \<and>
     (\<forall>del \<in> set (sv_out s). ack_backed src (sv_db s) del)"

lemma server_ok_mono: "server_ok src s \<Longrightarrow> (\<And>it. src it \<Longrightarrow> src' it) \<Longrightarrow> server_ok src' s"
  unfolding server_ok_def ack_backed_def by blast

lemma server_ok_frame:
  assumes "server_ok src s" and "items_of i \<subseteq> items_of (sv_ingress s) \<union> {it. src it}"
    and "\<And>b it ph. WBusy b it ph \<in> set (ig_workers i) \<Longrightarrow> WBusy b it ph \<in> set (ig_workers (sv_ingress s)) \<or> ph = PTaken"
  shows "server_ok src (s\<lparr>sv_ingress := i\<rparr>)"
proof -
  have "phase_ok d it PTaken" for d it by (simp add: phase_ok_def)
  then show ?thesis using assms unfolding server_ok_def by auto blast+
qed

text \<open>A transaction of another worker takes nothing away.\<close>

lemma persist_keeps:
  assumes "valid m" and "d' = snd (persist env m d)"
  shows "phase_ok d it ph \<Longrightarrow> phase_ok d' it ph" and "ack_backed src d del \<Longrightarrow> ack_backed src d' del"
proof -
  show "phase_ok d it ph \<Longrightarrow> phase_ok d' it ph"
    using persist_stable [OF assms(1)] unfolding assms(2) phase_ok_def by (auto split: phase.splits)
  show "ack_backed src d del \<Longrightarrow> ack_backed src d' del"
    using persist_stable [OF assms(1)] unfolding assms(2) ack_backed_def by blast
qed

lemma process_ok:
  assumes p: "process U validate persist pe it ph c d = (c', d', out, ph')" and ok: "phase_ok d it ph" and "inv d"
  shows "inv d'" and "ph' = Some p' \<Longrightarrow> phase_ok d' it p'"
    and "phase_ok d it2 ph2 \<Longrightarrow> phase_ok d' it2 ph2" and "ack_backed src d del \<Longrightarrow> ack_backed src d' del"
    and "out = Some x \<Longrightarrow> \<exists>m. message_of it m \<and> committed d' m \<and> ack_for U x m"
proof -
  have "inv d' \<and> (\<forall>p'. ph' = Some p' \<longrightarrow> phase_ok d' it p') \<and> (\<forall>it2 ph2. phase_ok d it2 ph2 \<longrightarrow> phase_ok d' it2 ph2) \<and>
      (\<forall>src del. ack_backed src d del \<longrightarrow> ack_backed src d' del) \<and>
      (\<forall>x. out = Some x \<longrightarrow> (\<exists>m. message_of it m \<and> committed d' m \<and> ack_for U x m))"
    using p
  proof (cases rule: process_effect)
    case (validated m)
    then show ?thesis using \<open>inv d\<close> by (simp add: phase_ok_def message_of_def)
  next
    case (persisted m res)
    have m: "message_of it m" using ok by (simp add: persisted phase_ok_def)
    then have v: "valid m" using validate_valid by (auto simp: message_of_def)
    have d': "d' = snd (persist (pe_db pe) m d)" using persisted(2) by simp
    have "res = Inr r \<Longrightarrow> committed d' m" for r using persist_ok [OF v] persisted(2) by blast
    then have "phase_ok d' it (PPersisted m res)" using m by (auto simp: phase_ok_def)
    moreover have "inv d'" using persist_inv [OF v \<open>inv d\<close>] d' by blast
    ultimately show ?thesis using persist_keeps [OF v d'] persisted(3,4) by blast
  next
    case (confirmed m r)
    then show ?thesis using ok \<open>inv d\<close> by (auto simp: phase_ok_def)
  next
    case (published m r t topic ack)
    then have "ack_for U \<lparr>dl_Topic = topic, dl_Payload = marshalACK U ack, dl_QoS = 1, dl_Retained = False\<rparr> m"
      by (auto simp: ack_for_def)
    then show ?thesis using ok \<open>inv d\<close> published by (auto simp: phase_ok_def)
  qed (use \<open>inv d\<close> in \<open>auto simp: phase_ok_def\<close>)
  then show "inv d'" "ph' = Some p' \<Longrightarrow> phase_ok d' it p'" "phase_ok d it2 ph2 \<Longrightarrow> phase_ok d' it2 ph2"
    "ack_backed src d del \<Longrightarrow> ack_backed src d' del" "out = Some x \<Longrightarrow> \<exists>m. message_of it m \<and> committed d' m \<and> ack_for U x m" by blast+
qed

lemma item_step_ok:
  assumes ok: "server_ok src s" and w: "w < length (ig_workers (sv_ingress s))" "ig_workers (sv_ingress s) ! w = WBusy b it ph"
  shows "server_ok src (item_step U validate persist pe w b it ph s)"
proof -
  let ?i = "sv_ingress s" and ?s' = "item_step U validate persist pe w b it ph s"
  obtain c d out ph' where p: "process U validate persist pe it ph (ig_counters ?i) (sv_db s) = (c, d, out, ph')"
    by (metis prod_cases4)
  have busy: "WBusy b it ph \<in> set (ig_workers ?i)" using w by (metis nth_mem)
  have ph: "phase_ok (sv_db s) it ph" and i: "inv (sv_db s)" and "src it"
    using ok busy by (auto simp: server_ok_def items_of_def)
  note k = process_ok [OF p ph i]
  have s': "sv_db ?s' = d" "sv_out ?s' = sv_out s @ (case out of None \<Rightarrow> [] | Some x \<Rightarrow> [x])"
      "sv_ingress ?s' = ?i\<lparr>ig_counters := c, ig_workers := (ig_workers ?i)[w := after_phase b it ph']\<rparr>"
    by (simp_all add: item_step_def p)
  have "src it2" if "it2 \<in> items_of (sv_ingress ?s')" for it2
    using that ok \<open>src it\<close> items_of_worker [of ?i w "after_phase b it ph'"]
    by (auto simp: s' server_ok_def after_phase_def split: option.splits if_splits)
  moreover have "phase_ok d it2 ph2" if "WBusy b2 it2 ph2 \<in> set (ig_workers (sv_ingress ?s'))" for b2 it2 ph2
  proof -
    have "WBusy b2 it2 ph2 \<in> set (ig_workers ?i) \<or> WBusy b2 it2 ph2 = after_phase b it ph'"
      using that by (auto simp: s' dest!: set_update_subset_insert [THEN subsetD])
    then show ?thesis using ok k(2,3) by (auto simp: server_ok_def after_phase_def split: option.splits if_splits)
  qed
  moreover have "ack_backed src d del" if "del \<in> set (sv_out ?s')" for del
    using that ok k(4,5) \<open>src it\<close> by (auto simp: s' server_ok_def ack_backed_def split: option.splits)
  ultimately show ?thesis using k(1) by (simp add: server_ok_def s')
qed

lemma worker_step_ok: "worker_step U validate persist s s' \<Longrightarrow> server_ok src s \<Longrightarrow> server_ok src s'"
proof (induction rule: worker_step.induct)
  case (loop_takes w i s)
  then show ?case using items_of_take [of w False i]
    by (intro server_ok_frame) (auto simp: take_item_def split: list.splits dest!: set_update_subset_insert [THEN subsetD])
next
  case (loop_stops w i s)
  then show ?case using items_of_worker [of i w WDrain]
    by (intro server_ok_frame) (auto dest!: set_update_subset_insert [THEN subsetD])
next
  case (processes w i draining it ph s pe)
  then show ?case using item_step_ok by blast
next
  case (drain_takes w i s)
  then show ?case using items_of_take [of w True i]
    by (intro server_ok_frame) (auto simp: take_item_def split: list.splits dest!: set_update_subset_insert [THEN subsetD])
next
  case (drain_ends w i s)
  then show ?case using items_of_worker [of i w WDone]
    by (intro server_ok_frame) (auto dest!: set_update_subset_insert [THEN subsetD])
qed

lemma server_step_ok:
  assumes "server_step U validate persist s s'" and ok: "server_ok src s"
    and new: "\<And>it. it \<in> set (ig_queue (sv_ingress s')) \<Longrightarrow> it \<in> set (ig_queue (sv_ingress s)) \<or> src it"
  shows "server_ok src s'"
  using assms(1)
proof (cases rule: server_step.cases)
  case works
  then show ?thesis using worker_step_ok ok by blast
next
  case starts
  then show ?thesis using ok by (auto intro!: server_ok_frame simp: Start_def items_of_def)
next
  case (admits topic payload receivedAt retained)
  have "ig_workers (snd (Admit_send topic payload receivedAt retained (sv_ingress s))) = ig_workers (sv_ingress s)"
    by (simp add: Admit_send_def Let_def)
  then show ?thesis using ok new unfolding admits by (intro server_ok_frame) (auto simp: items_of_def)
qed (use ok in \<open>auto intro!: server_ok_frame
      simp: items_of_def Admit_count_def Admit_mark_def StopAdmission_def Drain_begin_def Drain_stop_def cancelRun_def Let_def\<close>)

end

section \<open>The server\<close>

abbreviation repository_persist :: "uuid_pkg \<Rightarrow> db_env \<Rightarrow> Message \<Rightarrow> db \<Rightarrow> (go_error + PersistResult) \<times> db" where
  "repository_persist U \<equiv> (\<lambda>env m. Persist U env (Some m))"

interpretation pipe: ack_pipeline "repository_persist U" ledger_has store_inv "validated U" commit_unconfirmed U
  "Validate U (Some l)" for U l
proof unfold_locales
  show "validated U m" if "Validate U (Some l) topic payload receivedAt = Inr m" for topic payload receivedAt m
    using Validate_wf [OF that] by (auto simp: validated_def)
qed

definition server_init :: "db server \<Rightarrow> bool" where
  "server_init s \<longleftrightarrow> (\<exists>opts. New opts False False False = Inr (sv_ingress s)) \<and> store_inv (sv_db s) \<and> sv_out s = []"

definition run_step :: "uuid_pkg \<Rightarrow> Limits \<Rightarrow> db server \<Rightarrow> db server \<Rightarrow> bool" where
  "run_step U l = server_step U (Validate U (Some l)) (repository_persist U)"

interpretation srv: transition_system server_init "run_step U l" for U l .

lemma New_idle: "New opts v r p = Inr i \<Longrightarrow> items_of i = {} \<and> ig_workers i = []"
  by (auto simp: items_of_def New_def split: if_splits)

lemma server_reach_inv:
  assumes "srv.reach U l s"
  shows "ingress_inv (sv_ingress s)" and "pipe.server_ok U l (\<lambda>_. True) s"
proof -
  show "ingress_inv (sv_ingress s)"
    using assms by (rule srv.invariant) (auto simp: server_init_def run_step_def intro: New_inv server_step_inv)
  show "pipe.server_ok U l (\<lambda>_. True) s"
  proof (rule srv.invariant [OF assms])
    show "pipe.server_ok U l (\<lambda>_. True) s" if "server_init s" for s
      using that by (auto simp: server_init_def pipe.server_ok_def dest: New_idle)
  qed (auto simp: run_step_def intro: pipe.server_step_ok)
qed

lemma reach_from_init: "server_init s0 \<Longrightarrow> (run_step U l)\<^sup>*\<^sup>* s0 s \<Longrightarrow> srv.reach U l s"
  using srv.reach_steps srv.reach_init by blast

section \<open>Draining\<close>

definition phase_weight :: "phase \<Rightarrow> nat" where
  "phase_weight ph = (case ph of PTaken \<Rightarrow> 9 | PStarted \<Rightarrow> 8 | PValidated _ \<Rightarrow> 7 | PPersisted _ _ \<Rightarrow> 6 | PCommitted _ _ _ \<Rightarrow> 5
     | PConfirmed _ _ _ \<Rightarrow> 4 | PPublished _ \<Rightarrow> 3 | PCounted \<Rightarrow> 2 | PTimed \<Rightarrow> 1)"

definition worker_weight :: "worker \<Rightarrow> nat" where
  "worker_weight w = (case w of WDone \<Rightarrow> 0 | WDrain \<Rightarrow> 1 | WLoop \<Rightarrow> 2 | WBusy d _ ph \<Rightarrow> phase_weight ph + (if d then 1 else 2))"

definition drain_measure :: "'d server \<Rightarrow> nat" where
  "drain_measure s = 10 * length (ig_queue (sv_ingress s)) + sum_list (map worker_weight (ig_workers (sv_ingress s)))"

lemma process_weight:
  assumes "process U validate persist pe it ph c d = (c', d', out, ph')"
  shows "worker_weight (after_phase b it ph') < worker_weight (WBusy b it ph)"
  using assms by (cases ph) (auto simp: process_def after_phase_def worker_weight_def phase_weight_def
      split: sum.splits prod.splits option.splits if_splits)

lemma weight_update:
  assumes "w < length ws"
  shows "sum_list (map worker_weight (ws[w := x])) + worker_weight (ws ! w) = sum_list (map worker_weight ws) + worker_weight x"
  using assms
proof (induction ws arbitrary: w)
  case (Cons a ws)
  then show ?case by (cases w) auto
qed simp

lemma worker_step_decreases: "worker_step U validate persist s s' \<Longrightarrow> drain_measure s' < drain_measure s"
proof (induction rule: worker_step.induct)
  case (loop_takes w i s)
  then show ?case
    using weight_update [OF loop_takes(1), of "WBusy False (hd (ig_queue i)) PTaken"]
    by (cases "ig_queue i") (auto simp: drain_measure_def take_item_def worker_weight_def phase_weight_def)
next
  case (loop_stops w i s)
  then show ?case using weight_update [OF loop_stops(1), of WDrain] by (auto simp: drain_measure_def worker_weight_def)
next
  case (processes w i draining it ph s pe)
  obtain c d out ph' where p: "process U validate persist pe it ph (ig_counters i) (sv_db s) = (c, d, out, ph')"
    by (metis prod_cases4)
  then show ?case
    using weight_update [OF processes(1), of "after_phase draining it ph'"] process_weight [OF p, of draining] processes
    by (simp add: drain_measure_def item_step_def)
next
  case (drain_takes w i s)
  then show ?case
    using weight_update [OF drain_takes(1), of "WBusy True (hd (ig_queue i)) PTaken"]
    by (cases "ig_queue i") (auto simp: drain_measure_def take_item_def worker_weight_def phase_weight_def)
next
  case (drain_ends w i s)
  then show ?case using weight_update [OF drain_ends(1), of WDone] by (auto simp: drain_measure_def worker_weight_def)
qed

interpretation drain: decreasing "worker_step U validate persist" drain_measure for U validate persist
  by unfold_locales (rule worker_step_decreases)

text \<open>A stopped pool without a possible step has finished everything.\<close>

lemma stuck_workers_done:
  assumes stuck: "\<forall>s'. \<not> worker_step U validate persist s s'" and stop: "ig_stopping (sv_ingress s)"
  shows "workers_done (sv_ingress s)"
proof -
  let ?i = "sv_ingress s"
  have "ig_workers ?i ! w = WDone" if w: "w < length (ig_workers ?i)" for w
  proof (cases "ig_workers ?i ! w")
    case WLoop
    then show ?thesis using worker_step.loop_stops [OF w _ stop refl] stuck by blast
  next
    case (WBusy d it ph)
    then show ?thesis using worker_step.processes [OF w _ refl] stuck by blast
  next
    case WDrain
    then show ?thesis
      using worker_step.drain_takes [OF w _ _ refl] worker_step.drain_ends [OF w _ _ refl] stuck by blast
  qed simp
  then show ?thesis by (simp add: workers_done_def list_all_length)
qed

text \<open>What worker steps leave alone.\<close>

lemma worker_step_frame [frame]:
  assumes "worker_step U validate persist s s'"
  shows "ig_stopping (sv_ingress s') = ig_stopping (sv_ingress s)"
    "ig_started (sv_ingress s') = ig_started (sv_ingress s)"
    "ig_workerCount (sv_ingress s') = ig_workerCount (sv_ingress s)"
    "suffix (ig_queue (sv_ingress s')) (ig_queue (sv_ingress s))"
    "cn_accepted (ig_counters (sv_ingress s')) = cn_accepted (ig_counters (sv_ingress s))"
proof -
  have acc: "cn_accepted c' = cn_accepted c" if p: "process U validate persist pe it ph c d = (c', d', out, ph')" for pe it ph c d c' d' out ph'
    using p by (auto simp: process_def split: phase.splits sum.splits prod.splits if_splits option.splits)
  show "ig_stopping (sv_ingress s') = ig_stopping (sv_ingress s)"
    "ig_started (sv_ingress s') = ig_started (sv_ingress s)"
    "ig_workerCount (sv_ingress s') = ig_workerCount (sv_ingress s)"
    "suffix (ig_queue (sv_ingress s')) (ig_queue (sv_ingress s))"
    "cn_accepted (ig_counters (sv_ingress s')) = cn_accepted (ig_counters (sv_ingress s))"
    using assms
    by (induction rule: worker_step.induct)
       (auto simp: take_item_def item_step_def suffix_ConsI acc split: list.splits prod.splits)
qed

lemma drained:
  assumes inv: "ingress_inv i" and "workers_done i" and "0 < ig_workerCount i" and "ig_stopping i"
  shows "ig_queue i = []" and "cn_accepted (ig_counters i) = cn_processed (ig_counters i)"
proof -
  have q: "ig_queue i = []"
  proof (cases "ig_started i")
    case True
    then have "ig_workers i \<noteq> []" using inv assms(3) by (auto simp: ingress_inv_def)
    then have "WDone \<in> set (ig_workers i)" using assms(2) by (cases "ig_workers i") (auto simp: workers_done_def)
    then show ?thesis using inv by (simp add: ingress_inv_def)
  qed (use inv in \<open>simp add: ingress_inv_def\<close>)
  have "number_of taken ws = 0" if "list_all (\<lambda>w. w = WDone) ws" for ws
    using that by (induction ws) (auto simp: number_of_def taken_def)
  then have "number_of taken (ig_workers i) = 0" using assms(2) by (simp add: workers_done_def)
  then show "ig_queue i = []" "cn_accepted (ig_counters i) = cn_processed (ig_counters i)"
    using inv q assms(4) by (auto simp: ingress_inv_def counters_inv_def admit_unlocked_def)
qed

lemma New_workers: "New opts v p a = Inr i \<Longrightarrow> 0 < ig_workerCount i"
  by (auto simp: New_def split: if_splits)

text \<open>After \<open>StopAdmission\<close>, no step of the server admits anything.\<close>

lemma stopped_step:
  assumes "server_step U validate persist s s'" and "ig_stopping (sv_ingress s)"
    and "admit_unlocked (sv_ingress s)"
  shows "ig_stopping (sv_ingress s') \<and> suffix (ig_queue (sv_ingress s')) (ig_queue (sv_ingress s)) \<and>
    cn_accepted (ig_counters (sv_ingress s')) = cn_accepted (ig_counters (sv_ingress s))"
  using assms
proof (cases rule: server_step.cases)
  case works
  then show ?thesis using worker_step_frame assms(2) by metis
qed (auto simp: Start_def Admit_send_def StopAdmission_def Drain_begin_def Drain_stop_def cancelRun_def admit_unlocked_def Let_def)

section \<open>A run\<close>

text \<open>One step of a worker, and the steps of a worker whose message is stored and acknowledged.\<close>

definition stands_at :: "nat \<Rightarrow> item \<Rightarrow> phase \<Rightarrow> 'd server \<Rightarrow> bool" where
  "stands_at w it ph s \<longleftrightarrow> w < length (ig_workers (sv_ingress s)) \<and> ig_workers (sv_ingress s) ! w = WBusy False it ph"

lemma phase_step:
  assumes "stands_at w it ph s" and "\<And>c. \<exists>c'. process U validate persist pe it ph c (sv_db s) = (c', d', out, Some ph')"
  shows "\<exists>s'. worker_step U validate persist s s' \<and> stands_at w it ph' s' \<and> sv_db s' = d' \<and>
    sv_out s' = sv_out s @ (case out of None \<Rightarrow> [] | Some x \<Rightarrow> [x])"
proof -
  obtain c' where "process U validate persist pe it ph (ig_counters (sv_ingress s)) (sv_db s) = (c', d', out, Some ph')"
    using assms(2) by blast
  then show ?thesis
    using worker_step.processes [of w "sv_ingress s" False it ph s U validate persist pe] assms(1)
    by (intro exI [of _ "item_step U validate persist pe w False it ph s"]) (simp add: stands_at_def item_step_def after_phase_def)
qed

lemma item_published:
  fixes pe :: process_env
  assumes at: "stands_at w it PTaken s"
    and v: "validate (it_topic it) (it_payload it) (it_receivedAt it) = Inr m"
    and p: "persist (pe_db pe) m (sv_db s) = (Inr r, d')" and r: "pr_Outcome r = CommitOutcomeCommitted" "identityMatches m (pr_Identity r)"
    and a: "NewCommitACK U (pt_GatewayID (msg_topic m)) (bd_MessageID (msg_batch m)) CommitOutcomeCommitted (pe_confirmedAt pe) = Inr (topic, ack)"
  shows "\<exists>s'. (worker_step U validate persist)\<^sup>*\<^sup>* s s' \<and> sv_db s' = d' \<and>
    sv_out s' = sv_out s @ [\<lparr>dl_Topic = topic, dl_Payload = marshalACK U ack, dl_QoS = 1, dl_Retained = False\<rparr>]"
proof -
  let ?step = "worker_step U validate persist"
  obtain s1 where s1: "?step s s1" "stands_at w it PStarted s1" "sv_db s1 = sv_db s" "sv_out s1 = sv_out s"
    using phase_step [OF at, of U validate persist pe "sv_db s" None PStarted] by (auto simp: process_def)
  obtain s2 where s2: "?step s1 s2" "stands_at w it (PValidated m) s2" "sv_db s2 = sv_db s" "sv_out s2 = sv_out s"
    using phase_step [OF s1(2), of U validate persist pe "sv_db s" None "PValidated m"] s1 v by (auto simp: process_def)
  obtain s3 where s3: "?step s2 s3" "stands_at w it (PPersisted m (Inr r)) s3" "sv_db s3 = d'" "sv_out s3 = sv_out s"
    using phase_step [OF s2(2), of U validate persist pe d' None "PPersisted m (Inr r)"] s2 p by (auto simp: process_def)
  obtain s4 where s4: "?step s3 s4" "stands_at w it (PCommitted m r (pe_confirmedAt pe)) s4" "sv_db s4 = d'" "sv_out s4 = sv_out s"
    using phase_step [OF s3(2), of U validate persist pe d' None "PCommitted m r (pe_confirmedAt pe)"] s3 r by (auto simp: process_def)
  obtain s5 where s5: "?step s4 s5" "stands_at w it (PConfirmed m r (pe_confirmedAt pe)) s5" "sv_db s5 = d'" "sv_out s5 = sv_out s"
    using phase_step [OF s4(2), of U validate persist pe d' None "PConfirmed m r (pe_confirmedAt pe)"] s4 by (auto simp: process_def)
  obtain s6 where s6: "?step s5 s6" "sv_db s6 = d'"
      "sv_out s6 = sv_out s @ [\<lparr>dl_Topic = topic, dl_Payload = marshalACK U ack, dl_QoS = 1, dl_Retained = False\<rparr>]"
    using phase_step [OF s5(2), of U validate persist pe d'
        "Some \<lparr>dl_Topic = topic, dl_Payload = marshalACK U ack, dl_QoS = 1, dl_Retained = False\<rparr>" "PPublished (pe_publish pe)"] s5 r a
    by (auto simp: process_def)
  have "?step\<^sup>*\<^sup>* s s6" using s1(1) s2(1) s3(1) s4(1) s5(1) s6(1) by (meson converse_rtranclp_into_rtranclp r_into_rtranclp)
  then show ?thesis using s6 by blast
qed

text \<open>One batch through a server with a single worker: the run behind the witnesses.\<close>

definition fx_ingress :: ingress where
  "fx_ingress = \<lparr>ig_workerCount = 1, ig_maxPayloadBytes = 65536, ig_queueCapacity = 4, ig_queue = [], ig_sent = 0, ig_marking = 0, ig_stopping = False,
     ig_started = False, ig_draining = False, ig_cancelled = False, ig_workers = [], ig_counters = zero_counters\<rparr>"

definition fx_server :: "db server" where
  "fx_server = \<lparr>sv_ingress = fx_ingress, sv_db = fx_db, sv_out = []\<rparr>"

definition fx_item :: item where
  "fx_item = \<lparr>it_topic = ''gateways/gw1/telemetry/s1'', it_payload = fx_payload, it_receivedAt = fx_start\<rparr>"

definition fx_pe :: process_env where
  "fx_pe = \<lparr>pe_db = fx_env, pe_confirmedAt = fx_start, pe_publish = None, pe_elapsed = 5\<rparr>"

definition fx_queued :: "db server" where
  "fx_queued = fx_server\<lparr>sv_ingress := fx_ingress\<lparr>ig_started := True, ig_workers := [WLoop], ig_queue := [fx_item],
     ig_counters := zero_counters\<lparr>cn_accepted := 1, cn_queueHighWater := 1\<rparr>\<rparr>\<rparr>"

definition fx_taken :: "db server" where
  "fx_taken = fx_server\<lparr>sv_ingress := fx_ingress\<lparr>ig_started := True, ig_workers := [WBusy False fx_item PTaken],
     ig_counters := zero_counters\<lparr>cn_accepted := 1, cn_queueHighWater := 1\<rparr>\<rparr>\<rparr>"

definition fx_begun :: "db server" where
  "fx_begun = item_step canonical_uuid (Validate canonical_uuid (Some fx_limits)) (repository_persist canonical_uuid)
     fx_pe 0 False fx_item PTaken fx_taken"

definition fx_ack :: CommitACK where
  "fx_ack = \<lparr>ack_ProtocolVersion = 1, ack_MessageType = ''telemetry_ack'', ack_MessageID = fx_mid,
     ack_Status = ''committed'', ack_CommittedAt = fx_start\<rparr>"

definition fx_delivery :: Delivery where
  "fx_delivery = \<lparr>dl_Topic = ack_topic canonical_uuid ''gw1'' fx_mid, dl_Payload = marshalACK canonical_uuid fx_ack,
     dl_QoS = 1, dl_Retained = False\<rparr>"

lemma fx_init: "server_init fx_server"
proof -
  have "New \<lparr>op_QueueCapacity = 4, op_WorkerCount = 1, op_MaxPayloadBytes = 65536, op_PersistTimeout = 1,
      op_PublishTimeout = 1\<rparr> False False False = Inr fx_ingress" by (simp add: New_def fx_ingress_def)
  then show ?thesis using fx_store_inv by (auto simp: server_init_def fx_server_def)
qed

lemma fx_queued_unlocked: "admit_unlocked (sv_ingress fx_queued)"
  by (simp add: admit_unlocked_def fx_queued_def fx_ingress_def fx_server_def)

lemma fx_run_queued: "(run_step canonical_uuid fx_limits)\<^sup>*\<^sup>* fx_server fx_queued"
proof -
  let ?s1 = "fx_server\<lparr>sv_ingress := fx_ingress\<lparr>ig_started := True, ig_workers := [WLoop]\<rparr>\<rparr>"
  have start: "snd (Start (sv_ingress fx_server)) = fx_ingress\<lparr>ig_started := True, ig_workers := [WLoop]\<rparr>"
    by (simp add: Start_def fx_server_def fx_ingress_def)
  have "run_step canonical_uuid fx_limits fx_server ?s1"
    unfolding run_step_def start [symmetric] by (rule server_step.starts)
  let ?s2 = "?s1\<lparr>sv_ingress := (sv_ingress ?s1)\<lparr>ig_queue := [fx_item], ig_sent := 1\<rparr>\<rparr>"
  let ?s3 = "?s2\<lparr>sv_ingress := Admit_count (sv_ingress ?s2)\<rparr>"
  have "snd (Admit_send ''gateways/gw1/telemetry/s1'' fx_payload fx_start False (sv_ingress ?s1)) = sv_ingress ?s2"
    using fx_payload_size fx_topic_ok by (simp add: Admit_send_def fx_ingress_def Let_def fx_item_def)
  moreover have "?s2 = ?s1\<lparr>sv_ingress := sv_ingress ?s2\<rparr>" by simp
  ultimately have send: "run_step canonical_uuid fx_limits ?s1 ?s2" unfolding run_step_def by (metis server_step.admits)
  have count: "run_step canonical_uuid fx_limits ?s2 ?s3" unfolding run_step_def by (rule server_step.counts) simp
  have "fx_queued = ?s3\<lparr>sv_ingress := Admit_mark 1 (sv_ingress ?s3)\<rparr>"
    by (simp add: fx_queued_def Admit_count_def Admit_mark_def Let_def recordQueueHighWater_def fx_ingress_def zero_counters_def)
  moreover have "run_step canonical_uuid fx_limits ?s3 (?s3\<lparr>sv_ingress := Admit_mark 1 (sv_ingress ?s3)\<rparr>)"
    unfolding run_step_def by (rule server_step.marks) (simp_all add: Admit_count_def Let_def fx_ingress_def)
  ultimately have "run_step canonical_uuid fx_limits ?s3 fx_queued" by simp
  with \<open>run_step canonical_uuid fx_limits fx_server ?s1\<close> send count show ?thesis
    by (meson converse_rtranclp_into_rtranclp r_into_rtranclp)
qed

lemma fx_run: "(run_step canonical_uuid fx_limits)\<^sup>*\<^sup>* fx_server fx_taken"
proof -
  have "run_step canonical_uuid fx_limits fx_queued fx_taken"
  proof -
    have "worker_step canonical_uuid (Validate canonical_uuid (Some fx_limits)) (repository_persist canonical_uuid) fx_queued
        (fx_queued\<lparr>sv_ingress := take_item 0 False (sv_ingress fx_queued)\<rparr>)"
      by (rule worker_step.loop_takes) (simp_all add: fx_queued_def)
    moreover have "fx_queued\<lparr>sv_ingress := take_item 0 False (sv_ingress fx_queued)\<rparr> = fx_taken"
      by (simp add: fx_queued_def fx_taken_def take_item_def fx_ingress_def)
    ultimately show ?thesis unfolding run_step_def by (metis server_step.works)
  qed
  with fx_run_queued show ?thesis by (rule rtranclp.rtrancl_into_rtrancl)
qed

lemma works_run: "(worker_step U (Validate U (Some l)) (repository_persist U))\<^sup>*\<^sup>* s s' \<Longrightarrow> (run_step U l)\<^sup>*\<^sup>* s s'"
  unfolding run_step_def by (erule rtranclp_mono [THEN predicate2D, rotated]) (auto intro: server_step.works)

lemma fx_run_begun: "(run_step canonical_uuid fx_limits)\<^sup>*\<^sup>* fx_server fx_begun"
proof -
  have "worker_step canonical_uuid (Validate canonical_uuid (Some fx_limits)) (repository_persist canonical_uuid) fx_taken fx_begun"
    unfolding fx_begun_def by (rule worker_step.processes) (simp_all add: fx_taken_def)
  then have "run_step canonical_uuid fx_limits fx_taken fx_begun" unfolding run_step_def by (rule server_step.works)
  then show ?thesis using fx_run by (rule rtranclp.rtrancl_into_rtrancl [rotated])
qed

lemma fx_newack: "NewCommitACK canonical_uuid ''gw1'' fx_mid CommitOutcomeCommitted fx_start =
  Inr (ack_topic canonical_uuid ''gw1'' fx_mid, fx_ack)"
  using fx_ids(1) fx_names(1)
  by (auto simp: NewCommitACK_def valid_message_id_def fx_ack_def fx_start_def endOfYear9999_def nsPerDay_def)

lemma fx_taken_out: "sv_out fx_taken = []"
  by (simp add: fx_taken_def fx_server_def)

lemma fx_run_published: "\<exists>s. (run_step canonical_uuid fx_limits)\<^sup>*\<^sup>* fx_server s \<and> sv_out s = [fx_delivery]"
proof -
  have at: "stands_at 0 fx_item PTaken fx_taken" by (simp add: stands_at_def fx_taken_def)
  have "\<exists>s'. (worker_step canonical_uuid (Validate canonical_uuid (Some fx_limits)) (repository_persist canonical_uuid))\<^sup>*\<^sup>* fx_taken s' \<and>
      sv_db s' = snd (Persist canonical_uuid fx_env (Some fx_message) fx_db) \<and> sv_out s' = sv_out fx_taken @ [fx_delivery]"
    unfolding fx_delivery_def
    by (rule item_published [OF at, where m = fx_message and pe = fx_pe])
       (simp_all add: fx_item_def fx_Validate fx_pe_def fx_taken_def fx_server_def fx_commit identityMatches_def fx_resource_def,
        simp_all add: fx_message_def fx_topic_def fx_batch_def metadata_of_def Let_def fx_newack)
  then show ?thesis using fx_run works_run by (metis rtranclp_trans append_Nil fx_taken_out)
qed

section \<open>Properties\<close>

text \<open>C3. No acknowledgement before its commit. In every state a server can reach, under every
  interleaving of deliveries, workers, database faults, publish failures and shutdown, each
  acknowledgement handed to the publisher is QoS 1 and not retained, belongs to a message whose
  ledger row is in the database, goes to that message's own topic, and is accepted by the Gateway's
  parser as the acknowledgement of that message.\<close>

theorem ack_only_after_commit:
  assumes U: "uuid_text_ok U" and init: "server_init s0" and run: "(run_step U l)\<^sup>*\<^sup>* s0 s" and del: "del \<in> set (sv_out s)"
  shows "\<exists>m ack. ledger_has (sv_db s) m \<and> dl_QoS del = 1 \<and> \<not> dl_Retained del \<and>
    dl_Topic del = ack_topic U (pt_GatewayID (msg_topic m)) (bd_MessageID (msg_batch m)) \<and>
    ParseCommitACK U (dl_Topic del) (dl_Payload del) (pt_GatewayID (msg_topic m)) = Inr ack \<and>
    ack_MessageID ack = bd_MessageID (msg_batch m)"
proof -
  have "pipe.server_ok U l (\<lambda>_. True) s" using server_reach_inv(2) [OF reach_from_init [OF init run]] .
  then obtain m outcome t topic ack where m: "ledger_has (sv_db s) m"
      and a: "NewCommitACK U (pt_GatewayID (msg_topic m)) (bd_MessageID (msg_batch m)) outcome t = Inr (topic, ack)"
      and d: "del = \<lparr>dl_Topic = topic, dl_Payload = marshalACK U ack, dl_QoS = 1, dl_Retained = False\<rparr>"
    using del by (fastforce simp: pipe.server_ok_def pipe.ack_backed_def ack_for_def)
  show ?thesis using m d ack_agreement [OF U a] NewCommitACK_ok(1,7) [OF a] by auto
qed

theorem ack_only_after_commit_witness:
  "\<exists>s. (run_step canonical_uuid fx_limits)\<^sup>*\<^sup>* fx_server s \<and> sv_out s = [fx_delivery] \<and> (\<exists>m. ledger_has (sv_db s) m)"
proof -
  obtain s where s: "(run_step canonical_uuid fx_limits)\<^sup>*\<^sup>* fx_server s" "sv_out s = [fx_delivery]" using fx_run_published by blast
  then have "fx_delivery \<in> set (sv_out s)" by simp
  from ack_only_after_commit [OF canonical_text_ok fx_init s(1) this] show ?thesis using s by blast
qed

text \<open>C10. Bounded resources and conservation. In every reachable state the queue holds at most its
  capacity, the high-water mark is within the capacity, the pool has its fixed size, every queued
  item has a well-formed topic and an admissible size, and the counters account for every item,
  whatever is in flight: accepted deliveries and those enqueued but not yet counted are waiting, just
  received by a worker, or processed; a processed item is still undecided with a worker or was
  rejected, failed, unconfirmed, mismatched, committed or a committed duplicate; a confirmed commit is
  still being acknowledged by a worker or ended in exactly one of the three acknowledgement
  outcomes; and the latency count lags the processed count by the items with workers. All as 64-bit
  counters, including wrap-around. When nothing is in flight the counters of a snapshot balance
  exactly.\<close>

theorem ingress_bounded_and_conserved:
  assumes "server_init s0" and "(run_step U l)\<^sup>*\<^sup>* s0 s"
  defines "i \<equiv> sv_ingress s"
  defines "c \<equiv> ig_counters i" and "ws \<equiv> ig_workers i" and "sn \<equiv> Snapshot i"
  shows "length (ig_queue i) \<le> ig_queueCapacity i \<and>
    cn_queueHighWater c \<le> int (ig_queueCapacity i) \<and>
    length ws = (if ig_started i then ig_workerCount i else 0) \<and>
    (\<forall>it \<in> set (ig_queue i). is_ok (ParseTopic (it_topic it)) \<and> int (length (it_payload it)) \<le> ig_maxPayloadBytes i) \<and>
    cn_accepted c + of_nat (ig_sent i) = of_nat (length (ig_queue i)) + of_nat (number_of taken ws) + cn_processed c \<and>
    cn_processed c = of_nat (number_of undecided ws) + (cn_validationRejected c + cn_persistFailures c + cn_commitUnconfirmed c +
      cn_identityMismatch c + cn_committed c + cn_duplicateCommitted c) \<and>
    cn_committed c + cn_duplicateCommitted c = of_nat (number_of unacknowledged ws) +
      (cn_ackBuildFailures c + cn_ackPublished c + cn_ackPublishFailures c) \<and>
    cn_processed c = of_nat (number_of running ws) + cn_processingCount c \<and>
    (ig_sent i = 0 \<and> (\<forall>w \<in> set ws. \<not> taken w \<and> \<not> running w) \<longrightarrow>
       sn_Accepted sn = of_nat (sn_QueueDepth sn) + sn_Processed sn \<and>
       sn_Processed sn = sn_ValidationRejected sn + sn_PersistFailures sn + sn_CommitUnconfirmed sn + sn_IdentityMismatch sn +
         sn_Committed sn + sn_DuplicateCommitted sn \<and>
       sn_Committed sn + sn_DuplicateCommitted sn = sn_ACKBuildFailures sn + sn_ACKPublished sn + sn_ACKPublishFailures sn \<and>
       sn_ProcessingCount sn = sn_Processed sn)"
proof -
  have inv: "ingress_inv i" unfolding i_def by (rule server_reach_inv(1) [OF reach_from_init [OF assms(1,2)]])
  then have k: "counters_inv (ig_sent i) (length (ig_queue i)) ws c" unfolding c_def ws_def by (simp add: ingress_inv_def)
  have idle: "number_of taken ws = 0 \<and> number_of undecided ws = 0 \<and> number_of unacknowledged ws = 0 \<and> number_of running ws = 0"
    if "\<forall>w \<in> set ws. \<not> taken w \<and> \<not> running w"
    using that by (intro idle_number_of)
  show ?thesis
  proof (intro conjI impI)
    assume q: "ig_sent i = 0 \<and> (\<forall>w \<in> set ws. \<not> taken w \<and> \<not> running w)"
    note z = idle [OF conjunct2 [OF q]] conjunct1 [OF q]
    have e: "cn_accepted c = of_nat (length (ig_queue i)) + cn_processed c" "cn_processed c = outcomes c"
        "cn_committed c + cn_duplicateCommitted c = ack_outcomes c" "cn_processed c = cn_processingCount c"
      using k z by (auto simp: counters_inv_def)
    show "sn_Accepted sn = of_nat (sn_QueueDepth sn) + sn_Processed sn" using e(1) by (simp add: sn_def Snapshot_def Let_def c_def)
    show "sn_Processed sn = sn_ValidationRejected sn + sn_PersistFailures sn + sn_CommitUnconfirmed sn + sn_IdentityMismatch sn +
         sn_Committed sn + sn_DuplicateCommitted sn" using e(2) by (simp add: sn_def Snapshot_def Let_def c_def outcomes_def)
    show "sn_Committed sn + sn_DuplicateCommitted sn = sn_ACKBuildFailures sn + sn_ACKPublished sn + sn_ACKPublishFailures sn"
      using e(3) by (simp add: sn_def Snapshot_def Let_def c_def ack_outcomes_def)
    show "sn_ProcessingCount sn = sn_Processed sn" using e(4) by (simp add: sn_def Snapshot_def Let_def c_def)
  qed (use inv k in \<open>auto simp: ingress_inv_def counters_inv_def outcomes_def ack_outcomes_def c_def ws_def\<close>)
qed

theorem ingress_bounded_and_conserved_witness:
  "cn_accepted (ig_counters (sv_ingress fx_begun)) = 1 \<and>
   cn_accepted (ig_counters (sv_ingress fx_begun)) = cn_processed (ig_counters (sv_ingress fx_begun)) \<and>
   length (ig_queue (sv_ingress fx_begun)) \<le> 4"
proof -
  have b: "ig_queue (sv_ingress fx_begun) = []" "ig_sent (sv_ingress fx_begun) = 0" "ig_queueCapacity (sv_ingress fx_begun) = 4"
      "number_of taken (ig_workers (sv_ingress fx_begun)) = 0" "cn_accepted (ig_counters (sv_ingress fx_begun)) = 1"
    by (simp_all add: fx_begun_def item_step_def process_def fx_taken_def fx_server_def fx_ingress_def after_phase_def number_of_def taken_def)
  from ingress_bounded_and_conserved [OF fx_init fx_run_begun] show ?thesis unfolding b by simp
qed

text \<open>Stopping admission is a barrier. Once admission has stopped, no later step of the server
  accepts a delivery or adds an item to the queue: the accepted counter stays, and the queue only
  loses items from its front.\<close>

theorem stop_admission_barrier:
  assumes "(run_step U l)\<^sup>*\<^sup>* s s'" and "ig_stopping (sv_ingress s)" and inv: "ingress_inv (sv_ingress s)"
  shows "ig_stopping (sv_ingress s') \<and> \<not> Accepting (sv_ingress s') \<and>
    suffix (ig_queue (sv_ingress s')) (ig_queue (sv_ingress s)) \<and>
    cn_accepted (ig_counters (sv_ingress s')) = cn_accepted (ig_counters (sv_ingress s)) \<and>
    fst (Admit topic payload receivedAt retained (sv_ingress s')) \<noteq> AdmissionAccepted"
proof -
  have "ingress_inv (sv_ingress s') \<and> ig_stopping (sv_ingress s') \<and> suffix (ig_queue (sv_ingress s')) (ig_queue (sv_ingress s)) \<and>
    cn_accepted (ig_counters (sv_ingress s')) = cn_accepted (ig_counters (sv_ingress s))"
    using assms(1)
  proof (induction rule: rtranclp_induct)
    case (step u v)
    then have "admit_unlocked (sv_ingress u)" by (simp add: ingress_inv_def)
    then show ?case using step stopped_step [of U _ _ u v] suffix_order.trans server_step_inv unfolding run_step_def by metis
  qed (simp add: assms(2) inv)
  then show ?thesis by (simp add: Accepting_def Admit_def Admit_send_def Let_def)
qed

theorem stop_admission_barrier_witness:
  "fst (Admit ''gateways/gw1/telemetry/s1'' fx_payload fx_start False (StopAdmission (sv_ingress fx_queued))) \<noteq> AdmissionAccepted"
proof -
  let ?s = "fx_queued\<lparr>sv_ingress := StopAdmission (sv_ingress fx_queued)\<rparr>"
  have "ig_stopping (sv_ingress ?s)" by (simp add: StopAdmission_def)
  have "(run_step canonical_uuid fx_limits)\<^sup>*\<^sup>* ?s ?s" by simp
  moreover have "ingress_inv (sv_ingress ?s)"
    using server_reach_inv(1) [OF reach_from_init [OF fx_init fx_run_queued]] StopAdmission_inv fx_queued_unlocked by simp
  ultimately show ?thesis using stop_admission_barrier [OF _ \<open>ig_stopping (sv_ingress ?s)\<close>] by fastforce
qed

text \<open>C11. Draining terminates and loses nothing. After admission stopped, from a reachable state, every
  run of the workers is finite, with an explicit bound on its length; and when no worker can move
  any more, all workers have returned, the queue is empty and every accepted delivery has been
  processed.\<close>

theorem drain_completes:
  assumes init: "server_init s0" and run: "(run_step U l)\<^sup>*\<^sup>* s0 s" and stop: "ig_stopping (sv_ingress s)"
  defines "step \<equiv> worker_step U (Validate U (Some l)) (repository_persist U)"
  shows "((step ^^ n) s s1 \<longrightarrow> n \<le> drain_measure s) \<and>
    (\<exists>s'. step\<^sup>*\<^sup>* s s' \<and> (\<forall>u. \<not> step s' u)) \<and>
    (step\<^sup>*\<^sup>* s s2 \<and> (\<forall>u. \<not> step s2 u) \<longrightarrow>
       workers_done (sv_ingress s2) \<and> ig_queue (sv_ingress s2) = [] \<and>
       cn_accepted (ig_counters (sv_ingress s)) = cn_processed (ig_counters (sv_ingress s2)))"
proof (intro conjI impI)
  show "n \<le> drain_measure s" if "(step ^^ n) s s1" using drain.run_bounded that unfolding step_def by fastforce
  show "\<exists>s'. step\<^sup>*\<^sup>* s s' \<and> (\<forall>u. \<not> step s' u)" unfolding step_def by (rule drain.terminates)
next
  assume a: "step\<^sup>*\<^sup>* s s2 \<and> (\<forall>u. \<not> step s2 u)"
  have pos: "0 < ig_workerCount (sv_ingress s0)" using init by (auto simp: server_init_def dest: New_workers)
  have cnt: "ig_workerCount (sv_ingress s') = ig_workerCount (sv_ingress s)"
    if "server_step U (Validate U (Some l)) (repository_persist U) s s'" for s s'
    using that
  proof (cases rule: server_step.cases)
    case works
    then show ?thesis using worker_step_frame(3) by metis
  qed (auto simp: Start_def Admit_send_def Admit_count_def Admit_mark_def StopAdmission_def Drain_begin_def Drain_stop_def cancelRun_def Let_def)
  from run have cs: "ig_workerCount (sv_ingress s) = ig_workerCount (sv_ingress s0)"
    by (induction rule: rtranclp_induct) (auto simp: run_step_def dest: cnt)
  from a have "step\<^sup>*\<^sup>* s s2" by blast
  then have keep: "ingress_inv (sv_ingress s2) \<and> ig_stopping (sv_ingress s2) \<and>
      ig_workerCount (sv_ingress s2) = ig_workerCount (sv_ingress s) \<and>
      cn_accepted (ig_counters (sv_ingress s2)) = cn_accepted (ig_counters (sv_ingress s))"
  proof (induction rule: rtranclp_induct)
    case base
    then show ?case using server_reach_inv(1) [OF reach_from_init [OF init run]] stop by simp
  next
    case (step u v)
    then show ?case using worker_step_inv worker_step_frame unfolding step_def by metis
  qed
  have fin: "workers_done (sv_ingress s2)" using stuck_workers_done a keep unfolding step_def by blast
  show "workers_done (sv_ingress s2)" by (rule fin)
  show "ig_queue (sv_ingress s2) = []" "cn_accepted (ig_counters (sv_ingress s)) = cn_processed (ig_counters (sv_ingress s2))"
    using drained [of "sv_ingress s2"] keep fin pos cs by simp_all
qed

theorem drain_completes_witness:
  "\<exists>(s :: db server) (s' :: db server). ig_stopping (sv_ingress s) \<and> ig_queue (sv_ingress s) = [fx_item] \<and>
     workers_done (sv_ingress s') \<and> ig_queue (sv_ingress s') = [] \<and>
     cn_accepted (ig_counters (sv_ingress s)) = cn_processed (ig_counters (sv_ingress s'))"
proof -
  let ?s = "fx_queued\<lparr>sv_ingress := StopAdmission (sv_ingress fx_queued)\<rparr>"
  have stop: "ig_stopping (sv_ingress ?s)" by (simp add: StopAdmission_def)
  have "(run_step canonical_uuid fx_limits)\<^sup>*\<^sup>* fx_server ?s"
    using fx_run_queued by (rule rtranclp.rtrancl_into_rtrancl) (simp add: run_step_def server_step.stops fx_queued_unlocked)
  note d = drain_completes [OF fx_init this stop]
  from d obtain s' where "(worker_step canonical_uuid (Validate canonical_uuid (Some fx_limits))
      (repository_persist canonical_uuid))\<^sup>*\<^sup>* ?s s'"
      "\<forall>u. \<not> worker_step canonical_uuid (Validate canonical_uuid (Some fx_limits)) (repository_persist canonical_uuid) s' u"
    by blast
  then have r: "workers_done (sv_ingress s') \<and> ig_queue (sv_ingress s') = [] \<and>
      cn_accepted (ig_counters (sv_ingress ?s)) = cn_processed (ig_counters (sv_ingress s'))"
    using d by blast
  have "ig_queue (sv_ingress ?s) = [fx_item]" by (simp add: StopAdmission_def fx_queued_def fx_server_def)
  then show ?thesis using r stop by (intro exI [of _ ?s] exI [of _ s']) simp
qed

end
