(* ===== verification/GoFloat.thy ===== *)
theory GoFloat
  imports GoNumber
begin

text \<open>
  Arithmetic on \<open>float64\<close> and its JSON text. A finite double is the rational it denotes; an operation
  is the exact one followed by rounding. \<open>json.Marshal\<close> prints a double with the fewest decimals
  that parse back to it (\<open>strconv.FormatFloat\<close> with precision -1, format \<open>f\<close>). The Gateway simulator
  prints values between 20 and 30 only, so the text is modelled for doubles of that size: positive,
  not a power of two, below 2^53.
\<close>

section \<open>Operations\<close>

definition f64 :: "rat \<Rightarrow> rat" where
  "f64 r = (case round64 r of Some x \<Rightarrow> x | None \<Rightarrow> 0)"

definition f64_add :: "rat \<Rightarrow> rat \<Rightarrow> rat" where "f64_add a b = f64 (a + b)"
definition f64_div :: "rat \<Rightarrow> rat \<Rightarrow> rat" where "f64_div a b = f64 (a / b)"

section \<open>Decimal text\<close>

definition decimal_text :: "nat \<Rightarrow> nat \<Rightarrow> string" where
  "decimal_text n d = (if d = 0 then dec_digits n else dec_digits (n div 10 ^ d) @ CHR ''.'' # pad_digits d (n mod 10 ^ d))"

definition nearest_decimal :: "rat \<Rightarrow> nat \<Rightarrow> nat" where
  "nearest_decimal v d = nat (round_half_even (v * 10 ^ d))"

definition shortest_decimals :: "rat \<Rightarrow> nat option" where
  "shortest_decimals v = find (\<lambda>d. round64 (of_nat (nearest_decimal v d) / 10 ^ d) = Some v) [0..<18]"

definition float_text :: "rat \<Rightarrow> string" where
  "float_text v = (case shortest_decimals v of None \<Rightarrow> [] | Some d \<Rightarrow> decimal_text (nearest_decimal v d) d)"

section \<open>Reading decimal text back\<close>

lemma digits_not_punct: "list_all is_digit ds \<Longrightarrow> CHR ''.'' \<notin> set ds \<and> CHR ''-'' \<notin> set ds"
  by (auto simp: list_all_iff is_digit_def)

lemma takeWhile_digits_stop:
  assumes "list_all is_digit ds" and "rest = [] \<or> \<not> is_digit (hd rest)"
  shows "takeWhile is_digit (ds @ rest) = ds" and "dropWhile is_digit (ds @ rest) = rest"
  using assms by (induction ds) (cases rest; auto)+

lemma digits_val_joined:
  assumes "list_all is_digit a"
  shows "digits_val (a @ pad_digits d m) = digits_val a * 10 ^ d + digits_val (pad_digits d m)"
proof (induction d arbitrary: m)
  case (Suc d)
  show ?case using Suc.IH [of "m div 10"]
    by (simp add: digits_val_append algebra_simps flip: append_assoc)
qed (simp add: digits_val_def)

lemma number_value_decimal: "number_value (decimal_text n d) = of_nat n / 10 ^ d"
proof -
  have nd: "hd (dec_digits k) \<noteq> CHR ''-''" for k
    using hd_dec_digits [of k] by (auto simp: is_digit_def)
  show ?thesis
  proof (cases "d = 0")
    case True
    have "takeWhile is_digit (dec_digits n) = dec_digits n" "dropWhile is_digit (dec_digits n) = []"
      using takeWhile_digits_stop [of "dec_digits n" "[]"] by simp_all
    then show ?thesis using True nd [of n] by (simp add: number_value_def decimal_text_def Let_def del: takeWhile_eq_all_conv)
  next
    case False
    let ?a = "dec_digits (n div 10 ^ d)" and ?f = "pad_digits d (n mod 10 ^ d)"
    have t: "decimal_text n d = ?a @ CHR ''.'' # ?f" using False by (simp add: decimal_text_def)
    have i: "takeWhile is_digit (?a @ CHR ''.'' # ?f) = ?a" "dropWhile is_digit (?a @ CHR ''.'' # ?f) = CHR ''.'' # ?f"
      using takeWhile_digits_stop [of ?a "CHR ''.'' # ?f"] by (simp_all add: is_digit_def)
    have f: "takeWhile is_digit ?f = ?f" "dropWhile is_digit ?f = []"
      using takeWhile_digits_stop [of ?f "[]"] by simp_all
    have v: "digits_val (?a @ ?f) = int n"
      using div_mult_mod_eq [of "int n" "10 ^ d"]
      by (simp add: digits_val_joined digits_val_pad_digits zdiv_int zmod_int)
    show ?thesis
      using nd [of "n div 10 ^ d"] False
      by (simp add: number_value_def t Let_def i f v del: takeWhile_eq_all_conv)
  qed
qed

lemma dec_digits_pos: "0 < n \<Longrightarrow> hd (dec_digits n) \<noteq> CHR ''0''"
proof (induction n rule: dec_digits.induct)
  case (1 n)
  show ?case
  proof (cases "n < 10")
    case True
    then have "digit_val (digit_char n) = int n" by simp
    then show ?thesis using 1(2) True by (subst dec_digits.simps) (auto simp: digit_val_def)
  next
    case False
    then have "hd (dec_digits (n div 10)) \<noteq> CHR ''0''" using 1 by simp
    then show ?thesis using False by (subst dec_digits.simps) simp
  qed
qed

section \<open>Scanning numbers\<close>

definition prepend :: "string \<Rightarrow> (string \<times> string) option \<Rightarrow> (string \<times> string) option" where
  "prepend p r = (case r of None \<Rightarrow> None | Some (raw, rest) \<Rightarrow> Some (p @ raw, rest))"

definition number_end :: "char \<Rightarrow> bool" where
  "number_end c \<longleftrightarrow> \<not> is_digit c \<and> c \<noteq> CHR ''.'' \<and> c \<noteq> CHR ''e'' \<and> c \<noteq> CHR ''E''"

lemma number_end_simps [simp]: "number_end CHR '',''" "number_end CHR '']''" "number_end CHR ''}''"
  by (simp_all add: number_end_def is_digit_def)

lemma prepend_simps [simp]: "prepend a (prepend b r) = prepend (a @ b) r" "prepend [] r = r"
  "prepend p (Some (raw, rest)) = Some (p @ raw, rest)" "prepend p None = None"
  by (auto simp: prepend_def split: option.splits)

lemma scan_next: "scan_step st stk c = ScanNext st' stk' \<Longrightarrow> scan st stk (c # s) = prepend [c] (scan st' stk' s)"
  by (simp add: prepend_def split: option.splits)

lemma scan_digits:
  "list_all is_digit ds \<Longrightarrow> scan Num1 stk (ds @ s) = prepend ds (scan Num1 stk s)"
  "list_all is_digit ds \<Longrightarrow> scan NumDot0 stk (ds @ s) = prepend ds (scan NumDot0 stk s)"
proof -
  assume "list_all is_digit ds"
  then show "scan Num1 stk (ds @ s) = prepend ds (scan Num1 stk s)"
  proof (induction ds)
    case (Cons c ds)
    then have "scan Num1 stk (c # ds @ s) = prepend [c] (scan Num1 stk (ds @ s))" by (intro scan_next) simp
    then show ?case using Cons by (simp del: scan.simps)
  qed simp
next
  assume "list_all is_digit ds"
  then show "scan NumDot0 stk (ds @ s) = prepend ds (scan NumDot0 stk s)"
  proof (induction ds)
    case (Cons c ds)
    then have "scan NumDot0 stk (c # ds @ s) = prepend [c] (scan NumDot0 stk (ds @ s))" by (intro scan_next) simp
    then show ?case using Cons by (simp del: scan.simps)
  qed simp
qed

lemma scan_number_end:
  assumes "number_end c"
  shows "scan Num1 stk (c # s) = scan EndValue stk (c # s)" and "scan NumDot0 stk (c # s) = scan EndValue stk (c # s)"
  using assms by (simp_all add: number_end_def step_num0_def)

lemma scan_begin_digit:
  assumes "is_digit c" and "c \<noteq> CHR ''0''"
  shows "scan BeginValue stk (c # s) = prepend [c] (scan Num1 stk s)"
proof (rule scan_next)
  have "is_digit19 c" using assms unfolding is_digit_def is_digit19_def
    by simp
  moreover have "\<not> json_space c" "c \<notin> set ''{[-tfn''" "c \<noteq> CHR 0x22"
    using assms(1) by (auto simp: is_digit_def json_space_def)
  ultimately show "scan_step BeginValue stk c = ScanNext Num1 stk"
    using assms by (simp add: step_begin_value_def)
qed

lemma scan_decimal:
  assumes "10 ^ d \<le> n" and c: "number_end c"
  shows "scan BeginValue stk (decimal_text n d @ c # s) = prepend (decimal_text n d) (scan EndValue stk (c # s))"
proof -
  define k where "k = n div 10 ^ d"
  have k: "0 < k" using assms(1) by (simp add: k_def div_greater_zero_iff)
  obtain a as where a: "dec_digits k = a # as" by (cases "dec_digits k") auto
  have d: "is_digit a" "list_all is_digit as" "a \<noteq> CHR ''0''"
    using dec_digits_are_digits [of k] dec_digits_pos [OF k] by (simp_all add: a)
  have int: "scan BeginValue stk (dec_digits k @ r) = prepend (dec_digits k) (scan Num1 stk r)" for r
    using scan_begin_digit [OF d(1,3)] scan_digits(1) [OF d(2)] by (simp add: a del: scan.simps)
  show ?thesis
  proof (cases "d = 0")
    case True
    then show ?thesis using int [of "c # s"] scan_number_end(1) [OF c] by (simp add: decimal_text_def k_def del: scan.simps)
  next
    case False
    then obtain f fs where f: "pad_digits d (n mod 10 ^ d) = f # fs" by (cases "pad_digits d (n mod 10 ^ d)") (auto dest: arg_cong [of _ _ length])
    have fd: "is_digit f" "list_all is_digit fs" using pad_digits_are_digits [of d "n mod 10 ^ d"] by (simp_all add: f)
    have "scan Num1 stk (CHR ''.'' # r) = prepend ''.'' (scan NumDot stk r)" for r
      by (rule scan_next) (simp add: is_digit_def step_num0_def)
    moreover have "scan NumDot stk (f # r) = prepend [f] (scan NumDot0 stk r)" for r
      using fd(1) by (intro scan_next) simp
    ultimately show ?thesis
      using False int [of "CHR ''.'' # f # fs @ c # s"] scan_digits(2) [OF fd(2)] scan_number_end(2) [OF c]
      by (simp add: decimal_text_def f flip: k_def del: scan.simps)
  qed
qed

section \<open>Rounding\<close>

lemma bitlen_upper: "n < 2 ^ bitlen n"
proof (induction n rule: bitlen.induct)
  case (1 n)
  show ?case
  proof (cases "n = 0")
    case False
    then have "n div 2 < 2 ^ bitlen (n div 2)" using 1 by simp
    then have "n < 2 * 2 ^ bitlen (n div 2)" by linarith
    then show ?thesis using False by (subst bitlen.simps) simp
  qed simp
qed

lemma pow2_nonneg [simp]: "0 \<le> pow2 k" "pow2 k \<noteq> 0"
  using pow2_pos [of k] by linarith+

lemma pow2_add: "pow2 (a + b) = pow2 a * pow2 b"
proof -
  have e: "pow2 k = 2 powi k" for k by (simp add: pow2_def power_int_def field_simps)
  show ?thesis unfolding e by (simp add: power_int_add)
qed

lemma pow2_mono: "a \<le> b \<Longrightarrow> pow2 a \<le> pow2 b"
proof -
  assume "a \<le> b"
  then have "pow2 b = pow2 a * pow2 (b - a)" by (simp flip: pow2_add)
  moreover have "1 \<le> pow2 (b - a)" using \<open>a \<le> b\<close> by (simp add: pow2_def)
  ultimately show ?thesis using mult_left_mono [of 1 "pow2 (b - a)" "pow2 a"] pow2_pos [of a] by simp
qed

lemma ilog2_bounds:
  assumes "0 < a"
  shows "pow2 (ilog2 a) \<le> a" and "a < pow2 (ilog2 a + 1)"
proof -
  obtain n d where q: "quotient_of a = (n, d)" by (cases "quotient_of a")
  have d: "0 < d" using quotient_of_denom_pos [OF q] .
  have a: "a = of_int n / of_int d" using quotient_of_div [OF q] .
  have n: "0 < n" using assms d by (simp add: a zero_less_divide_iff)
  let ?bn = "bitlen (nat n)" and ?bd = "bitlen (nat d)"
  have up: "x < 2 ^ bitlen (nat x)" if "0 < x" for x :: int
    using bitlen_upper [of "nat x"] that by (simp add: nat_less_iff)
  have lo: "(2::rat) ^ (?bn - 1) \<le> of_int n" "of_int n < (2::rat) ^ ?bn" "(2::rat) ^ (?bd - 1) \<le> of_int d" "of_int d < (2::rat) ^ ?bd"
    using bitlen_lower_int [OF n] bitlen_lower_int [OF d] up [OF n] up [OF d]
    by (metis of_int_le_iff of_int_less_iff of_int_numeral of_int_power)+
  have pos: "0 < ?bn" "0 < ?bd" using n d bitlen_pos by simp_all
  let ?k = "int ?bn - int ?bd"
  have p: "pow2 (int m) = 2 ^ m" for m by (simp add: pow2_def)
  have upper: "a < pow2 (?k + 1)"
  proof -
    have "of_int n < (2::rat) ^ ?bn" by (rule lo(2))
    also have "\<dots> = pow2 (?k + 1) * 2 ^ (?bd - 1)"
      using pos by (simp flip: p pow2_add add: of_nat_diff)
    also have "\<dots> \<le> pow2 (?k + 1) * of_int d" using lo(3) by (simp add: mult_le_cancel_left_pos)
    finally show ?thesis using d by (simp add: a pos_divide_less_eq)
  qed
  have lower: "pow2 (?k - 1) \<le> a"
  proof -
    have "pow2 (?k - 1) * of_int d \<le> pow2 (?k - 1) * 2 ^ ?bd" using lo(4) by (simp add: mult_le_cancel_left_pos)
    also have "\<dots> = 2 ^ (?bn - 1)" using pos by (simp flip: p pow2_add add: of_nat_diff)
    also have "\<dots> \<le> of_int n" by (rule lo(1))
    finally show ?thesis using d by (simp add: a pos_le_divide_eq)
  qed
  show "pow2 (ilog2 a) \<le> a" using lower by (simp add: ilog2_def q Let_def)
  show "a < pow2 (ilog2 a + 1)" using upper by (simp add: ilog2_def q Let_def not_le)
qed

lemma ilog2_unique:
  assumes "pow2 k \<le> a" and "a < pow2 (k + 1)"
  shows "ilog2 a = k"
proof -
  have "0 < a" using assms(1) pow2_pos [of k] by linarith
  note b = ilog2_bounds [OF this]
  have "\<not> ilog2 a + 1 \<le> k" using pow2_mono [of "ilog2 a + 1" k] assms(1) b(2) by linarith
  moreover have "\<not> k + 1 \<le> ilog2 a" using pow2_mono [of "k + 1" "ilog2 a"] assms(2) b(1) by linarith
  ultimately show ?thesis by linarith
qed

lemma round_half_even_near:
  assumes "\<bar>x - of_int k\<bar> < 1 / 2"
  shows "round_half_even x = k"
proof (cases "of_int k \<le> x")
  case True
  then have "\<lfloor>x\<rfloor> = k" using assms by (intro floor_unique) linarith+
  then show ?thesis using assms True by (simp add: round_half_even_def Let_def)
next
  case False
  then have "\<lfloor>x\<rfloor> = k - 1" using assms by (intro floor_unique) (simp; linarith)+
  then show ?thesis using assms False by (simp add: round_half_even_def Let_def)
qed

lemma round_half_even_error: "\<bar>of_int (round_half_even x) - x\<bar> \<le> 1 / 2"
proof -
  have "of_int \<lfloor>x\<rfloor> \<le> x" "x < of_int \<lfloor>x\<rfloor> + 1" by linarith+
  then show ?thesis by (auto simp: round_half_even_def Let_def)
qed

text \<open>In the binade from 16 to 32 the doubles are the multiples of \<open>2 ^ -48\<close>.\<close>

lemma round64_binade:
  assumes "16 \<le> r" and "r < 32" 
  shows "round64 r = Some (of_int (round_half_even (r * 2 ^ 48)) / 2 ^ 48)"
proof -
  have l: "ilog2 r = 4" using assms by (intro ilog2_unique) (simp_all add: pow2_def)
  have "of_int (round_half_even (r * 2 ^ 48)) / 2 ^ 48 < pow2 1024"
  proof -
    have "of_int (round_half_even (r * 2 ^ 48)) \<le> r * 2 ^ 48 + 1 / 2" using round_half_even_error [of "r * 2 ^ 48"] by linarith
    also have "\<dots> < 2 ^ 54" using assms(2) by simp
    finally have "of_int (round_half_even (r * 2 ^ 48)) / 2 ^ 48 < (2 ^ 54 :: rat)" by simp
    also have "(2 ^ 54 :: rat) \<le> pow2 1024" using pow2_mono [of 54 1024] by (simp add: pow2_def)
    finally show ?thesis .
  qed
  moreover have "r \<noteq> 0" "\<not> r < 0" "\<bar>r\<bar> = r" using assms by auto
  then have "round64 r = (if pow2 1024 \<le> of_int (round_half_even (r / pow2 (- 48))) * pow2 (- 48) then None
      else Some (of_int (round_half_even (r / pow2 (- 48))) * pow2 (- 48)))"
    by (simp add: round64_def l Let_def max_def)
  moreover have "r / pow2 (- 48) = r * 2 ^ 48" "of_int (round_half_even (r * 2 ^ 48)) * pow2 (- 48) = of_int (round_half_even (r * 2 ^ 48)) / 2 ^ 48"
    by (simp_all add: pow2_def)
  ultimately show ?thesis by (metis not_le)
qed

lemma round64_near:
  assumes v: "v = of_int k / 2 ^ 48" and x: "\<bar>x - v\<bar> < 1 / 2 ^ 49" "16 \<le> x" "x < 32"
  shows "round64 x = Some v"
proof -
  have "x * 2 ^ 48 - of_int k = (x - v) * 2 ^ 48" by (simp add: v algebra_simps)
  then have "\<bar>x * 2 ^ 48 - of_int k\<bar> = \<bar>x - v\<bar> * 2 ^ 48" by (simp only: abs_mult) simp
  also have "\<dots> < 1 / 2" using x(1) by simp
  finally have "round_half_even (x * 2 ^ 48) = k" by (rule round_half_even_near)
  then show ?thesis using round64_binade [OF x(2,3)] by (simp add: v)
qed

lemma f64_small:
  assumes "0 \<le> r" and "r < 16"
  shows "0 \<le> f64 r" and "f64 r \<le> r + 1"
proof -
  define e where "e = max (ilog2 r - 52) (- 1074)"
  define z where "z = round_half_even (r / pow2 e)"
  have "0 \<le> f64 r \<and> f64 r \<le> r + 1"
  proof (cases "r = 0")
    case False
    then have "ilog2 r < 4"
      using assms ilog2_bounds(1) [of r] pow2_mono [of 4 "ilog2 r"] by (cases "ilog2 r < 4") (auto simp: pow2_def)
    then have "e \<le> 0" by (simp add: e_def)
    then have e: "pow2 e \<le> 1" "0 < pow2 e" using pow2_mono [of e 0] by (simp_all add: pow2_def)
    have err: "\<bar>of_int z - r / pow2 e\<bar> \<le> 1 / 2" unfolding z_def by (rule round_half_even_error)
    have "0 \<le> r / pow2 e" using assms e by (intro divide_nonneg_pos)
    then have "(-1 :: rat) < of_int z" using err by linarith
    then have z: "0 \<le> z" by linarith
    have "of_int z * pow2 e - r = (of_int z - r / pow2 e) * pow2 e"
      using pow2_pos [of e, THEN less_imp_neq] by (simp add: algebra_simps)
    then have "\<bar>of_int z * pow2 e - r\<bar> = \<bar>of_int z - r / pow2 e\<bar> * pow2 e" using e(2) by (simp only: abs_mult abs_of_pos)
    also have "\<dots> \<le> 1 / 2 * 1" using err e by (intro mult_mono) auto
    finally have v: "of_int z * pow2 e \<le> r + 1" by linarith
    have "pow2 6 \<le> pow2 1024" by (rule pow2_mono) simp
    then have "of_int z * pow2 e < pow2 1024" using v assms by (simp add: pow2_def)
    then have "f64 r = of_int z * pow2 e"
      using False assms by (simp add: f64_def round64_def Let_def e_def z_def not_le)
    then show ?thesis using v z e by simp
  qed (use assms in \<open>simp add: f64_def round64_def\<close>)
  then show "0 \<le> f64 r" "f64 r \<le> r + 1" by simp_all
qed

text \<open>
  A double in this binade has a text, the text parses back to it, is short, and ends where the
  scanner needs it to end.
\<close>

definition plain_double :: "rat \<Rightarrow> bool" where
  "plain_double v \<longleftrightarrow> 20 \<le> v \<and> v \<le> 31 \<and> (\<exists>k. v = of_int k / 2 ^ 48)"

lemma f64_plain:
  assumes "20 \<le> r" and "r \<le> 31"
  shows "plain_double (f64 r)"
proof -
  define k where "k = round_half_even (r * 2 ^ 48)"
  have e: "\<bar>of_int k - r * 2 ^ 48\<bar> \<le> 1 / 2" unfolding k_def by (rule round_half_even_error)
  have "20 * 2 ^ 48 \<le> r * 2 ^ 48" "r * 2 ^ 48 \<le> 31 * 2 ^ 48" using assms by simp_all
  then have "(20 * 2 ^ 48 - 1 :: rat) < of_int k" "of_int k < (31 * 2 ^ 48 + 1 :: rat)" using e by linarith+
  then have "of_int (20 * 2 ^ 48 - 1) < (of_int k :: rat)" "(of_int k :: rat) < of_int (31 * 2 ^ 48 + 1)" by simp_all
  then have "20 * 2 ^ 48 \<le> k" "k \<le> 31 * 2 ^ 48" by (simp_all only: of_int_less_iff)
  then have "of_int (20 * 2 ^ 48) \<le> (of_int k :: rat)" "(of_int k :: rat) \<le> of_int (31 * 2 ^ 48)" by (simp_all only: of_int_le_iff)
  then show ?thesis using round64_binade [of r] assms by (auto simp: f64_def plain_double_def k_def)
qed

lemma nearest_decimal_props:
  assumes "plain_double v"
  shows "10 ^ d \<le> nearest_decimal v d" and "\<bar>of_nat (nearest_decimal v d) / 10 ^ d - v\<bar> \<le> 1 / (2 * 10 ^ d)"
    and "nearest_decimal v d < 100 * 10 ^ d"
proof -
  define n where "n = round_half_even (v * 10 ^ d)"
  have e: "\<bar>of_int n - v * 10 ^ d\<bar> \<le> 1 / 2" unfolding n_def by (rule round_half_even_error)
  have v: "20 * 10 ^ d \<le> v * 10 ^ d" "v * 10 ^ d \<le> 31 * 10 ^ d" using assms by (simp_all add: plain_double_def)
  have one: "(1::rat) \<le> 10 ^ d" by simp
  have b: "(10 :: rat) ^ d \<le> of_int n" "of_int n < (100 :: rat) * 10 ^ d" using e v one by linarith+
  then have "of_int (10 ^ d) \<le> (of_int n :: rat)" "(of_int n :: rat) < of_int (100 * 10 ^ d)" by simp_all
  then have n: "10 ^ d \<le> n" "n < 100 * 10 ^ d" by (simp_all only: of_int_le_iff of_int_less_iff)
  then have pos: "0 \<le> n" by (meson order_trans zero_le_power zero_le_numeral)
  show "10 ^ d \<le> nearest_decimal v d" "nearest_decimal v d < 100 * 10 ^ d"
    using n pos unfolding nearest_decimal_def n_def [symmetric] by (simp_all add: le_nat_iff nat_less_iff)
  have "of_nat (nearest_decimal v d) = (of_int n :: rat)" using pos by (simp add: nearest_decimal_def flip: n_def)
  moreover have "of_int n / 10 ^ d - v = (of_int n - v * 10 ^ d) / 10 ^ d" by (simp add: field_simps)
  ultimately have "\<bar>of_nat (nearest_decimal v d) / 10 ^ d - v\<bar> = \<bar>of_int n - v * 10 ^ d\<bar> / 10 ^ d"
    by (simp add: abs_divide)
  also have "\<dots> \<le> (1 / 2) / 10 ^ d" using e by (intro divide_right_mono) simp_all
  finally show "\<bar>of_nat (nearest_decimal v d) / 10 ^ d - v\<bar> \<le> 1 / (2 * 10 ^ d)" by simp
qed

lemma float_text_ok:
  assumes v: "plain_double v"
  obtains n d where "float_text v = decimal_text n d" "10 ^ d \<le> n" "n < 100 * 10 ^ d" "d < 18"
    "round64 (of_nat n / 10 ^ d) = Some v"
proof -
  let ?P = "\<lambda>d. round64 (of_nat (nearest_decimal v d) / 10 ^ d) = Some v"
  obtain k where k: "v = of_int k / 2 ^ 48" using v by (auto simp: plain_double_def)
  have "?P 17"
  proof (rule round64_near [OF k])
    note e = nearest_decimal_props(2) [OF v, of 17]
    have small: "1 / (2 * 10 ^ 17) < (1 :: rat)" by simp
    show "\<bar>of_nat (nearest_decimal v 17) / 10 ^ 17 - v\<bar> < 1 / 2 ^ 49" using e by (rule le_less_trans) simp
    show "16 \<le> of_nat (nearest_decimal v 17) / (10 ^ 17 :: rat)" "of_nat (nearest_decimal v 17) / (10 ^ 17 :: rat) < 32"
      using e v small unfolding plain_double_def by linarith+
  qed
  then have "\<exists>d \<in> set [0..<18]. ?P d" by (rule bexI) simp
  then have "find ?P [0..<18] \<noteq> None" unfolding find_None_iff by blast
  then obtain d where f: "find ?P [0..<18] = Some d" by blast
  then have d: "?P d" "d < 18" by (auto simp: find_Some_iff)
  show thesis
  proof (rule that)
    show "float_text v = decimal_text (nearest_decimal v d) d" using f by (simp add: float_text_def shortest_decimals_def)
  qed (use d nearest_decimal_props [OF v] in auto)
qed

lemma dec_digits_lead: "0 < n \<Longrightarrow> \<exists>c cs. dec_digits n = c # cs \<and> is_digit c \<and> c \<noteq> CHR ''0''"
  using dec_digits_are_digits [of n] dec_digits_pos [of n] dec_digits_not_Nil [of n] by (cases "dec_digits n") auto

lemma decimal_text_lead: "10 ^ d \<le> n \<Longrightarrow> \<exists>c cs. decimal_text n d = c # cs \<and> is_digit c \<and> c \<noteq> CHR ''0''"
  using dec_digits_lead [of "n div 10 ^ d"] by (auto simp: decimal_text_def div_greater_zero_iff)

lemma json_float64_float_text: "plain_double v \<Longrightarrow> json_float64 (float_text v) = Some v"
proof (elim float_text_ok)
  fix n d
  assume a: "float_text v = decimal_text n d" "10 ^ d \<le> n" "round64 (of_nat n / 10 ^ d) = Some v"
  obtain c cs where "decimal_text n d = c # cs" "is_digit c" using decimal_text_lead [OF a(2)] by blast
  then show ?thesis using a number_value_decimal [of n d] by (simp add: json_float64_def)
qed

lemma length_dec_digits_100: "n < 100 \<Longrightarrow> length (dec_digits n) \<le> 2"
  by (cases "n < 10") (simp_all add: dec_digits.simps [of n] dec_digits.simps [of "n div 10"])

lemma length_float_text: "plain_double v \<Longrightarrow> length (float_text v) \<le> 20"
proof (elim float_text_ok)
  fix n d
  assume a: "float_text v = decimal_text n d" "n < 100 * 10 ^ d" "d < 18"
  then have "n div 10 ^ d < 100" by (simp add: less_mult_imp_div_less)
  then show ?thesis using a length_dec_digits_100 [of n] length_dec_digits_100 [of "n div 10 ^ d"]
    by (auto simp: decimal_text_def)
qed

lemma scan_float_text:
  assumes "plain_double v" and "number_end c"
  shows "scan BeginValue stk (float_text v @ c # s) = prepend (float_text v) (scan EndValue stk (c # s))"
  using assms(1) scan_decimal [OF _ assms(2)] by (elim float_text_ok) (simp del: scan.simps)

end
