(* ===== verification/Batch.thy ===== *)
theory Batch
  imports ValidationProperties GoFloat "HOL-Library.Signed_Division"
begin

text \<open>
  The Gateway simulator's batch builder (\<open>gatewaysim/batch.go\<close>): the bounds it shares with the
  server, the synthetic wave, the one serialization of a batch, and the check of the result with the
  server's own validator.
\<close>

section \<open>Errors of the simulator\<close>

text \<open>
  The sentinel errors of the package, and the errors without one: a message of its own, an error of
  the telemetry package passed on, an error of the SQLite driver passed on. Wrapping with
  \<open>fmt.Errorf("%w: %v", ...)\<close> keeps the sentinel, which is all \<open>errors.Is\<close> looks at.
\<close>

datatype sim_error =
    ErrOutboxFull | ErrOutboxBusy | ErrOutboxIdentity | ErrOutboxSchema | ErrOutboxCorrupt | ErrOutboxCommitUnknown
  | ErrOutboxReason | ErrOutboxMissing
  | ErrSchedulerEnqueue | ErrSchedulerPending | ErrSchedulerLookup | ErrSchedulerCommitUnknown | ErrSchedulerCompletion
  | ErrSchedulerFatal
  | SimMessage string | SimTelemetry go_error | SimDriver string

section \<open>Building a batch\<close>

definition ServerLimits :: Limits where
  "ServerLimits = \<lparr>lm_MaxPayloadBytes = 65536, lm_MaxSamples = 1000, lm_MaxBatchDuration = 60 * nsPerSecond,
     lm_MaxFutureSkew = 120 * nsPerSecond\<rparr>"

record BatchRequest =
  br_GatewayID :: string
  br_SensorID :: string
  br_BootID :: uuid
  br_MessageID :: uuid
  br_FirstSequence :: int
  br_MeasuredAt :: time
  br_SampleCount :: int
  br_SampleIntervalUS :: int

record BuiltBatch =
  bb_Topic :: string
  bb_Payload :: string
  bb_Batch :: BatchDTO
  bb_FirstMeasuredAt :: time
  bb_LastMeasuredAt :: time

text \<open>\<open>Truncate(time.Microsecond)\<close> rounds down; the layout prints six digits of a fraction.\<close>

definition formatMeasuredAt :: "time \<Rightarrow> string" where
  "formatMeasuredAt t = format_micro (t div 1000 * 1000)"

definition syntheticValue :: "int \<Rightarrow> rat" where
  "syntheticValue sequence =
     (let period = 2000; position = sequence smod period;
          position = (if position < 0 then position + period else position);
          position = (if period sdiv 2 < position then period - position else position)
      in f64_add 20 (f64_div (float64_of_int position) 100))"

text \<open>\<open>json.Marshal\<close> of the batch: the fields in declaration order, identifiers and numbers as text.\<close>

fun items_text :: "string list \<Rightarrow> string" where
  "items_text [] = []"
| "items_text [v] = v"
| "items_text (v # vs) = v @ CHR '','' # items_text vs"

definition json_array :: "string list \<Rightarrow> string" where
  "json_array vs = CHR ''['' # items_text vs @ '']''"

definition batch_fields :: "uuid_pkg \<Rightarrow> BatchDTO \<Rightarrow> (string \<times> string) list" where
  "batch_fields U b =
     [(''protocol_version'', show_int (bd_ProtocolVersion b)),
      (''message_id'', quote (uuid_String U (bd_MessageID b))),
      (''message_type'', quote (bd_MessageType b)),
      (''gateway_id'', quote (bd_GatewayID b)),
      (''sensor_id'', quote (bd_SensorID b)),
      (''boot_id'', quote (uuid_String U (bd_BootID b))),
      (''first_sequence'', show_int (bd_FirstSequence b)),
      (''sample_count'', show_int (bd_SampleCount b)),
      (''measured_at'', quote (bd_MeasuredAt b)),
      (''sample_interval_us'', show_int (bd_SampleIntervalUS b)),
      (''samples'', json_array (map float_text (bd_Samples b)))]"

definition marshalBatch :: "uuid_pkg \<Rightarrow> BatchDTO \<Rightarrow> string" where
  "marshalBatch U b = json_object (batch_fields U b)"

definition synthetic_batch :: "BatchRequest \<Rightarrow> BatchDTO" where
  "synthetic_batch req =
     \<lparr>bd_ProtocolVersion = 1, bd_MessageID = br_MessageID req, bd_MessageType = ''telemetry_batch'',
      bd_GatewayID = br_GatewayID req, bd_SensorID = br_SensorID req, bd_BootID = br_BootID req,
      bd_FirstSequence = br_FirstSequence req, bd_SampleCount = br_SampleCount req,
      bd_MeasuredAt = formatMeasuredAt (br_MeasuredAt req), bd_SampleIntervalUS = br_SampleIntervalUS req,
      bd_Samples = map (\<lambda>i. syntheticValue (i64 (br_FirstSequence req + int i))) [0..<nat (br_SampleCount req)]\<rparr>"

definition BuildSyntheticBatch :: "uuid_pkg \<Rightarrow> BatchRequest \<Rightarrow> Limits \<Rightarrow> time \<Rightarrow> sim_error + BuiltBatch" where
  "BuildSyntheticBatch U req limits receivedAt =
     res_bind (reject_if (\<not> ValidateGatewayID (br_GatewayID req)) (SimMessage ''gatewaysim: invalid gateway identifier'')) (\<lambda>_.
     res_bind (reject_if (\<not> ValidateSensorID (br_SensorID req)) (SimMessage ''gatewaysim: invalid sensor identifier'')) (\<lambda>_.
     res_bind (reject_if (br_BootID req = uuid_Nil \<or> \<not> uuid_RFC4122 U (br_BootID req))
                 (SimMessage ''gatewaysim: invalid boot id'')) (\<lambda>_.
     res_bind (reject_if (br_MessageID req = uuid_Nil \<or> \<not> uuid_RFC4122 U (br_MessageID req) \<or>
                   (uuid_Version U (br_MessageID req) \<noteq> 4 \<and> uuid_Version U (br_MessageID req) \<noteq> 7))
                 (SimMessage ''gatewaysim: invalid message id'')) (\<lambda>_.
     res_bind (reject_if (br_SampleCount req \<le> 0) (SimMessage ''gatewaysim: sample count must be positive'')) (\<lambda>_.
     res_bind (reject_if (br_SampleIntervalUS req \<le> 0) (SimMessage ''gatewaysim: sample interval must be positive'')) (\<lambda>_.
     res_bind (reject_if (br_MeasuredAt req = 0) (SimMessage ''gatewaysim: measured_at must be set'')) (\<lambda>_.
     let payload = marshalBatch U (synthetic_batch req);
         topic = telemetry_topic (br_GatewayID req) (br_SensorID req) in
     case NewValidator limits of
       Inl e \<Rightarrow> Inl (SimTelemetry e)
     | Inr validator \<Rightarrow>
         (case Validate U validator topic payload receivedAt of
            Inl e \<Rightarrow> Inl (SimTelemetry e)
          | Inr message \<Rightarrow>
              res_bind (ok_or (FirstSample (Some message)) (SimMessage ''gatewaysim: validated batch has no samples'')) (\<lambda>firstS.
              Inr \<lparr>bb_Topic = topic, bb_Payload = payload, bb_Batch = msg_batch message,
                   bb_FirstMeasuredAt = sc_MeasuredAt firstS,
                   bb_LastMeasuredAt = (case LastSample (Some message) of None \<Rightarrow> 0 | Some s \<Rightarrow> sc_MeasuredAt s)\<rparr>)))))))))"

text \<open>
  The profile check of the configuration. The probe identifiers are the two constants of the
  sources, given by their value.
\<close>

definition probeBootID :: uuid where "probeBootID = 0x40008000000000000001"
definition probeMessageID :: uuid where "probeMessageID = 0x40008000000000000002"

definition validateSampleProfile :: "uuid_pkg \<Rightarrow> string \<Rightarrow> string \<Rightarrow> int \<Rightarrow> int \<Rightarrow> sim_error + int \<times> duration" where
  "validateSampleProfile U gatewayID sensorID rateHz samplesPerBatch =
     (if rateHz \<le> 0 \<or> 1000000 mod rateHz \<noteq> 0
      then Inl (SimMessage ''GATEWAY_SAMPLE_RATE_HZ must be a positive integer that divides 1000000'')
      else
        (let intervalUS = 1000000 div rateHz; reference = time_Date 2026 1 1 0 0 0 0 in
         case BuildSyntheticBatch U
                \<lparr>br_GatewayID = gatewayID, br_SensorID = sensorID, br_BootID = probeBootID, br_MessageID = probeMessageID,
                 br_FirstSequence = 0, br_MeasuredAt = reference, br_SampleCount = i32 samplesPerBatch,
                 br_SampleIntervalUS = intervalUS\<rparr> ServerLimits reference of
           Inl e \<Rightarrow> Inl e
         | Inr _ \<Rightarrow> Inr (intervalUS, i64 (i64 (i64 (samplesPerBatch - 1) * intervalUS) * 1000))))"

section \<open>The text of a batch decodes to the batch\<close>

lemma syntheticValue_plain: "plain_double (syntheticValue s)"
proof -
  define p where "p = (let position = s smod 2000; position = (if position < 0 then position + 2000 else position)
    in if 2000 sdiv 2 < position then 2000 - position else position)"
  have "- 2000 < s smod 2000" "s smod 2000 < 2000" using smod_int_range [of 2000 s] by auto
  then have p: "0 \<le> p" "p \<le> 1000" by (auto simp: p_def Let_def)
  have "float64_of_int p = of_int p" using p by (intro float64_of_int_exact) simp
  then have v: "syntheticValue s = f64 (20 + f64 (of_int p / 100))"
    by (simp add: syntheticValue_def p_def Let_def f64_add_def f64_div_def)
  have "0 \<le> (of_int p / 100 :: rat)" "(of_int p / 100 :: rat) \<le> 10" using p by simp_all
  then show ?thesis
    using f64_small [of "of_int p / 100"] unfolding v by (intro f64_plain) linarith+
qed

text \<open>Numbers and arrays as values of an object.\<close>

lemma scan_show_int:
  assumes "0 \<le> n" and "number_end c"
  shows "scan BeginValue stk (show_int n @ c # s) = prepend (show_int n) (scan EndValue stk (c # s))"
proof (cases "n = 0")
  case True
  have "scan BeginValue stk (CHR ''0'' # c # s) = prepend ''0'' (scan GoJson.Num0 stk (c # s))"
    by (rule scan_next) (simp add: step_begin_value_def json_space_def)
  moreover have "scan GoJson.Num0 stk (c # s) = scan EndValue stk (c # s)" using assms(2) by (simp add: number_end_def step_num0_def)
  moreover have "show_int 0 = ''0''" by code_simp
  ultimately show ?thesis using True by (simp del: scan.simps)
next
  case False
  then show ?thesis using scan_decimal [of 0 "nat n" c stk s] assms by (simp add: decimal_text_def show_int_def del: scan.simps)
qed

lemma skip_space_digit: "is_digit c \<Longrightarrow> skip_space (c # s) = c # s"
  by (auto simp: skip_space_def json_space_def is_digit_def)

lemma show_int_lead: "0 \<le> n \<Longrightarrow> \<exists>c cs. show_int n = c # cs \<and> is_digit c"
  using dec_digits_are_digits [of "nat n"] dec_digits_not_Nil [of "nat n"] by (cases "dec_digits (nat n)") (auto simp: show_int_def)

lemma float_text_lead: "plain_double v \<Longrightarrow> \<exists>c cs. float_text v = c # cs \<and> is_digit c"
  using decimal_text_lead by (elim float_text_ok) fastforce

lemma scan_EndValue_stop: "scan EndValue [] (c # s) = Some ([], c # s)"
  by simp

lemma scan_value_text:
  assumes "c = CHR '','' \<or> c = CHR ''}'' \<or> c = CHR '']''"
  shows "0 \<le> n \<Longrightarrow> scan_value (show_int n @ c # s) = Some (show_int n, c # s)"
    and "plain_double v \<Longrightarrow> scan_value (float_text v @ c # s) = Some (float_text v, c # s)"
proof -
  have e: "number_end c" using assms by auto
  show "scan_value (show_int n @ c # s) = Some (show_int n, c # s)" if n: "0 \<le> n"
  proof -
    obtain d ds where d: "show_int n = d # ds" "is_digit d" using show_int_lead [OF n] by blast
    have "skip_space (show_int n @ c # s) = show_int n @ c # s" by (simp add: d skip_space_digit)
    then show ?thesis using scan_show_int [OF n e, of "[]" s] by (simp add: scan_value_def del: scan.simps add: scan_EndValue_stop)
  qed
  show "scan_value (float_text v @ c # s) = Some (float_text v, c # s)" if v: "plain_double v"
  proof -
    obtain d ds where d: "float_text v = d # ds" "is_digit d" using float_text_lead [OF v] by blast
    have "skip_space (float_text v @ c # s) = float_text v @ c # s" by (simp add: d skip_space_digit)
    then show ?thesis using scan_float_text [OF v e, of "[]" s] by (simp add: scan_value_def del: scan.simps add: scan_EndValue_stop)
  qed
qed

lemma scan_items:
  assumes "vs \<noteq> []" and "list_all plain_double vs"
  shows "scan BeginValue [ParseArrayValue] (items_text (map float_text vs) @ CHR '']'' # s) =
    Some (items_text (map float_text vs) @ '']'', s)"
  using assms
proof (induction vs rule: list_nonempty_induct)
  case (single v)
  then have "scan BeginValue [ParseArrayValue] (float_text v @ CHR '']'' # s) =
      prepend (float_text v) (scan EndValue [ParseArrayValue] (CHR '']'' # s))"
    by (intro scan_float_text) simp_all
  moreover have "scan EndValue [ParseArrayValue] (CHR '']'' # s) = prepend '']'' (scan EndTop [] s)"
    by (rule scan_next) (simp add: json_space_def pop_parse_def)
  moreover have "scan EndTop [] s = Some ([], s)" by (cases s) simp_all
  ultimately show ?case by (simp del: scan.simps)
next
  case (cons v vs)
  then have "scan BeginValue [ParseArrayValue] (float_text v @ CHR '','' # items_text (map float_text vs) @ CHR '']'' # s) =
      prepend (float_text v) (scan EndValue [ParseArrayValue] (CHR '','' # items_text (map float_text vs) @ CHR '']'' # s))"
    by (intro scan_float_text) simp_all
  moreover have "scan EndValue [ParseArrayValue] (CHR '','' # r) = prepend '','' (scan BeginValue [ParseArrayValue] r)" for r
    by (rule scan_next) (simp add: json_space_def)
  moreover have "items_text (map float_text (v # vs)) = float_text v @ CHR '','' # items_text (map float_text vs)"
    using cons.hyps by (cases vs) auto
  ultimately show ?case using cons by (simp del: scan.simps)
qed

lemma scan_value_array:
  assumes "list_all plain_double vs" and "vs \<noteq> []"
  shows "scan_value (json_array (map float_text vs) @ s) = Some (json_array (map float_text vs), s)"
proof -
  obtain v w where v: "vs = v # w" using assms(2) by (cases vs) auto
  obtain d ds where d: "float_text v = d # ds" "is_digit d" using float_text_lead [of v] assms(1) v by auto
  have hd: "\<exists>r. items_text (map float_text vs) = d # r" using d v by (cases w) auto
  have "scan BeginValueOrEmpty [ParseArrayValue] (d # r) = scan BeginValue [ParseArrayValue] (d # r)" for r
  proof -
    have "d \<noteq> CHR '']''" "\<not> json_space d" using d(2) by (auto simp: is_digit_def json_space_def)
    then have "scan_step BeginValueOrEmpty [ParseArrayValue] d = scan_step BeginValue [ParseArrayValue] d" by simp
    then show ?thesis by simp
  qed
  then have "scan BeginValueOrEmpty [ParseArrayValue] (items_text (map float_text vs) @ CHR '']'' # s) =
      Some (items_text (map float_text vs) @ '']'', s)"
    using hd scan_items [OF assms(2,1)] by (metis append_Cons)
  moreover have "scan BeginValue [] (CHR ''['' # r) = prepend ''['' (scan BeginValueOrEmpty [ParseArrayValue] r)" for r
    by (rule scan_next) (simp add: step_begin_value_def json_space_def push_parse_def maxNestingDepth_def)
  ultimately show ?thesis by (simp add: scan_value_def json_array_def json_space_def del: scan.simps)
qed

lemma self_delimiting_values:
  "0 \<le> n \<Longrightarrow> self_delimiting (show_int n)"
  "list_all plain_double vs \<Longrightarrow> vs \<noteq> [] \<Longrightarrow> self_delimiting (json_array (map float_text vs))"
  by (simp_all add: self_delimiting_def scan_value_text scan_value_array)

text \<open>The array loop reads the values back.\<close>

lemma digit_not_space:
  assumes "is_digit c"
  shows "c \<notin> set (map hd space_encodings)" "c \<notin> set (map last space_encodings)"
  using assms by (auto simp: space_encodings_def is_digit_def)

lemma isNull_digits:
  assumes "s \<noteq> []" and "is_digit (hd s)" and "is_digit (last s)"
  shows "\<not> isNull s"
proof -
  have "trimSpace s = s" using assms digit_not_space by (intro trimSpace_id) auto
  then show ?thesis using assms(2) by (auto simp: isNull_def is_digit_def)
qed

lemma last_digit: "ds \<noteq> [] \<Longrightarrow> list_all is_digit ds \<Longrightarrow> is_digit (last ds)"
  by (simp add: list_all_iff)

lemma decodeSample_text:
  assumes "plain_double v"
  shows "decodeSample (float_text v) = Some v"
proof -
  obtain n d where t: "float_text v = decimal_text n d" using float_text_ok [OF assms] by metis
  have "is_digit (last (decimal_text n d))"
  proof (cases "d = 0")
    case False
    then have "pad_digits d (n mod 10 ^ d) \<noteq> []" by (metis length_pad_digits list.size(3))
    then show ?thesis using False last_digit [of "pad_digits d (n mod 10 ^ d)"] by (simp add: decimal_text_def)
  qed (simp add: decimal_text_def last_digit)
  moreover obtain c cs where "float_text v = c # cs" "is_digit c" using float_text_lead [OF assms] by blast
  ultimately have "\<not> isNull (float_text v)" using isNull_digits [of "float_text v"] t by simp
  then show ?thesis by (simp add: decodeSample_def json_float64_float_text [OF assms])
qed

lemma decodeInt_text:
  assumes "0 \<le> n"
  shows "n \<le> maxInt64 \<Longrightarrow> decodeInt64 (show_int n) = Some n" and "n \<le> maxInt32 \<Longrightarrow> decodeInt32 (show_int n) = Some n"
proof -
  have s: "show_int n = dec_digits (nat n)" using assms by (simp add: show_int_def)
  have "\<not> isNull (show_int n)"
    using isNull_digits [of "show_int n"] hd_dec_digits [of "nat n"] by (simp add: s last_digit)
  then show "n \<le> maxInt64 \<Longrightarrow> decodeInt64 (show_int n) = Some n" "n \<le> maxInt32 \<Longrightarrow> decodeInt32 (show_int n) = Some n"
    using assms by (simp_all add: decodeInt64_def decodeInt32_def ParseInt_show_int int_bounds_defs)
qed

lemma array_items_one:
  assumes v: "plain_double v" and len: "length acc < limit" and c: "c = CHR '','' \<or> c = CHR '']''"
  shows "array_items decodeSample limit acc True (float_text v @ c # r) = array_items decodeSample limit (acc @ [v]) False (c # r)"
    and "array_items decodeSample limit acc False (CHR '','' # float_text v @ c # r) = array_items decodeSample limit (acc @ [v]) False (c # r)"
proof -
  obtain d ds where d: "float_text v = d # ds" "is_digit d" using float_text_lead [OF v] by blast
  have sv: "scan_value (d # ds @ c # r) = Some (d # ds, c # r)" using scan_value_text(2) [of c v r] v c d by auto
  have "d \<noteq> CHR '']''" "d \<noteq> CHR ''}''" using d(2) by (auto simp: is_digit_def)
  then show "array_items decodeSample limit acc True (float_text v @ c # r) = array_items decodeSample limit (acc @ [v]) False (c # r)"
    using len sv decodeSample_text [OF v] d by (subst array_items.simps) (simp add: skip_space_digit)
  show "array_items decodeSample limit acc False (CHR '','' # float_text v @ c # r) = array_items decodeSample limit (acc @ [v]) False (c # r)"
    using len sv decodeSample_text [OF v] d by (subst array_items.simps) simp
qed

lemma array_items_close: "array_items conv limit acc first '']'' = Some (acc, [])"
  by (subst array_items.simps) (simp add: skip_space_def json_space_def)

lemma array_items_texts:
  assumes "list_all plain_double vs" and "vs \<noteq> []" and "length acc + length vs \<le> limit"
  shows "array_items decodeSample limit acc True (items_text (map float_text vs) @ '']'') = Some (acc @ vs, [])"
    and "array_items decodeSample limit acc False (CHR '','' # items_text (map float_text vs) @ '']'') = Some (acc @ vs, [])"
proof -
  have split: "items_text (map float_text (v # w # ws)) @ '']'' = float_text v @ CHR '','' # items_text (map float_text (w # ws)) @ '']''" for v w ws
    by simp
  have "array_items decodeSample limit acc False (CHR '','' # items_text (map float_text vs) @ '']'') = Some (acc @ vs, [])
      \<and> array_items decodeSample limit acc True (items_text (map float_text vs) @ '']'') = Some (acc @ vs, [])"
    using assms
  proof (induction vs arbitrary: acc)
    case (Cons v vs)
    show ?case
    proof (cases vs)
      case Nil
      then show ?thesis using Cons.prems array_items_one [of v acc limit "CHR '']''" "[]"] by (simp add: array_items_close)
    next
      case (Cons w ws)
      then show ?thesis
        using Cons.prems Cons.IH [of "acc @ [v]"] array_items_one [of v acc limit "CHR '',''" "items_text (map float_text vs) @ '']''"]
        by (simp add: Cons)
    qed
  qed simp
  then show "array_items decodeSample limit acc True (items_text (map float_text vs) @ '']'') = Some (acc @ vs, [])"
    and "array_items decodeSample limit acc False (CHR '','' # items_text (map float_text vs) @ '']'') = Some (acc @ vs, [])"
    by blast+
qed

lemma decodeSamples_text:
  assumes "list_all plain_double vs" and "vs \<noteq> []" and "int (length vs) \<le> limit"
  shows "decodeSamples (json_array (map float_text vs)) limit = Some vs"
proof -
  have "trimSpace (json_array (map float_text vs)) = json_array (map float_text vs)"
    by (rule trimSpace_id) (auto simp: json_array_def space_encodings_def)
  then have "\<not> isNull (json_array (map float_text vs))" by (simp add: isNull_def json_array_def)
  then show ?thesis
    using array_items_texts(1) [OF assms(1,2), of "[]" "nat limit"] assms(3)
    by (simp add: decodeSamples_def json_array_def skip_space_def json_space_def)
qed

section \<open>Round trip of the wire format\<close>

text \<open>A batch the simulator may print.\<close>

definition batch_ok :: "uuid_pkg \<Rightarrow> BatchDTO \<Rightarrow> bool" where
  "batch_ok U b \<longleftrightarrow>
     bd_ProtocolVersion b = 1 \<and> bd_MessageType b = ''telemetry_batch'' \<and>
     valid_message_id U (bd_MessageID b) \<and> valid_boot_id U (bd_BootID b) \<and>
     ValidateGatewayID (bd_GatewayID b) \<and> ValidateSensorID (bd_SensorID b) \<and>
     0 \<le> bd_FirstSequence b \<and> bd_FirstSequence b \<le> maxInt64 \<and>
     0 < bd_SampleIntervalUS b \<and> bd_SampleIntervalUS b \<le> maxInt64 \<and>
     0 < bd_SampleCount b \<and> bd_SampleCount b \<le> maxInt32 \<and> int (length (bd_Samples b)) = bd_SampleCount b \<and>
     list_all plain_char (bd_MeasuredAt b) \<and> list_all plain_double (bd_Samples b)"

lemma valid_id_text:
  assumes "ValidateGatewayID g \<or> ValidateSensorID g"
  shows "list_all plain_char g" and "length g \<le> 64"
  using assms gatewayIDPattern_chars [of g] id_char_plain [of g] by (auto simp: ValidateGatewayID_def ValidateSensorID_def)

lemma decodeString_quote: "list_all plain_char s \<Longrightarrow> decodeString (quote s) = Some s"
  by (simp add: decodeString_def json_string_quote)

lemma decodeUUID_text:
  assumes "uuid_text_ok U" and "uuid_validate_ok U"
  shows "decodeUUID U (quote (uuid_String U u)) = Some u"
  using assms uuid_String_plain [OF assms(1), of u] uuid_text_roundtrip [OF assms(1)]
  by (simp add: decodeUUID_def decodeString_quote uuid_validate_ok_def)

lemma marshalBatch_object:
  assumes U: "uuid_text_ok U" and b: "batch_ok U b"
  shows "decodeBatchObject (marshalBatch U b) = Some (batch_fields U b)"
proof -
  have s: "bd_Samples b \<noteq> []" using b by (auto simp: batch_ok_def)
  have "\<forall>(k, v) \<in> set (batch_fields U b). list_all plain_char k \<and> self_delimiting v"
    using b s valid_id_text [of "bd_GatewayID b"] valid_id_text [of "bd_SensorID b"]
    by (auto simp: batch_fields_def batch_ok_def plain_char_def
        intro!: self_delimiting_quote self_delimiting_values uuid_String_plain [OF U])
  moreover have "distinct (map fst (batch_fields U b))" "set (map fst (batch_fields U b)) = set batchFieldNames"
    "length (batch_fields U b) = length batchFieldNames" "batch_fields U b \<noteq> []"
    by (simp_all add: batch_fields_def batchFieldNames_def insert_commute)
  ultimately show ?thesis unfolding decodeBatchObject_def marshalBatch_def by (intro decode_json_object)
qed

lemma raw_batch_fields:
  "raw_field (batch_fields U b) ''protocol_version'' = show_int (bd_ProtocolVersion b)"
  "raw_field (batch_fields U b) ''message_id'' = quote (uuid_String U (bd_MessageID b))"
  "raw_field (batch_fields U b) ''message_type'' = quote (bd_MessageType b)"
  "raw_field (batch_fields U b) ''gateway_id'' = quote (bd_GatewayID b)"
  "raw_field (batch_fields U b) ''sensor_id'' = quote (bd_SensorID b)"
  "raw_field (batch_fields U b) ''boot_id'' = quote (uuid_String U (bd_BootID b))"
  "raw_field (batch_fields U b) ''first_sequence'' = show_int (bd_FirstSequence b)"
  "raw_field (batch_fields U b) ''sample_count'' = show_int (bd_SampleCount b)"
  "raw_field (batch_fields U b) ''measured_at'' = quote (bd_MeasuredAt b)"
  "raw_field (batch_fields U b) ''sample_interval_us'' = show_int (bd_SampleIntervalUS b)"
  "raw_field (batch_fields U b) ''samples'' = json_array (map float_text (bd_Samples b))"
  by (simp_all add: raw_field_def batch_fields_def)

lemma decode_marshalBatch:
  assumes U: "uuid_text_ok U" "uuid_validate_ok U" and b: "batch_ok U b"
    and size: "int (length (marshalBatch U b)) \<le> lm_MaxPayloadBytes l" and count: "bd_SampleCount b \<le> lm_MaxSamples l"
    and topic: "pt_GatewayID topic = bd_GatewayID b" "pt_SensorID topic = bd_SensorID b"
  shows "decodeBatch U (marshalBatch U b) topic l = Inr b"
proof -
  have one: "(0::int) \<le> 1" "1 \<le> maxInt64" by (simp_all add: maxInt64_def)
  have "0 < lm_MaxSamples l" "0 < lm_MaxPayloadBytes l"
    using b count size by (auto simp: batch_ok_def marshalBatch_def json_object_def)
  moreover have "list_all plain_char ''telemetry_batch''" by (simp add: plain_char_def)
  moreover have "decodeSamples (json_array (map float_text (bd_Samples b))) (lm_MaxSamples l) = Some (bd_Samples b)"
    using b count by (intro decodeSamples_text) (auto simp: batch_ok_def)
  ultimately show ?thesis
    using b size count topic valid_id_text [of "bd_GatewayID b"] valid_id_text [of "bd_SensorID b"] decodeInt_text(1) [OF one]
    by (simp add: decodeBatch_def marshalBatch_object [OF U(1) b] raw_batch_fields decodeUUID_text [OF U] decodeInt_text
        decodeString_quote batch_ok_def valid_message_id_def valid_boot_id_def not_less not_le)
qed

text \<open>The text determines the batch: whatever the decoder returns for it is the batch itself.\<close>

lemma decode_marshalBatch_same:
  assumes U: "uuid_text_ok U" "uuid_validate_ok U" and b: "batch_ok U b"
    and dec: "decodeBatch U (marshalBatch U b) topic l = Inr b'"
  shows "b' = b"
proof -
  have d: "decoded_ok U topic l b'" "int (length (marshalBatch U b)) \<le> lm_MaxPayloadBytes l"
    using decodeBatch_fields [OF dec] by auto
  have one: "(0::int) \<le> 1" "1 \<le> maxInt64" by (simp_all add: maxInt64_def)
  have "list_all plain_char ''telemetry_batch''" by (simp add: plain_char_def)
  then have f: "bd_SampleCount b \<le> lm_MaxSamples l" "bd_GatewayID b = pt_GatewayID topic" "bd_SensorID b = pt_SensorID topic"
    using b dec valid_id_text [of "bd_GatewayID b"] valid_id_text [of "bd_SensorID b"] decodeInt_text(1) [OF one]
    by (auto simp: decodeBatch_def marshalBatch_object [OF U(1) b] raw_batch_fields decodeUUID_text [OF U] decodeInt_text
        decodeString_quote batch_ok_def valid_message_id_def valid_boot_id_def not_less not_le)
  show ?thesis using decode_marshalBatch [OF U b d(2) f(1)] f(2,3) dec by simp
qed

lemma length_dec_digits: "n < 10 ^ k \<Longrightarrow> 0 < k \<Longrightarrow> length (dec_digits n) \<le> k"
proof (induction k arbitrary: n)
  case (Suc k)
  show ?case
  proof (cases "n < 10")
    case False
    have "n div 10 < 10 ^ k" using Suc.prems by (simp add: less_mult_imp_div_less mult.commute)
    moreover have "0 < k" using False Suc.prems by (cases k) auto
    ultimately show ?thesis using Suc.IH [of "n div 10"] False by (simp add: dec_digits.simps [of n])
  qed (simp add: dec_digits.simps)
qed simp

lemma length_show_int: "0 \<le> n \<Longrightarrow> n \<le> maxInt64 \<Longrightarrow> length (show_int n) \<le> 19"
  using length_dec_digits [of "nat n" 19] by (simp add: show_int_def maxInt64_def nat_less_iff)

lemma length_items: "list_all plain_double vs \<Longrightarrow> length (items_text (map float_text vs)) \<le> 21 * length vs"
proof (induction vs rule: induct_list012)
  case (2 v)
  then show ?case using length_float_text [of v] by simp
next
  case (3 v w vs)
  then show ?case using length_float_text [of v] by simp
qed simp

lemma marshalBatch_length:
  assumes U: "uuid_text_ok U" and b: "batch_ok U b" and t: "length (bd_MeasuredAt b) \<le> 27"
  shows "int (length (marshalBatch U b)) \<le> 600 + 21 * bd_SampleCount b"
proof -
  have i: "length (show_int (bd_FirstSequence b)) \<le> 19" "length (show_int (bd_SampleCount b)) \<le> 19"
      "length (show_int (bd_SampleIntervalUS b)) \<le> 19" "length (show_int (bd_ProtocolVersion b)) \<le> 19"
    using b by (auto intro!: length_show_int simp: batch_ok_def int_bounds_defs)
  have g: "length (bd_GatewayID b) \<le> 64" "length (bd_SensorID b) \<le> 64"
    using b valid_id_text(2) [of "bd_GatewayID b"] valid_id_text(2) [of "bd_SensorID b"] by (auto simp: batch_ok_def)
  have s: "int (length (items_text (map float_text (bd_Samples b)))) \<le> 21 * bd_SampleCount b"
    using b length_items [of "bd_Samples b"] by (auto simp: batch_ok_def)
  have u: "length (uuid_String U x) = 36" for x using U by (simp add: uuid_text_ok_def)
  have "length (marshalBatch U b) \<le> 600 + length (items_text (map float_text (bd_Samples b)))"
    using b i g t by (simp add: marshalBatch_def json_object_def batch_fields_def quote_def u json_array_def batch_ok_def)
  then show ?thesis using s by linarith
qed

section \<open>What the builder guarantees\<close>

lemma format_micro_text:
  assumes "0 \<le> t" and "t < endOfYear9999"
  shows "list_all plain_char (format_micro t)" and "length (format_micro t) = 27"
proof -
  obtain y m d where c: "civil_of_days (t div nsPerDay) = (y, m, d)" by (metis prod_cases3)
  obtain hh mi ss ns where k: "clock_of t = (hh, mi, ss, ns)" by (metis prod_cases4)
  have "1 \<le> y" "y < 10000"
    using assms time_Year_ge_1 [of t] time_Year_le_9999 [of t] civil_of_days_correct(6) [OF c] by (simp_all add: time_Year_def)
  then show "list_all plain_char (format_micro t)" "length (format_micro t) = 27"
    using pad_digits_plain by (simp_all add: format_micro_def format_datetime_def c k year_digits_def plain_letters)
qed

lemma format_micro_plain: "list_all plain_char (format_micro t)"
proof -
  obtain y m d where c: "civil_of_days (t div nsPerDay) = (y, m, d)" by (metis prod_cases3)
  obtain hh mi ss ns where k: "clock_of t = (hh, mi, ss, ns)" by (metis prod_cases4)
  show ?thesis by (simp add: format_micro_def format_datetime_def c k year_digits_def digits_plain)
qed

text \<open>A request for a batch that fits.\<close>

definition request_ok :: "uuid_pkg \<Rightarrow> BatchRequest \<Rightarrow> time \<Rightarrow> bool" where
  "request_ok U req receivedAt \<longleftrightarrow>
     ValidateGatewayID (br_GatewayID req) \<and> ValidateSensorID (br_SensorID req) \<and>
     valid_boot_id U (br_BootID req) \<and> valid_message_id U (br_MessageID req) \<and>
     0 < br_SampleCount req \<and> br_SampleCount req \<le> 1000 \<and>
     0 \<le> br_FirstSequence req \<and> br_FirstSequence req + (br_SampleCount req - 1) \<le> maxInt64 \<and>
     0 < br_SampleIntervalUS req \<and> (br_SampleCount req - 1) * (br_SampleIntervalUS req * 1000) \<le> 60 * nsPerSecond \<and>
     br_SampleIntervalUS req \<le> maxExactFloat64Integer \<and>
     0 < br_MeasuredAt req \<and>
     br_MeasuredAt req div 1000 * 1000 + (br_SampleCount req - 1) * (br_SampleIntervalUS req * 1000) < endOfYear9999 \<and>
     br_MeasuredAt req div 1000 * 1000 + (br_SampleCount req - 1) * (br_SampleIntervalUS req * 1000) \<le> receivedAt + 120 * nsPerSecond"

lemma synthetic_batch_simps [simp]:
  "bd_GatewayID (synthetic_batch req) = br_GatewayID req" "bd_SensorID (synthetic_batch req) = br_SensorID req"
  "bd_SampleCount (synthetic_batch req) = br_SampleCount req" "bd_MessageID (synthetic_batch req) = br_MessageID req"
  "bd_FirstSequence (synthetic_batch req) = br_FirstSequence req" "bd_BootID (synthetic_batch req) = br_BootID req"
  "bd_SampleIntervalUS (synthetic_batch req) = br_SampleIntervalUS req"
  "bd_MeasuredAt (synthetic_batch req) = formatMeasuredAt (br_MeasuredAt req)"
  "length (bd_Samples (synthetic_batch req)) = nat (br_SampleCount req)"
  by (simp_all add: synthetic_batch_def)

lemma request_pos:
  assumes "request_ok U req r"
  shows "0 < br_SampleCount req" "0 < br_MeasuredAt req"
  using assms by (simp_all add: request_ok_def)

lemma request_time:
  assumes "request_ok U req r"
  shows "0 \<le> br_MeasuredAt req div 1000 * 1000" "br_MeasuredAt req div 1000 * 1000 < endOfYear9999"
    "parseMeasuredAt (formatMeasuredAt (br_MeasuredAt req)) = Some (br_MeasuredAt req div 1000 * 1000)"
proof -
  have "0 \<le> (br_SampleCount req - 1) * (br_SampleIntervalUS req * 1000)" using assms by (simp add: request_ok_def)
  moreover have fit: "br_MeasuredAt req div 1000 * 1000 + (br_SampleCount req - 1) * (br_SampleIntervalUS req * 1000) < endOfYear9999"
    using assms unfolding request_ok_def by blast
  ultimately show t: "0 \<le> br_MeasuredAt req div 1000 * 1000" "br_MeasuredAt req div 1000 * 1000 < endOfYear9999"
  proof -
    show "0 \<le> br_MeasuredAt req div 1000 * 1000" using request_pos(2) [OF assms] by simp
  qed linarith
  show "parseMeasuredAt (formatMeasuredAt (br_MeasuredAt req)) = Some (br_MeasuredAt req div 1000 * 1000)"
    using parseMeasuredAt_format_micro [OF t] by (simp add: formatMeasuredAt_def)
qed

lemma synthetic_batch_ok:
  assumes "request_ok U req r"
  shows "batch_ok U (synthetic_batch req)"
proof -
  have "list_all plain_double (bd_Samples (synthetic_batch req))"
    by (simp add: synthetic_batch_def list_all_iff syntheticValue_plain)
  moreover have "bd_ProtocolVersion (synthetic_batch req) = 1" "bd_MessageType (synthetic_batch req) = ''telemetry_batch''"
    by (simp_all add: synthetic_batch_def)
  ultimately show ?thesis
    using assms format_micro_plain
    by (auto simp: batch_ok_def request_ok_def formatMeasuredAt_def int_bounds_defs maxExactFloat64Integer_def)
qed

lemma synthetic_range:
  assumes "request_ok U req r"
  shows "range_spec (synthetic_batch req) ServerLimits r (br_MeasuredAt req div 1000 * 1000)"
proof -
  have "(br_SampleCount req - 1) * (br_SampleIntervalUS req * 1000) \<le> 60 * nsPerSecond"
    using assms unfolding request_ok_def by blast
  then have "(br_SampleCount req - 1) * (br_SampleIntervalUS req * 1000) \<le> maxInt64"
    by (rule order_trans) (simp add: nsPerSecond_def maxInt64_def)
  then show ?thesis
    using assms request_time [OF assms] by (simp add: range_spec_def request_ok_def ServerLimits_def nsPerSecond_def)
qed

lemma synthetic_Validate:
  assumes U: "uuid_text_ok U" "uuid_validate_ok U" and req: "request_ok U req r"
  defines "t \<equiv> br_MeasuredAt req div 1000 * 1000" and "topic \<equiv> telemetry_topic (br_GatewayID req) (br_SensorID req)"
    and "payload \<equiv> marshalBatch U (synthetic_batch req)"
  shows "Validate U (Some ServerLimits) topic payload r = Inr
    \<lparr>msg_topic = \<lparr>pt_SourceTopic = topic, pt_GatewayID = br_GatewayID req, pt_SensorID = br_SensorID req\<rparr>,
     msg_batch = synthetic_batch req, msg_rawPayload = payload, msg_payloadHash = sha256_hex payload, msg_receivedAt = r,
     msg_samples = map (exact_sample (synthetic_batch req) t) [0..<nat (br_SampleCount req)]\<rparr>"
proof -
  let ?b = "synthetic_batch req" and ?p = "\<lparr>pt_SourceTopic = topic, pt_GatewayID = br_GatewayID req, pt_SensorID = br_SensorID req\<rparr>"
  let ?r = "\<lparr>vr_FirstMeasuredAt = t, vr_LastMeasuredAt = t + (br_SampleCount req - 1) * (br_SampleIntervalUS req * 1000),
      vr_LastSequence = br_FirstSequence req + (br_SampleCount req - 1), vr_Interval = br_SampleIntervalUS req * 1000\<rparr>"
  have ok: "batch_ok U ?b" by (rule synthetic_batch_ok [OF req])
  have size: "int (length payload) \<le> 65536"
    using marshalBatch_length [OF U(1) ok] format_micro_text(2) [OF request_time(1,2) [OF req]] req
    by (simp add: payload_def request_ok_def formatMeasuredAt_def)
  have top: "ParseTopic topic = Inr ?p" using req by (auto simp: ParseTopic_ok_iff topic_def request_ok_def)
  have dec: "decodeBatch U payload ?p ServerLimits = Inr ?b" unfolding payload_def
    using size req by (intro decode_marshalBatch [OF U ok]) (simp_all add: ServerLimits_def payload_def request_ok_def)
  have rng: "range_spec ?b ServerLimits r t" unfolding t_def by (rule synthetic_range [OF req])
  have "in_i64 (bd_FirstSequence ?b)" "bd_SampleCount ?b \<le> maxInt32" using req by (auto simp: request_ok_def int_bounds_defs)
  then have vr: "validateRange ?b ServerLimits r = Inr ?r" using validateRange_iff [of ?b ServerLimits r] rng by auto
  have d: "decoded_ok U ?p ServerLimits ?b" using decodeBatch_fields [OF dec] by simp
  have "expandSamples ?b ?r = map (exact_sample ?b t) [0..<nat (br_SampleCount req)]"
    using expandSamples_exact [OF d rng, of ?r] by simp
  moreover have "Limits_Validate ServerLimits = None" "lm_MaxPayloadBytes ServerLimits = 65536"
    by (simp_all add: Limits_Validate_def ServerLimits_def int_bounds_defs nsPerSecond_def)
  ultimately show ?thesis unfolding Validate_ok_iff using size top dec vr by auto
qed

text \<open>A built batch is a validated message, and stays one when it arrives later.\<close>

lemma BuildSyntheticBatch_ok:
  assumes "BuildSyntheticBatch U req l r = Inr bb"
  obtains m where "Validate U (Some l) (bb_Topic bb) (bb_Payload bb) r = Inr m" "bb_Batch bb = msg_batch m"
    "bb_Topic bb = telemetry_topic (br_GatewayID req) (br_SensorID req)" "bb_Payload bb = marshalBatch U (synthetic_batch req)"
    "ParseTopic (bb_Topic bb) = Inr \<lparr>pt_SourceTopic = bb_Topic bb, pt_GatewayID = br_GatewayID req, pt_SensorID = br_SensorID req\<rparr>"
    "valid_message_id U (br_MessageID req)" "0 < br_SampleCount req"
    "map_option sc_MeasuredAt (FirstSample (Some m)) = Some (bb_FirstMeasuredAt bb)"
    "map_option sc_MeasuredAt (LastSample (Some m)) = Some (bb_LastMeasuredAt bb)"
proof -
  obtain m f where v: "ValidateGatewayID (br_GatewayID req)" "ValidateSensorID (br_SensorID req)"
      "valid_message_id U (br_MessageID req)" "0 < br_SampleCount req"
    and m: "Validate U (Some l) (telemetry_topic (br_GatewayID req) (br_SensorID req)) (marshalBatch U (synthetic_batch req)) r = Inr m"
    and f: "FirstSample (Some m) = Some f"
    and bb: "bb = \<lparr>bb_Topic = telemetry_topic (br_GatewayID req) (br_SensorID req), bb_Payload = marshalBatch U (synthetic_batch req),
      bb_Batch = msg_batch m, bb_FirstMeasuredAt = sc_MeasuredAt f,
      bb_LastMeasuredAt = (case LastSample (Some m) of None \<Rightarrow> 0 | Some s \<Rightarrow> sc_MeasuredAt s)\<rparr>"
    using assms
    by (auto simp: BuildSyntheticBatch_def Let_def NewValidator_def valid_message_id_def split: sum.splits option.splits)
  have "ParseTopic (bb_Topic bb) = Inr \<lparr>pt_SourceTopic = bb_Topic bb, pt_GatewayID = br_GatewayID req, pt_SensorID = br_SensorID req\<rparr>"
    unfolding ParseTopic_ok_iff using v by (auto simp: bb)
  moreover have "msg_samples m \<noteq> []" using f by (auto simp: FirstSample_def split: if_splits)
  ultimately show ?thesis using that [of m] v m f bb by (simp add: LastSample_def)
qed

lemma Validate_later:
  assumes ok: "Validate U (Some l) topic payload r = Inr m" and le: "r \<le> r'"
  shows "Validate U (Some l) topic payload r' = Inr (m\<lparr>msg_receivedAt := r'\<rparr>)"
proof -
  obtain p b vr where l: "Limits_Validate l = None" "int (length payload) \<le> lm_MaxPayloadBytes l"
    and p: "ParseTopic topic = Inr p" and b: "decodeBatch U payload p l = Inr b" and vr: "validateRange b l r = Inr vr"
    and m: "m = \<lparr>msg_topic = p, msg_batch = b, msg_rawPayload = payload, msg_payloadHash = sha256_hex payload,
             msg_receivedAt = r, msg_samples = expandSamples b vr\<rparr>"
    using ok unfolding Validate_ok_iff by auto
  have "in_i64 (bd_FirstSequence b)" "bd_SampleCount b \<le> maxInt32"
    using decodeBatch_fields [OF b] by (auto simp: decoded_ok_def)
  note iff = validateRange_iff [OF this]
  have "validateRange b l r' = Inr vr" using vr le unfolding iff by (fastforce simp: range_spec_def)
  then show ?thesis unfolding Validate_ok_iff using l p b m by auto
qed

lemma BuildSyntheticBatch_request:
  assumes U: "uuid_text_ok U" "uuid_validate_ok U" and req: "request_ok U req receivedAt"
  defines "t \<equiv> br_MeasuredAt req div 1000 * 1000"
  shows "BuildSyntheticBatch U req ServerLimits receivedAt = Inr
    \<lparr>bb_Topic = telemetry_topic (br_GatewayID req) (br_SensorID req), bb_Payload = marshalBatch U (synthetic_batch req),
     bb_Batch = synthetic_batch req, bb_FirstMeasuredAt = t,
     bb_LastMeasuredAt = t + (br_SampleCount req - 1) * (br_SampleIntervalUS req * 1000)\<rparr>"
proof -
  have "NewValidator ServerLimits = Inr (Some ServerLimits)"
    by (simp add: NewValidator_def Limits_Validate_def ServerLimits_def int_bounds_defs nsPerSecond_def)
  moreover have "0 < nat (br_SampleCount req)" "int (nat (br_SampleCount req) - 1) = br_SampleCount req - 1"
    using request_pos [OF req] by simp_all
  ultimately show ?thesis
    using req synthetic_Validate [OF U req]
    by (simp add: BuildSyntheticBatch_def request_ok_def valid_boot_id_def valid_message_id_def Let_def FirstSample_def
        LastSample_def exact_sample_def t_def)
qed

section \<open>Properties\<close>

text \<open>C23. The wire format of simulator batches is lossless. Take a batch of protocol version 1 with valid
  identifiers, a positive interval, a non-negative first sequence number, up to 1000 samples whose number
  is the sample count, values in the range the simulator generates (doubles from 20 to 31) and a timestamp
  text of at most 27 plain characters. The text the Gateway prints for it, with every double in shortest
  decimal form, stays within the server's size limit and is decoded under the topic of its Gateway and
  Sensor to exactly that batch.\<close>

theorem batch_wire_roundtrip:
  assumes "uuid_text_ok U" and "uuid_validate_ok U" and "batch_ok U b" and "bd_SampleCount b \<le> 1000"
    and "length (bd_MeasuredAt b) \<le> 27"
    and "pt_GatewayID topic = bd_GatewayID b" and "pt_SensorID topic = bd_SensorID b"
  shows "decodeBatch U (marshalBatch U b) topic ServerLimits = Inr b"
  using assms marshalBatch_length [OF assms(1,3,5)] by (intro decode_marshalBatch) (simp_all add: ServerLimits_def)

definition fx_request :: BatchRequest where
  "fx_request = \<lparr>br_GatewayID = ''gw1'', br_SensorID = ''s1'', br_BootID = fx_boot, br_MessageID = fx_mid, br_FirstSequence = 0,
     br_MeasuredAt = fx_start, br_SampleCount = 500, br_SampleIntervalUS = 10000\<rparr>"

lemma fx_request_ok: "request_ok canonical_uuid fx_request fx_start"
  using fx_ids fx_names
  by (simp add: request_ok_def fx_request_def int_bounds_defs nsPerSecond_def maxExactFloat64Integer_def fx_start_def
      endOfYear9999_def nsPerDay_def)

lemma fx_text: "length (format_micro (fx_start div 1000 * 1000)) = 27"
  using format_micro_text(2) [OF request_time(1,2) [OF fx_request_ok]] by (simp add: fx_request_def)

theorem batch_wire_roundtrip_witness:
  "decodeBatch canonical_uuid (marshalBatch canonical_uuid (synthetic_batch fx_request)) fx_topic ServerLimits = Inr (synthetic_batch fx_request)"
  by (rule batch_wire_roundtrip [OF canonical_text_ok canonical_validate_ok synthetic_batch_ok [OF fx_request_ok]])
     (use fx_text in \<open>simp_all add: fx_request_def fx_topic_def formatMeasuredAt_def\<close>)

text \<open>The builder succeeds on every request that fits. For valid identifiers, up to 1000 samples, a
  span of at most 60 seconds, sequence numbers and times in range, it returns the batch that was
  asked for, with its synthetic values, and the exact times of its first and last sample.\<close>

theorem BuildSyntheticBatch_succeeds:
  assumes U: "uuid_text_ok U" "uuid_validate_ok U" and req: "request_ok U req receivedAt"
  defines "t \<equiv> br_MeasuredAt req div 1000 * 1000"
  shows "BuildSyntheticBatch U req ServerLimits receivedAt = Inr
    \<lparr>bb_Topic = telemetry_topic (br_GatewayID req) (br_SensorID req), bb_Payload = marshalBatch U (synthetic_batch req),
     bb_Batch = synthetic_batch req, bb_FirstMeasuredAt = t,
     bb_LastMeasuredAt = t + (br_SampleCount req - 1) * (br_SampleIntervalUS req * 1000)\<rparr>"
  unfolding t_def by (rule BuildSyntheticBatch_request [OF U req])

theorem BuildSyntheticBatch_succeeds_witness:
  "\<exists>bb. BuildSyntheticBatch canonical_uuid fx_request ServerLimits fx_start = Inr bb \<and> bd_SampleCount (bb_Batch bb) = 500"
  using BuildSyntheticBatch_succeeds [OF canonical_text_ok canonical_validate_ok fx_request_ok] by (simp add: fx_request_def)

text \<open>C22. What the Gateway stores, the server accepts. A batch built under the server's limits is
  accepted by the server's validator at the time of building and at every later receipt time, as
  the same batch with the same samples: no batch in the outbox is ever rejected for its content.\<close>

theorem built_batch_accepted:
  assumes "BuildSyntheticBatch U req l receivedAt = Inr bb" and "receivedAt \<le> r"
  shows "\<exists>m. Validate U (Some l) (bb_Topic bb) (bb_Payload bb) r = Inr m \<and> msg_batch m = bb_Batch bb \<and>
    pt_GatewayID (msg_topic m) = br_GatewayID req \<and> pt_SensorID (msg_topic m) = br_SensorID req \<and>
    sc_MeasuredAt (hd (msg_samples m)) = bb_FirstMeasuredAt bb \<and> sc_MeasuredAt (last (msg_samples m)) = bb_LastMeasuredAt bb"
proof -
  obtain m where m: "Validate U (Some l) (bb_Topic bb) (bb_Payload bb) receivedAt = Inr m" "bb_Batch bb = msg_batch m"
      "ParseTopic (bb_Topic bb) = Inr \<lparr>pt_SourceTopic = bb_Topic bb, pt_GatewayID = br_GatewayID req, pt_SensorID = br_SensorID req\<rparr>"
      "map_option sc_MeasuredAt (FirstSample (Some m)) = Some (bb_FirstMeasuredAt bb)"
      "map_option sc_MeasuredAt (LastSample (Some m)) = Some (bb_LastMeasuredAt bb)"
    using BuildSyntheticBatch_ok [OF assms(1)] by metis
  have "msg_topic m = \<lparr>pt_SourceTopic = bb_Topic bb, pt_GatewayID = br_GatewayID req, pt_SensorID = br_SensorID req\<rparr>"
    using m(1,3) unfolding Validate_ok_iff by auto
  moreover have "msg_samples m \<noteq> []" using m(4) by (auto simp: FirstSample_def split: if_splits)
  ultimately show ?thesis
    using Validate_later [OF m(1) assms(2)] m(2,4,5)
    by (auto simp: FirstSample_def LastSample_def hd_conv_nth last_conv_nth split: if_splits)
qed

theorem built_batch_accepted_witness:
  "\<exists>bb m. BuildSyntheticBatch canonical_uuid fx_request ServerLimits fx_start = Inr bb \<and>
     Validate canonical_uuid (Some ServerLimits) (bb_Topic bb) (bb_Payload bb) (fx_start + 3600 * nsPerSecond) = Inr m"
proof -
  obtain bb where bb: "BuildSyntheticBatch canonical_uuid fx_request ServerLimits fx_start = Inr bb"
    using BuildSyntheticBatch_request [OF canonical_text_ok canonical_validate_ok fx_request_ok] by blast
  have "fx_start \<le> fx_start + 3600 * nsPerSecond" by (simp add: nsPerSecond_def)
  from built_batch_accepted [OF bb this] show ?thesis using bb by blast
qed

end
