(* ===== verification/Outbox.thy ===== *)
theory Outbox
  imports Batch
begin

text \<open>
  The Gateway's durable outbox (\<open>gatewaysim/outbox.go\<close>, \<open>outbox_lock_linux.go\<close>): a SQLite file bound
  to one Gateway and Sensor, with the rows still to be acknowledged and one sequence counter per
  boot. The file is explicit state; every SQL call may fail with a driver error, and a failed
  commit may or may not have been applied, as \<open>sql_env\<close> says for one operation. Contexts and
  timeouts are such failures.
\<close>

section \<open>The file\<close>

definition outboxStatusPending :: string where "outboxStatusPending = ''pending''"
definition outboxStatusQuarantined :: string where "outboxStatusQuarantined = ''quarantined''"
definition maxQuarantineReason :: nat where "maxQuarantineReason = 256"
definition maxAdminPendingLimit :: int where "maxAdminPendingLimit = 1000"
definition outboxSchemaVersion :: int where "outboxSchemaVersion = 1"

record outbox_row =
  ob_id :: int
  ob_message_id :: string
  ob_gateway_id :: string
  ob_sensor_id :: string
  ob_boot_id :: string
  ob_topic :: string
  ob_payload :: string
  ob_byte_size :: int
  ob_first_sequence :: int
  ob_sample_count :: int
  ob_sample_interval_us :: int
  ob_status :: string
  ob_reason :: "string option"
  ob_enqueued_at :: string

text \<open>
  The database: its \<open>user_version\<close>, the number of user tables, the row of \<open>outbox_meta\<close>, the rows of
  \<open>outbox\<close>, the last identifier AUTOINCREMENT gave out, and \<open>outbox_streams\<close>.
\<close>

record outbox_file =
  of_version :: int
  of_tables :: nat
  of_meta :: "(string \<times> string) option"
  of_rows :: "outbox_row list"
  of_seq :: int
  of_streams :: "string \<times> string \<times> string \<rightharpoonup> int"

definition empty_file :: outbox_file where
  "empty_file = \<lparr>of_version = 0, of_tables = 0, of_meta = None, of_rows = [], of_seq = 0, of_streams = Map.empty\<rparr>"

datatype sql_op =
    SqlOpenLock | SqlFlock | SqlOpen | SqlPing | SqlVersion | SqlTables | SqlBegin | SqlStatement nat | SqlInsertMeta
  | SqlSetVersion | SqlCommit | SqlReadMeta | SqlReadStream | SqlUsage | SqlInsertRow | SqlLastInsertId | SqlUpsertStream
  | SqlQuery | SqlRows | SqlCounts | SqlDelete | SqlUpdate | SqlRowsAffected | SqlClose | SqlRelease

record sql_env =
  sql_fault :: "sql_op \<Rightarrow> string option"
  sql_applied :: bool
  sql_now :: time

definition sql_call :: "sql_env \<Rightarrow> sql_op \<Rightarrow> sim_error + unit" where
  "sql_call env op = (case sql_fault env op of None \<Rightarrow> Inr () | Some e \<Rightarrow> Inl (SimDriver e))"

text \<open>A call whose failure is reported as a corrupt file.\<close>

definition sql_read :: "sql_env \<Rightarrow> sql_op \<Rightarrow> sim_error + unit" where
  "sql_read env op = (case sql_fault env op of None \<Rightarrow> Inr () | Some e \<Rightarrow> Inl ErrOutboxCorrupt)"

text \<open>\<open>o.commit(tx)\<close> of a transaction that changed \<open>f\<close> to \<open>f'\<close>.\<close>

definition sql_commit :: "sql_env \<Rightarrow> outbox_file \<Rightarrow> outbox_file \<Rightarrow> 'a \<Rightarrow> (sim_error + 'a) \<times> outbox_file" where
  "sql_commit env f f' x =
     (case sql_fault env SqlCommit of
        None \<Rightarrow> (Inr x, f')
      | Some e \<Rightarrow> (Inl ErrOutboxCommitUnknown, if sql_applied env then f' else f))"

text \<open>The shape of every operation: the statements up to the commit, rolled back on an error.\<close>

definition in_tx :: "sql_env \<Rightarrow> outbox_file \<Rightarrow> (sim_error + 'a \<times> outbox_file) \<Rightarrow> (sim_error + 'a) \<times> outbox_file" where
  "in_tx env f body =
     (case sql_fault env SqlBegin of
        Some e \<Rightarrow> (Inl (SimDriver e), f)
      | None \<Rightarrow> (case body of Inl e \<Rightarrow> (Inl e, f) | Inr (x, f') \<Rightarrow> sql_commit env f f' x))"

section \<open>Opening\<close>

record OutboxConfig =
  oc_Path :: string
  oc_GatewayID :: string
  oc_SensorID :: string
  oc_MaxRows :: int
  oc_MaxBytes :: int
  oc_OpTimeout :: duration

record Outbox =
  ox_gatewayID :: string
  ox_sensorID :: string
  ox_maxRows :: int
  ox_maxBytes :: int
  ox_opTimeout :: duration

text \<open>\<open>path/filepath\<close> on Unix.\<close>

definition filepath_IsAbs :: "string \<Rightarrow> bool" where
  "filepath_IsAbs p = hasPrefix p ''/''"

fun clean_segments :: "bool \<Rightarrow> string list \<Rightarrow> string list \<Rightarrow> string list" where
  "clean_segments rooted out [] = out"
| "clean_segments rooted out (s # ss) =
     (if s = [] \<or> s = ''.'' then clean_segments rooted out ss
      else if s = ''..'' then
        (if out \<noteq> [] \<and> last out \<noteq> ''..'' then clean_segments rooted (butlast out) ss
         else if rooted then clean_segments rooted out ss
         else clean_segments rooted (out @ [s]) ss)
      else clean_segments rooted (out @ [s]) ss)"

definition filepath_Clean :: "string \<Rightarrow> string" where
  "filepath_Clean p =
     (let rooted = filepath_IsAbs p; out = clean_segments rooted [] (go_split CHR ''/'' p) in
      if rooted then CHR ''/'' # join_sep CHR ''/'' out
      else if out = [] then ''.'' else join_sep CHR ''/'' out)"

definition validateOutboxConfig :: "OutboxConfig \<Rightarrow> sim_error option" where
  "validateOutboxConfig cfg =
     (if oc_Path cfg = '':memory:'' \<or> containsStr (oc_Path cfg) ''mode=memory''
      then Some (SimMessage ''gatewaysim: outbox path must be a durable file, not an in-memory database'')
      else if \<not> filepath_IsAbs (oc_Path cfg) \<or> filepath_Clean (oc_Path cfg) \<noteq> oc_Path cfg \<or> containsStr (oc_Path cfg) ''?''
      then Some (SimMessage ''gatewaysim: outbox path must be a clean absolute file path without a query string'')
      else if oc_GatewayID cfg = [] \<or> oc_SensorID cfg = []
      then Some (SimMessage ''gatewaysim: outbox requires a gateway and sensor identity'')
      else if oc_MaxRows cfg \<le> 0 then Some (SimMessage ''gatewaysim: outbox max rows must be positive'')
      else if oc_MaxBytes cfg \<le> 0 then Some (SimMessage ''gatewaysim: outbox max bytes must be positive'')
      else if oc_OpTimeout cfg \<le> 0 then Some (SimMessage ''gatewaysim: outbox operation timeout must be positive'')
      else None)"

text \<open>
  The host's view of one path: the database file if it exists, whether it is a regular file, and
  whether some process holds the lock of the sidecar file.
\<close>

record outbox_host =
  oh_file :: "outbox_file option"
  oh_regular :: bool
  oh_locked :: bool

definition lockOutbox :: "sql_env \<Rightarrow> outbox_host \<Rightarrow> sim_error + outbox_host" where
  "lockOutbox env h =
     (if sql_fault env SqlOpenLock \<noteq> None then Inl ErrOutboxBusy
      else if oh_locked h then Inl ErrOutboxBusy
      else (case sql_fault env SqlFlock of Some e \<Rightarrow> Inl (SimDriver e) | None \<Rightarrow> Inr (h\<lparr>oh_locked := True\<rparr>)))"

text \<open>\<open>sql.Open\<close> and \<open>Ping\<close>; SQLite creates a missing file.\<close>

definition openOutboxDB :: "sql_env \<Rightarrow> outbox_host \<Rightarrow> sim_error + outbox_file" where
  "openOutboxDB env h =
     res_bind (sql_read env SqlOpen) (\<lambda>_. res_bind (sql_read env SqlPing) (\<lambda>_.
     Inr (case oh_file h of None \<Rightarrow> empty_file | Some f \<Rightarrow> f)))"

definition readUserVersion :: "sql_env \<Rightarrow> outbox_file \<Rightarrow> sim_error + int" where
  "readUserVersion env f = res_bind (sql_read env SqlVersion) (\<lambda>_. Inr (of_version f))"

definition readBinding :: "sql_env \<Rightarrow> outbox_file \<Rightarrow> sim_error + string \<times> string" where
  "readBinding env f = res_bind (sql_read env SqlReadMeta) (\<lambda>_. ok_or (of_meta f) ErrOutboxCorrupt)"

text \<open>
  \<open>createSchema\<close>: five statements, the identity and the version, in one transaction. The error of a
  failed statement is the driver's.
\<close>

definition createSchema :: "sql_env \<Rightarrow> Outbox \<Rightarrow> outbox_file \<Rightarrow> (sim_error + unit) \<times> outbox_file" where
  "createSchema env o' f =
     in_tx env f
       (res_bind (sql_call env (SqlStatement 0)) (\<lambda>_. res_bind (sql_call env (SqlStatement 1)) (\<lambda>_.
        res_bind (sql_call env (SqlStatement 2)) (\<lambda>_. res_bind (sql_call env (SqlStatement 3)) (\<lambda>_.
        res_bind (sql_call env (SqlStatement 4)) (\<lambda>_.
        res_bind (sql_call env SqlInsertMeta) (\<lambda>_.
        res_bind (sql_call env SqlSetVersion) (\<lambda>_.
        Inr ((), \<lparr>of_version = outboxSchemaVersion, of_tables = 3, of_meta = Some (ox_gatewayID o', ox_sensorID o'),
              of_rows = [], of_seq = 0, of_streams = Map.empty\<rparr>)))))))))"

definition verifyBinding :: "sql_env \<Rightarrow> Outbox \<Rightarrow> outbox_file \<Rightarrow> (sim_error + unit) \<times> outbox_file" where
  "verifyBinding env o' f =
     (case sql_fault env SqlReadMeta of
        Some e \<Rightarrow> (Inl ErrOutboxCorrupt, f)
      | None \<Rightarrow>
          (case of_meta f of
             None \<Rightarrow>
               (case sql_fault env SqlInsertMeta of
                  Some e \<Rightarrow> (Inl (SimDriver e), f)
                | None \<Rightarrow> (Inr (), f\<lparr>of_meta := Some (ox_gatewayID o', ox_sensorID o')\<rparr>))
           | Some (gatewayID, sensorID) \<Rightarrow>
               if gatewayID \<noteq> ox_gatewayID o' \<or> sensorID \<noteq> ox_sensorID o' then (Inl ErrOutboxIdentity, f) else (Inr (), f)))"

definition prepare :: "sql_env \<Rightarrow> Outbox \<Rightarrow> outbox_file \<Rightarrow> (sim_error + unit) \<times> outbox_file" where
  "prepare env o' f =
     (case readUserVersion env f of
        Inl e \<Rightarrow> (Inl e, f)
      | Inr version \<Rightarrow>
          if version = outboxSchemaVersion then verifyBinding env o' f
          else if version = 0 then
            (case sql_read env SqlTables of
               Inl e \<Rightarrow> (Inl e, f)
             | Inr _ \<Rightarrow> if of_tables f \<noteq> 0 then (Inl ErrOutboxSchema, f) else createSchema env o' f)
          else (Inl ErrOutboxSchema, f))"

definition OpenOutbox :: "sql_env \<Rightarrow> OutboxConfig \<Rightarrow> outbox_host \<Rightarrow> (sim_error + Outbox) \<times> outbox_host" where
  "OpenOutbox env cfg h =
     (case validateOutboxConfig cfg of
        Some e \<Rightarrow> (Inl e, h)
      | None \<Rightarrow>
          (case lockOutbox env h of
             Inl e \<Rightarrow> (Inl e, h)
           | Inr h1 \<Rightarrow>
               (case openOutboxDB env h1 of
                  Inl e \<Rightarrow> (Inl e, h1\<lparr>oh_locked := False\<rparr>)
                | Inr f \<Rightarrow>
                    (let o' = \<lparr>ox_gatewayID = oc_GatewayID cfg, ox_sensorID = oc_SensorID cfg, ox_maxRows = oc_MaxRows cfg,
                               ox_maxBytes = oc_MaxBytes cfg, ox_opTimeout = oc_OpTimeout cfg\<rparr> in
                     case prepare env o' f of
                       (Inl e, f') \<Rightarrow> (Inl e, h1\<lparr>oh_file := Some f', oh_locked := False\<rparr>)
                     | (Inr _, f') \<Rightarrow> (Inr o', h1\<lparr>oh_file := Some f'\<rparr>)))))"

definition OpenOutboxAdmin :: "sql_env \<Rightarrow> string \<Rightarrow> duration \<Rightarrow> outbox_host \<Rightarrow> (sim_error + Outbox) \<times> outbox_host" where
  "OpenOutboxAdmin env path opTimeout h =
     (if containsStr path ''?'' \<or> \<not> filepath_IsAbs path \<or> filepath_Clean path \<noteq> path
      then (Inl (SimMessage ''gatewaysim: outbox path must be a clean absolute file path without a query string''), h)
      else if opTimeout \<le> 0
      then (Inl (SimMessage ''gatewaysim: outbox operation timeout must be positive''), h)
      else if oh_file h = None \<or> \<not> oh_regular h then (Inl ErrOutboxMissing, h)
      else
        (case lockOutbox env h of
           Inl e \<Rightarrow> (Inl e, h)
         | Inr h1 \<Rightarrow>
             (case res_bind (openOutboxDB env h1) (\<lambda>f.
                   res_bind (readUserVersion env f) (\<lambda>version.
                   res_bind (reject_if (version \<noteq> outboxSchemaVersion) ErrOutboxSchema) (\<lambda>_.
                   readBinding env f))) of
                Inl e \<Rightarrow> (Inl e, h1\<lparr>oh_locked := False\<rparr>)
              | Inr (gatewayID, sensorID) \<Rightarrow>
                  (Inr \<lparr>ox_gatewayID = gatewayID, ox_sensorID = sensorID, ox_maxRows = maxAdminPendingLimit,
                        ox_maxBytes = 1, ox_opTimeout = opTimeout\<rparr>, h1))))"

text \<open>\<open>Close\<close>: the lock is released even if closing the database fails; both errors are joined.\<close>

definition Close :: "sql_env \<Rightarrow> outbox_host \<Rightarrow> sim_error list \<times> outbox_host" where
  "Close env h =
     ((case sql_fault env SqlClose of None \<Rightarrow> [] | Some e \<Rightarrow> [SimDriver e]) @
      (case sql_fault env SqlRelease of None \<Rightarrow> [] | Some e \<Rightarrow> [SimDriver e]),
      h\<lparr>oh_locked := False\<rparr>)"

section \<open>Operations\<close>

record Item =
  im_ID :: int
  im_MessageID :: uuid
  im_GatewayID :: string
  im_SensorID :: string
  im_BootID :: uuid
  im_Topic :: string
  im_Payload :: string
  im_ByteSize :: int
  im_FirstSequence :: int
  im_SampleCount :: int
  im_Status :: string
  im_EnqueuedAt :: time

record EnqueueRequest =
  er_BootID :: uuid
  er_MessageID :: uuid
  er_MeasuredAt :: time
  er_ReceivedAt :: time
  er_SampleCount :: int
  er_SampleIntervalUS :: int

record OutboxCounts =
  ct_PendingRows :: int
  ct_PendingBytes :: int
  ct_QuarantinedRows :: int
  ct_QuarantinedBytes :: int

definition nextSequence :: "uuid_pkg \<Rightarrow> sql_env \<Rightarrow> outbox_file \<Rightarrow> string \<Rightarrow> string \<Rightarrow> uuid \<Rightarrow> sim_error + int" where
  "nextSequence U env f gatewayID sensorID bootID =
     res_bind (sql_call env SqlReadStream) (\<lambda>_.
     case of_streams f (gatewayID, sensorID, uuid_String U bootID) of
       None \<Rightarrow> Inr 0
     | Some nxt \<Rightarrow> if nxt < 0 then Inl ErrOutboxCorrupt else Inr nxt)"

text \<open>SQLite's \<open>SUM\<close> of integers fails when it leaves the 64-bit range.\<close>

definition total_bytes :: "outbox_row list \<Rightarrow> int" where
  "total_bytes rows = sum_list (map ob_byte_size rows)"

definition outboxUsage :: "sql_env \<Rightarrow> outbox_file \<Rightarrow> sim_error + int \<times> int" where
  "outboxUsage env f =
     res_bind (sql_call env SqlUsage) (\<lambda>_.
     if in_i64 (total_bytes (of_rows f)) then Inr (int (length (of_rows f)), total_bytes (of_rows f))
     else Inl (SimDriver ''integer overflow''))"

text \<open>The statements of \<open>Enqueue\<close> between \<open>BEGIN\<close> and \<open>COMMIT\<close>.\<close>

definition enqueue_tx :: "uuid_pkg \<Rightarrow> sql_env \<Rightarrow> Outbox \<Rightarrow> EnqueueRequest \<Rightarrow> outbox_file \<Rightarrow> sim_error + Item \<times> outbox_file" where
  "enqueue_tx U env o' req f =
        res_bind (nextSequence U env f (ox_gatewayID o') (ox_sensorID o') (er_BootID req)) (\<lambda>firstSequence.
        res_bind (outboxUsage env f) (\<lambda>(rows, totalBytes).
        res_bind (reject_if (ox_maxRows o' \<le> rows) ErrOutboxFull) (\<lambda>_.
        res_bind (BuildSyntheticBatch U
            \<lparr>br_GatewayID = ox_gatewayID o', br_SensorID = ox_sensorID o', br_BootID = er_BootID req,
             br_MessageID = er_MessageID req, br_FirstSequence = firstSequence, br_MeasuredAt = er_MeasuredAt req,
             br_SampleCount = er_SampleCount req, br_SampleIntervalUS = er_SampleIntervalUS req\<rparr>
            ServerLimits (er_ReceivedAt req)) (\<lambda>built.
        let byteSize = int (length (bb_Topic built) + length (bb_Payload built)) in
        res_bind (reject_if (ox_maxBytes o' < i64 (totalBytes + byteSize)) ErrOutboxFull) (\<lambda>_.
        let enqueuedAt = sql_now env; i = of_seq f + 1 in
        res_bind (sql_call env SqlInsertRow) (\<lambda>_.
        res_bind (reject_if (uuid_String U (er_MessageID req) \<in> set (map ob_message_id (of_rows f)))
                    (SimDriver ''UNIQUE constraint failed: outbox.message_id'')) (\<lambda>_.
        res_bind (reject_if (of_seq f = maxInt64) (SimDriver ''database or disk is full'')) (\<lambda>_.
        res_bind (sql_call env SqlLastInsertId) (\<lambda>_.
        let newNext = i64 (firstSequence + er_SampleCount req) in
        res_bind (sql_call env SqlUpsertStream) (\<lambda>_.
        Inr (\<lparr>im_ID = i, im_MessageID = er_MessageID req, im_GatewayID = ox_gatewayID o', im_SensorID = ox_sensorID o',
              im_BootID = er_BootID req, im_Topic = bb_Topic built, im_Payload = bb_Payload built, im_ByteSize = byteSize,
              im_FirstSequence = firstSequence, im_SampleCount = er_SampleCount req, im_Status = outboxStatusPending,
              im_EnqueuedAt = enqueuedAt\<rparr>,
             f\<lparr>of_rows := of_rows f @
                 [\<lparr>ob_id = i, ob_message_id = uuid_String U (er_MessageID req), ob_gateway_id = ox_gatewayID o',
                   ob_sensor_id = ox_sensorID o', ob_boot_id = uuid_String U (er_BootID req), ob_topic = bb_Topic built,
                   ob_payload = bb_Payload built, ob_byte_size = byteSize, ob_first_sequence = firstSequence,
                   ob_sample_count = er_SampleCount req, ob_sample_interval_us = er_SampleIntervalUS req,
                   ob_status = outboxStatusPending, ob_reason = None, ob_enqueued_at = format_nano enqueuedAt\<rparr>],
               of_seq := i,
               of_streams := (of_streams f)((ox_gatewayID o', ox_sensorID o', uuid_String U (er_BootID req)) \<mapsto> newNext)\<rparr>)))))))))))"

definition Enqueue :: "uuid_pkg \<Rightarrow> sql_env \<Rightarrow> Outbox \<Rightarrow> EnqueueRequest \<Rightarrow> outbox_file \<Rightarrow> (sim_error + Item) \<times> outbox_file" where
  "Enqueue U env o' req f = in_tx env f (enqueue_tx U env o' req f)"

definition scanOutboxItem :: "uuid_pkg \<Rightarrow> outbox_row \<Rightarrow> sim_error + Item" where
  "scanOutboxItem U r =
     res_bind (reject_if (\<not> in_i32 (ob_sample_count r)) (SimDriver ''value out of range'')) (\<lambda>_.
     res_bind (ok_or (uuid_Parse U (ob_message_id r)) ErrOutboxCorrupt) (\<lambda>mid.
     res_bind (ok_or (uuid_Parse U (ob_boot_id r)) ErrOutboxCorrupt) (\<lambda>bid.
     res_bind (ok_or (time_Parse_RFC3339Nano (ob_enqueued_at r)) ErrOutboxCorrupt) (\<lambda>enq.
     Inr \<lparr>im_ID = ob_id r, im_MessageID = mid, im_GatewayID = ob_gateway_id r, im_SensorID = ob_sensor_id r,
          im_BootID = bid, im_Topic = ob_topic r, im_Payload = ob_payload r, im_ByteSize = ob_byte_size r,
          im_FirstSequence = ob_first_sequence r, im_SampleCount = ob_sample_count r, im_Status = ob_status r,
          im_EnqueuedAt = enq\<rparr>))))"

fun scan_rows :: "uuid_pkg \<Rightarrow> outbox_row list \<Rightarrow> sim_error + Item list" where
  "scan_rows U [] = Inr []"
| "scan_rows U (r # rs) = res_bind (scanOutboxItem U r) (\<lambda>i. res_bind (scan_rows U rs) (\<lambda>is. Inr (i # is)))"

definition pending_rows :: "Outbox \<Rightarrow> outbox_file \<Rightarrow> outbox_row list" where
  "pending_rows o' f =
     sort_key ob_id (filter (\<lambda>r. ob_gateway_id r = ox_gatewayID o' \<and> ob_status r = outboxStatusPending) (of_rows f))"

definition Pending :: "uuid_pkg \<Rightarrow> sql_env \<Rightarrow> Outbox \<Rightarrow> int \<Rightarrow> outbox_file \<Rightarrow> sim_error + Item list" where
  "Pending U env o' limit f =
     (if limit \<le> 0 \<or> ox_maxRows o' < limit then Inl (SimMessage ''gatewaysim: pending limit out of range'')
      else
        res_bind (sql_call env SqlQuery) (\<lambda>_.
        res_bind (scan_rows U (take (nat limit) (pending_rows o' f))) (\<lambda>items.
        res_bind (sql_call env SqlRows) (\<lambda>_. Inr items))))"

definition PendingAfter :: "uuid_pkg \<Rightarrow> sql_env \<Rightarrow> Outbox \<Rightarrow> int \<Rightarrow> int \<Rightarrow> outbox_file \<Rightarrow> sim_error + Item list" where
  "PendingAfter U env o' afterID limit f =
     (if limit \<le> 0 \<or> ox_maxRows o' < limit then Inl (SimMessage ''gatewaysim: pending limit out of range'')
      else
        res_bind (sql_call env SqlQuery) (\<lambda>_.
        res_bind (scan_rows U (take (nat limit) (filter (\<lambda>r. afterID < ob_id r) (pending_rows o' f)))) (\<lambda>items.
        res_bind (sql_call env SqlRows) (\<lambda>_. Inr items))))"

definition Lookup :: "uuid_pkg \<Rightarrow> sql_env \<Rightarrow> Outbox \<Rightarrow> uuid \<Rightarrow> outbox_file \<Rightarrow> sim_error + Item option" where
  "Lookup U env o' messageID f =
     res_bind (sql_call env SqlQuery) (\<lambda>_.
     case find (\<lambda>r. ob_gateway_id r = ox_gatewayID o' \<and> ob_message_id r = uuid_String U messageID) (of_rows f) of
       None \<Rightarrow> Inr None
     | Some r \<Rightarrow> res_bind (scanOutboxItem U r) (\<lambda>i. Inr (Some i)))"

definition Counts :: "sql_env \<Rightarrow> Outbox \<Rightarrow> outbox_file \<Rightarrow> sim_error + OutboxCounts" where
  "Counts env o' f =
     res_bind (sql_call env SqlCounts) (\<lambda>_.
     let own = filter (\<lambda>r. ob_gateway_id r = ox_gatewayID o') (of_rows f);
         p = filter (\<lambda>r. ob_status r = outboxStatusPending) own; q = filter (\<lambda>r. ob_status r = outboxStatusQuarantined) own in
     if in_i64 (total_bytes p) \<and> in_i64 (total_bytes q)
     then Inr \<lparr>ct_PendingRows = int (length p), ct_PendingBytes = total_bytes p,
               ct_QuarantinedRows = int (length q), ct_QuarantinedBytes = total_bytes q\<rparr>
     else Inl (SimDriver ''integer overflow''))"

text \<open>The rows a message identifier selects for \<open>DeletePending\<close> and \<open>Quarantine\<close>.\<close>

definition selected :: "uuid_pkg \<Rightarrow> string \<Rightarrow> uuid \<Rightarrow> outbox_row \<Rightarrow> bool" where
  "selected U gatewayID messageID r \<longleftrightarrow>
     ob_gateway_id r = gatewayID \<and> ob_message_id r = uuid_String U messageID \<and> ob_status r = outboxStatusPending"

definition DeletePending :: "uuid_pkg \<Rightarrow> sql_env \<Rightarrow> Outbox \<Rightarrow> string \<Rightarrow> uuid \<Rightarrow> outbox_file \<Rightarrow> (sim_error + bool) \<times> outbox_file" where
  "DeletePending U env o' gatewayID messageID f =
     (if gatewayID \<noteq> ox_gatewayID o' then (Inl ErrOutboxIdentity, f)
      else
        in_tx env f
          (res_bind (sql_call env SqlDelete) (\<lambda>_.
           res_bind (sql_call env SqlRowsAffected) (\<lambda>_.
           Inr (0 < length (filter (selected U gatewayID messageID) (of_rows f)),
                f\<lparr>of_rows := filter (\<lambda>r. \<not> selected U gatewayID messageID r) (of_rows f)\<rparr>)))))"

definition Quarantine :: "uuid_pkg \<Rightarrow> sql_env \<Rightarrow> Outbox \<Rightarrow> uuid \<Rightarrow> string \<Rightarrow> outbox_file \<Rightarrow> (sim_error + bool) \<times> outbox_file" where
  "Quarantine U env o' messageID reason f =
     (let r' = trimSpace reason in
      if r' = [] \<or> maxQuarantineReason < length r' \<or> containsAny r' [CHR 0x00, CHR 0x0D, CHR 0x0A]
      then (Inl ErrOutboxReason, f)
      else
        in_tx env f
          (res_bind (sql_call env SqlUpdate) (\<lambda>_.
           res_bind (sql_call env SqlRowsAffected) (\<lambda>_.
           Inr (0 < length (filter (selected U (ox_gatewayID o') messageID) (of_rows f)),
                f\<lparr>of_rows := map (\<lambda>r. if selected U (ox_gatewayID o') messageID r
                    then r\<lparr>ob_status := outboxStatusQuarantined, ob_reason := Some r'\<rparr> else r) (of_rows f)\<rparr>)))))"

end
