(* ===== verification/OutboxProofs.thy ===== *)
theory OutboxProofs
  imports Outbox Transitions
begin

text \<open>
  The invariant of the outbox file and its preservation by every operation, with every possible
  failure of SQLite. A ghost history lists the rows that ever reached the file.
\<close>

section \<open>Transactions\<close>

lemma in_tx_cases:
  assumes "in_tx env f body = (res, f')"
  obtains (failed) e where "res = Inl e" "f' = f"
  | (committed) x where "body = Inr (x, f')" "res = Inr x"
  | (unknown) x where "body = Inr (x, f')" "res = Inl ErrOutboxCommitUnknown"
  using assms by (auto simp: in_tx_def sql_commit_def split: option.splits sum.splits if_splits)

lemma sql_call_ok [simp]: "sql_call env op = Inr u \<longleftrightarrow> sql_fault env op = None"
  by (auto simp: sql_call_def split: option.splits)

section \<open>What a built row is\<close>

text \<open>The types of the request: \<open>int32\<close>, \<open>int64\<close>, and a clock between the years 1 and 9999.\<close>

definition typed :: "sql_env \<Rightarrow> EnqueueRequest \<Rightarrow> bool" where
  "typed env req \<longleftrightarrow> in_i32 (er_SampleCount req) \<and> in_i64 (er_SampleIntervalUS req) \<and> 0 \<le> sql_now env \<and> sql_now env < endOfYear9999"

definition built_row :: "uuid_pkg \<Rightarrow> string \<Rightarrow> string \<Rightarrow> outbox_row \<Rightarrow> bool" where
  "built_row U g s r \<longleftrightarrow> (\<exists>req bt bb.
     BuildSyntheticBatch U req ServerLimits bt = Inr bb \<and> bb_Batch bb = synthetic_batch req \<and>
     br_GatewayID req = g \<and> br_SensorID req = s \<and> ob_gateway_id r = g \<and> ob_sensor_id r = s \<and>
     ob_message_id r = uuid_String U (br_MessageID req) \<and> ob_boot_id r = uuid_String U (br_BootID req) \<and>
     ob_topic r = bb_Topic bb \<and> ob_payload r = bb_Payload bb \<and>
     ob_byte_size r = int (length (ob_topic r) + length (ob_payload r)) \<and>
     ob_first_sequence r = br_FirstSequence req \<and> ob_sample_count r = br_SampleCount req \<and>
     0 \<le> ob_first_sequence r \<and> 0 < ob_sample_count r \<and> ob_sample_count r \<le> maxInt32 \<and>
     ob_first_sequence r + (ob_sample_count r - 1) \<le> maxInt64 \<and>
     ob_status r = outboxStatusPending \<and> ob_reason r = None \<and>
     (\<exists>t. 0 \<le> t \<and> t < endOfYear9999 \<and> ob_enqueued_at r = format_nano t))"

lemma BuildSyntheticBatch_exact:
  assumes U: "uuid_text_ok U" "uuid_validate_ok U"
    and ok: "BuildSyntheticBatch U req ServerLimits r = Inr bb"
    and ty: "0 \<le> br_FirstSequence req" "br_FirstSequence req \<le> maxInt64" "br_SampleCount req \<le> maxInt32" "br_SampleIntervalUS req \<le> maxInt64"
  shows "bb_Batch bb = synthetic_batch req" and "br_FirstSequence req + (br_SampleCount req - 1) \<le> maxInt64"
proof -
  have ids: "ValidateGatewayID (br_GatewayID req)" "ValidateSensorID (br_SensorID req)" "valid_boot_id U (br_BootID req)"
      "valid_message_id U (br_MessageID req)" "0 < br_SampleCount req" "0 < br_SampleIntervalUS req"
    using ok by (auto simp: BuildSyntheticBatch_def Let_def valid_message_id_def valid_boot_id_def)
  have "list_all plain_double (bd_Samples (synthetic_batch req))"
    by (simp add: synthetic_batch_def list_all_iff syntheticValue_plain)
  moreover have "bd_ProtocolVersion (synthetic_batch req) = 1" "bd_MessageType (synthetic_batch req) = ''telemetry_batch''"
    by (simp_all add: synthetic_batch_def)
  ultimately have b: "batch_ok U (synthetic_batch req)"
    using ids ty format_micro_plain by (auto simp: batch_ok_def formatMeasuredAt_def)
  obtain m where m: "Validate U (Some ServerLimits) (bb_Topic bb) (bb_Payload bb) r = Inr m" "bb_Batch bb = msg_batch m"
      "bb_Payload bb = marshalBatch U (synthetic_batch req)"
    using BuildSyntheticBatch_ok [OF ok] by metis
  obtain p where "decodeBatch U (marshalBatch U (synthetic_batch req)) p ServerLimits = Inr (msg_batch m)"
    using m(1) unfolding Validate_ok_iff m(3) by auto
  then have same: "msg_batch m = synthetic_batch req" by (rule decode_marshalBatch_same [OF U b])
  then show "bb_Batch bb = synthetic_batch req" using m(2) by simp
  have "message_wf U ServerLimits m" using Validate_wf [OF m(1)] by (metis option.inject)
  then show "br_FirstSequence req + (br_SampleCount req - 1) \<le> maxInt64"
    by (auto simp: message_wf_def same range_spec_def)
qed

text \<open>A row ready for publication carries its own identity: the server reads from it exactly the row's message.\<close>

lemma built_row_message:
  assumes "built_row U g s r"
  obtains bt where "\<And>t. bt \<le> t \<Longrightarrow> \<exists>m. Validate U (Some ServerLimits) (ob_topic r) (ob_payload r) t = Inr m \<and>
    pt_GatewayID (msg_topic m) = g \<and> uuid_String U (bd_MessageID (msg_batch m)) = ob_message_id r"
proof -
  obtain req bt bb where b: "BuildSyntheticBatch U req ServerLimits bt = Inr bb" "bb_Batch bb = synthetic_batch req"
      "br_GatewayID req = g" "ob_message_id r = uuid_String U (br_MessageID req)" "ob_topic r = bb_Topic bb" "ob_payload r = bb_Payload bb"
    using assms by (auto simp: built_row_def)
  obtain m where m: "Validate U (Some ServerLimits) (bb_Topic bb) (bb_Payload bb) bt = Inr m" "bb_Batch bb = msg_batch m"
      "ParseTopic (bb_Topic bb) = Inr \<lparr>pt_SourceTopic = bb_Topic bb, pt_GatewayID = br_GatewayID req, pt_SensorID = br_SensorID req\<rparr>"
    using BuildSyntheticBatch_ok [OF b(1)] by metis
  have "msg_topic m = \<lparr>pt_SourceTopic = bb_Topic bb, pt_GatewayID = br_GatewayID req, pt_SensorID = br_SensorID req\<rparr>"
    using m(1,3) unfolding Validate_ok_iff by auto
  then have "pt_GatewayID (msg_topic m) = g" "uuid_String U (bd_MessageID (msg_batch m)) = ob_message_id r"
    using m(2) b(2-4) by (simp_all flip: m(2))
  then show ?thesis using that [of bt] Validate_later [OF m(1)] b(5,6) by fastforce
qed

section \<open>Enqueue\<close>

definition new_row :: "uuid_pkg \<Rightarrow> sql_env \<Rightarrow> Outbox \<Rightarrow> EnqueueRequest \<Rightarrow> int \<Rightarrow> BuiltBatch \<Rightarrow> int \<Rightarrow> outbox_row" where
  "new_row U env o' req first built i =
     \<lparr>ob_id = i, ob_message_id = uuid_String U (er_MessageID req), ob_gateway_id = ox_gatewayID o',
      ob_sensor_id = ox_sensorID o', ob_boot_id = uuid_String U (er_BootID req), ob_topic = bb_Topic built,
      ob_payload = bb_Payload built, ob_byte_size = int (length (bb_Topic built) + length (bb_Payload built)), ob_first_sequence = first,
      ob_sample_count = er_SampleCount req, ob_sample_interval_us = er_SampleIntervalUS req,
      ob_status = outboxStatusPending, ob_reason = None, ob_enqueued_at = format_nano (sql_now env)\<rparr>"

definition next_of :: "outbox_file \<Rightarrow> string \<times> string \<times> string \<Rightarrow> int" where
  "next_of f k = (case of_streams f k of None \<Rightarrow> 0 | Some n \<Rightarrow> n)"

text \<open>The file after the statements of a successful \<open>Enqueue\<close>.\<close>

definition enqueued :: "outbox_row \<Rightarrow> outbox_file \<Rightarrow> outbox_file" where
  "enqueued r f = f\<lparr>of_rows := of_rows f @ [r], of_seq := ob_id r,
     of_streams := (of_streams f)((ob_gateway_id r, ob_sensor_id r, ob_boot_id r) \<mapsto> i64 (ob_first_sequence r + ob_sample_count r))\<rparr>"

definition enqueue_request :: "Outbox \<Rightarrow> EnqueueRequest \<Rightarrow> int \<Rightarrow> BatchRequest" where
  "enqueue_request o' req first =
     \<lparr>br_GatewayID = ox_gatewayID o', br_SensorID = ox_sensorID o', br_BootID = er_BootID req,
      br_MessageID = er_MessageID req, br_FirstSequence = first, br_MeasuredAt = er_MeasuredAt req,
      br_SampleCount = er_SampleCount req, br_SampleIntervalUS = er_SampleIntervalUS req\<rparr>"

definition row_item :: "outbox_row \<Rightarrow> uuid \<Rightarrow> uuid \<Rightarrow> time \<Rightarrow> Item" where
  "row_item r mid boot t =
     \<lparr>im_ID = ob_id r, im_MessageID = mid, im_GatewayID = ob_gateway_id r, im_SensorID = ob_sensor_id r,
      im_BootID = boot, im_Topic = ob_topic r, im_Payload = ob_payload r, im_ByteSize = ob_byte_size r,
      im_FirstSequence = ob_first_sequence r, im_SampleCount = ob_sample_count r, im_Status = ob_status r, im_EnqueuedAt = t\<rparr>"

lemma nextSequence_ok: "nextSequence U env f g s b = Inr n \<Longrightarrow> n = next_of f (g, s, uuid_String U b) \<and> 0 \<le> n"
  by (auto simp: nextSequence_def next_of_def split: option.splits if_splits)

lemma enqueue_tx_ok:
  assumes "enqueue_tx U env o' req f = Inr (item, f')"
  obtains built r where
      "BuildSyntheticBatch U (enqueue_request o' req (ob_first_sequence r)) ServerLimits (er_ReceivedAt req) = Inr built"
      "r = new_row U env o' req (next_of f (ox_gatewayID o', ox_sensorID o', uuid_String U (er_BootID req))) built (of_seq f + 1)"
      "f' = enqueued r f" "item = row_item r (er_MessageID req) (er_BootID req) (sql_now env)"
      "0 \<le> ob_first_sequence r" "ob_message_id r \<notin> set (map ob_message_id (of_rows f))" "of_seq f \<noteq> maxInt64"
      "int (length (of_rows f)) < ox_maxRows o'" "i64 (total_bytes (of_rows f) + ob_byte_size r) \<le> ox_maxBytes o'"
      "in_i64 (total_bytes (of_rows f))"
proof -
  obtain n built where n: "nextSequence U env f (ox_gatewayID o') (ox_sensorID o') (er_BootID req) = Inr n"
    and u: "outboxUsage env f = Inr (int (length (of_rows f)), total_bytes (of_rows f))" "in_i64 (total_bytes (of_rows f))"
    and full: "int (length (of_rows f)) < ox_maxRows o'"
    and b: "BuildSyntheticBatch U (enqueue_request o' req n) ServerLimits (er_ReceivedAt req) = Inr built"
    and rest: "i64 (total_bytes (of_rows f) + int (length (bb_Topic built) + length (bb_Payload built))) \<le> ox_maxBytes o'"
      "uuid_String U (er_MessageID req) \<notin> set (map ob_message_id (of_rows f))" "of_seq f \<noteq> maxInt64"
      "item = row_item (new_row U env o' req n built (of_seq f + 1)) (er_MessageID req) (er_BootID req) (sql_now env)"
      "f' = enqueued (new_row U env o' req n built (of_seq f + 1)) f"
    using assms unfolding enqueue_tx_def
    by (auto simp: outboxUsage_def Let_def enqueue_request_def row_item_def new_row_def enqueued_def not_le not_less split: if_splits)
  have n': "n = next_of f (ox_gatewayID o', ox_sensorID o', uuid_String U (er_BootID req))" "0 \<le> n"
    using nextSequence_ok [OF n] by auto
  show ?thesis
    by (rule that [of "new_row U env o' req n built (of_seq f + 1)" built])
       (use b rest n' full u in \<open>simp_all add: new_row_def\<close>)
qed

section \<open>The invariant\<close>

text \<open>A row as it was inserted, whatever its status is now.\<close>

definition inserted :: "outbox_row \<Rightarrow> outbox_row" where
  "inserted r = r\<lparr>ob_status := outboxStatusPending, ob_reason := None\<rparr>"

definition row_end :: "outbox_row \<Rightarrow> int" where
  "row_end r = ob_first_sequence r + ob_sample_count r"

definition row_before :: "outbox_row \<Rightarrow> outbox_row \<Rightarrow> bool" where
  "row_before h h' \<longleftrightarrow> ob_id h < ob_id h' \<and> (ob_boot_id h = ob_boot_id h' \<longrightarrow> row_end h \<le> ob_first_sequence h')"

definition stream_covers :: "string \<Rightarrow> string \<Rightarrow> outbox_file \<Rightarrow> outbox_row \<Rightarrow> bool" where
  "stream_covers g s f h \<longleftrightarrow> (\<exists>n. of_streams f (g, s, ob_boot_id h) = Some n \<and> (n < 0 \<or> row_end h \<le> n))"

definition rows_inv :: "outbox_row list \<Rightarrow> outbox_row list \<Rightarrow> bool" where
  "rows_inv rows hist \<longleftrightarrow>
     sorted_wrt (<) (map ob_id rows) \<and> distinct (map ob_message_id rows) \<and>
     (\<forall>r \<in> set rows. ob_status r \<in> {outboxStatusPending, outboxStatusQuarantined} \<and> inserted r \<in> set hist)"

definition outbox_inv :: "uuid_pkg \<Rightarrow> string \<Rightarrow> string \<Rightarrow> outbox_file \<Rightarrow> outbox_row list \<Rightarrow> bool" where
  "outbox_inv U g s f hist \<longleftrightarrow>
     rows_inv (of_rows f) hist \<and> 0 \<le> of_seq f \<and>
     (\<forall>h \<in> set hist. built_row U g s h \<and> 0 < ob_id h \<and> ob_id h \<le> of_seq f \<and> stream_covers g s f h) \<and>
     sorted_wrt row_before hist \<and>
     (\<forall>k n. of_streams f k = Some n \<longrightarrow> n \<le> maxInt64) \<and>
     (of_version f = 0 \<and> hist = [] \<or> of_version f = outboxSchemaVersion)"

lemma inserted_simps [simp]:
  "ob_id (inserted r) = ob_id r" "ob_message_id (inserted r) = ob_message_id r" "ob_topic (inserted r) = ob_topic r"
  "ob_payload (inserted r) = ob_payload r" "ob_boot_id (inserted r) = ob_boot_id r" "ob_gateway_id (inserted r) = ob_gateway_id r"
  "inserted (r\<lparr>ob_status := x, ob_reason := y\<rparr>) = inserted r"
  by (simp_all add: inserted_def)

lemma built_row_inserted: "built_row U g s r \<Longrightarrow> inserted r = r"
proof -
  assume "built_row U g s r"
  then have "ob_status r = outboxStatusPending" "ob_reason r = None" by (auto simp: built_row_def)
  then show ?thesis by (cases r) (simp add: inserted_def)
qed

lemma new_row_built:
  assumes U: "uuid_text_ok U" "uuid_validate_ok U" and ty: "typed env req"
    and b: "BuildSyntheticBatch U (enqueue_request o' req first) ServerLimits (er_ReceivedAt req) = Inr built"
    and first: "0 \<le> first" "first \<le> maxInt64"
  shows "built_row U (ox_gatewayID o') (ox_sensorID o') (new_row U env o' req first built i)"
proof -
  have t: "br_FirstSequence (enqueue_request o' req first) = first" "br_SampleCount (enqueue_request o' req first) = er_SampleCount req"
      "br_SampleIntervalUS (enqueue_request o' req first) = er_SampleIntervalUS req"
    by (simp_all add: enqueue_request_def)
  have e: "bb_Batch built = synthetic_batch (enqueue_request o' req first)" "first + (er_SampleCount req - 1) \<le> maxInt64"
    using BuildSyntheticBatch_exact [OF U b] ty first unfolding t by (auto simp: typed_def int_bounds_defs)
  have "0 < er_SampleCount req" using BuildSyntheticBatch_ok [OF b] t(2) by metis
  then show ?thesis
    unfolding built_row_def using b e first ty
    by (intro exI [of _ "enqueue_request o' req first"] exI [of _ "er_ReceivedAt req"] exI [of _ built])
       (auto simp: new_row_def enqueue_request_def typed_def in_i32_def)
qed

lemma i64_end:
  assumes "0 \<le> ob_first_sequence r" "0 < ob_sample_count r" "ob_first_sequence r + (ob_sample_count r - 1) \<le> maxInt64"
  shows "i64 (row_end r) < 0 \<or> i64 (row_end r) = row_end r" and "i64 (row_end r) \<le> maxInt64"
proof -
  show "i64 (row_end r) < 0 \<or> i64 (row_end r) = row_end r"
  proof (cases "row_end r \<le> maxInt64")
    case True
    then have "in_i64 (row_end r)" using assms by (simp add: row_end_def int_bounds_defs)
    then show ?thesis by (simp add: i64_id)
  next
    case False
    then have "row_end r = maxInt64 + 1" using assms by (simp add: row_end_def)
    then show ?thesis by (simp add: i64_def maxInt64_def)
  qed
  show "i64 (row_end r) \<le> maxInt64" using i64_range [of "row_end r"] by (simp add: in_i64_def)
qed

lemma enqueued_inv:
  assumes inv: "outbox_inv U g s f hist" and v: "of_version f = outboxSchemaVersion"
    and r: "built_row U g s r" "ob_id r = of_seq f + 1" "ob_first_sequence r = next_of f (g, s, ob_boot_id r)"
    and fresh: "ob_message_id r \<notin> set (map ob_message_id (of_rows f))"
  shows "outbox_inv U g s (enqueued r f) (hist @ [r])"
proof -
  have gs: "ob_gateway_id r = g" "ob_sensor_id r = s" and st: "ob_status r = outboxStatusPending"
    and rg: "0 \<le> ob_first_sequence r" "0 < ob_sample_count r" "ob_first_sequence r + (ob_sample_count r - 1) \<le> maxInt64"
    using r(1) by (auto simp: built_row_def)
  note e = i64_end [OF rg]
  have old: "row_end h \<le> ob_first_sequence r" if "h \<in> set hist" "ob_boot_id h = ob_boot_id r" for h
    using inv that rg(1) r(3) by (auto simp: outbox_inv_def stream_covers_def next_of_def)
  have lt: "ob_id h < ob_id r" if "h \<in> set hist" for h using inv that r(2) by (auto simp: outbox_inv_def)
  have ltr: "ob_id q < ob_id r" if "q \<in> set (of_rows f)" for q
    using lt [of "inserted q"] inv that by (simp add: outbox_inv_def rows_inv_def)
  have "rows_inv (of_rows f @ [r]) (hist @ [r])"
    using inv ltr fresh st built_row_inserted [OF r(1)] unfolding outbox_inv_def rows_inv_def
    by (auto simp: sorted_wrt_append)
  moreover have "sorted_wrt row_before (hist @ [r])"
    using inv old lt by (auto simp: outbox_inv_def sorted_wrt_append row_before_def)
  moreover have "stream_covers g s (enqueued r f) h" if "h \<in> set (hist @ [r])" for h
  proof (cases "ob_boot_id h = ob_boot_id r")
    case True
    then have "row_end h \<le> row_end r" using old [of h] that rg by (auto simp: row_end_def)
    then show ?thesis using True e(1) by (auto simp: stream_covers_def enqueued_def gs row_end_def)
  next
    case False
    then show ?thesis using inv that by (auto simp: stream_covers_def enqueued_def gs outbox_inv_def)
  qed
  moreover have "n \<le> maxInt64" if "of_streams (enqueued r f) k = Some n" for k n
  proof (cases "k = (g, s, ob_boot_id r)")
    case True
    then show ?thesis using that e(2) by (simp add: enqueued_def gs row_end_def)
  next
    case False
    then have "of_streams f k = Some n" using that by (simp add: enqueued_def gs)
    then show ?thesis using inv unfolding outbox_inv_def by blast
  qed
  moreover have "0 < ob_id h \<and> ob_id h \<le> of_seq (enqueued r f)" if "h \<in> set (hist @ [r])" for h
    using that inv lt [of h] r(2) by (auto simp: outbox_inv_def enqueued_def)
  moreover have "\<forall>h \<in> set (hist @ [r]). built_row U g s h" using inv r(1) by (auto simp: outbox_inv_def)
  moreover have "of_rows (enqueued r f) = of_rows f @ [r]" "0 \<le> of_seq (enqueued r f)" "of_version (enqueued r f) = outboxSchemaVersion"
    using inv r(2) v by (auto simp: enqueued_def outbox_inv_def)
  ultimately show ?thesis unfolding outbox_inv_def by auto
qed

lemma rows_inv_filter: "rows_inv rows hist \<Longrightarrow> rows_inv (filter P rows) hist"
  by (auto simp: rows_inv_def sorted_wrt_map sorted_wrt_filter distinct_map_filter)

lemma rows_inv_map:
  assumes "rows_inv rows hist" and "\<And>r. ob_id (c r) = ob_id r \<and> ob_message_id (c r) = ob_message_id r \<and> inserted (c r) = inserted r"
    and "\<And>r. r \<in> set rows \<Longrightarrow> ob_status (c r) \<in> {outboxStatusPending, outboxStatusQuarantined}"
  shows "rows_inv (map c rows) hist"
  using assms by (auto simp: rows_inv_def comp_def)

lemma outbox_inv_rows: "outbox_inv U g s f hist \<Longrightarrow> rows_inv rows hist \<Longrightarrow> outbox_inv U g s (f\<lparr>of_rows := rows\<rparr>) hist"
  by (auto simp: outbox_inv_def stream_covers_def)

section \<open>The operations as steps\<close>

record outbox_state =
  os_file :: outbox_file
  os_hist :: "outbox_row list"

text \<open>
  Everything that can happen to a bound file over its life: operations of the simulator, of the
  administrator, and reopening after a stop or a crash, each with any failure. The history grows by
  the row an \<open>Enqueue\<close> left behind.
\<close>

inductive outbox_step :: "uuid_pkg \<Rightarrow> Outbox \<Rightarrow> outbox_state \<Rightarrow> outbox_state \<Rightarrow> bool" for U o' where
  enqueues: "of_version f = outboxSchemaVersion \<Longrightarrow> typed env req \<Longrightarrow> Enqueue U env o' req f = (res, f') \<Longrightarrow>
     outbox_step U o' \<lparr>os_file = f, os_hist = h\<rparr>
       \<lparr>os_file = f', os_hist = h @ drop (length (of_rows f)) (of_rows f')\<rparr>"
| deletes: "of_version f = outboxSchemaVersion \<Longrightarrow> DeletePending U env o' g mid f = (dres, f') \<Longrightarrow>
     outbox_step U o' \<lparr>os_file = f, os_hist = h\<rparr> \<lparr>os_file = f', os_hist = h\<rparr>"
| quarantines: "of_version f = outboxSchemaVersion \<Longrightarrow> Quarantine U env o' mid reason f = (dres, f') \<Longrightarrow>
     outbox_step U o' \<lparr>os_file = f, os_hist = h\<rparr> \<lparr>os_file = f', os_hist = h\<rparr>"
| opens: "prepare env o' f = (pres, f') \<Longrightarrow> outbox_step U o' \<lparr>os_file = f, os_hist = h\<rparr> \<lparr>os_file = f', os_hist = h\<rparr>"

definition outbox_init :: "outbox_state \<Rightarrow> bool" where
  "outbox_init st \<longleftrightarrow> st = \<lparr>os_file = empty_file, os_hist = []\<rparr>"

interpretation obx: transition_system outbox_init "outbox_step U o'" for U o' .

abbreviation state_inv :: "uuid_pkg \<Rightarrow> Outbox \<Rightarrow> outbox_state \<Rightarrow> bool" where
  "state_inv U o' st \<equiv> outbox_inv U (ox_gatewayID o') (ox_sensorID o') (os_file st) (os_hist st)"

lemma Enqueue_inv:
  assumes U: "uuid_text_ok U" "uuid_validate_ok U" and E: "Enqueue U env o' req f = (res, f')"
    and inv: "outbox_inv U (ox_gatewayID o') (ox_sensorID o') f h" and v: "of_version f = outboxSchemaVersion" and ty: "typed env req"
  shows "outbox_inv U (ox_gatewayID o') (ox_sensorID o') f' (h @ drop (length (of_rows f)) (of_rows f'))"
proof -
  have ok: ?thesis if body: "enqueue_tx U env o' req f = Inr (item, f')" for item
  proof -
    from body show ?thesis
    proof (rule enqueue_tx_ok)
      fix built r
      assume b: "BuildSyntheticBatch U (enqueue_request o' req (ob_first_sequence r)) ServerLimits (er_ReceivedAt req) = Inr built"
        and r: "r = new_row U env o' req (next_of f (ox_gatewayID o', ox_sensorID o', uuid_String U (er_BootID req))) built (of_seq f + 1)"
        and f': "f' = enqueued r f" and pos: "0 \<le> ob_first_sequence r" and fresh: "ob_message_id r \<notin> set (map ob_message_id (of_rows f))"
      have first: "ob_first_sequence r = next_of f (ox_gatewayID o', ox_sensorID o', uuid_String U (er_BootID req))"
        by (simp add: r new_row_def)
      have "ob_first_sequence r \<le> maxInt64"
        using inv unfolding first outbox_inv_def next_of_def by (auto simp: maxInt64_def split: option.splits)
      then have "built_row U (ox_gatewayID o') (ox_sensorID o') (new_row U env o' req (ob_first_sequence r) built (of_seq f + 1))"
        using new_row_built [OF U ty b pos] by blast
      then have "built_row U (ox_gatewayID o') (ox_sensorID o') r" unfolding first r [symmetric] .
      moreover have "ob_id r = of_seq f + 1" "ob_boot_id r = uuid_String U (er_BootID req)" by (simp_all add: r new_row_def)
      ultimately have "outbox_inv U (ox_gatewayID o') (ox_sensorID o') (enqueued r f) (h @ [r])"
        using first fresh by (intro enqueued_inv [OF inv v]) simp_all
      then show ?thesis by (simp add: f' enqueued_def)
    qed
  qed
  from E show ?thesis unfolding Enqueue_def
  proof (cases rule: in_tx_cases)
    case failed
    then show ?thesis using inv by simp
  qed (use ok in auto)
qed

lemma DeletePending_inv:
  assumes "DeletePending U env o' g mid f = (res, f')" and inv: "outbox_inv U g' s f h"
  shows "outbox_inv U g' s f' h"
proof (cases "g = ox_gatewayID o'")
  case True
  then have "in_tx env f (res_bind (sql_call env SqlDelete) (\<lambda>_. res_bind (sql_call env SqlRowsAffected) (\<lambda>_.
      Inr (0 < length (filter (selected U g mid) (of_rows f)),
           f\<lparr>of_rows := filter (\<lambda>r. \<not> selected U g mid r) (of_rows f)\<rparr>)))) = (res, f')"
    using assms(1) by (simp add: DeletePending_def)
  then show ?thesis
    by (cases rule: in_tx_cases) (use inv in \<open>auto intro!: outbox_inv_rows rows_inv_filter simp: outbox_inv_def [of U g' s f]\<close>)
qed (use assms in \<open>simp add: DeletePending_def\<close>)

lemma Quarantine_inv:
  assumes "Quarantine U env o' mid reason f = (res, f')" and inv: "outbox_inv U g' s f h"
  shows "outbox_inv U g' s f' h"
proof -
  have q: "rows_inv (map (\<lambda>r. if selected U g mid r then r\<lparr>ob_status := outboxStatusQuarantined, ob_reason := Some x\<rparr> else r) (of_rows f)) h" for g x
    using inv by (intro rows_inv_map) (auto simp: outbox_inv_def rows_inv_def)
  show ?thesis
  proof (cases "f' = f")
    case False
    then obtain x where "f' = f\<lparr>of_rows := map (\<lambda>r. if selected U (ox_gatewayID o') mid r
        then r\<lparr>ob_status := outboxStatusQuarantined, ob_reason := Some x\<rparr> else r) (of_rows f)\<rparr>"
      using assms(1) by (auto simp: Quarantine_def Let_def in_tx_def sql_commit_def split: if_splits option.splits sum.splits)
    then show ?thesis using outbox_inv_rows [OF inv q] by simp
  qed (use inv in simp)
qed

lemma prepare_inv:
  assumes "prepare env o' f = (res, f')" and inv: "outbox_inv U g s f h"
  shows "outbox_inv U g s f' h"
proof -
  consider "f' = f" | m where "f' = f\<lparr>of_meta := m\<rparr>" "of_version f = outboxSchemaVersion"
    | "of_version f = 0" "of_version f' = outboxSchemaVersion" "of_rows f' = []" "of_seq f' = 0" "of_streams f' = Map.empty"
    using assms(1)
    by (auto simp: prepare_def verifyBinding_def createSchema_def in_tx_def sql_commit_def readUserVersion_def sql_read_def
        split: sum.splits if_splits option.splits prod.splits)
  then show ?thesis
  proof cases
    case 3
    then show ?thesis using inv by (auto simp: outbox_inv_def rows_inv_def outboxSchemaVersion_def)
  qed (use inv in \<open>auto simp: outbox_inv_def stream_covers_def\<close>)
qed

lemma outbox_step_inv:
  assumes U: "uuid_text_ok U" "uuid_validate_ok U"
  shows "outbox_step U o' st st' \<Longrightarrow> state_inv U o' st \<Longrightarrow> state_inv U o' st'"
  by (induction rule: outbox_step.induct)
     (auto intro: Enqueue_inv [OF U] DeletePending_inv Quarantine_inv prepare_inv)

lemma empty_inv: "outbox_inv U g s empty_file []"
  by (simp add: outbox_inv_def empty_file_def rows_inv_def)

lemma outbox_reach_inv:
  assumes "uuid_text_ok U" and "uuid_validate_ok U" and "obx.reach U o' st"
  shows "state_inv U o' st"
  using assms(3) by (rule obx.invariant) (auto simp: outbox_init_def empty_inv intro: outbox_step_inv [OF assms(1,2)])

end
