(* ===== verification/OutboxTheorems.thy ===== *)
theory OutboxTheorems
  imports OutboxProofs
begin

text \<open>
  The properties of the outbox: what it promises to the scheduler and to the acknowledgement worker
  over its whole life.
\<close>

section \<open>Reading rows back\<close>

lemma scan_built:
  assumes U: "uuid_text_ok U" and r: "built_row U g s (inserted r)"
  obtains mid boot t where "scanOutboxItem U r = Inr (row_item r mid boot t)" "ob_message_id r = uuid_String U mid"
    "ob_boot_id r = uuid_String U boot"
proof -
  have "(\<exists>mid. ob_message_id r = uuid_String U mid) \<and> (\<exists>boot. ob_boot_id r = uuid_String U boot) \<and>
      (\<exists>t. 0 \<le> t \<and> t < endOfYear9999 \<and> ob_enqueued_at r = format_nano t) \<and> 0 < ob_sample_count r \<and> ob_sample_count r \<le> maxInt32"
    using r by (auto simp: built_row_def inserted_def)
  then obtain mid boot t where a: "ob_message_id r = uuid_String U mid" "ob_boot_id r = uuid_String U boot"
      "0 < ob_sample_count r" "ob_sample_count r \<le> maxInt32" "0 \<le> t" "t < endOfYear9999" "ob_enqueued_at r = format_nano t"
    by blast
  have "in_i32 (ob_sample_count r)" using a(3,4) by (simp add: int_bounds_defs)
  then have "scanOutboxItem U r = Inr (row_item r mid boot t)"
    using a time_Parse_format_nano [OF a(5,6)] uuid_text_roundtrip [OF U] by (simp add: scanOutboxItem_def row_item_def)
  then show ?thesis using that a(1,2) by blast
qed

lemma row_built:
  assumes "outbox_inv U g s f h" and "r \<in> set (of_rows f)"
  shows "built_row U g s (inserted r)"
  using assms by (auto simp: outbox_inv_def rows_inv_def)

lemma row_gateway: "outbox_inv U g s f h \<Longrightarrow> r \<in> set (of_rows f) \<Longrightarrow> ob_gateway_id r = g"
  using row_built [of U g s f h r] by (auto simp: built_row_def)

lemma scan_rows_ok:
  assumes U: "uuid_text_ok U" and "\<forall>r \<in> set rs. built_row U g s (inserted r)"
  shows "\<exists>items. scan_rows U rs = Inr items \<and> length items = length rs \<and>
    (\<forall>i < length rs. scanOutboxItem U (rs ! i) = Inr (items ! i))"
  using assms(2)
proof (induction rs)
  case (Cons r rs)
  then obtain items where "scan_rows U rs = Inr items" "length items = length rs" "\<forall>i < length rs. scanOutboxItem U (rs ! i) = Inr (items ! i)"
    by auto
  moreover obtain i where "scanOutboxItem U r = Inr i" using scan_built [OF U, of g s r] Cons.prems by auto
  ultimately show ?case by (intro exI [of _ "i # items"]) (auto simp: nth_Cons split: nat.splits)
qed simp

section \<open>Selecting one row\<close>

lemma selected_unique:
  assumes "outbox_inv U g s f h" and "r \<in> set (of_rows f)" "r' \<in> set (of_rows f)" "selected U g mid r" "selected U g mid r'"
  shows "r = r'"
  using assms by (auto simp: outbox_inv_def rows_inv_def selected_def distinct_map inj_on_def)

lemma filter_selected:
  assumes inv: "outbox_inv U g s f h"
  shows "length (filter (selected U g mid) (of_rows f)) \<le> 1"
proof -
  have "distinct (filter (selected U g mid) (of_rows f))" using inv by (auto simp: outbox_inv_def rows_inv_def distinct_map)
  moreover have "x = y" if "x \<in> set (filter (selected U g mid) (of_rows f))" "y \<in> set (filter (selected U g mid) (of_rows f))" for x y
    using selected_unique [OF inv] that by auto
  ultimately show ?thesis by (metis One_nat_def distinct_card card_le_Suc0_iff_eq finite_set)
qed

section \<open>Deleting\<close>

lemma remove_selected:
  assumes inv: "outbox_inv U g s f h" and r: "r \<in> set (of_rows f)" "selected U g mid r"
  shows "\<exists>ys zs. of_rows f = ys @ r # zs \<and> filter (\<lambda>q. \<not> selected U g mid q) (of_rows f) = ys @ zs"
proof -
  obtain ys zs where f: "of_rows f = ys @ r # zs" using r(1) by (meson split_list)
  have "distinct (of_rows f)" using inv unfolding outbox_inv_def rows_inv_def distinct_map by blast
  then have d: "r \<notin> set ys \<union> set zs" by (simp add: f)
  have "q = r" if "q \<in> set ys \<union> set zs" "selected U g mid q" for q
    using selected_unique [OF inv _ r(1) that(2) r(2)] that(1) by (simp add: f)
  then have "\<not> selected U g mid q" if "q \<in> set ys \<union> set zs" for q using d that by blast
  then have "filter (\<lambda>q. \<not> selected U g mid q) ys = ys" "filter (\<lambda>q. \<not> selected U g mid q) zs = zs"
    by (simp_all add: filter_id_conv)
  then show ?thesis using f r(2) by auto
qed

lemma none_selected: "filter (selected U g mid) rows = [] \<Longrightarrow> filter (\<lambda>r. \<not> selected U g mid r) rows = rows"
  by (induction rows) (auto split: if_splits)

lemma DeletePending_cases:
  assumes "DeletePending U env o' g mid f = (res, f')"
  obtains (failed) e where "res = Inl e" "f' = f"
  | (deleted) "g = ox_gatewayID o'" "f' = f\<lparr>of_rows := filter (\<lambda>r. \<not> selected U g mid r) (of_rows f)\<rparr>"
      "res = Inr (\<exists>r \<in> set (of_rows f). selected U g mid r) \<or> res = Inl ErrOutboxCommitUnknown"
proof (cases "g = ox_gatewayID o'")
  case True
  then have "in_tx env f (res_bind (sql_call env SqlDelete) (\<lambda>_. res_bind (sql_call env SqlRowsAffected) (\<lambda>_.
      Inr (0 < length (filter (selected U g mid) (of_rows f)),
           f\<lparr>of_rows := filter (\<lambda>r. \<not> selected U g mid r) (of_rows f)\<rparr>)))) = (res, f')"
    using assms(1) by (simp add: DeletePending_def)
  moreover have "0 < length (filter (selected U g mid) (of_rows f)) \<longleftrightarrow> (\<exists>r \<in> set (of_rows f). selected U g mid r)"
    by (auto simp: filter_empty_conv)
  ultimately show ?thesis using True that by (cases rule: in_tx_cases) auto
qed (use assms that in \<open>auto simp: DeletePending_def\<close>)

section \<open>Quotas\<close>

lemma built_row_size:
  assumes "built_row U g s r"
  shows "0 \<le> ob_byte_size r" and "ob_byte_size r \<le> 65536 + 160"
proof -
  obtain req bt bb where b: "BuildSyntheticBatch U req ServerLimits bt = Inr bb" "ob_topic r = bb_Topic bb" "ob_payload r = bb_Payload bb"
      "ob_byte_size r = int (length (ob_topic r) + length (ob_payload r))"
    using assms by (auto simp: built_row_def)
  obtain m where m: "Validate U (Some ServerLimits) (bb_Topic bb) (bb_Payload bb) bt = Inr m"
      "bb_Topic bb = telemetry_topic (br_GatewayID req) (br_SensorID req)"
      "ParseTopic (bb_Topic bb) = Inr \<lparr>pt_SourceTopic = bb_Topic bb, pt_GatewayID = br_GatewayID req, pt_SensorID = br_SensorID req\<rparr>"
    using BuildSyntheticBatch_ok [OF b(1)] by metis
  have "int (length (bb_Payload bb)) \<le> 65536" using m(1) by (auto simp: Validate_ok_iff ServerLimits_def)
  moreover have "length (bb_Topic bb) \<le> 160"
    using m(3) unfolding ParseTopic_ok_iff
    by (auto simp: m(2) telemetry_topic_def ValidateGatewayID_def ValidateSensorID_def dest!: gatewayIDPattern_chars)
  ultimately show "0 \<le> ob_byte_size r" "ob_byte_size r \<le> 65536 + 160" using b by simp_all
qed

lemma total_bytes_append [simp]: "total_bytes (xs @ ys) = total_bytes xs + total_bytes ys" "total_bytes [] = 0"
  "total_bytes (x # xs) = ob_byte_size x + total_bytes xs"
  by (simp_all add: total_bytes_def)

section \<open>Success\<close>

definition sql_healthy :: "sql_env \<Rightarrow> bool" where
  "sql_healthy env \<longleftrightarrow> sql_fault env = (\<lambda>_. None)"

lemma in_tx_healthy [simp]: "sql_healthy env \<Longrightarrow> in_tx env f (Inr (x, f')) = (Inr x, f')"
  "sql_healthy env \<Longrightarrow> in_tx env f (Inl e) = (Inl e, f)"
  by (simp_all add: sql_healthy_def in_tx_def sql_commit_def)

lemma sql_call_healthy [simp]: "sql_healthy env \<Longrightarrow> sql_call env op = Inr ()"
  by (simp add: sql_healthy_def sql_call_def)

lemma enqueue_tx_succeeds:
  assumes U: "uuid_text_ok U" "uuid_validate_ok U" and env: "sql_healthy env"
    and next_ok: "0 \<le> next_of f (ox_gatewayID o', ox_sensorID o', uuid_String U (er_BootID req))"
    and req: "request_ok U (enqueue_request o' req (next_of f (ox_gatewayID o', ox_sensorID o', uuid_String U (er_BootID req)))) (er_ReceivedAt req)"
    and room: "int (length (of_rows f)) < ox_maxRows o'" "0 \<le> total_bytes (of_rows f)"
      "total_bytes (of_rows f) + 65696 \<le> ox_maxBytes o'" "ox_maxBytes o' \<le> maxInt64"
    and fresh: "uuid_String U (er_MessageID req) \<notin> set (map ob_message_id (of_rows f))" and seq: "of_seq f < maxInt64"
  shows "\<exists>item f'. enqueue_tx U env o' req f = Inr (item, f') \<and> length (of_rows f') = Suc (length (of_rows f))"
proof -
  define n where "n = next_of f (ox_gatewayID o', ox_sensorID o', uuid_String U (er_BootID req))"
  obtain built where b: "BuildSyntheticBatch U (enqueue_request o' req n) ServerLimits (er_ReceivedAt req) = Inr built"
    using BuildSyntheticBatch_request [OF U req] unfolding n_def by blast
  have t: "br_FirstSequence (enqueue_request o' req n) = n" "br_SampleCount (enqueue_request o' req n) = er_SampleCount req"
      "br_SampleIntervalUS (enqueue_request o' req n) = er_SampleIntervalUS req"
    by (simp_all add: enqueue_request_def)
  have pos: "0 < er_SampleCount req" using request_pos(1) [OF req] by (simp add: enqueue_request_def)
  have lim: "n \<le> maxInt64" "er_SampleCount req \<le> maxInt32" "er_SampleIntervalUS req \<le> maxInt64" "0 < er_SampleIntervalUS req"
    using req pos unfolding n_def [symmetric] request_ok_def t by (auto simp: int_bounds_defs maxExactFloat64Integer_def)
  have "built_row U (ox_gatewayID o') (ox_sensorID o') (new_row U (env\<lparr>sql_now := 0\<rparr>) o' req n built 0)"
    using next_ok lim pos by (intro new_row_built [OF U _ b]) (auto simp: typed_def n_def int_bounds_defs endOfYear9999_def nsPerDay_def)
  then have size: "int (length (bb_Topic built) + length (bb_Payload built)) \<le> 65696"
    using built_row_size(2) by (fastforce simp: new_row_def)
  have "in_i64 (total_bytes (of_rows f))" "i64 (total_bytes (of_rows f) + int (length (bb_Topic built) + length (bb_Payload built))) \<le> ox_maxBytes o'"
    using room size by (simp_all add: i64_id int_bounds_defs)
  moreover have "nextSequence U env f (ox_gatewayID o') (ox_sensorID o') (er_BootID req) = Inr n"
    using next_ok env by (auto simp: nextSequence_def n_def next_of_def split: option.splits)
  ultimately show ?thesis
    using env b room(1) fresh seq
    by (simp add: enqueue_tx_def outboxUsage_def Let_def enqueue_request_def)
qed

section \<open>A run\<close>

definition fx_outbox :: Outbox where
  "fx_outbox = \<lparr>ox_gatewayID = ''gw1'', ox_sensorID = ''s1'', ox_maxRows = 10, ox_maxBytes = 1000000, ox_opTimeout = 1\<rparr>"

definition fx_sql :: sql_env where
  "fx_sql = \<lparr>sql_fault = (\<lambda>_. None), sql_applied = True, sql_now = fx_start\<rparr>"

definition fx_enqueue :: EnqueueRequest where
  "fx_enqueue = \<lparr>er_BootID = fx_boot, er_MessageID = fx_mid, er_MeasuredAt = fx_start, er_ReceivedAt = fx_start,
     er_SampleCount = 500, er_SampleIntervalUS = 10000\<rparr>"

definition fx_schema :: outbox_file where
  "fx_schema = \<lparr>of_version = 1, of_tables = 3, of_meta = Some (''gw1'', ''s1''), of_rows = [], of_seq = 0, of_streams = Map.empty\<rparr>"

lemma fx_sql_healthy: "sql_healthy fx_sql"
  by (simp add: sql_healthy_def fx_sql_def)

lemma fx_prepare: "prepare fx_sql fx_outbox empty_file = (Inr (), fx_schema)"
  by (simp add: prepare_def readUserVersion_def sql_read_def empty_file_def fx_sql_def createSchema_def in_tx_def sql_commit_def
      sql_call_def outboxSchemaVersion_def fx_schema_def fx_outbox_def)

lemma fx_typed: "typed fx_sql fx_enqueue"
  by (simp add: typed_def fx_sql_def fx_enqueue_def int_bounds_defs fx_start_def endOfYear9999_def nsPerDay_def)

lemma fx_enqueue_tx: "\<exists>item f'. enqueue_tx canonical_uuid fx_sql fx_outbox fx_enqueue fx_schema = Inr (item, f') \<and> length (of_rows f') = Suc 0"
proof -
  have "enqueue_request fx_outbox fx_enqueue 0 = fx_request"
    by (simp add: enqueue_request_def fx_outbox_def fx_enqueue_def fx_request_def)
  moreover have "next_of fx_schema k = 0" for k by (simp add: next_of_def fx_schema_def)
  ultimately show ?thesis
    using enqueue_tx_succeeds [OF canonical_text_ok canonical_validate_ok fx_sql_healthy, of fx_schema fx_outbox fx_enqueue] fx_request_ok
    by (simp add: fx_schema_def fx_outbox_def maxInt64_def) (simp add: fx_enqueue_def)
qed

definition fx_file :: outbox_file where
  "fx_file = snd (Enqueue canonical_uuid fx_sql fx_outbox fx_enqueue fx_schema)"

lemma fx_Enqueue: "\<exists>item. Enqueue canonical_uuid fx_sql fx_outbox fx_enqueue fx_schema = (Inr item, fx_file)" "length (of_rows fx_file) = 1"
  using fx_enqueue_tx fx_sql_healthy unfolding fx_file_def Enqueue_def by auto

lemma fx_outbox_run: "obx.reach canonical_uuid fx_outbox \<lparr>os_file = fx_file, os_hist = of_rows fx_file\<rparr>"
proof -
  have "obx.reach canonical_uuid fx_outbox \<lparr>os_file = empty_file, os_hist = []\<rparr>"
    by (rule obx.reach_init) (simp add: outbox_init_def)
  then have "obx.reach canonical_uuid fx_outbox \<lparr>os_file = fx_schema, os_hist = []\<rparr>"
    using obx.reach_step outbox_step.opens [OF fx_prepare] by blast
  moreover obtain item where "Enqueue canonical_uuid fx_sql fx_outbox fx_enqueue fx_schema = (Inr item, fx_file)" using fx_Enqueue by blast
  then have "outbox_step canonical_uuid fx_outbox \<lparr>os_file = fx_schema, os_hist = []\<rparr>
      \<lparr>os_file = fx_file, os_hist = [] @ drop (length (of_rows fx_schema)) (of_rows fx_file)\<rparr>"
    by (intro outbox_step.enqueues [OF _ fx_typed]) (simp add: fx_schema_def outboxSchemaVersion_def)
  ultimately show ?thesis using obx.reach_step by (fastforce simp: fx_schema_def)
qed

section \<open>Properties\<close>

text \<open>C17. No sequence number is ever used twice. Over the whole life of an outbox file, through
  enqueues, acknowledgements, quarantine, failed and ambiguous commits, restarts and reopening,
  any two rows that ever reached the file for the same boot cover disjoint, increasing sequence
  ranges and have increasing identifiers; the rows still in the file have distinct message
  identifiers and carry the topic and bytes they were inserted with.\<close>

theorem outbox_sequences_unique:
  assumes "uuid_text_ok U" and "uuid_validate_ok U" and "obx.reach U o' st"
  shows "(\<forall>i j. i < j \<and> j < length (os_hist st) \<longrightarrow>
      ob_id (os_hist st ! i) < ob_id (os_hist st ! j) \<and>
      (ob_boot_id (os_hist st ! i) = ob_boot_id (os_hist st ! j) \<longrightarrow>
         ob_first_sequence (os_hist st ! i) + ob_sample_count (os_hist st ! i) \<le> ob_first_sequence (os_hist st ! j))) \<and>
    distinct (map ob_message_id (of_rows (os_file st))) \<and>
    (\<forall>r \<in> set (of_rows (os_file st)). \<exists>h \<in> set (os_hist st). ob_id h = ob_id r \<and> ob_message_id h = ob_message_id r \<and>
       ob_topic h = ob_topic r \<and> ob_payload h = ob_payload r)"
proof -
  have inv: "state_inv U o' st" by (rule outbox_reach_inv [OF assms])
  then have "sorted_wrt row_before (os_hist st)" by (simp add: outbox_inv_def)
  moreover have "\<exists>h \<in> set (os_hist st). ob_id h = ob_id r \<and> ob_message_id h = ob_message_id r \<and>
       ob_topic h = ob_topic r \<and> ob_payload h = ob_payload r" if "r \<in> set (of_rows (os_file st))" for r
    using inv that by (intro bexI [of _ "inserted r"]) (auto simp: outbox_inv_def rows_inv_def)
  ultimately show ?thesis
    using inv by (auto simp: outbox_inv_def rows_inv_def row_before_def row_end_def sorted_wrt_iff_nth_less)
qed

theorem outbox_sequences_unique_witness:
  "length (of_rows fx_file) = 1 \<and> distinct (map ob_message_id (of_rows fx_file))"
  using outbox_sequences_unique [OF canonical_text_ok canonical_validate_ok fx_outbox_run] fx_Enqueue(2) by simp

text \<open>C21. Enqueue is all or nothing. On a file that satisfies the outbox invariant, is of the current
  schema and within the byte quota: a successful call appends exactly one pending row, which holds
  the topic and the payload that \<open>BuildSyntheticBatch\<close> built for this request, its identifiers and the
  next sequence number of its boot. It advances the counter by the number of samples, stays within the row
  and byte quotas, and the row reads back as the item returned. Any failure other than an ambiguous
  commit leaves the file as it was; after an ambiguous commit the file is as it was or as after
  success.\<close>

theorem Enqueue_all_or_nothing:
  assumes U: "uuid_text_ok U" "uuid_validate_ok U" and ty: "typed env req"
    and inv: "outbox_inv U (ox_gatewayID o') (ox_sensorID o') f h" and v: "of_version f = 1"
    and quota: "0 \<le> total_bytes (of_rows f)" "total_bytes (of_rows f) \<le> ox_maxBytes o'" "ox_maxBytes o' \<le> 2 ^ 62"
    and E: "Enqueue U env o' req f = (res, f')"
  defines "k \<equiv> (ox_gatewayID o', ox_sensorID o', uuid_String U (er_BootID req))"
  shows "f' = f \<and> (\<forall>item. res \<noteq> Inr item) \<or>
    (\<exists>r built. of_rows f' = of_rows f @ [r] \<and> ob_status r = outboxStatusPending \<and>
       BuildSyntheticBatch U (enqueue_request o' req (next_of f k)) ServerLimits (er_ReceivedAt req) = Inr built \<and>
       ob_topic r = bb_Topic built \<and> ob_payload r = bb_Payload built \<and>
       ob_gateway_id r = ox_gatewayID o' \<and> ob_sensor_id r = ox_sensorID o' \<and>
       ob_message_id r = uuid_String U (er_MessageID req) \<and> ob_boot_id r = uuid_String U (er_BootID req) \<and>
       ob_first_sequence r = next_of f k \<and> ob_sample_count r = er_SampleCount req \<and>
       of_streams f' = (of_streams f)(k \<mapsto> i64 (next_of f k + er_SampleCount req)) \<and>
       int (length (of_rows f')) \<le> ox_maxRows o' \<and> total_bytes (of_rows f') \<le> ox_maxBytes o' \<and>
       (case res of Inr item \<Rightarrow> scanOutboxItem U r = Inr item | Inl e \<Rightarrow> e = ErrOutboxCommitUnknown))"
proof -
  have ok: "\<exists>r built. of_rows f' = of_rows f @ [r] \<and> ob_status r = outboxStatusPending \<and>
       BuildSyntheticBatch U (enqueue_request o' req (next_of f k)) ServerLimits (er_ReceivedAt req) = Inr built \<and>
       ob_topic r = bb_Topic built \<and> ob_payload r = bb_Payload built \<and>
       ob_gateway_id r = ox_gatewayID o' \<and> ob_sensor_id r = ox_sensorID o' \<and>
       ob_message_id r = uuid_String U (er_MessageID req) \<and> ob_boot_id r = uuid_String U (er_BootID req) \<and>
       ob_first_sequence r = next_of f k \<and> ob_sample_count r = er_SampleCount req \<and>
       of_streams f' = (of_streams f)(k \<mapsto> i64 (next_of f k + er_SampleCount req)) \<and>
       int (length (of_rows f')) \<le> ox_maxRows o' \<and> total_bytes (of_rows f') \<le> ox_maxBytes o' \<and> scanOutboxItem U r = Inr item"
    if body: "enqueue_tx U env o' req f = Inr (item, f')" for item
    using body
  proof (rule enqueue_tx_ok)
    fix built r
    assume bt: "BuildSyntheticBatch U (enqueue_request o' req (ob_first_sequence r)) ServerLimits (er_ReceivedAt req) = Inr built" and r: "r = new_row U env o' req (next_of f (ox_gatewayID o', ox_sensorID o', uuid_String U (er_BootID req))) built (of_seq f + 1)"
      and f': "f' = enqueued r f" and item: "item = row_item r (er_MessageID req) (er_BootID req) (sql_now env)"
      and q: "int (length (of_rows f)) < ox_maxRows o'" "i64 (total_bytes (of_rows f) + ob_byte_size r) \<le> ox_maxBytes o'"
    have rows: "of_rows f' = of_rows f @ [r]" by (simp add: f' enqueued_def)
    have "outbox_inv U (ox_gatewayID o') (ox_sensorID o') f' (h @ [r])"
      using Enqueue_inv [OF U E inv _ ty] v rows by (simp add: outboxSchemaVersion_def)
    then have built: "built_row U (ox_gatewayID o') (ox_sensorID o') r" by (simp add: outbox_inv_def)
    have "in_i64 (total_bytes (of_rows f) + ob_byte_size r)"
      using quota built_row_size [OF built] by (simp add: int_bounds_defs)
    then have bytes: "total_bytes (of_rows f') \<le> ox_maxBytes o'" using q(2) by (simp add: rows i64_id)
    have "in_i32 (er_SampleCount req)" "0 \<le> sql_now env" "sql_now env < endOfYear9999" using ty by (simp_all add: typed_def)
    then have "scanOutboxItem U r = Inr item"
      using uuid_text_roundtrip [OF U(1)] time_Parse_format_nano
      by (simp add: scanOutboxItem_def r item new_row_def row_item_def)
    then show ?thesis using bt rows q(1) bytes
      by (intro exI [of _ r] exI [of _ built]) (simp add: f' enqueued_def r new_row_def k_def)
  qed
  from E show ?thesis unfolding Enqueue_def
  proof (cases rule: in_tx_cases)
    case (committed item)
    then show ?thesis using ok by auto
  next
    case (unknown item)
    then show ?thesis using ok by fastforce
  qed auto
qed

theorem Enqueue_all_or_nothing_witness:
  "\<exists>r. of_rows fx_file = [r] \<and> ob_first_sequence r = 0 \<and> ob_sample_count r = 500 \<and> total_bytes (of_rows fx_file) \<le> 1000000"
proof -
  obtain item where E: "Enqueue canonical_uuid fx_sql fx_outbox fx_enqueue fx_schema = (Inr item, fx_file)" using fx_Enqueue by blast
  have inv: "outbox_inv canonical_uuid (ox_gatewayID fx_outbox) (ox_sensorID fx_outbox) fx_schema []"
    using prepare_inv [OF fx_prepare empty_inv] .
  have "of_version fx_schema = 1" "0 \<le> total_bytes (of_rows fx_schema)" "total_bytes (of_rows fx_schema) \<le> ox_maxBytes fx_outbox"
      "ox_maxBytes fx_outbox \<le> 2 ^ 62"
    by (simp_all add: fx_schema_def fx_outbox_def)
  from Enqueue_all_or_nothing [OF canonical_text_ok canonical_validate_ok fx_typed inv this E]
  show ?thesis by (auto simp: fx_schema_def fx_enqueue_def next_of_def fx_outbox_def)
qed

text \<open>An acknowledged message leaves the outbox exactly once. A delete that reports success removed
  one row, the pending row with that message identifier, and nothing else; a delete that reports
  nothing to delete changed nothing; a failed delete changed nothing unless its commit is
  ambiguous, and even then every row but that one, quarantined rows included, and all sequence
  counters are as before. Repeating the delete afterwards finds nothing.\<close>

theorem DeletePending_exact:
  assumes inv: "outbox_inv U g s f h" and D: "DeletePending U env o' g mid f = (res, f')"
  shows "(res = Inr True \<longrightarrow> (\<exists>ys r zs. selected U g mid r \<and> of_rows f = ys @ r # zs \<and> of_rows f' = ys @ zs)) \<and>
    (res = Inr False \<longrightarrow> f' = f) \<and> (\<forall>e. res = Inl e \<and> e \<noteq> ErrOutboxCommitUnknown \<longrightarrow> f' = f) \<and>
    (\<forall>r \<in> set (of_rows f). selected U g mid r \<or> r \<in> set (of_rows f')) \<and> set (of_rows f') \<subseteq> set (of_rows f) \<and>
    of_streams f' = of_streams f \<and> of_seq f' = of_seq f \<and>
    (\<forall>b. res = Inr b \<longrightarrow> (\<forall>env2 res2 f2. DeletePending U env2 o' g mid f' = (res2, f2) \<longrightarrow> f2 = f' \<and> res2 \<noteq> Inr True))"
  using D
proof (cases rule: DeletePending_cases)
  case failed
  then show ?thesis by auto
next
  case deleted
  have none: "\<not> (\<exists>r \<in> set (of_rows f'). selected U g mid r)" using deleted(2) by auto
  have again: "f2 = f' \<and> res2 \<noteq> Inr True" if "DeletePending U env2 o' g mid f' = (res2, f2)" for env2 res2 f2
    using that
  proof (cases rule: DeletePending_cases)
    case deleted
    moreover have "filter (\<lambda>r. \<not> selected U g mid r) (of_rows f') = of_rows f'" using none by (simp add: filter_id_conv)
    ultimately show ?thesis using none by auto
  qed auto
  have "\<exists>ys r zs. selected U g mid r \<and> of_rows f = ys @ r # zs \<and> of_rows f' = ys @ zs" if "res = Inr True"
    using deleted that remove_selected [OF inv, of _ mid] by fastforce
  moreover have "f' = f" if "res = Inr False"
    using deleted that none_selected [of U g mid "of_rows f"] by (auto simp: filter_empty_conv)
  ultimately show ?thesis using deleted again by auto
qed

theorem DeletePending_exact_witness:
  "(case DeletePending canonical_uuid fx_sql fx_outbox ''gw1'' fx_mid fx_file of
      (res, f') \<Rightarrow> set (of_rows f') \<subseteq> set (of_rows fx_file) \<and> of_seq f' = of_seq fx_file)"
proof -
  have inv: "outbox_inv canonical_uuid ''gw1'' ''s1'' fx_file (of_rows fx_file)"
    using outbox_reach_inv [OF canonical_text_ok canonical_validate_ok fx_outbox_run] by (simp add: fx_outbox_def)
  obtain res f' where D: "DeletePending canonical_uuid fx_sql fx_outbox ''gw1'' fx_mid fx_file = (res, f')" by fastforce
  then show ?thesis using DeletePending_exact [OF inv D] by simp
qed

text \<open>One process owns the outbox, and only for its own identity. Opening succeeds only on a
  path nobody holds, leaves it held, on a file of the current schema bound to the configured
  Gateway and Sensor, with every row and counter of an existing file preserved; a held path is
  reported as busy and nothing changes; a file bound to another identity is refused and left as it
  was, and the path is free again after every failure.\<close>

theorem OpenOutbox_exclusive:
  assumes O: "OpenOutbox env cfg h = (res, h')"
  shows "(\<forall>o'. res = Inr o' \<longrightarrow> validateOutboxConfig cfg = None \<and> \<not> oh_locked h \<and> oh_locked h' \<and>
      ox_gatewayID o' = oc_GatewayID cfg \<and> ox_sensorID o' = oc_SensorID cfg \<and> 0 < ox_maxRows o' \<and> 0 < ox_maxBytes o' \<and>
      (\<exists>f'. oh_file h' = Some f' \<and> of_version f' = 1 \<and> of_meta f' = Some (oc_GatewayID cfg, oc_SensorID cfg) \<and>
         (\<forall>f. oh_file h = Some f \<and> of_version f = 1 \<longrightarrow>
            of_rows f' = of_rows f \<and> of_streams f' = of_streams f \<and> of_seq f' = of_seq f))) \<and>
    (\<forall>e. res = Inl e \<longrightarrow> oh_locked h' = oh_locked h) \<and>
    (oh_locked h \<longrightarrow> h' = h \<and> (validateOutboxConfig cfg = None \<longrightarrow> res = Inl ErrOutboxBusy)) \<and>
    (\<forall>f gs. oh_file h = Some f \<and> of_version f = 1 \<and> of_meta f = Some gs \<and> gs \<noteq> (oc_GatewayID cfg, oc_SensorID cfg) \<longrightarrow>
       (\<exists>e. res = Inl e) \<and> oh_file h' = Some f)"
proof -
  note d = OpenOutbox_def lockOutbox_def openOutboxDB_def sql_read_def Let_def
  note s = option.splits sum.splits if_splits prod.splits
  have ok: "validateOutboxConfig cfg = None \<and> \<not> oh_locked h \<and> oh_locked h' \<and>
      o' = \<lparr>ox_gatewayID = oc_GatewayID cfg, ox_sensorID = oc_SensorID cfg, ox_maxRows = oc_MaxRows cfg,
            ox_maxBytes = oc_MaxBytes cfg, ox_opTimeout = oc_OpTimeout cfg\<rparr> \<and>
      (\<exists>f'. oh_file h' = Some f' \<and> prepare env o' (case oh_file h of None \<Rightarrow> empty_file | Some f \<Rightarrow> f) = (Inr (), f'))"
    if "res = Inr o'" for o'
    using O that by (auto simp: d split: s)
  have prep: "of_version f' = 1 \<and> of_meta f' = Some (ox_gatewayID o', ox_sensorID o') \<and>
      (of_version f = 1 \<longrightarrow> of_rows f' = of_rows f \<and> of_streams f' = of_streams f \<and> of_seq f' = of_seq f)"
    if "prepare env o' f = (Inr (), f')" for o' f f'
    using that by (auto simp: prepare_def verifyBinding_def createSchema_def readUserVersion_def sql_read_def
        in_tx_def sql_commit_def outboxSchemaVersion_def split: s)
  have quotas: "0 < oc_MaxRows cfg" "0 < oc_MaxBytes cfg" if "validateOutboxConfig cfg = None"
    using that by (auto simp: validateOutboxConfig_def split: if_splits)
  have "\<forall>o'. res = Inr o' \<longrightarrow> validateOutboxConfig cfg = None \<and> \<not> oh_locked h \<and> oh_locked h' \<and>
      ox_gatewayID o' = oc_GatewayID cfg \<and> ox_sensorID o' = oc_SensorID cfg \<and> 0 < ox_maxRows o' \<and> 0 < ox_maxBytes o' \<and>
      (\<exists>f'. oh_file h' = Some f' \<and> of_version f' = 1 \<and> of_meta f' = Some (oc_GatewayID cfg, oc_SensorID cfg) \<and>
         (\<forall>f. oh_file h = Some f \<and> of_version f = 1 \<longrightarrow>
            of_rows f' = of_rows f \<and> of_streams f' = of_streams f \<and> of_seq f' = of_seq f))"
    using ok prep quotas by fastforce
  moreover have "\<forall>e. res = Inl e \<longrightarrow> oh_locked h' = oh_locked h" using O by (auto simp: d split: s)
  moreover have "oh_locked h \<longrightarrow> h' = h \<and> (validateOutboxConfig cfg = None \<longrightarrow> res = Inl ErrOutboxBusy)"
    using O by (auto simp: d split: s)
  moreover have "(\<exists>e. res = Inl e) \<and> oh_file h' = Some f"
    if "oh_file h = Some f" "of_version f = 1" "of_meta f = Some gs" "gs \<noteq> (oc_GatewayID cfg, oc_SensorID cfg)" for f gs
    using O that by (cases gs)
      (auto simp: d prepare_def verifyBinding_def readUserVersion_def outboxSchemaVersion_def split: s)
  ultimately show ?thesis by blast
qed

definition fx_config :: OutboxConfig where
  "fx_config = \<lparr>oc_Path = ''/var/lib/gw.db'', oc_GatewayID = ''gw1'', oc_SensorID = ''s1'', oc_MaxRows = 10,
     oc_MaxBytes = 1000000, oc_OpTimeout = 1\<rparr>"

theorem OpenOutbox_exclusive_witness:
  "OpenOutbox fx_sql fx_config \<lparr>oh_file = Some fx_file, oh_regular = True, oh_locked = True\<rparr> =
     (Inl ErrOutboxBusy, \<lparr>oh_file = Some fx_file, oh_regular = True, oh_locked = True\<rparr>)"
proof -
  have "validateOutboxConfig fx_config = None"
    by (simp add: fx_config_def validateOutboxConfig_def) code_simp
  then show ?thesis
    using OpenOutbox_exclusive [of fx_sql fx_config "\<lparr>oh_file = Some fx_file, oh_regular = True, oh_locked = True\<rparr>"]
    by (metis outbox_host.select_convs(3) prod.collapse)
qed

end
