(* ===== verification/Latency.thy ===== *)
theory Latency
  imports Uuid GoTime GoFloat Transitions "HOL-Library.AList" "HOL-Library.Multiset"
begin

text \<open>
  The simulator's bounded latency tracker (\<open>gatewaysim/latency.go\<close>): the first publish of each message,
  the delay until its row is deleted on an acknowledgement, the nearest-rank percentiles and the
  windows of a run. Each method takes the reading of the tracker's clock; the mutex makes a call one
  step. The zero \<open>time.Time\<close> marks a point not yet reached. Counters are \<open>int64\<close>, here 64-bit words.
\<close>

definition MaxMeasurementCapacity :: int where "MaxMeasurementCapacity = 100000"

definition time_IsZero :: "time \<Rightarrow> bool" where "time_IsZero t \<longleftrightarrow> t = 0"

record LatencyTracker =
  lt_enabled :: bool
  lt_capacity :: int
  lt_firstPublish :: "(uuid \<times> time) list"
  lt_completed :: "uuid list"
  lt_durations :: "duration list"
  lt_firstPublishes :: "64 word"
  lt_retryAttempts :: "64 word"
  lt_missingOrigins :: "64 word"
  lt_overflowSamples :: "64 word"
  lt_runStart :: time
  lt_runEnd :: time
  lt_genStart :: time
  lt_genEnd :: time
  lt_firstPubTime :: time
  lt_lastAckTime :: time
  lt_drainComplete :: time

definition zero_tracker :: LatencyTracker where
  "zero_tracker =
     \<lparr>lt_enabled = False, lt_capacity = 0, lt_firstPublish = [], lt_completed = [], lt_durations = [],
      lt_firstPublishes = 0, lt_retryAttempts = 0, lt_missingOrigins = 0, lt_overflowSamples = 0,
      lt_runStart = 0, lt_runEnd = 0, lt_genStart = 0, lt_genEnd = 0, lt_firstPubTime = 0, lt_lastAckTime = 0,
      lt_drainComplete = 0\<rparr>"

definition NewLatencyTracker :: "int \<Rightarrow> string + LatencyTracker" where
  "NewLatencyTracker capacity =
     (if capacity \<le> 0 \<or> MaxMeasurementCapacity < capacity
      then Inl ''gatewaysim: measurement capacity must be between 1 and 100000''
      else Inr (zero_tracker\<lparr>lt_enabled := True, lt_capacity := capacity\<rparr>))"

definition NewDisabledLatencyTracker :: LatencyTracker where
  "NewDisabledLatencyTracker = zero_tracker"

definition RecordFirstPublish :: "time \<Rightarrow> uuid \<Rightarrow> LatencyTracker \<Rightarrow> LatencyTracker" where
  "RecordFirstPublish now i t =
     (if \<not> lt_enabled t then t
      else
        (let t1 = (if time_IsZero (lt_firstPubTime t) then t\<lparr>lt_firstPubTime := now\<rparr> else t) in
         if map_of (lt_firstPublish t1) i \<noteq> None then t1\<lparr>lt_retryAttempts := lt_retryAttempts t1 + 1\<rparr>
         else if i \<in> set (lt_completed t1) then t1\<lparr>lt_retryAttempts := lt_retryAttempts t1 + 1\<rparr>
         else if lt_capacity t1 \<le> int (length (lt_firstPublish t1)) + int (length (lt_completed t1))
         then t1\<lparr>lt_overflowSamples := lt_overflowSamples t1 + 1\<rparr>
         else t1\<lparr>lt_firstPublish := AList.update i now (lt_firstPublish t1),
                 lt_firstPublishes := lt_firstPublishes t1 + 1\<rparr>))"

definition RecordAckDeleted :: "time \<Rightarrow> uuid \<Rightarrow> LatencyTracker \<Rightarrow> LatencyTracker" where
  "RecordAckDeleted now i t =
     (if \<not> lt_enabled t then t
      else
        (let t1 = t\<lparr>lt_lastAckTime := now\<rparr> in
         case map_of (lt_firstPublish t1) i of
           None \<Rightarrow> t1\<lparr>lt_missingOrigins := lt_missingOrigins t1 + 1\<rparr>
         | Some start \<Rightarrow>
             (let t2 = t1\<lparr>lt_firstPublish := AList.delete i (lt_firstPublish t1),
                          lt_completed := List.insert i (lt_completed t1)\<rparr> in
              if lt_capacity t2 \<le> int (length (lt_durations t2))
              then t2\<lparr>lt_overflowSamples := lt_overflowSamples t2 + 1\<rparr>
              else
                (let d = sat64 (now - start); d = (if d < 0 then 0 else d) in
                 t2\<lparr>lt_durations := lt_durations t2 @ [d]\<rparr>))))"

definition RecordRunStart :: "time \<Rightarrow> LatencyTracker \<Rightarrow> LatencyTracker" where
  "RecordRunStart now t =
     (if \<not> lt_enabled t then t else if time_IsZero (lt_runStart t) then t\<lparr>lt_runStart := now\<rparr> else t)"

definition RecordRunEnd :: "time \<Rightarrow> LatencyTracker \<Rightarrow> LatencyTracker" where
  "RecordRunEnd now t = (if \<not> lt_enabled t then t else t\<lparr>lt_runEnd := now\<rparr>)"

definition RecordGenerationStart :: "time \<Rightarrow> LatencyTracker \<Rightarrow> LatencyTracker" where
  "RecordGenerationStart now t =
     (if \<not> lt_enabled t then t else if time_IsZero (lt_genStart t) then t\<lparr>lt_genStart := now\<rparr> else t)"

definition RecordGenerationEnd :: "time \<Rightarrow> LatencyTracker \<Rightarrow> LatencyTracker" where
  "RecordGenerationEnd now t =
     (if \<not> lt_enabled t then t else if time_IsZero (lt_genEnd t) then t\<lparr>lt_genEnd := now\<rparr> else t)"

definition RecordDrainComplete :: "time \<Rightarrow> LatencyTracker \<Rightarrow> LatencyTracker" where
  "RecordDrainComplete now t =
     (if \<not> lt_enabled t then t else if time_IsZero (lt_drainComplete t) then t\<lparr>lt_drainComplete := now\<rparr> else t)"

section \<open>Snapshot\<close>

record LatencySnapshot =
  ls_Enabled :: bool
  ls_Capacity :: int
  ls_SampleCount :: int
  ls_HasPercentiles :: bool
  ls_P50 :: duration
  ls_P95 :: duration
  ls_Min :: duration
  ls_Max :: duration
  ls_FirstPublishes :: "64 word"
  ls_RetryAttempts :: "64 word"
  ls_MissingOrigins :: "64 word"
  ls_OverflowSamples :: "64 word"
  ls_GenerationDuration :: duration
  ls_PublishDrainDuration :: duration
  ls_TotalDuration :: duration

text \<open>\<open>int\<close> division truncates, which is flooring here: \<open>p\<close> and \<open>n\<close> are positive.\<close>

definition nearestRankIndex :: "int \<Rightarrow> int \<Rightarrow> int" where
  "nearestRankIndex p n =
     (if n \<le> 1 then 0
      else
        (let k = (p * n + 99) div 100; k = (if k < 1 then 1 else k); k = (if n < k then n else k) in k - 1))"

definition Snapshot_latency :: "time \<Rightarrow> LatencyTracker \<Rightarrow> LatencySnapshot" where
  "Snapshot_latency now t =
     (if \<not> lt_enabled t
      then \<lparr>ls_Enabled = False, ls_Capacity = 0, ls_SampleCount = 0, ls_HasPercentiles = False, ls_P50 = 0, ls_P95 = 0,
            ls_Min = 0, ls_Max = 0, ls_FirstPublishes = 0, ls_RetryAttempts = 0, ls_MissingOrigins = 0,
            ls_OverflowSamples = 0, ls_GenerationDuration = 0, ls_PublishDrainDuration = 0, ls_TotalDuration = 0\<rparr>
      else
        (let sorted = sort (lt_durations t); n = int (length sorted); some = (lt_durations t \<noteq> []);
             fin = (if time_IsZero (lt_runEnd t) then now else lt_runEnd t);
             genEnd = (if time_IsZero (lt_genEnd t) then fin else lt_genEnd t);
             drainEnd = (if time_IsZero (lt_drainComplete t) then lt_lastAckTime t else lt_drainComplete t);
             drainEnd = (if time_IsZero drainEnd then fin else drainEnd)
         in
         \<lparr>ls_Enabled = True, ls_Capacity = lt_capacity t, ls_SampleCount = int (length (lt_durations t)),
          ls_HasPercentiles = some,
          ls_P50 = (if some then sorted ! nat (nearestRankIndex 50 n) else 0),
          ls_P95 = (if some then sorted ! nat (nearestRankIndex 95 n) else 0),
          ls_Min = (if some then sorted ! 0 else 0),
          ls_Max = (if some then sorted ! nat (n - 1) else 0),
          ls_FirstPublishes = lt_firstPublishes t, ls_RetryAttempts = lt_retryAttempts t,
          ls_MissingOrigins = lt_missingOrigins t, ls_OverflowSamples = lt_overflowSamples t,
          ls_GenerationDuration =
            (if \<not> time_IsZero (lt_genStart t) \<and> \<not> genEnd < lt_genStart t then sat64 (genEnd - lt_genStart t) else 0),
          ls_PublishDrainDuration =
            (if \<not> time_IsZero (lt_firstPubTime t) \<and> \<not> drainEnd < lt_firstPubTime t then sat64 (drainEnd - lt_firstPubTime t) else 0),
          ls_TotalDuration =
            (if \<not> time_IsZero (lt_runStart t) \<and> \<not> fin < lt_runStart t then sat64 (fin - lt_runStart t) else 0)\<rparr>))"

text \<open>\<open>%.2f\<close> of \<open>float64(d.Nanoseconds())/1e6\<close>, for a non-negative duration; \<open>%d\<close> of an \<open>int64\<close> counter.\<close>

definition millis_text :: "duration \<Rightarrow> string" where
  "millis_text d = decimal_text (nearest_decimal (f64_div (float64_of_int d) 1000000) 2) 2"

definition FormatMeasurementSummary :: "LatencySnapshot \<Rightarrow> string" where
  "FormatMeasurementSummary s =
     (let ms = (\<lambda>d. if ls_HasPercentiles s then millis_text d else ''none''); cnt = (\<lambda>w. show_int (sint w)) in
      ''measurement summary: samples='' @ show_int (ls_SampleCount s) @ '' p50_ms='' @ ms (ls_P50 s) @
      '' p95_ms='' @ ms (ls_P95 s) @ '' min_ms='' @ ms (ls_Min s) @ '' max_ms='' @ ms (ls_Max s) @
      '' first_publishes='' @ cnt (ls_FirstPublishes s) @ '' retry_attempts='' @ cnt (ls_RetryAttempts s) @
      '' missing_origins='' @ cnt (ls_MissingOrigins s) @ '' overflow_samples='' @ cnt (ls_OverflowSamples s) @
      '' gen_duration_ms='' @ millis_text (ls_GenerationDuration s) @
      '' publish_drain_duration_ms='' @ millis_text (ls_PublishDrainDuration s) @
      '' total_duration_ms='' @ millis_text (ls_TotalDuration s))"

section \<open>Runs\<close>

datatype latency_event =
    FirstPublish uuid | AckDeleted uuid | RunStart | RunEnd | GenerationStart | GenerationEnd | DrainComplete

fun record_event :: "time \<times> latency_event \<Rightarrow> LatencyTracker \<Rightarrow> LatencyTracker" where
  "record_event (now, FirstPublish i) = RecordFirstPublish now i"
| "record_event (now, AckDeleted i) = RecordAckDeleted now i"
| "record_event (now, RunStart) = RecordRunStart now"
| "record_event (now, RunEnd) = RecordRunEnd now"
| "record_event (now, GenerationStart) = RecordGenerationStart now"
| "record_event (now, GenerationEnd) = RecordGenerationEnd now"
| "record_event (now, DrainComplete) = RecordDrainComplete now"

definition publishes :: "(time \<times> latency_event) list \<Rightarrow> nat" where
  "publishes es = length (filter (\<lambda>e. \<exists>i. snd e = FirstPublish i) es)"

definition acks :: "(time \<times> latency_event) list \<Rightarrow> nat" where
  "acks es = length (filter (\<lambda>e. \<exists>i. snd e = AckDeleted i) es)"

definition tracker_inv :: "int \<Rightarrow> LatencyTracker \<Rightarrow> bool" where
  "tracker_inv cap t \<longleftrightarrow>
     lt_enabled t \<and> lt_capacity t = cap \<and>
     distinct (map fst (lt_firstPublish t)) \<and> distinct (lt_completed t) \<and>
     set (lt_completed t) \<inter> fst ` set (lt_firstPublish t) = {} \<and>
     int (length (lt_firstPublish t)) + int (length (lt_completed t)) \<le> cap \<and>
     length (lt_durations t) = length (lt_completed t) \<and> (\<forall>d \<in> set (lt_durations t). 0 \<le> d) \<and>
     lt_firstPublishes t = of_nat (length (lt_firstPublish t) + length (lt_completed t))"

lemma map_of_None_keys: "map_of xs k = None \<longleftrightarrow> k \<notin> fst ` set xs"
  by (metis map_of_eq_None_iff)

lemma update_new: "map_of xs k = None \<Longrightarrow> AList.update k v xs = xs @ [(k, v)]"
  by (induction xs) (auto split: if_splits)

lemma delete_one:
  assumes "distinct (map fst xs)" and "map_of xs k = Some v"
  shows "length xs = Suc (length (AList.delete k xs))" and "fst ` set (AList.delete k xs) = fst ` set xs - {k}"
    and "distinct (map fst (AList.delete k xs))"
proof -
  show ks: "fst ` set (AList.delete k xs) = fst ` set xs - {k}" by (metis delete_keys set_map set_removeAll)
  show dd: "distinct (map fst (AList.delete k xs))" using assms(1) by (rule distinct_delete)
  have "card (fst ` set xs) = length xs" "card (fst ` set (AList.delete k xs)) = length (AList.delete k xs)"
    using distinct_card [OF assms(1)] distinct_card [OF dd] by simp_all
  moreover have "k \<in> fst ` set xs" using assms(2) by (force dest: map_of_SomeD)
  ultimately show "length xs = Suc (length (AList.delete k xs))" unfolding ks by (metis card.remove finite_imageI finite_set)
qed

lemma RecordFirstPublish_inv:
  assumes "tracker_inv cap t"
  shows "tracker_inv cap (RecordFirstPublish now i t)"
    and "lt_firstPublishes (RecordFirstPublish now i t) + lt_retryAttempts (RecordFirstPublish now i t) +
      lt_overflowSamples (RecordFirstPublish now i t) = lt_firstPublishes t + lt_retryAttempts t + lt_overflowSamples t + 1"
    and "lt_missingOrigins (RecordFirstPublish now i t) = lt_missingOrigins t"
    and "lt_durations (RecordFirstPublish now i t) = lt_durations t"
  using assms by (auto simp: RecordFirstPublish_def tracker_inv_def Let_def update_new map_of_None_keys)

lemma RecordAckDeleted_inv:
  assumes inv: "tracker_inv cap t"
  shows "tracker_inv cap (RecordAckDeleted now i t)"
    and "lt_missingOrigins (RecordAckDeleted now i t) + of_nat (length (lt_durations (RecordAckDeleted now i t))) =
      lt_missingOrigins t + of_nat (length (lt_durations t)) + 1"
    and "lt_firstPublishes (RecordAckDeleted now i t) = lt_firstPublishes t"
    and "lt_retryAttempts (RecordAckDeleted now i t) = lt_retryAttempts t"
    and "lt_overflowSamples (RecordAckDeleted now i t) = lt_overflowSamples t"
proof -
  have room: "int (length (lt_durations t)) < lt_capacity t" if "map_of (lt_firstPublish t) i = Some s" for s
    using inv that by (cases "lt_firstPublish t") (auto simp: tracker_inv_def)
  have new: "i \<notin> set (lt_completed t)" if "map_of (lt_firstPublish t) i = Some s" for s
    using inv that by (force simp: tracker_inv_def dest: map_of_SomeD)
  note one = delete_one [of "lt_firstPublish t" i]
  show "tracker_inv cap (RecordAckDeleted now i t)"
    using inv room new one by (auto simp: RecordAckDeleted_def tracker_inv_def Let_def not_le split: option.splits)
  show "lt_missingOrigins (RecordAckDeleted now i t) + of_nat (length (lt_durations (RecordAckDeleted now i t))) =
      lt_missingOrigins t + of_nat (length (lt_durations t)) + 1"
    "lt_firstPublishes (RecordAckDeleted now i t) = lt_firstPublishes t"
    "lt_retryAttempts (RecordAckDeleted now i t) = lt_retryAttempts t"
    "lt_overflowSamples (RecordAckDeleted now i t) = lt_overflowSamples t"
    using inv room by (auto simp: RecordAckDeleted_def Let_def tracker_inv_def not_le split: option.splits)
qed

text \<open>The window markers touch nothing else.\<close>

lemma markers_frame [frame]:
  "lt_firstPublishes (RecordRunStart now t) = lt_firstPublishes t" "tracker_inv cap t \<Longrightarrow> tracker_inv cap (RecordRunStart now t)"
  "tracker_inv cap t \<Longrightarrow> tracker_inv cap (RecordRunEnd now t)" "tracker_inv cap t \<Longrightarrow> tracker_inv cap (RecordGenerationStart now t)"
  "tracker_inv cap t \<Longrightarrow> tracker_inv cap (RecordGenerationEnd now t)" "tracker_inv cap t \<Longrightarrow> tracker_inv cap (RecordDrainComplete now t)"
  by (simp_all add: tracker_inv_def RecordRunStart_def RecordRunEnd_def RecordGenerationStart_def RecordGenerationEnd_def RecordDrainComplete_def)

definition conserved :: "LatencyTracker \<Rightarrow> (time \<times> latency_event) list \<Rightarrow> bool" where
  "conserved t es \<longleftrightarrow>
     of_nat (publishes es) = lt_firstPublishes t + lt_retryAttempts t + lt_overflowSamples t \<and>
     of_nat (acks es) = lt_missingOrigins t + of_nat (length (lt_durations t))"

lemma record_event_step:
  assumes "tracker_inv cap t" and "conserved t es"
  shows "tracker_inv cap (record_event e t) \<and> conserved (record_event e t) (es @ [e])"
proof -
  have counts: "publishes (es @ [e]) = publishes es + (case snd e of FirstPublish i \<Rightarrow> 1 | _ \<Rightarrow> 0)"
      "acks (es @ [e]) = acks es + (case snd e of AckDeleted i \<Rightarrow> 1 | _ \<Rightarrow> 0)"
    by (auto simp: publishes_def acks_def split: latency_event.splits)
  obtain now v where e: "e = (now, v)" by fastforce
  show ?thesis
  proof (cases v)
    case (FirstPublish i)
    then show ?thesis using assms RecordFirstPublish_inv [OF assms(1), of now i] counts e by (simp add: conserved_def)
  next
    case (AckDeleted i)
    then show ?thesis using assms RecordAckDeleted_inv [OF assms(1), of now i] counts e by (simp add: conserved_def)
  qed (use assms counts e in \<open>simp_all add: frame conserved_def\<close>,
       simp_all add: RecordRunStart_def RecordRunEnd_def RecordGenerationStart_def RecordGenerationEnd_def RecordDrainComplete_def)
qed

lemma record_all:
  assumes "NewLatencyTracker cap = Inr t0"
  shows "tracker_inv cap (fold record_event es t0) \<and> conserved (fold record_event es t0) es"
proof (induction es rule: rev_induct)
  case Nil
  then show ?case using assms
    by (auto simp: NewLatencyTracker_def tracker_inv_def conserved_def zero_tracker_def publishes_def acks_def split: if_splits)
next
  case (snoc e es)
  then show ?case using record_event_step [of cap "fold record_event es t0" es e] by simp
qed

section \<open>Percentiles\<close>

lemma nearestRankIndex_spec:
  assumes "0 < p" "p \<le> 100" "0 < n"
  defines "k \<equiv> nearestRankIndex p n"
  shows "0 \<le> k \<and> k < n \<and> p * n \<le> 100 * (k + 1) \<and> 100 * k < p * n"
proof (cases "n \<le> 1")
  case True
  then have "n = 1" using assms by simp
  then show ?thesis using assms by (simp add: k_def nearestRankIndex_def)
next
  case False
  define m where "m = p * n"
  define q where "q = (m + 99) div 100"
  define r where "r = (m + 99) mod 100"
  have "100 * q + r = m + 99" "0 \<le> r" "r < 100" by (simp_all add: q_def r_def)
  moreover have "0 < m" "m \<le> 100 * n" using assms False by (simp_all add: m_def)
  ultimately have b: "m \<le> 100 * q" "100 * (q - 1) < m" "1 \<le> q" "q \<le> n" by simp_all
  then have "k = q - 1" using False by (simp add: k_def nearestRankIndex_def m_def q_def Let_def)
  then show ?thesis using b unfolding m_def [symmetric] by simp
qed

lemma sorted_ranks:
  fixes xs :: "'a::linorder list"
  assumes "sorted xs" and "k < length xs"
  shows "length (filter (\<lambda>x. x < xs ! k) xs) \<le> k" and "k < length (filter (\<lambda>x. x \<le> xs ! k) xs)"
proof -
  have a: "x \<le> xs ! k" if "x \<in> set (take (Suc k) xs)" for x
    using that assms by (auto simp: in_set_conv_nth sorted_nth_mono)
  have d: "\<not> x < xs ! k" if "x \<in> set (drop k xs)" for x
    using that assms by (auto simp: in_set_conv_nth not_less intro!: sorted_nth_mono)
  have t: "filter (\<lambda>x. x \<le> xs ! k) (take (Suc k) xs) = take (Suc k) xs" using a by (simp add: filter_id_conv)
  have e: "filter (\<lambda>x. x < xs ! k) (drop k xs) = []" using d by (simp add: filter_empty_conv)
  have "filter (\<lambda>x. x < xs ! k) xs = filter (\<lambda>x. x < xs ! k) (take k xs)"
    by (metis append_Nil2 append_take_drop_id e filter_append)
  then show "length (filter (\<lambda>x. x < xs ! k) xs) \<le> k"
    using length_filter_le [of "\<lambda>x. x < xs ! k" "take k xs"] by simp
  have "length (take (Suc k) xs) \<le> length (filter (\<lambda>x. x \<le> xs ! k) xs)"
    by (metis append_take_drop_id filter_append le_add1 length_append t)
  then show "k < length (filter (\<lambda>x. x \<le> xs ! k) xs)" using assms(2) by simp
qed

text \<open>\<open>q\<close> is the nearest-rank \<open>p\<close>-th percentile of \<open>ds\<close>: a sample with at least \<open>p\<close> percent of the
  samples at or below it, and less than \<open>p\<close> percent strictly below it.\<close>

definition is_percentile :: "int \<Rightarrow> duration list \<Rightarrow> duration \<Rightarrow> bool" where
  "is_percentile p ds q \<longleftrightarrow> q \<in> set ds \<and>
     p * int (length ds) \<le> 100 * int (length (filter (\<lambda>d. d \<le> q) ds)) \<and>
     100 * int (length (filter (\<lambda>d. d < q) ds)) < p * int (length ds)"

lemma length_filter_sort: "length (filter P (sort xs)) = length (filter P xs)"
  by (metis filter_sort length_sort)

lemma percentile_at:
  assumes "ds \<noteq> []" and "0 < p" "p \<le> 100"
  shows "is_percentile p ds (sort ds ! nat (nearestRankIndex p (int (length ds))))"
proof -
  let ?k = "nearestRankIndex p (int (length ds))"
  have k: "0 \<le> ?k" "?k < int (length ds)" "p * int (length ds) \<le> 100 * (?k + 1)" "100 * ?k < p * int (length ds)"
    using nearestRankIndex_spec [of p "int (length ds)"] assms by auto
  then have "nat ?k < length (sort ds)" by simp
  from sorted_ranks [OF sorted_sort this] nth_mem [OF this] show ?thesis
    using k unfolding is_percentile_def length_filter_sort by auto
qed

section \<open>Properties\<close>

text \<open>The tracker stays within its capacity and loses no event. Whatever is recorded and in whatever
  order, at most \<open>capacity\<close> messages are remembered, no message both waiting and completed; there
  is exactly one sample per completed message and none is negative; every publish was a first
  publish, a retry or an overflow, and every acknowledgement gave a sample or had no origin.\<close>

theorem latency_tracker_bounded:
  fixes es :: "(time \<times> latency_event) list"
  assumes "NewLatencyTracker cap = Inr t0"
  defines "t \<equiv> fold record_event es t0"
  shows "int (length (lt_firstPublish t)) + int (length (lt_completed t)) \<le> cap \<and> cap \<le> 100000 \<and>
    set (lt_completed t) \<inter> fst ` set (lt_firstPublish t) = {} \<and>
    length (lt_durations t) = card (set (lt_completed t)) \<and> (\<forall>d \<in> set (lt_durations t). 0 \<le> d) \<and>
    lt_firstPublishes t = of_nat (card (fst ` set (lt_firstPublish t)) + card (set (lt_completed t))) \<and>
    of_nat (publishes es) = lt_firstPublishes t + lt_retryAttempts t + lt_overflowSamples t \<and>
    of_nat (acks es) = lt_missingOrigins t + of_nat (length (lt_durations t))"
proof -
  have inv: "tracker_inv cap t" "conserved t es" using record_all [OF assms(1)] by (auto simp: t_def)
  have "card (fst ` set (lt_firstPublish t)) = length (lt_firstPublish t)" "card (set (lt_completed t)) = length (lt_completed t)"
    using inv(1) distinct_card [of "map fst (lt_firstPublish t)"] distinct_card [of "lt_completed t"] by (auto simp: tracker_inv_def)
  moreover have "cap \<le> 100000" using assms(1) by (auto simp: NewLatencyTracker_def MaxMeasurementCapacity_def split: if_splits)
  ultimately show ?thesis using inv by (simp add: tracker_inv_def conserved_def)
qed

theorem latency_tracker_bounded_witness:
  "lt_durations (fold record_event [(5, FirstPublish 1), (6, FirstPublish 2), (9, AckDeleted 1), (9, AckDeleted 2)]
       (zero_tracker\<lparr>lt_enabled := True, lt_capacity := 1\<rparr>)) = [4] \<and>
   of_nat (acks [(5, FirstPublish 1), (6, FirstPublish 2), (9, AckDeleted 1), (9, AckDeleted 2)]) = (2 :: 64 word)"
  using latency_tracker_bounded [of 1 "zero_tracker\<lparr>lt_enabled := True, lt_capacity := 1\<rparr>"
      "[(5, FirstPublish 1), (6, FirstPublish 2), (9, AckDeleted 1), (9, AckDeleted 2)]"]
  by (simp add: NewLatencyTracker_def MaxMeasurementCapacity_def zero_tracker_def RecordFirstPublish_def RecordAckDeleted_def
      time_IsZero_def sat64_def int_bounds_defs)

text \<open>The reported percentiles are the nearest-rank percentiles of the samples: each is one of the
  samples, with at least that share of the samples at or below it and less than that share below it;
  they lie in order between the reported minimum and maximum.\<close>

theorem percentiles_nearest_rank:
  fixes now :: time
  assumes "lt_enabled t" and "lt_durations t \<noteq> []"
  defines "s \<equiv> Snapshot_latency now t"
  shows "ls_HasPercentiles s \<and> is_percentile 50 (lt_durations t) (ls_P50 s) \<and> is_percentile 95 (lt_durations t) (ls_P95 s) \<and>
    ls_Min s = Min (set (lt_durations t)) \<and> ls_Max s = Max (set (lt_durations t)) \<and>
    ls_Min s \<le> ls_P50 s \<and> ls_P50 s \<le> ls_P95 s \<and> ls_P95 s \<le> ls_Max s"
proof -
  let ?ds = "lt_durations t" and ?n = "int (length (lt_durations t))"
  have n: "0 < ?n" using assms(2) by simp
  have v: "ls_HasPercentiles s" "ls_P50 s = sort ?ds ! nat (nearestRankIndex 50 ?n)" "ls_P95 s = sort ?ds ! nat (nearestRankIndex 95 ?n)"
      "ls_Min s = sort ?ds ! 0" "ls_Max s = sort ?ds ! nat (?n - 1)"
    using assms(1,2) by (simp_all add: s_def Snapshot_latency_def Let_def)
  have k: "nearestRankIndex 50 ?n \<le> nearestRankIndex 95 ?n"
  proof -
    have "(50 * ?n + 99) div 100 \<le> (95 * ?n + 99) div 100" using n by (intro zdiv_mono1) simp_all
    then show ?thesis by (simp add: nearestRankIndex_def Let_def)
  qed
  have r: "0 \<le> nearestRankIndex 50 ?n" "nearestRankIndex 95 ?n < ?n"
    using nearestRankIndex_spec [of 50 ?n] nearestRankIndex_spec [of 95 ?n] n by auto
  have mono: "sort ?ds ! nat i \<le> sort ?ds ! nat j" if "0 \<le> i" "i \<le> j" "j < ?n" for i j
    using that by (intro sorted_nth_mono [OF sorted_sort]) (simp_all add: nat_le_iff nat_less_iff)
  have mem: "sort ?ds ! nat i \<in> set ?ds" if "0 \<le> i" "i < ?n" for i
    using nth_mem [of "nat i" "sort ?ds"] that by (simp add: nat_less_iff)
  have "ls_Min s = Min (set ?ds)"
  proof (rule Min_eqI [symmetric])
    fix y assume "y \<in> set ?ds"
    then obtain i where "i < length (sort ?ds)" "y = sort ?ds ! i" by (metis in_set_conv_nth set_sort)
    then show "ls_Min s \<le> y" using mono [of 0 "int i"] v(4) by simp
  qed (use mem [of 0] n v(4) in auto)
  moreover have "ls_Max s = Max (set ?ds)"
  proof (rule Max_eqI [symmetric])
    fix y assume "y \<in> set ?ds"
    then obtain i where "i < length (sort ?ds)" "y = sort ?ds ! i" by (metis in_set_conv_nth set_sort)
    then show "y \<le> ls_Max s" using mono [of "int i" "?n - 1"] v(5) by simp
  qed (use mem [of "?n - 1"] n v(5) in auto)
  moreover have "ls_Min s \<le> ls_P50 s" "ls_P50 s \<le> ls_P95 s" "ls_P95 s \<le> ls_Max s"
    unfolding v using mono [of 0 "nearestRankIndex 50 ?n"] mono [of "nearestRankIndex 50 ?n" "nearestRankIndex 95 ?n"]
      mono [of "nearestRankIndex 95 ?n" "?n - 1"] k r by simp_all
  ultimately show ?thesis using percentile_at [OF assms(2)] v(1-3) by simp
qed

theorem percentiles_nearest_rank_witness:
  "ls_P50 (Snapshot_latency 9 (zero_tracker\<lparr>lt_enabled := True, lt_durations := [7, 3, 5]\<rparr>)) = 5 \<and> is_percentile 50 [7, 3, 5] 5"
  using percentiles_nearest_rank [of "zero_tracker\<lparr>lt_enabled := True, lt_durations := [7, 3, 5]\<rparr>" 9]
  by (simp add: Snapshot_latency_def nearestRankIndex_def zero_tracker_def Let_def)

end
