(* ===== verification/AckProcessor.thy ===== *)
theory AckProcessor
  imports OutboxTheorems Latency
begin

text \<open>
  The simulator's acknowledgement path (\<open>gatewaysim/ack.go\<close>): bounded admission in the broker callback,
  one worker that parses strictly and deletes the acknowledged row, counters and the stop protocol.
  A buffered channel is the list of its values, a closed channel a flag; the worker is running when
  it is started and not finished. The latency recorder is optional.
\<close>

section \<open>State\<close>

definition minACKAdmissionCapacity :: int where "minACKAdmissionCapacity = 1"
definition maxACKAdmissionCapacity :: int where "maxACKAdmissionCapacity = 4096"

record ackAdmission =
  aa_topic :: string
  aa_payload :: string

record ACKStats =
  as_Admitted :: "64 word"
  as_Acknowledged :: "64 word"
  as_DroppedRetained :: "64 word"
  as_DroppedOversize :: "64 word"
  as_DroppedFull :: "64 word"
  as_DeleteFailed :: "64 word"

record ACKProcessor =
  ap_gatewayID :: string
  ap_capacity :: nat
  ap_admissions :: "ackAdmission list"
  ap_notify :: bool
  ap_done :: bool
  ap_finished :: bool
  ap_fatalCh :: bool
  ap_started :: bool
  ap_fatalErr :: "sim_error option"
  ap_admitted :: "64 word"
  ap_acknowledged :: "64 word"
  ap_droppedRetained :: "64 word"
  ap_droppedOversize :: "64 word"
  ap_droppedFull :: "64 word"
  ap_deleteFailed :: "64 word"

section \<open>Operations\<close>

definition NewACKProcessor :: "Outbox option \<Rightarrow> int \<Rightarrow> sim_error + ACKProcessor" where
  "NewACKProcessor outbox admissionCapacity =
     (case outbox of
        None \<Rightarrow> Inl (SimMessage ''gatewaysim: ACK processor requires an outbox'')
      | Some o' \<Rightarrow>
          if admissionCapacity < minACKAdmissionCapacity \<or> maxACKAdmissionCapacity < admissionCapacity
          then Inl (SimMessage ''gatewaysim: ACK admission capacity must be between 1 and 4096'')
          else Inr \<lparr>ap_gatewayID = ox_gatewayID o', ap_capacity = nat admissionCapacity, ap_admissions = [],
                    ap_notify = False, ap_done = False, ap_finished = False, ap_fatalCh = False, ap_started = False,
                    ap_fatalErr = None, ap_admitted = 0, ap_acknowledged = 0, ap_droppedRetained = 0,
                    ap_droppedOversize = 0, ap_droppedFull = 0, ap_deleteFailed = 0\<rparr>)"

definition Start_ack :: "ACKProcessor \<Rightarrow> ACKProcessor" where
  "Start_ack p = (if ap_started p then p else p\<lparr>ap_started := True\<rparr>)"

definition Admit_ack :: "string \<Rightarrow> string \<Rightarrow> bool \<Rightarrow> ACKProcessor \<Rightarrow> ACKProcessor" where
  "Admit_ack topic payload retained p =
     (if retained then p\<lparr>ap_droppedRetained := ap_droppedRetained p + 1\<rparr>
      else if maxACKBytes < length payload then p\<lparr>ap_droppedOversize := ap_droppedOversize p + 1\<rparr>
      else if length (ap_admissions p) < ap_capacity p
      then p\<lparr>ap_admissions := ap_admissions p @ [\<lparr>aa_topic = topic, aa_payload = payload\<rparr>],
             ap_admitted := ap_admitted p + 1\<rparr>
      else p\<lparr>ap_droppedFull := ap_droppedFull p + 1\<rparr>)"

definition Fatal_ack :: "ACKProcessor \<Rightarrow> sim_error option" where
  "Fatal_ack p = ap_fatalErr p"

definition Stats_ack :: "ACKProcessor \<Rightarrow> ACKStats" where
  "Stats_ack p =
     \<lparr>as_Admitted = ap_admitted p, as_Acknowledged = ap_acknowledged p, as_DroppedRetained = ap_droppedRetained p,
      as_DroppedOversize = ap_droppedOversize p, as_DroppedFull = ap_droppedFull p, as_DeleteFailed = ap_deleteFailed p\<rparr>"

definition signalScheduler :: "ACKProcessor \<Rightarrow> ACKProcessor" where
  "signalScheduler p = (if ap_notify p then p else p\<lparr>ap_notify := True\<rparr>)"

definition setFatal_ack :: "sim_error \<Rightarrow> ACKProcessor \<Rightarrow> ACKProcessor" where
  "setFatal_ack e p =
     (let p1 = (if ap_fatalErr p = None then p\<lparr>ap_fatalErr := Some e\<rparr> else p) in p1\<lparr>ap_fatalCh := True\<rparr>)"

text \<open>
  \<open>handleAdmission\<close>: the error if any, the processor, the outbox file and the tracker. Wrapping the
  error of \<open>DeletePending\<close> keeps its sentinel.
\<close>

definition handleAdmission ::
  "uuid_pkg \<Rightarrow> sql_env \<Rightarrow> Outbox \<Rightarrow> time \<Rightarrow> ackAdmission \<Rightarrow> ACKProcessor \<Rightarrow> outbox_file \<Rightarrow> LatencyTracker option \<Rightarrow>
   sim_error option \<times> ACKProcessor \<times> outbox_file \<times> LatencyTracker option" where
  "handleAdmission U env o' now admission p f lat =
     (case ParseCommitACK U (aa_topic admission) (aa_payload admission) (ap_gatewayID p) of
        Inl e \<Rightarrow> (None, p, f, lat)
      | Inr ack \<Rightarrow>
          (case DeletePending U env o' (ap_gatewayID p) (ack_MessageID ack) f of
             (Inl e, f') \<Rightarrow> (Some e, p\<lparr>ap_deleteFailed := ap_deleteFailed p + 1\<rparr>, f', lat)
           | (Inr deleted, f') \<Rightarrow>
               if \<not> deleted then (None, p, f', lat)
               else (None, signalScheduler (p\<lparr>ap_acknowledged := ap_acknowledged p + 1\<rparr>), f',
                     map_option (RecordAckDeleted now (ack_MessageID ack)) lat)))"

text \<open>
  \<open>Stop\<close>: it closes the stop channel and waits. The wait ends with the worker or with the context,
  and when both are ready \<open>select\<close> may take either; \<open>None\<close> means it is still waiting.
\<close>

definition Stop_begin :: "ACKProcessor \<Rightarrow> ACKProcessor" where
  "Stop_begin p = p\<lparr>ap_done := True\<rparr>"

definition Stop_wait :: "sim_error option \<Rightarrow> bool \<Rightarrow> ACKProcessor \<Rightarrow> sim_error option option" where
  "Stop_wait ctxErr pickCtx p =
     (if \<not> ap_started p then Some (Fatal_ack p)
      else if ap_finished p \<and> (ctxErr = None \<or> \<not> pickCtx) then Some (Fatal_ack p)
      else if ctxErr \<noteq> None then Some ctxErr
      else None)"

text \<open>One iteration of \<open>run\<close> that received an admission, and one that saw the stop signal.\<close>

definition run_admission ::
  "uuid_pkg \<Rightarrow> sql_env \<Rightarrow> Outbox \<Rightarrow> time \<Rightarrow> ACKProcessor \<Rightarrow> outbox_file \<Rightarrow> LatencyTracker option \<Rightarrow>
   ACKProcessor \<times> outbox_file \<times> LatencyTracker option" where
  "run_admission U env o' now p f lat =
     (case ap_admissions p of
        [] \<Rightarrow> (p, f, lat)
      | admission # rest \<Rightarrow>
          (case handleAdmission U env o' now admission (p\<lparr>ap_admissions := rest\<rparr>) f lat of
             (None, p', f', lat') \<Rightarrow> (p', f', lat')
           | (Some e, p', f', lat') \<Rightarrow> ((setFatal_ack e p')\<lparr>ap_finished := True\<rparr>, f', lat')))"

definition run_stop :: "ACKProcessor \<Rightarrow> ACKProcessor" where
  "run_stop p = p\<lparr>ap_finished := True\<rparr>"

section \<open>Interleaving\<close>

text \<open>
  A running process: the broker's callbacks, the worker, the scheduler's enqueues and its reads of the
  wake signal, and the stop. While the process holds the outbox lock nothing else writes the file.
  \<open>ak_seen\<close> is a ghost: everything the broker ever delivered.
\<close>

record ack_state =
  ak_proc :: ACKProcessor
  ak_box :: outbox_state
  ak_lat :: "LatencyTracker option"
  ak_seen :: "(string \<times> string \<times> bool) list"

inductive ack_step :: "uuid_pkg \<Rightarrow> Outbox \<Rightarrow> ack_state \<Rightarrow> ack_state \<Rightarrow> bool" for U o' where
  starts: "ack_step U o' st (st\<lparr>ak_proc := Start_ack (ak_proc st)\<rparr>)"
| delivers: "ack_step U o' st (st\<lparr>ak_proc := Admit_ack topic payload retained (ak_proc st),
     ak_seen := ak_seen st @ [(topic, payload, retained)]\<rparr>)"
| handles: "ap_started (ak_proc st) \<Longrightarrow> \<not> ap_finished (ak_proc st) \<Longrightarrow> ap_admissions (ak_proc st) \<noteq> [] \<Longrightarrow>
     run_admission U env o' now (ak_proc st) (os_file (ak_box st)) (ak_lat st) = (p', f', lat') \<Longrightarrow>
     ack_step U o' st (st\<lparr>ak_proc := p', ak_box := (ak_box st)\<lparr>os_file := f'\<rparr>, ak_lat := lat'\<rparr>)"
| stops: "ap_started (ak_proc st) \<Longrightarrow> \<not> ap_finished (ak_proc st) \<Longrightarrow> ap_done (ak_proc st) \<Longrightarrow>
     ack_step U o' st (st\<lparr>ak_proc := run_stop (ak_proc st)\<rparr>)"
| closes: "ack_step U o' st (st\<lparr>ak_proc := Stop_begin (ak_proc st)\<rparr>)"
| wakes: "ap_notify (ak_proc st) \<Longrightarrow> ack_step U o' st (st\<lparr>ak_proc := (ak_proc st)\<lparr>ap_notify := False\<rparr>\<rparr>)"
| enqueues: "typed env req \<Longrightarrow> Enqueue U env o' req (os_file (ak_box st)) = (res, f') \<Longrightarrow>
     ack_step U o' st (st\<lparr>ak_box := \<lparr>os_file = f',
       os_hist = os_hist (ak_box st) @ drop (length (of_rows (os_file (ak_box st)))) (of_rows f')\<rparr>\<rparr>)"

definition ack_init :: "uuid_pkg \<Rightarrow> Outbox \<Rightarrow> outbox_state \<Rightarrow> ack_state \<Rightarrow> bool" where
  "ack_init U o' box st \<longleftrightarrow>
     (\<exists>cap. NewACKProcessor (Some o') cap = Inr (ak_proc st)) \<and> ak_box st = box \<and> ak_seen st = [] \<and>
     state_inv U o' box \<and> of_version (os_file box) = outboxSchemaVersion"

interpretation akx: transition_system "ack_init U o' box" "ack_step U o'" for U o' box .

section \<open>Invariant\<close>

text \<open>What one delete can do, whatever SQLite answers.\<close>

lemma DeletePending_effect:
  assumes inv: "outbox_inv U g s f h" and D: "DeletePending U env o' g mid f = (res, f')"
  obtains n where "length (of_rows f) = length (of_rows f') + n" "n \<le> 1"
    "\<And>r. r \<in> set (of_rows f) \<Longrightarrow> r \<in> set (of_rows f') \<or> ob_message_id r = uuid_String U mid"
    "res = Inr True \<Longrightarrow> n = 1" "res = Inr False \<Longrightarrow> n = 0" "\<And>e. res = Inl e \<Longrightarrow> n = 1 \<Longrightarrow> e = ErrOutboxCommitUnknown"
    "of_version f' = of_version f"
  using D
proof (cases rule: DeletePending_cases)
  case failed
  then show ?thesis using that [of 0] by simp
next
  case deleted
  have keep: "r \<in> set (of_rows f') \<or> ob_message_id r = uuid_String U mid" if "r \<in> set (of_rows f)" for r
    using deleted(2) that by (auto simp: selected_def)
  show ?thesis
  proof (cases "\<exists>r \<in> set (of_rows f). selected U g mid r")
    case True
    then have "length (of_rows f) = length (of_rows f') + 1"
      using deleted(2) remove_selected [OF inv, of _ mid] by fastforce
    then show ?thesis using that [of 1] keep deleted(2,3) True by auto
  next
    case False
    then have "of_rows f' = of_rows f" using deleted(2) by (simp add: filter_id_conv)
    then show ?thesis using that [of 0] deleted(2,3) False by auto
  qed
qed

definition acked :: "uuid_pkg \<Rightarrow> string \<Rightarrow> (string \<times> string \<times> bool) list \<Rightarrow> string \<Rightarrow> bool" where
  "acked U g seen mid \<longleftrightarrow> (\<exists>topic payload ack. (topic, payload, False) \<in> set seen \<and>
     ParseCommitACK U topic payload g = Inr ack \<and> mid = uuid_String U (ack_MessageID ack))"

lemma acked_mono: "acked U g seen mid \<Longrightarrow> acked U g (seen @ more_seen) mid"
  by (auto simp: acked_def)

text \<open>The rows this process is responsible for: those it found, and those it enqueued.\<close>

definition proc_inv :: "Outbox \<Rightarrow> ack_state \<Rightarrow> bool" where
  "proc_inv o' st \<longleftrightarrow> (let p = ak_proc st in
     ap_gatewayID p = ox_gatewayID o' \<and> length (ap_admissions p) \<le> ap_capacity p \<and> ap_capacity p \<le> 4096 \<and>
     (\<forall>a \<in> set (ap_admissions p). (aa_topic a, aa_payload a, False) \<in> set (ak_seen st)) \<and>
     of_nat (length (ak_seen st)) = ap_admitted p + ap_droppedRetained p + ap_droppedOversize p + ap_droppedFull p \<and>
     (ap_fatalErr p \<noteq> None \<longrightarrow> ap_finished p) \<and> (ap_fatalCh p \<longleftrightarrow> ap_fatalErr p \<noteq> None) \<and>
     ap_deleteFailed p = (if ap_fatalErr p = None then 0 else 1))"

definition rows_kept :: "uuid_pkg \<Rightarrow> Outbox \<Rightarrow> outbox_state \<Rightarrow> ack_state \<Rightarrow> bool" where
  "rows_kept U o' box st \<longleftrightarrow> (\<exists>new amb. os_hist (ak_box st) = os_hist box @ new \<and>
     (\<forall>h \<in> inserted ` set (of_rows (os_file box)) \<union> set new.
        h \<in> inserted ` set (of_rows (os_file (ak_box st))) \<or> acked U (ox_gatewayID o') (ak_seen st) (ob_message_id h)) \<and>
     of_nat (length (of_rows (os_file (ak_box st)))) + ap_acknowledged (ak_proc st) + of_nat amb =
       (of_nat (length (of_rows (os_file box)) + length new) :: 64 word) \<and>
     amb \<le> (1::nat) \<and> (amb = 1 \<longrightarrow> ap_fatalErr (ak_proc st) = Some ErrOutboxCommitUnknown))"

definition box_ok :: "uuid_pkg \<Rightarrow> Outbox \<Rightarrow> ack_state \<Rightarrow> bool" where
  "box_ok U o' st \<longleftrightarrow> state_inv U o' (ak_box st) \<and> of_version (os_file (ak_box st)) = outboxSchemaVersion"

text \<open>The worker's step, seen through the delete it makes.\<close>

lemma run_admission_cases:
  assumes "run_admission U env o' now p f lat = (p', f', lat')" and "ap_admissions p = a # q"
  obtains (ignored) "p' = p\<lparr>ap_admissions := q\<rparr>" "f' = f" "lat' = lat"
  | (deletes) ack res where "ParseCommitACK U (aa_topic a) (aa_payload a) (ap_gatewayID p) = Inr ack"
      "DeletePending U env o' (ap_gatewayID p) (ack_MessageID ack) f = (res, f')"
      "p' = (case res of
         Inr True \<Rightarrow> signalScheduler (p\<lparr>ap_admissions := q, ap_acknowledged := ap_acknowledged p + 1\<rparr>)
       | Inr False \<Rightarrow> p\<lparr>ap_admissions := q\<rparr>
       | Inl e \<Rightarrow> (setFatal_ack e (p\<lparr>ap_admissions := q, ap_deleteFailed := ap_deleteFailed p + 1\<rparr>))\<lparr>ap_finished := True\<rparr>)"
proof (cases "ParseCommitACK U (aa_topic a) (aa_payload a) (ap_gatewayID p)")
  case (Inl e)
  then show ?thesis using assms ignored by (auto simp: run_admission_def handleAdmission_def)
next
  case (Inr ack)
  obtain res f1 where D: "DeletePending U env o' (ap_gatewayID p) (ack_MessageID ack) f = (res, f1)" by fastforce
  show ?thesis
  proof (cases res)
    case (Inl e)
    then show ?thesis using assms Inr D deletes [of ack res] by (simp add: run_admission_def handleAdmission_def)
  next
    case (Inr b)
    then show ?thesis using assms \<open>ParseCommitACK _ _ _ _ = _\<close> D deletes [of ack res]
      by (cases b) (simp_all add: run_admission_def handleAdmission_def)
  qed
qed

lemma box_ok_step:
  assumes U: "uuid_text_ok U" "uuid_validate_ok U" and "ack_step U o' st st'" and "box_ok U o' st" and p: "proc_inv o' st"
  shows "box_ok U o' st'"
  using assms(3,4)
proof (cases rule: ack_step.cases)
  case (handles env now p' f' lat')
  then obtain a q where a: "ap_admissions (ak_proc st) = a # q" by (cases "ap_admissions (ak_proc st)") auto
  have inv: "state_inv U o' (ak_box st)" and v: "of_version (os_file (ak_box st)) = outboxSchemaVersion"
    using assms(4) by (simp_all add: box_ok_def)
  have g: "ap_gatewayID (ak_proc st) = ox_gatewayID o'" using p by (simp add: proc_inv_def Let_def)
  from handles(5) a show ?thesis
  proof (cases rule: run_admission_cases)
    case ignored
    then show ?thesis using handles(1) inv v by (simp add: box_ok_def)
  next
    case (deletes ack res)
    have "of_version f' = of_version (os_file (ak_box st))"
      using deletes(2) by (cases rule: DeletePending_cases) auto
    then show ?thesis using handles(1) DeletePending_inv [OF deletes(2) inv] v by (simp add: box_ok_def)
  qed
next
  case (enqueues env req res f')
  have "of_version f' = of_version (os_file (ak_box st))"
    using enqueues(3) unfolding Enqueue_def
    by (cases rule: in_tx_cases) (auto elim!: enqueue_tx_ok simp: enqueued_def)
  then show ?thesis
    using enqueues Enqueue_inv [OF U enqueues(3)] assms(4) by (simp add: box_ok_def)
qed (auto simp: box_ok_def)

lemma proc_inv_step:
  assumes "ack_step U o' st st'" and "proc_inv o' st"
  shows "proc_inv o' st'"
  using assms
proof (cases rule: ack_step.cases)
  case (handles env now p' f' lat')
  then obtain a q where a: "ap_admissions (ak_proc st) = a # q" by (cases "ap_admissions (ak_proc st)") auto
  have fatal: "ap_fatalErr (ak_proc st) = None" using assms(2) handles(3) by (auto simp: proc_inv_def Let_def)
  from handles(5) a show ?thesis
  proof (cases rule: run_admission_cases)
    case ignored
    then show ?thesis using handles(1) assms(2) a by (simp add: proc_inv_def Let_def)
  next
    case (deletes ack res)
    then show ?thesis
      using handles(1) assms(2) a fatal
      by (cases res) (auto simp: proc_inv_def Let_def signalScheduler_def setFatal_ack_def split: bool.splits)
  qed
qed (auto simp: proc_inv_def Let_def Start_ack_def Admit_ack_def run_stop_def Stop_begin_def)

lemma rows_kept_step:
  assumes step: "ack_step U o' st st'" and kept: "rows_kept U o' box st" and p: "proc_inv o' st" and b: "box_ok U o' st"
  shows "rows_kept U o' box st'"
  using step
proof (cases rule: ack_step.cases)
  case (handles env now p' f' lat')
  then obtain a q where a: "ap_admissions (ak_proc st) = a # q" by (cases "ap_admissions (ak_proc st)") auto
  have g: "ap_gatewayID (ak_proc st) = ox_gatewayID o'" and fatal: "ap_fatalErr (ak_proc st) = None"
    and seen: "(aa_topic a, aa_payload a, False) \<in> set (ak_seen st)"
    using p handles(3) a by (auto simp: proc_inv_def Let_def)
  obtain new amb0 where new: "os_hist (ak_box st) = os_hist box @ new"
      "\<And>h. h \<in> inserted ` set (of_rows (os_file box)) \<union> set new \<Longrightarrow>
        h \<in> inserted ` set (of_rows (os_file (ak_box st))) \<or> acked U (ox_gatewayID o') (ak_seen st) (ob_message_id h)"
      "of_nat (length (of_rows (os_file (ak_box st)))) + ap_acknowledged (ak_proc st) + of_nat amb0 =
       (of_nat (length (of_rows (os_file box)) + length new) :: 64 word)"
      "amb0 \<le> 1" "amb0 = 1 \<longrightarrow> ap_fatalErr (ak_proc st) = Some ErrOutboxCommitUnknown"
    using kept unfolding rows_kept_def by blast
  have amb0: "amb0 = 0" using new(4,5) fatal by (cases amb0) simp_all
  from handles(5) a show ?thesis
  proof (cases rule: run_admission_cases)
    case ignored
    then show ?thesis using handles(1) kept by (simp add: rows_kept_def)
  next
    case (deletes ack res)
    have "outbox_inv U (ox_gatewayID o') (ox_sensorID o') (os_file (ak_box st)) (os_hist (ak_box st))" using b by (simp add: box_ok_def)
    from DeletePending_effect [OF this deletes(2) [unfolded g]]
    obtain n where n: "length (of_rows (os_file (ak_box st))) = length (of_rows f') + n" "n \<le> 1"
        "\<And>r. r \<in> set (of_rows (os_file (ak_box st))) \<Longrightarrow> r \<in> set (of_rows f') \<or> ob_message_id r = uuid_String U (ack_MessageID ack)"
        "res = Inr True \<Longrightarrow> n = 1" "res = Inr False \<Longrightarrow> n = 0" "\<And>e. res = Inl e \<Longrightarrow> n = 1 \<Longrightarrow> e = ErrOutboxCommitUnknown"
      by metis
    have ack: "acked U (ox_gatewayID o') (ak_seen st) (uuid_String U (ack_MessageID ack))"
      using deletes(1) seen unfolding acked_def g by blast
    have all: "h \<in> inserted ` set (of_rows f') \<or> acked U (ox_gatewayID o') (ak_seen st) (ob_message_id h)"
      if "h \<in> inserted ` set (of_rows (os_file box)) \<union> set new" for h
      using new(2) [OF that] n(3) ack by fastforce
    have f': "os_file (ak_box st') = f'" "os_hist (ak_box st') = os_hist box @ new" "ak_seen st' = ak_seen st" "ak_proc st' = p'"
      using handles(1) new(1) by simp_all
    define amb where "amb = (case res of Inl e \<Rightarrow> n | Inr d \<Rightarrow> 0)"
    have "of_nat (length (of_rows f')) + ap_acknowledged p' + of_nat amb = (of_nat (length (of_rows (os_file box)) + length new) :: 64 word)"
      using new(3) n(1,4,5) deletes(3) unfolding amb_def amb0
      by (cases res) (auto simp: signalScheduler_def setFatal_ack_def Let_def algebra_simps split: bool.splits)
    moreover have "amb \<le> 1" "amb = 1 \<longrightarrow> ap_fatalErr p' = Some ErrOutboxCommitUnknown"
      using n(2,6) deletes(3) fatal unfolding amb_def by (cases res; simp add: setFatal_ack_def Let_def)+
    ultimately show ?thesis unfolding rows_kept_def f' using all by blast
  qed
next
  case (enqueues env req res f')
  obtain new amb where new: "os_hist (ak_box st) = os_hist box @ new"
      "\<And>h. h \<in> inserted ` set (of_rows (os_file box)) \<union> set new \<Longrightarrow>
        h \<in> inserted ` set (of_rows (os_file (ak_box st))) \<or> acked U (ox_gatewayID o') (ak_seen st) (ob_message_id h)"
      "of_nat (length (of_rows (os_file (ak_box st)))) + ap_acknowledged (ak_proc st) + of_nat amb =
       (of_nat (length (of_rows (os_file box)) + length new) :: 64 word)"
      "amb \<le> 1" "amb = 1 \<longrightarrow> ap_fatalErr (ak_proc st) = Some ErrOutboxCommitUnknown"
    using kept unfolding rows_kept_def by blast
  have "f' = os_file (ak_box st) \<or> (\<exists>r. of_rows f' = of_rows (os_file (ak_box st)) @ [r] \<and> inserted r = r)"
    using enqueues(3) unfolding Enqueue_def
    by (cases rule: in_tx_cases) (auto elim!: enqueue_tx_ok simp: enqueued_def inserted_def new_row_def)
  then show ?thesis
  proof
    assume "f' = os_file (ak_box st)"
    then show ?thesis using enqueues(1) kept by (simp add: rows_kept_def)
  next
    assume "\<exists>r. of_rows f' = of_rows (os_file (ak_box st)) @ [r] \<and> inserted r = r"
    then obtain r where r: "of_rows f' = of_rows (os_file (ak_box st)) @ [r]" "inserted r = r" by blast
    have "h \<in> inserted ` set (of_rows f') \<or> acked U (ox_gatewayID o') (ak_seen st) (ob_message_id h)"
      if "h \<in> inserted ` set (of_rows (os_file box)) \<union> set (new @ [r])" for h
      using new(2) [of h] that r by (auto simp: image_iff)
    moreover have "of_nat (length (of_rows f')) + ap_acknowledged (ak_proc st) + of_nat amb =
       (of_nat (length (of_rows (os_file box)) + length (new @ [r])) :: 64 word)"
      using new(3) r(1) by (simp add: algebra_simps)
    moreover have "os_hist (ak_box st') = os_hist box @ (new @ [r])" "os_file (ak_box st') = f'" "ak_seen st' = ak_seen st" "ak_proc st' = ak_proc st"
      using enqueues(1) new(1) r(1) by simp_all
    ultimately show ?thesis unfolding rows_kept_def using new(4,5) by metis
  qed
qed (use kept acked_mono in \<open>fastforce simp: rows_kept_def Start_ack_def Admit_ack_def run_stop_def Stop_begin_def\<close>)+

lemma ack_reach:
  assumes U: "uuid_text_ok U" "uuid_validate_ok U" and "akx.reach U o' box st"
  shows "box_ok U o' st \<and> proc_inv o' st \<and> rows_kept U o' box st"
  using assms(3)
proof (rule akx.invariant)
  fix st assume "ack_init U o' box st"
  then obtain cap where p: "Inr (ak_proc st) = NewACKProcessor (Some o') cap" and b: "ak_box st = box" "ak_seen st = []"
      "state_inv U o' box" "of_version (os_file box) = outboxSchemaVersion"
    unfolding ack_init_def by metis
  have "proc_inv o' st"
    using p b(2) by (auto simp: NewACKProcessor_def proc_inv_def Let_def maxACKAdmissionCapacity_def nat_le_iff split: if_splits)
  moreover have "ap_acknowledged (ak_proc st) = 0" using p by (auto simp: NewACKProcessor_def split: if_splits)
  then have "rows_kept U o' box st" unfolding rows_kept_def by (intro exI [of _ "[]"] exI [of _ 0]) (simp add: b)
  ultimately show "box_ok U o' st \<and> proc_inv o' st \<and> rows_kept U o' box st" using b by (simp add: box_ok_def)
qed (use box_ok_step [OF U] proc_inv_step rows_kept_step in blast)

section \<open>A run\<close>

definition fx_reply :: CommitACK where
  "fx_reply = \<lparr>ack_ProtocolVersion = 1, ack_MessageType = ''telemetry_ack'', ack_MessageID = fx_mid,
     ack_Status = ''committed'', ack_CommittedAt = fx_start\<rparr>"

definition fx_box :: outbox_state where
  "fx_box = \<lparr>os_file = fx_file, os_hist = of_rows fx_file\<rparr>"

definition fx_proc :: ACKProcessor where
  "fx_proc = \<lparr>ap_gatewayID = ''gw1'', ap_capacity = 4, ap_admissions = [], ap_notify = False, ap_done = False,
     ap_finished = False, ap_fatalCh = False, ap_started = False, ap_fatalErr = None, ap_admitted = 0,
     ap_acknowledged = 0, ap_droppedRetained = 0, ap_droppedOversize = 0, ap_droppedFull = 0, ap_deleteFailed = 0\<rparr>"

definition fx_replied :: ack_state where
  "fx_replied =
     \<lparr>ak_proc = fx_proc\<lparr>ap_started := True, ap_notify := True, ap_admitted := 1, ap_acknowledged := 1\<rparr>,
      ak_box = fx_box\<lparr>os_file := fx_file\<lparr>of_rows := []\<rparr>\<rparr>, ak_lat = None,
      ak_seen = [(ack_topic canonical_uuid ''gw1'' fx_mid, marshalACK canonical_uuid fx_reply, False)]\<rparr>"

lemma fx_reply_id: "ack_MessageID fx_reply = fx_mid"
  by (simp add: fx_reply_def)

lemma fx_reply_parses: "ParseCommitACK canonical_uuid (ack_topic canonical_uuid ''gw1'' fx_mid) (marshalACK canonical_uuid fx_reply) ''gw1'' = Inr fx_reply"
proof (rule ack_agreement [OF canonical_text_ok])
  show "NewCommitACK canonical_uuid ''gw1'' fx_mid CommitOutcomeCommitted fx_start = Inr (ack_topic canonical_uuid ''gw1'' fx_mid, fx_reply)"
    using fx_ids(1) fx_names(1)
    by (auto simp: NewCommitACK_def valid_message_id_def fx_reply_def fx_start_def endOfYear9999_def nsPerDay_def)
qed

lemma fx_file_rows: "\<exists>r. of_rows fx_file = [r] \<and> selected canonical_uuid ''gw1'' fx_mid r" "of_version fx_file = 1"
proof -
  obtain item where E: "enqueue_tx canonical_uuid fx_sql fx_outbox fx_enqueue fx_schema = Inr (item, fx_file)"
    using fx_enqueue_tx fx_sql_healthy unfolding fx_file_def Enqueue_def by fastforce
  then obtain n built i where f: "fx_file = enqueued (new_row canonical_uuid fx_sql fx_outbox fx_enqueue n built i) fx_schema"
    by (elim enqueue_tx_ok) metis
  show "\<exists>r. of_rows fx_file = [r] \<and> selected canonical_uuid ''gw1'' fx_mid r" "of_version fx_file = 1"
    by (simp_all add: f enqueued_def fx_schema_def selected_def new_row_def fx_outbox_def fx_enqueue_def)
qed

lemma fx_ack_run: "akx.reach canonical_uuid fx_outbox fx_box fx_replied"
proof -
  let ?t = "ack_topic canonical_uuid ''gw1'' fx_mid" and ?p = "marshalACK canonical_uuid fx_reply"
  let ?s0 = "\<lparr>ak_proc = fx_proc, ak_box = fx_box, ak_lat = None, ak_seen = []\<rparr>"
  let ?s1 = "?s0\<lparr>ak_proc := fx_proc\<lparr>ap_started := True\<rparr>\<rparr>"
  let ?s2 = "?s1\<lparr>ak_proc := fx_proc\<lparr>ap_started := True, ap_admissions := [\<lparr>aa_topic = ?t, aa_payload = ?p\<rparr>], ap_admitted := 1\<rparr>, ak_seen := [(?t, ?p, False)]\<rparr>"
  have "state_inv canonical_uuid fx_outbox fx_box"
    using outbox_reach_inv [OF canonical_text_ok canonical_validate_ok fx_outbox_run] by (simp add: fx_box_def)
  moreover have "NewACKProcessor (Some fx_outbox) 4 = Inr fx_proc"
    by (simp add: NewACKProcessor_def minACKAdmissionCapacity_def maxACKAdmissionCapacity_def fx_proc_def fx_outbox_def)
  ultimately have "akx.reach canonical_uuid fx_outbox fx_box ?s0"
    using fx_file_rows(2) by (intro akx.reach_init) (auto simp: ack_init_def fx_box_def outboxSchemaVersion_def)
  moreover have "ack_step canonical_uuid fx_outbox ?s0 ?s1"
    using ack_step.starts [of canonical_uuid fx_outbox ?s0] by (simp add: Start_ack_def fx_proc_def)
  moreover have "ack_step canonical_uuid fx_outbox ?s1 ?s2"
    using ack_step.delivers [of canonical_uuid fx_outbox ?s1 ?t ?p False] ParseCommitACK_ok(4) [OF fx_reply_parses]
    by (simp add: Admit_ack_def fx_proc_def)
  moreover have "ack_step canonical_uuid fx_outbox ?s2 fx_replied"
  proof -
    have "DeletePending canonical_uuid fx_sql fx_outbox ''gw1'' fx_mid fx_file = (Inr True, fx_file\<lparr>of_rows := []\<rparr>)"
      using fx_file_rows(1) fx_sql_healthy by (auto simp: DeletePending_def fx_outbox_def)
    then have "run_admission canonical_uuid fx_sql fx_outbox 0 (ak_proc ?s2) (os_file (ak_box ?s2)) (ak_lat ?s2) =
        (fx_proc\<lparr>ap_started := True, ap_notify := True, ap_admitted := 1, ap_acknowledged := 1\<rparr>, fx_file\<lparr>of_rows := []\<rparr>, None)"
      using fx_reply_parses
      by (simp add: run_admission_def handleAdmission_def fx_proc_def fx_box_def signalScheduler_def fx_reply_id)
    then show ?thesis
      using ack_step.handles [of ?s2 canonical_uuid fx_sql fx_outbox 0] by (simp add: fx_proc_def fx_replied_def)
  qed
  ultimately show ?thesis by (meson akx.reach_step)
qed

section \<open>Properties\<close>

text \<open>C19. A row leaves the outbox only for its acknowledgement. In every state of a running process,
  whatever the broker delivers and however SQLite fails, each row the process found or enqueued is
  still in the file with its bytes, or the broker delivered, not retained, a payload that parses as a
  commit acknowledgement on this Gateway's own topic for exactly that message.\<close>

theorem ack_removes_only_acknowledged:
  assumes "uuid_text_ok U" and "uuid_validate_ok U" and "akx.reach U o' box st"
  shows "\<forall>h \<in> inserted ` set (of_rows (os_file box)) \<union> set (drop (length (os_hist box)) (os_hist (ak_box st))).
    (\<exists>r \<in> set (of_rows (os_file (ak_box st))). inserted r = h) \<or>
    (\<exists>topic payload ack. (topic, payload, False) \<in> set (ak_seen st) \<and>
       ParseCommitACK U topic payload (ox_gatewayID o') = Inr ack \<and>
       topic = ack_topic U (ox_gatewayID o') (ack_MessageID ack) \<and> ob_message_id h = uuid_String U (ack_MessageID ack))"
proof -
  obtain new amb where new: "os_hist (ak_box st) = os_hist box @ new"
      "\<forall>h \<in> inserted ` set (of_rows (os_file box)) \<union> set new.
        h \<in> inserted ` set (of_rows (os_file (ak_box st))) \<or> acked U (ox_gatewayID o') (ak_seen st) (ob_message_id h)"
    using ack_reach [OF assms] unfolding rows_kept_def by blast
  moreover have "\<exists>topic payload ack. (topic, payload, False) \<in> set (ak_seen st) \<and>
       ParseCommitACK U topic payload (ox_gatewayID o') = Inr ack \<and>
       topic = ack_topic U (ox_gatewayID o') (ack_MessageID ack) \<and> mid = uuid_String U (ack_MessageID ack)"
    if "acked U (ox_gatewayID o') (ak_seen st) mid" for mid
    using that ParseCommitACK_ok(1) unfolding acked_def by metis
  ultimately show ?thesis by (simp add: image_iff) metis
qed

theorem ack_removes_only_acknowledged_witness:
  "\<exists>topic payload ack. (topic, payload, False) \<in> set (ak_seen fx_replied) \<and>
     ParseCommitACK canonical_uuid topic payload ''gw1'' = Inr ack \<and> canonical_String fx_mid = uuid_String canonical_uuid (ack_MessageID ack)"
proof -
  obtain r where r: "of_rows fx_file = [r]" "selected canonical_uuid ''gw1'' fx_mid r" using fx_file_rows by blast
  have "of_rows (os_file (ak_box fx_replied)) = []" by (simp add: fx_replied_def)
  then show ?thesis
    using ack_removes_only_acknowledged [OF canonical_text_ok canonical_validate_ok fx_ack_run] r
    by (fastforce simp: fx_box_def fx_outbox_def selected_def canonical_uuid_def)
qed

text \<open>The acknowledgement path is bounded and its counters are exact. The queue never exceeds its
  capacity, at most 4096; every delivery was admitted or counted under the one reason it was dropped
  for; the number of acknowledged messages is the number of rows that left the file, except for one
  row after an ambiguous commit, which stops the worker and is reported as fatal instead.\<close>

theorem ack_counters_exact:
  assumes "uuid_text_ok U" and "uuid_validate_ok U" and "akx.reach U o' box st"
  defines "p \<equiv> ak_proc st"
  defines "s \<equiv> Stats_ack p"
  shows "length (ap_admissions p) \<le> ap_capacity p \<and> ap_capacity p \<le> 4096 \<and>
    of_nat (length (ak_seen st)) = as_Admitted s + as_DroppedRetained s + as_DroppedOversize s + as_DroppedFull s \<and>
    (Fatal_ack p \<noteq> None \<longrightarrow> ap_finished p \<and> ap_fatalCh p) \<and> as_DeleteFailed s = (if Fatal_ack p = None then 0 else 1) \<and>
    (\<exists>amb \<in> {0, 1}. of_nat (length (of_rows (os_file (ak_box st)))) + as_Acknowledged s + amb =
       of_nat (length (of_rows (os_file box)) + (length (os_hist (ak_box st)) - length (os_hist box))) \<and>
       (amb = 1 \<longrightarrow> Fatal_ack p = Some ErrOutboxCommitUnknown))"
proof -
  obtain new amb where new: "os_hist (ak_box st) = os_hist box @ new"
      "of_nat (length (of_rows (os_file (ak_box st)))) + ap_acknowledged (ak_proc st) + of_nat amb =
       (of_nat (length (of_rows (os_file box)) + length new) :: 64 word)"
      "amb \<le> (1::nat)" "amb = 1 \<longrightarrow> ap_fatalErr (ak_proc st) = Some ErrOutboxCommitUnknown"
    using ack_reach [OF assms(1-3)] unfolding rows_kept_def by blast
  have "of_nat amb \<in> {0, 1 :: 64 word}" "of_nat amb = (1 :: 64 word) \<longrightarrow> amb = 1" using new(3) by (cases amb; simp)+
  then have "\<exists>amb \<in> {0, 1}. of_nat (length (of_rows (os_file (ak_box st)))) + as_Acknowledged s + amb =
       of_nat (length (of_rows (os_file box)) + (length (os_hist (ak_box st)) - length (os_hist box))) \<and>
       (amb = 1 \<longrightarrow> Fatal_ack p = Some ErrOutboxCommitUnknown)"
    using new by (intro bexI [of _ "of_nat amb"]) (auto simp: s_def p_def Stats_ack_def Fatal_ack_def)
  moreover have "proc_inv o' st" using ack_reach [OF assms(1-3)] by blast
  ultimately show ?thesis by (auto simp: proc_inv_def Let_def s_def p_def Stats_ack_def Fatal_ack_def)
qed

theorem ack_counters_exact_witness:
  "as_Acknowledged (Stats_ack (ak_proc fx_replied)) = 1 \<and> as_Admitted (Stats_ack (ak_proc fx_replied)) = of_nat (length (ak_seen fx_replied))"
  using ack_counters_exact [OF canonical_text_ok canonical_validate_ok fx_ack_run]
  by (simp add: fx_replied_def Stats_ack_def fx_proc_def)

text \<open>A delivery after \<open>Stop\<close> is still queued and counted as admitted.\<close>

lemma late_delivery_admitted:
  "as_Admitted (Stats_ack (Admit_ack topic [] False (run_stop (Stop_begin (Start_ack fx_proc))))) = 1"
  by (simp add: Stats_ack_def Admit_ack_def run_stop_def Stop_begin_def Start_ack_def fx_proc_def maxACKBytes_def)

end
