(* ===== verification/Scheduler.thy ===== *)
theory Scheduler
  imports AckProcessor
begin

text \<open>
  The simulator's scheduler (\<open>gatewaysim/scheduler.go\<close>): generation, replay of durable rows, the bounded
  in-flight set, retries, completion and the shutdown drain. The in-flight map is an association
  list with distinct keys; a loop over the map takes its iteration order as an argument. A pass of
  the loop reads clocks, random numbers, UUIDs and the outbox; \<open>sched_env\<close> holds what those calls
  answer, indexed by the entry or page they belong to, so that every read may see its own state of
  the outbox and fail on its own. A publish goroutine is a \<open>publishCall\<close> of \<open>sd_running\<close> until its
  result is in the channel. The latency recorder is an interface; the calls
  made on it are listed in \<open>sd_recorded\<close>.
\<close>

section \<open>State\<close>

datatype entry_state = statePublishing | stateAwaitAck | stateBackoff

definition maxAdmissionPages :: nat where "maxAdmissionPages = 4"
definition parkDuration :: duration where "parkDuration = 24 * 3600 * nsPerSecond"
definition defaultShutdownTimeout :: duration where "defaultShutdownTimeout = 10 * nsPerSecond"

record inflightEntry =
  ie_item :: Item
  ie_state :: entry_state
  ie_retries :: nat
  ie_nextAt :: time

record publishResult =
  pu_messageID :: uuid
  pu_err :: "string option"

record publishCall =
  pc_id :: uuid
  pc_topic :: string
  pc_payload :: string
  pc_called :: bool

record SchedulerStats =
  st_UniqueEnqueued :: "64 word"
  st_PublishAttempts :: "64 word"
  st_AppAcknowledged :: "64 word"
  st_PendingRows :: int
  st_PendingBytes :: int
  st_Inflight :: nat
  st_GenerationPaused :: bool
  st_Completed :: bool

text \<open>The values of the simulator's \<open>Config\<close> the scheduler reads.\<close>

record Config =
  cf_GatewayID :: string
  cf_SensorID :: string
  cf_SamplesPerBatch :: int
  cf_SampleIntervalUS :: int
  cf_BatchSpan :: duration
  cf_AckTimeout :: duration
  cf_RetryMinDelay :: duration
  cf_RetryMaxDelay :: duration
  cf_MaxInflight :: int
  cf_OutboxMaxRows :: int
  cf_ShutdownTimeout :: duration

text \<open>Interfaces are nil or not; so is the channel the acknowledgement observer exposes.\<close>

record SchedulerOptions =
  so_Outbox :: "Outbox option"
  so_Publisher :: bool
  so_Ack :: bool
  so_AckNotify :: bool
  so_Config :: Config
  so_FiniteBatch :: int
  so_CompletionBudget :: duration
  so_Latency :: bool

record schedulerConfig =
  sg_gatewayID :: string
  sg_sensorID :: string
  sg_samplesPerBatch :: int
  sg_sampleIntervalUS :: int
  sg_batchSpan :: duration
  sg_maxInflight :: int
  sg_ackTimeout :: duration
  sg_retryMin :: duration
  sg_retryMax :: duration
  sg_shutdownTimeout :: duration

record Scheduler =
  sd_cfg :: schedulerConfig
  sd_out :: Outbox
  sd_bootID :: uuid
  sd_latency :: bool
  sd_recorded :: "latency_event list"
  sd_finiteTarget :: int
  sd_completionBudget :: duration
  sd_started :: bool
  sd_done :: bool
  sd_shutdownDeadline :: time
  sd_timer :: duration
  sd_inflight :: "(uuid \<times> inflightEntry) list"
  sd_inflightCount :: nat
  sd_running :: "publishCall list"
  sd_pubResults :: "publishResult list"
  sd_nextGenAt :: time
  sd_genDone :: bool
  sd_genReady :: bool
  sd_readyObserved :: bool
  sd_completionDeadline :: time
  sd_generationPaused :: bool
  sd_completed :: bool
  sd_uniqueEnqueued :: "64 word"
  sd_publishAttempts :: "64 word"
  sd_fatalErr :: "sim_error option"
  sd_fatalCh :: bool

section \<open>Construction\<close>

definition schedulerConfig_of :: "Config \<Rightarrow> schedulerConfig" where
  "schedulerConfig_of cfg =
     \<lparr>sg_gatewayID = cf_GatewayID cfg, sg_sensorID = cf_SensorID cfg, sg_samplesPerBatch = cf_SamplesPerBatch cfg,
      sg_sampleIntervalUS = cf_SampleIntervalUS cfg, sg_batchSpan = cf_BatchSpan cfg, sg_maxInflight = cf_MaxInflight cfg,
      sg_ackTimeout = cf_AckTimeout cfg, sg_retryMin = cf_RetryMinDelay cfg, sg_retryMax = cf_RetryMaxDelay cfg,
      sg_shutdownTimeout = cf_ShutdownTimeout cfg\<rparr>"

definition NewScheduler :: "uuid_pkg \<Rightarrow> SchedulerOptions \<Rightarrow> (sim_error + uuid) \<Rightarrow> sim_error + Scheduler" where
  "NewScheduler U opts newUUID =
     res_bind (ok_or (so_Outbox opts) (SimMessage ''gatewaysim: scheduler requires an outbox'')) (\<lambda>out.
     res_bind (reject_if (\<not> so_Publisher opts) (SimMessage ''gatewaysim: scheduler requires a publisher'')) (\<lambda>_.
     res_bind (reject_if (\<not> so_Ack opts) (SimMessage ''gatewaysim: scheduler requires an ACK observer'')) (\<lambda>_.
     let cfg = so_Config opts in
     res_bind (reject_if (cf_GatewayID cfg = [] \<or> cf_SensorID cfg = [])
       (SimMessage ''gatewaysim: scheduler requires a gateway and sensor identity'')) (\<lambda>_.
     res_bind (reject_if (cf_SamplesPerBatch cfg < 1 \<or> cf_SampleIntervalUS cfg \<le> 0 \<or> cf_BatchSpan cfg < 0)
       (SimMessage ''gatewaysim: scheduler requires a valid sample profile'')) (\<lambda>_.
     res_bind (reject_if (cf_MaxInflight cfg < 1 \<or> cf_OutboxMaxRows cfg < cf_MaxInflight cfg)
       (SimMessage ''gatewaysim: scheduler max in-flight must be between 1 and the outbox row cap'')) (\<lambda>_.
     res_bind (reject_if (cf_AckTimeout cfg \<le> 0) (SimMessage ''gatewaysim: scheduler requires a positive ACK timeout'')) (\<lambda>_.
     res_bind (reject_if (cf_RetryMinDelay cfg \<le> 0 \<or> cf_RetryMaxDelay cfg < cf_RetryMinDelay cfg)
       (SimMessage ''gatewaysim: scheduler requires 0 < retry min <= retry max'')) (\<lambda>_.
     res_bind (reject_if (so_FiniteBatch opts < 0)
       (SimMessage ''gatewaysim: scheduler finite batch count must not be negative'')) (\<lambda>_.
     res_bind (reject_if (0 < so_FiniteBatch opts \<and> so_CompletionBudget opts \<le> 0)
       (SimMessage ''gatewaysim: scheduler finite run requires a positive completion budget'')) (\<lambda>_.
     res_bind (reject_if (\<not> so_AckNotify opts)
       (SimMessage ''gatewaysim: scheduler ACK observer must expose a notify channel'')) (\<lambda>_.
     res_bind newUUID (\<lambda>bootID.
     res_bind (reject_if (bootID = uuid_Nil \<or> \<not> uuid_RFC4122 U bootID)
       (SimMessage ''gatewaysim: generated boot id is invalid'')) (\<lambda>_.
     Inr \<lparr>sd_cfg = schedulerConfig_of cfg, sd_out = out, sd_bootID = bootID, sd_latency = so_Latency opts, sd_recorded = [],
          sd_finiteTarget = so_FiniteBatch opts, sd_completionBudget = so_CompletionBudget opts, sd_started = False,
          sd_done = False, sd_shutdownDeadline = 0, sd_timer = 0, sd_inflight = [], sd_inflightCount = 0, sd_running = [],
          sd_pubResults = [], sd_nextGenAt = 0, sd_genDone = False, sd_genReady = False, sd_readyObserved = False,
          sd_completionDeadline = 0, sd_generationPaused = False, sd_completed = False, sd_uniqueEnqueued = 0,
          sd_publishAttempts = 0, sd_fatalErr = None, sd_fatalCh = False\<rparr>)))))))))))))"

definition cadence :: "Scheduler \<Rightarrow> duration" where
  "cadence s = i64 (i64 (sg_sampleIntervalUS (sd_cfg s) * 1000) * sg_samplesPerBatch (sd_cfg s))"

text \<open>A call on the latency recorder, when there is one.\<close>

definition recorder :: "latency_event \<Rightarrow> Scheduler \<Rightarrow> Scheduler" where
  "recorder e s = (if sd_latency s then s\<lparr>sd_recorded := sd_recorded s @ [e]\<rparr> else s)"

text \<open>\<open>Run\<close> up to its loop.\<close>

definition Run_begin :: "time \<Rightarrow> Scheduler \<Rightarrow> sim_error + Scheduler" where
  "Run_begin now s =
     (if sd_started s then Inl (SimMessage ''gatewaysim: scheduler already started'')
      else Inr ((recorder RunStart (s\<lparr>sd_started := True\<rparr>))\<lparr>sd_timer := parkDuration, sd_nextGenAt := now\<rparr>))"

definition BeginShutdown :: "time \<Rightarrow> Scheduler \<Rightarrow> Scheduler" where
  "BeginShutdown deadline s =
     (if time_IsZero deadline then s
      else if time_IsZero (sd_shutdownDeadline s) \<or> deadline < sd_shutdownDeadline s then s\<lparr>sd_shutdownDeadline := deadline\<rparr>
      else s)"

section \<open>Retry delay\<close>

definition f64_mul :: "rat \<Rightarrow> rat \<Rightarrow> rat" where "f64_mul a b = f64 (a * b)"

text \<open>The doubling loop; \<open>d *= 2\<close> wraps.\<close>

fun retry_base :: "duration \<Rightarrow> nat \<Rightarrow> duration \<Rightarrow> duration" where
  "retry_base mx 0 d = d"
| "retry_base mx (Suc n) d =
     (if mx \<le> d then d else (let d2 = i64 (d * 2) in retry_base mx n (if mx < d2 then mx else d2)))"

text \<open>
  \<open>1 + (randFloat()*2-1)*0.2\<close>. The constant is the double nearest to 0.2; the product with 2 is exact.
  \<open>time.Duration(x)\<close> of a float truncates.
\<close>

definition retry_factor :: "rat \<Rightarrow> rat" where
  "retry_factor r = f64_add 1 (f64_mul (f64_add (f64_mul r 2) (-1)) (f64 (1/5)))"

definition truncate_int :: "rat \<Rightarrow> int" where
  "truncate_int x = (if x < 0 then - \<lfloor>- x\<rfloor> else \<lfloor>x\<rfloor>)"

definition retryDelay :: "duration \<Rightarrow> duration \<Rightarrow> nat \<Rightarrow> rat \<Rightarrow> duration" where
  "retryDelay mn mx retries rnd =
     (let mn = (if mn \<le> 0 then 1000000 else mn);
          mx = (if mx < mn then mn else mx);
          d = retry_base mx retries mn;
          out = truncate_int (f64_mul (float64_of_int d) (retry_factor rnd));
          out = (if mx < out then mx else out)
      in if out < 0 then 0 else out)"

section \<open>Entries\<close>

text \<open>What the calls of one pass answer.\<close>

record sched_env =
  se_ready :: bool
  se_now :: time
  se_order :: "uuid list"
  se_lookup :: "uuid \<Rightarrow> sql_env \<times> outbox_file"
  se_clock :: "uuid \<Rightarrow> time"
  se_rand :: "uuid \<Rightarrow> rat"
  se_page :: "nat \<Rightarrow> sql_env \<times> outbox_file"
  se_newUUID :: "sim_error + uuid"
  se_enqueue :: sql_env
  se_genClock :: time

definition entry_set :: "uuid \<Rightarrow> inflightEntry \<Rightarrow> Scheduler \<Rightarrow> Scheduler" where
  "entry_set i e s = s\<lparr>sd_inflight := AList.update i e (sd_inflight s)\<rparr>"

definition entry_delete :: "uuid \<Rightarrow> Scheduler \<Rightarrow> Scheduler" where
  "entry_delete i s = s\<lparr>sd_inflight := AList.delete i (sd_inflight s)\<rparr>"

text \<open>
  \<open>startPublish\<close> and the two ends of its goroutine: the call of \<open>Publish\<close> after registering it with the
  recorder, and its return, whose result is sent to the loop or, once the context is done, dropped.
\<close>

definition startPublish :: "uuid \<Rightarrow> inflightEntry \<Rightarrow> Scheduler \<Rightarrow> Scheduler" where
  "startPublish i e s =
     (entry_set i (e\<lparr>ie_state := statePublishing\<rparr>) s)
       \<lparr>sd_publishAttempts := sd_publishAttempts s + 1,
        sd_running := sd_running s @
          [\<lparr>pc_id = im_MessageID (ie_item e), pc_topic = im_Topic (ie_item e), pc_payload = im_Payload (ie_item e),
            pc_called = False\<rparr>]\<rparr>"

definition publish_call :: "nat \<Rightarrow> Scheduler \<Rightarrow> Scheduler" where
  "publish_call k s =
     recorder (FirstPublish (pc_id (sd_running s ! k)))
       (s\<lparr>sd_running := (sd_running s)[k := (sd_running s ! k)\<lparr>pc_called := True\<rparr>]\<rparr>)"

definition publish_return :: "nat \<Rightarrow> string option \<Rightarrow> bool \<Rightarrow> Scheduler \<Rightarrow> Scheduler" where
  "publish_return k err dropped s =
     (let s1 = s\<lparr>sd_running := take k (sd_running s) @ drop (Suc k) (sd_running s)\<rparr> in
      if dropped then s1
      else s1\<lparr>sd_pubResults := sd_pubResults s @ [\<lparr>pu_messageID = pc_id (sd_running s ! k), pu_err = err\<rparr>]\<rparr>)"

definition scheduleBackoff :: "time \<Rightarrow> rat \<Rightarrow> uuid \<Rightarrow> inflightEntry \<Rightarrow> Scheduler \<Rightarrow> Scheduler" where
  "scheduleBackoff now rnd i e s =
     entry_set i (e\<lparr>ie_state := stateBackoff,
       ie_nextAt := now + retryDelay (sg_retryMin (sd_cfg s)) (sg_retryMax (sd_cfg s)) (ie_retries e) rnd,
       ie_retries := ie_retries e + 1\<rparr>) s"

definition admit :: "Item \<Rightarrow> Scheduler \<Rightarrow> Scheduler" where
  "admit item s =
     startPublish (im_MessageID item) \<lparr>ie_item = item, ie_state = statePublishing, ie_retries = 0, ie_nextAt = 0\<rparr> s"

definition onPublishResult :: "time \<Rightarrow> rat \<Rightarrow> publishResult \<Rightarrow> Scheduler \<Rightarrow> Scheduler" where
  "onPublishResult now rnd res s =
     (case map_of (sd_inflight s) (pu_messageID res) of
        None \<Rightarrow> s
      | Some e \<Rightarrow>
          if ie_state e \<noteq> statePublishing then s
          else if pu_err res \<noteq> None then scheduleBackoff now rnd (pu_messageID res) e s
          else entry_set (pu_messageID res) (e\<lparr>ie_state := stateAwaitAck, ie_nextAt := now + sg_ackTimeout (sd_cfg s)\<rparr>) s)"

definition rowStillPending :: "uuid_pkg \<Rightarrow> sql_env \<Rightarrow> Outbox \<Rightarrow> outbox_file \<Rightarrow> uuid \<Rightarrow> sim_error + bool" where
  "rowStillPending U env o' f i =
     res_bind (Lookup U env o' i f) (\<lambda>found.
     Inr (case found of None \<Rightarrow> False | Some item \<Rightarrow> im_Status item = outboxStatusPending))"

fun processDueRetries :: "uuid_pkg \<Rightarrow> sched_env \<Rightarrow> uuid list \<Rightarrow> Scheduler \<Rightarrow> sim_error option \<times> Scheduler" where
  "processDueRetries U se [] s = (None, s)"
| "processDueRetries U se (i # order) s =
     (case map_of (sd_inflight s) i of
        None \<Rightarrow> processDueRetries U se order s
      | Some e \<Rightarrow>
          if ie_state e = statePublishing \<or> se_now se < ie_nextAt e then processDueRetries U se order s
          else if ie_state e = stateAwaitAck then
            (case rowStillPending U (fst (se_lookup se i)) (sd_out s) (snd (se_lookup se i)) (im_MessageID (ie_item e)) of
               Inl err \<Rightarrow> (Some ErrSchedulerLookup, s)
             | Inr False \<Rightarrow> processDueRetries U se order (entry_delete i s)
             | Inr True \<Rightarrow> processDueRetries U se order (scheduleBackoff (se_clock se i) (se_rand se i) i e s))
          else processDueRetries U se order (startPublish i e s))"

section \<open>Admission and generation\<close>

text \<open>The inner loop of \<open>admitPending\<close> over one page: whether it returned early, the free slots left, the state.\<close>

fun admit_items :: "Item list \<Rightarrow> int \<Rightarrow> Scheduler \<Rightarrow> bool \<times> int \<times> Scheduler" where
  "admit_items [] free s = (False, free, s)"
| "admit_items (it # items) free s =
     (if free \<le> 0 then (True, free, s)
      else if map_of (sd_inflight s) (im_MessageID it) \<noteq> None then admit_items items free s
      else admit_items items (free - 1) (admit it s))"

fun admit_pages :: "uuid_pkg \<Rightarrow> sched_env \<Rightarrow> nat \<Rightarrow> nat \<Rightarrow> int \<Rightarrow> int \<Rightarrow> Scheduler \<Rightarrow> (sim_error + bool) \<times> Scheduler" where
  "admit_pages U se page 0 cursor free s = (Inr (0 < free), s)"
| "admit_pages U se page (Suc n) cursor free s =
     (if free \<le> 0 then (Inr False, s)
      else
        (case PendingAfter U (fst (se_page se page)) (sd_out s) cursor (sg_maxInflight (sd_cfg s)) (snd (se_page se page)) of
           Inl e \<Rightarrow> (Inl ErrSchedulerPending, s)
         | Inr items \<Rightarrow>
             if items = [] then (Inr False, s)
             else
               (case admit_items items free s of
                  (returned, free', s') \<Rightarrow>
                    if returned \<or> int (length items) < sg_maxInflight (sd_cfg s) then (Inr False, s')
                    else admit_pages U se (page + 1) n (im_ID (last items)) free' s')))"

definition admitPending :: "uuid_pkg \<Rightarrow> sched_env \<Rightarrow> Scheduler \<Rightarrow> (sim_error + bool) \<times> Scheduler" where
  "admitPending U se s =
     (let free = sg_maxInflight (sd_cfg s) - int (length (sd_inflight s)) in
      if free \<le> 0 then (Inr False, s) else admit_pages U se 0 maxAdmissionPages 0 free s)"

definition generate_request :: "time \<Rightarrow> uuid \<Rightarrow> Scheduler \<Rightarrow> EnqueueRequest" where
  "generate_request now msgID s =
     \<lparr>er_BootID = sd_bootID s, er_MessageID = msgID,
      er_MeasuredAt = (now - sg_batchSpan (sd_cfg s)) div 1000 * 1000, er_ReceivedAt = now,
      er_SampleCount = i32 (sg_samplesPerBatch (sd_cfg s)), er_SampleIntervalUS = sg_sampleIntervalUS (sd_cfg s)\<rparr>"

text \<open>\<open>generate\<close> after a committed enqueue.\<close>

definition generated :: "time \<Rightarrow> Item \<Rightarrow> Scheduler \<Rightarrow> Scheduler" where
  "generated genClock item s =
     (let s2 = s\<lparr>sd_uniqueEnqueued := sd_uniqueEnqueued s + 1\<rparr>;
          s3 = (if sd_uniqueEnqueued s2 = 1 then recorder GenerationStart s2 else s2);
          s4 = admit item s3 in
      if 0 < sd_finiteTarget s4 \<and> \<not> sd_genDone s4 \<and> sd_finiteTarget s4 \<le> sint (sd_uniqueEnqueued s4)
      then (recorder GenerationEnd (s4\<lparr>sd_genDone := True\<rparr>))\<lparr>sd_completionDeadline := genClock + sd_completionBudget s4\<rparr>
      else s4)"

definition generate :: "uuid_pkg \<Rightarrow> sched_env \<Rightarrow> Scheduler \<Rightarrow> outbox_file \<Rightarrow> sim_error option \<times> Scheduler \<times> outbox_file" where
  "generate U se s f =
     (let s1 = s\<lparr>sd_nextGenAt := se_now se + cadence s\<rparr> in
      case se_newUUID se of
        Inl e \<Rightarrow> (Some ErrSchedulerFatal, s1, f)
      | Inr msgID \<Rightarrow>
          (case Enqueue U (se_enqueue se) (sd_out s1) (generate_request (se_now se) msgID s1) f of
             (Inl e, f') \<Rightarrow>
               if e = ErrOutboxFull then (None, s1\<lparr>sd_generationPaused := True\<rparr>, f')
               else if e = ErrOutboxCommitUnknown then (Some ErrSchedulerCommitUnknown, s1, f')
               else (Some ErrSchedulerEnqueue, s1, f')
           | (Inr item, f') \<Rightarrow> (None, generated (se_genClock se) item s1, f')))"

text \<open>\<open>reconcile\<close>, with its deferred bookkeeping.\<close>

definition reconcile_body :: "uuid_pkg \<Rightarrow> sched_env \<Rightarrow> Scheduler \<Rightarrow> outbox_file \<Rightarrow> sim_error option \<times> Scheduler \<times> outbox_file" where
  "reconcile_body U se s f =
     (if \<not> se_ready se then (None, s\<lparr>sd_genReady := False\<rparr>, f)
      else
        (case processDueRetries U se (se_order se) s of
           (Some e, s1) \<Rightarrow> (Some e, s1, f)
         | (None, s1) \<Rightarrow>
             (case admitPending U se s1 of
                (Inl e, s2) \<Rightarrow> (Some e, s2, f)
              | (Inr more_rows, s2) \<Rightarrow>
                  (let free = sg_maxInflight (sd_cfg s2) - int (length (sd_inflight s2));
                       genReady = (\<not> sd_genDone s2 \<and> \<not> sd_generationPaused s2 \<and> 0 < free \<and> \<not> more_rows);
                       s3 = s2\<lparr>sd_genReady := genReady\<rparr> in
                   if genReady \<and> \<not> se_now se < sd_nextGenAt s3 then generate U se s3 f else (None, s3, f)))))"

definition reconcile :: "uuid_pkg \<Rightarrow> sched_env \<Rightarrow> Scheduler \<Rightarrow> outbox_file \<Rightarrow> sim_error option \<times> Scheduler \<times> outbox_file" where
  "reconcile U se s f =
     (case reconcile_body U se s f of
        (err, s', f') \<Rightarrow> (err, s'\<lparr>sd_readyObserved := se_ready se, sd_inflightCount := length (sd_inflight s')\<rparr>, f'))"

section \<open>Events\<close>

text \<open>\<open>syncInflight\<close> after an acknowledgement; \<open>ctxDone\<close> is \<open>s.ctx.Err() != nil\<close> at a failed read.\<close>

definition setFatal :: "sim_error \<Rightarrow> Scheduler \<Rightarrow> Scheduler" where
  "setFatal e s =
     (let s1 = (if sd_fatalErr s = None then s\<lparr>sd_fatalErr := Some e\<rparr> else s) in s1\<lparr>sd_fatalCh := True\<rparr>)"

fun syncInflight :: "uuid_pkg \<Rightarrow> (uuid \<Rightarrow> sql_env \<times> outbox_file) \<Rightarrow> bool \<Rightarrow> uuid list \<Rightarrow> Scheduler \<Rightarrow> Scheduler" where
  "syncInflight U reads ctxDone [] s = s\<lparr>sd_generationPaused := False\<rparr>"
| "syncInflight U reads ctxDone (i # order) s =
     (if map_of (sd_inflight s) i = None then syncInflight U reads ctxDone order s
      else
        (case rowStillPending U (fst (reads i)) (sd_out s) (snd (reads i)) i of
           Inl e \<Rightarrow> if ctxDone then s else setFatal ErrSchedulerLookup s
         | Inr pending \<Rightarrow> syncInflight U reads ctxDone order (if pending then s else entry_delete i s)))"

text \<open>\<open>armTimer\<close>: the candidate deadlines, the earliest of them, the duration set.\<close>

definition deadlines :: "Scheduler \<Rightarrow> time list" where
  "deadlines s =
     (if sd_genReady s \<or> \<not> sd_genDone s \<and> \<not> sd_generationPaused s \<and> 0 < sg_maxInflight (sd_cfg s) - int (length (sd_inflight s))
      then [sd_nextGenAt s] else []) @
     (if 0 < sd_finiteTarget s \<and> sd_genDone s \<and> \<not> time_IsZero (sd_completionDeadline s) then [sd_completionDeadline s] else []) @
     map (\<lambda>(i, e). ie_nextAt e) (filter (\<lambda>(i, e). ie_state e = stateAwaitAck \<or> ie_state e = stateBackoff) (sd_inflight s))"

definition consider_deadline :: "time \<Rightarrow> time \<Rightarrow> time" where
  "consider_deadline t nxt = (if time_IsZero t then nxt else if time_IsZero nxt \<or> t < nxt then t else nxt)"

definition resetTimer :: "duration \<Rightarrow> Scheduler \<Rightarrow> Scheduler" where
  "resetTimer d s = s\<lparr>sd_timer := (if d < 0 then 0 else d)\<rparr>"

definition armTimer :: "bool \<Rightarrow> time \<Rightarrow> Scheduler \<Rightarrow> Scheduler" where
  "armTimer ready now s =
     (if \<not> ready then resetTimer parkDuration s
      else
        (let nxt = fold consider_deadline (deadlines s) 0 in
         if time_IsZero nxt then resetTimer parkDuration s
         else (let d = sat64 (nxt - now) in resetTimer (if d < 0 then 0 else d) s)))"

text \<open>\<open>checkCompletion\<close>: \<open>done\<close>, the error and the state.\<close>

definition checkCompletion :: "sql_env \<Rightarrow> time \<Rightarrow> outbox_file \<Rightarrow> Scheduler \<Rightarrow> bool \<times> sim_error option \<times> Scheduler" where
  "checkCompletion env now f s =
     (if sd_finiteTarget s \<le> 0 \<or> \<not> sd_genDone s then (False, None, s)
      else
        (case Counts env (sd_out s) f of
           Inl e \<Rightarrow> (True, Some ErrSchedulerPending, s)
         | Inr counts \<Rightarrow>
             if ct_PendingRows counts = 0 then (True, None, recorder DrainComplete s)
             else if \<not> time_IsZero (sd_completionDeadline s) \<and> \<not> now < sd_completionDeadline s
             then (True, Some ErrSchedulerCompletion, s)
             else (False, None, s)))"

section \<open>Shutdown\<close>

definition publishingCount :: "Scheduler \<Rightarrow> nat" where
  "publishingCount s = length (filter (\<lambda>(i, e). ie_state e = statePublishing) (sd_inflight s))"

definition publishDrainBudget :: "time \<Rightarrow> Scheduler \<Rightarrow> duration" where
  "publishDrainBudget now s =
     (let budget = (if sg_shutdownTimeout (sd_cfg s) \<le> 0 then defaultShutdownTimeout else sg_shutdownTimeout (sd_cfg s)) in
      if time_IsZero (sd_shutdownDeadline s) then budget
      else (let remaining = sat64 (sd_shutdownDeadline s - now) in if remaining < budget then remaining else budget))"

text \<open>
  \<open>waitPublishes\<close>: \<open>results\<close> are the results received before the timer fires, each with the clock and
  random number its handling reads.
\<close>

fun drain_results :: "(time \<times> rat \<times> publishResult) list \<Rightarrow> Scheduler \<Rightarrow> Scheduler" where
  "drain_results [] s = s"
| "drain_results ((now, rnd, res) # rest) s =
     (if publishingCount s = 0 then s else drain_results rest (onPublishResult now rnd res s))"

definition waitPublishes :: "time \<Rightarrow> (time \<times> rat \<times> publishResult) list \<Rightarrow> Scheduler \<Rightarrow> Scheduler" where
  "waitPublishes now results s =
     (if publishingCount s = 0 then s else if publishDrainBudget now s \<le> 0 then s else drain_results results s)"

definition Fatal :: "Scheduler \<Rightarrow> sim_error option" where
  "Fatal s = sd_fatalErr s"

definition fail :: "time \<Rightarrow> (time \<times> rat \<times> publishResult) list \<Rightarrow> sim_error option \<Rightarrow> Scheduler \<Rightarrow> sim_error \<times> Scheduler" where
  "fail now results err s =
     (let e = (case err of None \<Rightarrow> ErrSchedulerFatal | Some e \<Rightarrow> e) in (e, waitPublishes now results (setFatal e s)))"

section \<open>The loop\<close>

text \<open>
  One iteration of \<open>loop\<close> up to its \<open>select\<close>: the result if \<open>Run\<close> returns, the state and the file. The
  context is consulted three times; \<open>le_results\<close> is what a final drain receives.
\<close>

record loop_env =
  le_pass :: sched_env
  le_ctx :: "nat \<Rightarrow> bool"
  le_counts :: "sql_env \<times> outbox_file"
  le_now :: time
  le_ready :: bool
  le_armNow :: time
  le_results :: "(time \<times> rat \<times> publishResult) list"

definition loop_pass ::
  "uuid_pkg \<Rightarrow> loop_env \<Rightarrow> Scheduler \<Rightarrow> outbox_file \<Rightarrow> sim_error option option \<times> Scheduler \<times> outbox_file" where
  "loop_pass U le s f =
     (let stop = (\<lambda>s. (Some None, waitPublishes (le_now le) (le_results le) s));
          failed = (\<lambda>e s. case fail (le_now le) (le_results le) (Some e) s of (e', s') \<Rightarrow> (Some (Some e'), s')) in
      if le_ctx le 0 then (case stop s of (r, s') \<Rightarrow> (r, s', f))
      else
        (case Fatal s of
           Some e \<Rightarrow> (case failed e s of (r, s') \<Rightarrow> (r, s', f))
         | None \<Rightarrow>
             (case reconcile U (le_pass le) s f of
                (Some e, s1, f1) \<Rightarrow> (case (if le_ctx le 1 then stop s1 else failed e s1) of (r, s') \<Rightarrow> (r, s', f1))
              | (None, s1, f1) \<Rightarrow>
                  (case checkCompletion (fst (le_counts le)) (le_now le) (snd (le_counts le)) s1 of
                     (True, Some e, s2) \<Rightarrow> (case (if le_ctx le 2 then stop s2 else failed e s2) of (r, s') \<Rightarrow> (r, s', f1))
                   | (True, None, s2) \<Rightarrow> (case stop (s2\<lparr>sd_completed := True\<rparr>) of (r, s') \<Rightarrow> (r, s', f1))
                   | (False, _, s2) \<Rightarrow> (None, armTimer (le_ready le) (le_armNow le) s2, f1)))))"

text \<open>\<open>Run\<close> returning: the deferred calls.\<close>

definition Run_end :: "Scheduler \<Rightarrow> Scheduler" where
  "Run_end s = recorder RunEnd (s\<lparr>sd_done := True\<rparr>)"

definition Stats :: "sql_env \<Rightarrow> ACKProcessor \<Rightarrow> outbox_file \<Rightarrow> Scheduler \<Rightarrow> SchedulerStats" where
  "Stats env p f s =
     (let counts = Counts env (sd_out s) f in
      \<lparr>st_UniqueEnqueued = sd_uniqueEnqueued s, st_PublishAttempts = sd_publishAttempts s,
       st_AppAcknowledged = as_Acknowledged (Stats_ack p),
       st_PendingRows = (case counts of Inl e \<Rightarrow> 0 | Inr c \<Rightarrow> ct_PendingRows c),
       st_PendingBytes = (case counts of Inl e \<Rightarrow> 0 | Inr c \<Rightarrow> ct_PendingBytes c),
       st_Inflight = sd_inflightCount s, st_GenerationPaused = sd_generationPaused s, st_Completed = sd_completed s\<rparr>)"

end
