(* ===== verification/SchedulerProofs.thy ===== *)
theory SchedulerProofs
  imports Scheduler
begin

text \<open>
  The scheduler's invariants: the in-flight set is bounded, holds stored rows with their bytes, and
  every message has at most one publish under way; preserved by every operation of a pass and by
  every event.
\<close>

section \<open>Frames\<close>

lemma recorder_simps [simp]:
  "sd_inflight (recorder e s) = sd_inflight s" "sd_running (recorder e s) = sd_running s"
  "sd_pubResults (recorder e s) = sd_pubResults s" "sd_cfg (recorder e s) = sd_cfg s" "sd_out (recorder e s) = sd_out s"
  "sd_finiteTarget (recorder e s) = sd_finiteTarget s" "sd_genDone (recorder e s) = sd_genDone s"
  "sd_uniqueEnqueued (recorder e s) = sd_uniqueEnqueued s" "sd_completed (recorder e s) = sd_completed s"
  "sd_fatalErr (recorder e s) = sd_fatalErr s" "sd_bootID (recorder e s) = sd_bootID s"
  by (simp_all add: recorder_def)

lemma entry_simps [simp]:
  "map_of (sd_inflight (entry_set i e s)) = (map_of (sd_inflight s))(i \<mapsto> e)"
  "map_of (sd_inflight (entry_delete i s)) = (map_of (sd_inflight s))(i := None)"
  "sd_running (entry_set i e s) = sd_running s" "sd_running (entry_delete i s) = sd_running s"
  "sd_pubResults (entry_set i e s) = sd_pubResults s" "sd_pubResults (entry_delete i s) = sd_pubResults s"
  "sd_cfg (entry_set i e s) = sd_cfg s" "sd_cfg (entry_delete i s) = sd_cfg s"
  "sd_out (entry_set i e s) = sd_out s" "sd_out (entry_delete i s) = sd_out s"
  by (simp_all add: entry_set_def entry_delete_def update_conv' delete_conv')

section \<open>The invariant\<close>

definition stored :: "uuid_pkg \<Rightarrow> outbox_row list \<Rightarrow> uuid \<Rightarrow> string \<Rightarrow> string \<Rightarrow> bool" where
  "stored U hist i topic payload \<longleftrightarrow>
     (\<exists>h \<in> set hist. ob_message_id h = uuid_String U i \<and> ob_topic h = topic \<and> ob_payload h = payload)"

definition entry_ok :: "uuid_pkg \<Rightarrow> outbox_row list \<Rightarrow> uuid \<Rightarrow> inflightEntry \<Rightarrow> bool" where
  "entry_ok U hist i e \<longleftrightarrow>
     im_MessageID (ie_item e) = i \<and> stored U hist i (im_Topic (ie_item e)) (im_Payload (ie_item e))"

definition sched_wf :: "uuid_pkg \<Rightarrow> outbox_row list \<Rightarrow> Scheduler \<Rightarrow> bool" where
  "sched_wf U hist s \<longleftrightarrow>
     distinct (map fst (sd_inflight s)) \<and> int (length (sd_inflight s)) \<le> sg_maxInflight (sd_cfg s) \<and>
     (\<forall>i e. map_of (sd_inflight s) i = Some e \<longrightarrow> entry_ok U hist i e) \<and>
     (\<forall>c \<in> set (sd_running s). stored U hist (pc_id c) (pc_topic c) (pc_payload c)) \<and>
     (\<forall>r \<in> set (sd_pubResults s). \<exists>t p. stored U hist (pu_messageID r) t p)"

text \<open>The publishes of a message that have not been seen by the loop: running, or with their result queued.\<close>

definition outstanding :: "Scheduler \<Rightarrow> uuid \<Rightarrow> nat" where
  "outstanding s i = length (filter (\<lambda>c. pc_id c = i) (sd_running s)) + length (filter (\<lambda>r. pu_messageID r = i) (sd_pubResults s))"

definition one_each :: "(uuid \<Rightarrow> bool) \<Rightarrow> Scheduler \<Rightarrow> bool" where
  "one_each gone s \<longleftrightarrow> (\<forall>i. outstanding s i \<le> 1 \<and>
     (outstanding s i = 1 \<longrightarrow>
        (case map_of (sd_inflight s) i of None \<Rightarrow> gone i | Some e \<Rightarrow> ie_state e = statePublishing)))"

lemma stored_mono: "stored U hist i t p \<Longrightarrow> stored U (hist @ new) i t p"
  by (auto simp: stored_def)

lemma sched_wf_mono:
  assumes "sched_wf U hist s" shows "sched_wf U (hist @ new) s"
proof -
  have "entry_ok U (hist @ new) i e" if "map_of (sd_inflight s) i = Some e" for i e
    using assms that stored_mono unfolding sched_wf_def entry_ok_def by blast
  moreover have "stored U (hist @ new) (pc_id c) (pc_topic c) (pc_payload c)" if "c \<in> set (sd_running s)" for c
    using assms that stored_mono unfolding sched_wf_def by blast
  moreover have "\<exists>t p. stored U (hist @ new) (pu_messageID r) t p" if "r \<in> set (sd_pubResults s)" for r
    using assms that stored_mono unfolding sched_wf_def by blast
  ultimately show ?thesis using assms by (simp add: sched_wf_def)
qed

lemma one_each_mono: "one_each gone s \<Longrightarrow> (\<And>i. outstanding s i = 1 \<Longrightarrow> gone i \<Longrightarrow> gone' i) \<Longrightarrow> one_each gone' s"
  by (fastforce simp: one_each_def split: option.split)

text \<open>Operations that touch only other fields.\<close>

definition same_work :: "Scheduler \<Rightarrow> Scheduler \<Rightarrow> bool" where
  "same_work s t \<longleftrightarrow> sd_inflight t = sd_inflight s \<and> sd_running t = sd_running s \<and> sd_pubResults t = sd_pubResults s \<and>
     sd_cfg t = sd_cfg s"

lemma same_work_inv: "same_work s t \<Longrightarrow> sched_wf U hist t = sched_wf U hist s \<and> one_each gone t = one_each gone s"
  by (simp add: same_work_def sched_wf_def one_each_def outstanding_def)

section \<open>Entries\<close>

lemma length_entry_set: "map_of (sd_inflight s) i \<noteq> None \<Longrightarrow> length (sd_inflight (entry_set i e s)) = length (sd_inflight s)"
  unfolding entry_set_def using arg_cong [OF update_keys [of i e "sd_inflight s"], of length] by (simp add: map_of_eq_None_iff)

lemma length_entry_new: "map_of (sd_inflight s) i = None \<Longrightarrow> length (sd_inflight (entry_set i e s)) = Suc (length (sd_inflight s))"
  by (simp add: entry_set_def update_new)

lemma entry_set_wf:
  assumes "sched_wf U hist s" and "entry_ok U hist i e"
    and "map_of (sd_inflight s) i \<noteq> None \<or> int (length (sd_inflight s)) < sg_maxInflight (sd_cfg s)"
  shows "sched_wf U hist (entry_set i e s)"
proof -
  have "distinct (map fst (sd_inflight (entry_set i e s)))"
    using assms(1) by (simp add: entry_set_def sched_wf_def distinct_update)
  moreover have "int (length (sd_inflight (entry_set i e s))) \<le> sg_maxInflight (sd_cfg s)"
    using assms(1,3) length_entry_set [of s i e] length_entry_new [of s i e]
    by (cases "map_of (sd_inflight s) i") (auto simp: sched_wf_def)
  ultimately show ?thesis using assms(1,2) by (auto simp: sched_wf_def)
qed

lemma entry_delete_wf:
  assumes "sched_wf U hist s"
  shows "sched_wf U hist (entry_delete i s)"
proof -
  have "length (sd_inflight (entry_delete i s)) \<le> length (sd_inflight s)"
    by (simp add: entry_delete_def length_delete_le)
  moreover have "distinct (map fst (sd_inflight (entry_delete i s)))"
    using assms by (simp add: entry_delete_def sched_wf_def distinct_delete)
  ultimately show ?thesis using assms by (auto simp: sched_wf_def)
qed

lemma entry_delete_one: "one_each gone s \<Longrightarrow> gone i \<Longrightarrow> one_each gone (entry_delete i s)"
  by (auto simp: one_each_def outstanding_def split: option.splits)

text \<open>Moving an entry that owns no publish into another waiting state.\<close>

lemma entry_wait_one:
  assumes "one_each gone s" and "outstanding s i = 0"
  shows "one_each gone (entry_set i e s)"
  using assms by (auto simp: one_each_def outstanding_def split: option.splits)

lemma idle_outstanding:
  assumes "one_each gone s" and "map_of (sd_inflight s) i = Some e" and "ie_state e \<noteq> statePublishing"
  shows "outstanding s i = 0"
proof -
  have "outstanding s i \<le> 1" "outstanding s i \<noteq> 1" using assms by (force simp: one_each_def)+
  then show ?thesis by simp
qed

lemma startPublish_inv:
  assumes "sched_wf U hist s" and "one_each gone s" and e: "entry_ok U hist i e" and "outstanding s i = 0"
    and "map_of (sd_inflight s) i \<noteq> None \<or> int (length (sd_inflight s)) < sg_maxInflight (sd_cfg s)"
  shows "sched_wf U hist (startPublish i e s) \<and> one_each gone (startPublish i e s)"
proof -
  let ?s = "entry_set i (e\<lparr>ie_state := statePublishing\<rparr>) s"
  have wf: "sched_wf U hist ?s" using assms by (intro entry_set_wf) (simp_all add: entry_ok_def)
  have i: "im_MessageID (ie_item e) = i" using e by (simp add: entry_ok_def)
  have out: "outstanding (startPublish i e s) j = outstanding s j + (if j = i then 1 else 0)" for j
    by (simp add: startPublish_def outstanding_def i)
  have "sched_wf U hist (startPublish i e s)"
    using wf e by (auto simp: sched_wf_def startPublish_def entry_ok_def)
  moreover have "map_of (sd_inflight (startPublish i e s)) = (map_of (sd_inflight s))(i \<mapsto> e\<lparr>ie_state := statePublishing\<rparr>)"
    by (simp add: startPublish_def)
  then have "one_each gone (startPublish i e s)"
    using assms(2,4) unfolding one_each_def out by auto
  ultimately show ?thesis by blast
qed

lemma startPublish_frame [simp]: "sd_cfg (startPublish i e s) = sd_cfg s" "sd_out (startPublish i e s) = sd_out s"
  "map_of (sd_inflight (startPublish i e s)) = (map_of (sd_inflight s))(i \<mapsto> e\<lparr>ie_state := statePublishing\<rparr>)"
  by (simp_all add: startPublish_def)

lemma scheduleBackoff_inv:
  assumes "sched_wf U hist s" and "one_each gone s" and "map_of (sd_inflight s) i = Some e" and "outstanding s i = 0"
  shows "sched_wf U hist (scheduleBackoff now rnd i e s) \<and> one_each gone (scheduleBackoff now rnd i e s)"
proof -
  have "entry_ok U hist i e" using assms(1,3) by (simp add: sched_wf_def)
  then show ?thesis
    unfolding scheduleBackoff_def using assms by (intro conjI entry_set_wf entry_wait_one) (simp_all add: entry_ok_def)
qed

lemma scheduleBackoff_frame [simp]: "sd_cfg (scheduleBackoff now rnd i e s) = sd_cfg s" "sd_out (scheduleBackoff now rnd i e s) = sd_out s"
  by (simp_all add: scheduleBackoff_def)

section \<open>Reading the outbox\<close>

definition pendingIn :: "uuid_pkg \<Rightarrow> Outbox \<Rightarrow> outbox_file \<Rightarrow> uuid \<Rightarrow> bool" where
  "pendingIn U o' f i \<longleftrightarrow> (\<exists>r \<in> set (of_rows f). selected U (ox_gatewayID o') i r)"

definition shrinks :: "outbox_file \<Rightarrow> outbox_file \<Rightarrow> bool" where
  "shrinks f g \<longleftrightarrow> set (of_rows g) \<subseteq> set (of_rows f)"

lemma pendingIn_shrinks: "shrinks f g \<Longrightarrow> pendingIn U o' g i \<Longrightarrow> pendingIn U o' f i"
  by (auto simp: shrinks_def pendingIn_def)

lemma shrinks_trans: "shrinks f g \<Longrightarrow> shrinks g h \<Longrightarrow> shrinks f h"
  by (auto simp: shrinks_def)

lemma scan_fields:
  assumes "scanOutboxItem U r = Inr item"
  shows "im_Status item = ob_status r" "im_ID item = ob_id r" "im_Topic item = ob_topic r" "im_Payload item = ob_payload r"
  using assms by (auto simp: scanOutboxItem_def)

lemma not_pending:
  assumes inv: "outbox_inv U (ox_gatewayID o') s f hist" and sh: "shrinks f g"
    and L: "rowStillPending U env o' g i = Inr False"
  shows "\<not> pendingIn U o' g i"
proof
  assume "pendingIn U o' g i"
  then obtain r where r: "r \<in> set (of_rows g)" "selected U (ox_gatewayID o') i r" by (auto simp: pendingIn_def)
  obtain found where found: "Lookup U env o' i g = Inr found" "(case found of None \<Rightarrow> False | Some item \<Rightarrow> im_Status item = outboxStatusPending) = False"
    using L by (auto simp: rowStillPending_def)
  show False
  proof (cases "find (\<lambda>r. ob_gateway_id r = ox_gatewayID o' \<and> ob_message_id r = uuid_String U i) (of_rows g)")
    case None
    then show False using r by (auto simp: find_None_iff selected_def)
  next
    case (Some q)
    then have q: "q \<in> set (of_rows g)" "ob_message_id q = uuid_String U i" by (auto simp: find_Some_iff)
    have "inj_on ob_message_id (set (of_rows f))" using inv by (simp add: outbox_inv_def rows_inv_def distinct_map)
    moreover have "q \<in> set (of_rows f)" "r \<in> set (of_rows f)" "ob_message_id q = ob_message_id r"
      using q r sh by (auto simp: shrinks_def selected_def)
    ultimately have "q = r" by (simp add: inj_on_eq_iff)
    moreover have "\<exists>item. found = Some item \<and> scanOutboxItem U q = Inr item"
      using found(1) Some by (auto simp: Lookup_def)
    ultimately show False using found(2) r(2) by (auto simp: scan_fields selected_def)
  qed
qed

lemma scan_rows_mem: "scan_rows U rs = Inr items \<Longrightarrow> it \<in> set items \<Longrightarrow> \<exists>r \<in> set rs. scanOutboxItem U r = Inr it"
  by (induction rs arbitrary: items) auto

lemma page_item:
  assumes U: "uuid_text_ok U" and inv: "outbox_inv U (ox_gatewayID o') s f hist" and sh: "shrinks f g"
    and P: "PendingAfter U env o' cursor limit g = Inr items" and it: "it \<in> set items"
  shows "pendingIn U o' g (im_MessageID it)" and "stored U hist (im_MessageID it) (im_Topic it) (im_Payload it)"
proof -
  have "scan_rows U (take (nat limit) (filter (\<lambda>r. cursor < ob_id r) (pending_rows o' g))) = Inr items"
    using P by (auto simp: PendingAfter_def split: if_splits)
  then obtain r where "r \<in> set (take (nat limit) (filter (\<lambda>r. cursor < ob_id r) (pending_rows o' g)))" "scanOutboxItem U r = Inr it"
    using scan_rows_mem it by blast
  then have r: "r \<in> set (of_rows g)" "ob_gateway_id r = ox_gatewayID o'" "ob_status r = outboxStatusPending" "scanOutboxItem U r = Inr it"
    by (auto simp: pending_rows_def dest!: in_set_takeD)
  have f: "r \<in> set (of_rows f)" using r(1) sh by (auto simp: shrinks_def)
  obtain mid boot t where sc: "scanOutboxItem U r = Inr (row_item r mid boot t)" "ob_message_id r = uuid_String U mid"
    using scan_built [OF U row_built [OF inv f]] by blast
  then have m: "im_MessageID it = mid" using r(4) by (auto simp: row_item_def)
  then show "pendingIn U o' g (im_MessageID it)" using r sc(2) by (auto simp: pendingIn_def selected_def)
  have "inserted r \<in> set hist" using inv f by (simp add: outbox_inv_def rows_inv_def)
  then show "stored U hist (im_MessageID it) (im_Topic it) (im_Payload it)"
    using sc(2) m scan_fields [OF r(4)] unfolding stored_def by (intro bexI [of _ "inserted r"]) simp_all
qed

section \<open>A pass\<close>

text \<open>
  What the reads of a pass may see: the outbox between its state \<open>f\<close> at the beginning and \<open>f1\<close> when the
  pass writes, first the retries, then the pages; rows only disappear in between.
\<close>

definition reads_between :: "outbox_file \<Rightarrow> sched_env \<Rightarrow> outbox_file \<Rightarrow> bool" where
  "reads_between f se f1 \<longleftrightarrow> shrinks f f1 \<and>
     (\<forall>i. shrinks f (snd (se_lookup se i)) \<and> shrinks (snd (se_lookup se i)) f1) \<and>
     (\<forall>p. shrinks f (snd (se_page se p)) \<and> shrinks (snd (se_page se p)) f1 \<and>
        (\<forall>i. shrinks (snd (se_lookup se i)) (snd (se_page se p))))"

text \<open>Known to be pending no more when the pages are read.\<close>

definition gone_for_pages :: "uuid_pkg \<Rightarrow> Outbox \<Rightarrow> sched_env \<Rightarrow> outbox_file \<Rightarrow> uuid \<Rightarrow> bool" where
  "gone_for_pages U o' se f1 i \<longleftrightarrow> \<not> pendingIn U o' f1 i \<and> (\<forall>p. \<not> pendingIn U o' (snd (se_page se p)) i)"

lemma gone_initial: "reads_between f se f1 \<Longrightarrow> \<not> pendingIn U o' f i \<Longrightarrow> gone_for_pages U o' se f1 i"
  using pendingIn_shrinks unfolding reads_between_def gone_for_pages_def by blast

lemma gone_lookup: "reads_between f se f1 \<Longrightarrow> \<not> pendingIn U o' (snd (se_lookup se j)) i \<Longrightarrow> gone_for_pages U o' se f1 i"
  using pendingIn_shrinks unfolding reads_between_def gone_for_pages_def by blast

lemma processDueRetries_inv:
  assumes inv: "outbox_inv U (ox_gatewayID o') sn f hist" and rb: "reads_between f se f1"
    and "processDueRetries U se order s = (err, s')" and "sched_wf U hist s" "one_each (gone_for_pages U o' se f1) s" "sd_out s = o'"
  shows "sched_wf U hist s' \<and> one_each (gone_for_pages U o' se f1) s' \<and> sd_out s' = o' \<and> sd_cfg s' = sd_cfg s"
  using assms(3-6)
proof (induction order arbitrary: s)
  case (Cons i order)
  show ?case
  proof (cases "map_of (sd_inflight s) i")
    case None
    then show ?thesis using Cons by simp
  next
    case (Some e)
    have ok: "entry_ok U hist i e" using Cons.prems(2) Some by (simp add: sched_wf_def)
    consider (skip) "ie_state e = statePublishing \<or> se_now se < ie_nextAt e"
      | (await) "ie_state e = stateAwaitAck" "\<not> se_now se < ie_nextAt e"
      | (retry) "ie_state e = stateBackoff" "\<not> se_now se < ie_nextAt e" by (cases "ie_state e") auto
    then show ?thesis
    proof cases
      case skip
      then show ?thesis using Cons Some by simp
    next
      case retry
      have idle: "outstanding s i = 0" using idle_outstanding [OF Cons.prems(3) Some] retry by simp
      have "sched_wf U hist (startPublish i e s) \<and> one_each (gone_for_pages U o' se f1) (startPublish i e s)"
        by (rule startPublish_inv [OF Cons.prems(2,3) ok idle]) (simp add: Some)
      then show ?thesis using Cons Some retry by simp
    next
      case await
      have idle: "outstanding s i = 0" using idle_outstanding [OF Cons.prems(3) Some] await by simp
      have i: "im_MessageID (ie_item e) = i" using ok by (simp add: entry_ok_def)
      show ?thesis
      proof (cases "rowStillPending U (fst (se_lookup se i)) (sd_out s) (snd (se_lookup se i)) (im_MessageID (ie_item e))")
        case (Inl err)
        then show ?thesis using Cons Some await by simp
      next
        case (Inr pending)
        show ?thesis
        proof (cases pending)
          case True
          have "sched_wf U hist (scheduleBackoff (se_clock se i) (se_rand se i) i e s) \<and>
              one_each (gone_for_pages U o' se f1) (scheduleBackoff (se_clock se i) (se_rand se i) i e s)"
            by (rule scheduleBackoff_inv [OF Cons.prems(2,3) Some idle])
          then show ?thesis using Cons Some await Inr True by simp
        next
          case False
          have sh: "shrinks f (snd (se_lookup se i))" using Cons rb by (simp add: reads_between_def)
          have "\<not> pendingIn U o' (snd (se_lookup se i)) i"
            using not_pending [OF inv sh] Inr False Cons.prems(4) i by auto
          then have "one_each (gone_for_pages U o' se f1) (entry_delete i s)"
            using gone_lookup [OF rb] Cons.prems(3) by (intro entry_delete_one) auto
          then show ?thesis using Cons Some await Inr False entry_delete_wf [OF Cons.prems(2)] by simp
        qed
      qed
    qed
  qed
qed simp

definition free_slots :: "Scheduler \<Rightarrow> int" where
  "free_slots s = sg_maxInflight (sd_cfg s) - int (length (sd_inflight s))"

lemma admit_inv:
  assumes "sched_wf U hist s" "one_each gone s" and new: "map_of (sd_inflight s) (im_MessageID it) = None"
    and "outstanding s (im_MessageID it) = 0" "stored U hist (im_MessageID it) (im_Topic it) (im_Payload it)" "0 < free_slots s"
  shows "sched_wf U hist (admit it s) \<and> one_each gone (admit it s) \<and> free_slots (admit it s) = free_slots s - 1 \<and>
    sd_cfg (admit it s) = sd_cfg s \<and> sd_out (admit it s) = sd_out s"
proof -
  have "sched_wf U hist (admit it s) \<and> one_each gone (admit it s)"
    unfolding admit_def using assms by (intro startPublish_inv) (simp_all add: entry_ok_def free_slots_def)
  moreover have "length (sd_inflight (admit it s)) = Suc (length (sd_inflight s))"
    using length_entry_new [OF new] by (simp add: admit_def startPublish_def)
  ultimately show ?thesis by (simp add: admit_def free_slots_def)
qed

lemma new_outstanding:
  assumes "one_each gone s" "map_of (sd_inflight s) i = None" "\<not> gone i"
  shows "outstanding s i = 0"
proof -
  have "outstanding s i \<le> 1" "outstanding s i \<noteq> 1" using assms by (force simp: one_each_def)+
  then show ?thesis by simp
qed

lemma admit_items_inv:
  assumes "admit_items items free s = (returned, free', s')" and "sched_wf U hist s" "one_each gone s" "free = free_slots s"
    and "\<And>it. it \<in> set items \<Longrightarrow> \<not> gone (im_MessageID it) \<and> stored U hist (im_MessageID it) (im_Topic it) (im_Payload it)"
  shows "sched_wf U hist s' \<and> one_each gone s' \<and> free' = free_slots s' \<and> sd_cfg s' = sd_cfg s \<and> sd_out s' = sd_out s"
  using assms
proof (induction items arbitrary: free s)
  case (Cons it items)
  show ?case
  proof (cases "free \<le> 0 \<or> map_of (sd_inflight s) (im_MessageID it) \<noteq> None")
    case True
    then show ?thesis using Cons by (auto split: if_splits)
  next
    case False
    then have n: "map_of (sd_inflight s) (im_MessageID it) = None" "0 < free_slots s" using Cons.prems(4) by auto
    have "outstanding s (im_MessageID it) = 0"
      using new_outstanding [OF Cons.prems(3) n(1)] Cons.prems(5) by auto
    then have a: "sched_wf U hist (admit it s) \<and> one_each gone (admit it s) \<and> free_slots (admit it s) = free_slots s - 1 \<and>
        sd_cfg (admit it s) = sd_cfg s \<and> sd_out (admit it s) = sd_out s"
      using Cons.prems(5) by (intro admit_inv [OF Cons.prems(2,3) n(1) _ _ n(2)]) auto
    moreover have "admit_items items (free - 1) (admit it s) = (returned, free', s')" using Cons.prems(1) False by simp
    ultimately show ?thesis using Cons.IH [of "free - 1" "admit it s"] Cons.prems(4,5) by simp
  qed
qed simp

lemma admit_pages_inv:
  assumes U: "uuid_text_ok U" and inv: "outbox_inv U (ox_gatewayID o') sn f hist" and rb: "reads_between f se f1"
    and "admit_pages U se page n cursor free s = (res, s')" and "sched_wf U hist s" "one_each (gone_for_pages U o' se f1) s"
      "sd_out s = o'" "free = free_slots s"
  shows "sched_wf U hist s' \<and> one_each (gone_for_pages U o' se f1) s' \<and> sd_out s' = o' \<and> sd_cfg s' = sd_cfg s"
  using assms(4-8)
proof (induction n arbitrary: page cursor free s)
  case (Suc n)
  show ?case
  proof (cases "PendingAfter U (fst (se_page se page)) (sd_out s) cursor (sg_maxInflight (sd_cfg s)) (snd (se_page se page))")
    case (Inl e)
    then show ?thesis using Suc.prems by (auto split: if_splits)
  next
    case (Inr items)
    obtain returned free' s1 where a: "admit_items items free s = (returned, free', s1)" by (metis prod_cases3)
    have sh: "shrinks f (snd (se_page se page))" using rb by (simp add: reads_between_def)
    have its: "\<not> gone_for_pages U o' se f1 (im_MessageID it) \<and> stored U hist (im_MessageID it) (im_Topic it) (im_Payload it)"
      if "it \<in> set items" for it
      using page_item [OF U inv sh Inr [unfolded Suc.prems(4)] that] by (auto simp: gone_for_pages_def)
    have "sched_wf U hist s1 \<and> one_each (gone_for_pages U o' se f1) s1 \<and> free' = free_slots s1 \<and> sd_cfg s1 = sd_cfg s \<and> sd_out s1 = sd_out s"
      by (rule admit_items_inv [OF a Suc.prems(2,3,5) its])
    then show ?thesis using Suc.prems Inr a Suc.IH by (auto split: if_splits)
  qed
qed simp

lemma admitPending_inv:
  assumes "uuid_text_ok U" and "outbox_inv U (ox_gatewayID o') sn f hist" and "reads_between f se f1"
    and "admitPending U se s = (res, s')" and "sched_wf U hist s" "one_each (gone_for_pages U o' se f1) s" "sd_out s = o'"
  shows "sched_wf U hist s' \<and> one_each (gone_for_pages U o' se f1) s' \<and> sd_out s' = o' \<and> sd_cfg s' = sd_cfg s"
  using assms(4-7) admit_pages_inv [OF assms(1-3), of 0 maxAdmissionPages 0 _ s res s']
  by (auto simp: admitPending_def Let_def free_slots_def split: if_splits)

section \<open>Generation\<close>

text \<open>The assumptions on one enqueue: the types of the request and the clock, and a message identifier never used before.\<close>

definition enqueue_env_ok :: "uuid_pkg \<Rightarrow> outbox_row list \<Rightarrow> sched_env \<Rightarrow> Scheduler \<Rightarrow> bool" where
  "enqueue_env_ok U hist se s \<longleftrightarrow>
     in_i64 (sg_sampleIntervalUS (sd_cfg s)) \<and> 0 \<le> sql_now (se_enqueue se) \<and> sql_now (se_enqueue se) < endOfYear9999 \<and>
     (\<forall>i. se_newUUID se = Inr i \<longrightarrow> uuid_String U i \<notin> set (map ob_message_id hist))"

lemma Enqueue_rows:
  assumes "Enqueue U env o' req f = (res, f')"
  shows "f' = f \<or> (\<exists>r. of_rows f' = of_rows f @ [r] \<and> ob_message_id r = uuid_String U (er_MessageID req))"
    and "of_version f' = of_version f" and "\<And>item. res = Inr item \<Longrightarrow> \<exists>r. of_rows f' = of_rows f @ [r] \<and>
      ob_message_id r = uuid_String U (im_MessageID item) \<and> im_MessageID item = er_MessageID req \<and>
      ob_topic r = im_Topic item \<and> ob_payload r = im_Payload item"
proof -
  have body: "\<exists>r. of_rows f' = of_rows f @ [r] \<and> of_version f' = of_version f \<and>
      ob_message_id r = uuid_String U (im_MessageID item) \<and> im_MessageID item = er_MessageID req \<and>
      ob_topic r = im_Topic item \<and> ob_payload r = im_Payload item"
    if "enqueue_tx U env o' req f = Inr (item, f')" for item
    using that by (rule enqueue_tx_ok) (simp add: enqueued_def row_item_def, simp add: new_row_def)
  show "f' = f \<or> (\<exists>r. of_rows f' = of_rows f @ [r] \<and> ob_message_id r = uuid_String U (er_MessageID req))"
    "of_version f' = of_version f"
    "\<And>item. res = Inr item \<Longrightarrow> \<exists>r. of_rows f' = of_rows f @ [r] \<and>
      ob_message_id r = uuid_String U (im_MessageID item) \<and> im_MessageID item = er_MessageID req \<and>
      ob_topic r = im_Topic item \<and> ob_payload r = im_Payload item"
    using assms body unfolding Enqueue_def by (cases rule: in_tx_cases; fastforce)+
qed

lemma fresh_not_stored: "uuid_String U j \<notin> set (map ob_message_id hist) \<Longrightarrow> \<not> stored U hist j t p"
  by (force simp: stored_def)

lemma unstored_idle:
  assumes "sched_wf U hist s" and n: "\<And>t p. \<not> stored U hist j t p"
  shows "outstanding s j = 0" and "map_of (sd_inflight s) j = None"
proof -
  have "pc_id c \<noteq> j" if "c \<in> set (sd_running s)" for c using assms that unfolding sched_wf_def by blast
  moreover have "pu_messageID r \<noteq> j" if "r \<in> set (sd_pubResults s)" for r using assms that unfolding sched_wf_def by blast
  ultimately show "outstanding s j = 0" by (simp add: outstanding_def filter_empty_conv)
  show "map_of (sd_inflight s) j = None"
  proof (cases "map_of (sd_inflight s) j")
    case (Some e)
    then show ?thesis using assms unfolding sched_wf_def entry_ok_def by blast
  qed
qed

text \<open>The messages for which a publish may still be under way stay gone when a fresh row appears.\<close>

lemma gone_after_enqueue:
  assumes "sched_wf U hist s" "one_each (gone_for_pages U o' se f1) s" and fresh: "uuid_String U j \<notin> set (map ob_message_id hist)"
    and f': "f' = f1 \<or> (\<exists>r. of_rows f' = of_rows f1 @ [r] \<and> ob_message_id r = uuid_String U j)"
  shows "one_each (\<lambda>i. \<not> pendingIn U o' f' i) s"
proof (rule one_each_mono [OF assms(2)])
  fix i assume out: "outstanding s i = 1" and gone: "gone_for_pages U o' se f1 i"
  have "filter (\<lambda>c. pc_id c = i) (sd_running s) \<noteq> [] \<or> filter (\<lambda>r. pu_messageID r = i) (sd_pubResults s) \<noteq> []"
    using out by (auto simp: outstanding_def)
  then have "(\<exists>c \<in> set (sd_running s). pc_id c = i) \<or> (\<exists>r \<in> set (sd_pubResults s). pu_messageID r = i)"
    by (auto simp: filter_empty_conv)
  then obtain t p where "stored U hist i t p" using assms(1) by (auto simp: sched_wf_def)
  then have "uuid_String U i \<noteq> uuid_String U j" using fresh by (force simp: stored_def)
  then show "\<not> pendingIn U o' f' i" using gone f' by (auto simp: gone_for_pages_def pendingIn_def selected_def)
qed

lemma generated_inv:
  assumes "sched_wf U hist s" "one_each gone s" and new: "\<And>t p. \<not> stored U hist0 (im_MessageID item) t p" and "sched_wf U hist0 s"
    and "stored U hist (im_MessageID item) (im_Topic item) (im_Payload item)" "0 < free_slots s"
  shows "sched_wf U hist (generated c item s) \<and> one_each gone (generated c item s) \<and>
    sd_cfg (generated c item s) = sd_cfg s \<and> sd_out (generated c item s) = sd_out s"
proof -
  define s2 where "s2 = (let s2 = s\<lparr>sd_uniqueEnqueued := sd_uniqueEnqueued s + 1\<rparr> in
    if sd_uniqueEnqueued s2 = 1 then recorder GenerationStart s2 else s2)"
  have s2: "same_work s s2" "sd_out s2 = sd_out s" by (simp_all add: s2_def same_work_def Let_def)
  note same = same_work_inv [OF s2(1)]
  have "sched_wf U hist0 s2" using same assms(4) by blast
  note idle = unstored_idle [OF this new]
  have a: "sched_wf U hist (admit item s2) \<and> one_each gone (admit item s2) \<and>
      free_slots (admit item s2) = free_slots s2 - 1 \<and> sd_cfg (admit item s2) = sd_cfg s2 \<and> sd_out (admit item s2) = sd_out s2"
    by (rule admit_inv) (use same assms s2(1) idle in \<open>auto simp: same_work_def free_slots_def\<close>)
  have "same_work (admit item s2) (generated c item s) \<and> sd_out (generated c item s) = sd_out (admit item s2)"
    by (simp add: generated_def Let_def s2_def same_work_def)
  then show ?thesis using a same_work_inv [of "admit item s2" "generated c item s"] s2 by (auto simp: same_work_def)
qed

lemma generate_inv:
  assumes env: "enqueue_env_ok U hist se s"
    and G: "generate U se s f1 = (err, s', f')" and wf: "sched_wf U hist s" and one: "one_each (gone_for_pages U o' se f1) s"
    and "sd_out s = o'" "0 < free_slots s"
  defines "hist' \<equiv> hist @ drop (length (of_rows f1)) (of_rows f')"
  shows "sched_wf U hist' s' \<and> one_each (\<lambda>i. \<not> pendingIn U o' f' i) s' \<and> sd_out s' = o' \<and> sd_cfg s' = sd_cfg s"
proof -
  define s1 where "s1 = s\<lparr>sd_nextGenAt := se_now se + cadence s\<rparr>"
  have s1: "same_work s s1" "sd_out s1 = o'" "sd_cfg s1 = sd_cfg s" using assms(5) by (simp_all add: s1_def same_work_def)
  have wf1: "sched_wf U hist s1" "one_each (gone_for_pages U o' se f1) s1" using same_work_inv [OF s1(1)] wf one by auto
  show ?thesis
  proof (cases "se_newUUID se")
    case (Inl e)
    then have "s' = s1" "f' = f1" using G by (auto simp: generate_def Let_def s1_def)
    then show ?thesis
      using wf1 s1 by (auto simp: hist'_def gone_for_pages_def intro: one_each_mono)
  next
    case (Inr j)
    have fresh: "uuid_String U j \<notin> set (map ob_message_id hist)" using env Inr by (simp add: enqueue_env_ok_def)
    define req where "req = generate_request (se_now se) j s1"
    have j: "er_MessageID req = j" by (simp add: req_def generate_request_def)
    obtain res f2 where E: "Enqueue U (se_enqueue se) (sd_out s1) req f1 = (res, f2)" by fastforce
    then have G': "(case res of Inl e \<Rightarrow> (if e = ErrOutboxFull then (None, s1\<lparr>sd_generationPaused := True\<rparr>, f2)
               else if e = ErrOutboxCommitUnknown then (Some ErrSchedulerCommitUnknown, s1, f2)
               else (Some ErrSchedulerEnqueue, s1, f2)) | Inr item \<Rightarrow> (None, generated (se_genClock se) item s1, f2)) = (err, s', f')"
      using G Inr unfolding generate_def s1_def [symmetric] Let_def req_def by (cases res) simp_all
    then have f2: "f' = f2" by (auto split: sum.splits if_splits)
    note rows = Enqueue_rows [OF E, unfolded j]
    have g: "one_each (\<lambda>i. \<not> pendingIn U o' f' i) s1" using gone_after_enqueue [OF wf1 fresh] rows(1) f2 by auto
    have wf2: "sched_wf U hist' s1" using wf1(1) sched_wf_mono by (simp add: hist'_def)
    show ?thesis
    proof (cases res)
      case (Inl e)
      then have "same_work s1 s'" "sd_out s' = sd_out s1" using G' by (auto simp: same_work_def split: if_splits)
      then show ?thesis using same_work_inv [of s1 s'] wf2 g s1 by (auto simp: same_work_def)
    next
      case (Inr item)
      obtain r where r: "of_rows f' = of_rows f1 @ [r]" "ob_message_id r = uuid_String U (im_MessageID item)"
          "im_MessageID item = j" "ob_topic r = im_Topic item" "ob_payload r = im_Payload item"
        using rows(3) Inr f2 by blast
      have "stored U hist' (im_MessageID item) (im_Topic item) (im_Payload item)" using r by (auto simp: stored_def hist'_def)
      moreover have "0 < free_slots s1" using assms(6) s1(1) by (simp add: free_slots_def same_work_def)
      moreover have "s' = generated (se_genClock se) item s1" using G' Inr by simp
      ultimately show ?thesis
        using generated_inv [OF wf2 g fresh_not_stored [OF fresh, folded r(3)] wf1(1)] s1 by metis
    qed
  qed
qed

section \<open>The pass as a whole\<close>

lemma gone_now: "one_each (gone_for_pages U o' se f1) s \<Longrightarrow> one_each (\<lambda>i. \<not> pendingIn U o' f1 i) s"
  by (erule one_each_mono) (simp add: gone_for_pages_def)

lemma free_slots_same [simp]: "free_slots (s\<lparr>sd_genReady := b\<rparr>) = free_slots s"
  by (simp add: free_slots_def)

lemma reconcile_inv:
  assumes U: "uuid_text_ok U" and inv: "outbox_inv U (ox_gatewayID o') sn f hist" and rb: "reads_between f se f1"
    and env: "enqueue_env_ok U hist se s"
    and R: "reconcile U se s f1 = (err, s', f')" and wf: "sched_wf U hist s" and one: "one_each (\<lambda>i. \<not> pendingIn U o' f i) s" and out: "sd_out s = o'"
  defines "hist' \<equiv> hist @ drop (length (of_rows f1)) (of_rows f')"
  shows "sched_wf U hist' s' \<and> one_each (\<lambda>i. \<not> pendingIn U o' f' i) s' \<and> sd_out s' = o' \<and> sd_cfg s' = sd_cfg s"
proof -
  define P where "P hs g s' \<longleftrightarrow> sched_wf U hs s' \<and> one_each (\<lambda>i. \<not> pendingIn U o' g i) s' \<and> sd_out s' = o' \<and> sd_cfg s' = sd_cfg s" for hs g s'
  have P_same: "P hs g t" if "P hs g s'" "same_work s' t" "sd_out t = sd_out s'" for hs g s' t
    using that same_work_inv [OF that(2)] by (auto simp: P_def same_work_def)
  have one': "one_each (gone_for_pages U o' se f1) s" by (rule one_each_mono [OF one]) (rule gone_initial [OF rb])
  obtain sb where B: "reconcile_body U se s f1 = (err, sb, f')" and s': "same_work sb s'" "sd_out s' = sd_out sb"
    using R by (auto simp: reconcile_def same_work_def split: prod.splits)
  have "P hist' f' sb"
  proof (cases "se_ready se")
    case False
    then have "sb = s\<lparr>sd_genReady := False\<rparr>" "f' = f1" using B by (auto simp: reconcile_body_def)
    moreover have "P hist f1 s" using wf gone_now [OF one'] out by (simp add: P_def)
    ultimately show ?thesis using P_same by (simp add: hist'_def same_work_def)
  next
    case True
    obtain e1 s1 where p1: "processDueRetries U se (se_order se) s = (e1, s1)" by fastforce
    note i1 = processDueRetries_inv [OF inv rb p1 wf one' out]
    show ?thesis
    proof (cases e1)
      case (Some e)
      then have "sb = s1" "f' = f1" using B True p1 by (auto simp: reconcile_body_def)
      then show ?thesis using i1 gone_now by (auto simp: P_def hist'_def)
    next
      case None
      obtain r2 s2 where p2: "admitPending U se s1 = (r2, s2)" by fastforce
      have i2: "sched_wf U hist s2 \<and> one_each (gone_for_pages U o' se f1) s2 \<and> sd_out s2 = o' \<and> sd_cfg s2 = sd_cfg s1"
        using admitPending_inv [OF U inv rb p2] i1 by blast
      then have P2: "P hist f1 s2" using i1 gone_now by (auto simp: P_def)
      show ?thesis
      proof (cases r2)
        case (Inl e)
        then have "sb = s2" "f' = f1" using B True p1 p2 None by (auto simp: reconcile_body_def)
        then show ?thesis using P2 by (simp add: hist'_def)
      next
        case (Inr mr)
        define s3 where "s3 = s2\<lparr>sd_genReady := (\<not> sd_genDone s2 \<and> \<not> sd_generationPaused s2 \<and> 0 < free_slots s2 \<and> \<not> mr)\<rparr>"
        have s3: "same_work s2 s3" "sd_out s3 = o'" "sd_cfg s3 = sd_cfg s" using i1 i2 by (auto simp: s3_def same_work_def)
        have B3: "(if sd_genReady s3 \<and> \<not> se_now se < sd_nextGenAt s3 then generate U se s3 f1 else (None, s3, f1)) = (err, sb, f')"
          using B True p1 p2 None Inr unfolding reconcile_body_def s3_def free_slots_def by (simp add: Let_def split: if_splits)
        show ?thesis
        proof (cases "sd_genReady s3 \<and> \<not> se_now se < sd_nextGenAt s3")
          case True
          then have g: "generate U se s3 f1 = (err, sb, f')" and room: "0 < free_slots s3" using B3 by (auto simp: s3_def)
          have "enqueue_env_ok U hist se s3" using env s3(3) by (simp add: enqueue_env_ok_def)
          then show ?thesis
            using generate_inv [OF _ g _ _ s3(2) room] same_work_inv [OF s3(1)] i2 s3(3) unfolding P_def hist'_def by auto
        next
          case False
          then have "sb = s3" "f' = f1" using B3 by auto
          then show ?thesis using P_same [OF P2 s3(1)] s3(2) i2 by (simp add: hist'_def)
        qed
      qed
    qed
  qed
  then show ?thesis using P_same [OF _ s'] by (auto simp: P_def)
qed

section \<open>Events\<close>

lemma onPublishResult_wf:
  assumes "sched_wf U hist s"
  shows "sched_wf U hist (onPublishResult now rnd res s)"
proof (cases "map_of (sd_inflight s) (pu_messageID res)")
  case (Some e)
  then have "entry_ok U hist (pu_messageID res) e" using assms by (simp add: sched_wf_def)
  then have "sched_wf U hist (entry_set (pu_messageID res) e' s)" if "ie_item e' = ie_item e" for e'
    using assms Some that by (intro entry_set_wf) (simp_all add: entry_ok_def)
  then show ?thesis using assms Some by (simp add: onPublishResult_def scheduleBackoff_def)
qed (use assms in \<open>simp add: onPublishResult_def\<close>)

lemma onPublishResult_frame [simp]: "sd_cfg (onPublishResult now rnd res s) = sd_cfg s" "sd_out (onPublishResult now rnd res s) = sd_out s"
  "sd_completed (onPublishResult now rnd res s) = sd_completed s" "sd_genDone (onPublishResult now rnd res s) = sd_genDone s"
  "sd_uniqueEnqueued (onPublishResult now rnd res s) = sd_uniqueEnqueued s" "sd_finiteTarget (onPublishResult now rnd res s) = sd_finiteTarget s"
  by (simp_all add: onPublishResult_def scheduleBackoff_def entry_set_def split: option.split)

lemma drain_results_wf: "sched_wf U hist s \<Longrightarrow> sched_wf U hist (drain_results results s)"
  by (induction results s rule: drain_results.induct) (simp_all add: onPublishResult_wf)

lemma drain_results_frame [simp]: "sd_cfg (drain_results results s) = sd_cfg s" "sd_out (drain_results results s) = sd_out s"
  "sd_completed (drain_results results s) = sd_completed s" "sd_genDone (drain_results results s) = sd_genDone s"
  "sd_uniqueEnqueued (drain_results results s) = sd_uniqueEnqueued s" "sd_finiteTarget (drain_results results s) = sd_finiteTarget s"
  by (induction results s rule: drain_results.induct) simp_all

lemma waitPublishes_wf: "sched_wf U hist s \<Longrightarrow> sched_wf U hist (waitPublishes now results s)"
  by (simp add: waitPublishes_def drain_results_wf)

lemma waitPublishes_frame [simp]: "sd_cfg (waitPublishes now results s) = sd_cfg s" "sd_out (waitPublishes now results s) = sd_out s"
  "sd_completed (waitPublishes now results s) = sd_completed s" "sd_genDone (waitPublishes now results s) = sd_genDone s"
  "sd_uniqueEnqueued (waitPublishes now results s) = sd_uniqueEnqueued s" "sd_finiteTarget (waitPublishes now results s) = sd_finiteTarget s"
  by (simp_all add: waitPublishes_def)

lemma setFatal_same: "same_work s (setFatal e s)" "sd_out (setFatal e s) = sd_out s"
  by (simp_all add: setFatal_def same_work_def Let_def)

text \<open>The result the loop receives is the only publish of its message under way.\<close>

lemma receive_inv:
  assumes "sched_wf U hist s" "one_each gone s" and "sd_pubResults s = res # rest"
  shows "sched_wf U hist (onPublishResult now rnd res (s\<lparr>sd_pubResults := rest\<rparr>)) \<and>
    one_each gone (onPublishResult now rnd res (s\<lparr>sd_pubResults := rest\<rparr>))"
proof -
  let ?s = "s\<lparr>sd_pubResults := rest\<rparr>" and ?i = "pu_messageID res"
  have wf: "sched_wf U hist ?s" using assms(1,3) by (auto simp: sched_wf_def)
  have out: "outstanding s i = outstanding ?s i + (if i = ?i then 1 else 0)" for i
    using assms(3) by (simp add: outstanding_def)
  have one: "outstanding s i \<le> 1" "outstanding s i = 1 \<Longrightarrow> (case map_of (sd_inflight s) i of None \<Rightarrow> gone i | Some e \<Rightarrow> ie_state e = statePublishing)" for i
    using assms(2) by (auto simp: one_each_def)
  have zero: "outstanding ?s ?i = 0" using one(1) [of ?i] out [of ?i] by simp
  have o: "one_each gone ?s" unfolding one_each_def
  proof
    fix i show "outstanding ?s i \<le> 1 \<and> (outstanding ?s i = 1 \<longrightarrow>
        (case map_of (sd_inflight ?s) i of None \<Rightarrow> gone i | Some e \<Rightarrow> ie_state e = statePublishing))"
      using one [of i] out [of i] zero by (cases "i = ?i") auto
  qed
  have "one_each gone (entry_set ?i e ?s)" for e using entry_wait_one [OF o zero] .
  then have "one_each gone (onPublishResult now rnd res ?s)"
    using o by (simp add: onPublishResult_def scheduleBackoff_def split: option.split)
  then show ?thesis using onPublishResult_wf [OF wf] by blast
qed

lemma syncInflight_inv:
  assumes inv: "outbox_inv U (ox_gatewayID o') sn f hist"
    and rd: "\<And>i. shrinks f (snd (reads i)) \<and> shrinks (snd (reads i)) f1"
    and "sched_wf U hist s" "one_each (\<lambda>i. \<not> pendingIn U o' f1 i) s" "sd_out s = o'"
  shows "sched_wf U hist (syncInflight U reads ctx order s) \<and> one_each (\<lambda>i. \<not> pendingIn U o' f1 i) (syncInflight U reads ctx order s) \<and>
    sd_out (syncInflight U reads ctx order s) = o' \<and> sd_cfg (syncInflight U reads ctx order s) = sd_cfg s"
  using assms(3-5)
proof (induction order arbitrary: s)
  case Nil
  have "same_work s (s\<lparr>sd_generationPaused := False\<rparr>)" by (simp add: same_work_def)
  from same_work_inv [OF this] show ?case using Nil by simp
next
  case (Cons i order)
  show ?case
  proof (cases "map_of (sd_inflight s) i = None")
    case True
    then show ?thesis using Cons by simp
  next
    case False
    show ?thesis
    proof (cases "rowStillPending U (fst (reads i)) (sd_out s) (snd (reads i)) i")
      case (Inl e)
      then show ?thesis using Cons.prems False same_work_inv [OF setFatal_same(1) [of s ErrSchedulerLookup]] setFatal_same
        by (auto simp: same_work_def)
    next
      case (Inr pending)
      have "\<not> pendingIn U o' f1 i" if "\<not> pending"
        using not_pending [OF inv, of "snd (reads i)" "fst (reads i)" i] rd [of i] Inr that Cons.prems(3)
          pendingIn_shrinks [of "snd (reads i)" f1 U o' i] by auto
      then have "sched_wf U hist (if pending then s else entry_delete i s) \<and>
          one_each (\<lambda>i. \<not> pendingIn U o' f1 i) (if pending then s else entry_delete i s)"
        using Cons.prems entry_delete_wf entry_delete_one by auto
      then show ?thesis using Cons.IH [of "if pending then s else entry_delete i s"] Cons.prems(3) False Inr by (simp split: if_splits)
    qed
  qed
qed

lemma publish_call_inv:
  assumes "k < length (sd_running s)"
  shows "sched_wf U hist (publish_call k s) = sched_wf U hist s \<and> one_each gone (publish_call k s) = one_each gone s"
proof -
  define r where "r = sd_running s ! k"
  have split: "sd_running s = take k (sd_running s) @ r # drop (Suc k) (sd_running s)"
    using assms by (simp add: r_def id_take_nth_drop)
  have upd: "(sd_running s)[k := r\<lparr>pc_called := True\<rparr>] = take k (sd_running s) @ r\<lparr>pc_called := True\<rparr> # drop (Suc k) (sd_running s)"
    using assms by (simp add: upd_conv_take_nth_drop)
  have "(\<forall>c \<in> set ((sd_running s)[k := r\<lparr>pc_called := True\<rparr>]). stored U hist (pc_id c) (pc_topic c) (pc_payload c)) \<longleftrightarrow>
      (\<forall>c \<in> set (sd_running s). stored U hist (pc_id c) (pc_topic c) (pc_payload c))"
    by (subst (2) split, subst upd) auto
  moreover have "outstanding (publish_call k s) i = outstanding s i" for i
  proof -
    have "length (filter (\<lambda>c. pc_id c = i) ((sd_running s)[k := r\<lparr>pc_called := True\<rparr>])) = length (filter (\<lambda>c. pc_id c = i) (sd_running s))"
      by (subst (2) split, subst upd) simp
    then show ?thesis by (simp add: publish_call_def outstanding_def r_def)
  qed
  ultimately show ?thesis unfolding sched_wf_def one_each_def by (simp add: publish_call_def r_def)
qed

lemma running_split:
  assumes "k < length (sd_running s)"
  shows "sd_running s = take k (sd_running s) @ sd_running s ! k # drop (Suc k) (sd_running s)"
  using assms by (simp add: id_take_nth_drop)

lemma publish_return_wf:
  assumes "k < length (sd_running s)" and "sched_wf U hist s"
  shows "sched_wf U hist (publish_return k err dropped s)"
proof -
  have "sd_running s ! k \<in> set (sd_running s)" using assms(1) by simp
  then have "\<exists>t p. stored U hist (pc_id (sd_running s ! k)) t p" using assms(2) unfolding sched_wf_def by blast
  moreover have "set (take k (sd_running s) @ drop (Suc k) (sd_running s)) \<subseteq> set (sd_running s)"
    by (auto dest: in_set_takeD in_set_dropD)
  ultimately show ?thesis using assms(2) unfolding sched_wf_def by (auto simp: publish_return_def Let_def)
qed

lemma publish_return_one:
  assumes "k < length (sd_running s)" and "one_each gone s"
  shows "one_each gone (publish_return k err dropped s)"
proof -
  define r where "r = sd_running s ! k"
  have "length (filter (\<lambda>c. pc_id c = i) (sd_running s)) =
      length (filter (\<lambda>c. pc_id c = i) (take k (sd_running s) @ drop (Suc k) (sd_running s))) + (if pc_id r = i then 1 else 0)" for i
    by (subst running_split [OF assms(1)]) (simp add: r_def)
  then have out: "outstanding (publish_return k err dropped s) i = outstanding s i - (if dropped \<and> pc_id r = i then 1 else 0)" for i
    by (simp add: publish_return_def outstanding_def Let_def r_def)
  show ?thesis unfolding one_each_def
  proof
    fix i
    have s: "sd_inflight (publish_return k err dropped s) = sd_inflight s" by (simp add: publish_return_def Let_def)
    have "outstanding s i \<le> 1 \<and> (outstanding s i = 1 \<longrightarrow>
      (case map_of (sd_inflight s) i of None \<Rightarrow> gone i | Some e \<Rightarrow> ie_state e = statePublishing))" using assms(2) by (simp add: one_each_def)
    then show "outstanding (publish_return k err dropped s) i \<le> 1 \<and> (outstanding (publish_return k err dropped s) i = 1 \<longrightarrow>
      (case map_of (sd_inflight (publish_return k err dropped s)) i of None \<Rightarrow> gone i | Some e \<Rightarrow> ie_state e = statePublishing))"
      unfolding out s by (cases "dropped \<and> pc_id r = i") auto
  qed
qed

end
