(* ===== verification/Retry.thy ===== *)
theory Retry
  imports Scheduler
begin

text \<open>
  The retry delay (\<open>scheduler.go\<close>, \<open>retryDelay\<close>): exponential doubling up to the maximum, and the jitter
  computed in floating point.
\<close>

section \<open>Rounding error\<close>

lemma f64_error:
  assumes "\<bar>r\<bar> < 2 ^ 100"
  shows "\<bar>f64 r - r\<bar> \<le> \<bar>r\<bar> / 2 ^ 53 + 1 / 2 ^ 60"
proof (cases "r = 0")
  case False
  define a where "a = \<bar>r\<bar>"
  define e where "e = max (ilog2 a - 52) (- 1074)"
  define z where "z = round_half_even (a / pow2 e)"
  have a: "0 < a" "a < 2 ^ 100" using False assms by (simp_all add: a_def)
  have p: "0 < pow2 e" by simp
  have pe: "pow2 e \<le> a / 2 ^ 52 + 1 / 2 ^ 60"
  proof (cases "- 1074 \<le> ilog2 a - 52")
    case True
    then have "e = ilog2 a + (- 52)" by (simp add: e_def)
    then have "pow2 e = pow2 (ilog2 a) * pow2 (- 52)" by (simp only: pow2_add)
    also have "\<dots> \<le> a * pow2 (- 52)" using ilog2_bounds(1) [OF a(1)] by (intro mult_right_mono) simp_all
    finally show ?thesis by (simp add: pow2_def)
  next
    case False
    then have "pow2 e \<le> pow2 (- 60)" by (intro pow2_mono) (simp add: e_def)
    then have "pow2 e \<le> 1 / 2 ^ 60" by (simp add: pow2_def)
    moreover have "0 \<le> a / 2 ^ 52" using a(1) by simp
    ultimately show ?thesis by linarith
  qed
  have "\<bar>of_int z - a / pow2 e\<bar> \<le> 1 / 2" unfolding z_def by (rule round_half_even_error)
  moreover have "of_int z * pow2 e - a = (of_int z - a / pow2 e) * pow2 e" by (simp add: field_simps)
  then have "\<bar>of_int z * pow2 e - a\<bar> = \<bar>of_int z - a / pow2 e\<bar> * pow2 e" using p by (simp only: abs_mult abs_of_pos)
  ultimately have "\<bar>of_int z * pow2 e - a\<bar> \<le> 1 / 2 * pow2 e" using p by (simp add: mult_right_mono)
  then have err: "\<bar>of_int z * pow2 e - a\<bar> \<le> a / 2 ^ 53 + 1 / 2 ^ 61" using pe by simp
  have "a / 2 ^ 53 \<le> a" "1 / 2 ^ 61 \<le> (1 :: rat)" using a(1) by simp_all
  then have "of_int z * pow2 e \<le> a + a + 1" using err by (simp only: abs_le_iff) linarith
  also have "\<dots> < 2 ^ 102" using a(2) by simp
  also have "(2 ^ 102 :: rat) \<le> pow2 1024" using pow2_mono [of 102 1024] by (simp add: pow2_def)
  finally have "f64 r = (if r < 0 then - (of_int z * pow2 e) else of_int z * pow2 e)"
    using False by (simp add: f64_def round64_def Let_def e_def z_def a_def not_le)
  then have "\<bar>f64 r - r\<bar> = \<bar>of_int z * pow2 e - a\<bar>" by (cases "r < 0") (simp_all add: a_def abs_minus_commute)
  moreover have "(1 / 2 ^ 61 :: rat) \<le> 1 / 2 ^ 60" by simp
  ultimately show ?thesis using err unfolding a_def by linarith
qed (simp add: f64_def round64_def)

lemma f64_between:
  assumes "lo \<le> r" "r \<le> hi" "- (2 ^ 80) \<le> lo" "hi \<le> 2 ^ 80" and "\<bar>lo\<bar> \<le> m" "\<bar>hi\<bar> \<le> m"
  shows "lo - (m / 2 ^ 53 + 1 / 2 ^ 60) \<le> f64 r" and "f64 r \<le> hi + (m / 2 ^ 53 + 1 / 2 ^ 60)"
proof -
  have r: "\<bar>r\<bar> \<le> m" using assms by linarith
  have "(2 ^ 80 :: rat) < 2 ^ 100" by simp
  then have "\<bar>r\<bar> < 2 ^ 100" using assms(1-4) by linarith
  then have "\<bar>f64 r - r\<bar> \<le> \<bar>r\<bar> / 2 ^ 53 + 1 / 2 ^ 60" by (rule f64_error)
  also have "\<dots> \<le> m / 2 ^ 53 + 1 / 2 ^ 60" using r by (simp add: divide_right_mono)
  finally show "lo - (m / 2 ^ 53 + 1 / 2 ^ 60) \<le> f64 r" "f64 r \<le> hi + (m / 2 ^ 53 + 1 / 2 ^ 60)" using assms(1,2) by linarith+
qed

section \<open>The jitter factor\<close>

lemma retry_factor_bounds:
  assumes "0 \<le> r" and "r \<le> 1"
  shows "799 / 1000 \<le> retry_factor r" and "retry_factor r \<le> 1201 / 1000"
proof -
  define c where "c = f64 (1/5)"
  define x1 where "x1 = f64_mul r 2"
  define x2 where "x2 = f64_add x1 (-1)"
  define x3 where "x3 = f64_mul x2 c"
  have c: "199999 / 1000000 \<le> c" "c \<le> 200001 / 1000000"
    using f64_between [of "1/5" "1/5" "1/5" "1/5"] by (simp_all add: c_def)
  have x1: "- (1 / 1000000) \<le> x1" "x1 \<le> 2 + 1 / 1000000"
    using f64_between [of 0 "r * 2" 2 2] assms by (simp_all add: x1_def f64_mul_def)
  have x2: "- (1 + 1 / 100000) \<le> x2" "x2 \<le> 1 + 1 / 100000"
    using f64_between [of "- (1 + 1 / 1000000)" "x1 + (-1)" "1 + 1 / 1000000" 2] x1 by (simp_all add: x2_def f64_add_def)
  have "\<bar>x2 * c\<bar> \<le> (1 + 1 / 100000) * (200001 / 1000000)"
    unfolding abs_mult using x2 c by (intro mult_mono) auto
  then have "\<bar>x2 * c\<bar> \<le> 200004 / 1000000" by (rule order_trans) simp
  then have p: "- (200004 / 1000000) \<le> x2 * c" "x2 * c \<le> 200004 / 1000000" by (simp_all only: abs_le_iff) linarith
  have x3: "- (200005 / 1000000) \<le> x3" "x3 \<le> 200005 / 1000000"
    using f64_between [of "- (200004 / 1000000)" "x2 * c" "200004 / 1000000" 1] p by (simp_all add: x3_def f64_mul_def)
  have "retry_factor r = f64 (1 + x3)" by (simp add: retry_factor_def x3_def x2_def x1_def c_def f64_add_def)
  then show "799 / 1000 \<le> retry_factor r" "retry_factor r \<le> 1201 / 1000"
    using f64_between [of "1 - 200005 / 1000000" "1 + x3" "1 + 200005 / 1000000" 2] x3 by simp_all
qed

lemma f64_scaled:
  assumes d: "0 < d" "d \<le> 2 ^ 62" and k: "799 / 1000 \<le> k" "k \<le> 1201 / (1000 :: rat)"
  shows "of_int d * (79 / 100) \<le> f64_mul (float64_of_int d) k" and "f64_mul (float64_of_int d) k \<le> of_int d * (121 / 100)"
proof -
  define D where "D = (of_int d :: rat)"
  define F where "F = float64_of_int d"
  have D1: "1 \<le> D" using d(1) by (simp add: D_def)
  have "(of_int d :: rat) \<le> of_int (2 ^ 62)" using d(2) by (simp only: of_int_le_iff)
  then have D2: "D \<le> 2 ^ 62" by (simp add: D_def)
  have small: "\<bar>D\<bar> < 2 ^ 100" using D1 D2 by simp
  have "F = f64 D" by (simp add: F_def D_def f64_def float64_of_int_def)
  then have "\<bar>F - D\<bar> \<le> D / 2 ^ 53 + 1 / 2 ^ 60" using f64_error [OF small] D1 by simp
  then have F: "\<bar>F - D\<bar> \<le> D / 10000" using D1 by simp
  then have "F - D \<le> D / 10000" "- (F - D) \<le> D / 10000" by (simp_all only: abs_le_iff)
  then have F1: "D * (9999 / 10000) \<le> F" "F \<le> D * (10001 / 10000)" by (simp_all add: field_simps)
  have lo: "D * (9999 / 10000) * (799 / 1000) \<le> F * k" using F1 k D1 by (intro mult_mono) auto
  have hi: "F * k \<le> D * (10001 / 10000) * (1201 / 1000)" using F1 k D1 by (intro mult_mono) auto
  have "\<bar>F * k\<bar> < 2 ^ 100" using lo hi D1 D2 by simp
  then have "\<bar>f64 (F * k) - F * k\<bar> \<le> \<bar>F * k\<bar> / 2 ^ 53 + 1 / 2 ^ 60" by (rule f64_error)
  moreover have "\<bar>F * k\<bar> \<le> 2 * D" using lo hi D1 by simp
  then have "\<bar>F * k\<bar> / 2 ^ 53 + 1 / 2 ^ 60 \<le> D / 10000" using D1 by simp
  ultimately have "\<bar>f64 (F * k) - F * k\<bar> \<le> D / 10000" by linarith
  then have "f64 (F * k) - F * k \<le> D / 10000" "- (f64 (F * k) - F * k) \<le> D / 10000" by (simp_all only: abs_le_iff)
  then have "D * (79 / 100) \<le> f64 (F * k)" "f64 (F * k) \<le> D * (121 / 100)" using lo hi D1 by (simp_all add: field_simps)
  then show "of_int d * (79 / 100) \<le> f64_mul (float64_of_int d) k" "f64_mul (float64_of_int d) k \<le> of_int d * (121 / 100)"
    by (simp_all add: f64_mul_def F_def D_def)
qed

section \<open>The doubling loop\<close>

lemma retry_base_eq:
  assumes "0 < d" "d \<le> mx" "mx \<le> 2 ^ 62"
  shows "retry_base mx n d = min mx (d * 2 ^ n)"
  using assms
proof (induction n arbitrary: d)
  case (Suc n)
  show ?case
  proof (cases "d = mx")
    case True
    have "mx * 1 \<le> mx * 2 ^ Suc n" using Suc.prems by (intro mult_left_mono one_le_power) simp_all
    then show ?thesis using True by simp
  next
    case False
    then have lt: "d < mx" using Suc.prems by simp
    then have i: "i64 (d * 2) = d * 2" using Suc.prems by (intro i64_id) (simp add: int_bounds_defs)
    show ?thesis
    proof (cases "mx < d * 2")
      case True
      have "d * 2 * 1 \<le> d * 2 * 2 ^ n" using Suc.prems by (intro mult_left_mono one_le_power) simp_all
      then have "mx \<le> d * 2 ^ Suc n" using True by simp
      moreover have "mx * 1 \<le> mx * 2 ^ n" using Suc.prems by (intro mult_left_mono one_le_power) simp_all
      ultimately show ?thesis using True lt i Suc.IH [of mx] Suc.prems by (simp add: Let_def min_def)
    next
      case False
      then show ?thesis using lt i Suc.IH [of "d * 2"] Suc.prems by (simp add: Let_def mult.assoc)
    qed
  qed
qed (simp add: min_def)

section \<open>Properties\<close>

text \<open>The retry delay follows the capped exponential. For a positive minimum, a maximum from the
  minimum up to \<open>2^62\<close> nanoseconds, any number of earlier retries and any random number in [0, 1), let
  \<open>b = min mx (mn * 2^retries)\<close> be the delay without jitter. The delay is never negative, never above the
  maximum and never above 121 percent of \<open>b\<close>; and one nanosecond more than it is at least 79 percent
  of \<open>b\<close>. So with the jitter it may lie below the configured minimum, down to about four fifths of it,
  and not further. The bounds hold for the floating point computation, rounding included.\<close>

theorem retryDelay_bounds:
  fixes retries :: nat
  assumes "0 < mn" and "mn \<le> mx" and "mx \<le> 2 ^ 62" and "0 \<le> rnd" and "rnd < 1"
  defines "b \<equiv> min mx (mn * 2 ^ retries)"
  shows "0 \<le> retryDelay mn mx retries rnd \<and> retryDelay mn mx retries rnd \<le> mx \<and>
    79 * b \<le> 100 * (retryDelay mn mx retries rnd + 1) \<and> 100 * retryDelay mn mx retries rnd \<le> 121 * b"
proof -
  have b: "retry_base mx retries mn = b" unfolding b_def by (rule retry_base_eq) (use assms in simp_all)
  have b0: "0 < b" "b \<le> mx" using assms(1,2) by (simp_all add: b_def)
  define v where "v = f64_mul (float64_of_int b) (retry_factor rnd)"
  have k: "799 / 1000 \<le> retry_factor rnd" "retry_factor rnd \<le> 1201 / 1000"
    using retry_factor_bounds [of rnd] assms(4,5) by simp_all
  have v: "of_int b * (79 / 100) \<le> v" "v \<le> of_int b * (121 / 100)"
    unfolding v_def using f64_scaled [OF b0(1) _ k] b0(2) assms(3) by simp_all
  have "0 \<le> v" using v(1) b0(1) by (meson divide_nonneg_nonneg less_imp_le mult_nonneg_nonneg of_int_0_le_iff order_trans zero_le_numeral)
  then have t: "truncate_int v = \<lfloor>v\<rfloor>" "0 \<le> \<lfloor>v\<rfloor>" by (simp_all add: truncate_int_def)
  define w where "w = (of_int \<lfloor>v\<rfloor> :: rat)"
  have "w \<le> v" "v < w + 1" unfolding w_def by linarith+
  then have "v * 100 \<le> (w + 1) * 100" "w * 100 \<le> v * 100" by simp_all
  moreover have "of_int b * 79 \<le> v * 100" "v * 100 \<le> of_int b * 121" using v by simp_all
  ultimately have "(of_int b :: rat) * 79 \<le> (w + 1) * 100" "w * 100 \<le> of_int b * 121"
    by (meson order_trans)+
  then have "of_int (79 * b) \<le> (of_int (100 * (\<lfloor>v\<rfloor> + 1)) :: rat)" "(of_int (100 * \<lfloor>v\<rfloor>) :: rat) \<le> of_int (121 * b)"
    by (simp_all add: w_def mult.commute)
  then have f: "79 * b \<le> 100 * (\<lfloor>v\<rfloor> + 1)" "100 * \<lfloor>v\<rfloor> \<le> 121 * b" by (simp_all only: of_int_le_iff)
  have "retryDelay mn mx retries rnd = (let out = (if mx < \<lfloor>v\<rfloor> then mx else \<lfloor>v\<rfloor>) in if out < 0 then 0 else out)"
    using assms(1,2) b t(1) unfolding v_def by (simp add: retryDelay_def Let_def)
  then have "retryDelay mn mx retries rnd = min mx \<lfloor>v\<rfloor>" using t(2) b0 by (auto simp: Let_def min_def)
  then show ?thesis using f t(2) b0 by (auto simp: min_def)
qed

theorem retryDelay_bounds_witness:
  "retryDelay 1000000000 30000000000 9 (1/2) \<le> 30000000000 \<and> 23000000000 \<le> retryDelay 1000000000 30000000000 9 (1/2)"
  using retryDelay_bounds [of 1000000000 30000000000 "1/2" 9] by simp

end
