(* ===== verification/SchedulerTheorems.thy ===== *)
theory SchedulerTheorems
  imports SchedulerProofs Retry
begin

text \<open>
  The scheduler as a machine: its loop, its publish goroutines, the acknowledgement worker's deletes and
  the stop, in any order; and the properties of its runs.
\<close>

section \<open>Steps\<close>

definition ack_deletes :: "uuid_pkg \<Rightarrow> Outbox \<Rightarrow> outbox_file \<Rightarrow> outbox_file \<Rightarrow> bool" where
  "ack_deletes U o' f f' \<longleftrightarrow> (\<exists>env mid res. DeletePending U env o' (ox_gatewayID o') mid f = (res, f'))"

record sched_state =
  ss_sched :: Scheduler
  ss_box :: outbox_state
  ss_result :: "sim_error option option"

text \<open>
  A pass of the loop with the acknowledgements that arrive during it, the events of its \<open>select\<close>, and what
  runs beside it. Passes and events may come in any order, which includes the order of the loop.
\<close>

inductive sched_step :: "uuid_pkg \<Rightarrow> Outbox \<Rightarrow> sched_state \<Rightarrow> sched_state \<Rightarrow> bool" for U o' where
  passes: "ss_result st = None \<Longrightarrow> (ack_deletes U o')\<^sup>*\<^sup>* (os_file (ss_box st)) f1 \<Longrightarrow>
     reads_between (os_file (ss_box st)) (le_pass le) f1 \<Longrightarrow>
     enqueue_env_ok U (os_hist (ss_box st)) (le_pass le) (ss_sched st) \<Longrightarrow>
     loop_pass U le (ss_sched st) f1 = (ret, s', f') \<Longrightarrow> (ack_deletes U o')\<^sup>*\<^sup>* f' (snd (le_counts le)) \<Longrightarrow>
     sched_step U o' st
       \<lparr>ss_sched = (if ret = None then s' else Run_end s'),
        ss_box = \<lparr>os_file = snd (le_counts le), os_hist = os_hist (ss_box st) @ drop (length (of_rows f1)) (of_rows f')\<rparr>,
        ss_result = ret\<rparr>"
| notified: "ss_result st = None \<Longrightarrow> (ack_deletes U o')\<^sup>*\<^sup>* (os_file (ss_box st)) f1 \<Longrightarrow>
     (\<And>i. shrinks (os_file (ss_box st)) (snd (reads i)) \<and> shrinks (snd (reads i)) f1) \<Longrightarrow>
     sched_step U o' st (st\<lparr>ss_sched := syncInflight U reads ctx order (ss_sched st), ss_box := (ss_box st)\<lparr>os_file := f1\<rparr>\<rparr>)"
| receives: "ss_result st = None \<Longrightarrow> sd_pubResults (ss_sched st) = res # rest \<Longrightarrow>
     sched_step U o' st (st\<lparr>ss_sched := onPublishResult now rnd res ((ss_sched st)\<lparr>sd_pubResults := rest\<rparr>)\<rparr>)"
| stops: "ss_result st = None \<Longrightarrow>
     sched_step U o' st (st\<lparr>ss_sched := Run_end (waitPublishes now results (ss_sched st)), ss_result := Some None\<rparr>)"
| fails: "ss_result st = None \<Longrightarrow> fail now results err (ss_sched st) = (e, s') \<Longrightarrow>
     sched_step U o' st (st\<lparr>ss_sched := Run_end s', ss_result := Some (Some e)\<rparr>)"
| calls: "k < length (sd_running (ss_sched st)) \<Longrightarrow> \<not> pc_called (sd_running (ss_sched st) ! k) \<Longrightarrow>
     sched_step U o' st (st\<lparr>ss_sched := publish_call k (ss_sched st)\<rparr>)"
| returns: "k < length (sd_running (ss_sched st)) \<Longrightarrow> pc_called (sd_running (ss_sched st) ! k) \<Longrightarrow>
     dropped \<or> int (length (sd_pubResults (ss_sched st))) < sg_maxInflight (sd_cfg (ss_sched st)) \<Longrightarrow>
     sched_step U o' st (st\<lparr>ss_sched := publish_return k perr dropped (ss_sched st)\<rparr>)"
| acknowledged: "ack_deletes U o' (os_file (ss_box st)) f1 \<Longrightarrow>
     sched_step U o' st (st\<lparr>ss_box := (ss_box st)\<lparr>os_file := f1\<rparr>\<rparr>)"
| shuts: "sched_step U o' st (st\<lparr>ss_sched := BeginShutdown deadline (ss_sched st)\<rparr>)"

definition sched_init :: "uuid_pkg \<Rightarrow> Outbox \<Rightarrow> outbox_state \<Rightarrow> sched_state \<Rightarrow> bool" where
  "sched_init U o' box st \<longleftrightarrow>
     (\<exists>opts boot s0 now. NewScheduler U opts boot = Inr s0 \<and> so_Outbox opts = Some o' \<and> so_FiniteBatch opts \<le> maxInt64 \<and>
        Run_begin now s0 = Inr (ss_sched st)) \<and>
     ss_box st = box \<and> ss_result st = None \<and> state_inv U o' box \<and> of_version (os_file box) = outboxSchemaVersion"

interpretation sdx: transition_system "sched_init U o' box" "sched_step U o'" for U o' box .

section \<open>Acknowledgements\<close>

lemma ack_deletes_effect:
  assumes "(ack_deletes U o')\<^sup>*\<^sup>* f f'"
  shows "shrinks f f' \<and> of_version f' = of_version f \<and> (outbox_inv U (ox_gatewayID o') sn f h \<longrightarrow> outbox_inv U (ox_gatewayID o') sn f' h)"
  using assms
proof (induction rule: rtranclp_induct)
  case base
  then show ?case by (simp add: shrinks_def)
next
  case (step g k)
  then obtain env mid res where D: "DeletePending U env o' (ox_gatewayID o') mid g = (res, k)" by (auto simp: ack_deletes_def)
  have "shrinks g k \<and> of_version k = of_version g" using D by (cases rule: DeletePending_cases) (auto simp: shrinks_def)
  then show ?case using step.IH DeletePending_inv [OF D, of "ox_gatewayID o'" sn h] shrinks_trans [of f g k] by auto
qed

section \<open>A pass by cases\<close>

lemma loop_pass_cases:
  assumes "loop_pass U le s f1 = (ret, s', f')"
  obtains (stopped) "ret = Some None" "f' = f1" "s' = waitPublishes (le_now le) (le_results le) s"
  | (fatal) e where "ret = Some (Some e)" "f' = f1" "s' = waitPublishes (le_now le) (le_results le) (setFatal e s)"
  | (failed) e s1 where "reconcile U (le_pass le) s f1 = (Some e, s1, f')" "ret \<noteq> None"
      "s' = waitPublishes (le_now le) (le_results le) s1 \<or> s' = waitPublishes (le_now le) (le_results le) (setFatal e s1)"
  | (expired) e s1 s2 where "reconcile U (le_pass le) s f1 = (None, s1, f')" "ret \<noteq> None"
      "checkCompletion (fst (le_counts le)) (le_now le) (snd (le_counts le)) s1 = (True, Some e, s2)"
      "s' = waitPublishes (le_now le) (le_results le) s2 \<or> s' = waitPublishes (le_now le) (le_results le) (setFatal e s2)"
  | (completed) s1 s2 where "reconcile U (le_pass le) s f1 = (None, s1, f')" "ret = Some None"
      "checkCompletion (fst (le_counts le)) (le_now le) (snd (le_counts le)) s1 = (True, None, s2)"
      "s' = waitPublishes (le_now le) (le_results le) (s2\<lparr>sd_completed := True\<rparr>)"
  | (continues) s1 s2 e where "reconcile U (le_pass le) s f1 = (None, s1, f')" "ret = None"
      "checkCompletion (fst (le_counts le)) (le_now le) (snd (le_counts le)) s1 = (False, e, s2)"
      "s' = armTimer (le_ready le) (le_armNow le) s2"
proof -
  obtain er s1 f2 where R: "reconcile U (le_pass le) s f1 = (er, s1, f2)" by (metis prod_cases3)
  obtain d e2 s2 where C: "checkCompletion (fst (le_counts le)) (le_now le) (snd (le_counts le)) s1 = (d, e2, s2)" by (metis prod_cases3)
  consider "le_ctx le 0" | e where "\<not> le_ctx le 0" "Fatal s = Some e" | "\<not> le_ctx le 0" "Fatal s = None" by (cases "Fatal s") auto
  then show ?thesis
  proof cases
    case 1
    then show ?thesis using assms stopped by (simp add: loop_pass_def Let_def)
  next
    case 2
    then show ?thesis using assms fatal [of e] by (auto simp: loop_pass_def Let_def fail_def)
  next
    case 3
    show ?thesis
    proof (cases er)
      case (Some e)
      then show ?thesis using assms 3 R failed [of e s1] by (cases "le_ctx le 1") (auto simp: loop_pass_def Let_def fail_def)
    next
      case None
      show ?thesis
      proof (cases d)
        case False
        then show ?thesis using assms 3 R C None continues [of s1 e2 s2] by (auto simp: loop_pass_def Let_def)
      next
        case True
        show ?thesis
        proof (cases e2)
          case (Some e)
          then show ?thesis using assms 3 R C None True expired [of s1 e s2]
            by (cases "le_ctx le 2") (auto simp: loop_pass_def Let_def fail_def)
        next
          case e2: None
          then show ?thesis using assms 3 R C None True completed [of s1 s2] by (auto simp: loop_pass_def Let_def)
        qed
      qed
    qed
  qed
qed

lemma checkCompletion_same:
  assumes "checkCompletion env now f s = (d, e, s')"
  shows "same_work s s' \<and> sd_out s' = sd_out s"
  using assms by (auto simp: checkCompletion_def same_work_def split: if_splits sum.splits)

lemma armTimer_same: "same_work s (armTimer ready now s) \<and> sd_out (armTimer ready now s) = sd_out s"
  by (simp add: armTimer_def resetTimer_def same_work_def Let_def)

lemma Run_end_same: "same_work s (Run_end s) \<and> sd_out (Run_end s) = sd_out s"
  by (simp add: Run_end_def same_work_def)

section \<open>The bounded working set\<close>

definition sched_inv :: "uuid_pkg \<Rightarrow> Outbox \<Rightarrow> sched_state \<Rightarrow> bool" where
  "sched_inv U o' st \<longleftrightarrow>
     state_inv U o' (ss_box st) \<and> of_version (os_file (ss_box st)) = outboxSchemaVersion \<and>
     sched_wf U (os_hist (ss_box st)) (ss_sched st) \<and> sd_out (ss_sched st) = o' \<and>
     (ss_result st = None \<longrightarrow> one_each (\<lambda>i. \<not> pendingIn U o' (os_file (ss_box st)) i) (ss_sched st))"

lemma wait_or_fatal:
  assumes "sched_wf U hist s" and "s' = waitPublishes now results s \<or> s' = waitPublishes now results (setFatal e s)"
  shows "sched_wf U hist s' \<and> sd_out s' = sd_out s"
  using assms waitPublishes_wf same_work_inv [OF setFatal_same(1)] setFatal_same(2) by auto

lemma loop_pass_inv:
  assumes U: "uuid_text_ok U" and inv: "outbox_inv U (ox_gatewayID o') sn f hist" and rb: "reads_between f (le_pass le) f1"
    and env: "enqueue_env_ok U hist (le_pass le) s" and L: "loop_pass U le s f1 = (ret, s', f')"
    and wf: "sched_wf U hist s" and one: "one_each (\<lambda>i. \<not> pendingIn U o' f i) s" and out: "sd_out s = o'"
  defines "hist' \<equiv> hist @ drop (length (of_rows f1)) (of_rows f')"
  shows "sched_wf U hist' s' \<and> sd_out s' = o' \<and> (ret = None \<longrightarrow> one_each (\<lambda>i. \<not> pendingIn U o' f' i) s')"
proof -
  have R: "sched_wf U hist' s1 \<and> one_each (\<lambda>i. \<not> pendingIn U o' f' i) s1 \<and> sd_out s1 = o'"
    if "reconcile U (le_pass le) s f1 = (err, s1, f')" for err s1
    using reconcile_inv [OF U inv rb env that wf one out] by (simp add: hist'_def)
  from L show ?thesis
  proof (cases rule: loop_pass_cases)
    case stopped
    then show ?thesis using waitPublishes_wf wf out by (simp add: hist'_def)
  next
    case (fatal e)
    then show ?thesis using wait_or_fatal [OF wf, of s' "le_now le" "le_results le" e] out by (simp add: hist'_def)
  next
    case (failed e s1)
    then show ?thesis using wait_or_fatal [of U hist' s1 s'] R by blast
  next
    case (expired e s1 s2)
    have "sched_wf U hist' s2 \<and> sd_out s2 = o'"
      using R [OF expired(1)] checkCompletion_same [OF expired(3)] same_work_inv [of s1 s2 U hist'] by auto
    then show ?thesis using wait_or_fatal [of U hist' s2 s'] expired(2,4) by blast
  next
    case (completed s1 s2)
    have "same_work s2 (s2\<lparr>sd_completed := True\<rparr>)" by (simp add: same_work_def)
    then have "sched_wf U hist' (s2\<lparr>sd_completed := True\<rparr>) \<and> sd_out s2 = o'"
      using R [OF completed(1)] checkCompletion_same [OF completed(3)] same_work_inv [of s1 s2 U hist'] same_work_inv by auto
    then show ?thesis using waitPublishes_wf completed(2,4) by simp
  next
    case (continues s1 s2 e)
    show ?thesis
      using R [OF continues(1)] checkCompletion_same [OF continues(3)] armTimer_same [of s2 "le_ready le" "le_armNow le"] continues(2,4)
        same_work_inv [of s1 s2] same_work_inv [of s2 s'] by auto
  qed
qed


section \<open>The plan of a run\<close>

text \<open>What retries and admissions leave alone.\<close>

definition same_plan :: "Scheduler \<Rightarrow> Scheduler \<Rightarrow> bool" where
  "same_plan s t \<longleftrightarrow> sd_cfg t = sd_cfg s \<and> sd_out t = sd_out s \<and> sd_bootID t = sd_bootID s \<and> sd_finiteTarget t = sd_finiteTarget s \<and>
     sd_genDone t = sd_genDone s \<and> sd_uniqueEnqueued t = sd_uniqueEnqueued s \<and> sd_completed t = sd_completed s"

lemma same_plan_refl [simp]: "same_plan s s"
  by (simp add: same_plan_def)

lemma same_plan_trans: "same_plan s t \<Longrightarrow> same_plan t u \<Longrightarrow> same_plan s u"
  by (simp add: same_plan_def)

lemma same_plan_ops [simp]:
  "same_plan s (startPublish i e s)" "same_plan s (scheduleBackoff now rnd i e s)" "same_plan s (entry_delete i s)" "same_plan s (admit it s)"
  "same_plan s (setFatal err s)" "same_plan s (armTimer ready t s)" "same_plan s (waitPublishes t results s)" "same_plan s (recorder ev s)"
  "same_plan s (Run_end s)" "same_plan s (BeginShutdown t s)" "same_plan s (publish_call k s)" "same_plan s (publish_return k perr dr s)"
  "same_plan s (s\<lparr>sd_genReady := b\<rparr>)" "same_plan s (onPublishResult t rnd res (s\<lparr>sd_pubResults := rs\<rparr>))"
proof -
  have o: "same_plan s (onPublishResult t rnd res s)" for s t rnd res
    by (simp add: same_plan_def) (simp add: onPublishResult_def scheduleBackoff_def entry_set_def split: option.split)
  have d: "same_plan s (drain_results results s)" for results s
    by (induction results s rule: drain_results.induct) (auto intro: o same_plan_trans)
  show "same_plan s (startPublish i e s)" "same_plan s (scheduleBackoff now rnd i e s)" "same_plan s (entry_delete i s)" "same_plan s (admit it s)"
    "same_plan s (setFatal err s)" "same_plan s (armTimer ready t s)" "same_plan s (recorder ev s)"
    "same_plan s (Run_end s)" "same_plan s (BeginShutdown t s)" "same_plan s (publish_call k s)" "same_plan s (publish_return k perr dr s)"
    "same_plan s (s\<lparr>sd_genReady := b\<rparr>)"
    by (simp_all add: same_plan_def startPublish_def scheduleBackoff_def entry_set_def entry_delete_def admit_def setFatal_def armTimer_def
        resetTimer_def Run_end_def BeginShutdown_def publish_call_def publish_return_def recorder_def Let_def)
  show "same_plan s (waitPublishes t results s)" by (simp add: waitPublishes_def d)
  have "same_plan s (s\<lparr>sd_pubResults := rs\<rparr>)" by (simp add: same_plan_def)
  then show "same_plan s (onPublishResult t rnd res (s\<lparr>sd_pubResults := rs\<rparr>))" using o same_plan_trans by blast
qed

lemma processDueRetries_plan: "processDueRetries U se order s = (err, s') \<Longrightarrow> same_plan s s'"
proof (induction order arbitrary: s)
  case (Cons i order)
  then show ?case
    by (auto split: option.splits if_splits sum.splits bool.splits intro: same_plan_trans [OF same_plan_ops(1)]
        same_plan_trans [OF same_plan_ops(2)] same_plan_trans [OF same_plan_ops(3)])
qed simp

lemma admit_items_plan: "admit_items items free s = (r, free', s') \<Longrightarrow> same_plan s s'"
proof (induction items arbitrary: free s)
  case (Cons it items)
  then show ?case by (auto split: if_splits intro: same_plan_trans [OF same_plan_ops(4)])
qed simp

lemma admit_pages_plan: "admit_pages U se page n cursor free s = (res, s') \<Longrightarrow> same_plan s s'"
proof (induction n arbitrary: page cursor free s)
  case (Suc n)
  then show ?case by (auto split: if_splits sum.splits prod.splits dest!: admit_items_plan intro: same_plan_trans)
qed simp

lemma admitPending_plan: "admitPending U se s = (res, s') \<Longrightarrow> same_plan s s'"
  by (auto simp: admitPending_def Let_def split: if_splits dest: admit_pages_plan)

lemma syncInflight_plan: "same_plan s (syncInflight U reads ctx order s)"
proof (induction order arbitrary: s)
  case Nil
  then show ?case by (simp add: same_plan_def)
next
  case (Cons i order)
  have "same_plan s (syncInflight U reads ctx order (entry_delete i s))" using Cons same_plan_trans [OF same_plan_ops(3)] by blast
  moreover have "same_plan s (syncInflight U reads ctx order s)" by (rule Cons)
  ultimately show ?case
    by (cases "rowStillPending U (fst (reads i)) (sd_out s) (snd (reads i)) i") simp_all
qed

lemma checkCompletion_plan: "checkCompletion env now f s = (d, e, s') \<Longrightarrow> same_plan s s'"
  by (auto simp: checkCompletion_def split: if_splits sum.splits)

text \<open>A pass either leaves the file and the plan alone or generates once, while generation is still due.\<close>

lemma reconcile_cases:
  assumes "reconcile U se s f1 = (err, s', f')"
  obtains (quiet) "f' = f1" "same_plan s s'"
  | (generates) s3 sb where "generate U se s3 f1 = (err, sb, f')" "same_plan s s3" "same_plan sb s'" "\<not> sd_genDone s"
proof -
  obtain sb where B: "reconcile_body U se s f1 = (err, sb, f')" and s': "same_plan sb s'"
    using assms by (auto simp: reconcile_def same_plan_def split: prod.splits)
  show ?thesis
  proof (cases "se_ready se")
    case False
    then show ?thesis using B s' quiet by (auto simp: reconcile_body_def same_plan_def)
  next
    case True
    obtain e1 s1 where p1: "processDueRetries U se (se_order se) s = (e1, s1)" by fastforce
    note i1 = processDueRetries_plan [OF p1]
    obtain r2 s2 where p2: "admitPending U se s1 = (r2, s2)" by fastforce
    have i2: "same_plan s s2" using admitPending_plan [OF p2] i1 same_plan_trans by blast
    show ?thesis
    proof (cases "\<exists>e. e1 = Some e")
      case True
      then show ?thesis using B \<open>se_ready se\<close> p1 i1 s' quiet same_plan_trans by (auto simp: reconcile_body_def)
    next
      case False
      then have e1: "e1 = None" by simp
      show ?thesis
      proof (cases r2)
        case (Inl e)
        then show ?thesis using B True p1 p2 e1 i2 s' quiet same_plan_trans by (auto simp: reconcile_body_def)
      next
        case (Inr mr)
        define s3 where "s3 = s2\<lparr>sd_genReady := (\<not> sd_genDone s2 \<and> \<not> sd_generationPaused s2 \<and>
          0 < sg_maxInflight (sd_cfg s2) - int (length (sd_inflight s2)) \<and> \<not> mr)\<rparr>"
        have i3: "same_plan s s3" using i2 same_plan_trans same_plan_ops(13) unfolding s3_def by blast
        have B3: "(if sd_genReady s3 \<and> \<not> se_now se < sd_nextGenAt s3 then generate U se s3 f1 else (None, s3, f1)) = (err, sb, f')"
          using B True p1 p2 e1 Inr unfolding reconcile_body_def s3_def by (simp add: Let_def split: if_splits)
        show ?thesis
        proof (cases "sd_genReady s3 \<and> \<not> se_now se < sd_nextGenAt s3")
          case True
          moreover have "\<not> sd_genDone s" using True i2 by (simp add: s3_def same_plan_def)
          ultimately show ?thesis using B3 i3 s' generates [of s3 sb] by auto
        next
          case False
          then show ?thesis using B3 i3 s' quiet same_plan_trans by auto
        qed
      qed
    qed
  qed
qed

lemma same_plan_fields:
  "same_plan s t \<Longrightarrow> sd_cfg t = sd_cfg s \<and> sd_out t = sd_out s \<and> sd_finiteTarget t = sd_finiteTarget s \<and>
     sd_genDone t = sd_genDone s \<and> sd_uniqueEnqueued t = sd_uniqueEnqueued s \<and> sd_completed t = sd_completed s"
  by (simp add: same_plan_def)

text \<open>One generation: the file and the plan.\<close>

lemma generate_cases:
  assumes G: "generate U se s f1 = (err, s', f')" and nd: "\<not> sd_genDone s"
  obtains (none) "f' = f1" "same_plan s s'"
  | (unknown) r where "err = Some ErrSchedulerCommitUnknown" "of_rows f' = of_rows f1 @ [r]" "same_plan s s'"
  | (one) r where "err = None" "of_rows f' = of_rows f1 @ [r]" "sd_uniqueEnqueued s' = sd_uniqueEnqueued s + 1"
      "sd_genDone s' \<longleftrightarrow> 0 < sd_finiteTarget s \<and> sd_finiteTarget s \<le> sint (sd_uniqueEnqueued s + 1)"
      "sd_finiteTarget s' = sd_finiteTarget s" "sd_completed s' = sd_completed s" "sd_out s' = sd_out s"
proof (cases "se_newUUID se")
  case (Inl e)
  then show ?thesis using G none by (auto simp: generate_def Let_def same_plan_def)
next
  case (Inr j)
  define s1 where "s1 = s\<lparr>sd_nextGenAt := se_now se + cadence s\<rparr>"
  have s1: "same_plan s s1" by (simp add: s1_def same_plan_def)
  obtain res f2 where E: "Enqueue U (se_enqueue se) (sd_out s1) (generate_request (se_now se) j s1) f1 = (res, f2)" by fastforce
  note rows = Enqueue_rows [OF E]
  have G': "(case res of Inl e \<Rightarrow> (if e = ErrOutboxFull then (None, s1\<lparr>sd_generationPaused := True\<rparr>, f2)
             else if e = ErrOutboxCommitUnknown then (Some ErrSchedulerCommitUnknown, s1, f2)
             else (Some ErrSchedulerEnqueue, s1, f2)) | Inr item \<Rightarrow> (None, generated (se_genClock se) item s1, f2)) = (err, s', f')"
    using G Inr E unfolding generate_def s1_def [symmetric] Let_def by (cases res) simp_all
  show ?thesis
  proof (cases res)
    case (Inl e)
    then have p: "same_plan s s'" and f: "f' = f2" using G' s1 by (auto simp: same_plan_def split: if_splits)
    have "f2 = f1" if "e \<noteq> ErrOutboxCommitUnknown"
      using E Inl that unfolding Enqueue_def by (cases rule: in_tx_cases) auto
    then show ?thesis using none p f unknown rows(1) G' Inl by (cases "e = ErrOutboxCommitUnknown") auto
  next
    case (Inr item)
    obtain r where "of_rows f2 = of_rows f1 @ [r]" using rows(3) Inr by blast
    moreover have "s' = generated (se_genClock se) item s1" "err = None" "f' = f2" using G' Inr by auto
    moreover have "same_plan (s1\<lparr>sd_uniqueEnqueued := sd_uniqueEnqueued s1 + 1\<rparr>)
       (admit item (let s2 = s1\<lparr>sd_uniqueEnqueued := sd_uniqueEnqueued s1 + 1\<rparr> in if sd_uniqueEnqueued s2 = 1 then recorder GenerationStart s2 else s2))"
      by (auto simp: Let_def intro: same_plan_trans [OF same_plan_ops(8) same_plan_ops(4)])
    then have "sd_uniqueEnqueued (generated (se_genClock se) item s1) = sd_uniqueEnqueued s + 1 \<and>
       (sd_genDone (generated (se_genClock se) item s1) \<longleftrightarrow> 0 < sd_finiteTarget s \<and> sd_finiteTarget s \<le> sint (sd_uniqueEnqueued s + 1)) \<and>
       sd_finiteTarget (generated (se_genClock se) item s1) = sd_finiteTarget s \<and> sd_completed (generated (se_genClock se) item s1) = sd_completed s \<and>
       sd_out (generated (se_genClock se) item s1) = sd_out s"
      using nd unfolding generated_def by (auto simp: same_plan_def s1_def Let_def)
    ultimately show ?thesis using one by auto
  qed
qed

lemma generate_box:
  assumes U: "uuid_text_ok U" "uuid_validate_ok U" and env: "enqueue_env_ok U hist se s"
    and G: "generate U se s f1 = (err, s', f')" and out: "sd_out s = o'"
    and inv: "outbox_inv U (ox_gatewayID o') (ox_sensorID o') f1 hist" and v: "of_version f1 = outboxSchemaVersion"
  shows "outbox_inv U (ox_gatewayID o') (ox_sensorID o') f' (hist @ drop (length (of_rows f1)) (of_rows f')) \<and> of_version f' = outboxSchemaVersion"
proof (cases "se_newUUID se")
  case (Inl e)
  then show ?thesis using G inv v by (auto simp: generate_def Let_def)
next
  case (Inr j)
  define s1 where "s1 = s\<lparr>sd_nextGenAt := se_now se + cadence s\<rparr>"
  obtain res f2 where E: "Enqueue U (se_enqueue se) o' (generate_request (se_now se) j s1) f1 = (res, f2)" by fastforce
  have "f' = f2" using G Inr E out by (auto simp: generate_def s1_def Let_def split: sum.splits if_splits)
  moreover have "typed (se_enqueue se) (generate_request (se_now se) j s1)"
    using env by (simp add: typed_def generate_request_def enqueue_env_ok_def s1_def i32_range)
  ultimately show ?thesis using Enqueue_inv [OF U E inv v] Enqueue_rows(2) [OF E] v by simp
qed

lemma reconcile_box:
  assumes U: "uuid_text_ok U" "uuid_validate_ok U" and env: "enqueue_env_ok U hist se s"
    and R: "reconcile U se s f1 = (err, s', f')" and out: "sd_out s = o'"
    and inv: "outbox_inv U (ox_gatewayID o') (ox_sensorID o') f1 hist" and v: "of_version f1 = outboxSchemaVersion"
  shows "outbox_inv U (ox_gatewayID o') (ox_sensorID o') f' (hist @ drop (length (of_rows f1)) (of_rows f')) \<and> of_version f' = outboxSchemaVersion"
  using R
proof (cases rule: reconcile_cases)
  case quiet
  then show ?thesis using inv v by simp
next
  case (generates s3 sb)
  have "enqueue_env_ok U hist se s3" "sd_out s3 = o'"
    using env out same_plan_fields [OF generates(2)] by (simp_all add: enqueue_env_ok_def)
  then show ?thesis using generate_box [OF U _ generates(1) _ inv v] by blast
qed

lemma loop_pass_reconcile:
  assumes "loop_pass U le s f1 = (ret, s', f')"
  shows "f' = f1 \<or> (\<exists>err s1. reconcile U (le_pass le) s f1 = (err, s1, f'))"
  using assms by (cases rule: loop_pass_cases) auto

lemma sched_step_inv:
  assumes U: "uuid_text_ok U" "uuid_validate_ok U" and "sched_step U o' st st'" and "sched_inv U o' st"
  shows "sched_inv U o' st'"
  using assms(3)
proof (cases rule: sched_step.cases)
  case (passes f1 le ret s' f')
  have inv: "state_inv U o' (ss_box st)" "sched_wf U (os_hist (ss_box st)) (ss_sched st)" "sd_out (ss_sched st) = o'"
      "one_each (\<lambda>i. \<not> pendingIn U o' (os_file (ss_box st)) i) (ss_sched st)" and v: "of_version (os_file (ss_box st)) = outboxSchemaVersion"
    using assms(4) passes(2) by (simp_all add: sched_inv_def)
  let ?h = "os_hist (ss_box st) @ drop (length (of_rows f1)) (of_rows f')"
  have f1: "outbox_inv U (ox_gatewayID o') (ox_sensorID o') f1 (os_hist (ss_box st))" "of_version f1 = outboxSchemaVersion"
    using ack_deletes_effect [OF passes(3)] inv(1) v by auto
  have P: "sched_wf U ?h s' \<and> sd_out s' = o' \<and> (ret = None \<longrightarrow> one_each (\<lambda>i. \<not> pendingIn U o' f' i) s')"
    by (rule loop_pass_inv [OF U(1) inv(1) passes(4,5,6) inv(2,4,3)])
  have f': "outbox_inv U (ox_gatewayID o') (ox_sensorID o') f' ?h \<and> of_version f' = outboxSchemaVersion"
    using loop_pass_reconcile [OF passes(6)] reconcile_box [OF U passes(5) _ inv(3) f1] f1 by auto
  note a = ack_deletes_effect [OF passes(7), of "ox_sensorID o'" ?h]
  have "one_each (\<lambda>i. \<not> pendingIn U o' (snd (le_counts le)) i) s'" if "ret = None"
    using P that a pendingIn_shrinks by (blast intro: one_each_mono)
  then show ?thesis
    using passes(1) P f' a same_work_inv [of s' "Run_end s'"] Run_end_same [of s'] by (auto simp: sched_inv_def)
next
  case (notified f1 reads ctx order)
  have inv: "state_inv U o' (ss_box st)" "sched_wf U (os_hist (ss_box st)) (ss_sched st)" "sd_out (ss_sched st) = o'"
      "one_each (\<lambda>i. \<not> pendingIn U o' (os_file (ss_box st)) i) (ss_sched st)" and v: "of_version (os_file (ss_box st)) = outboxSchemaVersion"
    using assms(4) notified(2) by (simp_all add: sched_inv_def)
  note a = ack_deletes_effect [OF notified(3), of "ox_sensorID o'" "os_hist (ss_box st)"]
  have "one_each (\<lambda>i. \<not> pendingIn U o' f1 i) (ss_sched st)"
    using inv(4) a pendingIn_shrinks by (blast intro: one_each_mono)
  from syncInflight_inv [OF inv(1) notified(4) inv(2) this inv(3)] show ?thesis
    using notified(1) a inv(1) v by (simp add: sched_inv_def)
next
  case (receives res rest now rnd)
  then show ?thesis using assms(4) receive_inv [OF _ _ receives(3)] by (auto simp: sched_inv_def)
next
  case (stops now results)
  then show ?thesis
    using assms(4) waitPublishes_wf same_work_inv Run_end_same [of "waitPublishes now results (ss_sched st)"] by (auto simp: sched_inv_def)
next
  case (fails now results err e s')
  have s': "s' = waitPublishes now results (setFatal e (ss_sched st))" using fails(3) by (auto simp: fail_def Let_def)
  have "sched_wf U (os_hist (ss_box st)) s' \<and> sd_out s' = sd_out (ss_sched st)"
    using assms(4) wait_or_fatal [of U "os_hist (ss_box st)" "ss_sched st" s' now results e] s' by (simp add: sched_inv_def)
  then show ?thesis using assms(4) fails(1) same_work_inv [of s' "Run_end s'"] Run_end_same [of s'] by (auto simp: sched_inv_def)
next
  case (calls k)
  then show ?thesis using assms(4) publish_call_inv [OF calls(2)] same_plan_fields [OF same_plan_ops(11)] by (simp add: sched_inv_def)
next
  case (returns k dropped perr)
  then show ?thesis
    using assms(4) publish_return_wf [OF returns(2)] publish_return_one [OF returns(2)] same_plan_fields [OF same_plan_ops(12)]
    by (simp add: sched_inv_def)
next
  case (acknowledged f1)
  note a = ack_deletes_effect [OF r_into_rtranclp [of "ack_deletes U o'", OF acknowledged(2)], of "ox_sensorID o'" "os_hist (ss_box st)"]
  then show ?thesis using assms(4) acknowledged(1) pendingIn_shrinks by (auto simp: sched_inv_def intro: one_each_mono)
next
  case (shuts deadline)
  have "same_work (ss_sched st) (BeginShutdown deadline (ss_sched st))" by (simp add: BeginShutdown_def same_work_def)
  then show ?thesis using assms(4) shuts same_work_inv same_plan_fields [OF same_plan_ops(10)] by (simp add: sched_inv_def)
qed

section \<open>Finite runs\<close>

lemma sint_inc: "sint (u :: 64 word) < 9223372036854775807 \<Longrightarrow> sint (u + 1) = sint u + 1"
proof -
  assume a: "sint u < 9223372036854775807"
  have "- (2 ^ 63) \<le> sint u" using sint_ge [of u] by simp
  then have "signed_take_bit 63 (sint u + 1) = sint u + 1" using a by (intro signed_take_bit_int_eq_self) simp_all
  then show ?thesis by (simp add: sint_word_ariths)
qed

definition plan_counts :: "int \<Rightarrow> 64 word \<Rightarrow> bool \<Rightarrow> bool" where
  "plan_counts T u d \<longleftrightarrow> T \<le> maxInt64 \<and> (0 < T \<longrightarrow> 0 \<le> sint u \<and> sint u \<le> T \<and> (d \<longleftrightarrow> sint u = T)) \<and> (T \<le> 0 \<longrightarrow> \<not> d)"

lemma plan_counts_inc:
  assumes "plan_counts T u False" and "d \<longleftrightarrow> 0 < T \<and> T \<le> sint (u + 1)"
  shows "plan_counts T (u + 1) d"
proof (cases "0 < T")
  case True
  then have "sint u < T" "0 \<le> sint u" "T \<le> maxInt64" using assms(1) by (auto simp: plan_counts_def)
  then have "sint (u + 1) = sint u + 1" by (intro sint_inc) (simp add: maxInt64_def)
  then show ?thesis using assms True by (auto simp: plan_counts_def)
qed (use assms in \<open>auto simp: plan_counts_def\<close>)

definition none_pending :: "outbox_file \<Rightarrow> bool" where
  "none_pending f \<longleftrightarrow> (\<forall>r \<in> set (of_rows f). ob_status r \<noteq> outboxStatusPending)"

definition plan_inv :: "nat \<Rightarrow> sched_state \<Rightarrow> bool" where
  "plan_inv n0 st \<longleftrightarrow> (let s = ss_sched st in
     plan_counts (sd_finiteTarget s) (sd_uniqueEnqueued s) (sd_genDone s) \<and>
     (\<exists>amb. of_nat (length (os_hist (ss_box st))) = (of_nat n0 + sd_uniqueEnqueued s + of_nat amb :: 64 word) \<and>
        (amb :: nat) \<le> 1 \<and> (amb = 1 \<longrightarrow> ss_result st \<noteq> None \<and> \<not> sd_completed s)) \<and>
     (sd_completed s \<longrightarrow> ss_result st = Some None \<and> 0 < sd_finiteTarget s \<and> sd_genDone s \<and> none_pending (os_file (ss_box st))))"

lemma none_pending_shrinks: "shrinks f g \<Longrightarrow> none_pending f \<Longrightarrow> none_pending g"
  by (auto simp: shrinks_def none_pending_def)

lemma Counts_zero:
  assumes "Counts env o' f = Inr c" "ct_PendingRows c = 0" and "\<forall>r \<in> set (of_rows f). ob_gateway_id r = ox_gatewayID o'"
  shows "none_pending f"
  using assms by (auto simp: Counts_def Let_def none_pending_def filter_empty_conv split: if_splits)

text \<open>The plan after a pass: at most one more row, counted unless its commit is ambiguous.\<close>

lemma reconcile_plan:
  assumes R: "reconcile U se s f1 = (err, s', f')" and c: "plan_counts (sd_finiteTarget s) (sd_uniqueEnqueued s) (sd_genDone s)"
  obtains amb where "plan_counts (sd_finiteTarget s') (sd_uniqueEnqueued s') (sd_genDone s')" "sd_completed s' = sd_completed s"
    "of_nat (length (drop (length (of_rows f1)) (of_rows f'))) = (sd_uniqueEnqueued s' - sd_uniqueEnqueued s + of_nat amb :: 64 word)"
    "amb \<le> (1 :: nat)" "amb = 1 \<Longrightarrow> err \<noteq> None" "sd_out s' = sd_out s"
  using R
proof (cases rule: reconcile_cases)
  case quiet
  then show ?thesis using that [of 0] c same_plan_fields [OF quiet(2)] by simp
next
  case (generates s3 sb)
  have p3: "sd_finiteTarget s3 = sd_finiteTarget s" "sd_uniqueEnqueued s3 = sd_uniqueEnqueued s" "sd_completed s3 = sd_completed s" "\<not> sd_genDone s3"
      "sd_out s3 = sd_out s"
    using same_plan_fields [OF generates(2)] generates(4) by auto
  have ps: "sd_finiteTarget s' = sd_finiteTarget sb" "sd_uniqueEnqueued s' = sd_uniqueEnqueued sb" "sd_completed s' = sd_completed sb"
      "sd_genDone s' = sd_genDone sb" "sd_out s' = sd_out sb" using same_plan_fields [OF generates(3)] by auto
  have c0: "plan_counts (sd_finiteTarget s) (sd_uniqueEnqueued s) False" using c generates(4) by simp
  from generates(1) p3(4) show ?thesis
  proof (cases rule: generate_cases)
    case none
    then show ?thesis using that [of 0] c0 same_plan_fields [OF none(2)] ps p3 by simp
  next
    case (unknown r)
    then show ?thesis using that [of 1] c0 same_plan_fields [OF unknown(3)] ps p3 by simp
  next
    case (one r)
    then show ?thesis using that [of 0] plan_counts_inc [OF c0, of "sd_genDone sb"] ps p3 by simp
  qed
qed

lemma plan_inv_pass:
  assumes inv: "\<forall>r \<in> set (of_rows (snd (le_counts le))). ob_gateway_id r = ox_gatewayID o'" and out: "sd_out s = o'"
    and L: "loop_pass U le s f1 = (ret, s', f')"
    and c: "plan_counts (sd_finiteTarget s) (sd_uniqueEnqueued s) (sd_genDone s)" and nc: "\<not> sd_completed s"
  obtains amb where "plan_counts (sd_finiteTarget s') (sd_uniqueEnqueued s') (sd_genDone s')"
    "of_nat (length (drop (length (of_rows f1)) (of_rows f'))) = (sd_uniqueEnqueued s' - sd_uniqueEnqueued s + of_nat amb :: 64 word)"
    "amb \<le> (1 :: nat)" "amb = 1 \<Longrightarrow> ret \<noteq> None \<and> \<not> sd_completed s'"
    "sd_completed s' \<Longrightarrow> ret = Some None \<and> 0 < sd_finiteTarget s' \<and> sd_genDone s' \<and> none_pending (snd (le_counts le))"
  using L
proof (cases rule: loop_pass_cases)
  case stopped
  then show ?thesis using that [of 0] c nc same_plan_fields [OF same_plan_ops(7)] by simp
next
  case (fatal e)
  have "same_plan s s'" unfolding fatal(3) by (rule same_plan_trans [OF same_plan_ops(5) same_plan_ops(7)])
  then show ?thesis using that [of 0] c nc fatal(2) same_plan_fields [of s s'] by simp
next
  case (failed e s1)
  from reconcile_plan [OF failed(1) c] obtain amb where a: "plan_counts (sd_finiteTarget s1) (sd_uniqueEnqueued s1) (sd_genDone s1)"
      "sd_completed s1 = sd_completed s" "amb \<le> (1 :: nat)"
      "of_nat (length (drop (length (of_rows f1)) (of_rows f'))) = (sd_uniqueEnqueued s1 - sd_uniqueEnqueued s + of_nat amb :: 64 word)" by metis
  have "same_plan s1 s'" using failed(3) same_plan_trans [OF same_plan_ops(5) same_plan_ops(7)] by auto
  then show ?thesis using that [of amb] a nc failed(2) same_plan_fields [of s1 s'] by simp
next
  case (expired e s1 s2)
  from reconcile_plan [OF expired(1) c] obtain amb where a: "plan_counts (sd_finiteTarget s1) (sd_uniqueEnqueued s1) (sd_genDone s1)"
      "sd_completed s1 = sd_completed s" "amb \<le> (1 :: nat)"
      "of_nat (length (drop (length (of_rows f1)) (of_rows f'))) = (sd_uniqueEnqueued s1 - sd_uniqueEnqueued s + of_nat amb :: 64 word)" by metis
  have "same_plan s2 s'" using expired(4) same_plan_trans [OF same_plan_ops(5) same_plan_ops(7)] by auto
  then show ?thesis
    using that [of amb] a nc expired(2) same_plan_fields [of s2 s'] same_plan_fields [OF checkCompletion_plan [OF expired(3)]] by simp
next
  case (completed s1 s2)
  from reconcile_plan [OF completed(1) c] obtain amb where a: "plan_counts (sd_finiteTarget s1) (sd_uniqueEnqueued s1) (sd_genDone s1)"
      "sd_completed s1 = sd_completed s" "amb \<le> (1 :: nat)" "amb = 1 \<Longrightarrow> False"
      "of_nat (length (drop (length (of_rows f1)) (of_rows f'))) = (sd_uniqueEnqueued s1 - sd_uniqueEnqueued s + of_nat amb :: 64 word)" by metis
  have "sd_out s1 = sd_out s" using reconcile_plan [OF completed(1) c] by metis
  then have o: "sd_out s1 = o'" using out by simp
  have s2: "same_plan s1 s2" by (rule checkCompletion_plan [OF completed(3)])
  have cc: "0 < sd_finiteTarget s1 \<and> sd_genDone s1 \<and> none_pending (snd (le_counts le))"
    using completed(3) Counts_zero [OF _ _ inv] o by (auto simp: checkCompletion_def split: if_splits sum.splits)
  have "amb = 0" using a(3,4) by (cases amb) auto
  then show ?thesis
    using that [of 0] a completed(2,4) cc same_plan_fields [OF s2]
      same_plan_fields [OF same_plan_ops(7) [of "s2\<lparr>sd_completed := True\<rparr>" "le_now le" "le_results le"]] by simp
next
  case (continues s1 s2 e)
  from reconcile_plan [OF continues(1) c] obtain amb where a: "plan_counts (sd_finiteTarget s1) (sd_uniqueEnqueued s1) (sd_genDone s1)"
      "sd_completed s1 = sd_completed s" "amb \<le> (1 :: nat)" "amb = 1 \<Longrightarrow> False"
      "of_nat (length (drop (length (of_rows f1)) (of_rows f'))) = (sd_uniqueEnqueued s1 - sd_uniqueEnqueued s + of_nat amb :: 64 word)" by metis
  have "amb = 0" using a(3,4) by (cases amb) auto
  moreover have "same_plan s1 s'" unfolding continues(4) by (rule same_plan_trans [OF checkCompletion_plan [OF continues(3)] same_plan_ops(6)])
  ultimately show ?thesis using that [of 0] a nc same_plan_fields [of s1 s'] by simp
qed

lemma plan_inv_step:
  assumes step: "sched_step U o' st st'" and inv: "sched_inv U o' st" "sched_inv U o' st'" and p: "plan_inv n0 st"
  shows "plan_inv n0 st'"
proof -
  have keep: "plan_inv n0 st'" if "same_plan (ss_sched st) (ss_sched st')" "os_hist (ss_box st') = os_hist (ss_box st)"
      "shrinks (os_file (ss_box st)) (os_file (ss_box st'))" "ss_result st' = ss_result st \<or> ss_result st = None \<and> ss_result st' \<noteq> None"
    using p same_plan_fields [OF that(1)] that(2-4) none_pending_shrinks [OF that(3)] unfolding plan_inv_def Let_def by auto
  from step show ?thesis
  proof (cases rule: sched_step.cases)
    case (passes f1 le ret s' f')
    have nc: "\<not> sd_completed (ss_sched st)" and c: "plan_counts (sd_finiteTarget (ss_sched st)) (sd_uniqueEnqueued (ss_sched st)) (sd_genDone (ss_sched st))"
      and h: "of_nat (length (os_hist (ss_box st))) = (of_nat n0 + sd_uniqueEnqueued (ss_sched st) :: 64 word)"
      using p passes(2) le_Suc_eq unfolding plan_inv_def Let_def by (auto simp: le_Suc_eq)
    have out: "sd_out (ss_sched st) = o'" using inv(1) by (simp add: sched_inv_def)
    have g: "\<forall>r \<in> set (of_rows (snd (le_counts le))). ob_gateway_id r = ox_gatewayID o'"
      using inv(2) row_gateway passes(1) by (auto simp: sched_inv_def)
    obtain amb where a: "plan_counts (sd_finiteTarget s') (sd_uniqueEnqueued s') (sd_genDone s')"
      "of_nat (length (drop (length (of_rows f1)) (of_rows f'))) = (sd_uniqueEnqueued s' - sd_uniqueEnqueued (ss_sched st) + of_nat amb :: 64 word)"
      "amb \<le> (1 :: nat)" "amb = 1 \<Longrightarrow> ret \<noteq> None \<and> \<not> sd_completed s'"
      "sd_completed s' \<Longrightarrow> ret = Some None \<and> 0 < sd_finiteTarget s' \<and> sd_genDone s' \<and> none_pending (snd (le_counts le))"
      using plan_inv_pass [OF g out passes(6) c nc] by metis
    have "of_nat (length (os_hist (ss_box st) @ drop (length (of_rows f1)) (of_rows f'))) = (of_nat n0 + sd_uniqueEnqueued s' + of_nat amb :: 64 word)"
      unfolding length_append of_nat_add h a(2) by (simp add: algebra_simps)
    moreover have "sd_finiteTarget (Run_end s') = sd_finiteTarget s'" "sd_uniqueEnqueued (Run_end s') = sd_uniqueEnqueued s'"
        "sd_genDone (Run_end s') = sd_genDone s'" "sd_completed (Run_end s') = sd_completed s'" using same_plan_fields [OF same_plan_ops(9)] by auto
    ultimately show ?thesis unfolding plan_inv_def Let_def passes(1) using a by (auto intro!: exI [of _ amb])
  next
    case (notified f1 reads ctx order)
    show ?thesis by (rule keep) (use notified ack_deletes_effect [OF notified(3)] syncInflight_plan in auto)
  next
    case (receives res rest now rnd)
    show ?thesis by (rule keep) (use receives in \<open>auto simp: shrinks_def\<close>)
  next
    case (stops now results)
    show ?thesis by (rule keep) (use stops same_plan_trans [OF same_plan_ops(7) same_plan_ops(9)] in \<open>auto simp: shrinks_def\<close>)
  next
    case (fails now results err e s')
    have "s' = waitPublishes now results (setFatal e (ss_sched st))" using fails(3) by (auto simp: fail_def Let_def)
    then have "same_plan (ss_sched st) (Run_end s')" using same_plan_trans same_plan_ops(5,7,9) by metis
    then show ?thesis by (intro keep) (use fails in \<open>auto simp: shrinks_def\<close>)
  next
    case (acknowledged f1)
    show ?thesis by (rule keep) (use acknowledged ack_deletes_effect [OF r_into_rtranclp [of "ack_deletes U o'", OF acknowledged(2)]] in auto)
  next
    case calls
    show ?thesis by (rule keep) (use calls in \<open>auto simp: shrinks_def\<close>)
  next
    case returns
    show ?thesis by (rule keep) (use returns in \<open>auto simp: shrinks_def\<close>)
  next
    case shuts
    show ?thesis by (rule keep) (use shuts in \<open>auto simp: shrinks_def\<close>)
  qed
qed

lemma NewScheduler_ok:
  assumes "NewScheduler U opts boot = Inr s" and "so_Outbox opts = Some o'"
  shows "sd_out s = o'" "1 \<le> sg_maxInflight (sd_cfg s)" "sd_inflight s = []" "sd_running s = []" "sd_pubResults s = []"
    "sd_uniqueEnqueued s = 0" "\<not> sd_genDone s" "\<not> sd_completed s" "sd_finiteTarget s = so_FiniteBatch opts" "0 \<le> so_FiniteBatch opts"
  using assms by (auto simp: NewScheduler_def Let_def schedulerConfig_of_def)

lemma sched_reach:
  assumes U: "uuid_text_ok U" "uuid_validate_ok U" and "sdx.reach U o' box st"
  shows "sched_inv U o' st \<and> plan_inv (length (os_hist box)) st"
  using assms(3)
proof (rule sdx.invariant)
  fix st assume "sched_init U o' box st"
  then obtain opts boot s0 now where N: "NewScheduler U opts boot = Inr s0" "so_Outbox opts = Some o'" "so_FiniteBatch opts \<le> maxInt64"
      and R: "Run_begin now s0 = Inr (ss_sched st)"
      and b: "ss_box st = box" "ss_result st = None" "state_inv U o' box" "of_version (os_file box) = outboxSchemaVersion"
    unfolding sched_init_def by blast
  note n = NewScheduler_ok [OF N(1,2)]
  have s: "ss_sched st = (recorder RunStart (s0\<lparr>sd_started := True\<rparr>))\<lparr>sd_timer := parkDuration, sd_nextGenAt := now\<rparr>"
    using R by (auto simp: Run_begin_def split: if_splits)
  have "sched_inv U o' st" unfolding sched_inv_def s using b n by (simp add: sched_wf_def one_each_def outstanding_def)
  moreover have "plan_inv (length (os_hist box)) st"
    unfolding plan_inv_def Let_def s using b n N(3) by (auto simp: plan_counts_def intro!: exI [of _ 0])
  ultimately show "sched_inv U o' st \<and> plan_inv (length (os_hist box)) st" by blast
qed (use sched_step_inv [OF U] plan_inv_step in blast)

section \<open>Admission\<close>

abbreviation in_flight :: "Scheduler \<Rightarrow> uuid \<Rightarrow> bool" where
  "in_flight s i \<equiv> map_of (sd_inflight s) i \<noteq> None"

lemma in_flight_admit: "in_flight (admit it s) i \<longleftrightarrow> in_flight s i \<or> i = im_MessageID it"
  by (simp add: admit_def)

text \<open>One page is admitted from its front until the slots are used up.\<close>

lemma admit_items_prefix:
  assumes "admit_items items free s = (returned, free', s')"
  shows "\<exists>pre post. items = pre @ post \<and> (\<forall>i. in_flight s' i \<longleftrightarrow> in_flight s i \<or> (\<exists>it \<in> set pre. im_MessageID it = i)) \<and>
    (post \<noteq> [] \<longrightarrow> returned \<and> free' \<le> 0)"
  using assms
proof (induction items arbitrary: free s)
  case Nil
  then show ?case by (intro exI [of _ "[]"]) simp
next
  case (Cons it items)
  show ?case
  proof (cases "free \<le> 0")
    case True
    then show ?thesis using Cons.prems by (intro exI [of _ "[]"] exI [of _ "it # items"]) auto
  next
    case False
    define t where "t = (if in_flight s (im_MessageID it) then s else admit it s)"
    have "admit_items items (if in_flight s (im_MessageID it) then free else free - 1) t = (returned, free', s')"
      using Cons.prems False by (auto simp: t_def split: if_splits)
    from Cons.IH [OF this] obtain pre post where pp: "items = pre @ post"
        "\<forall>i. in_flight s' i \<longleftrightarrow> in_flight t i \<or> (\<exists>it \<in> set pre. im_MessageID it = i)" "post \<noteq> [] \<longrightarrow> returned \<and> free' \<le> 0" by blast
    have "in_flight t i \<longleftrightarrow> in_flight s i \<or> i = im_MessageID it" for i
      using in_flight_admit [of it s i] by (auto simp: t_def)
    then show ?thesis using pp by (intro exI [of _ "it # pre"] exI [of _ post]) auto
  qed
qed

lemma admit_items_returned: "admit_items items free s = (True, free', s') \<Longrightarrow> free' \<le> 0"
  by (induction items arbitrary: free s) (auto split: if_splits)

lemma free_slots_full:
  assumes "distinct ids" "\<forall>i \<in> set ids. in_flight s i" and "int (length ids) = sg_maxInflight (sd_cfg s)"
  shows "free_slots s \<le> 0"
proof -
  have "set ids \<subseteq> fst ` set (sd_inflight s)" using assms(2) by (auto simp only: map_of_eq_None_iff not_not)
  then have "card (set ids) \<le> length (sd_inflight s)"
    by (metis card_length card_mono finite_imageI finite_set length_map list.set_map order_trans)
  then show ?thesis using assms(1,3) by (simp add: free_slots_def distinct_card)
qed

text \<open>The first page: the oldest pending rows, in order, as items.\<close>

lemma scan_rows_nth: "scan_rows U rs = Inr items \<Longrightarrow> length items = length rs \<and> (\<forall>i < length rs. scanOutboxItem U (rs ! i) = Inr (items ! i))"
  by (induction rs arbitrary: items) (auto simp: nth_Cons split: nat.splits)

lemma pending_rows_props:
  assumes inv: "outbox_inv U (ox_gatewayID o') sn f hist"
  shows "sorted_wrt (<) (map ob_id (pending_rows o' f))" "set (pending_rows o' f) = {r \<in> set (of_rows f). ob_status r = outboxStatusPending}"
    "distinct (map ob_message_id (pending_rows o' f))" "\<forall>r \<in> set (pending_rows o' f). 0 < ob_id r"
proof -
  let ?p = "\<lambda>r. ob_gateway_id r = ox_gatewayID o' \<and> ob_status r = outboxStatusPending"
  have rows: "sorted_wrt (<) (map ob_id (of_rows f))" "distinct (map ob_message_id (of_rows f))"
    using inv by (simp_all add: outbox_inv_def rows_inv_def)
  have s: "sorted_wrt (<) (map ob_id (filter ?p (of_rows f)))" using rows(1) by (simp add: sorted_wrt_map sorted_wrt_filter)
  then have "sorted (map ob_id (filter ?p (of_rows f)))" by (simp add: strict_sorted_iff)
  then have e: "pending_rows o' f = filter ?p (of_rows f)" by (simp add: pending_rows_def sort_key_id_if_sorted)
  show "sorted_wrt (<) (map ob_id (pending_rows o' f))" using s by (simp add: e)
  show "set (pending_rows o' f) = {r \<in> set (of_rows f). ob_status r = outboxStatusPending}" using row_gateway [OF inv] by (auto simp: e)
  show "distinct (map ob_message_id (pending_rows o' f))" using rows(2) by (simp add: e distinct_map_filter)
  show "\<forall>r \<in> set (pending_rows o' f). 0 < ob_id r" using inv by (force simp: e outbox_inv_def rows_inv_def)
qed

lemma first_page:
  assumes U: "uuid_text_ok U" and inv: "outbox_inv U (ox_gatewayID o') sn f hist"
    and P: "PendingAfter U env o' 0 limit f = Inr items"
  shows "length items = length (take (nat limit) (pending_rows o' f))"
    and "k < length items \<Longrightarrow> ob_message_id (pending_rows o' f ! k) = uuid_String U (im_MessageID (items ! k))"
    and "distinct (map im_MessageID items)"
proof -
  let ?L = "pending_rows o' f"
  note pp = pending_rows_props [OF inv]
  have "filter (\<lambda>r. 0 < ob_id r) ?L = ?L" using pp(4) by (simp add: filter_id_conv)
  then have sc: "scan_rows U (take (nat limit) ?L) = Inr items" using P by (auto simp: PendingAfter_def split: if_splits)
  note nth = scan_rows_nth [OF sc]
  show len: "length items = length (take (nat limit) ?L)" using nth by simp
  have id: "ob_message_id (?L ! k) = uuid_String U (im_MessageID (items ! k))" if k: "k < length items" for k
  proof -
    have i: "scanOutboxItem U (?L ! k) = Inr (items ! k)" using nth k by auto
    have "?L ! k \<in> set (of_rows f)" using pp(2) k len nth_mem [of k ?L] by auto
    then obtain mid boot t where "scanOutboxItem U (?L ! k) = Inr (row_item (?L ! k) mid boot t)" "ob_message_id (?L ! k) = uuid_String U mid"
      using scan_built [OF U row_built [OF inv]] by metis
    then show ?thesis using i by (auto simp: row_item_def)
  qed
  then show "k < length items \<Longrightarrow> ob_message_id (?L ! k) = uuid_String U (im_MessageID (items ! k))" by blast
  show "distinct (map im_MessageID items)"
  proof (rule distinct_conv_nth [THEN iffD2], intro allI impI)
    fix i j assume ij: "i < length (map im_MessageID items)" "j < length (map im_MessageID items)" "i \<noteq> j"
    have "i < length ?L" "j < length ?L" using ij len by auto
    then have "map ob_message_id ?L ! i \<noteq> map ob_message_id ?L ! j" using pp(3) ij(3) by (auto simp: distinct_conv_nth)
    then show "map im_MessageID items ! i \<noteq> map im_MessageID items ! j" using id ij len by auto
  qed
qed

lemma admitPending_first:
  assumes U: "uuid_text_ok U" and inv: "outbox_inv U (ox_gatewayID o') sn f hist" and wf: "sched_wf U hist s" and out: "sd_out s = o'"
    and A: "admitPending U se s = (Inr mr, s')" and pages: "\<And>p. snd (se_page se p) = f"
    and one: "one_each (gone_for_pages U o' se f) s"
  shows "\<not> mr \<and> (\<exists>n. (\<forall>i. in_flight s' i \<longleftrightarrow> in_flight s i \<or> (\<exists>k < n. ob_message_id (pending_rows o' f ! k) = uuid_String U i)) \<and>
    n \<le> length (pending_rows o' f) \<and> (free_slots s' \<le> 0 \<or> n = length (pending_rows o' f)))"
proof (cases "free_slots s \<le> 0")
  case True
  then show ?thesis using A by (auto simp: admitPending_def Let_def free_slots_def intro!: exI [of _ 0])
next
  case False
  let ?L = "pending_rows o' f" and ?P = "sg_maxInflight (sd_cfg s)"
  have pos: "0 < ?P" using False by (simp add: free_slots_def)
  obtain m where m: "maxAdmissionPages = Suc (Suc m)" by (simp add: maxAdmissionPages_def)
  have A': "admit_pages U se 0 (Suc (Suc m)) 0 (free_slots s) s = (Inr mr, s')"
    using A False by (simp add: admitPending_def Let_def free_slots_def m)
  then obtain items where I: "PendingAfter U (fst (se_page se 0)) o' 0 ?P f = Inr items"
    using False by (auto simp: pages out split: sum.splits)
  note fp = first_page [OF U inv I]
  obtain returned free' s1 where a: "admit_items items (free_slots s) s = (returned, free', s1)" by (metis prod_cases3)
  have "items = [] \<longleftrightarrow> ?L = []" using fp(1) pos by (auto simp: min_def split: if_splits)
  show ?thesis
  proof (cases "items = []")
    case True
    then show ?thesis using A' False I \<open>items = [] \<longleftrightarrow> ?L = []\<close> by (auto simp: pages out intro!: exI [of _ 0])
  next
    case ne: False
    have its: "\<not> gone_for_pages U o' se f (im_MessageID it) \<and> stored U hist (im_MessageID it) (im_Topic it) (im_Payload it)"
      if "it \<in> set items" for it
      using page_item [OF U inv _ I that] pages by (auto simp: gone_for_pages_def shrinks_def)
    have w: "sched_wf U hist s1 \<and> free' = free_slots s1 \<and> sd_cfg s1 = sd_cfg s"
      using admit_items_inv [OF a wf one refl its] by blast
    obtain pre post where pp: "items = pre @ post" "\<forall>i. in_flight s1 i \<longleftrightarrow> in_flight s i \<or> (\<exists>it \<in> set pre. im_MessageID it = i)"
        "post \<noteq> [] \<longrightarrow> returned \<and> free' \<le> 0" using admit_items_prefix [OF a] by blast
    have "\<exists>it \<in> set pre. im_MessageID it = i" if "k < length pre" "ob_message_id (?L ! k) = uuid_String U i" for i k
    proof -
      have "uuid_String U (im_MessageID (pre ! k)) = uuid_String U i" using fp(2) [of k] that pp(1) by (simp add: nth_append)
      then show ?thesis using uuid_String_inj [OF U] that(1) nth_mem by blast
    qed
    moreover have "\<exists>k < length pre. ob_message_id (?L ! k) = uuid_String U (im_MessageID it)" if it: "it \<in> set pre" for it
    proof -
      obtain k where "k < length pre" "pre ! k = it" using it by (auto simp: in_set_conv_nth)
      then show ?thesis using fp(2) [of k] pp(1) by (auto simp: nth_append)
    qed
    ultimately have fl: "in_flight s1 i \<longleftrightarrow> in_flight s i \<or> (\<exists>k < length pre. ob_message_id (?L ! k) = uuid_String U i)" for i
      using pp(2) by blast
    have n: "length pre \<le> length ?L" using fp(1) pp(1) by simp
    show ?thesis
    proof (cases "returned \<or> int (length items) < ?P")
      case True
      then have "mr = False" "s' = s1" using A' False I ne a by (auto simp: pages out)
      moreover have "free_slots s1 \<le> 0 \<or> length pre = length ?L"
      proof (cases "post = []")
        case True
        show ?thesis
        proof (cases returned)
          case True
          then show ?thesis using a w admit_items_returned by simp
        next
          case False
          then have "length items < nat ?P" using \<open>returned \<or> int (length items) < ?P\<close> by auto
          then show ?thesis using fp(1) pp(1) \<open>post = []\<close> by auto
        qed
      qed (use pp(3) w in auto)
      ultimately show ?thesis using fl n by blast
    next
      case full: False
      then have "post = []" "length items = nat ?P" using pp(3) fp(1) by auto
      then have f0: "free_slots s1 \<le> 0"
        using fp(3) pp(1,2) w pos by (intro free_slots_full [of "map im_MessageID items"]) auto
      then have "mr = False" "s' = s1" using A' False I ne a full w by (auto simp: pages out)
      then show ?thesis using fl n f0 by blast
    qed
  qed
qed

section \<open>A finite run\<close>

text \<open>One batch: generated and enqueued in the first pass, acknowledged, completed in the second.\<close>

definition fx_options :: SchedulerOptions where
  "fx_options =
     \<lparr>so_Outbox = Some fx_outbox, so_Publisher = True, so_Ack = True, so_AckNotify = True,
      so_Config = \<lparr>cf_GatewayID = ''gw1'', cf_SensorID = ''s1'', cf_SamplesPerBatch = 500, cf_SampleIntervalUS = 10000,
        cf_BatchSpan = 0, cf_AckTimeout = 1, cf_RetryMinDelay = 1, cf_RetryMaxDelay = 1, cf_MaxInflight = 2,
        cf_OutboxMaxRows = 10, cf_ShutdownTimeout = 1\<rparr>,
      so_FiniteBatch = 1, so_CompletionBudget = 1, so_Latency = False\<rparr>"

definition fx_sched :: Scheduler where
  "fx_sched =
     \<lparr>sd_cfg = schedulerConfig_of (so_Config fx_options), sd_out = fx_outbox, sd_bootID = fx_boot, sd_latency = False,
      sd_recorded = [], sd_finiteTarget = 1, sd_completionBudget = 1, sd_started = True, sd_done = False,
      sd_shutdownDeadline = 0, sd_timer = parkDuration, sd_inflight = [], sd_inflightCount = 0, sd_running = [],
      sd_pubResults = [], sd_nextGenAt = fx_start, sd_genDone = False, sd_genReady = False, sd_readyObserved = False,
      sd_completionDeadline = 0, sd_generationPaused = False, sd_completed = False, sd_uniqueEnqueued = 0,
      sd_publishAttempts = 0, sd_fatalErr = None, sd_fatalCh = False\<rparr>"

definition fx_acked_file :: outbox_file where
  "fx_acked_file = fx_file\<lparr>of_rows := []\<rparr>"

definition fx_pass :: "bool \<Rightarrow> outbox_file \<Rightarrow> outbox_file \<Rightarrow> loop_env" where
  "fx_pass ready f counted =
     \<lparr>le_pass = \<lparr>se_ready = ready, se_now = fx_start, se_order = [], se_lookup = (\<lambda>_. (fx_sql, f)), se_clock = (\<lambda>_. 0),
        se_rand = (\<lambda>_. 0), se_page = (\<lambda>_. (fx_sql, f)), se_newUUID = (if ready then Inr fx_mid else Inl ErrSchedulerFatal), se_enqueue = fx_sql, se_genClock = fx_start\<rparr>,
      le_ctx = (\<lambda>_. False), le_counts = (fx_sql, counted), le_now = fx_start, le_ready = ready, le_armNow = fx_start, le_results = []\<rparr>"

definition fx_started :: sched_state where
  "fx_started = \<lparr>ss_sched = fx_sched, ss_box = \<lparr>os_file = fx_schema, os_hist = []\<rparr>, ss_result = None\<rparr>"

definition fx_generated :: sched_state where
  "fx_generated =
     \<lparr>ss_sched = fst (snd (loop_pass canonical_uuid (fx_pass True fx_schema fx_file) fx_sched fx_schema)),
      ss_box = \<lparr>os_file = fx_file, os_hist = of_rows fx_file\<rparr>, ss_result = None\<rparr>"

definition fx_completed :: sched_state where
  "fx_completed =
     \<lparr>ss_sched = Run_end (fst (snd (loop_pass canonical_uuid (fx_pass False fx_acked_file fx_acked_file) (ss_sched fx_generated) fx_acked_file))),
      ss_box = \<lparr>os_file = fx_acked_file, os_hist = of_rows fx_file\<rparr>, ss_result = Some None\<rparr>"

lemma fx_started_init: "sched_init canonical_uuid fx_outbox \<lparr>os_file = fx_schema, os_hist = []\<rparr> fx_started"
proof -
  have "NewScheduler canonical_uuid fx_options (Inr fx_boot) = Inr (fx_sched\<lparr>sd_started := False, sd_timer := 0, sd_nextGenAt := 0\<rparr>)"
    using fx_ids(2,4) by (simp add: NewScheduler_def fx_options_def fx_sched_def Let_def valid_boot_id_def)
  moreover have "Run_begin fx_start (fx_sched\<lparr>sd_started := False, sd_timer := 0, sd_nextGenAt := 0\<rparr>) = Inr fx_sched"
    by (simp add: Run_begin_def fx_sched_def recorder_def)
  moreover have "outbox_inv canonical_uuid (ox_gatewayID fx_outbox) (ox_sensorID fx_outbox) fx_schema []"
    using prepare_inv [OF fx_prepare empty_inv] .
  moreover have "so_Outbox fx_options = Some fx_outbox" "so_FiniteBatch fx_options \<le> maxInt64" "of_version fx_schema = outboxSchemaVersion"
    by (simp_all add: fx_options_def maxInt64_def fx_schema_def outboxSchemaVersion_def)
  ultimately show ?thesis unfolding sched_init_def fx_started_def by auto
qed

lemma fx_counts: "\<exists>c. Counts fx_sql fx_outbox fx_file = Inr c \<and> ct_PendingRows c = 1"
proof -
  obtain r where r: "of_rows fx_file = [r]" "selected canonical_uuid ''gw1'' fx_mid r" using fx_file_rows by blast
  have "state_inv canonical_uuid fx_outbox \<lparr>os_file = fx_file, os_hist = of_rows fx_file\<rparr>"
    by (rule outbox_reach_inv [OF canonical_text_ok canonical_validate_ok fx_outbox_run])
  then have "built_row canonical_uuid (ox_gatewayID fx_outbox) (ox_sensorID fx_outbox) r"
    using r(1) by (simp add: outbox_inv_def)
  then have "in_i64 (ob_byte_size r)" using built_row_size by (fastforce simp: int_bounds_defs)
  then show ?thesis
    using r fx_sql_healthy by (simp add: Counts_def Let_def selected_def fx_outbox_def outboxStatusPending_def outboxStatusQuarantined_def in_i64_def int_bounds_defs)
qed

lemma fx_delete: "ack_deletes canonical_uuid fx_outbox fx_file fx_acked_file"
proof -
  have "DeletePending canonical_uuid fx_sql fx_outbox ''gw1'' fx_mid fx_file = (Inr True, fx_acked_file)"
    using fx_file_rows(1) fx_sql_healthy by (auto simp: DeletePending_def fx_outbox_def fx_acked_file_def)
  then show ?thesis unfolding ack_deletes_def by (auto simp: fx_outbox_def)
qed

lemma fx_first_pass:
  obtains s1 where "loop_pass canonical_uuid (fx_pass True fx_schema fx_file) fx_sched fx_schema = (None, s1, fx_file)"
    "sd_finiteTarget s1 = 1" "sd_genDone s1" "sd_out s1 = fx_outbox" "sd_uniqueEnqueued s1 = 1" "sd_fatalErr s1 = None" "\<not> sd_completed s1"
    "length (sd_inflight s1) = 1" "sd_cfg s1 = sd_cfg fx_sched"
proof -
  let ?se = "le_pass (fx_pass True fx_schema fx_file)"
  have page: "PendingAfter canonical_uuid fx_sql fx_outbox 0 2 fx_schema = Inr []"
    using fx_sql_healthy by (simp add: PendingAfter_def fx_outbox_def pending_rows_def fx_schema_def)
  have req: "generate_request fx_start fx_mid (fx_sched\<lparr>sd_genReady := True, sd_nextGenAt := fx_start + cadence s\<rparr>) = fx_enqueue" for s
    by (simp add: generate_request_def fx_sched_def fx_options_def schedulerConfig_of_def fx_enqueue_def i32_def fx_start_def)
  obtain item where E: "Enqueue canonical_uuid fx_sql fx_outbox fx_enqueue fx_schema = (Inr item, fx_file)" using fx_Enqueue by blast
  define s0 where "s0 = fx_sched\<lparr>sd_genReady := True, sd_nextGenAt := fx_start + cadence (fx_sched\<lparr>sd_genReady := True\<rparr>)\<rparr>"
  have cfg: "sg_maxInflight (sd_cfg fx_sched) = 2" by (simp add: fx_sched_def fx_options_def schedulerConfig_of_def)
  have adm: "admitPending canonical_uuid ?se fx_sched = (Inr False, fx_sched)"
    using page by (simp add: admitPending_def cfg maxAdmissionPages_def numeral_eq_Suc fx_pass_def) (simp add: fx_sched_def)
  have R: "reconcile canonical_uuid ?se fx_sched fx_schema = (None,
      (generated fx_start item s0)\<lparr>sd_readyObserved := True, sd_inflightCount := length (sd_inflight (generated fx_start item s0))\<rparr>, fx_file)"
    using adm E req [of "fx_sched\<lparr>sd_genReady := True\<rparr>"] cfg
    by (simp add: reconcile_def reconcile_body_def fx_pass_def generate_def Let_def s0_def) (simp add: fx_sched_def)
  have g: "sd_finiteTarget (generated fx_start item s0) = 1" "sd_genDone (generated fx_start item s0)" "sd_out (generated fx_start item s0) = fx_outbox"
      "sd_uniqueEnqueued (generated fx_start item s0) = 1" "sd_fatalErr (generated fx_start item s0) = None" "\<not> sd_completed (generated fx_start item s0)"
      "sd_completionDeadline (generated fx_start item s0) = fx_start + 1" "length (sd_inflight (generated fx_start item s0)) = 1"
      "sd_cfg (generated fx_start item s0) = sd_cfg fx_sched"
    by (simp_all add: generated_def Let_def s0_def fx_sched_def admit_def startPublish_def entry_set_def recorder_def)
  define s1 where "s1 = (generated fx_start item s0)\<lparr>sd_readyObserved := True, sd_inflightCount := length (sd_inflight (generated fx_start item s0))\<rparr>"
  obtain c where c: "Counts fx_sql fx_outbox fx_file = Inr c" "ct_PendingRows c = 1" using fx_counts by blast
  have "checkCompletion fx_sql fx_start fx_file s1 = (False, None, s1)"
    using c g by (simp add: checkCompletion_def s1_def)
  then have L: "loop_pass canonical_uuid (fx_pass True fx_schema fx_file) fx_sched fx_schema = (None, armTimer True fx_start s1, fx_file)"
    using R by (simp add: loop_pass_def s1_def fx_pass_def Fatal_def) (simp add: fx_sched_def)
  show ?thesis
    by (rule that [OF L]) (use g in \<open>simp_all add: s1_def armTimer_def resetTimer_def Let_def\<close>)
qed

lemma fx_second_pass:
  obtains s2 where "loop_pass canonical_uuid (fx_pass False fx_acked_file fx_acked_file) (ss_sched fx_generated) fx_acked_file = (Some None, s2, fx_acked_file)"
    "sd_completed s2" "sd_finiteTarget s2 = 1" "sd_uniqueEnqueued s2 = 1"
proof -
  obtain s1 where s1: "ss_sched fx_generated = s1" "sd_finiteTarget s1 = 1" "sd_genDone s1" "sd_out s1 = fx_outbox" "sd_uniqueEnqueued s1 = 1"
      "sd_fatalErr s1 = None" using fx_first_pass by (metis fx_generated_def fst_conv snd_conv sched_state.select_convs(1))
  define t where "t = s1\<lparr>sd_genReady := False, sd_readyObserved := False, sd_inflightCount := length (sd_inflight s1)\<rparr>"
  have R: "reconcile canonical_uuid (le_pass (fx_pass False fx_acked_file fx_acked_file)) s1 fx_acked_file = (None, t, fx_acked_file)"
    by (simp add: reconcile_def reconcile_body_def fx_pass_def t_def)
  have "\<exists>c. Counts fx_sql fx_outbox fx_acked_file = Inr c \<and> ct_PendingRows c = 0"
    using fx_sql_healthy by (simp add: Counts_def fx_acked_file_def int_bounds_defs)
  then have C: "checkCompletion fx_sql fx_start fx_acked_file t = (True, None, recorder DrainComplete t)"
    using s1 by (auto simp: checkCompletion_def t_def)
  have "loop_pass canonical_uuid (fx_pass False fx_acked_file fx_acked_file) s1 fx_acked_file =
      (Some None, waitPublishes fx_start [] ((recorder DrainComplete t)\<lparr>sd_completed := True\<rparr>), fx_acked_file)"
    using R C s1 by (simp add: loop_pass_def fx_pass_def Fatal_def)
  then show ?thesis by (rule that [unfolded s1(1)]) (use s1 in \<open>simp_all add: t_def\<close>)
qed

lemma fx_sched_run:
  "sdx.reach canonical_uuid fx_outbox \<lparr>os_file = fx_schema, os_hist = []\<rparr> fx_generated"
  "sdx.reach canonical_uuid fx_outbox \<lparr>os_file = fx_schema, os_hist = []\<rparr> fx_completed"
proof -
  let ?reach = "sdx.reach canonical_uuid fx_outbox \<lparr>os_file = fx_schema, os_hist = []\<rparr>"
  have rb: "reads_between f (le_pass (fx_pass b f c)) f" for f b c by (simp add: reads_between_def shrinks_def fx_pass_def)
  have counts: "snd (le_counts (fx_pass b f c)) = c" for b f c by (simp add: fx_pass_def)
  have env: "in_i64 10000" "0 \<le> sql_now fx_sql" "sql_now fx_sql < endOfYear9999"
    by (simp_all add: int_bounds_defs fx_sql_def fx_start_def endOfYear9999_def nsPerDay_def)
  obtain s1 where p1: "loop_pass canonical_uuid (fx_pass True fx_schema fx_file) fx_sched fx_schema = (None, s1, fx_file)" using fx_first_pass by blast
  have "enqueue_env_ok canonical_uuid [] (le_pass (fx_pass True fx_schema fx_file)) fx_sched"
    using env by (simp add: enqueue_env_ok_def fx_pass_def fx_sched_def fx_options_def schedulerConfig_of_def)
  moreover have "fx_generated = \<lparr>ss_sched = (if None = (None :: sim_error option option) then s1 else Run_end s1),
      ss_box = \<lparr>os_file = snd (le_counts (fx_pass True fx_schema fx_file)),
        os_hist = os_hist (ss_box fx_started) @ drop (length (of_rows fx_schema)) (of_rows fx_file)\<rparr>, ss_result = None\<rparr>"
    using p1 counts by (simp add: fx_generated_def fx_started_def) (simp add: fx_schema_def)
  ultimately have "sched_step canonical_uuid fx_outbox fx_started fx_generated"
    using sched_step.passes [of fx_started canonical_uuid fx_outbox fx_schema "fx_pass True fx_schema fx_file" None s1 fx_file] p1 rb counts
    by (simp add: fx_started_def)
  then show "?reach fx_generated" using sdx.reach_init [OF fx_started_init] sdx.reach_step by blast
  let ?acked = "fx_generated\<lparr>ss_box := (ss_box fx_generated)\<lparr>os_file := fx_acked_file\<rparr>\<rparr>"
  have "sched_step canonical_uuid fx_outbox fx_generated ?acked"
    by (rule sched_step.acknowledged) (simp add: fx_generated_def fx_delete)
  then have a: "?reach ?acked" using \<open>?reach fx_generated\<close> sdx.reach_step by blast
  obtain s2 where p2: "loop_pass canonical_uuid (fx_pass False fx_acked_file fx_acked_file) (ss_sched fx_generated) fx_acked_file =
      (Some None, s2, fx_acked_file)" using fx_second_pass by blast
  have "sd_cfg (ss_sched fx_generated) = sd_cfg fx_sched" using fx_first_pass by (metis fx_generated_def fst_conv snd_conv sched_state.select_convs(1))
  then have "enqueue_env_ok canonical_uuid (of_rows fx_file) (le_pass (fx_pass False fx_acked_file fx_acked_file)) (ss_sched fx_generated)"
    using env by (simp add: enqueue_env_ok_def fx_pass_def fx_sched_def fx_options_def schedulerConfig_of_def)
  moreover have "fx_completed = \<lparr>ss_sched = (if Some None = (None :: sim_error option option) then s2 else Run_end s2),
      ss_box = \<lparr>os_file = snd (le_counts (fx_pass False fx_acked_file fx_acked_file)),
        os_hist = os_hist (ss_box ?acked) @ drop (length (of_rows fx_acked_file)) (of_rows fx_acked_file)\<rparr>, ss_result = Some None\<rparr>"
    using p2 counts by (simp add: fx_completed_def) (simp add: fx_generated_def)
  ultimately have "sched_step canonical_uuid fx_outbox ?acked fx_completed"
    using sched_step.passes [of ?acked canonical_uuid fx_outbox fx_acked_file "fx_pass False fx_acked_file fx_acked_file" "Some None" s2 fx_acked_file] p2 rb counts
    by (simp add: fx_generated_def)
  then show "?reach fx_completed" using a sdx.reach_step by blast
qed

section \<open>Properties\<close>

text \<open>C18. The scheduler's memory is bounded and it publishes only what is stored. In every state of a
  run, under every interleaving of passes, publish results, acknowledgements, SQLite failures and
  shutdown: at most \<open>MaxInflight\<close> rows are in flight, each once; every publish under way carries the
  topic and bytes of a row that was committed to the outbox under that message identifier; and while
  the loop runs no message has two publishes under way.\<close>

theorem scheduler_bounded:
  assumes "uuid_text_ok U" and "uuid_validate_ok U" and "sdx.reach U o' box st"
  defines "s \<equiv> ss_sched st"
  shows "int (length (sd_inflight s)) \<le> sg_maxInflight (sd_cfg s) \<and> distinct (map fst (sd_inflight s)) \<and>
    (\<forall>c \<in> set (sd_running s). \<exists>h \<in> set (os_hist (ss_box st)).
       ob_message_id h = uuid_String U (pc_id c) \<and> ob_topic h = pc_topic c \<and> ob_payload h = pc_payload c) \<and>
    (ss_result st = None \<longrightarrow> (\<forall>i. outstanding s i \<le> 1))"
  using sched_reach [OF assms(1-3)] unfolding s_def sched_inv_def sched_wf_def one_each_def stored_def by blast

theorem scheduler_bounded_witness:
  "length (sd_inflight (ss_sched fx_generated)) = 1 \<and> int (length (sd_inflight (ss_sched fx_generated))) \<le> sg_maxInflight (sd_cfg (ss_sched fx_generated)) \<and>
   (\<forall>i. outstanding (ss_sched fx_generated) i \<le> 1)"
proof -
  have "length (sd_inflight (ss_sched fx_generated)) = 1" using fx_first_pass by (metis fx_generated_def fst_conv snd_conv sched_state.select_convs(1))
  moreover have "ss_result fx_generated = None" by (simp add: fx_generated_def)
  ultimately show ?thesis using scheduler_bounded [OF canonical_text_ok canonical_validate_ok fx_sched_run(1)] by simp
qed

text \<open>Replay is oldest first and complete. An admission that succeeds fills the free slots with the
  oldest pending rows that are not yet in flight: afterwards the rows in flight are those of before
  and a prefix of the pending rows in the order of their identifiers, and either no slot is free or
  every pending row is in flight. It never asks generation to wait for a further page.\<close>

theorem admitPending_oldest_first:
  assumes "uuid_text_ok U" and "outbox_inv U (ox_gatewayID o') sn f hist" and "sched_wf U hist s" and "sd_out s = o'"
    and "one_each (gone_for_pages U o' se f) s" and "\<And>p. snd (se_page se p) = f" and "admitPending U se s = (Inr waiting, s')"
  shows "\<not> waiting \<and> sorted_wrt (<) (map ob_id (pending_rows o' f)) \<and>
    (\<exists>n \<le> length (pending_rows o' f).
      (\<forall>i. in_flight s' i \<longleftrightarrow> in_flight s i \<or> (\<exists>k < n. ob_message_id (pending_rows o' f ! k) = uuid_String U i)) \<and>
      (sg_maxInflight (sd_cfg s') \<le> int (length (sd_inflight s')) \<or> n = length (pending_rows o' f)))"
  using admitPending_first [OF assms(1-4,7,6,5)] pending_rows_props(1) [OF assms(2)] by (auto simp: free_slots_def)

theorem admitPending_oldest_first_witness:
  "\<exists>s'. admitPending canonical_uuid (le_pass (fx_pass True fx_file fx_file)) fx_sched = (Inr False, s') \<and> in_flight s' fx_mid"
proof -
  let ?se = "le_pass (fx_pass True fx_file fx_file)"
  have inv: "outbox_inv canonical_uuid (ox_gatewayID fx_outbox) (ox_sensorID fx_outbox) fx_file (of_rows fx_file)"
    using outbox_reach_inv [OF canonical_text_ok canonical_validate_ok fx_outbox_run] by simp
  have wf: "sched_wf canonical_uuid (of_rows fx_file) fx_sched" "sd_out fx_sched = fx_outbox" "one_each (gone_for_pages canonical_uuid fx_outbox ?se fx_file) fx_sched"
    by (simp_all add: sched_wf_def fx_sched_def fx_options_def schedulerConfig_of_def one_each_def outstanding_def)
  obtain r where r: "of_rows fx_file = [r]" "selected canonical_uuid ''gw1'' fx_mid r" using fx_file_rows by blast
  have L: "pending_rows fx_outbox fx_file = [r]" using r by (simp add: pending_rows_def selected_def fx_outbox_def)
  obtain item where item: "scanOutboxItem canonical_uuid r = Inr item"
    using scan_built [OF canonical_text_ok row_built [OF inv]] r(1) by (metis list.set_intros(1))
  have "0 < ob_id r" using pending_rows_props(4) [OF inv] L by simp
  then have page: "PendingAfter canonical_uuid fx_sql fx_outbox 0 2 fx_file = Inr [item]"
    using L item fx_sql_healthy by (simp add: PendingAfter_def fx_outbox_def)
  have "admitPending canonical_uuid ?se fx_sched = (Inr False, admit item fx_sched)"
    using page by (simp add: admitPending_def maxAdmissionPages_def numeral_eq_Suc fx_pass_def fx_sched_def fx_options_def schedulerConfig_of_def)
  from admitPending_oldest_first [OF canonical_text_ok inv wf _ this] this obtain n where
    "n \<le> 1" "\<forall>i. in_flight (admit item fx_sched) i \<longleftrightarrow> in_flight fx_sched i \<or> (\<exists>k < n. ob_message_id ([r] ! k) = uuid_String canonical_uuid i)"
    "sg_maxInflight (sd_cfg (admit item fx_sched)) \<le> int (length (sd_inflight (admit item fx_sched))) \<or> n = 1"
    by (auto simp: L fx_pass_def)
  moreover have "sg_maxInflight (sd_cfg (admit item fx_sched)) = 2" "length (sd_inflight (admit item fx_sched)) = 1"
    by (simp_all add: admit_def startPublish_def entry_set_def fx_sched_def fx_options_def schedulerConfig_of_def)
  ultimately show ?thesis
    using r(2) \<open>admitPending canonical_uuid ?se fx_sched = (Inr False, admit item fx_sched)\<close> by (auto simp: selected_def)
qed

text \<open>C20. A finite run enqueues exactly its target and completes only when everything is acknowledged. It
  never enqueues more than \<open>FiniteBatch\<close> batches, and when it reports completion it has returned
  without an error, has enqueued exactly that many rows, and no row of the outbox is pending.\<close>

theorem finite_run_exact:
  assumes "uuid_text_ok U" and "uuid_validate_ok U" and "sdx.reach U o' box st" and "0 < sd_finiteTarget (ss_sched st)"
  defines "s \<equiv> ss_sched st"
  shows "0 \<le> sint (sd_uniqueEnqueued s) \<and> sint (sd_uniqueEnqueued s) \<le> sd_finiteTarget s \<and>
    (sd_completed s \<longrightarrow> ss_result st = Some None \<and> sint (sd_uniqueEnqueued s) = sd_finiteTarget s \<and>
       of_nat (length (os_hist (ss_box st))) = (of_nat (length (os_hist box)) + sd_uniqueEnqueued s :: 64 word) \<and>
       (\<forall>r \<in> set (of_rows (os_file (ss_box st))). ob_status r \<noteq> outboxStatusPending))"
proof -
  have p: "plan_inv (length (os_hist box)) st" using sched_reach [OF assms(1-3)] by blast
  then obtain amb where amb: "of_nat (length (os_hist (ss_box st))) = (of_nat (length (os_hist box)) + sd_uniqueEnqueued s + of_nat amb :: 64 word)"
      "(amb :: nat) \<le> 1" "amb = 1 \<longrightarrow> ss_result st \<noteq> None \<and> \<not> sd_completed s"
    unfolding plan_inv_def Let_def s_def by blast
  then have "amb = 0" if "sd_completed s" using that by (cases amb) auto
  then show ?thesis using p amb(1) assms(4) unfolding plan_inv_def plan_counts_def Let_def s_def none_pending_def by auto
qed

theorem finite_run_exact_witness:
  "sd_completed (ss_sched fx_completed) \<and> sint (sd_uniqueEnqueued (ss_sched fx_completed)) = 1 \<and> length (os_hist (ss_box fx_completed)) = 1 \<and>
   filter (\<lambda>r. ob_status r = outboxStatusPending) (of_rows (os_file (ss_box fx_completed))) = []"
proof -
  obtain s2 where s2: "ss_sched fx_completed = Run_end s2" "sd_completed s2" "sd_finiteTarget s2 = 1"
    using fx_second_pass by (metis fx_completed_def fst_conv snd_conv sched_state.select_convs(1))
  then have c: "sd_completed (ss_sched fx_completed)" "sd_finiteTarget (ss_sched fx_completed) = 1" by (simp_all add: Run_end_def)
  then have "0 < sd_finiteTarget (ss_sched fx_completed)" by simp
  from finite_run_exact [OF canonical_text_ok canonical_validate_ok fx_sched_run(2) this] c show ?thesis
    using fx_Enqueue(2) by (simp add: fx_completed_def filter_empty_conv)
qed

section \<open>The wake timer\<close>

lemma consider_deadline_fold:
  "fold consider_deadline ts n = (if filter (\<lambda>t. \<not> time_IsZero t) (n # ts) = [] then 0
     else Min (set (filter (\<lambda>t. \<not> time_IsZero t) (n # ts))))"
proof (induction ts arbitrary: n)
  case (Cons t ts)
  let ?nz = "set (filter (\<lambda>t. \<not> time_IsZero t) ts)"
  have fin: "finite ?nz" by simp
  show ?case
    using Cons.IH [of "consider_deadline t n"]
    by (cases "?nz = {}") (auto simp: consider_deadline_def time_IsZero_def min_def)
qed (simp add: time_IsZero_def)

text \<open>The loop sleeps until the earliest thing it has to do. While the publisher is ready the wake
  timer is set to the earliest of the generation tick, the completion deadline and the retry times
  of the entries in flight, at once if that is past, and parked when there is none. While the
  publisher is not ready the timer is parked whatever these deadlines are, the completion deadline
  included.\<close>

theorem armTimer_earliest:
  fixes now :: time and ready :: bool and s :: Scheduler
  defines "ts \<equiv> {t \<in> set (deadlines s). \<not> time_IsZero t}"
  shows "sd_timer (armTimer ready now s) =
    (if ready \<and> ts \<noteq> {} then max 0 (sat64 (Min ts - now)) else parkDuration)"
proof -
  have f: "filter (\<lambda>t. \<not> time_IsZero t) (0 # xs) = filter (\<lambda>t. \<not> time_IsZero t) xs" for xs
    by (simp add: time_IsZero_def)
  have park: "\<not> parkDuration < 0" by (simp add: parkDuration_def nsPerSecond_def)
  have ts: "ts = set (filter (\<lambda>t. \<not> time_IsZero t) (deadlines s))" by (auto simp: ts_def)
  have "fold consider_deadline (deadlines s) 0 = (if ts = {} then 0 else Min ts)"
    unfolding consider_deadline_fold f ts set_empty ..
  moreover have "ts \<noteq> {} \<Longrightarrow> Min ts \<in> ts" using ts by (metis List.finite_set Min_in)
  moreover have "t \<in> ts \<Longrightarrow> \<not> time_IsZero t" for t by (simp add: ts_def)
  ultimately show ?thesis
    using park by (auto simp: armTimer_def resetTimer_def Let_def time_IsZero_def max_def)
qed

end
