(* ===== verification/Protocol.thy ===== *)
theory Protocol
  imports AckProcessor IngressTheorems "HOL-Library.Sublist"
begin

text \<open>
  The delivery protocol end to end: one Gateway process with its outbox and acknowledgement worker
  (\<open>gatewaysim\<close>), the server's ingress with its repository (\<open>mqttingress\<close>, \<open>telemetry\<close>), and the broker
  between them. The broker may lose, delay, duplicate and reorder; both processes may be restarted
  at any time; the database and SQLite may fail in any way their components' models allow. What is
  relied on of the broker is its access control list: on a Gateway's telemetry topics only that
  Gateway publishes, and it publishes only committed rows of its outbox (as the scheduler does);
  on its acknowledgement topics only the server publishes.
\<close>

section \<open>The system\<close>

text \<open>
  \<open>sy_base\<close> is the outbox at the start of the current Gateway process and \<open>sy_seen\<close> what earlier Gateway
  processes were delivered; both are ghosts.
\<close>

record system =
  sy_gw :: ack_state
  sy_base :: outbox_state
  sy_seen :: "(string \<times> string \<times> bool) list"
  sy_server :: "db server"

definition acl_telemetry :: "string \<Rightarrow> outbox_row list \<Rightarrow> string \<Rightarrow> string \<Rightarrow> bool" where
  "acl_telemetry g hist topic payload \<longleftrightarrow> (\<forall>p. ParseTopic topic = Inr p \<longrightarrow> pt_GatewayID p = g \<longrightarrow>
     (topic, payload) \<in> (\<lambda>h. (ob_topic h, ob_payload h)) ` set hist)"

definition acl_ack :: "uuid_pkg \<Rightarrow> string \<Rightarrow> Delivery list \<Rightarrow> string \<Rightarrow> string \<Rightarrow> bool" where
  "acl_ack U g out topic payload \<longleftrightarrow> (\<forall>i. parseOwnACKTopic U topic g = Inr i \<longrightarrow>
     (topic, payload) \<in> (\<lambda>d. (dl_Topic d, dl_Payload d)) ` set out)"

abbreviation sy_hist :: "system \<Rightarrow> outbox_row list" where "sy_hist st \<equiv> os_hist (ak_box (sy_gw st))"
abbreviation sy_file :: "system \<Rightarrow> outbox_file" where "sy_file st \<equiv> os_file (ak_box (sy_gw st))"

text \<open>The administrator's quarantines while the Gateway process is down.\<close>

definition quarantined :: "uuid_pkg \<Rightarrow> Outbox \<Rightarrow> (sql_env \<times> uuid \<times> string) list \<Rightarrow> outbox_file \<Rightarrow> outbox_file" where
  "quarantined U o' = fold (\<lambda>(env, mid, reason) f. snd (Quarantine U env o' mid reason f))"

inductive system_step :: "uuid_pkg \<Rightarrow> Outbox \<Rightarrow> Limits \<Rightarrow> system \<Rightarrow> system \<Rightarrow> bool" for U o' l where
  gateway_moves: "ack_step U o' (sy_gw st) gw' \<Longrightarrow>
     (\<And>topic payload retained. (topic, payload, retained) \<in> set (ak_seen gw') \<Longrightarrow>
        (topic, payload, retained) \<in> set (ak_seen (sy_gw st)) \<or> acl_ack U (ox_gatewayID o') (sv_out (sy_server st)) topic payload) \<Longrightarrow>
     distinct (map ob_message_id (os_hist (ak_box gw'))) \<Longrightarrow>
     system_step U o' l st (st\<lparr>sy_gw := gw'\<rparr>)"
| gateway_restarts: "NewACKProcessor (Some o') cap = Inr p \<Longrightarrow>
     prepare env o' (quarantined U o' qs (sy_file st)) = (Inr (), f') \<Longrightarrow> box = \<lparr>os_file = f', os_hist = sy_hist st\<rparr> \<Longrightarrow>
     system_step U o' l st (st\<lparr>sy_gw := \<lparr>ak_proc = p, ak_box = box, ak_lat = lat, ak_seen = []\<rparr>, sy_base := box,
       sy_seen := sy_seen st @ ak_seen (sy_gw st)\<rparr>)"
| server_moves: "run_step U l (sy_server st) sv' \<Longrightarrow>
     (\<And>it. it \<in> set (ig_queue (sv_ingress sv')) \<Longrightarrow> it \<in> set (ig_queue (sv_ingress (sy_server st))) \<or>
        acl_telemetry (ox_gatewayID o') (sy_hist st) (it_topic it) (it_payload it)) \<Longrightarrow>
     system_step U o' l st (st\<lparr>sy_server := sv'\<rparr>)"
| server_restarts: "New opts False False False = Inr i \<Longrightarrow>
     system_step U o' l st (st\<lparr>sy_server := (sy_server st)\<lparr>sv_ingress := i\<rparr>\<rparr>)"

definition system_init :: "uuid_pkg \<Rightarrow> Outbox \<Rightarrow> system \<Rightarrow> bool" where
  "system_init U o' st \<longleftrightarrow> ack_init U o' (sy_base st) (sy_gw st) \<and> os_hist (sy_base st) = [] \<and> sy_seen st = [] \<and>
     server_init (sy_server st)"

interpretation syx: transition_system "system_init U o'" "system_step U o' l" for U o' l .

section \<open>The Gateway across restarts\<close>

lemma Quarantine_inserted:
  assumes "Quarantine U env o' mid reason f = (res, f')"
  shows "inserted ` set (of_rows f') = inserted ` set (of_rows f)"
proof -
  have c: "map inserted (map (\<lambda>r. if P r then r\<lparr>ob_status := x, ob_reason := y\<rparr> else r) rows) = map inserted rows" for P x y rows
    by (simp add: comp_def if_distrib)
  have "map inserted (of_rows f') = map inserted (of_rows f)"
    using assms by (auto simp del: map_map simp: c Quarantine_def in_tx_def sql_commit_def Let_def split: if_splits option.splits sum.splits)
  then show ?thesis by (metis set_map)
qed

lemma quarantined_keeps:
  assumes "outbox_inv U g s f h"
  shows "outbox_inv U g s (quarantined U o' qs f) h \<and> inserted ` set (of_rows (quarantined U o' qs f)) = inserted ` set (of_rows f) \<and>
    of_version (quarantined U o' qs f) = of_version f"
  using assms
proof (induction qs arbitrary: f)
  case (Cons q qs)
  obtain env mid reason where q: "q = (env, mid, reason)" by (cases q)
  obtain res f' where Q: "Quarantine U env o' mid reason f = (res, f')" by fastforce
  have "of_version f' = of_version f"
    using Q by (auto simp: Quarantine_def in_tx_def sql_commit_def Let_def split: if_splits option.splits sum.splits)
  moreover have "quarantined U o' (q # qs) f = quarantined U o' qs f'" by (simp add: quarantined_def q Q)
  ultimately show ?case using Cons.IH [OF Quarantine_inv [OF Q Cons.prems]] Quarantine_inserted [OF Q] by simp
qed (simp add: quarantined_def)

lemma prepare_bound:
  assumes "prepare env o' f = (Inr (), f')" and "of_version f = outboxSchemaVersion"
  shows "of_rows f' = of_rows f" and "of_version f' = outboxSchemaVersion"
  using assms by (auto simp: prepare_def verifyBinding_def readUserVersion_def sql_read_def
      split: sum.splits if_splits option.splits prod.splits)

text \<open>Reading a committed row back: the server sees the row's own message and range.\<close>

lemma built_row_decoded:
  assumes U: "uuid_text_ok U" "uuid_validate_ok U" and r: "built_row U g s h"
    and v: "Validate U (Some l) (ob_topic h) (ob_payload h) t = Inr m"
  shows "pt_GatewayID (msg_topic m) = g" and "uuid_String U (bd_MessageID (msg_batch m)) = ob_message_id h"
    and "bd_FirstSequence (msg_batch m) = ob_first_sequence h" and "bd_SampleCount (msg_batch m) = ob_sample_count h"
proof -
  obtain req bt bb where b: "BuildSyntheticBatch U req ServerLimits bt = Inr bb" "bb_Batch bb = synthetic_batch req"
      "br_GatewayID req = g" "ob_message_id h = uuid_String U (br_MessageID req)" "ob_topic h = bb_Topic bb" "ob_payload h = bb_Payload bb"
      "ob_first_sequence h = br_FirstSequence req" "ob_sample_count h = br_SampleCount req"
    using r by (auto simp: built_row_def)
  obtain m0 where m0: "Validate U (Some ServerLimits) (bb_Topic bb) (bb_Payload bb) bt = Inr m0" "bb_Batch bb = msg_batch m0"
      "bb_Payload bb = marshalBatch U (synthetic_batch req)"
      "ParseTopic (bb_Topic bb) = Inr \<lparr>pt_SourceTopic = bb_Topic bb, pt_GatewayID = br_GatewayID req, pt_SensorID = br_SensorID req\<rparr>"
    using BuildSyntheticBatch_ok [OF b(1)] by metis
  have wf: "message_wf U ServerLimits m0" using Validate_wf [OF m0(1)] by (metis option.inject)
  have same: "msg_batch m0 = synthetic_batch req" using m0(2) b(2) by simp
  have "0 \<le> bd_FirstSequence (synthetic_batch req)" "bd_SampleIntervalUS (synthetic_batch req) > 0"
      "decoded_ok U (msg_topic m0) ServerLimits (synthetic_batch req)"
    using wf unfolding message_wf_def same range_spec_def by auto
  moreover have "list_all plain_double (bd_Samples (synthetic_batch req))"
    by (simp add: synthetic_batch_def list_all_iff syntheticValue_plain)
  moreover have "list_all plain_char (bd_MeasuredAt (synthetic_batch req))"
    using format_micro_plain by (simp add: synthetic_batch_def formatMeasuredAt_def)
  ultimately have ok: "batch_ok U (synthetic_batch req)" by (auto simp: batch_ok_def decoded_ok_def in_i64_def)
  obtain p where p: "decodeBatch U (marshalBatch U (synthetic_batch req)) p l = Inr (msg_batch m)" "msg_topic m = p" "ParseTopic (bb_Topic bb) = Inr p"
    using v unfolding Validate_ok_iff b m0(3) by auto
  have "msg_topic m = \<lparr>pt_SourceTopic = bb_Topic bb, pt_GatewayID = br_GatewayID req, pt_SensorID = br_SensorID req\<rparr>"
    using p(2,3) m0(4) by simp
  moreover have "msg_batch m = synthetic_batch req" by (rule decode_marshalBatch_same [OF U ok p(1)])
  ultimately show "pt_GatewayID (msg_topic m) = g" "uuid_String U (bd_MessageID (msg_batch m)) = ob_message_id h"
    "bd_FirstSequence (msg_batch m) = ob_first_sequence h" "bd_SampleCount (msg_batch m) = ob_sample_count h"
    using b by (simp_all add: synthetic_batch_def)
qed

section \<open>The invariant\<close>

abbreviation published :: "Outbox \<Rightarrow> outbox_row list \<Rightarrow> item \<Rightarrow> bool" where
  "published o' hist it \<equiv> acl_telemetry (ox_gatewayID o') hist (it_topic it) (it_payload it)"

definition system_inv :: "uuid_pkg \<Rightarrow> Outbox \<Rightarrow> Limits \<Rightarrow> system \<Rightarrow> bool" where
  "system_inv U o' l st \<longleftrightarrow> akx.reach U o' (sy_base st) (sy_gw st) \<and>
     (\<forall>h \<in> set (os_hist (sy_base st)).
        h \<in> inserted ` set (of_rows (os_file (sy_base st))) \<or> acked U (ox_gatewayID o') (sy_seen st) (ob_message_id h)) \<and>
     distinct (map ob_message_id (sy_hist st)) \<and>
     (\<forall>topic payload retained. (topic, payload, retained) \<in> set (sy_seen st @ ak_seen (sy_gw st)) \<longrightarrow>
        acl_ack U (ox_gatewayID o') (sv_out (sy_server st)) topic payload) \<and>
     pipe.server_ok U l (published o' (sy_hist st)) (sy_server st)"

lemma acl_mono: "acl_telemetry g hist topic payload \<Longrightarrow> set hist \<subseteq> set hist' \<Longrightarrow> acl_telemetry g hist' topic payload"
  unfolding acl_telemetry_def by blast

lemma acl_ack_mono: "acl_ack U g out topic payload \<Longrightarrow> set out \<subseteq> set out' \<Longrightarrow> acl_ack U g out' topic payload"
  unfolding acl_ack_def by blast

lemma ack_step_hist: "ack_step U o' gw gw' \<Longrightarrow> set (os_hist (ak_box gw)) \<subseteq> set (os_hist (ak_box gw'))"
  by (cases rule: ack_step.cases) auto

lemma run_step_out: "run_step U l s s' \<Longrightarrow> set (sv_out s) \<subseteq> set (sv_out s')"
  unfolding run_step_def
  by (erule server_step.cases) (auto elim!: worker_step.cases simp: item_step_def split: prod.splits)

lemma system_inv_gateway:
  assumes U: "uuid_text_ok U" "uuid_validate_ok U" and inv: "system_inv U o' l st"
  shows "box_ok U o' (sy_gw st)" and "rows_kept U o' (sy_base st) (sy_gw st)"
    and "\<And>h. h \<in> set (sy_hist st) \<Longrightarrow> built_row U (ox_gatewayID o') (ox_sensorID o') h"
proof -
  have "akx.reach U o' (sy_base st) (sy_gw st)" using inv by (simp add: system_inv_def)
  then show b: "box_ok U o' (sy_gw st)" and "rows_kept U o' (sy_base st) (sy_gw st)" using ack_reach [OF U] by blast+
  show "\<And>h. h \<in> set (sy_hist st) \<Longrightarrow> built_row U (ox_gatewayID o') (ox_sensorID o') h"
    using b by (simp add: box_ok_def outbox_inv_def)
qed

lemma all_rows_accounted:
  assumes U: "uuid_text_ok U" "uuid_validate_ok U" and inv: "system_inv U o' l st" and h: "h \<in> set (sy_hist st)"
  shows "h \<in> inserted ` set (of_rows (sy_file st)) \<or> acked U (ox_gatewayID o') (sy_seen st @ ak_seen (sy_gw st)) (ob_message_id h)"
proof -
  obtain new where new: "sy_hist st = os_hist (sy_base st) @ new"
      "\<And>h. h \<in> inserted ` set (of_rows (os_file (sy_base st))) \<union> set new \<Longrightarrow>
        h \<in> inserted ` set (of_rows (sy_file st)) \<or> acked U (ox_gatewayID o') (ak_seen (sy_gw st)) (ob_message_id h)"
    using system_inv_gateway(2) [OF U inv] unfolding rows_kept_def by blast
  have mono: "acked U g s1 mid \<Longrightarrow> acked U g (s1 @ s2) mid" "acked U g s2 mid \<Longrightarrow> acked U g (s1 @ s2) mid" for g s1 s2 mid
    by (auto simp: acked_def)
  show ?thesis
    using h new inv mono unfolding system_inv_def by (metis Un_iff set_append)
qed

lemma system_init_inv:
  assumes "system_init U o' st"
  shows "system_inv U o' l st"
proof -
  have a: "ack_init U o' (sy_base st) (sy_gw st)" "os_hist (sy_base st) = []" "sy_seen st = []" and s: "server_init (sy_server st)"
    using assms by (simp_all add: system_init_def)
  then obtain opts where "New opts False False False = Inr (sv_ingress (sy_server st))" "store_inv (sv_db (sy_server st))" "sv_out (sy_server st) = []"
    by (auto simp: server_init_def)
  then have "pipe.server_ok U l src (sy_server st)" for src
    by (auto simp: pipe.server_ok_def dest: New_idle)
  then show ?thesis using a akx.reach_init [OF a(1)] by (simp add: system_inv_def ack_init_def)
qed

lemma system_step_inv:
  assumes U: "uuid_text_ok U" "uuid_validate_ok U" and step: "system_step U o' l st st'" and inv: "system_inv U o' l st"
  shows "system_inv U o' l st'"
  using step
proof (cases rule: system_step.cases)
  case (gateway_moves gw')
  have b: "pipe.server_ok U l (published o' (sy_hist st)) (sy_server st)" using inv by (simp add: system_inv_def)
  have "pipe.server_ok U l (published o' (os_hist (ak_box gw'))) (sy_server st)"
    by (rule pipe.server_ok_mono [OF b]) (rule acl_mono [OF _ ack_step_hist [OF gateway_moves(2)]])
  moreover have "akx.reach U o' (sy_base st) gw'" using inv gateway_moves(2) akx.reach_step by (auto simp: system_inv_def)
  moreover have "acl_ack U (ox_gatewayID o') (sv_out (sy_server st)) topic payload"
    if "(topic, payload, retained) \<in> set (sy_seen st @ ak_seen gw')" for topic payload retained
    using inv gateway_moves(3) [of topic payload retained] that by (auto simp: system_inv_def)
  ultimately show ?thesis using inv gateway_moves(1,4) by (auto simp: system_inv_def)
next
  case (gateway_restarts cap p env qs f' box lat)
  have q: "outbox_inv U (ox_gatewayID o') (ox_sensorID o') (quarantined U o' qs (sy_file st)) (sy_hist st)"
      "inserted ` set (of_rows (quarantined U o' qs (sy_file st))) = inserted ` set (of_rows (sy_file st))"
      "of_version (quarantined U o' qs (sy_file st)) = outboxSchemaVersion"
    using quarantined_keeps [of U "ox_gatewayID o'" "ox_sensorID o'" "sy_file st" "sy_hist st"] system_inv_gateway(1) [OF U inv]
    by (auto simp: box_ok_def)
  have f': "inserted ` set (of_rows f') = inserted ` set (of_rows (sy_file st))" "of_version f' = outboxSchemaVersion"
      "outbox_inv U (ox_gatewayID o') (ox_sensorID o') f' (sy_hist st)"
    using prepare_bound [OF gateway_restarts(3) q(3)] q(2) prepare_inv [OF gateway_restarts(3) q(1)] by simp_all
  have "akx.reach U o' (sy_base st') (sy_gw st')"
    using gateway_restarts f' by (intro akx.reach_init) (auto simp: ack_init_def)
  moreover have "h \<in> inserted ` set (of_rows (os_file (sy_base st'))) \<or> acked U (ox_gatewayID o') (sy_seen st') (ob_message_id h)"
    if "h \<in> set (os_hist (sy_base st'))" for h
    using all_rows_accounted [OF U inv, of h] that gateway_restarts(1,4) f'(1) by simp
  ultimately show ?thesis using inv gateway_restarts(1,4) by (auto simp: system_inv_def)
next
  case (server_moves sv')
  have "pipe.server_ok U l (published o' (sy_hist st)) sv'"
    by (rule pipe.server_step_ok [OF server_moves(2) [unfolded run_step_def]]) (use inv server_moves(3) in \<open>auto simp: system_inv_def\<close>)
  moreover have "acl_ack U (ox_gatewayID o') (sv_out sv') topic payload"
    if "acl_ack U (ox_gatewayID o') (sv_out (sy_server st)) topic payload" for topic payload
    using acl_ack_mono [OF that run_step_out [OF server_moves(2)]] .
  ultimately show ?thesis using inv server_moves(1) by (auto simp: system_inv_def)
next
  case (server_restarts opts i)
  then have "items_of i = {}" "ig_workers i = []" using New_idle by blast+
  then show ?thesis using inv server_restarts(1) by (auto simp: system_inv_def pipe.server_ok_def)
qed

lemma system_reach_inv:
  assumes "uuid_text_ok U" and "uuid_validate_ok U" and "syx.reach U o' l st"
  shows "system_inv U o' l st"
  using assms(3) by (rule syx.invariant) (use system_init_inv system_step_inv [OF assms(1,2)] in blast)+

text \<open>What the ledger holds for a validated message.\<close>

lemma ledger_has_row:
  assumes v: "Validate U (Some l) topic payload t = Inr m" and has: "ledger_has d m" and inv: "store_inv d"
  obtains row where "row \<in> set (db_processed d)" "pm_gateway_id row = pt_GatewayID (msg_topic m)"
    "pm_message_id row = bd_MessageID (msg_batch m)" "pm_payload_hash row = sha256_hex payload"
    "map tr_sequence_num (message_rows d (pm_gateway_id row, pm_message_id row)) =
       [bd_FirstSequence (msg_batch m)..bd_FirstSequence (msg_batch m) + bd_SampleCount (msg_batch m) - 1]"
proof -
  have wf: "message_wf U l m" and raw: "msg_rawPayload m = payload" using Validate_wf [OF v] by (metis option.inject)+
  then obtain start where s: "ledgerMetadata (Some m) = Inr (metadata_of m start)"
      "decoded_ok U (msg_topic m) l (msg_batch m)" "0 < length (bd_Samples (msg_batch m))"
    using message_wf_metadata by metis
  let ?row = "ledger_row (metadata_of m start)"
  note row = ledger_row_metadata [OF s(2,3), of start]
  have mem: "?row \<in> set (db_processed d)" using has s(1) by (simp add: ledger_has_def)
  have "map tr_sequence_num (message_rows d (pm_key ?row)) =
      [bd_FirstSequence (msg_batch m)..bd_FirstSequence (msg_batch m) + int (length (bd_Samples (msg_batch m))) - 1]"
    using inv mem unfolding store_inv_def samples_complete_def by (auto simp: row)
  moreover have "msg_payloadHash m = sha256_hex payload" using wf raw by (simp add: message_wf_def)
  ultimately show ?thesis
    using that [OF mem] s(2) by (simp add: row pm_key_def decoded_ok_def)
qed

lemma acked_row_stored:
  assumes U: "uuid_text_ok U" "uuid_validate_ok U" and inv: "system_inv U o' l st" and h: "h \<in> set (sy_hist st)"
    and ack: "acked U (ox_gatewayID o') (sy_seen st @ ak_seen (sy_gw st)) (ob_message_id h)"
  obtains m t where "Validate U (Some l) (ob_topic h) (ob_payload h) t = Inr m" "ledger_has (sv_db (sy_server st)) m"
    "store_inv (sv_db (sy_server st))"
proof -
  let ?g = "ox_gatewayID o'"
  obtain topic payload a where a: "(topic, payload, False) \<in> set (sy_seen st @ ak_seen (sy_gw st))"
      "ParseCommitACK U topic payload ?g = Inr a" "ob_message_id h = uuid_String U (ack_MessageID a)"
    using ack unfolding acked_def by blast
  note built = system_inv_gateway(3) [OF U inv]
  have g: "ValidateGatewayID ?g" using built [OF h] by (auto simp: built_row_def BuildSyntheticBatch_def)
  have "acl_ack U ?g (sv_out (sy_server st)) topic payload" using inv a(1) unfolding system_inv_def by blast
  moreover have "\<exists>i. parseOwnACKTopic U topic ?g = Inr i" using a(2) by (auto simp: ParseCommitACK_def)
  ultimately obtain del where del: "del \<in> set (sv_out (sy_server st))" "dl_Topic del = topic" "dl_Payload del = payload"
    unfolding acl_ack_def by auto
  obtain it m where m: "published o' (sy_hist st) it" "Validate U (Some l) (it_topic it) (it_payload it) (it_receivedAt it) = Inr m"
      "ledger_has (sv_db (sy_server st)) m" "ack_for U del m" and s: "store_inv (sv_db (sy_server st))"
    using inv del(1) unfolding system_inv_def pipe.server_ok_def pipe.ack_backed_def pipe.message_of_def by blast
  obtain outcome t a' where n: "NewCommitACK U (pt_GatewayID (msg_topic m)) (bd_MessageID (msg_batch m)) outcome t = Inr (topic, a')"
    using m(4) del(2) unfolding ack_for_def by auto
  have own: "?g = pt_GatewayID (msg_topic m)" "ack_MessageID a = bd_MessageID (msg_batch m)"
    using ParseCommitACK_own [OF U(1) n a(2) g] by simp_all
  have "ParseTopic (it_topic it) = Inr (msg_topic m)" using m(2) unfolding Validate_ok_iff by auto
  then obtain h' where h': "h' \<in> set (sy_hist st)" "it_topic it = ob_topic h'" "it_payload it = ob_payload h'"
    using m(1) own(1) unfolding acl_telemetry_def by auto
  have "ob_message_id h' = ob_message_id h"
    using built_row_decoded(2) [OF U built [OF h'(1)] m(2) [unfolded h']] a(3) own(2) by simp
  moreover have "inj_on ob_message_id (set (sy_hist st))" using inv by (simp add: system_inv_def distinct_map)
  ultimately have "h' = h" using h h'(1) by (auto dest: inj_onD)
  then show ?thesis using that m(2,3) h' s by auto
qed

section \<open>No batch is lost\<close>

text \<open>C1. End to end, no batch is lost. Over any run of the Gateway, the broker and the server, with
  restarts of either side (as long as the broker's access control list holds: on the Gateway's
  telemetry topics the server is delivered only committed rows of this outbox, on its
  acknowledgement topics the Gateway is delivered only what the server published; and as long as
  every enqueued batch has a fresh message identifier), messages lost, repeated or reordered, SQLite and database failures and
  ambiguous commits: every batch the Gateway ever committed to its outbox is still in the outbox
  file with its bytes, or the server's ledger has a row for its message under this Gateway with the
  hash of exactly these bytes, and the raw samples of the whole sequence range are stored, each
  once and in order.\<close>

theorem no_batch_lost:
  assumes "uuid_text_ok U" and "uuid_validate_ok U" and "syx.reach U o' l st" and "h \<in> set (sy_hist st)"
  defines "d \<equiv> sv_db (sy_server st)"
  shows "(\<exists>r \<in> set (of_rows (sy_file st)). inserted r = h) \<or>
    (\<exists>row \<in> set (db_processed d). pm_gateway_id row = ox_gatewayID o' \<and> uuid_String U (pm_message_id row) = ob_message_id h \<and>
       pm_payload_hash row = sha256_hex (ob_payload h) \<and>
       map tr_sequence_num (message_rows d (ox_gatewayID o', pm_message_id row)) =
         [ob_first_sequence h..ob_first_sequence h + ob_sample_count h - 1])"
proof -
  note U = assms(1,2)
  have inv: "system_inv U o' l st" by (rule system_reach_inv [OF assms(1-3)])
  note b = system_inv_gateway(3) [OF U inv assms(4)]
  from all_rows_accounted [OF U inv assms(4)] show ?thesis
  proof
    assume "h \<in> inserted ` set (of_rows (sy_file st))"
    then show ?thesis by auto
  next
    assume "acked U (ox_gatewayID o') (sy_seen st @ ak_seen (sy_gw st)) (ob_message_id h)"
    then obtain m t where m: "Validate U (Some l) (ob_topic h) (ob_payload h) t = Inr m" "ledger_has d m" "store_inv d"
      unfolding d_def by (rule acked_row_stored [OF U inv assms(4)])
    note dec = built_row_decoded [OF U b m(1)]
    from ledger_has_row [OF m] obtain row where "row \<in> set (db_processed d)" "pm_gateway_id row = ox_gatewayID o'"
        "uuid_String U (pm_message_id row) = ob_message_id h" "pm_payload_hash row = sha256_hex (ob_payload h)"
        "map tr_sequence_num (message_rows d (pm_gateway_id row, pm_message_id row)) =
          [ob_first_sequence h..ob_first_sequence h + ob_sample_count h - 1]"
      using dec by metis
    then show ?thesis by metis
  qed
qed

text \<open>
  A complete run for the witness: the Gateway commits a batch, the server receives it, stores it and
  acknowledges it, the acknowledgement reaches the Gateway and the row is deleted.
\<close>

lemma fx_server_stores:
  assumes v: "Validate canonical_uuid (Some l) topic payload t = Inr m"
    and m: "pt_GatewayID (msg_topic m) = ''gw1''" "pt_SensorID (msg_topic m) = ''s1''" "bd_MessageID (msg_batch m) = fx_mid"
  shows "\<exists>r d'. Persist canonical_uuid fx_env (Some m) fx_db = (Inr r, d') \<and> pr_Outcome r = CommitOutcomeCommitted \<and>
    identityMatches m (pr_Identity r)"
proof -
  have wf: "message_wf canonical_uuid l m" using Validate_wf [OF v] by (metis option.inject)
  then obtain start where s: "ledgerMetadata (Some m) = Inr (metadata_of m start)"
      "decoded_ok canonical_uuid (msg_topic m) l (msg_batch m)" "0 < length (bd_Samples (msg_batch m))"
    using message_wf_metadata by metis
  have "graph_rows fx_db ''gw1'' ''s1'' = [(1, 2, True)]"
    by (auto simp: graph_rows_def fx_db_def GatewayEntityID_def SensorEntityID_def)
  then have "resolveTelemetryResource fx_env fx_db (Some m) = Inr fx_resource"
    using fx_healthy m by (simp add: resolveTelemetryResource_def fx_db_def fx_resource_def Let_def)
  moreover have "ledger_free fx_db (metadata_of m start)" by (simp add: ledger_free_def fx_db_def)
  ultimately have P: "\<exists>d'. Persist canonical_uuid fx_env (Some m) fx_db =
      (Inr \<lparr>pr_Identity = \<lparr>mi_GatewayID = ''gw1'', mi_SensorID = ''s1'', mi_BootID = lg_bootID (metadata_of m start),
          mi_MessageID = lg_messageID (metadata_of m start)\<rparr>,
        pr_Outcome = CommitOutcomeCommitted, pr_SamplesSaved = lg_sampleCount (metadata_of m start)\<rparr>, d')"
    using Persist_commits [OF wf fx_store_inv fx_healthy _ s(1) _ fx_version] by (simp add: fx_resource_def)
  have "lg_messageID (metadata_of m start) = fx_mid"
    using ledger_row_metadata [OF s(2,3), of start] m(3) by (simp add: ledger_row_def)
  then show ?thesis using P m by (auto simp: identityMatches_def)
qed

text \<open>A server with one free worker and the item in its hands publishes the acknowledgement.\<close>

lemma fx_server_run:
  assumes v: "Validate canonical_uuid (Some l) topic payload t = Inr m"
    and m: "pt_GatewayID (msg_topic m) = ''gw1''" "pt_SensorID (msg_topic m) = ''s1''" "bd_MessageID (msg_batch m) = fx_mid"
    and size: "length payload \<le> 65536"
    and src: "acl_telemetry ''gw1'' (sy_hist st) topic payload" and st: "sy_server st = fx_server"
  shows "\<exists>sv. (system_step canonical_uuid fx_outbox l)\<^sup>*\<^sup>* st (st\<lparr>sy_server := sv\<rparr>) \<and>
    sv_out sv = [\<lparr>dl_Topic = ack_topic canonical_uuid ''gw1'' fx_mid, dl_Payload = marshalACK canonical_uuid fx_reply,
                   dl_QoS = 1, dl_Retained = False\<rparr>]"
proof -
  define it where "it = \<lparr>it_topic = topic, it_payload = payload, it_receivedAt = t\<rparr>"
  define i1 where "i1 = fx_ingress\<lparr>ig_started := True, ig_workers := [WLoop]\<rparr>"
  define i2 where "i2 = i1\<lparr>ig_queue := [it], ig_sent := 1\<rparr>"
  define i3 where "i3 = i1\<lparr>ig_sent := 1, ig_workers := [WBusy False it PTaken]\<rparr>"
  let ?sv = "\<lambda>i. fx_server\<lparr>sv_ingress := i\<rparr>"
  note defs = i1_def i2_def i3_def fx_server_def fx_ingress_def
  have topic: "is_ok (ParseTopic topic)" using v unfolding Validate_ok_iff by auto
  have go: "system_step canonical_uuid fx_outbox l (st\<lparr>sy_server := sv\<rparr>) (st\<lparr>sy_server := sv'\<rparr>)"
    if "run_step canonical_uuid l sv sv'" "set (ig_queue (sv_ingress sv')) \<subseteq> set (ig_queue (sv_ingress sv)) \<union> {it}" for sv sv'
  proof -
    have "system_step canonical_uuid fx_outbox l (st\<lparr>sy_server := sv\<rparr>) (st\<lparr>sy_server := sv\<rparr>\<lparr>sy_server := sv'\<rparr>)"
      by (rule system_step.server_moves) (use that src in \<open>auto simp: fx_outbox_def it_def\<close>)
    then show ?thesis by simp
  qed
  have 1: "run_step canonical_uuid l fx_server (?sv i1)"
    unfolding run_step_def using server_step.starts [of canonical_uuid _ _ fx_server] by (simp add: defs Start_def)
  have 2: "run_step canonical_uuid l (?sv i1) (?sv i2)"
    unfolding run_step_def
    using server_step.admits [where s = "?sv i1" and topic = topic and payload = payload and receivedAt = t and retained = False] size topic
    by (simp add: defs Admit_send_def it_def Let_def)
  have 3: "run_step canonical_uuid l (?sv i2) (?sv i3)"
    unfolding run_step_def
    using server_step.works [OF worker_step.loop_takes [where w = 0 and s = "?sv i2" and i = i2]]
    by (simp add: defs take_item_def)
  have "st\<lparr>sy_server := fx_server\<rparr> = st" using st by (cases st) simp
  then have "(system_step canonical_uuid fx_outbox l)\<^sup>*\<^sup>* st (st\<lparr>sy_server := ?sv i3\<rparr>)"
    using go [OF 1] go [OF 2] go [OF 3] by (simp add: defs)
  moreover have "(system_step canonical_uuid fx_outbox l)\<^sup>*\<^sup>* (st\<lparr>sy_server := sv\<rparr>) (st\<lparr>sy_server := sv'\<rparr>)"
    if "(worker_step canonical_uuid (Validate canonical_uuid (Some l)) (repository_persist canonical_uuid))\<^sup>*\<^sup>* sv sv'" for sv sv'
    using that
  proof (induction rule: rtranclp_induct)
    case (step u u')
    have "set (ig_queue (sv_ingress u')) \<subseteq> set (ig_queue (sv_ingress u))"
      using worker_step_frame(4) [OF step.hyps(2)] by (rule set_mono_suffix)
    then have "system_step canonical_uuid fx_outbox l (st\<lparr>sy_server := u\<rparr>) (st\<lparr>sy_server := u'\<rparr>)"
      using step.hyps(2) by (intro go) (auto simp: run_step_def intro: server_step.works)
    then show ?case using step.IH by (rule rtranclp.rtrancl_into_rtrancl [rotated])
  qed simp
  moreover obtain r d' where P: "Persist canonical_uuid fx_env (Some m) fx_db = (Inr r, d')" "pr_Outcome r = CommitOutcomeCommitted"
      "identityMatches m (pr_Identity r)" using fx_server_stores [OF v m] by blast
  have "\<exists>sv. (worker_step canonical_uuid (Validate canonical_uuid (Some l)) (repository_persist canonical_uuid))\<^sup>*\<^sup>* (?sv i3) sv \<and>
      sv_db sv = d' \<and> sv_out sv = sv_out (?sv i3) @ [\<lparr>dl_Topic = ack_topic canonical_uuid ''gw1'' fx_mid,
        dl_Payload = marshalACK canonical_uuid fx_reply, dl_QoS = 1, dl_Retained = False\<rparr>]"
    by (rule item_published [where w = 0 and it = it and m = m and pe = fx_pe and r = r])
       (use v P m fx_newack in \<open>simp_all add: stands_at_def i3_def it_def fx_pe_def fx_server_def fx_reply_def fx_ack_def\<close>)
  ultimately show ?thesis by (metis append_Nil fx_server_def rtranclp_trans server.select_convs(3) server.simps(5))
qed

text \<open>A run of the Gateway process alone is a run of the system when the broker's part of it is.\<close>

lemma ack_run:
  assumes "akx.reach U o' box st"
  shows "\<exists>st0. ack_init U o' box st0 \<and> (ack_step U o')\<^sup>*\<^sup>* st0 st"
  using assms by (induction rule: akx.reach.induct) (meson rtranclp.simps)+

lemma ack_step_grows:
  assumes "ack_step U o' gw gw'"
  shows "prefix (ak_seen gw) (ak_seen gw') \<and> prefix (os_hist (ak_box gw)) (os_hist (ak_box gw'))"
  using assms by (cases rule: ack_step.cases) auto

lemma gateway_runs:
  assumes "(ack_step U o')\<^sup>*\<^sup>* gw gw'" and "syx.reach U o' l (st\<lparr>sy_gw := gw\<rparr>)"
    and "\<And>topic payload retained. (topic, payload, retained) \<in> set (ak_seen gw') \<Longrightarrow>
       acl_ack U (ox_gatewayID o') (sv_out (sy_server st)) topic payload"
    and "distinct (map ob_message_id (os_hist (ak_box gw')))"
  shows "syx.reach U o' l (st\<lparr>sy_gw := gw'\<rparr>)"
  using assms
proof (induction rule: rtranclp_induct)
  case (step gw1 gw2)
  note grows = ack_step_grows [OF step.hyps(2)]
  then have "set (ak_seen gw1) \<subseteq> set (ak_seen gw2)" "distinct (map ob_message_id (os_hist (ak_box gw1)))"
    using step.prems(3) by (auto simp: prefix_def)
  then have "syx.reach U o' l (st\<lparr>sy_gw := gw1\<rparr>)" using step.IH [OF step.prems(1)] step.prems(2) by blast
  moreover have "system_step U o' l (st\<lparr>sy_gw := gw1\<rparr>) (st\<lparr>sy_gw := gw2\<rparr>)"
    using system_step.gateway_moves [of U o' "st\<lparr>sy_gw := gw1\<rparr>" gw2 l] step.hyps(2) step.prems(2,3) by simp
  ultimately show ?case by (rule syx.reach_step)
qed

lemma fx_prepare_again: "prepare fx_sql fx_outbox fx_file = (Inr (), fx_file)"
proof -
  obtain item where "enqueue_tx canonical_uuid fx_sql fx_outbox fx_enqueue fx_schema = Inr (item, fx_file)"
    using fx_enqueue_tx fx_sql_healthy unfolding fx_file_def Enqueue_def by fastforce
  then obtain r where e: "fx_file = enqueued r fx_schema" by (elim enqueue_tx_ok) metis
  have "of_meta fx_file = of_meta fx_schema" unfolding e by (simp add: enqueued_def)
  then show ?thesis
    using fx_file_rows(2) by (simp add: prepare_def readUserVersion_def sql_read_def fx_sql_def verifyBinding_def outboxSchemaVersion_def
        fx_schema_def fx_outbox_def)
qed

lemma fx_system_run:
  "\<exists>st r. syx.reach canonical_uuid fx_outbox ServerLimits st \<and> sy_hist st = [r] \<and> of_rows (sy_file st) = [] \<and>
     ob_message_id r = uuid_String canonical_uuid fx_mid"
proof -
  note U = canonical_text_ok canonical_validate_ok
  let ?gw = "\<lambda>box. \<lparr>ak_proc = fx_proc, ak_box = box, ak_lat = None, ak_seen = []\<rparr>"
  let ?b0 = "\<lparr>os_file = fx_schema, os_hist = []\<rparr>"
  define st0 where "st0 = \<lparr>sy_gw = ?gw ?b0, sy_base = ?b0, sy_seen = [], sy_server = fx_server\<rparr>"
  define st1 where "st1 = st0\<lparr>sy_gw := ?gw fx_box\<rparr>"
  obtain r where r: "of_rows fx_file = [r]" "selected canonical_uuid ''gw1'' fx_mid r" using fx_file_rows(1) by blast
  have id: "ob_message_id r = uuid_String canonical_uuid fx_mid" using r(2) by (simp add: selected_def)
  have "obx.reach canonical_uuid fx_outbox ?b0"
    by (rule obx.reach_step [OF obx.reach_init outbox_step.opens [OF fx_prepare]]) (simp add: outbox_init_def)
  from outbox_reach_inv [OF U this] have b0: "state_inv canonical_uuid fx_outbox ?b0" .
  have proc: "NewACKProcessor (Some fx_outbox) 4 = Inr fx_proc"
    by (simp add: NewACKProcessor_def minACKAdmissionCapacity_def maxACKAdmissionCapacity_def fx_proc_def fx_outbox_def)
  have 0: "syx.reach canonical_uuid fx_outbox ServerLimits st0"
    by (rule syx.reach_init)
       (use b0 proc fx_init in \<open>auto simp: system_init_def st0_def ack_init_def outboxSchemaVersion_def, simp add: fx_schema_def\<close>)
  obtain item where E: "Enqueue canonical_uuid fx_sql fx_outbox fx_enqueue fx_schema = (Inr item, fx_file)" using fx_Enqueue(1) by blast
  have "ack_step canonical_uuid fx_outbox (?gw ?b0) (?gw fx_box)"
    using ack_step.enqueues [OF fx_typed, of canonical_uuid fx_outbox "?gw ?b0"] E by (simp add: fx_box_def fx_schema_def)
  then have "system_step canonical_uuid fx_outbox ServerLimits st0 st1"
    using system_step.gateway_moves [of canonical_uuid fx_outbox st0 "?gw fx_box" ServerLimits] r(1)
    by (simp add: st0_def st1_def fx_box_def)
  with 0 have 1: "syx.reach canonical_uuid fx_outbox ServerLimits st1" by (rule syx.reach_step)
  have built: "built_row canonical_uuid ''gw1'' ''s1'' r"
    using system_inv_gateway(3) [OF U system_reach_inv [OF U 1], of r] r(1) by (simp add: st1_def fx_box_def fx_outbox_def)
  obtain t m where m: "Validate canonical_uuid (Some ServerLimits) (ob_topic r) (ob_payload r) t = Inr m"
    using built_row_message [OF built] by (metis order_refl)
  note dec = built_row_decoded [OF U built m]
  have "bd_MessageID (msg_batch m) = fx_mid" using dec(2) id uuid_String_inj [OF U(1)] by auto
  moreover have "pt_SensorID (msg_topic m) = ''s1''" "length (ob_payload r) \<le> 65536"
    using m built unfolding Validate_ok_iff built_row_def by (auto simp: ServerLimits_def elim!: BuildSyntheticBatch_ok)
  moreover have "acl_telemetry ''gw1'' (sy_hist st1) (ob_topic r) (ob_payload r)"
    by (simp add: acl_telemetry_def st1_def fx_box_def r(1))
  moreover have "sy_server st1 = fx_server" by (simp add: st1_def st0_def)
  ultimately obtain sv where sv: "(system_step canonical_uuid fx_outbox ServerLimits)\<^sup>*\<^sup>* st1 (st1\<lparr>sy_server := sv\<rparr>)"
      "sv_out sv = [\<lparr>dl_Topic = ack_topic canonical_uuid ''gw1'' fx_mid, dl_Payload = marshalACK canonical_uuid fx_reply,
          dl_QoS = 1, dl_Retained = False\<rparr>]"
    using fx_server_run [OF m dec(1)] by blast
  let ?st2 = "st1\<lparr>sy_server := sv\<rparr>"
  have 2: "syx.reach canonical_uuid fx_outbox ServerLimits ?st2" using syx.reach_steps [OF sv(1) 1] .
  obtain gw0 cap where gw0: "NewACKProcessor (Some fx_outbox) cap = Inr (ak_proc gw0)" "ak_box gw0 = fx_box" "ak_seen gw0 = []"
      "(ack_step canonical_uuid fx_outbox)\<^sup>*\<^sup>* gw0 fx_replied"
    using ack_run [OF fx_ack_run] unfolding ack_init_def by blast
  have g0: "gw0 = \<lparr>ak_proc = ak_proc gw0, ak_box = fx_box, ak_lat = ak_lat gw0, ak_seen = []\<rparr>" using gw0(2,3) by (cases gw0) simp
  let ?st3 = "?st2\<lparr>sy_base := fx_box, sy_seen := []\<rparr>"
  have "prepare fx_sql fx_outbox fx_file = (Inr (), fx_file)" by (rule fx_prepare_again)
  then have "system_step canonical_uuid fx_outbox ServerLimits ?st2 (?st3\<lparr>sy_gw := gw0\<rparr>)"
    using system_step.gateway_restarts [OF gw0(1), of fx_sql canonical_uuid "[]" ?st2 fx_file fx_box ServerLimits "ak_lat gw0", folded g0]
    by (simp add: quarantined_def st1_def st0_def fx_box_def)
  with 2 have 3: "syx.reach canonical_uuid fx_outbox ServerLimits (?st3\<lparr>sy_gw := gw0\<rparr>)" by (rule syx.reach_step)
  have "syx.reach canonical_uuid fx_outbox ServerLimits (?st3\<lparr>sy_gw := fx_replied\<rparr>)"
    by (rule gateway_runs [OF gw0(4) 3]) (auto simp: acl_ack_def fx_replied_def fx_box_def sv(2) r(1))
  then show ?thesis using r(1) id by (intro exI [of _ "?st3\<lparr>sy_gw := fx_replied\<rparr>"] exI [of _ r]) (simp add: fx_replied_def fx_box_def)
qed

theorem no_batch_lost_witness:
  "\<exists>st r row. sy_hist st = [r] \<and> of_rows (sy_file st) = [] \<and> row \<in> set (db_processed (sv_db (sy_server st))) \<and>
     pm_payload_hash row = sha256_hex (ob_payload r)"
proof -
  obtain st r where st: "syx.reach canonical_uuid fx_outbox ServerLimits st" "sy_hist st = [r]" "of_rows (sy_file st) = []"
    using fx_system_run by blast
  then show ?thesis
    using no_batch_lost [OF canonical_text_ok canonical_validate_ok st(1), of r] by auto
qed

end
