(* ===== verification/CredentialModel.thy ===== *)
theory CredentialModel
  imports TelemetryStore
begin

text \<open>
  The pure part of the MQTT credential package (\<open>mqttcredential/model.go\<close>, \<open>reset_contract.go\<close>,
  \<open>errors.go\<close>): the data of credential operations, their validation, the allocation of credential
  versions, admission, completion, replay and reset eligibility.

  The package's string types are data types with one constructor per constant and one for any
  other text; the empty text is the zero value. A validation result is the code of the
  \<open>DomainError\<close> or \<open>None\<close> for a nil error. Times are instants, so the package's \<open>UTC()\<close> is the
  identity; the zero time is \<open>0\<close>.
\<close>

section \<open>Constants\<close>

datatype Action = ActionProvision | ActionRotate | ActionRevoke | ActionReset | ActionText string

datatype ExecutionContract = ContractLifecycle | ContractSimplified | ContractText string

datatype CredentialStatus =
    CredentialProvisioning | CredentialActive | CredentialRotating | CredentialRevoking | CredentialRevoked
  | CredentialFailed | CredentialRecoveryNeeded | CredentialText string

datatype OperationStatus =
    OperationPending | OperationSucceeded | OperationFailed | OperationRecoveryNeeded
  | OperationResolvedByRecovery | OperationText string

datatype OperationPhase =
    PhaseIntent | PhaseDynSecMutation | PhaseSnapshotReadback | PhaseFinalize | PhaseRecovery | PhaseText string

datatype DeliveryStatus = DeliveryUnknown | DeliveryDeviceUpdated | DeliveryText string

datatype ExecutionOutcome =
    ExecutionVerifiedSuccess | ExecutionUnchangedFailure | ExecutionRecoveryRequired | ExecutionMaintenanceClosed
  | OutcomeText string

datatype ResetReason = ResetReasonRecoveryAfterUnknown | ResetReasonLostSecretRecovery | ReasonText string

datatype ErrorCode =
    CodeInvalidRequest | CodeForbidden | CodeNotFound | CodeCredentialConflict | CodeOperationInProgress
  | CodeIdempotencyConflict | CodeRuntimeDisabled | CodeRuntimeBusy | CodeVerificationUnavailable
  | CodeRecoveryRequired | CodeFinalizationPending | CodeServiceUnavailable | CodeInternalError | CodeText string

fun ExecutionContract_Validate :: "ExecutionContract \<Rightarrow> ErrorCode option" where
  "ExecutionContract_Validate (ContractText _) = Some CodeInvalidRequest"
| "ExecutionContract_Validate _ = None"

fun Action_Validate :: "Action \<Rightarrow> ErrorCode option" where
  "Action_Validate ActionProvision = None"
| "Action_Validate ActionRotate = None"
| "Action_Validate ActionRevoke = None"
| "Action_Validate _ = Some CodeInvalidRequest"

fun CredentialStatus_Validate :: "CredentialStatus \<Rightarrow> ErrorCode option" where
  "CredentialStatus_Validate (CredentialText _) = Some CodeInvalidRequest"
| "CredentialStatus_Validate _ = None"

fun OperationStatus_Validate :: "OperationStatus \<Rightarrow> ErrorCode option" where
  "OperationStatus_Validate OperationPending = None"
| "OperationStatus_Validate OperationSucceeded = None"
| "OperationStatus_Validate OperationFailed = None"
| "OperationStatus_Validate OperationRecoveryNeeded = None"
| "OperationStatus_Validate _ = Some CodeInvalidRequest"

fun OperationPhase_Validate :: "OperationPhase \<Rightarrow> ErrorCode option" where
  "OperationPhase_Validate (PhaseText _) = Some CodeInvalidRequest"
| "OperationPhase_Validate _ = None"

fun DeliveryStatus_Validate :: "DeliveryStatus \<Rightarrow> ErrorCode option" where
  "DeliveryStatus_Validate (DeliveryText _) = Some CodeInvalidRequest"
| "DeliveryStatus_Validate _ = None"

fun ExecutionOutcome_Validate :: "ExecutionOutcome \<Rightarrow> ErrorCode option" where
  "ExecutionOutcome_Validate (OutcomeText _) = Some CodeInvalidRequest"
| "ExecutionOutcome_Validate _ = None"

fun ResetReason_Validate :: "ResetReason \<Rightarrow> ErrorCode option" where
  "ResetReason_Validate (ReasonText _) = Some CodeInvalidRequest"
| "ResetReason_Validate _ = None"

section \<open>Inputs\<close>

record MutationInput =
  mu_GatewayID :: string
  mu_IdempotencyKey :: uuid
  mu_Action :: Action

definition ValidateMutationInput :: "uuid \<Rightarrow> MutationInput \<Rightarrow> ErrorCode option" where
  "ValidateMutationInput actorUserID input =
     (if actorUserID = uuid_Nil \<or> mu_IdempotencyKey input = uuid_Nil \<or> \<not> ValidateGatewayID (mu_GatewayID input)
      then Some CodeInvalidRequest
      else Action_Validate (mu_Action input))"

record ResetInput =
  ri_GatewayID :: string
  ri_IdempotencyKey :: uuid
  ri_Reason :: ResetReason

definition ValidateResetInput :: "uuid \<Rightarrow> ResetInput \<Rightarrow> ErrorCode option" where
  "ValidateResetInput actorUserID input =
     (if actorUserID = uuid_Nil \<or> ri_IdempotencyKey input = uuid_Nil \<or> \<not> ValidateGatewayID (ri_GatewayID input)
      then Some CodeInvalidRequest
      else ResetReason_Validate (ri_Reason input))"

section \<open>Operations\<close>

record VerificationEvidence =
  RAMApplied :: bool
  SnapshotObserved :: bool
  FreshPositiveVerified :: bool

definition no_evidence :: VerificationEvidence where
  "no_evidence = \<lparr>RAMApplied = False, SnapshotObserved = False, FreshPositiveVerified = False\<rparr>"

record CredentialSnapshot =
  cs_Status :: CredentialStatus
  cs_CredentialVersion :: int
  cs_ActivatedAt :: "time option"
  cs_RevokedAt :: "time option"

record Operation =
  op_OperationID :: uuid
  op_ActorUserID :: uuid
  op_GatewayID :: string
  op_IdempotencyKey :: uuid
  op_Action :: Action
  op_CredentialVersion :: int
  op_Status :: OperationStatus
  op_Phase :: OperationPhase
  op_Evidence :: VerificationEvidence
  op_DeliveryStatus :: DeliveryStatus
  op_CreatedAt :: time
  op_UpdatedAt :: time
  op_CompletedAt :: "time option"
  op_Previous :: "CredentialSnapshot option"
  op_ErrorCode :: "ErrorCode option"
  op_RecoveryID :: "uuid option"
  op_ReplacementPredecessorID :: "uuid option"
  op_ExecutionContract :: ExecutionContract
  op_ResetPredecessorID :: "uuid option"
  op_ResetReason :: "ResetReason option"

text \<open>The zero value of the Go struct.\<close>

definition Operation_zero :: Operation where
  "Operation_zero = \<lparr>op_OperationID = uuid_Nil, op_ActorUserID = uuid_Nil, op_GatewayID = [], op_IdempotencyKey = uuid_Nil,
     op_Action = ActionText [], op_CredentialVersion = 0, op_Status = OperationText [], op_Phase = PhaseText [],
     op_Evidence = no_evidence, op_DeliveryStatus = DeliveryText [], op_CreatedAt = 0, op_UpdatedAt = 0,
     op_CompletedAt = None, op_Previous = None, op_ErrorCode = None, op_RecoveryID = None,
     op_ReplacementPredecessorID = None, op_ExecutionContract = ContractText [], op_ResetPredecessorID = None,
     op_ResetReason = None\<rparr>"

text \<open>The part of \<open>ValidateHistorical\<close> that depends on whether the operation is a reset.\<close>

definition validate_reset_fields :: "Operation \<Rightarrow> ErrorCode option" where
  "validate_reset_fields op =
     (if op_Action op = ActionReset then
        if op_ExecutionContract op \<noteq> ContractSimplified then Some CodeInvalidRequest
        else
          (case (op_ResetPredecessorID op, op_ResetReason op) of
             (Some p, Some reason) \<Rightarrow>
               if p = uuid_Nil \<or> p = op_OperationID op \<or> ResetReason_Validate reason \<noteq> None then Some CodeInvalidRequest
               else if op_RecoveryID op \<noteq> None \<or> op_ReplacementPredecessorID op \<noteq> None then Some CodeInvalidRequest
               else ValidateResetInput (op_OperationID op)
                 \<lparr>ri_GatewayID = op_GatewayID op, ri_IdempotencyKey = op_IdempotencyKey op, ri_Reason = reason\<rparr>
           | _ \<Rightarrow> Some CodeInvalidRequest)
      else if op_ResetPredecessorID op \<noteq> None \<or> op_ResetReason op \<noteq> None then Some CodeInvalidRequest
      else ValidateMutationInput (op_OperationID op)
        \<lparr>mu_GatewayID = op_GatewayID op, mu_IdempotencyKey = op_IdempotencyKey op, mu_Action = op_Action op\<rparr>)"

definition success_unproved :: "ExecutionContract \<Rightarrow> Action \<Rightarrow> VerificationEvidence \<Rightarrow> bool" where
  "success_unproved contract action evidence \<longleftrightarrow>
     \<not> RAMApplied evidence \<or> (contract \<noteq> ContractSimplified \<and> \<not> SnapshotObserved evidence) \<or>
     (action \<noteq> ActionRevoke \<and> \<not> FreshPositiveVerified evidence)"

definition ValidateHistorical :: "Operation \<Rightarrow> ErrorCode option" where
  "ValidateHistorical op =
     (if op_OperationID op = uuid_Nil then Some CodeInvalidRequest
      else if (case op_ReplacementPredecessorID op of None \<Rightarrow> False
               | Some p \<Rightarrow> p = uuid_Nil \<or> p = op_OperationID op \<or> op_Action op \<noteq> ActionRotate)
      then Some CodeInvalidRequest
      else if op_ExecutionContract op \<noteq> ContractText [] \<and> ExecutionContract_Validate (op_ExecutionContract op) \<noteq> None
      then Some CodeInvalidRequest
      else
        (case validate_reset_fields op of Some e \<Rightarrow> Some e | None \<Rightarrow>
        (case OperationStatus_Validate (op_Status op) of Some e \<Rightarrow> Some e | None \<Rightarrow>
        (case OperationPhase_Validate (op_Phase op) of Some e \<Rightarrow> Some e | None \<Rightarrow>
        (case DeliveryStatus_Validate (op_DeliveryStatus op) of Some e \<Rightarrow> Some e | None \<Rightarrow>
         if (case op_RecoveryID op of None \<Rightarrow> False
             | Some r \<Rightarrow> r = uuid_Nil \<or> (op_Status op \<noteq> OperationPending \<and> op_Status op \<noteq> OperationRecoveryNeeded))
         then Some CodeInvalidRequest
         else if op_CredentialVersion op \<le> 0 \<or>
           (op_Status op = OperationSucceeded \<or> op_Status op = OperationFailed) \<noteq> (op_CompletedAt op \<noteq> None)
         then Some CodeInvalidRequest
         else if (case op_CompletedAt op of None \<Rightarrow> False | Some t \<Rightarrow> t = 0 \<or> t < op_CreatedAt op)
         then Some CodeInvalidRequest
         else if op_Status op = OperationSucceeded \<and>
           success_unproved (op_ExecutionContract op) (op_Action op) (op_Evidence op)
         then Some CodeInvalidRequest
         else if (case op_Previous op of None \<Rightarrow> False
             | Some p \<Rightarrow> cs_CredentialVersion p \<le> 0 \<or> CredentialStatus_Validate (cs_Status p) \<noteq> None)
         then Some CodeInvalidRequest
         else None)))))"

definition Operation_Validate :: "Operation \<Rightarrow> ErrorCode option" where
  "Operation_Validate op = (if op_ActorUserID op = uuid_Nil then Some CodeInvalidRequest else ValidateHistorical op)"

definition Terminal :: "Operation \<Rightarrow> bool" where
  "Terminal op \<longleftrightarrow> op_Status op = OperationSucceeded \<or> op_Status op = OperationFailed \<or> op_RecoveryID op \<noteq> None"

section \<open>Versions, admission and completion\<close>

definition AllocateVersion :: "int \<Rightarrow> int \<Rightarrow> ErrorCode + int" where
  "AllocateVersion metadataVersion maxAttemptedVersion =
     (if metadataVersion < 0 \<or> maxAttemptedVersion < 0 then Inl CodeInvalidRequest
      else let maximum = max metadataVersion maxAttemptedVersion in
        if maximum = maxInt64 then Inl CodeInvalidRequest else Inr (i64 (maximum + 1)))"

definition BeginCredentialStatus :: "CredentialStatus \<Rightarrow> Action \<Rightarrow> ErrorCode + CredentialStatus" where
  "BeginCredentialStatus current action =
     (if Action_Validate action \<noteq> None \<or> (current \<noteq> CredentialText [] \<and> CredentialStatus_Validate current \<noteq> None)
      then Inl CodeInvalidRequest
      else if current = CredentialRecoveryNeeded then Inl CodeRecoveryRequired
      else if current \<in> {CredentialProvisioning, CredentialRotating, CredentialRevoking} then Inl CodeOperationInProgress
      else if action = ActionProvision \<and> current \<in> {CredentialText [], CredentialRevoked, CredentialFailed}
      then Inr CredentialProvisioning
      else if action = ActionRotate \<and> current = CredentialActive then Inr CredentialRotating
      else if action = ActionRevoke \<and> current = CredentialActive then Inr CredentialRevoking
      else Inl CodeCredentialConflict)"

record Completion =
  co_Operation :: Operation
  co_Credential :: CredentialSnapshot

definition merge_evidence :: "VerificationEvidence \<Rightarrow> VerificationEvidence \<Rightarrow> VerificationEvidence" where
  "merge_evidence a b = \<lparr>RAMApplied = RAMApplied a \<or> RAMApplied b, SnapshotObserved = SnapshotObserved a \<or> SnapshotObserved b,
     FreshPositiveVerified = FreshPositiveVerified a \<or> FreshPositiveVerified b\<rparr>"

text \<open>The guards of \<open>CompleteOperation\<close> before its switch.\<close>

definition completion_refused :: "Operation \<Rightarrow> time \<Rightarrow> bool" where
  "completion_refused op t \<longleftrightarrow>
     ValidateHistorical op \<noteq> None \<or> Terminal op \<or> t = 0 \<or> t < op_CreatedAt op \<or> t < op_UpdatedAt op \<or>
     (op_Action op \<noteq> ActionProvision \<and>
        (case op_Previous op of None \<Rightarrow> True
         | Some p \<Rightarrow> cs_Status p \<noteq> CredentialActive \<and> op_ReplacementPredecessorID op = None \<and> op_Action op \<noteq> ActionReset)) \<or>
     (case op_Previous op of None \<Rightarrow> False
      | Some p \<Rightarrow>
          (op_Action op = ActionProvision \<and> cs_Status p \<noteq> CredentialRevoked \<and> cs_Status p \<noteq> CredentialFailed) \<or>
          (op_Action op = ActionRevoke \<and> op_CredentialVersion op \<noteq> cs_CredentialVersion p) \<or>
          (op_Action op \<noteq> ActionRevoke \<and> op_CredentialVersion op \<le> cs_CredentialVersion p))"

definition CompleteOperation :: "Operation \<Rightarrow> ExecutionOutcome \<Rightarrow> VerificationEvidence \<Rightarrow> time \<Rightarrow> ErrorCode + Completion" where
  "CompleteOperation op outcome evidence t =
     (if completion_refused op t then Inl CodeInvalidRequest
      else
        let state = (case op_Previous op of
            None \<Rightarrow> \<lparr>cs_Status = CredentialText [], cs_CredentialVersion = op_CredentialVersion op,
                     cs_ActivatedAt = None, cs_RevokedAt = None\<rparr>
          | Some p \<Rightarrow> p) in
        (case outcome of
           ExecutionVerifiedSuccess \<Rightarrow>
             if success_unproved (op_ExecutionContract op) (op_Action op) evidence then Inl CodeInvalidRequest
             else Inr \<lparr>
               co_Operation = op\<lparr>op_Status := OperationSucceeded, op_Phase := PhaseFinalize, op_CompletedAt := Some t,
                 op_ErrorCode := None, op_Evidence := evidence, op_UpdatedAt := t\<rparr>,
               co_Credential =
                 (if op_Action op = ActionRevoke
                  then state\<lparr>cs_CredentialVersion := op_CredentialVersion op, cs_Status := CredentialRevoked, cs_RevokedAt := Some t\<rparr>
                  else state\<lparr>cs_CredentialVersion := op_CredentialVersion op, cs_Status := CredentialActive,
                    cs_ActivatedAt := Some t, cs_RevokedAt := None\<rparr>)\<rparr>
         | ExecutionUnchangedFailure \<Rightarrow>
             if op_Status op \<noteq> OperationPending \<or> op_Evidence op \<noteq> no_evidence \<or> evidence \<noteq> no_evidence
             then Inl CodeInvalidRequest
             else Inr \<lparr>
               co_Operation = op\<lparr>op_Status := OperationFailed, op_Phase := PhaseFinalize, op_CompletedAt := Some t,
                 op_Evidence := evidence, op_UpdatedAt := t\<rparr>,
               co_Credential = (if op_Previous op = None then state\<lparr>cs_Status := CredentialFailed\<rparr> else state)\<rparr>
         | ExecutionRecoveryRequired \<Rightarrow>
             Inr \<lparr>
               co_Operation = op\<lparr>op_Status := OperationRecoveryNeeded, op_Phase := PhaseRecovery, op_CompletedAt := None,
                 op_Evidence := merge_evidence evidence (op_Evidence op), op_UpdatedAt := t\<rparr>,
               co_Credential = state\<lparr>cs_Status := CredentialRecoveryNeeded\<rparr>\<rparr>
         | _ \<Rightarrow> Inl CodeInvalidRequest))"

section \<open>Metadata and replay\<close>

record Metadata =
  md_GatewayID :: string
  md_Username :: string
  md_CredentialVersion :: int
  md_Status :: CredentialStatus
  md_LastOperationID :: uuid
  md_OperationStatus :: OperationStatus
  md_ActivatedAt :: "time option"
  md_RevokedAt :: "time option"
  md_LastErrorCode :: "ErrorCode option"

definition Metadata_zero :: Metadata where
  "Metadata_zero = \<lparr>md_GatewayID = [], md_Username = [], md_CredentialVersion = 0, md_Status = CredentialText [],
     md_LastOperationID = uuid_Nil, md_OperationStatus = OperationText [], md_ActivatedAt = None, md_RevokedAt = None,
     md_LastErrorCode = None\<rparr>"

record MutationResult =
  mr_Metadata :: Metadata
  mr_OperationID :: uuid
  mr_SecretReturned :: bool
  mr_NextAction :: string
  mr_ReplayedStatus :: OperationStatus
  mr_ErrorCode :: "ErrorCode option"

text \<open>The composite literals of the sources name some fields; the others are zero.\<close>

definition mutation_result :: "Metadata \<Rightarrow> uuid \<Rightarrow> MutationResult" where
  "mutation_result m i = \<lparr>mr_Metadata = m, mr_OperationID = i, mr_SecretReturned = False, mr_NextAction = [],
     mr_ReplayedStatus = OperationText [], mr_ErrorCode = None\<rparr>"

definition rotate_hint :: string where "rotate_hint = ''rotate_with_new_idempotency_key''"
definition provision_hint :: string where "provision_hint = ''provision_with_new_idempotency_key''"

definition ReplayOperation :: "Operation \<Rightarrow> uuid \<Rightarrow> MutationInput \<Rightarrow> Metadata \<Rightarrow> ErrorCode + MutationResult" where
  "ReplayOperation op actor input current =
     (if ValidateMutationInput actor input \<noteq> None then Inl CodeInvalidRequest
      else if op_ActorUserID op \<noteq> actor \<or> op_IdempotencyKey op \<noteq> mu_IdempotencyKey input \<or>
        op_GatewayID op \<noteq> mu_GatewayID input \<or> op_Action op \<noteq> mu_Action input
      then Inl CodeIdempotencyConflict
      else
        (case Operation_Validate op of Some e \<Rightarrow> Inl e | None \<Rightarrow>
         if op_RecoveryID op \<noteq> None then
           if md_GatewayID current \<noteq> op_GatewayID op then Inl CodeInvalidRequest
           else Inr ((mutation_result current (op_OperationID op))
             \<lparr>mr_ReplayedStatus := OperationResolvedByRecovery, mr_NextAction := provision_hint\<rparr>)
         else if op_Status op = OperationPending then Inl CodeOperationInProgress
         else if op_Status op = OperationRecoveryNeeded then Inl CodeRecoveryRequired
         else if md_GatewayID current \<noteq> op_GatewayID op then Inl CodeInvalidRequest
         else Inr ((mutation_result current (op_OperationID op))
           \<lparr>mr_ReplayedStatus := op_Status op, mr_ErrorCode := op_ErrorCode op,
            mr_NextAction :=
              (if op_Status op = OperationSucceeded \<and> op_Action op \<noteq> ActionRevoke \<and> md_Status current \<noteq> CredentialRevoked
               then rotate_hint
               else if md_Status current = CredentialRevoked then provision_hint else [])\<rparr>)))"

record SecretResult =
  sr_Metadata :: Metadata
  sr_OperationID :: uuid
  sr_password :: string

definition NewSecretResult :: "Metadata \<Rightarrow> uuid \<Rightarrow> string \<Rightarrow> SecretResult" where
  "NewSecretResult metadata operationID password =
     \<lparr>sr_Metadata = metadata, sr_OperationID = operationID, sr_password = password\<rparr>"

section \<open>Reset eligibility\<close>

definition CheckResetEligibility :: "Metadata \<Rightarrow> Operation \<Rightarrow> ResetReason \<Rightarrow> ErrorCode option" where
  "CheckResetEligibility current op reason =
     (case ResetReason_Validate reason of Some e \<Rightarrow> Some e | None \<Rightarrow>
      if op_OperationID op = uuid_Nil \<or> md_LastOperationID current = uuid_Nil then Some CodeInvalidRequest
      else if md_LastOperationID current \<noteq> op_OperationID op \<or> md_GatewayID current \<noteq> op_GatewayID op \<or>
        md_OperationStatus current \<noteq> op_Status op
      then Some CodeCredentialConflict
      else
        let expectedVersion =
          (if op_Status op = OperationRecoveryNeeded
           then (case op_Previous op of Some p \<Rightarrow> cs_CredentialVersion p | None \<Rightarrow> op_CredentialVersion op)
           else op_CredentialVersion op) in
        if md_CredentialVersion current \<noteq> expectedVersion then Some CodeCredentialConflict
        else
          (case ValidateHistorical op of Some e \<Rightarrow> Some e | None \<Rightarrow>
           if op_RecoveryID op \<noteq> None then Some CodeCredentialConflict
           else
             (case reason of
                ResetReasonRecoveryAfterUnknown \<Rightarrow>
                  if op_Status op \<noteq> OperationPending \<and> op_Status op \<noteq> OperationRecoveryNeeded
                  then Some CodeCredentialConflict
                  else if md_Status current \<in>
                    {CredentialProvisioning, CredentialRotating, CredentialRevoking, CredentialRecoveryNeeded}
                  then None else Some CodeCredentialConflict
              | ResetReasonLostSecretRecovery \<Rightarrow>
                  if op_Status op \<noteq> OperationSucceeded \<or>
                    (op_Action op \<noteq> ActionProvision \<and> op_Action op \<noteq> ActionRotate \<and> op_Action op \<noteq> ActionReset)
                  then Some CodeCredentialConflict
                  else if md_Status current \<noteq> CredentialActive \<or> md_OperationStatus current \<noteq> OperationSucceeded
                  then Some CodeCredentialConflict else None
              | _ \<Rightarrow> Some CodeInvalidRequest)))"

section \<open>Properties of the model\<close>

lemma Validate_code [simp]:
  "Action_Validate a \<noteq> None \<longleftrightarrow> Action_Validate a = Some CodeInvalidRequest"
  "Action_Validate a = None \<longleftrightarrow> a \<in> {ActionProvision, ActionRotate, ActionRevoke}"
  by (cases a; simp)+

lemma OperationStatus_Validate_None:
  "OperationStatus_Validate s = None \<longleftrightarrow> s \<in> {OperationPending, OperationSucceeded, OperationFailed, OperationRecoveryNeeded}"
  by (cases s) auto

lemma ValidateMutationInput_None:
  "ValidateMutationInput actor input = None \<longleftrightarrow>
     actor \<noteq> uuid_Nil \<and> mu_IdempotencyKey input \<noteq> uuid_Nil \<and> ValidateGatewayID (mu_GatewayID input) \<and>
     mu_Action input \<in> {ActionProvision, ActionRotate, ActionRevoke}"
  by (simp add: ValidateMutationInput_def)

lemma ValidateResetInput_None:
  "ValidateResetInput actor input = None \<longleftrightarrow>
     actor \<noteq> uuid_Nil \<and> ri_IdempotencyKey input \<noteq> uuid_Nil \<and> ValidateGatewayID (ri_GatewayID input) \<and>
     ResetReason_Validate (ri_Reason input) = None"
  by (simp add: ValidateResetInput_def)

text \<open>What validity of an operation means, condition by condition.\<close>

definition reset_fields_ok :: "Operation \<Rightarrow> bool" where
  "reset_fields_ok op \<longleftrightarrow> validate_reset_fields op = None"

lemma ValidateHistorical_None:
  "ValidateHistorical op = None \<longleftrightarrow>
     op_OperationID op \<noteq> uuid_Nil \<and>
     (\<forall>p. op_ReplacementPredecessorID op = Some p \<longrightarrow> p \<noteq> uuid_Nil \<and> p \<noteq> op_OperationID op \<and> op_Action op = ActionRotate) \<and>
     (op_ExecutionContract op = ContractText [] \<or> ExecutionContract_Validate (op_ExecutionContract op) = None) \<and>
     reset_fields_ok op \<and> OperationStatus_Validate (op_Status op) = None \<and> OperationPhase_Validate (op_Phase op) = None \<and>
     DeliveryStatus_Validate (op_DeliveryStatus op) = None \<and>
     (\<forall>r. op_RecoveryID op = Some r \<longrightarrow> r \<noteq> uuid_Nil \<and> op_Status op \<in> {OperationPending, OperationRecoveryNeeded}) \<and>
     0 < op_CredentialVersion op \<and>
     (op_Status op \<in> {OperationSucceeded, OperationFailed} \<longleftrightarrow> op_CompletedAt op \<noteq> None) \<and>
     (\<forall>t. op_CompletedAt op = Some t \<longrightarrow> t \<noteq> 0 \<and> op_CreatedAt op \<le> t) \<and>
     (op_Status op = OperationSucceeded \<longrightarrow> \<not> success_unproved (op_ExecutionContract op) (op_Action op) (op_Evidence op)) \<and>
     (\<forall>p. op_Previous op = Some p \<longrightarrow> 0 < cs_CredentialVersion p \<and> CredentialStatus_Validate (cs_Status p) = None)"
  unfolding ValidateHistorical_def reset_fields_ok_def
  by (simp split: option.split) (smt (verit, best) not_le option.distinct(1))

text \<open>The reset fields do not depend on how far the operation has come.\<close>

lemma reset_fields_ok_update [simp]:
  "reset_fields_ok (op\<lparr>op_Status := s\<rparr>) = reset_fields_ok op"
  "reset_fields_ok (op\<lparr>op_Phase := ph\<rparr>) = reset_fields_ok op"
  "reset_fields_ok (op\<lparr>op_Evidence := ev\<rparr>) = reset_fields_ok op"
  "reset_fields_ok (op\<lparr>op_UpdatedAt := u\<rparr>) = reset_fields_ok op"
  "reset_fields_ok (op\<lparr>op_CompletedAt := ca\<rparr>) = reset_fields_ok op"
  "reset_fields_ok (op\<lparr>op_ErrorCode := c\<rparr>) = reset_fields_ok op"
  "reset_fields_ok (op\<lparr>op_ActorUserID := a\<rparr>) = reset_fields_ok op"
  by (simp_all add: reset_fields_ok_def validate_reset_fields_def split: option.split)

lemma ValidateHistorical_actor [simp]: "ValidateHistorical (op\<lparr>op_ActorUserID := a\<rparr>) = None \<longleftrightarrow> ValidateHistorical op = None"
  by (simp add: ValidateHistorical_None)

lemma AllocateVersion_Inr:
  assumes "AllocateVersion a b = Inr v" and "a \<le> maxInt64" and "b \<le> maxInt64"
  shows "v = max a b + 1 \<and> 0 < v \<and> v \<le> maxInt64"
proof -
  have ab: "0 \<le> a" "0 \<le> b" "max a b \<noteq> maxInt64" "v = i64 (max a b + 1)"
    using assms(1) by (auto simp: AllocateVersion_def Let_def split: if_splits)
  moreover have "i64 (max a b + 1) = max a b + 1"
    using ab assms(2,3) by (intro i64_id) (auto simp: in_i64_def minInt64_def maxInt64_def)
  ultimately show ?thesis using assms(2,3) by auto
qed

lemma BeginCredentialStatus_Inr:
  assumes "BeginCredentialStatus current action = Inr s"
  shows "(action = ActionProvision \<and> s = CredentialProvisioning \<and> current \<in> {CredentialText [], CredentialRevoked, CredentialFailed}) \<or>
    (action = ActionRotate \<and> s = CredentialRotating \<and> current = CredentialActive) \<or>
    (action = ActionRevoke \<and> s = CredentialRevoking \<and> current = CredentialActive)"
  using assms by (auto simp: BeginCredentialStatus_def split: if_splits)

lemma completion_refused_not:
  assumes "\<not> completion_refused op t"
  shows "ValidateHistorical op = None" "\<not> Terminal op" "t \<noteq> 0" "op_CreatedAt op \<le> t" "op_UpdatedAt op \<le> t"
    "op_RecoveryID op = None" "op_Status op \<in> {OperationPending, OperationRecoveryNeeded}"
proof -
  show v: "ValidateHistorical op = None" and t: "\<not> Terminal op" and "t \<noteq> 0" "op_CreatedAt op \<le> t" "op_UpdatedAt op \<le> t"
    using assms by (auto simp: completion_refused_def)
  show "op_RecoveryID op = None" using t by (simp add: Terminal_def)
  show "op_Status op \<in> {OperationPending, OperationRecoveryNeeded}"
    using v t by (auto simp: ValidateHistorical_None OperationStatus_Validate_None Terminal_def)
qed

text \<open>The fields a completion may change.\<close>

definition same_identity :: "Operation \<Rightarrow> Operation \<Rightarrow> bool" where
  "same_identity a b \<longleftrightarrow>
     a\<lparr>op_Status := op_Status b, op_Phase := op_Phase b, op_Evidence := op_Evidence b, op_UpdatedAt := op_UpdatedAt b,
       op_CompletedAt := op_CompletedAt b, op_ErrorCode := op_ErrorCode b\<rparr> = b"

lemma CompleteOperation_cases:
  assumes "CompleteOperation op outcome evidence t = Inr c"
  obtains (success) "outcome = ExecutionVerifiedSuccess" "\<not> completion_refused op t"
      "\<not> success_unproved (op_ExecutionContract op) (op_Action op) evidence"
      "co_Operation c = op\<lparr>op_Status := OperationSucceeded, op_Phase := PhaseFinalize, op_CompletedAt := Some t,
         op_ErrorCode := None, op_Evidence := evidence, op_UpdatedAt := t\<rparr>"
      "cs_CredentialVersion (co_Credential c) = op_CredentialVersion op"
      "cs_Status (co_Credential c) = (if op_Action op = ActionRevoke then CredentialRevoked else CredentialActive)"
      "cs_ActivatedAt (co_Credential c) =
         (if op_Action op = ActionRevoke then Option.bind (op_Previous op) cs_ActivatedAt else Some t)"
      "cs_RevokedAt (co_Credential c) = (if op_Action op = ActionRevoke then Some t else None)"
    | (failure) "outcome = ExecutionUnchangedFailure" "\<not> completion_refused op t" "op_Status op = OperationPending"
      "evidence = no_evidence" "op_Evidence op = no_evidence"
      "co_Operation c = op\<lparr>op_Status := OperationFailed, op_Phase := PhaseFinalize, op_CompletedAt := Some t,
         op_Evidence := no_evidence, op_UpdatedAt := t\<rparr>"
      "co_Credential c = (case op_Previous op of Some p \<Rightarrow> p
         | None \<Rightarrow> \<lparr>cs_Status = CredentialFailed, cs_CredentialVersion = op_CredentialVersion op, cs_ActivatedAt = None, cs_RevokedAt = None\<rparr>)"
    | (recovery) "outcome = ExecutionRecoveryRequired" "\<not> completion_refused op t"
      "co_Operation c = op\<lparr>op_Status := OperationRecoveryNeeded, op_Phase := PhaseRecovery, op_CompletedAt := None,
         op_Evidence := merge_evidence evidence (op_Evidence op), op_UpdatedAt := t\<rparr>"
      "co_Credential c = (case op_Previous op of Some p \<Rightarrow> p\<lparr>cs_Status := CredentialRecoveryNeeded\<rparr>
         | None \<Rightarrow> \<lparr>cs_Status = CredentialRecoveryNeeded, cs_CredentialVersion = op_CredentialVersion op, cs_ActivatedAt = None, cs_RevokedAt = None\<rparr>)"
proof (cases outcome)
  case ExecutionVerifiedSuccess
  then show thesis using assms that(1)
    by (cases "op_Previous op") (auto simp: CompleteOperation_def Let_def split: if_splits)
next
  case ExecutionUnchangedFailure
  then show thesis using assms that(2)
    by (cases "op_Previous op") (auto simp: CompleteOperation_def Let_def split: if_splits)
next
  case ExecutionRecoveryRequired
  then show thesis using assms that(3)
    by (cases "op_Previous op") (auto simp: CompleteOperation_def Let_def split: if_splits)
qed (use assms in \<open>auto simp: CompleteOperation_def Let_def split: if_splits\<close>)

text \<open>C38. Completing an operation keeps its data well formed. Whatever the outcome, the completed
  operation is valid as a historical record and differs from the given one in status, phase,
  evidence, update and completion time and error code only; the credential state has a known status
  and a positive version. The operation is recorded as succeeded only with the proof its execution
  contract and action demand, as failed only without any observation at all, and an uncertain
  outcome keeps every observation already made and stays open.\<close>

theorem CompleteOperation_well_formed:
  assumes "CompleteOperation op outcome evidence t = Inr c"
  defines "p \<equiv> co_Operation c" and "s \<equiv> co_Credential c"
  shows "ValidateHistorical p = None \<and> same_identity op p \<and> CredentialStatus_Validate (cs_Status s) = None \<and>
    0 < cs_CredentialVersion s \<and> (Terminal p \<longleftrightarrow> outcome \<noteq> ExecutionRecoveryRequired) \<and>
    (op_Status p = OperationSucceeded \<longleftrightarrow> outcome = ExecutionVerifiedSuccess) \<and>
    (outcome = ExecutionVerifiedSuccess \<longrightarrow> \<not> success_unproved (op_ExecutionContract op) (op_Action op) (op_Evidence p)) \<and>
    (outcome = ExecutionUnchangedFailure \<longrightarrow> op_Evidence op = no_evidence \<and> op_Evidence p = no_evidence) \<and>
    (outcome = ExecutionRecoveryRequired \<longrightarrow> op_Evidence p = merge_evidence evidence (op_Evidence op))"
  using assms(1)
proof (cases rule: CompleteOperation_cases)
  case success
  note v = completion_refused_not [OF success(2)]
  show ?thesis using success v
    by (auto simp: p_def s_def ValidateHistorical_None same_identity_def Terminal_def)
next
  case failure
  note v = completion_refused_not [OF failure(2)]
  show ?thesis using failure v
    by (auto simp: p_def s_def ValidateHistorical_None same_identity_def Terminal_def split: option.split)
next
  case recovery
  note v = completion_refused_not [OF recovery(2)]
  show ?thesis using recovery v
    by (auto simp: p_def s_def ValidateHistorical_None same_identity_def Terminal_def split: option.split)
qed

definition sample_operation :: Operation where
  "sample_operation = Operation_zero\<lparr>op_OperationID := 5, op_ActorUserID := 7, op_GatewayID := ''gw-1'', op_IdempotencyKey := 9,
     op_Action := ActionProvision, op_CredentialVersion := 1, op_Status := OperationPending, op_Phase := PhaseIntent,
     op_DeliveryStatus := DeliveryUnknown, op_CreatedAt := 1000, op_UpdatedAt := 1000, op_ExecutionContract := ContractSimplified\<rparr>"

theorem CompleteOperation_well_formed_witness:
  "\<exists>c. CompleteOperation sample_operation ExecutionVerifiedSuccess
       \<lparr>RAMApplied = True, SnapshotObserved = False, FreshPositiveVerified = True\<rparr> 2000 = Inr c \<and>
     ValidateHistorical (co_Operation c) = None \<and> op_Status (co_Operation c) = OperationSucceeded \<and> Terminal (co_Operation c)"
proof -
  let ?ev = "\<lparr>RAMApplied = True, SnapshotObserved = False, FreshPositiveVerified = True\<rparr>"
  have "is_ok (CompleteOperation sample_operation ExecutionVerifiedSuccess ?ev 2000)" by code_simp
  then obtain c where c: "CompleteOperation sample_operation ExecutionVerifiedSuccess ?ev 2000 = Inr c" by (auto simp: is_ok_iff)
  then show ?thesis using CompleteOperation_well_formed [OF c] by simp
qed

end
