(* ===== verification/CredentialStore.thy ===== *)
theory CredentialStore
  imports CredentialModel
begin

text \<open>
  The credential repository on PostgreSQL (\<open>mqttcredential/postgres_repository.go\<close>,
  \<open>postgres_operation.go\<close>, \<open>postgres_simplified_operation.go\<close>, \<open>postgres_reset.go\<close>,
  \<open>postgres_finalization.go\<close>): reading metadata and operations, admitting an operation or a reset,
  completing an operation, and the lookups after an ambiguous commit.

  The tables are lists of rows and a map from Gateway to its credential row, with the columns the
  statements use. A statement is the function on the tables its SQL text denotes, with the primary
  keys, the unique index and the \<open>CHECK\<close> on the credential row's timestamps (\<open>migrations/000010\<close>,
  \<open>000011\<close>, \<open>000019\<close>). The remaining constraints and the guard triggers change no row of a simplified
  operation, they only refuse a statement or the commit; together with lost connections and timeouts
  they are the parameter \<open>cred_env\<close>, which says of every statement whether it fails, whether a failed
  \<open>COMMIT\<close> was applied, and the transaction's \<open>now()\<close>. A transaction is one step: the Gateway row lock
  serialises the transactions of one Gateway.
\<close>

section \<open>Errors\<close>

text \<open>
  An error as the callers see it: the package's two error types, a nil error or nil pointer, an
  error with nothing to unwrap, and errors that wrap one or several others.
\<close>

datatype cred_error =
    DomainError ErrorCode
  | CommitOutcomeUnknown uuid
  | NilError
  | OpaqueError
  | WrapError cred_error
  | JoinError "cred_error list"

section \<open>Tables\<close>

datatype MaintenanceStatus =
    MaintenanceInProgress | MaintenanceCompleted | MaintenanceRecoveryNeeded | MaintenanceText string

record credential_row =
  cr_credential_version :: int
  cr_status :: CredentialStatus
  cr_last_operation_id :: "uuid option"
  cr_changed_by :: "uuid option"
  cr_activated_at :: "time option"
  cr_revoked_at :: "time option"
  cr_updated_at :: time
  cr_last_error_code :: "ErrorCode option"

record event_row =
  ev_operation_id :: uuid
  ev_actor_user_id :: "uuid option"
  ev_gateway_id :: string
  ev_idempotency_key :: "uuid option"
  ev_action :: Action
  ev_credential_version :: "int option"
  ev_status :: OperationStatus
  ev_phase :: "OperationPhase option"
  ev_evidence :: VerificationEvidence
  ev_delivery_status :: DeliveryStatus
  ev_created_at :: time
  ev_updated_at :: "time option"
  ev_completed_at :: "time option"
  ev_previous_status :: "CredentialStatus option"
  ev_previous_credential_version :: "int option"
  ev_previous_activated_at :: "time option"
  ev_previous_revoked_at :: "time option"
  ev_error_code :: "ErrorCode option"
  ev_legacy_projection :: bool
  ev_recovery_id :: "uuid option"
  ev_replacement_predecessor_id :: "uuid option"
  ev_execution_contract :: ExecutionContract
  ev_reset_predecessor_id :: "uuid option"
  ev_reset_reason :: "ResetReason option"

record maintenance_row =
  mt_operation_id :: uuid
  mt_gateway_id :: string
  mt_status :: MaintenanceStatus
  mt_broker_epoch :: "string option"

record disposition_row =
  di_predecessor_id :: uuid
  di_successor_id :: uuid
  di_gateway_id :: string
  di_reason :: ResetReason

text \<open>
  \<open>cd_recovery\<close> are the rows of \<open>mqtt_credential_recovery\<close> with status pending, by operation and
  Gateway; \<open>cd_replacements\<close> are predecessor and successor of \<open>mqtt_rotation_replacements\<close>.
\<close>

record cred_db =
  cd_gateways :: "string list"
  cd_admins :: "uuid list"
  cd_credentials :: "string \<rightharpoonup> credential_row"
  cd_events :: "event_row list"
  cd_maintenance :: "maintenance_row list"
  cd_recovery :: "(uuid \<times> string) list"
  cd_replacements :: "(uuid \<times> uuid) list"
  cd_dispositions :: "disposition_row list"

datatype cred_call =
    CcBegin | CcAdvisoryLock | CcLockGateway | CcLockAdmin | CcMetadata | CcReplay | CcUnresolved | CcPredecessor
  | CcAttempted | CcInsertDisposition | CcInsertEvent | CcPutCredential | CcUpdateEvent | CcMaintenance
  | CcReadEvent | CcReadMetadata | CcCommit | CcAcquire | CcAdmin | CcGateway

record cred_env =
  ce_fault :: "cred_call \<Rightarrow> bool"
  ce_commit_applied :: bool
  ce_now :: time

text \<open>\<open>safeReadError\<close>: no row is not found, everything else is unavailable.\<close>

definition not_found :: cred_error where "not_found = DomainError CodeNotFound"
definition unavailable :: cred_error where "unavailable = DomainError CodeServiceUnavailable"

definition cred_call :: "cred_env \<Rightarrow> cred_call \<Rightarrow> cred_error + unit" where
  "cred_call env c = reject_if (ce_fault env c) unavailable"

definition query_row :: "cred_env \<Rightarrow> cred_call \<Rightarrow> 'a option \<Rightarrow> cred_error + 'a" where
  "query_row env c row = res_bind (cred_call env c) (\<lambda>_. ok_or row not_found)"

definition mqtt_operation_effective :: "cred_db \<Rightarrow> uuid \<Rightarrow> bool" where
  "mqtt_operation_effective d i \<longleftrightarrow>
     i \<notin> fst ` set (cd_replacements d) \<and> i \<notin> di_predecessor_id ` set (cd_dispositions d)"

section \<open>Reading\<close>

definition IsPlatformAdmin :: "cred_env \<Rightarrow> uuid \<Rightarrow> cred_db \<Rightarrow> cred_error + bool" where
  "IsPlatformAdmin env actor d =
     (if actor = uuid_Nil then Inl (DomainError CodeInvalidRequest)
      else res_bind (cred_call env CcAdmin) (\<lambda>_. Inr (actor \<in> set (cd_admins d))))"

text \<open>The left join of the credential row with its last event (\<open>metadataQuery\<close>).\<close>

definition joined_status :: "cred_db \<Rightarrow> string \<Rightarrow> uuid option \<Rightarrow> OperationStatus" where
  "joined_status d g i =
     (case find (\<lambda>e. Some (ev_operation_id e) = i \<and> ev_gateway_id e = g) (cd_events d) of
        None \<Rightarrow> OperationText []
      | Some e \<Rightarrow> if ev_recovery_id e \<noteq> None then OperationResolvedByRecovery else ev_status e)"

definition metadata_row :: "cred_db \<Rightarrow> string \<Rightarrow> Metadata option" where
  "metadata_row d g = map_option (\<lambda>c.
     \<lparr>md_GatewayID = g, md_Username = g, md_CredentialVersion = cr_credential_version c, md_Status = cr_status c,
      md_LastOperationID = (case cr_last_operation_id c of Some i \<Rightarrow> i | None \<Rightarrow> uuid_Nil),
      md_OperationStatus = joined_status d g (cr_last_operation_id c), md_ActivatedAt = cr_activated_at c,
      md_RevokedAt = cr_revoked_at c, md_LastErrorCode = cr_last_error_code c\<rparr>) (cd_credentials d g)"

definition scanMetadata :: "cred_env \<Rightarrow> cred_call \<Rightarrow> cred_db \<Rightarrow> string \<Rightarrow> cred_error + Metadata" where
  "scanMetadata env c d g = query_row env c (metadata_row d g)"

definition GetMetadata :: "cred_env \<Rightarrow> string \<Rightarrow> cred_db \<Rightarrow> cred_error + Metadata" where
  "GetMetadata env g d =
     (if \<not> ValidateGatewayID g then Inl (DomainError CodeInvalidRequest) else scanMetadata env CcMetadata d g)"

definition event_operation :: "event_row \<Rightarrow> Operation" where
  "event_operation e =
     \<lparr>op_OperationID = ev_operation_id e,
      op_ActorUserID = (case ev_actor_user_id e of Some a \<Rightarrow> a | None \<Rightarrow> uuid_Nil),
      op_GatewayID = ev_gateway_id e,
      op_IdempotencyKey = (case ev_idempotency_key e of Some k \<Rightarrow> k | None \<Rightarrow> uuid_Nil),
      op_Action = ev_action e,
      op_CredentialVersion = (case ev_credential_version e of Some v \<Rightarrow> v | None \<Rightarrow> 0),
      op_Status = ev_status e,
      op_Phase = (case ev_phase e of Some p \<Rightarrow> p | None \<Rightarrow> PhaseText []),
      op_Evidence = ev_evidence e,
      op_DeliveryStatus = ev_delivery_status e,
      op_CreatedAt = ev_created_at e,
      op_UpdatedAt = (case ev_updated_at e of Some t \<Rightarrow> t | None \<Rightarrow> 0),
      op_CompletedAt = ev_completed_at e,
      op_Previous =
        (case (ev_previous_status e, ev_previous_credential_version e) of
           (Some s, Some v) \<Rightarrow> Some \<lparr>cs_Status = s, cs_CredentialVersion = v,
              cs_ActivatedAt = ev_previous_activated_at e, cs_RevokedAt = ev_previous_revoked_at e\<rparr>
         | _ \<Rightarrow> None),
      op_ErrorCode = ev_error_code e,
      op_RecoveryID = ev_recovery_id e,
      op_ReplacementPredecessorID = ev_replacement_predecessor_id e,
      op_ExecutionContract = ev_execution_contract e,
      op_ResetPredecessorID = ev_reset_predecessor_id e,
      op_ResetReason = ev_reset_reason e\<rparr>"

definition scanOperation :: "cred_env \<Rightarrow> cred_call \<Rightarrow> event_row option \<Rightarrow> cred_error + Operation \<times> bool" where
  "scanOperation env c row =
     res_bind (query_row env c row) (\<lambda>e.
     if \<not> ev_legacy_projection e \<and> ValidateHistorical (event_operation e) \<noteq> None
     then Inl (DomainError CodeInternalError)
     else Inr (event_operation e, ev_legacy_projection e))"

definition event_by_id :: "cred_db \<Rightarrow> uuid \<Rightarrow> event_row option" where
  "event_by_id d i = find (\<lambda>e. ev_operation_id e = i) (cd_events d)"

definition event_of_gateway :: "cred_db \<Rightarrow> uuid \<Rightarrow> string \<Rightarrow> event_row option" where
  "event_of_gateway d i g = find (\<lambda>e. ev_operation_id e = i \<and> ev_gateway_id e = g) (cd_events d)"

definition event_by_key :: "cred_db \<Rightarrow> uuid \<Rightarrow> uuid \<Rightarrow> event_row option" where
  "event_by_key d actor key =
     find (\<lambda>e. ev_actor_user_id e = Some actor \<and> ev_idempotency_key e = Some key \<and> \<not> ev_legacy_projection e) (cd_events d)"

definition ResolveCommitAmbiguity :: "cred_env \<Rightarrow> uuid \<Rightarrow> cred_db \<Rightarrow> cred_error + Operation" where
  "ResolveCommitAmbiguity env i d =
     (if i = uuid_Nil then Inl (DomainError CodeInvalidRequest)
      else if ce_fault env CcAcquire then Inl (CommitOutcomeUnknown i)
      else (case scanOperation env CcReadEvent (event_by_id d i) of
          Inl _ \<Rightarrow> Inl (CommitOutcomeUnknown i)
        | Inr (p, legacy) \<Rightarrow> if legacy then Inl (CommitOutcomeUnknown i) else Inr p))"

section \<open>Writing\<close>

text \<open>\<open>chk_gateway_mqtt_credentials_timestamps\<close> and the check on the version.\<close>

definition timestamps_check :: "credential_row \<Rightarrow> bool" where
  "timestamps_check c \<longleftrightarrow> 0 < cr_credential_version c \<and>
     ((cr_status c = CredentialActive \<and> cr_activated_at c \<noteq> None \<and> cr_revoked_at c = None) \<or>
      (cr_status c = CredentialRevoked \<and> cr_revoked_at c \<noteq> None) \<or>
      (cr_status c \<in> {CredentialProvisioning, CredentialRotating, CredentialRevoking} \<and> cr_revoked_at c = None) \<or>
      cr_status c \<in> {CredentialFailed, CredentialRecoveryNeeded})"

definition put_credential :: "cred_env \<Rightarrow> string \<Rightarrow> credential_row \<Rightarrow> cred_db \<Rightarrow> cred_error + cred_db" where
  "put_credential env g c d =
     res_bind (cred_call env CcPutCredential) (\<lambda>_.
     res_bind (reject_if (\<not> timestamps_check c) unavailable) (\<lambda>_.
     Inr (d\<lparr>cd_credentials := (cd_credentials d)(g \<mapsto> c)\<rparr>)))"

text \<open>Primary key and \<open>uq_mqtt_operation_actor_key\<close>.\<close>

definition insert_event :: "cred_env \<Rightarrow> event_row \<Rightarrow> cred_db \<Rightarrow> cred_error + cred_db" where
  "insert_event env e d =
     res_bind (cred_call env CcInsertEvent) (\<lambda>_.
     res_bind (reject_if (event_by_id d (ev_operation_id e) \<noteq> None \<or>
       list_ex (\<lambda>r. \<not> ev_legacy_projection r \<and> ev_actor_user_id r = ev_actor_user_id e \<and>
         ev_actor_user_id r \<noteq> None \<and> ev_idempotency_key r = ev_idempotency_key e) (cd_events d)) unavailable) (\<lambda>_.
     Inr (d\<lparr>cd_events := cd_events d @ [e]\<rparr>)))"

definition new_event :: "cred_env \<Rightarrow> uuid \<Rightarrow> uuid \<Rightarrow> string \<Rightarrow> uuid \<Rightarrow> Action \<Rightarrow> int \<Rightarrow> ExecutionContract \<Rightarrow> event_row" where
  "new_event env i actor g key action version contract =
     \<lparr>ev_operation_id = i, ev_actor_user_id = Some actor, ev_gateway_id = g, ev_idempotency_key = Some key,
      ev_action = action, ev_credential_version = Some version, ev_status = OperationPending,
      ev_phase = Some PhaseIntent, ev_evidence = no_evidence, ev_delivery_status = DeliveryUnknown,
      ev_created_at = pg_timestamptz (ce_now env), ev_updated_at = Some (pg_timestamptz (ce_now env)),
      ev_completed_at = None, ev_previous_status = None, ev_previous_credential_version = None,
      ev_previous_activated_at = None, ev_previous_revoked_at = None, ev_error_code = None,
      ev_legacy_projection = False, ev_recovery_id = None, ev_replacement_predecessor_id = None,
      ev_execution_contract = contract, ev_reset_predecessor_id = None, ev_reset_reason = None\<rparr>"

definition with_previous :: "Metadata \<Rightarrow> event_row \<Rightarrow> event_row" where
  "with_previous m e = e\<lparr>ev_previous_status := Some (md_Status m), ev_previous_credential_version := Some (md_CredentialVersion m),
     ev_previous_activated_at := md_ActivatedAt m, ev_previous_revoked_at := md_RevokedAt m\<rparr>"

text \<open>\<open>COALESCE(max(credential_version), 0)\<close> over the Gateway's events.\<close>

definition attempted_version :: "cred_db \<Rightarrow> string \<Rightarrow> int" where
  "attempted_version d g =
     fold max (List.map_filter ev_credential_version (filter (\<lambda>e. ev_gateway_id e = g) (cd_events d))) 0"

definition allocate :: "cred_env \<Rightarrow> Metadata \<Rightarrow> string \<Rightarrow> cred_db \<Rightarrow> cred_error + int" where
  "allocate env m g d =
     res_bind (cred_call env CcAttempted) (\<lambda>_.
     case AllocateVersion (md_CredentialVersion m) (attempted_version d g) of
       Inl e \<Rightarrow> Inl (DomainError e) | Inr v \<Rightarrow> Inr v)"

section \<open>Admission\<close>

record BeginRequest =
  br_ActorUserID :: uuid
  br_OperationID :: uuid
  br_Input :: MutationInput

record BeginResult =
  be_Operation :: Operation
  be_Metadata :: Metadata
  be_Execute :: bool
  be_Replay :: "MutationResult option"

definition BeginResult_zero :: BeginResult where
  "BeginResult_zero = \<lparr>be_Operation = Operation_zero, be_Metadata = Metadata_zero, be_Execute = False, be_Replay = None\<rparr>"

text \<open>The statements every admission starts with: advisory lock, Gateway row lock, administrator check.\<close>

definition admission_locks :: "cred_env \<Rightarrow> uuid \<Rightarrow> string \<Rightarrow> cred_db \<Rightarrow> cred_error + unit" where
  "admission_locks env actor g d =
     res_bind (cred_call env CcBegin) (\<lambda>_.
     res_bind (cred_call env CcAdvisoryLock) (\<lambda>_.
     res_bind (query_row env CcLockGateway (if g \<in> set (cd_gateways d) then Some () else None)) (\<lambda>_.
     res_bind (cred_call env CcLockAdmin) (\<lambda>_.
     reject_if (actor \<notin> set (cd_admins d)) (DomainError CodeForbidden)))))"

text \<open>The status columns the unresolved query collects, as the pair of its two aggregates.\<close>

definition unresolved_events :: "cred_db \<Rightarrow> string \<Rightarrow> event_row list" where
  "unresolved_events d g = filter (\<lambda>e. ev_gateway_id e = g \<and> ev_status e \<in> {OperationPending, OperationRecoveryNeeded} \<and>
     ev_recovery_id e = None \<and> mqtt_operation_effective d (ev_operation_id e)) (cd_events d)"

definition unresolved_work :: "cred_db \<Rightarrow> string \<Rightarrow> bool \<times> bool" where
  "unresolved_work d g =
     (let es = unresolved_events d g;
          ms = filter (\<lambda>r. mt_gateway_id r = g \<and> mt_status r \<noteq> MaintenanceCompleted \<and>
                 mqtt_operation_effective d (mt_operation_id r)) (cd_maintenance d)
      in (list_ex (\<lambda>e. ev_status e = OperationPending) es \<or> list_ex (\<lambda>r. mt_status r = MaintenanceInProgress) ms,
          list_ex (\<lambda>e. ev_status e = OperationRecoveryNeeded) es \<or>
          list_ex (\<lambda>r. mt_status r = MaintenanceRecoveryNeeded) ms \<or> list_ex (\<lambda>r. snd r = g) (cd_recovery d)))"

text \<open>The trigger \<open>create_mqtt_maintenance_intent\<close> adds a checkpoint to a lifecycle intent only.\<close>

definition maintenance_intent :: "event_row \<Rightarrow> cred_db \<Rightarrow> cred_db" where
  "maintenance_intent e d =
     (if ev_execution_contract e = ContractLifecycle
      then d\<lparr>cd_maintenance := cd_maintenance d @ [\<lparr>mt_operation_id = ev_operation_id e, mt_gateway_id = ev_gateway_id e,
             mt_status = MaintenanceInProgress, mt_broker_epoch = None\<rparr>]\<rparr>
      else d)"

text \<open>Writing the intent and its projection and reading both back, the tail of an admission.\<close>

definition read_back :: "cred_env \<Rightarrow> uuid \<Rightarrow> string \<Rightarrow> cred_db \<Rightarrow> cred_error + BeginResult \<times> cred_db option" where
  "read_back env i g d =
     res_bind (scanOperation env CcReadEvent (event_by_id d i)) (\<lambda>(p, _).
     res_bind (scanMetadata env CcReadMetadata d g) (\<lambda>m.
     Inr (\<lparr>be_Operation = p, be_Metadata = m, be_Execute = True, be_Replay = None\<rparr>, Some d)))"

definition admit_intent ::
  "ExecutionContract \<Rightarrow> cred_env \<Rightarrow> BeginRequest \<Rightarrow> Metadata option \<Rightarrow> cred_db \<Rightarrow> cred_error + BeginResult \<times> cred_db option" where
  "admit_intent contract env req mo d =
     (let input = br_Input req; g = mu_GatewayID input; action = mu_Action input; actor = br_ActorUserID req;
          m = (case mo of Some m \<Rightarrow> m | None \<Rightarrow> Metadata_zero) in
      res_bind (cred_call env CcUnresolved) (\<lambda>_.
      res_bind (reject_if (snd (unresolved_work d g)) (DomainError CodeRecoveryRequired)) (\<lambda>_.
      res_bind (reject_if (fst (unresolved_work d g)) (DomainError CodeOperationInProgress)) (\<lambda>_.
      if action = ActionRevoke \<and> md_Status m = CredentialRevoked
      then Inr (\<lparr>be_Operation = Operation_zero, be_Metadata = m, be_Execute = False,
                 be_Replay = Some (mutation_result m uuid_Nil)\<rparr>, None)
      else
        (case BeginCredentialStatus (md_Status m) action of Inl e \<Rightarrow> Inl (DomainError e) | Inr status \<Rightarrow>
         res_bind (if action = ActionRevoke then Inr (md_CredentialVersion m) else allocate env m g d) (\<lambda>version.
         let e0 = new_event env (br_OperationID req) actor g (mu_IdempotencyKey input) action version contract;
             e = (if mo = None then e0 else with_previous m e0) in
         res_bind (insert_event env e d) (\<lambda>d1.
         res_bind (put_credential env g
           \<lparr>cr_credential_version = version, cr_status = status, cr_last_operation_id = Some (br_OperationID req),
            cr_changed_by = Some actor, cr_activated_at = md_ActivatedAt m, cr_revoked_at = None,
            cr_updated_at = pg_timestamptz (ce_now env), cr_last_error_code = None\<rparr> (maintenance_intent e d1)) (\<lambda>d2.
         read_back env (br_OperationID req) g d2))))))))"

definition begin_tx :: "ExecutionContract \<Rightarrow> cred_env \<Rightarrow> BeginRequest \<Rightarrow> cred_db \<Rightarrow> cred_error + BeginResult \<times> cred_db option" where
  "begin_tx contract env req d =
     (let input = br_Input req; g = mu_GatewayID input; actor = br_ActorUserID req in
      res_bind (admission_locks env actor g d) (\<lambda>_.
      res_bind (cred_call env CcMetadata) (\<lambda>_.
      let mo = metadata_row d g in
      res_bind (reject_if (mo = None \<and> mu_Action input = ActionRevoke) not_found) (\<lambda>_.
      case scanOperation env CcReplay (event_by_key d actor (mu_IdempotencyKey input)) of
        Inr (p, _) \<Rightarrow>
          if op_GatewayID p \<noteq> g \<or> op_Action p \<noteq> mu_Action input then Inl (DomainError CodeIdempotencyConflict)
          else (case mo of None \<Rightarrow> Inl (DomainError CodeInternalError)
                | Some m \<Rightarrow>
                    (case ReplayOperation p actor input m of Inl e \<Rightarrow> Inl (DomainError e)
                     | Inr replay \<Rightarrow> Inr (\<lparr>be_Operation = p, be_Metadata = m, be_Execute = False, be_Replay = Some replay\<rparr>, None)))
      | Inl e \<Rightarrow> if e \<noteq> not_found then Inl e else admit_intent contract env req mo d))))"

text \<open>The outcome of a transaction: an error or a read leaves the tables as they are.\<close>

definition commit_tx :: "cred_env \<Rightarrow> uuid \<Rightarrow> cred_db \<Rightarrow> cred_error + 'a \<times> cred_db option \<Rightarrow> (cred_error + 'a) \<times> cred_db" where
  "commit_tx env i d r =
     (case r of Inl e \<Rightarrow> (Inl e, d)
      | Inr (x, None) \<Rightarrow> (Inr x, d)
      | Inr (x, Some d') \<Rightarrow>
          if ce_fault env CcCommit then (Inl (CommitOutcomeUnknown i), if ce_commit_applied env then d' else d)
          else (Inr x, d'))"

definition begin_operation ::
  "ExecutionContract \<Rightarrow> cred_env \<Rightarrow> BeginRequest \<Rightarrow> cred_db \<Rightarrow> (cred_error + BeginResult) \<times> cred_db" where
  "begin_operation contract env req d =
     (case ValidateMutationInput (br_ActorUserID req) (br_Input req) of
        Some e \<Rightarrow> (Inl (DomainError e), d)
      | None \<Rightarrow>
          if br_OperationID req = uuid_Nil then (Inl (DomainError CodeInvalidRequest), d)
          else commit_tx env (br_OperationID req) d (begin_tx contract env req d))"

definition BeginSimplifiedOperation :: "cred_env \<Rightarrow> BeginRequest \<Rightarrow> cred_db \<Rightarrow> (cred_error + BeginResult) \<times> cred_db" where
  "BeginSimplifiedOperation = begin_operation ContractSimplified"

definition BeginOperation :: "cred_env \<Rightarrow> BeginRequest \<Rightarrow> cred_db \<Rightarrow> (cred_error + BeginResult) \<times> cred_db" where
  "BeginOperation = begin_operation ContractLifecycle"

section \<open>Reset\<close>

record OperationGuard =
  og_GatewayID :: string
  og_ExpectedOperationID :: uuid
  og_ExpectedOperationStatus :: OperationStatus
  og_ExpectedCredentialStatus :: CredentialStatus
  og_ExpectedCredentialVersion :: int

record BeginResetRequest =
  rq_ActorUserID :: uuid
  rq_OperationID :: uuid
  rq_Input :: ResetInput
  rq_ExpectedPredecessorID :: uuid
  rq_ExpectedTargetGuard :: "OperationGuard option"

definition insert_disposition :: "cred_env \<Rightarrow> disposition_row \<Rightarrow> cred_db \<Rightarrow> cred_error + cred_db" where
  "insert_disposition env r d =
     res_bind (cred_call env CcInsertDisposition) (\<lambda>_.
     res_bind (reject_if (list_ex (\<lambda>x. di_predecessor_id x = di_predecessor_id r \<or> di_successor_id x = di_successor_id r)
       (cd_dispositions d) \<or> di_predecessor_id r = di_successor_id r) unavailable) (\<lambda>_.
     Inr (d\<lparr>cd_dispositions := cd_dispositions d @ [r]\<rparr>)))"

definition other_unresolved :: "cred_db \<Rightarrow> string \<Rightarrow> uuid \<Rightarrow> bool" where
  "other_unresolved d g current \<longleftrightarrow>
     list_ex (\<lambda>e. ev_operation_id e \<noteq> current) (unresolved_events d g) \<or> list_ex (\<lambda>r. snd r = g) (cd_recovery d)"

definition guard_mismatch :: "OperationGuard \<Rightarrow> Operation \<Rightarrow> Metadata \<Rightarrow> bool" where
  "guard_mismatch gd pred m \<longleftrightarrow>
     op_OperationID pred \<noteq> og_ExpectedOperationID gd \<or> op_GatewayID pred \<noteq> og_GatewayID gd \<or>
     op_Status pred \<noteq> og_ExpectedOperationStatus gd \<or> md_Status m \<noteq> og_ExpectedCredentialStatus gd \<or>
     md_CredentialVersion m \<noteq> og_ExpectedCredentialVersion gd \<or> op_ExecutionContract pred \<noteq> ContractSimplified"

definition reset_event :: "cred_env \<Rightarrow> BeginResetRequest \<Rightarrow> Metadata \<Rightarrow> uuid \<Rightarrow> int \<Rightarrow> event_row" where
  "reset_event env req m pred version =
     (let input = rq_Input req in
      (with_previous m (new_event env (rq_OperationID req) (rq_ActorUserID req) (ri_GatewayID input)
         (ri_IdempotencyKey input) ActionReset version ContractSimplified))
      \<lparr>ev_reset_predecessor_id := Some pred, ev_reset_reason := Some (ri_Reason input)\<rparr>)"

text \<open>
  The \<open>UPDATE\<close> of the projection: the row keeps its timestamps. It addresses the row by Gateway and
  last operation; a row with another last operation is left alone.
\<close>

definition reset_projection :: "cred_env \<Rightarrow> BeginResetRequest \<Rightarrow> uuid \<Rightarrow> int \<Rightarrow> cred_db \<Rightarrow> cred_error + cred_db" where
  "reset_projection env req pred version d =
     (let g = ri_GatewayID (rq_Input req) in
      case cd_credentials d g of
        None \<Rightarrow> res_bind (cred_call env CcPutCredential) (\<lambda>_. Inr d)
      | Some c \<Rightarrow>
          if cr_last_operation_id c \<noteq> Some pred then res_bind (cred_call env CcPutCredential) (\<lambda>_. Inr d)
          else put_credential env g (c\<lparr>cr_credential_version := version, cr_status := CredentialRotating,
            cr_last_operation_id := Some (rq_OperationID req), cr_changed_by := Some (rq_ActorUserID req),
            cr_last_error_code := None, cr_updated_at := pg_timestamptz (ce_now env)\<rparr>) d)"

definition admit_reset :: "cred_env \<Rightarrow> BeginResetRequest \<Rightarrow> Metadata \<Rightarrow> cred_db \<Rightarrow> cred_error + BeginResult \<times> cred_db option" where
  "admit_reset env req m d =
     (let input = rq_Input req; g = ri_GatewayID input in
      res_bind (cred_call env CcUnresolved) (\<lambda>_.
      res_bind (reject_if (other_unresolved d g (md_LastOperationID m)) (DomainError CodeOperationInProgress)) (\<lambda>_.
      res_bind (scanOperation env CcPredecessor (event_of_gateway d (md_LastOperationID m) g)) (\<lambda>(pred, legacy).
      res_bind (reject_if (legacy \<or>
        (rq_ExpectedPredecessorID req \<noteq> uuid_Nil \<and> op_OperationID pred \<noteq> rq_ExpectedPredecessorID req) \<or>
        (case rq_ExpectedTargetGuard req of None \<Rightarrow> False | Some gd \<Rightarrow> guard_mismatch gd pred m))
        (DomainError CodeCredentialConflict)) (\<lambda>_.
      case CheckResetEligibility m pred (ri_Reason input) of Some e \<Rightarrow> Inl (DomainError e) | None \<Rightarrow>
      res_bind (allocate env m g d) (\<lambda>version.
      res_bind (insert_disposition env \<lparr>di_predecessor_id = op_OperationID pred, di_successor_id = rq_OperationID req,
        di_gateway_id = g, di_reason = ri_Reason input\<rparr> d) (\<lambda>d1.
      res_bind (insert_event env (reset_event env req m (op_OperationID pred) version) d1) (\<lambda>d2.
      res_bind (reset_projection env req (op_OperationID pred) version d2) (\<lambda>d3.
      read_back env (rq_OperationID req) g d3)))))))))"

definition reset_tx :: "cred_env \<Rightarrow> BeginResetRequest \<Rightarrow> cred_db \<Rightarrow> cred_error + BeginResult \<times> cred_db option" where
  "reset_tx env req d =
     (let input = rq_Input req; g = ri_GatewayID input; actor = rq_ActorUserID req in
      res_bind (admission_locks env actor g d) (\<lambda>_.
      res_bind (scanMetadata env CcMetadata d g) (\<lambda>m.
      case scanOperation env CcReplay (event_by_key d actor (ri_IdempotencyKey input)) of
        Inr (p, _) \<Rightarrow>
          if op_GatewayID p \<noteq> g \<or> op_Action p \<noteq> ActionReset \<or> op_ResetReason p \<noteq> Some (ri_Reason input)
          then Inl (DomainError CodeIdempotencyConflict)
          else if op_Status p = OperationPending then Inl (DomainError CodeOperationInProgress)
          else if op_Status p = OperationRecoveryNeeded then Inl (DomainError CodeRecoveryRequired)
          else Inr (\<lparr>be_Operation = p, be_Metadata = m, be_Execute = False,
                 be_Replay = Some ((mutation_result m (op_OperationID p))\<lparr>mr_ReplayedStatus := op_Status p\<rparr>)\<rparr>, None)
      | Inl e \<Rightarrow> if e \<noteq> not_found then Inl e else admit_reset env req m d)))"

definition BeginReset :: "cred_env \<Rightarrow> BeginResetRequest \<Rightarrow> cred_db \<Rightarrow> (cred_error + BeginResult) \<times> cred_db" where
  "BeginReset env req d =
     (case ValidateResetInput (rq_ActorUserID req) (rq_Input req) of
        Some e \<Rightarrow> (Inl (DomainError e), d)
      | None \<Rightarrow>
          if rq_OperationID req = uuid_Nil \<or>
            (case rq_ExpectedTargetGuard req of None \<Rightarrow> False
             | Some gd \<Rightarrow> og_GatewayID gd \<noteq> ri_GatewayID (rq_Input req) \<or> og_ExpectedOperationID gd = uuid_Nil)
          then (Inl (DomainError CodeInvalidRequest), d)
          else commit_tx env (rq_OperationID req) d (reset_tx env req d))"

definition LookupResetReplay :: "cred_env \<Rightarrow> uuid \<Rightarrow> ResetInput \<Rightarrow> cred_db \<Rightarrow> cred_error + (Operation \<times> Metadata) option" where
  "LookupResetReplay env actor input d =
     (case ValidateResetInput actor input of Some e \<Rightarrow> Inl (DomainError e) | None \<Rightarrow>
      res_bind (cred_call env CcAdmin) (\<lambda>_.
      res_bind (reject_if (actor \<notin> set (cd_admins d)) (DomainError CodeForbidden)) (\<lambda>_.
      res_bind (cred_call env CcGateway) (\<lambda>_.
      res_bind (reject_if (ri_GatewayID input \<notin> set (cd_gateways d)) not_found) (\<lambda>_.
      case scanOperation env CcReplay (event_by_key d actor (ri_IdempotencyKey input)) of
        Inl e \<Rightarrow> if e = not_found then Inr None else Inl e
      | Inr (p, _) \<Rightarrow>
          if op_GatewayID p \<noteq> ri_GatewayID input \<or> op_Action p \<noteq> ActionReset \<or> op_ResetReason p \<noteq> Some (ri_Reason input)
          then Inl (DomainError CodeIdempotencyConflict)
          else if op_Status p = OperationPending then Inl (DomainError CodeOperationInProgress)
          else if op_Status p = OperationRecoveryNeeded then Inl (DomainError CodeRecoveryRequired)
          else res_bind (scanMetadata env CcMetadata d (ri_GatewayID input)) (\<lambda>m. Inr (Some (p, m))))))))"

section \<open>Completion\<close>

record OperationUpdate =
  ou_Guard :: OperationGuard
  ou_Completion :: Completion

definition trunc_us :: "time option \<Rightarrow> time option" where
  "trunc_us t = map_option (\<lambda>t. t div 1000 * 1000) t"

definition canonicalSnapshot :: "CredentialSnapshot \<Rightarrow> CredentialSnapshot" where
  "canonicalSnapshot s = s\<lparr>cs_ActivatedAt := trunc_us (cs_ActivatedAt s), cs_RevokedAt := trunc_us (cs_RevokedAt s)\<rparr>"

definition canonical_completion :: "Completion \<Rightarrow> Completion" where
  "canonical_completion c =
     c\<lparr>co_Credential := canonicalSnapshot (co_Credential c),
       co_Operation := (co_Operation c)
         \<lparr>op_CreatedAt := op_CreatedAt (co_Operation c) div 1000 * 1000,
          op_UpdatedAt := op_UpdatedAt (co_Operation c) div 1000 * 1000,
          op_CompletedAt := trunc_us (op_CompletedAt (co_Operation c)),
          op_Previous := map_option canonicalSnapshot (op_Previous (co_Operation c))\<rparr>\<rparr>"

definition sameCompletion :: "Completion \<Rightarrow> Completion \<Rightarrow> bool" where
  "sameCompletion a b \<longleftrightarrow> canonical_completion a = canonical_completion b"

fun safeCompletionCode :: "ErrorCode option \<Rightarrow> bool" where
  "safeCompletionCode (Some (CodeText _)) = False"
| "safeCompletionCode _ = True"

text \<open>The branch for an operation that is already terminal: an exact retry reads the current metadata.\<close>

definition terminal_retry :: "Operation \<Rightarrow> ExecutionOutcome \<Rightarrow> Completion \<Rightarrow> bool" where
  "terminal_retry p outcome proposed \<longleftrightarrow>
     (let base = p\<lparr>op_Status := OperationPending, op_CompletedAt := None, op_UpdatedAt := op_CreatedAt p, op_Evidence := no_evidence\<rparr>;
          terminalOutcome = (if op_Status p = OperationFailed then ExecutionUnchangedFailure else ExecutionVerifiedSuccess) in
      case CompleteOperation base terminalOutcome (op_Evidence p) (op_UpdatedAt p) of
        Inl _ \<Rightarrow> False
      | Inr terminal \<Rightarrow> outcome = terminalOutcome \<and>
          sameCompletion \<lparr>co_Operation = p, co_Credential = co_Credential terminal\<rparr> proposed)"

text \<open>What the projection of a nonterminal operation must be.\<close>

fun transient_status :: "Action \<Rightarrow> CredentialStatus" where
  "transient_status ActionProvision = CredentialProvisioning"
| "transient_status ActionRotate = CredentialRotating"
| "transient_status ActionReset = CredentialRotating"
| "transient_status ActionRevoke = CredentialRevoking"
| "transient_status (ActionText _) = CredentialRecoveryNeeded"

definition expected_projection :: "Operation \<Rightarrow> CredentialStatus \<times> int" where
  "expected_projection p =
     (if op_Status p = OperationPending then (transient_status (op_Action p), op_CredentialVersion p)
      else (CredentialRecoveryNeeded,
        case op_Previous p of Some s \<Rightarrow> cs_CredentialVersion s | None \<Rightarrow> op_CredentialVersion p))"

definition evidence_lost :: "VerificationEvidence \<Rightarrow> VerificationEvidence \<Rightarrow> bool" where
  "evidence_lost old new \<longleftrightarrow> (RAMApplied old \<and> \<not> RAMApplied new) \<or> (SnapshotObserved old \<and> \<not> SnapshotObserved new) \<or>
     (FreshPositiveVerified old \<and> \<not> FreshPositiveVerified new)"

definition update_event :: "cred_env \<Rightarrow> OperationStatus \<Rightarrow> Operation \<Rightarrow> cred_db \<Rightarrow> cred_error + cred_db" where
  "update_event env expected op d =
     (let hit = (\<lambda>e. ev_operation_id e = op_OperationID op \<and> ev_status e = expected \<and> \<not> ev_legacy_projection e) in
      res_bind (cred_call env CcUpdateEvent) (\<lambda>_.
      res_bind (reject_if (length (filter hit (cd_events d)) \<noteq> 1) (DomainError CodeCredentialConflict)) (\<lambda>_.
      Inr (d\<lparr>cd_events := map (\<lambda>e. if hit e then e\<lparr>ev_status := op_Status op, ev_phase := Some (op_Phase op),
          ev_evidence := op_Evidence op, ev_updated_at := Some (pg_timestamptz (op_UpdatedAt op)),
          ev_completed_at := map_option pg_timestamptz (op_CompletedAt op), ev_error_code := op_ErrorCode op\<rparr> else e) (cd_events d)\<rparr>))))"

definition update_credential :: "cred_env \<Rightarrow> OperationGuard \<Rightarrow> Completion \<Rightarrow> cred_db \<Rightarrow> cred_error + cred_db" where
  "update_credential env gd c d =
     (let g = og_GatewayID gd; s = co_Credential c; op = co_Operation c in
      case cd_credentials d g of
        None \<Rightarrow> res_bind (cred_call env CcPutCredential) (\<lambda>_. Inl (DomainError CodeCredentialConflict))
      | Some r \<Rightarrow>
          if cr_last_operation_id r \<noteq> Some (og_ExpectedOperationID gd) \<or> cr_status r \<noteq> og_ExpectedCredentialStatus gd \<or>
            cr_credential_version r \<noteq> og_ExpectedCredentialVersion gd
          then res_bind (cred_call env CcPutCredential) (\<lambda>_. Inl (DomainError CodeCredentialConflict))
          else put_credential env g (r\<lparr>cr_status := cs_Status s, cr_credential_version := cs_CredentialVersion s,
            cr_activated_at := map_option pg_timestamptz (cs_ActivatedAt s),
            cr_revoked_at := map_option pg_timestamptz (cs_RevokedAt s),
            cr_last_error_code := op_ErrorCode op, cr_updated_at := pg_timestamptz (op_UpdatedAt op)\<rparr>) d)"

definition guard_invalid :: "OperationGuard \<Rightarrow> ErrorCode option \<Rightarrow> bool" where
  "guard_invalid gd code \<longleftrightarrow>
     \<not> ValidateGatewayID (og_GatewayID gd) \<or> og_ExpectedOperationID gd = uuid_Nil \<or>
     OperationStatus_Validate (og_ExpectedOperationStatus gd) \<noteq> None \<or>
     CredentialStatus_Validate (og_ExpectedCredentialStatus gd) \<noteq> None \<or> og_ExpectedCredentialVersion gd \<le> 0 \<or>
     \<not> safeCompletionCode code"

text \<open>The completion the operation of the tables admits, compared with the proposed one.\<close>

definition checked_completion :: "Operation \<Rightarrow> ExecutionOutcome \<Rightarrow> Completion \<Rightarrow> cred_error + Completion" where
  "checked_completion p outcome proposed =
     (case CompleteOperation p outcome (op_Evidence (co_Operation proposed)) (op_UpdatedAt (co_Operation proposed)) of
        Inl e \<Rightarrow> Inl (DomainError e)
      | Inr expected0 \<Rightarrow>
          if evidence_lost (op_Evidence p) (op_Evidence (co_Operation expected0)) then Inl (DomainError CodeInvalidRequest)
          else
            let expected = (if outcome = ExecutionVerifiedSuccess then expected0
              else expected0\<lparr>co_Operation := (co_Operation expected0)\<lparr>op_ErrorCode := op_ErrorCode (co_Operation proposed)\<rparr>\<rparr>) in
            if \<not> sameCompletion expected proposed then Inl (DomainError CodeInvalidRequest) else Inr expected)"

definition complete_tx :: "cred_env \<Rightarrow> OperationUpdate \<Rightarrow> ExecutionOutcome \<Rightarrow> cred_db \<Rightarrow> cred_error + Metadata \<times> cred_db option" where
  "complete_tx env u outcome d =
     (let gd = ou_Guard u; proposed = ou_Completion u; g = og_GatewayID gd in
      res_bind (cred_call env CcBegin) (\<lambda>_.
      res_bind (query_row env CcLockGateway (if g \<in> set (cd_gateways d) then Some () else None)) (\<lambda>_.
      res_bind (scanMetadata env CcMetadata d g) (\<lambda>m.
      res_bind (scanOperation env CcPredecessor (event_of_gateway d (og_ExpectedOperationID gd) g)) (\<lambda>(p, legacy).
      res_bind (reject_if legacy (DomainError CodeInvalidRequest)) (\<lambda>_.
      res_bind (reject_if (op_RecoveryID p \<noteq> None) (DomainError CodeCredentialConflict)) (\<lambda>_.
      if Terminal p then
        if terminal_retry p outcome proposed then Inr (m, None) else Inl (DomainError CodeCredentialConflict)
      else
        res_bind (reject_if (md_LastOperationID m \<noteq> og_ExpectedOperationID gd \<or> op_Status p \<noteq> og_ExpectedOperationStatus gd \<or>
          md_Status m \<noteq> og_ExpectedCredentialStatus gd \<or> md_CredentialVersion m \<noteq> og_ExpectedCredentialVersion gd)
          (DomainError CodeCredentialConflict)) (\<lambda>_.
        res_bind (if op_ExecutionContract p = ContractSimplified then Inr ()
          else res_bind (query_row env CcMaintenance (find (\<lambda>r. mt_operation_id r = op_OperationID p \<and> mt_gateway_id r = g) (cd_maintenance d)))
            (\<lambda>r. reject_if (mt_status r = MaintenanceCompleted) (DomainError CodeCredentialConflict))) (\<lambda>_.
        res_bind (reject_if ((md_Status m, md_CredentialVersion m) \<noteq> expected_projection p) (DomainError CodeCredentialConflict)) (\<lambda>_.
        res_bind (checked_completion p outcome proposed) (\<lambda>expected.
        res_bind (update_event env (og_ExpectedOperationStatus gd) (co_Operation expected) d) (\<lambda>d1.
        res_bind (update_credential env gd expected d1) (\<lambda>d2.
        res_bind (scanMetadata env CcReadMetadata d2 g) (\<lambda>m'.
        Inr (m', Some d2)))))))))))))))"

definition complete :: "cred_env \<Rightarrow> OperationUpdate \<Rightarrow> ExecutionOutcome \<Rightarrow> cred_db \<Rightarrow> (cred_error + Metadata) \<times> cred_db" where
  "complete env u outcome d =
     (if guard_invalid (ou_Guard u) (op_ErrorCode (co_Operation (ou_Completion u))) then (Inl (DomainError CodeInvalidRequest), d)
      else commit_tx env (og_ExpectedOperationID (ou_Guard u)) d (complete_tx env u outcome d))"

definition ConditionalFinalize :: "cred_env \<Rightarrow> OperationUpdate \<Rightarrow> cred_db \<Rightarrow> (cred_error + Metadata) \<times> cred_db" where
  "ConditionalFinalize env u = complete env u ExecutionVerifiedSuccess"

definition FailKnown :: "cred_env \<Rightarrow> OperationUpdate \<Rightarrow> cred_db \<Rightarrow> (cred_error + Metadata) \<times> cred_db" where
  "FailKnown env u = complete env u ExecutionUnchangedFailure"

definition RequireRecovery :: "cred_env \<Rightarrow> OperationUpdate \<Rightarrow> cred_db \<Rightarrow> (cred_error + Metadata) \<times> cred_db" where
  "RequireRecovery env u = complete env u ExecutionRecoveryRequired"

text \<open>\<open>operationGuard\<close> of \<open>service.go\<close>: the guard for completing an operation.\<close>

definition operationGuard :: "Operation \<Rightarrow> Metadata \<Rightarrow> OperationGuard" where
  "operationGuard op m = \<lparr>og_GatewayID = op_GatewayID op, og_ExpectedOperationID = op_OperationID op,
     og_ExpectedOperationStatus = op_Status op, og_ExpectedCredentialStatus = md_Status m,
     og_ExpectedCredentialVersion = md_CredentialVersion m\<rparr>"

end
