(* ===== verification/CredentialJournal.thy ===== *)
theory CredentialJournal
  imports CredentialStore Transitions
begin

text \<open>
  What the repository's writes do to the tables, in one lemma per operation: nothing at all, or the
  complete intent, reset or completion with every guard of the code established. On top of it the
  journal as a transition system: its steps are the repository's transactions in any order, by any
  number of processes, with any failures.
\<close>

section \<open>Effects of the transactions\<close>

lemma cred_call_Inr [simp]: "cred_call env c = Inr u \<longleftrightarrow> \<not> ce_fault env c"
  by (simp add: cred_call_def)

lemma query_row_Inr [simp]: "query_row env c row = Inr x \<longleftrightarrow> \<not> ce_fault env c \<and> row = Some x"
  by (auto simp: query_row_def)

lemma scanOperation_Inr:
  "scanOperation env c row = Inr (p, legacy) \<longleftrightarrow>
     \<not> ce_fault env c \<and> (\<exists>e. row = Some e \<and> p = event_operation e \<and> legacy = ev_legacy_projection e \<and>
       (\<not> legacy \<longrightarrow> ValidateHistorical p = None))"
  by (auto simp: scanOperation_def)

lemma scanOperation_not_found:
  "scanOperation env c row = Inl not_found \<longleftrightarrow> \<not> ce_fault env c \<and> row = None"
  by (auto simp: scanOperation_def res_bind_eq_Inl query_row_def cred_call_def not_found_def unavailable_def)

lemma commit_tx_eq:
  "commit_tx env i d r = (x, d') \<longleftrightarrow>
     (\<exists>e. r = Inl e \<and> x = Inl e \<and> d' = d) \<or>
     (\<exists>y. r = Inr (y, None) \<and> x = Inr y \<and> d' = d) \<or>
     (\<exists>y d1. r = Inr (y, Some d1) \<and>
       (if ce_fault env CcCommit then x = Inl (CommitOutcomeUnknown i) \<and> d' = (if ce_commit_applied env then d1 else d)
        else x = Inr y \<and> d' = d1))"
  by (auto simp: commit_tx_def split: sum.split option.split)

definition db_metadata :: "Metadata option \<Rightarrow> Metadata" where
  "db_metadata mo = (case mo of Some m \<Rightarrow> m | None \<Rightarrow> Metadata_zero)"

text \<open>The event and the projection an admission writes.\<close>

definition intent_event :: "cred_env \<Rightarrow> BeginRequest \<Rightarrow> Metadata option \<Rightarrow> int \<Rightarrow> event_row" where
  "intent_event env req mo version =
     (let e = new_event env (br_OperationID req) (br_ActorUserID req) (mu_GatewayID (br_Input req))
         (mu_IdempotencyKey (br_Input req)) (mu_Action (br_Input req)) version ContractSimplified
      in case mo of None \<Rightarrow> e | Some m \<Rightarrow> with_previous m e)"

definition intent_credential :: "cred_env \<Rightarrow> BeginRequest \<Rightarrow> Metadata option \<Rightarrow> int \<Rightarrow> CredentialStatus \<Rightarrow> credential_row" where
  "intent_credential env req mo version status =
     \<lparr>cr_credential_version = version, cr_status = status, cr_last_operation_id = Some (br_OperationID req),
      cr_changed_by = Some (br_ActorUserID req), cr_activated_at = md_ActivatedAt (db_metadata mo), cr_revoked_at = None,
      cr_updated_at = pg_timestamptz (ce_now env), cr_last_error_code = None\<rparr>"

definition write_intent :: "event_row \<Rightarrow> credential_row \<Rightarrow> cred_db \<Rightarrow> cred_db" where
  "write_intent e c d = d\<lparr>cd_events := cd_events d @ [e], cd_credentials := (cd_credentials d)(ev_gateway_id e \<mapsto> c)\<rparr>"

definition fresh_event :: "cred_db \<Rightarrow> event_row \<Rightarrow> bool" where
  "fresh_event d e \<longleftrightarrow> event_by_id d (ev_operation_id e) = None \<and>
     \<not> list_ex (\<lambda>r. \<not> ev_legacy_projection r \<and> ev_actor_user_id r = ev_actor_user_id e \<and>
         ev_actor_user_id r \<noteq> None \<and> ev_idempotency_key r = ev_idempotency_key e) (cd_events d)"

definition begin_guards :: "cred_env \<Rightarrow> BeginRequest \<Rightarrow> int \<Rightarrow> CredentialStatus \<Rightarrow> cred_db \<Rightarrow> bool" where
  "begin_guards env req version status d \<longleftrightarrow>
     (let g = mu_GatewayID (br_Input req); action = mu_Action (br_Input req); mo = metadata_row d g; m = db_metadata mo in
      ValidateMutationInput (br_ActorUserID req) (br_Input req) = None \<and> br_OperationID req \<noteq> uuid_Nil \<and>
      g \<in> set (cd_gateways d) \<and> br_ActorUserID req \<in> set (cd_admins d) \<and>
      (action = ActionRevoke \<longrightarrow> mo \<noteq> None) \<and> unresolved_work d g = (False, False) \<and>
      BeginCredentialStatus (md_Status m) action = Inr status \<and>
      (if action = ActionRevoke then version = md_CredentialVersion m
       else AllocateVersion (md_CredentialVersion m) (attempted_version d g) = Inr version) \<and>
      fresh_event d (intent_event env req mo version) \<and> timestamps_check (intent_credential env req mo version status))"

lemma insert_event_Inr:
  "insert_event env e d = Inr d' \<longleftrightarrow>
     \<not> ce_fault env CcInsertEvent \<and> fresh_event d e \<and> d' = d\<lparr>cd_events := cd_events d @ [e]\<rparr>"
  by (auto simp: insert_event_def fresh_event_def)

lemma put_credential_Inr:
  "put_credential env g c d = Inr d' \<longleftrightarrow>
     \<not> ce_fault env CcPutCredential \<and> timestamps_check c \<and> d' = d\<lparr>cd_credentials := (cd_credentials d)(g \<mapsto> c)\<rparr>"
  by (auto simp: put_credential_def)

lemma allocate_Inr:
  "allocate env m g d = Inr v \<longleftrightarrow>
     \<not> ce_fault env CcAttempted \<and> AllocateVersion (md_CredentialVersion m) (attempted_version d g) = Inr v"
  by (auto simp: allocate_def split: sum.split)

lemma read_back_Inr:
  "read_back env i g d = Inr (b, d') \<longleftrightarrow>
     \<not> ce_fault env CcReadEvent \<and> \<not> ce_fault env CcReadMetadata \<and> d' = Some d \<and>
     (\<exists>e m. event_by_id d i = Some e \<and> metadata_row d g = Some m \<and>
       (\<not> ev_legacy_projection e \<longrightarrow> ValidateHistorical (event_operation e) = None) \<and>
       b = \<lparr>be_Operation = event_operation e, be_Metadata = m, be_Execute = True, be_Replay = None\<rparr>)"
  by (auto simp: read_back_def scanOperation_Inr scanMetadata_def)

lemma admit_intent_commit:
  assumes "admit_intent ContractSimplified env req mo d = Inr (b, Some d')" and "mo = metadata_row d (mu_GatewayID (br_Input req))"
    and "ValidateMutationInput (br_ActorUserID req) (br_Input req) = None" "br_OperationID req \<noteq> uuid_Nil"
    and "mu_GatewayID (br_Input req) \<in> set (cd_gateways d)" "br_ActorUserID req \<in> set (cd_admins d)"
    and "mu_Action (br_Input req) = ActionRevoke \<longrightarrow> mo \<noteq> None"
  obtains version status where "begin_guards env req version status d"
    "d' = write_intent (intent_event env req mo version) (intent_credential env req mo version status) d"
    "read_back env (br_OperationID req) (mu_GatewayID (br_Input req)) d' = Inr (b, Some d')"
proof -
  let ?g = "mu_GatewayID (br_Input req)" and ?a = "mu_Action (br_Input req)" and ?m = "db_metadata mo"
  have u: "unresolved_work d ?g = (False, False)" and nr: "\<not> (?a = ActionRevoke \<and> md_Status ?m = CredentialRevoked)"
    using assms(1) by (auto simp: admit_intent_def Let_def prod_eq_iff db_metadata_def split: if_splits)
  obtain status where st: "BeginCredentialStatus (md_Status ?m) ?a = Inr status"
    using assms(1) nr by (auto simp: admit_intent_def Let_def db_metadata_def split: if_splits sum.splits option.splits)
  obtain version d2 where v: "(if ?a = ActionRevoke then version = md_CredentialVersion ?m
       else AllocateVersion (md_CredentialVersion ?m) (attempted_version d ?g) = Inr version)"
    and ins: "insert_event env (intent_event env req mo version) d = Inr (d\<lparr>cd_events := cd_events d @ [intent_event env req mo version]\<rparr>)"
    and put: "put_credential env ?g (intent_credential env req mo version status)
        (d\<lparr>cd_events := cd_events d @ [intent_event env req mo version]\<rparr>) = Inr d2"
    and rb: "read_back env (br_OperationID req) ?g d2 = Inr (b, Some d')"
    using assms(1) nr st unfolding admit_intent_def
    by (cases mo) (auto simp: Let_def db_metadata_def intent_event_def intent_credential_def with_previous_def
      new_event_def maintenance_intent_def insert_event_Inr allocate_Inr split: if_splits)
  have d2: "d2 = d'" using rb by (simp add: read_back_Inr)
  have gw: "ev_gateway_id (intent_event env req mo version) = ?g"
    by (cases mo) (simp_all add: intent_event_def Let_def with_previous_def new_event_def)
  show thesis
  proof (rule that)
    show "begin_guards env req version status d"
      using assms(2-) u st v ins put by (auto simp: begin_guards_def Let_def insert_event_Inr put_credential_Inr)
    show "d' = write_intent (intent_event env req mo version) (intent_credential env req mo version status) d"
      using put d2 gw by (simp add: put_credential_Inr write_intent_def)
    show "read_back env (br_OperationID req) ?g d' = Inr (b, Some d')" using rb d2 by simp
  qed
qed

text \<open>An admission that changes the tables writes exactly one intent, all guards established.\<close>

lemma BeginSimplifiedOperation_effect:
  assumes "BeginSimplifiedOperation env req d = (r, d')"
  defines "g \<equiv> mu_GatewayID (br_Input req)"
  obtains (unchanged) "d' = d" "\<And>b. r = Inr b \<Longrightarrow> \<not> be_Execute b" |
    (unconfirmed) "d' = d" "r = Inl (CommitOutcomeUnknown (br_OperationID req))" |
    (intent) version status where "begin_guards env req version status d"
      "d' = write_intent (intent_event env req (metadata_row d g) version)
         (intent_credential env req (metadata_row d g) version status) d"
      "r = Inl (CommitOutcomeUnknown (br_OperationID req)) \<or>
       (\<exists>b. r = Inr b \<and> read_back env (br_OperationID req) g d' = Inr (b, Some d'))"
proof -
  consider (invalid) e where "r = Inl e" "d' = d"
    | (tx) "ValidateMutationInput (br_ActorUserID req) (br_Input req) = None" "br_OperationID req \<noteq> uuid_Nil"
      "commit_tx env (br_OperationID req) d (begin_tx ContractSimplified env req d) = (r, d')"
    using assms(1) by (auto simp: BeginSimplifiedOperation_def begin_operation_def split: option.splits if_splits)
  then show thesis
  proof cases
    case invalid then show thesis using unchanged by simp
  next
    case tx
    from tx(3) consider (err) "d' = d" "\<exists>e. r = Inl e" | (noop) b where "begin_tx ContractSimplified env req d = Inr (b, None)" "d' = d" "r = Inr b"
      | (commit) b d1 where "begin_tx ContractSimplified env req d = Inr (b, Some d1)"
        "if ce_fault env CcCommit then r = Inl (CommitOutcomeUnknown (br_OperationID req)) \<and> d' = (if ce_commit_applied env then d1 else d)
         else r = Inr b \<and> d' = d1"
      unfolding commit_tx_eq by blast
    then show thesis
    proof cases
      case err then show thesis using unchanged by auto
    next
      case noop
      have "\<not> be_Execute b" using noop(1)
        by (auto simp: begin_tx_def admit_intent_def read_back_Inr Let_def split: if_splits sum.splits option.splits)
      then show thesis using noop unchanged by simp
    next
      case commit
      have adm: "admit_intent ContractSimplified env req (metadata_row d g) d = Inr (b, Some d1)"
        "g \<in> set (cd_gateways d)" "br_ActorUserID req \<in> set (cd_admins d)"
        "mu_Action (br_Input req) = ActionRevoke \<longrightarrow> metadata_row d g \<noteq> None"
        using commit(1) by (auto simp: begin_tx_def Let_def admission_locks_def g_def split: if_splits sum.splits option.splits)
      obtain version status where w: "begin_guards env req version status d"
        "d1 = write_intent (intent_event env req (metadata_row d g) version) (intent_credential env req (metadata_row d g) version status) d"
        "read_back env (br_OperationID req) g d1 = Inr (b, Some d1)"
        using admit_intent_commit [OF adm(1)] tx(1,2) adm(2-) unfolding g_def by blast
      show thesis
      proof (cases "ce_fault env CcCommit \<and> \<not> ce_commit_applied env")
        case True then show thesis using commit(2) unconfirmed by simp
      next
        case False
        then have "d' = d1" using commit(2) by (auto split: if_splits)
        then show thesis using intent [OF w(1)] w(2,3) commit(2) by (auto split: if_splits)
      qed
    qed
  qed
qed

text \<open>A reset: disposition, event and projection.\<close>

definition reset_credential :: "cred_env \<Rightarrow> BeginResetRequest \<Rightarrow> int \<Rightarrow> credential_row \<Rightarrow> credential_row" where
  "reset_credential env req version c =
     c\<lparr>cr_credential_version := version, cr_status := CredentialRotating, cr_last_operation_id := Some (rq_OperationID req),
       cr_changed_by := Some (rq_ActorUserID req), cr_last_error_code := None, cr_updated_at := pg_timestamptz (ce_now env)\<rparr>"

definition reset_disposition :: "BeginResetRequest \<Rightarrow> uuid \<Rightarrow> disposition_row" where
  "reset_disposition req i = \<lparr>di_predecessor_id = i, di_successor_id = rq_OperationID req,
     di_gateway_id = ri_GatewayID (rq_Input req), di_reason = ri_Reason (rq_Input req)\<rparr>"

definition write_reset :: "cred_env \<Rightarrow> BeginResetRequest \<Rightarrow> Metadata \<Rightarrow> uuid \<Rightarrow> int \<Rightarrow> credential_row \<Rightarrow> cred_db \<Rightarrow> cred_db" where
  "write_reset env req m i version c d =
     write_intent (reset_event env req m i version) (reset_credential env req version c)
       (d\<lparr>cd_dispositions := cd_dispositions d @ [reset_disposition req i]\<rparr>)"

definition reset_guards :: "cred_env \<Rightarrow> BeginResetRequest \<Rightarrow> Metadata \<Rightarrow> event_row \<Rightarrow> int \<Rightarrow> credential_row \<Rightarrow> cred_db \<Rightarrow> bool" where
  "reset_guards env req m e version c d \<longleftrightarrow>
     (let g = ri_GatewayID (rq_Input req); i = ev_operation_id e in
      ValidateResetInput (rq_ActorUserID req) (rq_Input req) = None \<and> rq_OperationID req \<noteq> uuid_Nil \<and>
      g \<in> set (cd_gateways d) \<and> rq_ActorUserID req \<in> set (cd_admins d) \<and>
      metadata_row d g = Some m \<and> cd_credentials d g = Some c \<and> cr_last_operation_id c = Some i \<and>
      event_of_gateway d i g = Some e \<and> \<not> ev_legacy_projection e \<and> ValidateHistorical (event_operation e) = None \<and>
      \<not> other_unresolved d g i \<and> CheckResetEligibility m (event_operation e) (ri_Reason (rq_Input req)) = None \<and>
      AllocateVersion (md_CredentialVersion m) (attempted_version d g) = Inr version \<and>
      \<not> list_ex (\<lambda>x. di_predecessor_id x = i \<or> di_successor_id x = rq_OperationID req) (cd_dispositions d) \<and>
      i \<noteq> rq_OperationID req \<and> fresh_event d (reset_event env req m i version) \<and>
      timestamps_check (reset_credential env req version c))"

lemma event_of_gateway_Some:
  assumes "event_of_gateway d i g = Some e"
  shows "e \<in> set (cd_events d)" "ev_operation_id e = i" "ev_gateway_id e = g"
  using assms by (auto simp: event_of_gateway_def find_Some_iff in_set_conv_nth)

lemma metadata_row_Some:
  assumes "metadata_row d g = Some m"
  obtains c where "cd_credentials d g = Some c" "md_GatewayID m = g" "md_Username m = g"
    "md_CredentialVersion m = cr_credential_version c" "md_Status m = cr_status c"
    "md_LastOperationID m = (case cr_last_operation_id c of Some i \<Rightarrow> i | None \<Rightarrow> uuid_Nil)"
    "md_OperationStatus m = joined_status d g (cr_last_operation_id c)"
    "md_ActivatedAt m = cr_activated_at c" "md_RevokedAt m = cr_revoked_at c" "md_LastErrorCode m = cr_last_error_code c"
  using assms by (auto simp: metadata_row_def)

lemma event_gateway_simps [simp]:
  "ev_gateway_id (reset_event env req m i version) = ri_GatewayID (rq_Input req)"
  "ev_gateway_id (intent_event env breq mo version) = mu_GatewayID (br_Input breq)"
  by (simp_all add: reset_event_def intent_event_def Let_def with_previous_def new_event_def split: option.split)

lemma fresh_event_disposition [simp]: "fresh_event (d\<lparr>cd_dispositions := x\<rparr>) e = fresh_event d e"
  by (simp add: fresh_event_def event_by_id_def)

lemma check_then_Inr: "(case x of None \<Rightarrow> r | Some e \<Rightarrow> Inl (f e)) = Inr y \<longleftrightarrow> x = None \<and> r = Inr y"
  by (cases x) simp_all

lemma insert_disposition_Inr:
  "insert_disposition env r d = Inr d' \<longleftrightarrow> \<not> ce_fault env CcInsertDisposition \<and>
     \<not> list_ex (\<lambda>x. di_predecessor_id x = di_predecessor_id r \<or> di_successor_id x = di_successor_id r) (cd_dispositions d) \<and>
     di_predecessor_id r \<noteq> di_successor_id r \<and> d' = d\<lparr>cd_dispositions := cd_dispositions d @ [r]\<rparr>"
  by (auto simp: insert_disposition_def)

lemma admit_reset_Inr:
  assumes "admit_reset env req m d = Inr (b, x)"
  defines "g \<equiv> ri_GatewayID (rq_Input req)"
  obtains e version d1 d2 d3 where
    "event_of_gateway d (md_LastOperationID m) g = Some e" "\<not> ev_legacy_projection e" "ValidateHistorical (event_operation e) = None"
    "\<not> other_unresolved d g (md_LastOperationID m)" "CheckResetEligibility m (event_operation e) (ri_Reason (rq_Input req)) = None"
    "allocate env m g d = Inr version"
    "insert_disposition env (reset_disposition req (ev_operation_id e)) d = Inr d1"
    "insert_event env (reset_event env req m (ev_operation_id e) version) d1 = Inr d2"
    "reset_projection env req (ev_operation_id e) version d2 = Inr d3"
    "read_back env (rq_OperationID req) g d3 = Inr (b, x)"
proof -
  obtain p legacy where s: "scanOperation env CcPredecessor (event_of_gateway d (md_LastOperationID m) g) = Inr (p, legacy)" "\<not> legacy"
    and r: "\<not> other_unresolved d g (md_LastOperationID m)" "CheckResetEligibility m p (ri_Reason (rq_Input req)) = None"
      "\<exists>version. allocate env m g d = Inr version \<and> (\<exists>d1. insert_disposition env (reset_disposition req (op_OperationID p)) d = Inr d1 \<and>
        (\<exists>d2. insert_event env (reset_event env req m (op_OperationID p) version) d1 = Inr d2 \<and>
          (\<exists>d3. reset_projection env req (op_OperationID p) version d2 = Inr d3 \<and> read_back env (rq_OperationID req) g d3 = Inr (b, x))))"
    using assms(1) unfolding admit_reset_def Let_def res_bind_eq_Inr g_def reset_disposition_def
      check_then_Inr reject_if_simps split_paired_Ex prod.case by blast
  from s obtain e where "event_of_gateway d (md_LastOperationID m) g = Some e" "p = event_operation e" "\<not> ev_legacy_projection e"
    "ValidateHistorical p = None" by (auto simp: scanOperation_Inr)
  moreover have "op_OperationID (event_operation e) = ev_operation_id e" by (simp add: event_operation_def)
  ultimately show thesis using that r by metis
qed

lemma admit_reset_commit:
  assumes "admit_reset env req m d = Inr (b, Some d')" and "metadata_row d (ri_GatewayID (rq_Input req)) = Some m"
    and "ValidateResetInput (rq_ActorUserID req) (rq_Input req) = None" "rq_OperationID req \<noteq> uuid_Nil"
    and "ri_GatewayID (rq_Input req) \<in> set (cd_gateways d)" "rq_ActorUserID req \<in> set (cd_admins d)"
  obtains e version c where "reset_guards env req m e version c d" "d' = write_reset env req m (ev_operation_id e) version c d"
    "read_back env (rq_OperationID req) (ri_GatewayID (rq_Input req)) d' = Inr (b, Some d')"
proof -
  let ?g = "ri_GatewayID (rq_Input req)"
  obtain e version d1 d2 d3 where
    e: "event_of_gateway d (md_LastOperationID m) ?g = Some e" "\<not> ev_legacy_projection e" "ValidateHistorical (event_operation e) = None"
    and el: "\<not> other_unresolved d ?g (md_LastOperationID m)" "CheckResetEligibility m (event_operation e) (ri_Reason (rq_Input req)) = None"
    and al: "allocate env m ?g d = Inr version"
    and di: "insert_disposition env (reset_disposition req (ev_operation_id e)) d = Inr d1"
    and ie: "insert_event env (reset_event env req m (ev_operation_id e) version) d1 = Inr d2"
    and pr: "reset_projection env req (ev_operation_id e) version d2 = Inr d3" "read_back env (rq_OperationID req) ?g d3 = Inr (b, Some d')"
    using admit_reset_Inr [OF assms(1)] by metis
  have d2: "d2 = d\<lparr>cd_dispositions := cd_dispositions d @ [reset_disposition req (ev_operation_id e)],
         cd_events := cd_events d @ [reset_event env req m (ev_operation_id e) version]\<rparr>"
    using di ie by (auto simp: insert_disposition_Inr insert_event_Inr)
  have i: "ev_operation_id e = md_LastOperationID m" using event_of_gateway_Some [OF e(1)] by simp
  have nz: "ev_operation_id e \<noteq> uuid_Nil" using e(3) by (simp add: ValidateHistorical_None event_operation_def)
  obtain c where c: "cd_credentials d ?g = Some c" "md_LastOperationID m = (case cr_last_operation_id c of Some i \<Rightarrow> i | None \<Rightarrow> uuid_Nil)"
    using metadata_row_Some [OF assms(2)] by metis
  have last: "cr_last_operation_id c = Some (ev_operation_id e)"
    using c(2) i nz by (auto split: option.splits)
  have p: "put_credential env ?g (reset_credential env req version c) d2 = Inr d3"
    using pr(1) c(1) last by (simp add: reset_projection_def Let_def reset_credential_def d2)
  have d3: "d3 = d'" using pr(2) by (simp add: read_back_Inr)
  show thesis
  proof (rule that)
    show "reset_guards env req m e version c d"
      using assms(2-) e el al di ie p c(1) last i
      by (simp add: reset_guards_def Let_def allocate_Inr insert_disposition_Inr insert_event_Inr put_credential_Inr reset_disposition_def)
    show "d' = write_reset env req m (ev_operation_id e) version c d"
      using p d3 d2 by (auto simp: put_credential_Inr write_reset_def write_intent_def)
    show "read_back env (rq_OperationID req) ?g d' = Inr (b, Some d')" using pr(2) d3 by simp
  qed
qed

lemma BeginReset_effect:
  assumes "BeginReset env req d = (r, d')"
  defines "g \<equiv> ri_GatewayID (rq_Input req)"
  obtains (unchanged) "d' = d" "\<And>b. r = Inr b \<Longrightarrow> \<not> be_Execute b" |
    (unconfirmed) "d' = d" "r = Inl (CommitOutcomeUnknown (rq_OperationID req))" |
    (intent) m e version c where "reset_guards env req m e version c d"
      "d' = write_reset env req m (ev_operation_id e) version c d"
      "r = Inl (CommitOutcomeUnknown (rq_OperationID req)) \<or>
       (\<exists>b. r = Inr b \<and> read_back env (rq_OperationID req) g d' = Inr (b, Some d'))"
proof -
  consider (invalid) e where "r = Inl e" "d' = d"
    | (tx) "ValidateResetInput (rq_ActorUserID req) (rq_Input req) = None" "rq_OperationID req \<noteq> uuid_Nil"
      "commit_tx env (rq_OperationID req) d (reset_tx env req d) = (r, d')"
    using assms(1) by (auto simp: BeginReset_def split: option.splits if_splits)
  then show thesis
  proof cases
    case invalid then show thesis using unchanged by simp
  next
    case tx
    from tx(3) consider (err) "d' = d" "\<exists>e. r = Inl e" | (noop) b where "reset_tx env req d = Inr (b, None)" "d' = d" "r = Inr b"
      | (commit) b d1 where "reset_tx env req d = Inr (b, Some d1)"
        "if ce_fault env CcCommit then r = Inl (CommitOutcomeUnknown (rq_OperationID req)) \<and> d' = (if ce_commit_applied env then d1 else d)
         else r = Inr b \<and> d' = d1"
      unfolding commit_tx_eq by blast
    then show thesis
    proof cases
      case err then show thesis using unchanged by auto
    next
      case noop
      have "\<not> be_Execute b"
      proof (cases "scanOperation env CcReplay (event_by_key d (rq_ActorUserID req) (ri_IdempotencyKey (rq_Input req)))")
        case (Inl e)
        have "admit_reset env req m d \<noteq> Inr (b, None)" for m by (metis admit_reset_Inr option.distinct(1) read_back_Inr)
        then show ?thesis using noop(1) Inl by (auto simp: reset_tx_def Let_def split: if_splits)
      next
        case (Inr a)
        then show ?thesis using noop(1) by (cases a) (auto simp: reset_tx_def Let_def split: if_splits)
      qed
      then show thesis using noop unchanged by simp
    next
      case commit
      obtain m where adm: "metadata_row d g = Some m" "admit_reset env req m d = Inr (b, Some d1)"
        "g \<in> set (cd_gateways d)" "rq_ActorUserID req \<in> set (cd_admins d)"
      proof (cases "scanOperation env CcReplay (event_by_key d (rq_ActorUserID req) (ri_IdempotencyKey (rq_Input req)))")
        case (Inl e)
        then show thesis using commit(1) that
          by (auto simp: reset_tx_def Let_def admission_locks_def scanMetadata_def g_def split: if_splits)
      next
        case (Inr a)
        then show thesis using commit(1) by (cases a) (auto simp: reset_tx_def Let_def split: if_splits)
      qed
      obtain e version c where w: "reset_guards env req m e version c d" "d1 = write_reset env req m (ev_operation_id e) version c d"
        "read_back env (rq_OperationID req) g d1 = Inr (b, Some d1)"
        using admit_reset_commit [OF adm(2)] tx(1,2) adm unfolding g_def by blast
      show thesis
      proof (cases "ce_fault env CcCommit \<and> \<not> ce_commit_applied env")
        case True then show thesis using commit(2) unconfirmed by simp
      next
        case False
        then have "d' = d1" using commit(2) by (auto split: if_splits)
        then show thesis using intent [OF w(1)] w(2,3) commit(2) by (auto split: if_splits)
      qed
    qed
  qed
qed

text \<open>A completion: the event's progress and the projection, for the current operation only.\<close>

definition completed_event :: "Operation \<Rightarrow> event_row \<Rightarrow> event_row" where
  "completed_event op e = e\<lparr>ev_status := op_Status op, ev_phase := Some (op_Phase op), ev_evidence := op_Evidence op,
     ev_updated_at := Some (pg_timestamptz (op_UpdatedAt op)), ev_completed_at := map_option pg_timestamptz (op_CompletedAt op),
     ev_error_code := op_ErrorCode op\<rparr>"

definition completed_credential :: "Completion \<Rightarrow> credential_row \<Rightarrow> credential_row" where
  "completed_credential x r = r\<lparr>cr_status := cs_Status (co_Credential x), cr_credential_version := cs_CredentialVersion (co_Credential x),
     cr_activated_at := map_option pg_timestamptz (cs_ActivatedAt (co_Credential x)),
     cr_revoked_at := map_option pg_timestamptz (cs_RevokedAt (co_Credential x)),
     cr_last_error_code := op_ErrorCode (co_Operation x), cr_updated_at := pg_timestamptz (op_UpdatedAt (co_Operation x))\<rparr>"

definition write_completion :: "event_row \<Rightarrow> Completion \<Rightarrow> credential_row \<Rightarrow> cred_db \<Rightarrow> cred_db" where
  "write_completion e x c d =
     d\<lparr>cd_events := map (\<lambda>r. if ev_operation_id r = ev_operation_id e \<and> ev_status r = ev_status e \<and> \<not> ev_legacy_projection r
         then completed_event (co_Operation x) r else r) (cd_events d),
       cd_credentials := (cd_credentials d)(ev_gateway_id e \<mapsto> completed_credential x c)\<rparr>"

definition complete_guards :: "ExecutionOutcome \<Rightarrow> OperationUpdate \<Rightarrow> event_row \<Rightarrow> Completion \<Rightarrow> credential_row \<Rightarrow> cred_db \<Rightarrow> bool" where
  "complete_guards outcome u e x c d \<longleftrightarrow>
     (let g = ev_gateway_id e; p = event_operation e in
      e \<in> set (cd_events d) \<and> \<not> ev_legacy_projection e \<and> ValidateHistorical p = None \<and> \<not> Terminal p \<and>
      g = og_GatewayID (ou_Guard u) \<and> ev_operation_id e = og_ExpectedOperationID (ou_Guard u) \<and>
      cd_credentials d g = Some c \<and> cr_last_operation_id c = Some (ev_operation_id e) \<and>
      (cr_status c, cr_credential_version c) = expected_projection p \<and>
      checked_completion p outcome (ou_Completion u) = Inr x \<and> timestamps_check (completed_credential x c))"

lemma checked_completion_cases:
  assumes "checked_completion p outcome proposed = Inr x"
  obtains y where "CompleteOperation p outcome (op_Evidence (co_Operation proposed)) (op_UpdatedAt (co_Operation proposed)) = Inr y"
    "x = (if outcome = ExecutionVerifiedSuccess then y
       else y\<lparr>co_Operation := (co_Operation y)\<lparr>op_ErrorCode := op_ErrorCode (co_Operation proposed)\<rparr>\<rparr>)"
    "\<not> evidence_lost (op_Evidence p) (op_Evidence (co_Operation x))" "sameCompletion x proposed"
  using assms by (auto simp: checked_completion_def Let_def split: sum.splits if_splits)

lemma complete_tx_commit:
  assumes "complete_tx env u outcome d = Inr (m, Some d')" and "og_ExpectedOperationID (ou_Guard u) \<noteq> uuid_Nil"
  obtains e x c where "complete_guards outcome u e x c d" "d' = write_completion e x c d"
    "metadata_row d' (og_GatewayID (ou_Guard u)) = Some m"
proof -
  let ?gd = "ou_Guard u" and ?g = "og_GatewayID (ou_Guard u)"
  from assms(1) obtain m0 e x d1 where m0: "metadata_row d ?g = Some m0"
    and e: "event_of_gateway d (og_ExpectedOperationID ?gd) ?g = Some e" "\<not> ev_legacy_projection e" "ValidateHistorical (event_operation e) = None"
    and nt: "\<not> Terminal (event_operation e)"
    and gd: "md_LastOperationID m0 = og_ExpectedOperationID ?gd" "ev_status e = og_ExpectedOperationStatus ?gd"
    and pr: "(md_Status m0, md_CredentialVersion m0) = expected_projection (event_operation e)"
    and x: "checked_completion (event_operation e) outcome (ou_Completion u) = Inr x"
    and ue: "update_event env (og_ExpectedOperationStatus ?gd) (co_Operation x) d = Inr d1"
    and uc: "update_credential env ?gd x d1 = Inr d'" and m: "metadata_row d' ?g = Some m"
    unfolding complete_tx_def
    by (auto simp: Let_def scanOperation_Inr scanMetadata_def event_operation_def split: if_splits)
  note eg = event_of_gateway_Some [OF e(1)]
  obtain y where y: "CompleteOperation (event_operation e) outcome (op_Evidence (co_Operation (ou_Completion u)))
      (op_UpdatedAt (co_Operation (ou_Completion u))) = Inr y"
    "x = (if outcome = ExecutionVerifiedSuccess then y
       else y\<lparr>co_Operation := (co_Operation y)\<lparr>op_ErrorCode := op_ErrorCode (co_Operation (ou_Completion u))\<rparr>\<rparr>)"
    using checked_completion_cases [OF x] by metis
  have xi: "op_OperationID (co_Operation x) = ev_operation_id e"
    using y(1)
  proof (cases rule: CompleteOperation_cases)
  qed (use y(2) in \<open>auto simp: event_operation_def\<close>)
  obtain c where c: "cd_credentials d ?g = Some c" "md_Status m0 = cr_status c" "md_CredentialVersion m0 = cr_credential_version c"
    "md_LastOperationID m0 = (case cr_last_operation_id c of Some i \<Rightarrow> i | None \<Rightarrow> uuid_Nil)"
    using metadata_row_Some [OF m0] by metis
  have last: "cr_last_operation_id c = Some (ev_operation_id e)"
    using c(4) gd(1) eg(2) assms(2) by (auto split: option.splits)
  have d1: "d1 = d\<lparr>cd_events := map (\<lambda>r. if ev_operation_id r = ev_operation_id e \<and> ev_status r = ev_status e \<and> \<not> ev_legacy_projection r
         then completed_event (co_Operation x) r else r) (cd_events d)\<rparr>"
    using ue xi gd(2) by (auto simp: update_event_def Let_def completed_event_def)
  have d': "timestamps_check (completed_credential x c)" "d' = d1\<lparr>cd_credentials := (cd_credentials d1)(?g \<mapsto> completed_credential x c)\<rparr>"
    using uc c(1) d1 by (auto simp: update_credential_def Let_def put_credential_Inr completed_credential_def split: if_splits)
  show thesis
  proof (rule that)
    show "complete_guards outcome u e x c d"
      using eg e nt pr x c last d'(1) by (auto simp: complete_guards_def Let_def)
    show "d' = write_completion e x c d" using d'(2) d1 eg(3) by (simp add: write_completion_def)
    show "metadata_row d' ?g = Some m" by (rule m)
  qed
qed

lemma complete_effect:
  assumes "complete env u outcome d = (r, d')"
  obtains (unchanged) "d' = d" | (completion) e x c where "complete_guards outcome u e x c d" "d' = write_completion e x c d"
    "r = Inl (CommitOutcomeUnknown (ev_operation_id e)) \<or> (\<exists>m. r = Inr m \<and> metadata_row d' (ev_gateway_id e) = Some m)"
proof -
  from assms consider (same) "d' = d" | (commit) m d1 where "complete_tx env u outcome d = Inr (m, Some d1)" "d' = d1"
      "og_ExpectedOperationID (ou_Guard u) \<noteq> uuid_Nil"
      "r = Inl (CommitOutcomeUnknown (og_ExpectedOperationID (ou_Guard u))) \<or> r = Inr m"
    by (auto simp: complete_def commit_tx_eq guard_invalid_def split: if_splits)
  then show thesis
  proof cases
    case same then show thesis by (rule unchanged)
  next
    case commit
    obtain e x c where w: "complete_guards outcome u e x c d" "d1 = write_completion e x c d"
      "metadata_row d1 (og_GatewayID (ou_Guard u)) = Some m"
      using complete_tx_commit [OF commit(1,3)] by metis
    then show thesis using completion [OF w(1)] commit by (auto simp: complete_guards_def Let_def)
  qed
qed

end
