(* ===== verification/CredentialInvariant.thy ===== *)
theory CredentialInvariant
  imports CredentialJournal
begin

text \<open>
  The credential journal as a transition system and its invariant. The database re-checks part of
  it in deferred triggers (\<open>migrations/000019_mqtt_simplified_journal.up.sql\<close>); the conditions of
  these triggers are written out here as \<open>validate_mqtt_projection_authority\<close> and
  \<open>validate_mqtt_replacement_inventory\<close>, the former for operations of the simplified contract, the
  latter without its clauses about rotation replacements, which the simplified contract never creates.
\<close>

section \<open>What the deferred triggers demand\<close>

type_synonym projection = "CredentialStatus \<times> int \<times> time option \<times> time option \<times> time option \<times> ErrorCode option"

definition row_projection :: "credential_row \<Rightarrow> projection" where
  "row_projection c = (cr_status c, cr_credential_version c, cr_activated_at c, cr_revoked_at c, Some (cr_updated_at c), cr_last_error_code c)"

definition ev_version :: "event_row \<Rightarrow> int" where
  "ev_version e = (case ev_credential_version e of Some v \<Rightarrow> v | None \<Rightarrow> 0)"

definition coalesce :: "'a option \<Rightarrow> 'a \<Rightarrow> 'a" where
  "coalesce x y = (case x of Some v \<Rightarrow> v | None \<Rightarrow> y)"

fun projected :: "OperationStatus \<Rightarrow> event_row \<Rightarrow> projection option" where
  "projected OperationPending e =
     Some (transient_status (ev_action e), ev_version e, ev_previous_activated_at e, None, Some (ev_created_at e), None)"
| "projected OperationSucceeded e =
     Some (if ev_action e = ActionRevoke
       then (CredentialRevoked, ev_version e, ev_previous_activated_at e, ev_updated_at e, ev_updated_at e, None)
       else (CredentialActive, ev_version e, ev_updated_at e, None, ev_updated_at e, None))"
| "projected OperationFailed e =
     Some (coalesce (ev_previous_status e) CredentialFailed, coalesce (ev_previous_credential_version e) (ev_version e),
       ev_previous_activated_at e, ev_previous_revoked_at e, ev_updated_at e, ev_error_code e)"
| "projected OperationRecoveryNeeded e =
     Some (CredentialRecoveryNeeded, coalesce (ev_previous_credential_version e) (ev_version e),
       ev_previous_activated_at e, ev_previous_revoked_at e, ev_updated_at e, ev_error_code e)"
| "projected _ e = None"

definition proved :: "event_row \<Rightarrow> bool" where
  "proved e \<longleftrightarrow> RAMApplied (ev_evidence e) \<and> (ev_action e = ActionRevoke \<or> FreshPositiveVerified (ev_evidence e))"

definition event_authority :: "cred_db \<Rightarrow> credential_row \<Rightarrow> event_row \<Rightarrow> bool" where
  "event_authority d c e \<longleftrightarrow>
     \<not> ev_legacy_projection e \<and> cr_changed_by c = ev_actor_user_id e \<and>
     ev_operation_id e \<notin> mt_operation_id ` set (cd_maintenance d) \<and> ev_operation_id e \<notin> fst ` set (cd_recovery d) \<and>
     (ev_status e = OperationSucceeded \<longrightarrow> proved e) \<and> projected (ev_status e) e = Some (row_projection c)"

definition validate_mqtt_projection_authority :: "cred_db \<Rightarrow> string \<Rightarrow> bool" where
  "validate_mqtt_projection_authority d g \<longleftrightarrow>
     (case cd_credentials d g of None \<Rightarrow> False
      | Some c \<Rightarrow>
          (case cr_last_operation_id c of None \<Rightarrow> False
           | Some i \<Rightarrow> (case event_of_gateway d i g of None \<Rightarrow> False | Some e \<Rightarrow> event_authority d c e)))"

definition current_operation :: "cred_db \<Rightarrow> string \<Rightarrow> uuid option" where
  "current_operation d g = Option.bind (cd_credentials d g) cr_last_operation_id"

definition validate_mqtt_replacement_inventory :: "cred_db \<Rightarrow> string \<Rightarrow> bool" where
  "validate_mqtt_replacement_inventory d g \<longleftrightarrow>
     list_all (\<lambda>x. di_gateway_id x = g \<longrightarrow>
       event_of_gateway d (di_predecessor_id x) g \<noteq> None \<and> event_of_gateway d (di_successor_id x) g \<noteq> None) (cd_dispositions d) \<and>
     (case current_operation d g of None \<Rightarrow> True | Some i \<Rightarrow> mqtt_operation_effective d i) \<and>
     length (filter (\<lambda>e. \<not> ev_legacy_projection e) (unresolved_events d g)) \<le> 1 \<and>
     list_all (\<lambda>r. mt_gateway_id r = g \<and> mt_status r \<noteq> MaintenanceCompleted \<and> mqtt_operation_effective d (mt_operation_id r) \<longrightarrow>
       current_operation d g = Some (mt_operation_id r)) (cd_maintenance d) \<and>
     list_all (\<lambda>e. current_operation d g = Some (ev_operation_id e) \<and>
         (ev_execution_contract e = ContractLifecycle \<longrightarrow>
           list_ex (\<lambda>r. mt_operation_id r = ev_operation_id e \<and> mt_gateway_id r = g) (cd_maintenance d)))
       (filter (\<lambda>e. \<not> ev_legacy_projection e) (unresolved_events d g))"

section \<open>The journal as a transition system\<close>

text \<open>Deleting a user: \<open>ON DELETE SET NULL\<close> on the actor columns.\<close>

definition drop_actor :: "uuid \<Rightarrow> event_row \<Rightarrow> event_row" where
  "drop_actor a e = (if ev_actor_user_id e = Some a then e\<lparr>ev_actor_user_id := None\<rparr> else e)"

definition drop_changed_by :: "uuid \<Rightarrow> credential_row \<Rightarrow> credential_row" where
  "drop_changed_by a c = (if cr_changed_by c = Some a then c\<lparr>cr_changed_by := None\<rparr> else c)"

definition delete_profile :: "uuid \<Rightarrow> cred_db \<Rightarrow> cred_db" where
  "delete_profile a d = d\<lparr>cd_events := map (drop_actor a) (cd_events d),
     cd_credentials := (\<lambda>g. map_option (drop_changed_by a) (cd_credentials d g)),
     cd_admins := removeAll a (cd_admins d)\<rparr>"

text \<open>
  The steps: the repository's transactions in any order and with any failures, new and changed
  Gateways and administrators (a Gateway with a credential cannot be deleted), deleted users. The
  database clock is past the first microsecond of the calendar.
\<close>

inductive journal_step :: "cred_db \<Rightarrow> cred_db \<Rightarrow> bool" where
  step_begin: "1000 \<le> ce_now env \<Longrightarrow> BeginSimplifiedOperation env req d = (r, d') \<Longrightarrow> journal_step d d'"
| step_reset: "1000 \<le> ce_now env \<Longrightarrow> BeginReset env rreq d = (r, d') \<Longrightarrow> journal_step d d'"
| step_finalize: "ConditionalFinalize env u d = (rm, d') \<Longrightarrow> journal_step d d'"
| step_fail: "FailKnown env u d = (rm, d') \<Longrightarrow> journal_step d d'"
| step_recovery: "RequireRecovery env u d = (rm, d') \<Longrightarrow> journal_step d d'"
| step_gateways: "dom (cd_credentials d) \<subseteq> set gs \<Longrightarrow> journal_step d (d\<lparr>cd_gateways := gs\<rparr>)"
| step_admins: "journal_step d (d\<lparr>cd_admins := admins\<rparr>)"
| step_delete: "journal_step d (delete_profile a d)"

definition journal_init :: "cred_db \<Rightarrow> bool" where
  "journal_init d \<longleftrightarrow> cd_credentials d = Map.empty \<and> cd_events d = [] \<and> cd_maintenance d = [] \<and> cd_recovery d = [] \<and>
     cd_replacements d = [] \<and> cd_dispositions d = []"

interpretation journal: transition_system journal_init journal_step .

section \<open>The invariant\<close>

definition on_us :: "time option \<Rightarrow> bool" where
  "on_us t \<longleftrightarrow> (case t of None \<Rightarrow> True | Some t \<Rightarrow> pg_timestamptz t = t)"

definition event_ok :: "event_row \<Rightarrow> bool" where
  "event_ok e \<longleftrightarrow>
     \<not> ev_legacy_projection e \<and> ev_execution_contract e = ContractSimplified \<and> ev_recovery_id e = None \<and>
     ev_replacement_predecessor_id e = None \<and> ValidateHistorical (event_operation e) = None \<and>
     (\<exists>v. ev_credential_version e = Some v \<and> v \<le> maxInt64) \<and>
     (\<exists>u. ev_updated_at e = Some u \<and> ev_created_at e \<le> u \<and> pg_timestamptz u = u) \<and>
     1000 \<le> ev_created_at e \<and> pg_timestamptz (ev_created_at e) = ev_created_at e \<and>
     on_us (ev_previous_activated_at e) \<and> on_us (ev_previous_revoked_at e) \<and>
     (ev_previous_status e = None \<longleftrightarrow> ev_previous_credential_version e = None) \<and>
     (ev_previous_status e = None \<longrightarrow> ev_previous_activated_at e = None \<and> ev_previous_revoked_at e = None) \<and>
     (\<forall>v. ev_previous_credential_version e = Some v \<longrightarrow> v \<le> maxInt64)"

definition is_open :: "event_row \<Rightarrow> bool" where
  "is_open e \<longleftrightarrow> ev_status e \<in> {OperationPending, OperationRecoveryNeeded}"

definition current_ok :: "cred_db \<Rightarrow> string \<Rightarrow> credential_row \<Rightarrow> bool" where
  "current_ok d g c \<longleftrightarrow> timestamps_check c \<and>
     (\<exists>e \<in> set (cd_events d). ev_gateway_id e = g \<and> cr_last_operation_id c = Some (ev_operation_id e) \<and>
       cr_changed_by c = ev_actor_user_id e \<and> mqtt_operation_effective d (ev_operation_id e) \<and>
       projected (ev_status e) e = Some (row_projection c))"

definition newer :: "event_row \<Rightarrow> event_row \<Rightarrow> bool" where
  "newer a b \<longleftrightarrow> (ev_gateway_id a = ev_gateway_id b \<and> ev_action b \<noteq> ActionRevoke \<longrightarrow> ev_version a < ev_version b)"

definition same_key :: "event_row \<Rightarrow> event_row \<Rightarrow> bool" where
  "same_key a b \<longleftrightarrow> ev_actor_user_id a \<noteq> None \<and> ev_actor_user_id a = ev_actor_user_id b \<and> ev_idempotency_key a = ev_idempotency_key b"

definition disposition_ok :: "cred_db \<Rightarrow> disposition_row \<Rightarrow> bool" where
  "disposition_ok d x \<longleftrightarrow>
     (\<exists>e \<in> set (cd_events d). ev_operation_id e = di_predecessor_id x \<and> ev_gateway_id e = di_gateway_id x) \<and>
     (\<exists>e \<in> set (cd_events d). ev_operation_id e = di_successor_id x \<and> ev_gateway_id e = di_gateway_id x)"

definition journal_inv :: "cred_db \<Rightarrow> bool" where
  "journal_inv d \<longleftrightarrow>
     cd_maintenance d = [] \<and> cd_recovery d = [] \<and> cd_replacements d = [] \<and>
     distinct (map ev_operation_id (cd_events d)) \<and>
     (\<forall>e \<in> set (cd_events d). event_ok e \<and> cd_credentials d (ev_gateway_id e) \<noteq> None) \<and>
     sorted_wrt (\<lambda>a b. \<not> same_key a b) (cd_events d) \<and> sorted_wrt newer (cd_events d) \<and>
     (\<forall>g c. cd_credentials d g = Some c \<longrightarrow> current_ok d g c) \<and>
     (\<forall>e \<in> set (cd_events d). is_open e \<and> mqtt_operation_effective d (ev_operation_id e) \<longrightarrow>
        current_operation d (ev_gateway_id e) = Some (ev_operation_id e)) \<and>
     (\<forall>x \<in> set (cd_dispositions d). disposition_ok d x)"

lemma journal_init_inv: "journal_init d \<Longrightarrow> journal_inv d"
  by (simp add: journal_init_def journal_inv_def)

lemma journal_invD:
  assumes "journal_inv d"
  shows "distinct (map ev_operation_id (cd_events d))" "\<And>e. e \<in> set (cd_events d) \<Longrightarrow> event_ok e"
    "\<And>e. e \<in> set (cd_events d) \<Longrightarrow> cd_credentials d (ev_gateway_id e) \<noteq> None"
    "\<And>g c. cd_credentials d g = Some c \<Longrightarrow> current_ok d g c"
    "\<And>x. x \<in> set (cd_dispositions d) \<Longrightarrow> disposition_ok d x"
    "\<And>e. e \<in> set (cd_events d) \<Longrightarrow> is_open e \<Longrightarrow> mqtt_operation_effective d (ev_operation_id e) \<Longrightarrow>
       current_operation d (ev_gateway_id e) = Some (ev_operation_id e)"
  using assms unfolding journal_inv_def by blast+

lemma event_unique:
  assumes "journal_inv d" and "a \<in> set (cd_events d)" "b \<in> set (cd_events d)" and "ev_operation_id a = ev_operation_id b"
  shows "a = b"
  using journal_invD(1) [OF assms(1)] assms(2-) by (simp add: distinct_map inj_on_def)

lemma event_by_id_None: "event_by_id d i = None \<longleftrightarrow> i \<notin> ev_operation_id ` set (cd_events d)"
  by (auto simp: event_by_id_def find_None_iff)

lemma event_lookup:
  assumes "journal_inv d" and "e \<in> set (cd_events d)"
  shows "event_by_id d (ev_operation_id e) = Some e" "event_of_gateway d (ev_operation_id e) (ev_gateway_id e) = Some e"
proof -
  obtain e1 where e1: "event_by_id d (ev_operation_id e) = Some e1" using event_by_id_None [of d] assms(2) by fastforce
  then show "event_by_id d (ev_operation_id e) = Some e"
    using event_unique [OF assms(1)] assms(2) by (metis (mono_tags, lifting) event_by_id_def find_Some_iff nth_mem)
  have "event_of_gateway d (ev_operation_id e) (ev_gateway_id e) \<noteq> None"
    using assms(2) by (auto simp: event_of_gateway_def find_None_iff)
  then obtain e2 where "event_of_gateway d (ev_operation_id e) (ev_gateway_id e) = Some e2" by blast
  then show "event_of_gateway d (ev_operation_id e) (ev_gateway_id e) = Some e"
    using event_unique [OF assms(1) _ assms(2)] event_of_gateway_Some by metis
qed

text \<open>The current operation of a Gateway is an event of this Gateway.\<close>

lemma current_event:
  assumes "journal_inv d" and "current_operation d g = Some i"
  obtains e c where "cd_credentials d g = Some c" "e \<in> set (cd_events d)" "ev_operation_id e = i" "ev_gateway_id e = g"
    "cr_last_operation_id c = Some i" "cr_changed_by c = ev_actor_user_id e" "mqtt_operation_effective d i"
    "projected (ev_status e) e = Some (row_projection c)" "timestamps_check c"
proof -
  obtain c where "cd_credentials d g = Some c" "cr_last_operation_id c = Some i"
    using assms(2) by (auto simp: current_operation_def bind_eq_Some_conv)
  then show thesis using journal_invD(4) [OF assms(1)] that unfolding current_ok_def by fastforce
qed

section \<open>Admissions keep the invariant\<close>

lemma write_intent_inv:
  fixes d e c ds
  defines "d' \<equiv> write_intent e c (d\<lparr>cd_dispositions := cd_dispositions d @ ds\<rparr>)"
  assumes inv: "journal_inv d" and ok: "event_ok e" and fresh: "fresh_event d e"
    and st: "ev_status e = OperationPending" "projected OperationPending e = Some (row_projection c)"
    and c: "timestamps_check c" "cr_changed_by c = ev_actor_user_id e" "cr_last_operation_id c = Some (ev_operation_id e)"
    and ds: "\<And>x. x \<in> set ds \<Longrightarrow> di_gateway_id x = ev_gateway_id e \<and> di_successor_id x = ev_operation_id e \<and>
      current_operation d (ev_gateway_id e) = Some (di_predecessor_id x)"
    and op: "\<And>a. a \<in> set (cd_events d) \<Longrightarrow> ev_gateway_id a = ev_gateway_id e \<Longrightarrow> is_open a \<Longrightarrow>
      mqtt_operation_effective d (ev_operation_id a) \<Longrightarrow> ev_operation_id a \<in> di_predecessor_id ` set ds"
    and nw: "\<And>a. a \<in> set (cd_events d) \<Longrightarrow> newer a e"
  shows "journal_inv d'"
proof -
  let ?ids = "ev_operation_id ` set (cd_events d)"
  have new: "ev_operation_id e \<notin> ?ids" using fresh by (simp add: fresh_event_def event_by_id_None)
  have eff: "mqtt_operation_effective d' i \<longleftrightarrow> mqtt_operation_effective d i \<and> i \<notin> di_predecessor_id ` set ds" for i
    by (auto simp: d'_def write_intent_def mqtt_operation_effective_def)
  have preds: "di_predecessor_id x \<in> ?ids" if "x \<in> set (cd_dispositions d) \<union> set ds" for x
  proof (cases "x \<in> set ds")
    case True then show ?thesis using ds [OF True] current_event [OF inv] by (metis imageI)
  next
    case False then show ?thesis using that journal_invD(5) [OF inv, of x] by (auto simp: disposition_ok_def) (metis imageI)
  qed
  have pred_gw: "ev_gateway_id a = ev_gateway_id e" if "a \<in> set (cd_events d)" "ev_operation_id a \<in> di_predecessor_id ` set ds" for a
    using that ds current_event [OF inv] event_unique [OF inv] by (metis (no_types, lifting) image_iff)
  have eff_e: "mqtt_operation_effective d' (ev_operation_id e)"
  proof -
    have "cd_replacements d = []" using inv by (simp add: journal_inv_def)
    moreover have "ev_operation_id e \<notin> di_predecessor_id ` (set (cd_dispositions d) \<union> set ds)"
      using new preds by (metis imageE)
    ultimately have "mqtt_operation_effective d (ev_operation_id e)" "ev_operation_id e \<notin> di_predecessor_id ` set ds"
      unfolding mqtt_operation_effective_def image_Un by simp_all
    then show ?thesis by (simp add: eff)
  qed
  have ev: "cd_events d' = cd_events d @ [e]" "cd_credentials d' = (cd_credentials d)(ev_gateway_id e \<mapsto> c)"
    "cd_dispositions d' = cd_dispositions d @ ds" "cd_maintenance d' = cd_maintenance d" "cd_recovery d' = cd_recovery d"
    "cd_replacements d' = cd_replacements d"
    by (simp_all add: d'_def write_intent_def)
  have keys: "\<forall>a \<in> set (cd_events d). \<not> same_key a e"
    using fresh journal_invD(2) [OF inv] by (auto simp: fresh_event_def same_key_def event_ok_def list_ex_iff)
  have cur: "current_ok d' g c'" if "cd_credentials d' g = Some c'" for g c'
  proof (cases "g = ev_gateway_id e")
    case True
    then show ?thesis using that c st eff_e by (auto simp: current_ok_def ev)
  next
    case False
    then have g: "cd_credentials d g = Some c'" using that by (simp add: ev)
    obtain a where a: "a \<in> set (cd_events d)" "ev_gateway_id a = g" "cr_last_operation_id c' = Some (ev_operation_id a)"
      "cr_changed_by c' = ev_actor_user_id a" "mqtt_operation_effective d (ev_operation_id a)"
      "projected (ev_status a) a = Some (row_projection c')" "timestamps_check c'"
      using journal_invD(4) [OF inv g] by (auto simp: current_ok_def)
    have "ev_operation_id a \<notin> di_predecessor_id ` set ds" using pred_gw [OF a(1)] a(2) False by blast
    then show ?thesis using a by (auto simp: current_ok_def eff ev)
  qed
  have open_current: "current_operation d' (ev_gateway_id a) = Some (ev_operation_id a)"
    if "a \<in> set (cd_events d')" "is_open a" "mqtt_operation_effective d' (ev_operation_id a)" for a
  proof (cases "a = e")
    case True then show ?thesis using c(3) by (simp add: current_operation_def ev)
  next
    case False
    then have a: "a \<in> set (cd_events d)" using that(1) by (simp add: ev)
    have "mqtt_operation_effective d (ev_operation_id a)" "ev_operation_id a \<notin> di_predecessor_id ` set ds"
      using that(3) by (simp_all add: eff)
    then show ?thesis using journal_invD(6) [OF inv a that(2)] op [OF a _ that(2)] by (auto simp: current_operation_def ev)
  qed
  have disp: "disposition_ok d' x" if "x \<in> set (cd_dispositions d')" for x
  proof (cases "x \<in> set ds")
    case True
    then obtain a where "a \<in> set (cd_events d)" "ev_operation_id a = di_predecessor_id x" "ev_gateway_id a = ev_gateway_id e"
      using ds current_event [OF inv] by metis
    then show ?thesis using ds [OF True] by (auto simp: disposition_ok_def ev)
  next
    case False then show ?thesis using that journal_invD(5) [OF inv] by (auto simp: disposition_ok_def ev)
  qed
  have "\<forall>a \<in> set (cd_events d'). event_ok a \<and> cd_credentials d' (ev_gateway_id a) \<noteq> None"
    using ok journal_invD(2,3) [OF inv] by (auto simp: ev)
  then show ?thesis
    using inv new keys nw cur open_current disp
    unfolding journal_inv_def by (simp add: ev sorted_wrt_append)
qed

lemma pg_timestamptz_pg [simp]: "pg_timestamptz (pg_timestamptz t) = pg_timestamptz t"
  by (simp add: pg_timestamptz_def)

lemma pg_timestamptz_mono: "a \<le> b \<Longrightarrow> pg_timestamptz a \<le> pg_timestamptz b"
  unfolding pg_timestamptz_def by (intro mult_right_mono zdiv_mono1) simp_all

lemma pg_timestamptz_1000: "1000 \<le> t \<Longrightarrow> 1000 \<le> pg_timestamptz t"
  using pg_timestamptz_mono [of 1000 t] by (simp add: pg_timestamptz_def)

lemma on_us_simps [simp]: "on_us None" "on_us (Some t) \<longleftrightarrow> pg_timestamptz t = t" "on_us (map_option pg_timestamptz x)"
  by (simp_all add: on_us_def split: option.split)

text \<open>What the invariant says of a credential row.\<close>

lemma credential_facts:
  assumes "journal_inv d" and "cd_credentials d g = Some c"
  shows "CredentialStatus_Validate (cr_status c) = None" "0 < cr_credential_version c" "cr_credential_version c \<le> maxInt64"
    "on_us (cr_activated_at c)" "on_us (cr_revoked_at c)"
proof -
  obtain e where t: "timestamps_check c" and e: "e \<in> set (cd_events d)" "projected (ev_status e) e = Some (row_projection c)"
    using journal_invD(4) [OF assms] by (auto simp: current_ok_def)
  show "CredentialStatus_Validate (cr_status c) = None" "0 < cr_credential_version c" using t by (auto simp: timestamps_check_def)
  have ok: "event_ok e" by (rule journal_invD(2) [OF assms(1) e(1)])
  have v: "ev_version e \<le> maxInt64" "coalesce (ev_previous_credential_version e) (ev_version e) \<le> maxInt64"
    using ok by (auto simp: event_ok_def ev_version_def coalesce_def split: option.splits)
  show "cr_credential_version c \<le> maxInt64" using e(2) v by (cases "ev_status e") (auto simp: row_projection_def split: if_splits)
  show "on_us (cr_activated_at c)" "on_us (cr_revoked_at c)"
    using e(2) ok by (cases "ev_status e"; auto simp: row_projection_def event_ok_def split: if_splits)+
qed

lemma fold_max_ge: "(x::int) \<le> fold max vs x" "v \<in> set vs \<Longrightarrow> v \<le> fold max vs x"
  by (induction vs arbitrary: x) (auto, (meson max.cobounded1 max.cobounded2 order_trans)+)

lemma fold_max_le: "\<forall>v \<in> set vs. v \<le> b \<Longrightarrow> (x::int) \<le> b \<Longrightarrow> fold max vs x \<le> b"
  by (induction vs arbitrary: x) auto

lemma attempted_version_bounds:
  assumes "journal_inv d"
  shows "0 \<le> attempted_version d g" "attempted_version d g \<le> maxInt64"
    "\<And>e. e \<in> set (cd_events d) \<Longrightarrow> ev_gateway_id e = g \<Longrightarrow> ev_version e \<le> attempted_version d g"
proof -
  let ?vs = "List.map_filter ev_credential_version (filter (\<lambda>e. ev_gateway_id e = g) (cd_events d))"
  have vs: "set ?vs = {v. \<exists>e \<in> set (cd_events d). ev_gateway_id e = g \<and> ev_credential_version e = Some v}"
    by (force simp: List.map_filter_def image_iff)
  show "0 \<le> attempted_version d g" by (simp add: attempted_version_def fold_max_ge)
  have "\<forall>v \<in> set ?vs. v \<le> maxInt64" using journal_invD(2) [OF assms] by (fastforce simp: vs event_ok_def)
  then show "attempted_version d g \<le> maxInt64" unfolding attempted_version_def by (intro fold_max_le) (simp_all add: maxInt64_def)
  fix e assume e: "e \<in> set (cd_events d)" "ev_gateway_id e = g"
  obtain v where v: "ev_credential_version e = Some v" using journal_invD(2) [OF assms e(1)] by (auto simp: event_ok_def)
  have "v \<le> attempted_version d g" unfolding attempted_version_def by (rule fold_max_ge(2)) (use e v in \<open>auto simp: vs\<close>)
  then show "ev_version e \<le> attempted_version d g" using v by (simp add: ev_version_def)
qed

lemma allocated_version:
  assumes "journal_inv d" and "AllocateVersion mv (attempted_version d g) = Inr v" and "mv \<le> maxInt64"
  shows "mv < v" "v \<le> maxInt64" "0 < v" "\<And>e. e \<in> set (cd_events d) \<Longrightarrow> ev_gateway_id e = g \<Longrightarrow> ev_version e < v"
proof -
  note b = attempted_version_bounds [OF assms(1), where g = g] and v = AllocateVersion_Inr [OF assms(2,3) attempted_version_bounds(2) [OF assms(1)]]
  show "mv < v" "v \<le> maxInt64" "0 < v" using v by auto
  show "ev_version e < v" if "e \<in> set (cd_events d)" "ev_gateway_id e = g" for e using b(3) [OF that] v by auto
qed

lemma no_unresolved:
  assumes "journal_inv d" and "unresolved_work d g = (False, False)" and "e \<in> set (cd_events d)" "ev_gateway_id e = g" "is_open e"
  shows "\<not> mqtt_operation_effective d (ev_operation_id e)"
  using assms journal_invD(2) [OF assms(1,3)]
  by (auto simp: unresolved_work_def unresolved_events_def Let_def is_open_def list_ex_iff event_ok_def)

lemma new_event_ok:
  assumes "1000 \<le> ce_now env" and "i \<noteq> uuid_Nil" "key \<noteq> uuid_Nil" "ValidateGatewayID g" "action \<in> {ActionProvision, ActionRotate, ActionRevoke}"
    and "0 < v" "v \<le> maxInt64"
  shows "event_ok (new_event env i actor g key action v ContractSimplified)"
    and "\<lbrakk>CredentialStatus_Validate (md_Status m) = None; 0 < md_CredentialVersion m; md_CredentialVersion m \<le> maxInt64;
      on_us (md_ActivatedAt m); on_us (md_RevokedAt m)\<rbrakk> \<Longrightarrow>
      event_ok (with_previous m (new_event env i actor g key action v ContractSimplified))"
  using assms pg_timestamptz_1000 [OF assms(1)]
  by (auto simp: event_ok_def ValidateHistorical_None event_operation_def with_previous_def new_event_def reset_fields_ok_def
    validate_reset_fields_def ValidateMutationInput_None)

lemma write_intent_no_disposition: "write_intent e c (d\<lparr>cd_dispositions := cd_dispositions d @ []\<rparr>) = write_intent e c d"
  by (simp add: write_intent_def)

lemma begin_inv:
  assumes inv: "journal_inv d" and g: "begin_guards env req version status d" and now: "1000 \<le> ce_now env"
  defines "mo \<equiv> metadata_row d (mu_GatewayID (br_Input req))"
  shows "journal_inv (write_intent (intent_event env req mo version) (intent_credential env req mo version status) d)"
proof -
  let ?g = "mu_GatewayID (br_Input req)" and ?a = "mu_Action (br_Input req)" and ?e = "intent_event env req mo version"
    and ?c = "intent_credential env req mo version status" and ?m = "db_metadata mo"
  note G = g [unfolded begin_guards_def Let_def, folded mo_def]
  have in_ok: "br_ActorUserID req \<noteq> uuid_Nil" "mu_IdempotencyKey (br_Input req) \<noteq> uuid_Nil" "ValidateGatewayID ?g"
    "?a \<in> {ActionProvision, ActionRotate, ActionRevoke}" using G by (auto simp: ValidateMutationInput_None)
  have m: "CredentialStatus_Validate (md_Status m) = None \<and> 0 < md_CredentialVersion m \<and> md_CredentialVersion m \<le> maxInt64 \<and>
      on_us (md_ActivatedAt m) \<and> on_us (md_RevokedAt m)" if "mo = Some m" for m
    using credential_facts [OF inv] that unfolding mo_def metadata_row_def by auto
  have mv: "md_CredentialVersion ?m \<le> maxInt64"
    using m by (cases mo) (auto simp: db_metadata_def Metadata_zero_def maxInt64_def)
  have ver: "0 < version" "version \<le> maxInt64" "?a \<noteq> ActionRevoke \<Longrightarrow> a \<in> set (cd_events d) \<Longrightarrow> ev_gateway_id a = ?g \<Longrightarrow> ev_version a < version" for a
  proof -
    show "0 < version" "version \<le> maxInt64"
      using G m allocated_version(2,3) [OF inv _ mv] by (cases "?a = ActionRevoke"; cases mo; auto simp: db_metadata_def)+
    show "?a \<noteq> ActionRevoke \<Longrightarrow> a \<in> set (cd_events d) \<Longrightarrow> ev_gateway_id a = ?g \<Longrightarrow> ev_version a < version"
      using G allocated_version(4) [OF inv _ mv, where g = ?g and v = version and e = a] by simp
  qed
  have eok: "event_ok ?e"
    using new_event_ok [OF now _ in_ok(2-4) ver(1,2)] m G
    by (cases mo) (auto simp: intent_event_def Let_def)
  have st: "status = transient_status ?a" using BeginCredentialStatus_Inr G by fastforce
  have fields: "ev_status ?e = OperationPending" "ev_action ?e = ?a" "ev_version ?e = version" "ev_operation_id ?e = br_OperationID req"
    "ev_actor_user_id ?e = Some (br_ActorUserID req)" "ev_created_at ?e = pg_timestamptz (ce_now env)"
    "ev_previous_activated_at ?e = md_ActivatedAt ?m"
    by (cases mo; simp add: intent_event_def with_previous_def new_event_def ev_version_def db_metadata_def Metadata_zero_def)+
  show ?thesis
  proof (subst write_intent_no_disposition [symmetric], rule write_intent_inv [OF inv eok _ fields(1), where ds = "[]"])
    show "fresh_event d ?e" "timestamps_check ?c" using G by simp_all
    show "projected OperationPending ?e = Some (row_projection ?c)" using fields st by (simp add: row_projection_def intent_credential_def)
    show "cr_changed_by ?c = ev_actor_user_id ?e" "cr_last_operation_id ?c = Some (ev_operation_id ?e)"
      using fields by (simp_all add: intent_credential_def)
    show "\<And>x. x \<in> set [] \<Longrightarrow> di_gateway_id x = ev_gateway_id ?e \<and> di_successor_id x = ev_operation_id ?e \<and>
      current_operation d (ev_gateway_id ?e) = Some (di_predecessor_id x)" by simp
    show "ev_operation_id a \<in> di_predecessor_id ` set []"
      if "a \<in> set (cd_events d)" "ev_gateway_id a = ev_gateway_id ?e" "is_open a" "mqtt_operation_effective d (ev_operation_id a)" for a
      using no_unresolved [OF inv _ that(1), where g = ?g] that G by simp
    show "newer a ?e" if "a \<in> set (cd_events d)" for a using ver(3) [OF _ that] fields by (simp add: newer_def)
  qed
qed

text \<open>Reset: the superseded predecessor is the only open operation the Gateway may have had.\<close>

lemma reset_event_fields:
  fixes env req m i version
  defines "e \<equiv> reset_event env req m i version"
  shows "ev_status e = OperationPending" "ev_action e = ActionReset" "ev_version e = version" "ev_operation_id e = rq_OperationID req"
    "ev_actor_user_id e = Some (rq_ActorUserID req)" "ev_created_at e = pg_timestamptz (ce_now env)"
    "ev_previous_activated_at e = md_ActivatedAt m"
  by (simp_all add: e_def reset_event_def with_previous_def new_event_def ev_version_def Let_def)

lemma reset_event_ok:
  assumes "ValidateResetInput (rq_ActorUserID req) (rq_Input req) = None" "rq_OperationID req \<noteq> uuid_Nil" "1000 \<le> ce_now env"
    and "CredentialStatus_Validate (md_Status m) = None" "0 < md_CredentialVersion m" "md_CredentialVersion m \<le> maxInt64"
    and "on_us (md_ActivatedAt m)" "on_us (md_RevokedAt m)" and "0 < version" "version \<le> maxInt64" and "i \<noteq> uuid_Nil" "i \<noteq> rq_OperationID req"
  shows "event_ok (reset_event env req m i version)"
  using assms pg_timestamptz_1000 [OF assms(3)]
  by (auto simp: event_ok_def ValidateHistorical_None event_operation_def reset_event_def with_previous_def new_event_def reset_fields_ok_def
    validate_reset_fields_def ValidateResetInput_None Let_def)

lemma reset_inv:
  assumes inv: "journal_inv d" and g: "reset_guards env req m p version c d" and now: "1000 \<le> ce_now env"
  shows "journal_inv (write_reset env req m (ev_operation_id p) version c d)"
proof -
  let ?g = "ri_GatewayID (rq_Input req)" and ?i = "ev_operation_id p" and ?e = "reset_event env req m (ev_operation_id p) version"
    and ?c = "reset_credential env req version c"
  note G = g [unfolded reset_guards_def Let_def]
  have mrow: "metadata_row d ?g = Some m" and ev: "event_of_gateway d ?i ?g = Some p" using G by simp_all
  obtain c0 where c0: "cd_credentials d ?g = Some c0" "md_CredentialVersion m = cr_credential_version c0" "md_Status m = cr_status c0"
      "md_ActivatedAt m = cr_activated_at c0" "md_RevokedAt m = cr_revoked_at c0"
    using metadata_row_Some [OF mrow] by metis
  have c: "c0 = c" using c0(1) G by simp
  note cf = credential_facts [OF inv c0(1)]
  have mv: "md_CredentialVersion m \<le> maxInt64" using c0 cf by simp
  have al: "AllocateVersion (md_CredentialVersion m) (attempted_version d ?g) = Inr version" using G by simp
  note ver = allocated_version [OF inv al mv]
  have p: "p \<in> set (cd_events d)" "ev_gateway_id p = ?g" using event_of_gateway_Some [OF ev] by simp_all
  have pn: "?i \<noteq> uuid_Nil" using G by (auto simp: ValidateHistorical_None event_operation_def)
  have cur: "current_operation d ?g = Some ?i" using G by (simp add: current_operation_def)
  have eok: "event_ok ?e" using G cf c0 ver(2,3) pn by (intro reset_event_ok [OF _ _ now]) auto
  have rev: "cr_revoked_at c = None" using G by (auto simp: timestamps_check_def reset_credential_def)
  note fields = reset_event_fields [where env = env and req = req and m = m and i = ?i and version = version]
  show ?thesis unfolding write_reset_def
  proof (rule write_intent_inv [OF inv eok _ fields(1)])
    show "fresh_event d ?e" "timestamps_check ?c" using G by simp_all
    show "projected OperationPending ?e = Some (row_projection ?c)"
      using fields c0(4) c rev by (simp add: row_projection_def reset_credential_def)
    show "cr_changed_by ?c = ev_actor_user_id ?e" "cr_last_operation_id ?c = Some (ev_operation_id ?e)"
      using fields by (simp_all add: reset_credential_def)
    show "\<And>x. x \<in> set [reset_disposition req ?i] \<Longrightarrow> di_gateway_id x = ev_gateway_id ?e \<and> di_successor_id x = ev_operation_id ?e \<and>
      current_operation d (ev_gateway_id ?e) = Some (di_predecessor_id x)" using cur fields by (simp add: reset_disposition_def)
    show "ev_operation_id a \<in> di_predecessor_id ` set [reset_disposition req ?i]"
      if "a \<in> set (cd_events d)" "ev_gateway_id a = ev_gateway_id ?e" "is_open a" "mqtt_operation_effective d (ev_operation_id a)" for a
      using journal_invD(6) [OF inv that(1,3,4)] that(2) cur by (simp add: reset_disposition_def)
    show "newer a ?e" if "a \<in> set (cd_events d)" for a using ver(4) [OF that] fields by (simp add: newer_def)
  qed
qed

section \<open>Completions keep the invariant\<close>

text \<open>A completed row differs from the open one in its progress only.\<close>

lemma event_operation_completed:
  "event_operation (completed_event op e) = (event_operation e)\<lparr>op_Status := op_Status op, op_Phase := op_Phase op,
     op_Evidence := op_Evidence op, op_UpdatedAt := pg_timestamptz (op_UpdatedAt op),
     op_CompletedAt := map_option pg_timestamptz (op_CompletedAt op), op_ErrorCode := op_ErrorCode op\<rparr>"
  by (simp add: event_operation_def completed_event_def split: option.split)

lemma completed_event_simps [simp]:
  "ev_operation_id (completed_event op e) = ev_operation_id e" "ev_gateway_id (completed_event op e) = ev_gateway_id e"
  "ev_actor_user_id (completed_event op e) = ev_actor_user_id e" "ev_idempotency_key (completed_event op e) = ev_idempotency_key e"
  "ev_action (completed_event op e) = ev_action e" "ev_credential_version (completed_event op e) = ev_credential_version e"
  "ev_status (completed_event op e) = op_Status op" "ev_version (completed_event op e) = ev_version e"
  "ev_updated_at (completed_event op e) = Some (pg_timestamptz (op_UpdatedAt op))"
  "ev_previous_status (completed_event op e) = ev_previous_status e"
  "ev_previous_credential_version (completed_event op e) = ev_previous_credential_version e"
  "ev_previous_activated_at (completed_event op e) = ev_previous_activated_at e"
  "ev_previous_revoked_at (completed_event op e) = ev_previous_revoked_at e"
  "ev_error_code (completed_event op e) = op_ErrorCode op" "ev_created_at (completed_event op e) = ev_created_at e"
  by (simp_all add: completed_event_def ev_version_def)

lemma completion_facts:
  assumes "checked_completion (event_operation e) outcome proposed = Inr x" and "event_ok e"
  shows "event_ok (completed_event (co_Operation x) e)"
    "projected (op_Status (co_Operation x)) (completed_event (co_Operation x) e) = Some (row_projection (completed_credential x c))"
    "op_Status (co_Operation x) \<in> {OperationSucceeded, OperationFailed, OperationRecoveryNeeded}"
proof -
  let ?p = "event_operation e"
  obtain y where y: "CompleteOperation ?p outcome (op_Evidence (co_Operation proposed)) (op_UpdatedAt (co_Operation proposed)) = Inr y"
    and x: "x = (if outcome = ExecutionVerifiedSuccess then y
       else y\<lparr>co_Operation := (co_Operation y)\<lparr>op_ErrorCode := op_ErrorCode (co_Operation proposed)\<rparr>\<rparr>)"
    using checked_completion_cases [OF assms(1)] by metis
  let ?t = "op_UpdatedAt (co_Operation proposed)"
  note ok = assms(2) [unfolded event_ok_def]
  have prev: "op_Previous ?p = (case ev_previous_status e of None \<Rightarrow> None
    | Some s \<Rightarrow> Some \<lparr>cs_Status = s, cs_CredentialVersion = coalesce (ev_previous_credential_version e) 0,
        cs_ActivatedAt = ev_previous_activated_at e, cs_RevokedAt = ev_previous_revoked_at e\<rparr>)"
    using ok by (auto simp: event_operation_def coalesce_def split: option.splits)
  have ver: "op_CredentialVersion ?p = ev_version e" "op_Action ?p = ev_action e" "op_CreatedAt ?p = ev_created_at e"
    by (simp_all add: event_operation_def ev_version_def)
  have us: "map_option pg_timestamptz (ev_previous_activated_at e) = ev_previous_activated_at e"
    "map_option pg_timestamptz (ev_previous_revoked_at e) = ev_previous_revoked_at e"
    using ok by (auto simp: on_us_def split: option.splits)
  have t: "ev_created_at e \<le> ?t" "?t \<noteq> 0" "\<not> completion_refused ?p ?t"
    using y completion_refused_not [of ?p ?t] ver(3) by (auto elim!: CompleteOperation_cases)
  have pg: "ev_created_at e \<le> pg_timestamptz ?t" "1000 \<le> pg_timestamptz ?t"
    using pg_timestamptz_mono [OF t(1)] ok by auto
  have v: "ValidateHistorical ?p = None" "op_RecoveryID ?p = None" using completion_refused_not [OF t(3)] by simp_all
  have upd: "op_UpdatedAt (co_Operation x) = ?t" using y x by (auto elim!: CompleteOperation_cases)
  have valid: "ValidateHistorical (event_operation (completed_event (co_Operation x) e)) = None"
    using y
  proof (cases rule: CompleteOperation_cases)
    case success
    then show ?thesis using v x pg ver(3) by (simp add: event_operation_completed ValidateHistorical_None)
  next
    case failure
    then show ?thesis using v x pg ver(3) by (simp add: event_operation_completed ValidateHistorical_None)
  next
    case recovery
    then show ?thesis using v x by (simp add: event_operation_completed ValidateHistorical_None)
  qed
  show "event_ok (completed_event (co_Operation x) e)"
    using ok valid pg upd unfolding event_ok_def by (simp add: completed_event_def)
  show "projected (op_Status (co_Operation x)) (completed_event (co_Operation x) e) = Some (row_projection (completed_credential x c))"
    using y
  proof (cases rule: CompleteOperation_cases)
    case success
    then show ?thesis using x ver prev us ok
      by (auto simp: row_projection_def completed_credential_def split: option.splits)
  next
    case failure
    then show ?thesis using x ver prev us ok
      by (auto simp: row_projection_def completed_credential_def coalesce_def split: option.splits)
  next
    case recovery
    then show ?thesis using x ver prev us ok
      by (auto simp: row_projection_def completed_credential_def coalesce_def split: option.splits)
  qed
  show "op_Status (co_Operation x) \<in> {OperationSucceeded, OperationFailed, OperationRecoveryNeeded}"
    using y x by (auto elim!: CompleteOperation_cases)
qed

text \<open>Rewriting events in place, for completions and for deleted users.\<close>

lemma rewrite_events_inv:
  fixes d f creds
  defines "d' \<equiv> d\<lparr>cd_events := map f (cd_events d), cd_credentials := creds\<rparr>"
  assumes inv: "journal_inv d"
    and f: "\<And>r. r \<in> set (cd_events d) \<Longrightarrow> ev_operation_id (f r) = ev_operation_id r \<and> ev_gateway_id (f r) = ev_gateway_id r \<and>
      ev_action (f r) = ev_action r \<and> ev_version (f r) = ev_version r \<and> ev_idempotency_key (f r) = ev_idempotency_key r \<and>
      ev_actor_user_id (f r) \<in> {None, ev_actor_user_id r} \<and> event_ok (f r) \<and> (is_open (f r) \<longrightarrow> is_open r)"
    and cur: "\<And>g. current_operation d' g = current_operation d g" and dom: "dom creds = dom (cd_credentials d)"
    and ok: "\<And>g c. creds g = Some c \<Longrightarrow> current_ok d' g c"
  shows "journal_inv d'"
proof -
  have eff: "mqtt_operation_effective d' i = mqtt_operation_effective d i" for i
    by (simp add: d'_def mqtt_operation_effective_def)
  have ids: "map ev_operation_id (map f (cd_events d)) = map ev_operation_id (cd_events d)" using f by simp
  have sk1: "same_key a b" if "same_key (f a) (f b)" "a \<in> set (cd_events d)" "b \<in> set (cd_events d)" for a b
    using that(1) f [OF that(2)] f [OF that(3)] unfolding same_key_def by (metis empty_iff insert_iff)
  have sk: "sorted_wrt (\<lambda>a b. \<not> same_key a b) (map f (cd_events d))" unfolding sorted_wrt_map
    by (rule sorted_wrt_mono_rel [of _ "\<lambda>a b. \<not> same_key a b"]) (use inv sk1 in \<open>auto simp: journal_inv_def\<close>)
  have nw: "sorted_wrt newer (map f (cd_events d))" unfolding sorted_wrt_map
    by (rule sorted_wrt_mono_rel [of _ newer]) (use inv f in \<open>auto simp: journal_inv_def newer_def\<close>)
  have opn: "current_operation d' (ev_gateway_id a) = Some (ev_operation_id a)"
    if a: "a \<in> set (cd_events d')" "is_open a" "mqtt_operation_effective d' (ev_operation_id a)" for a
  proof -
    obtain r where r: "r \<in> set (cd_events d)" "a = f r" using a(1) by (auto simp: d'_def)
    then show ?thesis using journal_invD(6) [OF inv r(1)] f [OF r(1)] a(2,3) by (auto simp: cur eff)
  qed
  have disp: "disposition_ok d' x" if "x \<in> set (cd_dispositions d')" for x
  proof -
    have "disposition_ok d x" using that journal_invD(5) [OF inv] by (simp add: d'_def)
    then show ?thesis unfolding disposition_ok_def d'_def using f by auto
  qed
  have creds: "\<forall>a \<in> set (map f (cd_events d)). event_ok a \<and> creds (ev_gateway_id a) \<noteq> None"
    using f journal_invD(3) [OF inv] dom by (auto simp: dom_def)
  show ?thesis
    unfolding journal_inv_def using inv ids sk nw opn disp creds ok
    by (auto simp: d'_def journal_inv_def simp del: map_map set_map)
qed

lemma is_open_nonterminal: "event_ok e \<Longrightarrow> \<not> Terminal (event_operation e) \<Longrightarrow> is_open e"
  by (auto simp: event_ok_def Terminal_def event_operation_def is_open_def ValidateHistorical_None OperationStatus_Validate_None)

lemma complete_inv:
  assumes inv: "journal_inv d" and g: "complete_guards outcome u e x c d"
  shows "journal_inv (write_completion e x c d)"
proof -
  note G = g [unfolded complete_guards_def Let_def]
  have e1: "e \<in> set (cd_events d)" and nl: "\<not> ev_legacy_projection e" and nt: "\<not> Terminal (event_operation e)"
    and chk: "checked_completion (event_operation e) outcome (ou_Completion u) = Inr x" and tc: "timestamps_check (completed_credential x c)"
    using G by simp_all
  note e = e1 journal_invD(2) [OF inv e1]
  let ?f = "\<lambda>r. if ev_operation_id r = ev_operation_id e \<and> ev_status r = ev_status e \<and> \<not> ev_legacy_projection r
         then completed_event (co_Operation x) r else r"
  let ?d = "write_completion e x c d"
  have f: "?f r = (if r = e then completed_event (co_Operation x) e else r)" if "r \<in> set (cd_events d)" for r
    using event_unique [OF inv that e(1)] nl by auto
  note cf = completion_facts [OF chk e(2)]
  have open_e: "is_open e" by (rule is_open_nonterminal [OF e(2) nt])
  have eff: "mqtt_operation_effective ?d i = mqtt_operation_effective d i" for i
    by (simp add: write_completion_def mqtt_operation_effective_def)
  have d': "?d = d\<lparr>cd_events := map ?f (cd_events d), cd_credentials := (cd_credentials d)(ev_gateway_id e \<mapsto> completed_credential x c)\<rparr>"
    by (simp add: write_completion_def)
  have ce: "cd_credentials d (ev_gateway_id e) = Some c" "cr_last_operation_id c = Some (ev_operation_id e)" using G by (metis, metis)
  have cok: "current_ok ?d g' c'" if c': "((cd_credentials d)(ev_gateway_id e \<mapsto> completed_credential x c)) g' = Some c'" for g' c'
  proof (cases "g' = ev_gateway_id e")
    case True
    then have "c' = completed_credential x c" using c' by simp
    moreover have "completed_event (co_Operation x) e \<in> set (cd_events ?d)"
      using e(1) f [OF e(1)] by (auto simp: d' image_iff intro!: bexI [of _ e])
    moreover obtain a where "a \<in> set (cd_events d)" "cr_last_operation_id c = Some (ev_operation_id a)"
        "cr_changed_by c = ev_actor_user_id a" "mqtt_operation_effective d (ev_operation_id a)"
      using journal_invD(4) [OF inv ce(1)] by (auto simp: current_ok_def)
    moreover then have "a = e" using event_unique [OF inv _ e(1)] ce by auto
    ultimately show ?thesis using True cf(2) tc ce
      by (auto simp: current_ok_def eff completed_credential_def intro!: bexI [of _ "completed_event (co_Operation x) e"])
  next
    case False
    then have "cd_credentials d g' = Some c'" using c' by simp
    then obtain a where a: "a \<in> set (cd_events d)" "ev_gateway_id a = g'" "timestamps_check c'" "cr_last_operation_id c' = Some (ev_operation_id a)"
        "cr_changed_by c' = ev_actor_user_id a" "mqtt_operation_effective d (ev_operation_id a)"
        "projected (ev_status a) a = Some (row_projection c')"
      using journal_invD(4) [OF inv] by (auto simp: current_ok_def)
    then have "a \<in> set (cd_events ?d)" using f [OF a(1)] False by (auto simp: d' image_iff intro!: bexI [of _ a])
    then show ?thesis using a by (auto simp: current_ok_def eff)
  qed
  show ?thesis unfolding d'
  proof (rule rewrite_events_inv [OF inv])
    show "ev_operation_id (?f r) = ev_operation_id r \<and> ev_gateway_id (?f r) = ev_gateway_id r \<and>
      ev_action (?f r) = ev_action r \<and> ev_version (?f r) = ev_version r \<and> ev_idempotency_key (?f r) = ev_idempotency_key r \<and>
      ev_actor_user_id (?f r) \<in> {None, ev_actor_user_id r} \<and> event_ok (?f r) \<and> (is_open (?f r) \<longrightarrow> is_open r)"
      if r: "r \<in> set (cd_events d)" for r
      using cf(1) open_e journal_invD(2) [OF inv r] by (simp add: f [OF r])
    show "current_operation (d\<lparr>cd_events := map ?f (cd_events d), cd_credentials := (cd_credentials d)(ev_gateway_id e \<mapsto> completed_credential x c)\<rparr>) g'
      = current_operation d g'" for g'
      using ce by (auto simp: current_operation_def completed_credential_def)
    show "dom ((cd_credentials d)(ev_gateway_id e \<mapsto> completed_credential x c)) = dom (cd_credentials d)" using ce by auto
  qed (use cok in \<open>simp add: d' [symmetric]\<close>)
qed

lemma drop_actor_simps [simp]:
  "ev_operation_id (drop_actor a e) = ev_operation_id e" "ev_gateway_id (drop_actor a e) = ev_gateway_id e"
  "ev_action (drop_actor a e) = ev_action e" "ev_version (drop_actor a e) = ev_version e" "ev_status (drop_actor a e) = ev_status e"
  "ev_idempotency_key (drop_actor a e) = ev_idempotency_key e" "projected s (drop_actor a e) = projected s e"
  "event_ok (drop_actor a e) = event_ok e" "is_open (drop_actor a e) = is_open e"
  "ev_actor_user_id (drop_actor a e) = (if ev_actor_user_id e = Some a then None else ev_actor_user_id e)"
proof -
  show "event_ok (drop_actor a e) = event_ok e"
  proof -
    have "event_operation (e\<lparr>ev_actor_user_id := None\<rparr>) = (event_operation e)\<lparr>op_ActorUserID := uuid_Nil\<rparr>"
      by (simp add: event_operation_def split: option.split)
    then show ?thesis by (simp add: drop_actor_def event_ok_def)
  qed
  show "projected s (drop_actor a e) = projected s e" by (cases s) (simp_all add: drop_actor_def ev_version_def)
qed (simp_all add: drop_actor_def ev_version_def is_open_def)

lemma journal_inv_frame [simp]:
  "journal_inv (d\<lparr>cd_admins := admins\<rparr>) \<longleftrightarrow> journal_inv d" "journal_inv (d\<lparr>cd_gateways := gs\<rparr>) \<longleftrightarrow> journal_inv d"
  by (simp_all add: journal_inv_def current_ok_def current_operation_def disposition_ok_def mqtt_operation_effective_def)

lemma delete_profile_inv:
  assumes inv: "journal_inv d"
  shows "journal_inv (delete_profile a d)"
proof -
  let ?creds = "\<lambda>g. map_option (drop_changed_by a) (cd_credentials d g)"
  let ?d = "d\<lparr>cd_events := map (drop_actor a) (cd_events d), cd_credentials := ?creds\<rparr>"
  have "journal_inv ?d"
  proof (rule rewrite_events_inv [OF inv])
    show "current_operation ?d g = current_operation d g" for g
      by (auto simp: current_operation_def drop_changed_by_def split: Option.bind_split)
    show "dom ?creds = dom (cd_credentials d)" by (auto simp: dom_def)
    fix g c assume "?creds g = Some c"
    then obtain c0 where c0: "cd_credentials d g = Some c0" "c = drop_changed_by a c0" by auto
    then show "current_ok ?d g c" using journal_invD(4) [OF inv c0(1)]
      by (auto simp: current_ok_def drop_changed_by_def timestamps_check_def mqtt_operation_effective_def row_projection_def)
  qed (use journal_invD(2) [OF inv] in auto)
  then show ?thesis unfolding delete_profile_def by simp
qed

lemma journal_step_inv: "journal_step d d' \<Longrightarrow> journal_inv d \<Longrightarrow> journal_inv d'"
proof (induction rule: journal_step.induct)
  case (step_begin env req d r d')
  from step_begin(2) show ?case
    by (cases rule: BeginSimplifiedOperation_effect) (use begin_inv [OF step_begin(3) _ step_begin(1)] step_begin(3) in auto)
next
  case (step_reset env rreq d r d')
  from step_reset(2) show ?case
    by (cases rule: BeginReset_effect) (use reset_inv [OF step_reset(3) _ step_reset(1)] step_reset(3) in auto)
next
  case (step_finalize env u d rm d')
  from step_finalize(1) show ?case unfolding ConditionalFinalize_def
    by (cases rule: complete_effect) (use complete_inv step_finalize(2) in auto)
next
  case (step_fail env u d rm d')
  from step_fail(1) show ?case unfolding FailKnown_def
    by (cases rule: complete_effect) (use complete_inv step_fail(2) in auto)
next
  case (step_recovery env u d rm d')
  from step_recovery(1) show ?case unfolding RequireRecovery_def
    by (cases rule: complete_effect) (use complete_inv step_recovery(2) in auto)
next
  case (step_delete d a)
  then show ?case by (rule delete_profile_inv)
qed simp_all

lemma journal_reach_inv: "journal.reach d \<Longrightarrow> journal_inv d"
  by (erule journal.invariant) (use journal_init_inv journal_step_inv in blast)+

section \<open>History\<close>

text \<open>The identity of an operation: everything but its progress and its actor.\<close>

definition event_identity :: "event_row \<Rightarrow> event_row" where
  "event_identity e = e\<lparr>ev_status := OperationPending, ev_phase := None, ev_evidence := no_evidence, ev_updated_at := None,
     ev_completed_at := None, ev_error_code := None, ev_actor_user_id := None\<rparr>"

lemma event_identity_simps [simp]:
  "event_identity (completed_event op e) = event_identity e" "event_identity (drop_actor a e) = event_identity e"
  by (simp_all add: event_identity_def completed_event_def drop_actor_def)

definition kept :: "event_row \<Rightarrow> event_row \<Rightarrow> bool" where
  "kept e e' \<longleftrightarrow> event_identity e' = event_identity e \<and>
     (is_open e \<or> e' = e \<or> e' = e\<lparr>ev_actor_user_id := None\<rparr>)"

lemma completion_kept:
  assumes "journal_inv d" and "complete env u outcome d = (r, d')"
  shows "list_all2 kept (cd_events d) (take (length (cd_events d)) (cd_events d'))"
  using assms(2)
proof (cases rule: complete_effect)
  case unchanged then show ?thesis by (simp add: kept_def list_all2_same)
next
  case (completion e x c)
  note G = completion(1) [unfolded complete_guards_def Let_def]
  have e: "e \<in> set (cd_events d)" "is_open e"
    using G is_open_nonterminal journal_invD(2) [OF assms(1)] by auto
  have "is_open a" if "a \<in> set (cd_events d)" "ev_operation_id a = ev_operation_id e" for a
    using event_unique [OF assms(1) that(1) e(1) that(2)] e(2) by simp
  then show ?thesis unfolding completion(2) write_completion_def
    by (simp add: list_all2_map2 list_all2_same kept_def)
qed

lemma write_intent_kept: "list_all2 kept (cd_events d) (take (length (cd_events d)) (cd_events (write_intent e c (d\<lparr>cd_dispositions := ds\<rparr>))))"
  "list_all2 kept (cd_events d) (take (length (cd_events d)) (cd_events (write_intent e c d)))"
  by (simp_all add: write_intent_def kept_def list_all2_same)

lemma journal_step_kept:
  assumes "journal_inv d" and "journal_step d d'"
  shows "list_all2 kept (cd_events d) (take (length (cd_events d)) (cd_events d'))"
  using assms(2)
proof cases
  case (step_begin env req r)
  from step_begin(2) show ?thesis
    by (cases rule: BeginSimplifiedOperation_effect) (simp_all add: write_intent_kept kept_def list_all2_same)
next
  case (step_reset env rreq r)
  from step_reset(2) show ?thesis
    by (cases rule: BeginReset_effect) (simp_all add: write_reset_def write_intent_kept kept_def list_all2_same)
next
  case (step_delete a)
  then show ?thesis by (simp add: delete_profile_def list_all2_map2 list_all2_same kept_def drop_actor_def event_identity_def)
qed (use completion_kept [OF assms(1)] in
    \<open>auto simp: ConditionalFinalize_def FailKnown_def RequireRecovery_def kept_def list_all2_same\<close>)

text \<open>Over any number of steps: an event keeps its identity, a finished one also its outcome.\<close>

lemma kept_event:
  assumes "journal_inv d" and "journal_step d d'" and "e \<in> set (cd_events d)"
  obtains e' where "e' \<in> set (cd_events d')" "kept e e'"
proof -
  have "list_all2 kept (cd_events d) (take (length (cd_events d)) (cd_events d'))" by (rule journal_step_kept [OF assms(1,2)])
  then show thesis using assms(3) that by (metis in_set_conv_nth in_set_takeD list_all2_conv_all_nth nth_mem)
qed

lemma kept_trans: "kept a b \<Longrightarrow> kept b c \<Longrightarrow> kept a c"
  unfolding kept_def is_open_def by (cases "is_open a") (auto simp: is_open_def event_identity_def)

lemma kept_steps:
  assumes "journal_step\<^sup>*\<^sup>* d d'" and "journal_inv d" and "e \<in> set (cd_events d)"
  shows "journal_inv d' \<and> (\<exists>e' \<in> set (cd_events d'). kept e e')"
  using assms(1)
proof (induction rule: rtranclp_induct)
  case base then show ?case using assms(2,3) by (auto simp: kept_def)
next
  case (step y z)
  then obtain e' where e': "journal_inv y" "e' \<in> set (cd_events y)" "kept e e'" by blast
  obtain e'' where "e'' \<in> set (cd_events z)" "kept e' e''" using kept_event [OF e'(1) step(2) e'(2)] by metis
  then show ?case using kept_trans [OF e'(3)] journal_step_inv [OF step(2) e'(1)] by blast
qed

lemma journal_steps_inv: "journal_step\<^sup>*\<^sup>* d d' \<Longrightarrow> journal_inv d \<Longrightarrow> journal_inv d'"
  by (induction rule: rtranclp_induct) (auto intro: journal_step_inv)

end
