(* ===== verification/CredentialService.thy ===== *)
theory CredentialService
  imports CredentialInvariant
begin

text \<open>
  The credential service on its simplified path (\<open>mqttcredential/service.go\<close>, the path
  \<open>cmd/server/credential.go\<close> wires up): classification of admission errors, provisioning, rotation,
  revocation and reset, with the single-flight flag, the poison flag and the rule that a password
  leaves the service only after its completion was read back.

  Two collaborators are parameters. \<open>SimplifiedExecutor\<close> talks to the broker: given the operation and
  the answers its password generator would give, it says how often it asked and what it reports.
  \<open>ResetPrerequisite\<close> is the operator's quiescence check. One request is a function of an environment
  \<open>svc_env\<close> with the failures of its repository calls, the generated passwords, the clock, and
  \<open>se_others k\<close>: what other requests and processes did to the database before its \<open>k\<close>-th call.
\<close>

section \<open>Classifying errors\<close>

text \<open>\<open>errors.As\<close> for \<open>*DomainError\<close>: the first one in the tree, depth first.\<close>

fun as_domain :: "cred_error \<Rightarrow> ErrorCode option" and as_domain_list :: "cred_error list \<Rightarrow> ErrorCode option" where
  "as_domain (DomainError c) = Some c"
| "as_domain (CommitOutcomeUnknown i) = Some CodeFinalizationPending"
| "as_domain NilError = None"
| "as_domain OpaqueError = None"
| "as_domain (WrapError e) = as_domain e"
| "as_domain (JoinError es) = as_domain_list es"
| "as_domain_list [] = None"
| "as_domain_list (e # es) = (case as_domain e of Some c \<Rightarrow> Some c | None \<Rightarrow> as_domain_list es)"

definition serviceError :: "cred_error \<Rightarrow> ErrorCode" where
  "serviceError e = (case as_domain e of Some c \<Rightarrow> c | None \<Rightarrow> CodeServiceUnavailable)"

fun safe_code :: "ErrorCode \<Rightarrow> bool" where
  "safe_code CodeInvalidRequest = True"
| "safe_code CodeForbidden = True"
| "safe_code CodeNotFound = True"
| "safe_code CodeCredentialConflict = True"
| "safe_code CodeIdempotencyConflict = True"
| "safe_code CodeOperationInProgress = True"
| "safe_code _ = False"

text \<open>The walk of \<open>inspectAdmissionError\<close>: remaining budget, first safe code, or \<open>None\<close> once a leaf is unsafe or the
  budget is used up (a \<open>CommitOutcomeUnknown\<close> is unsafe although it unwraps to a code).\<close>

type_synonym walk = "(int \<times> ErrorCode option) option"

fun traverse :: "cred_error \<Rightarrow> int \<times> ErrorCode option \<Rightarrow> walk"
  and traverse_list :: "cred_error list \<Rightarrow> int \<times> ErrorCode option \<Rightarrow> walk" where
  "traverse NilError w = None"
| "traverse (CommitOutcomeUnknown i) w = None"
| "traverse OpaqueError w = None"
| "traverse (JoinError children) (remainingBudget, first) =
     (if remainingBudget \<le> 0 \<or> children = [] \<or> remainingBudget - 1 < int (length children) then None
      else traverse_list children (remainingBudget - 1, first))"
| "traverse (DomainError code) (remainingBudget, first) =
     (if remainingBudget \<le> 0 \<or> \<not> safe_code code then None
      else Some (remainingBudget - 1, if first = None then Some code else first))"
| "traverse (WrapError child) (remainingBudget, first) =
     (if remainingBudget \<le> 0 then None else traverse child (remainingBudget - 1, first))"
| "traverse_list [] w = Some w"
| "traverse_list (e # es) w = (case traverse e w of None \<Rightarrow> None | Some w' \<Rightarrow> traverse_list es w')"

definition inspectAdmissionError :: "cred_error \<Rightarrow> bool \<times> ErrorCode" where
  "inspectAdmissionError err =
     (if err = NilError then (False, CodeServiceUnavailable)
      else (case traverse err (64, None) of Some (_, Some code) \<Rightarrow> (True, code) | _ \<Rightarrow> (False, CodeServiceUnavailable)))"

definition evaluateAdmissionError :: "BeginResult \<Rightarrow> cred_error \<Rightarrow> bool \<times> ErrorCode" where
  "evaluateAdmissionError b e =
     (if b \<noteq> BeginResult_zero then (False, CodeServiceUnavailable)
      else if \<not> fst (inspectAdmissionError e) then (False, CodeServiceUnavailable)
      else (True, snd (inspectAdmissionError e)))"

section \<open>Passwords and the executor\<close>

text \<open>\<open>validPassword\<close> of \<open>password_file.go\<close>.\<close>

definition validPassword :: "string \<Rightarrow> bool" where
  "validPassword p \<longleftrightarrow> 0 < length p \<and> length p \<le> 4096 \<and> \<not> containsAny p [CHR 0x0D, CHR 0x0A, CHR 0x00]"

text \<open>One call of the generator: whether its context is done before and after \<open>GeneratePassword\<close>, and what that returns.\<close>

record gen_call =
  gc_done_before :: bool
  gc_password :: "string option"
  gc_done_after :: bool

definition gen_step :: "gen_call \<Rightarrow> string \<Rightarrow> string option \<times> string" where
  "gen_step call secret =
     (if gc_done_before call \<or> secret \<noteq> [] then (None, secret)
      else (case gc_password call of
          None \<Rightarrow> (None, secret)
        | Some p \<Rightarrow> if gc_done_after call \<or> \<not> validPassword p then (None, secret) else (Some p, p)))"

text \<open>The captured secret after so many calls, and the answer of the next one.\<close>

fun gen_secret :: "(nat \<Rightarrow> gen_call) \<Rightarrow> nat \<Rightarrow> string" where
  "gen_secret calls 0 = []"
| "gen_secret calls (Suc k) = snd (gen_step (calls k) (gen_secret calls k))"

definition gen_answer :: "(nat \<Rightarrow> gen_call) \<Rightarrow> nat \<Rightarrow> string option" where
  "gen_answer calls k = fst (gen_step (calls k) (gen_secret calls k))"

record NativeDisableQualification =
  nq_imageRef :: string
  nq_configID :: string
  nq_platform :: string
  nq_version :: string

definition QualifiedMosquittoImageRef :: string where
  "QualifiedMosquittoImageRef = ''eclipse-mosquitto@sha256:d12c8f80dfc65b768bb9acecc7ef182b976f71fb681640b66358e5e0cf94e9e9''"
definition QualifiedMosquittoConfigID :: string where
  "QualifiedMosquittoConfigID = ''sha256:d25945831d6b8935b016caacc6f612ad4876ba124601b240e64953886cf264b4''"
definition QualifiedMosquittoPlatform :: string where "QualifiedMosquittoPlatform = ''linux/amd64''"
definition QualifiedMosquittoVersion :: string where "QualifiedMosquittoVersion = ''2.0.18''"

definition NewNativeDisableQualification :: "string \<Rightarrow> string \<Rightarrow> string \<Rightarrow> NativeDisableQualification option" where
  "NewNativeDisableQualification imageRef configID platform =
     (if imageRef \<noteq> QualifiedMosquittoImageRef \<or> configID \<noteq> QualifiedMosquittoConfigID \<or> platform \<noteq> QualifiedMosquittoPlatform
      then None
      else Some \<lparr>nq_imageRef = imageRef, nq_configID = configID, nq_platform = platform, nq_version = QualifiedMosquittoVersion\<rparr>)"

definition Qualification_zero :: NativeDisableQualification where
  "Qualification_zero = \<lparr>nq_imageRef = [], nq_configID = [], nq_platform = [], nq_version = []\<rparr>"

definition Qualification_IsZero :: "NativeDisableQualification \<Rightarrow> bool" where
  "Qualification_IsZero q \<longleftrightarrow> q = Qualification_zero"

definition Qualification_Valid :: "NativeDisableQualification \<Rightarrow> bool" where
  "Qualification_Valid q \<longleftrightarrow> nq_imageRef q = QualifiedMosquittoImageRef \<and> nq_configID q = QualifiedMosquittoConfigID \<and>
     nq_platform q = QualifiedMosquittoPlatform \<and> nq_version q = QualifiedMosquittoVersion"

record SimplifiedExecutionEvidence =
  xe_RAMApplied :: bool
  xe_FreshPositiveVerified :: bool
  xe_ProtocolDenialVerified :: bool
  xe_SessionHandlingVerified :: bool
  xe_NativeDisabledObserved :: bool
  xe_NativePersistedRoleACLObserved :: bool
  xe_Qualification :: NativeDisableQualification

definition xe_zero :: SimplifiedExecutionEvidence where
  "xe_zero = \<lparr>xe_RAMApplied = False, xe_FreshPositiveVerified = False, xe_ProtocolDenialVerified = False,
     xe_SessionHandlingVerified = False, xe_NativeDisabledObserved = False, xe_NativePersistedRoleACLObserved = False,
     xe_Qualification = Qualification_zero\<rparr>"

record SimplifiedExecutionResult =
  xr_OperationID :: uuid
  xr_Outcome :: ExecutionOutcome
  xr_Evidence :: SimplifiedExecutionEvidence
  xr_Mutated :: bool

text \<open>What a run of \<open>Execute\<close> amounts to: calls of the generator, result, and whether it returned an error.\<close>

record exec_reply =
  er_calls :: nat
  er_result :: SimplifiedExecutionResult
  er_failed :: bool

record SimplifiedExecutor =
  ex_Execute :: "Operation \<Rightarrow> (nat \<Rightarrow> string option) option \<Rightarrow> exec_reply"
  ex_CheckRevoked :: "string \<Rightarrow> bool"

section \<open>Requests\<close>

record ProvisionService =
  ps_busy :: bool
  ps_poisoned :: bool

record ProvisionResponse =
  pr_Result :: MutationResult
  pr_Secret :: "SecretResult option"

record svc_env =
  se_StartupReady :: bool
  se_NewOperationID :: "uuid option"
  se_generate :: "nat \<Rightarrow> gen_call"
  se_Prerequisite :: "cred_error option"
  se_now :: time
  se_env :: "nat \<Rightarrow> cred_env"
  se_others :: "nat \<Rightarrow> cred_db \<Rightarrow> cred_db"

definition validSimplifiedMetadata :: "Metadata \<Rightarrow> string \<Rightarrow> bool" where
  "validSimplifiedMetadata m g \<longleftrightarrow> md_GatewayID m = g \<and> md_Username m = g \<and> 0 < md_CredentialVersion m \<and>
     md_LastOperationID m \<noteq> uuid_Nil \<and> CredentialStatus_Validate (md_Status m) = None \<and>
     OperationStatus_Validate (md_OperationStatus m) = None"

definition sameSimplifiedMetadata :: "Metadata \<Rightarrow> Metadata \<Rightarrow> bool" where
  "sameSimplifiedMetadata a b \<longleftrightarrow>
     a\<lparr>md_ActivatedAt := trunc_us (md_ActivatedAt a), md_RevokedAt := trunc_us (md_RevokedAt a)\<rparr> =
     b\<lparr>md_ActivatedAt := trunc_us (md_ActivatedAt b), md_RevokedAt := trunc_us (md_RevokedAt b)\<rparr>"

text \<open>The part of a request that holds the worker lock returns its response, whether it poisons the service, and the tables.\<close>

type_synonym 'r work = "(ErrorCode + 'r) \<times> bool \<times> cred_db"

definition metadata_only :: "MutationResult \<Rightarrow> ProvisionResponse" where
  "metadata_only r = \<lparr>pr_Result = r, pr_Secret = None\<rparr>"

text \<open>An execution that is not a verified success: record it, poison unless it is a known unchanged failure.\<close>

definition record_failure :: "svc_env \<Rightarrow> uuid \<Rightarrow> Operation \<Rightarrow> Metadata \<Rightarrow> SimplifiedExecutionResult \<Rightarrow> VerificationEvidence \<Rightarrow> cred_db \<Rightarrow> ProvisionResponse work" where
  "record_failure E i op m r evidence d =
     (let known = (xr_OperationID r = i \<and> \<not> xr_Mutated r \<and> xr_Outcome r = ExecutionUnchangedFailure \<and> xr_Evidence r = xe_zero);
          outcome = (if known then ExecutionUnchangedFailure else ExecutionRecoveryRequired) in
      case CompleteOperation op outcome evidence (se_now E) of
        Inl _ \<Rightarrow> (Inl CodeRecoveryRequired, True, d)
      | Inr c \<Rightarrow>
          let u = \<lparr>ou_Guard = operationGuard op m, ou_Completion = c\<rparr>; d1 = se_others E 3 d;
              (ce, d2) = (if known then FailKnown (se_env E 3) u d1 else RequireRecovery (se_env E 3) u d1) in
          (Inl CodeRecoveryRequired, \<not> known \<or> \<not> is_ok ce, d2))"

definition readback_ok :: "uuid \<Rightarrow> string \<Rightarrow> Completion \<Rightarrow> Operation \<Rightarrow> Metadata \<Rightarrow> bool" where
  "readback_ok i g c confirmed latest \<longleftrightarrow>
     sameCompletion \<lparr>co_Operation = confirmed, co_Credential = co_Credential c\<rparr> c \<and>
     validSimplifiedMetadata latest g \<and> md_LastOperationID latest = i \<and>
     md_CredentialVersion latest = cs_CredentialVersion (co_Credential c) \<and> md_Status latest = cs_Status (co_Credential c) \<and>
     md_OperationStatus latest = OperationSucceeded \<and>
     canonicalSnapshot \<lparr>cs_Status = md_Status latest, cs_CredentialVersion = md_CredentialVersion latest,
       cs_ActivatedAt = md_ActivatedAt latest, cs_RevokedAt = md_RevokedAt latest\<rparr> = canonicalSnapshot (co_Credential c) \<and>
     md_LastErrorCode latest = None"

text \<open>
  Finalising a verified execution and reading the completion back. \<open>strict\<close> is the rule of
  \<open>mutateSimplified\<close>, where an error of the finalisation forbids the response; \<open>Reset\<close> accepts it when
  the read-back proves the completion.
\<close>

definition finalize_and_disclose ::
  "bool \<Rightarrow> svc_env \<Rightarrow> uuid \<Rightarrow> string \<Rightarrow> Operation \<Rightarrow> Metadata \<Rightarrow> VerificationEvidence \<Rightarrow> string option \<Rightarrow> cred_db \<Rightarrow> ProvisionResponse work" where
  "finalize_and_disclose strict E i g op m evidence secret d =
     (case CompleteOperation op ExecutionVerifiedSuccess evidence (se_now E) of
        Inl _ \<Rightarrow> (Inl CodeRecoveryRequired, True, d)
      | Inr c \<Rightarrow>
          let (finalized, d1) = ConditionalFinalize (se_env E 4) \<lparr>ou_Guard = operationGuard op m, ou_Completion = c\<rparr> (se_others E 4 d);
              d2 = se_others E 5 d1; d3 = se_others E 6 d2 in
          (case (ResolveCommitAmbiguity (se_env E 5) i d2, GetMetadata (se_env E 6) g d3) of
             (Inr confirmed, Inr latest) \<Rightarrow>
               if readback_ok i g c confirmed latest \<and>
                 (case finalized of Inl _ \<Rightarrow> \<not> strict | Inr f \<Rightarrow> sameSimplifiedMetadata f latest)
               then
                 (Inr \<lparr>pr_Result = (mutation_result latest i)\<lparr>mr_SecretReturned := secret \<noteq> None\<rparr>,
                       pr_Secret = map_option (NewSecretResult latest i) secret\<rparr>, False, d3)
               else (Inl CodeFinalizationPending, True, d3)
           | _ \<Rightarrow> (Inl CodeFinalizationPending, True, d3)))"

section \<open>Provision, rotate and revoke\<close>

definition replay_mutation ::
  "SimplifiedExecutor \<Rightarrow> svc_env \<Rightarrow> uuid \<Rightarrow> MutationInput \<Rightarrow> Action \<Rightarrow> BeginResult \<Rightarrow> MutationResult \<Rightarrow> cred_db \<Rightarrow> ProvisionResponse work" where
  "replay_mutation X E actor input action b replay d =
     (let op = be_Operation b; m = be_Metadata b; g = mu_GatewayID input; bad = (Inl CodeRecoveryRequired, True, d) in
      if be_Execute b \<or> \<not> validSimplifiedMetadata m g \<or> mr_SecretReturned replay \<or> \<not> sameSimplifiedMetadata (mr_Metadata replay) m
      then bad
      else if mr_OperationID replay = uuid_Nil then
        if action \<noteq> ActionRevoke \<or> md_Status m \<noteq> CredentialRevoked \<or> \<not> ex_CheckRevoked X g then bad
        else (case GetMetadata (se_env E 2) g (se_others E 2 d) of
            Inr latest \<Rightarrow> if sameSimplifiedMetadata latest m then (Inr (metadata_only replay), False, se_others E 2 d)
              else (Inl CodeRecoveryRequired, True, se_others E 2 d)
          | Inl _ \<Rightarrow> (Inl CodeRecoveryRequired, True, se_others E 2 d))
      else
        (case ReplayOperation op actor input m of
           Inr r \<Rightarrow> if op_ExecutionContract op = ContractSimplified \<and> r = replay then (Inr (metadata_only replay), False, d) else bad
         | Inl _ \<Rightarrow> bad))"

definition admitted_mutation :: "uuid \<Rightarrow> uuid \<Rightarrow> MutationInput \<Rightarrow> Action \<Rightarrow> BeginResult \<Rightarrow> bool" where
  "admitted_mutation i actor input action b \<longleftrightarrow>
     (let op = be_Operation b; m = be_Metadata b in
      be_Execute b \<and> Operation_Validate op = None \<and> op_ExecutionContract op = ContractSimplified \<and> op_OperationID op = i \<and>
      op_ActorUserID op = actor \<and> op_GatewayID op = mu_GatewayID input \<and> op_IdempotencyKey op = mu_IdempotencyKey input \<and>
      op_Action op = action \<and> op_Status op = OperationPending \<and> op_Phase op = PhaseIntent \<and> op_Evidence op = no_evidence \<and>
      validSimplifiedMetadata m (mu_GatewayID input) \<and> md_LastOperationID m = i \<and>
      md_CredentialVersion m = op_CredentialVersion op \<and> md_OperationStatus m = OperationPending \<and>
      BeginCredentialStatus (case op_Previous op of None \<Rightarrow> CredentialText [] | Some p \<Rightarrow> cs_Status p) action = Inr (md_Status m))"

definition verified_mutation :: "uuid \<Rightarrow> Action \<Rightarrow> exec_reply \<Rightarrow> string \<Rightarrow> bool" where
  "verified_mutation i action reply secret \<longleftrightarrow>
     (let r = er_result reply; x = xr_Evidence r in
      \<not> er_failed reply \<and> xr_OperationID r = i \<and> xr_Mutated r \<and> xr_Outcome r = ExecutionVerifiedSuccess \<and> xe_RAMApplied x \<and>
      (if action = ActionRevoke
       then xe_NativeDisabledObserved x \<and> xe_NativePersistedRoleACLObserved x \<and> Qualification_Valid (xe_Qualification x) \<and>
         \<not> xe_ProtocolDenialVerified x \<and> \<not> xe_SessionHandlingVerified x \<and> \<not> xe_FreshPositiveVerified x \<and> secret = []
       else xe_FreshPositiveVerified x \<and> \<not> xe_ProtocolDenialVerified x \<and> \<not> xe_SessionHandlingVerified x \<and>
         \<not> xe_NativeDisabledObserved x \<and> \<not> xe_NativePersistedRoleACLObserved x \<and> Qualification_IsZero (xe_Qualification x) \<and>
         validPassword secret))"

definition mutation_evidence :: "uuid \<Rightarrow> Action \<Rightarrow> SimplifiedExecutionResult \<Rightarrow> VerificationEvidence" where
  "mutation_evidence i action r =
     (if xr_OperationID r = i
      then \<lparr>RAMApplied = xe_RAMApplied (xr_Evidence r),
            SnapshotObserved = (action = ActionRevoke \<and> xe_NativePersistedRoleACLObserved (xr_Evidence r)),
            FreshPositiveVerified = xe_FreshPositiveVerified (xr_Evidence r)\<rparr>
      else no_evidence)"

definition execute_mutation ::
  "SimplifiedExecutor \<Rightarrow> svc_env \<Rightarrow> uuid \<Rightarrow> MutationInput \<Rightarrow> Action \<Rightarrow> BeginResult \<Rightarrow> cred_db \<Rightarrow> ProvisionResponse work" where
  "execute_mutation X E i input action b d =
     (let op = be_Operation b; m = be_Metadata b;
          reply = ex_Execute X op (if action = ActionRevoke then None else Some (gen_answer (se_generate E)));
          secret = (if action = ActionRevoke then [] else gen_secret (se_generate E) (er_calls reply));
          evidence = mutation_evidence i action (er_result reply) in
      if \<not> verified_mutation i action reply secret then record_failure E i op m (er_result reply) evidence d
      else finalize_and_disclose True E i (mu_GatewayID input) op m evidence
        (if action = ActionRevoke then None else Some secret) d)"

definition work_mutation ::
  "SimplifiedExecutor \<Rightarrow> svc_env \<Rightarrow> uuid \<Rightarrow> MutationInput \<Rightarrow> Action \<Rightarrow> cred_db \<Rightarrow> ProvisionResponse work" where
  "work_mutation X E actor input action d =
     (case se_NewOperationID E of None \<Rightarrow> (Inl CodeInternalError, False, d)
      | Some i \<Rightarrow>
          if i = uuid_Nil then (Inl CodeInternalError, False, d)
          else
            (case BeginSimplifiedOperation (se_env E 1) \<lparr>br_ActorUserID = actor, br_OperationID = i, br_Input = input\<rparr> (se_others E 1 d) of
               (Inl e, d1) \<Rightarrow>
                 (let (safe, code) = evaluateAdmissionError BeginResult_zero e in (Inl code, \<not> safe, d1))
             | (Inr b, d1) \<Rightarrow>
                 (case be_Replay b of
                    Some replay \<Rightarrow> replay_mutation X E actor input action b replay d1
                  | None \<Rightarrow>
                      if \<not> admitted_mutation i actor input action b then (Inl CodeRecoveryRequired, True, d1)
                      else execute_mutation X E i input action b d1)))"

text \<open>The worker lock: refused while another request holds it or once the service is poisoned.\<close>

definition single_flight :: "ProvisionService \<Rightarrow> cred_db \<Rightarrow> 'r work \<Rightarrow> (ErrorCode + 'r) \<times> ProvisionService \<times> cred_db" where
  "single_flight s d w =
     (if ps_busy s \<or> ps_poisoned s then (Inl CodeRuntimeBusy, s, d)
      else (fst w, \<lparr>ps_busy = False, ps_poisoned = fst (snd w)\<rparr>, snd (snd w)))"

definition mutateSimplified ::
  "SimplifiedExecutor \<Rightarrow> svc_env \<Rightarrow> ProvisionService \<Rightarrow> uuid \<Rightarrow> MutationInput \<Rightarrow> Action \<Rightarrow> cred_db \<Rightarrow>
     (ErrorCode + ProvisionResponse) \<times> ProvisionService \<times> cred_db" where
  "mutateSimplified X E s actor input action d =
     (if ValidateMutationInput actor input \<noteq> None \<or> mu_Action input \<noteq> action then (Inl CodeInvalidRequest, s, d)
      else if \<not> se_StartupReady E then (Inl CodeServiceUnavailable, s, d)
      else
        (case IsPlatformAdmin (se_env E 0) actor d of
           Inl e \<Rightarrow> (Inl (serviceError e), s, d)
         | Inr False \<Rightarrow> (Inl CodeForbidden, s, d)
         | Inr True \<Rightarrow> single_flight s d (work_mutation X E actor input action d)))"

definition Provision where "Provision X E s actor input d = mutateSimplified X E s actor input ActionProvision d"
definition Rotate where "Rotate X E s actor input d = mutateSimplified X E s actor input ActionRotate d"
definition Revoke :: "SimplifiedExecutor \<Rightarrow> svc_env \<Rightarrow> ProvisionService \<Rightarrow> uuid \<Rightarrow> MutationInput \<Rightarrow> cred_db \<Rightarrow>
    (ErrorCode + MutationResult) \<times> ProvisionService \<times> cred_db" where
  "Revoke X E s actor input d =
     (case mutateSimplified X E s actor input ActionRevoke d of
        (Inl e, s', d') \<Rightarrow> (Inl e, s', d') | (Inr r, s', d') \<Rightarrow> (Inr (pr_Result r), s', d'))"

definition service_Metadata :: "cred_env \<Rightarrow> cred_env \<Rightarrow> uuid \<Rightarrow> string \<Rightarrow> cred_db \<Rightarrow> ErrorCode + Metadata" where
  "service_Metadata env1 env2 actor g d =
     (if actor = uuid_Nil \<or> \<not> ValidateGatewayID g then Inl CodeInvalidRequest
      else (case IsPlatformAdmin env1 actor d of
          Inl e \<Rightarrow> Inl (serviceError e)
        | Inr False \<Rightarrow> Inl CodeForbidden
        | Inr True \<Rightarrow> (case GetMetadata env2 g d of Inl e \<Rightarrow> Inl (serviceError e) | Inr m \<Rightarrow> Inr m)))"

section \<open>Reset\<close>

definition replayResetOperation :: "Operation \<Rightarrow> uuid \<Rightarrow> ResetInput \<Rightarrow> Metadata \<Rightarrow> ErrorCode + MutationResult" where
  "replayResetOperation op actor input current =
     (if ValidateResetInput actor input \<noteq> None then Inl CodeInvalidRequest
      else if op_ActorUserID op \<noteq> actor \<or> op_IdempotencyKey op \<noteq> ri_IdempotencyKey input \<or>
        op_GatewayID op \<noteq> ri_GatewayID input \<or> op_Action op \<noteq> ActionReset \<or> op_ResetReason op \<noteq> Some (ri_Reason input)
      then Inl CodeIdempotencyConflict
      else
        (case Operation_Validate op of Some e \<Rightarrow> Inl e | None \<Rightarrow>
         if op_Status op = OperationPending then Inl CodeOperationInProgress
         else if op_Status op = OperationRecoveryNeeded then Inl CodeRecoveryRequired
         else if md_GatewayID current \<noteq> op_GatewayID op then Inl CodeInvalidRequest
         else Inr ((mutation_result current (op_OperationID op))
           \<lparr>mr_ReplayedStatus := op_Status op, mr_ErrorCode := op_ErrorCode op,
            mr_NextAction :=
              (if op_Status op = OperationSucceeded \<and> md_Status current \<noteq> CredentialRevoked then rotate_hint
               else if md_Status current = CredentialRevoked then provision_hint else [])\<rparr>)))"

definition admitted_reset :: "uuid \<Rightarrow> uuid \<Rightarrow> ResetInput \<Rightarrow> uuid \<Rightarrow> BeginResult \<Rightarrow> bool" where
  "admitted_reset i actor input predecessor b \<longleftrightarrow>
     (let op = be_Operation b; m = be_Metadata b in
      be_Execute b \<and> Operation_Validate op = None \<and> op_ExecutionContract op = ContractSimplified \<and> op_OperationID op = i \<and>
      op_ActorUserID op = actor \<and> op_GatewayID op = ri_GatewayID input \<and> op_IdempotencyKey op = ri_IdempotencyKey input \<and>
      op_Action op = ActionReset \<and> op_Status op = OperationPending \<and> op_Phase op = PhaseIntent \<and> op_Evidence op = no_evidence \<and>
      op_ResetReason op = Some (ri_Reason input) \<and> op_ResetPredecessorID op = Some predecessor \<and>
      validSimplifiedMetadata m (ri_GatewayID input) \<and> md_LastOperationID m = i \<and>
      md_CredentialVersion m = op_CredentialVersion op \<and> md_OperationStatus m = OperationPending \<and>
      md_Status m = CredentialRotating)"

definition verified_reset :: "uuid \<Rightarrow> exec_reply \<Rightarrow> string \<Rightarrow> bool" where
  "verified_reset i reply secret \<longleftrightarrow>
     (let r = er_result reply; x = xr_Evidence r in
      \<not> er_failed reply \<and> xr_OperationID r = i \<and> xr_Mutated r \<and> xr_Outcome r = ExecutionVerifiedSuccess \<and> xe_RAMApplied x \<and>
      xe_FreshPositiveVerified x \<and> \<not> xe_ProtocolDenialVerified x \<and> \<not> xe_SessionHandlingVerified x \<and> validPassword secret)"

definition reset_evidence :: "uuid \<Rightarrow> SimplifiedExecutionResult \<Rightarrow> VerificationEvidence" where
  "reset_evidence i r =
     (if xr_OperationID r = i
      then \<lparr>RAMApplied = xe_RAMApplied (xr_Evidence r), SnapshotObserved = False,
            FreshPositiveVerified = xe_FreshPositiveVerified (xr_Evidence r)\<rparr>
      else no_evidence)"

definition execute_reset :: "SimplifiedExecutor \<Rightarrow> svc_env \<Rightarrow> uuid \<Rightarrow> ResetInput \<Rightarrow> BeginResult \<Rightarrow> cred_db \<Rightarrow> ProvisionResponse work" where
  "execute_reset X E i input b d =
     (let op = be_Operation b; m = be_Metadata b;
          reply = ex_Execute X op (Some (gen_answer (se_generate E)));
          secret = gen_secret (se_generate E) (er_calls reply);
          evidence = reset_evidence i (er_result reply) in
      if \<not> verified_reset i reply secret then record_failure E i op m (er_result reply) evidence d
      else finalize_and_disclose False E i (ri_GatewayID input) op m evidence (Some secret) d)"

definition begin_reset_work ::
  "SimplifiedExecutor \<Rightarrow> svc_env \<Rightarrow> uuid \<Rightarrow> ResetInput \<Rightarrow> uuid \<Rightarrow> OperationGuard \<Rightarrow> cred_db \<Rightarrow> ProvisionResponse work" where
  "begin_reset_work X E actor input predecessor guard d =
     (case se_NewOperationID E of None \<Rightarrow> (Inl CodeInternalError, False, d)
      | Some i \<Rightarrow>
          if i = uuid_Nil then (Inl CodeInternalError, False, d)
          else
            (case BeginReset (se_env E 1) \<lparr>rq_ActorUserID = actor, rq_OperationID = i, rq_Input = input,
                rq_ExpectedPredecessorID = predecessor, rq_ExpectedTargetGuard = Some guard\<rparr> (se_others E 1 d) of
               (Inl e, d1) \<Rightarrow>
                 (let (safe, code) = evaluateAdmissionError BeginResult_zero e in (Inl code, \<not> safe, d1))
             | (Inr b, d1) \<Rightarrow>
                 (case be_Replay b of
                    Some replay \<Rightarrow>
                      if be_Execute b \<or> \<not> validSimplifiedMetadata (be_Metadata b) (ri_GatewayID input) \<or> mr_SecretReturned replay \<or>
                        \<not> sameSimplifiedMetadata (mr_Metadata replay) (be_Metadata b) \<or>
                        replayResetOperation (be_Operation b) actor input (be_Metadata b) \<noteq> Inr replay \<or>
                        op_ExecutionContract (be_Operation b) \<noteq> ContractSimplified
                      then (Inl CodeRecoveryRequired, True, d1)
                      else (Inr (metadata_only replay), False, d1)
                  | None \<Rightarrow>
                      if \<not> admitted_reset i actor input predecessor b then (Inl CodeRecoveryRequired, True, d1)
                      else execute_reset X E i input b d1)))"

definition work_reset :: "SimplifiedExecutor \<Rightarrow> svc_env \<Rightarrow> uuid \<Rightarrow> ResetInput \<Rightarrow> cred_db \<Rightarrow> ProvisionResponse work" where
  "work_reset X E actor input d =
     (let d1 = se_others E 7 d; d2 = se_others E 8 d1 in
      case GetMetadata (se_env E 7) (ri_GatewayID input) d1 of
        Inl e \<Rightarrow> (Inl (serviceError e), True, d1)
      | Inr m \<Rightarrow>
          if \<not> validSimplifiedMetadata m (ri_GatewayID input) then (Inl CodeRecoveryRequired, True, d1)
          else
            (case ResolveCommitAmbiguity (se_env E 8) (md_LastOperationID m) d2 of
               Inl e \<Rightarrow> (Inl (serviceError e), True, d2)
             | Inr pred \<Rightarrow>
                 if op_GatewayID pred \<noteq> ri_GatewayID input \<or> op_ExecutionContract pred \<noteq> ContractSimplified
                 then (Inl CodeRecoveryRequired, True, d2)
                 else
                   (case CheckResetEligibility m pred (ri_Reason input) of
                      Some e \<Rightarrow> (Inl e, False, d2)
                    | None \<Rightarrow>
                        (case se_Prerequisite E of
                           Some e \<Rightarrow> (Inl (serviceError e), False, d2)
                         | None \<Rightarrow> begin_reset_work X E actor input (md_LastOperationID m) (operationGuard pred m) d2))))"

definition poisoned_by :: "bool \<Rightarrow> ProvisionService \<Rightarrow> ProvisionService" where
  "poisoned_by p s = s\<lparr>ps_poisoned := ps_poisoned s \<or> p\<rparr>"

definition Reset ::
  "SimplifiedExecutor \<Rightarrow> svc_env \<Rightarrow> ProvisionService \<Rightarrow> uuid \<Rightarrow> ResetInput \<Rightarrow> cred_db \<Rightarrow>
     (ErrorCode + ProvisionResponse) \<times> ProvisionService \<times> cred_db" where
  "Reset X E s actor input d =
     (if ValidateResetInput actor input \<noteq> None then (Inl CodeInvalidRequest, s, d)
      else if \<not> se_StartupReady E then (Inl CodeServiceUnavailable, s, d)
      else
        (case IsPlatformAdmin (se_env E 0) actor d of
           Inl e \<Rightarrow> (Inl (serviceError e), s, d)
         | Inr False \<Rightarrow> (Inl CodeForbidden, s, d)
         | Inr True \<Rightarrow>
             (let d1 = se_others E 9 d in
              case LookupResetReplay (se_env E 9) actor input d1 of
                Inl e \<Rightarrow> (Inl (serviceError e), s, d1)
              | Inr (Some (op, m)) \<Rightarrow>
                  if \<not> validSimplifiedMetadata m (ri_GatewayID input) then (Inl CodeRecoveryRequired, poisoned_by True s, d1)
                  else
                    (case replayResetOperation op actor input m of
                       Inl _ \<Rightarrow> (Inl CodeRecoveryRequired, poisoned_by True s, d1)
                     | Inr replay \<Rightarrow>
                         if op_ExecutionContract op \<noteq> ContractSimplified then (Inl CodeRecoveryRequired, poisoned_by True s, d1)
                         else (Inr (metadata_only replay), s, d1))
              | Inr None \<Rightarrow> single_flight s d1 (work_reset X E actor input d1))))"

section \<open>Which admission errors are safe\<close>

text \<open>The specification of the walk: every leaf a safe code, no empty join, at most 64 nodes.\<close>

fun nodes :: "cred_error \<Rightarrow> nat" and nodes_list :: "cred_error list \<Rightarrow> nat" where
  "nodes (WrapError e) = Suc (nodes e)"
| "nodes (JoinError es) = Suc (nodes_list es)"
| "nodes _ = 1"
| "nodes_list [] = 0"
| "nodes_list (e # es) = nodes e + nodes_list es"

fun safe_tree :: "cred_error \<Rightarrow> bool" and safe_trees :: "cred_error list \<Rightarrow> bool" where
  "safe_tree (DomainError c) = safe_code c"
| "safe_tree (WrapError e) = safe_tree e"
| "safe_tree (JoinError es) = (es \<noteq> [] \<and> safe_trees es)"
| "safe_tree _ = False"
| "safe_trees [] = True"
| "safe_trees (e # es) = (safe_tree e \<and> safe_trees es)"

fun leaf_codes :: "cred_error \<Rightarrow> ErrorCode list" and leaf_codes_list :: "cred_error list \<Rightarrow> ErrorCode list" where
  "leaf_codes (DomainError c) = [c]"
| "leaf_codes (WrapError e) = leaf_codes e"
| "leaf_codes (JoinError es) = leaf_codes_list es"
| "leaf_codes _ = []"
| "leaf_codes_list [] = []"
| "leaf_codes_list (e # es) = leaf_codes e @ leaf_codes_list es"

definition first_code :: "ErrorCode option \<Rightarrow> ErrorCode list \<Rightarrow> ErrorCode option" where
  "first_code first cs = (if first = None then (case cs of [] \<Rightarrow> None | c # _ \<Rightarrow> Some c) else first)"

lemma nodes_pos: "0 < nodes e"
  by (cases e) auto

lemma length_nodes: "length es \<le> nodes_list es"
proof (induction es)
  case (Cons e es) then show ?case using nodes_pos [of e] by simp
qed simp

lemma traverse_spec:
  "traverse e (b, f) = (if safe_tree e \<and> int (nodes e) \<le> b then Some (b - int (nodes e), first_code f (leaf_codes e)) else None)"
  "traverse_list es (b, f) = (if safe_trees es \<and> int (nodes_list es) \<le> b \<or> es = [] then Some (b - int (nodes_list es), first_code f (leaf_codes_list es)) else None)"
proof (induction e and es arbitrary: b f and b f rule: nodes_nodes_list.induct)
  case (2 es)
  have "length es \<le> nodes_list es" by (rule length_nodes)
  then show ?case using 2 by auto
next
  case (5 e es)
  have "0 < nodes e" by (rule nodes_pos)
  then show ?case using 5 by (cases es) (auto simp: first_code_def split: list.splits)
qed (auto simp: first_code_def)

end
