(* ===== verification/CredentialTheorems.thy ===== *)
theory CredentialTheorems
  imports CredentialInvariant
begin

text \<open>
  The properties of the credential journal: it always satisfies what the database's deferred
  triggers check, versions are never reused, history is append-only, and two situations from which
  the repository's own operations offer no way out. The last section holds the concrete journal the
  witnesses evaluate.
\<close>

section \<open>A concrete journal\<close>

definition ok_env :: "time \<Rightarrow> cred_env" where
  "ok_env t = \<lparr>ce_fault = (\<lambda>_. False), ce_commit_applied = True, ce_now = t\<rparr>"

definition j0 :: cred_db where
  "j0 = \<lparr>cd_gateways = [''gw-1''], cd_admins = [7], cd_credentials = Map.empty, cd_events = [], cd_maintenance = [],
     cd_recovery = [], cd_replacements = [], cd_dispositions = []\<rparr>"

definition mutation :: "Action \<Rightarrow> uuid \<Rightarrow> uuid \<Rightarrow> BeginRequest" where
  "mutation action key i = \<lparr>br_ActorUserID = 7, br_OperationID = i,
     br_Input = \<lparr>mu_GatewayID = ''gw-1'', mu_IdempotencyKey = key, mu_Action = action\<rparr>\<rparr>"

definition reset_of :: "uuid \<Rightarrow> uuid \<Rightarrow> BeginResetRequest" where
  "reset_of key i = \<lparr>rq_ActorUserID = 7, rq_OperationID = i,
     rq_Input = \<lparr>ri_GatewayID = ''gw-1'', ri_IdempotencyKey = key, ri_Reason = ResetReasonRecoveryAfterUnknown\<rparr>,
     rq_ExpectedPredecessorID = uuid_Nil, rq_ExpectedTargetGuard = None\<rparr>"

text \<open>The update the service proposes for the operation \<open>i\<close>.\<close>

definition proposal :: "uuid \<Rightarrow> ExecutionOutcome \<Rightarrow> VerificationEvidence \<Rightarrow> time \<Rightarrow> cred_db \<Rightarrow> OperationUpdate option" where
  "proposal i outcome evidence t d =
     (case (event_by_id d i, metadata_row d ''gw-1'') of
        (Some e, Some m) \<Rightarrow>
          (case CompleteOperation (event_operation e) outcome evidence t of
             Inr c \<Rightarrow> Some \<lparr>ou_Guard = operationGuard (event_operation e) m, ou_Completion = c\<rparr>
           | Inl _ \<Rightarrow> None)
      | _ \<Rightarrow> None)"

definition full_evidence :: VerificationEvidence where
  "full_evidence = \<lparr>RAMApplied = True, SnapshotObserved = True, FreshPositiveVerified = True\<rparr>"

definition j_begin :: "Action \<Rightarrow> uuid \<Rightarrow> uuid \<Rightarrow> time \<Rightarrow> cred_db \<Rightarrow> cred_db" where
  "j_begin action key i t d = snd (BeginSimplifiedOperation (ok_env t) (mutation action key i) d)"

definition j_reset :: "uuid \<Rightarrow> uuid \<Rightarrow> time \<Rightarrow> cred_db \<Rightarrow> cred_db" where
  "j_reset key i t d = snd (BeginReset (ok_env t) (reset_of key i) d)"

definition j_complete :: "uuid \<Rightarrow> ExecutionOutcome \<Rightarrow> VerificationEvidence \<Rightarrow> time \<Rightarrow> cred_db \<Rightarrow> cred_db" where
  "j_complete i outcome evidence t d =
     (case proposal i outcome evidence t d of None \<Rightarrow> d | Some u \<Rightarrow> snd (complete (ok_env t) u outcome d))"

text \<open>Provisioned, revoked, provisioned again with an uncertain outcome.\<close>

definition j_revoked :: cred_db where
  "j_revoked = j_complete 12 ExecutionVerifiedSuccess full_evidence 5000000
     (j_begin ActionRevoke 22 12 4000000
     (j_complete 11 ExecutionVerifiedSuccess full_evidence 3000000 (j_begin ActionProvision 21 11 2000000 j0)))"

definition j_uncertain :: cred_db where
  "j_uncertain = j_complete 13 ExecutionRecoveryRequired no_evidence 7000000 (j_begin ActionProvision 23 13 6000000 j_revoked)"

text \<open>A first provisioning interrupted, reset, and the reset failed without touching the broker.\<close>

definition j_failed_reset :: cred_db where
  "j_failed_reset = j_complete 14 ExecutionUnchangedFailure no_evidence 4000000
     (j_reset 24 14 3000000 (j_begin ActionProvision 21 11 2000000 j0))"

text \<open>These journals are reachable.\<close>

lemma j_reach:
  "journal.reach j0"
  "1000 \<le> t \<Longrightarrow> journal.reach d \<Longrightarrow> journal.reach (j_begin action key i t d)"
  "1000 \<le> t \<Longrightarrow> journal.reach d \<Longrightarrow> journal.reach (j_reset key i t d)"
  "outcome \<in> {ExecutionVerifiedSuccess, ExecutionUnchangedFailure, ExecutionRecoveryRequired} \<Longrightarrow> journal.reach d \<Longrightarrow>
     journal.reach (j_complete i outcome evidence t d)"
proof -
  show "journal.reach j0" by (rule journal.reach_init) (simp add: journal_init_def j0_def)
  show "1000 \<le> t \<Longrightarrow> journal.reach d \<Longrightarrow> journal.reach (j_begin action key i t d)"
    unfolding j_begin_def by (rule journal.reach_step, assumption, rule step_begin [where env = "ok_env t"], simp add: ok_env_def, rule surjective_pairing)
  show "1000 \<le> t \<Longrightarrow> journal.reach d \<Longrightarrow> journal.reach (j_reset key i t d)"
    unfolding j_reset_def by (rule journal.reach_step, assumption, rule step_reset [where env = "ok_env t"], simp add: ok_env_def, rule surjective_pairing)
  show "journal.reach (j_complete i outcome evidence t d)"
    if "outcome \<in> {ExecutionVerifiedSuccess, ExecutionUnchangedFailure, ExecutionRecoveryRequired}" "journal.reach d"
  proof (cases "proposal i outcome evidence t d")
    case None then show ?thesis using that(2) by (simp add: j_complete_def)
  next
    case (Some u)
    have "journal_step d (snd (complete (ok_env t) u outcome d))"
      using that(1) step_finalize step_fail step_recovery
      unfolding ConditionalFinalize_def FailKnown_def RequireRecovery_def by (metis empty_iff insert_iff prod.collapse)
    then show ?thesis using Some that(2) by (simp add: j_complete_def journal.reach_step)
  qed
qed

lemma j_reachable: "journal.reach j_revoked" "journal.reach j_uncertain" "journal.reach j_failed_reset"
  by (simp_all add: j_revoked_def j_uncertain_def j_failed_reset_def j_reach)

section \<open>Consistency\<close>

text \<open>C34. The journal always satisfies what the database demands at commit. After any sequence of
  repository transactions, by any number of processes and with any failures and ambiguous commits:
  the credential row of a Gateway agrees in status, version, timestamps and error code with its last
  operation, as \<open>validate_mqtt_projection_authority\<close> checks, a success having its proof; and, as
  \<open>validate_mqtt_replacement_inventory\<close> checks, reset dispositions have both their operations, the
  current operation is not superseded, and at most one effective operation is open, the current one.\<close>

theorem credential_journal_consistent:
  assumes "journal.reach d" and "cd_credentials d g = Some c"
  shows "validate_mqtt_projection_authority d g \<and> validate_mqtt_replacement_inventory d g"
proof
  have inv: "journal_inv d" by (rule journal_reach_inv [OF assms(1)])
  obtain e where e: "e \<in> set (cd_events d)" "ev_gateway_id e = g" "cr_last_operation_id c = Some (ev_operation_id e)"
      "cr_changed_by c = ev_actor_user_id e" "mqtt_operation_effective d (ev_operation_id e)" "projected (ev_status e) e = Some (row_projection c)"
    using journal_invD(4) [OF inv assms(2)] by (auto simp: current_ok_def)
  have ok: "event_ok e" by (rule journal_invD(2) [OF inv e(1)])
  have lk: "event_of_gateway d (ev_operation_id e) g = Some e" using event_lookup(2) [OF inv e(1)] e(2) by simp
  have "ev_status e = OperationSucceeded \<longrightarrow> proved e"
    using ok by (auto simp: event_ok_def ValidateHistorical_None proved_def success_unproved_def event_operation_def)
  moreover have "cd_maintenance d = []" "cd_recovery d = []" using inv by (auto simp: journal_inv_def)
  ultimately show "validate_mqtt_projection_authority d g"
    using assms(2) e lk ok by (simp add: validate_mqtt_projection_authority_def event_authority_def event_ok_def)
  have cur: "current_operation d g = Some (ev_operation_id e)" using assms(2) e(3) by (simp add: current_operation_def)
  have all_cur: "current_operation d g = Some (ev_operation_id a)" if "a \<in> set (unresolved_events d g)" for a
    using that journal_invD(6) [OF inv, of a] by (auto simp: unresolved_events_def is_open_def)
  let ?us = "filter (\<lambda>e. \<not> ev_legacy_projection e) (unresolved_events d g)"
  have "distinct (map ev_operation_id ?us)"
    using journal_invD(1) [OF inv] by (simp add: unresolved_events_def distinct_map_filter)
  moreover have "set (map ev_operation_id ?us) \<subseteq> {ev_operation_id e}" using all_cur cur by auto
  ultimately have "length (map ev_operation_id ?us) \<le> 1"
    by (metis card_mono distinct_card finite.emptyI finite_insert is_singletonI is_singleton_altdef)
  moreover have "event_of_gateway d (di_predecessor_id x) g \<noteq> None \<and> event_of_gateway d (di_successor_id x) g \<noteq> None"
    if x: "x \<in> set (cd_dispositions d)" "di_gateway_id x = g" for x
  proof -
    obtain a b where "a \<in> set (cd_events d)" "ev_operation_id a = di_predecessor_id x" "ev_gateway_id a = g"
      "b \<in> set (cd_events d)" "ev_operation_id b = di_successor_id x" "ev_gateway_id b = g"
      using journal_invD(5) [OF inv x(1)] x(2) by (auto simp: disposition_ok_def)
    then show ?thesis using event_lookup(2) [OF inv] by (metis option.distinct(1))
  qed
  moreover have "ev_execution_contract a = ContractSimplified" if "a \<in> set (unresolved_events d g)" for a
    using that journal_invD(2) [OF inv, of a] by (simp add: unresolved_events_def event_ok_def)
  moreover have "cd_maintenance d = []" using inv by (simp add: journal_inv_def)
  ultimately show "validate_mqtt_replacement_inventory d g"
    using cur e(5) all_cur by (simp add: validate_mqtt_replacement_inventory_def list_all_iff)
qed

theorem credential_journal_consistent_witness:
  "journal.reach j_uncertain \<and> cd_credentials j_uncertain ''gw-1'' \<noteq> None \<and>
   validate_mqtt_projection_authority j_uncertain ''gw-1'' \<and> validate_mqtt_replacement_inventory j_uncertain ''gw-1''"
proof -
  have "cd_credentials j_uncertain ''gw-1'' \<noteq> None" by code_simp
  then show ?thesis using credential_journal_consistent [OF j_reachable(2)] j_reachable(2) by auto
qed

text \<open>C35. Credential versions and identities are never reused. In every reachable journal a later
  password-issuing operation of a Gateway has a strictly larger version than every operation of this
  Gateway recorded before it, failed and superseded attempts included; operation identifiers are
  unique; and no two operations carry the same actor and idempotency key.\<close>

theorem credential_versions_increase:
  assumes "journal.reach d" and "i < j" "j < length (cd_events d)"
  defines "a \<equiv> cd_events d ! i" and "b \<equiv> cd_events d ! j"
  shows "ev_operation_id a \<noteq> ev_operation_id b \<and> \<not> same_key a b \<and>
    (ev_gateway_id a = ev_gateway_id b \<and> ev_action b \<noteq> ActionRevoke \<longrightarrow> ev_version a < ev_version b)"
proof -
  have inv: "journal_inv d" by (rule journal_reach_inv [OF assms(1)])
  have "ev_operation_id a \<noteq> ev_operation_id b"
    using journal_invD(1) [OF inv] assms(2,3) unfolding a_def b_def by (simp add: distinct_conv_nth)
  moreover have "\<not> same_key a b" "newer a b"
    using inv assms(2,3) unfolding journal_inv_def a_def b_def by (auto dest: sorted_wrt_nth_less)
  ultimately show ?thesis by (simp add: newer_def)
qed

theorem credential_versions_increase_witness:
  "journal.reach j_failed_reset \<and> length (cd_events j_failed_reset) = 2 \<and>
   ev_version (cd_events j_failed_reset ! 0) < ev_version (cd_events j_failed_reset ! 1)"
proof -
  have l: "length (cd_events j_failed_reset) = 2" by code_simp
  have "ev_gateway_id (cd_events j_failed_reset ! 0) = ev_gateway_id (cd_events j_failed_reset ! 1) \<and>
    ev_action (cd_events j_failed_reset ! 1) \<noteq> ActionRevoke" by code_simp
  then show ?thesis using credential_versions_increase [OF j_reachable(3), of 0 1] l j_reachable(3) by simp
qed

section \<open>History\<close>

text \<open>C37. The journal is append-only. A step never removes or reorders operations: every recorded
  operation keeps its place, identifier, Gateway, key, action, version, previous state, contract and
  reset link; a finished one keeps its status, phase, evidence, times and error code as well, whatever
  is done later, except that its actor is erased when that user is deleted.\<close>

theorem credential_history_append_only:
  assumes "journal.reach d" and "journal_step d d'"
  shows "list_all2 kept (cd_events d) (take (length (cd_events d)) (cd_events d'))"
  by (rule journal_step_kept [OF journal_reach_inv [OF assms(1)] assms(2)])

theorem credential_history_append_only_witness:
  "journal.reach j_uncertain \<and> journal_step j_uncertain (delete_profile 7 j_uncertain) \<and>
   list_all2 kept (cd_events j_uncertain) (take 3 (cd_events (delete_profile 7 j_uncertain)))"
proof -
  have l: "length (cd_events j_uncertain) = 3" by code_simp
  show ?thesis
    using credential_history_append_only [OF j_reachable(2) step_delete [where a = 7]] j_reachable(2) step_delete l by metis
qed

section \<open>Dead ends\<close>

text \<open>
  A Gateway whose last operation is recorded as failed while its credential is in a transient or
  recovery state. A reset for an interrupted operation leads here when it fails without changing the
  broker: the completion puts the credential back into the state before the reset.
\<close>

definition stranded :: "cred_db \<Rightarrow> string \<Rightarrow> bool" where
  "stranded d g \<longleftrightarrow> (\<exists>c e. cd_credentials d g = Some c \<and> event_of_gateway d (ev_operation_id e) g = Some e \<and>
     cr_last_operation_id c = Some (ev_operation_id e) \<and> ev_status e = OperationFailed \<and>
     cr_status c \<in> {CredentialProvisioning, CredentialRotating, CredentialRevoking, CredentialRecoveryNeeded})"

definition unowned :: "credential_row \<Rightarrow> credential_row" where
  "unowned c = c\<lparr>cr_changed_by := None\<rparr>"

lemma strandedE:
  assumes "stranded d g"
  obtains c e where "cd_credentials d g = Some c" "e \<in> set (cd_events d)" "ev_gateway_id e = g"
    "cr_last_operation_id c = Some (ev_operation_id e)" "ev_status e = OperationFailed"
    "cr_status c \<in> {CredentialProvisioning, CredentialRotating, CredentialRevoking, CredentialRecoveryNeeded}"
  using assms unfolding stranded_def by (metis event_of_gateway_Some(1,3))

lemma strandedI:
  assumes "journal_inv d" and "cd_credentials d g = Some c" "e \<in> set (cd_events d)" "ev_gateway_id e = g"
    "cr_last_operation_id c = Some (ev_operation_id e)" "ev_status e = OperationFailed"
    "cr_status c \<in> {CredentialProvisioning, CredentialRotating, CredentialRevoking, CredentialRecoveryNeeded}"
  shows "stranded d g"
  using assms event_lookup(2) [OF assms(1,3)] unfolding stranded_def by metis

text \<open>No transaction admits or completes anything for such a Gateway.\<close>

lemma stranded_no_begin:
  assumes "stranded d g" and "begin_guards env req version status d"
  shows "mu_GatewayID (br_Input req) \<noteq> g"
proof
  assume g: "mu_GatewayID (br_Input req) = g"
  obtain c where c: "cd_credentials d g = Some c"
    "cr_status c \<in> {CredentialProvisioning, CredentialRotating, CredentialRevoking, CredentialRecoveryNeeded}"
    using strandedE [OF assms(1)] by metis
  have "BeginCredentialStatus (cr_status c) (mu_Action (br_Input req)) = Inr status"
    using assms(2) c(1) g by (simp add: begin_guards_def Let_def db_metadata_def metadata_row_def)
  then show False using BeginCredentialStatus_Inr c(2) by fastforce
qed

lemma stranded_no_reset:
  assumes "journal_inv d" and "stranded d g" and "reset_guards env req m p version c d"
  shows "ri_GatewayID (rq_Input req) \<noteq> g"
proof
  assume g: "ri_GatewayID (rq_Input req) = g"
  note G = assms(3) [unfolded reset_guards_def Let_def g]
  obtain e where e: "e \<in> set (cd_events d)" "cr_last_operation_id c = Some (ev_operation_id e)" "ev_status e = OperationFailed"
    using strandedE [OF assms(2)] G by (metis option.inject)
  have "p \<in> set (cd_events d)" "ev_operation_id p = ev_operation_id e" using G e(2) event_of_gateway_Some(1) by auto
  then have "p = e" using event_unique [OF assms(1) _ e(1)] by blast
  then have "op_Status (event_operation p) = OperationFailed" using e(3) by (simp add: event_operation_def)
  moreover have "CheckResetEligibility m (event_operation p) (ri_Reason (rq_Input req)) = None" using G by simp
  ultimately show False
    by (auto simp: CheckResetEligibility_def Let_def split: option.splits if_splits ResetReason.splits)
qed

lemma stranded_no_completion:
  assumes "journal_inv d" and "stranded d g" and "complete_guards outcome u p x c d"
  shows "ev_gateway_id p \<noteq> g"
proof
  assume g: "ev_gateway_id p = g"
  note G = assms(3) [unfolded complete_guards_def Let_def g]
  obtain e where e: "e \<in> set (cd_events d)" "cr_last_operation_id c = Some (ev_operation_id e)" "ev_status e = OperationFailed"
    using strandedE [OF assms(2)] G by (metis option.inject)
  have "p = e" using event_unique [OF assms(1) _ e(1)] G e(2) by auto
  then show False using G e(3) by (simp add: Terminal_def event_operation_def)
qed

lemma other_gateway_frame:
  assumes "journal_inv d" and "stranded d g" and "journal_inv d'" and "cd_credentials d' g = cd_credentials d g"
    and "\<And>e. e \<in> set (cd_events d) \<Longrightarrow> ev_gateway_id e = g \<Longrightarrow> e \<in> set (cd_events d')"
  shows "stranded d' g \<and> map_option unowned (cd_credentials d' g) = map_option unowned (cd_credentials d g)"
  using strandedE [OF assms(2)] strandedI [OF assms(3)] assms(4,5) by metis

lemma stranded_completion:
  assumes inv: "journal_inv d" and s: "stranded d g" and inv': "journal_inv d'" and c: "complete env u outcome d = (r, d')"
  shows "stranded d' g \<and> map_option unowned (cd_credentials d' g) = map_option unowned (cd_credentials d g)"
  using c
proof (cases rule: complete_effect)
  case (completion e x c)
  have g: "ev_gateway_id e \<noteq> g" by (rule stranded_no_completion [OF inv s completion(1)])
  have "e \<in> set (cd_events d)" using completion(1) by (simp add: complete_guards_def Let_def)
  then have "ev_operation_id a \<noteq> ev_operation_id e" if "a \<in> set (cd_events d)" "ev_gateway_id a = g" for a
    using event_unique [OF inv] that g by metis
  then show ?thesis
    by (intro other_gateway_frame [OF inv s inv']) (use g completion(2) in \<open>force simp: write_completion_def\<close>)+
qed (use s in simp)

lemma stranded_step:
  assumes inv: "journal_inv d" and s: "stranded d g" and st: "journal_step d d'"
  shows "stranded d' g \<and> map_option unowned (cd_credentials d' g) = map_option unowned (cd_credentials d g)"
  using st
proof cases
  case (step_begin env req r)
  note inv' = journal_step_inv [OF st inv]
  from step_begin(2) show ?thesis
  proof (cases rule: BeginSimplifiedOperation_effect)
    case (intent version status)
    show ?thesis using stranded_no_begin [OF s intent(1)]
      by (intro other_gateway_frame [OF inv s inv']) (auto simp: intent(2) write_intent_def)
  qed (use s in simp_all)
next
  case (step_reset env rreq r)
  note inv' = journal_step_inv [OF st inv]
  from step_reset(2) show ?thesis
  proof (cases rule: BeginReset_effect)
    case (intent m e version c)
    show ?thesis using stranded_no_reset [OF inv s intent(1)]
      by (intro other_gateway_frame [OF inv s inv']) (auto simp: intent(2) write_reset_def write_intent_def)
  qed (use s in simp_all)
next
  case (step_delete a)
  obtain c e where c: "cd_credentials d g = Some c" "e \<in> set (cd_events d)" "ev_gateway_id e = g"
    "cr_last_operation_id c = Some (ev_operation_id e)" "ev_status e = OperationFailed"
    "cr_status c \<in> {CredentialProvisioning, CredentialRotating, CredentialRevoking, CredentialRecoveryNeeded}"
    using strandedE [OF s] by metis
  have "stranded d' g"
    by (rule strandedI [OF journal_step_inv [OF st inv], of g "drop_changed_by a c" "drop_actor a e"])
      (use c step_delete in \<open>auto simp: delete_profile_def drop_changed_by_def\<close>)
  then show ?thesis using c(1) step_delete by (simp add: delete_profile_def drop_changed_by_def unowned_def)
qed (use s stranded_completion [OF inv s journal_step_inv [OF st inv]] in
    \<open>auto simp: ConditionalFinalize_def FailKnown_def RequireRecovery_def stranded_def event_of_gateway_def\<close>)

text \<open>C40. A failed reset of an interrupted operation is final. When the last operation of a Gateway is
  recorded as failed while its credential is in a transient or recovery state, no sequence of
  repository transactions ever changes the credential again: provisioning, rotation and revocation
  are refused because of the credential's state, a reset because the last operation is neither open
  nor succeeded, and a completion because it is finished. Only the link to a deleted user goes away.\<close>

theorem failed_reset_is_final:
  assumes "journal.reach d" and "stranded d g" and "journal_step\<^sup>*\<^sup>* d d'"
  shows "stranded d' g \<and> map_option unowned (cd_credentials d' g) = map_option unowned (cd_credentials d g)"
  using assms(3)
proof (induction rule: rtranclp_induct)
  case base then show ?case using assms(2) by simp
next
  case (step y z)
  then show ?case using stranded_step [OF journal_reach_inv [OF journal.reach_steps [OF step(1) assms(1)]] _ step(2), of g] by simp
qed

theorem failed_reset_is_final_witness:
  "\<exists>d'. journal.reach j_failed_reset \<and> stranded j_failed_reset ''gw-1'' \<and>
     journal_step\<^sup>*\<^sup>* j_failed_reset d' \<and> d' = j_reset 25 15 9000000 j_failed_reset \<and> stranded d' ''gw-1''"
proof -
  have e: "cd_events j_failed_reset ! 1 \<in> set (cd_events j_failed_reset)" by code_simp
  have s: "stranded j_failed_reset ''gw-1''"
    by (rule strandedI [OF journal_reach_inv [OF j_reachable(3)] _ e, of _ "the (cd_credentials j_failed_reset ''gw-1'')"]; code_simp)
  have st: "journal_step\<^sup>*\<^sup>* j_failed_reset (j_reset 25 15 9000000 j_failed_reset)" unfolding j_reset_def
    by (rule r_into_rtranclp, rule step_reset [where env = "ok_env 9000000"], simp add: ok_env_def, rule surjective_pairing)
  show ?thesis using failed_reset_is_final [OF j_reachable(3) s st] j_reachable(3) s st by blast
qed

text \<open>A reset cannot be admitted while the credential row has a revocation time. The update of
  \<open>BeginReset\<close> sets the status to rotating and leaves \<open>revoked_at\<close> alone, which the table refuses for a
  rotating credential; so whatever the request, the tables stay as they are and nothing is executed.
  A credential provisioned again after a revocation is in this state once the outcome of that
  operation is uncertain, although the eligibility check allows its reset.\<close>

theorem reset_refused_while_revoked_at:
  assumes "cd_credentials d (ri_GatewayID (rq_Input req)) = Some c" and "cr_revoked_at c \<noteq> None"
    and "BeginReset env req d = (r, d')"
  shows "d' = d \<and> (\<forall>b. r = Inr b \<longrightarrow> \<not> be_Execute b)"
  using assms(3)
proof (cases rule: BeginReset_effect)
  case (intent m e version c')
  then show ?thesis using assms(1,2) by (auto simp: reset_guards_def Let_def timestamps_check_def reset_credential_def)
qed auto

theorem reset_refused_while_revoked_at_witness:
  "\<exists>r d' m e c. journal.reach j_uncertain \<and> metadata_row j_uncertain ''gw-1'' = Some m \<and> event_by_id j_uncertain 13 = Some e \<and>
     CheckResetEligibility m (event_operation e) ResetReasonRecoveryAfterUnknown = None \<and>
     cd_credentials j_uncertain ''gw-1'' = Some c \<and> cr_revoked_at c \<noteq> None \<and>
     BeginReset (ok_env 9000000) (reset_of 25 15) j_uncertain = (r, d') \<and> d' = j_uncertain \<and> r = Inl (DomainError CodeServiceUnavailable)"
proof -
  have A: "case (metadata_row j_uncertain ''gw-1'', event_by_id j_uncertain 13, cd_credentials j_uncertain ''gw-1'') of
      (Some m, Some e, Some c) \<Rightarrow> CheckResetEligibility m (event_operation e) ResetReasonRecoveryAfterUnknown = None \<and> cr_revoked_at c \<noteq> None
    | _ \<Rightarrow> False" by code_simp
  obtain m e c where mec: "metadata_row j_uncertain ''gw-1'' = Some m" "event_by_id j_uncertain 13 = Some e"
      "cd_credentials j_uncertain ''gw-1'' = Some c" "CheckResetEligibility m (event_operation e) ResetReasonRecoveryAfterUnknown = None"
      "cr_revoked_at c \<noteq> None"
    using A by (auto split: option.splits)
  obtain r d' where r: "BeginReset (ok_env 9000000) (reset_of 25 15) j_uncertain = (r, d')" by (rule prod.exhaust)
  have "fst (BeginReset (ok_env 9000000) (reset_of 25 15) j_uncertain) = Inl (DomainError CodeServiceUnavailable)" by code_simp
  then have "r = Inl (DomainError CodeServiceUnavailable)" using r by simp
  moreover have "d' = j_uncertain"
    using reset_refused_while_revoked_at [OF _ mec(5) r] mec(3) by (simp add: reset_of_def)
  ultimately show ?thesis using j_reachable(2) mec r by blast
qed

end
