(* ===== verification/CredentialDisclosure.thy ===== *)
theory CredentialDisclosure
  imports CredentialService CredentialTheorems
begin

text \<open>
  What the credential service guarantees about passwords. The service changes the database through
  transactions of the journal only, whatever the broker and other processes do; a password is
  handed out only by the request that admitted its operation, after the completion was read back;
  and over the whole life of the journal, restarts of the server included, it is handed out at most
  once per credential version.
\<close>

section \<open>Admission errors\<close>

lemma safe_tree_codes: "safe_tree e \<Longrightarrow> leaf_codes e \<noteq> []" "safe_trees es \<Longrightarrow> es \<noteq> [] \<Longrightarrow> leaf_codes_list es \<noteq> []"
  by (induction e and es rule: safe_tree_safe_trees.induct) auto

text \<open>C39. An admission error is passed on exactly when it is certain that nothing was admitted. The
  walk over the error tree accepts an error if and only if every leaf is one of the six codes that
  are returned before anything was written, no join is empty and the tree has at most 64 nodes, and
  then reports the first code; every other error, an uncertain commit above all, poisons the service.\<close>

theorem inspectAdmissionError_exact:
  "inspectAdmissionError e =
     (if safe_tree e \<and> nodes e \<le> 64 then (True, hd (leaf_codes e)) else (False, CodeServiceUnavailable))"
proof (cases "safe_tree e \<and> nodes e \<le> 64")
  case True
  then have "e \<noteq> NilError" "leaf_codes e \<noteq> []" using safe_tree_codes by auto
  then show ?thesis using True
    by (auto simp: inspectAdmissionError_def traverse_spec first_code_def split: list.split)
next
  case False
  then show ?thesis by (auto simp: inspectAdmissionError_def traverse_spec)
qed

section \<open>The service and the journal\<close>

definition calm :: "svc_env \<Rightarrow> bool" where
  "calm E \<longleftrightarrow> (\<forall>k d. journal_step\<^sup>*\<^sup>* d (se_others E k d)) \<and> 1000 \<le> ce_now (se_env E 1)"

lemma calm_others: "calm E \<Longrightarrow> journal_step\<^sup>*\<^sup>* d (se_others E k d)"
  by (simp add: calm_def)

lemma calm_then: "calm E \<Longrightarrow> journal_step\<^sup>*\<^sup>* d d' \<Longrightarrow> journal_step\<^sup>*\<^sup>* d (se_others E k d')"
  by (meson calm_others rtranclp_trans)

lemma begin_steps:
  assumes "calm E" and "BeginSimplifiedOperation (se_env E 1) req (se_others E 1 d) = (r, d')"
  shows "journal_step\<^sup>*\<^sup>* d d'"
proof -
  have "journal_step (se_others E 1 d) d'" using step_begin [OF _ assms(2)] assms(1) by (simp add: calm_def)
  then show ?thesis using calm_others [OF assms(1)] by (meson rtranclp.rtrancl_into_rtrancl)
qed

lemma reset_steps:
  assumes "calm E" and "BeginReset (se_env E 1) req (se_others E 1 d) = (r, d')"
  shows "journal_step\<^sup>*\<^sup>* d d'"
proof -
  have "journal_step (se_others E 1 d) d'" using step_reset [OF _ assms(2)] assms(1) by (simp add: calm_def)
  then show ?thesis using calm_others [OF assms(1)] by (meson rtranclp.rtrancl_into_rtrancl)
qed

lemma finalize_steps:
  assumes "calm E" and "ConditionalFinalize env u (se_others E k d) = (r, d')"
  shows "journal_step\<^sup>*\<^sup>* d d'"
  using step_finalize [OF assms(2)] calm_others [OF assms(1)] by (meson rtranclp.rtrancl_into_rtrancl)

lemma record_failure_steps:
  assumes "calm E" and "record_failure E i op m r evidence d = (x, p, d')"
  shows "journal_step\<^sup>*\<^sup>* d d'"
proof -
  have "journal_step (se_others E 3 d) (snd (FailKnown env u (se_others E 3 d)))"
    "journal_step (se_others E 3 d) (snd (RequireRecovery env u (se_others E 3 d)))" for env u
    using step_fail step_recovery by (metis prod.collapse)+
  then have "journal_step\<^sup>*\<^sup>* d (snd (FailKnown env u (se_others E 3 d)))"
    "journal_step\<^sup>*\<^sup>* d (snd (RequireRecovery env u (se_others E 3 d)))" for env u
    using calm_others [OF assms(1)] by (meson rtranclp.rtrancl_into_rtrancl)+
  then show ?thesis using assms(2)
    by (auto simp: record_failure_def Let_def split: sum.splits prod.splits if_splits) (metis snd_conv)+
qed

lemma finalize_and_disclose_steps:
  assumes "calm E" and "finalize_and_disclose strict E i g op m evidence secret d = (x, p, d')"
  shows "journal_step\<^sup>*\<^sup>* d d'"
proof (cases "CompleteOperation op ExecutionVerifiedSuccess evidence (se_now E)")
  case (Inl e) then show ?thesis using assms(2) by (simp add: finalize_and_disclose_def)
next
  case (Inr c)
  let ?u = "\<lparr>ou_Guard = operationGuard op m, ou_Completion = c\<rparr>"
  obtain f d1 where f: "ConditionalFinalize (se_env E 4) ?u (se_others E 4 d) = (f, d1)" by (rule prod.exhaust)
  have "d' = se_others E 6 (se_others E 5 d1)"
    using assms(2) by (auto simp: finalize_and_disclose_def Inr f Let_def split: sum.splits if_splits)
  then show ?thesis using finalize_steps [OF assms(1) f] calm_then [OF assms(1)] by simp
qed

lemma work_mutation_steps:
  assumes "calm E" and "work_mutation X E actor input action d = (x, p, d')"
  shows "journal_step\<^sup>*\<^sup>* d d'"
proof (cases "se_NewOperationID E = None \<or> se_NewOperationID E = Some uuid_Nil")
  case True then show ?thesis using assms(2) by (auto simp: work_mutation_def)
next
  case False
  then obtain i where i: "se_NewOperationID E = Some i" "i \<noteq> uuid_Nil" by auto
  let ?q = "\<lparr>br_ActorUserID = actor, br_OperationID = i, br_Input = input\<rparr>"
  obtain r d1 where r: "BeginSimplifiedOperation (se_env E 1) ?q (se_others E 1 d) = (r, d1)" by (rule prod.exhaust)
  note b = begin_steps [OF assms(1) r]
  have re: "journal_step\<^sup>*\<^sup>* d1 d'" if "replay_mutation X E actor input action bb replay d1 = (x, p, d')" for bb replay
    using that calm_others [OF assms(1)] by (auto simp: replay_mutation_def Let_def split: if_splits sum.splits)
  have ex: "journal_step\<^sup>*\<^sup>* d1 d'" if "execute_mutation X E i input action bb d1 = (x, p, d')" for bb
    using that unfolding execute_mutation_def Let_def
    by (split if_splits) (blast intro: record_failure_steps [OF assms(1)] finalize_and_disclose_steps [OF assms(1)])+
  have "journal_step\<^sup>*\<^sup>* d1 d'"
    using assms(2) i r re ex by (auto simp: work_mutation_def split: sum.splits option.splits if_splits prod.splits)
  then show ?thesis using b by (meson rtranclp_trans)
qed

lemma begin_reset_work_steps:
  assumes "calm E" and "begin_reset_work X E actor input predecessor guard d = (x, p, d')"
  shows "journal_step\<^sup>*\<^sup>* d d'"
proof (cases "se_NewOperationID E = None \<or> se_NewOperationID E = Some uuid_Nil")
  case True then show ?thesis using assms(2) by (auto simp: begin_reset_work_def)
next
  case False
  then obtain i where i: "se_NewOperationID E = Some i" "i \<noteq> uuid_Nil" by auto
  let ?q = "\<lparr>rq_ActorUserID = actor, rq_OperationID = i, rq_Input = input,
                rq_ExpectedPredecessorID = predecessor, rq_ExpectedTargetGuard = Some guard\<rparr>"
  obtain r d1 where r: "BeginReset (se_env E 1) ?q (se_others E 1 d) = (r, d1)" by (rule prod.exhaust)
  have ex: "journal_step\<^sup>*\<^sup>* d1 d'" if "execute_reset X E i input bb d1 = (x, p, d')" for bb
    using that unfolding execute_reset_def Let_def
    by (split if_splits) (blast intro: record_failure_steps [OF assms(1)] finalize_and_disclose_steps [OF assms(1)])+
  have "journal_step\<^sup>*\<^sup>* d1 d'"
    using assms(2) i r ex by (auto simp: begin_reset_work_def split: sum.splits option.splits if_splits prod.splits)
  then show ?thesis using reset_steps [OF assms(1) r] by (meson rtranclp_trans)
qed

lemma work_reset_steps:
  assumes "calm E" and "work_reset X E actor input d = (x, p, d')"
  shows "journal_step\<^sup>*\<^sup>* d d'"
proof -
  have s: "journal_step\<^sup>*\<^sup>* d (se_others E 7 d)" "journal_step\<^sup>*\<^sup>* d (se_others E 8 (se_others E 7 d))"
    by (simp_all add: calm_then [OF assms(1)])
  have "journal_step\<^sup>*\<^sup>* d d'" if "begin_reset_work X E actor input j gd (se_others E 8 (se_others E 7 d)) = (x, p, d')" for j gd
    using begin_reset_work_steps [OF assms(1) that] s(2) by (meson rtranclp_trans)
  then show ?thesis using assms(2) s
    by (auto simp: work_reset_def Let_def split: sum.splits option.splits if_splits)
qed

lemma mutateSimplified_steps:
  assumes "calm E" and "mutateSimplified X E s actor input action d = (r, s', d')"
  shows "journal_step\<^sup>*\<^sup>* d d'"
  using assms(2) work_mutation_steps [OF assms(1)]
  by (auto simp: mutateSimplified_def single_flight_def split: if_splits sum.splits bool.splits) (metis prod.collapse)+

lemma Reset_steps:
  assumes "calm E" and "Reset X E s actor input d = (r, s', d')"
  shows "journal_step\<^sup>*\<^sup>* d d'"
proof -
  have o: "journal_step\<^sup>*\<^sup>* d (se_others E 9 d)" by (rule calm_others [OF assms(1)])
  have w: "journal_step\<^sup>*\<^sup>* d (snd (snd (work_reset X E actor input (se_others E 9 d))))"
    using work_reset_steps [OF assms(1)] o by (metis prod.collapse rtranclp_trans)
  show ?thesis using assms(2) o w
    by (auto simp: Reset_def single_flight_def Let_def split: if_splits sum.splits bool.splits option.splits prod.splits)
qed

section \<open>Where a disclosed password comes from\<close>

lemma gen_secret_origin:
  assumes "gen_secret calls n \<noteq> []"
  shows "\<exists>k < n. gc_password (calls k) = Some (gen_secret calls n) \<and> gen_answer calls k = Some (gen_secret calls n) \<and>
    validPassword (gen_secret calls n)"
  using assms
proof (induction n)
  case (Suc n)
  show ?case
  proof (cases "gen_secret calls n = []")
    case True
    then have "gen_step (calls n) [] = (Some (gen_secret calls (Suc n)), gen_secret calls (Suc n))"
        "gc_password (calls n) = Some (gen_secret calls (Suc n))" "validPassword (gen_secret calls (Suc n))"
      using Suc.prems by (auto simp: gen_step_def split: if_splits option.splits)
    then show ?thesis using True by (intro exI [of _ n]) (metis fst_conv gen_answer_def lessI)
  next
    case False
    then have "gen_secret calls (Suc n) = gen_secret calls n" by (simp add: gen_step_def)
    then show ?thesis using Suc.IH [OF False] by (metis less_Suc_eq)
  qed
qed simp

lemma sameCompletion_fields:
  assumes "sameCompletion \<lparr>co_Operation = a, co_Credential = z\<rparr> c"
  shows "op_Status a = op_Status (co_Operation c)" "op_GatewayID a = op_GatewayID (co_Operation c)"
    "op_Action a = op_Action (co_Operation c)" "op_CredentialVersion a = op_CredentialVersion (co_Operation c)"
    "op_Evidence a = op_Evidence (co_Operation c)" "op_ActorUserID a = op_ActorUserID (co_Operation c)"
proof -
  have "f (co_Operation (canonical_completion \<lparr>co_Operation = a, co_Credential = z\<rparr>)) = f (co_Operation (canonical_completion c))"
    for f :: "Operation \<Rightarrow> 'x"
    using assms by (simp add: sameCompletion_def)
  from this [of op_Status] this [of op_GatewayID] this [of op_Action] this [of op_CredentialVersion] this [of op_Evidence]
    this [of op_ActorUserID]
  show "op_Status a = op_Status (co_Operation c)" "op_GatewayID a = op_GatewayID (co_Operation c)"
    "op_Action a = op_Action (co_Operation c)" "op_CredentialVersion a = op_CredentialVersion (co_Operation c)"
    "op_Evidence a = op_Evidence (co_Operation c)" "op_ActorUserID a = op_ActorUserID (co_Operation c)"
    by (simp_all add: canonical_completion_def)
qed

text \<open>The event a disclosed secret rests on, as read back from the database.\<close>

definition backs :: "event_row \<Rightarrow> SecretResult \<Rightarrow> string \<Rightarrow> bool" where
  "backs e sec g \<longleftrightarrow> ev_operation_id e = sr_OperationID sec \<and> ev_gateway_id e = g \<and> md_GatewayID (sr_Metadata sec) = g \<and>
     ev_status e = OperationSucceeded \<and> ev_version e = md_CredentialVersion (sr_Metadata sec) \<and> proved e \<and>
     md_Status (sr_Metadata sec) = CredentialActive \<and> ev_action e \<in> {ActionProvision, ActionRotate, ActionReset}"

lemma finalize_and_disclose_backed:
  assumes "calm E" and "finalize_and_disclose strict E i g op m evidence secret d = (Inr out, p, d')" and "pr_Secret out = Some sec"
    and op: "op_GatewayID op = g" "op_Action op \<in> {ActionProvision, ActionRotate, ActionReset}"
  obtains e d2 where "secret = Some (sr_password sec)" "sr_OperationID sec = i" "\<not> p" "event_by_id d2 i = Some e" "backs e sec g"
    "d' = se_others E 6 d2" "metadata_row d' g = Some (sr_Metadata sec)" "journal_step\<^sup>*\<^sup>* d d2"
proof -
  obtain c where c: "CompleteOperation op ExecutionVerifiedSuccess evidence (se_now E) = Inr c"
    using assms(2) by (auto simp: finalize_and_disclose_def split: sum.splits)
  let ?u = "\<lparr>ou_Guard = operationGuard op m, ou_Completion = c\<rparr>"
  obtain f d1 where f: "ConditionalFinalize (se_env E 4) ?u (se_others E 4 d) = (f, d1)" by (rule prod.exhaust)
  let ?d2 = "se_others E 5 d1" and ?d3 = "se_others E 6 (se_others E 5 d1)"
  obtain confirmed latest where r: "ResolveCommitAmbiguity (se_env E 5) i ?d2 = Inr confirmed" "GetMetadata (se_env E 6) g ?d3 = Inr latest"
      "readback_ok i g c confirmed latest" and out: "pr_Secret out = map_option (NewSecretResult latest i) secret" "d' = ?d3" "\<not> p"
    using assms(2) by (auto simp: finalize_and_disclose_def c f Let_def split: sum.splits if_splits)
  obtain pw where pw: "secret = Some pw" "sec = NewSecretResult latest i pw" 
    using out(1) assms(3) by (cases secret) auto
  obtain e where e: "event_by_id ?d2 i = Some e" "event_operation e = confirmed"
    using r(1) by (auto simp: ResolveCommitAmbiguity_def scanOperation_Inr split: if_splits sum.splits)
  have ei: "ev_operation_id e = i" using e(1) by (auto simp: event_by_id_def find_Some_iff)
  have s: "sameCompletion \<lparr>co_Operation = event_operation e, co_Credential = co_Credential c\<rparr> c" using r(3) e(2) by (simp add: readback_ok_def)
  note sf = sameCompletion_fields [OF s]
  from c have cc: "op_Status (co_Operation c) = OperationSucceeded" "op_GatewayID (co_Operation c) = g" "op_Action (co_Operation c) = op_Action op"
      "op_CredentialVersion (co_Operation c) = op_CredentialVersion op" "cs_Status (co_Credential c) = CredentialActive"
      "cs_CredentialVersion (co_Credential c) = op_CredentialVersion op" "\<not> success_unproved (op_ExecutionContract op) (op_Action op) (op_Evidence (co_Operation c))"
    by (cases rule: CompleteOperation_cases; use op in auto)+
  have b: "backs e sec g"
    using sf cc ei r(3) op pw
    by (auto simp: backs_def event_operation_def proved_def success_unproved_def ev_version_def readback_ok_def validSimplifiedMetadata_def NewSecretResult_def)
  have "metadata_row d' g = Some latest" using r(2) out(2) by (auto simp: GetMetadata_def scanMetadata_def split: if_splits)
  moreover have "journal_step\<^sup>*\<^sup>* d ?d2" by (rule calm_then [OF assms(1) finalize_steps [OF assms(1) f]])
  ultimately show thesis using that [OF _ _ _ e(1) b out(2)] pw out(3) by (simp add: NewSecretResult_def)
qed

text \<open>A request that hands out a secret admitted the operation itself: before, there was no such event.\<close>

definition discloses :: "svc_env \<Rightarrow> cred_db \<Rightarrow> SecretResult \<Rightarrow> string \<Rightarrow> cred_db \<Rightarrow> bool" where
  "discloses E d sec g d' \<longleftrightarrow>
     (\<exists>d1 d2 e k. journal_step\<^sup>*\<^sup>* d d1 \<and> event_by_id d1 (sr_OperationID sec) = None \<and> journal_step\<^sup>*\<^sup>* d1 d2 \<and>
       event_by_id d2 (sr_OperationID sec) = Some e \<and> backs e sec g \<and> journal_step\<^sup>*\<^sup>* d2 d' \<and>
       metadata_row d' g = Some (sr_Metadata sec) \<and>
       gc_password (se_generate E k) = Some (sr_password sec) \<and> validPassword (sr_password sec))"

lemma discloses_later: "journal_step\<^sup>*\<^sup>* d0 d \<Longrightarrow> discloses E d sec g d' \<Longrightarrow> discloses E d0 sec g d'"
  unfolding discloses_def by (meson rtranclp_trans)

lemma disclosed_by_request:
  assumes calm: "calm E" and fresh: "event_by_id (se_others E 1 d) i = None" and step: "journal_step\<^sup>*\<^sup>* (se_others E 1 d) db"
    and fd: "finalize_and_disclose strict E i g op m evidence (Some (gen_secret (se_generate E) n)) db = (Inr out, p, d')"
    and sec: "pr_Secret out = Some sec" and op: "op_GatewayID op = g" "op_Action op \<in> {ActionProvision, ActionRotate, ActionReset}"
    and valid: "validPassword (gen_secret (se_generate E) n)"
  shows "discloses E d sec g d'"
proof -
  obtain e d2 where e: "Some (gen_secret (se_generate E) n) = Some (sr_password sec)" "sr_OperationID sec = i" "event_by_id d2 i = Some e"
      "backs e sec g" "d' = se_others E 6 d2" "metadata_row d' g = Some (sr_Metadata sec)" "journal_step\<^sup>*\<^sup>* db d2"
    using finalize_and_disclose_backed [OF calm fd sec op] by metis
  have "gen_secret (se_generate E) n \<noteq> []" using valid by (auto simp: validPassword_def)
  then obtain k where "gc_password (se_generate E k) = Some (sr_password sec)"
    using gen_secret_origin e(1) by fastforce
  then show ?thesis unfolding discloses_def
    using e fresh step valid calm_others [OF calm] by (metis option.inject rtranclp_trans)
qed

lemma record_failure_Inr: "record_failure E i op m r evidence d \<noteq> (Inr out, p, d')"
  by (auto simp: record_failure_def Let_def split: sum.splits prod.splits)

lemma begin_admits_fresh:
  assumes "calm E" and "BeginSimplifiedOperation (se_env E 1) q (se_others E 1 d) = (Inr b, db)" and "be_Execute b"
  shows "event_by_id (se_others E 1 d) (br_OperationID q) = None" "journal_step\<^sup>*\<^sup>* (se_others E 1 d) db"
proof -
  from assms(2) show "event_by_id (se_others E 1 d) (br_OperationID q) = None"
  proof (cases rule: BeginSimplifiedOperation_effect)
    case unchanged then show ?thesis using assms(3) by simp
  next
    case (intent version status)
    then show ?thesis
      by (auto simp: begin_guards_def Let_def fresh_event_def intent_event_def with_previous_def new_event_def split: option.splits)
  qed simp
  show "journal_step\<^sup>*\<^sup>* (se_others E 1 d) db" using step_begin [OF _ assms(2)] assms(1) by (simp add: calm_def r_into_rtranclp)
qed

lemma work_mutation_discloses:
  assumes calm: "calm E" and w: "work_mutation X E actor input action d = (Inr out, p, d')" and sec: "pr_Secret out = Some sec"
  shows "discloses E d sec (mu_GatewayID input) d'"
proof -
  let ?g = "mu_GatewayID input"
  obtain i where i: "se_NewOperationID E = Some i" "i \<noteq> uuid_Nil" using w by (auto simp: work_mutation_def split: option.splits if_splits)
  let ?q = "\<lparr>br_ActorUserID = actor, br_OperationID = i, br_Input = input\<rparr>"
  obtain r db where r: "BeginSimplifiedOperation (se_env E 1) ?q (se_others E 1 d) = (r, db)" by (rule prod.exhaust)
  obtain b where b: "r = Inr b" and rest: "(case be_Replay b of Some replay \<Rightarrow> replay_mutation X E actor input action b replay db
      | None \<Rightarrow> if \<not> admitted_mutation i actor input action b then (Inl CodeRecoveryRequired, True, db)
                else execute_mutation X E i input action b db) = (Inr out, p, d')"
    using w i r by (cases r) (auto simp: work_mutation_def split: prod.splits)
  have nr: "replay_mutation X E actor input action b replay db \<noteq> (Inr out, p, d')" for replay
    using sec by (auto simp: replay_mutation_def metadata_only_def Let_def split: if_splits sum.splits)
  have adm: "admitted_mutation i actor input action b" and ex: "execute_mutation X E i input action b db = (Inr out, p, d')"
    using rest nr by (auto split: option.splits if_splits)
  have execute: "be_Execute b" and opf: "op_GatewayID (be_Operation b) = ?g" "op_Action (be_Operation b) = action"
    and act: "action \<in> {ActionProvision, ActionRotate, ActionRevoke}"
    using adm by (auto simp: admitted_mutation_def Let_def BeginCredentialStatus_def split: if_splits)
  have nrv: "action \<noteq> ActionRevoke"
    using ex sec record_failure_Inr
    by (auto simp: execute_mutation_def finalize_and_disclose_def Let_def split: sum.splits if_splits prod.splits)
  let ?reply = "ex_Execute X (be_Operation b) (Some (gen_answer (se_generate E)))"
  let ?secret = "gen_secret (se_generate E) (er_calls ?reply)"
  have ver: "verified_mutation i action ?reply ?secret"
    using ex nrv record_failure_Inr [of E i] by (simp add: execute_mutation_def Let_def split: if_splits)
  then have fd: "finalize_and_disclose True E i ?g (be_Operation b) (be_Metadata b) (mutation_evidence i action (er_result ?reply))
      (Some ?secret) db = (Inr out, p, d')" and valid: "validPassword ?secret"
    using ex nrv by (simp_all add: execute_mutation_def verified_mutation_def Let_def)
  show ?thesis
    using disclosed_by_request [OF calm _ _ fd sec opf(1) _ valid] begin_admits_fresh [OF calm r [unfolded b] execute] opf(2) act nrv by auto
qed

lemma reset_admits_fresh:
  assumes "calm E" and "BeginReset (se_env E 1) q (se_others E 1 d) = (Inr b, db)" and "be_Execute b"
  shows "event_by_id (se_others E 1 d) (rq_OperationID q) = None" "journal_step\<^sup>*\<^sup>* (se_others E 1 d) db"
proof -
  from assms(2) show "event_by_id (se_others E 1 d) (rq_OperationID q) = None"
  proof (cases rule: BeginReset_effect)
    case unchanged then show ?thesis using assms(3) by simp
  next
    case (intent m e version c)
    then have "fresh_event (se_others E 1 d) (reset_event (se_env E 1) q m (ev_operation_id e) version)"
      by (simp add: reset_guards_def Let_def)
    then show ?thesis by (simp add: fresh_event_def reset_event_fields)
  qed simp
  show "journal_step\<^sup>*\<^sup>* (se_others E 1 d) db" using step_reset [OF _ assms(2)] assms(1) by (simp add: calm_def r_into_rtranclp)
qed

lemma begin_reset_work_discloses:
  assumes calm: "calm E" and w: "begin_reset_work X E actor input predecessor guard d = (Inr out, p, d')" and sec: "pr_Secret out = Some sec"
  shows "discloses E d sec (ri_GatewayID input) d'"
proof -
  let ?g = "ri_GatewayID input"
  obtain i where i: "se_NewOperationID E = Some i" "i \<noteq> uuid_Nil" using w by (auto simp: begin_reset_work_def split: option.splits if_splits)
  let ?q = "\<lparr>rq_ActorUserID = actor, rq_OperationID = i, rq_Input = input,
                rq_ExpectedPredecessorID = predecessor, rq_ExpectedTargetGuard = Some guard\<rparr>"
  obtain r db where r: "BeginReset (se_env E 1) ?q (se_others E 1 d) = (r, db)" by (rule prod.exhaust)
  obtain b where b: "r = Inr b" and adm: "admitted_reset i actor input predecessor b"
      and ex: "execute_reset X E i input b db = (Inr out, p, d')"
    using w i r sec by (cases r) (auto simp: begin_reset_work_def metadata_only_def split: prod.splits option.splits if_splits)
  have execute: "be_Execute b" and opf: "op_GatewayID (be_Operation b) = ?g" "op_Action (be_Operation b) = ActionReset"
    using adm by (auto simp: admitted_reset_def Let_def)
  let ?reply = "ex_Execute X (be_Operation b) (Some (gen_answer (se_generate E)))"
  let ?secret = "gen_secret (se_generate E) (er_calls ?reply)"
  have ver: "verified_reset i ?reply ?secret"
    using ex record_failure_Inr [of E i] by (simp add: execute_reset_def Let_def split: if_splits)
  then have fd: "finalize_and_disclose False E i ?g (be_Operation b) (be_Metadata b) (reset_evidence i (er_result ?reply))
      (Some ?secret) db = (Inr out, p, d')" and valid: "validPassword ?secret"
    using ex by (simp_all add: execute_reset_def verified_reset_def Let_def)
  show ?thesis
    using disclosed_by_request [OF calm _ _ fd sec opf(1) _ valid] reset_admits_fresh [OF calm r [unfolded b] execute] opf(2) by auto
qed

lemma work_reset_discloses:
  assumes "calm E" and "work_reset X E actor input d = (Inr out, p, d')" and "pr_Secret out = Some sec"
  shows "discloses E d sec (ri_GatewayID input) d'"
proof -
  obtain j gd where w: "begin_reset_work X E actor input j gd (se_others E 8 (se_others E 7 d)) = (Inr out, p, d')"
    using assms(2) by (auto simp: work_reset_def Let_def split: sum.splits option.splits if_splits)
  have "journal_step\<^sup>*\<^sup>* d (se_others E 8 (se_others E 7 d))" by (simp add: calm_then [OF assms(1)] calm_others [OF assms(1)])
  then show ?thesis using discloses_later begin_reset_work_discloses [OF assms(1) w assms(3)] by blast
qed

lemma mutateSimplified_discloses:
  assumes "calm E" and "mutateSimplified X E s actor input action d = (Inr out, s', d')" and "pr_Secret out = Some sec"
  shows "discloses E d sec (mu_GatewayID input) d'"
proof -
  obtain p where "work_mutation X E actor input action d = (Inr out, p, d')"
    using assms(2) by (auto simp: mutateSimplified_def single_flight_def split: if_splits sum.splits bool.splits) (metis prod.collapse)
  then show ?thesis using work_mutation_discloses [OF assms(1) _ assms(3)] by blast
qed

lemma Reset_discloses:
  assumes "calm E" and "Reset X E s actor input d = (Inr out, s', d')" and "pr_Secret out = Some sec"
  shows "discloses E d sec (ri_GatewayID input) d'"
proof -
  obtain p where "work_reset X E actor input (se_others E 9 d) = (Inr out, p, d')"
    using assms(2,3)
    by (auto simp: Reset_def single_flight_def metadata_only_def Let_def split: if_splits sum.splits bool.splits option.splits) (metis prod.collapse)
  then show ?thesis using work_reset_discloses [OF assms(1) _ assms(3)] discloses_later [OF calm_others [OF assms(1)]] by blast
qed

section \<open>The server over its life\<close>

text \<open>
  One server process and its successors. \<open>sy_disclosed\<close> records every password that left the service.
  A crash in the middle of a request is the part of its journal steps that happened, then a restart.
\<close>

record cred_system =
  sy_service :: ProvisionService
  sy_db :: cred_db
  sy_disclosed :: "SecretResult list"

definition idle_service :: ProvisionService where
  "idle_service = \<lparr>ps_busy = False, ps_poisoned = False\<rparr>"

definition response_secrets :: "ErrorCode + ProvisionResponse \<Rightarrow> SecretResult list" where
  "response_secrets r = (case r of Inr out \<Rightarrow> (case pr_Secret out of Some sec \<Rightarrow> [sec] | None \<Rightarrow> []) | Inl _ \<Rightarrow> [])"

inductive credential_step :: "cred_system \<Rightarrow> cred_system \<Rightarrow> bool" where
  sys_mutate: "calm E \<Longrightarrow> mutateSimplified X E (sy_service s) actor input action (sy_db s) = (r, sv, d) \<Longrightarrow>
    credential_step s \<lparr>sy_service = sv, sy_db = d, sy_disclosed = sy_disclosed s @ response_secrets r\<rparr>"
| sys_reset: "calm E \<Longrightarrow> Reset X E (sy_service s) actor rinput (sy_db s) = (r, sv, d) \<Longrightarrow>
    credential_step s \<lparr>sy_service = sv, sy_db = d, sy_disclosed = sy_disclosed s @ response_secrets r\<rparr>"
| sys_journal: "journal_step (sy_db s) d \<Longrightarrow> credential_step s (s\<lparr>sy_db := d\<rparr>)"
| sys_restart: "credential_step s (s\<lparr>sy_service := idle_service\<rparr>)"

definition credential_init :: "cred_system \<Rightarrow> bool" where
  "credential_init s \<longleftrightarrow> journal_init (sy_db s) \<and> sy_service s = idle_service \<and> sy_disclosed s = []"

interpretation credsys: transition_system credential_init credential_step .

definition secret_slot :: "SecretResult \<Rightarrow> string \<times> int" where
  "secret_slot sec = (md_GatewayID (sr_Metadata sec), md_CredentialVersion (sr_Metadata sec))"

definition backed :: "cred_db \<Rightarrow> SecretResult \<Rightarrow> bool" where
  "backed d sec \<longleftrightarrow> (\<exists>e \<in> set (cd_events d). backs e sec (md_GatewayID (sr_Metadata sec)))"

definition disclosure_inv :: "cred_system \<Rightarrow> bool" where
  "disclosure_inv s \<longleftrightarrow> journal_inv (sy_db s) \<and> distinct (map sr_OperationID (sy_disclosed s)) \<and>
     (\<forall>sec \<in> set (sy_disclosed s). backed (sy_db s) sec \<and> validPassword (sr_password sec))"

lemma backs_kept: "backs e sec g \<Longrightarrow> kept e e' \<Longrightarrow> backs e' sec g"
  by (auto simp: backs_def kept_def is_open_def proved_def ev_version_def)

lemma backed_steps:
  assumes "journal_inv d" and "journal_step\<^sup>*\<^sup>* d d'" and "backed d sec"
  shows "backed d' sec"
  using assms(3) kept_steps [OF assms(2,1)] backs_kept unfolding backed_def by meson

lemma disclosure_inv_add:
  assumes inv: "disclosure_inv s" and steps: "journal_step\<^sup>*\<^sup>* (sy_db s) d'"
    and new: "\<And>sec. sec \<in> set secs \<Longrightarrow> \<exists>E g. discloses E (sy_db s) sec g d'" and one: "length secs \<le> 1"
  shows "disclosure_inv \<lparr>sy_service = sv, sy_db = d', sy_disclosed = sy_disclosed s @ secs\<rparr>"
proof -
  have j: "journal_inv (sy_db s)" "journal_inv d'" using inv journal_steps_inv [OF steps] by (auto simp: disclosure_inv_def)
  have old: "backed d' sec" if "sec \<in> set (sy_disclosed s)" for sec
    using that inv backed_steps [OF j(1) steps] by (auto simp: disclosure_inv_def)
  have add: "backed d' sec \<and> validPassword (sr_password sec) \<and> sr_OperationID sec \<notin> sr_OperationID ` set (sy_disclosed s)"
    if sec: "sec \<in> set secs" for sec
  proof -
    obtain E g d1 d2 e where x: "journal_step\<^sup>*\<^sup>* (sy_db s) d1" "event_by_id d1 (sr_OperationID sec) = None" "journal_step\<^sup>*\<^sup>* d1 d2"
        "event_by_id d2 (sr_OperationID sec) = Some e" "backs e sec g" "journal_step\<^sup>*\<^sup>* d2 d'" "validPassword (sr_password sec)"
      using new [OF sec] unfolding discloses_def by blast
    have j2: "journal_inv d1" "journal_inv d2" using journal_steps_inv x(1,3) j(1) by (blast, blast)
    have "e \<in> set (cd_events d2)" using x(4) by (auto simp: event_by_id_def find_Some_iff in_set_conv_nth)
    then have "backed d2 sec" using x(5) by (auto simp: backed_def backs_def)
    then have b: "backed d' sec" by (rule backed_steps [OF j2(2) x(6)])
    have "sr_OperationID sec' \<noteq> sr_OperationID sec" if "sec' \<in> set (sy_disclosed s)" for sec'
    proof -
      have "backed d1 sec'" using that inv backed_steps [OF j(1) x(1)] by (auto simp: disclosure_inv_def)
      then have "sr_OperationID sec' \<in> ev_operation_id ` set (cd_events d1)" by (force simp: backed_def backs_def)
      then show ?thesis using x(2) event_by_id_None by metis
    qed
    then show ?thesis using b x(7) by (metis imageE)
  qed
  have "distinct (map sr_OperationID secs)" using one by (cases secs) auto
  moreover have "set (map sr_OperationID (sy_disclosed s)) \<inter> set (map sr_OperationID secs) = {}"
    unfolding set_map disjoint_iff by (metis add imageE)
  ultimately have "distinct (map sr_OperationID (sy_disclosed s @ secs))" using inv by (simp only: map_append distinct_append disclosure_inv_def)
  moreover have "\<forall>sec \<in> set (sy_disclosed s @ secs). backed d' sec \<and> validPassword (sr_password sec)"
    using inv old add unfolding disclosure_inv_def by (simp add: ball_Un)
  ultimately show ?thesis using j(2) by (simp add: disclosure_inv_def del: map_append set_append)
qed

lemma response_inv:
  assumes "disclosure_inv s" and "journal_step\<^sup>*\<^sup>* (sy_db s) d'"
    and "\<And>out sec. r = Inr out \<Longrightarrow> pr_Secret out = Some sec \<Longrightarrow> discloses E (sy_db s) sec g d'"
  shows "disclosure_inv \<lparr>sy_service = sv, sy_db = d', sy_disclosed = sy_disclosed s @ response_secrets r\<rparr>"
proof (rule disclosure_inv_add [OF assms(1,2)])
  show "\<exists>E g. discloses E (sy_db s) sec g d'" if h: "sec \<in> set (response_secrets r)" for sec
  proof -
    obtain out where "r = Inr out" "pr_Secret out = Some sec"
      using h by (auto simp: response_secrets_def split: sum.splits option.splits)
    then show ?thesis using assms(3) by blast
  qed
qed (simp add: response_secrets_def split: sum.split option.split)

lemma credential_step_inv:
  assumes "disclosure_inv s" and "credential_step s s'"
  shows "disclosure_inv s'"
  using assms(2)
proof cases
  case (sys_mutate E X actor input action r sv d)
  show ?thesis unfolding sys_mutate(1)
    by (rule response_inv [OF assms(1) mutateSimplified_steps [OF sys_mutate(2,3)]])
      (use mutateSimplified_discloses [OF sys_mutate(2)] sys_mutate(3) in blast)
next
  case (sys_reset E X actor rinput r sv d)
  show ?thesis unfolding sys_reset(1)
    by (rule response_inv [OF assms(1) Reset_steps [OF sys_reset(2,3)]])
      (use Reset_discloses [OF sys_reset(2)] sys_reset(3) in blast)
next
  case (sys_journal d)
  then have "backed d sec" if "sec \<in> set (sy_disclosed s)" for sec
    using that assms(1) backed_steps [of "sy_db s" d] unfolding disclosure_inv_def by blast
  then show ?thesis using sys_journal assms(1) journal_step_inv by (simp add: disclosure_inv_def)
next
  case sys_restart
  then show ?thesis using assms(1) by (simp add: disclosure_inv_def)
qed

lemma backed_slot_unique:
  assumes "journal_inv d" and "backed d a" "backed d b" and "secret_slot a = secret_slot b"
  shows "sr_OperationID a = sr_OperationID b"
proof -
  obtain x y where xy: "x \<in> set (cd_events d)" "backs x a (md_GatewayID (sr_Metadata a))"
      "y \<in> set (cd_events d)" "backs y b (md_GatewayID (sr_Metadata b))"
    using assms(2,3) unfolding backed_def by blast
  then have eq: "ev_gateway_id x = ev_gateway_id y" "ev_version x = ev_version y" "ev_action x \<noteq> ActionRevoke" "ev_action y \<noteq> ActionRevoke"
    using assms(4) by (auto simp: backs_def secret_slot_def)
  have "sorted_wrt newer (cd_events d)" using assms(1) by (simp add: journal_inv_def)
  then have "x = y \<or> newer x y \<or> newer y x"
    using xy(1,3) by (metis in_set_conv_nth linorder_neqE_nat sorted_wrt_nth_less)
  then have "x = y" using eq by (auto simp: newer_def)
  then show ?thesis using xy by (simp add: backs_def)
qed

text \<open>C36. A password is disclosed at most once. Over the whole life of the server, with restarts and
  crashes, failing and ambiguous database calls, other writers and a broker that answers anything: no
  two responses ever carry a password for the same Gateway and credential version or for the same
  operation, and every password that left the service is valid and belongs to an operation recorded
  as succeeded with the required proof, which issued this version.\<close>

theorem one_time_disclosure:
  assumes "credsys.reach s"
  shows "distinct (map secret_slot (sy_disclosed s)) \<and> distinct (map sr_OperationID (sy_disclosed s)) \<and>
    (\<forall>sec \<in> set (sy_disclosed s). validPassword (sr_password sec) \<and> backed (sy_db s) sec)"
proof -
  have inv: "disclosure_inv s"
  proof (rule credsys.invariant [OF assms])
    show "disclosure_inv t" if "credential_init t" for t
      using that by (simp add: credential_init_def disclosure_inv_def journal_init_inv)
  qed (rule credential_step_inv)
  have "inj_on secret_slot (set (sy_disclosed s))"
  proof (rule inj_onI)
    fix a b assume ab: "a \<in> set (sy_disclosed s)" "b \<in> set (sy_disclosed s)" "secret_slot a = secret_slot b"
    then have "sr_OperationID a = sr_OperationID b"
      using backed_slot_unique [OF _ _ _ ab(3)] inv unfolding disclosure_inv_def by blast
    then show "a = b" using ab inv by (auto simp: disclosure_inv_def distinct_map inj_on_def)
  qed
  then show ?thesis using inv by (auto simp: disclosure_inv_def distinct_map)
qed

text \<open>A run of the server: the provisioning of \<open>gw-1\<close> by an executor that asks for one password and proves it.\<close>

definition proving_executor :: SimplifiedExecutor where
  "proving_executor =
     \<lparr>ex_Execute = (\<lambda>op _. \<lparr>er_calls = 1,
        er_result = \<lparr>xr_OperationID = op_OperationID op, xr_Outcome = ExecutionVerifiedSuccess,
          xr_Evidence = xe_zero\<lparr>xe_RAMApplied := True, xe_FreshPositiveVerified := True\<rparr>, xr_Mutated = True\<rparr>, er_failed = False\<rparr>),
      ex_CheckRevoked = (\<lambda>_. False)\<rparr>"

definition quiet_env :: "uuid \<Rightarrow> svc_env" where
  "quiet_env i = \<lparr>se_StartupReady = True, se_NewOperationID = Some i,
     se_generate = (\<lambda>_. \<lparr>gc_done_before = False, gc_password = Some ''s3cret'', gc_done_after = False\<rparr>),
     se_Prerequisite = None, se_now = 3000000, se_env = (\<lambda>_. ok_env 2000000), se_others = (\<lambda>_ d. d)\<rparr>"

definition provisioned :: "(ErrorCode + ProvisionResponse) \<times> ProvisionService \<times> cred_db" where
  "provisioned = Provision proving_executor (quiet_env 11) idle_service 7
     \<lparr>mu_GatewayID = ''gw-1'', mu_IdempotencyKey = 21, mu_Action = ActionProvision\<rparr> j0"

definition sys_provisioned :: cred_system where
  "sys_provisioned = \<lparr>sy_service = fst (snd provisioned), sy_db = snd (snd provisioned), sy_disclosed = response_secrets (fst provisioned)\<rparr>"

lemma sys_provisioned_reach: "credsys.reach sys_provisioned"
proof -
  let ?s = "\<lparr>sy_service = idle_service, sy_db = j0, sy_disclosed = []\<rparr>"
  have "credsys.reach ?s" by (rule credsys.reach_init) (simp add: credential_init_def journal_init_def j0_def)
  moreover have "calm (quiet_env 11)" by (simp add: calm_def quiet_env_def ok_env_def)
  then have "credential_step ?s \<lparr>sy_service = fst (snd provisioned), sy_db = snd (snd provisioned),
      sy_disclosed = sy_disclosed ?s @ response_secrets (fst provisioned)\<rparr>"
    by (rule sys_mutate [where X = proving_executor and actor = 7 and action = ActionProvision and
        input = "\<lparr>mu_GatewayID = ''gw-1'', mu_IdempotencyKey = 21, mu_Action = ActionProvision\<rparr>"])
      (simp add: provisioned_def Provision_def)
  ultimately show ?thesis using credsys.reach_step by (fastforce simp: sys_provisioned_def)
qed

theorem one_time_disclosure_witness:
  "\<exists>sec. credsys.reach sys_provisioned \<and> sy_disclosed sys_provisioned = [sec] \<and> sr_password sec = ''s3cret'' \<and>
     secret_slot sec = (''gw-1'', 1) \<and> backed (sy_db sys_provisioned) sec"
proof -
  have "case sy_disclosed sys_provisioned of [sec] \<Rightarrow> sr_password sec = ''s3cret'' \<and> secret_slot sec = (''gw-1'', 1) | _ \<Rightarrow> False"
    by code_simp
  then obtain sec where sec: "sy_disclosed sys_provisioned = [sec]" "sr_password sec = ''s3cret''" "secret_slot sec = (''gw-1'', 1)"
    by (auto split: list.splits)
  then show ?thesis using one_time_disclosure [OF sys_provisioned_reach] sys_provisioned_reach by simp
qed

end
