(* ===== verification/History.thy ===== *)
theory History
  imports TelemetryStore "HOL-Library.Signed_Division"
begin

text \<open>
  The read side of telemetry: resolutions, the exact bucket arithmetic and the bounds of a history
  query (\<open>telemetry/history_query.go\<close>), preparation under one deadline
  (\<open>telemetry/history_preparation.go\<close>) and the service that picks an effective resolution
  (\<open>telemetry/history_service.go\<close>). Resolver and reader are Go interfaces and parameters here; what
  \<open>ctx.Err()\<close> answers at each point of a request is the parameter \<open>hist_ctx\<close>.
\<close>

section \<open>Errors\<close>

datatype ctx_error = Canceled | DeadlineExceeded

text \<open>
  A driver error is what \<open>errors.Is\<close> and \<open>errors.As\<close> answer about it: a context error, \<open>pgx.ErrNoRows\<close>, the
  code of a \<open>*pgconn.PgError\<close>, a closed pool, a \<open>net.Error\<close>, or one of the other connection failures
  (closed connection, end of file, \<open>*pgconn.ConnectError\<close>).
\<close>

record driver_error =
  de_context :: "ctx_error option"
  de_no_rows :: bool
  de_pg_code :: "string option"
  de_closed_pool :: bool
  de_net_error :: bool
  de_connection :: bool

datatype read_error =
    ErrHistoryNilActor | ErrHistoryInvalidInput | ErrHistoryNotFound | ErrHistoryRangeTooLarge
  | ErrHistoryInvalidResolution | ErrHistoryRawLimitExceeded | ErrHistoryResolutionTooFine
  | ErrHistoryDependency | ErrHistoryUnexpected
  | ErrNilActor | ErrNotFound | ErrInvalidInput | ErrInvalidCursor | ErrInvalidProperty | ErrInconsistentUnit
  | ErrDependencyUnavailable | ErrUnexpected
  | ContextErr ctx_error | DriverErr driver_error | ErrText string
  | JoinErr "read_error list"

text \<open>\<open>errors.Is\<close>; \<open>fmt.Errorf\<close> with several \<open>%w\<close> and \<open>errors.Join\<close> are both \<open>JoinErr\<close>.\<close>

fun errors_Is :: "read_error \<Rightarrow> read_error \<Rightarrow> bool" where
  "errors_Is (JoinErr es) target \<longleftrightarrow> list_ex (\<lambda>e. errors_Is e target) es"
| "errors_Is (DriverErr d) target \<longleftrightarrow> DriverErr d = target \<or> (case de_context d of None \<Rightarrow> False | Some c \<Rightarrow> target = ContextErr c)"
| "errors_Is e target \<longleftrightarrow> e = target"

definition availability_codes :: "string list" where
  "availability_codes = [''08000'', ''08001'', ''08003'', ''08006'', ''53300'', ''57P01'', ''57P02'', ''57P03'']"

definition ClassifyPostgresAvailabilityError :: "driver_error \<Rightarrow> read_error \<Rightarrow> read_error" where
  "ClassifyPostgresAvailabilityError e unavailable =
     (if de_context e \<noteq> None then DriverErr e
      else (case de_pg_code e of
          Some code \<Rightarrow> if code \<in> set availability_codes then JoinErr [unavailable, DriverErr e] else DriverErr e
        | None \<Rightarrow> if de_connection e \<or> de_closed_pool e \<or> de_net_error e then JoinErr [unavailable, DriverErr e] else DriverErr e))"

section \<open>Resolutions and bucket arithmetic\<close>

type_synonym Resolution = string

definition ResolutionAuto :: Resolution where "ResolutionAuto = ''auto''"
definition ResolutionRaw :: Resolution where "ResolutionRaw = ''raw''"
definition Resolution100ms :: Resolution where "Resolution100ms = ''100ms''"
definition Resolution1s :: Resolution where "Resolution1s = ''1s''"
definition Resolution10s :: Resolution where "Resolution10s = ''10s''"
definition Resolution1m :: Resolution where "Resolution1m = ''1m''"
definition Resolution5m :: Resolution where "Resolution5m = ''5m''"
definition Resolution15m :: Resolution where "Resolution15m = ''15m''"
definition Resolution1h :: Resolution where "Resolution1h = ''1h''"
definition Resolution6h :: Resolution where "Resolution6h = ''6h''"
definition Resolution1d :: Resolution where "Resolution1d = ''1d''"

lemmas resolution_defs = ResolutionAuto_def ResolutionRaw_def Resolution100ms_def Resolution1s_def Resolution10s_def
  Resolution1m_def Resolution5m_def Resolution15m_def Resolution1h_def Resolution6h_def Resolution1d_def

definition Resolution_Valid :: "Resolution \<Rightarrow> bool" where
  "Resolution_Valid r \<longleftrightarrow> r \<in> set [ResolutionAuto, ResolutionRaw, Resolution100ms, Resolution1s, Resolution10s, Resolution1m,
     Resolution5m, Resolution15m, Resolution1h, Resolution6h, Resolution1d]"

definition ResolutionDuration :: "Resolution \<Rightarrow> duration option" where
  "ResolutionDuration r =
     (if r = Resolution100ms then Some 100000000
      else if r = Resolution1s then Some nsPerSecond
      else if r = Resolution10s then Some (10 * nsPerSecond)
      else if r = Resolution1m then Some (60 * nsPerSecond)
      else if r = Resolution5m then Some (5 * 60 * nsPerSecond)
      else if r = Resolution15m then Some (15 * 60 * nsPerSecond)
      else if r = Resolution1h then Some (3600 * nsPerSecond)
      else if r = Resolution6h then Some (6 * 3600 * nsPerSecond)
      else if r = Resolution1d then Some (24 * 3600 * nsPerSecond)
      else None)"

text \<open>\<open>time.Time.Unix\<close>, \<open>Nanosecond\<close> and \<open>time.Duration.Microseconds\<close>.\<close>

definition unixEpoch :: time where "unixEpoch = 62135596800 * nsPerSecond"

definition time_Unix :: "time \<Rightarrow> int" where
  "time_Unix t = t div nsPerSecond - 62135596800"

definition time_Nanosecond :: "time \<Rightarrow> int" where
  "time_Nanosecond t = t mod nsPerSecond"

definition duration_Microseconds :: "duration \<Rightarrow> int" where
  "duration_Microseconds d = d sdiv 1000"

definition ToMicrosecondsSinceEpoch :: "time \<Rightarrow> int" where
  "ToMicrosecondsSinceEpoch t = i64 (i64 (time_Unix t * 1000000) + time_Nanosecond t sdiv 1000)"

definition floorDiv :: "int \<Rightarrow> int \<Rightarrow> int" where
  "floorDiv a b =
     (let d = i64 (a sdiv b); r = a smod b
      in if r \<noteq> 0 \<and> ((r < 0) \<noteq> (b < 0)) then i64 (d - 1) else d)"

definition IntersectingBucketCount :: "time \<Rightarrow> time \<Rightarrow> duration \<Rightarrow> string + int" where
  "IntersectingBucketCount from_t to_t width =
     res_bind (reject_if (width \<le> 0) ''bucket width must be positive'') (\<lambda>_.
     res_bind (reject_if (\<not> from_t < to_t) ''invalid time range: from must be before to'') (\<lambda>_.
     let widthMicros = duration_Microseconds width in
     res_bind (reject_if (widthMicros \<le> 0) ''bucket width in microseconds must be positive'') (\<lambda>_.
     let fromMicros = ToMicrosecondsSinceEpoch from_t;
         toMinusOneMicros = i64 (ToMicrosecondsSinceEpoch to_t - 1)
     in Inr (i64 (i64 (floorDiv toMinusOneMicros widthMicros - floorDiv fromMicros widthMicros) + 1)))))"

section \<open>Query bounds\<close>

record TimeRange =
  tg_From :: time
  tg_To :: time

definition year_bad :: "time \<Rightarrow> bool" where
  "year_bad t \<longleftrightarrow> time_Year t < 1 \<or> 9999 < time_Year t"

text \<open>The instants are kept without a zone, so the year in the local zone is the year in UTC; the parsers return UTC times.\<close>

definition ValidateHistoryTimeRange :: "TimeRange \<Rightarrow> Resolution \<Rightarrow> duration \<Rightarrow> duration \<Rightarrow> int \<Rightarrow> read_error option" where
  "ValidateHistoryTimeRange tr res maxRange rawWindow maxPoints =
     (let f = tg_From tr; t = tg_To tr in
      if year_bad f \<or> year_bad t then Some ErrHistoryInvalidInput
      else if time_Nanosecond f smod 1000 \<noteq> 0 \<or> time_Nanosecond t smod 1000 \<noteq> 0 then Some ErrHistoryInvalidInput
      else if \<not> f < t then Some ErrHistoryInvalidInput
      else
        (let diffSec = i64 (time_Unix t - time_Unix f); maxSec = maxRange sdiv nsPerSecond in
         if i64 (maxSec + 1) < diffSec then Some ErrHistoryRangeTooLarge
         else
           (let diffMicros = i64 (ToMicrosecondsSinceEpoch t - ToMicrosecondsSinceEpoch f) in
            if duration_Microseconds maxRange < diffMicros then Some ErrHistoryRangeTooLarge
            else if \<not> Resolution_Valid res then Some ErrHistoryInvalidResolution
            else if res = ResolutionRaw then
              (if duration_Microseconds rawWindow < diffMicros then Some ErrHistoryRawLimitExceeded else None)
            else if res \<noteq> ResolutionAuto then
              (case ResolutionDuration res of
                 None \<Rightarrow> Some ErrHistoryInvalidResolution
               | Some w \<Rightarrow>
                   (case IntersectingBucketCount f t w of
                      Inl _ \<Rightarrow> Some ErrHistoryInvalidInput
                    | Inr count \<Rightarrow> if maxPoints < count then Some ErrHistoryResolutionTooFine else None))
            else None)))"

record TelemetryHistoryQuery =
  hq_GatewayID :: string
  hq_SensorID :: string
  hq_Range :: TimeRange
  hq_Resolution :: Resolution
  hq_MaxPoints :: int

record RawSamplePoint =
  rp_MeasuredAt :: time
  rp_Value :: rat
  rp_SequenceNum :: int
  rp_BootID :: "uuid option"
  rp_MessageID :: "uuid option"
  rp_SampleIndex :: "int option"

record BucketSamplePoint =
  bp_BucketStart :: time
  bp_Avg :: rat
  bp_Min :: rat
  bp_Max :: rat
  bp_Count :: int

record TelemetryHistoryResult =
  hr_GatewayID :: string
  hr_SensorID :: string
  hr_Unit :: "string option"
  hr_From :: time
  hr_To :: time
  hr_Mode :: string
  hr_Resolution :: string
  hr_PointCount :: int
  hr_RawPoints :: "RawSamplePoint list"
  hr_BucketPoints :: "BucketSamplePoint list"

record ResolvedSensor =
  rs_GatewayID :: string
  rs_SensorID :: string
  rs_Unit :: "string option"

section \<open>Preparation\<close>

definition MaxHistoryQueryTimeout :: duration where "MaxHistoryQueryTimeout = 5 * nsPerSecond"
definition MaxHistoryMaxRange :: duration where "MaxHistoryMaxRange = 744 * 3600 * nsPerSecond"
definition MaxHistoryRawWindow :: duration where "MaxHistoryRawWindow = 10 * nsPerSecond"
definition MinHistoryPointsLowerLimit :: int where "MinHistoryPointsLowerLimit = 100"
definition MaxHistoryPointsUpperLimit :: int where "MaxHistoryPointsUpperLimit = 2000"

lemmas history_bounds = MaxHistoryQueryTimeout_def MaxHistoryMaxRange_def MaxHistoryRawWindow_def
  MinHistoryPointsLowerLimit_def MaxHistoryPointsUpperLimit_def

record HistoryPreparationConfig =
  hc_QueryTimeout :: duration
  hc_MaxRange :: duration
  hc_RawWindow :: duration
  hc_MinPoints :: int
  hc_MaxPoints :: int

definition DefaultHistoryPreparationConfig :: HistoryPreparationConfig where
  "DefaultHistoryPreparationConfig =
     \<lparr>hc_QueryTimeout = MaxHistoryQueryTimeout, hc_MaxRange = MaxHistoryMaxRange, hc_RawWindow = MaxHistoryRawWindow,
      hc_MinPoints = MinHistoryPointsLowerLimit, hc_MaxPoints = MaxHistoryPointsUpperLimit\<rparr>"

definition ValidateHistoryPreparationConfig :: "HistoryPreparationConfig \<Rightarrow> string option" where
  "ValidateHistoryPreparationConfig cfg =
     (if hc_QueryTimeout cfg \<le> 0 then Some ''HISTORY_QUERY_TIMEOUT must be a positive duration''
      else if MaxHistoryQueryTimeout < hc_QueryTimeout cfg then Some ''HISTORY_QUERY_TIMEOUT cannot exceed contract hard cap of 5s''
      else if hc_MaxRange cfg \<le> 0 then Some ''HISTORY_MAX_RANGE must be a positive duration''
      else if MaxHistoryMaxRange < hc_MaxRange cfg then Some ''HISTORY_MAX_RANGE cannot exceed contract hard cap of 744h0m0s''
      else if hc_RawWindow cfg \<le> 0 then Some ''HISTORY_RAW_WINDOW must be a positive duration''
      else if MaxHistoryRawWindow < hc_RawWindow cfg then Some ''HISTORY_RAW_WINDOW cannot exceed contract hard cap of 10s''
      else if hc_MaxRange cfg < hc_RawWindow cfg then Some ''HISTORY_RAW_WINDOW cannot exceed HISTORY_MAX_RANGE''
      else if hc_MinPoints cfg < MinHistoryPointsLowerLimit then Some ''HISTORY_MIN_POINTS cannot be less than contract lower limit of 100''
      else if MaxHistoryPointsUpperLimit < hc_MinPoints cfg then Some ''HISTORY_MIN_POINTS cannot exceed contract hard cap of 2000''
      else if MaxHistoryPointsUpperLimit < hc_MaxPoints cfg then Some ''HISTORY_MAX_POINTS cannot exceed contract hard cap of 2000''
      else if hc_MaxPoints cfg < hc_MinPoints cfg then Some ''HISTORY_MIN_POINTS must be less than or equal to HISTORY_MAX_POINTS''
      else None)"

definition NewHistoryPreparationConfig :: "duration \<Rightarrow> duration \<Rightarrow> duration \<Rightarrow> int \<Rightarrow> int \<Rightarrow> string + HistoryPreparationConfig" where
  "NewHistoryPreparationConfig timeout maxRange rawWindow minPoints maxPoints =
     (let cfg = \<lparr>hc_QueryTimeout = timeout, hc_MaxRange = maxRange, hc_RawWindow = rawWindow, hc_MinPoints = minPoints, hc_MaxPoints = maxPoints\<rparr>
      in case ValidateHistoryPreparationConfig cfg of Some e \<Rightarrow> Inl e | None \<Rightarrow> Inr cfg)"

text \<open>
  The points of a request where the context is looked at. Reads are numbered within a request: the
  raw probe of an automatic resolution is read 0 and the bucket read after it read 1.
\<close>

datatype hist_point =
    PtPrepared | PtResolveFailed | PtResolved | PtCallbackDone | PtExecute | PtBetweenReads | PtCaptured
  | PtReadStart nat | PtReadValidated nat | PtQueried nat | PtRow nat nat | PtRowsDone nat

type_synonym hist_ctx = "hist_point \<Rightarrow> ctx_error option"

definition ctx_wrap :: "read_error \<Rightarrow> ctx_error \<Rightarrow> read_error" where
  "ctx_wrap dependency c = JoinErr [dependency, ContextErr c]"

text \<open>\<open>if ctx.Err() != nil { return fmt.Errorf("%w: %w", ErrHistoryDependency, ctx.Err()) }\<close>\<close>

definition ctx_check :: "hist_ctx \<Rightarrow> hist_point \<Rightarrow> read_error + unit" where
  "ctx_check ctx p = (case ctx p of None \<Rightarrow> Inr () | Some c \<Rightarrow> Inl (ctx_wrap ErrHistoryDependency c))"

text \<open>What preparation returns after the callback: the callback's result unless the context is done.\<close>

definition after_callback :: "read_error \<Rightarrow> ctx_error option \<Rightarrow> read_error + 'a \<Rightarrow> read_error + 'a" where
  "after_callback dependency done r =
     (case done of
        None \<Rightarrow> r
      | Some c \<Rightarrow>
          (case r of
             Inl e \<Rightarrow> if \<not> errors_Is e (ContextErr c) then Inl (JoinErr [dependency, ContextErr c, e]) else Inl (ctx_wrap dependency c)
           | Inr _ \<Rightarrow> Inl (ctx_wrap dependency c)))"

definition query_invalid :: "HistoryPreparationConfig \<Rightarrow> uuid \<Rightarrow> TelemetryHistoryQuery \<Rightarrow> read_error option" where
  "query_invalid cfg actor q =
     (if actor = uuid_Nil then Some ErrHistoryNilActor
      else if \<not> ValidateGatewayID (hq_GatewayID q) then Some ErrHistoryInvalidInput
      else if \<not> ValidateSensorID (hq_SensorID q) then Some ErrHistoryInvalidInput
      else if hq_MaxPoints q < hc_MinPoints cfg \<or> hc_MaxPoints cfg < hq_MaxPoints q then Some ErrHistoryInvalidInput
      else ValidateHistoryTimeRange (hq_Range q) (hq_Resolution q) (hc_MaxRange cfg) (hc_RawWindow cfg) (hq_MaxPoints q))"

definition PrepareTelemetryHistory ::
  "HistoryPreparationConfig \<Rightarrow> hist_ctx \<Rightarrow> (uuid \<Rightarrow> string \<Rightarrow> string \<Rightarrow> read_error + ResolvedSensor option) \<Rightarrow>
     uuid \<Rightarrow> TelemetryHistoryQuery \<Rightarrow> (ResolvedSensor \<Rightarrow> TelemetryHistoryQuery \<Rightarrow> read_error + 'a) \<Rightarrow> read_error + 'a" where
  "PrepareTelemetryHistory cfg ctx resolver actor q fn =
     (case query_invalid cfg actor q of
        Some e \<Rightarrow> Inl e
      | None \<Rightarrow>
          res_bind (ctx_check ctx PtPrepared) (\<lambda>_.
          case resolver actor (hq_GatewayID q) (hq_SensorID q) of
            Inl e \<Rightarrow> (case ctx PtResolveFailed of Some c \<Rightarrow> Inl (ctx_wrap ErrHistoryDependency c) | None \<Rightarrow> Inl e)
          | Inr None \<Rightarrow> Inl ErrHistoryNotFound
          | Inr (Some sensor) \<Rightarrow>
              res_bind (ctx_check ctx PtResolved) (\<lambda>_.
              after_callback ErrHistoryDependency (ctx PtCallbackDone) (fn sensor q))))"

section \<open>The service\<close>

definition AllowedBucketResolutions :: "Resolution list" where
  "AllowedBucketResolutions =
     [Resolution100ms, Resolution1s, Resolution10s, Resolution1m, Resolution5m, Resolution15m, Resolution1h, Resolution6h, Resolution1d]"

fun first_fitting :: "time \<Rightarrow> time \<Rightarrow> int \<Rightarrow> Resolution list \<Rightarrow> read_error + Resolution" where
  "first_fitting f t maxPoints [] = Inl ErrHistoryResolutionTooFine"
| "first_fitting f t maxPoints (res # rest) =
     (case ResolutionDuration res of
        None \<Rightarrow> first_fitting f t maxPoints rest
      | Some dur \<Rightarrow>
          (case IntersectingBucketCount f t dur of
             Inl _ \<Rightarrow> Inl ErrHistoryInvalidInput
           | Inr count \<Rightarrow> if count \<le> maxPoints then Inr res else first_fitting f t maxPoints rest))"

definition SelectAutoBucketResolution :: "time \<Rightarrow> time \<Rightarrow> int \<Rightarrow> read_error + Resolution" where
  "SelectAutoBucketResolution f t maxPoints =
     (if maxPoints \<le> 0 then Inl ErrHistoryInvalidInput
      else if \<not> f < t then Inl ErrHistoryInvalidInput
      else first_fitting f t maxPoints AllowedBucketResolutions)"

text \<open>A reader: the number of the read within the request, actor and query.\<close>

type_synonym reader = "nat \<Rightarrow> uuid \<Rightarrow> TelemetryHistoryQuery \<Rightarrow> read_error + TelemetryHistoryResult"

definition bucket_fallback :: "reader \<Rightarrow> nat \<Rightarrow> uuid \<Rightarrow> TelemetryHistoryQuery \<Rightarrow> read_error + TelemetryHistoryResult" where
  "bucket_fallback reader k actor q =
     res_bind (SelectAutoBucketResolution (tg_From (hq_Range q)) (tg_To (hq_Range q)) (hq_MaxPoints q)) (\<lambda>bucketRes.
     reader k actor (q\<lparr>hq_Resolution := bucketRes\<rparr>))"

definition executeEffectiveQuery ::
  "HistoryPreparationConfig \<Rightarrow> hist_ctx \<Rightarrow> reader \<Rightarrow> uuid \<Rightarrow> TelemetryHistoryQuery \<Rightarrow> read_error + TelemetryHistoryResult" where
  "executeEffectiveQuery cfg ctx reader actor q =
     res_bind (ctx_check ctx PtExecute) (\<lambda>_.
     if hq_Resolution q = ResolutionRaw then reader 0 actor q
     else if hq_Resolution q = ResolutionAuto then
       (let diffMicros = i64 (ToMicrosecondsSinceEpoch (tg_To (hq_Range q)) - ToMicrosecondsSinceEpoch (tg_From (hq_Range q))) in
        if diffMicros \<le> duration_Microseconds (hc_RawWindow cfg) then
          (case reader 0 actor (q\<lparr>hq_Resolution := ResolutionRaw\<rparr>) of
             Inr r \<Rightarrow> Inr r
           | Inl e \<Rightarrow>
               if \<not> errors_Is e ErrHistoryRawLimitExceeded then Inl e
               else res_bind (ctx_check ctx PtBetweenReads) (\<lambda>_. bucket_fallback reader 1 actor q))
        else bucket_fallback reader 1 actor q)
     else reader 0 actor q)"

definition GetTelemetryHistory ::
  "HistoryPreparationConfig \<Rightarrow> hist_ctx \<Rightarrow> (uuid \<Rightarrow> string \<Rightarrow> string \<Rightarrow> read_error + ResolvedSensor option) \<Rightarrow> reader \<Rightarrow>
     uuid \<Rightarrow> TelemetryHistoryQuery \<Rightarrow> read_error + TelemetryHistoryResult" where
  "GetTelemetryHistory cfg ctx resolver reader actor q =
     (if actor = uuid_Nil then Inl ErrHistoryNilActor
      else PrepareTelemetryHistory cfg ctx resolver actor q (\<lambda>_ prepQuery.
        res_bind (executeEffectiveQuery cfg ctx reader actor prepQuery) (\<lambda>res.
        res_bind (ctx_check ctx PtCaptured) (\<lambda>_. Inr res))))"

definition ExecuteEffectiveHistoryQuery ::
  "HistoryPreparationConfig \<Rightarrow> hist_ctx \<Rightarrow> reader \<Rightarrow> uuid \<Rightarrow> TelemetryHistoryQuery \<Rightarrow> read_error + TelemetryHistoryResult" where
  "ExecuteEffectiveHistoryQuery cfg ctx reader actor q =
     res_bind (ctx_check ctx PtPrepared) (\<lambda>_.
     case query_invalid cfg actor q of
       Some e \<Rightarrow> Inl e
     | None \<Rightarrow>
         res_bind (executeEffectiveQuery cfg ctx reader actor q) (\<lambda>res.
         res_bind (ctx_check ctx PtCaptured) (\<lambda>_. Inr res)))"

end
