(* ===== verification/TwinIdentity.thy ===== *)
theory TwinIdentity
  imports History
begin

text \<open>
  Public identities of Digital Twins (\<open>digitaltwin/identity.go\<close>) and the protocol caps of the read
  endpoints (\<open>digitaltwin/protocol.go\<close>).
\<close>

definition MaxRawQueryBytes :: int where "MaxRawQueryBytes = 1024"
definition MaxDecodedURNLength :: int where "MaxDecodedURNLength = 160"
definition ContractDefaultMaxPoints :: int where "ContractDefaultMaxPoints = 1000"
definition ContractDefaultLimit :: int where "ContractDefaultLimit = 50"
definition ContractMaxLimit :: int where "ContractMaxLimit = 200"

lemmas contract_defs = MaxRawQueryBytes_def MaxDecodedURNLength_def ContractDefaultMaxPoints_def ContractDefaultLimit_def ContractMaxLimit_def

definition GatewayURNPrefix :: string where "GatewayURNPrefix = ''urn:ngsi-ld:Gateway:''"
definition SensorURNPrefix :: string where "SensorURNPrefix = ''urn:ngsi-ld:Sensor:''"

type_synonym EntityType = string

definition EntityTypeGateway :: EntityType where "EntityTypeGateway = ''Gateway''"
definition EntityTypeSensor :: EntityType where "EntityTypeSensor = ''Sensor''"

definition EntityType_Valid :: "EntityType \<Rightarrow> bool" where
  "EntityType_Valid t \<longleftrightarrow> t = EntityTypeGateway \<or> t = EntityTypeSensor"

record ParsedIdentity =
  pi_Type :: EntityType
  pi_GatewayID :: string
  pi_SensorID :: string
  pi_URN :: string

definition ParseEntityURN :: "string \<Rightarrow> read_error + ParsedIdentity" where
  "ParseEntityURN raw =
     (if raw = [] \<or> MaxDecodedURNLength < int (length raw) then Inl ErrInvalidInput
      else if hasPrefix raw GatewayURNPrefix then
        (let remainder = drop (length GatewayURNPrefix) raw in
         if remainder = [] \<or> CHR '':'' \<in> set remainder then Inl ErrInvalidInput
         else if \<not> ValidateGatewayID remainder then Inl ErrInvalidInput
         else Inr \<lparr>pi_Type = EntityTypeGateway, pi_GatewayID = remainder, pi_SensorID = [], pi_URN = raw\<rparr>)
      else if hasPrefix raw SensorURNPrefix then
        (let remainder = drop (length SensorURNPrefix) raw; parts = go_split CHR '':'' remainder in
         if length parts \<noteq> 2 then Inl ErrInvalidInput
         else
           (let gatewayID = parts ! 0; sensorID = parts ! 1 in
            if gatewayID = [] \<or> sensorID = [] then Inl ErrInvalidInput
            else if \<not> ValidateGatewayID gatewayID then Inl ErrInvalidInput
            else if \<not> ValidateSensorID sensorID then Inl ErrInvalidInput
            else Inr \<lparr>pi_Type = EntityTypeSensor, pi_GatewayID = gatewayID, pi_SensorID = sensorID, pi_URN = raw\<rparr>))
      else Inl ErrInvalidInput)"

lemma valid_id_facts:
  "ValidateGatewayID g \<Longrightarrow> g \<noteq> [] \<and> CHR '':'' \<notin> set g \<and> length g \<le> 64 \<and> list_all id_char g"
  "ValidateSensorID s \<Longrightarrow> s \<noteq> [] \<and> CHR '':'' \<notin> set s \<and> length s \<le> 64 \<and> list_all id_char s"
  using gatewayIDPattern_chars id_char_no_colon unfolding ValidateGatewayID_def ValidateSensorID_def by blast+

definition gateway_identity :: "string \<Rightarrow> ParsedIdentity" where
  "gateway_identity g = \<lparr>pi_Type = EntityTypeGateway, pi_GatewayID = g, pi_SensorID = [], pi_URN = GatewayEntityID g\<rparr>"

definition sensor_identity :: "string \<Rightarrow> string \<Rightarrow> ParsedIdentity" where
  "sensor_identity g s = \<lparr>pi_Type = EntityTypeSensor, pi_GatewayID = g, pi_SensorID = s, pi_URN = SensorEntityID g s\<rparr>"

lemma ParseEntityURN_gateway: "ValidateGatewayID g \<Longrightarrow> ParseEntityURN (GatewayEntityID g) = Inr (gateway_identity g)"
  using valid_id_facts(1) [of g]
  by (simp add: ParseEntityURN_def GatewayEntityID_def GatewayURNPrefix_def hasPrefix_def contract_defs gateway_identity_def)

lemma ParseEntityURN_sensor:
  "ValidateGatewayID g \<Longrightarrow> ValidateSensorID s \<Longrightarrow> ParseEntityURN (SensorEntityID g s) = Inr (sensor_identity g s)"
  using valid_id_facts(1) [of g] valid_id_facts(2) [of s]
  by (simp add: ParseEntityURN_def SensorEntityID_def GatewayURNPrefix_def SensorURNPrefix_def hasPrefix_def contract_defs sensor_identity_def
      go_split_append_sep go_split_no_sep)

text \<open>Exactly the printed forms of valid identifiers are accepted.\<close>

lemma two_parts: "length (go_split c s) = 2 \<Longrightarrow> s = go_split c s ! 0 @ c # go_split c s ! 1"
proof -
  assume "length (go_split c s) = 2"
  then obtain a b where ab: "go_split c s = [a, b]" by (auto simp: numeral_2_eq_2 length_Suc_conv)
  then show ?thesis using join_go_split [of c s] by simp
qed

lemma ParseEntityURN_Inr:
  assumes "ParseEntityURN raw = Inr p"
  obtains (gateway) g where "ValidateGatewayID g" "raw = GatewayEntityID g" "p = gateway_identity g"
  | (sensor) g s where "ValidateGatewayID g" "ValidateSensorID s" "raw = SensorEntityID g s" "p = sensor_identity g s"
proof (cases "hasPrefix raw GatewayURNPrefix")
  case True
  then obtain r where "raw = GatewayURNPrefix @ r" by (auto simp: hasPrefix_def prefix_def)
  then show ?thesis using gateway [of r] assms True
    by (auto simp: ParseEntityURN_def Let_def GatewayEntityID_def GatewayURNPrefix_def gateway_identity_def split: if_splits)
next
  case False
  then have "hasPrefix raw SensorURNPrefix" using assms by (auto simp: ParseEntityURN_def split: if_splits)
  then obtain r where r: "raw = SensorURNPrefix @ r" by (auto simp: hasPrefix_def prefix_def)
  define parts where "parts = go_split CHR '':'' r"
  have *: "length parts = 2" "ValidateGatewayID (parts ! 0)" "ValidateSensorID (parts ! 1)"
      "p = \<lparr>pi_Type = EntityTypeSensor, pi_GatewayID = parts ! 0, pi_SensorID = parts ! 1, pi_URN = raw\<rparr>"
    using assms False r by (auto simp: ParseEntityURN_def Let_def parts_def split: if_splits)
  then have "raw = SensorEntityID (parts ! 0) (parts ! 1)"
    using two_parts [of "CHR '':''" r] r by (simp add: parts_def SensorEntityID_def SensorURNPrefix_def)
  then show ?thesis using sensor * by (simp add: sensor_identity_def)
qed

end
