(* ===== verification/HistoryParser.thy ===== *)
theory HistoryParser
  imports TwinIdentity MeasuredAt
begin

text \<open>
  The query strings of the history and state endpoints (\<open>httpserver/history_query_parser.go\<close>) and
  the configured read bounds (\<open>config/read_bounds.go\<close>). The text of an error is left out: a
  \<open>QueryError\<close> is its code and the error it wraps. \<open>url.ParseQuery\<close> is Go's: pairs separated by
  \<open>&\<close>, percent escapes and \<open>+\<close>; the \<open>url.Values\<close> map is the list of decoded pairs.
\<close>

section \<open>Read bounds\<close>

record HistoryConfig =
  hg_QueryTimeout :: duration
  hg_MaxRange :: duration
  hg_RawWindow :: duration
  hg_DefaultPoints :: int
  hg_MaxPoints :: int
  hg_MinPoints :: int

definition DefaultHistoryConfig :: HistoryConfig where
  "DefaultHistoryConfig = \<lparr>hg_QueryTimeout = MaxHistoryQueryTimeout, hg_MaxRange = MaxHistoryMaxRange, hg_RawWindow = MaxHistoryRawWindow,
     hg_DefaultPoints = ContractDefaultMaxPoints, hg_MaxPoints = MaxHistoryPointsUpperLimit, hg_MinPoints = MinHistoryPointsLowerLimit\<rparr>"

definition ValidateHistoryConfig :: "HistoryConfig \<Rightarrow> string option" where
  "ValidateHistoryConfig cfg =
     (if hg_QueryTimeout cfg \<le> 0 then Some ''HISTORY_QUERY_TIMEOUT must be a positive duration''
      else if MaxHistoryQueryTimeout < hg_QueryTimeout cfg then Some ''HISTORY_QUERY_TIMEOUT cannot exceed contract hard cap of 5s''
      else if hg_MaxRange cfg \<le> 0 then Some ''HISTORY_MAX_RANGE must be a positive duration''
      else if MaxHistoryMaxRange < hg_MaxRange cfg then Some ''HISTORY_MAX_RANGE cannot exceed contract hard cap of 744h0m0s''
      else if hg_RawWindow cfg \<le> 0 then Some ''HISTORY_RAW_WINDOW must be a positive duration''
      else if MaxHistoryRawWindow < hg_RawWindow cfg then Some ''HISTORY_RAW_WINDOW cannot exceed contract hard cap of 10s''
      else if hg_MaxRange cfg < hg_RawWindow cfg then Some ''HISTORY_RAW_WINDOW cannot exceed HISTORY_MAX_RANGE''
      else if hg_MinPoints cfg < MinHistoryPointsLowerLimit then Some ''HISTORY_MIN_POINTS cannot be less than contract lower limit of 100''
      else if MaxHistoryPointsUpperLimit < hg_MinPoints cfg then Some ''HISTORY_MIN_POINTS cannot exceed contract hard cap of 2000''
      else if hg_DefaultPoints cfg < hg_MinPoints cfg then Some ''HISTORY_DEFAULT_POINTS must be greater than or equal to HISTORY_MIN_POINTS''
      else if MaxHistoryPointsUpperLimit < hg_MaxPoints cfg then Some ''HISTORY_MAX_POINTS cannot exceed contract hard cap of 2000''
      else if hg_MaxPoints cfg < hg_DefaultPoints cfg then Some ''HISTORY_DEFAULT_POINTS must be less than or equal to HISTORY_MAX_POINTS''
      else None)"

definition ToTelemetryPreparationConfig :: "HistoryConfig \<Rightarrow> HistoryPreparationConfig" where
  "ToTelemetryPreparationConfig c =
     \<lparr>hc_QueryTimeout = hg_QueryTimeout c, hc_MaxRange = hg_MaxRange c, hc_RawWindow = hg_RawWindow c,
      hc_MinPoints = hg_MinPoints c, hc_MaxPoints = hg_MaxPoints c\<rparr>"

definition NewHistoryQueryParser :: "HistoryConfig option \<Rightarrow> string + HistoryConfig" where
  "NewHistoryQueryParser cfg =
     (case cfg of
        None \<Rightarrow> Inl ''history config must not be nil''
      | Some c \<Rightarrow> (case ValidateHistoryConfig c of Some e \<Rightarrow> Inl (''invalid history config: '' @ e) | None \<Rightarrow> Inr c))"

section \<open>Query strings\<close>

record QueryError =
  qe_Code :: string
  qe_Err :: read_error

definition invalid_request :: "read_error \<Rightarrow> QueryError" where
  "invalid_request e = \<lparr>qe_Code = ''invalid_request'', qe_Err = e\<rparr>"

definition is_hex :: "char \<Rightarrow> bool" where
  "is_hex c \<longleftrightarrow> (let n = of_char c :: nat in 48 \<le> n \<and> n \<le> 57 \<or> 97 \<le> n \<and> n \<le> 102 \<or> 65 \<le> n \<and> n \<le> 70)"

definition unhex :: "char \<Rightarrow> nat" where
  "unhex c = (let n = of_char c :: nat in if n \<le> 57 then n - 48 else if 97 \<le> n then n - 97 + 10 else n - 65 + 10)"

text \<open>\<open>url.QueryUnescape\<close>.\<close>

fun QueryUnescape :: "string \<Rightarrow> string option" where
  "QueryUnescape [] = Some []"
| "QueryUnescape (c # cs) =
     (if c = CHR ''%'' then
        (case cs of
           a # b # rest \<Rightarrow>
             if is_hex a \<and> is_hex b then map_option (Cons (char_of (16 * unhex a + unhex b))) (QueryUnescape rest) else None
         | _ \<Rightarrow> None)
      else map_option (Cons (if c = CHR ''+'' then CHR '' '' else c)) (QueryUnescape cs))"

text \<open>\<open>strings.Cut(key, "=")\<close> on one pair.\<close>

definition cut_pair :: "string \<Rightarrow> string \<times> string" where
  "cut_pair s = (takeWhile (\<lambda>c. c \<noteq> CHR ''='') s, drop 1 (dropWhile (\<lambda>c. c \<noteq> CHR ''='') s))"

definition parse_pair :: "string \<Rightarrow> (string \<times> string) option" where
  "parse_pair s =
     (if CHR '';'' \<in> set s then None
      else (case cut_pair s of (k, v) \<Rightarrow>
        (case QueryUnescape k of None \<Rightarrow> None
         | Some k' \<Rightarrow> (case QueryUnescape v of None \<Rightarrow> None | Some v' \<Rightarrow> Some (k', v')))))"

text \<open>\<open>url.ParseQuery\<close>: \<open>None\<close> when any pair is malformed, which is all the callers look at.\<close>

definition url_ParseQuery :: "string \<Rightarrow> (string \<times> string) list option" where
  "url_ParseQuery query =
     (let ps = map parse_pair (filter (\<lambda>s. s \<noteq> []) (go_split CHR ''&'' query))
      in if None \<in> set ps then None else Some (map the ps))"

definition url_values :: "(string \<times> string) list \<Rightarrow> string \<Rightarrow> string list" where
  "url_values pairs k = map snd (filter (\<lambda>p. fst p = k) pairs)"

type_synonym params = "string \<rightharpoonup> string"

text \<open>
  The loop ranges over the map in an unspecified order; every refusal has the same code and wrapped
  error, so the order is not observable.
\<close>

definition param_bad :: "string list \<Rightarrow> (string \<times> string) list \<Rightarrow> string \<Rightarrow> bool" where
  "param_bad allowedKeys pairs k \<longleftrightarrow>
     k \<notin> set allowedKeys \<or> 1 < length (url_values pairs k) \<or> url_values pairs k = [[]]"

definition parseRawQuery :: "string \<Rightarrow> string list \<Rightarrow> QueryError + params" where
  "parseRawQuery rawQuery allowedKeys =
     (if MaxRawQueryBytes < int (length rawQuery) then Inl (invalid_request ErrHistoryInvalidInput)
      else if CHR '';'' \<in> set rawQuery then Inl (invalid_request ErrHistoryInvalidInput)
      else
        (case url_ParseQuery rawQuery of
           None \<Rightarrow> Inl (invalid_request ErrHistoryInvalidInput)
         | Some parsed \<Rightarrow>
             if list_ex (\<lambda>p. param_bad allowedKeys parsed (fst p)) parsed then Inl (invalid_request ErrHistoryInvalidInput)
             else Inr (\<lambda>k. case url_values parsed k of [v] \<Rightarrow> Some v | _ \<Rightarrow> None)))"

section \<open>Integers and timestamps\<close>

definition parseASCIIInteger :: "string \<Rightarrow> int option" where
  "parseASCIIInteger s = (if s = [] then None else if \<not> list_all is_digit s then None else strconv_ParseInt 64 s)"

text \<open>The lexical part both timestamp parsers share; \<open>delims\<close> are the accepted date-time delimiters.\<close>

definition rfc3339_lexical :: "char list \<Rightarrow> string \<Rightarrow> bool" where
  "rfc3339_lexical delims s \<longleftrightarrow>
     20 \<le> length s \<and> list_all (\<lambda>i. is_digit (s ! i)) [0, 1, 2, 3] \<and>
     1 \<le> digit_val (s ! 0) * 1000 + digit_val (s ! 1) * 100 + digit_val (s ! 2) * 10 + digit_val (s ! 3) \<and>
     s ! 4 = CHR ''-'' \<and> s ! 7 = CHR ''-'' \<and> is_digit (s ! 5) \<and> is_digit (s ! 6) \<and> is_digit (s ! 8) \<and> is_digit (s ! 9) \<and>
     s ! 10 \<in> set delims \<and> s ! 13 = CHR '':'' \<and> s ! 16 = CHR '':'' \<and>
     list_all (\<lambda>i. is_digit (s ! i)) [11, 12, 14, 15, 17, 18]"

text \<open>The index of the offset indicator, after an optional fraction of one to six digits.\<close>

definition offset_index :: "string \<Rightarrow> nat option" where
  "offset_index s =
     (if s ! 19 = CHR ''.'' then
        (let n = length (takeWhile is_digit (drop 20 s)) in if n < 1 \<or> 6 < n then None else Some (20 + n))
      else Some 19)"

definition finish_timestamp :: "string \<Rightarrow> time option" where
  "finish_timestamp s =
     (case time_Parse_RFC3339Nano s of
        None \<Rightarrow> None
      | Some utc \<Rightarrow> if year_bad utc then None else Some (utc - utc mod 1000))"

definition parseRFC3339Micro :: "string \<Rightarrow> time option" where
  "parseRFC3339Micro s =
     (if \<not> rfc3339_lexical [CHR ''T'', CHR ''t''] s then None
      else
        (case offset_index s of
           None \<Rightarrow> None
         | Some idx \<Rightarrow>
             if length s \<le> idx then None
             else if s ! idx = CHR ''Z'' \<or> s ! idx = CHR ''z'' then
               (if idx \<noteq> length s - 1 then None
                else finish_timestamp (if s ! idx = CHR ''z'' then take idx s @ ''Z'' else s))
             else if s ! idx = CHR ''+'' \<or> s ! idx = CHR ''-'' then
               (if idx + 6 \<noteq> length s then None
                else if s ! (idx + 3) \<noteq> CHR '':'' then None
                else if \<not> list_all (\<lambda>i. is_digit (s ! i)) [idx + 1, idx + 2, idx + 4, idx + 5] then None
                else if 23 < digit_val (s ! (idx + 1)) * 10 + digit_val (s ! (idx + 2)) \<or>
                  59 < digit_val (s ! (idx + 4)) * 10 + digit_val (s ! (idx + 5)) then None
                else finish_timestamp s)
             else None))"

definition parseRFC3339MicroUTCZ :: "string \<Rightarrow> time option" where
  "parseRFC3339MicroUTCZ s =
     (if \<not> rfc3339_lexical [CHR ''T''] s then None
      else
        (case offset_index s of
           None \<Rightarrow> None
         | Some idx \<Rightarrow>
             if length s \<le> idx then None
             else if s ! idx \<noteq> CHR ''Z'' then None
             else if idx \<noteq> length s - 1 then None
             else finish_timestamp s))"

section \<open>Telemetry history\<close>

text \<open>A parameter that must be present and not empty.\<close>

definition required_param :: "params \<Rightarrow> string \<Rightarrow> QueryError + string" where
  "required_param params k =
     (case params k of
        None \<Rightarrow> Inl (invalid_request ErrHistoryInvalidInput)
      | Some v \<Rightarrow> if v = [] then Inl (invalid_request ErrHistoryInvalidInput) else Inr v)"

definition parse_max_points :: "HistoryConfig \<Rightarrow> params \<Rightarrow> QueryError + int" where
  "parse_max_points cfg params =
     (case params ''max_points'' of
        None \<Rightarrow> Inr (hg_DefaultPoints cfg)
      | Some pointsVal \<Rightarrow>
          (case parseASCIIInteger pointsVal of
             None \<Rightarrow> Inl (invalid_request ErrHistoryInvalidInput)
           | Some parsed \<Rightarrow>
               if parsed < hg_MinPoints cfg \<or> hg_MaxPoints cfg < parsed then Inl (invalid_request ErrHistoryInvalidInput)
               else Inr parsed))"

definition range_error :: "read_error \<Rightarrow> QueryError" where
  "range_error err =
     (if errors_Is err ErrHistoryRangeTooLarge then \<lparr>qe_Code = ''range_too_large'', qe_Err = err\<rparr>
      else if errors_Is err ErrHistoryRawLimitExceeded then \<lparr>qe_Code = ''raw_limit_exceeded'', qe_Err = err\<rparr>
      else if errors_Is err ErrHistoryResolutionTooFine then \<lparr>qe_Code = ''resolution_too_fine'', qe_Err = err\<rparr>
      else if errors_Is err ErrHistoryInvalidResolution then \<lparr>qe_Code = ''invalid_resolution'', qe_Err = err\<rparr>
      else invalid_request err)"

definition check_range :: "HistoryConfig \<Rightarrow> TimeRange \<Rightarrow> Resolution \<Rightarrow> int \<Rightarrow> QueryError + unit" where
  "check_range cfg tr res maxPoints =
     (case ValidateHistoryTimeRange tr res (hg_MaxRange cfg) (hg_RawWindow cfg) maxPoints of
        Some err \<Rightarrow> Inl (range_error err)
      | None \<Rightarrow> Inr ())"

definition parseCommonTimeAndResolution :: "HistoryConfig \<Rightarrow> params \<Rightarrow> QueryError + TimeRange \<times> Resolution \<times> int" where
  "parseCommonTimeAndResolution cfg params =
     res_bind (required_param params ''from'') (\<lambda>fromVal.
     res_bind (required_param params ''to'') (\<lambda>toVal.
     res_bind (ok_or (parseRFC3339Micro fromVal) (invalid_request ErrHistoryInvalidInput)) (\<lambda>fromTime.
     res_bind (ok_or (parseRFC3339Micro toVal) (invalid_request ErrHistoryInvalidInput)) (\<lambda>toTime.
     let res = (case params ''resolution'' of None \<Rightarrow> ResolutionAuto | Some r \<Rightarrow> r) in
     res_bind (reject_if (\<not> Resolution_Valid res) \<lparr>qe_Code = ''invalid_resolution'', qe_Err = ErrHistoryInvalidResolution\<rparr>) (\<lambda>_.
     res_bind (parse_max_points cfg params) (\<lambda>maxPoints.
     let tr = \<lparr>tg_From = fromTime, tg_To = toTime\<rparr> in
     res_bind (check_range cfg tr res maxPoints) (\<lambda>_. Inr (tr, res, maxPoints))))))))"

definition ParseTelemetryHistoryQuery :: "HistoryConfig \<Rightarrow> string \<Rightarrow> QueryError + TelemetryHistoryQuery" where
  "ParseTelemetryHistoryQuery cfg rawQuery =
     res_bind (parseRawQuery rawQuery [''gateway_id'', ''sensor_id'', ''from'', ''to'', ''resolution'', ''max_points'']) (\<lambda>params.
     res_bind (required_param params ''gateway_id'') (\<lambda>gatewayIDVal.
     res_bind (reject_if (\<not> ValidateGatewayID gatewayIDVal) (invalid_request ErrHistoryInvalidInput)) (\<lambda>_.
     res_bind (required_param params ''sensor_id'') (\<lambda>sensorIDVal.
     res_bind (reject_if (\<not> ValidateSensorID sensorIDVal) (invalid_request ErrHistoryInvalidInput)) (\<lambda>_.
     res_bind (parseCommonTimeAndResolution cfg params) (\<lambda>(tr, res, maxPoints).
     Inr \<lparr>hq_GatewayID = gatewayIDVal, hq_SensorID = sensorIDVal, hq_Range = tr, hq_Resolution = res, hq_MaxPoints = maxPoints\<rparr>))))))"

section \<open>Twin history\<close>

type_synonym HistorySelector = string

definition SelectorValue :: HistorySelector where "SelectorValue = ''value''"
definition SelectorSampleIntervalUS :: HistorySelector where "SelectorSampleIntervalUS = ''sample_interval_us''"

definition HistorySelector_Valid :: "HistorySelector \<Rightarrow> bool" where
  "HistorySelector_Valid s \<longleftrightarrow> s = SelectorValue \<or> s = SelectorSampleIntervalUS"

record TwinHistoryQuery =
  tq_EntityID :: string
  tq_Property :: HistorySelector
  tq_Range :: TimeRange
  tq_Resolution :: Resolution
  tq_MaxPoints :: int
  tq_EffectiveRawWindow :: duration

definition ParseTwinHistoryQuery :: "HistoryConfig \<Rightarrow> string \<Rightarrow> string \<Rightarrow> QueryError + TwinHistoryQuery" where
  "ParseTwinHistoryQuery cfg rawQuery entityID =
     (case ParseEntityURN entityID of
        Inl _ \<Rightarrow> Inl (invalid_request ErrInvalidInput)
      | Inr parsedEntity \<Rightarrow>
          res_bind (parseRawQuery rawQuery [''property'', ''from'', ''to'', ''resolution'', ''max_points'']) (\<lambda>params.
          res_bind (required_param params ''property'') (\<lambda>propertyVal.
          res_bind (reject_if (pi_Type parsedEntity = EntityTypeGateway) \<lparr>qe_Code = ''invalid_property'', qe_Err = ErrInvalidProperty\<rparr>) (\<lambda>_.
          res_bind (reject_if (propertyVal \<noteq> SelectorValue \<and> propertyVal \<noteq> SelectorSampleIntervalUS)
              \<lparr>qe_Code = ''invalid_property'', qe_Err = ErrInvalidProperty\<rparr>) (\<lambda>_.
          res_bind (parseCommonTimeAndResolution cfg params) (\<lambda>(tr, res, maxPoints).
          Inr \<lparr>tq_EntityID = entityID, tq_Property = propertyVal, tq_Range = tr, tq_Resolution = res, tq_MaxPoints = maxPoints,
            tq_EffectiveRawWindow = 0\<rparr>))))))"

record TwinStateQuery =
  sq_EntityID :: string

definition ParseTwinStateQuery :: "string \<Rightarrow> string \<Rightarrow> QueryError + TwinStateQuery" where
  "ParseTwinStateQuery rawQuery entityID =
     (if rawQuery \<noteq> [] then Inl (invalid_request ErrHistoryInvalidInput)
      else (case ParseEntityURN entityID of Inl _ \<Rightarrow> Inl (invalid_request ErrInvalidInput) | Inr _ \<Rightarrow> Inr \<lparr>sq_EntityID = entityID\<rparr>))"

section \<open>The temporal endpoint\<close>

record TemporalPresentationOptions =
  po_Format :: string
  po_AggrMethods :: "string list"
  po_PublicAttr :: string

definition CanonicalDurationsToResolution :: "string \<Rightarrow> Resolution option" where
  "CanonicalDurationsToResolution = map_of
     [(''PT0.1S'', Resolution100ms), (''PT1S'', Resolution1s), (''PT10S'', Resolution10s), (''PT1M'', Resolution1m),
      (''PT5M'', Resolution5m), (''PT15M'', Resolution15m), (''PT1H'', Resolution1h), (''PT6H'', Resolution6h), (''P1D'', Resolution1d)]"

definition all_aggr_methods :: "string list" where
  "all_aggr_methods = [''avg'', ''min'', ''max'', ''totalCount'']"

fun parse_aggr_methods :: "string list \<Rightarrow> string list \<Rightarrow> QueryError + string list" where
  "parse_aggr_methods [] selected = Inr selected"
| "parse_aggr_methods (tok # toks) selected =
     (let t = trimSpace tok in
      if t = [] then Inl (invalid_request ErrHistoryInvalidInput)
      else if t \<in> set selected then Inl (invalid_request ErrHistoryInvalidInput)
      else if t \<in> set all_aggr_methods then parse_aggr_methods toks (selected @ [t])
      else Inl (invalid_request ErrHistoryInvalidInput))"

definition parse_attrs :: "string \<Rightarrow> QueryError + HistorySelector \<times> string" where
  "parse_attrs attrsVal =
     (if CHR '','' \<in> set attrsVal then Inl (invalid_request ErrHistoryInvalidInput)
      else if attrsVal = ''measurement'' \<or> attrsVal = ''value'' then Inr (SelectorValue, ''measurement'')
      else if attrsVal = ''sample_interval_us'' then Inr (SelectorSampleIntervalUS, ''sample_interval_us'')
      else Inl \<lparr>qe_Code = ''invalid_property'', qe_Err = ErrInvalidProperty\<rparr>)"

definition parse_aggregation :: "params \<Rightarrow> QueryError + Resolution \<times> bool" where
  "parse_aggregation params =
     (case params ''aggrPeriodDuration'' of
        None \<Rightarrow> Inr (ResolutionRaw, False)
      | Some durVal \<Rightarrow>
          if durVal = [] then Inr (ResolutionRaw, False)
          else (case CanonicalDurationsToResolution durVal of
                  None \<Rightarrow> Inl \<lparr>qe_Code = ''invalid_resolution'', qe_Err = ErrHistoryInvalidResolution\<rparr>
                | Some mappedRes \<Rightarrow> Inr (mappedRes, True)))"

definition parse_methods :: "params \<Rightarrow> bool \<Rightarrow> QueryError + string list" where
  "parse_methods params isBucket =
     (if \<not> isBucket then (if params ''aggrMethods'' \<noteq> None then Inl (invalid_request ErrHistoryInvalidInput) else Inr [])
      else
        (case params ''aggrMethods'' of
           None \<Rightarrow> Inr all_aggr_methods
         | Some methodsVal \<Rightarrow> if methodsVal = [] then Inr all_aggr_methods else parse_aggr_methods (go_split CHR '','' methodsVal) []))"

definition parse_format :: "params \<Rightarrow> bool \<Rightarrow> QueryError + string" where
  "parse_format params isBucket =
     (let dflt = (if isBucket then ''aggregatedValues'' else ''temporalValues'') in
      case params ''format'' of
        None \<Rightarrow> Inr dflt
      | Some formatVal \<Rightarrow>
          if formatVal = [] then Inr dflt
          else if formatVal = ''temporalValues'' then (if isBucket then Inl (invalid_request ErrHistoryInvalidInput) else Inr ''temporalValues'')
          else if formatVal = ''aggregatedValues'' then (if \<not> isBucket then Inl (invalid_request ErrHistoryInvalidInput) else Inr ''aggregatedValues'')
          else Inl (invalid_request ErrHistoryInvalidInput))"

definition temporal_keys :: "string list" where
  "temporal_keys = [''attrs'', ''timerel'', ''timeAt'', ''endTimeAt'', ''timeproperty'', ''aggrPeriodDuration'', ''aggrMethods'', ''format'', ''max_points'']"

definition ParseTemporalHistoryQuery :: "HistoryConfig \<Rightarrow> string \<Rightarrow> string \<Rightarrow> QueryError + TwinHistoryQuery \<times> TemporalPresentationOptions" where
  "ParseTemporalHistoryQuery cfg rawQuery entityID =
     (case ParseEntityURN entityID of
        Inl _ \<Rightarrow> Inl (invalid_request ErrInvalidInput)
      | Inr parsedEntity \<Rightarrow>
          res_bind (reject_if (pi_Type parsedEntity = EntityTypeGateway) \<lparr>qe_Code = ''invalid_property'', qe_Err = ErrInvalidProperty\<rparr>) (\<lambda>_.
          res_bind (parseRawQuery rawQuery temporal_keys) (\<lambda>params.
          res_bind (required_param params ''attrs'') (\<lambda>attrsVal.
          res_bind (parse_attrs attrsVal) (\<lambda>(domainProp, publicAttr).
          res_bind (required_param params ''timerel'') (\<lambda>timerelVal.
          res_bind (reject_if (timerelVal \<noteq> ''between'') (invalid_request ErrHistoryInvalidInput)) (\<lambda>_.
          res_bind (required_param params ''timeAt'') (\<lambda>timeAtVal.
          res_bind (ok_or (parseRFC3339MicroUTCZ timeAtVal) (invalid_request ErrHistoryInvalidInput)) (\<lambda>timeAt.
          res_bind (required_param params ''endTimeAt'') (\<lambda>endTimeAtVal.
          res_bind (ok_or (parseRFC3339MicroUTCZ endTimeAtVal) (invalid_request ErrHistoryInvalidInput)) (\<lambda>endTimeAt.
          res_bind (reject_if (\<not> timeAt < endTimeAt) (invalid_request ErrHistoryInvalidInput)) (\<lambda>_.
          res_bind (reject_if (case params ''timeproperty'' of None \<Rightarrow> False | Some tpVal \<Rightarrow> tpVal \<noteq> ''observedAt'') (invalid_request ErrHistoryInvalidInput)) (\<lambda>_.
          res_bind (parse_aggregation params) (\<lambda>(res, isBucket).
          res_bind (parse_methods params isBucket) (\<lambda>selectedMethods.
          res_bind (parse_format params isBucket) (\<lambda>fmt.
          res_bind (parse_max_points cfg params) (\<lambda>maxPoints.
          let tr = \<lparr>tg_From = timeAt, tg_To = endTimeAt\<rparr> in
          res_bind (check_range cfg tr res maxPoints) (\<lambda>_.
          Inr (\<lparr>tq_EntityID = entityID, tq_Property = domainProp, tq_Range = tr, tq_Resolution = res, tq_MaxPoints = maxPoints, tq_EffectiveRawWindow = 0\<rparr>,
            \<lparr>po_Format = fmt, po_AggrMethods = selectedMethods, po_PublicAttr = publicAttr\<rparr>)))))))))))))))))))"

end
