(* ===== verification/HistoryStore.thy ===== *)
theory HistoryStore
  imports History
begin

text \<open>
  The PostgreSQL side of history reads: the Sensor resolver (\<open>digitaltwin/postgres_resolver.go\<close>) and the
  reader (\<open>telemetry/postgres_history_repository.go\<close>) over the tables the telemetry repository writes,
  plus the memberships of users. A query is the list of rows its SQL text denotes; the loop over the
  rows looks at the context, scans and may be cut short by the driver.

  \<open>time_bucket\<close> belongs to TimescaleDB and the rounding of \<open>AVG\<close> to PostgreSQL: both are the parameter
  \<open>sql_funcs\<close>. The documented fact about \<open>time_bucket\<close> with an origin is the hypothesis \<open>time_bucket_ok\<close>.
\<close>

section \<open>Tables and environment\<close>

record read_db =
  rd_store :: db
  rd_user_gateways :: "(uuid \<times> string) list"

record sql_funcs =
  sf_time_bucket :: "duration \<Rightarrow> time \<Rightarrow> time"
  sf_avg :: "rat list \<Rightarrow> rat"

definition time_bucket_ok :: "sql_funcs \<Rightarrow> bool" where
  "time_bucket_ok F \<longleftrightarrow> (\<forall>w t. 0 < w \<longrightarrow> sf_time_bucket F w t = unixEpoch + (t - unixEpoch) div w * w)"

text \<open>
  What the driver does in the \<open>k\<close>-th read: \<open>Query\<close> may fail, \<open>Scan\<close> of a row may fail, and \<open>Next\<close> may stop after
  so many rows with an error.
\<close>

record read_faults =
  rf_query :: "nat \<Rightarrow> driver_error option"
  rf_scan :: "nat \<Rightarrow> nat \<Rightarrow> driver_error option"
  rf_stop :: "nat \<Rightarrow> (nat \<times> driver_error) option"
  rf_resolve :: "driver_error option"

definition classifyHistoryError :: "driver_error \<Rightarrow> read_error" where
  "classifyHistoryError err =
     (if de_context err \<noteq> None then JoinErr [ErrHistoryDependency, DriverErr err]
      else (let classified = ClassifyPostgresAvailabilityError err ErrHistoryDependency in
            if errors_Is classified ErrHistoryDependency then classified
            else JoinErr [ErrHistoryUnexpected, DriverErr err]))"

definition classifyResolverError :: "driver_error \<Rightarrow> read_error \<Rightarrow> read_error \<Rightarrow> read_error \<Rightarrow> read_error" where
  "classifyResolverError err notFound dependency unexpected =
     (if de_no_rows err then notFound
      else if de_context err \<noteq> None then JoinErr [dependency, DriverErr err]
      else (let classified = ClassifyPostgresAvailabilityError err dependency in
            if errors_Is classified dependency then classified else JoinErr [unexpected, DriverErr err]))"

definition pgx_ErrNoRows :: driver_error where
  "pgx_ErrNoRows = \<lparr>de_context = None, de_no_rows = True, de_pg_code = None, de_closed_pool = False, de_net_error = False, de_connection = False\<rparr>"

section \<open>Resolving the Sensor\<close>

text \<open>\<open>sensors\<close> joined with \<open>user_gateways\<close> for the actor: at most one row, the keys being unique.\<close>

definition authorized_sensor :: "read_db \<Rightarrow> uuid \<Rightarrow> string \<Rightarrow> string \<Rightarrow> ResolvedSensor option" where
  "authorized_sensor d actor g s =
     (case db_sensors (rd_store d) (g, s) of
        None \<Rightarrow> None
      | Some unit' \<Rightarrow>
          if (actor, g) \<in> set (rd_user_gateways d) then Some \<lparr>rs_GatewayID = g, rs_SensorID = s, rs_Unit = unit'\<rparr> else None)"

definition ResolveSensor :: "read_faults \<Rightarrow> read_db \<Rightarrow> uuid \<Rightarrow> string \<Rightarrow> string \<Rightarrow> read_error + ResolvedSensor option" where
  "ResolveSensor rf d actor g s =
     (if actor = uuid_Nil then Inl ErrHistoryNilActor
      else if \<not> ValidateGatewayID g then Inl ErrHistoryInvalidInput
      else if \<not> ValidateSensorID s then Inl ErrHistoryInvalidInput
      else
        (case (case rf_resolve rf of
                 Some e \<Rightarrow> Inl e
               | None \<Rightarrow> ok_or (authorized_sensor d actor g s) pgx_ErrNoRows) of
           Inl e \<Rightarrow> Inl (classifyResolverError e ErrHistoryNotFound ErrHistoryDependency ErrHistoryUnexpected)
         | Inr sensor \<Rightarrow> Inr (Some sensor)))"

section \<open>Raw reads\<close>

record raw_row =
  rw_gateway_id :: string
  rw_sensor_id :: string
  rw_unit :: "string option"
  rw_measured_at :: "time option"
  rw_value :: "rat option"
  rw_sequence_num :: "int option"
  rw_boot_id :: "uuid option"
  rw_message_id :: "uuid option"
  rw_sample_index :: "int option"

text \<open>The samples of a Sensor in a half-open interval, in the order of the table.\<close>

definition samples_in :: "read_db \<Rightarrow> string \<Rightarrow> string \<Rightarrow> time \<Rightarrow> time \<Rightarrow> telemetry_row list" where
  "samples_in d g s f t =
     filter (\<lambda>r. tr_gateway_id r = g \<and> tr_sensor_id r = s \<and> f \<le> tr_measured_at r \<and> tr_measured_at r < t) (db_telemetry (rd_store d))"

text \<open>
  \<open>ORDER BY measured_at, sample_id\<close>: \<open>sample_id\<close> comes from a sequence, and the writers of one Sensor are
  serialised, so for one Sensor it is the order of the table and the sort is the stable one.
\<close>

definition ordered_samples :: "read_db \<Rightarrow> string \<Rightarrow> string \<Rightarrow> time \<Rightarrow> time \<Rightarrow> telemetry_row list" where
  "ordered_samples d g s f t = sort_key tr_measured_at (samples_in d g s f t)"

definition raw_row_of :: "ResolvedSensor \<Rightarrow> telemetry_row \<Rightarrow> raw_row" where
  "raw_row_of src r =
     \<lparr>rw_gateway_id = rs_GatewayID src, rw_sensor_id = rs_SensorID src, rw_unit = rs_Unit src,
      rw_measured_at = Some (tr_measured_at r), rw_value = Some (tr_value r), rw_sequence_num = Some (tr_sequence_num r),
      rw_boot_id = tr_boot_id r, rw_message_id = tr_message_id r, rw_sample_index = tr_sample_index r\<rparr>"

definition raw_sentinel :: "ResolvedSensor \<Rightarrow> raw_row" where
  "raw_sentinel src =
     \<lparr>rw_gateway_id = rs_GatewayID src, rw_sensor_id = rs_SensorID src, rw_unit = rs_Unit src,
      rw_measured_at = None, rw_value = None, rw_sequence_num = None, rw_boot_id = None, rw_message_id = None, rw_sample_index = None\<rparr>"

definition rawTelemetryHistoryQuery :: "read_db \<Rightarrow> uuid \<Rightarrow> string \<Rightarrow> string \<Rightarrow> time \<Rightarrow> time \<Rightarrow> int \<Rightarrow> raw_row list" where
  "rawTelemetryHistoryQuery d actor g s f t limit =
     (case authorized_sensor d actor g s of
        None \<Rightarrow> []
      | Some src \<Rightarrow>
          take (nat limit)
            (case ordered_samples d g s f t of [] \<Rightarrow> [raw_sentinel src] | rs \<Rightarrow> map (raw_row_of src) rs))"

text \<open>One pass of a row loop: context, \<open>Scan\<close>, the row itself (skipped, appended or refused).\<close>

fun row_loop :: "(nat \<Rightarrow> ctx_error option) \<Rightarrow> (nat \<Rightarrow> driver_error option) \<Rightarrow> ('r \<Rightarrow> read_error + 'p option) \<Rightarrow> nat \<Rightarrow> 'r list \<Rightarrow> 'p list \<Rightarrow> read_error + 'p list" where
  "row_loop ctx sc f k [] points = Inr points"
| "row_loop ctx sc f k (r # rs) points =
     (case ctx k of
        Some c \<Rightarrow> Inl (ctx_wrap ErrHistoryDependency c)
      | None \<Rightarrow>
          (case sc k of
             Some e \<Rightarrow> Inl (classifyHistoryError e)
           | None \<Rightarrow>
               (case f r of
                  Inl e \<Rightarrow> Inl e
                | Inr None \<Rightarrow> row_loop ctx sc f (Suc k) rs points
                | Inr (Some p) \<Rightarrow> row_loop ctx sc f (Suc k) rs (points @ [p]))))"

definition raw_point :: "raw_row \<Rightarrow> read_error + RawSamplePoint option" where
  "raw_point r =
     (case rw_measured_at r of
        None \<Rightarrow> Inr None
      | Some m \<Rightarrow>
          (case (rw_value r, rw_sequence_num r) of
             (Some v, Some n) \<Rightarrow>
               Inr (Some \<lparr>rp_MeasuredAt = m, rp_Value = v, rp_SequenceNum = n, rp_BootID = rw_boot_id r,
                 rp_MessageID = rw_message_id r, rp_SampleIndex = rw_sample_index r\<rparr>)
           | _ \<Rightarrow> Inl (JoinErr [ErrHistoryUnexpected, ErrText ''incomplete sample values in telemetry row''])))"

text \<open>\<open>Query\<close>, the loop, \<open>rows.Err\<close> and the last look at the context; returns the rows seen and the points.\<close>

definition read_rows :: "hist_ctx \<Rightarrow> read_faults \<Rightarrow> nat \<Rightarrow> 'r list \<Rightarrow> ('r \<Rightarrow> read_error + 'p option) \<Rightarrow> read_error + 'r list \<times> 'p list" where
  "read_rows ctx rf k rows f =
     (case rf_query rf k of
        Some e \<Rightarrow> Inl (classifyHistoryError e)
      | None \<Rightarrow>
          res_bind (ctx_check ctx (PtQueried k)) (\<lambda>_.
          let seen = (case rf_stop rf k of None \<Rightarrow> rows | Some (n, _) \<Rightarrow> take n rows) in
          res_bind (row_loop (\<lambda>i. ctx (PtRow k i)) (rf_scan rf k) f 0 seen []) (\<lambda>points.
          case rf_stop rf k of
            Some (_, e) \<Rightarrow> Inl (classifyHistoryError e)
          | None \<Rightarrow> res_bind (ctx_check ctx (PtRowsDone k)) (\<lambda>_. Inr (seen, points)))))"

definition readRawTelemetryHistory ::
  "hist_ctx \<Rightarrow> read_faults \<Rightarrow> nat \<Rightarrow> read_db \<Rightarrow> uuid \<Rightarrow> TelemetryHistoryQuery \<Rightarrow> read_error + TelemetryHistoryResult" where
  "readRawTelemetryHistory ctx rf k d actor q =
     (let f = tg_From (hq_Range q); t = tg_To (hq_Range q); limit = i64 (hq_MaxPoints q + 1) in
      res_bind (read_rows ctx rf k (rawTelemetryHistoryQuery d actor (hq_GatewayID q) (hq_SensorID q) (pg_timestamptz f) (pg_timestamptz t) limit) raw_point)
        (\<lambda>(rows, points).
        (case rows of
           [] \<Rightarrow> Inl ErrHistoryNotFound
         | row # _ \<Rightarrow>
             if hq_MaxPoints q < int (length points) then Inl ErrHistoryRawLimitExceeded
             else Inr \<lparr>hr_GatewayID = rw_gateway_id row, hr_SensorID = rw_sensor_id row, hr_Unit = rw_unit row, hr_From = f, hr_To = t,
               hr_Mode = ResolutionRaw, hr_Resolution = ResolutionRaw, hr_PointCount = int (length points),
               hr_RawPoints = points, hr_BucketPoints = []\<rparr>)))"

section \<open>Bucket reads\<close>

record bucket_row =
  bw_gateway_id :: string
  bw_sensor_id :: string
  bw_unit :: "string option"
  bw_bucket_start :: "time option"
  bw_avg_value :: "rat option"
  bw_min_value :: "rat option"
  bw_max_value :: "rat option"
  bw_sample_count :: "int option"

text \<open>\<open>MIN\<close> and \<open>MAX\<close> of a group, which is never empty.\<close>

definition list_min :: "rat list \<Rightarrow> rat" where "list_min vs = fold min (tl vs) (hd vs)"
definition list_max :: "rat list \<Rightarrow> rat" where "list_max vs = fold max (tl vs) (hd vs)"

definition bucket_row_of :: "sql_funcs \<Rightarrow> ResolvedSensor \<Rightarrow> duration \<Rightarrow> telemetry_row list \<Rightarrow> time \<Rightarrow> bucket_row" where
  "bucket_row_of F src w rs b =
     (let vs = map tr_value (filter (\<lambda>r. sf_time_bucket F w (tr_measured_at r) = b) rs) in
      \<lparr>bw_gateway_id = rs_GatewayID src, bw_sensor_id = rs_SensorID src, bw_unit = rs_Unit src, bw_bucket_start = Some b,
       bw_avg_value = Some (sf_avg F vs), bw_min_value = Some (list_min vs), bw_max_value = Some (list_max vs),
       bw_sample_count = Some (int (length vs))\<rparr>)"

definition bucket_sentinel :: "ResolvedSensor \<Rightarrow> bucket_row" where
  "bucket_sentinel src =
     \<lparr>bw_gateway_id = rs_GatewayID src, bw_sensor_id = rs_SensorID src, bw_unit = rs_Unit src, bw_bucket_start = None,
      bw_avg_value = None, bw_min_value = None, bw_max_value = None, bw_sample_count = None\<rparr>"

definition bucket_starts :: "sql_funcs \<Rightarrow> duration \<Rightarrow> telemetry_row list \<Rightarrow> time list" where
  "bucket_starts F w rs = sort (remdups (map (\<lambda>r. sf_time_bucket F w (tr_measured_at r)) rs))"

definition bucketTelemetryHistoryQuery ::
  "sql_funcs \<Rightarrow> read_db \<Rightarrow> uuid \<Rightarrow> string \<Rightarrow> string \<Rightarrow> duration \<Rightarrow> time \<Rightarrow> time \<Rightarrow> int \<Rightarrow> bucket_row list" where
  "bucketTelemetryHistoryQuery F d actor g s w f t limit =
     (case authorized_sensor d actor g s of
        None \<Rightarrow> []
      | Some src \<Rightarrow>
          (let rs = samples_in d g s f t in
           take (nat limit)
             (case bucket_starts F w rs of [] \<Rightarrow> [bucket_sentinel src] | bs \<Rightarrow> map (bucket_row_of F src w rs) bs)))"

definition bucket_point :: "bucket_row \<Rightarrow> read_error + BucketSamplePoint option" where
  "bucket_point r =
     (case bw_bucket_start r of
        None \<Rightarrow> Inr None
      | Some b \<Rightarrow>
          (case (bw_avg_value r, bw_min_value r, bw_max_value r, bw_sample_count r) of
             (Some a, Some lo, Some hi, Some n) \<Rightarrow>
               Inr (Some \<lparr>bp_BucketStart = b, bp_Avg = a, bp_Min = lo, bp_Max = hi, bp_Count = n\<rparr>)
           | _ \<Rightarrow> Inl (JoinErr [ErrHistoryUnexpected, ErrText ''incomplete aggregate values in bucket row''])))"

text \<open>The interval parameter has whole microseconds.\<close>

definition readBucketTelemetryHistory ::
  "sql_funcs \<Rightarrow> hist_ctx \<Rightarrow> read_faults \<Rightarrow> nat \<Rightarrow> read_db \<Rightarrow> uuid \<Rightarrow> TelemetryHistoryQuery \<Rightarrow> duration \<Rightarrow> read_error + TelemetryHistoryResult" where
  "readBucketTelemetryHistory F ctx rf k d actor q bucketWidth =
     (let f = tg_From (hq_Range q); t = tg_To (hq_Range q); limit = i64 (hq_MaxPoints q + 1);
          interval = duration_Microseconds bucketWidth * 1000 in
      res_bind (read_rows ctx rf k
          (bucketTelemetryHistoryQuery F d actor (hq_GatewayID q) (hq_SensorID q) interval (pg_timestamptz f) (pg_timestamptz t) limit) bucket_point)
        (\<lambda>(rows, points).
        (case rows of
           [] \<Rightarrow> Inl ErrHistoryNotFound
         | row # _ \<Rightarrow>
             if hq_MaxPoints q < int (length points) then Inl ErrHistoryResolutionTooFine
             else Inr \<lparr>hr_GatewayID = bw_gateway_id row, hr_SensorID = bw_sensor_id row, hr_Unit = bw_unit row, hr_From = f, hr_To = t,
               hr_Mode = ''bucket'', hr_Resolution = hq_Resolution q, hr_PointCount = int (length points),
               hr_RawPoints = [], hr_BucketPoints = points\<rparr>)))"

definition ReadTelemetryHistory ::
  "HistoryPreparationConfig \<Rightarrow> sql_funcs \<Rightarrow> hist_ctx \<Rightarrow> read_faults \<Rightarrow> (nat \<Rightarrow> read_db) \<Rightarrow> reader" where
  "ReadTelemetryHistory cfg F ctx rf dbs k actor q =
     res_bind (ctx_check ctx (PtReadStart k)) (\<lambda>_.
     if actor = uuid_Nil then Inl ErrHistoryNilActor
     else if \<not> ValidateGatewayID (hq_GatewayID q) then Inl ErrHistoryInvalidInput
     else if \<not> ValidateSensorID (hq_SensorID q) then Inl ErrHistoryInvalidInput
     else if hq_MaxPoints q < hc_MinPoints cfg \<or> hc_MaxPoints cfg < hq_MaxPoints q then Inl ErrHistoryInvalidInput
     else if hq_Resolution q = ResolutionAuto then Inl (JoinErr [ErrHistoryInvalidResolution])
     else
       (case ValidateHistoryTimeRange (hq_Range q) (hq_Resolution q) (hc_MaxRange cfg) (hc_RawWindow cfg) (hq_MaxPoints q) of
          Some e \<Rightarrow> Inl e
        | None \<Rightarrow>
            res_bind (ctx_check ctx (PtReadValidated k)) (\<lambda>_.
            if hq_Resolution q = ResolutionRaw then readRawTelemetryHistory ctx rf k (dbs k) actor q
            else
              (case ResolutionDuration (hq_Resolution q) of
                 None \<Rightarrow> Inl (JoinErr [ErrHistoryInvalidResolution])
               | Some dur \<Rightarrow> readBucketTelemetryHistory F ctx rf k (dbs k) actor q dur))))"

text \<open>The service as the server wires it: resolver and reader on the same database, each query with its own snapshot.\<close>

definition telemetry_history ::
  "HistoryPreparationConfig \<Rightarrow> sql_funcs \<Rightarrow> hist_ctx \<Rightarrow> read_faults \<Rightarrow> read_db \<Rightarrow> (nat \<Rightarrow> read_db) \<Rightarrow> uuid \<Rightarrow> TelemetryHistoryQuery \<Rightarrow>
     read_error + TelemetryHistoryResult" where
  "telemetry_history cfg F ctx rf d0 dbs = GetTelemetryHistory cfg ctx (ResolveSensor rf d0) (ReadTelemetryHistory cfg F ctx rf dbs)"

end
