(* ===== verification/HistoryProofs.thy ===== *)
theory HistoryProofs
  imports HistoryStore
begin

text \<open>
  Lemmas on history reads: the 64-bit bucket arithmetic is exact, which queries are accepted, which rows
  a reader sees, that a result is exact and that a service without faults answers.
\<close>

section \<open>Bucket arithmetic\<close>

lemma sdiv_pos: "0 < (b::int) \<Longrightarrow> 0 \<le> a \<Longrightarrow> a sdiv b = a div b"
  by (simp add: signed_divide_int_def sgn_if)

lemma smod_pos: "0 < (b::int) \<Longrightarrow> 0 \<le> a \<Longrightarrow> a smod b = a mod b"
  by (cases "a = 0") (simp_all add: signed_modulo_int_def)

lemma abs_div_le:
  assumes "0 < (b::int)"
  shows "\<bar>a div b\<bar> \<le> \<bar>a\<bar>"
proof (cases "0 \<le> a")
  case True
  have "a div b \<le> a div 1" using True assms by (intro zdiv_mono2) simp_all
  then show ?thesis using True assms by (simp add: pos_imp_zdiv_nonneg_iff)
next
  case False
  have "a div 1 \<le> a div b" using False assms by (intro zdiv_mono2_neg) simp_all
  moreover have "a div b < 0" using False assms by (simp add: pos_imp_zdiv_neg_iff)
  ultimately show ?thesis using False by simp
qed

lemma sdiv_neg: "0 < (b::int) \<Longrightarrow> a < 0 \<Longrightarrow> a sdiv b = - ((- a) div b)"
  by (simp add: signed_divide_int_def)

lemma floorDiv_pos:
  assumes "in_i64 a" and "0 < b" and "b \<le> maxInt64"
  shows "floorDiv a b = a div b"
proof (cases "0 \<le> a")
  case True
  have "a div b \<le> a" "0 \<le> a div b" using True assms(2) abs_div_le [OF assms(2), of a] by (simp_all add: pos_imp_zdiv_nonneg_iff)
  then have "in_i64 (a div b)" using assms(1) by (simp add: int_bounds_defs)
  moreover have "\<not> a mod b < 0" "\<not> b < 0" using assms(2) pos_mod_sign [OF assms(2), of a] by linarith+
  ultimately show ?thesis using True assms(2) by (simp only: floorDiv_def Let_def sdiv_pos smod_pos i64_id simp_thms if_False)
next
  case False
  then have neg: "0 < - a" by simp
  let ?q = "(- a) div b" and ?m = "(- a) mod b"
  have qm: "- a = b * ?q + ?m" "0 \<le> ?m" "?m < b" using assms(2) by simp_all
  have q0: "0 \<le> ?q" using neg assms(2) by (simp add: pos_imp_zdiv_nonneg_iff)
  have qle: "?q \<le> - a" using neg q0 abs_div_le [OF assms(2), of "- a"] by simp
  have i1: "in_i64 (- ?q)" using q0 qle assms(1) False by (auto simp: int_bounds_defs)
  have r: "a smod b = - ?m" using assms(2) False by (simp add: signed_modulo_int_def)
  show ?thesis
  proof (cases "?m = 0")
    case True
    then have "a = b * (- ?q)" using qm(1) by simp
    then have "a div b = - ?q" using assms(2) by (metis nonzero_mult_div_cancel_left less_irrefl)
    then show ?thesis using True r False sdiv_neg [OF assms(2)] i1 by (simp add: floorDiv_def Let_def i64_id)
  next
    case nz: False
    have "a = b * (- ?q - 1) + (b - ?m)" using qm(1) by (simp add: algebra_simps)
    moreover have "0 \<le> b - ?m" "b - ?m < b" using qm(2,3) nz by simp_all
    ultimately have d: "a div b = - ?q - 1" by (metis assms(2) div_pos_pos_trivial div_mult_self4 less_irrefl add.commute add_0)
    have "2 \<le> b" using qm(2,3) nz by simp
    then have "b * ?q \<ge> 2 * ?q" using q0 by (simp add: mult_right_mono)
    then have "2 * ?q < - a" using qm nz by linarith
    then have "in_i64 (- ?q - 1)" using q0 assms(1) by (auto simp: int_bounds_defs)
    then show ?thesis using nz r False assms(2) sdiv_neg [OF assms(2)] i1 d qm by (simp add: floorDiv_def Let_def i64_id)
  qed
qed

definition in_calendar :: "time \<Rightarrow> bool" where
  "in_calendar t \<longleftrightarrow> 0 \<le> t \<and> t < endOfYear9999"

lemma ToMicros_exact:
  assumes "in_calendar t"
  shows "ToMicrosecondsSinceEpoch t = (t - unixEpoch) div 1000" "\<bar>ToMicrosecondsSinceEpoch t\<bar> < 2 ^ 60"
proof -
  let ?q = "t div nsPerSecond" and ?r = "t mod nsPerSecond"
  have r: "0 \<le> ?r" "?r < 1000000000" by (simp_all add: nsPerSecond_def)
  have q: "0 \<le> ?q" "?q \<le> 315537897599" using assms by (auto simp: in_calendar_def endOfYear9999_def nsPerDay_def nsPerSecond_def)
  have "t - unixEpoch = ?r + 1000 * (1000000 * (?q - 62135596800))"
    using div_mult_mod_eq [of t nsPerSecond] by (simp add: unixEpoch_def nsPerSecond_def algebra_simps)
  then have e: "(t - unixEpoch) div 1000 = ?r div 1000 + 1000000 * (?q - 62135596800)" by (simp only: div_mult_self2 zero_neq_numeral simp_thms)
  have r': "0 \<le> ?r div 1000" "?r div 1000 < 1000000" using r by simp_all
  have "i64 (time_Unix t * 1000000) = (?q - 62135596800) * 1000000"
    unfolding time_Unix_def using q by (intro i64_id) (simp add: int_bounds_defs)
  moreover have "in_i64 ((?q - 62135596800) * 1000000 + ?r div 1000)" using q r' by (simp add: int_bounds_defs)
  ultimately show v: "ToMicrosecondsSinceEpoch t = (t - unixEpoch) div 1000"
    using r(1) by (simp add: ToMicrosecondsSinceEpoch_def time_Nanosecond_def sdiv_pos i64_id e)
  show "\<bar>ToMicrosecondsSinceEpoch t\<bar> < 2 ^ 60" unfolding v e using q r' by (simp add: abs_if)
qed

text \<open>The buckets that an instant of the interval can fall into.\<close>

definition buckets_hit :: "time \<Rightarrow> time \<Rightarrow> duration \<Rightarrow> int set" where
  "buckets_hit f t w = (\<lambda>m. (m - unixEpoch) div w) ` {f..<t}"

lemma buckets_hit_interval:
  assumes "f < t" "1000 dvd f" "1000 dvd t" "0 < w" "1000 dvd w"
  shows "buckets_hit f t w = {(f - unixEpoch) div w .. (t - 1000 - unixEpoch) div w}"
proof (intro equalityI subsetI)
  fix b assume "b \<in> buckets_hit f t w"
  then obtain m where m: "f \<le> m" "m < t" "b = (m - unixEpoch) div w" by (auto simp: buckets_hit_def)
  have E: "1000 dvd unixEpoch" by (simp add: unixEpoch_def nsPerSecond_def)
  have w: "w = 1000 * (w div 1000)" using assms(5) by simp
  have "(t - 1 - unixEpoch) div w = (t - 1 - unixEpoch) div 1000 div (w div 1000)"
    using zdiv_zmult2_eq [of "w div 1000" "t - 1 - unixEpoch" 1000] assms(4) w by simp
  also have "(t - 1 - unixEpoch) div 1000 = (t - 1000 - unixEpoch) div 1000"
  proof -
    obtain k where "t - unixEpoch = 1000 * k" using dvd_diff [OF assms(3) E] by (elim dvdE)
    then have e1: "t - 1 - unixEpoch = 999 + 1000 * (k - 1)" and e2: "t - 1000 - unixEpoch = 1000 * (k - 1)" by auto
    show ?thesis unfolding e1 e2 by simp
  qed
  also have "(t - 1000 - unixEpoch) div 1000 div (w div 1000) = (t - 1000 - unixEpoch) div w"
    using zdiv_zmult2_eq [of "w div 1000" "t - 1000 - unixEpoch" 1000] assms(4) w by simp
  finally have "(t - 1 - unixEpoch) div w = (t - 1000 - unixEpoch) div w" .
  moreover have "(m - unixEpoch) div w \<le> (t - 1 - unixEpoch) div w" using m(2) assms(4) by (intro zdiv_mono1) simp_all
  ultimately show "b \<in> {(f - unixEpoch) div w .. (t - 1000 - unixEpoch) div w}"
    using m(1,3) assms(4) by (simp add: zdiv_mono1)
next
  fix b assume b: "b \<in> {(f - unixEpoch) div w .. (t - 1000 - unixEpoch) div w}"
  define m where "m = max f (unixEpoch + b * w)"
  have "f \<le> m" by (simp add: m_def)
  moreover have "unixEpoch + b * w \<le> t - 1000"
  proof -
    have "b * w \<le> (t - 1000 - unixEpoch) div w * w" using b assms(4) by (simp add: mult_right_mono)
    also have "\<dots> \<le> t - 1000 - unixEpoch" using assms(4) by (metis add_le_same_cancel1 div_mult_mod_eq le_add_same_cancel1 pos_mod_sign)
    finally show ?thesis by simp
  qed
  then have "m < t" using assms(1) by (simp add: m_def)
  moreover have "(m - unixEpoch) div w = b"
  proof (cases "f \<le> unixEpoch + b * w")
    case True then show ?thesis using assms(4) by (simp add: m_def max_def)
  next
    case False
    then have "b * w \<le> f - unixEpoch" by simp
    then have "b \<le> (f - unixEpoch) div w" using assms(4) by (metis nonzero_mult_div_cancel_right less_irrefl zdiv_mono1)
    then show ?thesis using b False by (simp add: m_def max_def)
  qed
  ultimately show "b \<in> buckets_hit f t w" unfolding buckets_hit_def by (intro image_eqI [of _ _ m]) simp_all
qed

lemma micro_div:
  assumes "1000 dvd (a::int)" "1000 dvd w" "0 < w"
  shows "a div 1000 div (w div 1000) = a div w"
  using assms by (elim dvdE) simp

lemma IntersectingBucketCount_eq:
  assumes "in_calendar f" "in_calendar t" "f < t" "1000 dvd f" "1000 dvd t" "0 < w" "1000 dvd w" "w \<le> maxInt64"
  shows "IntersectingBucketCount f t w = Inr (int (card (buckets_hit f t w)))"
proof -
  have E: "1000 dvd unixEpoch" by (simp add: unixEpoch_def nsPerSecond_def)
  let ?F = "ToMicrosecondsSinceEpoch f" and ?T = "ToMicrosecondsSinceEpoch t" and ?W = "w div 1000"
  note F = ToMicros_exact [OF assms(1)] and T = ToMicros_exact [OF assms(2)]
  have W: "0 < ?W" "?W \<le> maxInt64" using assms(6-8) by (auto elim!: dvdE simp: maxInt64_def)
  have wm: "duration_Microseconds w = ?W" using assms(6) by (simp add: duration_Microseconds_def sdiv_pos)
  have T1: "i64 (?T - 1) = ?T - 1" "in_i64 (?T - 1)" using T(2) by (auto simp: int_bounds_defs intro!: i64_id)
  have "?T - 1 = (t - 1000 - unixEpoch) div 1000" using T(1) assms(5) E by (elim dvdE) simp
  moreover have "1000 dvd t - 1000 - unixEpoch" using assms(5) E by simp
  ultimately have hi: "floorDiv (?T - 1) ?W = (t - 1000 - unixEpoch) div w"
    using floorDiv_pos [OF T1(2) W] micro_div [of "t - 1000 - unixEpoch" w] assms(6,7) by metis
  have F1: "in_i64 ?F" using F(2) by (auto simp: int_bounds_defs)
  have "1000 dvd f - unixEpoch" using assms(4) E by simp
  then have lo: "floorDiv ?F ?W = (f - unixEpoch) div w"
    using floorDiv_pos [OF F1 W] F(1) micro_div [of "f - unixEpoch" w] assms(6,7) by metis
  have "f \<le> t - 1000" using assms(3-5) by (elim dvdE) simp
  then have le: "(f - unixEpoch) div w \<le> (t - 1000 - unixEpoch) div w" using assms(6) by (simp add: zdiv_mono1)
  have "\<bar>?T - 1\<bar> < 2 ^ 61" using T(2) by (simp add: abs_less_iff)
  then have b: "\<bar>floorDiv ?F ?W\<bar> < 2 ^ 61" "\<bar>floorDiv (?T - 1) ?W\<bar> < 2 ^ 61"
    using abs_div_le [OF W(1), of ?F] abs_div_le [OF W(1), of "?T - 1"] F(2) T(2) floorDiv_pos [OF F1 W] floorDiv_pos [OF T1(2) W] by simp_all
  have c: "card (buckets_hit f t w) = nat ((t - 1000 - unixEpoch) div w - (f - unixEpoch) div w + 1)"
    by (simp add: buckets_hit_interval [OF assms(3-7)])
  have "i64 (i64 (floorDiv (?T - 1) ?W - floorDiv ?F ?W) + 1) = floorDiv (?T - 1) ?W - floorDiv ?F ?W + 1"
  proof -
    have "i64 (floorDiv (?T - 1) ?W - floorDiv ?F ?W) = floorDiv (?T - 1) ?W - floorDiv ?F ?W" using b by (intro i64_id) (simp add: int_bounds_defs abs_less_iff)
    moreover have "in_i64 (floorDiv (?T - 1) ?W - floorDiv ?F ?W + 1)" using b by (simp add: int_bounds_defs abs_less_iff)
    ultimately show ?thesis by (simp add: i64_id)
  qed
  then show ?thesis using assms(3,6) W(1) le
    by (simp add: IntersectingBucketCount_def Let_def wm T1(1) hi lo c)
qed

section \<open>Accepted queries\<close>

lemma year_bad_iff: "year_bad t \<longleftrightarrow> \<not> in_calendar t"
  by (metis in_calendar_def linorder_not_le time_Year_ge_1 time_Year_le_9999 year_bad_def)

lemma nanosecond_micro: "time_Nanosecond t smod 1000 = 0 \<longleftrightarrow> 1000 dvd t"
proof -
  have "time_Nanosecond t smod 1000 = t mod nsPerSecond mod 1000"
    by (simp add: time_Nanosecond_def smod_pos nsPerSecond_def)
  also have "\<dots> = t mod 1000" by (simp add: nsPerSecond_def mod_mod_cancel)
  finally show ?thesis by (simp add: dvd_eq_mod_eq_0)
qed

definition range_ok :: "TimeRange \<Rightarrow> duration \<Rightarrow> bool" where
  "range_ok tr maxRange \<longleftrightarrow> in_calendar (tg_From tr) \<and> in_calendar (tg_To tr) \<and> 1000 dvd tg_From tr \<and> 1000 dvd tg_To tr \<and>
     tg_From tr < tg_To tr \<and> (tg_To tr - tg_From tr) div 1000 \<le> maxRange div 1000"

lemma diff_micros:
  assumes "in_calendar f" "in_calendar t" "1000 dvd f" "1000 dvd t"
  shows "i64 (ToMicrosecondsSinceEpoch t - ToMicrosecondsSinceEpoch f) = (t - f) div 1000"
proof -
  have E: "1000 dvd unixEpoch" by (simp add: unixEpoch_def nsPerSecond_def)
  note F = ToMicros_exact [OF assms(1)] and T = ToMicros_exact [OF assms(2)]
  have "ToMicrosecondsSinceEpoch t - ToMicrosecondsSinceEpoch f = (t - f) div 1000"
    unfolding F(1) T(1) using assms(3,4) E by (elim dvdE) simp
  moreover have "in_i64 (ToMicrosecondsSinceEpoch t - ToMicrosecondsSinceEpoch f)"
    using F(2) T(2) by (simp add: int_bounds_defs abs_less_iff)
  ultimately show ?thesis by (simp add: i64_id)
qed

lemma ResolutionDuration_facts:
  assumes "ResolutionDuration r = Some w"
  shows "0 < w" "1000 dvd w" "w \<le> 86400 * nsPerSecond" "r \<noteq> ResolutionAuto" "r \<noteq> ResolutionRaw" "Resolution_Valid r"
    "r \<in> set AllowedBucketResolutions"
  using assms
  by (auto simp: ResolutionDuration_def nsPerSecond_def resolution_defs Resolution_Valid_def AllowedBucketResolutions_def split: if_splits)

lemma allowed_duration: "r \<in> set AllowedBucketResolutions \<longleftrightarrow> ResolutionDuration r \<noteq> None"
  by (auto simp: ResolutionDuration_def AllowedBucketResolutions_def)

lemma valid_cases: "Resolution_Valid r \<longleftrightarrow> r = ResolutionAuto \<or> r = ResolutionRaw \<or> r \<in> set AllowedBucketResolutions"
  by (auto simp: Resolution_Valid_def AllowedBucketResolutions_def)

text \<open>What an accepted range means, per resolution.\<close>

definition fits :: "TimeRange \<Rightarrow> Resolution \<Rightarrow> duration \<Rightarrow> int \<Rightarrow> bool" where
  "fits tr res rawWindow maxPoints \<longleftrightarrow>
     (if res = ResolutionRaw then (tg_To tr - tg_From tr) div 1000 \<le> rawWindow div 1000
      else (case ResolutionDuration res of None \<Rightarrow> True | Some w \<Rightarrow> int (card (buckets_hit (tg_From tr) (tg_To tr) w)) \<le> maxPoints))"

lemma bucket_count_eq:
  assumes "range_ok tr maxRange" and "ResolutionDuration res = Some w"
  shows "IntersectingBucketCount (tg_From tr) (tg_To tr) w = Inr (int (card (buckets_hit (tg_From tr) (tg_To tr) w)))"
  using assms(1) ResolutionDuration_facts [OF assms(2)]
  by (intro IntersectingBucketCount_eq) (auto simp: range_ok_def maxInt64_def nsPerSecond_def)

lemma ValidateHistoryTimeRange_None:
  assumes "0 < maxRange" "maxRange \<le> MaxHistoryMaxRange" "0 < rawWindow"
  shows "ValidateHistoryTimeRange tr res maxRange rawWindow maxPoints = None \<longleftrightarrow>
    range_ok tr maxRange \<and> Resolution_Valid res \<and> fits tr res rawWindow maxPoints"
proof (cases "in_calendar (tg_From tr) \<and> in_calendar (tg_To tr) \<and> 1000 dvd tg_From tr \<and> 1000 dvd tg_To tr \<and> tg_From tr < tg_To tr")
  case False
  then show ?thesis
    by (auto simp: ValidateHistoryTimeRange_def Let_def year_bad_iff nanosecond_micro range_ok_def)
next
  case c: True
  let ?f = "tg_From tr" and ?t = "tg_To tr"
  have d: "i64 (ToMicrosecondsSinceEpoch ?t - ToMicrosecondsSinceEpoch ?f) = (?t - ?f) div 1000" using c by (simp add: diff_micros)
  have mm: "duration_Microseconds maxRange = maxRange div 1000" "duration_Microseconds rawWindow = rawWindow div 1000"
    using assms by (simp_all add: duration_Microseconds_def sdiv_pos)
  have secs: "i64 (time_Unix ?t - time_Unix ?f) \<le> i64 (maxRange sdiv nsPerSecond + 1)" if "(?t - ?f) div 1000 \<le> maxRange div 1000"
  proof -
    have "?t - ?f < maxRange + 1000" using that by linarith
    then have "?t div nsPerSecond - ?f div nsPerSecond \<le> maxRange div nsPerSecond + 1"
      using c by (simp add: nsPerSecond_def) (elim conjE dvdE, simp)
    moreover have "in_i64 (?t div nsPerSecond - ?f div nsPerSecond)" "in_i64 (maxRange div nsPerSecond + 1)"
      using c assms(1,2) by (auto simp: in_calendar_def endOfYear9999_def nsPerDay_def nsPerSecond_def int_bounds_defs history_bounds)
    ultimately show ?thesis using assms(1) by (simp add: time_Unix_def i64_id sdiv_pos nsPerSecond_def)
  qed
  have R: "range_ok tr maxRange \<longleftrightarrow> (?t - ?f) div 1000 \<le> maxRange div 1000" using c by (simp add: range_ok_def)
  show ?thesis
  proof (cases "(?t - ?f) div 1000 \<le> maxRange div 1000")
    case False
    then show ?thesis using c d mm R by (simp add: ValidateHistoryTimeRange_def Let_def year_bad_iff nanosecond_micro)
  next
    case True
    have "ValidateHistoryTimeRange tr res maxRange rawWindow maxPoints =
      (if \<not> Resolution_Valid res then Some ErrHistoryInvalidResolution
       else if res = ResolutionRaw then (if rawWindow div 1000 < (?t - ?f) div 1000 then Some ErrHistoryRawLimitExceeded else None)
       else if res \<noteq> ResolutionAuto then
         (case ResolutionDuration res of None \<Rightarrow> Some ErrHistoryInvalidResolution
          | Some w \<Rightarrow> (case IntersectingBucketCount ?f ?t w of Inl _ \<Rightarrow> Some ErrHistoryInvalidInput
              | Inr count \<Rightarrow> if maxPoints < count then Some ErrHistoryResolutionTooFine else None))
       else None)"
      using c d mm True secs [OF True] by (simp add: ValidateHistoryTimeRange_def Let_def year_bad_iff nanosecond_micro)
    moreover have "ResolutionDuration ResolutionAuto = None" by (simp add: ResolutionDuration_def resolution_defs)
    moreover have "range_ok tr maxRange" using True R by simp
    ultimately show ?thesis
      using bucket_count_eq [of tr maxRange res] allowed_duration [of res] valid_cases [of res] ResolutionDuration_facts
      by (auto simp: fits_def split: option.splits)
  qed
qed

section \<open>Automatic resolution\<close>

lemma first_fitting_spec:
  assumes "range_ok tr maxRange" and "set rs \<subseteq> set AllowedBucketResolutions"
  shows "first_fitting (tg_From tr) (tg_To tr) n rs =
    (case find (\<lambda>r. fits tr r 0 n) rs of None \<Rightarrow> Inl ErrHistoryResolutionTooFine | Some r \<Rightarrow> Inr r)"
  using assms(2)
proof (induction rs)
  case (Cons r rs)
  then obtain w where w: "ResolutionDuration r = Some w" using allowed_duration by auto
  then show ?case using Cons bucket_count_eq [OF assms(1) w] ResolutionDuration_facts(5) [OF w] by (simp add: fits_def)
qed simp

lemma buckets_hit_day:
  assumes "range_ok tr MaxHistoryMaxRange"
  shows "card (buckets_hit (tg_From tr) (tg_To tr) (86400 * nsPerSecond)) \<le> 32"
proof -
  let ?w = "86400 * nsPerSecond" and ?f = "tg_From tr" and ?t = "tg_To tr"
  have r: "?f < ?t" "1000 dvd ?f" "1000 dvd ?t" "?t - ?f \<le> 31 * ?w"
    using assms unfolding range_ok_def history_bounds nsPerSecond_def by (auto elim!: dvdE)
  have "(?t - 1000 - unixEpoch) div ?w \<le> (?f - unixEpoch + 31 * ?w) div ?w" using r(4) by (intro zdiv_mono1) (simp_all add: nsPerSecond_def)
  also have "\<dots> = (?f - unixEpoch) div ?w + 31" by (simp add: nsPerSecond_def)
  finally show ?thesis using buckets_hit_interval [OF r(1-3), of ?w] by (simp add: nsPerSecond_def)
qed

section \<open>Reading rows\<close>

text \<open>The points of a list of rows that all are well formed.\<close>

definition points_of :: "('r \<Rightarrow> read_error + 'p option) \<Rightarrow> 'r list \<Rightarrow> 'p list" where
  "points_of f rs = concat (map (\<lambda>r. case f r of Inr (Some p) \<Rightarrow> [p] | _ \<Rightarrow> []) rs)"

lemma points_of_rec [simp]:
  "points_of f [] = []" "points_of f (r # rs) = (case f r of Inr (Some p) \<Rightarrow> [p] | _ \<Rightarrow> []) @ points_of f rs"
  by (simp_all add: points_of_def)

lemma row_loop_Inr: "row_loop ctx sc f k rs ps = Inr qs \<Longrightarrow> qs = ps @ points_of f rs"
  by (induction ctx sc f k rs ps rule: row_loop.induct)
    (auto split: option.splits sum.splits)

lemma row_loop_quiet:
  assumes "\<And>i. ctx i = None" "\<And>i. sc i = None" "\<And>r. r \<in> set rs \<Longrightarrow> is_ok (f r)"
  shows "row_loop ctx sc f k rs ps = Inr (ps @ points_of f rs)"
  using assms(3)
proof (induction rs arbitrary: k ps)
  case (Cons r rs)
  have "is_ok (f r)" using Cons.prems by simp
  then obtain x where "f r = Inr x" unfolding is_ok_iff by blast
  then show ?case using Cons assms(1,2) by (cases x) simp_all
qed simp

lemma ctx_check_Inr [simp]: "ctx_check ctx p = Inr u \<longleftrightarrow> ctx p = None"
  by (simp add: ctx_check_def split: option.splits)

lemma read_rows_Inr:
  assumes "read_rows ctx rf k rows f = Inr (seen, ps)"
  shows "seen = rows \<and> ps = points_of f rows"
  using assms row_loop_Inr by (fastforce simp: read_rows_def Let_def split: option.splits prod.splits)

definition quiet :: "hist_ctx \<Rightarrow> read_faults \<Rightarrow> bool" where
  "quiet ctx rf \<longleftrightarrow> (\<forall>p. ctx p = None) \<and> rf_resolve rf = None \<and> (\<forall>k. rf_query rf k = None \<and> rf_stop rf k = None \<and> (\<forall>i. rf_scan rf k i = None))"

lemma read_rows_quiet:
  assumes "quiet ctx rf" and "\<And>r. r \<in> set rows \<Longrightarrow> is_ok (f r)"
  shows "read_rows ctx rf k rows f = Inr (rows, points_of f rows)"
  using assms by (simp add: read_rows_def quiet_def ctx_check_def row_loop_quiet)

definition point_of :: "telemetry_row \<Rightarrow> RawSamplePoint" where
  "point_of r = \<lparr>rp_MeasuredAt = tr_measured_at r, rp_Value = tr_value r, rp_SequenceNum = tr_sequence_num r,
     rp_BootID = tr_boot_id r, rp_MessageID = tr_message_id r, rp_SampleIndex = tr_sample_index r\<rparr>"

lemma raw_point_simps [simp]: "raw_point (raw_row_of src r) = Inr (Some (point_of r))" "raw_point (raw_sentinel src) = Inr None"
  by (simp_all add: raw_point_def raw_row_of_def raw_sentinel_def point_of_def)

definition bucket_of :: "sql_funcs \<Rightarrow> duration \<Rightarrow> telemetry_row list \<Rightarrow> time \<Rightarrow> BucketSamplePoint" where
  "bucket_of F w rs b =
     (let vs = map tr_value (filter (\<lambda>r. sf_time_bucket F w (tr_measured_at r) = b) rs) in
      \<lparr>bp_BucketStart = b, bp_Avg = sf_avg F vs, bp_Min = list_min vs, bp_Max = list_max vs, bp_Count = int (length vs)\<rparr>)"

lemma bucket_point_simps [simp]:
  "bucket_point (bucket_row_of F src w rs b) = Inr (Some (bucket_of F w rs b))" "bucket_point (bucket_sentinel src) = Inr None"
  by (simp_all add: bucket_point_def bucket_row_of_def bucket_sentinel_def bucket_of_def Let_def)

lemma points_of_simps [simp]:
  "points_of raw_point (map (raw_row_of src) rs) = map point_of rs" "points_of raw_point [raw_sentinel src] = []"
  "points_of bucket_point (map (bucket_row_of F src w rs') bs) = map (bucket_of F w rs') bs" "points_of bucket_point [bucket_sentinel src] = []"
proof -
  show "points_of raw_point (map (raw_row_of src) rs) = map point_of rs" by (induction rs) simp_all
  show "points_of bucket_point (map (bucket_row_of F src w rs') bs) = map (bucket_of F w rs') bs" by (induction bs) simp_all
qed simp_all

text \<open>A limited read either sees everything or has more points than allowed.\<close>

lemma limited_rows:
  assumes "1 \<le> n" and "rows = take (nat (n + 1)) (case xs of [] \<Rightarrow> [sentinel] | _ \<Rightarrow> map g xs)"
  shows "rows \<noteq> []" and "int (length xs) \<le> n \<Longrightarrow> rows = (case xs of [] \<Rightarrow> [sentinel] | _ \<Rightarrow> map g xs)"
    and "n < int (length xs) \<Longrightarrow> rows = map g (take (nat (n + 1)) xs)"
proof -
  show "rows \<noteq> []" "int (length xs) \<le> n \<Longrightarrow> rows = (case xs of [] \<Rightarrow> [sentinel] | _ \<Rightarrow> map g xs)"
    using assms by (auto split: list.splits)
  show "rows = map g (take (nat (n + 1)) xs)" if "n < int (length xs)"
    using that assms by (cases "xs = []") (auto simp: take_map [symmetric] neq_Nil_conv)
qed

lemma rawTelemetryHistoryQuery_points:
  assumes "1 \<le> n" and "rawTelemetryHistoryQuery d actor g s f t (n + 1) = rows"
  shows "rows = [] \<longleftrightarrow> authorized_sensor d actor g s = None"
    and "authorized_sensor d actor g s \<noteq> None \<Longrightarrow> n < int (length (points_of raw_point rows)) \<longleftrightarrow> n < int (length (samples_in d g s f t))"
    and "authorized_sensor d actor g s \<noteq> None \<Longrightarrow> int (length (samples_in d g s f t)) \<le> n \<Longrightarrow>
      points_of raw_point rows = map point_of (ordered_samples d g s f t)"
    and "row \<in> set rows \<Longrightarrow> authorized_sensor d actor g s = Some \<lparr>rs_GatewayID = rw_gateway_id row, rs_SensorID = rw_sensor_id row, rs_Unit = rw_unit row\<rparr> \<and> is_ok (raw_point row)"
proof -
  let ?xs = "ordered_samples d g s f t"
  have len: "length ?xs = length (samples_in d g s f t)" by (simp add: ordered_samples_def)
  have L: "rows = take (nat (n + 1)) (case ?xs of [] \<Rightarrow> [raw_sentinel src] | _ \<Rightarrow> map (raw_row_of src) ?xs)"
    if "authorized_sensor d actor g s = Some src" for src
    using assms(2) that by (simp add: rawTelemetryHistoryQuery_def split: list.splits)
  note R = limited_rows [OF assms(1) L]
  show "rows = [] \<longleftrightarrow> authorized_sensor d actor g s = None"
    using assms(2) R(1) by (cases "authorized_sensor d actor g s") (simp_all add: rawTelemetryHistoryQuery_def)
  show "n < int (length (points_of raw_point rows)) \<longleftrightarrow> n < int (length (samples_in d g s f t))" if "authorized_sensor d actor g s \<noteq> None"
    using that assms(1) R(2,3) len by (cases "n < int (length ?xs)") (auto split: list.splits)
  show "points_of raw_point rows = map point_of ?xs" if "authorized_sensor d actor g s \<noteq> None" "int (length (samples_in d g s f t)) \<le> n"
    using that R(2) len by (auto split: list.splits)
  show "authorized_sensor d actor g s = Some \<lparr>rs_GatewayID = rw_gateway_id row, rs_SensorID = rw_sensor_id row, rs_Unit = rw_unit row\<rparr> \<and> is_ok (raw_point row)"
    if "row \<in> set rows"
    using that assms(2) by (auto simp: rawTelemetryHistoryQuery_def raw_row_of_def raw_sentinel_def raw_point_def dest!: in_set_takeD split: option.splits list.splits)
qed

lemma bucketTelemetryHistoryQuery_points:
  fixes w :: duration
  fixes F d g s f t
  defines "starts \<equiv> bucket_starts F w (samples_in d g s f t)"
  assumes "1 \<le> n" and "bucketTelemetryHistoryQuery F d actor g s w f t (n + 1) = rows"
  shows "rows = [] \<longleftrightarrow> authorized_sensor d actor g s = None"
    and "authorized_sensor d actor g s \<noteq> None \<Longrightarrow> n < int (length (points_of bucket_point rows)) \<longleftrightarrow> n < int (length (starts))"
    and "authorized_sensor d actor g s \<noteq> None \<Longrightarrow> int (length (starts)) \<le> n \<Longrightarrow>
      points_of bucket_point rows = map (bucket_of F w (samples_in d g s f t)) (starts)"
    and "row \<in> set rows \<Longrightarrow> authorized_sensor d actor g s = Some \<lparr>rs_GatewayID = bw_gateway_id row, rs_SensorID = bw_sensor_id row, rs_Unit = bw_unit row\<rparr> \<and> is_ok (bucket_point row)"
proof -
  let ?xs = "starts"
  have L: "rows = take (nat (n + 1)) (case ?xs of [] \<Rightarrow> [bucket_sentinel src] | _ \<Rightarrow> map (bucket_row_of F src w (samples_in d g s f t)) ?xs)"
    if "authorized_sensor d actor g s = Some src" for src
    using assms(3) that by (simp add: bucketTelemetryHistoryQuery_def starts_def Let_def split: list.splits)
  note R = limited_rows [OF assms(2) L]
  show "rows = [] \<longleftrightarrow> authorized_sensor d actor g s = None"
    using assms(3) R(1) by (cases "authorized_sensor d actor g s") (simp_all add: bucketTelemetryHistoryQuery_def)
  show "n < int (length (points_of bucket_point rows)) \<longleftrightarrow> n < int (length ?xs)" if "authorized_sensor d actor g s \<noteq> None"
    using that assms(2) R(2,3) by (cases "n < int (length ?xs)") (auto split: list.splits)
  show "points_of bucket_point rows = map (bucket_of F w (samples_in d g s f t)) ?xs" if "authorized_sensor d actor g s \<noteq> None" "int (length ?xs) \<le> n"
    using that R(2) by (auto split: list.splits)
  show "authorized_sensor d actor g s = Some \<lparr>rs_GatewayID = bw_gateway_id row, rs_SensorID = bw_sensor_id row, rs_Unit = bw_unit row\<rparr> \<and> is_ok (bucket_point row)"
    if "row \<in> set rows"
    using that assms(3) by (auto simp: bucketTelemetryHistoryQuery_def Let_def bucket_row_of_def bucket_sentinel_def bucket_point_def dest!: in_set_takeD split: option.splits list.splits)
qed

section \<open>Exactness of a result\<close>

text \<open>
  A result against the tables: the actor is a member, the Sensor exists, and the points are all the
  stored samples of the interval in order, or one point per bucket that holds a sample.
\<close>

definition bucket_partition :: "sql_funcs \<Rightarrow> duration \<Rightarrow> telemetry_row list \<Rightarrow> BucketSamplePoint list \<Rightarrow> bool" where
  "bucket_partition F w S bs \<longleftrightarrow> sorted_wrt (<) (map bp_BucketStart bs) \<and> sum_list (map bp_Count bs) = int (length S) \<and>
     (\<forall>b \<in> set bs. w dvd bp_BucketStart b - unixEpoch \<and>
        (let G = filter (\<lambda>r. bp_BucketStart b \<le> tr_measured_at r \<and> tr_measured_at r < bp_BucketStart b + w) S in
         G \<noteq> [] \<and> bp_Count b = int (length G) \<and> bp_Min b = Min (tr_value ` set G) \<and> bp_Max b = Max (tr_value ` set G) \<and>
         bp_Avg b = sf_avg F (map tr_value G)))"

lemma list_min_max: "vs \<noteq> [] \<Longrightarrow> list_min vs = Min (set vs)" "vs \<noteq> [] \<Longrightarrow> list_max vs = Max (set vs)"
proof -
  assume "vs \<noteq> []"
  then obtain v us where "vs = v # us" by (cases vs) auto
  then show "list_min vs = Min (set vs)" "list_max vs = Max (set vs)"
    unfolding list_min_def list_max_def by (simp_all only: list.sel Min.set_eq_fold Max.set_eq_fold)
qed

lemma sum_list_int: "sum_list (map int ns) = int (sum_list ns)"
  by (induction ns) simp_all

lemma sum_indicator: "distinct bs \<Longrightarrow> x \<in> set bs \<Longrightarrow> sum_list (map (\<lambda>b. if x = b then 1 else 0) bs) = (1::nat)"
proof (induction bs)
  case (Cons b bs)
  have "sum_list (map (\<lambda>b. if x = b then 1 else 0) bs) = (0::nat)" if "x \<notin> set bs"
    using that by (simp add: sum_list_eq_0_iff)
  then show ?case using Cons by auto
qed simp

lemma sum_groups:
  assumes "distinct bs" "h ` set xs \<subseteq> set bs"
  shows "sum_list (map (\<lambda>b. length (filter (\<lambda>x. h x = b) xs)) bs) = length xs"
  using assms(2)
proof (induction xs)
  case (Cons x xs)
  have "sum_list (map (\<lambda>b. length (filter (\<lambda>x. h x = b) (x # xs))) bs) =
      sum_list (map (\<lambda>b. (if h x = b then 1 else 0) + length (filter (\<lambda>x. h x = b) xs)) bs)"
    by (rule arg_cong [where f = sum_list]) simp
  also have "\<dots> = Suc (length xs)" using Cons sum_indicator [OF assms(1), of "h x"] by (simp add: sum_list_addf)
  finally show ?case by simp
qed simp

lemma same_bucket:
  assumes "0 < (w::int)"
  shows "E + (m - E) div w * w = E + n * w \<longleftrightarrow> E + n * w \<le> m \<and> m < E + n * w + w"
proof -
  have "(m - E) div w = n \<longleftrightarrow> n * w \<le> m - E \<and> m - E < n * w + w"
  proof
    assume "(m - E) div w = n"
    then show "n * w \<le> m - E \<and> m - E < n * w + w"
      using assms div_mult_mod_eq [of "m - E" w] pos_mod_sign [OF assms, of "m - E"] pos_mod_bound [OF assms, of "m - E"] by auto
  next
    assume "n * w \<le> m - E \<and> m - E < n * w + w"
    then show "(m - E) div w = n" using assms by (intro int_div_pos_eq [where r = "m - E - n * w"]) (simp_all add: algebra_simps)
  qed
  then show ?thesis using assms by auto
qed

lemma bucket_partition_starts:
  assumes F: "time_bucket_ok F" and w: "0 < w"
  shows "bucket_partition F w S (map (bucket_of F w S) (bucket_starts F w S))"
proof -
  let ?h = "\<lambda>r. sf_time_bucket F w (tr_measured_at r)" and ?bs = "bucket_starts F w S"
  have start: "bp_BucketStart (bucket_of F w S b) = b" and count: "bp_Count (bucket_of F w S b) = int (length (filter (\<lambda>r. ?h r = b) S))" for b
    by (simp_all add: bucket_of_def Let_def)
  have d: "distinct ?bs" "set ?bs = ?h ` set S" by (simp_all add: bucket_starts_def)
  have "sorted ?bs" by (simp add: bucket_starts_def)
  then have "sorted_wrt (<) ?bs" using d(1) strict_sorted_iff by blast
  moreover have "map bp_BucketStart (map (bucket_of F w S) ?bs) = ?bs" by (simp add: comp_def start)
  moreover have "sum_list (map bp_Count (map (bucket_of F w S) ?bs)) = int (length S)"
  proof -
    have "sum_list (map bp_Count (map (bucket_of F w S) ?bs)) = sum_list (map int (map (\<lambda>b. length (filter (\<lambda>r. ?h r = b) S)) ?bs))"
      by (simp add: comp_def count)
    also have "\<dots> = int (sum_list (map (\<lambda>b. length (filter (\<lambda>r. ?h r = b) S)) ?bs))" by (rule sum_list_int)
    finally show ?thesis using sum_groups [of ?bs ?h S] d by simp
  qed
  moreover have "w dvd b - unixEpoch \<and>
      (let G = filter (\<lambda>r. b \<le> tr_measured_at r \<and> tr_measured_at r < b + w) S in
         G \<noteq> [] \<and> bp_Count (bucket_of F w S b) = int (length G) \<and> bp_Min (bucket_of F w S b) = Min (tr_value ` set G) \<and>
         bp_Max (bucket_of F w S b) = Max (tr_value ` set G) \<and> bp_Avg (bucket_of F w S b) = sf_avg F (map tr_value G))"
    if b: "b \<in> set ?bs" for b
  proof -
    obtain r where r: "r \<in> set S" "b = ?h r" using b d(2) by auto
    define n where "n = (tr_measured_at r - unixEpoch) div w"
    have bn: "b = unixEpoch + n * w" using F w r(2) by (simp add: time_bucket_ok_def n_def)
    have hb: "?h x = b \<longleftrightarrow> b \<le> tr_measured_at x \<and> tr_measured_at x < b + w" for x
      using F w same_bucket [OF w, of unixEpoch "tr_measured_at x" n] by (simp add: time_bucket_ok_def bn)
    have G: "filter (\<lambda>r. ?h r = b) S = filter (\<lambda>r. b \<le> tr_measured_at r \<and> tr_measured_at r < b + w) S" by (simp only: hb)
    have ne: "filter (\<lambda>r. ?h r = b) S \<noteq> []" using r by (auto simp: filter_empty_conv)
    then have mm: "list_min (map tr_value (filter (\<lambda>r. ?h r = b) S)) = Min (tr_value ` set (filter (\<lambda>r. ?h r = b) S))"
        "list_max (map tr_value (filter (\<lambda>r. ?h r = b) S)) = Max (tr_value ` set (filter (\<lambda>r. ?h r = b) S))"
      by (simp_all only: list_min_max map_is_Nil_conv set_map not_False_eq_True)
    have "w dvd b - unixEpoch" by (simp add: bn)
    then show ?thesis using ne mm unfolding G [symmetric] by (simp add: bucket_of_def Let_def)
  qed
  ultimately show ?thesis by (simp add: bucket_partition_def start)
qed

definition exact_result :: "sql_funcs \<Rightarrow> read_db \<Rightarrow> uuid \<Rightarrow> TelemetryHistoryQuery \<Rightarrow> TelemetryHistoryResult \<Rightarrow> bool" where
  "exact_result F d actor q r \<longleftrightarrow>
     (let g = hq_GatewayID q; s = hq_SensorID q; f = tg_From (hq_Range q); t = tg_To (hq_Range q); S = samples_in d g s f t in
      (actor, g) \<in> set (rd_user_gateways d) \<and> db_sensors (rd_store d) (g, s) = Some (hr_Unit r) \<and>
      hr_GatewayID r = g \<and> hr_SensorID r = s \<and> hr_From r = f \<and> hr_To r = t \<and>
      hr_PointCount r \<le> hq_MaxPoints q \<and>
      (if hr_Mode r = ResolutionRaw
       then hr_Resolution r = ResolutionRaw \<and> hr_RawPoints r = map point_of (ordered_samples d g s f t) \<and> hr_BucketPoints r = [] \<and>
         hr_PointCount r = int (length S)
       else hr_Mode r = ''bucket'' \<and> hr_RawPoints r = [] \<and> hr_PointCount r = int (length (hr_BucketPoints r)) \<and>
         (\<exists>w. ResolutionDuration (hr_Resolution r) = Some w \<and> bucket_partition F w S (hr_BucketPoints r))))"

lemma authorized_sensor_Some:
  "authorized_sensor d actor g s = Some src \<longleftrightarrow>
     (actor, g) \<in> set (rd_user_gateways d) \<and> db_sensors (rd_store d) (g, s) = Some (rs_Unit src) \<and> rs_GatewayID src = g \<and> rs_SensorID src = s"
  by (cases src) (auto simp: authorized_sensor_def split: option.splits)

definition config_ok :: "HistoryPreparationConfig \<Rightarrow> bool" where
  "config_ok cfg \<longleftrightarrow> ValidateHistoryPreparationConfig cfg = None"

lemma config_okD:
  assumes "config_ok cfg"
  shows "0 < hc_MaxRange cfg" "hc_MaxRange cfg \<le> MaxHistoryMaxRange" "0 < hc_RawWindow cfg" "hc_RawWindow cfg \<le> hc_MaxRange cfg"
    "100 \<le> hc_MinPoints cfg" "hc_MinPoints cfg \<le> hc_MaxPoints cfg" "hc_MaxPoints cfg \<le> 2000"
  using assms by (auto simp: config_ok_def ValidateHistoryPreparationConfig_def history_bounds split: if_splits)

definition accepted :: "HistoryPreparationConfig \<Rightarrow> TelemetryHistoryQuery \<Rightarrow> bool" where
  "accepted cfg q \<longleftrightarrow> hc_MinPoints cfg \<le> hq_MaxPoints q \<and> hq_MaxPoints q \<le> hc_MaxPoints cfg \<and>
     range_ok (hq_Range q) (hc_MaxRange cfg) \<and> Resolution_Valid (hq_Resolution q) \<and>
     fits (hq_Range q) (hq_Resolution q) (hc_RawWindow cfg) (hq_MaxPoints q)"

lemma query_invalid_None:
  assumes "config_ok cfg"
  shows "query_invalid cfg actor q = None \<longleftrightarrow>
    actor \<noteq> uuid_Nil \<and> ValidateGatewayID (hq_GatewayID q) \<and> ValidateSensorID (hq_SensorID q) \<and> accepted cfg q"
  using ValidateHistoryTimeRange_None [OF config_okD(1-3) [OF assms]]
  by (auto simp: query_invalid_def accepted_def)

lemma accepted_limit:
  assumes "config_ok cfg" "accepted cfg q"
  shows "1 \<le> hq_MaxPoints q" "i64 (hq_MaxPoints q + 1) = hq_MaxPoints q + 1"
    "pg_timestamptz (tg_From (hq_Range q)) = tg_From (hq_Range q)" "pg_timestamptz (tg_To (hq_Range q)) = tg_To (hq_Range q)"
  using config_okD [OF assms(1)] assms(2)
  by (auto simp: accepted_def range_ok_def pg_timestamptz_id int_bounds_defs intro!: i64_id)

lemma readRaw_exact:
  assumes cfg: "config_ok cfg" and q: "accepted cfg q" and r: "readRawTelemetryHistory ctx rf k d actor q = Inr r"
  shows "exact_result F d actor q r"
proof -
  let ?g = "hq_GatewayID q" and ?s = "hq_SensorID q" and ?f = "tg_From (hq_Range q)" and ?t = "tg_To (hq_Range q)" and ?n = "hq_MaxPoints q"
  note L = accepted_limit [OF cfg q]
  let ?rows = "rawTelemetryHistoryQuery d actor ?g ?s ?f ?t (?n + 1)"
  note Q = rawTelemetryHistoryQuery_points [OF L(1) refl, where d = d and actor = actor and g = ?g and s = ?s and f = ?f and t = ?t]
  obtain rows where rr: "read_rows ctx rf k ?rows raw_point = Inr (rows, points_of raw_point ?rows)" "rows = ?rows"
    using r read_rows_Inr by (fastforce simp: readRawTelemetryHistory_def Let_def L)
  then obtain row rest where row: "?rows = row # rest" "\<not> ?n < int (length (points_of raw_point ?rows))"
      "r = \<lparr>hr_GatewayID = rw_gateway_id row, hr_SensorID = rw_sensor_id row, hr_Unit = rw_unit row, hr_From = ?f, hr_To = ?t,
               hr_Mode = ResolutionRaw, hr_Resolution = ResolutionRaw, hr_PointCount = int (length (points_of raw_point ?rows)),
               hr_RawPoints = points_of raw_point ?rows, hr_BucketPoints = []\<rparr>"
    using r by (auto simp: readRawTelemetryHistory_def Let_def L split: list.splits if_splits)
  have auth: "authorized_sensor d actor ?g ?s = Some \<lparr>rs_GatewayID = rw_gateway_id row, rs_SensorID = rw_sensor_id row, rs_Unit = rw_unit row\<rparr>"
    using Q(4) [of row] row(1) by simp
  then have "int (length (samples_in d ?g ?s ?f ?t)) \<le> ?n" using Q(2) row(2) by simp
  then have "points_of raw_point ?rows = map point_of (ordered_samples d ?g ?s ?f ?t)" using Q(3) auth by simp
  then show ?thesis using row(2) auth authorized_sensor_Some [of d actor ?g ?s]
    by (auto simp: exact_result_def row(3) Let_def ordered_samples_def)
qed

lemma readBucket_exact:
  assumes cfg: "config_ok cfg" and F: "time_bucket_ok F" and q: "accepted cfg q" and w: "ResolutionDuration (hq_Resolution q) = Some w"
    and r: "readBucketTelemetryHistory F ctx rf k d actor q w = Inr r"
  shows "exact_result F d actor q r"
proof -
  let ?g = "hq_GatewayID q" and ?s = "hq_SensorID q" and ?f = "tg_From (hq_Range q)" and ?t = "tg_To (hq_Range q)" and ?n = "hq_MaxPoints q"
  note L = accepted_limit [OF cfg q]
  have wm: "duration_Microseconds w * 1000 = w" using ResolutionDuration_facts(1,2) [OF w] by (simp add: duration_Microseconds_def sdiv_pos)
  let ?rows = "bucketTelemetryHistoryQuery F d actor ?g ?s w ?f ?t (?n + 1)"
  note Q = bucketTelemetryHistoryQuery_points [OF L(1) refl, where F = F and d = d and actor = actor and g = ?g and s = ?s and w = w and f = ?f and t = ?t]
  obtain rows where rr: "read_rows ctx rf k ?rows bucket_point = Inr (rows, points_of bucket_point ?rows)" "rows = ?rows"
    using r read_rows_Inr by (fastforce simp: readBucketTelemetryHistory_def Let_def L wm)
  then obtain row rest where row: "?rows = row # rest" "\<not> ?n < int (length (points_of bucket_point ?rows))"
      "r = \<lparr>hr_GatewayID = bw_gateway_id row, hr_SensorID = bw_sensor_id row, hr_Unit = bw_unit row, hr_From = ?f, hr_To = ?t,
               hr_Mode = ''bucket'', hr_Resolution = hq_Resolution q, hr_PointCount = int (length (points_of bucket_point ?rows)),
               hr_RawPoints = [], hr_BucketPoints = points_of bucket_point ?rows\<rparr>"
    using r by (auto simp: readBucketTelemetryHistory_def Let_def L wm split: list.splits if_splits)
  have auth: "authorized_sensor d actor ?g ?s = Some \<lparr>rs_GatewayID = bw_gateway_id row, rs_SensorID = bw_sensor_id row, rs_Unit = bw_unit row\<rparr>"
    using Q(4) [of row] row(1) by simp
  then have "points_of bucket_point ?rows = map (bucket_of F w (samples_in d ?g ?s ?f ?t)) (bucket_starts F w (samples_in d ?g ?s ?f ?t))"
    using Q(2,3) row(2) by simp
  then have "bucket_partition F w (samples_in d ?g ?s ?f ?t) (points_of bucket_point ?rows)"
    using bucket_partition_starts [OF F ResolutionDuration_facts(1) [OF w]] by simp
  then show ?thesis using row(2) auth authorized_sensor_Some [of d actor ?g ?s] w
    by (auto simp: exact_result_def row(3) Let_def resolution_defs)
qed

lemma ReadTelemetryHistory_exact:
  assumes "config_ok cfg" "time_bucket_ok F" "ReadTelemetryHistory cfg F ctx rf dbs k actor q = Inr r"
  shows "exact_result F (dbs k) actor q r"
proof -
  have ok: "ValidateHistoryTimeRange (hq_Range q) (hq_Resolution q) (hc_MaxRange cfg) (hc_RawWindow cfg) (hq_MaxPoints q) = None"
    "\<not> hq_MaxPoints q < hc_MinPoints cfg" "\<not> hc_MaxPoints cfg < hq_MaxPoints q"
    using assms(3) by (auto simp: ReadTelemetryHistory_def split: if_splits option.splits)
  then have acc: "accepted cfg q"
    using ValidateHistoryTimeRange_None [OF config_okD(1-3) [OF assms(1)]] by (auto simp: accepted_def)
  show ?thesis
  proof (cases "hq_Resolution q = ResolutionRaw")
    case True
    then have "readRawTelemetryHistory ctx rf k (dbs k) actor q = Inr r"
      using assms(3) by (auto simp: ReadTelemetryHistory_def split: if_splits option.splits)
    then show ?thesis by (rule readRaw_exact [OF assms(1) acc])
  next
    case False
    then obtain w where w: "ResolutionDuration (hq_Resolution q) = Some w" "readBucketTelemetryHistory F ctx rf k (dbs k) actor q w = Inr r"
      using assms(3) by (auto simp: ReadTelemetryHistory_def split: if_splits option.splits)
    then show ?thesis using readBucket_exact [OF assms(1,2) acc] by blast
  qed
qed

lemma exact_result_resolution: "exact_result F d actor (q\<lparr>hq_Resolution := res\<rparr>) r \<longleftrightarrow> exact_result F d actor q r"
  by (simp add: exact_result_def)

lemma executeEffectiveQuery_reads:
  assumes "executeEffectiveQuery cfg ctx rd actor q = Inr r"
  obtains k res where "rd k actor (q\<lparr>hq_Resolution := res\<rparr>) = Inr r"
  using assms that [of 0 "hq_Resolution q"] that [of 0 ResolutionRaw] that [of 1]
  unfolding executeEffectiveQuery_def bucket_fallback_def Let_def by (auto split: if_splits sum.splits)

lemma history_exact:
  assumes "config_ok cfg" "time_bucket_ok F" "telemetry_history cfg F ctx rf d0 dbs actor q = Inr r"
  shows "\<exists>k. exact_result F (dbs k) actor q r"
proof -
  have "executeEffectiveQuery cfg ctx (ReadTelemetryHistory cfg F ctx rf dbs) actor q = Inr r"
    using assms(3)
    by (auto simp: telemetry_history_def GetTelemetryHistory_def PrepareTelemetryHistory_def after_callback_def
        split: if_splits option.splits sum.splits)
  then obtain k res where "ReadTelemetryHistory cfg F ctx rf dbs k actor (q\<lparr>hq_Resolution := res\<rparr>) = Inr r"
    by (rule executeEffectiveQuery_reads)
  then show ?thesis using ReadTelemetryHistory_exact [OF assms(1,2)] exact_result_resolution by blast
qed

section \<open>A quiet service always answers\<close>

lemma readRaw_quiet:
  assumes cfg: "config_ok cfg" and q: "accepted cfg q" and quiet: "quiet ctx rf" and auth: "authorized_sensor d actor (hq_GatewayID q) (hq_SensorID q) = Some src"
  defines "n \<equiv> int (length (samples_in d (hq_GatewayID q) (hq_SensorID q) (tg_From (hq_Range q)) (tg_To (hq_Range q))))"
  shows "if hq_MaxPoints q < n then readRawTelemetryHistory ctx rf k d actor q = Inl ErrHistoryRawLimitExceeded
    else is_ok (readRawTelemetryHistory ctx rf k d actor q)"
proof -
  let ?g = "hq_GatewayID q" and ?s = "hq_SensorID q" and ?f = "tg_From (hq_Range q)" and ?t = "tg_To (hq_Range q)"
  note L = accepted_limit [OF cfg q]
  note Q = rawTelemetryHistoryQuery_points [OF L(1) refl, where d = d and actor = actor and g = ?g and s = ?s and f = ?f and t = ?t]
  let ?rows = "rawTelemetryHistoryQuery d actor ?g ?s ?f ?t (hq_MaxPoints q + 1)"
  have "read_rows ctx rf k ?rows raw_point = Inr (?rows, points_of raw_point ?rows)"
    by (rule read_rows_quiet [OF quiet]) (use Q(4) in blast)
  moreover obtain row rest where "?rows = row # rest" using Q(1) auth by (cases ?rows) auto
  ultimately show ?thesis using Q(2) auth by (simp add: readRawTelemetryHistory_def Let_def L n_def)
qed

text \<open>The buckets of stored samples are among those counted beforehand, so the reader's limit is never hit.\<close>

lemma bucket_starts_bound:
  assumes F: "time_bucket_ok F" and w: "0 < w" "1000 dvd w" and r: "range_ok tr maxRange"
  shows "length (bucket_starts F w (samples_in d g s (tg_From tr) (tg_To tr))) \<le> card (buckets_hit (tg_From tr) (tg_To tr) w)"
proof -
  let ?S = "samples_in d g s (tg_From tr) (tg_To tr)" and ?B = "buckets_hit (tg_From tr) (tg_To tr) w"
  have fin: "finite ?B" using buckets_hit_interval [of "tg_From tr" "tg_To tr" w] r w by (simp add: range_ok_def)
  have "set (bucket_starts F w ?S) \<subseteq> (\<lambda>b. unixEpoch + b * w) ` ?B"
  proof
    fix b assume "b \<in> set (bucket_starts F w ?S)"
    then obtain x where x: "x \<in> set ?S" "b = unixEpoch + (tr_measured_at x - unixEpoch) div w * w"
      using F w(1) by (auto simp: bucket_starts_def time_bucket_ok_def)
    have "(tr_measured_at x - unixEpoch) div w \<in> ?B" using x(1) unfolding buckets_hit_def samples_in_def by (intro imageI) simp
    then show "b \<in> (\<lambda>b. unixEpoch + b * w) ` ?B" using x(2) by blast
  qed
  then have "card (set (bucket_starts F w ?S)) \<le> card ?B" using fin by (meson card_image_le card_mono finite_imageI order_trans)
  moreover have "distinct (bucket_starts F w ?S)" by (simp add: bucket_starts_def)
  ultimately show ?thesis by (simp add: distinct_card)
qed

lemma readBucket_quiet:
  assumes cfg: "config_ok cfg" and F: "time_bucket_ok F" and q: "accepted cfg q" and w: "ResolutionDuration (hq_Resolution q) = Some w"
    and quiet: "quiet ctx rf" and auth: "authorized_sensor d actor (hq_GatewayID q) (hq_SensorID q) = Some src"
  shows "is_ok (readBucketTelemetryHistory F ctx rf k d actor q w)"
proof -
  let ?g = "hq_GatewayID q" and ?s = "hq_SensorID q" and ?f = "tg_From (hq_Range q)" and ?t = "tg_To (hq_Range q)" and ?n = "hq_MaxPoints q"
  note L = accepted_limit [OF cfg q] and W = ResolutionDuration_facts [OF w]
  have wm: "duration_Microseconds w * 1000 = w" using W(1,2) by (simp add: duration_Microseconds_def sdiv_pos)
  note Q = bucketTelemetryHistoryQuery_points [OF L(1) refl, where F = F and d = d and actor = actor and g = ?g and s = ?s and w = w and f = ?f and t = ?t]
  let ?rows = "bucketTelemetryHistoryQuery F d actor ?g ?s w ?f ?t (?n + 1)"
  have r: "range_ok (hq_Range q) (hc_MaxRange cfg)" "int (card (buckets_hit ?f ?t w)) \<le> ?n"
    using q w W(5) by (auto simp: accepted_def fits_def)
  have "int (length (bucket_starts F w (samples_in d ?g ?s ?f ?t))) \<le> ?n"
    using bucket_starts_bound [OF F W(1,2) r(1), of d ?g ?s] r(2) by linarith
  moreover have "read_rows ctx rf k ?rows bucket_point = Inr (?rows, points_of bucket_point ?rows)"
    by (rule read_rows_quiet [OF quiet]) (use Q(4) in blast)
  moreover obtain row rest where "?rows = row # rest" using Q(1) auth by (cases ?rows) auto
  ultimately show ?thesis using Q(2) auth by (simp add: readBucketTelemetryHistory_def Let_def L wm)
qed

lemma ReadTelemetryHistory_accepted:
  assumes "config_ok cfg" "quiet ctx rf" "actor \<noteq> uuid_Nil" "ValidateGatewayID (hq_GatewayID q)" "ValidateSensorID (hq_SensorID q)" "accepted cfg q"
    "hq_Resolution q \<noteq> ResolutionAuto"
  shows "ReadTelemetryHistory cfg F ctx rf dbs k actor q =
    (if hq_Resolution q = ResolutionRaw then readRawTelemetryHistory ctx rf k (dbs k) actor q
     else readBucketTelemetryHistory F ctx rf k (dbs k) actor q (the (ResolutionDuration (hq_Resolution q))))"
proof -
  have "ValidateHistoryTimeRange (hq_Range q) (hq_Resolution q) (hc_MaxRange cfg) (hc_RawWindow cfg) (hq_MaxPoints q) = None"
    using ValidateHistoryTimeRange_None [OF config_okD(1-3) [OF assms(1)]] assms(6) by (simp add: accepted_def)
  moreover have "ResolutionDuration (hq_Resolution q) \<noteq> None" if "hq_Resolution q \<noteq> ResolutionRaw"
    using that assms(6,7) valid_cases allowed_duration by (auto simp: accepted_def)
  ultimately show ?thesis using assms by (auto simp: ReadTelemetryHistory_def quiet_def ctx_check_def accepted_def)
qed

lemma auto_selects:
  assumes cfg: "config_ok cfg" and q: "accepted cfg q"
  shows "\<exists>res \<in> set AllowedBucketResolutions. SelectAutoBucketResolution (tg_From (hq_Range q)) (tg_To (hq_Range q)) (hq_MaxPoints q) = Inr res \<and>
    accepted cfg (q\<lparr>hq_Resolution := res\<rparr>) \<and>
    (\<forall>res' \<in> set (takeWhile (\<lambda>x. x \<noteq> res) AllowedBucketResolutions). \<not> accepted cfg (q\<lparr>hq_Resolution := res'\<rparr>))"
proof -
  note L = accepted_limit [OF cfg q] and C = config_okD [OF cfg]
  have r: "range_ok (hq_Range q) (hc_MaxRange cfg)" using q by (simp add: accepted_def)
  then have r': "range_ok (hq_Range q) MaxHistoryMaxRange" using C(2) unfolding range_ok_def by (meson order_trans zdiv_mono1 zero_less_numeral)
  have "fits (hq_Range q) Resolution1d 0 (hq_MaxPoints q)"
    using buckets_hit_day [OF r'] C(5) q by (simp add: fits_def ResolutionDuration_def resolution_defs accepted_def)
  moreover have "Resolution1d \<in> set AllowedBucketResolutions" by (simp add: AllowedBucketResolutions_def)
  ultimately obtain res where res: "find (\<lambda>x. fits (hq_Range q) x 0 (hq_MaxPoints q)) AllowedBucketResolutions = Some res"
    by (cases "find (\<lambda>x. fits (hq_Range q) x 0 (hq_MaxPoints q)) AllowedBucketResolutions") (auto simp: find_None_iff)
  then obtain i where i: "i < length AllowedBucketResolutions" "fits (hq_Range q) res 0 (hq_MaxPoints q)" "res = AllowedBucketResolutions ! i"
      "\<forall>j < i. \<not> fits (hq_Range q) (AllowedBucketResolutions ! j) 0 (hq_MaxPoints q)"
    unfolding find_Some_iff by blast
  have fa: "accepted cfg (q\<lparr>hq_Resolution := x\<rparr>) \<longleftrightarrow> fits (hq_Range q) x 0 (hq_MaxPoints q)" if h: "x \<in> set AllowedBucketResolutions" for x
  proof -
    obtain w where "ResolutionDuration x = Some w" using h allowed_duration by blast
    then show ?thesis using q ResolutionDuration_facts(5,6) by (auto simp: accepted_def fits_def)
  qed
  have mem: "res \<in> set AllowedBucketResolutions" using i by simp
  have "SelectAutoBucketResolution (tg_From (hq_Range q)) (tg_To (hq_Range q)) (hq_MaxPoints q) = Inr res"
    using L(1) r first_fitting_spec [OF r order_refl, of "hq_MaxPoints q"] res by (simp add: SelectAutoBucketResolution_def range_ok_def)
  moreover have "\<not> accepted cfg (q\<lparr>hq_Resolution := x\<rparr>)" if x: "x \<in> set (takeWhile (\<lambda>x. x \<noteq> res) AllowedBucketResolutions)" for x
  proof -
    have "takeWhile (\<lambda>x. x \<noteq> res) AllowedBucketResolutions = take (length (takeWhile (\<lambda>x. x \<noteq> res) AllowedBucketResolutions)) AllowedBucketResolutions"
      by (rule takeWhile_eq_take)
    moreover have "length (takeWhile (\<lambda>x. x \<noteq> res) AllowedBucketResolutions) \<le> i"
    proof (rule ccontr)
      assume "\<not> ?thesis"
      then have "i < length (takeWhile (\<lambda>x. x \<noteq> res) AllowedBucketResolutions)" by simp
      then have "AllowedBucketResolutions ! i \<in> set (takeWhile (\<lambda>x. x \<noteq> res) AllowedBucketResolutions)"
        using takeWhile_nth [of i "\<lambda>x. x \<noteq> res"] nth_mem by metis
      then show False using i(3) by (auto dest: set_takeWhileD)
    qed
    ultimately obtain j where "j < i" "x = AllowedBucketResolutions ! j" using x
      by (metis (no_types, lifting) in_set_conv_nth length_takeWhile_le less_le_trans takeWhile_nth)
    then show ?thesis using i(1,4) fa by simp
  qed
  ultimately show ?thesis using mem fa i(2) by blast
qed

definition answers :: "read_error + TelemetryHistoryResult \<Rightarrow> read_db \<Rightarrow> uuid \<Rightarrow> TelemetryHistoryQuery \<Rightarrow> bool" where
  "answers res d actor q \<longleftrightarrow>
     (let S = samples_in d (hq_GatewayID q) (hq_SensorID q) (tg_From (hq_Range q)) (tg_To (hq_Range q)) in
      if authorized_sensor d actor (hq_GatewayID q) (hq_SensorID q) = None then res = Inl ErrHistoryNotFound
      else if hq_Resolution q = ResolutionRaw \<and> hq_MaxPoints q < int (length S) then res = Inl ErrHistoryRawLimitExceeded
      else is_ok res)"

lemma quietD: "quiet ctx rf \<Longrightarrow> ctx p = None" "quiet ctx rf \<Longrightarrow> rf_resolve rf = None" "quiet ctx rf \<Longrightarrow> ctx_check ctx p = Inr ()"
  by (simp_all add: quiet_def ctx_check_def)

lemma bucket_fallback_quiet:
  assumes cfg: "config_ok cfg" and F: "time_bucket_ok F" and q: "accepted cfg q" and quiet: "quiet ctx rf"
    and v: "actor \<noteq> uuid_Nil" "ValidateGatewayID (hq_GatewayID q)" "ValidateSensorID (hq_SensorID q)"
    and auth: "authorized_sensor d actor (hq_GatewayID q) (hq_SensorID q) = Some src"
  shows "is_ok (bucket_fallback (ReadTelemetryHistory cfg F ctx rf (\<lambda>_. d)) k actor q)"
proof -
  obtain res where res: "res \<in> set AllowedBucketResolutions"
      "SelectAutoBucketResolution (tg_From (hq_Range q)) (tg_To (hq_Range q)) (hq_MaxPoints q) = Inr res" "accepted cfg (q\<lparr>hq_Resolution := res\<rparr>)"
    using auto_selects [OF cfg q] by blast
  then obtain w where w: "ResolutionDuration res = Some w" using allowed_duration by blast
  have "is_ok (readBucketTelemetryHistory F ctx rf k d actor (q\<lparr>hq_Resolution := res\<rparr>) w)"
    by (rule readBucket_quiet [OF cfg F res(3) _ quiet]) (use w auth in simp_all)
  then show ?thesis
    using ReadTelemetryHistory_accepted [OF cfg quiet v(1) _ _ res(3), of F "\<lambda>_. d" k] v(2,3) w ResolutionDuration_facts(4,5) [OF w]
    by (simp add: bucket_fallback_def res(2))
qed

lemma executeEffectiveQuery_quiet:
  assumes cfg: "config_ok cfg" and F: "time_bucket_ok F" and q: "accepted cfg q" and quiet: "quiet ctx rf"
    and v: "actor \<noteq> uuid_Nil" "ValidateGatewayID (hq_GatewayID q)" "ValidateSensorID (hq_SensorID q)"
    and auth: "authorized_sensor d actor (hq_GatewayID q) (hq_SensorID q) = Some src"
  shows "answers (executeEffectiveQuery cfg ctx (ReadTelemetryHistory cfg F ctx rf (\<lambda>_. d)) actor q) d actor q"
proof -
  let ?rd = "ReadTelemetryHistory cfg F ctx rf (\<lambda>_. d)"
  note R = ReadTelemetryHistory_accepted [OF cfg quiet v(1)]
  consider (raw) "hq_Resolution q = ResolutionRaw" | (auto) "hq_Resolution q = ResolutionAuto" "hq_Resolution q \<noteq> ResolutionRaw"
    | (bucket) w where "hq_Resolution q \<noteq> ResolutionRaw" "hq_Resolution q \<noteq> ResolutionAuto" "ResolutionDuration (hq_Resolution q) = Some w"
    using q valid_cases allowed_duration by (metis accepted_def option.exhaust)
  then show ?thesis
  proof cases
    case raw
    then have "?rd 0 actor q = readRawTelemetryHistory ctx rf 0 d actor q" using R v(2,3) q by (simp add: resolution_defs)
    then show ?thesis using readRaw_quiet [OF cfg q quiet auth, of 0] raw auth
      by (auto simp: answers_def executeEffectiveQuery_def quietD(3) [OF quiet] Let_def split: if_splits)
  next
    case auto
    note fb = bucket_fallback_quiet [OF cfg F q quiet v auth]
    show ?thesis
    proof (cases "i64 (ToMicrosecondsSinceEpoch (tg_To (hq_Range q)) - ToMicrosecondsSinceEpoch (tg_From (hq_Range q))) \<le> duration_Microseconds (hc_RawWindow cfg)")
      case False
      then show ?thesis using fb auth auto by (simp add: answers_def executeEffectiveQuery_def quietD(3) [OF quiet] Let_def)
    next
      case True
      let ?q = "q\<lparr>hq_Resolution := ResolutionRaw\<rparr>"
      have "(tg_To (hq_Range q) - tg_From (hq_Range q)) div 1000 \<le> hc_RawWindow cfg div 1000"
        using True q config_okD(3) [OF cfg] diff_micros [of "tg_From (hq_Range q)" "tg_To (hq_Range q)"]
        by (simp add: accepted_def range_ok_def duration_Microseconds_def sdiv_pos)
      then have acc: "accepted cfg ?q" using q by (simp add: accepted_def fits_def valid_cases)
      have "?rd 0 actor ?q = readRawTelemetryHistory ctx rf 0 d actor ?q" using R [OF _ _ acc] v(2,3) by (simp add: resolution_defs)
      moreover have "readRawTelemetryHistory ctx rf 0 d actor ?q = Inl ErrHistoryRawLimitExceeded \<or> is_ok (readRawTelemetryHistory ctx rf 0 d actor ?q)"
        using readRaw_quiet [OF cfg acc quiet, of d actor src 0] auth by (auto split: if_splits)
      ultimately show ?thesis using True fb auth auto
        by (auto simp: answers_def executeEffectiveQuery_def quietD(3) [OF quiet] Let_def is_ok_iff split: sum.split)
    qed
  next
    case bucket
    then show ?thesis using R [OF v(2,3) q bucket(2), of F "\<lambda>_. d" 0] readBucket_quiet [OF cfg F q bucket(3) quiet auth, of 0] auth
      by (simp add: answers_def executeEffectiveQuery_def quietD(3) [OF quiet] Let_def)
  qed
qed

lemma telemetry_history_execute:
  assumes "config_ok cfg" "quiet ctx rf" "query_invalid cfg actor q = None"
    and "authorized_sensor d actor (hq_GatewayID q) (hq_SensorID q) = Some src"
  shows "telemetry_history cfg F ctx rf d (\<lambda>_. d) actor q = executeEffectiveQuery cfg ctx (ReadTelemetryHistory cfg F ctx rf (\<lambda>_. d)) actor q"
proof -
  note Q = quietD [OF assms(2)]
  have "actor \<noteq> uuid_Nil" "ValidateGatewayID (hq_GatewayID q)" "ValidateSensorID (hq_SensorID q)"
    using query_invalid_None [OF assms(1)] assms(3) by blast+
  then show ?thesis using assms(3,4) Q(2)
    by (auto simp: Q telemetry_history_def GetTelemetryHistory_def PrepareTelemetryHistory_def ResolveSensor_def after_callback_def res_bind_def split: sum.split)
qed

lemma telemetry_history_quiet:
  assumes "config_ok cfg" "time_bucket_ok F" "quiet ctx rf" "query_invalid cfg actor q = None"
  shows "answers (telemetry_history cfg F ctx rf d (\<lambda>_. d) actor q) d actor q"
proof -
  have v: "actor \<noteq> uuid_Nil" "ValidateGatewayID (hq_GatewayID q)" "ValidateSensorID (hq_SensorID q)" "accepted cfg q"
    using query_invalid_None [OF assms(1)] assms(4) by blast+
  note Q = quietD [OF assms(3)]
  show ?thesis
  proof (cases "authorized_sensor d actor (hq_GatewayID q) (hq_SensorID q)")
    case None
    then show ?thesis using v assms(4) Q(2)
      by (simp add: Q answers_def telemetry_history_def GetTelemetryHistory_def PrepareTelemetryHistory_def ResolveSensor_def
          classifyResolverError_def pgx_ErrNoRows_def)
  next
    case (Some src)
    note telemetry_history_execute [OF assms(1,3,4) Some, of F]
    then show ?thesis using executeEffectiveQuery_quiet [OF assms(1,2) v(4) assms(3) v(1-3) Some] by simp
  qed
qed

lemma telemetry_history_raw:
  assumes "config_ok cfg" "quiet ctx rf" "query_invalid cfg actor q = None" "hq_Resolution q = ResolutionRaw"
    and "authorized_sensor d actor (hq_GatewayID q) (hq_SensorID q) = Some src"
    and "telemetry_history cfg F ctx rf d (\<lambda>_. d) actor q = Inr r"
  shows "hr_Mode r = ResolutionRaw"
proof -
  have v: "actor \<noteq> uuid_Nil" "ValidateGatewayID (hq_GatewayID q)" "ValidateSensorID (hq_SensorID q)" "accepted cfg q"
    using query_invalid_None [OF assms(1)] assms(3) by blast+
  note Q = quietD [OF assms(2)]
  have "telemetry_history cfg F ctx rf d (\<lambda>_. d) actor q = executeEffectiveQuery cfg ctx (ReadTelemetryHistory cfg F ctx rf (\<lambda>_. d)) actor q"
    by (rule telemetry_history_execute [OF assms(1-3,5)])
  also have "\<dots> = readRawTelemetryHistory ctx rf 0 d actor q"
    using ReadTelemetryHistory_accepted [OF assms(1,2) v(1-4), of F "\<lambda>_. d" 0] assms(4)
    by (simp add: executeEffectiveQuery_def Q(3) Let_def resolution_defs)
  finally have "readRawTelemetryHistory ctx rf 0 d actor q = Inr r" using assms(6) by simp
  then show ?thesis by (auto simp: readRawTelemetryHistory_def Let_def neq_Nil_conv split: list.splits if_splits prod.splits)
qed

end
