(* ===== verification/HistoryTheorems.thy ===== *)
theory HistoryTheorems
  imports HistoryProofs RepositoryRefinement
begin

text \<open>
  Properties of history reads: exact bucket counts, exact results for members of the Gateway only, an
  answer to every accepted request, and acknowledged samples that can be read back.
\<close>

section \<open>Fixtures\<close>

definition hx_funcs :: sql_funcs where
  "hx_funcs = \<lparr>sf_time_bucket = (\<lambda>w t. unixEpoch + (t - unixEpoch) div w * w), sf_avg = (\<lambda>vs. sum_list vs / of_nat (length vs))\<rparr>"

definition hx_faults :: read_faults where
  "hx_faults = \<lparr>rf_query = (\<lambda>_. None), rf_scan = (\<lambda>_ _. None), rf_stop = (\<lambda>_. None), rf_resolve = None\<rparr>"

definition hx_query :: TelemetryHistoryQuery where
  "hx_query = \<lparr>hq_GatewayID = ''gw1'', hq_SensorID = ''s1'', hq_Range = \<lparr>tg_From = fx_start, tg_To = fx_start + nsPerSecond\<rparr>,
     hq_Resolution = ResolutionRaw, hq_MaxPoints = 100\<rparr>"

definition hx_committed :: db where
  "hx_committed = snd (Persist canonical_uuid fx_env (Some fx_message) fx_db)"

definition hx_db :: read_db where
  "hx_db = \<lparr>rd_store = hx_committed, rd_user_gateways = [(7, ''gw1'')]\<rparr>"

lemma hx_config: "config_ok DefaultHistoryPreparationConfig"
  by (simp add: config_ok_def ValidateHistoryPreparationConfig_def DefaultHistoryPreparationConfig_def history_bounds nsPerSecond_def)

lemma hx_bucket: "time_bucket_ok hx_funcs"
  by (simp add: time_bucket_ok_def hx_funcs_def)

lemma hx_quiet: "quiet (\<lambda>_. None) hx_faults"
  by (simp add: quiet_def hx_faults_def)

lemma hx_calendar: "in_calendar fx_start" "in_calendar (fx_start + nsPerSecond)" "1000 dvd fx_start" "1000 dvd (fx_start + nsPerSecond)"
  by (simp_all add: in_calendar_def fx_start_def nsPerSecond_def endOfYear9999_def nsPerDay_def)

lemma hx_valid: "query_invalid DefaultHistoryPreparationConfig 7 hx_query = None"
  unfolding query_invalid_None [OF hx_config] using hx_calendar fx_names
  by (simp add: accepted_def hx_query_def range_ok_def fits_def valid_cases
      DefaultHistoryPreparationConfig_def history_bounds nsPerSecond_def)

lemma hx_commit: "\<exists>pr. Persist canonical_uuid fx_env (Some fx_message) fx_db = (Inr pr, hx_committed) \<and> pr_Outcome pr = CommitOutcomeCommitted"
  using fx_commit by (auto simp: hx_committed_def)

lemma hx_authorized: "authorized_sensor hx_db 7 ''gw1'' ''s1'' = Some \<lparr>rs_GatewayID = ''gw1'', rs_SensorID = ''s1'', rs_Unit = Some ''C''\<rparr>"
  using fx_commit by (auto simp: authorized_sensor_def hx_db_def hx_committed_def committed_db_def fx_db_def)

lemma hx_samples: "length (samples_in hx_db ''gw1'' ''s1'' f t) \<le> 2"
proof -
  have "length (db_telemetry hx_committed) = 2"
    using fx_commit by (auto simp: hx_committed_def committed_db_def fx_db_def fx_message_def fx_batch_def)
  then show ?thesis using length_filter_le [of _ "db_telemetry hx_committed"] by (auto simp: samples_in_def hx_db_def)
qed

lemma hx_answer: "\<exists>r. telemetry_history DefaultHistoryPreparationConfig hx_funcs (\<lambda>_. None) hx_faults hx_db (\<lambda>_. hx_db) 7 hx_query = Inr r \<and> hr_Mode r = ResolutionRaw"
proof -
  have a: "authorized_sensor hx_db 7 (hq_GatewayID hx_query) (hq_SensorID hx_query) \<noteq> None" using hx_authorized by (simp add: hx_query_def)
  have "\<not> hq_MaxPoints hx_query < int (length (samples_in hx_db (hq_GatewayID hx_query) (hq_SensorID hx_query) (tg_From (hq_Range hx_query)) (tg_To (hq_Range hx_query))))"
    using hx_samples [of fx_start "fx_start + nsPerSecond"] by (simp add: hx_query_def)
  then obtain r where r: "telemetry_history DefaultHistoryPreparationConfig hx_funcs (\<lambda>_. None) hx_faults hx_db (\<lambda>_. hx_db) 7 hx_query = Inr r"
    using telemetry_history_quiet [OF hx_config hx_bucket hx_quiet hx_valid, of hx_db] a by (auto simp: answers_def Let_def is_ok_iff)
  show ?thesis using r telemetry_history_raw [OF hx_config hx_quiet hx_valid _ _ r] a by (auto simp: hx_query_def)
qed

section \<open>Bucket counts\<close>

text \<open>C28. The bucket count is exact. For instants of the years 1 to 9999 and a bucket width, all in whole
  microseconds, the 64-bit computation with truncating division gives exactly the number of epoch-aligned
  buckets that some instant of the half-open interval falls into, also before 1970: no step of it wraps.\<close>

theorem bucket_count_exact:
  assumes "in_calendar f" "in_calendar t" "f < t" "1000 dvd f" "1000 dvd t" "0 < w" "1000 dvd w" "w \<le> maxInt64"
  shows "IntersectingBucketCount f t w = Inr (int (card (buckets_hit f t w)))"
  by (rule IntersectingBucketCount_eq [OF assms])

theorem bucket_count_exact_witness:
  "IntersectingBucketCount 0 (62135596800 * nsPerSecond + 1000) (3600 * nsPerSecond) =
     Inr (int (card (buckets_hit 0 (62135596800 * nsPerSecond + 1000) (3600 * nsPerSecond))))"
  by (rule bucket_count_exact) (simp_all add: in_calendar_def nsPerSecond_def endOfYear9999_def nsPerDay_def maxInt64_def)

section \<open>Results\<close>

text \<open>C24. A history answer is exact. Whatever fails or is cancelled on the way and whatever the writers do
  between the queries: when the service returns a result, then at one of its reads the actor was a
  member of the Gateway and the Sensor existed, and the result shows exactly the samples stored for
  this Sensor in the half-open interval at that read. A raw result lists all of them, ordered by time
  and then by arrival; a bucket result has, for every epoch-aligned bucket holding a sample and for no
  other, its number of samples, minimum, maximum and average, in order, and the counts add up to all
  samples. There are never more points than asked for: nothing is cut off silently.\<close>

theorem history_result_exact:
  assumes "config_ok cfg" "time_bucket_ok F" "telemetry_history cfg F ctx rf d0 dbs actor q = Inr r"
  shows "\<exists>k. exact_result F (dbs k) actor q r"
  by (rule history_exact [OF assms])

theorem history_result_exact_witness:
  "\<exists>k r. telemetry_history DefaultHistoryPreparationConfig hx_funcs (\<lambda>_. None) hx_faults hx_db (\<lambda>_. hx_db) 7 hx_query = Inr r \<and>
     exact_result hx_funcs ((\<lambda>_::nat. hx_db) k) 7 hx_query r"
  using hx_answer history_result_exact [OF hx_config hx_bucket] by meson

section \<open>From a committed message to a history read\<close>

lemma Persist_telemetry_mono:
  assumes "Persist U env (Some m) d = (res, d')"
  shows "set (db_telemetry d) \<subseteq> set (db_telemetry d')"
proof -
  have tx: "set (db_telemetry d) \<subseteq> set (db_telemetry d1)"
    if h: "transaction U env (Some m) e d = Inr (r, d1)" "ledgerMetadata (Some m) = Inr e" for e r d1
  proof (cases "pr_Outcome r = CommitOutcomeDuplicateCommitted")
    case True
    then show ?thesis using transaction_duplicate(1) [OF h] by blast
  next
    case False
    then obtain resource where "d1 = committed_db U env resource e m d" using transaction_committed [OF h] by blast
    then show ?thesis by (simp add: committed_db_def)
  qed
  from assms show ?thesis
  proof (cases rule: Persist_cases)
    case (returned e r) then show ?thesis using tx by blast
  next
    case (unconfirmed e r d1 err) then show ?thesis using tx [OF unconfirmed(2,1)] by simp
  qed simp
qed

lemma run_telemetry_mono: "set (db_telemetry d) \<subseteq> set (db_telemetry (pg.run U calls d))"
proof (induction calls arbitrary: d)
  case (Cons c calls)
  obtain env m where c: "c = (env, m)" by (cases c)
  have "set (db_telemetry d) \<subseteq> set (db_telemetry (snd (Persist U env (Some m) d)))"
    using Persist_telemetry_mono by (metis prod.collapse)
  then show ?case using Cons [of "snd (Persist U env (Some m) d)"] by (simp add: c pg.run.simps)
qed (simp add: pg.run.simps)

definition sample_point :: "BatchDTO \<Rightarrow> time \<Rightarrow> nat \<Rightarrow> RawSamplePoint" where
  "sample_point b start i = \<lparr>rp_MeasuredAt = start + int i * (bd_SampleIntervalUS b * 1000), rp_Value = bd_Samples b ! i,
     rp_SequenceNum = bd_FirstSequence b + int i, rp_BootID = Some (bd_BootID b), rp_MessageID = Some (bd_MessageID b),
     rp_SampleIndex = Some (int i)\<rparr>"

lemma committed_sample:
  assumes "validated U m" and P: "Persist U env (Some m) d = (Inr pr, d1)" and "pr_Outcome pr = CommitOutcomeCommitted"
    and "i < length (bd_Samples (msg_batch m))" and s: "parseMeasuredAt (bd_MeasuredAt (msg_batch m)) = Some start"
  obtains r where "r \<in> set (db_telemetry d1)" "point_of r = sample_point (msg_batch m) start i"
    "tr_gateway_id r = bd_GatewayID (msg_batch m)" "tr_sensor_id r = bd_SensorID (msg_batch m)"
proof -
  obtain l where wf: "message_wf U l m" using assms(1) by (auto simp: validated_def)
  obtain e where e: "ledgerMetadata (Some m) = Inr e" "transaction U env (Some m) e d = Inr (pr, d1)"
    using P by (cases rule: Persist_cases) auto
  then obtain resource where "d1 = committed_db U env resource e m d"
    using transaction_committed [OF e(2,1)] assms(3) by (metis CommitOutcome.distinct(5))
  then have "set (map telemetryCopyRow (msg_samples m)) \<subseteq> set (db_telemetry d1)" by (simp add: committed_db_def)
  moreover define row where "row = \<lparr>tr_measured_at = start + int i * (bd_SampleIntervalUS (msg_batch m) * 1000),
      tr_gateway_id = bd_GatewayID (msg_batch m), tr_sensor_id = bd_SensorID (msg_batch m),
      tr_sequence_num = bd_FirstSequence (msg_batch m) + int i, tr_value = bd_Samples (msg_batch m) ! i,
      tr_boot_id = Some (bd_BootID (msg_batch m)), tr_message_id = Some (bd_MessageID (msg_batch m)),
      tr_sample_index = Some (int i)\<rparr>"
  have "row \<in> set (map telemetryCopyRow (msg_samples m))"
    using s assms(4) by (rule_tac committed_rows [OF wf]) (auto simp: row_def)
  ultimately show thesis using that [of row] by (auto simp: row_def point_of_def sample_point_def)
qed

text \<open>C25. What was acknowledged can be read back. Once a validated message is committed, and after any
  further calls of the repository by any Gateways with any failures, every raw history result that
  covers the time of one of its samples contains this sample with its exact time, value, sequence
  number, boot, message and index.\<close>

theorem committed_samples_readable:
  assumes "config_ok cfg" "time_bucket_ok F" and "validated U m" "Persist U env (Some m) d = (Inr pr, d1)" "pr_Outcome pr = CommitOutcomeCommitted"
    and "telemetry_history cfg F ctx rf d0 (\<lambda>_. \<lparr>rd_store = pg.run U calls d1, rd_user_gateways = members\<rparr>) actor q = Inr r" "hr_Mode r = ResolutionRaw"
    and "hq_GatewayID q = bd_GatewayID (msg_batch m)" "hq_SensorID q = bd_SensorID (msg_batch m)"
    and "i < length (bd_Samples (msg_batch m))" "parseMeasuredAt (bd_MeasuredAt (msg_batch m)) = Some start"
    and "tg_From (hq_Range q) \<le> rp_MeasuredAt (sample_point (msg_batch m) start i)" "rp_MeasuredAt (sample_point (msg_batch m) start i) < tg_To (hq_Range q)"
  shows "sample_point (msg_batch m) start i \<in> set (hr_RawPoints r)"
proof -
  let ?d = "\<lparr>rd_store = pg.run U calls d1, rd_user_gateways = members\<rparr>"
  obtain x where x: "x \<in> set (db_telemetry d1)" "point_of x = sample_point (msg_batch m) start i"
      "tr_gateway_id x = bd_GatewayID (msg_batch m)" "tr_sensor_id x = bd_SensorID (msg_batch m)"
    using committed_sample [OF assms(3-5,10,11)] by blast
  have "x \<in> set (db_telemetry (rd_store ?d))" using x(1) run_telemetry_mono by auto
  moreover have "tr_measured_at x = rp_MeasuredAt (sample_point (msg_batch m) start i)" using x(2) by (metis RawSamplePoint.select_convs(1) point_of_def)
  ultimately have "x \<in> set (ordered_samples ?d (hq_GatewayID q) (hq_SensorID q) (tg_From (hq_Range q)) (tg_To (hq_Range q)))"
    using x(3,4) assms(8,9,12,13) by (simp add: ordered_samples_def samples_in_def)
  moreover have "exact_result F ?d actor q r" using history_exact [OF assms(1,2,6)] by blast
  ultimately show ?thesis using assms(7) x(2) by (auto simp: exact_result_def Let_def intro!: image_eqI)
qed

theorem committed_samples_readable_witness:
  "\<exists>r. telemetry_history DefaultHistoryPreparationConfig hx_funcs (\<lambda>_. None) hx_faults hx_db (\<lambda>_. hx_db) 7 hx_query = Inr r \<and>
     sample_point fx_batch fx_start 1 \<in> set (hr_RawPoints r)"
proof -
  obtain pr where P: "Persist canonical_uuid fx_env (Some fx_message) fx_db = (Inr pr, hx_committed)" "pr_Outcome pr = CommitOutcomeCommitted"
    using hx_commit by blast
  have v: "validated canonical_uuid fx_message" using fx_message_wf by (auto simp: validated_def)
  have d: "hx_db = \<lparr>rd_store = pg.run canonical_uuid [] hx_committed, rd_user_gateways = [(7, ''gw1'')]\<rparr>" by (simp add: hx_db_def pg.run.simps)
  obtain r where r: "telemetry_history DefaultHistoryPreparationConfig hx_funcs (\<lambda>_. None) hx_faults hx_db (\<lambda>_. hx_db) 7 hx_query = Inr r"
      "hr_Mode r = ResolutionRaw" using hx_answer by blast
  have m: "msg_batch fx_message = fx_batch" by (simp add: fx_message_def)
  have "sample_point (msg_batch fx_message) fx_start 1 \<in> set (hr_RawPoints r)"
    by (rule committed_samples_readable [OF hx_config hx_bucket v P, where q = hx_query and actor = 7 and calls = "[]", OF r(1) [unfolded d] r(2)])
      (use fx_measured_at in \<open>simp_all add: m hx_query_def fx_batch_def sample_point_def nsPerSecond_def\<close>)
  then show ?thesis using r(1) m by auto
qed

end
