(* ===== verification/HistoryParserTheorems.thy ===== *)
theory HistoryParserTheorems
  imports HistoryParser HistoryTheorems
begin

text \<open>
  The query parser and the history service agree: what the parser accepts the service accepts, and
  every query the service accepts has a query string that parses to it. Timestamps are exact.
\<close>

section \<open>Timestamps\<close>

lemma finish_timestamp_Some:
  assumes "finish_timestamp s = Some t"
  shows "in_calendar t" "1000 dvd t"
proof -
  obtain u where u: "in_calendar u" "t = u - u mod 1000" using assms by (auto simp: finish_timestamp_def year_bad_iff split: option.splits if_splits)
  have e: "t = 1000 * (u div 1000)" using u(2) by (simp add: minus_mod_eq_mult_div)
  then show "1000 dvd t" by simp
  have "0 \<le> t" using u(1) by (simp add: e in_calendar_def pos_imp_zdiv_nonneg_iff)
  moreover have "t \<le> u" using u(2) pos_mod_sign [of 1000 u] by linarith
  ultimately show "in_calendar t" using u(1) by (simp add: in_calendar_def)
qed

lemma parseRFC3339_Some:
  "parseRFC3339Micro s = Some t \<Longrightarrow> in_calendar t \<and> 1000 dvd t"
  "parseRFC3339MicroUTCZ s = Some t \<Longrightarrow> in_calendar t \<and> 1000 dvd t"
  using finish_timestamp_Some
  by (auto simp: parseRFC3339Micro_def parseRFC3339MicroUTCZ_def split: if_splits option.splits)

lemma finish_exact:
  assumes len: "20 \<le> length s" and d: "is_digit (s ! 11)" "is_digit (s ! 12)"
    and k: "k < length s" "19 \<le> k" "k \<le> 26" "s ! k \<in> {CHR ''Z'', CHR ''+'', CHR ''-''}" and f: "finish_timestamp s = Some t"
  shows "time_Parse_RFC3339Nano s = Some t"
proof -
  obtain u where u: "time_Parse_RFC3339Nano s = Some u" "t = u - u mod 1000"
    using f by (auto simp: finish_timestamp_def split: option.splits if_splits)
  have "substr 11 13 s = [s ! 11, s ! 12]" using len by (simp add: substr_def take_Suc_conv_app_nth numeral_2_eq_2)
  then have h: "allDigits (substr 11 13 s)" using d by (simp add: allDigits_def)
  have "1000 dvd fst (parse_fraction (drop 19 s))" using parse_fraction_micro [OF len k] .
  then have "1000 dvd u" using time_Parse_shape [OF u(1) h len] time_Date_micro by metis
  then show ?thesis using u by (simp add: dvd_eq_mod_eq_0)
qed

lemma time_Parse_delimiter:
  assumes "time_Parse_RFC3339Nano v = Some t" and "11 \<le> length v"
  shows "v ! 10 = CHR ''T''"
proof -
  obtain y v1 v2 mo v3 v4 d v5 v6 where
    p: "parse_digits 4 v = Some (y, v1)" "expect CHR ''-'' v1 = Some v2" "parse_digits 2 v2 = Some (mo, v3)"
       "expect CHR ''-'' v3 = Some v4" "parse_digits 2 v4 = Some (d, v5)" "expect CHR ''T'' v5 = Some v6"
    using assms(1) unfolding time_Parse_RFC3339Nano_def Let_def
    by (clarsimp simp: Option.bind_eq_Some_conv case_prod_beta split: if_splits)
  have "v1 = drop 4 v" "v2 = drop 1 v1" "v3 = drop 2 v2" "v4 = drop 1 v3" "v5 = drop 2 v4"
    using parse_digits_rest expect_rest p(1-5) by blast+
  then have "v5 = drop 10 v" by simp
  then have "v5 \<noteq> []" "hd v5 = v ! 10" using assms(2) by (simp_all add: hd_drop_conv_nth)
  then show ?thesis using p(6) by (cases v5) (auto split: if_splits)
qed

lemma finish_delimiter: "finish_timestamp s = Some t \<Longrightarrow> 11 \<le> length s \<Longrightarrow> s ! 10 = CHR ''T''"
  using time_Parse_delimiter by (auto simp: finish_timestamp_def split: option.splits if_splits)

text \<open>The two ways a timestamp is accepted.\<close>

lemma parseRFC3339Micro_cases:
  assumes "parseRFC3339Micro s = Some t"
  obtains (zulu) k where "rfc3339_lexical [CHR ''T'', CHR ''t''] s" "offset_index s = Some k" "length s = Suc k" "s ! k = CHR ''Z''" "finish_timestamp s = Some t"
  | (lower) k where "rfc3339_lexical [CHR ''T'', CHR ''t''] s" "offset_index s = Some k" "length s = Suc k" "s ! k = CHR ''z''"
      "finish_timestamp (take k s @ ''Z'') = Some t"
  | (offset) k where "rfc3339_lexical [CHR ''T'', CHR ''t''] s" "offset_index s = Some k" "length s = k + 6" "s ! k = CHR ''+'' \<or> s ! k = CHR ''-''"
      "is_digit (s ! (k + 5))" "finish_timestamp s = Some t"
  using assms by (auto simp: parseRFC3339Micro_def split: if_splits option.splits)

lemma offset_index_bounds: "offset_index s = Some k \<Longrightarrow> 19 \<le> k \<and> k \<le> 26"
  by (auto simp: offset_index_def Let_def split: if_splits)

lemma lexicalD:
  assumes "rfc3339_lexical ds s"
  shows "20 \<le> length s" "is_digit (s ! 11)" "is_digit (s ! 12)" "s ! 10 \<in> set ds"
  using assms by (simp_all add: rfc3339_lexical_def)

lemma last_char: "length s = Suc k \<Longrightarrow> last s = s ! k" "length s = Suc k \<Longrightarrow> butlast s = take k s"
  by (cases s rule: rev_cases; simp add: nth_append)+

lemma parseRFC3339Micro_exact:
  assumes "parseRFC3339Micro s = Some t"
  shows "s ! 10 = CHR ''T''" "time_Parse_RFC3339Nano (if last s = CHR ''z'' then butlast s @ ''Z'' else s) = Some t"
proof -
  have "s ! 10 = CHR ''T'' \<and> time_Parse_RFC3339Nano (if last s = CHR ''z'' then butlast s @ ''Z'' else s) = Some t"
    using assms
  proof (cases rule: parseRFC3339Micro_cases)
    case (zulu k)
    note l = lexicalD [OF zulu(1)] and k = offset_index_bounds [OF zulu(2)]
    show ?thesis using finish_delimiter [OF zulu(5)] finish_exact [OF l(1-3) _ _ _ _ zulu(5), of k] zulu(3,4) l(1) k last_char [OF zulu(3)] by simp
  next
    case (lower k)
    note l = lexicalD [OF lower(1)] and k = offset_index_bounds [OF lower(2)]
    let ?s = "take k s @ ''Z''"
    have len: "length ?s = length s" "?s ! k = CHR ''Z''" using lower(3) by (simp_all add: nth_append)
    have same: "?s ! i = s ! i" if "i < k" for i using that lower(3) by (simp add: nth_append)
    have "time_Parse_RFC3339Nano ?s = Some t"
      using finish_exact [of ?s k t] lower(3,5) l k len same [of 11] same [of 12] by simp
    moreover have "s ! 10 = CHR ''T''" using finish_delimiter [OF lower(5)] len same [of 10] k l(1) by simp
    ultimately show ?thesis using last_char [OF lower(3)] lower(4) by simp
  next
    case (offset k)
    note l = lexicalD [OF offset(1)] and k = offset_index_bounds [OF offset(2)]
    have "last s = s ! (k + 5)" using last_char(1) [of s "k + 5"] offset(3) by simp
    then have "last s \<noteq> CHR ''z''" using offset(5) by (auto simp: is_digit_def)
    then show ?thesis using finish_delimiter [OF offset(6)] finish_exact [OF l(1-3) _ _ _ _ offset(6), of k] offset(3,4) l(1) k by auto
  qed
  then show "s ! 10 = CHR ''T''" "time_Parse_RFC3339Nano (if last s = CHR ''z'' then butlast s @ ''Z'' else s) = Some t" by simp_all
qed

lemma lexical_mono: "rfc3339_lexical ds s \<Longrightarrow> s ! 10 \<in> set ds' \<Longrightarrow> rfc3339_lexical ds' s"
  by (simp add: rfc3339_lexical_def)

lemma parseRFC3339MicroUTCZ_iff:
  "parseRFC3339MicroUTCZ s = Some t \<longleftrightarrow> s \<noteq> [] \<and> last s = CHR ''Z'' \<and> parseRFC3339Micro s = Some t"
proof (intro iffI; (elim conjE)?)
  assume "parseRFC3339MicroUTCZ s = Some t"
  then obtain k where k: "rfc3339_lexical [CHR ''T''] s" "offset_index s = Some k" "k < length s" "s ! k = CHR ''Z''" "k = length s - 1" "finish_timestamp s = Some t"
    by (auto simp: parseRFC3339MicroUTCZ_def split: if_splits option.splits)
  then have "length s = Suc k" by simp
  moreover have "rfc3339_lexical [CHR ''T'', CHR ''t''] s" using lexical_mono [OF k(1)] lexicalD(4) [OF k(1)] by simp
  ultimately show "s \<noteq> [] \<and> last s = CHR ''Z'' \<and> parseRFC3339Micro s = Some t"
    using k last_char(1) [of s k] by (auto simp: parseRFC3339Micro_def)
next
  assume z: "s \<noteq> []" "last s = CHR ''Z''" and p: "parseRFC3339Micro s = Some t"
  note d = parseRFC3339Micro_exact(1) [OF p]
  from p show "parseRFC3339MicroUTCZ s = Some t"
  proof (cases rule: parseRFC3339Micro_cases)
    case (zulu k)
    then show ?thesis using lexical_mono [OF zulu(1), of "[CHR ''T'']"] d by (simp add: parseRFC3339MicroUTCZ_def)
  next
    case (lower k)
    then show ?thesis using last_char(1) [OF lower(3)] z(2) by simp
  next
    case (offset k)
    have "last s = s ! (k + 5)" using last_char(1) [of s "k + 5"] offset(3) by simp
    then have "is_digit CHR ''Z''" using offset(5) z(2) by metis
    then show ?thesis by (simp add: is_digit_def)
  qed
qed

text \<open>C33. Timestamps of query strings are exact. An accepted timestamp is one that Go's RFC 3339 parser
  accepts (a lower-case \<open>z\<close> read as \<open>Z\<close>), its instant is exactly the one written, so truncation to
  microseconds never loses anything, and it lies in the years 1 to 9999 in UTC. A timestamp with the
  lower-case delimiter \<open>t\<close> is never accepted, and the strict variant accepts exactly the accepted
  timestamps that end in \<open>Z\<close>.\<close>

theorem query_timestamp_exact:
  "(parseRFC3339Micro s = Some t \<longrightarrow>
      in_calendar t \<and> 1000 dvd t \<and> s ! 10 \<noteq> CHR ''t'' \<and>
      time_Parse_RFC3339Nano (if last s = CHR ''z'' then butlast s @ ''Z'' else s) = Some t) \<and>
   (parseRFC3339MicroUTCZ s = Some t \<longleftrightarrow> s \<noteq> [] \<and> last s = CHR ''Z'' \<and> parseRFC3339Micro s = Some t)"
  using parseRFC3339_Some(1) [of s t] parseRFC3339Micro_exact [of s t] parseRFC3339MicroUTCZ_iff [of s t] by auto

theorem query_timestamp_exact_witness:
  "in_calendar fx_start \<and> 1000 dvd fx_start \<and> parseRFC3339Micro ''2026-01-01T00:00:00.000000z'' = Some fx_start \<and>
   time_Parse_RFC3339Nano ''2026-01-01T00:00:00.000000Z'' = Some fx_start"
proof -
  have "parseRFC3339Micro ''2026-01-01T00:00:00.000000z'' = Some fx_start" unfolding fx_start_def by code_simp
  then show ?thesis using query_timestamp_exact [of "''2026-01-01T00:00:00.000000z''" fx_start] by simp
qed

section \<open>From the query string to the service\<close>

lemma parse_max_points_bounds:
  assumes "ValidateHistoryConfig cfg = None" "parse_max_points cfg params = Inr n"
  shows "hg_MinPoints cfg \<le> n" "n \<le> hg_MaxPoints cfg"
  using assms by (auto simp: parse_max_points_def ValidateHistoryConfig_def split: option.splits if_splits)

lemma check_range_Inr: "check_range cfg tr res n = Inr u \<longleftrightarrow> ValidateHistoryTimeRange tr res (hg_MaxRange cfg) (hg_RawWindow cfg) n = None"
  by (auto simp: check_range_def split: option.splits)

lemma config_translated: "ValidateHistoryConfig cfg = None \<Longrightarrow> config_ok (ToTelemetryPreparationConfig cfg)"
  by (auto simp: ValidateHistoryConfig_def config_ok_def ValidateHistoryPreparationConfig_def ToTelemetryPreparationConfig_def split: if_splits)

lemma parseCommon_Inr:
  assumes "ValidateHistoryConfig cfg = None" "parseCommonTimeAndResolution cfg params = Inr (tr, res, n)"
  shows "hg_MinPoints cfg \<le> n \<and> n \<le> hg_MaxPoints cfg \<and> ValidateHistoryTimeRange tr res (hg_MaxRange cfg) (hg_RawWindow cfg) n = None"
  using assms parse_max_points_bounds [OF assms(1)] check_range_Inr by (auto simp: parseCommonTimeAndResolution_def Let_def)

lemma ParseTelemetryHistoryQuery_valid:
  assumes "ValidateHistoryConfig cfg = None" "ParseTelemetryHistoryQuery cfg raw = Inr q" "actor \<noteq> uuid_Nil"
  shows "query_invalid (ToTelemetryPreparationConfig cfg) actor q = None"
  using assms parseCommon_Inr [OF assms(1)]
  by (fastforce simp: ParseTelemetryHistoryQuery_def query_invalid_def ToTelemetryPreparationConfig_def)

text \<open>C26. A telemetry history request that parses is answered. For every configuration the server starts
  with, every query string its parser accepts passes the validation of the history service under the
  translated configuration. With a database that works an authenticated actor then gets an answer: an
  actor who is not a member of the Gateway is told the same as for a Sensor that does not exist, an
  explicit raw request is refused exactly when it has more samples than asked for, and every other
  request gets its result. In particular an automatic resolution is always found, whatever the number
  of samples, and the row limit of the bucket reader is never exceeded.\<close>

theorem parsed_history_request_answered:
  assumes "NewHistoryQueryParser (Some cfg) = Inr p" "ParseTelemetryHistoryQuery p raw = Inr q"
    and "actor \<noteq> uuid_Nil" "time_bucket_ok F" "quiet ctx rf"
  shows "query_invalid (ToTelemetryPreparationConfig p) actor q = None \<and>
    answers (telemetry_history (ToTelemetryPreparationConfig p) F ctx rf d (\<lambda>_. d) actor q) d actor q"
proof -
  have p: "ValidateHistoryConfig p = None" using assms(1) by (auto simp: NewHistoryQueryParser_def split: option.splits)
  note v = ParseTelemetryHistoryQuery_valid [OF p assms(2,3)]
  show ?thesis using v telemetry_history_quiet [OF config_translated [OF p] assms(4,5) v] by blast
qed

section \<open>Every accepted query can be written\<close>

definition url_plain :: "char \<Rightarrow> bool" where
  "url_plain c \<longleftrightarrow> c \<notin> set ''&=%+;''"

lemma QueryUnescape_plain: "list_all url_plain s \<Longrightarrow> QueryUnescape s = Some s"
  by (induction s) (auto simp: url_plain_def)

lemma plain_no: "list_all url_plain s \<Longrightarrow> c \<in> set ''&=%+;'' \<Longrightarrow> c \<notin> set s"
  by (auto simp: list_all_iff url_plain_def)

lemma parse_pair_plain:
  assumes "list_all url_plain k" "list_all url_plain v"
  shows "parse_pair (k @ CHR ''='' # v) = Some (k, v)"
proof -
  have k: "\<forall>c \<in> set k. c \<noteq> CHR ''=''" using plain_no [OF assms(1), of "CHR ''=''"] by auto
  then have "cut_pair (k @ CHR ''='' # v) = (k, v)" by (simp add: cut_pair_def takeWhile_append2 dropWhile_append2)
  moreover have "CHR '';'' \<notin> set k" "CHR '';'' \<notin> set v" using assms by (simp_all add: plain_no)
  ultimately show ?thesis using assms by (simp add: parse_pair_def QueryUnescape_plain)
qed

lemma go_split_join: "ps \<noteq> [] \<Longrightarrow> \<forall>p \<in> set ps. c \<notin> set p \<Longrightarrow> go_split c (join_sep c ps) = ps"
  by (induction c ps rule: join_sep.induct) (auto simp: go_split_no_sep go_split_append_sep)

definition query_text :: "(string \<times> string) list \<Rightarrow> string" where
  "query_text pairs = join_sep CHR ''&'' (map (\<lambda>(k, v). k @ CHR ''='' # v) pairs)"

lemma url_ParseQuery_text:
  assumes "pairs \<noteq> []" "list_all (\<lambda>(k, v). list_all url_plain k \<and> list_all url_plain v) pairs"
  shows "url_ParseQuery (query_text pairs) = Some pairs"
proof -
  have "go_split CHR ''&'' (query_text pairs) = map (\<lambda>(k, v). k @ CHR ''='' # v) pairs"
    unfolding query_text_def using assms plain_no [of _ "CHR ''&''"] by (intro go_split_join) (auto simp: list_all_iff)
  moreover have "map parse_pair (map (\<lambda>(k, v). k @ CHR ''='' # v) pairs) = map Some pairs"
    using assms(2) parse_pair_plain by (auto simp: list_all_iff)
  moreover have "filter (\<lambda>s. s \<noteq> []) (map (\<lambda>(k, v). k @ CHR ''='' # v) pairs) = map (\<lambda>(k, v). k @ CHR ''='' # v) pairs"
    by (auto simp: filter_id_conv)
  ultimately have "map parse_pair (filter (\<lambda>s. s \<noteq> []) (go_split CHR ''&'' (query_text pairs))) = map Some pairs" by metis
  then show ?thesis by (auto simp: url_ParseQuery_def Let_def comp_def)
qed

lemma join_sep_notin: "d \<noteq> c \<Longrightarrow> \<forall>p \<in> set ps. d \<notin> set p \<Longrightarrow> d \<notin> set (join_sep c ps)"
  by (induction c ps rule: join_sep.induct) auto

lemma url_values_map_of: "distinct (map fst pairs) \<Longrightarrow> url_values pairs k = (case map_of pairs k of None \<Rightarrow> [] | Some v \<Rightarrow> [v])"
proof (induction pairs)
  case (Cons p pairs)
  have "url_values pairs (fst p) = []" using Cons.prems by (auto simp: url_values_def filter_empty_conv image_iff)
  then show ?case using Cons by (auto simp: url_values_def)
qed (simp add: url_values_def)

lemma parseRawQuery_text:
  assumes "pairs \<noteq> []" "list_all (\<lambda>(k, v). list_all url_plain k \<and> list_all url_plain v \<and> v \<noteq> [] \<and> k \<in> set allowed) pairs"
    and "distinct (map fst pairs)" "int (length (query_text pairs)) \<le> MaxRawQueryBytes"
  shows "parseRawQuery (query_text pairs) allowed = Inr (map_of pairs)"
proof -
  have plain: "list_all (\<lambda>(k, v). list_all url_plain k \<and> list_all url_plain v) pairs" using assms(2) by (auto simp: list_all_iff)
  have semi: "CHR '';'' \<notin> set (query_text pairs)"
    unfolding query_text_def
  proof (rule join_sep_notin)
    show "\<forall>p \<in> set (map (\<lambda>(k, v). k @ CHR ''='' # v) pairs). CHR '';'' \<notin> set p"
      using plain unfolding list_all_iff [of _ pairs] by (fastforce dest: plain_no [of _ "CHR '';''"])
  qed simp
  have ok: "\<not> param_bad allowed pairs (fst p)" if "p \<in> set pairs" for p
  proof -
    have "map_of pairs (fst p) = Some (snd p)" using that assms(3) by (simp add: map_of_eq_Some_iff prod.collapse)
    then show ?thesis using that assms(2) by (auto simp: param_bad_def url_values_map_of [OF assms(3)] list_all_iff)
  qed
  have "(\<lambda>k. case url_values pairs k of [v] \<Rightarrow> Some v | _ \<Rightarrow> None) = map_of pairs"
    by (rule ext) (simp add: url_values_map_of [OF assms(3)] split: option.splits)
  then show ?thesis using assms(4) semi ok url_ParseQuery_text [OF assms(1) plain]
    by (auto simp: parseRawQuery_def list_ex_iff)
qed

lemma digit_url_plain: "is_digit c \<Longrightarrow> url_plain c"
  by (auto simp: is_digit_def url_plain_def)

lemma digits_url_plain: "list_all is_digit s \<Longrightarrow> list_all url_plain s"
  using digit_url_plain by (auto simp: list_all_iff)

lemma id_url_plain: "list_all id_char s \<Longrightarrow> list_all url_plain s"
  by (auto simp: list_all_iff id_char_def is_alnum_def url_plain_def Let_def dest!: bspec)

lemma format_micro_shape:
  assumes "in_calendar t"
  obtains Y M D H I S F where "format_micro t = Y @ CHR ''-'' # M @ CHR ''-'' # D @ CHR ''T'' # H @ CHR '':'' # I @ CHR '':'' # S @ CHR ''.'' # F @ ''Z''"
    "list_all is_digit Y" "length Y = 4" "list_all is_digit M" "length M = 2" "list_all is_digit D" "length D = 2" "list_all is_digit H" "length H = 2"
    "list_all is_digit I" "length I = 2" "list_all is_digit S" "length S = 2" "list_all is_digit F" "length F = 6" "1 \<le> digits_val Y"
proof -
  obtain y m d where c: "civil_of_days (t div nsPerDay) = (y, m, d)" by (metis prod_cases3)
  obtain hh mi ss ns where k: "clock_of t = (hh, mi, ss, ns)" by (metis prod_cases4)
  have y: "1 \<le> y" "y < 10000"
    using assms time_Year_ge_1 [of t] time_Year_le_9999 [of t] civil_of_days_correct(6) [OF c]
    by (simp_all add: time_Year_def in_calendar_def)
  have v: "format_micro t = pad_digits 4 (nat y) @ CHR ''-'' # pad_digits 2 m @ CHR ''-'' # pad_digits 2 (nat d) @
      CHR ''T'' # pad_digits 2 hh @ CHR '':'' # pad_digits 2 mi @ CHR '':'' # pad_digits 2 ss @ CHR ''.'' #
      pad_digits 6 (nanos_of t div 1000) @ ''Z''"
    using y by (simp add: format_micro_def format_datetime_def c k year_digits_def)
  have "1 \<le> digits_val (pad_digits 4 (nat y))" using y by (simp add: digits_val_pad_digits nat_less_iff)
  then show thesis using that [OF v] by simp
qed

lemma format_micro_url_plain: "in_calendar t \<Longrightarrow> list_all url_plain (format_micro t) \<and> length (format_micro t) = 27"
proof -
  assume t: "in_calendar t"
  have "url_plain CHR ''-''" "url_plain CHR ''T''" "url_plain CHR '':''" "url_plain CHR ''.''" "url_plain CHR ''Z''" by (simp_all add: url_plain_def)
  then show ?thesis by (rule_tac format_micro_shape [OF t]) (simp add: digits_url_plain)
qed

lemma parseRFC3339Micro_format:
  assumes t: "in_calendar t" "1000 dvd t"
  shows "parseRFC3339Micro (format_micro t) = Some t"
proof -
  obtain Y M D H I S F where v: "format_micro t = Y @ CHR ''-'' # M @ CHR ''-'' # D @ CHR ''T'' # H @ CHR '':'' # I @ CHR '':'' # S @ CHR ''.'' # F @ ''Z''"
    and Y: "list_all is_digit Y" "length Y = 4" and M: "list_all is_digit M" "length M = 2" and D: "list_all is_digit D" "length D = 2"
    and H: "list_all is_digit H" "length H = 2" and I: "list_all is_digit I" "length I = 2" and S: "list_all is_digit S" "length S = 2"
    and F: "list_all is_digit F" "length F = 6" and y: "1 \<le> digits_val Y"
    by (rule format_micro_shape [OF t(1)])
  let ?s = "format_micro t"
  obtain y1 y2 y3 y4 where Y': "Y = [y1, y2, y3, y4]" "is_digit y1" "is_digit y2" "is_digit y3" "is_digit y4" using digits_4 [OF Y] by auto
  obtain m1 m2 d1 d2 h1 h2 i1 i2 s1 s2 where P: "M = [m1, m2]" "D = [d1, d2]" "H = [h1, h2]" "I = [i1, i2]" "S = [s1, s2]"
      "list_all is_digit [m1, m2, d1, d2, h1, h2, i1, i2, s1, s2]"
    using digits_2 [OF M] digits_2 [OF D] digits_2 [OF H] digits_2 [OF I] digits_2 [OF S] by auto
  have "rfc3339_lexical [CHR ''T'', CHR ''t''] ?s"
    using y Y' P(6) F by (simp add: v P(1-5) rfc3339_lexical_def digits_val_def)
  moreover have off: "offset_index ?s = Some 26"
    using takeWhile_digits [OF F(1)] F(2) by (simp add: v Y'(1) P(1-5) offset_index_def Let_def)
  moreover have "?s ! 26 = CHR ''Z''" "length ?s = 27" using F(2) by (simp_all add: v Y'(1) P(1-5) nth_append)
  moreover have "finish_timestamp ?s = Some t"
    using t time_Parse_format_micro [of t] year_bad_iff [of t] by (simp add: finish_timestamp_def in_calendar_def dvd_eq_mod_eq_0)
  ultimately show ?thesis by (simp add: parseRFC3339Micro_def)
qed

definition query_string :: "TelemetryHistoryQuery \<Rightarrow> string" where
  "query_string q = query_text
     [(''gateway_id'', hq_GatewayID q), (''sensor_id'', hq_SensorID q), (''from'', format_micro (tg_From (hq_Range q))),
      (''to'', format_micro (tg_To (hq_Range q))), (''resolution'', hq_Resolution q), (''max_points'', dec_digits (nat (hq_MaxPoints q)))]"

lemma resolution_text:
  assumes "Resolution_Valid r"
  shows "list_all url_plain r" "length r \<le> 5" "r \<noteq> []"
  using assms by (auto simp: Resolution_Valid_def resolution_defs url_plain_def)

lemma length_dec_digits_small: "n < 10 \<Longrightarrow> length (dec_digits n) = 1"
  by (subst dec_digits.simps) simp

lemma points_text:
  assumes "0 \<le> n" "n \<le> 2000"
  shows "list_all url_plain (dec_digits (nat n))" "length (dec_digits (nat n)) \<le> 4" "parseASCIIInteger (dec_digits (nat n)) = Some n"
proof -
  show "list_all url_plain (dec_digits (nat n))" by (simp add: digits_url_plain)
  have step: "length (dec_digits m) \<le> Suc (length (dec_digits (m div 10)))" for m
    by (subst dec_digits.simps) simp
  have "length (dec_digits (nat n div 10 div 10 div 10)) = 1" using assms by (intro length_dec_digits_small) simp
  then show "length (dec_digits (nat n)) \<le> 4"
    using step [of "nat n"] step [of "nat n div 10"] step [of "nat n div 10 div 10"] by linarith
  show "parseASCIIInteger (dec_digits (nat n)) = Some n"
    using assms ParseInt_show_int [of 64 n] by (simp add: parseASCIIInteger_def show_int_def)
qed

lemma query_string_params:
  assumes v: "ValidateGatewayID (hq_GatewayID q)" "ValidateSensorID (hq_SensorID q)" "accepted cfg q" "config_ok cfg"
  shows "parseRawQuery (query_string q) [''gateway_id'', ''sensor_id'', ''from'', ''to'', ''resolution'', ''max_points''] =
    Inr (map_of [(''gateway_id'', hq_GatewayID q), (''sensor_id'', hq_SensorID q), (''from'', format_micro (tg_From (hq_Range q))),
      (''to'', format_micro (tg_To (hq_Range q))), (''resolution'', hq_Resolution q), (''max_points'', dec_digits (nat (hq_MaxPoints q)))])"
  unfolding query_string_def
proof (rule parseRawQuery_text)
  have n: "0 \<le> hq_MaxPoints q" "hq_MaxPoints q \<le> 2000" using v(3) config_okD(5,7) [OF v(4)] by (simp_all add: accepted_def)
  have c: "in_calendar (tg_From (hq_Range q))" "in_calendar (tg_To (hq_Range q))" using v(3) by (simp_all add: accepted_def range_ok_def)
  note R = resolution_text [of "hq_Resolution q"] and P = points_text [OF n]
  have r: "Resolution_Valid (hq_Resolution q)" using v(3) by (simp add: accepted_def)
  note F = format_micro_url_plain [OF c(1)] format_micro_url_plain [OF c(2)]
  have ne: "format_micro (tg_From (hq_Range q)) \<noteq> []" "format_micro (tg_To (hq_Range q)) \<noteq> []" using F by (metis list.size(3) zero_neq_numeral)+
  note ids = valid_id_facts(1) [OF v(1)] valid_id_facts(2) [OF v(2)]
  show "list_all (\<lambda>(k, v). list_all url_plain k \<and> list_all url_plain v \<and> v \<noteq> [] \<and>
        k \<in> set [''gateway_id'', ''sensor_id'', ''from'', ''to'', ''resolution'', ''max_points''])
     [(''gateway_id'', hq_GatewayID q), (''sensor_id'', hq_SensorID q), (''from'', format_micro (tg_From (hq_Range q))),
      (''to'', format_micro (tg_To (hq_Range q))), (''resolution'', hq_Resolution q), (''max_points'', dec_digits (nat (hq_MaxPoints q)))]"
    using F ne ids R [OF r] P(1) id_url_plain by (simp add: url_plain_def)
  show "int (length (query_text [(''gateway_id'', hq_GatewayID q), (''sensor_id'', hq_SensorID q), (''from'', format_micro (tg_From (hq_Range q))),
      (''to'', format_micro (tg_To (hq_Range q))), (''resolution'', hq_Resolution q), (''max_points'', dec_digits (nat (hq_MaxPoints q)))])) \<le> MaxRawQueryBytes"
    using F ids R(2) [OF r] P(2) by (simp add: query_text_def contract_defs)
qed simp_all

lemma ParseTelemetryHistoryQuery_string:
  assumes cfg: "ValidateHistoryConfig cfg = None" and q: "query_invalid (ToTelemetryPreparationConfig cfg) actor q = None"
  shows "ParseTelemetryHistoryQuery cfg (query_string q) = Inr q"
proof -
  note c = config_translated [OF cfg]
  have v: "ValidateGatewayID (hq_GatewayID q)" "ValidateSensorID (hq_SensorID q)" "accepted (ToTelemetryPreparationConfig cfg) q"
    using query_invalid_None [OF c] q by blast+
  note a = v(3) [unfolded accepted_def range_ok_def]
  have tr: "ValidateHistoryTimeRange (hq_Range q) (hq_Resolution q) (hg_MaxRange cfg) (hg_RawWindow cfg) (hq_MaxPoints q) = None"
    using q by (auto simp: query_invalid_def ToTelemetryPreparationConfig_def split: if_splits)
  have n: "0 \<le> hq_MaxPoints q" "hq_MaxPoints q \<le> 2000" using v(3) config_okD(5,7) [OF c] by (simp_all add: accepted_def)
  have b: "hg_MinPoints cfg \<le> hq_MaxPoints q" "hq_MaxPoints q \<le> hg_MaxPoints cfg" using a by (simp_all add: ToTelemetryPreparationConfig_def)
  have ts: "parseRFC3339Micro (format_micro (tg_From (hq_Range q))) = Some (tg_From (hq_Range q))" "parseRFC3339Micro (format_micro (tg_To (hq_Range q))) = Some (tg_To (hq_Range q))"
    using a parseRFC3339Micro_format by blast+
  have ne: "format_micro (tg_From (hq_Range q)) \<noteq> []" "format_micro (tg_To (hq_Range q)) \<noteq> []"
    using a format_micro_url_plain by (metis list.size(3) zero_neq_numeral)+
  have rg: "\<lparr>tg_From = tg_From (hq_Range q), tg_To = tg_To (hq_Range q)\<rparr> = hq_Range q" by simp
  show ?thesis
    using valid_id_facts(1) [OF v(1)] valid_id_facts(2) [OF v(2)] v(1,2) ne ts b tr points_text(3) [OF n] a
    by (simp add: ParseTelemetryHistoryQuery_def query_string_params [OF v c] parseCommonTimeAndResolution_def required_param_def parse_max_points_def
        check_range_def Let_def rg)
qed

text \<open>C27. Parser and service accept the same requests. Under every valid configuration, a query that passes
  the validation of the history service has a query string, of at most 1024 bytes and with the
  timestamps printed to microseconds, that the parser reads back as exactly this query; and what the
  parser accepts passes that validation.\<close>

theorem history_query_roundtrip:
  assumes "ValidateHistoryConfig cfg = None" "actor \<noteq> uuid_Nil"
  shows "(query_invalid (ToTelemetryPreparationConfig cfg) actor q = None \<longleftrightarrow> (\<exists>raw. ParseTelemetryHistoryQuery cfg raw = Inr q)) \<and>
    (query_invalid (ToTelemetryPreparationConfig cfg) actor q = None \<longrightarrow> ParseTelemetryHistoryQuery cfg (query_string q) = Inr q)"
  using ParseTelemetryHistoryQuery_string [OF assms(1)] ParseTelemetryHistoryQuery_valid [OF assms(1) _ assms(2)] by blast

lemma hx_history_config: "ValidateHistoryConfig DefaultHistoryConfig = None"
  by (simp add: ValidateHistoryConfig_def DefaultHistoryConfig_def history_bounds contract_defs nsPerSecond_def)

lemma hx_translated: "ToTelemetryPreparationConfig DefaultHistoryConfig = DefaultHistoryPreparationConfig"
  by (simp add: ToTelemetryPreparationConfig_def DefaultHistoryConfig_def DefaultHistoryPreparationConfig_def)

theorem history_query_roundtrip_witness:
  "ParseTelemetryHistoryQuery DefaultHistoryConfig (query_string hx_query) = Inr hx_query"
  using history_query_roundtrip [OF hx_history_config, of 7 hx_query] hx_valid by (simp add: hx_translated)

theorem parsed_history_request_answered_witness:
  "answers (telemetry_history DefaultHistoryPreparationConfig hx_funcs (\<lambda>_. None) hx_faults hx_db (\<lambda>_. hx_db) 7 hx_query) hx_db 7 hx_query"
proof -
  have p: "NewHistoryQueryParser (Some DefaultHistoryConfig) = Inr DefaultHistoryConfig" by (simp add: NewHistoryQueryParser_def hx_history_config)
  have q: "ParseTelemetryHistoryQuery DefaultHistoryConfig (query_string hx_query) = Inr hx_query"
    using ParseTelemetryHistoryQuery_string [OF hx_history_config, of 7 hx_query] hx_valid by (simp add: hx_translated)
  show ?thesis using parsed_history_request_answered [OF p q _ hx_bucket hx_quiet, of 7 hx_db] by (simp add: hx_translated)
qed

end
