(* ===== verification/TwinCursor.thy ===== *)
theory TwinCursor
  imports TwinIdentity
begin

text \<open>
  Pagination cursors (\<open>digitaltwin/cursor.go\<close>): \<open>v1.\<close> followed by the unpadded URL-safe base64 of a
  small JSON object. \<open>encoding/base64\<close> is Go's \<open>RawURLEncoding\<close>, which skips line breaks and ignores
  the unused low bits of a last group. The token loop over the JSON document accepts exactly the
  strict objects of \<open>GoJson\<close>; a marshalled string is its quotation, since only checked identifiers
  and URNs are marshalled. Pointers are options.
\<close>

section \<open>Base64\<close>

text \<open>The alphabet \<open>A-Z a-z 0-9 - _\<close>.\<close>

definition b64_char :: "nat \<Rightarrow> char" where
  "b64_char n =
     (if n < 26 then char_of (65 + n) else if n < 52 then char_of (71 + n) else if n < 62 then char_of (n - 4)
      else if n = 62 then CHR ''-'' else CHR ''_'')"

definition b64_val :: "char \<Rightarrow> nat option" where
  "b64_val c =
     (let n = of_char c :: nat in
      if 65 \<le> n \<and> n \<le> 90 then Some (n - 65)
      else if 97 \<le> n \<and> n \<le> 122 then Some (n - 97 + 26)
      else if 48 \<le> n \<and> n \<le> 57 then Some (n - 48 + 52)
      else if c = CHR ''-'' then Some 62
      else if c = CHR ''_'' then Some 63
      else None)"

fun b64_encode :: "nat list \<Rightarrow> string" where
  "b64_encode [] = []"
| "b64_encode [x] = [b64_char (x div 4), b64_char (x mod 4 * 16)]"
| "b64_encode [x, y] = [b64_char (x div 4), b64_char (x mod 4 * 16 + y div 16), b64_char (y mod 16 * 4)]"
| "b64_encode (x # y # z # rest) =
     b64_char (x div 4) # b64_char (x mod 4 * 16 + y div 16) # b64_char (y mod 16 * 4 + z div 64) # b64_char (z mod 64) # b64_encode rest"

fun b64_decode :: "nat list \<Rightarrow> nat list option" where
  "b64_decode [] = Some []"
| "b64_decode [a] = None"
| "b64_decode [a, b] = Some [a * 4 + b div 16]"
| "b64_decode [a, b, c] = Some [a * 4 + b div 16, b mod 16 * 16 + c div 4]"
| "b64_decode (a # b # c # d # rest) =
     map_option (\<lambda>out. (a * 4 + b div 16) # (b mod 16 * 16 + c div 4) # (c mod 4 * 64 + d) # out) (b64_decode rest)"

definition base64_EncodeToString :: "string \<Rightarrow> string" where
  "base64_EncodeToString s = b64_encode (map of_char s)"

definition base64_DecodeString :: "string \<Rightarrow> string option" where
  "base64_DecodeString s =
     (let vs = map b64_val (filter (\<lambda>c. c \<noteq> CHR 0x0A \<and> c \<noteq> CHR 0x0D) s) in
      if None \<in> set vs then None else map_option (map char_of) (b64_decode (map the vs)))"

lemma b64_val_char: "n < 64 \<Longrightarrow> b64_val (b64_char n) = Some n"
  by (auto simp: b64_val_def b64_char_def Let_def)

lemma b64_char_plain: "n < 64 \<Longrightarrow> b64_char n \<noteq> CHR 0x0A \<and> b64_char n \<noteq> CHR 0x0D \<and> b64_char n \<noteq> CHR ''=''"
proof -
  assume "n < 64"
  have v: "b64_val CHR 0x0A = None" "b64_val CHR 0x0D = None" "b64_val CHR ''='' = None" by (simp_all add: b64_val_def)
  show ?thesis using b64_val_char [OF \<open>n < 64\<close>] v by (metis option.distinct(1))
qed

text \<open>The six-bit groups of a byte string.\<close>

fun b64_groups :: "nat list \<Rightarrow> nat list" where
  "b64_groups [] = []"
| "b64_groups [x] = [x div 4, x mod 4 * 16]"
| "b64_groups [x, y] = [x div 4, x mod 4 * 16 + y div 16, y mod 16 * 4]"
| "b64_groups (x # y # z # rest) = x div 4 # (x mod 4 * 16 + y div 16) # (y mod 16 * 4 + z div 64) # z mod 64 # b64_groups rest"

lemma b64_encode_groups: "b64_encode xs = map b64_char (b64_groups xs)"
  by (induction xs rule: b64_encode.induct) simp_all

lemma b64_small: "x < 256 \<Longrightarrow> x div 4 < 64" "x mod 4 * 16 < (64::nat)" "x mod 16 * 4 < (64::nat)" "x mod 64 < (64::nat)"
  "y < 256 \<Longrightarrow> x mod 4 * 16 + y div 16 < (64::nat)" "z < 256 \<Longrightarrow> y mod 16 * 4 + z div 64 < (64::nat)"
proof -
  have "x mod 4 \<le> 3" "y mod 16 \<le> 15" "x mod 16 \<le> 15" by (simp_all add: less_Suc_eq_le [symmetric])
  moreover have "y < 256 \<Longrightarrow> y div 16 < 16" "z < 256 \<Longrightarrow> z div 64 < 4" by simp_all
  ultimately show "x < 256 \<Longrightarrow> x div 4 < 64" "x mod 4 * 16 < 64" "x mod 16 * 4 < 64" "x mod 64 < 64"
    "y < 256 \<Longrightarrow> x mod 4 * 16 + y div 16 < 64" "z < 256 \<Longrightarrow> y mod 16 * 4 + z div 64 < 64" by simp_all
qed

lemma b64_groups_bound: "\<forall>x \<in> set xs. x < 256 \<Longrightarrow> \<forall>g \<in> set (b64_groups xs). g < 64"
  by (induction xs rule: b64_groups.induct) (simp_all add: b64_small)

lemma b64_byte:
  assumes "y < (256::nat)"
  shows "y div 16 div 16 = 0" "y div 16 mod 16 = y div 16" "y div 64 div 4 = 0" "y div 64 mod 4 = y div 64"
  using assms by (simp_all add: div_mult2_eq [symmetric])

lemma b64_decode_groups: "\<forall>x \<in> set xs. x < 256 \<Longrightarrow> b64_decode (b64_groups xs) = Some xs"
  by (induction xs rule: b64_groups.induct) (simp_all add: b64_byte)

lemma base64_roundtrip: "base64_DecodeString (base64_EncodeToString s) = Some s"
proof -
  let ?xs = "map of_char s :: nat list"
  have b: "\<forall>x \<in> set ?xs. x < 256" by auto
  note g = b64_groups_bound [OF b]
  have "filter (\<lambda>c. c \<noteq> CHR 0x0A \<and> c \<noteq> CHR 0x0D) (base64_EncodeToString s) = map b64_char (b64_groups ?xs)"
    using g b64_char_plain by (auto simp: base64_EncodeToString_def b64_encode_groups filter_id_conv)
  moreover have "map b64_val (map b64_char (b64_groups ?xs)) = map Some (b64_groups ?xs)" using g b64_val_char by simp
  ultimately show ?thesis using b64_decode_groups [OF b] by (auto simp: base64_DecodeString_def Let_def comp_def map_idI)
qed

lemma base64_no_pad: "CHR ''='' \<notin> set (base64_EncodeToString s)"
proof -
  have "\<forall>g \<in> set (b64_groups (map of_char s)). g < 64" by (rule b64_groups_bound) auto
  then show ?thesis using b64_char_plain by (fastforce simp: base64_EncodeToString_def b64_encode_groups)
qed

lemma base64_length: "3 * length (base64_EncodeToString s) \<le> 4 * length s + 2 * 3"
proof -
  have "3 * length (b64_encode xs) \<le> 4 * length xs + 6" for xs by (induction xs rule: b64_encode.induct) simp_all
  then show ?thesis by (simp add: base64_EncodeToString_def) (metis length_map)
qed

lemma base64_nonempty: "s \<noteq> [] \<Longrightarrow> base64_EncodeToString s \<noteq> []"
  by (cases "map of_char s :: nat list" rule: b64_encode.cases) (auto simp: base64_EncodeToString_def)

section \<open>Cursors\<close>

definition MaxEncodedCursorLength :: int where "MaxEncodedCursorLength = 768"
definition MaxDecodedCursorBytes :: int where "MaxDecodedCursorBytes = 512"
definition CursorVersionPrefix :: string where "CursorVersionPrefix = ''v1.''"

record ListCursor =
  lc_EntityID :: string
  lc_GatewayID :: "string option"
  lc_EntityType :: "EntityType option"

record RelationshipCursor =
  rc_SourceURN :: string
  rc_RelType :: string
  rc_TargetURN :: string

text \<open>\<open>utf8.Valid\<close>: no byte decodes to the replacement rune of width one.\<close>

fun utf8_Valid :: "nat \<Rightarrow> string \<Rightarrow> bool" where
  "utf8_Valid 0 s \<longleftrightarrow> s = []"
| "utf8_Valid (Suc n) s \<longleftrightarrow> s = [] \<or> utf8_decode s \<noteq> (65533, 1) \<and> utf8_Valid n (drop (snd (utf8_decode s)) s)"

fun hasForbiddenJSONEscapes :: "string \<Rightarrow> bool" where
  "hasForbiddenJSONEscapes [] = False"
| "hasForbiddenJSONEscapes (c # cs) =
     ((5 \<le> length cs \<and> c = CHR 0x5C \<and> (cs ! 0 = CHR ''u'' \<or> cs ! 0 = CHR ''U'') \<and>
       (substr 1 5 cs = ''0000'' \<or>
        (cs ! 1 = CHR ''d'' \<or> cs ! 1 = CHR ''D'') \<and> cs ! 2 \<in> set ''89abcdefABCDEF'')) \<or>
      hasForbiddenJSONEscapes cs)"

definition decodeCursorBytes :: "string \<Rightarrow> read_error + string" where
  "decodeCursorBytes cursorStr =
     (if MaxEncodedCursorLength < int (length cursorStr) then Inl ErrInvalidCursor
      else if \<not> hasPrefix cursorStr CursorVersionPrefix then Inl ErrInvalidCursor
      else
        (let encoded = drop (length CursorVersionPrefix) cursorStr in
         if encoded = [] \<or> CHR ''='' \<in> set encoded then Inl ErrInvalidCursor
         else
           (case base64_DecodeString encoded of
              None \<Rightarrow> Inl ErrInvalidCursor
            | Some decoded \<Rightarrow>
                if MaxDecodedCursorBytes < int (length decoded) then Inl ErrInvalidCursor
                else if \<not> utf8_Valid (length decoded) decoded then Inl ErrInvalidCursor
                else if CHR 0x00 \<in> set decoded then Inl ErrInvalidCursor
                else if hasForbiddenJSONEscapes decoded then Inl ErrInvalidCursor
                else Inr decoded)))"

text \<open>The version prefix, base64 and the two size limits of the encoders.\<close>

definition encodeCursorBytes :: "string \<Rightarrow> read_error + string" where
  "encodeCursorBytes canonicalJSON =
     (if MaxDecodedCursorBytes < int (length canonicalJSON) then Inl ErrInvalidCursor
      else
        (let encoded = CursorVersionPrefix @ base64_EncodeToString canonicalJSON in
         if MaxEncodedCursorLength < int (length encoded) then Inl ErrInvalidCursor else Inr encoded))"

text \<open>A value token: a string without NUL, or null; everything else is refused.\<close>

definition cursor_value :: "string \<Rightarrow> string option option" where
  "cursor_value raw =
     (if raw = ''null'' then Some None
      else (case json_string raw of
              None \<Rightarrow> None
            | Some v \<Rightarrow> if CHR 0x00 \<in> set v then None else Some (Some v)))"

definition marshal_option :: "string option \<Rightarrow> string" where
  "marshal_option v = (case v of None \<Rightarrow> ''null'' | Some t \<Rightarrow> quote t)"

definition EncodeListCursor :: "string \<Rightarrow> string option \<Rightarrow> EntityType option \<Rightarrow> read_error + string" where
  "EncodeListCursor k filterGatewayID filterEntityType =
     (case ParseEntityURN k of
        Inl _ \<Rightarrow> Inl ErrInvalidCursor
      | Inr parsedK \<Rightarrow>
          if filterGatewayID \<noteq> None \<and> pi_GatewayID parsedK \<noteq> the filterGatewayID then Inl ErrInvalidCursor
          else if filterEntityType \<noteq> None \<and> pi_Type parsedK \<noteq> the filterEntityType then Inl ErrInvalidCursor
          else encodeCursorBytes (json_object [(''k'', quote k), (''g'', marshal_option filterGatewayID), (''t'', marshal_option filterEntityType)]))"

definition field_value :: "(string \<times> string) list \<Rightarrow> string \<Rightarrow> string option option" where
  "field_value flds k = (case map_of flds k of None \<Rightarrow> None | Some raw \<Rightarrow> cursor_value raw)"

definition DecodeListCursor :: "string \<Rightarrow> read_error + ListCursor" where
  "DecodeListCursor cursorStr =
     res_bind (decodeCursorBytes cursorStr) (\<lambda>decoded.
     res_bind (ok_or (decode_strict_object [''k'', ''g'', ''t''] decoded) ErrInvalidCursor) (\<lambda>flds.
     case (field_value flds ''k'', field_value flds ''g'', field_value flds ''t'') of
       (Some (Some kVal), Some gVal, Some tVal) \<Rightarrow>
         (case ParseEntityURN kVal of
            Inl _ \<Rightarrow> Inl ErrInvalidCursor
          | Inr parsedK \<Rightarrow>
              if tVal \<noteq> None \<and> \<not> EntityType_Valid (the tVal) then Inl ErrInvalidCursor
              else Inr \<lparr>lc_EntityID = pi_URN parsedK, lc_GatewayID = gVal, lc_EntityType = tVal\<rparr>)
     | _ \<Rightarrow> Inl ErrInvalidCursor))"

definition ValidateListCursor :: "ListCursor option \<Rightarrow> string option \<Rightarrow> EntityType option \<Rightarrow> read_error option" where
  "ValidateListCursor c filterGatewayID filterEntityType =
     (case c of
        None \<Rightarrow> Some ErrInvalidCursor
      | Some cr \<Rightarrow>
          (case ParseEntityURN (lc_EntityID cr) of
             Inl _ \<Rightarrow> Some ErrInvalidCursor
           | Inr parsedK \<Rightarrow>
               if (case filterGatewayID of
                     Some g \<Rightarrow> lc_GatewayID cr = None \<or> the (lc_GatewayID cr) \<noteq> g \<or> pi_GatewayID parsedK \<noteq> g
                   | None \<Rightarrow> lc_GatewayID cr \<noteq> None) then Some ErrInvalidCursor
               else if (case filterEntityType of
                     Some t \<Rightarrow> lc_EntityType cr = None \<or> the (lc_EntityType cr) \<noteq> t \<or> pi_Type parsedK \<noteq> t
                   | None \<Rightarrow> lc_EntityType cr \<noteq> None) then Some ErrInvalidCursor
               else None))"

definition ParseListCursor :: "string \<Rightarrow> string option \<Rightarrow> EntityType option \<Rightarrow> read_error + ListCursor" where
  "ParseListCursor cursorStr filterGatewayID filterEntityType =
     res_bind (DecodeListCursor cursorStr) (\<lambda>c.
     case ValidateListCursor (Some c) filterGatewayID filterEntityType of Some e \<Rightarrow> Inl e | None \<Rightarrow> Inr c)"

definition EncodeRelationshipCursor :: "string \<Rightarrow> string \<Rightarrow> string \<Rightarrow> read_error + string" where
  "EncodeRelationshipCursor sourceURN relType targetURN =
     (if relType \<noteq> ''hasSensor'' then Inl ErrInvalidCursor
      else
        (case (ParseEntityURN sourceURN, ParseEntityURN targetURN) of
           (Inr parsedS, Inr parsedT) \<Rightarrow>
             if pi_Type parsedS \<noteq> EntityTypeGateway then Inl ErrInvalidCursor
             else if pi_Type parsedT \<noteq> EntityTypeSensor then Inl ErrInvalidCursor
             else if pi_GatewayID parsedT \<noteq> pi_GatewayID parsedS then Inl ErrInvalidCursor
             else encodeCursorBytes (json_object [(''s'', quote sourceURN), (''r'', quote relType), (''k'', quote targetURN)])
         | _ \<Rightarrow> Inl ErrInvalidCursor))"

definition DecodeRelationshipCursor :: "string \<Rightarrow> read_error + RelationshipCursor" where
  "DecodeRelationshipCursor cursorStr =
     res_bind (decodeCursorBytes cursorStr) (\<lambda>decoded.
     res_bind (ok_or (decode_strict_object [''s'', ''r'', ''k''] decoded) ErrInvalidCursor) (\<lambda>flds.
     case (field_value flds ''s'', field_value flds ''r'', field_value flds ''k'') of
       (Some (Some sVal), Some (Some rVal), Some (Some kVal)) \<Rightarrow>
         (case (ParseEntityURN sVal, ParseEntityURN kVal) of
            (Inr parsedS, Inr parsedK) \<Rightarrow>
              if pi_Type parsedS \<noteq> EntityTypeGateway then Inl ErrInvalidCursor
              else if rVal \<noteq> ''hasSensor'' then Inl ErrInvalidCursor
              else if pi_Type parsedK \<noteq> EntityTypeSensor then Inl ErrInvalidCursor
              else if pi_GatewayID parsedK \<noteq> pi_GatewayID parsedS then Inl ErrInvalidCursor
              else Inr \<lparr>rc_SourceURN = pi_URN parsedS, rc_RelType = rVal, rc_TargetURN = pi_URN parsedK\<rparr>
          | _ \<Rightarrow> Inl ErrInvalidCursor)
     | _ \<Rightarrow> Inl ErrInvalidCursor))"

definition ValidateRelationshipCursor :: "RelationshipCursor option \<Rightarrow> string \<Rightarrow> read_error option" where
  "ValidateRelationshipCursor c expectedSourceURN =
     (case c of
        None \<Rightarrow> Some ErrInvalidCursor
      | Some cr \<Rightarrow> if rc_SourceURN cr \<noteq> expectedSourceURN then Some ErrInvalidCursor else None)"

definition ParseRelationshipCursor :: "string \<Rightarrow> string \<Rightarrow> read_error + RelationshipCursor" where
  "ParseRelationshipCursor cursorStr expectedSourceURN =
     res_bind (DecodeRelationshipCursor cursorStr) (\<lambda>c.
     case ValidateRelationshipCursor (Some c) expectedSourceURN of Some e \<Rightarrow> Inl e | None \<Rightarrow> Inr c)"

section \<open>Encoded documents decode\<close>

lemma utf8_Valid_ascii: "\<forall>c \<in> set s. (of_char c :: nat) < 128 \<Longrightarrow> length s \<le> n \<Longrightarrow> utf8_Valid n s"
proof (induction n arbitrary: s)
  case (Suc n)
  then show ?case by (cases s) (auto simp: utf8_decode_def Let_def)
qed simp

lemma no_backslash: "CHR 0x5C \<notin> set s \<Longrightarrow> \<not> hasForbiddenJSONEscapes s"
  by (induction s) auto

definition json_text_char :: "char \<Rightarrow> bool" where
  "json_text_char c \<longleftrightarrow> plain_char c \<or> c = CHR 0x22"

lemma plain_not_nul: "plain_char c \<Longrightarrow> c \<noteq> CHR 0x00"
  by (rule notI) (simp add: plain_char_def)

lemma json_text_char_facts: "json_text_char c \<Longrightarrow> (of_char c :: nat) < 128 \<and> c \<noteq> CHR 0x5C \<and> c \<noteq> CHR 0x00"
  unfolding json_text_char_def using plain_not_nul [of c]
  by (elim disjE) (simp add: plain_char_def, simp)

lemma decode_encodeCursorBytes:
  assumes "encodeCursorBytes doc = Inr c" "doc \<noteq> []" "list_all json_text_char doc"
  shows "decodeCursorBytes c = Inr doc"
proof -
  have c: "c = CursorVersionPrefix @ base64_EncodeToString doc" "int (length c) \<le> MaxEncodedCursorLength" "int (length doc) \<le> MaxDecodedCursorBytes"
    using assms(1) by (auto simp: encodeCursorBytes_def Let_def split: if_splits)
  have d: "\<forall>x \<in> set doc. (of_char x :: nat) < 128 \<and> x \<noteq> CHR 0x5C \<and> x \<noteq> CHR 0x00"
    using assms(3) json_text_char_facts unfolding list_all_iff by blast
  have "utf8_Valid (length doc) doc" by (rule utf8_Valid_ascii) (use d in auto)
  moreover have "\<not> hasForbiddenJSONEscapes doc" "CHR 0x00 \<notin> set doc" using d no_backslash by auto
  ultimately show ?thesis
    using c(2,3) base64_no_pad [of doc] base64_nonempty [OF assms(2)]
    by (simp add: decodeCursorBytes_def c(1) hasPrefix_def Let_def base64_roundtrip)
qed

lemma encodeCursorBytes_ok: "length doc \<le> 512 \<Longrightarrow> \<exists>c. encodeCursorBytes doc = Inr c"
  using base64_length [of doc]
  by (simp add: encodeCursorBytes_def Let_def MaxDecodedCursorBytes_def MaxEncodedCursorLength_def CursorVersionPrefix_def)

lemma cursor_value_quote: "list_all plain_char v \<Longrightarrow> cursor_value (quote v) = Some (Some v)"
proof -
  assume v: "list_all plain_char v"
  then have "CHR 0x00 \<notin> set v" using plain_not_nul unfolding list_all_iff by blast
  moreover have "quote v \<noteq> ''null''" by (simp add: quote_def)
  ultimately show ?thesis by (simp add: cursor_value_def json_string_quote [OF v])
qed

lemma urn_plain:
  assumes "ParseEntityURN k = Inr p"
  shows "list_all plain_char k \<and> length k \<le> 160 \<and> pi_URN p = k \<and> ValidateGatewayID (pi_GatewayID p) \<and> EntityType_Valid (pi_Type p)"
  using assms
proof (cases rule: ParseEntityURN_Inr)
  case (gateway g)
  then show ?thesis using valid_id_facts(1) [OF gateway(1)] id_char_plain [of g]
    by (simp add: GatewayEntityID_def gateway_identity_def EntityType_Valid_def) (simp add: plain_char_def)
next
  case (sensor g s)
  then show ?thesis using valid_id_facts(1) [OF sensor(1)] valid_id_facts(2) [OF sensor(2)] id_char_plain [of g] id_char_plain [of s]
    by (simp add: SensorEntityID_def sensor_identity_def EntityType_Valid_def) (simp add: plain_char_def)
qed

lemma marshal_option_facts:
  assumes "\<And>v. x = Some v \<Longrightarrow> list_all plain_char v"
  shows "self_delimiting (marshal_option x)" "cursor_value (marshal_option x) = Some x" "list_all json_text_char (marshal_option x)"
proof -
  have n: "self_delimiting ''null''" "list_all json_text_char ''null''" "cursor_value ''null'' = Some None"
    by (simp_all add: cursor_value_def self_delimiting_def scan_value_def step_begin_value_def is_digit19_def json_text_char_def plain_char_def json_space_def)
  have q: "list_all json_text_char (quote v)" if "list_all plain_char v" for v
    using that by (auto simp: quote_def json_text_char_def list_all_iff)
  show "self_delimiting (marshal_option x)" "cursor_value (marshal_option x) = Some x" "list_all json_text_char (marshal_option x)"
    using assms n q self_delimiting_quote cursor_value_quote by (auto simp: marshal_option_def split: option.splits)
qed

lemma quote_marshal: "quote v = marshal_option (Some v)"
  by (simp add: marshal_option_def)

text \<open>A document of three optional strings under one-letter keys is read back field by field.\<close>

lemma cursor_document:
  assumes "\<And>v. x1 = Some v \<Longrightarrow> list_all plain_char v" "\<And>v. x2 = Some v \<Longrightarrow> list_all plain_char v" "\<And>v. x3 = Some v \<Longrightarrow> list_all plain_char v"
    and k: "distinct [k1, k2, k3]" "plain_char k1" "plain_char k2" "plain_char k3"
    and doc: "doc = json_object [([k1], marshal_option x1), ([k2], marshal_option x2), ([k3], marshal_option x3)]"
  shows "list_all json_text_char doc" "doc \<noteq> []"
    "\<exists>flds. decode_strict_object [[k1], [k2], [k3]] doc = Some flds \<and>
       field_value flds [k1] = Some x1 \<and> field_value flds [k2] = Some x2 \<and> field_value flds [k3] = Some x3"
proof -
  note m = marshal_option_facts [OF assms(1)] marshal_option_facts [OF assms(2)] marshal_option_facts [OF assms(3)]
  have punct: "json_text_char CHR ''{''" "json_text_char CHR ''}''" "json_text_char CHR '':''" "json_text_char CHR '',''" "json_text_char CHR 0x22"
    by (simp_all add: json_text_char_def plain_char_def)
  have keys: "json_text_char k1" "json_text_char k2" "json_text_char k3" using k by (simp_all add: json_text_char_def)
  show "list_all json_text_char doc" using m(3,6,9) punct keys by (simp add: doc json_object_def quote_def)
  show "doc \<noteq> []" by (simp add: doc json_object_def)
  let ?f = "[([k1], marshal_option x1), ([k2], marshal_option x2), ([k3], marshal_option x3)]"
  have "decode_strict_object [[k1], [k2], [k3]] doc = Some ?f"
    unfolding doc by (rule decode_json_object) (use k m(1,4,7) in auto)
  then show "\<exists>flds. decode_strict_object [[k1], [k2], [k3]] doc = Some flds \<and>
       field_value flds [k1] = Some x1 \<and> field_value flds [k2] = Some x2 \<and> field_value flds [k3] = Some x3"
    using k m(2,5,8) by (auto simp: field_value_def)
qed

section \<open>List cursors\<close>

text \<open>The filters a key satisfies.\<close>

definition key_matches :: "ParsedIdentity \<Rightarrow> string option \<Rightarrow> EntityType option \<Rightarrow> bool" where
  "key_matches p g t \<longleftrightarrow> (g = None \<or> g = Some (pi_GatewayID p)) \<and> (t = None \<or> t = Some (pi_Type p))"

lemma key_plain:
  assumes "ParseEntityURN k = Inr p" "key_matches p g t"
  shows "\<And>v. Some k = Some v \<Longrightarrow> list_all plain_char v" "\<And>v. g = Some v \<Longrightarrow> list_all plain_char v" "\<And>v. t = Some v \<Longrightarrow> list_all plain_char v"
proof -
  note u = urn_plain [OF assms(1)]
  show "\<And>v. Some k = Some v \<Longrightarrow> list_all plain_char v" using u by simp
  show "\<And>v. g = Some v \<Longrightarrow> list_all plain_char v" using u assms(2) valid_id_facts(1) id_char_plain by (auto simp: key_matches_def)
  have "list_all plain_char EntityTypeGateway" "list_all plain_char EntityTypeSensor"
    by (simp_all add: EntityTypeGateway_def EntityTypeSensor_def plain_char_def)
  then show "\<And>v. t = Some v \<Longrightarrow> list_all plain_char v" using u assms(2) by (auto simp: key_matches_def EntityType_Valid_def)
qed

lemma EncodeListCursor_ok:
  "(\<exists>c. EncodeListCursor k g t = Inr c) \<longleftrightarrow> (\<exists>p. ParseEntityURN k = Inr p \<and> key_matches p g t)"
proof
  show "\<exists>c. EncodeListCursor k g t = Inr c \<Longrightarrow> \<exists>p. ParseEntityURN k = Inr p \<and> key_matches p g t"
    by (cases g; cases t) (auto simp: EncodeListCursor_def key_matches_def split: sum.splits if_splits)
next
  assume "\<exists>p. ParseEntityURN k = Inr p \<and> key_matches p g t"
  then obtain p where p: "ParseEntityURN k = Inr p" "key_matches p g t" by blast
  note u = urn_plain [OF p(1)]
  have "length (marshal_option g) \<le> 66" using p(2) u valid_id_facts(1) [of "pi_GatewayID p"] by (auto simp: key_matches_def marshal_option_def quote_def)
  moreover have "length (marshal_option t) \<le> 66"
    using p(2) u by (auto simp: key_matches_def marshal_option_def quote_def EntityType_Valid_def EntityTypeGateway_def EntityTypeSensor_def)
  ultimately have "length (json_object [(''k'', quote k), (''g'', marshal_option g), (''t'', marshal_option t)]) \<le> 512"
    using u by (simp add: json_object_def quote_def)
  then show "\<exists>c. EncodeListCursor k g t = Inr c"
    using p encodeCursorBytes_ok by (auto simp: EncodeListCursor_def key_matches_def)
qed

lemma DecodeListCursor_encoded:
  assumes "EncodeListCursor k g t = Inr c"
  shows "DecodeListCursor c = Inr \<lparr>lc_EntityID = k, lc_GatewayID = g, lc_EntityType = t\<rparr>"
proof -
  obtain p where p: "ParseEntityURN k = Inr p" "key_matches p g t" using EncodeListCursor_ok assms by blast
  note u = urn_plain [OF p(1)]
  define doc where "doc = json_object [(''k'', marshal_option (Some k)), (''g'', marshal_option g), (''t'', marshal_option t)]"
  have e: "encodeCursorBytes doc = Inr c"
    using assms p(1) by (auto simp: EncodeListCursor_def doc_def quote_marshal split: if_splits)
  have pc: "plain_char CHR ''k''" "plain_char CHR ''g''" "plain_char CHR ''t''" by (simp_all add: plain_char_def)
  note d = cursor_document [OF key_plain [OF p] _ pc doc_def]
  have "decodeCursorBytes c = Inr doc" using decode_encodeCursorBytes [OF e] d(1,2) by simp
  moreover obtain flds where "decode_strict_object [''k'', ''g'', ''t''] doc = Some flds"
      "field_value flds ''k'' = Some (Some k)" "field_value flds ''g'' = Some g" "field_value flds ''t'' = Some t"
    using d(3) by auto
  moreover have "t \<noteq> None \<longrightarrow> EntityType_Valid (the t)" using u p(2) by (auto simp: key_matches_def)
  ultimately show ?thesis using p(1) u by (auto simp: DecodeListCursor_def)
qed

lemma ValidateListCursor_None:
  "ValidateListCursor (Some cr) g t = None \<longleftrightarrow>
     (\<exists>p. ParseEntityURN (lc_EntityID cr) = Inr p \<and> key_matches p g t) \<and> lc_GatewayID cr = g \<and> lc_EntityType cr = t"
  by (cases cr) (auto simp: ValidateListCursor_def key_matches_def split: sum.splits option.splits)

lemma ValidateListCursor_error: "ValidateListCursor c g t = Some e \<Longrightarrow> e = ErrInvalidCursor"
  by (auto simp: ValidateListCursor_def split: option.splits sum.splits if_splits)

lemma ParseListCursor_Inr:
  assumes "ParseListCursor c g t = Inr cr"
  shows "\<exists>p. ParseEntityURN (lc_EntityID cr) = Inr p \<and> key_matches p g t" "lc_GatewayID cr = g" "lc_EntityType cr = t"
  using assms ValidateListCursor_None [of cr g t] by (auto simp: ParseListCursor_def split: option.splits)

lemma ParseListCursor_encoded:
  assumes "EncodeListCursor k g t = Inr c"
  shows "ParseListCursor c g' t' = (if g' = g \<and> t' = t then Inr \<lparr>lc_EntityID = k, lc_GatewayID = g, lc_EntityType = t\<rparr> else Inl ErrInvalidCursor)"
proof -
  have "\<exists>p. ParseEntityURN k = Inr p \<and> key_matches p g t" using EncodeListCursor_ok assms by blast
  then show ?thesis
    using ValidateListCursor_None [of "\<lparr>lc_EntityID = k, lc_GatewayID = g, lc_EntityType = t\<rparr>" g' t'] ValidateListCursor_error
    by (auto simp: ParseListCursor_def DecodeListCursor_encoded [OF assms] split: option.splits)
qed

text \<open>C29. List cursors are faithful and bound to their filters. A cursor can be issued for exactly the valid
  keys that satisfy the filters of the request; read back under the same filters it gives the same key,
  and under any other filters it is refused. Any string that is accepted as a cursor, whoever made it,
  names a valid entity that satisfies the filters it is used with.\<close>

theorem list_cursor_faithful:
  "((\<exists>c. EncodeListCursor k g t = Inr c) \<longleftrightarrow> (\<exists>p. ParseEntityURN k = Inr p \<and> key_matches p g t)) \<and>
   (EncodeListCursor k g t = Inr c \<longrightarrow>
      ParseListCursor c g' t' = (if g' = g \<and> t' = t then Inr \<lparr>lc_EntityID = k, lc_GatewayID = g, lc_EntityType = t\<rparr> else Inl ErrInvalidCursor)) \<and>
   (ParseListCursor raw g' t' = Inr cr \<longrightarrow>
      (\<exists>p. ParseEntityURN (lc_EntityID cr) = Inr p \<and> key_matches p g' t') \<and> lc_GatewayID cr = g' \<and> lc_EntityType cr = t')"
  using EncodeListCursor_ok [of k g t] ParseListCursor_encoded [of k g t c g' t'] ParseListCursor_Inr [of raw g' t' cr] by simp

theorem list_cursor_faithful_witness:
  "\<exists>c. EncodeListCursor (SensorEntityID ''gw1'' ''s1'') (Some ''gw1'') None = Inr c \<and>
     ParseListCursor c (Some ''gw1'') None = Inr \<lparr>lc_EntityID = SensorEntityID ''gw1'' ''s1'', lc_GatewayID = Some ''gw1'', lc_EntityType = None\<rparr> \<and>
     ParseListCursor c None None = Inl ErrInvalidCursor"
proof -
  have v: "ValidateGatewayID ''gw1''" "ValidateSensorID ''s1''"
    by (simp_all add: ValidateGatewayID_def ValidateSensorID_def is_alnum_def id_char_def)
  have m: "key_matches (sensor_identity ''gw1'' ''s1'') (Some ''gw1'') None" by (simp add: key_matches_def sensor_identity_def)
  obtain c where c: "EncodeListCursor (SensorEntityID ''gw1'' ''s1'') (Some ''gw1'') None = Inr c"
    using list_cursor_faithful [of "SensorEntityID ''gw1'' ''s1''" "Some ''gw1''" None] ParseEntityURN_sensor [OF v] m by blast
  then show ?thesis
    using list_cursor_faithful [of "SensorEntityID ''gw1'' ''s1''" "Some ''gw1''" None c "Some ''gw1''" None]
      list_cursor_faithful [of "SensorEntityID ''gw1'' ''s1''" "Some ''gw1''" None c None None] by auto
qed

section \<open>Relationship cursors\<close>

lemma EncodeRelationshipCursor_ok:
  "(\<exists>c. EncodeRelationshipCursor src r tgt = Inr c) \<longleftrightarrow>
     (\<exists>g s. ValidateGatewayID g \<and> ValidateSensorID s \<and> src = GatewayEntityID g \<and> tgt = SensorEntityID g s \<and> r = ''hasSensor'')"
proof
  assume "\<exists>c. EncodeRelationshipCursor src r tgt = Inr c"
  then obtain p q where h: "r = ''hasSensor''" "ParseEntityURN src = Inr p" "ParseEntityURN tgt = Inr q" "pi_Type p = EntityTypeGateway" "pi_Type q = EntityTypeSensor" "pi_GatewayID q = pi_GatewayID p"
    by (auto simp: EncodeRelationshipCursor_def split: sum.splits if_splits)
  have ne: "EntityTypeGateway \<noteq> EntityTypeSensor" by (simp add: EntityTypeGateway_def EntityTypeSensor_def)
  obtain g where "ValidateGatewayID g" "src = GatewayEntityID g" "p = gateway_identity g"
    using h(2,4) ne by (cases rule: ParseEntityURN_Inr) (auto simp: sensor_identity_def)
  moreover obtain g' s where "ValidateSensorID s" "tgt = SensorEntityID g' s" "q = sensor_identity g' s"
    using h(3,5) ne by (cases rule: ParseEntityURN_Inr) (auto simp: gateway_identity_def)
  ultimately show "\<exists>g s. ValidateGatewayID g \<and> ValidateSensorID s \<and> src = GatewayEntityID g \<and> tgt = SensorEntityID g s \<and> r = ''hasSensor''"
    using h(1,6) by (auto simp: gateway_identity_def sensor_identity_def)
next
  assume "\<exists>g s. ValidateGatewayID g \<and> ValidateSensorID s \<and> src = GatewayEntityID g \<and> tgt = SensorEntityID g s \<and> r = ''hasSensor''"
  then obtain g s where v: "ValidateGatewayID g" "ValidateSensorID s" "src = GatewayEntityID g" "tgt = SensorEntityID g s" "r = ''hasSensor''" by blast
  have "length (json_object [(''s'', quote src), (''r'', quote r), (''k'', quote tgt)]) \<le> 512"
    using valid_id_facts(1) [OF v(1)] valid_id_facts(2) [OF v(2)] by (simp add: v(3-5) json_object_def quote_def GatewayEntityID_def SensorEntityID_def)
  then show "\<exists>c. EncodeRelationshipCursor src r tgt = Inr c"
    using encodeCursorBytes_ok v ParseEntityURN_gateway [OF v(1)] ParseEntityURN_sensor [OF v(1,2)]
    by (simp add: EncodeRelationshipCursor_def gateway_identity_def sensor_identity_def)
qed

lemma ParseRelationshipCursor_encoded:
  assumes "EncodeRelationshipCursor src r tgt = Inr c"
  shows "ParseRelationshipCursor c src' =
    (if src' = src then Inr \<lparr>rc_SourceURN = src, rc_RelType = ''hasSensor'', rc_TargetURN = tgt\<rparr> else Inl ErrInvalidCursor)"
proof -
  obtain g s where v: "ValidateGatewayID g" "ValidateSensorID s" "src = GatewayEntityID g" "tgt = SensorEntityID g s" "r = ''hasSensor''"
    using EncodeRelationshipCursor_ok assms by blast
  note P = ParseEntityURN_gateway [OF v(1)] ParseEntityURN_sensor [OF v(1,2)]
  define doc where "doc = json_object [(''s'', marshal_option (Some src)), (''r'', marshal_option (Some r)), (''k'', marshal_option (Some tgt))]"
  have e: "encodeCursorBytes doc = Inr c"
    using assms P by (auto simp: EncodeRelationshipCursor_def doc_def quote_marshal v gateway_identity_def sensor_identity_def split: if_splits)
  have pc: "plain_char CHR ''s''" "plain_char CHR ''r''" "plain_char CHR ''k''" by (simp_all add: plain_char_def)
  have pl: "\<And>v. Some src = Some v \<Longrightarrow> list_all plain_char v" "\<And>v. Some r = Some v \<Longrightarrow> list_all plain_char v" "\<And>v. Some tgt = Some v \<Longrightarrow> list_all plain_char v"
    using urn_plain [OF P(1)] urn_plain [OF P(2)] v(3-5) by (auto simp: plain_char_def)
  note d = cursor_document [OF pl _ pc doc_def]
  have "decodeCursorBytes c = Inr doc" using decode_encodeCursorBytes [OF e] d(1,2) by simp
  moreover obtain flds where "decode_strict_object [''s'', ''r'', ''k''] doc = Some flds"
      "field_value flds ''s'' = Some (Some src)" "field_value flds ''r'' = Some (Some r)" "field_value flds ''k'' = Some (Some tgt)"
    using d(3) by auto
  ultimately have "DecodeRelationshipCursor c = Inr \<lparr>rc_SourceURN = src, rc_RelType = ''hasSensor'', rc_TargetURN = tgt\<rparr>"
    using P by (simp add: DecodeRelationshipCursor_def v gateway_identity_def sensor_identity_def)
  then show ?thesis by (simp add: ParseRelationshipCursor_def ValidateRelationshipCursor_def)
qed

end
