(* ===== verification/TwinRead.thy ===== *)
theory TwinRead
  imports HistoryParser TwinCursor HistoryStore "HOL-Library.List_Lexorder" "HOL-Library.Char_ord"
begin

text \<open>
  Digital Twin reads: bounds (\<open>config/read_bounds.go\<close>), query strings (\<open>httpserver/twin_query_parser.go\<close>),
  revalidation (\<open>digitaltwin/validation.go\<close>), the entity resolver (\<open>digitaltwin/postgres_resolver.go\<close>), the
  reader of lists, details and states (\<open>digitaltwin/postgres_twin_reader.go\<close>), preparation under one
  deadline (\<open>digitaltwin/read_preparation.go\<close>) and the service (\<open>digitaltwin/read_service.go\<close>). The tables
  are those of the telemetry repository; the columns only shown by these reads are the additional
  fields of \<open>twin_db\<close>. \<open>COLLATE "C"\<close> is the lexicographic order of the bytes.
\<close>

section \<open>Bounds\<close>

record TwinConfig =
  tc_ListDefaultLimit :: int
  tc_ListMaxLimit :: int
  tc_RelationshipDefaultLimit :: int
  tc_RelationshipMaxLimit :: int

definition DefaultTwinConfig :: TwinConfig where
  "DefaultTwinConfig = \<lparr>tc_ListDefaultLimit = ContractDefaultLimit, tc_ListMaxLimit = ContractMaxLimit,
     tc_RelationshipDefaultLimit = ContractDefaultLimit, tc_RelationshipMaxLimit = ContractMaxLimit\<rparr>"

definition ValidateTwinConfig :: "TwinConfig \<Rightarrow> string option" where
  "ValidateTwinConfig cfg =
     (if tc_ListDefaultLimit cfg < 1 then Some ''TWIN_LIST_DEFAULT_LIMIT must be at least 1''
      else if ContractMaxLimit < tc_ListMaxLimit cfg then Some ''TWIN_LIST_MAX_LIMIT cannot exceed contract hard cap of 200''
      else if tc_ListMaxLimit cfg < tc_ListDefaultLimit cfg then Some ''TWIN_LIST_DEFAULT_LIMIT must be less than or equal to TWIN_LIST_MAX_LIMIT''
      else if tc_RelationshipDefaultLimit cfg < 1 then Some ''TWIN_RELATIONSHIP_DEFAULT_LIMIT must be at least 1''
      else if ContractMaxLimit < tc_RelationshipMaxLimit cfg then Some ''TWIN_RELATIONSHIP_MAX_LIMIT cannot exceed contract hard cap of 200''
      else if tc_RelationshipMaxLimit cfg < tc_RelationshipDefaultLimit cfg
        then Some ''TWIN_RELATIONSHIP_DEFAULT_LIMIT must be less than or equal to TWIN_RELATIONSHIP_MAX_LIMIT''
      else None)"

record ReadPreparationConfig =
  rg_QueryTimeout :: duration
  rg_ListMaxLimit :: int
  rg_RelationshipMaxLimit :: int
  rg_HistoryMaxRange :: duration
  rg_HistoryRawWindow :: duration
  rg_HistoryMinPoints :: int
  rg_HistoryMaxPoints :: int

definition DefaultReadPreparationConfig :: ReadPreparationConfig where
  "DefaultReadPreparationConfig = \<lparr>rg_QueryTimeout = MaxHistoryQueryTimeout, rg_ListMaxLimit = ContractMaxLimit, rg_RelationshipMaxLimit = ContractMaxLimit,
     rg_HistoryMaxRange = MaxHistoryMaxRange, rg_HistoryRawWindow = MaxHistoryRawWindow,
     rg_HistoryMinPoints = MinHistoryPointsLowerLimit, rg_HistoryMaxPoints = MaxHistoryPointsUpperLimit\<rparr>"

definition ValidateReadPreparationConfig :: "ReadPreparationConfig \<Rightarrow> string option" where
  "ValidateReadPreparationConfig cfg =
     (if rg_QueryTimeout cfg \<le> 0 then Some ''READ_QUERY_TIMEOUT must be a positive duration''
      else if MaxHistoryQueryTimeout < rg_QueryTimeout cfg then Some ''READ_QUERY_TIMEOUT cannot exceed contract hard cap of 5s''
      else if rg_ListMaxLimit cfg \<le> 0 \<or> ContractMaxLimit < rg_ListMaxLimit cfg then Some ''TWIN_LIST_MAX_LIMIT cannot exceed contract hard cap of 200''
      else if rg_RelationshipMaxLimit cfg \<le> 0 \<or> ContractMaxLimit < rg_RelationshipMaxLimit cfg
        then Some ''TWIN_RELATIONSHIP_MAX_LIMIT cannot exceed contract hard cap of 200''
      else if rg_HistoryMaxRange cfg \<le> 0 then Some ''HISTORY_MAX_RANGE must be a positive duration''
      else if MaxHistoryMaxRange < rg_HistoryMaxRange cfg then Some ''HISTORY_MAX_RANGE cannot exceed contract hard cap of 744h0m0s''
      else if rg_HistoryRawWindow cfg \<le> 0 then Some ''HISTORY_RAW_WINDOW must be a positive duration''
      else if MaxHistoryRawWindow < rg_HistoryRawWindow cfg then Some ''HISTORY_RAW_WINDOW cannot exceed contract hard cap of 10s''
      else if rg_HistoryMaxRange cfg < rg_HistoryRawWindow cfg then Some ''HISTORY_RAW_WINDOW cannot exceed HISTORY_MAX_RANGE''
      else if rg_HistoryMinPoints cfg < MinHistoryPointsLowerLimit then Some ''HISTORY_MIN_POINTS cannot be less than contract lower limit of 100''
      else if MaxHistoryPointsUpperLimit < rg_HistoryMinPoints cfg then Some ''HISTORY_MIN_POINTS cannot exceed contract hard cap of 2000''
      else if MaxHistoryPointsUpperLimit < rg_HistoryMaxPoints cfg then Some ''HISTORY_MAX_POINTS cannot exceed contract hard cap of 2000''
      else if rg_HistoryMaxPoints cfg < rg_HistoryMinPoints cfg then Some ''HISTORY_MIN_POINTS must be less than or equal to HISTORY_MAX_POINTS''
      else None)"

definition NewReadPreparationConfig ::
  "duration \<Rightarrow> int \<Rightarrow> int \<Rightarrow> duration \<Rightarrow> duration \<Rightarrow> int \<Rightarrow> int \<Rightarrow> string + ReadPreparationConfig" where
  "NewReadPreparationConfig timeout listMax relMax maxRange rawWindow minPoints maxPoints =
     (let cfg = \<lparr>rg_QueryTimeout = timeout, rg_ListMaxLimit = listMax, rg_RelationshipMaxLimit = relMax, rg_HistoryMaxRange = maxRange,
        rg_HistoryRawWindow = rawWindow, rg_HistoryMinPoints = minPoints, rg_HistoryMaxPoints = maxPoints\<rparr>
      in case ValidateReadPreparationConfig cfg of Some e \<Rightarrow> Inl e | None \<Rightarrow> Inr cfg)"

definition ToReadPreparationConfig :: "TwinConfig \<Rightarrow> HistoryConfig \<Rightarrow> ReadPreparationConfig" where
  "ToReadPreparationConfig c h =
     \<lparr>rg_QueryTimeout = hg_QueryTimeout h, rg_ListMaxLimit = tc_ListMaxLimit c, rg_RelationshipMaxLimit = tc_RelationshipMaxLimit c,
      rg_HistoryMaxRange = hg_MaxRange h, rg_HistoryRawWindow = hg_RawWindow h, rg_HistoryMinPoints = hg_MinPoints h, rg_HistoryMaxPoints = hg_MaxPoints h\<rparr>"

section \<open>Query strings\<close>

record TwinListQuery =
  lq_GatewayID :: "string option"
  lq_EntityType :: "EntityType option"
  lq_Limit :: int
  lq_After :: "string option"

record TwinDetailQuery =
  dq_EntityID :: string
  dq_RelationshipLimit :: int
  dq_RelationshipAfter :: "string option"

record TwinListPresentationOptions =
  lo_Format :: string

definition parse_limit :: "params \<Rightarrow> string \<Rightarrow> int \<Rightarrow> int \<Rightarrow> QueryError + int" where
  "parse_limit params k dflt maximum =
     (case params k of
        None \<Rightarrow> Inr dflt
      | Some v \<Rightarrow>
          (case parseASCIIInteger v of
             None \<Rightarrow> Inl (invalid_request ErrInvalidInput)
           | Some parsed \<Rightarrow> if parsed < 1 \<or> maximum < parsed then Inl (invalid_request ErrInvalidInput) else Inr parsed))"

definition invalid_cursor :: QueryError where
  "invalid_cursor = \<lparr>qe_Code = ''invalid_cursor'', qe_Err = ErrInvalidCursor\<rparr>"

definition ParseTwinListQuery :: "TwinConfig \<Rightarrow> string \<Rightarrow> QueryError + TwinListQuery \<times> TwinListPresentationOptions" where
  "ParseTwinListQuery cfg rawQuery =
     res_bind (parseRawQuery rawQuery [''gateway_id'', ''type'', ''limit'', ''cursor'', ''format'']) (\<lambda>params.
     res_bind (reject_if (params ''format'' \<notin> {None, Some ''simplified''}) (invalid_request ErrInvalidInput)) (\<lambda>_.
     let gatewayID = params ''gateway_id''; entityType = params ''type'' in
     res_bind (reject_if (gatewayID \<noteq> None \<and> \<not> ValidateGatewayID (the gatewayID)) (invalid_request ErrInvalidInput)) (\<lambda>_.
     res_bind (reject_if (entityType \<noteq> None \<and> \<not> EntityType_Valid (the entityType)) (invalid_request ErrInvalidInput)) (\<lambda>_.
     res_bind (parse_limit params ''limit'' (tc_ListDefaultLimit cfg) (tc_ListMaxLimit cfg)) (\<lambda>limit.
     let after = params ''cursor'' in
     res_bind (reject_if (after \<noteq> None \<and> \<not> is_ok (ParseListCursor (the after) gatewayID entityType)) invalid_cursor) (\<lambda>_.
     Inr (\<lparr>lq_GatewayID = gatewayID, lq_EntityType = entityType, lq_Limit = limit, lq_After = after\<rparr>,
       \<lparr>lo_Format = (if params ''format'' = None then [] else ''simplified'')\<rparr>)))))))"

definition detail_keys :: "string list" where
  "detail_keys = [''relationship_limit'', ''relationship_after'', ''format'']"

text \<open>\<open>len(params)\<close>; every key is one of the allowed ones.\<close>

definition param_count :: "params \<Rightarrow> string list \<Rightarrow> nat" where
  "param_count params allowedKeys = length (filter (\<lambda>k. params k \<noteq> None) allowedKeys)"

definition ParseTwinDetailQuery :: "TwinConfig \<Rightarrow> string \<Rightarrow> string \<Rightarrow> QueryError + TwinDetailQuery" where
  "ParseTwinDetailQuery cfg rawQuery entityID =
     (case ParseEntityURN entityID of
        Inl _ \<Rightarrow> Inl (invalid_request ErrInvalidInput)
      | Inr _ \<Rightarrow>
          res_bind (parseRawQuery rawQuery detail_keys) (\<lambda>params.
          case params ''format'' of
            Some v \<Rightarrow>
              if v \<noteq> ''simplified'' then Inl (invalid_request ErrInvalidInput)
              else if 1 < param_count params detail_keys then Inl (invalid_request ErrInvalidInput)
              else Inr \<lparr>dq_EntityID = entityID, dq_RelationshipLimit = tc_RelationshipDefaultLimit cfg, dq_RelationshipAfter = None\<rparr>
          | None \<Rightarrow>
              res_bind (parse_limit params ''relationship_limit'' (tc_RelationshipDefaultLimit cfg) (tc_RelationshipMaxLimit cfg)) (\<lambda>relLimit.
              let relAfter = params ''relationship_after'' in
              res_bind (reject_if (relAfter \<noteq> None \<and> \<not> is_ok (ParseRelationshipCursor (the relAfter) entityID)) invalid_cursor) (\<lambda>_.
              Inr \<lparr>dq_EntityID = entityID, dq_RelationshipLimit = relLimit, dq_RelationshipAfter = relAfter\<rparr>))))"

definition ParseDetailFormat :: "string \<Rightarrow> QueryError + string" where
  "ParseDetailFormat rawQuery =
     (if rawQuery = [] then Inr []
      else
        res_bind (parseRawQuery rawQuery detail_keys) (\<lambda>params.
        case params ''format'' of
          None \<Rightarrow> Inr []
        | Some formatVal \<Rightarrow>
            if formatVal \<noteq> ''simplified'' then Inl (invalid_request ErrInvalidInput)
            else if 1 < param_count params detail_keys then Inl (invalid_request ErrInvalidInput)
            else Inr ''simplified''))"

section \<open>Revalidation\<close>

definition ValidateTwinListQuery :: "TwinListQuery \<Rightarrow> int \<Rightarrow> read_error option" where
  "ValidateTwinListQuery q maxLimit =
     (let maxL = (if maxLimit \<le> 0 then ContractMaxLimit else maxLimit) in
      if lq_Limit q < 1 \<or> maxL < lq_Limit q then Some ErrInvalidInput
      else if lq_GatewayID q \<noteq> None \<and> \<not> ValidateGatewayID (the (lq_GatewayID q)) then Some ErrInvalidInput
      else if lq_EntityType q \<noteq> None \<and> \<not> EntityType_Valid (the (lq_EntityType q)) then Some ErrInvalidInput
      else if lq_After q \<noteq> None \<and> \<not> is_ok (ParseListCursor (the (lq_After q)) (lq_GatewayID q) (lq_EntityType q)) then Some ErrInvalidCursor
      else None)"

definition ValidateTwinDetailQuery :: "TwinDetailQuery \<Rightarrow> int \<Rightarrow> read_error option" where
  "ValidateTwinDetailQuery q maxLimit =
     (let maxL = (if maxLimit \<le> 0 then ContractMaxLimit else maxLimit) in
      if \<not> is_ok (ParseEntityURN (dq_EntityID q)) then Some ErrInvalidInput
      else if dq_RelationshipLimit q < 1 \<or> maxL < dq_RelationshipLimit q then Some ErrInvalidInput
      else if dq_RelationshipAfter q \<noteq> None \<and> \<not> is_ok (ParseRelationshipCursor (the (dq_RelationshipAfter q)) (dq_EntityID q)) then Some ErrInvalidCursor
      else None)"

definition ValidateTwinStateQuery :: "TwinStateQuery \<Rightarrow> read_error option" where
  "ValidateTwinStateQuery q = (if \<not> is_ok (ParseEntityURN (sq_EntityID q)) then Some ErrInvalidInput else None)"

definition ValidateTwinHistoryQuery :: "TwinHistoryQuery \<Rightarrow> read_error option" where
  "ValidateTwinHistoryQuery q =
     (case ParseEntityURN (tq_EntityID q) of
        Inl _ \<Rightarrow> Some ErrInvalidInput
      | Inr parsed \<Rightarrow>
          if pi_Type parsed \<noteq> EntityTypeSensor then Some ErrInvalidProperty
          else if \<not> HistorySelector_Valid (tq_Property q) then Some ErrInvalidProperty
          else None)"

section \<open>Tables and faults\<close>

record twin_db =
  td_read :: read_db
  td_entity_name :: "uuid \<Rightarrow> string option"
  td_entity_updated :: "uuid \<Rightarrow> time"
  td_gateway_name :: "string \<Rightarrow> string"
  td_gateway_description :: "string \<Rightarrow> string option"
  td_sensor_name :: "string \<times> string \<Rightarrow> string"
  td_relationship_created :: "uuid \<times> uuid \<Rightarrow> time"
  td_last_desired_at :: "uuid \<Rightarrow> time option"

abbreviation td_store :: "twin_db \<Rightarrow> db" where "td_store d \<equiv> rd_store (td_read d)"

definition member_of :: "twin_db \<Rightarrow> uuid \<Rightarrow> string option \<Rightarrow> bool" where
  "member_of d actor g = (case g of None \<Rightarrow> False | Some x \<Rightarrow> (actor, x) \<in> set (rd_user_gateways (td_read d)))"

text \<open>One statement: \<open>Query\<close> may fail, \<open>Scan\<close> of a row may fail, \<open>Next\<close> may stop early with an error.\<close>

record twin_faults =
  tf_resolve :: "driver_error option"
  tf_query :: "driver_error option"
  tf_scan :: "nat \<Rightarrow> driver_error option"
  tf_stop :: "(nat \<times> driver_error) option"

definition classifyReaderError :: "driver_error \<Rightarrow> read_error" where
  "classifyReaderError err =
     (if de_context err \<noteq> None then JoinErr [ErrDependencyUnavailable, DriverErr err]
      else if de_closed_pool err then JoinErr [ErrDependencyUnavailable]
      else if de_net_error err then JoinErr [ErrDependencyUnavailable, DriverErr err]
      else
        (case de_pg_code err of
           Some code \<Rightarrow>
             if hasPrefix code ''08'' \<or> hasPrefix code ''53'' \<or> hasPrefix code ''57'' then JoinErr [ErrDependencyUnavailable]
             else JoinErr [ErrUnexpected, DriverErr err]
         | None \<Rightarrow> JoinErr [ErrUnexpected, DriverErr err]))"

definition twin_rows :: "twin_faults \<Rightarrow> 'r list \<Rightarrow> read_error + 'r list" where
  "twin_rows tf rows =
     (case tf_query tf of
        Some e \<Rightarrow> Inl (classifyReaderError e)
      | None \<Rightarrow>
          (let seen = (case tf_stop tf of None \<Rightarrow> rows | Some (n, _) \<Rightarrow> take n rows) in
           case find (\<lambda>i. tf_scan tf i \<noteq> None) [0..<length seen] of
             Some i \<Rightarrow> Inl (classifyReaderError (the (tf_scan tf i)))
           | None \<Rightarrow> (case tf_stop tf of Some (_, e) \<Rightarrow> Inl (classifyReaderError e) | None \<Rightarrow> Inr seen)))"

section \<open>Resolver\<close>

record ResolvedEntity =
  re_InternalID :: uuid
  re_PublicURN :: string
  re_Type :: EntityType
  re_GatewayID :: string
  re_SensorID :: string

record ResolvedGateway =
  rw_InternalID :: uuid
  rw_GatewayID :: string

text \<open>The first row of a query that has at most one.\<close>

definition query_row :: "driver_error option \<Rightarrow> 'r list \<Rightarrow> driver_error + 'r" where
  "query_row err rows =
     (case err of Some e \<Rightarrow> Inl e | None \<Rightarrow> (case rows of [] \<Rightarrow> Inl pgx_ErrNoRows | r # _ \<Rightarrow> Inr r))"

definition gateway_entities :: "twin_db \<Rightarrow> uuid \<Rightarrow> string \<Rightarrow> string \<Rightarrow> twin_entity list" where
  "gateway_entities d actor urn g =
     filter (\<lambda>e. te_entity_id e = urn \<and> te_entity_type e = EntityTypeGateway \<and> te_gateway_id e = Some g \<and>
       g \<in> set (db_gateways (td_store d)) \<and> member_of d actor (Some g)) (db_entities (td_store d))"

text \<open>The Sensor's entity has a parent Gateway entity that it is related to.\<close>

definition has_parent :: "twin_db \<Rightarrow> (twin_entity \<Rightarrow> bool) \<Rightarrow> twin_entity \<Rightarrow> bool" where
  "has_parent d P e =
     list_ex (\<lambda>pe. te_entity_type pe = EntityTypeGateway \<and> te_gateway_id pe = te_gateway_id e \<and> P pe \<and>
       list_ex (\<lambda>r. rel_source_entity_id r = te_id pe \<and> rel_target_entity_id r = te_id e \<and> rel_relationship_type r = ''hasSensor'')
         (db_relationships (td_store d))) (db_entities (td_store d))"

definition sensor_entities :: "twin_db \<Rightarrow> uuid \<Rightarrow> (twin_entity \<Rightarrow> bool) \<Rightarrow> string \<Rightarrow> string \<Rightarrow> string \<Rightarrow> twin_entity list" where
  "sensor_entities d actor parent urn g s =
     filter (\<lambda>e. te_entity_id e = urn \<and> te_entity_type e = EntityTypeSensor \<and> te_gateway_id e = Some g \<and>
       db_sensors (td_store d) (g, s) \<noteq> None \<and> has_parent d parent e \<and> g \<in> set (db_gateways (td_store d)) \<and> member_of d actor (Some g))
       (db_entities (td_store d))"

definition ResolveGateway :: "twin_faults \<Rightarrow> twin_db \<Rightarrow> uuid \<Rightarrow> string \<Rightarrow> read_error + ResolvedGateway" where
  "ResolveGateway tf d actor gatewayID =
     (if actor = uuid_Nil then Inl ErrNilActor
      else if \<not> ValidateGatewayID gatewayID then Inl ErrInvalidInput
      else
        (case query_row (tf_resolve tf) (gateway_entities d actor (GatewayURNPrefix @ gatewayID) gatewayID) of
           Inl e \<Rightarrow> Inl (classifyResolverError e ErrNotFound ErrDependencyUnavailable ErrUnexpected)
         | Inr e \<Rightarrow> Inr \<lparr>rw_InternalID = te_id e, rw_GatewayID = gatewayID\<rparr>))"

definition ResolveEntity :: "twin_faults \<Rightarrow> twin_db \<Rightarrow> uuid \<Rightarrow> ParsedIdentity \<Rightarrow> read_error + ResolvedEntity option" where
  "ResolveEntity tf d actor parsed =
     (let g = pi_GatewayID parsed; s = pi_SensorID parsed; urn = pi_URN parsed in
      if actor = uuid_Nil then Inl ErrNilActor
      else if \<not> EntityType_Valid (pi_Type parsed) then Inl ErrInvalidInput
      else if \<not> ValidateGatewayID g then Inl ErrInvalidInput
      else if pi_Type parsed = EntityTypeGateway then
        (if s \<noteq> [] then Inl ErrInvalidInput
         else if urn \<noteq> GatewayURNPrefix @ g then Inl ErrInvalidInput
         else
           (case query_row (tf_resolve tf) (gateway_entities d actor urn g) of
              Inl e \<Rightarrow> Inl (classifyResolverError e ErrNotFound ErrDependencyUnavailable ErrUnexpected)
            | Inr e \<Rightarrow> Inr (Some \<lparr>re_InternalID = te_id e, re_PublicURN = te_entity_id e, re_Type = te_entity_type e, re_GatewayID = g, re_SensorID = []\<rparr>)))
      else
        (if \<not> ValidateSensorID s then Inl ErrInvalidInput
         else if urn \<noteq> SensorURNPrefix @ g @ '':'' @ s then Inl ErrInvalidInput
         else
           (case query_row (tf_resolve tf) (sensor_entities d actor (\<lambda>pe. te_entity_id pe = GatewayURNPrefix @ g) urn g s) of
              Inl e \<Rightarrow> Inl (classifyResolverError e ErrNotFound ErrDependencyUnavailable ErrUnexpected)
            | Inr e \<Rightarrow> Inr (Some \<lparr>re_InternalID = te_id e, re_PublicURN = te_entity_id e, re_Type = te_entity_type e, re_GatewayID = g, re_SensorID = s\<rparr>))))"

section \<open>Lists\<close>

datatype twin_point = TpPrepared | TpResolveFailed | TpResolved | TpCallbackDone | TpReader | TpDelegate | TpDelegated

type_synonym twin_ctx = "twin_point \<Rightarrow> ctx_error option"

definition tw_check :: "twin_ctx \<Rightarrow> twin_point \<Rightarrow> read_error + unit" where
  "tw_check ctx p = (case ctx p of None \<Rightarrow> Inr () | Some c \<Rightarrow> Inl (ctx_wrap ErrDependencyUnavailable c))"

record TwinSummary =
  sm_ID :: string
  sm_Type :: EntityType
  sm_Name :: "string option"
  sm_GatewayID :: string
  sm_UpdatedAt :: time

record TwinListResult =
  lr_Items :: "TwinSummary list"
  lr_NextCursor :: "string option"

definition summary_of :: "twin_db \<Rightarrow> twin_entity \<Rightarrow> TwinSummary" where
  "summary_of d e = \<lparr>sm_ID = te_entity_id e, sm_Type = te_entity_type e, sm_Name = td_entity_name d (te_id e),
     sm_GatewayID = the (te_gateway_id e), sm_UpdatedAt = td_entity_updated d (te_id e)\<rparr>"

definition listed :: "twin_db \<Rightarrow> uuid \<Rightarrow> string option \<Rightarrow> EntityType option \<Rightarrow> twin_entity \<Rightarrow> bool" where
  "listed d actor g t e \<longleftrightarrow> member_of d actor (te_gateway_id e) \<and>
     (te_entity_type e = EntityTypeGateway \<or> te_entity_type e = EntityTypeSensor) \<and>
     (g = None \<or> te_gateway_id e = g) \<and> (t = None \<or> t = Some (te_entity_type e))"

definition listEntitiesQuery :: "twin_db \<Rightarrow> uuid \<Rightarrow> string option \<Rightarrow> EntityType option \<Rightarrow> string option \<Rightarrow> int \<Rightarrow> twin_entity list" where
  "listEntitiesQuery d actor g t after limit =
     take (nat limit) (sort_key te_entity_id
       (filter (\<lambda>e. listed d actor g t e \<and> (case after of None \<Rightarrow> True | Some k \<Rightarrow> k < te_entity_id e)) (db_entities (td_store d))))"

definition ListEntities :: "twin_ctx \<Rightarrow> twin_faults \<Rightarrow> twin_db \<Rightarrow> uuid \<Rightarrow> TwinListQuery \<Rightarrow> read_error + TwinListResult" where
  "ListEntities ctx tf d actor q =
     (if actor = uuid_Nil then Inl ErrInvalidInput
      else
        res_bind (tw_check ctx TpReader) (\<lambda>_.
        let limit = (if lq_Limit q \<le> 0 then ContractDefaultLimit else lq_Limit q) in
        if ContractMaxLimit < limit then Inl ErrInvalidInput
        else if lq_GatewayID q \<noteq> None \<and> \<not> ValidateGatewayID (the (lq_GatewayID q)) then Inl ErrInvalidInput
        else if lq_EntityType q \<noteq> None \<and> \<not> EntityType_Valid (the (lq_EntityType q)) then Inl ErrInvalidInput
        else
          res_bind (case lq_After q of
              None \<Rightarrow> Inr None
            | Some c \<Rightarrow>
                if c = [] then Inr None
                else (case ParseListCursor c (lq_GatewayID q) (lq_EntityType q) of
                        Inl _ \<Rightarrow> Inl ErrInvalidCursor
                      | Inr cr \<Rightarrow> (case ValidateListCursor (Some cr) (lq_GatewayID q) (lq_EntityType q) of
                                     Some _ \<Rightarrow> Inl ErrInvalidCursor | None \<Rightarrow> Inr (Some (lc_EntityID cr))))) (\<lambda>after.
          res_bind (twin_rows tf (listEntitiesQuery d actor (lq_GatewayID q) (lq_EntityType q) after (limit + 1))) (\<lambda>rows.
          let items = map (summary_of d) rows in
          if limit < int (length items) then
            (case EncodeListCursor (sm_ID (items ! nat (limit - 1))) (lq_GatewayID q) (lq_EntityType q) of
               Inl e \<Rightarrow> Inl (JoinErr [ErrUnexpected, e])
             | Inr cStr \<Rightarrow> Inr \<lparr>lr_Items = take (nat limit) items, lr_NextCursor = Some cStr\<rparr>)
          else Inr \<lparr>lr_Items = items, lr_NextCursor = None\<rparr>))))"

section \<open>Details\<close>

record RelationshipItem =
  ri_Type :: string
  ri_RelationshipType :: string
  ri_TargetURN :: string
  ri_CreatedAt :: time

record RelationshipPage =
  rpg_RelationshipType :: string
  rpg_Limit :: int
  rpg_Count :: int
  rpg_Partial :: bool
  rpg_NextCursor :: "string option"

record TwinDetailResult =
  dr_ID :: string
  dr_Type :: EntityType
  dr_Name :: string
  dr_Description :: "string option"
  dr_Unit :: "string option"
  dr_GatewayID :: string
  dr_UpdatedAt :: time
  dr_Relationships :: "RelationshipItem list"
  dr_RelationshipPage :: "RelationshipPage option"

definition entity_invalid :: "ResolvedEntity \<Rightarrow> bool" where
  "entity_invalid e \<longleftrightarrow> re_PublicURN e = [] \<or> re_GatewayID e = [] \<or> \<not> EntityType_Valid (re_Type e) \<or> re_InternalID e = uuid_Nil \<or>
     (re_Type e = EntityTypeSensor \<and> re_SensorID e = [])"

definition authorized_source :: "twin_db \<Rightarrow> uuid \<Rightarrow> ResolvedEntity \<Rightarrow> twin_entity list" where
  "authorized_source d actor ent =
     filter (\<lambda>e. te_id e = re_InternalID ent) (filter (\<lambda>e. te_entity_type e = re_Type ent)
       (gateway_entities d actor (re_PublicURN ent) (re_GatewayID ent)))"

text \<open>Some row of \<open>sensors\<close> of this Gateway has the URN.\<close>

definition sensor_exists :: "twin_db \<Rightarrow> string option \<Rightarrow> string \<Rightarrow> bool" where
  "sensor_exists d g urn =
     (case g of
        None \<Rightarrow> False
      | Some x \<Rightarrow>
          (let p = SensorURNPrefix @ x @ '':'' in hasPrefix urn p \<and> db_sensors (td_store d) (x, drop (length p) urn) \<noteq> None))"

text \<open>The related Sensors of a Gateway entity after a URN, in order of their URN: entity and creation time.\<close>

definition related_sensors :: "twin_db \<Rightarrow> twin_entity \<Rightarrow> string option \<Rightarrow> int \<Rightarrow> (string \<times> string \<times> time) list" where
  "related_sensors d src after limit =
     take (nat limit) (sort_key (fst \<circ> snd)
       [(rel_relationship_type r, te_entity_id tgt, td_relationship_created d (rel_source_entity_id r, rel_target_entity_id r)).
          r \<leftarrow> db_relationships (td_store d), tgt \<leftarrow> db_entities (td_store d),
          rel_source_entity_id r = te_id src \<and> rel_relationship_type r = ''hasSensor'' \<and> te_id tgt = rel_target_entity_id r \<and>
          te_entity_type tgt = EntityTypeSensor \<and> te_gateway_id tgt = te_gateway_id src \<and>
          sensor_exists d (te_gateway_id tgt) (te_entity_id tgt) \<and>
          (case after of None \<Rightarrow> True | Some k \<Rightarrow> k < te_entity_id tgt)])"

text \<open>One joined row: the source, and the related Sensor if there is any.\<close>

definition gatewayDetailQuery :: "twin_db \<Rightarrow> uuid \<Rightarrow> ResolvedEntity \<Rightarrow> string option \<Rightarrow> int \<Rightarrow> (twin_entity \<times> (string \<times> string \<times> time) option) list" where
  "gatewayDetailQuery d actor ent after limit =
     concat (map (\<lambda>src. case related_sensors d src after limit of [] \<Rightarrow> [(src, None)] | rs \<Rightarrow> map (\<lambda>r. (src, Some r)) rs)
       (authorized_source d actor ent))"

definition item_of :: "string \<times> string \<times> time \<Rightarrow> RelationshipItem" where
  "item_of r = \<lparr>ri_Type = ''Relationship'', ri_RelationshipType = fst r, ri_TargetURN = fst (snd r), ri_CreatedAt = snd (snd r)\<rparr>"

definition getGatewayDetail ::
  "twin_faults \<Rightarrow> twin_db \<Rightarrow> uuid \<Rightarrow> ResolvedEntity \<Rightarrow> int \<Rightarrow> string option \<Rightarrow> read_error + TwinDetailResult" where
  "getGatewayDetail tf d actor ent relLimit after =
     res_bind (twin_rows tf (gatewayDetailQuery d actor ent after (relLimit + 1))) (\<lambda>rows.
     case rows of
       [] \<Rightarrow> Inl ErrNotFound
     | (src, _) # _ \<Rightarrow>
         (let rawItems = map item_of (List.map_filter snd rows) in
          res_bind
            (if relLimit < int (length rawItems) then
               (let items = take (nat relLimit) rawItems in
                case EncodeRelationshipCursor (re_PublicURN ent) ''hasSensor'' (ri_TargetURN (items ! nat (relLimit - 1))) of
                  Inl e \<Rightarrow> Inl (JoinErr [ErrUnexpected, e])
                | Inr c \<Rightarrow> Inr (items, True, Some c))
             else Inr (rawItems, False, None)) (\<lambda>(items, partial, nextCursor).
          Inr \<lparr>dr_ID = re_PublicURN ent, dr_Type = EntityTypeGateway, dr_Name = td_gateway_name d (the (te_gateway_id src)),
            dr_Description = td_gateway_description d (the (te_gateway_id src)), dr_Unit = None, dr_GatewayID = the (te_gateway_id src),
            dr_UpdatedAt = td_entity_updated d (te_id src), dr_Relationships = items,
            dr_RelationshipPage = Some \<lparr>rpg_RelationshipType = ''hasSensor'', rpg_Limit = relLimit, rpg_Count = int (length items),
              rpg_Partial = partial, rpg_NextCursor = nextCursor\<rparr>\<rparr>)))"

definition sensor_rows :: "twin_db \<Rightarrow> uuid \<Rightarrow> ResolvedEntity \<Rightarrow> twin_entity list" where
  "sensor_rows d actor ent =
     [e. e \<leftarrow> db_entities (td_store d), te_id e = re_InternalID ent \<and> te_entity_id e = re_PublicURN ent \<and> te_entity_type e = EntityTypeSensor \<and>
       (case te_gateway_id e of
          None \<Rightarrow> False
        | Some g \<Rightarrow> db_sensors (td_store d) (g, re_SensorID ent) \<noteq> None \<and> has_parent d (\<lambda>_. True) e \<and>
            g \<in> set (db_gateways (td_store d)) \<and> member_of d actor (Some g))]"

definition getSensorDetail :: "twin_faults \<Rightarrow> twin_db \<Rightarrow> uuid \<Rightarrow> ResolvedEntity \<Rightarrow> read_error + TwinDetailResult" where
  "getSensorDetail tf d actor ent =
     (case query_row (tf_query tf) (sensor_rows d actor ent) of
        Inl e \<Rightarrow> if de_no_rows e then Inl ErrNotFound else Inl (classifyReaderError e)
      | Inr e \<Rightarrow>
          (let g = the (te_gateway_id e) in
           Inr \<lparr>dr_ID = re_PublicURN ent, dr_Type = EntityTypeSensor, dr_Name = td_sensor_name d (g, re_SensorID ent), dr_Description = None,
             dr_Unit = the (db_sensors (td_store d) (g, re_SensorID ent)), dr_GatewayID = g, dr_UpdatedAt = td_entity_updated d (te_id e),
             dr_Relationships = [], dr_RelationshipPage = None\<rparr>))"

definition GetDetail :: "twin_ctx \<Rightarrow> twin_faults \<Rightarrow> twin_db \<Rightarrow> uuid \<Rightarrow> ResolvedEntity \<Rightarrow> TwinDetailQuery \<Rightarrow> read_error + TwinDetailResult" where
  "GetDetail ctx tf d actor ent q =
     (if actor = uuid_Nil then Inl ErrInvalidInput
      else
        res_bind (tw_check ctx TpReader) (\<lambda>_.
        if entity_invalid ent then Inl ErrInvalidInput
        else if dq_EntityID q \<noteq> [] \<and> dq_EntityID q \<noteq> re_PublicURN ent then Inl ErrInvalidInput
        else
          (let relLimit = (if dq_RelationshipLimit q \<le> 0 then ContractDefaultLimit else dq_RelationshipLimit q) in
           if ContractMaxLimit < relLimit then Inl ErrInvalidInput
           else
             res_bind (case dq_RelationshipAfter q of
                 None \<Rightarrow> Inr None
               | Some c \<Rightarrow>
                   if c = [] then Inr None
                   else (case ParseRelationshipCursor c (re_PublicURN ent) of
                           Inl _ \<Rightarrow> Inl ErrInvalidCursor
                         | Inr cr \<Rightarrow>
                             if ValidateRelationshipCursor (Some cr) (re_PublicURN ent) \<noteq> None \<or> rc_RelType cr \<noteq> ''hasSensor'' \<or>
                               rc_SourceURN cr \<noteq> re_PublicURN ent then Inl ErrInvalidCursor
                             else Inr (Some (rc_TargetURN cr)))) (\<lambda>after.
             if re_Type ent = EntityTypeGateway then getGatewayDetail tf d actor ent relLimit after
             else getSensorDetail tf d actor ent))))"

section \<open>States\<close>

record TwinStateResult =
  tr_ID :: string
  tr_Type :: EntityType
  tr_GatewayID :: string
  tr_ReportedState :: jsonb
  tr_DesiredState :: jsonb
  tr_ReportedVersion :: int
  tr_DesiredVersion :: int
  tr_LastReportedAt :: "time option"
  tr_LastDesiredAt :: "time option"
  tr_UpdatedAt :: time

definition scanStateRow :: "twin_faults \<Rightarrow> twin_db \<Rightarrow> ResolvedEntity \<Rightarrow> twin_entity list \<Rightarrow> read_error + TwinStateResult" where
  "scanStateRow tf d ent rows =
     res_bind (twin_rows tf (take 1 rows)) (\<lambda>seen.
     case seen of
       [] \<Rightarrow> Inl ErrNotFound
     | e # _ \<Rightarrow>
         (case db_states (td_store d) (te_id e) of
            None \<Rightarrow> Inl (JoinErr [ErrUnexpected])
          | Some st \<Rightarrow>
              Inr \<lparr>tr_ID = re_PublicURN ent, tr_Type = re_Type ent, tr_GatewayID = re_GatewayID ent, tr_ReportedState = ts_reported_state st,
                tr_DesiredState = ts_desired_state st, tr_ReportedVersion = ts_reported_version st, tr_DesiredVersion = ts_desired_version st,
                tr_LastReportedAt = ts_last_reported_at st, tr_LastDesiredAt = td_last_desired_at d (te_id e), tr_UpdatedAt = ts_updated_at st\<rparr>))"

definition getGatewayState :: "twin_faults \<Rightarrow> twin_db \<Rightarrow> uuid \<Rightarrow> ResolvedEntity \<Rightarrow> read_error + TwinStateResult" where
  "getGatewayState tf d actor ent = scanStateRow tf d ent (authorized_source d actor ent)"

definition getSensorState :: "twin_faults \<Rightarrow> twin_db \<Rightarrow> uuid \<Rightarrow> ResolvedEntity \<Rightarrow> read_error + TwinStateResult" where
  "getSensorState tf d actor ent =
     scanStateRow tf d ent (filter (\<lambda>e. te_entity_type e = re_Type ent \<and> te_gateway_id e = Some (re_GatewayID ent)) (sensor_rows d actor ent))"

definition GetState :: "twin_ctx \<Rightarrow> twin_faults \<Rightarrow> twin_db \<Rightarrow> uuid \<Rightarrow> ResolvedEntity \<Rightarrow> read_error + TwinStateResult" where
  "GetState ctx tf d actor ent =
     (if actor = uuid_Nil then Inl ErrInvalidInput
      else
        res_bind (tw_check ctx TpReader) (\<lambda>_.
        if entity_invalid ent then Inl ErrInvalidInput
        else if re_Type ent = EntityTypeGateway then getGatewayState tf d actor ent
        else getSensorState tf d actor ent))"

section \<open>Preparation and service\<close>

text \<open>What the three preparations of one entity share: resolve it under the deadline, then run the callback.\<close>

definition with_entity ::
  "twin_ctx \<Rightarrow> (ParsedIdentity \<Rightarrow> read_error + ResolvedEntity option) \<Rightarrow> ParsedIdentity \<Rightarrow> (ResolvedEntity \<Rightarrow> read_error + 'a) \<Rightarrow> read_error + 'a" where
  "with_entity ctx resolve parsed fn =
     res_bind (tw_check ctx TpPrepared) (\<lambda>_.
     case resolve parsed of
       Inl err \<Rightarrow> (case ctx TpResolveFailed of Some c \<Rightarrow> Inl (ctx_wrap ErrDependencyUnavailable c) | None \<Rightarrow> Inl err)
     | Inr None \<Rightarrow> Inl ErrNotFound
     | Inr (Some ent) \<Rightarrow>
         res_bind (tw_check ctx TpResolved) (\<lambda>_. after_callback ErrDependencyUnavailable (ctx TpCallbackDone) (fn ent)))"

definition PrepareList ::
  "ReadPreparationConfig \<Rightarrow> twin_ctx \<Rightarrow> uuid \<Rightarrow> TwinListQuery \<Rightarrow> (TwinListQuery \<Rightarrow> read_error + 'a) \<Rightarrow> read_error + 'a" where
  "PrepareList cfg ctx actor q fn =
     (if actor = uuid_Nil then Inl ErrNilActor
      else
        (case ValidateTwinListQuery q (rg_ListMaxLimit cfg) of
           Some e \<Rightarrow> Inl e
         | None \<Rightarrow> res_bind (tw_check ctx TpPrepared) (\<lambda>_. after_callback ErrDependencyUnavailable (ctx TpCallbackDone) (fn q))))"

definition PrepareDetail ::
  "ReadPreparationConfig \<Rightarrow> twin_ctx \<Rightarrow> (uuid \<Rightarrow> ParsedIdentity \<Rightarrow> read_error + ResolvedEntity option) \<Rightarrow> uuid \<Rightarrow> TwinDetailQuery \<Rightarrow>
     (ResolvedEntity \<Rightarrow> TwinDetailQuery \<Rightarrow> read_error + 'a) \<Rightarrow> read_error + 'a" where
  "PrepareDetail cfg ctx resolver actor q fn =
     (if actor = uuid_Nil then Inl ErrNilActor
      else
        (case ValidateTwinDetailQuery q (rg_RelationshipMaxLimit cfg) of
           Some e \<Rightarrow> Inl e
         | None \<Rightarrow>
             (case ParseEntityURN (dq_EntityID q) of
                Inl _ \<Rightarrow> Inl ErrInvalidInput
              | Inr parsed \<Rightarrow> with_entity ctx (resolver actor) parsed (\<lambda>ent. fn ent q))))"

definition PrepareState ::
  "twin_ctx \<Rightarrow> (uuid \<Rightarrow> ParsedIdentity \<Rightarrow> read_error + ResolvedEntity option) \<Rightarrow> uuid \<Rightarrow> TwinStateQuery \<Rightarrow>
     (ResolvedEntity \<Rightarrow> TwinStateQuery \<Rightarrow> read_error + 'a) \<Rightarrow> read_error + 'a" where
  "PrepareState ctx resolver actor q fn =
     (if actor = uuid_Nil then Inl ErrNilActor
      else
        (case ValidateTwinStateQuery q of
           Some e \<Rightarrow> Inl e
         | None \<Rightarrow>
             (case ParseEntityURN (sq_EntityID q) of
                Inl _ \<Rightarrow> Inl ErrInvalidInput
              | Inr parsed \<Rightarrow> with_entity ctx (resolver actor) parsed (\<lambda>ent. fn ent q))))"

definition mapTelemetryHistoryError :: "read_error \<Rightarrow> read_error" where
  "mapTelemetryHistoryError err = (if errors_Is err ErrHistoryInvalidInput then ErrInvalidInput else err)"

definition history_query_invalid :: "ReadPreparationConfig \<Rightarrow> TwinHistoryQuery \<Rightarrow> read_error option" where
  "history_query_invalid cfg q =
     (case ValidateTwinHistoryQuery q of
        Some e \<Rightarrow> Some e
      | None \<Rightarrow>
          if tq_MaxPoints q < rg_HistoryMinPoints cfg \<or> rg_HistoryMaxPoints cfg < tq_MaxPoints q then Some ErrInvalidInput
          else
            (let window = (if rg_HistoryRawWindow cfg \<le> 0 \<or> MaxHistoryRawWindow < rg_HistoryRawWindow cfg then MaxHistoryRawWindow else rg_HistoryRawWindow cfg) in
             map_option mapTelemetryHistoryError
               (ValidateHistoryTimeRange (tq_Range q) (tq_Resolution q) (rg_HistoryMaxRange cfg) window (tq_MaxPoints q))))"

definition PrepareHistory ::
  "ReadPreparationConfig \<Rightarrow> twin_ctx \<Rightarrow> (uuid \<Rightarrow> ParsedIdentity \<Rightarrow> read_error + ResolvedEntity option) \<Rightarrow> uuid \<Rightarrow> TwinHistoryQuery \<Rightarrow>
     (ResolvedEntity \<Rightarrow> TwinHistoryQuery \<Rightarrow> read_error + 'a) \<Rightarrow> read_error + 'a" where
  "PrepareHistory cfg ctx resolver actor q fn =
     (if actor = uuid_Nil then Inl ErrNilActor
      else
        (case history_query_invalid cfg q of
           Some e \<Rightarrow> Inl e
         | None \<Rightarrow>
             (case ParseEntityURN (tq_EntityID q) of
                Inl _ \<Rightarrow> Inl ErrInvalidInput
              | Inr parsed \<Rightarrow>
                  (let window = (if rg_HistoryRawWindow cfg \<le> 0 \<or> MaxHistoryRawWindow < rg_HistoryRawWindow cfg then MaxHistoryRawWindow else rg_HistoryRawWindow cfg) in
                   with_entity ctx (resolver actor) parsed (\<lambda>ent. fn ent (q\<lparr>tq_EffectiveRawWindow := window\<rparr>))))))"

definition ListTwins :: "ReadPreparationConfig \<Rightarrow> twin_ctx \<Rightarrow> twin_faults \<Rightarrow> twin_db \<Rightarrow> uuid \<Rightarrow> TwinListQuery \<Rightarrow> read_error + TwinListResult" where
  "ListTwins cfg ctx tf d actor q = PrepareList cfg ctx actor q (ListEntities ctx tf d actor)"

definition GetTwinDetail ::
  "ReadPreparationConfig \<Rightarrow> twin_ctx \<Rightarrow> twin_faults \<Rightarrow> twin_db \<Rightarrow> twin_db \<Rightarrow> uuid \<Rightarrow> TwinDetailQuery \<Rightarrow> read_error + TwinDetailResult" where
  "GetTwinDetail cfg ctx tf d0 d actor q = PrepareDetail cfg ctx (ResolveEntity tf d0) actor q (GetDetail ctx tf d actor)"

definition GetTwinState :: "twin_ctx \<Rightarrow> twin_faults \<Rightarrow> twin_db \<Rightarrow> twin_db \<Rightarrow> uuid \<Rightarrow> TwinStateQuery \<Rightarrow> read_error + TwinStateResult" where
  "GetTwinState ctx tf d0 d actor q = PrepareState ctx (ResolveEntity tf d0) actor q (\<lambda>ent _. GetState ctx tf d actor ent)"

end
