(* ===== verification/TwinTemporal.thy ===== *)
theory TwinTemporal
  imports TwinRead "HOL-Library.Product_Lexorder"
begin

text \<open>
  Temporal histories of Digital Twin Sensors: the reader of \<open>twin_temporal_values\<close>
  (\<open>digitaltwin/postgres_temporal_reader.go\<close>) and the history operation of the read service
  (\<open>digitaltwin/read_service.go\<close>), which reads \<open>sample_interval_us\<close> here and delegates \<open>value\<close> to the
  telemetry history engine. Each statement sees one snapshot; reads are numbered within a request,
  the raw probe of an automatic resolution being read 0 and the bucket read after it read 1.

  Values are finite doubles. Whether the \<open>?\<close> operator finds \<open>unit\<close> in metadata that is no object (an array
  of strings may hold it) is the parameter \<open>jsonb_nonobject\<close> of the queries.
\<close>

section \<open>Window summaries\<close>

datatype unit_kind = UnitUnknown | UnitMalformed | UnitKnown string | UnitUncounted

record TemporalWindowSummary =
  ws_TotalCount :: int
  ws_NumberCount :: int
  ws_TextCount :: int
  ws_BooleanCount :: int
  ws_InvalidTypeCount :: int
  ws_InvalidIntervalCount :: int
  ws_UnknownUnitCount :: int
  ws_MalformedUnitCount :: int
  ws_DistinctUnitCount :: int
  ws_MinUnit :: "string option"

record TemporalClassification =
  cl_ValueType :: string
  cl_Unit :: "string option"
  cl_IsHomogeneous :: bool
  cl_TotalCount :: int

definition isInvalidSampleInterval :: "rat \<Rightarrow> bool" where
  "isInvalidSampleInterval v \<longleftrightarrow> v \<le> 0 \<or> of_int maxExactFloat64Integer < v \<or> v \<noteq> of_int \<lfloor>v\<rfloor>"

definition non_null_values :: "temporal_row \<Rightarrow> nat" where
  "non_null_values r =
     (if tv_value_number r \<noteq> None then 1 else 0) + (if tv_value_text r \<noteq> None then 1 else 0) + (if tv_value_boolean r \<noteq> None then 1 else 0)"

type_synonym jsonb_nonobject = "temporal_row \<Rightarrow> bool"

text \<open>What the predicates of the summary on \<open>metadata\<close> say about a row.\<close>

definition sql_unit :: "jsonb_nonobject \<Rightarrow> temporal_row \<Rightarrow> unit_kind" where
  "sql_unit J r =
     (case tv_metadata r of
        JObject m \<Rightarrow>
          (case m ''unit'' of
             None \<Rightarrow> UnitUnknown
           | Some JNull \<Rightarrow> UnitUnknown
           | Some (JString u) \<Rightarrow> UnitKnown u
           | Some _ \<Rightarrow> UnitMalformed)
      | JNotObject \<Rightarrow> if J r then UnitUncounted else UnitUnknown)"

definition count_if :: "('a \<Rightarrow> bool) \<Rightarrow> 'a list \<Rightarrow> int" where
  "count_if P xs = int (length (filter P xs))"

definition known_units :: "jsonb_nonobject \<Rightarrow> temporal_row list \<Rightarrow> string list" where
  "known_units J rs = concat (map (\<lambda>r. case sql_unit J r of UnitKnown u \<Rightarrow> [u] | _ \<Rightarrow> []) rs)"

text \<open>\<open>MIN\<close> of the units; which one it is only matters when all are equal.\<close>

definition window_summary :: "jsonb_nonobject \<Rightarrow> temporal_row list \<Rightarrow> TemporalWindowSummary" where
  "window_summary J rs =
     \<lparr>ws_TotalCount = int (length rs),
      ws_NumberCount = count_if (\<lambda>r. tv_value_number r \<noteq> None) rs,
      ws_TextCount = count_if (\<lambda>r. tv_value_text r \<noteq> None) rs,
      ws_BooleanCount = count_if (\<lambda>r. tv_value_boolean r \<noteq> None) rs,
      ws_InvalidTypeCount = count_if (\<lambda>r. non_null_values r \<noteq> 1) rs,
      ws_InvalidIntervalCount = count_if (\<lambda>r. case tv_value_number r of None \<Rightarrow> False | Some v \<Rightarrow> isInvalidSampleInterval v) rs,
      ws_UnknownUnitCount = count_if (\<lambda>r. sql_unit J r = UnitUnknown) rs,
      ws_MalformedUnitCount = count_if (\<lambda>r. sql_unit J r = UnitMalformed) rs,
      ws_DistinctUnitCount = int (length (remdups (known_units J rs))),
      ws_MinUnit = (case sort (known_units J rs) of [] \<Rightarrow> None | u # _ \<Rightarrow> Some u)\<rparr>"

definition classifyTemporalWindow :: "TemporalWindowSummary option \<Rightarrow> string \<Rightarrow> read_error + TemporalClassification" where
  "classifyTemporalWindow summary propertyName =
     (case summary of
        None \<Rightarrow> Inr \<lparr>cl_ValueType = [], cl_Unit = None, cl_IsHomogeneous = True, cl_TotalCount = 0\<rparr>
      | Some s \<Rightarrow>
          if ws_TotalCount s = 0 then Inr \<lparr>cl_ValueType = [], cl_Unit = None, cl_IsHomogeneous = True, cl_TotalCount = 0\<rparr>
          else if 0 < ws_InvalidTypeCount s then Inl (JoinErr [ErrUnexpected])
          else if 0 < ws_MalformedUnitCount s then Inl (JoinErr [ErrUnexpected])
          else
            res_bind
              (if ws_NumberCount s = ws_TotalCount s then Inr ''number''
               else if ws_TextCount s = ws_TotalCount s then Inr ''text''
               else if ws_BooleanCount s = ws_TotalCount s then Inr ''boolean''
               else Inl (JoinErr [ErrUnexpected])) (\<lambda>valType.
            res_bind (reject_if (propertyName = SelectorSampleIntervalUS \<and> valType \<noteq> ''number'') (JoinErr [ErrUnexpected])) (\<lambda>_.
            res_bind (reject_if (propertyName = SelectorSampleIntervalUS \<and> 0 < ws_InvalidIntervalCount s) (JoinErr [ErrUnexpected])) (\<lambda>_.
            if ws_UnknownUnitCount s = ws_TotalCount s then
              Inr \<lparr>cl_ValueType = valType, cl_Unit = None, cl_IsHomogeneous = True, cl_TotalCount = ws_TotalCount s\<rparr>
            else if ws_UnknownUnitCount s = 0 \<and> ws_DistinctUnitCount s = 1 then
              Inr \<lparr>cl_ValueType = valType, cl_Unit = ws_MinUnit s, cl_IsHomogeneous = True, cl_TotalCount = ws_TotalCount s\<rparr>
            else if valType = ''number'' then Inl ErrInconsistentUnit
            else Inr \<lparr>cl_ValueType = valType, cl_Unit = None, cl_IsHomogeneous = False, cl_TotalCount = ws_TotalCount s\<rparr>))))"

section \<open>Queries\<close>

text \<open>The Sensor's entity with its Gateway and relationship, for a member: at most one row, \<open>twin_entities.id\<close> being the key.\<close>

definition authorized_temporal :: "twin_db \<Rightarrow> uuid \<Rightarrow> ResolvedEntity \<Rightarrow> twin_entity list" where
  "authorized_temporal d actor ent =
     filter (\<lambda>e. te_id e = re_InternalID ent \<and> te_entity_id e = SensorURNPrefix @ re_GatewayID ent @ '':'' @ re_SensorID ent)
       (sensor_entities d actor (\<lambda>pe. te_entity_id pe = GatewayURNPrefix @ re_GatewayID ent) (re_PublicURN ent) (re_GatewayID ent) (re_SensorID ent))"

definition temporal_in :: "twin_db \<Rightarrow> uuid \<Rightarrow> string \<Rightarrow> time \<Rightarrow> time \<Rightarrow> temporal_row list" where
  "temporal_in d x propertyName f t =
     filter (\<lambda>r. tv_entity_id r = x \<and> tv_property_name r = propertyName \<and> f \<le> tv_observed_at r \<and> tv_observed_at r < t) (db_temporal (td_store d))"

text \<open>\<open>ORDER BY observed_at ASC, message_id ASC NULLS LAST\<close>; rows equal in both keep the order of the table.\<close>

definition temporal_key :: "temporal_row \<Rightarrow> time \<times> nat \<times> uuid" where
  "temporal_key r = (tv_observed_at r, (case tv_message_id r of Some m \<Rightarrow> (0, m) | None \<Rightarrow> (1, 0)))"

definition ordered_temporal :: "temporal_row list \<Rightarrow> temporal_row list" where
  "ordered_temporal rs = sort_key temporal_key rs"

definition rawTemporalHistoryQuery ::
  "jsonb_nonobject \<Rightarrow> twin_db \<Rightarrow> uuid \<Rightarrow> ResolvedEntity \<Rightarrow> string \<Rightarrow> time \<Rightarrow> time \<Rightarrow> int \<Rightarrow> (temporal_row option \<times> TemporalWindowSummary) list" where
  "rawTemporalHistoryQuery J d actor ent propertyName f t limit =
     (case authorized_temporal d actor ent of
        [] \<Rightarrow> []
      | src # _ \<Rightarrow>
          (let rs = temporal_in d (te_id src) propertyName f t; s = window_summary J rs in
           case take (nat limit) (ordered_temporal rs) of
             [] \<Rightarrow> [(None, s)]
           | bs \<Rightarrow> map (\<lambda>r. (Some r, s)) bs))"

record temporal_bucket =
  tb_bucket_start :: time
  tb_avg_value :: "rat option"
  tb_min_value :: "rat option"
  tb_max_value :: "rat option"
  tb_sample_count :: "int option"

definition numbers :: "temporal_row list \<Rightarrow> rat list" where
  "numbers rs = List.map_filter tv_value_number rs"

text \<open>\<open>AVG\<close>, \<open>MIN\<close> and \<open>MAX\<close> ignore \<open>NULL\<close> and are \<open>NULL\<close> without a value; \<open>COUNT(*)\<close> counts every row.\<close>

definition temporal_bucket_of :: "sql_funcs \<Rightarrow> duration \<Rightarrow> temporal_row list \<Rightarrow> time \<Rightarrow> temporal_bucket" where
  "temporal_bucket_of F w rs b =
     (let G = filter (\<lambda>r. sf_time_bucket F w (tv_observed_at r) = b) rs; vs = numbers G in
      \<lparr>tb_bucket_start = b, tb_avg_value = (if vs = [] then None else Some (sf_avg F vs)), tb_min_value = (if vs = [] then None else Some (list_min vs)),
       tb_max_value = (if vs = [] then None else Some (list_max vs)), tb_sample_count = Some (int (length G))\<rparr>)"

definition temporal_starts :: "sql_funcs \<Rightarrow> duration \<Rightarrow> temporal_row list \<Rightarrow> time list" where
  "temporal_starts F w rs = sort (remdups (map (\<lambda>r. sf_time_bucket F w (tv_observed_at r)) rs))"

definition bucketTemporalHistoryQuery ::
  "sql_funcs \<Rightarrow> jsonb_nonobject \<Rightarrow> twin_db \<Rightarrow> uuid \<Rightarrow> ResolvedEntity \<Rightarrow> string \<Rightarrow> time \<Rightarrow> time \<Rightarrow> duration \<Rightarrow> int \<Rightarrow>
     (temporal_bucket option \<times> TemporalWindowSummary) list" where
  "bucketTemporalHistoryQuery F J d actor ent propertyName f t w limit =
     (case authorized_temporal d actor ent of
        [] \<Rightarrow> []
      | src # _ \<Rightarrow>
          (let rs = temporal_in d (te_id src) propertyName f t; s = window_summary J rs in
           case take (nat limit) (temporal_starts F w rs) of
             [] \<Rightarrow> [(None, s)]
           | bs \<Rightarrow> map (\<lambda>b. (Some (temporal_bucket_of F w rs b), s)) bs))"

section \<open>Row loops\<close>

datatype tmp_point = TmStart | TmInternal | TmRead nat | TmRow nat nat | TmRowsDone nat

type_synonym tmp_ctx = "tmp_point \<Rightarrow> ctx_error option"

definition tm_check :: "tmp_ctx \<Rightarrow> tmp_point \<Rightarrow> read_error + unit" where
  "tm_check ctx p = (case ctx p of None \<Rightarrow> Inr () | Some c \<Rightarrow> Inl (ctx_wrap ErrDependencyUnavailable c))"

record TemporalSamplePoint =
  tp_ObservedAt :: time
  tp_ValueType :: string
  tp_ValueNumber :: "rat option"
  tp_ValueText :: "string option"
  tp_ValueBoolean :: "bool option"
  tp_Metadata :: jsonb
  tp_MessageID :: "uuid option"

text \<open>
  One pass: context, \<open>Scan\<close>, the summary of the first row, then the row itself (skipped, appended or refused).
\<close>

fun temporal_loop ::
  "(nat \<Rightarrow> ctx_error option) \<Rightarrow> (nat \<Rightarrow> driver_error option) \<Rightarrow> (TemporalWindowSummary \<Rightarrow> 'r \<Rightarrow> read_error + 'p option) \<Rightarrow> nat \<Rightarrow>
     ('r option \<times> TemporalWindowSummary) list \<Rightarrow> TemporalWindowSummary option \<Rightarrow> 'p list \<Rightarrow> read_error + 'p list \<times> TemporalWindowSummary option" where
  "temporal_loop ctx sc f k [] summary points = Inr (points, summary)"
| "temporal_loop ctx sc f k ((row, s) # rows) summary points =
     (case ctx k of
        Some c \<Rightarrow> Inl (ctx_wrap ErrDependencyUnavailable c)
      | None \<Rightarrow>
          (case sc k of
             Some e \<Rightarrow> Inl (classifyReaderError e)
           | None \<Rightarrow>
               (let s' = (case summary of None \<Rightarrow> s | Some s0 \<Rightarrow> s0) in
                case row of
                  None \<Rightarrow> temporal_loop ctx sc f (Suc k) rows (Some s') points
                | Some r \<Rightarrow>
                    (case f s' r of
                       Inl e \<Rightarrow> Inl e
                     | Inr None \<Rightarrow> temporal_loop ctx sc f (Suc k) rows (Some s') points
                     | Inr (Some p) \<Rightarrow> temporal_loop ctx sc f (Suc k) rows (Some s') (points @ [p])))))"

text \<open>\<open>Query\<close>, the loop, \<open>rows.Err\<close>, the last look at the context; no row at all is \<open>ErrNotFound\<close>.\<close>

definition scan_temporal ::
  "tmp_ctx \<Rightarrow> read_faults \<Rightarrow> nat \<Rightarrow> ('r option \<times> TemporalWindowSummary) list \<Rightarrow> (TemporalWindowSummary \<Rightarrow> 'r \<Rightarrow> read_error + 'p option) \<Rightarrow>
     read_error + 'p list \<times> TemporalWindowSummary" where
  "scan_temporal ctx rf k rows f =
     (case rf_query rf k of
        Some e \<Rightarrow> Inl (classifyReaderError e)
      | None \<Rightarrow>
          (let seen = (case rf_stop rf k of None \<Rightarrow> rows | Some (n, _) \<Rightarrow> take n rows) in
           res_bind (temporal_loop (\<lambda>i. ctx (TmRow k i)) (rf_scan rf k) f 0 seen None []) (\<lambda>(points, summary).
           case rf_stop rf k of
             Some (_, e) \<Rightarrow> Inl (classifyReaderError e)
           | None \<Rightarrow>
               res_bind (tm_check ctx (TmRowsDone k)) (\<lambda>_.
               case summary of None \<Rightarrow> Inl ErrNotFound | Some s \<Rightarrow> Inr (points, s)))))"

definition temporal_point :: "TemporalWindowSummary \<Rightarrow> temporal_row \<Rightarrow> read_error + TemporalSamplePoint option" where
  "temporal_point s r =
     (if non_null_values r \<noteq> 1 then Inl (JoinErr [ErrUnexpected])
      else Inr (Some \<lparr>tp_ObservedAt = tv_observed_at r,
        tp_ValueType = (if tv_value_boolean r \<noteq> None then ''boolean'' else if tv_value_text r \<noteq> None then ''text'' else ''number''),
        tp_ValueNumber = tv_value_number r, tp_ValueText = tv_value_text r, tp_ValueBoolean = tv_value_boolean r,
        tp_Metadata = tv_metadata r, tp_MessageID = tv_message_id r\<rparr>))"

definition temporal_bucket_point :: "TemporalWindowSummary \<Rightarrow> temporal_bucket \<Rightarrow> read_error + BucketSamplePoint option" where
  "temporal_bucket_point s b =
     (case (tb_avg_value b, tb_min_value b, tb_max_value b, tb_sample_count b) of
        (Some a, Some lo, Some hi, Some n) \<Rightarrow> Inr (Some \<lparr>bp_BucketStart = tb_bucket_start b, bp_Avg = a, bp_Min = lo, bp_Max = hi, bp_Count = n\<rparr>)
      | _ \<Rightarrow> if ws_NumberCount s = ws_TotalCount s then Inl (JoinErr [ErrUnexpected]) else Inr None)"


text \<open>
  The summaries derived from points when the columns of the summary were not filled. With the queries
  above this never happens. \<open>json.Unmarshal\<close> of a non-object into a map fails.
\<close>

definition inspectMetadataUnit :: "jsonb \<Rightarrow> unit_kind" where
  "inspectMetadataUnit metadata =
     (case metadata of
        JObject m \<Rightarrow>
          (case m ''unit'' of
             None \<Rightarrow> UnitUnknown
           | Some JNull \<Rightarrow> UnitUnknown
           | Some (JString u) \<Rightarrow> UnitKnown u
           | Some _ \<Rightarrow> UnitMalformed)
      | JNotObject \<Rightarrow> UnitMalformed)"

definition populateSummaryFromPoints :: "TemporalWindowSummary \<Rightarrow> TemporalSamplePoint list \<Rightarrow> TemporalWindowSummary" where
  "populateSummaryFromPoints s points =
     (let units = concat (map (\<lambda>p. case inspectMetadataUnit (tp_Metadata p) of UnitKnown u \<Rightarrow> [u] | _ \<Rightarrow> []) points) in
      s\<lparr>ws_TotalCount := int (length points),
        ws_NumberCount := ws_NumberCount s + count_if (\<lambda>p. tp_ValueType p = ''number'') points,
        ws_TextCount := ws_TextCount s + count_if (\<lambda>p. tp_ValueType p = ''text'') points,
        ws_BooleanCount := ws_BooleanCount s + count_if (\<lambda>p. tp_ValueType p = ''boolean'') points,
        ws_InvalidTypeCount := ws_InvalidTypeCount s + count_if (\<lambda>p. tp_ValueType p = ''number'' \<and> tp_ValueNumber p = None \<or>
          tp_ValueType p \<notin> {''number'', ''text'', ''boolean''}) points,
        ws_InvalidIntervalCount := ws_InvalidIntervalCount s + count_if (\<lambda>p. tp_ValueType p = ''number'' \<and>
          (case tp_ValueNumber p of None \<Rightarrow> False | Some v \<Rightarrow> isInvalidSampleInterval v)) points,
        ws_UnknownUnitCount := ws_UnknownUnitCount s + count_if (\<lambda>p. inspectMetadataUnit (tp_Metadata p) = UnitUnknown) points,
        ws_MalformedUnitCount := ws_MalformedUnitCount s + count_if (\<lambda>p. inspectMetadataUnit (tp_Metadata p) = UnitMalformed) points,
        ws_DistinctUnitCount := int (length (remdups units)),
        ws_MinUnit := fold (\<lambda>u m. case m of None \<Rightarrow> Some u | Some v \<Rightarrow> if u < v then Some u else Some v) units (ws_MinUnit s)\<rparr>)"

definition populateSummaryFromBuckets :: "TemporalWindowSummary \<Rightarrow> BucketSamplePoint list \<Rightarrow> TemporalWindowSummary" where
  "populateSummaryFromBuckets s buckets =
     (let n = sum_list (map bp_Count buckets) in s\<lparr>ws_TotalCount := ws_TotalCount s + n, ws_NumberCount := ws_NumberCount s + n\<rparr>)"

definition scanTemporalRows ::
  "tmp_ctx \<Rightarrow> read_faults \<Rightarrow> nat \<Rightarrow> (temporal_row option \<times> TemporalWindowSummary) list \<Rightarrow> read_error + TemporalSamplePoint list \<times> TemporalWindowSummary" where
  "scanTemporalRows ctx rf k rows =
     res_bind (scan_temporal ctx rf k rows temporal_point) (\<lambda>(points, s).
     Inr (points, if ws_TotalCount s = 0 \<and> points \<noteq> [] then populateSummaryFromPoints s points else s))"

definition scanTemporalBucketRows ::
  "tmp_ctx \<Rightarrow> read_faults \<Rightarrow> nat \<Rightarrow> (temporal_bucket option \<times> TemporalWindowSummary) list \<Rightarrow> read_error + BucketSamplePoint list \<times> TemporalWindowSummary" where
  "scanTemporalBucketRows ctx rf k rows =
     res_bind (scan_temporal ctx rf k rows temporal_bucket_point) (\<lambda>(buckets, s).
     Inr (buckets, if ws_TotalCount s = 0 \<and> buckets \<noteq> [] then populateSummaryFromBuckets s buckets else s))"

section \<open>The reader\<close>

text \<open>What both reads check first.\<close>

definition read_guard :: "tmp_ctx \<Rightarrow> nat \<Rightarrow> uuid \<Rightarrow> ResolvedEntity \<Rightarrow> int \<Rightarrow> read_error + unit" where
  "read_guard ctx k actor ent maxPoints =
     res_bind (reject_if (actor = uuid_Nil) ErrNilActor) (\<lambda>_.
     res_bind (tm_check ctx (TmRead k)) (\<lambda>_.
     res_bind (reject_if (re_Type ent \<noteq> EntityTypeSensor) ErrInvalidProperty) (\<lambda>_.
     reject_if (maxPoints \<le> 0) ErrInvalidInput)))"

definition readTemporalDataInternal ::
  "jsonb_nonobject \<Rightarrow> tmp_ctx \<Rightarrow> read_faults \<Rightarrow> nat \<Rightarrow> twin_db \<Rightarrow> uuid \<Rightarrow> ResolvedEntity \<Rightarrow> string \<Rightarrow> time \<Rightarrow> time \<Rightarrow> int \<Rightarrow>
     read_error + TemporalSamplePoint list \<times> TemporalWindowSummary" where
  "readTemporalDataInternal J ctx rf k d actor ent propertyName f t maxPoints =
     res_bind (read_guard ctx k actor ent maxPoints) (\<lambda>_.
     scanTemporalRows ctx rf k
       (rawTemporalHistoryQuery J d actor ent propertyName (pg_timestamptz f) (pg_timestamptz t) (i64 (maxPoints + 1))))"

definition readTemporalBucketInternal ::
  "sql_funcs \<Rightarrow> jsonb_nonobject \<Rightarrow> tmp_ctx \<Rightarrow> read_faults \<Rightarrow> nat \<Rightarrow> twin_db \<Rightarrow> uuid \<Rightarrow> ResolvedEntity \<Rightarrow> string \<Rightarrow> time \<Rightarrow> time \<Rightarrow> duration \<Rightarrow> int \<Rightarrow>
     read_error + BucketSamplePoint list \<times> TemporalWindowSummary" where
  "readTemporalBucketInternal F J ctx rf k d actor ent propertyName f t bucketWidth maxPoints =
     res_bind (read_guard ctx k actor ent maxPoints) (\<lambda>_.
     scanTemporalBucketRows ctx rf k
       (bucketTemporalHistoryQuery F J d actor ent propertyName (pg_timestamptz f) (pg_timestamptz t) (duration_Microseconds bucketWidth * 1000)
         (i64 (maxPoints + 1))))"

record TwinHistoryResult =
  th_EntityID :: string
  th_Property :: HistorySelector
  th_Unit :: "string option"
  th_From :: time
  th_To :: time
  th_Mode :: string
  th_Resolution :: string
  th_PointCount :: int
  th_TelemetryResult :: "TelemetryHistoryResult option"
  th_TemporalPoints :: "TemporalSamplePoint list"
  th_TemporalBuckets :: "BucketSamplePoint list"

definition interval_point_bad :: "TemporalSamplePoint \<Rightarrow> bool" where
  "interval_point_bad p =
     (case tp_ValueNumber p of None \<Rightarrow> True | Some v \<Rightarrow> tp_ValueType p \<noteq> ''number'' \<or> isInvalidSampleInterval v)"

text \<open>A raw answer: every point of an interval series is looked at again.\<close>

definition raw_answer ::
  "ResolvedEntity \<Rightarrow> string \<Rightarrow> TwinHistoryQuery \<Rightarrow> TemporalClassification \<Rightarrow> TemporalSamplePoint list \<Rightarrow> read_error + TwinHistoryResult" where
  "raw_answer ent propertyName q cl points =
     (if propertyName = SelectorSampleIntervalUS \<and> list_ex interval_point_bad points then Inl (JoinErr [ErrUnexpected])
      else Inr \<lparr>th_EntityID = re_PublicURN ent, th_Property = propertyName, th_Unit = cl_Unit cl, th_From = tg_From (tq_Range q), th_To = tg_To (tq_Range q),
        th_Mode = ''raw'', th_Resolution = ''raw'', th_PointCount = int (length points), th_TelemetryResult = None,
        th_TemporalPoints = points, th_TemporalBuckets = []\<rparr>)"

text \<open>A bucket read, its classification and the answer; \<open>nonNumeric\<close> is the error for text and boolean series.\<close>

definition bucket_answer ::
  "sql_funcs \<Rightarrow> jsonb_nonobject \<Rightarrow> tmp_ctx \<Rightarrow> read_faults \<Rightarrow> nat \<Rightarrow> twin_db \<Rightarrow> uuid \<Rightarrow> ResolvedEntity \<Rightarrow> string \<Rightarrow> TwinHistoryQuery \<Rightarrow>
     Resolution \<Rightarrow> duration \<Rightarrow> read_error \<Rightarrow> read_error + TwinHistoryResult" where
  "bucket_answer F J ctx rf k d actor ent propertyName q res dur nonNumeric =
     res_bind (readTemporalBucketInternal F J ctx rf k d actor ent propertyName (tg_From (tq_Range q)) (tg_To (tq_Range q)) dur (tq_MaxPoints q))
       (\<lambda>(buckets, s).
     res_bind (classifyTemporalWindow (Some s) propertyName) (\<lambda>cl.
     if 0 < cl_TotalCount cl \<and> cl_ValueType cl \<noteq> ''number'' then Inl nonNumeric
     else if tq_MaxPoints q < int (length buckets) then Inl ErrHistoryResolutionTooFine
     else Inr \<lparr>th_EntityID = re_PublicURN ent, th_Property = propertyName, th_Unit = cl_Unit cl, th_From = tg_From (tq_Range q), th_To = tg_To (tq_Range q),
       th_Mode = ''bucket'', th_Resolution = res, th_PointCount = int (length buckets), th_TelemetryResult = None,
       th_TemporalPoints = [], th_TemporalBuckets = buckets\<rparr>))"

definition auto_buckets ::
  "sql_funcs \<Rightarrow> jsonb_nonobject \<Rightarrow> tmp_ctx \<Rightarrow> read_faults \<Rightarrow> twin_db \<Rightarrow> uuid \<Rightarrow> ResolvedEntity \<Rightarrow> string \<Rightarrow> TwinHistoryQuery \<Rightarrow> read_error + TwinHistoryResult" where
  "auto_buckets F J ctx rf d actor ent propertyName q =
     (case SelectAutoBucketResolution (tg_From (tq_Range q)) (tg_To (tq_Range q)) (tq_MaxPoints q) of
        Inl _ \<Rightarrow> Inl ErrHistoryResolutionTooFine
      | Inr chosen \<Rightarrow>
          (case ResolutionDuration chosen of
             None \<Rightarrow> Inl ErrHistoryResolutionTooFine
           | Some dur \<Rightarrow> bucket_answer F J ctx rf 1 d actor ent propertyName q chosen dur ErrHistoryRawLimitExceeded))"

definition effective_raw_window :: "duration \<Rightarrow> duration" where
  "effective_raw_window w = (if w \<le> 0 \<or> MaxHistoryRawWindow < w then MaxHistoryRawWindow else w)"

definition readTemporalHistoryInternal ::
  "sql_funcs \<Rightarrow> jsonb_nonobject \<Rightarrow> tmp_ctx \<Rightarrow> read_faults \<Rightarrow> (nat \<Rightarrow> twin_db) \<Rightarrow> uuid \<Rightarrow> ResolvedEntity \<Rightarrow> string \<Rightarrow> TwinHistoryQuery \<Rightarrow>
     read_error + TwinHistoryResult" where
  "readTemporalHistoryInternal F J ctx rf dbs actor ent propertyName q =
     (let f = tg_From (tq_Range q); t = tg_To (tq_Range q); res = tq_Resolution q; window = effective_raw_window (tq_EffectiveRawWindow q);
          diffMicros = duration_Microseconds (sat64 (t - f)) in
      res_bind (reject_if (actor = uuid_Nil) ErrNilActor) (\<lambda>_.
      res_bind (tm_check ctx TmInternal) (\<lambda>_.
      res_bind (reject_if (re_Type ent \<noteq> EntityTypeSensor) ErrInvalidProperty) (\<lambda>_.
      res_bind (reject_if (tq_MaxPoints q \<le> 0) ErrInvalidInput) (\<lambda>_.
      res_bind (reject_if (\<not> f < t) ErrInvalidInput) (\<lambda>_.
      res_bind (reject_if (\<not> Resolution_Valid res) (JoinErr [ErrHistoryInvalidResolution])) (\<lambda>_.
      if res = ResolutionRaw then
        (if duration_Microseconds window < diffMicros then Inl ErrHistoryRawLimitExceeded
         else
           res_bind (readTemporalDataInternal J ctx rf 0 (dbs 0) actor ent propertyName f t (tq_MaxPoints q)) (\<lambda>(points, s).
           res_bind (classifyTemporalWindow (Some s) propertyName) (\<lambda>cl.
           if tq_MaxPoints q < int (length points) \<or> tq_MaxPoints q < ws_TotalCount s then Inl ErrHistoryRawLimitExceeded
           else raw_answer ent propertyName q cl points)))
      else if res = ResolutionAuto then
        (if diffMicros \<le> duration_Microseconds window then
           res_bind (readTemporalDataInternal J ctx rf 0 (dbs 0) actor ent propertyName f t (tq_MaxPoints q)) (\<lambda>(points, s).
           res_bind (classifyTemporalWindow (Some s) propertyName) (\<lambda>cl.
           if int (length points) \<le> tq_MaxPoints q \<and> ws_TotalCount s \<le> tq_MaxPoints q then raw_answer ent propertyName q cl points
           else if cl_ValueType cl \<noteq> ''number'' then Inl ErrHistoryRawLimitExceeded
           else auto_buckets F J ctx rf (dbs 1) actor ent propertyName q))
         else auto_buckets F J ctx rf (dbs 1) actor ent propertyName q)
      else
        (case ResolutionDuration res of
           None \<Rightarrow> Inl (JoinErr [ErrHistoryInvalidResolution])
         | Some dur \<Rightarrow>
             (case IntersectingBucketCount f t dur of
                Inl _ \<Rightarrow> Inl ErrInvalidInput
              | Inr n \<Rightarrow>
                  if tq_MaxPoints q < n then Inl ErrHistoryResolutionTooFine
                  else bucket_answer F J ctx rf 0 (dbs 0) actor ent propertyName q res dur ErrHistoryInvalidResolution)))))))))"

definition ReadTemporalHistory ::
  "sql_funcs \<Rightarrow> jsonb_nonobject \<Rightarrow> tmp_ctx \<Rightarrow> read_faults \<Rightarrow> (nat \<Rightarrow> twin_db) \<Rightarrow> uuid \<Rightarrow> ResolvedEntity \<Rightarrow> TwinHistoryQuery \<Rightarrow> read_error + TwinHistoryResult" where
  "ReadTemporalHistory F J ctx rf dbs actor ent q =
     res_bind (reject_if (actor = uuid_Nil) ErrNilActor) (\<lambda>_.
     res_bind (tm_check ctx TmStart) (\<lambda>_.
     res_bind (reject_if (re_Type ent \<noteq> EntityTypeSensor) ErrInvalidProperty) (\<lambda>_.
     res_bind (reject_if (tq_Property q \<noteq> SelectorSampleIntervalUS) ErrInvalidProperty) (\<lambda>_.
     readTemporalHistoryInternal F J ctx rf dbs actor ent (tq_Property q) q))))"

section \<open>The history operation of the service\<close>

definition mapTelemetryDelegationError :: "read_error \<Rightarrow> read_error" where
  "mapTelemetryDelegationError err =
     (let tagged = (\<lambda>e. if errors_Is err e then err else JoinErr [e, err]) in
      if list_ex (errors_Is err) [ErrHistoryRangeTooLarge, ErrHistoryInvalidResolution, ErrHistoryRawLimitExceeded, ErrHistoryResolutionTooFine] then err
      else if errors_Is err ErrNotFound \<or> errors_Is err ErrHistoryNotFound then tagged ErrNotFound
      else if errors_Is err ErrDependencyUnavailable \<or> errors_Is err ErrHistoryDependency \<or> errors_Is err (ContextErr Canceled) \<or>
        errors_Is err (ContextErr DeadlineExceeded) then tagged ErrDependencyUnavailable
      else if errors_Is err ErrInvalidInput \<or> errors_Is err ErrHistoryInvalidInput then tagged ErrInvalidInput
      else if errors_Is err ErrNilActor \<or> errors_Is err ErrHistoryNilActor then tagged ErrNilActor
      else tagged ErrUnexpected)"

definition delegateTelemetryHistory ::
  "twin_ctx \<Rightarrow> (uuid \<Rightarrow> TelemetryHistoryQuery \<Rightarrow> read_error + TelemetryHistoryResult) \<Rightarrow> uuid \<Rightarrow> ResolvedEntity \<Rightarrow> TwinHistoryQuery \<Rightarrow>
     read_error + TwinHistoryResult" where
  "delegateTelemetryHistory ctx delegate actor ent q =
     res_bind (tw_check ctx TpDelegate) (\<lambda>_.
     let r = delegate actor \<lparr>hq_GatewayID = re_GatewayID ent, hq_SensorID = re_SensorID ent, hq_Range = tq_Range q, hq_Resolution = tq_Resolution q,
           hq_MaxPoints = tq_MaxPoints q\<rparr> in
     case ctx TpDelegated of
       Some c \<Rightarrow>
         (case r of
            Inl e \<Rightarrow> if \<not> errors_Is e (ContextErr c) then Inl (JoinErr [ErrDependencyUnavailable, ContextErr c, e]) else Inl (ctx_wrap ErrDependencyUnavailable c)
          | Inr _ \<Rightarrow> Inl (ctx_wrap ErrDependencyUnavailable c))
     | None \<Rightarrow>
         (case r of
            Inl e \<Rightarrow> Inl (mapTelemetryDelegationError e)
          | Inr tr \<Rightarrow>
              Inr \<lparr>th_EntityID = re_PublicURN ent, th_Property = SelectorValue, th_Unit = hr_Unit tr, th_From = hr_From tr, th_To = hr_To tr,
                th_Mode = hr_Mode tr, th_Resolution = hr_Resolution tr, th_PointCount = hr_PointCount tr, th_TelemetryResult = Some tr,
                th_TemporalPoints = [], th_TemporalBuckets = []\<rparr>))"

definition GetTwinHistory ::
  "ReadPreparationConfig \<Rightarrow> twin_ctx \<Rightarrow> twin_faults \<Rightarrow> twin_db \<Rightarrow> (uuid \<Rightarrow> ResolvedEntity \<Rightarrow> TwinHistoryQuery \<Rightarrow> read_error + TwinHistoryResult) \<Rightarrow>
     (uuid \<Rightarrow> TelemetryHistoryQuery \<Rightarrow> read_error + TelemetryHistoryResult) \<Rightarrow> uuid \<Rightarrow> TwinHistoryQuery \<Rightarrow> read_error + TwinHistoryResult" where
  "GetTwinHistory cfg ctx tf d0 reader delegate actor q =
     PrepareHistory cfg ctx (ResolveEntity tf d0) actor q (\<lambda>ent validatedQ.
       if tq_Property validatedQ = SelectorSampleIntervalUS then reader actor ent validatedQ
       else if tq_Property validatedQ = SelectorValue then delegateTelemetryHistory ctx delegate actor ent validatedQ
       else Inl ErrInvalidProperty)"

text \<open>The service as the server wires it: the temporal reader and the telemetry history engine on the same database.\<close>

definition twin_history ::
  "ReadPreparationConfig \<Rightarrow> HistoryPreparationConfig \<Rightarrow> sql_funcs \<Rightarrow> jsonb_nonobject \<Rightarrow> twin_ctx \<Rightarrow> tmp_ctx \<Rightarrow> hist_ctx \<Rightarrow> twin_faults \<Rightarrow> read_faults \<Rightarrow>
     twin_db \<Rightarrow> (nat \<Rightarrow> twin_db) \<Rightarrow> uuid \<Rightarrow> TwinHistoryQuery \<Rightarrow> read_error + TwinHistoryResult" where
  "twin_history cfg hcfg F J ctx tctx hctx tf rf d0 dbs =
     GetTwinHistory cfg ctx tf d0 (ReadTemporalHistory F J tctx rf dbs)
       (ExecuteEffectiveHistoryQuery hcfg hctx (ReadTelemetryHistory hcfg F hctx rf (\<lambda>k. td_read (dbs k))))"

end
