(* ===== verification/TwinReadTheorems.thy ===== *)
theory TwinReadTheorems
  imports TwinRead HistoryParserTheorems
begin

text \<open>
  Properties of Digital Twin reads: following the cursors of a list shows every visible entity exactly
  once and in order, results only show entities of the actor's Gateways, and parsed requests pass the
  preparation of the service.
\<close>

section \<open>Keyset pagination\<close>

lemma filter_after_nth:
  assumes "sorted_wrt (\<lambda>a b. key a < key b) xs" "n < length xs"
  shows "filter (\<lambda>e. (key (xs ! n) :: 'k :: linorder) < key e) xs = drop (Suc n) xs"
proof -
  have lt: "key (xs ! i) < key (xs ! j)" if "i < j" "j < length xs" for i j using assms(1) that by (simp add: sorted_wrt_iff_nth_less)
  have "filter (\<lambda>e. key (xs ! n) < key e) (take (Suc n) xs) = []"
    using lt assms(2) by (auto simp: filter_empty_conv in_set_conv_nth less_Suc_eq) (metis less_asym)
  moreover have "filter (\<lambda>e. key (xs ! n) < key e) (drop (Suc n) xs) = drop (Suc n) xs"
    using lt assms(2) by (auto simp: filter_id_conv in_set_conv_nth)
  ultimately show ?thesis by (metis append_Nil append_take_drop_id filter_append)
qed

lemma sorted_distinct_wrt: "sorted (map key xs) \<Longrightarrow> distinct (map key xs) \<Longrightarrow> sorted_wrt (\<lambda>a b. key a < key b) xs"
  by (simp add: sorted_wrt_iff_nth_less sorted_iff_nth_mono_less distinct_conv_nth order_less_le)

text \<open>
  What provisioning guarantees about the entities: URNs are unique, and the URN of a Gateway or Sensor
  entity is well formed and names its Gateway.
\<close>

definition twins_wf :: "twin_db \<Rightarrow> bool" where
  "twins_wf d \<longleftrightarrow> distinct (map te_entity_id (db_entities (td_store d))) \<and>
     (\<forall>e \<in> set (db_entities (td_store d)). te_entity_type e = EntityTypeGateway \<or> te_entity_type e = EntityTypeSensor \<longrightarrow>
        (\<exists>p. ParseEntityURN (te_entity_id e) = Inr p \<and> te_gateway_id e = Some (pi_GatewayID p) \<and> te_entity_type e = pi_Type p))"

definition visible :: "twin_db \<Rightarrow> uuid \<Rightarrow> string option \<Rightarrow> EntityType option \<Rightarrow> twin_entity list" where
  "visible d actor g t = sort_key te_entity_id (filter (listed d actor g t) (db_entities (td_store d)))"

lemma visible_distinct: "twins_wf d \<Longrightarrow> distinct (map te_entity_id (visible d actor g t))"
proof -
  assume "twins_wf d"
  then have "distinct (map te_entity_id (filter (listed d actor g t) (db_entities (td_store d))))"
    by (simp add: twins_wf_def distinct_map_filter)
  then show ?thesis by (simp add: visible_def distinct_map)
qed

lemma visible_sorted: "twins_wf d \<Longrightarrow> sorted_wrt (\<lambda>a b. te_entity_id a < te_entity_id b) (visible d actor g t)"
  using visible_distinct by (intro sorted_distinct_wrt) (simp_all add: visible_def)

lemma listEntitiesQuery_visible:
  "listEntitiesQuery d actor g t None limit = take (nat limit) (visible d actor g t)"
  "listEntitiesQuery d actor g t (Some k) limit = take (nat limit) (filter (\<lambda>e. k < te_entity_id e) (visible d actor g t))"
  by (simp_all add: listEntitiesQuery_def visible_def filter_sort filter_filter conj_commute)

lemma visible_encodes:
  assumes "twins_wf d" "e \<in> set (visible d actor g t)"
  shows "\<exists>c. EncodeListCursor (te_entity_id e) g t = Inr c"
proof -
  have e: "e \<in> set (db_entities (td_store d))" "listed d actor g t e" using assms(2) by (simp_all add: visible_def)
  then obtain p where p: "ParseEntityURN (te_entity_id e) = Inr p" "te_gateway_id e = Some (pi_GatewayID p)" "te_entity_type e = pi_Type p"
    using assms(1) by (auto simp: twins_wf_def listed_def)
  then have "key_matches p g t" using e(2) by (auto simp: listed_def key_matches_def)
  then show ?thesis using EncodeListCursor_ok p(1) by blast
qed

definition twin_quiet :: "twin_ctx \<Rightarrow> twin_faults \<Rightarrow> bool" where
  "twin_quiet ctx tf \<longleftrightarrow> (\<forall>p. ctx p = None) \<and> tf_resolve tf = None \<and> tf_query tf = None \<and> tf_stop tf = None \<and> (\<forall>i. tf_scan tf i = None)"

lemma twin_rows_quiet: "twin_quiet ctx tf \<Longrightarrow> twin_rows tf rows = Inr rows"
proof -
  assume q: "twin_quiet ctx tf"
  have "find (\<lambda>i. tf_scan tf i \<noteq> None) [0..<length rows] = None" using q by (simp add: find_None_iff twin_quiet_def)
  then show ?thesis using q by (simp add: twin_rows_def twin_quiet_def Let_def)
qed

lemma after_callback_quiet: "after_callback e None r = r"
  by (simp add: after_callback_def split: sum.split)

lemma twin_quietD: "twin_quiet ctx tf \<Longrightarrow> ctx p = None" "twin_quiet ctx tf \<Longrightarrow> tw_check ctx p = Inr ()" "twin_quiet ctx tf \<Longrightarrow> tf_resolve tf = None"
  by (simp_all add: twin_quiet_def tw_check_def)

text \<open>The cursor of a position: the first page has none, a later page the cursor of the last entity before it.\<close>

definition cursor_at :: "twin_db \<Rightarrow> uuid \<Rightarrow> string option \<Rightarrow> EntityType option \<Rightarrow> nat \<Rightarrow> string option \<Rightarrow> bool" where
  "cursor_at d actor g t n c \<longleftrightarrow>
     (case c of None \<Rightarrow> n = 0
      | Some s \<Rightarrow> 0 < n \<and> n \<le> length (visible d actor g t) \<and> EncodeListCursor (te_entity_id (visible d actor g t ! (n - 1))) g t = Inr s)"

definition list_query_ok :: "ReadPreparationConfig \<Rightarrow> TwinListQuery \<Rightarrow> bool" where
  "list_query_ok cfg q \<longleftrightarrow> ValidateReadPreparationConfig cfg = None \<and> ValidateTwinListQuery (q\<lparr>lq_After := None\<rparr>) (rg_ListMaxLimit cfg) = None"

lemma EncodeListCursor_nonempty: "EncodeListCursor k g t = Inr c \<Longrightarrow> c \<noteq> []"
  by (auto simp: EncodeListCursor_def encodeCursorBytes_def CursorVersionPrefix_def Let_def split: sum.splits if_splits)

lemma ListTwins_page:
  assumes wf: "twins_wf d" and quiet: "twin_quiet ctx tf" and q: "list_query_ok cfg q" and a: "actor \<noteq> uuid_Nil"
    and c: "cursor_at d actor (lq_GatewayID q) (lq_EntityType q) n c"
  defines "rest \<equiv> drop n (visible d actor (lq_GatewayID q) (lq_EntityType q))" and "l \<equiv> nat (lq_Limit q)"
  shows "1 \<le> l" "\<exists>r. ListTwins cfg ctx tf d actor (q\<lparr>lq_After := c\<rparr>) = Inr r \<and> lr_Items r = map (summary_of d) (take l rest) \<and>
    (if l < length rest then lr_NextCursor r \<noteq> None \<and> cursor_at d actor (lq_GatewayID q) (lq_EntityType q) (n + l) (lr_NextCursor r)
     else lr_NextCursor r = None)"
proof -
  let ?g = "lq_GatewayID q" and ?t = "lq_EntityType q"
  let ?X = "visible d actor ?g ?t"
  have v: "1 \<le> lq_Limit q" "lq_Limit q \<le> rg_ListMaxLimit cfg" "rg_ListMaxLimit cfg \<le> ContractMaxLimit" "0 < rg_ListMaxLimit cfg"
      "?g = None \<or> ValidateGatewayID (the ?g)" "?t = None \<or> EntityType_Valid (the ?t)"
    using q by (auto simp: list_query_ok_def ValidateTwinListQuery_def ValidateReadPreparationConfig_def Let_def split: if_splits)
  show l: "1 \<le> l" using v(1) by (simp add: l_def)
  define after where "after = (if n = 0 then None else Some (te_entity_id (?X ! (n - 1))))"
  have parse: "c \<noteq> None \<Longrightarrow> \<exists>s. c = Some s \<and> s \<noteq> [] \<and> 0 < n \<and>
      ParseListCursor s ?g ?t = Inr \<lparr>lc_EntityID = te_entity_id (?X ! (n - 1)), lc_GatewayID = ?g, lc_EntityType = ?t\<rparr> \<and>
      ValidateListCursor (Some \<lparr>lc_EntityID = te_entity_id (?X ! (n - 1)), lc_GatewayID = ?g, lc_EntityType = ?t\<rparr>) ?g ?t = None"
    using c ParseListCursor_encoded EncodeListCursor_nonempty [of "te_entity_id (?X ! (n - 1))" ?g ?t] EncodeListCursor_ok [of "te_entity_id (?X ! (n - 1))" ?g ?t]
    by (auto simp: cursor_at_def ValidateListCursor_None split: option.splits)
  have n0: "c = None \<longleftrightarrow> n = 0" using c by (auto simp: cursor_at_def split: option.splits)
  have val: "ValidateTwinListQuery (q\<lparr>lq_After := c\<rparr>) (rg_ListMaxLimit cfg) = None"
  proof -
    have "c = None \<or> is_ok (ParseListCursor (the c) ?g ?t)" using parse by (cases c) auto
    then show ?thesis using v by (auto simp: ValidateTwinListQuery_def Let_def)
  qed
  have rows: "listEntitiesQuery d actor ?g ?t after (lq_Limit q + 1) = take (Suc l) rest"
  proof (cases "n = 0")
    case True
    then show ?thesis using v(1) by (simp add: after_def listEntitiesQuery_visible rest_def l_def nat_add_distrib)
  next
    case False
    then have "n - 1 < length ?X" "Suc (n - 1) = n" using c by (auto simp: cursor_at_def split: option.splits)
    then show ?thesis using filter_after_nth [OF visible_sorted [OF wf, of actor ?g ?t], of "n - 1"] v(1) False
      by (simp add: after_def listEntitiesQuery_visible rest_def l_def nat_add_distrib)
  qed
  have run: "ListTwins cfg ctx tf d actor (q\<lparr>lq_After := c\<rparr>) =
     (let items = map (summary_of d) (take (Suc l) rest) in
      if lq_Limit q < int (length items) then
        (case EncodeListCursor (sm_ID (items ! nat (lq_Limit q - 1))) ?g ?t of
           Inl e \<Rightarrow> Inl (JoinErr [ErrUnexpected, e])
         | Inr cStr \<Rightarrow> Inr \<lparr>lr_Items = take (nat (lq_Limit q)) items, lr_NextCursor = Some cStr\<rparr>)
      else Inr \<lparr>lr_Items = items, lr_NextCursor = None\<rparr>)"
  proof -
    have sel: "lq_GatewayID (q\<lparr>lq_After := c\<rparr>) = ?g" "lq_EntityType (q\<lparr>lq_After := c\<rparr>) = ?t" "lq_Limit (q\<lparr>lq_After := c\<rparr>) = lq_Limit q"
        "lq_After (q\<lparr>lq_After := c\<rparr>) = c" by simp_all
    have lim: "\<not> lq_Limit q \<le> 0" "\<not> ContractMaxLimit < lq_Limit q" using v by simp_all
    have filters: "(?g \<noteq> None \<and> \<not> ValidateGatewayID (the ?g)) = False" "(?t \<noteq> None \<and> \<not> EntityType_Valid (the ?t)) = False" using v(5,6) by auto
    have "(case c of None \<Rightarrow> Inr None | Some s \<Rightarrow> if s = [] then Inr None
        else (case ParseListCursor s ?g ?t of Inl _ \<Rightarrow> Inl ErrInvalidCursor
              | Inr cr \<Rightarrow> (case ValidateListCursor (Some cr) ?g ?t of Some _ \<Rightarrow> Inl ErrInvalidCursor | None \<Rightarrow> Inr (Some (lc_EntityID cr))))) = Inr after"
      using parse n0 by (cases c) (auto simp: after_def)
    then have "ListEntities ctx tf d actor (q\<lparr>lq_After := c\<rparr>) =
       (let items = map (summary_of d) (take (Suc l) rest) in
        if lq_Limit q < int (length items) then
          (case EncodeListCursor (sm_ID (items ! nat (lq_Limit q - 1))) ?g ?t of
             Inl e \<Rightarrow> Inl (JoinErr [ErrUnexpected, e])
           | Inr cStr \<Rightarrow> Inr \<lparr>lr_Items = take (nat (lq_Limit q)) items, lr_NextCursor = Some cStr\<rparr>)
        else Inr \<lparr>lr_Items = items, lr_NextCursor = None\<rparr>)"
      unfolding ListEntities_def sel using a lim
      by (simp add: twin_quietD [OF quiet] filters rows twin_rows_quiet [OF quiet] Let_def cong: sum.case_cong del: not_le not_less not_None_eq)
    then show ?thesis using a by (simp add: ListTwins_def PrepareList_def val twin_quietD [OF quiet] after_callback_quiet)
  qed
  show "\<exists>r. ListTwins cfg ctx tf d actor (q\<lparr>lq_After := c\<rparr>) = Inr r \<and> lr_Items r = map (summary_of d) (take l rest) \<and>
    (if l < length rest then lr_NextCursor r \<noteq> None \<and> cursor_at d actor ?g ?t (n + l) (lr_NextCursor r) else lr_NextCursor r = None)"
  proof (cases "l < length rest")
    case False
    then have "\<not> lq_Limit q < int (length (take (Suc l) rest))" using v(1) by (simp add: l_def)
    then show ?thesis using run False by (simp add: Let_def)
  next
    case True
    have idx: "rest ! (l - 1) = ?X ! (n + l - 1)" "n + l \<le> length ?X" "rest ! (l - 1) \<in> set ?X"
      using True l by (auto simp: rest_def add_diff_assoc intro!: nth_mem)
    then obtain s where s: "EncodeListCursor (te_entity_id (?X ! (n + l - 1))) ?g ?t = Inr s" using visible_encodes [OF wf idx(3)] by metis
    have "sm_ID (map (summary_of d) (take (Suc l) rest) ! nat (lq_Limit q - 1)) = te_entity_id (?X ! (n + l - 1))"
      using True l idx(1) by (simp add: l_def nat_diff_distrib summary_of_def)
    then show ?thesis using run True s idx l v(1) by (auto simp: Let_def l_def cursor_at_def min_def take_map)
  qed
qed

definition res_bind_pages :: "TwinSummary list \<Rightarrow> read_error + TwinSummary list list \<Rightarrow> read_error + TwinSummary list list" where
  "res_bind_pages p r = res_bind r (\<lambda>ps. Inr (p # ps))"

text \<open>A client that follows the cursors, for at most the given number of requests.\<close>

fun follow :: "nat \<Rightarrow> (string option \<Rightarrow> read_error + TwinListResult) \<Rightarrow> string option \<Rightarrow> (read_error + TwinSummary list list) option" where
  "follow 0 page c = None"
| "follow (Suc n) page c =
     (case page c of
        Inl e \<Rightarrow> Some (Inl e)
      | Inr r \<Rightarrow>
          (case lr_NextCursor r of
             None \<Rightarrow> Some (Inr [lr_Items r])
           | Some s \<Rightarrow> map_option (res_bind_pages (lr_Items r)) (follow n page (Some s))))"

lemma follow_pages:
  assumes "twins_wf d" "twin_quiet ctx tf" "list_query_ok cfg q" "actor \<noteq> uuid_Nil"
    and "cursor_at d actor (lq_GatewayID q) (lq_EntityType q) n c" "length (drop n (visible d actor (lq_GatewayID q) (lq_EntityType q))) < k"
  shows "\<exists>pages. follow k (\<lambda>c. ListTwins cfg ctx tf d actor (q\<lparr>lq_After := c\<rparr>)) c = Some (Inr pages) \<and>
    concat pages = map (summary_of d) (drop n (visible d actor (lq_GatewayID q) (lq_EntityType q))) \<and>
    (\<forall>p \<in> set pages. int (length p) \<le> lq_Limit q) \<and> (\<forall>p \<in> set (butlast pages). int (length p) = lq_Limit q) \<and> pages \<noteq> []"
  using assms(5,6)
proof (induction k arbitrary: n c)
  case (Suc k)
  let ?g = "lq_GatewayID q" and ?t = "lq_EntityType q" and ?l = "nat (lq_Limit q)"
  let ?rest = "drop n (visible d actor ?g ?t)"
  note P = ListTwins_page [OF assms(1-4) Suc.prems(1)]
  obtain r where r: "ListTwins cfg ctx tf d actor (q\<lparr>lq_After := c\<rparr>) = Inr r" "lr_Items r = map (summary_of d) (take ?l ?rest)"
      "if ?l < length ?rest then lr_NextCursor r \<noteq> None \<and> cursor_at d actor ?g ?t (n + ?l) (lr_NextCursor r) else lr_NextCursor r = None"
    using P(2) by blast
  show ?case
  proof (cases "?l < length ?rest")
    case False
    then show ?thesis using r P(1) by simp
  next
    case True
    then obtain s where s: "lr_NextCursor r = Some s" "cursor_at d actor ?g ?t (n + ?l) (Some s)" using r(3) by auto
    have "length (drop (n + ?l) (visible d actor ?g ?t)) < k" using Suc.prems(2) True P(1) by simp
    from Suc.IH [OF s(2) this] obtain pages where
      p: "follow k (\<lambda>c. ListTwins cfg ctx tf d actor (q\<lparr>lq_After := c\<rparr>)) (Some s) = Some (Inr pages)"
        "concat pages = map (summary_of d) (drop (n + ?l) (visible d actor ?g ?t))"
        "\<forall>p \<in> set pages. int (length p) \<le> lq_Limit q" "\<forall>p \<in> set (butlast pages). int (length p) = lq_Limit q" "pages \<noteq> []"
      by blast
    have "map (summary_of d) (take ?l ?rest) @ map (summary_of d) (drop (n + ?l) (visible d actor ?g ?t)) = map (summary_of d) ?rest"
      unfolding map_append [symmetric] by (metis append_take_drop_id drop_drop add.commute)
    moreover have "int (length (lr_Items r)) = lq_Limit q" using r(2) True P(1) by simp
    ultimately show ?thesis using r(1,2) s(1) p by (simp add: res_bind_pages_def)
  qed
qed simp

text \<open>C30. Following the cursors of a list shows everything once. With well-formed entities, a database that
  works and does not change meanwhile, and a valid list request: a client that asks for the first page
  and then follows the cursors finishes after finitely many pages, never more than the number of
  entities plus one, and the pages together are exactly the entities of the actor's Gateways that
  satisfy the filters, each once and in the order of their URNs. No page is longer than the limit and all
  but the last are full.\<close>

theorem twin_list_pages_complete:
  assumes "twins_wf d" "twin_quiet ctx tf" "list_query_ok cfg q" "actor \<noteq> uuid_Nil"
  shows "\<exists>pages. follow (Suc (length (db_entities (td_store d)))) (\<lambda>c. ListTwins cfg ctx tf d actor (q\<lparr>lq_After := c\<rparr>)) None = Some (Inr pages) \<and>
    concat pages = map (summary_of d) (visible d actor (lq_GatewayID q) (lq_EntityType q)) \<and>
    distinct (map sm_ID (concat pages)) \<and>
    (\<forall>p \<in> set pages. int (length p) \<le> lq_Limit q) \<and> (\<forall>p \<in> set (butlast pages). int (length p) = lq_Limit q)"
proof -
  have c: "cursor_at d actor (lq_GatewayID q) (lq_EntityType q) 0 None" by (simp add: cursor_at_def)
  have "length (drop 0 (visible d actor (lq_GatewayID q) (lq_EntityType q))) < Suc (length (db_entities (td_store d)))"
    by (simp add: visible_def less_Suc_eq_le)
  from follow_pages [OF assms c this] obtain pages where
    p: "follow (Suc (length (db_entities (td_store d)))) (\<lambda>c. ListTwins cfg ctx tf d actor (q\<lparr>lq_After := c\<rparr>)) None = Some (Inr pages)"
      "concat pages = map (summary_of d) (visible d actor (lq_GatewayID q) (lq_EntityType q))"
      "\<forall>p \<in> set pages. int (length p) \<le> lq_Limit q" "\<forall>p \<in> set (butlast pages). int (length p) = lq_Limit q"
    by auto
  note visible_distinct [OF assms(1), of actor "lq_GatewayID q" "lq_EntityType q"]
  moreover have "map sm_ID (concat pages) = map te_entity_id (visible d actor (lq_GatewayID q) (lq_EntityType q))"
    by (simp add: p(2) summary_of_def)
  ultimately show ?thesis using p by metis
qed


section \<open>A concrete store\<close>

definition tx_db :: twin_db where
  "tx_db = \<lparr>td_read = \<lparr>rd_store = fx_db, rd_user_gateways = [(7, ''gw1'')]\<rparr>, td_entity_name = (\<lambda>_. None), td_entity_updated = (\<lambda>_. fx_start),
     td_gateway_name = (\<lambda>_. ''Hall''), td_gateway_description = (\<lambda>_. None), td_sensor_name = (\<lambda>_. ''Oven''),
     td_relationship_created = (\<lambda>_. fx_start), td_last_desired_at = (\<lambda>_. None)\<rparr>"

definition tx_faults :: twin_faults where
  "tx_faults = \<lparr>tf_resolve = None, tf_query = None, tf_scan = (\<lambda>_. None), tf_stop = None\<rparr>"

definition tx_list :: TwinListQuery where
  "tx_list = \<lparr>lq_GatewayID = Some ''gw1'', lq_EntityType = None, lq_Limit = 1, lq_After = None\<rparr>"

lemma tx_urns:
  "ParseEntityURN ''urn:ngsi-ld:Gateway:gw1'' = Inr (gateway_identity ''gw1'')" "ParseEntityURN ''urn:ngsi-ld:Sensor:gw1:s1'' = Inr (sensor_identity ''gw1'' ''s1'')"
  using ParseEntityURN_gateway [OF fx_names(1)] ParseEntityURN_sensor [OF fx_names] by (simp_all add: GatewayEntityID_def SensorEntityID_def)

lemma tx_wf: "twins_wf tx_db"
  by (simp add: twins_wf_def tx_db_def fx_db_def tx_urns gateway_identity_def sensor_identity_def EntityTypeGateway_def EntityTypeSensor_def)

lemma tx_quiet: "twin_quiet (\<lambda>_. None) tx_faults"
  by (simp add: twin_quiet_def tx_faults_def)

lemma tx_list_ok: "list_query_ok DefaultReadPreparationConfig tx_list"
  using fx_names(1) by (simp add: list_query_ok_def tx_list_def ValidateReadPreparationConfig_def DefaultReadPreparationConfig_def ValidateTwinListQuery_def
      history_bounds contract_defs nsPerSecond_def)

theorem twin_list_pages_complete_witness:
  "\<exists>pages. follow 3 (\<lambda>c. ListTwins DefaultReadPreparationConfig (\<lambda>_. None) tx_faults tx_db 7 (tx_list\<lparr>lq_After := c\<rparr>)) None = Some (Inr pages) \<and>
    concat pages = map (summary_of tx_db) (visible tx_db 7 (Some ''gw1'') None) \<and> length (concat pages) = 2 \<and> distinct (map sm_ID (concat pages))"
proof -
  have n: "Suc (length (db_entities (td_store tx_db))) = 3" by (simp add: tx_db_def fx_db_def)
  have "length (visible tx_db 7 (Some ''gw1'') None) = 2"
    by (simp add: visible_def listed_def member_of_def tx_db_def fx_db_def EntityTypeGateway_def EntityTypeSensor_def)
  then show ?thesis using twin_list_pages_complete [OF tx_wf tx_quiet tx_list_ok, of 7] unfolding n by (auto simp: tx_list_def)
qed

section \<open>Only the actor's entities are shown\<close>

definition shown :: "twin_db \<Rightarrow> uuid \<Rightarrow> string \<Rightarrow> EntityType \<Rightarrow> string \<Rightarrow> bool" where
  "shown d actor urn t g \<longleftrightarrow> (actor, g) \<in> set (rd_user_gateways (td_read d)) \<and>
     (\<exists>e \<in> set (db_entities (td_store d)). te_entity_id e = urn \<and> te_entity_type e = t \<and> te_gateway_id e = Some g)"

lemma shownI:
  "e \<in> set (db_entities (td_store d)) \<Longrightarrow> member_of d actor (te_gateway_id e) \<Longrightarrow> shown d actor (te_entity_id e) (te_entity_type e) (the (te_gateway_id e))"
  by (auto simp: shown_def member_of_def split: option.splits)

lemma twin_rows_Inr: "twin_rows tf rows = Inr rs \<Longrightarrow> rs = rows"
  by (auto simp: twin_rows_def Let_def split: option.splits prod.splits)

lemma after_callback_Inr: "after_callback e c r = Inr x \<Longrightarrow> r = Inr x"
  by (simp add: after_callback_def split: sum.splits option.splits if_splits)

lemma if_Inl_eq_Inr: "(if b then Inl e else m) = Inr x \<longleftrightarrow> \<not> b \<and> m = Inr x"
  by simp

lemma ListTwins_rows:
  assumes "ListTwins cfg ctx tf d actor q = Inr r"
  shows "\<exists>after n k. lr_Items r = take k (map (summary_of d) (listEntitiesQuery d actor (lq_GatewayID q) (lq_EntityType q) after n))"
proof -
  have "ListEntities ctx tf d actor q = Inr r"
    using assms by (auto simp: ListTwins_def PrepareList_def split: if_splits option.splits dest: after_callback_Inr)
  then obtain after rows limit where rows: "twin_rows tf (listEntitiesQuery d actor (lq_GatewayID q) (lq_EntityType q) after (limit + 1)) = Inr rows"
    and r: "(let items = map (summary_of d) rows in
       if limit < int (length items) then
         (case EncodeListCursor (sm_ID (items ! nat (limit - 1))) (lq_GatewayID q) (lq_EntityType q) of
            Inl e \<Rightarrow> Inl (JoinErr [ErrUnexpected, e])
          | Inr cStr \<Rightarrow> Inr \<lparr>lr_Items = take (nat limit) items, lr_NextCursor = Some cStr\<rparr>)
       else Inr \<lparr>lr_Items = items, lr_NextCursor = None\<rparr>) = Inr r"
    unfolding ListEntities_def Let_def by (simp only: res_bind_eq_Inr if_Inl_eq_Inr) blast
  have "\<exists>k. lr_Items r = take k (map (summary_of d) rows)"
    using r by (cases "limit < int (length rows)") (auto simp: Let_def split: sum.splits intro: exI [of _ "length rows"])
  then show ?thesis using twin_rows_Inr [OF rows] by blast
qed

lemma ListTwins_shown:
  assumes "ListTwins cfg ctx tf d actor q = Inr r" "s \<in> set (lr_Items r)"
  shows "shown d actor (sm_ID s) (sm_Type s) (sm_GatewayID s)"
proof -
  obtain after n where "s \<in> set (map (summary_of d) (listEntitiesQuery d actor (lq_GatewayID q) (lq_EntityType q) after n))"
    using ListTwins_rows [OF assms(1)] assms(2) by (metis in_set_takeD)
  then obtain e where "e \<in> set (db_entities (td_store d))" "listed d actor (lq_GatewayID q) (lq_EntityType q) e" "s = summary_of d e"
    by (auto simp: listEntitiesQuery_def dest!: in_set_takeD)
  then show ?thesis using shownI by (simp add: summary_of_def listed_def)
qed


lemma resolver_row_Inr: "query_row err rows = Inr r \<Longrightarrow> r \<in> set rows"
  by (auto simp: query_row_def split: option.splits list.splits)

lemma ResolveEntity_shown:
  assumes "ResolveEntity tf d actor p = Inr (Some ent)"
  shows "re_PublicURN ent = pi_URN p" "shown d actor (re_PublicURN ent) (re_Type ent) (re_GatewayID ent)"
  using assms
  by (auto simp: ResolveEntity_def Let_def gateway_entities_def sensor_entities_def shown_def member_of_def split: if_splits sum.splits dest!: resolver_row_Inr)

lemma with_entity_Inr:
  assumes "with_entity ctx (ResolveEntity tf d actor) p fn = Inr x"
  obtains ent where "fn ent = Inr x" "re_PublicURN ent = pi_URN p" "shown d actor (re_PublicURN ent) (re_Type ent) (re_GatewayID ent)"
proof -
  obtain ent where "ResolveEntity tf d actor p = Inr (Some ent)" "fn ent = Inr x"
    using assms by (auto simp: with_entity_def split: sum.splits option.splits dest: after_callback_Inr)
  then show thesis using that ResolveEntity_shown by blast
qed

lemma ParseEntityURN_urn: "ParseEntityURN raw = Inr p \<Longrightarrow> pi_URN p = raw"
  by (auto elim!: ParseEntityURN_Inr simp: gateway_identity_def sensor_identity_def)

lemma authorized_source_shown:
  assumes "e \<in> set (authorized_source d actor ent)"
  shows "e \<in> set (db_entities (td_store d))" "te_id e = re_InternalID ent" "te_entity_id e = re_PublicURN ent" "te_entity_type e = EntityTypeGateway"
    "te_gateway_id e = Some (re_GatewayID ent)" "shown d actor (re_PublicURN ent) EntityTypeGateway (re_GatewayID ent)"
  using assms by (auto simp: authorized_source_def gateway_entities_def shown_def member_of_def)

lemma related_sensors_shown:
  assumes "r \<in> set (related_sensors d src after n)" "te_gateway_id src = Some g" "(actor, g) \<in> set (rd_user_gateways (td_read d))"
  shows "shown d actor (fst (snd r)) EntityTypeSensor g"
proof -
  obtain e where "e \<in> set (db_entities (td_store d))" "te_entity_id e = fst (snd r)" "te_entity_type e = EntityTypeSensor" "te_gateway_id e = Some g"
    using assms(1,2) by (auto simp: related_sensors_def dest!: in_set_takeD)
  then show ?thesis using assms(3) by (auto simp: shown_def)
qed

lemma map_filter_set: "i \<in> set (map f (List.map_filter snd rows)) \<Longrightarrow> \<exists>row t. row \<in> set rows \<and> snd row = Some t \<and> i = f t"
proof -
  assume "i \<in> set (map f (List.map_filter snd rows))"
  then have "\<exists>row \<in> set rows. snd row \<noteq> None \<and> i = f (the (snd row))" by (auto simp: List.map_filter_def)
  then show ?thesis by fastforce
qed

lemma getGatewayDetail_shown:
  assumes "getGatewayDetail tf d actor ent n after = Inr r" "0 \<le> n"
  shows "dr_ID r = re_PublicURN ent" "shown d actor (dr_ID r) (dr_Type r) (dr_GatewayID r)"
    "\<forall>i \<in> set (dr_Relationships r). shown d actor (ri_TargetURN i) EntityTypeSensor (dr_GatewayID r)" "int (length (dr_Relationships r)) \<le> n"
proof -
  obtain src x rest where rows: "twin_rows tf (gatewayDetailQuery d actor ent after (n + 1)) = Inr ((src, x) # rest)"
  proof -
    obtain rows where "twin_rows tf (gatewayDetailQuery d actor ent after (n + 1)) = Inr rows" "rows \<noteq> []"
      using assms(1) by (force simp: getGatewayDetail_def)
    then show thesis using that by (cases rows) auto
  qed
  note rows' = twin_rows_Inr [OF rows]
  let ?raw = "map item_of (List.map_filter snd ((src, x) # rest))"
  obtain k where r: "dr_ID r = re_PublicURN ent" "dr_Type r = EntityTypeGateway" "dr_GatewayID r = the (te_gateway_id src)" "dr_Relationships r = take k ?raw"
      "int (length (take k ?raw)) \<le> n"
    using assms unfolding getGatewayDetail_def rows
    by (auto simp: Let_def min_def split: if_splits sum.splits intro: that [of "nat n"] that [of "length ?raw"])
  have row: "fst row \<in> set (authorized_source d actor ent) \<and> (\<forall>t. snd row = Some t \<longrightarrow> t \<in> set (related_sensors d (fst row) after (n + 1)))"
    if m: "row \<in> set ((src, x) # rest)" for row
  proof -
    obtain y where y: "y \<in> set (authorized_source d actor ent)"
        "row \<in> set (case related_sensors d y after (n + 1) of [] \<Rightarrow> [(y, None)] | rs \<Rightarrow> map (\<lambda>r. (y, Some r)) rs)"
      using m unfolding rows' by (auto simp: gatewayDetailQuery_def)
    then show ?thesis by (cases "related_sensors d y after (n + 1)") auto
  qed
  note src = authorized_source_shown [of src d actor ent]
  have "src \<in> set (authorized_source d actor ent)" using row [of "(src, x)"] by simp
  note src = src [OF this]
  show "dr_ID r = re_PublicURN ent" "int (length (dr_Relationships r)) \<le> n" using r by simp_all
  show "shown d actor (dr_ID r) (dr_Type r) (dr_GatewayID r)" using r src(5,6) by simp
  have m: "(actor, re_GatewayID ent) \<in> set (rd_user_gateways (td_read d))" using src(6) by (simp add: shown_def)
  have "shown d actor (ri_TargetURN i) EntityTypeSensor (re_GatewayID ent)" if i: "i \<in> set ?raw" for i
  proof -
    obtain row t where t: "row \<in> set ((src, x) # rest)" "snd row = Some t" "i = item_of t" using i map_filter_set [of i] by blast
    then have "t \<in> set (related_sensors d (fst row) after (n + 1))" "te_gateway_id (fst row) = Some (re_GatewayID ent)"
      using row authorized_source_shown(5) by blast+
    then show ?thesis using related_sensors_shown [OF _ _ m] t(3) by (simp add: item_of_def)
  qed
  then show "\<forall>i \<in> set (dr_Relationships r). shown d actor (ri_TargetURN i) EntityTypeSensor (dr_GatewayID r)"
    using r(3,4) src(5) by (auto dest!: in_set_takeD)
qed

lemma sensor_rows_shown:
  assumes "e \<in> set (sensor_rows d actor ent)"
  shows "e \<in> set (db_entities (td_store d))" "te_entity_id e = re_PublicURN ent" "shown d actor (re_PublicURN ent) EntityTypeSensor (the (te_gateway_id e))"
  using assms by (auto simp: sensor_rows_def shown_def member_of_def split: option.splits)

lemma getSensorDetail_shown:
  assumes "getSensorDetail tf d actor ent = Inr r"
  shows "dr_ID r = re_PublicURN ent" "shown d actor (dr_ID r) (dr_Type r) (dr_GatewayID r)" "dr_Relationships r = []"
  using assms sensor_rows_shown(3) by (auto simp: getSensorDetail_def Let_def split: sum.splits if_splits dest!: resolver_row_Inr)

lemma GetTwinDetail_shown:
  assumes "GetTwinDetail cfg ctx tf d0 d actor q = Inr r"
  shows "dr_ID r = dq_EntityID q" "\<exists>t g. shown d0 actor (dr_ID r) t g" "shown d actor (dr_ID r) (dr_Type r) (dr_GatewayID r)"
    "\<forall>i \<in> set (dr_Relationships r). shown d actor (ri_TargetURN i) EntityTypeSensor (dr_GatewayID r)"
    "int (length (dr_Relationships r)) \<le> dq_RelationshipLimit q"
proof -
  obtain p where p: "ValidateTwinDetailQuery q (rg_RelationshipMaxLimit cfg) = None" "ParseEntityURN (dq_EntityID q) = Inr p"
      "with_entity ctx (ResolveEntity tf d0 actor) p (\<lambda>ent. GetDetail ctx tf d actor ent q) = Inr r"
    using assms by (auto simp: GetTwinDetail_def PrepareDetail_def split: if_splits option.splits sum.splits)
  obtain ent where e: "GetDetail ctx tf d actor ent q = Inr r" "re_PublicURN ent = dq_EntityID q" "shown d0 actor (re_PublicURN ent) (re_Type ent) (re_GatewayID ent)"
    using p(3) ParseEntityURN_urn [OF p(2)] by (metis with_entity_Inr)
  have lim: "1 \<le> dq_RelationshipLimit q" using p(1) by (auto simp: ValidateTwinDetailQuery_def Let_def split: if_splits)
  then have "(\<exists>after. getGatewayDetail tf d actor ent (dq_RelationshipLimit q) after = Inr r) \<or> getSensorDetail tf d actor ent = Inr r"
    using e(1) unfolding GetDetail_def Let_def by (simp only: res_bind_eq_Inr if_Inl_eq_Inr) (auto split: if_splits)
  then have *: "dr_ID r = re_PublicURN ent" "shown d actor (dr_ID r) (dr_Type r) (dr_GatewayID r)"
    "\<forall>i \<in> set (dr_Relationships r). shown d actor (ri_TargetURN i) EntityTypeSensor (dr_GatewayID r)" "int (length (dr_Relationships r)) \<le> dq_RelationshipLimit q"
    using getGatewayDetail_shown [of tf d actor ent "dq_RelationshipLimit q"] getSensorDetail_shown [of tf d actor ent r] lim by auto
  then show "dr_ID r = dq_EntityID q" "\<exists>t g. shown d0 actor (dr_ID r) t g" "shown d actor (dr_ID r) (dr_Type r) (dr_GatewayID r)"
    "\<forall>i \<in> set (dr_Relationships r). shown d actor (ri_TargetURN i) EntityTypeSensor (dr_GatewayID r)"
    "int (length (dr_Relationships r)) \<le> dq_RelationshipLimit q"
    using e(2,3) by auto
qed

text \<open>The state that is stored for an entity.\<close>

definition stored_state :: "twin_db \<Rightarrow> string \<Rightarrow> TwinStateResult \<Rightarrow> bool" where
  "stored_state d urn r \<longleftrightarrow> (\<exists>e \<in> set (db_entities (td_store d)). te_entity_id e = urn \<and>
     (\<exists>st. db_states (td_store d) (te_id e) = Some st \<and> tr_ReportedState r = ts_reported_state st \<and> tr_DesiredState r = ts_desired_state st \<and>
        tr_ReportedVersion r = ts_reported_version st \<and> tr_DesiredVersion r = ts_desired_version st \<and> tr_LastReportedAt r = ts_last_reported_at st))"

lemma scanStateRow_Inr:
  assumes "scanStateRow tf d ent rows = Inr r"
  obtains e where "e \<in> set rows" "tr_ID r = re_PublicURN ent" "tr_Type r = re_Type ent" "tr_GatewayID r = re_GatewayID ent"
    "te_entity_id e = re_PublicURN ent \<Longrightarrow> e \<in> set (db_entities (td_store d)) \<Longrightarrow> stored_state d (re_PublicURN ent) r"
proof -
  obtain seen where "twin_rows tf (take 1 rows) = Inr seen" "seen \<noteq> []" using assms by (force simp: scanStateRow_def)
  then obtain e more where e: "twin_rows tf (take 1 rows) = Inr (e # more)" by (cases seen) auto
  then have "e \<in> set rows" using twin_rows_Inr [OF e] by (metis in_set_takeD list.set_intros(1))
  moreover obtain st where "db_states (td_store d) (te_id e) = Some st"
      "r = \<lparr>tr_ID = re_PublicURN ent, tr_Type = re_Type ent, tr_GatewayID = re_GatewayID ent, tr_ReportedState = ts_reported_state st,
         tr_DesiredState = ts_desired_state st, tr_ReportedVersion = ts_reported_version st, tr_DesiredVersion = ts_desired_version st,
         tr_LastReportedAt = ts_last_reported_at st, tr_LastDesiredAt = td_last_desired_at d (te_id e), tr_UpdatedAt = ts_updated_at st\<rparr>"
    using assms unfolding scanStateRow_def e by (auto split: option.splits)
  ultimately show thesis using that [of e] by (force simp: stored_state_def)
qed

lemma GetTwinState_shown:
  assumes "GetTwinState ctx tf d0 d actor q = Inr r"
  shows "tr_ID r = sq_EntityID q" "\<exists>t g. shown d0 actor (tr_ID r) t g" "shown d actor (tr_ID r) (tr_Type r) (tr_GatewayID r)" "stored_state d (tr_ID r) r"
proof -
  obtain p where p: "ParseEntityURN (sq_EntityID q) = Inr p" "with_entity ctx (ResolveEntity tf d0 actor) p (\<lambda>ent. GetState ctx tf d actor ent) = Inr r"
    using assms by (auto simp: GetTwinState_def PrepareState_def split: if_splits option.splits sum.splits)
  obtain ent where e: "GetState ctx tf d actor ent = Inr r" "re_PublicURN ent = sq_EntityID q" "shown d0 actor (re_PublicURN ent) (re_Type ent) (re_GatewayID ent)"
    using p(2) ParseEntityURN_urn [OF p(1)] by (metis with_entity_Inr)
  have "re_Type ent = EntityTypeGateway \<and> getGatewayState tf d actor ent = Inr r \<or> getSensorState tf d actor ent = Inr r"
    using e(1) by (auto simp: GetState_def split: if_splits)
  then have *: "tr_ID r = re_PublicURN ent \<and> shown d actor (tr_ID r) (tr_Type r) (tr_GatewayID r) \<and> stored_state d (tr_ID r) r"
  proof (elim disjE conjE)
    assume g: "re_Type ent = EntityTypeGateway" "getGatewayState tf d actor ent = Inr r"
    show ?thesis using g(2) unfolding getGatewayState_def
    proof (rule scanStateRow_Inr)
      fix x assume x: "x \<in> set (authorized_source d actor ent)"
        "tr_ID r = re_PublicURN ent" "tr_Type r = re_Type ent" "tr_GatewayID r = re_GatewayID ent"
        "te_entity_id x = re_PublicURN ent \<Longrightarrow> x \<in> set (db_entities (td_store d)) \<Longrightarrow> stored_state d (re_PublicURN ent) r"
      show ?thesis using x(2-5) g(1) authorized_source_shown [OF x(1)] by simp
    qed
  next
    assume s: "getSensorState tf d actor ent = Inr r"
    show ?thesis using s unfolding getSensorState_def
    proof (rule scanStateRow_Inr)
      fix x assume x: "x \<in> set (filter (\<lambda>e. te_entity_type e = re_Type ent \<and> te_gateway_id e = Some (re_GatewayID ent)) (sensor_rows d actor ent))"
        "tr_ID r = re_PublicURN ent" "tr_Type r = re_Type ent" "tr_GatewayID r = re_GatewayID ent"
        "te_entity_id x = re_PublicURN ent \<Longrightarrow> x \<in> set (db_entities (td_store d)) \<Longrightarrow> stored_state d (re_PublicURN ent) r"
      have y: "x \<in> set (sensor_rows d actor ent)" "te_gateway_id x = Some (re_GatewayID ent)" "te_entity_type x = re_Type ent" using x(1) by auto
      have "te_entity_type x = EntityTypeSensor" using y(1) by (auto simp: sensor_rows_def)
      then show ?thesis using x(2-5) y(2,3) sensor_rows_shown [OF y(1)] by simp
    qed
  qed
  then show "tr_ID r = sq_EntityID q" "\<exists>t g. shown d0 actor (tr_ID r) t g" "shown d actor (tr_ID r) (tr_Type r) (tr_GatewayID r)" "stored_state d (tr_ID r) r"
    using e(2,3) by auto
qed


text \<open>C31. Twin reads show only the actor's entities. Whatever fails or is cancelled, and also when the store
  changes between resolving the entity and reading it: every entity of a list page, the entity of a
  detail and of a state, and every related Sensor of a detail belongs, in the store that was read, to a
  Gateway the actor is a member of, under the URN, type and Gateway shown. Detail and state are those of
  the requested URN, which was also the actor's when it was resolved; the relationships never exceed the
  requested limit, and the state shown is the one stored for the entity, versions included.\<close>

theorem twin_reads_authorized:
  "(ListTwins cfg ctx tf d actor q = Inr l \<longrightarrow> (\<forall>s \<in> set (lr_Items l). shown d actor (sm_ID s) (sm_Type s) (sm_GatewayID s))) \<and>
   (GetTwinDetail cfg ctx tf d0 d actor dq = Inr r \<longrightarrow>
      dr_ID r = dq_EntityID dq \<and> (\<exists>t g. shown d0 actor (dr_ID r) t g) \<and> shown d actor (dr_ID r) (dr_Type r) (dr_GatewayID r) \<and>
      (\<forall>i \<in> set (dr_Relationships r). shown d actor (ri_TargetURN i) EntityTypeSensor (dr_GatewayID r)) \<and>
      int (length (dr_Relationships r)) \<le> dq_RelationshipLimit dq) \<and>
   (GetTwinState ctx tf d0 d actor sq = Inr t \<longrightarrow>
      tr_ID t = sq_EntityID sq \<and> (\<exists>u g. shown d0 actor (tr_ID t) u g) \<and> shown d actor (tr_ID t) (tr_Type t) (tr_GatewayID t) \<and>
      stored_state d (tr_ID t) t)"
  using ListTwins_shown [of cfg ctx tf d actor q l] GetTwinDetail_shown [of cfg ctx tf d0 d actor dq r] GetTwinState_shown [of ctx tf d0 d actor sq t] by metis

definition tx_detail :: TwinDetailQuery where
  "tx_detail = \<lparr>dq_EntityID = ''urn:ngsi-ld:Gateway:gw1'', dq_RelationshipLimit = 5, dq_RelationshipAfter = None\<rparr>"

definition tx_state :: TwinStateQuery where
  "tx_state = \<lparr>sq_EntityID = ''urn:ngsi-ld:Sensor:gw1:s1''\<rparr>"

lemmas tx_defs = tx_db_def fx_db_def tx_faults_def gateway_identity_def sensor_identity_def EntityTypeGateway_def EntityTypeSensor_def EntityType_Valid_def
  member_of_def with_entity_def tw_check_def query_row_def after_callback_def

lemma tx_resolved:
  "ResolveEntity tx_faults tx_db 7 (gateway_identity ''gw1'') =
     Inr (Some \<lparr>re_InternalID = 1, re_PublicURN = ''urn:ngsi-ld:Gateway:gw1'', re_Type = ''Gateway'', re_GatewayID = ''gw1'', re_SensorID = []\<rparr>)"
  "ResolveEntity tx_faults tx_db 7 (sensor_identity ''gw1'' ''s1'') =
     Inr (Some \<lparr>re_InternalID = 2, re_PublicURN = ''urn:ngsi-ld:Sensor:gw1:s1'', re_Type = ''Sensor'', re_GatewayID = ''gw1'', re_SensorID = ''s1''\<rparr>)"
  using fx_names
  by (simp_all add: ResolveEntity_def tx_defs Let_def gateway_entities_def sensor_entities_def has_parent_def GatewayURNPrefix_def SensorURNPrefix_def
      GatewayEntityID_def SensorEntityID_def)


lemma tx_detail_result:
  "\<exists>r. GetTwinDetail DefaultReadPreparationConfig (\<lambda>_. None) tx_faults tx_db tx_db 7 tx_detail = Inr r \<and> length (dr_Relationships r) = 1"
  using tx_urns(1) tx_resolved(1)
  by (simp add: GetTwinDetail_def PrepareDetail_def tx_detail_def ValidateTwinDetailQuery_def is_ok_def DefaultReadPreparationConfig_def contract_defs
      with_entity_def tw_check_def after_callback_def GetDetail_def entity_invalid_def EntityTypeGateway_def EntityTypeSensor_def EntityType_Valid_def
      getGatewayDetail_def twin_rows_quiet [OF tx_quiet] gatewayDetailQuery_def authorized_source_def gateway_entities_def related_sensors_def sensor_exists_def
      tx_db_def fx_db_def member_of_def SensorURNPrefix_def hasPrefix_def List.map_filter_simps Let_def)

lemma tx_state_result:
  "\<exists>t. GetTwinState (\<lambda>_. None) tx_faults tx_db tx_db 7 tx_state = Inr t \<and> tr_ReportedVersion t = 0"
  using tx_urns(2) tx_resolved(2)
  by (simp add: GetTwinState_def PrepareState_def tx_state_def ValidateTwinStateQuery_def is_ok_def
      with_entity_def tw_check_def after_callback_def GetState_def entity_invalid_def EntityTypeGateway_def EntityTypeSensor_def EntityType_Valid_def
      getSensorState_def scanStateRow_def twin_rows_quiet [OF tx_quiet] sensor_rows_def has_parent_def tx_db_def fx_db_def fx_state_def member_of_def)

theorem twin_reads_authorized_witness:
  "\<exists>r t. GetTwinDetail DefaultReadPreparationConfig (\<lambda>_. None) tx_faults tx_db tx_db 7 tx_detail = Inr r \<and>
     shown tx_db 7 (dr_ID r) (dr_Type r) (dr_GatewayID r) \<and> dr_Relationships r \<noteq> [] \<and>
     GetTwinState (\<lambda>_. None) tx_faults tx_db tx_db 7 tx_state = Inr t \<and> stored_state tx_db (tr_ID t) t"
  using tx_detail_result tx_state_result twin_reads_authorized [of DefaultReadPreparationConfig "\<lambda>_. None" tx_faults tx_db 7 tx_list _ tx_db tx_detail _ tx_state]
  by (metis One_nat_def list.size(3) n_not_Suc_n)


section \<open>Entities of others are not distinguishable from missing ones\<close>

lemma ResolveEntity_hidden:
  assumes "ParseEntityURN urn = Inr p" "actor \<noteq> uuid_Nil" "tf_resolve tf = None" "\<nexists>t g. shown d actor urn t g"
  shows "ResolveEntity tf d actor p = Inl ErrNotFound"
proof -
  have none: "filter P (db_entities (td_store d)) = []"
    if "\<And>e. P e \<Longrightarrow> te_entity_id e = urn \<and> member_of d actor (te_gateway_id e)" for P
    using assms(4) that shownI by (metis (no_types, lifting) filter_False)
  have row: "query_row None ([] :: twin_entity list) = Inl pgx_ErrNoRows" "de_no_rows pgx_ErrNoRows" by (simp_all add: query_row_def pgx_ErrNoRows_def)
  show ?thesis using assms(1)
  proof (cases rule: ParseEntityURN_Inr)
    case (gateway g)
    have "gateway_entities d actor (GatewayEntityID g) g = []"
      unfolding gateway_entities_def by (rule none) (use gateway(2) in auto)
    then show ?thesis using gateway assms(2,3) row
      by (simp add: ResolveEntity_def gateway_identity_def EntityType_Valid_def EntityTypeGateway_def EntityTypeSensor_def Let_def classifyResolverError_def
          GatewayEntityID_def GatewayURNPrefix_def)
  next
    case (sensor g s)
    have "sensor_entities d actor P (SensorEntityID g s) g s = []" for P
      unfolding sensor_entities_def by (rule none) (use sensor(3) in auto)
    then show ?thesis using sensor assms(2,3) row
      by (simp add: ResolveEntity_def sensor_identity_def EntityType_Valid_def EntityTypeGateway_def EntityTypeSensor_def Let_def classifyResolverError_def
          SensorEntityID_def SensorURNPrefix_def)
  qed
qed

text \<open>Foreign entities look like missing ones. With a database that works, a valid detail or state request
  for a URN that is not the actor's, whether the entity belongs to a Gateway of somebody else or does not
  exist at all, gets exactly the error \<open>ErrNotFound\<close>, with nothing else attached.\<close>

theorem twin_unauthorized_hidden:
  assumes "twin_quiet ctx tf" "actor \<noteq> uuid_Nil"
  shows "(ValidateTwinDetailQuery dq (rg_RelationshipMaxLimit cfg) = None \<and> (\<nexists>t g. shown d0 actor (dq_EntityID dq) t g) \<longrightarrow>
      GetTwinDetail cfg ctx tf d0 d actor dq = Inl ErrNotFound) \<and>
    (ValidateTwinStateQuery sq = None \<and> (\<nexists>t g. shown d0 actor (sq_EntityID sq) t g) \<longrightarrow> GetTwinState ctx tf d0 d actor sq = Inl ErrNotFound)"
proof -
  have "GetTwinDetail cfg ctx tf d0 d actor dq = Inl ErrNotFound"
    if h: "ValidateTwinDetailQuery dq (rg_RelationshipMaxLimit cfg) = None" "\<nexists>t g. shown d0 actor (dq_EntityID dq) t g"
  proof -
    obtain p where p: "ParseEntityURN (dq_EntityID dq) = Inr p" using h(1) by (auto simp: ValidateTwinDetailQuery_def is_ok_iff Let_def split: if_splits)
    show ?thesis using assms(2) h(1) p ResolveEntity_hidden [OF p assms(2) twin_quietD(3) [OF assms(1)] h(2)]
      by (simp add: GetTwinDetail_def PrepareDetail_def with_entity_def twin_quietD [OF assms(1)])
  qed
  moreover have "GetTwinState ctx tf d0 d actor sq = Inl ErrNotFound"
    if h: "ValidateTwinStateQuery sq = None" "\<nexists>t g. shown d0 actor (sq_EntityID sq) t g"
  proof -
    obtain p where p: "ParseEntityURN (sq_EntityID sq) = Inr p" using h(1) by (auto simp: ValidateTwinStateQuery_def is_ok_iff split: if_splits)
    show ?thesis using assms(2) h(1) p ResolveEntity_hidden [OF p assms(2) twin_quietD(3) [OF assms(1)] h(2)]
      by (simp add: GetTwinState_def PrepareState_def with_entity_def twin_quietD [OF assms(1)])
  qed
  ultimately show ?thesis by blast
qed

theorem twin_unauthorized_hidden_witness:
  "GetTwinDetail DefaultReadPreparationConfig (\<lambda>_. None) tx_faults tx_db tx_db 8 tx_detail = Inl ErrNotFound \<and>
   GetTwinState (\<lambda>_. None) tx_faults tx_db tx_db 8 tx_state = Inl ErrNotFound"
proof -
  have "\<nexists>t g. shown tx_db 8 urn t g" for urn by (simp add: shown_def tx_db_def)
  then show ?thesis
    using twin_unauthorized_hidden [OF tx_quiet, of 8 tx_detail DefaultReadPreparationConfig tx_db tx_db tx_state] tx_urns
    by (simp add: ValidateTwinDetailQuery_def ValidateTwinStateQuery_def tx_detail_def tx_state_def is_ok_def DefaultReadPreparationConfig_def contract_defs)
qed

section \<open>Parsed requests are accepted by the service\<close>

lemma parse_limit_Inr: "parse_limit params k dflt m = Inr n \<Longrightarrow> 1 \<le> dflt \<Longrightarrow> dflt \<le> m \<Longrightarrow> 1 \<le> n \<and> n \<le> m"
  by (auto simp: parse_limit_def split: option.splits if_splits)

lemma ParseTwinListQuery_valid:
  assumes "ValidateTwinConfig c = None" "ParseTwinListQuery c raw = Inr (q, opts)"
  shows "ValidateTwinListQuery q (tc_ListMaxLimit c) = None"
proof -
  have c: "1 \<le> tc_ListDefaultLimit c" "tc_ListDefaultLimit c \<le> tc_ListMaxLimit c" using assms(1) by (auto simp: ValidateTwinConfig_def split: if_splits)
  obtain params where p: "parse_limit params ''limit'' (tc_ListDefaultLimit c) (tc_ListMaxLimit c) = Inr (lq_Limit q)"
      "\<not> (lq_GatewayID q \<noteq> None \<and> \<not> ValidateGatewayID (the (lq_GatewayID q)))" "\<not> (lq_EntityType q \<noteq> None \<and> \<not> EntityType_Valid (the (lq_EntityType q)))"
      "\<not> (lq_After q \<noteq> None \<and> \<not> is_ok (ParseListCursor (the (lq_After q)) (lq_GatewayID q) (lq_EntityType q)))"
    using assms(2) unfolding ParseTwinListQuery_def Let_def by (clarsimp simp: reject_if_def simp del: not_None_eq split: if_splits)
  then show ?thesis using parse_limit_Inr [OF p(1) c] by (simp add: ValidateTwinListQuery_def Let_def del: not_None_eq)
qed

lemma ParseTwinDetailQuery_valid:
  assumes "ValidateTwinConfig c = None" "ParseTwinDetailQuery c raw urn = Inr q"
  shows "ValidateTwinDetailQuery q (tc_RelationshipMaxLimit c) = None"
proof -
  have c: "1 \<le> tc_RelationshipDefaultLimit c" "tc_RelationshipDefaultLimit c \<le> tc_RelationshipMaxLimit c"
    using assms(1) by (auto simp: ValidateTwinConfig_def split: if_splits)
  obtain p params where p: "ParseEntityURN urn = Inr p" "dq_EntityID q = urn"
      "dq_RelationshipLimit q = tc_RelationshipDefaultLimit c \<and> dq_RelationshipAfter q = None \<or>
       parse_limit params ''relationship_limit'' (tc_RelationshipDefaultLimit c) (tc_RelationshipMaxLimit c) = Inr (dq_RelationshipLimit q) \<and>
       \<not> (dq_RelationshipAfter q \<noteq> None \<and> \<not> is_ok (ParseRelationshipCursor (the (dq_RelationshipAfter q)) urn))"
  proof -
    obtain p where p: "ParseEntityURN urn = Inr p" using assms(2) by (cases "ParseEntityURN urn") (simp_all add: ParseTwinDetailQuery_def)
    obtain params where *:
        "(case params ''format'' of
            Some v \<Rightarrow>
              if v \<noteq> ''simplified'' then Inl (invalid_request ErrInvalidInput)
              else if 1 < param_count params detail_keys then Inl (invalid_request ErrInvalidInput)
              else Inr \<lparr>dq_EntityID = urn, dq_RelationshipLimit = tc_RelationshipDefaultLimit c, dq_RelationshipAfter = None\<rparr>
          | None \<Rightarrow>
              res_bind (parse_limit params ''relationship_limit'' (tc_RelationshipDefaultLimit c) (tc_RelationshipMaxLimit c)) (\<lambda>relLimit.
              let relAfter = params ''relationship_after'' in
              res_bind (reject_if (relAfter \<noteq> None \<and> \<not> is_ok (ParseRelationshipCursor (the relAfter) urn)) invalid_cursor) (\<lambda>_.
              Inr \<lparr>dq_EntityID = urn, dq_RelationshipLimit = relLimit, dq_RelationshipAfter = relAfter\<rparr>))) = Inr q"
      using assms(2) unfolding ParseTwinDetailQuery_def p by (simp only: res_bind_eq_Inr sum.case) blast
    then show thesis using p that [of p params] by (cases "params ''format''") (auto simp: Let_def split: if_splits)
  qed
  have "1 \<le> dq_RelationshipLimit q \<and> dq_RelationshipLimit q \<le> tc_RelationshipMaxLimit c" using p(3) c parse_limit_Inr [OF _ c] by metis
  then show ?thesis using p by (auto simp: ValidateTwinDetailQuery_def Let_def is_ok_iff)
qed

lemma translated_read_config:
  assumes "ValidateTwinConfig c = None" "ValidateHistoryConfig h = None"
  shows "ValidateReadPreparationConfig (ToReadPreparationConfig c h) = None"
  using assms by (auto simp: ValidateTwinConfig_def ValidateHistoryConfig_def ValidateReadPreparationConfig_def ToReadPreparationConfig_def split: if_splits)

lemma history_query_accepted:
  assumes "ValidateHistoryConfig h = None" "ParseEntityURN urn = Inr p" "pi_Type p \<noteq> EntityTypeGateway" "HistorySelector_Valid (tq_Property q)" "tq_EntityID q = urn"
    "hg_MinPoints h \<le> tq_MaxPoints q" "tq_MaxPoints q \<le> hg_MaxPoints h"
    "ValidateHistoryTimeRange (tq_Range q) (tq_Resolution q) (hg_MaxRange h) (hg_RawWindow h) (tq_MaxPoints q) = None"
  shows "history_query_invalid (ToReadPreparationConfig c h) q = None"
proof -
  have "pi_Type p = EntityTypeSensor" using assms(2,3) by (auto elim!: ParseEntityURN_Inr simp: gateway_identity_def sensor_identity_def)
  moreover have "0 < hg_RawWindow h" "hg_RawWindow h \<le> MaxHistoryRawWindow" using assms(1) by (auto simp: ValidateHistoryConfig_def split: if_splits)
  ultimately show ?thesis using assms by (simp add: history_query_invalid_def ValidateTwinHistoryQuery_def ToReadPreparationConfig_def Let_def)
qed


lemma ParseTwinHistoryQuery_valid:
  assumes "ValidateHistoryConfig h = None" "ParseTwinHistoryQuery h raw urn = Inr q"
  shows "history_query_invalid (ToReadPreparationConfig c h) q = None"
proof -
  obtain p where p: "ParseEntityURN urn = Inr p" using assms(2) by (cases "ParseEntityURN urn") (simp_all add: ParseTwinHistoryQuery_def)
  obtain params where "parseCommonTimeAndResolution h params = Inr (tq_Range q, tq_Resolution q, tq_MaxPoints q)" "tq_EntityID q = urn"
      "pi_Type p \<noteq> EntityTypeGateway" "tq_Property q = SelectorValue \<or> tq_Property q = SelectorSampleIntervalUS"
    using assms(2) unfolding ParseTwinHistoryQuery_def p by (clarsimp split: prod.splits)
  then show ?thesis using parseCommon_Inr [OF assms(1)] by (intro history_query_accepted [OF assms(1) p]) (auto simp: HistorySelector_Valid_def)
qed

lemma parse_aggr_methods_Inr:
  "parse_aggr_methods toks sel = Inr r \<Longrightarrow> distinct sel \<Longrightarrow> set sel \<subseteq> set all_aggr_methods \<Longrightarrow>
     distinct r \<and> set r \<subseteq> set all_aggr_methods \<and> (toks \<noteq> [] \<or> sel \<noteq> [] \<longrightarrow> r \<noteq> [])"
proof (induction toks arbitrary: sel)
  case (Cons tok toks)
  then have "parse_aggr_methods toks (sel @ [trimSpace tok]) = Inr r" "trimSpace tok \<notin> set sel" "trimSpace tok \<in> set all_aggr_methods"
    by (simp_all add: Let_def split: if_splits)
  then show ?case using Cons.IH [of "sel @ [trimSpace tok]"] Cons.prems(2,3) by simp
qed simp

lemma parse_methods_Inr:
  assumes "parse_methods params b = Inr ms"
  shows "distinct ms" "set ms \<subseteq> set all_aggr_methods" "ms = [] \<longleftrightarrow> \<not> b"
proof -
  have n: "go_split CHR '','' s \<noteq> []" for s by (induction s) (auto split: list.splits)
  show "distinct ms" "set ms \<subseteq> set all_aggr_methods" "ms = [] \<longleftrightarrow> \<not> b"
    using assms parse_aggr_methods_Inr [of "go_split CHR '','' (the (params ''aggrMethods''))" "[]" ms] n [of "the (params ''aggrMethods'')"]
    by (auto simp: parse_methods_def all_aggr_methods_def split: if_splits option.splits)
qed

lemma parse_aggregation_Inr:
  assumes "parse_aggregation params = Inr (res, b)"
  shows "res \<noteq> ResolutionAuto" "res = ResolutionRaw \<longleftrightarrow> \<not> b"
  using assms by (auto simp: parse_aggregation_def CanonicalDurationsToResolution_def resolution_defs split: option.splits if_splits)

lemma parse_format_Inr: "parse_format params b = Inr f \<Longrightarrow> f = (if b then ''aggregatedValues'' else ''temporalValues'')"
  by (auto simp: parse_format_def Let_def split: option.splits if_splits)

definition presentation_ok :: "TwinHistoryQuery \<Rightarrow> TemporalPresentationOptions \<Rightarrow> bool" where
  "presentation_ok q opts \<longleftrightarrow> tq_Resolution q \<noteq> ResolutionAuto \<and>
     po_Format opts = (if tq_Resolution q = ResolutionRaw then ''temporalValues'' else ''aggregatedValues'') \<and>
     (po_AggrMethods opts = [] \<longleftrightarrow> tq_Resolution q = ResolutionRaw) \<and> distinct (po_AggrMethods opts) \<and> set (po_AggrMethods opts) \<subseteq> set all_aggr_methods \<and>
     po_PublicAttr opts = (if tq_Property q = SelectorValue then ''measurement'' else ''sample_interval_us'')"

lemma ParseTemporalHistoryQuery_valid:
  assumes "ValidateHistoryConfig h = None" "ParseTemporalHistoryQuery h raw urn = Inr (q, opts)"
  shows "history_query_invalid (ToReadPreparationConfig c h) q = None" "presentation_ok q opts"
proof -
  obtain p where p: "ParseEntityURN urn = Inr p" using assms(2) by (cases "ParseEntityURN urn") (simp_all add: ParseTemporalHistoryQuery_def)
  obtain params attrs b where q: "pi_Type p \<noteq> EntityTypeGateway" "tq_EntityID q = urn" "parse_attrs attrs = Inr (tq_Property q, po_PublicAttr opts)"
      "parse_aggregation params = Inr (tq_Resolution q, b)" "parse_methods params b = Inr (po_AggrMethods opts)" "parse_format params b = Inr (po_Format opts)"
      "parse_max_points h params = Inr (tq_MaxPoints q)" "check_range h (tq_Range q) (tq_Resolution q) (tq_MaxPoints q) = Inr ()"
    using assms(2) unfolding ParseTemporalHistoryQuery_def p by (clarsimp simp: Let_def split: prod.splits)
  have a: "HistorySelector_Valid (tq_Property q)" "po_PublicAttr opts = (if tq_Property q = SelectorValue then ''measurement'' else ''sample_interval_us'')"
    using q(3) by (auto simp: parse_attrs_def HistorySelector_Valid_def SelectorValue_def SelectorSampleIntervalUS_def split: if_splits)
  show "history_query_invalid (ToReadPreparationConfig c h) q = None"
    using q(1,2,7,8) a(1) parse_max_points_bounds [OF assms(1)] check_range_Inr by (intro history_query_accepted [OF assms(1) p]) auto
  show "presentation_ok q opts"
    using parse_aggregation_Inr [OF q(4)] parse_methods_Inr [OF q(5)] parse_format_Inr [OF q(6)] a(2) by (simp add: presentation_ok_def)
qed

text \<open>What the parsers accept, the Twin service accepts. For every pair of valid configurations: the
  translated configuration of the service is valid, and a list, detail, history or temporal query string
  that parses passes the revalidation of the service before any database access. A temporal request is
  never automatic; without an aggregation period it is raw, shown as values and has no aggregation
  methods; with one it is shown as aggregates and has at least one method, all known and none twice.\<close>

theorem parsed_twin_requests_accepted:
  assumes "ValidateTwinConfig c = None" "ValidateHistoryConfig h = None"
  shows "ValidateReadPreparationConfig (ToReadPreparationConfig c h) = None \<and>
    (ParseTwinListQuery c raw = Inr (lq, lo) \<longrightarrow> ValidateTwinListQuery lq (rg_ListMaxLimit (ToReadPreparationConfig c h)) = None) \<and>
    (ParseTwinDetailQuery c raw urn = Inr dq \<longrightarrow> ValidateTwinDetailQuery dq (rg_RelationshipMaxLimit (ToReadPreparationConfig c h)) = None) \<and>
    (ParseTwinHistoryQuery h raw urn = Inr hq \<longrightarrow> history_query_invalid (ToReadPreparationConfig c h) hq = None) \<and>
    (ParseTemporalHistoryQuery h raw urn = Inr (tq, opts) \<longrightarrow> history_query_invalid (ToReadPreparationConfig c h) tq = None \<and> presentation_ok tq opts)"
proof -
  have l: "rg_ListMaxLimit (ToReadPreparationConfig c h) = tc_ListMaxLimit c" "rg_RelationshipMaxLimit (ToReadPreparationConfig c h) = tc_RelationshipMaxLimit c"
    by (simp_all add: ToReadPreparationConfig_def)
  show ?thesis unfolding l
    using translated_read_config [OF assms] ParseTwinListQuery_valid [OF assms(1), of raw lq lo] ParseTwinDetailQuery_valid [OF assms(1), of raw urn dq]
      ParseTwinHistoryQuery_valid [OF assms(2), of raw urn hq c] ParseTemporalHistoryQuery_valid [OF assms(2), of raw urn tq opts] by blast
qed

lemma tx_config: "ValidateTwinConfig DefaultTwinConfig = None"
  by (simp add: ValidateTwinConfig_def DefaultTwinConfig_def contract_defs)

theorem parsed_twin_requests_accepted_witness:
  "\<exists>lq lo. ParseTwinListQuery DefaultTwinConfig ''limit=5&type=Sensor'' = Inr (lq, lo) \<and> lq_Limit lq = 5 \<and>
     ValidateTwinListQuery lq (rg_ListMaxLimit (ToReadPreparationConfig DefaultTwinConfig DefaultHistoryConfig)) = None"
proof -
  have "ParseTwinListQuery DefaultTwinConfig ''limit=5&type=Sensor'' =
     Inr (\<lparr>lq_GatewayID = None, lq_EntityType = Some ''Sensor'', lq_Limit = 5, lq_After = None\<rparr>, \<lparr>lo_Format = []\<rparr>)"
    by code_simp
  then have "\<exists>lq lo. ParseTwinListQuery DefaultTwinConfig ''limit=5&type=Sensor'' = Inr (lq, lo) \<and> lq_Limit lq = 5"
    by simp
  then show ?thesis using parsed_twin_requests_accepted [OF tx_config hx_history_config] by blast
qed

end
