(* ===== verification/TwinTemporalTheorems.thy ===== *)
theory TwinTemporalTheorems
  imports TwinTemporal TwinReadTheorems HistoryTheorems
begin

text \<open>
  Properties of temporal histories: a result shows exactly the stored rows of the interval, and what the
  telemetry repository writes is always accepted by the reader.
\<close>

section \<open>Scanning\<close>

definition scanned :: "(TemporalWindowSummary \<Rightarrow> 'r \<Rightarrow> read_error + 'p option) \<Rightarrow> TemporalWindowSummary \<Rightarrow> 'r option list \<Rightarrow> 'p list" where
  "scanned f s rows = concat (map (\<lambda>row. case row of None \<Rightarrow> [] | Some r \<Rightarrow> (case f s r of Inr (Some p) \<Rightarrow> [p] | _ \<Rightarrow> [])) rows)"

lemma scanned_simps [simp]:
  "scanned f s [] = []" "scanned f s (None # rows) = scanned f s rows"
  "scanned f s (Some r # rows) = (case f s r of Inr (Some p) \<Rightarrow> [p] | _ \<Rightarrow> []) @ scanned f s rows"
  by (simp_all add: scanned_def)

lemma temporal_loop_Inr:
  "temporal_loop ctx sc f k rows (Some s) ps = Inr (qs, s') \<Longrightarrow>
     s' = Some s \<and> qs = ps @ scanned f s (map fst rows) \<and> (\<forall>r. Some r \<in> set (map fst rows) \<longrightarrow> is_ok (f s r))"
proof (induction ctx sc f k rows "Some s" ps rule: temporal_loop.induct)
  case (2 ctx sc f k row s0 rows ps)
  then show ?case by (auto simp: Let_def split: option.splits sum.splits)
qed simp

lemma temporal_loop_first:
  "temporal_loop ctx sc f k ((row, s) # rows) None ps = temporal_loop ctx sc f k ((row, s) # rows) (Some s) ps"
  by (simp add: Let_def split: option.split sum.split)

lemma scan_temporal_Inr:
  assumes "scan_temporal ctx rf k rows f = Inr (ps, s)"
  shows "rows \<noteq> []" "s = snd (hd rows)" "ps = scanned f s (map fst rows)" "Some r \<in> set (map fst rows) \<Longrightarrow> is_ok (f s r)"
proof -
  obtain ps' where l: "temporal_loop (\<lambda>i. ctx (TmRow k i)) (rf_scan rf k) f 0 rows None [] = Inr (ps, Some s)"
    using assms by (auto simp: scan_temporal_def Let_def split: option.splits prod.splits)
  then obtain row s0 others where rows: "rows = (row, s0) # others" by (cases rows) auto
  from temporal_loop_Inr [OF l [unfolded rows temporal_loop_first]]
  show "rows \<noteq> []" "s = snd (hd rows)" "ps = scanned f s (map fst rows)" "Some r \<in> set (map fst rows) \<Longrightarrow> is_ok (f s r)"
    unfolding rows by auto
qed

definition tmp_quiet :: "tmp_ctx \<Rightarrow> read_faults \<Rightarrow> bool" where
  "tmp_quiet ctx rf \<longleftrightarrow> (\<forall>p. ctx p = None) \<and> (\<forall>k. rf_query rf k = None \<and> rf_stop rf k = None \<and> (\<forall>i. rf_scan rf k i = None))"

lemma tmp_quietD: "tmp_quiet ctx rf \<Longrightarrow> tm_check ctx p = Inr ()"
  by (simp add: tmp_quiet_def tm_check_def)

lemma temporal_loop_quiet:
  assumes "\<And>i. ctx i = None" "\<And>i. sc i = None" "\<And>r. Some r \<in> set (map fst rows) \<Longrightarrow> is_ok (f s r)"
  shows "temporal_loop ctx sc f k rows (Some s) ps = Inr (ps @ scanned f s (map fst rows), Some s)"
  using assms(3)
proof (induction rows arbitrary: k ps)
  case (Cons x rows)
  obtain row s0 where x: "x = (row, s0)" by (cases x)
  show ?case
  proof (cases row)
    case None
    then show ?thesis using Cons assms(1,2) by (simp add: x)
  next
    case (Some r)
    then obtain o' where "f s r = Inr o'" using Cons.prems [of r] by (auto simp: x is_ok_iff)
    then show ?thesis using Cons assms(1,2) by (cases o') (simp_all add: x Some)
  qed
qed simp

lemma scan_temporal_quiet:
  assumes "tmp_quiet ctx rf" "rows \<noteq> []" "\<And>r. Some r \<in> set (map fst rows) \<Longrightarrow> is_ok (f (snd (hd rows)) r)"
  shows "scan_temporal ctx rf k rows f = Inr (scanned f (snd (hd rows)) (map fst rows), snd (hd rows))"
proof -
  obtain row s0 others where rows: "rows = (row, s0) # others" using assms(2) by (cases rows) auto
  have "temporal_loop (\<lambda>i. ctx (TmRow k i)) (rf_scan rf k) f 0 rows (Some s0) [] = Inr ([] @ scanned f s0 (map fst rows), Some s0)"
    by (rule temporal_loop_quiet) (use assms rows in \<open>simp_all add: tmp_quiet_def\<close>)
  then have "temporal_loop (\<lambda>i. ctx (TmRow k i)) (rf_scan rf k) f 0 rows None [] = Inr (scanned f s0 (map fst rows), Some s0)"
    unfolding rows temporal_loop_first append_Nil .
  moreover have "rf_query rf k = None" "rf_stop rf k = None" using assms(1) by (simp_all add: tmp_quiet_def)
  ultimately show ?thesis using tmp_quietD [OF assms(1)] unfolding scan_temporal_def Let_def by (simp del: temporal_loop.simps) (simp add: rows)
qed

section \<open>Raw reads\<close>

definition tpoint_of :: "temporal_row \<Rightarrow> TemporalSamplePoint" where
  "tpoint_of r = \<lparr>tp_ObservedAt = tv_observed_at r,
     tp_ValueType = (if tv_value_boolean r \<noteq> None then ''boolean'' else if tv_value_text r \<noteq> None then ''text'' else ''number''),
     tp_ValueNumber = tv_value_number r, tp_ValueText = tv_value_text r, tp_ValueBoolean = tv_value_boolean r,
     tp_Metadata = tv_metadata r, tp_MessageID = tv_message_id r\<rparr>"

lemma temporal_point_eq: "temporal_point s r = (if non_null_values r \<noteq> 1 then Inl (JoinErr [ErrUnexpected]) else Inr (Some (tpoint_of r)))"
  by (simp add: temporal_point_def tpoint_of_def)

lemma scanned_points:
  assumes "\<forall>r \<in> set rs. is_ok (temporal_point s r)"
  shows "scanned temporal_point s (map Some rs) = map tpoint_of rs"
  using assms by (induction rs) (auto simp: temporal_point_eq split: if_splits)

text \<open>The rows of a statement: the limited list, or one row without an observation.\<close>

definition joined :: "'r list \<Rightarrow> TemporalWindowSummary \<Rightarrow> ('r option \<times> TemporalWindowSummary) list" where
  "joined bs s = (case bs of [] \<Rightarrow> [(None, s)] | _ \<Rightarrow> map (\<lambda>b. (Some b, s)) bs)"

lemma joined_facts [simp]:
  "joined bs s \<noteq> []" "snd (hd (joined bs s)) = s" "Some r \<in> fst ` set (joined bs s) \<longleftrightarrow> r \<in> set bs"
  by (auto simp: joined_def image_image split: list.splits)

lemma joined_scanned: "scanned f s (map fst (joined bs s')) = scanned f s (map Some bs)"
  by (cases bs) (simp_all add: joined_def comp_def)

lemma raw_query_joined:
  assumes "authorized_temporal d actor ent = src # others"
  shows "rawTemporalHistoryQuery J d actor ent p f t n =
    joined (take (nat n) (ordered_temporal (temporal_in d (te_id src) p f t))) (window_summary J (temporal_in d (te_id src) p f t))"
  using assms by (simp add: rawTemporalHistoryQuery_def joined_def Let_def split: list.split)

lemma bucket_query_joined:
  assumes "authorized_temporal d actor ent = src # others"
  shows "bucketTemporalHistoryQuery F J d actor ent p f t w n =
    joined (map (temporal_bucket_of F w (temporal_in d (te_id src) p f t)) (take (nat n) (temporal_starts F w (temporal_in d (te_id src) p f t))))
      (window_summary J (temporal_in d (te_id src) p f t))"
  using assms by (simp add: bucketTemporalHistoryQuery_def joined_def Let_def comp_def split: list.split)

lemma set_ordered_temporal [simp]: "set (ordered_temporal rs) = set rs" "length (ordered_temporal rs) = length rs"
  by (simp_all add: ordered_temporal_def)

lemma scanTemporalRows_raw:
  assumes "authorized_temporal d actor ent = src # others" "1 \<le> n"
    and "scanTemporalRows ctx rf k (rawTemporalHistoryQuery J d actor ent p f t (n + 1)) = Inr (points, s)"
  defines "S \<equiv> temporal_in d (te_id src) p f t"
  shows "s = window_summary J S" "points = map tpoint_of (take (nat (n + 1)) (ordered_temporal S))"
proof -
  let ?bs = "take (nat (n + 1)) (ordered_temporal S)"
  obtain s0 where scan: "scan_temporal ctx rf k (joined ?bs (window_summary J S)) temporal_point = Inr (points, s0)"
    and s: "s = (if ws_TotalCount s0 = 0 \<and> points \<noteq> [] then populateSummaryFromPoints s0 points else s0)"
    using assms(3) unfolding raw_query_joined [OF assms(1)] S_def scanTemporalRows_def by auto
  note F = scan_temporal_Inr [OF scan]
  have s0: "s0 = window_summary J S" using F(2) by simp
  show p: "points = map tpoint_of ?bs" using F(3) scanned_points [of ?bs s0] F(4) by (simp add: joined_scanned)
  have "ws_TotalCount s0 = 0 \<Longrightarrow> points = []" using p by (simp add: s0 window_summary_def ordered_temporal_def)
  then show "s = window_summary J S" using s s0 by auto
qed


section \<open>Bucket reads\<close>

text \<open>A numeric row as a sample, so that the theory of telemetry buckets applies.\<close>

definition as_sample :: "temporal_row \<Rightarrow> telemetry_row" where
  "as_sample r = \<lparr>tr_measured_at = tv_observed_at r, tr_gateway_id = [], tr_sensor_id = [], tr_sequence_num = 0, tr_value = the (tv_value_number r),
     tr_boot_id = None, tr_message_id = None, tr_sample_index = None\<rparr>"

definition numeric :: "temporal_row list \<Rightarrow> bool" where
  "numeric rs \<longleftrightarrow> (\<forall>r \<in> set rs. tv_value_number r \<noteq> None)"

lemma temporal_starts_eq: "temporal_starts F w rs = bucket_starts F w (map as_sample rs)"
  by (simp add: temporal_starts_def bucket_starts_def as_sample_def comp_def)

lemma numbers_numeric: "numeric rs \<Longrightarrow> numbers rs = map (\<lambda>r. tr_value (as_sample r)) rs"
  by (induction rs) (auto simp: numeric_def numbers_def List.map_filter_simps as_sample_def)

lemma temporal_bucket_point_eq:
  assumes "numeric rs" "b \<in> set (temporal_starts F w rs)"
  shows "temporal_bucket_point s (temporal_bucket_of F w rs b) = Inr (Some (bucket_of F w (map as_sample rs) b))"
proof -
  let ?G = "filter (\<lambda>r. sf_time_bucket F w (tv_observed_at r) = b) rs"
  have n: "numeric ?G" using assms(1) by (simp add: numeric_def)
  have "?G \<noteq> []" using assms(2) by (auto simp: temporal_starts_def filter_empty_conv)
  then have "numbers ?G \<noteq> []" using numbers_numeric [OF n] by simp
  moreover have "map tr_value (filter (\<lambda>r. sf_time_bucket F w (tr_measured_at r) = b) (map as_sample rs)) = numbers ?G"
    using numbers_numeric [OF n] by (simp add: filter_map comp_def as_sample_def)
  moreover have "length (numbers ?G) = length ?G" using numbers_numeric [OF n] by simp
  ultimately show ?thesis
    by (simp add: temporal_bucket_point_def temporal_bucket_of_def bucket_of_def Let_def filter_map comp_def as_sample_def)
qed

lemma scanned_buckets:
  assumes "numeric rs" "set bs \<subseteq> set (temporal_starts F w rs)"
  shows "scanned temporal_bucket_point s (map Some (map (temporal_bucket_of F w rs) bs)) = map (bucket_of F w (map as_sample rs)) bs"
  using assms(2) by (induction bs) (simp_all add: temporal_bucket_point_eq [OF assms(1)])

lemma scanTemporalBucketRows_buckets:
  assumes "authorized_temporal d actor ent = src # others" "1 \<le> n"
    and "scanTemporalBucketRows ctx rf k (bucketTemporalHistoryQuery F J d actor ent p f t w (n + 1)) = Inr (buckets, s)"
  defines "S \<equiv> temporal_in d (te_id src) p f t"
  shows "s = window_summary J S" "numeric S \<Longrightarrow> buckets = map (bucket_of F w (map as_sample S)) (take (nat (n + 1)) (temporal_starts F w S))"
proof -
  let ?bs = "map (temporal_bucket_of F w S) (take (nat (n + 1)) (temporal_starts F w S))"
  obtain s0 where scan: "scan_temporal ctx rf k (joined ?bs (window_summary J S)) temporal_bucket_point = Inr (buckets, s0)"
    and s: "s = (if ws_TotalCount s0 = 0 \<and> buckets \<noteq> [] then populateSummaryFromBuckets s0 buckets else s0)"
    using assms(3) unfolding bucket_query_joined [OF assms(1)] S_def scanTemporalBucketRows_def by auto
  note F = scan_temporal_Inr [OF scan]
  have s0: "s0 = window_summary J S" using F(2) by simp
  have p: "buckets = scanned temporal_bucket_point s0 (map Some ?bs)" using F(3) by (simp add: joined_scanned)
  have "ws_TotalCount s0 = 0 \<Longrightarrow> buckets = []" using p by (simp add: s0 window_summary_def temporal_starts_def)
  then show "s = window_summary J S" using s s0 by auto
  assume "numeric S"
  then show "buckets = map (bucket_of F w (map as_sample S)) (take (nat (n + 1)) (temporal_starts F w S))"
    using p scanned_buckets [of S "take (nat (n + 1)) (temporal_starts F w S)" F w s0] by (simp add: set_take_subset)
qed

section \<open>Classification\<close>

lemma count_if_facts:
  "count_if P xs = 0 \<longleftrightarrow> (\<forall>x \<in> set xs. \<not> P x)" "0 < count_if P xs \<longleftrightarrow> (\<exists>x \<in> set xs. P x)" "count_if P xs = int (length xs) \<longleftrightarrow> (\<forall>x \<in> set xs. P x)"
proof -
  show "count_if P xs = 0 \<longleftrightarrow> (\<forall>x \<in> set xs. \<not> P x)" "0 < count_if P xs \<longleftrightarrow> (\<exists>x \<in> set xs. P x)"
    by (auto simp: count_if_def filter_empty_conv)
  show "count_if P xs = int (length xs) \<longleftrightarrow> (\<forall>x \<in> set xs. P x)"
    by (simp add: count_if_def length_filter_conv_card) (metis filter_id_conv length_filter_conv_card length_filter_less less_irrefl_nat filter_True)
qed

definition unit_ok :: "jsonb_nonobject \<Rightarrow> temporal_row list \<Rightarrow> string option \<Rightarrow> bool" where
  "unit_ok J S u \<longleftrightarrow>
     (case u of None \<Rightarrow> \<forall>x \<in> set S. sql_unit J x = UnitUnknown | Some v \<Rightarrow> \<forall>x \<in> set S. sql_unit J x = UnitKnown v \<or> sql_unit J x = UnitUncounted)"

lemma known_units_set: "u \<in> set (known_units J rs) \<longleftrightarrow> (\<exists>r \<in> set rs. sql_unit J r = UnitKnown u)"
  unfolding known_units_def by (force split: unit_kind.splits)

lemma one_distinct:
  assumes "length (remdups xs) = 1"
  obtains u where "set xs = {u}" "sort xs \<noteq> []" "hd (sort xs) = u"
proof -
  obtain u where u: "set xs = {u}" using assms by (metis length_remdups_card_conv card_1_singletonE)
  then have "sort xs \<noteq> []" by (metis empty_not_insert list.set(1) set_sort)
  moreover from this have "hd (sort xs) \<in> {u}" using u by (metis hd_in_set set_sort)
  ultimately show thesis using that u by blast
qed

lemma window_unit:
  assumes "ws_UnknownUnitCount (window_summary J S) = 0" "ws_DistinctUnitCount (window_summary J S) = 1" "ws_MalformedUnitCount (window_summary J S) = 0"
  shows "unit_ok J S (ws_MinUnit (window_summary J S))"
proof -
  have l: "length (remdups (known_units J S)) = 1" using assms(2) by (simp add: window_summary_def)
  then obtain u where u: "set (known_units J S) = {u}" "sort (known_units J S) \<noteq> []" "hd (sort (known_units J S)) = u" by (rule one_distinct)
  have m: "ws_MinUnit (window_summary J S) = Some u" using u(2,3) by (cases "sort (known_units J S)") (simp_all add: window_summary_def)
  have "sql_unit J x = UnitKnown u \<or> sql_unit J x = UnitUncounted" if x: "x \<in> set S" for x
  proof -
    have "sql_unit J x \<noteq> UnitUnknown" "sql_unit J x \<noteq> UnitMalformed" using assms(1,3) x by (simp_all add: window_summary_def count_if_facts)
    moreover have "v = u" if "sql_unit J x = UnitKnown v" for v using known_units_set [of v J S] x that u(1) by blast
    ultimately show ?thesis by (cases "sql_unit J x") auto
  qed
  then show ?thesis by (simp add: unit_ok_def m)
qed

lemma classify_window:
  assumes "classifyTemporalWindow (Some (window_summary J S)) p = Inr cl" "0 < cl_TotalCount cl \<longrightarrow> cl_ValueType cl = ''number''"
  shows "numeric S" "unit_ok J S (cl_Unit cl)" "cl_TotalCount cl = int (length S)"
proof -
  let ?s = "window_summary J S"
  have t: "ws_TotalCount ?s = int (length S)" by (simp add: window_summary_def)
  have "numeric S \<and> unit_ok J S (cl_Unit cl) \<and> cl_TotalCount cl = int (length S)"
  proof (cases "S = []")
    case True
    then show ?thesis using assms(1) t by (auto simp: classifyTemporalWindow_def numeric_def unit_ok_def)
  next
    case False
    then have ne: "ws_TotalCount ?s \<noteq> 0" "0 < ws_TotalCount ?s" using t by simp_all
    have m: "\<not> 0 < ws_MalformedUnitCount ?s" using assms(1) ne by (auto simp: classifyTemporalWindow_def split: if_splits)
    have m0: "ws_MalformedUnitCount ?s = 0" using m by (simp add: window_summary_def count_if_def)
    have c: "cl_TotalCount cl = ws_TotalCount ?s" "cl_ValueType cl = ''number'' \<longrightarrow> ws_NumberCount ?s = ws_TotalCount ?s"
        "cl_ValueType cl = ''number'' \<longrightarrow> ws_UnknownUnitCount ?s = ws_TotalCount ?s \<and> cl_Unit cl = None \<or>
           ws_UnknownUnitCount ?s = 0 \<and> ws_DistinctUnitCount ?s = 1 \<and> cl_Unit cl = ws_MinUnit ?s"
      using assms(1) ne(1) by (auto simp: classifyTemporalWindow_def split: if_splits)
    then have n: "cl_ValueType cl = ''number''" using assms(2) ne(2) by simp
    have "numeric S" using c(2) n t by (simp add: numeric_def window_summary_def count_if_facts)
    moreover have "unit_ok J S (cl_Unit cl)"
    proof (cases "ws_UnknownUnitCount ?s = ws_TotalCount ?s \<and> cl_Unit cl = None")
      case True
      then show ?thesis by (simp add: unit_ok_def window_summary_def count_if_facts)
    next
      case False
      then show ?thesis using c(3) n window_unit [of J S] m0 by auto
    qed
    ultimately show ?thesis using c(1) t by simp
  qed
  then show "numeric S" "unit_ok J S (cl_Unit cl)" "cl_TotalCount cl = int (length S)" by auto
qed

lemma classify_interval:
  assumes "classifyTemporalWindow (Some s) SelectorSampleIntervalUS = Inr cl"
  shows "0 < cl_TotalCount cl \<longrightarrow> cl_ValueType cl = ''number''"
  using assms by (auto simp: classifyTemporalWindow_def split: if_splits)


section \<open>Results show the stored rows\<close>

definition exact_temporal :: "sql_funcs \<Rightarrow> jsonb_nonobject \<Rightarrow> twin_db \<Rightarrow> uuid \<Rightarrow> TwinHistoryQuery \<Rightarrow> TwinHistoryResult \<Rightarrow> bool" where
  "exact_temporal F J d actor q r \<longleftrightarrow> th_EntityID r = tq_EntityID q \<and> th_Property r = tq_Property q \<and>
     (\<exists>e \<in> set (db_entities (td_store d)). te_entity_id e = tq_EntityID q \<and> member_of d actor (te_gateway_id e) \<and>
       (let S = temporal_in d (te_id e) (tq_Property q) (tg_From (tq_Range q)) (tg_To (tq_Range q)) in
        th_PointCount r \<le> tq_MaxPoints q \<and> unit_ok J S (th_Unit r) \<and>
        (if th_Mode r = ResolutionRaw then th_TemporalPoints r = map tpoint_of (ordered_temporal S) \<and> th_PointCount r = int (length S)
         else \<exists>w. ResolutionDuration (th_Resolution r) = Some w \<and> bucket_partition F w (map as_sample S) (th_TemporalBuckets r))))"

lemma authorized_temporal_shown:
  assumes "authorized_temporal d actor ent = src # others"
  shows "src \<in> set (db_entities (td_store d))" "te_entity_id src = re_PublicURN ent" "member_of d actor (te_gateway_id src)"
proof -
  have "src \<in> set (authorized_temporal d actor ent)" using assms by simp
  then show "src \<in> set (db_entities (td_store d))" "te_entity_id src = re_PublicURN ent" "member_of d actor (te_gateway_id src)"
    by (auto simp: authorized_temporal_def sensor_entities_def)
qed

text \<open>What preparation guarantees about a query.\<close>

definition temporal_query_ok :: "TwinHistoryQuery \<Rightarrow> bool" where
  "temporal_query_ok q \<longleftrightarrow> 1 \<le> tq_MaxPoints q \<and> tq_MaxPoints q \<le> 2000 \<and> range_ok (tq_Range q) MaxHistoryMaxRange"

lemma temporal_query_okD:
  assumes "temporal_query_ok q"
  shows "1 \<le> tq_MaxPoints q" "i64 (tq_MaxPoints q + 1) = tq_MaxPoints q + 1" "pg_timestamptz (tg_From (tq_Range q)) = tg_From (tq_Range q)"
    "pg_timestamptz (tg_To (tq_Range q)) = tg_To (tq_Range q)" "tg_From (tq_Range q) < tg_To (tq_Range q)"
    "duration_Microseconds (sat64 (tg_To (tq_Range q) - tg_From (tq_Range q))) = (tg_To (tq_Range q) - tg_From (tq_Range q)) div 1000"
proof -
  have r: "tg_From (tq_Range q) < tg_To (tq_Range q)" "1000 dvd tg_From (tq_Range q)" "1000 dvd tg_To (tq_Range q)"
      "(tg_To (tq_Range q) - tg_From (tq_Range q)) div 1000 \<le> MaxHistoryMaxRange div 1000"
    using assms unfolding temporal_query_ok_def range_ok_def by blast+
  show "1 \<le> tq_MaxPoints q" "i64 (tq_MaxPoints q + 1) = tq_MaxPoints q + 1"
    using assms by (auto simp: temporal_query_ok_def int_bounds_defs intro!: i64_id)
  show "pg_timestamptz (tg_From (tq_Range q)) = tg_From (tq_Range q)" "pg_timestamptz (tg_To (tq_Range q)) = tg_To (tq_Range q)"
      "tg_From (tq_Range q) < tg_To (tq_Range q)" using r by (simp_all add: pg_timestamptz_id)
  have "in_i64 (tg_To (tq_Range q) - tg_From (tq_Range q))" using r(1,4) by (simp add: int_bounds_defs history_bounds nsPerSecond_def)
  then show "duration_Microseconds (sat64 (tg_To (tq_Range q) - tg_From (tq_Range q))) = (tg_To (tq_Range q) - tg_From (tq_Range q)) div 1000"
    using r(1) by (simp add: sat64_id duration_Microseconds_def sdiv_pos)
qed

lemma micros_exact: "0 < w \<Longrightarrow> 1000 dvd w \<Longrightarrow> duration_Microseconds w * 1000 = w"
  by (simp add: duration_Microseconds_def sdiv_pos)

lemma bucket_answer_exact:
  assumes q: "temporal_query_ok q" and F: "time_bucket_ok F" and w: "ResolutionDuration res = Some w" and p: "p = tq_Property q" "re_PublicURN ent = tq_EntityID q"
    and r: "bucket_answer F J ctx rf k d actor ent p q res w e = Inr r"
  shows "exact_temporal F J d actor q r"
proof -
  note Q = temporal_query_okD [OF q] and W = ResolutionDuration_facts [OF w]
  let ?f = "tg_From (tq_Range q)" and ?t = "tg_To (tq_Range q)" and ?n = "tq_MaxPoints q"
  obtain buckets s cl where b: "scanTemporalBucketRows ctx rf k (bucketTemporalHistoryQuery F J d actor ent p ?f ?t w (?n + 1)) = Inr (buckets, s)"
      "classifyTemporalWindow (Some s) p = Inr cl" "0 < cl_TotalCount cl \<longrightarrow> cl_ValueType cl = ''number''" "int (length buckets) \<le> ?n"
      "r = \<lparr>th_EntityID = re_PublicURN ent, th_Property = p, th_Unit = cl_Unit cl, th_From = ?f, th_To = ?t, th_Mode = ''bucket'', th_Resolution = res,
        th_PointCount = int (length buckets), th_TelemetryResult = None, th_TemporalPoints = [], th_TemporalBuckets = buckets\<rparr>"
    using r unfolding bucket_answer_def readTemporalBucketInternal_def Q(2-4) micros_exact [OF W(1,2)] by (auto split: if_splits)
  have "authorized_temporal d actor ent \<noteq> []"
    using b(1) scan_temporal_Inr(1) by (fastforce simp: bucketTemporalHistoryQuery_def scanTemporalBucketRows_def split: list.splits)
  then obtain src others where src: "authorized_temporal d actor ent = src # others" by (cases "authorized_temporal d actor ent") auto
  let ?S = "temporal_in d (te_id src) p ?f ?t"
  note B = scanTemporalBucketRows_buckets [OF src Q(1) b(1)]
  note C = classify_window [OF b(2) [unfolded B(1)] b(3)]
  have bs: "buckets = map (bucket_of F w (map as_sample ?S)) (take (nat (?n + 1)) (temporal_starts F w ?S))" by (rule B(2) [OF C(1)])
  have "length (take (nat (?n + 1)) (temporal_starts F w ?S)) \<le> nat ?n" using b(4) Q(1) unfolding bs by simp
  then have "length (temporal_starts F w ?S) \<le> nat (?n + 1)" using Q(1) by (simp add: min_def nat_add_distrib split: if_splits)
  then have "buckets = map (bucket_of F w (map as_sample ?S)) (bucket_starts F w (map as_sample ?S))" unfolding bs by (simp add: temporal_starts_eq)
  then have "bucket_partition F w (map as_sample ?S) buckets" using bucket_partition_starts [OF F W(1)] by simp
  then show ?thesis using authorized_temporal_shown [OF src] p w C(2) b(4)
    by (auto simp: exact_temporal_def Let_def b(5) ResolutionRaw_def intro!: bexI [of _ src])
qed

lemma raw_answer_exact:
  assumes q: "temporal_query_ok q" and p: "p = SelectorSampleIntervalUS" "p = tq_Property q" "re_PublicURN ent = tq_EntityID q"
    and d: "readTemporalDataInternal J ctx rf k d actor ent p (tg_From (tq_Range q)) (tg_To (tq_Range q)) (tq_MaxPoints q) = Inr (points, s)"
    and c: "classifyTemporalWindow (Some s) p = Inr cl" and l: "ws_TotalCount s \<le> tq_MaxPoints q" and r: "raw_answer ent p q cl points = Inr r"
  shows "exact_temporal F J d actor q r"
proof -
  note Q = temporal_query_okD [OF q]
  let ?f = "tg_From (tq_Range q)" and ?t = "tg_To (tq_Range q)" and ?n = "tq_MaxPoints q"
  have scan: "scanTemporalRows ctx rf k (rawTemporalHistoryQuery J d actor ent p ?f ?t (?n + 1)) = Inr (points, s)"
    using d unfolding readTemporalDataInternal_def Q(2-4) by simp
  have "authorized_temporal d actor ent \<noteq> []"
    using scan scan_temporal_Inr(1) by (fastforce simp: rawTemporalHistoryQuery_def scanTemporalRows_def split: list.splits)
  then obtain src others where src: "authorized_temporal d actor ent = src # others" by (cases "authorized_temporal d actor ent") auto
  let ?S = "temporal_in d (te_id src) p ?f ?t"
  note B = scanTemporalRows_raw [OF src Q(1) scan]
  note C = classify_window [OF c [unfolded B(1)] classify_interval]
  have len: "int (length ?S) \<le> ?n" using l by (simp add: B(1) window_summary_def)
  then have pts: "points = map tpoint_of (ordered_temporal ?S)" unfolding B(2) by simp
  have "unit_ok J ?S (cl_Unit cl)" using C(2) c by (simp add: p(1) B(1))
  then show ?thesis using authorized_temporal_shown [OF src] p(2,3) r len
    by (auto simp: exact_temporal_def raw_answer_def Let_def pts ResolutionRaw_def split: if_splits intro!: bexI [of _ src])
qed

lemma ReadTemporalHistory_exact:
  assumes q: "temporal_query_ok q" and F: "time_bucket_ok F" and u: "re_PublicURN ent = tq_EntityID q"
    and r: "ReadTemporalHistory F J ctx rf dbs actor ent q = Inr r"
  shows "\<exists>k. exact_temporal F J (dbs k) actor q r"
proof -
  have p: "tq_Property q = SelectorSampleIntervalUS" and i: "readTemporalHistoryInternal F J ctx rf dbs actor ent (tq_Property q) q = Inr r"
    using r by (auto simp: ReadTemporalHistory_def)
  let ?data = "readTemporalDataInternal J ctx rf 0 (dbs 0) actor ent (tq_Property q) (tg_From (tq_Range q)) (tg_To (tq_Range q)) (tq_MaxPoints q)"
  have "(\<exists>points s cl. ?data = Inr (points, s) \<and> classifyTemporalWindow (Some s) (tq_Property q) = Inr cl \<and> ws_TotalCount s \<le> tq_MaxPoints q \<and>
        raw_answer ent (tq_Property q) q cl points = Inr r) \<or>
     (\<exists>k res w e. ResolutionDuration res = Some w \<and> bucket_answer F J ctx rf k (dbs k) actor ent (tq_Property q) q res w e = Inr r)"
    using i unfolding readTemporalHistoryInternal_def auto_buckets_def Let_def
    by (auto simp: not_less split: if_splits option.splits sum.splits)
  then show ?thesis using raw_answer_exact [OF q p refl u, of J ctx rf 0 "dbs 0" actor] bucket_answer_exact [OF q F _ refl u] p by metis
qed


lemma history_query_ok:
  assumes "ValidateReadPreparationConfig cfg = None" "history_query_invalid cfg q = None"
  shows "temporal_query_ok q" "Resolution_Valid (tq_Resolution q)"
    "fits (tq_Range q) (tq_Resolution q) (rg_HistoryRawWindow cfg) (tq_MaxPoints q)"
    "effective_raw_window (rg_HistoryRawWindow cfg) = rg_HistoryRawWindow cfg" "0 < rg_HistoryRawWindow cfg"
    "tq_Property q = SelectorSampleIntervalUS \<or> tq_Property q = SelectorValue" "\<exists>g s. ParseEntityURN (tq_EntityID q) = Inr (sensor_identity g s)"
proof -
  have c: "0 < rg_HistoryMaxRange cfg" "rg_HistoryMaxRange cfg \<le> MaxHistoryMaxRange" "0 < rg_HistoryRawWindow cfg" "rg_HistoryRawWindow cfg \<le> MaxHistoryRawWindow"
      "100 \<le> rg_HistoryMinPoints cfg" "rg_HistoryMaxPoints cfg \<le> 2000"
    using assms(1) by (auto simp: ValidateReadPreparationConfig_def history_bounds split: if_splits)
  then show w: "effective_raw_window (rg_HistoryRawWindow cfg) = rg_HistoryRawWindow cfg" "0 < rg_HistoryRawWindow cfg" by (simp_all add: effective_raw_window_def)
  have v: "ValidateTwinHistoryQuery q = None" "rg_HistoryMinPoints cfg \<le> tq_MaxPoints q" "tq_MaxPoints q \<le> rg_HistoryMaxPoints cfg"
      "ValidateHistoryTimeRange (tq_Range q) (tq_Resolution q) (rg_HistoryMaxRange cfg) (rg_HistoryRawWindow cfg) (tq_MaxPoints q) = None"
    using assms(2) c(3,4) by (auto simp: history_query_invalid_def Let_def split: option.splits if_splits)
  note R = v(4) [unfolded ValidateHistoryTimeRange_None [OF c(1-3)]]
  show "Resolution_Valid (tq_Resolution q)" "fits (tq_Range q) (tq_Resolution q) (rg_HistoryRawWindow cfg) (tq_MaxPoints q)" using R by blast+
  have "range_ok (tq_Range q) MaxHistoryMaxRange" using R c(2) unfolding range_ok_def by (meson order_trans zdiv_mono1 zero_less_numeral)
  then show "temporal_query_ok q" using v(2,3) c(5,6) by (simp add: temporal_query_ok_def)
  show "tq_Property q = SelectorSampleIntervalUS \<or> tq_Property q = SelectorValue" "\<exists>g s. ParseEntityURN (tq_EntityID q) = Inr (sensor_identity g s)"
    using v(1)
    by (auto simp: ValidateTwinHistoryQuery_def HistorySelector_Valid_def gateway_identity_def EntityTypeGateway_def EntityTypeSensor_def
        split: sum.splits if_splits elim!: ParseEntityURN_Inr)
qed

lemma ResolveEntity_sensor:
  assumes "ResolveEntity tf d actor (sensor_identity g s) = Inr (Some ent)"
  shows "re_GatewayID ent = g" "re_SensorID ent = s" "re_Type ent = EntityTypeSensor" "re_PublicURN ent = SensorEntityID g s"
    "\<exists>e \<in> set (sensor_entities d actor (\<lambda>pe. te_entity_id pe = GatewayURNPrefix @ g) (SensorEntityID g s) g s). te_id e = re_InternalID ent"
  using assms
  by (auto simp: ResolveEntity_def sensor_identity_def sensor_entities_def Let_def EntityTypeGateway_def EntityTypeSensor_def split: if_splits sum.splits
      dest!: resolver_row_Inr)

definition delegated :: "string \<Rightarrow> string \<Rightarrow> TwinHistoryQuery \<Rightarrow> TelemetryHistoryQuery" where
  "delegated g s q = \<lparr>hq_GatewayID = g, hq_SensorID = s, hq_Range = tq_Range q, hq_Resolution = tq_Resolution q, hq_MaxPoints = tq_MaxPoints q\<rparr>"

lemma ExecuteEffective_exact:
  assumes "config_ok cfg" "time_bucket_ok F" "ExecuteEffectiveHistoryQuery cfg ctx (ReadTelemetryHistory cfg F ctx rf dbs) actor q = Inr r"
  shows "\<exists>k. exact_result F (dbs k) actor q r"
proof -
  have "executeEffectiveQuery cfg ctx (ReadTelemetryHistory cfg F ctx rf dbs) actor q = Inr r"
    using assms(3) by (auto simp: ExecuteEffectiveHistoryQuery_def split: option.splits)
  then obtain k res where "ReadTelemetryHistory cfg F ctx rf dbs k actor (q\<lparr>hq_Resolution := res\<rparr>) = Inr r"
    by (rule executeEffectiveQuery_reads)
  then show ?thesis using ReadTelemetryHistory_exact [OF assms(1,2)] exact_result_resolution by blast
qed

lemma delegate_Inr:
  assumes "delegateTelemetryHistory ctx delegate actor ent q = Inr r"
  obtains tr where "delegate actor (delegated (re_GatewayID ent) (re_SensorID ent) q) = Inr tr" "th_TelemetryResult r = Some tr" "th_Unit r = hr_Unit tr"
    "th_PointCount r = hr_PointCount tr" "th_EntityID r = re_PublicURN ent"
  using assms by (auto simp: delegateTelemetryHistory_def delegated_def Let_def split: option.splits sum.splits if_splits)

lemma exact_temporal_window: "exact_temporal F J d actor (q\<lparr>tq_EffectiveRawWindow := w\<rparr>) r \<longleftrightarrow> exact_temporal F J d actor q r"
  by (simp add: exact_temporal_def)

text \<open>The callback of the service for a prepared query.\<close>

definition history_callback ::
  "HistoryPreparationConfig \<Rightarrow> sql_funcs \<Rightarrow> jsonb_nonobject \<Rightarrow> twin_ctx \<Rightarrow> tmp_ctx \<Rightarrow> hist_ctx \<Rightarrow> read_faults \<Rightarrow> (nat \<Rightarrow> twin_db) \<Rightarrow> uuid \<Rightarrow>
     ResolvedEntity \<Rightarrow> TwinHistoryQuery \<Rightarrow> read_error + TwinHistoryResult" where
  "history_callback hcfg F J ctx tctx hctx rf dbs actor ent q =
     (if tq_Property q = SelectorSampleIntervalUS then ReadTemporalHistory F J tctx rf dbs actor ent q
      else if tq_Property q = SelectorValue then
        delegateTelemetryHistory ctx (ExecuteEffectiveHistoryQuery hcfg hctx (ReadTelemetryHistory hcfg F hctx rf (\<lambda>k. td_read (dbs k)))) actor ent q
      else Inl ErrInvalidProperty)"

lemma twin_history_eq:
  assumes "history_query_invalid cfg q = None" "ParseEntityURN (tq_EntityID q) = Inr p" "actor \<noteq> uuid_Nil"
  shows "twin_history cfg hcfg F J ctx tctx hctx tf rf d0 dbs actor q =
    with_entity ctx (ResolveEntity tf d0 actor) p
      (\<lambda>ent. history_callback hcfg F J ctx tctx hctx rf dbs actor ent (q\<lparr>tq_EffectiveRawWindow := effective_raw_window (rg_HistoryRawWindow cfg)\<rparr>))"
  using assms(3) unfolding twin_history_def GetTwinHistory_def PrepareHistory_def assms(1,2) effective_raw_window_def Let_def history_callback_def by simp

text \<open>C32. A Twin history answer is exact. Whatever fails or is cancelled and whatever the writers do between
  the statements: a result for the sampling interval shows, as one statement saw them, all rows stored for
  this Sensor's entity in the half-open interval and no others, for an entity of the actor's Gateways: a
  raw result in order of time and message, a bucket result with the exact counts, minima and maxima of
  the epoch-aligned buckets. Its unit is the common unit of all rows, and none only if all rows have
  none. A result for the measured value is the exact telemetry history of the Sensor named by the URN.
  The number of points never exceeds the request.\<close>

theorem twin_history_exact:
  assumes "ValidateReadPreparationConfig cfg = None" "config_ok hcfg" "time_bucket_ok F"
    and "twin_history cfg hcfg F J ctx tctx hctx tf rf d0 dbs actor q = Inr r"
  shows "(tq_Property q = SelectorSampleIntervalUS \<and> (\<exists>k. exact_temporal F J (dbs k) actor q r)) \<or>
    (tq_Property q = SelectorValue \<and> (\<exists>k g s tr. tq_EntityID q = SensorEntityID g s \<and> th_EntityID r = tq_EntityID q \<and> th_TelemetryResult r = Some tr \<and>
       th_Unit r = hr_Unit tr \<and> th_PointCount r = hr_PointCount tr \<and> exact_result F (td_read (dbs k)) actor (delegated g s q) tr))"
proof -
  have v: "history_query_invalid cfg q = None" using assms(4) by (auto simp: twin_history_def GetTwinHistory_def PrepareHistory_def split: if_splits option.splits)
  note H = history_query_ok [OF assms(1) v]
  obtain g s where p: "ParseEntityURN (tq_EntityID q) = Inr (sensor_identity g s)" using H(7) by blast
  let ?q = "q\<lparr>tq_EffectiveRawWindow := rg_HistoryRawWindow cfg\<rparr>"
  have "actor \<noteq> uuid_Nil" using assms(4) by (auto simp: twin_history_def GetTwinHistory_def PrepareHistory_def)
  then have "with_entity ctx (ResolveEntity tf d0 actor) (sensor_identity g s) (\<lambda>ent. history_callback hcfg F J ctx tctx hctx rf dbs actor ent ?q) = Inr r"
    using assms(4) twin_history_eq [OF v p] H(4) by simp
  then obtain ent where e: "ResolveEntity tf d0 actor (sensor_identity g s) = Inr (Some ent)" "history_callback hcfg F J ctx tctx hctx rf dbs actor ent ?q = Inr r"
    by (auto simp: with_entity_def split: sum.splits option.splits dest: after_callback_Inr)
  note E = ResolveEntity_sensor [OF e(1)]
  have urn: "tq_EntityID q = SensorEntityID g s" using ParseEntityURN_urn [OF p] by (simp add: sensor_identity_def)
  show ?thesis
  proof (cases "tq_Property q = SelectorSampleIntervalUS")
    case True
    have ok: "temporal_query_ok ?q" using H(1) by (simp add: temporal_query_ok_def)
    have "ReadTemporalHistory F J tctx rf dbs actor ent ?q = Inr r" using e(2) True by (simp add: history_callback_def)
    then show ?thesis using ReadTemporalHistory_exact [OF ok assms(3)] True E(4) urn exact_temporal_window by (metis (no_types, lifting) TwinHistoryQuery.ext_inject TwinHistoryQuery.surjective TwinHistoryQuery.update_convs(6))
  next
    case False
    then have val: "tq_Property q = SelectorValue" using H(6) by blast
    have "delegateTelemetryHistory ctx (ExecuteEffectiveHistoryQuery hcfg hctx (ReadTelemetryHistory hcfg F hctx rf (\<lambda>k. td_read (dbs k)))) actor ent ?q = Inr r"
      using e(2) False val by (simp add: history_callback_def)
    then obtain tr where t: "ExecuteEffectiveHistoryQuery hcfg hctx (ReadTelemetryHistory hcfg F hctx rf (\<lambda>k. td_read (dbs k))) actor (delegated g s q) = Inr tr"
        "th_TelemetryResult r = Some tr" "th_Unit r = hr_Unit tr" "th_PointCount r = hr_PointCount tr" "th_EntityID r = re_PublicURN ent"
      by (rule delegate_Inr) (use E(1,2) in \<open>simp add: delegated_def\<close>)
    then show ?thesis using ExecuteEffective_exact [OF assms(2,3) t(1)] val urn E(4) by metis
  qed
qed

text \<open>One stored interval of the Sensor, read by a member of its Gateway.\<close>

definition ty_row :: temporal_row where
  "ty_row = \<lparr>tv_observed_at = fx_start, tv_entity_id = 2, tv_property_name = ''sample_interval_us'', tv_value_number = Some 1000,
     tv_value_text = None, tv_value_boolean = None, tv_metadata = JObject [''unit'' \<mapsto> JString ''us''], tv_message_id = Some 9\<rparr>"

definition ty_db :: twin_db where
  "ty_db = tx_db\<lparr>td_read := \<lparr>rd_store = fx_db\<lparr>db_temporal := [ty_row]\<rparr>, rd_user_gateways = [(7, ''gw1'')]\<rparr>\<rparr>"

definition ty_query :: TwinHistoryQuery where
  "ty_query = \<lparr>tq_EntityID = ''urn:ngsi-ld:Sensor:gw1:s1'', tq_Property = SelectorSampleIntervalUS,
     tq_Range = \<lparr>tg_From = fx_start, tg_To = fx_start + nsPerSecond\<rparr>, tq_Resolution = ResolutionRaw, tq_MaxPoints = 100, tq_EffectiveRawWindow = 0\<rparr>"

definition ty_entity :: ResolvedEntity where
  "ty_entity = \<lparr>re_InternalID = 2, re_PublicURN = ''urn:ngsi-ld:Sensor:gw1:s1'', re_Type = ''Sensor'', re_GatewayID = ''gw1'', re_SensorID = ''s1''\<rparr>"

lemma ty_resolved: "ResolveEntity tx_faults ty_db 7 (sensor_identity ''gw1'' ''s1'') = Inr (Some ty_entity)"
  using fx_names
  by (simp add: ResolveEntity_def ty_db_def ty_entity_def tx_defs Let_def sensor_entities_def has_parent_def GatewayURNPrefix_def SensorURNPrefix_def
      GatewayEntityID_def SensorEntityID_def)

lemma ty_authorized: "authorized_temporal ty_db 7 ty_entity = [db_entities fx_db ! 1]"
  by (simp add: authorized_temporal_def sensor_entities_def has_parent_def ty_db_def ty_entity_def tx_defs GatewayURNPrefix_def SensorURNPrefix_def)

lemma ty_config: "ValidateReadPreparationConfig DefaultReadPreparationConfig = None"
  using tx_list_ok by (simp add: list_query_ok_def)

lemma ty_valid: "history_query_invalid DefaultReadPreparationConfig ty_query = None"
proof -
  have "ValidateHistoryTimeRange (tq_Range ty_query) (tq_Resolution ty_query) (rg_HistoryMaxRange DefaultReadPreparationConfig) MaxHistoryRawWindow 100 = None"
    by (subst ValidateHistoryTimeRange_None)
       (use hx_calendar in \<open>simp_all add: ty_query_def range_ok_def fits_def valid_cases DefaultReadPreparationConfig_def history_bounds contract_defs nsPerSecond_def\<close>)
  moreover have "rg_HistoryRawWindow DefaultReadPreparationConfig = MaxHistoryRawWindow"
    by (simp add: DefaultReadPreparationConfig_def history_bounds contract_defs)
  ultimately show ?thesis using tx_urns(2)
    by (simp add: history_query_invalid_def ValidateTwinHistoryQuery_def ty_query_def sensor_identity_def HistorySelector_Valid_def
        DefaultReadPreparationConfig_def contract_defs history_bounds Let_def)
qed

lemma ty_rows: "temporal_in ty_db 2 SelectorSampleIntervalUS fx_start (fx_start + nsPerSecond) = [ty_row]"
  by (simp add: temporal_in_def ty_db_def ty_row_def SelectorSampleIntervalUS_def nsPerSecond_def)

lemma ty_point: "temporal_point x ty_row = Inr (Some (tpoint_of ty_row))"
  by (simp add: temporal_point_def tpoint_of_def non_null_values_def ty_row_def)

lemma ty_summary:
  "ws_TotalCount (window_summary (\<lambda>_. False) [ty_row]) = 1"
  "classifyTemporalWindow (Some (window_summary (\<lambda>_. False) [ty_row])) SelectorSampleIntervalUS =
     Inr \<lparr>cl_ValueType = ''number'', cl_Unit = Some ''us'', cl_IsHomogeneous = True, cl_TotalCount = 1\<rparr>"
  by (simp_all add: window_summary_def classifyTemporalWindow_def count_if_def known_units_def sql_unit_def non_null_values_def ty_row_def
      isInvalidSampleInterval_def maxExactFloat64Integer_def)

lemma ty_read: "readTemporalDataInternal (\<lambda>_. False) (\<lambda>_. None) hx_faults 0 ty_db 7 ty_entity SelectorSampleIntervalUS fx_start (fx_start + nsPerSecond) 100 =
  Inr ([tpoint_of ty_row], window_summary (\<lambda>_. False) [ty_row])"
proof -
  have "te_id (db_entities fx_db ! 1) = 2" by (simp add: fx_db_def)
  moreover have "i64 101 = 101" by (simp add: i64_id int_bounds_defs)
  moreover have "re_Type ty_entity = EntityTypeSensor" by (simp add: ty_entity_def EntityTypeSensor_def)
  ultimately show ?thesis
    using hx_calendar(3,4) ty_summary(1) ty_point
    by (simp add: readTemporalDataInternal_def read_guard_def tm_check_def scanTemporalRows_def scan_temporal_def rawTemporalHistoryQuery_def
        ty_authorized ty_rows pg_timestamptz_id ordered_temporal_def hx_faults_def Let_def)
qed

lemma ty_answer:
  "\<exists>r. twin_history DefaultReadPreparationConfig DefaultHistoryPreparationConfig hx_funcs (\<lambda>_. False) (\<lambda>_. None) (\<lambda>_. None) (\<lambda>_. None) tx_faults hx_faults
     ty_db (\<lambda>_. ty_db) 7 ty_query = Inr r \<and> th_PointCount r = 1 \<and> th_Unit r = Some ''us''"
proof -
  let ?q = "ty_query\<lparr>tq_EffectiveRawWindow := effective_raw_window (rg_HistoryRawWindow DefaultReadPreparationConfig)\<rparr>"
  have urn: "ParseEntityURN (tq_EntityID ty_query) = Inr (sensor_identity ''gw1'' ''s1'')" using tx_urns(2) by (simp add: ty_query_def)
  have "\<exists>r. ReadTemporalHistory hx_funcs (\<lambda>_. False) (\<lambda>_. None) hx_faults (\<lambda>_. ty_db) 7 ty_entity ?q = Inr r \<and> th_PointCount r = 1 \<and> th_Unit r = Some ''us''"
  proof -
    have w: "\<not> duration_Microseconds (effective_raw_window (tq_EffectiveRawWindow ?q)) < duration_Microseconds (sat64 nsPerSecond)"
      by (simp add: effective_raw_window_def DefaultReadPreparationConfig_def history_bounds contract_defs duration_Microseconds_def nsPerSecond_def sat64_def int_bounds_defs)
    have "\<not> interval_point_bad (tpoint_of ty_row)"
      by (simp add: interval_point_bad_def tpoint_of_def ty_row_def isInvalidSampleInterval_def maxExactFloat64Integer_def)
    then have "raw_answer ty_entity SelectorSampleIntervalUS ?q c [tpoint_of ty_row] = Inr r \<Longrightarrow> th_PointCount r = 1 \<and> th_Unit r = cl_Unit c" for c r
      by (auto simp: raw_answer_def)
    moreover have "\<exists>r. raw_answer ty_entity SelectorSampleIntervalUS ?q c [tpoint_of ty_row] = Inr r" for c
      using \<open>\<not> interval_point_bad (tpoint_of ty_row)\<close> by (simp add: raw_answer_def)
    moreover have "ReadTemporalHistory hx_funcs (\<lambda>_. False) (\<lambda>_. None) hx_faults (\<lambda>_. ty_db) 7 ty_entity ?q =
        raw_answer ty_entity SelectorSampleIntervalUS ?q \<lparr>cl_ValueType = ''number'', cl_Unit = Some ''us'', cl_IsHomogeneous = True, cl_TotalCount = 1\<rparr> [tpoint_of ty_row]"
      using w ty_read ty_summary
      by (simp add: ReadTemporalHistory_def readTemporalHistoryInternal_def tm_check_def ty_query_def ty_entity_def EntityTypeSensor_def valid_cases
          nsPerSecond_def Let_def)
    ultimately show ?thesis by fastforce
  qed
  then show ?thesis
    using twin_history_eq [OF ty_valid urn, of 7] ty_resolved
    by (auto simp: with_entity_def tw_check_def after_callback_def history_callback_def ty_query_def)
qed

theorem twin_history_exact_witness:
  "\<exists>r. th_PointCount r = 1 \<and> th_Unit r = Some ''us'' \<and> exact_temporal hx_funcs (\<lambda>_. False) ty_db 7 ty_query r"
proof -
  from ty_answer obtain r where r: "twin_history DefaultReadPreparationConfig DefaultHistoryPreparationConfig hx_funcs (\<lambda>_. False) (\<lambda>_. None) (\<lambda>_. None)
      (\<lambda>_. None) tx_faults hx_faults ty_db (\<lambda>_. ty_db) 7 ty_query = Inr r" "th_PointCount r = 1" "th_Unit r = Some ''us''" by blast
  have "tq_Property ty_query = SelectorSampleIntervalUS" "SelectorSampleIntervalUS \<noteq> SelectorValue"
    by (simp_all add: ty_query_def SelectorSampleIntervalUS_def SelectorValue_def)
  then show ?thesis using twin_history_exact [OF ty_config hx_config hx_bucket r(1)] r(2,3) by auto
qed

end
