(* ===== verification/Spec2Isabelle.thy ===== *)
theory Spec2Isabelle
  imports ValidationProperties IngressTheorems OutboxTheorems SchedulerTheorems Protocol CredentialDisclosure HistoryParserTheorems TwinTemporalTheorems
begin

text \<open>
  A verification library for the telemetry path, its history and Digital Twin reads, and the credential
  administration of an IoT server
  written in Go (\<open>src/src/internal\<close>, migrations in \<open>src/migrations\<close>).

  \<^bold>\<open>The program.\<close> A Gateway collects samples of Sensors and publishes them over MQTT as
  \<open>telemetry_batch\<close> messages; the repository contains such a Gateway as a simulator (package
  \<open>gatewaysim\<close>). The server subscribes (\<open>mqttingress\<close>), validates each message and writes it in one
  transaction to PostgreSQL (\<open>telemetry\<close>), and publishes a \<open>commit_ack\<close> after the commit. The Gateway
  keeps every batch in a SQLite outbox until its acknowledgement arrives, and sends it again until
  then. Independently of this an administrator provisions, rotates, revokes and resets the MQTT
  credential of a Gateway (\<open>mqttcredential\<close>): an operation is recorded as an intent in a journal,
  executed on the broker, completed in the journal, and its new password is shown once. Users read the
  stored samples as histories (\<open>telemetry\<close>) and the Gateways and Sensors as Digital Twins (\<open>digitaltwin\<close>)
  through query strings that \<open>httpserver\<close> parses.

  \<^bold>\<open>Go and its standard library.\<close> Results of fallible functions are sums, \<open>Inl\<close> the error; integers
  are \<open>int\<close> with the wrap-around written out (\<open>i64\<close>) or words; structs are records, maps are maps or
  association lists where the code depends on their order.
    \<^item> \<^theory_text>\<open>Prelude\<close>: results, widths, string functions, shared lemmas and simp collections.
    \<^item> \<^theory_text>\<open>GoTime\<close>: calendar, RFC 3339 parsing and formatting; \<^theory_text>\<open>GoJson\<close>, \<^theory_text>\<open>GoNumber\<close>, \<^theory_text>\<open>GoFloat\<close>: the token
      level of \<open>encoding/json\<close>, \<open>strconv\<close>, and \<open>float64\<close> with rounding and printing; \<^theory_text>\<open>Sha256\<close>.
    \<^item> \<^theory_text>\<open>Uuid\<close>: the package \<open>google/uuid\<close> is not in the repository; it is the parameter \<open>uuid_pkg\<close> with
      the documented facts \<open>uuid_text_ok\<close> (the text form has 36 bytes and parses back) and
      \<open>uuid_validate_ok\<close> (\<open>Validate\<close> accepts the text form) as hypotheses, and a canonical instance for the
      witnesses.
    \<^item> \<^theory_text>\<open>Transitions\<close>: the locales \<open>transition_system\<close> (reachability, invariants) and \<open>decreasing\<close>
      (termination by a measure), interpreted by every state machine below.

  \<^bold>\<open>Validation\<close> (\<open>telemetry/errors.go\<close>, \<open>topic.go\<close>, \<open>decode.go\<close>, \<open>validation.go\<close>, \<open>ack.go\<close>,
  \<open>gatewaysim/ack.go\<close>; \<open>gateway/identifier.go\<close>). \<^theory_text>\<open>TelemetryModel\<close>, \<^theory_text>\<open>TelemetryDecode\<close>, \<^theory_text>\<open>TelemetryValidation\<close>
  and \<^theory_text>\<open>CommitAck\<close> translate the functions one by one; \<^theory_text>\<open>MeasuredAt\<close> and \<^theory_text>\<open>ValidationProperties\<close> show what an
  accepted message guarantees, that the 64-bit range checks are exact, that a rejection is final or a
  clock problem, that a topic is accepted exactly when it is a telemetry topic, and that an
  acknowledgement is parsed by its Gateway only.

  \<^bold>\<open>Repository\<close> (\<open>telemetry/postgres_*.go\<close>). \<^theory_text>\<open>TelemetryStore\<close> has the tables as state and each SQL
  statement as the function its text denotes; which calls fail, whether a failed commit was applied
  and the transaction's clock are the parameter \<open>db_env\<close>. \<^theory_text>\<open>StoreProofs\<close>, \<^theory_text>\<open>StoreInvariant\<close> and
  \<^theory_text>\<open>StoreTheorems\<close> hold the effect of a call and the invariant of the tables. \<^theory_text>\<open>RepositoryContract\<close> states
  the contract of the Go interface as the locale \<open>message_store\<close>, interpreted by \<open>Persist\<close>;
  \<^theory_text>\<open>RepositoryRefinement\<close> shows that \<open>Persist\<close> refines an abstract ledger. \<^theory_text>\<open>Fixtures\<close> is one concrete
  deployment on which the witnesses evaluate.

  \<^bold>\<open>Ingress\<close> (\<open>mqttingress/ingress.go\<close>, \<open>counters.go\<close>). \<^theory_text>\<open>Ingress\<close> models admission, queue, worker pool,
  processing and shutdown with the goroutines interleaved at every access to shared state: a worker
  carries the place it has reached in \<open>process\<close>, and an admission enqueues, counts and marks in three
  steps. \<^theory_text>\<open>IngressProofs\<close> and \<^theory_text>\<open>IngressTheorems\<close> prove bounds and conservation laws,
  with what is in flight between two counters accounted for, that an acknowledgement is published only for a stored message (in the locale
  \<open>ack_pipeline\<close>, which extends \<open>message_store\<close> by the validator's contract), and that draining ends.

  \<^bold>\<open>Gateway simulator\<close> (\<open>gatewaysim/batch.go\<close>, \<open>outbox*.go\<close>, \<open>ack.go\<close>, \<open>latency.go\<close>, \<open>scheduler.go\<close>).
  \<^theory_text>\<open>Batch\<close>: every batch it builds is accepted by the server's validator and survives its JSON text.
  \<^theory_text>\<open>Outbox\<close>, \<^theory_text>\<open>OutboxProofs\<close>, \<^theory_text>\<open>OutboxTheorems\<close>: the SQLite file as state, every SQL call may fail.
  \<^theory_text>\<open>AckProcessor\<close> and \<^theory_text>\<open>Latency\<close>: the acknowledgement worker and the bounded latency tracker.
  \<^theory_text>\<open>Scheduler\<close>, \<^theory_text>\<open>Retry\<close>, \<^theory_text>\<open>SchedulerProofs\<close>, \<^theory_text>\<open>SchedulerTheorems\<close>: the loop, its publish goroutines and the drain
  as one machine; clocks, random numbers and UUIDs are inputs of a pass.

  \<^bold>\<open>The protocol.\<close> \<^theory_text>\<open>Protocol\<close> composes the Gateway's outbox and acknowledgement worker with the server's
  ingress and repository over a broker that loses, repeats and reorders messages, with restarts on
  both sides: a batch leaves the outbox only when it is stored completely on the server. Relied on is
  the broker's access control (\<open>src/config/mosquitto\<close>, \<open>docs/protocols/mqtt-v1.md\<close>): only the Gateway
  publishes on its telemetry topics and only the server on its acknowledgement topics.

  \<^bold>\<open>Histories\<close> (\<open>telemetry/history_*.go\<close>, \<open>postgres_history_repository.go\<close>; \<open>httpserver/history_query_parser.go\<close>,
  \<open>config/read_bounds.go\<close>). \<^theory_text>\<open>History\<close> and \<^theory_text>\<open>HistoryStore\<close>: resolutions, bucket arithmetic, preparation and both
  readers with every failing call and cancelled context as a parameter; \<^theory_text>\<open>HistoryProofs\<close> and
  \<^theory_text>\<open>HistoryTheorems\<close>: a result is exactly what is stored, and what was committed is found. \<^theory_text>\<open>HistoryParser\<close>,
  \<^theory_text>\<open>HistoryParserTheorems\<close>: the strict query strings, and that what they accept is answered. The functions
  \<open>time_bucket\<close> and \<open>avg\<close> of the database are the parameter \<open>sql_funcs\<close>; of the first its documented meaning
  (the start of the epoch-aligned bucket) is the hypothesis \<open>time_bucket_ok\<close>.

  \<^bold>\<open>Digital Twin reads\<close> (\<open>digitaltwin/identity.go\<close>, \<open>cursor.go\<close>, \<open>validation.go\<close>, \<open>read_*.go\<close>,
  \<open>postgres_resolver.go\<close>, \<open>postgres_twin_reader.go\<close>, \<open>postgres_temporal_reader.go\<close>;
  \<open>httpserver/twin_query_parser.go\<close>). \<^theory_text>\<open>TwinIdentity\<close> and \<^theory_text>\<open>TwinCursor\<close>: URNs and pagination cursors.
  \<^theory_text>\<open>TwinRead\<close>, \<^theory_text>\<open>TwinReadTheorems\<close>: list, detail and state; only entities of the actor are shown, others look
  like missing ones, and following the cursors shows everything once. \<^theory_text>\<open>TwinTemporal\<close>,
  \<^theory_text>\<open>TwinTemporalTheorems\<close>: histories of Twin properties are exact, and the value is delegated to the
  telemetry history. Each statement reads its own snapshot, which may differ from the one before.

  \<^bold>\<open>Credentials\<close> (\<open>mqttcredential\<close>). \<^theory_text>\<open>CredentialModel\<close>: \<open>model.go\<close> and \<open>reset_contract.go\<close>.
  \<^theory_text>\<open>CredentialStore\<close>: the repository (\<open>postgres_repository.go\<close>, \<open>postgres_simplified_operation.go\<close>,
  \<open>postgres_operation.go\<close>, \<open>postgres_finalization.go\<close>, \<open>postgres_reset.go\<close>) with the constraints of the
  migrations. \<^theory_text>\<open>CredentialJournal\<close>, \<^theory_text>\<open>CredentialInvariant\<close>, \<^theory_text>\<open>CredentialTheorems\<close>: the effect of each transaction,
  the journal as a transition system over any number of processes, and its properties: it satisfies
  what the database's deferred triggers check, versions increase, history is append-only, and two dead
  ends of the reset operation. \<^theory_text>\<open>CredentialService\<close>: \<open>service.go\<close> on the simplified path, the one
  \<open>cmd/server/credential.go\<close> wires up (it supplies a reset prerequisite that always refuses, so the
  results on resets concern code that is complete but not yet enabled). \<^theory_text>\<open>CredentialDisclosure\<close>: over
  the life of the server a password is disclosed at most once, for a recorded and proved success. The
  broker executor is a parameter that may answer anything, and other writers are arbitrary journal
  steps between any two calls of a request.

  \<^bold>\<open>Bounds.\<close> No definition of the code uses fuel: the recursions that are not structural have measures (the JSON
  scanner consumes its input, the copy source advances). The client of the lists (\<open>follow\<close>) has a bound on
  its pages, one more than there are entities, which is shown to be enough. The database clock is assumed to be at least
  one microsecond after the epoch, where Go's zero time would be ambiguous. Doubles are printed for
  the values the simulator produces, between 20 and 30.

  \<^bold>\<open>Not modelled.\<close> The MQTT transports on the paho client, the dynamic-security client and adapters, the
  older lifecycle contract of the credential service with its maintenance tables, the write operations
  of the Digital Twins, Gateway and user administration, token verification, the loading of the
  configuration from the environment, HTTP routing and rendering, and process wiring. They are I/O
  around the modelled core or administration beside it.
\<close>

end
